(* ===== verification/Prelude.thy ===== *)
theory Prelude imports Main "HOL-Library.AList" "HOL-Library.Sublist" "HOL-Library.Char_ord" "HOL-Library.List_Lexorder" begin

text \<open>
  Shared vocabulary of the development: the Python values the runtime passes around as
  \<open>Any\<close>, the string and dictionary operations of the standard library that the source
  uses, and the generic lemmas on lists, association lists and finite sets that several
  component theories need.

  \<^item> A Python value is a \<open>pyval\<close>; a dictionary is an association list in insertion order
    (\<open>pydict\<close>), looked up with \<open>map_of\<close> and written with \<open>AList.update\<close>, which replaces in
    place or appends, as a Python dictionary does.
  \<^item> Floats inside JSON values are left out of \<open>pyval\<close>; strings are ASCII, where
    \<open>str.casefold\<close>, \<open>str.lower\<close> and \<open>str.upper\<close> only move the letters A-Z.
  \<^item> SHA-256 is a parameter \<open>sha\<close> of the definitions that hash, applied to the bytes that
    the source feeds it (the canonical JSON text computed here).
\<close>

section \<open>Fact collections\<close>

named_theorems enum_simps \<open>value strings of the enumerations\<close>
named_theorems frame_simps \<open>fields an operation leaves alone\<close>
named_theorems inv_intros \<open>an operation keeps its component's invariant\<close>

section \<open>Python values\<close>

datatype pyval =
    PNone
  | PBool bool
  | PInt int
  | PStr string
  | PList "pyval list"
  | PDict "(string \<times> pyval) list"

type_synonym pydict = "(string \<times> pyval) list"

text \<open>Truth value testing.\<close>

fun py_truthy :: "pyval \<Rightarrow> bool" where
  "py_truthy PNone = False"
| "py_truthy (PBool b) = b"
| "py_truthy (PInt i) = (i \<noteq> 0)"
| "py_truthy (PStr s) = (s \<noteq> [])"
| "py_truthy (PList xs) = (xs \<noteq> [])"
| "py_truthy (PDict d) = (d \<noteq> [])"

text \<open>\<open>isinstance(v, Mapping)\<close>, \<open>isinstance(v, str)\<close> and dictionary access.\<close>

fun as_dict :: "pyval \<Rightarrow> pydict option" where
  "as_dict (PDict d) = Some d"
| "as_dict _ = None"

fun as_str :: "pyval \<Rightarrow> string option" where
  "as_str (PStr s) = Some s"
| "as_str _ = None"

definition dict_get :: "pydict \<Rightarrow> string \<Rightarrow> pyval" where
  "dict_get d k = (case map_of d k of None \<Rightarrow> PNone | Some v \<Rightarrow> v)"

text \<open>\<open>d.get(k, default)\<close>, and \<open>str(d.get(k, ""))\<close>.\<close>

definition dict_get_or :: "pydict \<Rightarrow> string \<Rightarrow> pyval \<Rightarrow> pyval" where
  "dict_get_or d k v = (case map_of d k of None \<Rightarrow> v | Some w \<Rightarrow> w)"

text \<open>An optional string as a value, and \<open>a or b\<close> on optional strings and on values.\<close>

definition opt_str :: "string option \<Rightarrow> pyval" where
  "opt_str x = (case x of None \<Rightarrow> PNone | Some s \<Rightarrow> PStr s)"

definition or_str :: "string option \<Rightarrow> string option \<Rightarrow> string option" where
  "or_str a b = (if a = None \<or> a = Some [] then b else a)"

definition py_or :: "pyval \<Rightarrow> pyval \<Rightarrow> pyval" where
  "py_or a b = (if py_truthy a then a else b)"

definition has_key :: "pydict \<Rightarrow> string \<Rightarrow> bool" where
  "has_key d k \<longleftrightarrow> map_of d k \<noteq> None"

definition dict_merge :: "pydict \<Rightarrow> pydict \<Rightarrow> pydict" where
  "dict_merge a b = fold (\<lambda>(k, v) d. AList.update k v d) b a"

text \<open>A dictionary display: later entries for a key win.\<close>

definition dict_of :: "(string \<times> pyval) list \<Rightarrow> pydict" where
  "dict_of kvs = dict_merge [] kvs"

lemma size_dict_value [termination_simp]:
  "(k, v) \<in> set d \<Longrightarrow> size v < Suc (size_list (size_prod (\<lambda>_. 0) size) d)"
  by (induction d) auto

lemma size_list_elem [termination_simp]:
  "x \<in> set xs \<Longrightarrow> size (x :: pyval) < Suc (size_list size xs)"
  by (induction xs) auto

text \<open>
  Python equality: booleans are the integers 0 and 1, lists compare elementwise and
  dictionaries compare as sets of entries, whatever their insertion order.
\<close>

fun py_num :: "pyval \<Rightarrow> int option" where
  "py_num (PBool b) = Some (if b then 1 else 0)"
| "py_num (PInt i) = Some i"
| "py_num _ = None"

function (sequential) py_eq :: "pyval \<Rightarrow> pyval \<Rightarrow> bool" where
  "py_eq (PList xs) (PList ys) =
     (length xs = length ys \<and> list_all (\<lambda>(x, y). py_eq x y) (zip xs ys))"
| "py_eq (PDict a) (PDict b) =
     (length a = length b \<and>
      list_all (\<lambda>(k, v). case map_of b k of None \<Rightarrow> False | Some w \<Rightarrow> py_eq v w) a)"
| "py_eq (PStr s) (PStr t) = (s = t)"
| "py_eq PNone PNone = True"
| "py_eq x y = (case (py_num x, py_num y) of (Some i, Some j) \<Rightarrow> i = j | _ \<Rightarrow> False)"
  by pat_completeness auto
termination
  by (relation "measure (\<lambda>(a, b). size a)")
    (auto dest!: set_zip_leftD simp: size_list_elem size_dict_value)

section \<open>Strings\<close>

definition lower_char :: "char \<Rightarrow> char" where
  "lower_char c = (let n = (of_char c :: nat) in if 65 \<le> n \<and> n \<le> 90 then char_of (n + 32) else c)"

definition upper_char :: "char \<Rightarrow> char" where
  "upper_char c = (let n = (of_char c :: nat) in if 97 \<le> n \<and> n \<le> 122 then char_of (n - 32) else c)"

definition casefold :: "string \<Rightarrow> string" where
  "casefold s = map lower_char s"

definition upper :: "string \<Rightarrow> string" where
  "upper s = map upper_char s"

text \<open>\<open>needle in hay\<close> on strings, \<open>str.startswith\<close> and \<open>sep.join(parts)\<close>.\<close>

fun contains :: "string \<Rightarrow> string \<Rightarrow> bool" where
  "contains needle [] = (needle = [])"
| "contains needle (c # cs) = (prefix needle (c # cs) \<or> contains needle cs)"

fun join :: "string \<Rightarrow> string list \<Rightarrow> string" where
  "join sep [] = []"
| "join sep [x] = x"
| "join sep (x # y # ys) = x @ sep @ join sep (y # ys)"

fun split_on_aux :: "char \<Rightarrow> string \<Rightarrow> string \<Rightarrow> string list" where
  "split_on_aux c acc [] = [rev acc]"
| "split_on_aux c acc (x # xs) =
     (if x = c then rev acc # split_on_aux c [] xs else split_on_aux c (x # acc) xs)"

definition split_on :: "char \<Rightarrow> string \<Rightarrow> string list" where
  "split_on c s = split_on_aux c [] s"

text \<open>\<open>str.isspace\<close> for ASCII, \<open>str.split()\<close> and \<open>str.strip()\<close>.\<close>

definition is_space :: "char \<Rightarrow> bool" where
  "is_space c = (let n = (of_char c :: nat) in n = 32 \<or> (9 \<le> n \<and> n \<le> 13) \<or> (28 \<le> n \<and> n \<le> 31))"

fun split_ws_aux :: "string \<Rightarrow> string \<Rightarrow> string list" where
  "split_ws_aux acc [] = (if acc = [] then [] else [rev acc])"
| "split_ws_aux acc (x # xs) =
     (if is_space x then (if acc = [] then split_ws_aux [] xs else rev acc # split_ws_aux [] xs)
      else split_ws_aux (x # acc) xs)"

definition split_ws :: "string \<Rightarrow> string list" where
  "split_ws s = split_ws_aux [] s"

definition strip :: "string \<Rightarrow> string" where
  "strip s = rev (dropWhile is_space (rev (dropWhile is_space s)))"

lemma contains_iff_sublist: "contains needle hay \<longleftrightarrow> sublist needle hay"
  by (induction hay) (auto simp: sublist_Cons_right)

lemma contains_append: "contains needle (a @ needle @ b)"
  by (simp add: contains_iff_sublist sublist_append_leftI sublist_append_rightI)

lemma casefold_idem [simp]: "casefold (casefold s) = casefold s"
proof -
  have "lower_char (lower_char c) = lower_char c" for c
    by (auto simp: lower_char_def Let_def of_char_of)
  then show ?thesis by (simp add: casefold_def)
qed

section \<open>\<open>str\<close>, \<open>repr\<close> and canonical JSON\<close>

fun nat_digits :: "nat \<Rightarrow> string" where
  "nat_digits n =
     (if n < 10 then [char_of (48 + n)] else nat_digits (n div 10) @ [char_of (48 + n mod 10)])"

declare nat_digits.simps [simp del]

definition int_str :: "int \<Rightarrow> string" where
  "int_str i = (if i < 0 then CHR ''-'' # nat_digits (nat (- i)) else nat_digits (nat i))"

definition hex_digit :: "nat \<Rightarrow> char" where
  "hex_digit n = (if n < 10 then char_of (48 + n) else char_of (87 + n))"

text \<open>Python's \<open>repr\<close> of a string: quotes, backslashes and control characters escaped.\<close>

definition repr_char :: "char \<Rightarrow> char \<Rightarrow> string" where
  "repr_char q c =
     (let n = (of_char c :: nat) in
      if c = q \<or> n = 92 then [char_of (92::nat), c]
      else if n = 10 then [char_of (92::nat), CHR ''n'']
      else if n = 13 then [char_of (92::nat), CHR ''r'']
      else if n = 9 then [char_of (92::nat), CHR ''t'']
      else if n < 32 \<or> n = 127 then
        [char_of (92::nat), CHR ''x'', hex_digit (n div 16), hex_digit (n mod 16)]
      else [c])"

definition repr_str :: "string \<Rightarrow> string" where
  "repr_str s =
     (let sq = char_of (39::nat); dq = char_of (34::nat);
          q = (if sq \<in> set s \<and> dq \<notin> set s then dq else sq)
      in q # concat (map (repr_char q) s) @ [q])"

fun py_repr :: "pyval \<Rightarrow> string" where
  "py_repr PNone = ''None''"
| "py_repr (PBool b) = (if b then ''True'' else ''False'')"
| "py_repr (PInt i) = int_str i"
| "py_repr (PStr s) = repr_str s"
| "py_repr (PList xs) = ''['' @ join '', '' (map py_repr xs) @ '']''"
| "py_repr (PDict d) = ''{'' @ join '', '' (map (\<lambda>(k, v). repr_str k @ '': '' @ py_repr v) d) @ ''}''"

fun py_str :: "pyval \<Rightarrow> string" where
  "py_str (PStr s) = s"
| "py_str v = py_repr v"

text \<open>
  \<open>json.dumps(value, ensure_ascii=False, sort_keys=True, separators=(isep, ksep))\<close>:
  the item separator \<open>isep\<close> and the key separator \<open>ksep\<close> are arguments.
\<close>

definition json_char :: "char \<Rightarrow> string" where
  "json_char c =
     (let n = (of_char c :: nat); b = char_of (92::nat) in
      if n = 34 \<or> n = 92 then [b, c]
      else if n = 10 then [b, CHR ''n'']
      else if n = 13 then [b, CHR ''r'']
      else if n = 9 then [b, CHR ''t'']
      else if n = 8 then [b, CHR ''b'']
      else if n = 12 then [b, CHR ''f'']
      else if n < 32 then
        [b, CHR ''u'', CHR ''0'', CHR ''0'', hex_digit (n div 16), hex_digit (n mod 16)]
      else [c])"

definition json_quote :: "string \<Rightarrow> string" where
  "json_quote s = char_of (34::nat) # concat (map json_char s) @ [char_of (34::nat)]"

fun json_dumps :: "string \<Rightarrow> string \<Rightarrow> pyval \<Rightarrow> string" where
  "json_dumps isep ksep PNone = ''null''"
| "json_dumps isep ksep (PBool b) = (if b then ''true'' else ''false'')"
| "json_dumps isep ksep (PInt i) = int_str i"
| "json_dumps isep ksep (PStr s) = json_quote s"
| "json_dumps isep ksep (PList xs) = ''['' @ join isep (map (json_dumps isep ksep) xs) @ '']''"
| "json_dumps isep ksep (PDict d) =
     ''{'' @ join isep (map (\<lambda>(k, t). json_quote k @ ksep @ t)
       (sort_key fst (map (\<lambda>(k, v). (k, json_dumps isep ksep v)) d))) @ ''}''"

abbreviation json_compact :: "pyval \<Rightarrow> string" where
  "json_compact \<equiv> json_dumps '','' '':''"

text \<open>
  \<open>_digest\<close> and \<open>_canonical_digest\<close>: the hash of at most 16384 bytes of canonical JSON;
  \<open>stable_hash\<close> hashes the whole text.
\<close>

definition py_digest :: "(string \<Rightarrow> string) \<Rightarrow> pyval \<Rightarrow> string" where
  "py_digest sha v = sha (take 16384 (json_compact v))"

definition stable_hash :: "(string \<Rightarrow> string) \<Rightarrow> pyval \<Rightarrow> string" where
  "stable_hash sha v = sha (json_compact v)"

section \<open>Generic lemmas\<close>

lemma map_of_update_iff [simp]:
  "map_of (AList.update k v d) x = (if x = k then Some v else map_of d x)"
  by (simp add: update_conv')

lemma find_Some_set: "List.find P xs = Some x \<Longrightarrow> x \<in> set xs \<and> P x"
  by (auto simp: find_Some_iff)

lemma find_None_iff_all: "List.find P xs = None \<longleftrightarrow> (\<forall>x\<in>set xs. \<not> P x)"
  by (auto simp: find_None_iff)

lemma take_last_length: "length (drop (length xs - n) xs) \<le> n"
  by simp

text \<open>The last \<open>n\<close> elements: Python's \<open>xs[-n:]\<close> for a positive \<open>n\<close>.\<close>

definition last_n :: "nat \<Rightarrow> 'a list \<Rightarrow> 'a list" where
  "last_n n xs = drop (length xs - n) xs"

lemma length_last_n [simp]: "length (last_n n xs) = min n (length xs)"
  by (simp add: last_n_def)

lemma set_last_n: "set (last_n n xs) \<subseteq> set xs"
  by (simp add: last_n_def set_drop_subset)

end
