(* ===== verification/Enums.thy ===== *)
theory Enums imports Prelude begin

text \<open>
  The enumerations of \<open>src/lhas/domain/enums.py\<close>, the durable event of
  \<open>src/lhas/domain/models.py\<close> and the append-only event store of
  \<open>src/lhas/persistence/event_store.py\<close>.

  Members of different enumerations share names in the source (\<open>FAILED\<close> is a task, a run
  and an attempt status), so each constructor carries its enumeration's prefix. The event
  catalog is split into one datatype per commented section of the class \<open>EventType\<close>, with
  \<open>event_type\<close> their sum. The functions ending in \<open>_value\<close> give the \<open>.value\<close> strings
  where the source compares or stores them.
\<close>

section \<open>Statuses, failures and recovery actions\<close>

datatype task_status =
    Task_CREATED | Task_READY | Task_RUNNING | Task_VALIDATING | Task_RECOVERING
  | Task_COMPLETED | Task_FAILED | Task_BLOCKED | Task_BLOCKED_PROVIDER | Task_ESCALATED
  | Task_CANCELLED

datatype run_status =
    Run_CREATED | Run_RUNNING | Run_COMPLETED | Run_FAILED | Run_ESCALATED | Run_CANCELLED
  | Run_BLOCKED_PROVIDER

datatype execution_health =
    Health_ACTIVE | Health_IDLE | Health_STALLED | Health_UNKNOWN

datatype attempt_status =
    Attempt_PENDING | Attempt_RUNNING | Attempt_COMPLETED | Attempt_FAILED | Attempt_TIMED_OUT
  | Attempt_CRASHED

datatype execution_status =
    Exec_SUCCESS | Exec_FAILURE | Exec_TIMEOUT | Exec_CRASH

datatype failure_class =
    FC_EXECUTION | FC_DATA | FC_REASONING | FC_CONTEXT | FC_ACTION | FC_UNKNOWN

datatype failure_type =
    FT_TIMEOUT | FT_EXECUTOR_CRASH | FT_TOOL_ERROR | FT_NETWORK_ERROR | FT_QUOTA_EXHAUSTED
  | FT_BILLING_OR_CREDIT_EXHAUSTED | FT_AUTH_INVALID | FT_PROVIDER_UNAVAILABLE
  | FT_PROVIDER_TIMEOUT | FT_MALFORMED_PROVIDER_RESPONSE | FT_UNKNOWN_PROVIDER_FAILURE
  | FT_BUDGET_EXHAUSTED | FT_EMPTY_RESULT | FT_INVALID_JD | FT_DUPLICATE_JOB | FT_EXPIRED_JOB
  | FT_MISSING_REQUIRED_FIELD | FT_VERIFICATION_REJECTED | FT_WRONG_MATCH | FT_WRONG_ASSUMPTION
  | FT_BAD_RANKING | FT_INCOMPLETE_ANALYSIS | FT_MISSING_CONTEXT | FT_STALE_CONTEXT
  | FT_CONTEXT_CONFLICT | FT_CONTEXT_OVERLOAD | FT_LOGIN_REQUIRED | FT_FORM_CHANGED
  | FT_FIELD_VALIDATION_ERROR | FT_UPLOAD_FAILED | FT_DUPLICATE_APPLICATION
  | FT_APPROVAL_REQUIRED | FT_UNKNOWN

datatype failure_level =
    FL_TOOL | FL_ATTEMPT | FL_TASK | FL_PLAN | FL_GOAL

datatype recovery_action_type =
    RA_RETRY_WITH_FAILURE_CONTEXT | RA_RETRY_WITH_EXPANDED_CONTEXT | RA_ESCALATE | RA_ABORT
  | RA_HUMAN_APPROVAL | RA_BLOCK_PROVIDER

primrec failure_class_value :: "failure_class \<Rightarrow> string" where
  "failure_class_value FC_EXECUTION = ''EXECUTION''"
| "failure_class_value FC_DATA = ''DATA''"
| "failure_class_value FC_REASONING = ''REASONING''"
| "failure_class_value FC_CONTEXT = ''CONTEXT''"
| "failure_class_value FC_ACTION = ''ACTION''"
| "failure_class_value FC_UNKNOWN = ''UNKNOWN''"

primrec failure_type_value :: "failure_type \<Rightarrow> string" where
  "failure_type_value FT_TIMEOUT = ''TIMEOUT''"
| "failure_type_value FT_EXECUTOR_CRASH = ''EXECUTOR_CRASH''"
| "failure_type_value FT_TOOL_ERROR = ''TOOL_ERROR''"
| "failure_type_value FT_NETWORK_ERROR = ''NETWORK_ERROR''"
| "failure_type_value FT_QUOTA_EXHAUSTED = ''QUOTA_EXHAUSTED''"
| "failure_type_value FT_BILLING_OR_CREDIT_EXHAUSTED = ''BILLING_OR_CREDIT_EXHAUSTED''"
| "failure_type_value FT_AUTH_INVALID = ''AUTH_INVALID''"
| "failure_type_value FT_PROVIDER_UNAVAILABLE = ''PROVIDER_UNAVAILABLE''"
| "failure_type_value FT_PROVIDER_TIMEOUT = ''PROVIDER_TIMEOUT''"
| "failure_type_value FT_MALFORMED_PROVIDER_RESPONSE = ''MALFORMED_PROVIDER_RESPONSE''"
| "failure_type_value FT_UNKNOWN_PROVIDER_FAILURE = ''UNKNOWN_PROVIDER_FAILURE''"
| "failure_type_value FT_BUDGET_EXHAUSTED = ''BUDGET_EXHAUSTED''"
| "failure_type_value FT_EMPTY_RESULT = ''EMPTY_RESULT''"
| "failure_type_value FT_INVALID_JD = ''INVALID_JD''"
| "failure_type_value FT_DUPLICATE_JOB = ''DUPLICATE_JOB''"
| "failure_type_value FT_EXPIRED_JOB = ''EXPIRED_JOB''"
| "failure_type_value FT_MISSING_REQUIRED_FIELD = ''MISSING_REQUIRED_FIELD''"
| "failure_type_value FT_VERIFICATION_REJECTED = ''VERIFICATION_REJECTED''"
| "failure_type_value FT_WRONG_MATCH = ''WRONG_MATCH''"
| "failure_type_value FT_WRONG_ASSUMPTION = ''WRONG_ASSUMPTION''"
| "failure_type_value FT_BAD_RANKING = ''BAD_RANKING''"
| "failure_type_value FT_INCOMPLETE_ANALYSIS = ''INCOMPLETE_ANALYSIS''"
| "failure_type_value FT_MISSING_CONTEXT = ''MISSING_CONTEXT''"
| "failure_type_value FT_STALE_CONTEXT = ''STALE_CONTEXT''"
| "failure_type_value FT_CONTEXT_CONFLICT = ''CONTEXT_CONFLICT''"
| "failure_type_value FT_CONTEXT_OVERLOAD = ''CONTEXT_OVERLOAD''"
| "failure_type_value FT_LOGIN_REQUIRED = ''LOGIN_REQUIRED''"
| "failure_type_value FT_FORM_CHANGED = ''FORM_CHANGED''"
| "failure_type_value FT_FIELD_VALIDATION_ERROR = ''FIELD_VALIDATION_ERROR''"
| "failure_type_value FT_UPLOAD_FAILED = ''UPLOAD_FAILED''"
| "failure_type_value FT_DUPLICATE_APPLICATION = ''DUPLICATE_APPLICATION''"
| "failure_type_value FT_APPROVAL_REQUIRED = ''APPROVAL_REQUIRED''"
| "failure_type_value FT_UNKNOWN = ''UNKNOWN''"

primrec recovery_action_value :: "recovery_action_type \<Rightarrow> string" where
  "recovery_action_value RA_RETRY_WITH_FAILURE_CONTEXT = ''RETRY_WITH_FAILURE_CONTEXT''"
| "recovery_action_value RA_RETRY_WITH_EXPANDED_CONTEXT = ''RETRY_WITH_EXPANDED_CONTEXT''"
| "recovery_action_value RA_ESCALATE = ''ESCALATE''"
| "recovery_action_value RA_ABORT = ''ABORT''"
| "recovery_action_value RA_HUMAN_APPROVAL = ''HUMAN_APPROVAL''"
| "recovery_action_value RA_BLOCK_PROVIDER = ''BLOCK_PROVIDER''"

primrec attempt_status_value :: "attempt_status \<Rightarrow> string" where
  "attempt_status_value Attempt_PENDING = ''PENDING''"
| "attempt_status_value Attempt_RUNNING = ''RUNNING''"
| "attempt_status_value Attempt_COMPLETED = ''COMPLETED''"
| "attempt_status_value Attempt_FAILED = ''FAILED''"
| "attempt_status_value Attempt_TIMED_OUT = ''TIMED_OUT''"
| "attempt_status_value Attempt_CRASHED = ''CRASHED''"

primrec execution_health_value :: "execution_health \<Rightarrow> string" where
  "execution_health_value Health_ACTIVE = ''ACTIVE''"
| "execution_health_value Health_IDLE = ''IDLE''"
| "execution_health_value Health_STALLED = ''STALLED''"
| "execution_health_value Health_UNKNOWN = ''UNKNOWN''"

section \<open>The event catalog\<close>

datatype task_event =
    TASK_CREATED | TASK_STARTED | TASK_COMPLETED | TASK_FAILED | TASK_ESCALATED | TASK_CANCELLED

datatype run_event =
    RUN_CREATED | RUN_STARTED | RUN_COMPLETED | RUN_FAILED | RUN_ESCALATED

datatype attempt_event =
    ATTEMPT_STARTED | ATTEMPT_COMPLETED | ATTEMPT_FAILED | ATTEMPT_TIMED_OUT | ATTEMPT_CRASHED

datatype executor_event =
    CONTEXT_BUILT | EXECUTOR_STARTED | EXECUTOR_EVENT | EXECUTOR_COMPLETED | EXECUTOR_FAILED
  | EXECUTION_CANCELLED | EXECUTION_DEADLINE_EXCEEDED | RETRY_SCHEDULED

datatype validation_event =
    VALIDATION_STARTED | VALIDATION_PASSED | VALIDATION_FAILED | FAILURE_CLASSIFIED
  | RECOVERY_DECIDED | RECOVERY_STARTED

datatype inner_agent_event =
    HUMAN_APPROVAL_REQUIRED | HUMAN_APPROVAL_GRANTED | ACTION_SUBMITTED | INNER_AGENT_STARTED
  | INNER_AGENT_LLM_TURN_STARTED | INNER_AGENT_LLM_TURN_COMPLETED | INNER_AGENT_TOOL_STARTED
  | INNER_AGENT_TOOL_COMPLETED | INNER_AGENT_COMPLETED | INNER_AGENT_FAILED
  | WORKSPACE_EDIT_STARTED | WORKSPACE_EDIT_COMPLETED | WORKSPACE_EDIT_FAILED
  | WORKSPACE_RESTORED | INNER_AGENT_TOOL_OBSERVATION | CHECKPOINT_CREATED
  | CONTEXT_RECONSTRUCTION_STARTED | CONTEXT_RECONSTRUCTION_COMPLETED
  | CONTEXT_RECONSTRUCTION_FAILED | RUN_RESUME_STARTED | RUN_RESUME_COMPLETED
  | RUN_RESUME_FAILED | WORKSPACE_RECOVERY_STATE

datatype planning_event =
    GOAL_CREATED | PLAN_CREATED | PLAN_STARTED | PLAN_STEP_STARTED | PLAN_STEP_COMPLETED
  | PLAN_STEP_FAILED | PLAN_STEP_READY | PLAN_STEP_BLOCKED | PLAN_COMPLETED | PLAN_FAILED

datatype graph_event =
    STEP_STATE_TRANSITION | STEP_PRECONDITION_FAILED | PLAN_STALE_REJECTED | TOOL_CALL_STARTED
  | TOOL_CALL_COMPLETED | TOOL_CALL_FAILED

datatype platform_event =
    ROOT_AGENT_STARTED | ROOT_AGENT_COMPLETED | PLAN_REQUESTED | DELEGATION_CREATED
  | DELEGATION_STARTED | DELEGATION_COMPLETED | DELEGATION_FAILED | CHILD_RUN_LINKED
  | SKILL_DISCOVERED | SKILL_LOADED | MEMORY_READ | MEMORY_WRITE_REQUESTED | MEMORY_WRITTEN
  | SESSION_SEARCHED | KNOWLEDGE_SEARCHED | MCP_SERVER_CONNECTED | MCP_TOOL_DISCOVERED
  | GOAL_COMPLETED | FAILURE_ROUTED

datatype native_event =
    NATIVE_EXECUTION_SNAPSHOT | NATIVE_MODEL_TURN_STARTED | NATIVE_MODEL_TURN_COMPLETED
  | MODEL_CALL_STARTED | MODEL_RESPONSE_RECEIVED | MODEL_RESPONSE_PARSED
  | MODEL_RESPONSE_REJECTED | NATIVE_MODEL_RESPONSE_REJECTED | NATIVE_TOOL_REQUESTED
  | NATIVE_TOOL_STARTED | NATIVE_TOOL_OBSERVED | NATIVE_TOOL_RECONCILED
  | COMPLETION_CANDIDATE_CREATED | COMPLETION_CANDIDATE_ACCEPTED | COMPLETION_CANDIDATE_REJECTED
  | VALIDATION_FAILURE_CREATED | REPLAN_SIGNAL_CREATED | NATIVE_BUDGET_EXHAUSTED

datatype runtime_event =
    DELEGATION_DELIVERY_PENDING | DELEGATION_DELIVERED | DELEGATION_DELIVERY_CONSUMED
  | CHILD_OUTCOME_RECORDED | RUNTIME_TARGET_SWITCH_REQUESTED | RUNTIME_TARGET_SWITCH_PENDING
  | RUNTIME_TARGET_SWITCH_COMMITTED | RUNTIME_TARGET_SWITCH_FAILED | NATIVE_PROVIDER_FAILURE
  | PROVIDER_HEALTH_CHANGED | REPLAN_ACCEPTED | REPLAN_REJECTED | STEP_FAILURE_PROVENANCE

datatype repair_event =
    REPAIR_STARTED | REPAIR_COMPLETED | REPAIR_STEP_INVALIDATED

datatype side_effect_event =
    SIDE_EFFECT_REQUEST_CREATED | SIDE_EFFECT_DISPATCH_STARTED | SIDE_EFFECT_COMMITTED
  | SIDE_EFFECT_OBSERVATION_RECEIVED | SIDE_EFFECT_RECONCILED | SIDE_EFFECT_FAILED
  | SIDE_EFFECT_COMMIT_UNKNOWN

datatype event_type =
    Ev_Task task_event | Ev_Run run_event | Ev_Attempt attempt_event
  | Ev_Executor executor_event | Ev_Validation validation_event
  | Ev_Inner_Agent inner_agent_event | Ev_Planning planning_event | Ev_Graph graph_event
  | Ev_Platform platform_event | Ev_Native native_event | Ev_Runtime runtime_event
  | Ev_Repair repair_event | Ev_Side_Effect side_effect_event

section \<open>Events and the event store\<close>

text \<open>
  The payload is the JSON object the source stores. The row id is SQLite's autoincrement
  key; rows are never deleted, so the next id is one more than the number of rows.
\<close>

record event =
  ev_id :: nat
  ev_task :: "string option"
  ev_run :: "string option"
  ev_attempt :: "string option"
  ev_type :: event_type
  ev_payload :: pydict

type_synonym event_log = "event list"

definition store_append ::
  "event_type \<Rightarrow> string option \<Rightarrow> string option \<Rightarrow> string option \<Rightarrow> pydict \<Rightarrow> event_log \<Rightarrow> event_log"
where
  "store_append ty task run attempt payload log =
     log @ [\<lparr>ev_id = Suc (length log), ev_task = task, ev_run = run, ev_attempt = attempt,
             ev_type = ty, ev_payload = payload\<rparr>]"

text \<open>The plan services emit with a payload only.\<close>

definition emit :: "event_type \<Rightarrow> pydict \<Rightarrow> event_log \<Rightarrow> event_log" where
  "emit ty payload log = store_append ty None None None payload log"

definition list_for_run :: "string \<Rightarrow> event_log \<Rightarrow> event list" where
  "list_for_run r log = [e \<leftarrow> log. ev_run e = Some r]"

definition list_for_run_after :: "string \<Rightarrow> nat \<Rightarrow> event_log \<Rightarrow> event list" where
  "list_for_run_after r n log = [e \<leftarrow> log. ev_run e = Some r \<and> n < ev_id e]"

definition latest_sequence :: "string \<Rightarrow> event_log \<Rightarrow> nat" where
  "latest_sequence r log = fold (\<lambda>e m. if ev_run e = Some r then max m (ev_id e) else m) log 0"

definition log_ok :: "event_log \<Rightarrow> bool" where
  "log_ok log \<longleftrightarrow> map ev_id log = [1..<Suc (length log)]"

subsection \<open>The interface of an append-only log\<close>

text \<open>
  What the services rely on when they append: an append adds one entry at the end, with a
  sequence number above every earlier one. Both the durable event store and the in-memory
  evidence ledger provide it.
\<close>

locale append_log =
  fixes entries :: "'s \<Rightarrow> 'e list"
    and app :: "'x \<Rightarrow> 's \<Rightarrow> 's"
    and seqno :: "'e \<Rightarrow> nat"
    and invar :: "'s \<Rightarrow> bool"
  assumes entries_app:
      "invar s \<Longrightarrow> \<exists>e. entries (app x s) = entries s @ [e] \<and> (\<forall>f\<in>set (entries s). seqno f < seqno e)"
    and invar_app: "invar s \<Longrightarrow> invar (app x s)"
begin

lemma invar_run: "invar s \<Longrightarrow> invar (fold app xs s)"
  by (induction xs arbitrary: s) (auto intro: invar_app)

lemma history_kept: "invar s \<Longrightarrow> prefix (entries s) (entries (fold app xs s))"
proof (induction xs arbitrary: s)
  case Nil
  then show ?case by simp
next
  case (Cons x xs)
  from Cons.prems obtain e where "entries (app x s) = entries s @ [e]"
    using entries_app by blast
  moreover have "prefix (entries (app x s)) (entries (fold app xs (app x s)))"
    using Cons.IH[OF invar_app[OF Cons.prems]] .
  ultimately show ?case
    by (metis append_prefixD fold_simps(2))
qed

lemma strictly_ordered:
  "invar s \<Longrightarrow> sorted_wrt (<) (map seqno (entries s)) \<Longrightarrow>
   sorted_wrt (<) (map seqno (entries (fold app xs s)))"
proof (induction xs arbitrary: s)
  case Nil
  then show ?case by simp
next
  case (Cons x xs)
  from Cons.prems(1) obtain e where e: "entries (app x s) = entries s @ [e]"
    "\<forall>f\<in>set (entries s). seqno f < seqno e"
    using entries_app by blast
  with Cons.prems(2) have "sorted_wrt (<) (map seqno (entries (app x s)))"
    by (auto simp: sorted_wrt_append)
  with Cons.IH[OF invar_app[OF Cons.prems(1)]] show ?case by simp
qed

lemma run_length: "invar s \<Longrightarrow> length (entries (fold app xs s)) = length (entries s) + length xs"
proof (induction xs arbitrary: s)
  case Nil
  then show ?case by simp
next
  case (Cons x xs)
  from Cons.prems obtain e where "entries (app x s) = entries s @ [e]"
    using entries_app by blast
  with Cons.IH[OF invar_app[OF Cons.prems]] show ?case by simp
qed

end

definition store_append_req ::
  "event_type \<times> string option \<times> string option \<times> string option \<times> pydict \<Rightarrow> event_log \<Rightarrow> event_log"
where
  "store_append_req req log =
     (case req of (ty, task, run, attempt, payload) \<Rightarrow> store_append ty task run attempt payload log)"

lemma log_ok_append: "log_ok log \<Longrightarrow> log_ok (store_append ty t r a p log)"
  by (simp add: log_ok_def store_append_def)

lemma log_ok_bound: "log_ok log \<Longrightarrow> e \<in> set log \<Longrightarrow> ev_id e < Suc (length log)"
  unfolding log_ok_def by (metis atLeastLessThan_iff imageI list.set_map set_upt)

interpretation es: append_log "\<lambda>log. log" store_append_req ev_id log_ok
proof unfold_locales
  fix log :: event_log and x
  assume "log_ok log"
  then show "\<exists>e. store_append_req x log = log @ [e] \<and> (\<forall>f\<in>set log. ev_id f < ev_id e)"
    by (cases x) (auto simp: store_append_req_def store_append_def dest: log_ok_bound)
next
  fix log :: event_log and x
  assume "log_ok log"
  then show "log_ok (store_append_req x log)"
    by (cases x) (auto simp: store_append_req_def intro: log_ok_append)
qed

lemma length_store_append [simp]: "length (store_append ty t r a p log) = Suc (length log)"
  by (simp add: store_append_def)

lemma prefix_store_append: "prefix log (store_append ty t r a p log)"
  by (simp add: store_append_def)

end
