(* ===== verification/Stores.thy ===== *)
theory Stores imports Prelude begin

text \<open>
  The table interface of the repositories: rows with a key, read by key, created, and updated
  in place. The services read a row, change some fields and write it back; the lemmas of the
  locale say what such a read-modify-write does to every key, and each repository of the
  development interprets it.
\<close>

locale row_store =
  fixes get :: "'k \<Rightarrow> 's \<Rightarrow> 'v option"
    and create :: "'v \<Rightarrow> 's \<Rightarrow> 's"
    and update :: "'v \<Rightarrow> 's \<Rightarrow> 's option"
    and key :: "'v \<Rightarrow> 'k"
  assumes get_key: "get k s = Some v \<Longrightarrow> key v = k"
    and get_create: "get (key v) s = None \<Longrightarrow> get k (create v s) = (if k = key v then Some v else get k s)"
    and update_missing: "get (key v) s = None \<Longrightarrow> update v s = None"
    and get_update: "get (key v) s = Some w \<Longrightarrow>
      \<exists>s'. update v s = Some s' \<and> (\<forall>k. get k s' = (if k = key v then Some v else get k s))"
begin

definition modify :: "'k \<Rightarrow> ('v \<Rightarrow> 'v) \<Rightarrow> 's \<Rightarrow> 's option" where
  "modify k f s = (case get k s of None \<Rightarrow> None | Some v \<Rightarrow> update (f v) s)"

lemma modify_missing: "get k s = None \<Longrightarrow> modify k f s = None"
  by (simp add: modify_def)

lemma modify_get:
  assumes "get k s = Some v" and "key (f v) = k"
  obtains s' where "modify k f s = Some s'" "update (f v) s = Some s'"
    "\<And>k'. get k' s' = (if k' = k then Some (f v) else get k' s)"
proof -
  have "get (key (f v)) s = Some v" using assms by simp
  then obtain s' where "update (f v) s = Some s'"
      "\<forall>k'. get k' s' = (if k' = key (f v) then Some (f v) else get k' s)"
    using get_update by blast
  with assms show ?thesis by (intro that[of s']) (auto simp: modify_def)
qed

lemma modify_keeps_keys:
  assumes "get k s = Some v" and "key (f v) = k" and "modify k f s = Some s'"
  shows "get k' s' = None \<longleftrightarrow> get k' s = None"
proof -
  obtain s2 where s2: "modify k f s = Some s2"
      "\<And>k'. get k' s2 = (if k' = k then Some (f v) else get k' s)"
    using modify_get[of k s v f] assms(1,2) by metis
  with assms(1,3) show ?thesis by auto
qed

lemma create_then_modify:
  assumes "get (key v) s = None" and "key (f v) = key v"
  obtains s' where "modify (key v) f (create v s) = Some s'"
    "\<And>k. get k s' = (if k = key v then Some (f v) else get k s)"
proof -
  have "get (key v) (create v s) = Some v" using get_create[OF assms(1)] by simp
  then obtain s' where s': "modify (key v) f (create v s) = Some s'"
      "\<And>k'. get k' s' = (if k' = key v then Some (f v) else get k' (create v s))"
    using modify_get[of "key v" "create v s" v f] assms(2) by metis
  show ?thesis by (rule that[OF s'(1)]) (simp add: s'(2) get_create[OF assms(1)])
qed

end

section \<open>Tables as lists of rows\<close>

definition row_get :: "('v \<Rightarrow> 'k) \<Rightarrow> 'k \<Rightarrow> 'v list \<Rightarrow> 'v option" where
  "row_get key k rows = List.find (\<lambda>r. key r = k) rows"

definition row_create :: "'v \<Rightarrow> 'v list \<Rightarrow> 'v list" where
  "row_create v rows = rows @ [v]"

definition row_update :: "('v \<Rightarrow> 'k) \<Rightarrow> 'v \<Rightarrow> 'v list \<Rightarrow> 'v list option" where
  "row_update key v rows =
     (if row_get key (key v) rows = None then None
      else Some (map (\<lambda>r. if key r = key v then v else r) rows))"

lemma row_get_key: "row_get key k rows = Some v \<Longrightarrow> key v = k"
  unfolding row_get_def by (drule find_Some_set) simp

lemma row_get_mem: "row_get key k rows = Some v \<Longrightarrow> v \<in> set rows"
  unfolding row_get_def by (drule find_Some_set) simp

lemma row_get_create:
  "row_get key (key v) rows = None \<Longrightarrow>
   row_get key k (row_create v rows) = (if k = key v then Some v else row_get key k rows)"
  by (induction rows) (auto simp: row_get_def row_create_def split: if_splits)

lemma find_map_replace:
  "List.find (\<lambda>r. key r = k) (map (\<lambda>r. if key r = key v then v else r) rows) =
     (if k = key v then (if List.find (\<lambda>r. key r = k) rows = None then None else Some v)
      else List.find (\<lambda>r. key r = k) rows)"
  by (induction rows) auto

lemma row_get_update:
  "row_get key (key v) rows = Some w \<Longrightarrow>
   \<exists>rows'. row_update key v rows = Some rows' \<and>
     (\<forall>k. row_get key k rows' = (if k = key v then Some v else row_get key k rows))"
  by (simp add: row_update_def row_get_def find_map_replace)

lemma row_update_missing: "row_get key (key v) rows = None \<Longrightarrow> row_update key v rows = None"
  by (simp add: row_update_def)

end
