(* ===== verification/RecoveryBudget.thy ===== *)
theory RecoveryBudget imports Enums begin

text \<open>
  \<open>RecoveryBudgetManager\<close> of \<open>src/lhas/recovery_control.py\<close>: leases over one root budget
  that the caller supplies, and the root authority the runtime supplies,
  \<open>RunBudgetLedger\<close> of \<open>evals/reliability/p45_executor.py\<close>.

  The manager never counts provider calls itself: it holds protected capacity per phase and
  asks the root's \<open>reserve\<close> for each call. The root is any object with \<open>reserve\<close> and
  \<open>remaining_provider_calls\<close>: both are arguments of the manager's operations, and the
  locale \<open>root_budget_authority\<close> states what the manager relies on. A failing \<open>reserve\<close>
  still changes the root (it counts the blocked call), so \<open>reserve\<close> returns the new root
  beside its exception.
\<close>

section \<open>Phases\<close>

datatype phase = Local_repair | Macro_replan | Post_replan | Validation

fun phase_name :: "phase \<Rightarrow> string" where
  "phase_name Local_repair = ''local_repair''"
| "phase_name Macro_replan = ''macro_replan''"
| "phase_name Post_replan = ''post_replan''"
| "phase_name Validation = ''validation''"

definition phases :: "phase list" where
  "phases = [Local_repair, Macro_replan, Post_replan, Validation]"

lemma set_phases: "set phases = UNIV"
proof -
  have "p \<in> set phases" for p by (cases p) (simp_all add: phases_def)
  then show ?thesis by blast
qed

lemma distinct_phases: "distinct phases"
  by (simp add: phases_def)

datatype budget_error =
    Unsupported_phase string
  | Negative_capacity
  | BUDGET_RESERVATION_UNAVAILABLE
  | RESERVE_EXHAUSTED phase
  | ROOT_BUDGET_AUTHORITY_REJECTED

definition dash_to_underscore :: "string \<Rightarrow> string" where
  "dash_to_underscore s = map (\<lambda>c. if c = CHR ''-'' then CHR ''_'' else c) s"

definition normalize_phase :: "string \<Rightarrow> budget_error + phase" where
  "normalize_phase p =
     (let n = dash_to_underscore (casefold p);
          n = (if n = ''repair'' then ''local_repair''
               else if n = ''replan'' then ''macro_replan'' else n)
      in case List.find (\<lambda>q. phase_name q = n) phases of
           None \<Rightarrow> Inl (Unsupported_phase p) | Some q \<Rightarrow> Inr q)"

lemma normalize_phase_name: "normalize_phase (phase_name p) = Inr p"
proof (cases p)
  case Local_repair
  show ?thesis unfolding Local_repair by code_simp
next
  case Macro_replan
  show ?thesis unfolding Macro_replan by code_simp
next
  case Post_replan
  show ?thesis unfolding Post_replan by code_simp
next
  case Validation
  show ?thesis unfolding Validation by code_simp
qed

section \<open>The manager\<close>

record 'r budget_manager =
  bm_root :: 'r
  bm_reserved :: "phase \<Rightarrow> int"

definition init_manager :: "'r \<Rightarrow> 'r budget_manager" where
  "init_manager r = \<lparr>bm_root = r, bm_reserved = (\<lambda>_. 0)\<rparr>"

definition protected_total :: "'r budget_manager \<Rightarrow> int" where
  "protected_total m = sum_list (map (bm_reserved m) phases)"

definition reserve_capacity ::
  "('r \<Rightarrow> int) \<Rightarrow> string \<Rightarrow> int \<Rightarrow> 'r budget_manager \<Rightarrow> (budget_error + int) \<times> 'r budget_manager"
where
  "reserve_capacity remaining p capacity m =
     (case normalize_phase p of
        Inl e \<Rightarrow> (Inl e, m)
      | Inr q \<Rightarrow>
          if capacity < 0 then (Inl Negative_capacity, m)
          else if capacity > remaining (bm_root m) - protected_total m
            then (Inl BUDGET_RESERVATION_UNAVAILABLE, m)
          else let r = bm_reserved m q + capacity
               in (Inr r, m\<lparr>bm_reserved := (bm_reserved m)(q := r)\<rparr>))"

definition acquire ::
  "(string \<Rightarrow> 'r \<Rightarrow> ('e + unit) \<times> 'r) \<Rightarrow> string \<Rightarrow> 'r budget_manager \<Rightarrow>
   (budget_error + unit) \<times> 'r budget_manager"
where
  "acquire reserve p m =
     (case normalize_phase p of
        Inl e \<Rightarrow> (Inl e, m)
      | Inr q \<Rightarrow>
          if bm_reserved m q \<le> 0 then (Inl (RESERVE_EXHAUSTED q), m)
          else (case reserve (phase_name q) (bm_root m) of
                  (Inl _, r) \<Rightarrow> (Inl ROOT_BUDGET_AUTHORITY_REJECTED, m\<lparr>bm_root := r\<rparr>)
                | (Inr _, r) \<Rightarrow>
                    (Inr (), m\<lparr>bm_root := r, bm_reserved := (bm_reserved m)(q := bm_reserved m q - 1)\<rparr>)))"

definition has_capacity :: "string \<Rightarrow> 'r budget_manager \<Rightarrow> budget_error + bool" where
  "has_capacity p m =
     (case normalize_phase p of Inl e \<Rightarrow> Inl e | Inr q \<Rightarrow> Inr (bm_reserved m q > 0))"

text \<open>A session of the manager: the results of its calls, in order.\<close>

datatype budget_call = Reserve_capacity string int | Acquire string

fun budget_step ::
  "('r \<Rightarrow> int) \<Rightarrow> (string \<Rightarrow> 'r \<Rightarrow> ('e + unit) \<times> 'r) \<Rightarrow> budget_call \<Rightarrow> 'r budget_manager \<Rightarrow>
   bool \<times> 'r budget_manager"
where
  "budget_step remaining reserve (Reserve_capacity p c) m = (False, snd (reserve_capacity remaining p c m))"
| "budget_step remaining reserve (Acquire p) m =
     (case acquire reserve p m of (Inl _, m') \<Rightarrow> (False, m') | (Inr _, m') \<Rightarrow> (True, m'))"

text \<open>The number of provider calls a session was granted, and the manager it ends in.\<close>

fun granted_calls ::
  "('r \<Rightarrow> int) \<Rightarrow> (string \<Rightarrow> 'r \<Rightarrow> ('e + unit) \<times> 'r) \<Rightarrow> budget_call list \<Rightarrow> 'r budget_manager \<Rightarrow>
   nat \<times> 'r budget_manager"
where
  "granted_calls remaining reserve [] m = (0, m)"
| "granted_calls remaining reserve (c # cs) m =
     (let (ok, m1) = budget_step remaining reserve c m;
          (n, m2) = granted_calls remaining reserve cs m1
      in (n + (if ok then 1 else 0), m2))"

lemma sum_list_update_phase:
  "sum_list (map (f(q := v)) phases) = sum_list (map f phases) + (v - (f q :: int))"
  by (cases q) (simp_all add: phases_def)

lemma sum_list_ge_phase:
  assumes "\<And>p. 0 \<le> (f p :: int)"
  shows "f q \<le> sum_list (map f phases)"
  using assms[of Local_repair] assms[of Macro_replan] assms[of Post_replan] assms[of Validation]
  by (cases q) (simp_all add: phases_def)

section \<open>What the manager relies on\<close>

locale root_budget_authority =
  fixes remaining :: "'r \<Rightarrow> int"
    and reserve :: "string \<Rightarrow> 'r \<Rightarrow> ('e + unit) \<times> 'r"
    and rinv :: "'r \<Rightarrow> bool"
  assumes remaining_nonneg: "rinv r \<Longrightarrow> 0 \<le> remaining r"
    and reserve_grants: "rinv r \<Longrightarrow> 0 < remaining r \<Longrightarrow>
      \<exists>r'. reserve p r = (Inr (), r') \<and> remaining r' = remaining r - 1 \<and> rinv r'"
begin

definition leases_covered :: "'r budget_manager \<Rightarrow> bool" where
  "leases_covered m \<longleftrightarrow>
     rinv (bm_root m) \<and> (\<forall>p. 0 \<le> bm_reserved m p) \<and> protected_total m \<le> remaining (bm_root m)"

lemma covered_init: "rinv r \<Longrightarrow> leases_covered (init_manager r)"
  by (simp add: leases_covered_def init_manager_def protected_total_def phases_def remaining_nonneg)

lemma covered_reserve_capacity:
  assumes "leases_covered m"
  shows "leases_covered (snd (reserve_capacity remaining p c m))"
proof (cases "normalize_phase p")
  case (Inl e)
  with assms show ?thesis by (simp add: reserve_capacity_def)
next
  case (Inr q)
  with assms show ?thesis
    by (auto simp: reserve_capacity_def leases_covered_def protected_total_def Let_def
        sum_list_update_phase)
qed

text \<open>A lease that was granted can be redeemed: the root cannot refuse it.\<close>

lemma covered_acquire:
  assumes "leases_covered m" and "normalize_phase p = Inr q" and "0 < bm_reserved m q"
  shows "\<exists>m'. acquire reserve p m = (Inr (), m') \<and> leases_covered m' \<and>
           remaining (bm_root m') = remaining (bm_root m) - 1 \<and>
           bm_reserved m' = (bm_reserved m)(q := bm_reserved m q - 1)"
proof -
  have "bm_reserved m q \<le> protected_total m"
    unfolding protected_total_def using assms(1) by (intro sum_list_ge_phase) (simp add: leases_covered_def)
  with assms have "0 < remaining (bm_root m)"
    by (simp add: leases_covered_def)
  moreover have "rinv (bm_root m)" using assms(1) by (simp add: leases_covered_def)
  ultimately obtain r' where r': "reserve (phase_name q) (bm_root m) = (Inr (), r')"
      "remaining r' = remaining (bm_root m) - 1" "rinv r'"
    using reserve_grants by blast
  let ?m' = "m\<lparr>bm_root := r', bm_reserved := (bm_reserved m)(q := bm_reserved m q - 1)\<rparr>"
  have "acquire reserve p m = (Inr (), ?m')"
    using assms(2,3) r'(1) by (simp add: acquire_def)
  moreover have "leases_covered ?m'"
    using assms r' by (auto simp: leases_covered_def protected_total_def sum_list_update_phase)
  ultimately show ?thesis using r'(2) by simp
qed

lemma refused_acquire:
  assumes "leases_covered m" and "acquire reserve p m = (Inl e, m')"
  shows "m' = m \<and> (\<exists>q. e = RESERVE_EXHAUSTED q \<or> (\<exists>s. e = Unsupported_phase s))"
proof (cases "normalize_phase p")
  case (Inl e')
  with assms(2) show ?thesis
    by (auto simp: acquire_def normalize_phase_def Let_def split: option.splits)
next
  case (Inr q)
  show ?thesis
  proof (cases "0 < bm_reserved m q")
    case True
    with covered_acquire[OF assms(1) Inr True] assms(2) show ?thesis by auto
  next
    case False
    with Inr assms(2) show ?thesis by (auto simp: acquire_def)
  qed
qed

lemma covered_step:
  assumes "leases_covered m" and "budget_step remaining reserve c m = (ok, m')"
  shows "leases_covered m' \<and> remaining (bm_root m') = remaining (bm_root m) - (if ok then 1 else 0)"
proof (cases c)
  case (Reserve_capacity p n)
  have "bm_root (snd (reserve_capacity remaining p n m)) = bm_root m"
    by (simp add: reserve_capacity_def Let_def split: sum.splits)
  with Reserve_capacity assms covered_reserve_capacity[OF assms(1)] show ?thesis by auto
next
  case (Acquire p)
  show ?thesis
  proof (cases "acquire reserve p m")
    case (Pair res m1)
    show ?thesis
    proof (cases res)
      case (Inl e)
      with Acquire Pair assms refused_acquire[OF assms(1)] show ?thesis by auto
    next
      case (Inr u)
      then obtain q where q: "normalize_phase p = Inr q" "0 < bm_reserved m q"
        using Pair by (auto simp: acquire_def split: sum.splits if_splits prod.splits)
      from covered_acquire[OF assms(1) q] Acquire Pair Inr assms(2) show ?thesis by auto
    qed
  qed
qed

lemma granted_le_remaining:
  assumes "leases_covered m" and "granted_calls remaining reserve cs m = (n, m')"
  shows "int n = remaining (bm_root m) - remaining (bm_root m') \<and> leases_covered m'"
  using assms
proof (induction cs arbitrary: m n m')
  case Nil
  then show ?case by simp
next
  case (Cons c cs)
  obtain ok m1 where s: "budget_step remaining reserve c m = (ok, m1)" by fastforce
  obtain k m2 where g: "granted_calls remaining reserve cs m1 = (k, m2)" by fastforce
  from covered_step[OF Cons.prems(1) s] Cons.IH[OF _ g] Cons.prems(2) s g show ?case
    by (auto split: if_splits)
qed

end

section \<open>The root ledger\<close>

text \<open>
  The fields of \<open>RunBudgetLedger\<close> that its operations read or write; \<open>max_turns\<close> is
  only reported.
\<close>

record run_ledger =
  rl_max_provider_calls :: int
  rl_max_repair_attempts :: int
  rl_max_replan_attempts :: int
  rl_root_calls :: int
  rl_nested_calls :: int
  rl_blocked_calls :: int
  rl_repair_attempts :: int
  rl_replan_attempts :: int
  rl_exhausted :: bool
  rl_phases :: "string list"

datatype ledger_error = RUN_API_BUDGET_EXHAUSTED

definition total_provider_calls :: "run_ledger \<Rightarrow> int" where
  "total_provider_calls l = rl_root_calls l + rl_nested_calls l"

definition remaining_provider_calls :: "run_ledger \<Rightarrow> int" where
  "remaining_provider_calls l = max 0 (rl_max_provider_calls l - total_provider_calls l)"

definition ledger_reserve :: "string \<Rightarrow> run_ledger \<Rightarrow> (ledger_error + unit) \<times> run_ledger" where
  "ledger_reserve p l =
     (if rl_exhausted l \<or> total_provider_calls l \<ge> rl_max_provider_calls l then
        (Inl RUN_API_BUDGET_EXHAUSTED,
         l\<lparr>rl_exhausted := True, rl_blocked_calls := rl_blocked_calls l + 1\<rparr>)
      else (Inr (),
        (if casefold p = ''initial'' then l\<lparr>rl_root_calls := rl_root_calls l + 1\<rparr>
         else l\<lparr>rl_nested_calls := rl_nested_calls l + 1\<rparr>)\<lparr>rl_phases := rl_phases l @ [p]\<rparr>))"

definition can_start_repair :: "run_ledger \<Rightarrow> bool" where
  "can_start_repair l \<longleftrightarrow>
     \<not> rl_exhausted l \<and> rl_repair_attempts l < rl_max_repair_attempts l \<and>
     remaining_provider_calls l > 0"

definition reserve_repair :: "run_ledger \<Rightarrow> bool \<times> run_ledger" where
  "reserve_repair l =
     (if \<not> can_start_repair l then (False, l)
      else (True, l\<lparr>rl_repair_attempts := rl_repair_attempts l + 1,
                    rl_phases := rl_phases l @ [''repair_attempt'']\<rparr>))"

definition reserve_replan :: "run_ledger \<Rightarrow> bool \<times> run_ledger" where
  "reserve_replan l =
     (if rl_exhausted l \<or> remaining_provider_calls l \<le> 0 \<or>
         rl_replan_attempts l \<ge> rl_max_replan_attempts l then (False, l)
      else (True, l\<lparr>rl_replan_attempts := rl_replan_attempts l + 1,
                    rl_phases := rl_phases l @ [''macro_replan'']\<rparr>))"

definition new_ledger :: "int \<Rightarrow> int \<Rightarrow> int \<Rightarrow> run_ledger" where
  "new_ledger calls repairs replans =
     \<lparr>rl_max_provider_calls = calls, rl_max_repair_attempts = repairs,
      rl_max_replan_attempts = replans, rl_root_calls = 0, rl_nested_calls = 0,
      rl_blocked_calls = 0, rl_repair_attempts = 0, rl_replan_attempts = 0,
      rl_exhausted = False, rl_phases = []\<rparr>"

text \<open>The ledger is marked exhausted only once its calls are used up.\<close>

definition ledger_ok :: "run_ledger \<Rightarrow> bool" where
  "ledger_ok l \<longleftrightarrow> (rl_exhausted l \<longrightarrow> rl_max_provider_calls l \<le> total_provider_calls l)"

lemma ledger_ok_new: "ledger_ok (new_ledger c r p)"
  by (simp add: ledger_ok_def new_ledger_def)

lemma ledger_ok_reserve: "ledger_ok l \<Longrightarrow> ledger_ok (snd (ledger_reserve p l))"
  by (auto simp: ledger_ok_def ledger_reserve_def total_provider_calls_def)

interpretation rl: root_budget_authority remaining_provider_calls ledger_reserve ledger_ok
proof unfold_locales
  fix l
  show "0 \<le> remaining_provider_calls l" by (simp add: remaining_provider_calls_def)
next
  fix l p
  assume "ledger_ok l" and "0 < remaining_provider_calls l"
  then show "\<exists>l'. ledger_reserve p l = (Inr (), l') \<and>
      remaining_provider_calls l' = remaining_provider_calls l - 1 \<and> ledger_ok l'"
    by (auto simp: ledger_reserve_def ledger_ok_def remaining_provider_calls_def
        total_provider_calls_def)
qed

section \<open>Properties\<close>

text \<open>Every capacity lease the manager granted over a fresh root ledger is honoured. After any
  session of reservations and acquisitions, acquiring a call for a phase that still holds
  protected capacity succeeds, takes exactly one call from the root and one from that phase,
  and leaves the other phases' protected capacity alone: the root authority never rejects it.\<close>

theorem lease_honoured:
  assumes "granted_calls remaining_provider_calls ledger_reserve cs (init_manager (new_ledger n r p)) = (k, m)"
    and "0 < bm_reserved m q"
  shows "\<exists>m'. acquire ledger_reserve (phase_name q) m = (Inr (), m') \<and>
           remaining_provider_calls (bm_root m') = remaining_provider_calls (bm_root m) - 1 \<and>
           bm_reserved m' = (bm_reserved m)(q := bm_reserved m q - 1)"
proof -
  have "rl.leases_covered m"
    using rl.granted_le_remaining[OF rl.covered_init[OF ledger_ok_new] assms(1)] by simp
  from rl.covered_acquire[OF this normalize_phase_name assms(2)] show ?thesis by blast
qed

theorem lease_honoured_witness:
  "\<exists>m'. acquire ledger_reserve (phase_name Local_repair)
          (snd (granted_calls remaining_provider_calls ledger_reserve
            [Reserve_capacity ''repair'' 2, Acquire ''local-repair''] (init_manager (new_ledger 5 1 1)))) = (Inr (), m')"
proof -
  let ?g = "granted_calls remaining_provider_calls ledger_reserve
            [Reserve_capacity ''repair'' 2, Acquire ''local-repair''] (init_manager (new_ledger 5 1 1))"
  have "0 < bm_reserved (snd ?g) Local_repair" by code_simp
  with lease_honoured[of _ 5 1 1 "fst ?g" "snd ?g" Local_repair] show ?thesis
    by (metis prod.collapse)
qed

text \<open>One root budget bounds all recovery phases together. However a session mixes
  reservations and acquisitions, the calls it is granted are exactly the calls taken from the
  root, so they never exceed the root's initial provider-call ceiling, and the capacity still
  protected never exceeds what the root has left.\<close>

theorem granted_within_root_budget:
  assumes "granted_calls remaining_provider_calls ledger_reserve cs (init_manager (new_ledger n r p)) = (k, m)"
  shows "int k + remaining_provider_calls (bm_root m) = max 0 n \<and>
         protected_total m \<le> remaining_provider_calls (bm_root m)"
proof -
  have "int k = remaining_provider_calls (new_ledger n r p) - remaining_provider_calls (bm_root m)
        \<and> rl.leases_covered m"
    using rl.granted_le_remaining[OF rl.covered_init[OF ledger_ok_new] assms] by (simp add: init_manager_def)
  then show ?thesis
    by (simp add: rl.leases_covered_def remaining_provider_calls_def new_ledger_def total_provider_calls_def)
qed

theorem granted_within_root_budget_witness:
  "int 1 + remaining_provider_calls (bm_root (snd (granted_calls remaining_provider_calls ledger_reserve
     [Reserve_capacity ''validation'' 1, Acquire ''validation'', Acquire ''validation'']
     (init_manager (new_ledger 3 0 0))))) = max 0 3"
proof -
  let ?g = "granted_calls remaining_provider_calls ledger_reserve
     [Reserve_capacity ''validation'' 1, Acquire ''validation'', Acquire ''validation'']
     (init_manager (new_ledger 3 0 0))"
  have "fst ?g = 1" by code_simp
  with granted_within_root_budget[of _ 3 0 0 "fst ?g" "snd ?g"] show ?thesis
    by (metis prod.collapse)
qed

end
