(* ===== verification/Progress.thy ===== *)
theory Progress imports Enums begin

text \<open>
  \<open>EffectProgressEvaluator\<close> and \<open>RecoveryContextProjector\<close> of
  \<open>src/lhas/recovery_control.py\<close>: what the runtime concludes from one bounded observation
  of a local repair, and how it cuts the repair context down to size.

  Python's \<open>None\<close> for a mapping argument and the empty mapping are treated alike by the
  code (\<open>dict(action or {})\<close>), so \<open>action\<close> and \<open>observation\<close> are plain dictionaries here;
  \<open>before_state\<close> and \<open>after_state\<close> are values with \<open>PNone\<close> for \<open>None\<close>.
\<close>

section \<open>Matching an expected effect\<close>

definition positive_words :: "string list" where
  "positive_words = [''present'', ''pass'', ''passed'', ''successful'', ''true'']"

definition negative_words :: "string list" where
  "negative_words = [''not present'', ''false'', ''failed'']"

function (sequential) rc_matches :: "pyval \<Rightarrow> pyval \<Rightarrow> bool" where
  "rc_matches (PDict d) observed =
     (case as_dict observed of
        None \<Rightarrow> False
      | Some obs \<Rightarrow>
          list_all (\<lambda>(k, v). case map_of obs k of None \<Rightarrow> False | Some w \<Rightarrow> rc_matches v w) d)"
| "rc_matches (PStr s) observed =
     (let n = casefold s in
      if n \<in> set positive_words then
        observed = PBool True \<or>
        casefold (py_str observed) \<in> {n, ''true'', ''pass'', ''passed'', ''present'', ''successful''}
      else if n \<in> set negative_words then
        observed = PBool False \<or>
        casefold (py_str observed) \<in> {''false'', ''failed'', ''not present''}
      else py_eq (PStr s) observed)"
| "rc_matches v observed = py_eq v observed"
  by pat_completeness auto
termination
  by (relation "measure (\<lambda>(a, b). size a)") (auto simp: size_dict_value)

section \<open>Progress\<close>

datatype progress_status =
    PS_SATISFIED | PS_IMPROVED | PS_CHANGED_UNKNOWN | PS_NO_PROGRESS
  | PS_REPEATED | PS_OSCILLATING | PS_REGRESSED

fun progress_status_value :: "progress_status \<Rightarrow> string" where
  "progress_status_value PS_SATISFIED = ''SATISFIED''"
| "progress_status_value PS_IMPROVED = ''IMPROVED''"
| "progress_status_value PS_CHANGED_UNKNOWN = ''CHANGED_UNKNOWN''"
| "progress_status_value PS_NO_PROGRESS = ''NO_PROGRESS''"
| "progress_status_value PS_REPEATED = ''REPEATED''"
| "progress_status_value PS_OSCILLATING = ''OSCILLATING''"
| "progress_status_value PS_REGRESSED = ''REGRESSED''"

record effect_progress =
  pg_status :: progress_status
  pg_state_digest :: string
  pg_action_fingerprint :: string
  pg_matched :: "string list"
  pg_evidence :: pydict

record evaluator =
  ep_expected :: pydict
  ep_seen_states :: "string list"
  ep_seen_actions :: "string set"
  ep_last_state :: "string option"
  ep_last_action :: "string option"
  ep_last_projection :: pyval
  ep_count :: nat

definition new_evaluator :: "pydict \<Rightarrow> evaluator" where
  "new_evaluator expected =
     \<lparr>ep_expected = expected, ep_seen_states = [], ep_seen_actions = {}, ep_last_state = None,
      ep_last_action = None, ep_last_projection = PNone, ep_count = 0\<rparr>"

text \<open>\<open>_lookup\<close>: the first container that has the key, itself or one level down.\<close>

definition nested_keys :: "string list" where
  "nested_keys = [''bounded_output'', ''safe_summary'', ''result_summary'']"

fun lookup_nested :: "pydict \<Rightarrow> string \<Rightarrow> string list \<Rightarrow> pyval option" where
  "lookup_nested c key [] = None"
| "lookup_nested c key (n # ns) =
     (case as_dict (dict_get c n) of
        Some d \<Rightarrow> (case map_of d key of Some v \<Rightarrow> Some v | None \<Rightarrow> lookup_nested c key ns)
      | None \<Rightarrow> lookup_nested c key ns)"

fun lookup_in :: "pyval list \<Rightarrow> string \<Rightarrow> pyval" where
  "lookup_in [] key = PNone"
| "lookup_in (v # vs) key =
     (case as_dict v of
        None \<Rightarrow> lookup_in vs key
      | Some c \<Rightarrow>
          (case map_of c key of
             Some w \<Rightarrow> w
           | None \<Rightarrow> (case lookup_nested c key nested_keys of
                       Some w \<Rightarrow> w | None \<Rightarrow> lookup_in vs key)))"

definition effect_lookup :: "pydict \<Rightarrow> pyval \<Rightarrow> string \<Rightarrow> pyval" where
  "effect_lookup observation after key = lookup_in [PDict observation, after] key"

definition matched_effects :: "pydict \<Rightarrow> pydict \<Rightarrow> pyval \<Rightarrow> string list" where
  "matched_effects expected observation after =
     map fst [(k, v) \<leftarrow> expected. rc_matches v (effect_lookup observation after k)]"

definition confirmed_mutation :: "pydict \<Rightarrow> bool" where
  "confirmed_mutation observation \<longleftrightarrow>
     py_truthy (dict_get observation ''observed_mutation'') \<or>
     py_truthy (dict_get observation ''meaningful_mutation'') \<or>
     list_ex (\<lambda>c. case as_dict (dict_get observation c) of
                None \<Rightarrow> False | Some d \<Rightarrow> py_truthy (dict_get d ''meaningful_mutation''))
       [''safe_summary'', ''result_summary'', ''bounded_output'']"

text \<open>\<open>seen_state_digests[-2]\<close> and \<open>[-1]\<close>: a return to the state before the last one.\<close>

definition oscillates :: "string list \<Rightarrow> string \<Rightarrow> bool" where
  "oscillates seen d \<longleftrightarrow>
     length seen \<ge> 2 \<and> d = seen ! (length seen - 2) \<and> d \<noteq> seen ! (length seen - 1)"

definition observed_after :: "pyval \<Rightarrow> pydict \<Rightarrow> pyval \<times> string" where
  "observed_after after_state observation =
     (case as_dict (dict_get observation ''external_observed_state'') of
        Some ext \<Rightarrow> (PDict ext, ''EXTERNAL_OBSERVATION'')
      | None \<Rightarrow> (if after_state \<noteq> PNone then after_state else PDict observation,
                ''ACTION_OBSERVATION''))"

definition evaluator_observe ::
  "(string \<Rightarrow> string) \<Rightarrow> pyval \<Rightarrow> pyval \<Rightarrow> pydict \<Rightarrow> pydict \<Rightarrow> evaluator \<Rightarrow> effect_progress \<times> evaluator"
where
  "evaluator_observe sha before_state after_state action observation ev =
     (let before = (if before_state = PNone then ep_last_projection ev else before_state);
          (after, source) = observed_after after_state observation;
          state_digest = py_digest sha after;
          before_digest = (if before = PNone then None else Some (py_digest sha before));
          fingerprint = py_digest sha (PDict action);
          matched = matched_effects (ep_expected ev) observation after;
          repeated_state = (state_digest \<in> set (ep_seen_states ev));
          repeated_action = (fingerprint \<in> ep_seen_actions ev);
          oscillating = oscillates (ep_seen_states ev) state_digest;
          unchanged = (before_digest = Some state_digest);
          status =
            (if ep_expected ev \<noteq> [] \<and> length matched = length (ep_expected ev) then PS_SATISFIED
             else if oscillating then PS_OSCILLATING
             else if repeated_action \<or> repeated_state \<or> unchanged then
               (if repeated_action then PS_REPEATED else PS_NO_PROGRESS)
             else if matched \<noteq> [] then PS_IMPROVED
             else PS_CHANGED_UNKNOWN)
      in (\<lparr>pg_status = status, pg_state_digest = state_digest,
           pg_action_fingerprint = fingerprint, pg_matched = matched,
           pg_evidence =
             [(''before_state_digest'', case before_digest of None \<Rightarrow> PNone | Some d \<Rightarrow> PStr d),
              (''after_state_digest'', PStr state_digest),
              (''repeated_state'', PBool repeated_state),
              (''repeated_action'', PBool repeated_action),
              (''oscillating'', PBool oscillating),
              (''matched_effect_keys'', PList (map PStr matched)),
              (''confirmed_observed_mutation'', PBool (confirmed_mutation observation)),
              (''progress_source'', PStr source),
              (''effect_progress_authoritative'', PBool (source = ''EXTERNAL_OBSERVATION''))]\<rparr>,
          ev\<lparr>ep_seen_states := last_n 64 (ep_seen_states ev @ [state_digest]),
             ep_seen_actions := insert fingerprint (ep_seen_actions ev),
             ep_last_state := Some state_digest, ep_last_action := Some fingerprint,
             ep_last_projection := after, ep_count := ep_count ev + 1\<rparr>))"

section \<open>Lemmas\<close>

lemma length_matched: "length (matched_effects e obs after) \<le> length e"
  by (simp add: matched_effects_def length_filter_le)

lemma all_matched:
  "length (matched_effects e obs after) = length e \<longleftrightarrow>
   (\<forall>(k, v)\<in>set e. rc_matches v (effect_lookup obs after k))"
proof -
  have "length (filter P e) = length e \<longleftrightarrow> (\<forall>x\<in>set e. P x)" for P :: "string \<times> pyval \<Rightarrow> bool"
    by (induction e) (auto simp: le_imp_less_Suc[THEN less_imp_neq] length_filter_le)
  then show ?thesis by (simp add: matched_effects_def)
qed

lemma observe_expected [frame_simps]:
  "ep_expected (snd (evaluator_observe sha b a act obs ev)) = ep_expected ev"
  by (simp add: evaluator_observe_def Let_def split: prod.splits)

lemma observe_window:
  "length (ep_seen_states (snd (evaluator_observe sha b a act obs ev))) \<le> 64"
  by (simp add: evaluator_observe_def Let_def split: prod.splits)

lemma observe_records_state:
  "pg_state_digest (fst (evaluator_observe sha b a act obs ev)) \<in>
     set (ep_seen_states (snd (evaluator_observe sha b a act obs ev)))"
  by (auto simp: evaluator_observe_def Let_def last_n_def split: prod.splits)

lemma observe_records_action:
  "pg_action_fingerprint (fst (evaluator_observe sha b a act obs ev)) \<in>
     ep_seen_actions (snd (evaluator_observe sha b a act obs ev))"
  by (auto simp: evaluator_observe_def Let_def split: prod.splits)

text \<open>The evidence keys the controller reads back.\<close>

lemma observe_evidence:
  "dict_get (pg_evidence (fst (evaluator_observe sha b a act obs ev))) ''repeated_action'' =
     PBool (pg_action_fingerprint (fst (evaluator_observe sha b a act obs ev)) \<in> ep_seen_actions ev)"
  "dict_get (pg_evidence (fst (evaluator_observe sha b a act obs ev))) ''repeated_state'' =
     PBool (pg_state_digest (fst (evaluator_observe sha b a act obs ev)) \<in> set (ep_seen_states ev))"
  "dict_get (pg_evidence (fst (evaluator_observe sha b a act obs ev))) ''confirmed_observed_mutation'' =
     PBool (confirmed_mutation obs)"
  by (simp_all add: evaluator_observe_def Let_def dict_get_def split: prod.splits)

lemma observe_repeated:
  "pg_status (fst (evaluator_observe sha b a act obs ev)) = PS_REPEATED \<Longrightarrow>
   dict_get (pg_evidence (fst (evaluator_observe sha b a act obs ev))) ''repeated_action'' = PBool True"
  by (auto simp: evaluator_observe_def Let_def dict_get_def split: prod.splits if_splits)

lemma observe_never_regressed:
  "pg_status (fst (evaluator_observe sha b a act obs ev)) \<noteq> PS_REGRESSED"
  by (auto simp: evaluator_observe_def Let_def split: prod.splits)

section \<open>Context projection\<close>

text \<open>\<open>_bounded\<close>: a value whose JSON text is too long is replaced by a prefix of that text.\<close>

definition bounded_value :: "pyval \<Rightarrow> nat \<Rightarrow> pyval" where
  "bounded_value v limit =
     (if v = PNone then PNone
      else let enc = json_dumps '', '' '': '' v
           in if length enc \<le> limit then v else PStr (take limit enc))"

text \<open>The arguments of \<open>project\<close>; an absent progress, action list or budget is its empty value.\<close>

record repair_context =
  cx_goal :: pyval
  cx_contract :: pyval
  cx_state :: pyval
  cx_provenance :: pyval
  cx_progress :: pydict
  cx_actions :: "pyval list"
  cx_last_useful :: pyval
  cx_mismatch :: pyval
  cx_budget :: pydict

definition project :: "(string \<Rightarrow> string) \<Rightarrow> repair_context \<Rightarrow> pydict" where
  "project sha cx =
     [(''current_goal'', PStr (take 4000 (py_str (cx_goal cx)))),
      (''acceptance_contract'', bounded_value (cx_contract cx) 4000),
      (''current_observable_state'',
         PDict [(''digest'', PStr (py_digest sha (cx_state cx))),
                (''projection'', bounded_value (cx_state cx) 4000)]),
      (''failure_provenance'', bounded_value (cx_provenance cx) 4000),
      (''progress_summary'', bounded_value (PDict (cx_progress cx)) 2000),
      (''attempted_action_fingerprints'', bounded_value (PList (cx_actions cx)) 2000),
      (''last_useful_observation'', bounded_value (cx_last_useful cx) 2000),
      (''current_mismatch'', bounded_value (cx_mismatch cx) 2000),
      (''remaining_budget_reservations'', bounded_value (PDict (cx_budget cx)) 2000)]"

text \<open>The size a projected field takes: the text itself, or its JSON text.\<close>

definition projected_size :: "pyval \<Rightarrow> nat" where
  "projected_size v =
     (case v of PStr s \<Rightarrow> length s | PNone \<Rightarrow> 0 | _ \<Rightarrow> length (json_dumps '', '' '': '' v))"

lemma length_json_char: "1 \<le> length (json_char c)"
  by (simp add: json_char_def Let_def)

lemma length_json_string: "length s \<le> length (json_dumps isep ksep (PStr s))"
proof -
  have "length s \<le> length (concat (map json_char s))"
  proof (induction s)
    case Nil
    then show ?case by simp
  next
    case (Cons c s)
    then show ?case using length_json_char[of c] by simp
  qed
  then show ?thesis by (simp add: json_quote_def)
qed

lemma bounded_value_size: "projected_size (bounded_value v n) \<le> n"
proof (cases v)
  case (PStr s)
  then show ?thesis
    using length_json_string[of s "'', ''" "'': ''"]
    by (auto simp: bounded_value_def projected_size_def Let_def)
qed (simp_all add: bounded_value_def projected_size_def Let_def)

section \<open>Properties\<close>

text \<open>An observation makes a validation candidate exactly when every expected effect is
  matched by what was observed, whatever the history of states and actions; with no expected
  effect it never does.\<close>

theorem satisfied_iff_all_effects:
  "pg_status (fst (evaluator_observe sha b a act obs ev)) = PS_SATISFIED \<longleftrightarrow>
     ep_expected ev \<noteq> [] \<and>
     list_all (\<lambda>(k, v). rc_matches v (effect_lookup obs (fst (observed_after a obs)) k)) (ep_expected ev)"
proof -
  let ?m = "matched_effects (ep_expected ev) obs (fst (observed_after a obs))"
  have "pg_status (fst (evaluator_observe sha b a act obs ev)) = PS_SATISFIED \<longleftrightarrow>
     ep_expected ev \<noteq> [] \<and> length ?m = length (ep_expected ev)"
    by (cases "observed_after a obs") (simp add: evaluator_observe_def Let_def)
  then show ?thesis by (simp add: all_matched list_all_iff)
qed

text \<open>The projected repair context is bounded whatever it is built from: no field exceeds
  4000 characters, and the five summary fields do not exceed 2000.\<close>

theorem projection_bounded:
  "projected_size (dict_get (project sha cx) ''current_goal'') \<le> 4000 \<and>
   projected_size (dict_get (project sha cx) ''acceptance_contract'') \<le> 4000 \<and>
   projected_size (dict_get (project sha cx) ''failure_provenance'') \<le> 4000 \<and>
   list_all (\<lambda>k. projected_size (dict_get (project sha cx) k) \<le> 2000)
     [''progress_summary'', ''attempted_action_fingerprints'', ''last_useful_observation'',
      ''current_mismatch'', ''remaining_budget_reservations'']"
  by (simp add: project_def dict_get_def bounded_value_size) (simp add: projected_size_def)

end
