(* ===== verification/RecoveryCtl.thy ===== *)
theory RecoveryCtl imports Progress RecoveryBudget begin

text \<open>
  \<open>RecoveryController\<close> of \<open>src/lhas/recovery_control.py\<close>: it turns the evaluator's
  observations into control decisions, and records detections and typed escalation signals.

  \<^item> The collaborators that may be absent are fields: \<open>rc_db\<close> (durable signal rows and the
    event store) and \<open>rc_sink\<close>; the calls the sink received are a list.
  \<^item> \<open>_epoch_emitted_signals\<close> is written and never read by the source, so it has no field.
  \<^item> The uuid of a durable signal is \<open>newid n\<close> for the n-th row, \<open>sha\<close> is SHA-256.
\<close>

section \<open>State\<close>

definition typed_escalation_reasons :: "string list" where
  "typed_escalation_reasons =
     [''REPAIR_NO_PROGRESS'', ''REPAIR_REPEATED_ACTION'', ''REPAIR_STATE_OSCILLATION'',
      ''LOCAL_REPAIR_BUDGET_EXHAUSTED'', ''REPEATED_VALIDATOR_REJECTION'']"

datatype recovery_decision =
    RD_CONTINUE_LOCAL_REPAIR | RD_VALIDATE_CANDIDATE | RD_STOP_NO_PROGRESS
  | RD_STOP_REPEATED_ACTION | RD_STOP_OSCILLATION | RD_ESCALATE_MACRO_REPLAN
  | RD_TERMINAL_BUDGET_FAILURE

datatype control_error =
    Unsupported_escalation_policy string
  | Unsupported_escalation_reason string
  | Reservation_error budget_error

datatype escalation_policy = NO_PROGRESS_AWARE | LEGACY_BOUNDED

record detection =
  dt_reason :: string
  dt_status :: string
  dt_state_digest :: string
  dt_action_fingerprint :: string
  dt_source :: pyval
  dt_authoritative :: bool
  dt_epoch :: nat

record signal =
  sg_reason :: string
  sg_task :: string
  sg_run :: string
  sg_attempt :: string
  sg_step :: "string option"
  sg_epoch :: nat
  sg_evidence :: pydict
  sg_signal_id :: "string option"

record replan_signal =
  rs_id :: string
  rs_task :: string
  rs_run :: string
  rs_attempt :: string
  rs_reason :: string
  rs_scope :: string
  rs_failed_node :: "string option"
  rs_evidence :: pydict

record controller =
  rc_task :: string
  rc_run :: string
  rc_attempt :: string
  rc_step :: "string option"
  rc_evaluator :: evaluator
  rc_db :: bool
  rc_sink :: bool
  rc_max_no_progress :: nat
  rc_max_repeated_action :: nat
  rc_max_repeated_state :: nat
  rc_policy :: escalation_policy
  rc_no_progress :: nat
  rc_repeated_action :: nat
  rc_repeated_state :: nat
  rc_validator_rejections :: nat
  rc_signals :: "signal list"
  rc_detections :: "detection list"
  rc_epoch :: nat
  rc_sink_calls :: "(string \<times> pydict) list"
  rc_rows :: "replan_signal list"
  rc_events :: event_log

section \<open>Operations\<close>

definition clamp16 :: "int \<Rightarrow> nat" where
  "clamp16 n = nat (max 1 (min n 16))"

definition begin_strategy_epoch :: "string option \<Rightarrow> pydict \<Rightarrow> controller \<Rightarrow> controller" where
  "begin_strategy_epoch step expected c =
     c\<lparr>rc_epoch := rc_epoch c + 1, rc_step := step, rc_evaluator := new_evaluator expected,
       rc_no_progress := 0, rc_repeated_action := 0, rc_repeated_state := 0,
       rc_validator_rejections := 0\<rparr>"

definition parse_policy :: "string \<Rightarrow> control_error + escalation_policy" where
  "parse_policy s =
     (let p = upper (if s = [] then ''NO_PROGRESS_AWARE'' else s) in
      if p = ''NO_PROGRESS_AWARE'' then Inr NO_PROGRESS_AWARE
      else if p = ''LEGACY_BOUNDED'' then Inr LEGACY_BOUNDED
      else Inl (Unsupported_escalation_policy p))"

definition new_controller ::
  "string \<Rightarrow> string \<Rightarrow> string \<Rightarrow> string option \<Rightarrow> pydict \<Rightarrow> bool \<Rightarrow> bool \<Rightarrow> int \<Rightarrow> int \<Rightarrow> int \<Rightarrow> string \<Rightarrow>
   event_log \<Rightarrow> control_error + controller"
where
  "new_controller task run attempt step expected db sink np ra rs policy log =
     (case parse_policy policy of
        Inl e \<Rightarrow> Inl e
      | Inr pol \<Rightarrow> Inr (begin_strategy_epoch step expected
          \<lparr>rc_task = task, rc_run = run, rc_attempt = attempt, rc_step = step,
           rc_evaluator = new_evaluator expected, rc_db = db, rc_sink = sink,
           rc_max_no_progress = clamp16 np, rc_max_repeated_action = clamp16 ra,
           rc_max_repeated_state = clamp16 rs, rc_policy = pol, rc_no_progress = 0,
           rc_repeated_action = 0, rc_repeated_state = 0, rc_validator_rejections = 0,
           rc_signals = [], rc_detections = [], rc_epoch = 0, rc_sink_calls = [], rc_rows = [],
           rc_events = log\<rparr>))"

definition no_progress_aware :: "controller \<Rightarrow> bool" where
  "no_progress_aware c \<longleftrightarrow> rc_policy c = NO_PROGRESS_AWARE"

definition record_detection :: "string \<Rightarrow> effect_progress \<Rightarrow> controller \<Rightarrow> controller" where
  "record_detection reason p c =
     c\<lparr>rc_detections := rc_detections c @
        [\<lparr>dt_reason = reason, dt_status = progress_status_value (pg_status p),
          dt_state_digest = pg_state_digest p, dt_action_fingerprint = pg_action_fingerprint p,
          dt_source = dict_get (pg_evidence p) ''progress_source'',
          dt_authoritative = py_truthy (dict_get (pg_evidence p) ''effect_progress_authoritative''),
          dt_epoch = rc_epoch c\<rparr>]\<rparr>"

definition signal_evidence :: "effect_progress \<Rightarrow> pydict \<Rightarrow> nat \<Rightarrow> pydict" where
  "signal_evidence p extra epoch =
     AList.update ''strategy_epoch'' (PInt (int epoch))
       (dict_merge (dict_merge
         [(''source'', PStr ''RecoveryController''),
          (''progress_status'', PStr (progress_status_value (pg_status p))),
          (''state_digest'', PStr (pg_state_digest p)),
          (''action_fingerprint'', PStr (pg_action_fingerprint p)),
          (''matched_effect_keys'', PList (map PStr (pg_matched p)))]
         (pg_evidence p)) extra)"

definition existing_signal :: "string \<Rightarrow> controller \<Rightarrow> signal option" where
  "existing_signal reason c =
     List.find (\<lambda>s. sg_reason s = reason \<and> sg_epoch s = rc_epoch c) (rev (rc_signals c))"

definition persist_signal :: "(nat \<Rightarrow> string) \<Rightarrow> string \<Rightarrow> pydict \<Rightarrow> controller \<Rightarrow> string \<times> controller" where
  "persist_signal newid reason evidence c =
     (let i = newid (length (rc_rows c)) in
      (i, c\<lparr>rc_rows := rc_rows c @
              [\<lparr>rs_id = i, rs_task = rc_task c, rs_run = rc_run c, rs_attempt = rc_attempt c,
                rs_reason = reason, rs_scope = ''TASKGRAPH_NODE'', rs_failed_node = rc_step c,
                rs_evidence = evidence\<rparr>],
            rc_events := store_append (Ev_Native REPLAN_SIGNAL_CREATED)
              (Some (rc_task c)) (Some (rc_run c)) (Some (rc_attempt c))
              [(''signal_id'', PStr i), (''reason'', PStr reason),
               (''scope'', PStr ''TASKGRAPH_NODE''),
               (''failed_node_id'', case rc_step c of None \<Rightarrow> PNone | Some s \<Rightarrow> PStr s),
               (''evidence'', PDict evidence)] (rc_events c)\<rparr>))"

definition emit_signal ::
  "(nat \<Rightarrow> string) \<Rightarrow> string \<Rightarrow> effect_progress \<Rightarrow> pydict \<Rightarrow> controller \<Rightarrow>
   (control_error + signal) \<times> controller"
where
  "emit_signal newid reason p extra c =
     (if reason \<notin> set typed_escalation_reasons then (Inl (Unsupported_escalation_reason reason), c)
      else case existing_signal reason c of
             Some s \<Rightarrow> (Inr s, c)
           | None \<Rightarrow>
               (let ev = signal_evidence p extra (rc_epoch c);
                    (i, c1) = (if rc_db c then (let (i, c1) = persist_signal newid reason ev c in (Some i, c1))
                               else (None, c));
                    s = \<lparr>sg_reason = reason, sg_task = rc_task c, sg_run = rc_run c,
                         sg_attempt = rc_attempt c, sg_step = rc_step c, sg_epoch = rc_epoch c,
                         sg_evidence = ev, sg_signal_id = i\<rparr>
                in (Inr s, c1\<lparr>rc_signals := rc_signals c1 @ [s],
                             rc_sink_calls := rc_sink_calls c1 @ (if rc_sink c1 then [(reason, ev)] else [])\<rparr>)))"

text \<open>
  The recurring branch of \<open>observe\<close>: emit and escalate, or carry on under the legacy
  policy. An exception of \<open>emit_signal\<close> leaves \<open>observe\<close>.
\<close>

definition escalate ::
  "(nat \<Rightarrow> string) \<Rightarrow> string \<Rightarrow> effect_progress \<Rightarrow> controller \<Rightarrow>
   (control_error + recovery_decision \<times> effect_progress) \<times> controller"
where
  "escalate newid reason p c =
     (case emit_signal newid reason p [] c of
        (Inl e, c') \<Rightarrow> (Inl e, c')
      | (Inr _, c') \<Rightarrow> (Inr (RD_ESCALATE_MACRO_REPLAN, p), c'))"

definition detect_then ::
  "(nat \<Rightarrow> string) \<Rightarrow> string \<Rightarrow> effect_progress \<Rightarrow> controller \<Rightarrow>
   (control_error + recovery_decision \<times> effect_progress) \<times> controller"
where
  "detect_then newid reason p c =
     (let c1 = record_detection reason p c in
      if no_progress_aware c1 then escalate newid reason p c1
      else (Inr (RD_CONTINUE_LOCAL_REPAIR, p), c1))"

definition is_authoritative_candidate :: "pydict \<Rightarrow> pydict \<Rightarrow> effect_progress \<Rightarrow> bool" where
  "is_authoritative_candidate action observation p \<longleftrightarrow>
     (case as_dict (dict_get action ''active_step_contract'') of
        None \<Rightarrow> False
      | Some contract \<Rightarrow>
          py_str (dict_get_or action ''capability'' (PStr [])) =
            py_str (dict_get_or contract ''capability'' (PStr [])) \<and>
          dict_get action ''planner_owned_arguments_match'' = PBool True \<and>
          py_str (dict_get_or observation ''status'' (PStr [])) = ''SUCCESS'' \<and>
          py_truthy (dict_get (pg_evidence p) ''confirmed_observed_mutation''))"

definition candidate_rejection_reason :: "pydict \<Rightarrow> pydict \<Rightarrow> effect_progress \<Rightarrow> string" where
  "candidate_rejection_reason action observation p =
     (case as_dict (dict_get action ''active_step_contract'') of
        None \<Rightarrow> ''ACTIVE_STEP_CONTRACT_MISSING''
      | Some contract \<Rightarrow>
          if py_str (dict_get_or action ''capability'' (PStr [])) \<noteq>
             py_str (dict_get_or contract ''capability'' (PStr [])) then ''ACTIVE_CAPABILITY_MISMATCH''
          else if dict_get action ''planner_owned_arguments_match'' \<noteq> PBool True
            then ''PLANNER_OWNED_ARGUMENTS_MISMATCH''
          else if py_str (dict_get_or observation ''status'' (PStr [])) \<noteq> ''SUCCESS''
            then ''TOOL_EXECUTION_NOT_SUCCESS''
          else if \<not> py_truthy (dict_get (pg_evidence p) ''confirmed_observed_mutation'')
            then ''CONFIRMED_MUTATION_MISSING''
          else ''CANDIDATE_CONTRACT_NOT_SATISFIED'')"

definition add_evidence :: "string \<Rightarrow> pyval \<Rightarrow> effect_progress \<Rightarrow> effect_progress" where
  "add_evidence k v p = p\<lparr>pg_evidence := AList.update k v (pg_evidence p)\<rparr>"

definition count_observation :: "effect_progress \<Rightarrow> controller \<Rightarrow> controller" where
  "count_observation p c =
     (let ra = py_truthy (dict_get (pg_evidence p) ''repeated_action'');
          rs = py_truthy (dict_get (pg_evidence p) ''repeated_state'');
          confirmed = py_truthy (dict_get (pg_evidence p) ''confirmed_observed_mutation'')
      in c\<lparr>rc_repeated_action := rc_repeated_action c + (if ra then 1 else 0),
           rc_repeated_state := rc_repeated_state c + (if rs then 1 else 0),
           rc_no_progress :=
             (if pg_status p = PS_CHANGED_UNKNOWN \<and> confirmed then 0
              else if pg_status p = PS_NO_PROGRESS \<or> pg_status p = PS_CHANGED_UNKNOWN
                then rc_no_progress c + 1
              else 0)\<rparr>)"

definition decide_counts ::
  "(nat \<Rightarrow> string) \<Rightarrow> effect_progress \<Rightarrow> controller \<Rightarrow>
   (control_error + recovery_decision \<times> effect_progress) \<times> controller"
where
  "decide_counts newid p c =
     (if rc_repeated_action c \<ge> rc_max_repeated_action c then
        detect_then newid ''REPAIR_REPEATED_ACTION'' p c
      else if rc_repeated_state c \<ge> rc_max_repeated_state c then
        detect_then newid ''REPAIR_NO_PROGRESS'' p c
      else if rc_no_progress c \<ge> rc_max_no_progress c then
        detect_then newid ''REPAIR_NO_PROGRESS'' p c
      else (Inr (RD_CONTINUE_LOCAL_REPAIR, p), c))"

definition controller_observe ::
  "(string \<Rightarrow> string) \<Rightarrow> (nat \<Rightarrow> string) \<Rightarrow> pyval \<Rightarrow> pyval \<Rightarrow> pydict \<Rightarrow> pydict \<Rightarrow> controller \<Rightarrow>
   (control_error + recovery_decision \<times> effect_progress) \<times> controller"
where
  "controller_observe sha newid before after action observation c0 =
     (let (p, ev) = evaluator_observe sha before after action observation (rc_evaluator c0);
          c = c0\<lparr>rc_evaluator := ev\<rparr>;
          et = dict_get observation ''error_type'';
          mismatch = ((if py_truthy et then py_str et else []) = ''PLAN_STEP_ARGUMENTS_MISMATCH'')
      in if is_authoritative_candidate action observation p then
           (Inr (RD_VALIDATE_CANDIDATE, add_evidence ''candidate_for_validation'' (PBool True) p), c)
         else
           let c1 = (if mismatch then record_detection ''REPAIR_NO_PROGRESS'' p c else c) in
           if mismatch \<and> no_progress_aware c1 then escalate newid ''REPAIR_NO_PROGRESS'' p c1
           else
             let p1 = (if pg_status p = PS_SATISFIED then
                         add_evidence ''candidate_rejection_reason''
                           (PStr (candidate_rejection_reason action observation p))
                           (add_evidence ''candidate_for_validation'' (PBool False) p)
                       else p)
             in if pg_status p1 = PS_OSCILLATING then
                  detect_then newid ''REPAIR_STATE_OSCILLATION'' p1 c1
                else decide_counts newid p1 (count_observation p1 c1))"

definition budget_failure_progress :: "(string \<Rightarrow> string) \<Rightarrow> controller \<Rightarrow> effect_progress" where
  "budget_failure_progress sha c =
     \<lparr>pg_status = PS_NO_PROGRESS,
      pg_state_digest = (case ep_last_state (rc_evaluator c) of
                           Some d \<Rightarrow> (if d = [] then py_digest sha (PDict []) else d)
                         | None \<Rightarrow> py_digest sha (PDict [])),
      pg_action_fingerprint = (case ep_last_action (rc_evaluator c) of
                           Some d \<Rightarrow> (if d = [] then py_digest sha (PDict []) else d)
                         | None \<Rightarrow> py_digest sha (PDict [])),
      pg_matched = [], pg_evidence = [(''source'', PStr ''RecoveryBudgetManager'')]\<rparr>"

definition validator_rejected ::
  "(string \<Rightarrow> string) \<Rightarrow> (nat \<Rightarrow> string) \<Rightarrow> controller \<Rightarrow>
   (control_error + recovery_decision) \<times> controller"
where
  "validator_rejected sha newid c0 =
     (let p = (budget_failure_progress sha c0)\<lparr>pg_evidence :=
                [(''source'', PStr ''AUTHORITATIVE_VALIDATOR''),
                 (''validator_rejection_count'', PInt (int (rc_validator_rejections c0 + 1)))]\<rparr>;
          c = c0\<lparr>rc_validator_rejections := rc_validator_rejections c0 + 1,
                 rc_no_progress := rc_no_progress c0 + 1\<rparr>
      in if rc_validator_rejections c \<ge> rc_max_no_progress c then
           (case detect_then newid ''REPEATED_VALIDATOR_REJECTION'' p c of
              (Inl e, c') \<Rightarrow> (Inl e, c')
            | (Inr (d, _), c') \<Rightarrow> (Inr d, c'))
         else (Inr RD_CONTINUE_LOCAL_REPAIR, c))"

text \<open>A budget manager is optional; its rejection is passed on.\<close>

definition acquire_local_turn ::
  "(string \<Rightarrow> 'r \<Rightarrow> ('e + unit) \<times> 'r) \<Rightarrow> 'r budget_manager option \<Rightarrow>
   (control_error + unit) \<times> 'r budget_manager option"
where
  "acquire_local_turn reserve bm =
     (case bm of
        None \<Rightarrow> (Inr (), None)
      | Some m \<Rightarrow> (case acquire reserve ''local_repair'' m of
            (Inl e, m') \<Rightarrow> (Inl (Reservation_error e), Some m')
          | (Inr _, m') \<Rightarrow> (Inr (), Some m')))"

section \<open>Sessions\<close>

datatype control_call =
    Observe pyval pyval pydict pydict
  | Validator_rejected
  | Begin_epoch "string option" pydict
  | Emit string effect_progress pydict

fun control_step ::
  "(string \<Rightarrow> string) \<Rightarrow> (nat \<Rightarrow> string) \<Rightarrow> control_call \<Rightarrow> controller \<Rightarrow>
   recovery_decision option \<times> controller"
where
  "control_step sha newid (Observe b a act obs) c =
     (case controller_observe sha newid b a act obs c of
        (Inl _, c') \<Rightarrow> (None, c') | (Inr (d, _), c') \<Rightarrow> (Some d, c'))"
| "control_step sha newid Validator_rejected c =
     (case validator_rejected sha newid c of
        (Inl _, c') \<Rightarrow> (None, c') | (Inr d, c') \<Rightarrow> (Some d, c'))"
| "control_step sha newid (Begin_epoch s e) c = (None, begin_strategy_epoch s e c)"
| "control_step sha newid (Emit r p x) c = (None, snd (emit_signal newid r p x c))"

fun control_run ::
  "(string \<Rightarrow> string) \<Rightarrow> (nat \<Rightarrow> string) \<Rightarrow> control_call list \<Rightarrow> controller \<Rightarrow>
   recovery_decision option list \<times> controller"
where
  "control_run sha newid [] c = ([], c)"
| "control_run sha newid (x # xs) c =
     (let (d, c1) = control_step sha newid x c; (ds, c2) = control_run sha newid xs c1
      in (d # ds, c2))"

section \<open>Invariant\<close>

abbreviation signal_key :: "signal \<Rightarrow> string \<times> nat" where
  "signal_key s \<equiv> (sg_reason s, sg_epoch s)"

definition signals_ok :: "controller \<Rightarrow> bool" where
  "signals_ok c \<longleftrightarrow>
     distinct (map signal_key (rc_signals c)) \<and>
     list_all (\<lambda>s. sg_reason s \<in> set typed_escalation_reasons \<and> 1 \<le> sg_epoch s \<and> sg_epoch s \<le> rc_epoch c)
       (rc_signals c)"

definition mirrors_ok :: "controller \<Rightarrow> bool" where
  "mirrors_ok c \<longleftrightarrow>
     rc_sink_calls c = (if rc_sink c then map (\<lambda>s. (sg_reason s, sg_evidence s)) (rc_signals c) else []) \<and>
     map (\<lambda>r. (rs_reason r, rs_evidence r)) (rc_rows c) =
       (if rc_db c then map (\<lambda>s. (sg_reason s, sg_evidence s)) (rc_signals c) else [])"

definition control_ok :: "controller \<Rightarrow> bool" where
  "control_ok c \<longleftrightarrow>
     length (ep_seen_states (rc_evaluator c)) \<le> 64 \<and> 1 \<le> rc_epoch c \<and> signals_ok c \<and> mirrors_ok c"

text \<open>What every operation keeps of the past.\<close>

definition control_extends :: "controller \<Rightarrow> controller \<Rightarrow> bool" where
  "control_extends c c' \<longleftrightarrow>
     prefix (rc_signals c) (rc_signals c') \<and> prefix (rc_detections c) (rc_detections c') \<and>
     prefix (rc_rows c) (rc_rows c') \<and> prefix (rc_events c) (rc_events c') \<and>
     rc_policy c' = rc_policy c \<and> rc_max_no_progress c' = rc_max_no_progress c \<and>
     rc_max_repeated_action c' = rc_max_repeated_action c \<and>
     rc_max_repeated_state c' = rc_max_repeated_state c \<and> rc_epoch c \<le> rc_epoch c'"

lemma control_extends_refl [simp]: "control_extends c c"
  by (simp add: control_extends_def)

lemma control_extends_trans: "control_extends a b \<Longrightarrow> control_extends b c \<Longrightarrow> control_extends a c"
  by (auto simp: control_extends_def intro: prefix_order.order_trans)

lemma existing_signalD:
  assumes "existing_signal r c = Some s"
  shows "s \<in> set (rc_signals c) \<and> sg_reason s = r \<and> sg_epoch s = rc_epoch c"
  using find_Some_set[OF assms[unfolded existing_signal_def]] by auto

lemma existing_signal_None:
  "existing_signal r c = None \<Longrightarrow> (r, rc_epoch c) \<notin> signal_key ` set (rc_signals c)"
  by (auto simp: existing_signal_def find_None_iff_all)

text \<open>Emitting either finds the signal of this epoch or appends one.\<close>

lemma emit_signal_cases:
  assumes "r \<in> set typed_escalation_reasons"
  obtains s where "emit_signal newid r p x c = (Inr s, c)" "existing_signal r c = Some s"
  | s c' where "emit_signal newid r p x c = (Inr s, c')" "existing_signal r c = None"
      "rc_signals c' = rc_signals c @ [s]" "sg_reason s = r" "sg_epoch s = rc_epoch c"
      "rc_sink_calls c' = rc_sink_calls c @ (if rc_sink c then [(r, sg_evidence s)] else [])"
      "map (\<lambda>r. (rs_reason r, rs_evidence r)) (rc_rows c') =
         map (\<lambda>r. (rs_reason r, rs_evidence r)) (rc_rows c) @ (if rc_db c then [(r, sg_evidence s)] else [])"
      "prefix (rc_rows c) (rc_rows c')" "prefix (rc_events c) (rc_events c')"
      "rc_detections c' = rc_detections c" "rc_epoch c' = rc_epoch c" "rc_policy c' = rc_policy c"
      "rc_evaluator c' = rc_evaluator c" "rc_db c' = rc_db c" "rc_sink c' = rc_sink c"
      "rc_max_no_progress c' = rc_max_no_progress c"
      "rc_max_repeated_action c' = rc_max_repeated_action c"
      "rc_max_repeated_state c' = rc_max_repeated_state c"
      "rc_no_progress c' = rc_no_progress c" "rc_repeated_action c' = rc_repeated_action c"
proof (cases "existing_signal r c")
  case (Some s)
  with assms that(1) show ?thesis by (simp add: emit_signal_def)
next
  case None
  let ?c' = "snd (emit_signal newid r p x c)"
  let ?s = "last (rc_signals ?c')"
  show ?thesis
    by (rule that(2)[of ?s ?c'])
      (use None assms in \<open>simp_all add: emit_signal_def Let_def persist_signal_def prefix_store_append
         split: prod.splits\<close>)
qed

lemma emit_keeps:
  assumes "control_ok c"
  shows "control_ok (snd (emit_signal newid r p x c)) \<and> control_extends c (snd (emit_signal newid r p x c))"
proof (cases "r \<in> set typed_escalation_reasons")
  case False
  with assms show ?thesis by (simp add: emit_signal_def)
next
  case True
  then show ?thesis
  proof (cases rule: emit_signal_cases[where newid = newid and p = p and x = x and c = c])
    case (1 s)
    with assms show ?thesis by simp
  next
    case (2 s c')
    have "(r, rc_epoch c) \<notin> signal_key ` set (rc_signals c)"
      by (rule existing_signal_None[OF 2(2)])
    then have "signals_ok c'"
      using assms True 2(3-5,11) by (auto simp: control_ok_def signals_ok_def)
    moreover have "mirrors_ok c'"
      using assms 2 by (auto simp: control_ok_def mirrors_ok_def)
    ultimately show ?thesis
      using assms 2 by (simp add: control_ok_def control_extends_def)
  qed
qed

lemma record_detection_fields [frame_simps]:
  "rc_signals (record_detection r p c) = rc_signals c"
  "rc_epoch (record_detection r p c) = rc_epoch c"
  "rc_policy (record_detection r p c) = rc_policy c"
  "rc_no_progress (record_detection r p c) = rc_no_progress c"
  "rc_repeated_action (record_detection r p c) = rc_repeated_action c"
  "rc_repeated_state (record_detection r p c) = rc_repeated_state c"
  "rc_max_no_progress (record_detection r p c) = rc_max_no_progress c"
  "rc_max_repeated_action (record_detection r p c) = rc_max_repeated_action c"
  "rc_max_repeated_state (record_detection r p c) = rc_max_repeated_state c"
  by (simp_all add: record_detection_def)

lemma record_detection_keeps:
  "control_ok c \<Longrightarrow> control_ok (record_detection r p c) \<and> control_extends c (record_detection r p c)"
  by (simp add: record_detection_def control_ok_def signals_ok_def mirrors_ok_def control_extends_def)

lemma count_observation_keeps:
  "control_ok c \<Longrightarrow> control_ok (count_observation p c) \<and> control_extends c (count_observation p c)"
  by (simp add: count_observation_def control_ok_def signals_ok_def mirrors_ok_def control_extends_def Let_def)

lemma set_evaluator_keeps:
  "control_ok c \<Longrightarrow> length (ep_seen_states ev) \<le> 64 \<Longrightarrow>
   control_ok (c\<lparr>rc_evaluator := ev\<rparr>) \<and> control_extends c (c\<lparr>rc_evaluator := ev\<rparr>)"
  by (simp add: control_ok_def signals_ok_def mirrors_ok_def control_extends_def)

lemma begin_epoch_keeps:
  assumes "control_ok c"
  shows "control_ok (begin_strategy_epoch s e c) \<and> control_extends c (begin_strategy_epoch s e c)"
  using assms
  by (auto simp: begin_strategy_epoch_def control_ok_def signals_ok_def mirrors_ok_def
      control_extends_def new_evaluator_def list_all_iff)

lemma escalate_keeps:
  assumes "control_ok c"
  shows "control_ok (snd (escalate newid r p c)) \<and> control_extends c (snd (escalate newid r p c))"
  using emit_keeps[OF assms, of newid r p "[]"]
  by (auto simp: escalate_def split: sum.splits prod.splits)

lemma detect_then_keeps:
  assumes "control_ok c"
  shows "control_ok (snd (detect_then newid r p c)) \<and> control_extends c (snd (detect_then newid r p c))"
proof -
  note d = record_detection_keeps[OF assms, of r p]
  show ?thesis
    using d escalate_keeps[OF conjunct1[OF d], of newid r p]
    by (auto simp: detect_then_def Let_def intro: control_extends_trans)
qed

lemma decide_counts_keeps:
  assumes "control_ok c"
  shows "control_ok (snd (decide_counts newid p c)) \<and> control_extends c (snd (decide_counts newid p c))"
  using assms detect_then_keeps[OF assms] by (simp add: decide_counts_def)

text \<open>The stages of \<open>controller_observe\<close>, named for the case analyses below.\<close>

abbreviation observed_progress ::
  "(string \<Rightarrow> string) \<Rightarrow> pyval \<Rightarrow> pyval \<Rightarrow> pydict \<Rightarrow> pydict \<Rightarrow> controller \<Rightarrow> effect_progress"
where
  "observed_progress sha b a act obs c \<equiv> fst (evaluator_observe sha b a act obs (rc_evaluator c))"

abbreviation observed_control ::
  "(string \<Rightarrow> string) \<Rightarrow> pyval \<Rightarrow> pyval \<Rightarrow> pydict \<Rightarrow> pydict \<Rightarrow> controller \<Rightarrow> controller"
where
  "observed_control sha b a act obs c \<equiv>
     c\<lparr>rc_evaluator := snd (evaluator_observe sha b a act obs (rc_evaluator c))\<rparr>"

definition annotate_candidate :: "pydict \<Rightarrow> pydict \<Rightarrow> effect_progress \<Rightarrow> effect_progress" where
  "annotate_candidate act obs p =
     (if pg_status p = PS_SATISFIED then
        add_evidence ''candidate_rejection_reason'' (PStr (candidate_rejection_reason act obs p))
          (add_evidence ''candidate_for_validation'' (PBool False) p)
      else p)"

lemma annotate_status [simp]: "pg_status (annotate_candidate act obs p) = pg_status p"
  by (simp add: annotate_candidate_def add_evidence_def)

lemma annotate_evidence [simp]:
  "k \<noteq> ''candidate_rejection_reason'' \<Longrightarrow> k \<noteq> ''candidate_for_validation'' \<Longrightarrow>
   dict_get (pg_evidence (annotate_candidate act obs p)) k = dict_get (pg_evidence p) k"
  by (simp add: annotate_candidate_def add_evidence_def dict_get_def)

lemma controller_observe_cases:
  fixes sha newid b a act obs c
  defines "p \<equiv> observed_progress sha b a act obs c"
    and "c1 \<equiv> observed_control sha b a act obs c"
  obtains
    (candidate) "is_authoritative_candidate act obs p"
      "controller_observe sha newid b a act obs c =
         (Inr (RD_VALIDATE_CANDIDATE, add_evidence ''candidate_for_validation'' (PBool True) p), c1)"
  | (mismatch) "\<not> is_authoritative_candidate act obs p" "no_progress_aware c"
      "controller_observe sha newid b a act obs c =
         escalate newid ''REPAIR_NO_PROGRESS'' p (record_detection ''REPAIR_NO_PROGRESS'' p c1)"
  | (oscillating) c2 where "\<not> is_authoritative_candidate act obs p"
      "c2 = c1 \<or> c2 = record_detection ''REPAIR_NO_PROGRESS'' p c1"
      "controller_observe sha newid b a act obs c =
         detect_then newid ''REPAIR_STATE_OSCILLATION'' (annotate_candidate act obs p) c2"
  | (counted) c2 where "\<not> is_authoritative_candidate act obs p" "pg_status p \<noteq> PS_OSCILLATING"
      "c2 = c1 \<or> c2 = record_detection ''REPAIR_NO_PROGRESS'' p c1"
      "controller_observe sha newid b a act obs c =
         decide_counts newid (annotate_candidate act obs p) (count_observation (annotate_candidate act obs p) c2)"
proof -
  let ?et = "dict_get obs ''error_type''"
  let ?mm = "(if py_truthy ?et then py_str ?et else []) = ''PLAN_STEP_ARGUMENTS_MISMATCH''"
  let ?c2 = "if ?mm then record_detection ''REPAIR_NO_PROGRESS'' p c1 else c1"
  have eq: "controller_observe sha newid b a act obs c =
     (if is_authoritative_candidate act obs p then
        (Inr (RD_VALIDATE_CANDIDATE, add_evidence ''candidate_for_validation'' (PBool True) p), c1)
      else if ?mm \<and> no_progress_aware ?c2 then escalate newid ''REPAIR_NO_PROGRESS'' p ?c2
      else if pg_status p = PS_OSCILLATING then
        detect_then newid ''REPAIR_STATE_OSCILLATION'' (annotate_candidate act obs p) ?c2
      else decide_counts newid (annotate_candidate act obs p) (count_observation (annotate_candidate act obs p) ?c2))"
    unfolding p_def c1_def controller_observe_def annotate_candidate_def Let_def
    by (cases "evaluator_observe sha b a act obs (rc_evaluator c)") (simp add: add_evidence_def)
  have aware: "no_progress_aware ?c2 = no_progress_aware c"
    by (simp add: no_progress_aware_def frame_simps c1_def)
  show ?thesis
  proof (cases "is_authoritative_candidate act obs p")
    case True
    with eq candidate show ?thesis by simp
  next
    case False
    show ?thesis
    proof (cases "?mm \<and> no_progress_aware c")
      case True
      with eq False aware show ?thesis by (intro mismatch) auto
    next
      case nomm: False
      then have c2: "?c2 = c1 \<or> ?c2 = record_detection ''REPAIR_NO_PROGRESS'' p c1" by auto
      show ?thesis
      proof (cases "pg_status p = PS_OSCILLATING")
        case True
        with eq False aware nomm show ?thesis by (intro oscillating[OF False c2]) auto
      next
        case os: False
        with eq False aware nomm show ?thesis by (intro counted[OF False os c2]) auto
      qed
    qed
  qed
qed

lemma observed_control_keeps:
  "control_ok c \<Longrightarrow> control_ok (observed_control sha b a act obs c) \<and>
     control_extends c (observed_control sha b a act obs c)"
  by (rule set_evaluator_keeps) (simp_all add: observe_window)

lemma maybe_detected_keeps:
  "control_ok c \<Longrightarrow> c' = c \<or> c' = record_detection r p c \<Longrightarrow> control_ok c' \<and> control_extends c c'"
  using record_detection_keeps by auto

lemma controller_observe_keeps:
  assumes "control_ok c"
  shows "control_ok (snd (controller_observe sha newid b a act obs c)) \<and>
    control_extends c (snd (controller_observe sha newid b a act obs c))"
proof -
  note oc = observed_control_keeps[OF assms, of sha b a act obs]
  show ?thesis
  proof (cases rule: controller_observe_cases[where sha = sha and newid = newid and b = b and a = a
        and act = act and obs = obs and c = c])
    case candidate
    with oc show ?thesis by simp
  next
    case mismatch
    note d = record_detection_keeps[OF conjunct1[OF oc],
      of "''REPAIR_NO_PROGRESS''" "observed_progress sha b a act obs c"]
    show ?thesis
      unfolding mismatch(3) using oc d escalate_keeps[OF conjunct1[OF d]]
      by (blast intro: control_extends_trans)
  next
    case (oscillating c2)
    note d = maybe_detected_keeps[OF conjunct1[OF oc] oscillating(2)]
    show ?thesis
      unfolding oscillating(3) using oc d detect_then_keeps[OF conjunct1[OF d]]
      by (blast intro: control_extends_trans)
  next
    case (counted c2)
    note d = maybe_detected_keeps[OF conjunct1[OF oc] counted(3)]
    note e = count_observation_keeps[OF conjunct1[OF d]]
    show ?thesis
      unfolding counted(4) using oc d e decide_counts_keeps[OF conjunct1[OF e]]
      by (blast intro: control_extends_trans)
  qed
qed

lemma snd_sum_case:
  "snd (case x of (Inl e, c) \<Rightarrow> (Inl e, c) | (Inr (d, q), c) \<Rightarrow> (Inr d, c)) = snd x"
  by (auto split: sum.splits prod.splits)

lemma validator_rejected_keeps:
  assumes "control_ok c"
  shows "control_ok (snd (validator_rejected sha newid c)) \<and>
    control_extends c (snd (validator_rejected sha newid c))"
proof -
  let ?c = "c\<lparr>rc_validator_rejections := rc_validator_rejections c + 1,
              rc_no_progress := rc_no_progress c + 1\<rparr>"
  have c: "control_ok ?c \<and> control_extends c ?c"
    using assms by (simp add: control_ok_def signals_ok_def mirrors_ok_def control_extends_def)
  show ?thesis
    using c detect_then_keeps[OF conjunct1[OF c], THEN conjunct1]
      control_extends_trans[OF conjunct2[OF c] detect_then_keeps[OF conjunct1[OF c], THEN conjunct2]]
    unfolding validator_rejected_def Let_def by (simp only: snd_sum_case snd_conv split: if_splits) blast
qed

lemma control_step_keeps:
  assumes "control_ok c"
  shows "control_ok (snd (control_step sha newid x c)) \<and> control_extends c (snd (control_step sha newid x c))"
proof (cases x)
  case (Observe b a act obs)
  have "snd (control_step sha newid x c) = snd (controller_observe sha newid b a act obs c)"
    unfolding Observe by (auto split: sum.splits prod.splits)
  with controller_observe_keeps[OF assms] show ?thesis by simp
next
  case Validator_rejected
  have "snd (control_step sha newid x c) = snd (validator_rejected sha newid c)"
    unfolding Validator_rejected by (auto split: sum.splits prod.splits)
  with validator_rejected_keeps[OF assms] show ?thesis by simp
next
  case (Begin_epoch st e)
  with begin_epoch_keeps[OF assms] show ?thesis by simp
next
  case (Emit r p xs)
  with emit_keeps[OF assms] show ?thesis by simp
qed

lemma control_run_keeps:
  "control_ok c \<Longrightarrow> control_ok (snd (control_run sha newid xs c)) \<and> control_extends c (snd (control_run sha newid xs c))"
proof (induction xs arbitrary: c)
  case Nil
  then show ?case by simp
next
  case (Cons x xs)
  note s = control_step_keeps[OF Cons.prems, of sha newid x]
  from Cons.IH[OF conjunct1[OF s]] s show ?case
    by (auto simp: split_beta Let_def intro: control_extends_trans)
qed

lemma new_controller_ok:
  "new_controller task run attempt step e db sink np ra rs pol log = Inr c \<Longrightarrow> control_ok c"
  by (auto simp: new_controller_def begin_strategy_epoch_def control_ok_def signals_ok_def
      mirrors_ok_def new_evaluator_def split: sum.splits)

lemma new_controller_fields:
  assumes "new_controller task run attempt step e db sink np ra rs pol log = Inr c"
  shows "rc_no_progress c = 0 \<and> rc_repeated_action c = 0 \<and> rc_signals c = [] \<and> rc_epoch c = 1 \<and>
    rc_max_no_progress c = clamp16 np \<and> rc_max_repeated_action c = clamp16 ra"
  using assms by (auto simp: new_controller_def begin_strategy_epoch_def split: sum.splits)

subsection \<open>Decisions\<close>

lemma legacy_detect_then:
  "\<not> no_progress_aware c \<Longrightarrow>
   detect_then newid r p c = (Inr (RD_CONTINUE_LOCAL_REPAIR, p), record_detection r p c)"
  by (simp add: detect_then_def Let_def no_progress_aware_def frame_simps)

lemma aware_detect_then:
  "no_progress_aware c \<Longrightarrow> detect_then newid r p c = escalate newid r p (record_detection r p c)"
  by (simp add: detect_then_def Let_def no_progress_aware_def frame_simps)

lemma escalate_typed:
  assumes "r \<in> set typed_escalation_reasons"
  obtains c' where "escalate newid r p c = (Inr (RD_ESCALATE_MACRO_REPLAN, p), c')"
    "\<exists>s\<in>set (rc_signals c'). sg_reason s = r \<and> sg_epoch s = rc_epoch c'" "rc_epoch c' = rc_epoch c"
proof (cases rule: emit_signal_cases[OF assms, where newid = newid and p = p and x = "[]" and c = c])
  case (1 s)
  then show ?thesis using existing_signalD[OF 1(2)] by (intro that[of c]) (auto simp: escalate_def)
next
  case (2 s c')
  then show ?thesis by (intro that[of c']) (auto simp: escalate_def)
qed

lemma typed_reasons:
  "''REPAIR_NO_PROGRESS'' \<in> set typed_escalation_reasons"
  "''REPAIR_REPEATED_ACTION'' \<in> set typed_escalation_reasons"
  "''REPAIR_STATE_OSCILLATION'' \<in> set typed_escalation_reasons"
  "''REPEATED_VALIDATOR_REJECTION'' \<in> set typed_escalation_reasons"
  by (simp_all add: typed_escalation_reasons_def)

definition backed :: "(control_error + recovery_decision \<times> effect_progress) \<times> controller \<Rightarrow> bool" where
  "backed res \<longleftrightarrow>
     (case res of
        (Inl _, _) \<Rightarrow> False
      | (Inr (d, _), c) \<Rightarrow>
          (d = RD_ESCALATE_MACRO_REPLAN \<longrightarrow>
             (\<exists>s\<in>set (rc_signals c). sg_reason s \<in> set typed_escalation_reasons \<and> sg_epoch s = rc_epoch c)) \<and>
          d \<in> {RD_ESCALATE_MACRO_REPLAN, RD_CONTINUE_LOCAL_REPAIR, RD_VALIDATE_CANDIDATE})"

lemma escalate_backed: "r \<in> set typed_escalation_reasons \<Longrightarrow> backed (escalate newid r p c)"
proof -
  assume r: "r \<in> set typed_escalation_reasons"
  show ?thesis
    by (rule escalate_typed[OF r, of newid p c]) (use r in \<open>auto simp: backed_def\<close>)
qed

lemma detect_then_backed: "r \<in> set typed_escalation_reasons \<Longrightarrow> backed (detect_then newid r p c)"
  by (cases "no_progress_aware c") (simp_all add: aware_detect_then legacy_detect_then escalate_backed, simp add: backed_def)

lemma decide_counts_backed: "backed (decide_counts newid p c)"
  by (simp add: decide_counts_def detect_then_backed typed_reasons) (simp add: backed_def)

lemma controller_observe_backed: "backed (controller_observe sha newid b a act obs c)"
  by (cases rule: controller_observe_cases[where sha = sha and newid = newid and b = b and a = a
        and act = act and obs = obs and c = c])
    (simp_all add: escalate_backed detect_then_backed decide_counts_backed typed_reasons,
     simp add: backed_def)

section \<open>Stalled repairs\<close>

definition stalled :: "effect_progress \<Rightarrow> bool" where
  "stalled p \<longleftrightarrow>
     pg_status p \<in> {PS_NO_PROGRESS, PS_REPEATED, PS_OSCILLATING} \<or>
     (pg_status p = PS_CHANGED_UNKNOWN \<and>
      \<not> py_truthy (dict_get (pg_evidence p) ''confirmed_observed_mutation''))"

type_synonym observation = "pyval \<times> pyval \<times> pydict \<times> pydict"

fun observe_run ::
  "(string \<Rightarrow> string) \<Rightarrow> (nat \<Rightarrow> string) \<Rightarrow> observation list \<Rightarrow> controller \<Rightarrow>
   (recovery_decision \<times> effect_progress) list \<times> controller"
where
  "observe_run sha newid [] c = ([], c)"
| "observe_run sha newid ((b, a, act, obs) # os) c =
     (case controller_observe sha newid b a act obs c of
        (Inl _, c1) \<Rightarrow> ([], c1)
      | (Inr r, c1) \<Rightarrow> (let (rs, c2) = observe_run sha newid os c1 in (r # rs, c2)))"

text \<open>The potential a stalled observation raises until a bound trips.\<close>

definition stall_level :: "controller \<Rightarrow> nat" where
  "stall_level c = rc_repeated_action c * rc_max_no_progress c + rc_no_progress c"

definition below_bounds :: "controller \<Rightarrow> bool" where
  "below_bounds c \<longleftrightarrow> rc_repeated_action c < rc_max_repeated_action c \<and> rc_no_progress c < rc_max_no_progress c"

lemma stall_level_bound:
  assumes "below_bounds c"
  shows "stall_level c < rc_max_repeated_action c * rc_max_no_progress c"
proof -
  have "stall_level c < (rc_repeated_action c + 1) * rc_max_no_progress c"
    using assms by (simp add: stall_level_def below_bounds_def)
  also have "\<dots> \<le> rc_max_repeated_action c * rc_max_no_progress c"
    using assms by (intro mult_right_mono) (simp_all add: below_bounds_def)
  finally show ?thesis .
qed

lemma count_raises_level:
  assumes "stalled p" and "pg_status p \<noteq> PS_OSCILLATING"
    and "pg_status p = PS_REPEATED \<Longrightarrow> dict_get (pg_evidence p) ''repeated_action'' = PBool True"
  shows "below_bounds c \<Longrightarrow> stall_level c < stall_level (count_observation p c)"
    and "0 < rc_max_no_progress c \<Longrightarrow> 0 < stall_level (count_observation p c)"
proof -
  show "stall_level c < stall_level (count_observation p c)" if "below_bounds c"
  proof (cases "pg_status p = PS_REPEATED")
    case True
    with assms that show ?thesis
      by (simp add: stall_level_def count_observation_def below_bounds_def Let_def)
  next
    case False
    with assms(1,2) show ?thesis
      by (auto simp: stall_level_def count_observation_def stalled_def Let_def)
  qed
  show "0 < stall_level (count_observation p c)" if "0 < rc_max_no_progress c"
    using assms that by (cases "pg_status p = PS_REPEATED") (auto simp: stall_level_def count_observation_def stalled_def Let_def)
qed

lemma decide_counts_continue:
  assumes "no_progress_aware c" and "decide_counts newid p c = (Inr (RD_CONTINUE_LOCAL_REPAIR, q), c')"
  shows "c' = c \<and> below_bounds c"
proof -
  have no: "detect_then newid r p c \<noteq> (Inr (RD_CONTINUE_LOCAL_REPAIR, q), c')"
    if "r \<in> set typed_escalation_reasons" for r
    using assms(1) by (auto simp: aware_detect_then escalate_def split: sum.splits prod.splits)
  show ?thesis
    using assms(2) no[OF typed_reasons(1)] no[OF typed_reasons(2)]
    by (auto simp: decide_counts_def below_bounds_def split: if_splits)
qed

lemma stalled_step:
  assumes aware: "no_progress_aware c"
    and obs: "controller_observe sha newid b a act obs c = (Inr (RD_CONTINUE_LOCAL_REPAIR, p'), c')"
    and st: "stalled p'"
  shows "no_progress_aware c' \<and> below_bounds c' \<and> 0 < stall_level c' \<and>
    (below_bounds c \<longrightarrow> stall_level c < stall_level c') \<and>
    rc_max_no_progress c' = rc_max_no_progress c \<and> rc_max_repeated_action c' = rc_max_repeated_action c"
proof -
  let ?p = "observed_progress sha b a act obs c"
  let ?q = "annotate_candidate act obs ?p"
  have no_detect: "detect_then newid r p d \<noteq> (Inr (RD_CONTINUE_LOCAL_REPAIR, p'), c')"
    if "no_progress_aware d" for r p d
    using that by (auto simp: aware_detect_then escalate_def split: sum.splits prod.splits)
  show ?thesis
  proof (cases rule: controller_observe_cases[where sha = sha and newid = newid and b = b and a = a
        and act = act and obs = obs and c = c])
    case candidate
    with obs show ?thesis by simp
  next
    case mismatch
    with obs show ?thesis by (auto simp: escalate_def split: sum.splits prod.splits)
  next
    case (oscillating c2)
    then have "no_progress_aware c2" using aware by (auto simp: no_progress_aware_def frame_simps)
    from no_detect[OF this] oscillating(3) obs show ?thesis by metis
  next
    case (counted c2)
    have c2: "no_progress_aware (count_observation ?q c2)" "below_bounds c2 = below_bounds c" "stall_level c2 = stall_level c"
      "rc_max_no_progress (count_observation ?q c2) = rc_max_no_progress c"
      "rc_max_repeated_action (count_observation ?q c2) = rc_max_repeated_action c"
      using counted(3) aware
      by (auto simp: no_progress_aware_def below_bounds_def stall_level_def frame_simps count_observation_def Let_def)
    have c': "c' = count_observation ?q c2" "below_bounds c'"
      using decide_counts_continue[OF c2(1), of newid ?q p' c'] obs counted(4) by auto
    have "p' = ?q"
      using obs counted(4) c2(1) no_detect by (auto simp: decide_counts_def split: if_splits)
    then have q: "stalled ?q" "pg_status ?q \<noteq> PS_OSCILLATING"
      "pg_status ?q = PS_REPEATED \<Longrightarrow> dict_get (pg_evidence ?q) ''repeated_action'' = PBool True"
      using st counted(2) by (simp_all add: observe_repeated)
    have "0 < rc_max_no_progress c2"
      using c'(2) by (simp add: c'(1) below_bounds_def count_observation_def Let_def)
    with count_raises_level[OF q, of c2] c2 c' show ?thesis by simp
  qed
qed

lemma stalled_run:
  assumes "no_progress_aware c" and "below_bounds c"
    and "observe_run sha newid os c = (rs, c')"
    and "\<forall>(d, p)\<in>set rs. stalled p \<and> d = RD_CONTINUE_LOCAL_REPAIR"
  shows "length os + stall_level c < rc_max_repeated_action c * rc_max_no_progress c"
  using assms
proof (induction os arbitrary: c rs)
  case Nil
  then show ?case by (simp add: stall_level_bound)
next
  case (Cons o1 os)
  obtain b a act obs where o1: "o1 = (b, a, act, obs)" by (cases o1) auto
  obtain d p c1 where s: "controller_observe sha newid b a act obs c = (Inr (d, p), c1)"
    using controller_observe_backed[of sha newid b a act obs c]
    by (auto simp: backed_def split: prod.splits sum.splits)
  obtain rs1 where r: "observe_run sha newid os c1 = (rs1, c')" "rs = (d, p) # rs1"
    using Cons.prems(3) s o1 by (auto split: prod.splits)
  with Cons.prems(4) have "d = RD_CONTINUE_LOCAL_REPAIR" "stalled p" by auto
  with stalled_step[OF Cons.prems(1)] s Cons.prems(2)
  have st: "no_progress_aware c1" "below_bounds c1" "stall_level c < stall_level c1"
    "rc_max_no_progress c1 = rc_max_no_progress c" "rc_max_repeated_action c1 = rc_max_repeated_action c"
    by blast+
  from Cons.IH[OF st(1,2) r(1)] Cons.prems(4) r(2) st(3-5) show ?case by simp
qed

text \<open>Wherever the counters stand, the first stalled observation that is not answered brings them below
  their bounds.\<close>

lemma stalled_run_anywhere:
  assumes "no_progress_aware c" and "observe_run sha newid os c = (rs, c')"
    and "\<forall>(d, p)\<in>set rs. stalled p \<and> d = RD_CONTINUE_LOCAL_REPAIR" and "os \<noteq> []"
  shows "length os < rc_max_repeated_action c * rc_max_no_progress c"
proof -
  obtain b a act obs os1 where o1: "os = (b, a, act, obs) # os1" using assms(4) by (cases os) auto
  obtain d p c1 where s: "controller_observe sha newid b a act obs c = (Inr (d, p), c1)"
    using controller_observe_backed[of sha newid b a act obs c]
    by (auto simp: backed_def split: prod.splits sum.splits)
  obtain rs1 where r: "observe_run sha newid os1 c1 = (rs1, c')" "rs = (d, p) # rs1"
    using assms(2) s o1 by (auto split: prod.splits)
  with assms(3) have "d = RD_CONTINUE_LOCAL_REPAIR" "stalled p" by auto
  with stalled_step[OF assms(1)] s
  have st: "no_progress_aware c1" "below_bounds c1" "0 < stall_level c1"
    "rc_max_no_progress c1 = rc_max_no_progress c" "rc_max_repeated_action c1 = rc_max_repeated_action c"
    by blast+
  from stalled_run[OF st(1,2) r(1)] assms(3) r(2) st(3-5) show ?thesis by (simp add: o1)
qed

section \<open>The legacy policy\<close>

definition same_trail :: "controller \<Rightarrow> controller \<Rightarrow> bool" where
  "same_trail c c' \<longleftrightarrow>
     rc_signals c' = rc_signals c \<and> rc_rows c' = rc_rows c \<and> rc_events c' = rc_events c \<and>
     rc_sink_calls c' = rc_sink_calls c \<and> rc_policy c' = rc_policy c"

lemma same_trail_record [simp]: "same_trail c (record_detection r p c')  = same_trail c c'"
  by (simp add: same_trail_def record_detection_def)

lemma legacy_observe:
  assumes "\<not> no_progress_aware c"
  shows "\<exists>d p c'. controller_observe sha newid b a act obs c = (Inr (d, p), c') \<and>
    d \<noteq> RD_ESCALATE_MACRO_REPLAN \<and> same_trail c c'"
proof (cases rule: controller_observe_cases[where sha = sha and newid = newid and b = b and a = a
        and act = act and obs = obs and c = c])
  case candidate
  then show ?thesis by (simp add: same_trail_def)
next
  case mismatch
  with assms show ?thesis by simp
next
  case (oscillating c2)
  then have "\<not> no_progress_aware c2" "same_trail c c2"
    using assms by (auto simp: no_progress_aware_def frame_simps same_trail_def record_detection_def)
  with oscillating(3) show ?thesis by (simp add: legacy_detect_then)
next
  case (counted c2)
  let ?c3 = "count_observation (annotate_candidate act obs (observed_progress sha b a act obs c)) c2"
  have "\<not> no_progress_aware ?c3" "same_trail c ?c3"
    using assms counted(3)
    by (auto simp: no_progress_aware_def frame_simps same_trail_def record_detection_def count_observation_def Let_def)
  with counted(4) show ?thesis by (simp add: decide_counts_def legacy_detect_then)
qed

lemma legacy_step:
  assumes "\<not> no_progress_aware c" and "\<And>r p xs. x \<noteq> Emit r p xs"
    and "control_step sha newid x c = (d, c')"
  shows "\<not> no_progress_aware c' \<and> d \<noteq> Some RD_ESCALATE_MACRO_REPLAN \<and> same_trail c c'"
proof (cases x)
  case (Observe b a act obs)
  with legacy_observe[OF assms(1), of sha newid b a act obs] assms(1,3) show ?thesis
    by (auto simp: same_trail_def no_progress_aware_def)
next
  case Validator_rejected
  with assms(1,3) show ?thesis
    by (auto simp: validator_rejected_def Let_def detect_then_def no_progress_aware_def
        frame_simps same_trail_def record_detection_def split: if_splits)
next
  case (Begin_epoch s e)
  with assms(1,3) show ?thesis
    by (auto simp: begin_strategy_epoch_def no_progress_aware_def same_trail_def)
qed (use assms(2) in simp)

section \<open>A sample controller for the witnesses\<close>

definition sample_controller :: "string \<Rightarrow> controller" where
  "sample_controller pol =
     projr (new_controller ''t'' ''r'' ''a'' (Some ''s'') [(''file'', PStr ''present'')] True True 2 2 2 pol [])"

definition sample_progress :: effect_progress where
  "sample_progress =
     \<lparr>pg_status = PS_NO_PROGRESS, pg_state_digest = ''d'', pg_action_fingerprint = ''f'',
      pg_matched = [], pg_evidence = []\<rparr>"

lemma sample_controller_ok:
  "new_controller ''t'' ''r'' ''a'' (Some ''s'') [(''file'', PStr ''present'')] True True 2 2 2 ''NO_PROGRESS_AWARE'' [] =
     Inr (sample_controller ''NO_PROGRESS_AWARE'')"
  "new_controller ''t'' ''r'' ''a'' (Some ''s'') [(''file'', PStr ''present'')] True True 2 2 2 ''LEGACY_BOUNDED'' [] =
     Inr (sample_controller ''LEGACY_BOUNDED'')"
proof -
  have "parse_policy ''NO_PROGRESS_AWARE'' = Inr NO_PROGRESS_AWARE"
    "parse_policy ''LEGACY_BOUNDED'' = Inr LEGACY_BOUNDED" by code_simp+
  then show "new_controller ''t'' ''r'' ''a'' (Some ''s'') [(''file'', PStr ''present'')] True True 2 2 2 ''NO_PROGRESS_AWARE'' [] =
     Inr (sample_controller ''NO_PROGRESS_AWARE'')"
    "new_controller ''t'' ''r'' ''a'' (Some ''s'') [(''file'', PStr ''present'')] True True 2 2 2 ''LEGACY_BOUNDED'' [] =
     Inr (sample_controller ''LEGACY_BOUNDED'')"
    by (simp_all add: sample_controller_def new_controller_def)
qed

section \<open>Properties\<close>

text \<open>However observations, validator rejections, new strategy epochs and direct emissions
  interleave, the controller emits at most one signal per typed reason and strategy epoch (so
  at most five per epoch), the sink and the durable rows receive exactly the signals that were
  recorded, in order, and the window of seen states never exceeds 64 digests.\<close>

theorem signals_once_per_epoch:
  assumes "new_controller task run attempt step e db sink np ra rs pol log = Inr c0"
    and "control_run sha newid xs c0 = (ds, c)"
  shows "distinct (map (\<lambda>s. (sg_reason s, sg_epoch s)) (rc_signals c)) \<and>
    length (rc_signals c) \<le> 5 * rc_epoch c \<and>
    rc_sink_calls c = (if rc_sink c then map (\<lambda>s. (sg_reason s, sg_evidence s)) (rc_signals c) else []) \<and>
    map (\<lambda>r. (rs_reason r, rs_evidence r)) (rc_rows c) =
      (if rc_db c then map (\<lambda>s. (sg_reason s, sg_evidence s)) (rc_signals c) else []) \<and>
    length (ep_seen_states (rc_evaluator c)) \<le> 64"
proof -
  have ok: "control_ok c"
    using control_run_keeps[OF new_controller_ok[OF assms(1)], of sha newid xs] assms(2) by simp
  let ?K = "set typed_escalation_reasons \<times> {1..rc_epoch c}"
  have "set (map signal_key (rc_signals c)) \<subseteq> ?K"
    using ok by (auto simp: control_ok_def signals_ok_def list_all_iff)
  then have "card (set (map signal_key (rc_signals c))) \<le> card ?K"
    by (intro card_mono) auto
  also have "\<dots> = 5 * rc_epoch c"
    by (simp add: card_cartesian_product typed_escalation_reasons_def)
  finally have "length (rc_signals c) \<le> 5 * rc_epoch c"
    using ok distinct_card[of "map signal_key (rc_signals c)"] by (simp add: control_ok_def signals_ok_def)
  with ok show ?thesis by (simp add: control_ok_def signals_ok_def mirrors_ok_def)
qed

theorem signals_once_per_epoch_witness:
  "length (rc_signals (snd (control_run (\<lambda>s. s) (\<lambda>n. ''id'')
     [Emit ''REPAIR_NO_PROGRESS'' sample_progress [], Emit ''REPAIR_NO_PROGRESS'' sample_progress []]
     (sample_controller ''NO_PROGRESS_AWARE'')))) \<le> 5 * 1"
proof -
  let ?r = "control_run (\<lambda>s. s) (\<lambda>n. ''id'')
     [Emit ''REPAIR_NO_PROGRESS'' sample_progress [], Emit ''REPAIR_NO_PROGRESS'' sample_progress []]
     (sample_controller ''NO_PROGRESS_AWARE'')"
  have "rc_epoch (snd ?r) = 1" by code_simp
  with signals_once_per_epoch[OF sample_controller_ok(1), where ds = "fst ?r" and c = "snd ?r",
      OF prod.collapse[symmetric]]
  show ?thesis by simp
qed

text \<open>A new strategy epoch, like every other operation, keeps the causal history: signals,
  detections, durable rows and events of a session are a prefix of what any continuation has,
  and the policy and bounds stay as configured.\<close>

theorem recovery_history_kept:
  assumes "new_controller task run attempt step e db sink np ra rs pol log = Inr c0"
    and "control_run sha newid xs c0 = (ds, c)"
    and "control_run sha newid (ys @ [Begin_epoch st e'] @ zs) c = (ds', c')"
  shows "prefix (rc_signals c) (rc_signals c') \<and> prefix (rc_detections c) (rc_detections c') \<and>
    prefix (rc_rows c) (rc_rows c') \<and> prefix (rc_events c) (rc_events c') \<and>
    rc_policy c' = rc_policy c \<and> rc_max_no_progress c' = rc_max_no_progress c"
proof -
  have "control_ok c"
    using control_run_keeps[OF new_controller_ok[OF assms(1)], of sha newid xs] assms(2) by simp
  from control_run_keeps[OF this, of sha newid "ys @ [Begin_epoch st e'] @ zs"] assms(3)
  show ?thesis by (simp add: control_extends_def)
qed

theorem recovery_history_kept_witness:
  "prefix (rc_signals (snd (control_run (\<lambda>s. s) (\<lambda>n. ''id'')
             [Emit ''REPAIR_NO_PROGRESS'' sample_progress []] (sample_controller ''NO_PROGRESS_AWARE''))))
     (rc_signals (snd (control_run (\<lambda>s. s) (\<lambda>n. ''id'') ([] @ [Begin_epoch None []] @ [])
        (snd (control_run (\<lambda>s. s) (\<lambda>n. ''id'')
             [Emit ''REPAIR_NO_PROGRESS'' sample_progress []] (sample_controller ''NO_PROGRESS_AWARE''))))))"
  using recovery_history_kept[OF sample_controller_ok(1) prod.collapse[symmetric] prod.collapse[symmetric]]
  by blast

text \<open>A decision to escalate to a macro replan is always backed by a recorded signal with a
  typed reason of the current strategy epoch, and observing never raises: the only decisions
  are to continue, to validate a candidate or to escalate.\<close>

theorem escalation_backed_by_signal:
  "case controller_observe sha newid b a act obs c of
     (Inl _, _) \<Rightarrow> False
   | (Inr (d, _), c') \<Rightarrow>
       (if d = RD_ESCALATE_MACRO_REPLAN
        then list_ex (\<lambda>s. sg_reason s \<in> set typed_escalation_reasons \<and> sg_epoch s = rc_epoch c') (rc_signals c')
        else d = RD_CONTINUE_LOCAL_REPAIR \<or> d = RD_VALIDATE_CANDIDATE)"
  using controller_observe_backed[of sha newid b a act obs c]
  by (auto simp: backed_def list_ex_iff split: sum.splits prod.splits)

text \<open>An observation is put forward for validation exactly when the tool reported SUCCESS for
  the capability the active step contract names, with planner-owned arguments reported as
  matching and a confirmed mutation of the observed state; matched effects alone, repetition or
  the policy play no part.\<close>

theorem candidate_gate:
  "(\<exists>p c'. controller_observe sha newid b a act obs c = (Inr (RD_VALIDATE_CANDIDATE, p), c')) \<longleftrightarrow>
     (\<exists>contract. dict_get act ''active_step_contract'' = PDict contract \<and>
        py_str (dict_get_or act ''capability'' (PStr [])) = py_str (dict_get_or contract ''capability'' (PStr []))) \<and>
     dict_get act ''planner_owned_arguments_match'' = PBool True \<and>
     py_str (dict_get_or obs ''status'' (PStr [])) = ''SUCCESS'' \<and> confirmed_mutation obs"
proof -
  let ?p = "observed_progress sha b a act obs c"
  have cand: "is_authoritative_candidate act obs ?p \<longleftrightarrow>
     (\<exists>contract. dict_get act ''active_step_contract'' = PDict contract \<and>
        py_str (dict_get_or act ''capability'' (PStr [])) = py_str (dict_get_or contract ''capability'' (PStr []))) \<and>
     dict_get act ''planner_owned_arguments_match'' = PBool True \<and>
     py_str (dict_get_or obs ''status'' (PStr [])) = ''SUCCESS'' \<and> confirmed_mutation obs"
    unfolding is_authoritative_candidate_def
    by (cases "dict_get act ''active_step_contract''") (auto simp: observe_evidence)
  have no: "fst (escalate newid r q d) \<noteq> Inr (RD_VALIDATE_CANDIDATE, p)"
    "fst (detect_then newid r q d) \<noteq> Inr (RD_VALIDATE_CANDIDATE, p)"
    "fst (decide_counts newid q d) \<noteq> Inr (RD_VALIDATE_CANDIDATE, p)" for r q d p
    by (auto simp: decide_counts_def detect_then_def escalate_def Let_def split: sum.splits prod.splits)
  have "(\<exists>p c'. controller_observe sha newid b a act obs c = (Inr (RD_VALIDATE_CANDIDATE, p), c')) \<longleftrightarrow>
     is_authoritative_candidate act obs ?p"
  proof (cases rule: controller_observe_cases[where sha = sha and newid = newid and b = b and a = a
        and act = act and obs = obs and c = c])
    case candidate
    then show ?thesis by simp
  next
    case mismatch
    then show ?thesis using no(1) by (metis fst_conv)
  next
    case (oscillating c2)
    then show ?thesis using no(2) by (metis fst_conv)
  next
    case (counted c2)
    then show ?thesis using no(3) by (metis fst_conv)
  qed
  with cand show ?thesis by simp
qed

text \<open>The legacy policy only observes. From a controller configured LEGACY_BOUNDED no sequence
  of observations, validator rejections and new epochs ever escalates, emits a signal, calls
  the sink, or writes a durable row or an event.\<close>

theorem legacy_policy_never_escalates:
  assumes "new_controller task run attempt step e db sink np ra rs ''LEGACY_BOUNDED'' log = Inr c0"
    and "\<forall>x\<in>set xs. \<forall>r p ys. x \<noteq> Emit r p ys"
    and "control_run sha newid xs c0 = (ds, c)"
  shows "Some RD_ESCALATE_MACRO_REPLAN \<notin> set ds \<and> rc_signals c = [] \<and> rc_rows c = [] \<and>
    rc_sink_calls c = [] \<and> rc_events c = log"
proof -
  have "parse_policy ''LEGACY_BOUNDED'' = Inr LEGACY_BOUNDED" by code_simp
  with assms(1) have c0: "\<not> no_progress_aware c0" "rc_signals c0 = []" "rc_rows c0 = []"
      "rc_sink_calls c0 = []" "rc_events c0 = log"
    by (auto simp: new_controller_def begin_strategy_epoch_def no_progress_aware_def)
  have "Some RD_ESCALATE_MACRO_REPLAN \<notin> set ds \<and> same_trail c0 c"
    using assms(2,3) c0(1)
  proof (induction xs arbitrary: c0 ds)
    case Nil
    then show ?case by (simp add: same_trail_def)
  next
    case (Cons x xs)
    obtain d c1 where s: "control_step sha newid x c0 = (d, c1)" by fastforce
    obtain ds1 where r: "control_run sha newid xs c1 = (ds1, c)" "ds = d # ds1"
      using Cons.prems(2) s by (auto split: prod.splits)
    have st: "\<not> no_progress_aware c1 \<and> d \<noteq> Some RD_ESCALATE_MACRO_REPLAN \<and> same_trail c0 c1"
      using legacy_step[OF Cons.prems(3) _ s] Cons.prems(1) by simp
    with Cons.IH[OF _ r(1)] Cons.prems(1) r(2) show ?case by (auto simp: same_trail_def)
  qed
  with c0 show ?thesis by (simp add: same_trail_def)
qed

theorem legacy_policy_never_escalates_witness:
  "rc_signals (snd (control_run (\<lambda>s. s) (\<lambda>n. ''id'') (replicate 3 Validator_rejected)
     (sample_controller ''LEGACY_BOUNDED''))) = []"
  using legacy_policy_never_escalates[OF sample_controller_ok(2), of "replicate 3 Validator_rejected",
      OF _ prod.collapse[symmetric]]
  by simp

text \<open>C33: A stalled repair cannot go on for ever, wherever in a session it stalls. Take any controller
  with the no-progress-aware policy after any sequence of calls (observations of every kind,
  rejections of the validator, new strategy epochs, emitted signals): once
  max_repeated_action * max_no_progress further observations in a row show no progress
  (unchanged, repeated, oscillating, or changed without a confirmed mutation), at least one of
  them was escalated to a macro replan or put forward as a validation candidate, whatever
  states, actions and hashes were involved. The limits are those the controller was made with.\<close>

theorem stalled_repair_escalates:
  assumes "new_controller task run attempt step e db sink np ra rs ''NO_PROGRESS_AWARE'' log = Inr c0"
    and "control_run sha newid calls c0 = (ds, c1)"
    and "observe_run sha newid os c1 = (results, c)"
    and "\<forall>(d, p)\<in>set results. stalled p"
    and "length os \<ge> rc_max_repeated_action c0 * rc_max_no_progress c0"
  shows "\<exists>(d, p)\<in>set results. d = RD_ESCALATE_MACRO_REPLAN \<or> d = RD_VALIDATE_CANDIDATE"
proof (rule ccontr)
  assume no: "\<not> ?thesis"
  have "parse_policy ''NO_PROGRESS_AWARE'' = Inr NO_PROGRESS_AWARE" by code_simp
  with assms(1) have c0: "no_progress_aware c0" "0 < rc_max_repeated_action c0 * rc_max_no_progress c0"
    by (auto simp: new_controller_def begin_strategy_epoch_def no_progress_aware_def clamp16_def)
  have "control_extends c0 c1"
    using control_run_keeps[OF new_controller_ok[OF assms(1)], of sha newid calls] assms(2) by simp
  then have c1: "no_progress_aware c1" "rc_max_repeated_action c1 = rc_max_repeated_action c0"
    "rc_max_no_progress c1 = rc_max_no_progress c0"
    using c0(1) by (simp_all add: control_extends_def no_progress_aware_def)
  have "d \<in> {RD_ESCALATE_MACRO_REPLAN, RD_CONTINUE_LOCAL_REPAIR, RD_VALIDATE_CANDIDATE}"
    if "(d, p) \<in> set results" for d p
    using assms(3) that
  proof (induction os arbitrary: c1 results)
    case (Cons o1 os)
    obtain b a act obs where o1: "o1 = (b, a, act, obs)" by (cases o1) auto
    with Cons controller_observe_backed[of sha newid b a act obs c1] show ?case
      by (auto simp: backed_def split: sum.splits prod.splits)
  qed simp
  with no assms(4) have "\<forall>(d, p)\<in>set results. stalled p \<and> d = RD_CONTINUE_LOCAL_REPAIR"
    by blast
  from stalled_run_anywhere[OF c1(1) assms(3) this] assms(5) c0(2) c1 show False by fastforce
qed

theorem stalled_repair_escalates_witness:
  "\<exists>(d, p)\<in>set (fst (observe_run (\<lambda>s. ''d'') (\<lambda>n. ''id'') (replicate 4 (PNone, PDict [], [], []))
      (snd (control_run (\<lambda>s. ''d'') (\<lambda>n. ''id'') [Validator_rejected, Begin_epoch None []]
        (sample_controller ''NO_PROGRESS_AWARE''))))).
     d = RD_ESCALATE_MACRO_REPLAN \<or> d = RD_VALIDATE_CANDIDATE"
proof -
  let ?c = "snd (control_run (\<lambda>s. ''d'') (\<lambda>n. ''id'') [Validator_rejected, Begin_epoch None []]
        (sample_controller ''NO_PROGRESS_AWARE''))"
  let ?r = "observe_run (\<lambda>s. ''d'') (\<lambda>n. ''id'') (replicate 4 (PNone, PDict [], [], [])) ?c"
  have "list_all (\<lambda>(d, p). stalled p) (fst ?r)" by code_simp
  then have st: "\<forall>(d, p)\<in>set (fst ?r). stalled p" by (simp add: list_all_iff)
  have "rc_max_repeated_action (sample_controller ''NO_PROGRESS_AWARE'') *
      rc_max_no_progress (sample_controller ''NO_PROGRESS_AWARE'') = 4" by code_simp
  then show ?thesis
    by (intro stalled_repair_escalates[OF sample_controller_ok(1) prod.collapse[symmetric] prod.collapse[symmetric] st])
      simp
qed

end
