(* ===== verification/RepairTracker.thy ===== *)
theory RepairTracker imports Progress begin

text \<open>
  \<open>RepairProgressTracker\<close> of \<open>src/lhas/repair_progress.py\<close>: the counters that stop a repair
  which does not converge. It has its own copy of the effect matcher of \<open>recovery_control\<close>
  (theory Progress); the last section relates the two.
\<close>

section \<open>State\<close>

definition repair_stop_reasons :: "string list" where
  "repair_stop_reasons =
     [''VERIFIED'', ''NO_PROGRESS'', ''REPEATED_ACTION'', ''BUDGET_EXHAUSTED'', ''MODEL_FAILURE'',
      ''TOOL_FAILURE'', ''REPLAN_REQUIRED'', ''CANCELLED'']"

record repair_tracker =
  tr_expected :: pydict
  tr_initial :: "string option"
  tr_max_no_progress :: nat
  tr_max_repeated_state :: nat
  tr_max_repeated_action :: nat
  tr_turns :: nat
  tr_unique_states :: nat
  tr_repeated_state :: nat
  tr_no_progress :: nat
  tr_candidates :: nat
  tr_repeated_action :: nat
  tr_stop :: "string option"
  tr_states :: "string set"
  tr_actions :: "string set"

definition tracker_clamp :: "int \<Rightarrow> nat" where
  "tracker_clamp n = nat (max 1 (min n 16))"

definition new_tracker :: "pydict \<Rightarrow> string option \<Rightarrow> int \<Rightarrow> int \<Rightarrow> int \<Rightarrow> repair_tracker" where
  "new_tracker expected initial np rs ra =
     \<lparr>tr_expected = expected, tr_initial = (if initial = Some [] then None else initial),
      tr_max_no_progress = tracker_clamp np, tr_max_repeated_state = tracker_clamp rs,
      tr_max_repeated_action = tracker_clamp ra, tr_turns = 0, tr_unique_states = 0,
      tr_repeated_state = 0, tr_no_progress = 0, tr_candidates = 0, tr_repeated_action = 0,
      tr_stop = None, tr_states = {}, tr_actions = {}\<rparr>"

record repair_decision =
  rd_continue :: bool
  rd_candidate :: bool
  rd_stop_reason :: "string option"
  rd_metrics :: pydict

section \<open>Operations\<close>

function (sequential) rp_matches :: "pyval \<Rightarrow> pyval \<Rightarrow> bool" where
  "rp_matches (PDict d) observed =
     (case as_dict observed of
        None \<Rightarrow> False
      | Some obs \<Rightarrow>
          list_all (\<lambda>(k, v). case map_of obs k of None \<Rightarrow> False | Some w \<Rightarrow> rp_matches v w) d)"
| "rp_matches (PStr s) observed =
     (let n = casefold s in
      if n \<in> set positive_words then
        observed = PBool True \<or>
        casefold (py_str observed) \<in> {n, ''true'', ''pass'', ''passed'', ''present'', ''successful''}
      else if n \<in> set negative_words then
        observed = PBool False \<or> casefold (py_str observed) \<in> {n, ''false'', ''failed''}
      else py_eq (PStr s) observed)"
| "rp_matches v observed = py_eq v observed"
  by pat_completeness auto
termination
  by (relation "measure (\<lambda>(a, b). size a)") (auto simp: size_dict_value)

fun first_in_containers :: "pydict \<Rightarrow> string \<Rightarrow> string list \<Rightarrow> pyval" where
  "first_in_containers obs key [] = dict_get obs key"
| "first_in_containers obs key (n # ns) =
     (case as_dict (dict_get obs n) of
        Some c \<Rightarrow> (case map_of c key of Some v \<Rightarrow> v | None \<Rightarrow> first_in_containers obs key ns)
      | None \<Rightarrow> first_in_containers obs key ns)"

definition first_mapping_value :: "pydict \<Rightarrow> string \<Rightarrow> pyval" where
  "first_mapping_value obs key =
     first_in_containers obs key [''bounded_output'', ''safe_summary'', ''result_summary'']"

definition tracker_effect_matches :: "pydict \<Rightarrow> pydict \<Rightarrow> pyval \<Rightarrow> pyval \<Rightarrow> bool" where
  "tracker_effect_matches expected obs bounded summary \<longleftrightarrow>
     expected \<noteq> [] \<and>
     (list_ex (\<lambda>c. case as_dict c of
                 None \<Rightarrow> False
               | Some d \<Rightarrow> list_all (\<lambda>(k, v). case map_of d k of None \<Rightarrow> False | Some w \<Rightarrow> rp_matches v w)
                            expected)
        [bounded, summary, PDict obs] \<or>
      list_all (\<lambda>(k, v). rp_matches v (first_mapping_value obs k)) expected)"

definition digest_keys :: "string list" where
  "digest_keys = [''state_digest'', ''after_sha256'', ''checksum'', ''workspace_after_digest'']"

fun explicit_digest :: "pyval list \<Rightarrow> string option" where
  "explicit_digest [] = None"
| "explicit_digest (c # cs) =
     (case as_dict c of
        None \<Rightarrow> explicit_digest cs
      | Some d \<Rightarrow>
          (case List.find (\<lambda>k. py_truthy (dict_get d k)) digest_keys of
             Some k \<Rightarrow> Some (py_str (dict_get d k))
           | None \<Rightarrow> explicit_digest cs))"

definition tracker_state_digest ::
  "(string \<Rightarrow> string) \<Rightarrow> pydict \<Rightarrow> pyval \<Rightarrow> pyval \<Rightarrow> string option"
where
  "tracker_state_digest sha obs bounded summary =
     (case explicit_digest [bounded, summary, PDict obs] of
        Some d \<Rightarrow> Some d
      | None \<Rightarrow>
          if as_dict bounded \<noteq> None \<and> py_truthy bounded then Some (py_digest sha bounded)
          else if as_dict summary \<noteq> None \<and> py_truthy summary then Some (py_digest sha summary)
          else None)"

definition tracker_snapshot :: "repair_tracker \<Rightarrow> pydict" where
  "tracker_snapshot t =
     [(''repair_turns'', PInt (int (tr_turns t))),
      (''unique_repair_states'', PInt (int (tr_unique_states t))),
      (''repeated_state_count'', PInt (int (tr_repeated_state t))),
      (''no_progress_count'', PInt (int (tr_no_progress t))),
      (''validation_candidate_count'', PInt (int (tr_candidates t))),
      (''repeated_action_count'', PInt (int (tr_repeated_action t))),
      (''repair_stop_reason'', opt_str (tr_stop t)),
      (''thresholds'', PDict
        [(''max_no_progress'', PInt (int (tr_max_no_progress t))),
         (''max_repeated_state'', PInt (int (tr_max_repeated_state t))),
         (''max_repeated_action'', PInt (int (tr_max_repeated_action t)))])]"

definition tracker_decision :: "bool \<Rightarrow> repair_tracker \<Rightarrow> repair_decision \<times> repair_tracker" where
  "tracker_decision candidate t =
     (\<lparr>rd_continue = (tr_stop t = None), rd_candidate = candidate, rd_stop_reason = tr_stop t,
       rd_metrics = tracker_snapshot t\<rparr>, t)"

definition tracker_halt :: "string \<Rightarrow> repair_tracker \<Rightarrow> repair_decision \<times> repair_tracker" where
  "tracker_halt reason t = tracker_decision False (t\<lparr>tr_stop := Some reason\<rparr>)"

definition begin_turn :: "repair_tracker \<Rightarrow> repair_tracker" where
  "begin_turn t = (if tr_stop t = None then t\<lparr>tr_turns := tr_turns t + 1\<rparr> else t)"

definition candidate_for_validation :: "repair_tracker \<Rightarrow> repair_decision \<times> repair_tracker" where
  "candidate_for_validation t =
     tracker_decision True (if tr_stop t = None then t\<lparr>tr_candidates := tr_candidates t + 1\<rparr> else t)"

definition validation_rejected :: "repair_tracker \<Rightarrow> repair_decision \<times> repair_tracker" where
  "validation_rejected t =
     (if tr_stop t \<noteq> None then tracker_decision False t
      else let t = t\<lparr>tr_no_progress := tr_no_progress t + 1\<rparr> in
        if tr_no_progress t \<ge> tr_max_no_progress t then tracker_halt ''NO_PROGRESS'' t
        else tracker_decision False t)"

definition note_state :: "string option \<Rightarrow> repair_tracker \<Rightarrow> repair_tracker" where
  "note_state d t =
     (case d of
        None \<Rightarrow> t
      | Some s \<Rightarrow>
          if s = [] then t
          else if s \<in> tr_states t \<or> tr_initial t = Some s then
            t\<lparr>tr_repeated_state := tr_repeated_state t + 1\<rparr>
          else t\<lparr>tr_states := insert s (tr_states t), tr_unique_states := tr_unique_states t + 1\<rparr>)"

definition note_action :: "string \<Rightarrow> repair_tracker \<Rightarrow> repair_tracker" where
  "note_action f t =
     (if f \<in> tr_actions t then t\<lparr>tr_repeated_action := tr_repeated_action t + 1\<rparr>
      else t\<lparr>tr_actions := insert f (tr_actions t)\<rparr>)"

definition note_candidate :: "bool \<Rightarrow> repair_tracker \<Rightarrow> repair_tracker" where
  "note_candidate candidate t =
     (if candidate then t\<lparr>tr_candidates := tr_candidates t + 1, tr_no_progress := 0\<rparr>
      else t\<lparr>tr_no_progress := tr_no_progress t + 1\<rparr>)"

text \<open>The counting part of \<open>observe\<close>, and the thresholds applied to it.\<close>

definition tracker_candidate :: "repair_tracker \<Rightarrow> pydict \<Rightarrow> bool" where
  "tracker_candidate t obs =
     tracker_effect_matches (tr_expected t) obs
       (dict_get_or obs ''bounded_output'' (PDict [])) (dict_get_or obs ''safe_summary'' (PDict []))"

definition tracker_count :: "(string \<Rightarrow> string) \<Rightarrow> pydict \<Rightarrow> repair_tracker \<Rightarrow> repair_tracker" where
  "tracker_count sha obs t =
     (let bounded = dict_get_or obs ''bounded_output'' (PDict []);
          summary = dict_get_or obs ''safe_summary'' (PDict []);
          t1 = note_state (tracker_state_digest sha obs bounded summary) t;
          fingerprint = py_digest sha (PDict
            [(''capability'', PStr (py_str (dict_get_or obs ''capability'' (PStr [])))),
             (''args_sha256'', PStr (py_str (dict_get_or obs ''args_sha256'' (PStr []))))])
      in note_candidate (tracker_candidate t obs) (note_action fingerprint t1))"

definition tracker_observe ::
  "(string \<Rightarrow> string) \<Rightarrow> pydict \<Rightarrow> repair_tracker \<Rightarrow> repair_decision \<times> repair_tracker"
where
  "tracker_observe sha obs t0 =
     (if tr_stop t0 \<noteq> None then tracker_decision False t0
      else
        let summary = dict_get_or obs ''safe_summary'' (PDict []); t = tracker_count sha obs t0 in
        if upper (py_str (dict_get_or obs ''status'' (PStr []))) = ''FAILURE'' then
          tracker_halt ''TOOL_FAILURE'' t
        else if (case as_dict summary of None \<Rightarrow> False
                 | Some d \<Rightarrow> py_truthy (dict_get d ''strategy_change_required'')) then
          tracker_halt ''REPLAN_REQUIRED'' t
        else if tr_repeated_action t \<ge> tr_max_repeated_action t then tracker_halt ''REPEATED_ACTION'' t
        else if tr_repeated_state t \<ge> tr_max_repeated_state t then tracker_halt ''NO_PROGRESS'' t
        else if tr_no_progress t \<ge> tr_max_no_progress t then tracker_halt ''NO_PROGRESS'' t
        else tracker_decision (tracker_candidate t0 obs) t)"

definition tracker_stop :: "string \<Rightarrow> repair_tracker \<Rightarrow> (string + unit) \<times> repair_tracker" where
  "tracker_stop reason t =
     (let n = upper reason in
      if n \<notin> set repair_stop_reasons then (Inl reason, t) else (Inr (), t\<lparr>tr_stop := Some n\<rparr>))"

text \<open>A repair session: turns, observations and authoritative rejections.\<close>

datatype tracker_call = Turn | Observation pydict | Rejected | Candidate

fun tracker_step :: "(string \<Rightarrow> string) \<Rightarrow> tracker_call \<Rightarrow> repair_tracker \<Rightarrow> repair_tracker" where
  "tracker_step sha Turn t = begin_turn t"
| "tracker_step sha (Observation obs) t = snd (tracker_observe sha obs t)"
| "tracker_step sha Rejected t = snd (validation_rejected t)"
| "tracker_step sha Candidate t = snd (candidate_for_validation t)"

text \<open>The calls that bring no accepted effect: rejections and observations that match nothing.\<close>

fun fruitless :: "repair_tracker \<Rightarrow> tracker_call \<Rightarrow> bool" where
  "fruitless t (Observation obs) = (\<not> tracker_candidate t obs)"
| "fruitless t Rejected = True"
| "fruitless t _ = False"

fun neutral :: "tracker_call \<Rightarrow> bool" where
  "neutral Turn = True"
| "neutral Candidate = True"
| "neutral _ = False"

section \<open>Lemmas\<close>

lemma note_frames [simp]:
  "tr_expected (note_state d t) = tr_expected t" "tr_stop (note_state d t) = tr_stop t"
  "tr_no_progress (note_state d t) = tr_no_progress t"
  "tr_max_no_progress (note_state d t) = tr_max_no_progress t"
  "tr_expected (note_action f t) = tr_expected t" "tr_stop (note_action f t) = tr_stop t"
  "tr_no_progress (note_action f t) = tr_no_progress t"
  "tr_max_no_progress (note_action f t) = tr_max_no_progress t"
  "tr_expected (note_candidate b t) = tr_expected t" "tr_stop (note_candidate b t) = tr_stop t"
  "tr_max_no_progress (note_candidate b t) = tr_max_no_progress t"
  by (simp_all add: note_state_def note_action_def note_candidate_def split: option.splits)

lemma count_frames [simp]:
  "tr_expected (tracker_count sha obs t) = tr_expected t"
  "tr_stop (tracker_count sha obs t) = tr_stop t"
  "tr_max_no_progress (tracker_count sha obs t) = tr_max_no_progress t"
  "\<not> tracker_candidate t obs \<Longrightarrow> tr_no_progress (tracker_count sha obs t) = tr_no_progress t + 1"
  by (simp_all add: tracker_count_def Let_def) (simp add: note_candidate_def)

lemma halt_frames [simp]:
  "snd (tracker_decision b t) = t"
  "snd (tracker_halt r t) = t\<lparr>tr_stop := Some r\<rparr>"
  by (simp_all add: tracker_decision_def tracker_halt_def)

lemma step_frames [frame_simps]:
  "tr_expected (tracker_step sha x t) = tr_expected t"
  "tr_max_no_progress (tracker_step sha x t) = tr_max_no_progress t"
  by (cases x; simp add: begin_turn_def tracker_observe_def validation_rejected_def
      candidate_for_validation_def Let_def)+

lemma stopped_step: "tr_stop t = Some r \<Longrightarrow> tracker_step sha x t = t"
  by (cases x) (simp_all add: begin_turn_def tracker_observe_def validation_rejected_def
      candidate_for_validation_def)

lemma stopped_fold: "tr_stop t = Some r \<Longrightarrow> fold (tracker_step sha) xs t = t"
  by (induction xs) (simp_all add: stopped_step)

text \<open>A fruitless call either stops the tracker or moves it closer to its bound.\<close>

lemma fruitless_step:
  assumes "fruitless t x" and "tr_stop (tracker_step sha x t) = None"
  shows "tr_no_progress (tracker_step sha x t) = tr_no_progress t + 1 \<and>
    tr_no_progress (tracker_step sha x t) < tr_max_no_progress t"
proof (cases x)
  case (Observation obs)
  with assms show ?thesis by (auto simp: tracker_observe_def Let_def split: if_splits)
next
  case Rejected
  with assms show ?thesis by (auto simp: validation_rejected_def Let_def split: if_splits)
qed (use assms in simp_all)

lemma neutral_step: "neutral x \<Longrightarrow> tr_no_progress (tracker_step sha x t) = tr_no_progress t"
  by (cases x) (simp_all add: begin_turn_def candidate_for_validation_def)

lemma fruitless_cong: "tr_expected t = tr_expected t' \<Longrightarrow> fruitless t x = fruitless t' x"
  by (cases x) (simp_all add: tracker_candidate_def)

lemma tracker_candidate_cong: "tr_expected t = tr_expected t' \<Longrightarrow> tracker_candidate t = tracker_candidate t'"
  by (simp add: tracker_candidate_def fun_eq_iff)

lemma fruitless_run:
  assumes "\<forall>x\<in>set xs. fruitless t x \<or> neutral x" and "tr_stop (fold (tracker_step sha) xs t) = None"
    and "tr_no_progress t < tr_max_no_progress t"
  shows "tr_no_progress t + length (filter (fruitless t) xs) < tr_max_no_progress t"
  using assms
proof (induction xs arbitrary: t)
  case Nil
  then show ?case by simp
next
  case (Cons x xs)
  let ?t = "tracker_step sha x t"
  have fr: "fruitless ?t y = fruitless t y" for y
    by (rule fruitless_cong) (simp add: frame_simps)
  have run: "tr_stop ?t = None"
    using Cons.prems(2) stopped_fold by (cases "tr_stop ?t") auto
  have ih: "tr_no_progress ?t < tr_max_no_progress t \<Longrightarrow>
      tr_no_progress ?t + length (filter (fruitless t) xs) < tr_max_no_progress t"
    using Cons.IH[of ?t] Cons.prems by (simp add: fr frame_simps)
  show ?case
  proof (cases "fruitless t x")
    case True
    from fruitless_step[OF this run] ih True show ?thesis by simp
  next
    case False
    then have "neutral x" using Cons.prems(1) by simp
    with neutral_step[OF this, of sha t] ih Cons.prems(3) False show ?thesis by simp
  qed
qed

lemma py_eq_str [simp]: "py_eq (PStr s) w = (w = PStr s)"
  by (cases w) auto

section \<open>Properties\<close>

text \<open>A repair that brings nothing stops. After the configured number of observations that
  match no expected effect and of authoritative rejections (at most 16, whatever was
  configured), with turns and candidate announcements interleaved in any way, the tracker has
  a stop reason.\<close>

theorem fruitless_repair_stops:
  assumes "\<forall>x\<in>set xs. fruitless (new_tracker expected initial np rs ra) x \<or> neutral x"
    and "length (filter (fruitless (new_tracker expected initial np rs ra)) xs) \<ge>
      nat (max 1 (min np 16))"
  shows "tr_stop (fold (tracker_step sha) xs (new_tracker expected initial np rs ra)) \<noteq> None"
proof
  let ?t = "new_tracker expected initial np rs ra"
  have m: "tr_max_no_progress ?t = nat (max 1 (min np 16))" "tr_no_progress ?t = 0"
    by (simp_all only: new_tracker_def tracker_clamp_def repair_tracker.simps)
  assume "tr_stop (fold (tracker_step sha) xs ?t) = None"
  from fruitless_run[OF assms(1) this] have "length (filter (fruitless ?t) xs) < nat (max 1 (min np 16))"
    unfolding m by simp
  with assms(2) show False by (meson leD)
qed

theorem fruitless_repair_stops_witness:
  "tr_stop (fold (tracker_step (\<lambda>s. ''d'')) [Turn, Observation [], Turn, Rejected]
     (new_tracker [(''file'', PStr ''present'')] None 2 9 9)) \<noteq> None"
proof -
  let ?t = "new_tracker [(''file'', PStr ''present'')] None 2 9 9"
  have "fruitless ?t (Observation [])" by code_simp
  then show ?thesis
    by (intro fruitless_repair_stops) simp_all
qed

text \<open>A stopped repair stays stopped with its reason: no later turn, observation, candidate or
  rejection changes the tracker, and every further observation answers not to continue.\<close>

theorem stop_is_final:
  assumes "tracker_stop reason t = (Inr (), t')"
  shows "fold (tracker_step sha) xs t' = t' \<and> tr_stop t' = Some (upper reason) \<and>
    \<not> rd_continue (fst (tracker_observe sha obs (fold (tracker_step sha) xs t')))"
proof -
  have "tr_stop t' = Some (upper reason)"
    using assms by (auto simp: tracker_stop_def Let_def split: if_splits)
  then show ?thesis
    by (simp add: stopped_fold tracker_observe_def tracker_decision_def)
qed

theorem stop_is_final_witness:
  "tr_stop (fold (tracker_step (\<lambda>s. s)) [Turn, Rejected]
     (snd (tracker_stop ''cancelled'' (new_tracker [] None 3 2 2)))) = Some (upper ''cancelled'')"
proof -
  have "fst (tracker_stop ''cancelled'' (new_tracker [] None 3 2 2)) = Inr ()" by code_simp
  then have "tracker_stop ''cancelled'' (new_tracker [] None 3 2 2) =
      (Inr (), snd (tracker_stop ''cancelled'' (new_tracker [] None 3 2 2)))"
    by (metis prod.collapse)
  from stop_is_final[OF this, of "\<lambda>s. s" "[Turn, Rejected]"] show ?thesis by simp
qed

text \<open>The tracker's effect matcher is stricter than the recovery controller's copy of it: what
  it accepts the controller accepts, but an expected negative effect spelled "false" or
  "failed" that was observed as "not present" is a match for the controller only.\<close>

theorem repair_matcher_stricter:
  "{(e, w). rp_matches e w} \<subseteq> {(e, w). rc_matches e w} \<and>
   rc_matches (PStr ''false'') (PStr ''not present'') \<and> \<not> rp_matches (PStr ''false'') (PStr ''not present'') \<and>
   rc_matches (PStr ''failed'') (PStr ''Not Present'') \<and> \<not> rp_matches (PStr ''failed'') (PStr ''Not Present'')"
proof -
  have "rc_matches e w" if "rp_matches e w" for e w
    using that
  proof (induction e w rule: rp_matches.induct)
    case (1 d observed)
    show ?case
    proof (cases "as_dict observed")
      case None
      with 1(2) show ?thesis by simp
    next
      case (Some obs)
      have "case map_of obs k of None \<Rightarrow> False | Some w \<Rightarrow> rc_matches v w" if kv: "(k, v) \<in> set d" for k v
      proof -
        from 1(2) Some kv obtain w where w: "map_of obs k = Some w" "rp_matches v w"
          by (fastforce simp: list_all_iff split: option.splits)
        with 1(1)[OF Some kv _ w(1)] show ?thesis by simp
      qed
      with Some show ?thesis by (auto simp: list_all_iff)
    qed
  next
    case (2 s observed)
    then show ?case by (auto simp: Let_def negative_words_def split: if_splits)
  qed simp_all
  moreover have "rc_matches (PStr ''false'') (PStr ''not present'')" by code_simp
  moreover have "\<not> rp_matches (PStr ''false'') (PStr ''not present'')" by code_simp
  moreover have "rc_matches (PStr ''failed'') (PStr ''Not Present'')" by code_simp
  moreover have "\<not> rp_matches (PStr ''failed'') (PStr ''Not Present'')" by code_simp
  ultimately show ?thesis by blast
qed

end
