(* ===== verification/SideEffects.thy ===== *)
theory SideEffects imports Enums Stores begin

text \<open>
  \<open>src/lhas/side_effects.py\<close>: side-effect receipts, their repository, the manager that moves
  a receipt through its life, and the deterministic external fake used by its callers' tests.

  \<^item> Time stamps are natural numbers handed to each operation (\<open>utcnow\<close>); the fresh receipt id
    of \<open>begin\<close> is an argument.
  \<^item> A row is the receipt itself (\<open>_row_values\<close> and \<open>_from_row\<close> only rename enum values);
    reading one validates the field lengths again and bounds the metadata again, as building
    the pydantic model does, so reading a receipt with an overlong field fails.
  \<^item> External resource ids are strings.
\<close>

section \<open>Data\<close>

datatype effect_class =
    EC_NONE | LOCAL_REVERSIBLE | LOCAL_DURABLE | EXTERNAL_IDEMPOTENT | EXTERNAL_RECEIPT
  | EXTERNAL_UNVERIFIABLE

datatype receipt_status =
    REQUEST_CREATED | DISPATCH_STARTED | COMMITTED | OBSERVED | RECONCILED | RS_FAILED
  | COMMIT_STATE_UNKNOWN

datatype reconciliation_strategy =
    ST_NONE | WORKSPACE_DIGEST | IDEMPOTENCY_LOOKUP | RECEIPT_LOOKUP | HUMAN_REQUIRED

datatype replay_decision =
    REUSE_COMMITTED | SAFE_TO_RETRY | RECONCILE_FIRST | REQUIRE_HUMAN | NO_AUTOMATIC_RETRY

fun effect_class_value :: "effect_class \<Rightarrow> string" where
  "effect_class_value EC_NONE = ''NONE''"
| "effect_class_value LOCAL_REVERSIBLE = ''LOCAL_REVERSIBLE''"
| "effect_class_value LOCAL_DURABLE = ''LOCAL_DURABLE''"
| "effect_class_value EXTERNAL_IDEMPOTENT = ''EXTERNAL_IDEMPOTENT''"
| "effect_class_value EXTERNAL_RECEIPT = ''EXTERNAL_RECEIPT''"
| "effect_class_value EXTERNAL_UNVERIFIABLE = ''EXTERNAL_UNVERIFIABLE''"

fun receipt_status_value :: "receipt_status \<Rightarrow> string" where
  "receipt_status_value REQUEST_CREATED = ''REQUEST_CREATED''"
| "receipt_status_value DISPATCH_STARTED = ''DISPATCH_STARTED''"
| "receipt_status_value COMMITTED = ''COMMITTED''"
| "receipt_status_value OBSERVED = ''OBSERVED''"
| "receipt_status_value RECONCILED = ''RECONCILED''"
| "receipt_status_value RS_FAILED = ''FAILED''"
| "receipt_status_value COMMIT_STATE_UNKNOWN = ''COMMIT_STATE_UNKNOWN''"

record receipt =
  re_id :: string
  re_operation :: string
  re_key :: "string option"
  re_task :: "string option"
  re_run :: string
  re_attempt :: string
  re_step :: string
  re_tool_call :: string
  re_tool :: string
  re_class :: effect_class
  re_target :: string
  re_request :: string
  re_dispatch_at :: "nat option"
  re_commit_at :: "nat option"
  re_observation_at :: "nat option"
  re_status :: receipt_status
  re_result :: "string option"
  re_external :: "string option"
  re_strategy :: reconciliation_strategy
  re_replay_safe :: bool
  re_before :: "string option"
  re_after :: "string option"
  re_error :: "string option"
  re_metadata :: pydict
  re_created :: nat
  re_updated :: nat

definition len_between :: "nat \<Rightarrow> nat \<Rightarrow> string \<Rightarrow> bool" where
  "len_between lo hi s \<longleftrightarrow> lo \<le> length s \<and> length s \<le> hi"

definition opt_len :: "nat \<Rightarrow> nat \<Rightarrow> string option \<Rightarrow> bool" where
  "opt_len lo hi x = (case x of None \<Rightarrow> True | Some s \<Rightarrow> len_between lo hi s)"

text \<open>The length constraints of the model's fields.\<close>

definition receipt_valid :: "receipt \<Rightarrow> bool" where
  "receipt_valid r \<longleftrightarrow>
     len_between 1 128 (re_id r) \<and> len_between 1 128 (re_operation r) \<and>
     opt_len 0 256 (re_key r) \<and> opt_len 0 128 (re_task r) \<and> len_between 1 128 (re_run r) \<and>
     len_between 1 128 (re_attempt r) \<and> len_between 1 128 (re_step r) \<and>
     len_between 1 128 (re_tool_call r) \<and> len_between 1 128 (re_tool r) \<and>
     len_between 64 64 (re_target r) \<and> len_between 64 64 (re_request r) \<and>
     opt_len 64 64 (re_result r) \<and> opt_len 0 256 (re_external r) \<and> opt_len 64 64 (re_before r) \<and>
     opt_len 64 64 (re_after r) \<and> opt_len 0 128 (re_error r)"

section \<open>Metadata redaction\<close>

definition secret_words :: "string list" where
  "secret_words =
     [''api_key'', ''api-key'', ''apikey'', ''authorization'', ''token'', ''secret'', ''password'',
      ''credential'']"

definition secret_key :: "string \<Rightarrow> bool" where
  "secret_key k = list_ex (\<lambda>w. contains w (casefold k)) secret_words"

function safe_value :: "nat \<Rightarrow> pyval \<Rightarrow> pyval" where
  "safe_value limit PNone = PNone"
| "safe_value limit (PBool b) = PBool b"
| "safe_value limit (PInt i) = PInt i"
| "safe_value limit (PStr s) = PStr (take limit s)"
| "safe_value limit (PList xs) = PList (map (safe_value (max 64 (limit div 8))) (take 32 xs))"
| "safe_value limit (PDict d) = PDict (dict_of (map (\<lambda>(k, v). (take 128 k,
      if secret_key k then PStr ''[REDACTED]'' else safe_value (max 64 (limit div 8)) v)) (take 32 d)))"
  by pat_completeness auto
termination
proof (relation "measure (\<lambda>(n, v). size v)", goal_cases)
  case 1
  show ?case by simp
next
  case (2 limit xs x)
  then show ?case using size_list_elem[OF in_set_takeD[OF 2]] by simp
next
  case (3 limit d kv k v)
  from 3(1) have "(k, v) \<in> set d" using in_set_takeD 3(2) by metis
  from size_dict_value[OF this] show ?case by simp
qed

definition safe_metadata :: "pydict \<Rightarrow> pydict" where
  "safe_metadata d = dict_of (map (\<lambda>(k, v). (take 128 k,
     if secret_key k then PStr ''[REDACTED]'' else safe_value 1024 v)) (take 64 d))"

section \<open>Repository\<close>

record receipt_db =
  rt_rows :: "receipt list"
  rt_events :: event_log

datatype receipt_error =
    Receipt_not_found string | Receipt_duplicate string | Receipt_invalid
  | Observation_precedes_commit

interpretation receipts: row_store "row_get re_id" row_create "row_update re_id" re_id
  by unfold_locales (erule row_get_key row_get_create row_get_update row_update_missing)+

definition receipt_create :: "receipt \<Rightarrow> receipt_db \<Rightarrow> (receipt_error + receipt_db)" where
  "receipt_create r db =
     (if row_get re_id (re_id r) (rt_rows db) \<noteq> None then Inl (Receipt_duplicate (re_id r))
      else Inr (db\<lparr>rt_rows := row_create r (rt_rows db)\<rparr>))"

definition receipt_update :: "nat \<Rightarrow> receipt \<Rightarrow> receipt_db \<Rightarrow> receipt_error + (receipt \<times> receipt_db)" where
  "receipt_update now r db =
     (let r = r\<lparr>re_updated := now\<rparr> in
      case row_update re_id r (rt_rows db) of
        None \<Rightarrow> Inl (Receipt_not_found (re_id r))
      | Some rows \<Rightarrow> Inr (r, db\<lparr>rt_rows := rows\<rparr>))"

text \<open>\<open>get\<close> builds the model again; \<open>_get\<close> turns a missing row into a KeyError.\<close>

definition from_row :: "receipt \<Rightarrow> receipt_error + receipt" where
  "from_row r =
     (if receipt_valid r then Inr (r\<lparr>re_metadata := safe_metadata (re_metadata r)\<rparr>) else Inl Receipt_invalid)"

definition get_receipt :: "string \<Rightarrow> receipt_db \<Rightarrow> receipt_error + receipt" where
  "get_receipt rid db =
     (case row_get re_id rid (rt_rows db) of
        None \<Rightarrow> Inl (Receipt_not_found rid) | Some r \<Rightarrow> from_row r)"

text \<open>Rows are appended in creation order; the last of an operation is its newest.\<close>

definition get_by_operation :: "string \<Rightarrow> receipt_db \<Rightarrow> receipt option" where
  "get_by_operation operation db = List.find (\<lambda>r. re_operation r = operation) (rev (rt_rows db))"

definition list_for_attempt :: "string \<Rightarrow> receipt_db \<Rightarrow> receipt list" where
  "list_for_attempt attempt db = [r \<leftarrow> rt_rows db. re_attempt r = attempt]"

section \<open>Manager\<close>

definition strategy_of :: "effect_class \<Rightarrow> reconciliation_strategy" where
  "strategy_of c =
     (if c \<in> {LOCAL_REVERSIBLE, LOCAL_DURABLE} then WORKSPACE_DIGEST
      else if c = EXTERNAL_IDEMPOTENT then IDEMPOTENCY_LOOKUP
      else if c = EXTERNAL_RECEIPT then RECEIPT_LOOKUP
      else if c = EXTERNAL_UNVERIFIABLE then HUMAN_REQUIRED
      else ST_NONE)"

definition has_text :: "string option \<Rightarrow> bool" where
  "has_text x \<longleftrightarrow> x \<noteq> None \<and> x \<noteq> Some []"

definition initial_replay_safe :: "effect_class \<Rightarrow> string option \<Rightarrow> bool" where
  "initial_replay_safe c key \<longleftrightarrow> c = EC_NONE \<or> (c = EXTERNAL_IDEMPOTENT \<and> has_text key)"

definition receipt_event :: "side_effect_event \<Rightarrow> pydict \<Rightarrow> receipt \<Rightarrow> receipt_db \<Rightarrow> receipt_db" where
  "receipt_event ty extra r db =
     db\<lparr>rt_events := store_append (Ev_Side_Effect ty) (re_task r) (Some (re_run r)) (Some (re_attempt r))
        (dict_merge
          [(''receipt_id'', PStr (re_id r)), (''operation_id'', PStr (re_operation r)),
           (''task_id'', opt_str (re_task r)), (''step_id'', PStr (re_step r)),
           (''tool_call_id'', PStr (re_tool_call r)), (''tool_name'', PStr (re_tool r)),
           (''effect_class'', PStr (effect_class_value (re_class r))),
           (''status'', PStr (receipt_status_value (re_status r))),
           (''target_fingerprint'', PStr (re_target r)), (''request_hash'', PStr (re_request r))]
          extra) (rt_events db)\<rparr>"

text \<open>Write the receipt back, then append its event.\<close>

definition save_with_event ::
  "nat \<Rightarrow> side_effect_event \<Rightarrow> pydict \<Rightarrow> receipt \<Rightarrow> receipt_db \<Rightarrow> (receipt_error + receipt) \<times> receipt_db"
where
  "save_with_event now ty extra r db =
     (case receipt_update now r db of
        Inl e \<Rightarrow> (Inl e, db)
      | Inr (r', db') \<Rightarrow> (Inr r', receipt_event ty extra r' db'))"

record receipt_request =
  rq_operation :: string
  rq_task :: "string option"
  rq_run :: string
  rq_attempt :: string
  rq_step :: string
  rq_tool_call :: string
  rq_tool :: string
  rq_class :: effect_class
  rq_target :: pyval
  rq_request :: pyval
  rq_key :: "string option"
  rq_before :: "string option"
  rq_metadata :: pydict

definition begin_receipt ::
  "(string \<Rightarrow> string) \<Rightarrow> string \<Rightarrow> nat \<Rightarrow> receipt_request \<Rightarrow> receipt_db \<Rightarrow>
   (receipt_error + receipt) \<times> receipt_db"
where
  "begin_receipt sha rid now q db =
     (let r = \<lparr>re_id = rid, re_operation = rq_operation q, re_key = rq_key q, re_task = rq_task q,
               re_run = rq_run q, re_attempt = rq_attempt q, re_step = rq_step q,
               re_tool_call = rq_tool_call q, re_tool = rq_tool q, re_class = rq_class q,
               re_target = stable_hash sha (rq_target q), re_request = stable_hash sha (rq_request q),
               re_dispatch_at = None, re_commit_at = None, re_observation_at = None,
               re_status = REQUEST_CREATED, re_result = None, re_external = None,
               re_strategy = strategy_of (rq_class q),
               re_replay_safe = initial_replay_safe (rq_class q) (rq_key q),
               re_before = rq_before q, re_after = None, re_error = None,
               re_metadata = safe_metadata (safe_metadata (rq_metadata q)),
               re_created = now, re_updated = now\<rparr>
      in if \<not> receipt_valid r then (Inl Receipt_invalid, db)
         else case receipt_create r db of
                Inl e \<Rightarrow> (Inl e, db)
              | Inr db' \<Rightarrow> (Inr r, receipt_event SIDE_EFFECT_REQUEST_CREATED [] r db'))"

definition mark_dispatch_started ::
  "nat \<Rightarrow> string \<Rightarrow> receipt_db \<Rightarrow> (receipt_error + receipt) \<times> receipt_db" where
  "mark_dispatch_started now rid db =
     (case get_receipt rid db of
        Inl e \<Rightarrow> (Inl e, db)
      | Inr r \<Rightarrow>
          if re_status r = REQUEST_CREATED then
            save_with_event now SIDE_EFFECT_DISPATCH_STARTED []
              (r\<lparr>re_status := DISPATCH_STARTED, re_dispatch_at := Some now\<rparr>) db
          else (Inr r, db))"

record commit_facts =
  cf_result :: pyval
  cf_before :: "string option"
  cf_after :: "string option"
  cf_external :: "string option"

definition no_facts :: commit_facts where
  "no_facts = \<lparr>cf_result = PNone, cf_before = None, cf_after = None, cf_external = None\<rparr>"

definition result_fingerprint ::
  "(string \<Rightarrow> string) \<Rightarrow> pyval \<Rightarrow> string option \<Rightarrow> string option" where
  "result_fingerprint sha result old = (if result \<noteq> PNone then Some (stable_hash sha result) else old)"

definition committed_receipt ::
  "(string \<Rightarrow> string) \<Rightarrow> nat \<Rightarrow> commit_facts \<Rightarrow> receipt \<Rightarrow> receipt" where
  "committed_receipt sha now f r =
     r\<lparr>re_status := COMMITTED,
       re_commit_at := (if re_commit_at r = None then Some now else re_commit_at r),
       re_before := or_str (cf_before f) (re_before r), re_after := or_str (cf_after f) (re_after r),
       re_external := or_str (cf_external f) (re_external r),
       re_result := result_fingerprint sha (cf_result f) (re_result r), re_replay_safe := True\<rparr>"

definition mark_committed ::
  "(string \<Rightarrow> string) \<Rightarrow> nat \<Rightarrow> string \<Rightarrow> commit_facts \<Rightarrow> receipt_db \<Rightarrow>
   (receipt_error + receipt) \<times> receipt_db"
where
  "mark_committed sha now rid f db =
     (case get_receipt rid db of
        Inl e \<Rightarrow> (Inl e, db)
      | Inr r \<Rightarrow>
          if re_status r \<in> {COMMITTED, OBSERVED} then (Inr r, db)
          else save_with_event now SIDE_EFFECT_COMMITTED [] (committed_receipt sha now f r) db)"

definition mark_observed ::
  "(string \<Rightarrow> string) \<Rightarrow> nat \<Rightarrow> string \<Rightarrow> pyval \<Rightarrow> receipt_db \<Rightarrow> (receipt_error + receipt) \<times> receipt_db"
where
  "mark_observed sha now rid result db =
     (case get_receipt rid db of
        Inl e \<Rightarrow> (Inl e, db)
      | Inr r \<Rightarrow>
          if re_status r = OBSERVED then (Inr r, db)
          else if re_status r \<noteq> COMMITTED then (Inl Observation_precedes_commit, db)
          else save_with_event now SIDE_EFFECT_OBSERVATION_RECEIVED []
            (r\<lparr>re_status := OBSERVED, re_observation_at := Some now,
               re_result := result_fingerprint sha result (re_result r)\<rparr>) db)"

definition mark_failed ::
  "nat \<Rightarrow> string \<Rightarrow> string \<Rightarrow> receipt_db \<Rightarrow> (receipt_error + receipt) \<times> receipt_db" where
  "mark_failed now rid err db =
     (case get_receipt rid db of
        Inl e \<Rightarrow> (Inl e, db)
      | Inr r \<Rightarrow>
          if re_status r \<in> {COMMITTED, OBSERVED} then (Inr r, db)
          else save_with_event now SIDE_EFFECT_FAILED [(''error_class'', PStr (take 128 err))]
            (r\<lparr>re_status := RS_FAILED, re_error := Some (take 128 err)\<rparr>) db)"

definition mark_unknown ::
  "nat \<Rightarrow> string \<Rightarrow> string \<Rightarrow> receipt_db \<Rightarrow> (receipt_error + receipt) \<times> receipt_db" where
  "mark_unknown now rid err db =
     (case get_receipt rid db of
        Inl e \<Rightarrow> (Inl e, db)
      | Inr r \<Rightarrow>
          if re_status r \<in> {COMMITTED, OBSERVED} then (Inr r, db)
          else save_with_event now SIDE_EFFECT_COMMIT_UNKNOWN [(''error_class'', PStr (take 128 err))]
            (r\<lparr>re_status := COMMIT_STATE_UNKNOWN, re_error := Some (take 128 err),
               re_replay_safe := False, re_strategy := HUMAN_REQUIRED\<rparr>) db)"

text \<open>What an external lookup found, as the facts of a commit.\<close>

definition found_facts :: "pyval \<Rightarrow> commit_facts" where
  "found_facts found =
     no_facts\<lparr>cf_result := found,
       cf_external := (case as_dict found of
          None \<Rightarrow> None
        | Some d \<Rightarrow> as_str (py_or (dict_get d ''resource_id'') (dict_get d ''operation_id'')))\<rparr>"

definition reconciled_absent :: "nat \<Rightarrow> receipt \<Rightarrow> receipt_db \<Rightarrow> (receipt_error + receipt) \<times> receipt_db" where
  "reconciled_absent now r db =
     save_with_event now SIDE_EFFECT_RECONCILED [(''effect_present'', PBool False)]
       (r\<lparr>re_status := RECONCILED, re_replay_safe := True\<rparr>) db"

definition reconcile ::
  "(string \<Rightarrow> string) \<Rightarrow> nat \<Rightarrow> string \<Rightarrow> string option \<Rightarrow> bool option \<Rightarrow> (receipt \<Rightarrow> pyval) option \<Rightarrow>
   receipt_db \<Rightarrow> (receipt_error + receipt) \<times> receipt_db"
where
  "reconcile sha now rid digest present lookup db =
     (case get_receipt rid db of
        Inl e \<Rightarrow> (Inl e, db)
      | Inr r \<Rightarrow>
          if re_status r \<in> {COMMITTED, OBSERVED, RECONCILED} then (Inr r, db)
          else if re_class r \<in> {LOCAL_REVERSIBLE, LOCAL_DURABLE} then
            (if digest \<noteq> None \<and> re_before r \<noteq> None then
               (if digest \<noteq> re_before r
                then mark_committed sha now rid (no_facts\<lparr>cf_after := digest\<rparr>) db
                else reconciled_absent now r db)
             else if present = Some True then mark_committed sha now rid no_facts db
             else if present = Some False then reconciled_absent now r db
             else mark_unknown now rid ''COMMIT_STATE_UNKNOWN'' db)
          else if re_class r \<in> {EXTERNAL_IDEMPOTENT, EXTERNAL_RECEIPT} then
            (case lookup of
               None \<Rightarrow> mark_unknown now rid ''COMMIT_STATE_UNKNOWN'' db
             | Some look \<Rightarrow>
                 if py_truthy (look r) then mark_committed sha now rid (found_facts (look r)) db
                 else mark_unknown now rid ''COMMIT_STATE_UNKNOWN'' db)
          else mark_unknown now rid ''COMMIT_STATE_UNKNOWN'' db)"

definition decide_replay :: "receipt \<Rightarrow> replay_decision" where
  "decide_replay r =
     (if re_status r \<in> {COMMITTED, OBSERVED} then REUSE_COMMITTED
      else if re_status r = RECONCILED \<and> re_replay_safe r then SAFE_TO_RETRY
      else if re_status r = COMMIT_STATE_UNKNOWN then REQUIRE_HUMAN
      else if re_class r = EXTERNAL_IDEMPOTENT \<and> has_text (re_key r) then SAFE_TO_RETRY
      else if re_class r = EXTERNAL_UNVERIFIABLE then REQUIRE_HUMAN
      else RECONCILE_FIRST)"

definition replay_decision :: "string \<Rightarrow> receipt_db \<Rightarrow> receipt_error + replay_decision" where
  "replay_decision rid db =
     (case get_receipt rid db of Inl e \<Rightarrow> Inl e | Inr r \<Rightarrow> Inr (decide_replay r))"

text \<open>A history of manager calls.\<close>

datatype receipt_call =
    Begin string receipt_request
  | Dispatch string
  | Commit string commit_facts
  | Observe_result string pyval
  | Fail string string
  | Unknown string string
  | Reconcile string "string option" "bool option" "(receipt \<Rightarrow> pyval) option"

fun receipt_step :: "(string \<Rightarrow> string) \<Rightarrow> nat \<times> receipt_call \<Rightarrow> receipt_db \<Rightarrow> receipt_db" where
  "receipt_step sha (now, Begin rid q) db = snd (begin_receipt sha rid now q db)"
| "receipt_step sha (now, Dispatch rid) db = snd (mark_dispatch_started now rid db)"
| "receipt_step sha (now, Commit rid f) db = snd (mark_committed sha now rid f db)"
| "receipt_step sha (now, Observe_result rid v) db = snd (mark_observed sha now rid v db)"
| "receipt_step sha (now, Fail rid e) db = snd (mark_failed now rid e db)"
| "receipt_step sha (now, Unknown rid e) db = snd (mark_unknown now rid e db)"
| "receipt_step sha (now, Reconcile rid d p l) db = snd (reconcile sha now rid d p l db)"

section \<open>The external fake\<close>

record external_fake =
  fk_requests :: nat
  fk_effects :: nat
  fk_store :: "(string \<times> pydict) list"

definition new_fake :: external_fake where
  "new_fake = \<lparr>fk_requests = 0, fk_effects = 0, fk_store = []\<rparr>"

definition fake_apply ::
  "(string \<Rightarrow> string) \<Rightarrow> string \<Rightarrow> string \<Rightarrow> pyval \<Rightarrow> external_fake \<Rightarrow> pydict \<times> external_fake" where
  "fake_apply sha key target payload fk0 =
     (let fk = fk0\<lparr>fk_requests := fk_requests fk0 + 1\<rparr> in
      case map_of (fk_store fk) key of
        Some e \<Rightarrow> (e, fk)
      | None \<Rightarrow>
          (let e = [(''operation_id'', PStr (take 32 (stable_hash sha
                       (PList [PStr ''operation'', PStr key, PStr target])))),
                    (''resource_id'', PStr (take 24 (stable_hash sha (PList [PStr key, PStr target])))),
                    (''target'', PStr target),
                    (''payload_fingerprint'', PStr (stable_hash sha payload))]
           in (e, fk\<lparr>fk_effects := fk_effects fk + 1, fk_store := AList.update key e (fk_store fk)\<rparr>)))"

definition fake_lookup :: "string \<Rightarrow> external_fake \<Rightarrow> pydict option" where
  "fake_lookup key fk = (case map_of (fk_store fk) key of
     Some e \<Rightarrow> (if e = [] then None else Some e) | None \<Rightarrow> None)"

section \<open>The life of a receipt\<close>

text \<open>
  The abstract receipt: status, declared effect class, whether it has an idempotency key,
  the replay flag and the reconciliation strategy.
\<close>

type_synonym receipt_view =
  "receipt_status \<times> effect_class \<times> bool \<times> bool \<times> reconciliation_strategy"

definition view :: "receipt \<Rightarrow> receipt_view" where
  "view r = (re_status r, re_class r, has_text (re_key r), re_replay_safe r, re_strategy r)"

definition initial_view :: "effect_class \<Rightarrow> bool \<Rightarrow> receipt_view" where
  "initial_view c k =
     (REQUEST_CREATED, c, k, c = EC_NONE \<or> (c = EXTERNAL_IDEMPOTENT \<and> k), strategy_of c)"

inductive lifecycle :: "receipt_view \<Rightarrow> receipt_view \<Rightarrow> bool" where
  dispatch: "lifecycle (REQUEST_CREATED, c, k, s, g) (DISPATCH_STARTED, c, k, s, g)"
| commit: "st \<noteq> COMMITTED \<Longrightarrow> st \<noteq> OBSERVED \<Longrightarrow> lifecycle (st, c, k, s, g) (COMMITTED, c, k, True, g)"
| observe: "lifecycle (COMMITTED, c, k, s, g) (OBSERVED, c, k, s, g)"
| fail: "st \<noteq> COMMITTED \<Longrightarrow> st \<noteq> OBSERVED \<Longrightarrow> lifecycle (st, c, k, s, g) (RS_FAILED, c, k, s, g)"
| unknown: "st \<noteq> COMMITTED \<Longrightarrow> st \<noteq> OBSERVED \<Longrightarrow>
    lifecycle (st, c, k, s, g) (COMMIT_STATE_UNKNOWN, c, k, False, HUMAN_REQUIRED)"
| absent: "st \<noteq> COMMITTED \<Longrightarrow> st \<noteq> OBSERVED \<Longrightarrow> st \<noteq> RECONCILED \<Longrightarrow>
    c = LOCAL_REVERSIBLE \<or> c = LOCAL_DURABLE \<Longrightarrow>
    lifecycle (st, c, k, s, g) (RECONCILED, c, k, True, g)"

inductive_cases lifecycle_committed: "lifecycle (COMMITTED, c, k, s, g) w"
inductive_cases lifecycle_observed: "lifecycle (OBSERVED, c, k, s, g) w"

definition view_ok :: "receipt_view \<Rightarrow> bool" where
  "view_ok w =
     (case w of (st, c, k, s, g) \<Rightarrow>
        (st = COMMIT_STATE_UNKNOWN \<longrightarrow> \<not> s \<and> g = HUMAN_REQUIRED) \<and>
        (st = RECONCILED \<longrightarrow> s \<and> (c = LOCAL_REVERSIBLE \<or> c = LOCAL_DURABLE)) \<and>
        (st = COMMITTED \<or> st = OBSERVED \<longrightarrow> s) \<and>
        (c = EXTERNAL_UNVERIFIABLE \<and> s \<longrightarrow> st = COMMITTED \<or> st = OBSERVED) \<and>
        (g = strategy_of c \<or> g = HUMAN_REQUIRED))"

lemma view_ok_initial: "view_ok (initial_view c k)"
  by (auto simp: view_ok_def initial_view_def)

lemma view_ok_lifecycle [inv_intros]: "lifecycle w w' \<Longrightarrow> view_ok w \<Longrightarrow> view_ok w'"
  by (induction rule: lifecycle.induct) (auto simp: view_ok_def)

text \<open>What one manager call may do to the table.\<close>

definition refines_step :: "receipt_db \<Rightarrow> receipt_db \<Rightarrow> bool" where
  "refines_step db db' \<longleftrightarrow>
     (\<forall>rid. case row_get re_id rid (rt_rows db) of
        None \<Rightarrow> (case row_get re_id rid (rt_rows db') of
                   None \<Rightarrow> True | Some r \<Rightarrow> view r = initial_view (re_class r) (has_text (re_key r)))
      | Some r \<Rightarrow> (case row_get re_id rid (rt_rows db') of
                   None \<Rightarrow> False | Some r' \<Rightarrow> view r' = view r \<or> lifecycle (view r) (view r'))) \<and>
     (db' = db \<or> (\<exists>ty r p. rt_events db' = store_append (Ev_Side_Effect ty) (re_task r) (Some (re_run r))
        (Some (re_attempt r)) p (rt_events db) \<and> r \<in> set (rt_rows db') \<and>
        map_of p ''status'' = Some (PStr (receipt_status_value (re_status r)))))"

lemma refines_refl [simp]: "refines_step db db"
  by (auto simp: refines_step_def split: option.splits)

lemma get_receipt_Inr:
  assumes "get_receipt rid db = Inr r"
  obtains r0 where "row_get re_id rid (rt_rows db) = Some r0" "view r = view r0" "re_id r = rid"
    "re_key r = re_key r0"
proof -
  from assms obtain r0 where r0: "row_get re_id rid (rt_rows db) = Some r0" "from_row r0 = Inr r"
    by (auto simp: get_receipt_def split: option.splits)
  have "re_id r0 = rid" using row_get_key[OF r0(1)] .
  with r0(2) have "view r = view r0 \<and> re_id r = rid \<and> re_key r = re_key r0"
    by (auto simp: from_row_def view_def split: if_splits)
  with r0(1) that show ?thesis by blast
qed

lemma map_of_dict_merge:
  "map_of (dict_merge a b) x = (case map_of (rev b) x of Some v \<Rightarrow> Some v | None \<Rightarrow> map_of a x)"
proof (induction b arbitrary: a)
  case (Cons kv b)
  obtain k v where kv: "kv = (k, v)" by (cases kv) auto
  have "dict_merge a (kv # b) = dict_merge (AList.update k v a) b"
    by (simp add: dict_merge_def kv)
  with Cons show ?case by (auto simp: kv map_add_def split: option.splits)
qed (simp add: dict_merge_def)

text \<open>Saving a changed receipt of an existing row is one step of its life, with one event.\<close>

lemma save_refines:
  assumes get: "get_receipt rid db = Inr r" and id: "re_id r' = rid"
    and life: "lifecycle (view r) (view r')"
    and extra: "map_of (rev extra) ''status'' = None"
  shows "\<exists>r''. fst (save_with_event now ty extra r' db) = Inr r'' \<and> view r'' = view r' \<and>
    re_id r'' = rid \<and> refines_step db (snd (save_with_event now ty extra r' db))"
proof -
  obtain r0 where r0: "row_get re_id rid (rt_rows db) = Some r0" "view r = view r0"
    using get_receipt_Inr[OF get] by metis
  let ?r = "r'\<lparr>re_updated := now\<rparr>"
  have id': "re_id ?r = rid" using id by simp
  obtain rows where rows: "row_update re_id ?r (rt_rows db) = Some rows"
    "\<forall>k. row_get re_id k rows = (if k = re_id ?r then Some ?r else row_get re_id k (rt_rows db))"
    using row_get_update[of re_id ?r "rt_rows db" r0] r0(1) id' by metis
  have mem: "?r \<in> set rows" using rows(2) row_get_mem id' by metis
  have vw: "view ?r = view r'" by (simp add: view_def)
  have eq: "save_with_event now ty extra r' db =
      (Inr ?r, receipt_event ty extra ?r (db\<lparr>rt_rows := rows\<rparr>))"
    using rows(1) by (simp add: save_with_event_def receipt_update_def Let_def)
  have "refines_step db (receipt_event ty extra ?r (db\<lparr>rt_rows := rows\<rparr>))"
    unfolding refines_step_def
  proof (intro conjI disjI2 allI)
    fix k
    show "case row_get re_id k (rt_rows db) of
        None \<Rightarrow> (case row_get re_id k (rt_rows (receipt_event ty extra ?r (db\<lparr>rt_rows := rows\<rparr>))) of
                   None \<Rightarrow> True | Some r \<Rightarrow> view r = initial_view (re_class r) (has_text (re_key r)))
      | Some r \<Rightarrow> (case row_get re_id k (rt_rows (receipt_event ty extra ?r (db\<lparr>rt_rows := rows\<rparr>))) of
                   None \<Rightarrow> False | Some r' \<Rightarrow> view r' = view r \<or> lifecycle (view r) (view r'))"
      using rows(2) r0 life id vw by (auto simp: receipt_event_def split: option.splits)
  next
    show "\<exists>ty' r p. rt_events (receipt_event ty extra ?r (db\<lparr>rt_rows := rows\<rparr>)) =
        store_append (Ev_Side_Effect ty') (re_task r) (Some (re_run r)) (Some (re_attempt r)) p (rt_events db) \<and>
        r \<in> set (rt_rows (receipt_event ty extra ?r (db\<lparr>rt_rows := rows\<rparr>))) \<and>
        map_of p ''status'' = Some (PStr (receipt_status_value (re_status r)))"
      by (rule exI[of _ ty], rule exI[of _ ?r], rule exI) (use mem extra in \<open>auto simp: receipt_event_def map_of_dict_merge\<close>)
  qed
  with eq vw id show ?thesis by simp
qed

lemma saved_refines [intro]:
  assumes "get_receipt rid db = Inr r" and "re_id r' = re_id r" and "lifecycle (view r) (view r')"
    and "map_of (rev extra) ''status'' = None"
  shows "refines_step db (snd (save_with_event now ty extra r' db))"
proof -
  have "re_id r' = rid" using assms(1,2) get_receipt_Inr by metis
  from save_refines[OF assms(1) this assms(3,4)] show ?thesis by blast
qed

lemma mark_refines:
  "refines_step db (snd (mark_dispatch_started now rid db))"
  "refines_step db (snd (mark_committed sha now rid f db))"
  "refines_step db (snd (mark_observed sha now rid v db))"
  "refines_step db (snd (mark_failed now rid e db))"
  "refines_step db (snd (mark_unknown now rid e db))"
  by (auto simp: mark_dispatch_started_def mark_committed_def mark_observed_def mark_failed_def
      mark_unknown_def committed_receipt_def view_def intro!: saved_refines lifecycle.intros
      split: sum.splits)

lemma absent_refines:
  assumes "get_receipt rid db = Inr r" and "re_status r \<notin> {COMMITTED, OBSERVED, RECONCILED}"
    and "re_class r \<in> {LOCAL_REVERSIBLE, LOCAL_DURABLE}"
  shows "refines_step db (snd (reconciled_absent now r db))"
  unfolding reconciled_absent_def
  by (rule saved_refines[OF assms(1)]) (use assms(2,3) in \<open>auto simp: view_def intro!: lifecycle.intros\<close>)

lemma reconcile_refines: "refines_step db (snd (reconcile sha now rid d p l db))"
proof (cases "get_receipt rid db")
  case (Inr r)
  with mark_refines(2,5) absent_refines[OF Inr] show ?thesis
    by (simp add: reconcile_def split: option.splits)
qed (simp add: reconcile_def)

lemma begin_refines: "refines_step db (snd (begin_receipt sha rid now q db))"
proof (cases "fst (begin_receipt sha rid now q db)")
  case (Inl e)
  then show ?thesis
    by (auto simp: begin_receipt_def Let_def split: if_splits sum.splits)
next
  case (Inr r)
  let ?db = "receipt_event SIDE_EFFECT_REQUEST_CREATED [] r (db\<lparr>rt_rows := row_create r (rt_rows db)\<rparr>)"
  have r: "snd (begin_receipt sha rid now q db) = ?db"
      "row_get re_id (re_id r) (rt_rows db) = None" "view r = initial_view (re_class r) (has_text (re_key r))"
    using Inr
    by (auto simp: begin_receipt_def receipt_create_def Let_def view_def initial_view_def
        initial_replay_safe_def split: if_splits sum.splits)
  have rows: "row_get re_id k (row_create r (rt_rows db)) =
      (if k = re_id r then Some r else row_get re_id k (rt_rows db))" for k
    by (rule row_get_create[OF r(2)])
  have mem: "r \<in> set (row_create r (rt_rows db))" by (simp add: row_create_def)
  show ?thesis
    unfolding r(1) refines_step_def
  proof (intro conjI disjI2 allI)
    fix k
    show "case row_get re_id k (rt_rows db) of
        None \<Rightarrow> (case row_get re_id k (rt_rows ?db) of
                   None \<Rightarrow> True | Some r \<Rightarrow> view r = initial_view (re_class r) (has_text (re_key r)))
      | Some r \<Rightarrow> (case row_get re_id k (rt_rows ?db) of
                   None \<Rightarrow> False | Some r' \<Rightarrow> view r' = view r \<or> lifecycle (view r) (view r'))"
      using r(2,3) by (auto simp: receipt_event_def rows split: option.splits)
  next
    show "\<exists>ty r p. rt_events ?db =
        store_append (Ev_Side_Effect ty) (re_task r) (Some (re_run r)) (Some (re_attempt r)) p (rt_events db) \<and>
        r \<in> set (rt_rows ?db) \<and> map_of p ''status'' = Some (PStr (receipt_status_value (re_status r)))"
      by (rule exI[of _ SIDE_EFFECT_REQUEST_CREATED], rule exI[of _ r], rule exI)
        (use mem in \<open>auto simp: receipt_event_def map_of_dict_merge\<close>)
  qed
qed

lemma receipt_step_refines: "refines_step db (receipt_step sha x db)"
  by (cases x; cases "snd x") (simp_all add: begin_refines mark_refines reconcile_refines)

definition receipts_ok :: "receipt_db \<Rightarrow> bool" where
  "receipts_ok db \<longleftrightarrow> (\<forall>rid r. row_get re_id rid (rt_rows db) = Some r \<longrightarrow> view_ok (view r))"

lemma receipts_ok_step:
  assumes "receipts_ok db" and "refines_step db db'"
  shows "receipts_ok db'"
  unfolding receipts_ok_def
proof (intro allI impI)
  fix rid r
  assume r: "row_get re_id rid (rt_rows db') = Some r"
  show "view_ok (view r)"
  proof (cases "row_get re_id rid (rt_rows db)")
    case None
    with assms(2) r have "view r = initial_view (re_class r) (has_text (re_key r))"
      by (auto simp: refines_step_def dest!: spec[of _ rid])
    then show ?thesis by (simp add: view_ok_initial)
  next
    case (Some r0)
    with assms(2) r have "view r = view r0 \<or> lifecycle (view r0) (view r)"
      by (auto simp: refines_step_def dest!: spec[of _ rid])
    moreover have "view_ok (view r0)" using assms(1) Some by (auto simp: receipts_ok_def)
    ultimately show ?thesis by (auto intro: view_ok_lifecycle)
  qed
qed

lemma receipts_ok_run: "receipts_ok db \<Longrightarrow> receipts_ok (fold (receipt_step sha) xs db)"
  by (induction xs arbitrary: db) (auto intro: receipts_ok_step receipt_step_refines)

lemma refines_events:
  assumes "refines_step db db'" and "log_ok (rt_events db)"
  shows "log_ok (rt_events db') \<and> prefix (rt_events db) (rt_events db')"
  using assms by (auto simp: refines_step_def log_ok_append prefix_store_append)

lemma events_run:
  "log_ok (rt_events db) \<Longrightarrow>
   log_ok (rt_events (fold (receipt_step sha) xs db)) \<and>
   prefix (rt_events db) (rt_events (fold (receipt_step sha) xs db))"
proof (induction xs arbitrary: db)
  case (Cons x xs)
  from refines_events[OF receipt_step_refines Cons.prems, of sha x] Cons.IH show ?case
    by (metis fold_simps(2) prefix_order.order_trans)
qed simp

definition settled :: "receipt_db \<Rightarrow> string \<Rightarrow> receipt_status \<Rightarrow> bool" where
  "settled db rid st \<longleftrightarrow>
     (case row_get re_id rid (rt_rows db) of None \<Rightarrow> False | Some r \<Rightarrow> re_status r = st)"

lemma settled_step:
  assumes "refines_step db db'"
  shows "settled db rid OBSERVED \<Longrightarrow> settled db' rid OBSERVED"
    and "settled db rid COMMITTED \<Longrightarrow> settled db' rid COMMITTED \<or> settled db' rid OBSERVED"
  using assms
  by (auto simp: settled_def refines_step_def view_def dest!: spec[of _ rid]
      elim: lifecycle_committed lifecycle_observed split: option.splits)

lemma settled_run:
  "settled db rid COMMITTED \<or> settled db rid OBSERVED \<Longrightarrow>
   settled (fold (receipt_step sha) xs db) rid COMMITTED \<or> settled (fold (receipt_step sha) xs db) rid OBSERVED"
proof (induction xs arbitrary: db)
  case (Cons x xs)
  then show ?case using settled_step[OF receipt_step_refines] by (metis fold_simps(2))
qed simp

lemma lifecycle_reachable_step:
  assumes "\<And>rid r. row_get re_id rid (rt_rows db) = Some r \<Longrightarrow>
      lifecycle\<^sup>*\<^sup>* (initial_view (re_class r) (has_text (re_key r))) (view r)"
    and "refines_step db db'" and "row_get re_id rid (rt_rows db') = Some r"
  shows "lifecycle\<^sup>*\<^sup>* (initial_view (re_class r) (has_text (re_key r))) (view r)"
proof (cases "row_get re_id rid (rt_rows db)")
  case None
  with assms(2,3) have "view r = initial_view (re_class r) (has_text (re_key r))"
    by (auto simp: refines_step_def dest!: spec[of _ rid])
  then show ?thesis by simp
next
  case (Some r0)
  with assms(2,3) have st: "view r = view r0 \<or> lifecycle (view r0) (view r)"
    by (auto simp: refines_step_def dest!: spec[of _ rid])
  moreover have "re_class r = re_class r0 \<and> has_text (re_key r) = has_text (re_key r0)"
    using st by (auto simp: view_def elim: lifecycle.cases)
  ultimately show ?thesis using assms(1)[OF Some] by (auto intro: rtranclp.rtrancl_into_rtrancl)
qed

lemma lifecycle_reachable_run:
  "(\<And>rid r. row_get re_id rid (rt_rows db) = Some r \<Longrightarrow>
      lifecycle\<^sup>*\<^sup>* (initial_view (re_class r) (has_text (re_key r))) (view r)) \<Longrightarrow>
   row_get re_id rid (rt_rows (fold (receipt_step sha) xs db)) = Some r \<Longrightarrow>
   lifecycle\<^sup>*\<^sup>* (initial_view (re_class r) (has_text (re_key r))) (view r)"
proof (induction xs arbitrary: db)
  case Nil
  then show ?case by simp
next
  case (Cons x xs)
  show ?case
    by (rule Cons.IH[of "receipt_step sha x db"])
      (use Cons.prems lifecycle_reachable_step[OF Cons.prems(1) receipt_step_refines] in auto)
qed

text \<open>Redaction.\<close>

fun redacted :: "pyval \<Rightarrow> bool" where
  "redacted (PList xs) = list_all redacted xs"
| "redacted (PDict d) =
     list_all (\<lambda>(k, v). if secret_key k then v = PStr ''[REDACTED]'' else redacted v) d"
| "redacted _ = True"

lemma dict_merge_entries:
  "kv \<in> set (dict_merge a b) \<Longrightarrow> kv \<in> set a \<or> kv \<in> set b"
proof (induction b arbitrary: a)
  case (Cons x b)
  obtain k v where x: "x = (k, v)" by (cases x) auto
  have "kv \<in> set (AList.update k v a) \<Longrightarrow> kv \<in> set a \<or> kv = (k, v)"
    by (induction a) (auto split: if_splits)
  with Cons.IH[of "AList.update k v a"] Cons.prems show ?case
    by (auto simp: dict_merge_def x)
qed (simp add: dict_merge_def)

lemma dict_of_entries: "kv \<in> set (dict_of b) \<Longrightarrow> kv \<in> set b"
  using dict_merge_entries[of kv "[]" b] by (simp add: dict_of_def)

lemma secret_key_take: "secret_key (take n k) \<Longrightarrow> secret_key k"
proof -
  have "sublist (casefold (take n k)) (casefold k)"
    by (simp add: casefold_def take_map[symmetric] sublist_take)
  then show "secret_key (take n k) \<Longrightarrow> secret_key k"
    unfolding secret_key_def list_ex_iff contains_iff_sublist by (meson sublist_order.order_trans)
qed

lemma redacted_sanitised:
  assumes "\<And>k v. (k, v) \<in> set d \<Longrightarrow> \<not> secret_key k \<Longrightarrow> redacted (f v)"
  shows "redacted (PDict (dict_of (map (\<lambda>(k, v). (take 128 k,
     if secret_key k then PStr ''[REDACTED]'' else f v)) d)))"
proof -
  have "if secret_key k then v = PStr ''[REDACTED]'' else redacted v"
    if "(k, v) \<in> set (dict_of (map (\<lambda>(k, v). (take 128 k,
     if secret_key k then PStr ''[REDACTED]'' else f v)) d))" for k v
  proof -
    from dict_of_entries[OF that] obtain k0 v0 where kv: "(k0, v0) \<in> set d" "k = take 128 k0"
      "v = (if secret_key k0 then PStr ''[REDACTED]'' else f v0)" by auto
    show ?thesis using kv assms[OF kv(1)] secret_key_take[of 128 k0] by (cases "secret_key k0") auto
  qed
  then show ?thesis by (auto simp: list_all_iff)
qed

lemma safe_value_redacted: "redacted (safe_value n v)"
proof (induction n v rule: safe_value.induct)
  case (5 limit xs)
  then show ?case by (simp add: list_all_iff)
next
  case (6 limit d)
  show ?case
    unfolding safe_value.simps by (rule redacted_sanitised) (rule 6[OF _ refl])
qed simp_all

lemma fake_invariant:
  assumes "fk_effects fk = card (fst ` set (fk_store fk))" and "distinct (map fst (fk_store fk))"
  shows "fk_effects (snd (fake_apply sha k t p fk)) = card (fst ` set (fk_store (snd (fake_apply sha k t p fk)))) \<and>
    distinct (map fst (fk_store (snd (fake_apply sha k t p fk)))) \<and>
    fst ` set (fk_store (snd (fake_apply sha k t p fk))) = insert k (fst ` set (fk_store fk)) \<and>
    map_of (fk_store (snd (fake_apply sha k t p fk))) k = Some (fst (fake_apply sha k t p fk))"
proof (cases "map_of (fk_store fk) k")
  case None
  then have "k \<notin> fst ` set (fk_store fk)" by (simp add: map_of_eq_None_iff)
  with None assms show ?thesis
    by (simp add: fake_apply_def Let_def dom_update distinct_update card_insert_disjoint)
next
  case (Some e)
  then have "k \<in> fst ` set (fk_store fk)" by (force dest: map_of_SomeD)
  with Some assms show ?thesis by (auto simp: fake_apply_def Let_def)
qed

definition fake_session :: "(string \<Rightarrow> string) \<Rightarrow> (string \<times> string \<times> pyval) list \<Rightarrow> external_fake" where
  "fake_session sha calls = fold (\<lambda>(k, t, p) fk. snd (fake_apply sha k t p fk)) calls new_fake"

lemma fake_session_invariant:
  "fk_effects (fake_session sha calls) = card (fst ` set (fk_store (fake_session sha calls))) \<and>
   distinct (map fst (fk_store (fake_session sha calls))) \<and>
   fst ` set (fk_store (fake_session sha calls)) = fst ` set calls \<and>
   fk_requests (fake_session sha calls) = length calls"
proof (induction calls rule: rev_induct)
  case Nil
  then show ?case by (simp add: fake_session_def new_fake_def)
next
  case (snoc c calls)
  obtain k t p where c: "c = (k, t, p)" by (cases c) auto
  have s: "fake_session sha (calls @ [c]) = snd (fake_apply sha k t p (fake_session sha calls))"
    by (simp add: fake_session_def c)
  have "fk_requests (snd (fake_apply sha k t p fk)) = fk_requests fk + 1" for fk
    by (simp add: fake_apply_def Let_def split: option.splits)
  with fake_invariant[of "fake_session sha calls" sha k t p] snoc.IH s c show ?case by simp
qed

section \<open>Properties\<close>

definition empty_receipt_db :: receipt_db where
  "empty_receipt_db = \<lparr>rt_rows = [], rt_events = []\<rparr>"

definition sample_digest :: string where
  "sample_digest = replicate 64 (CHR ''0'')"

definition sample_request :: receipt_request where
  "sample_request =
     \<lparr>rq_operation = ''op'', rq_task = Some ''t'', rq_run = ''run'', rq_attempt = ''a'', rq_step = ''s'',
      rq_tool_call = ''call'', rq_tool = ''write'', rq_class = LOCAL_DURABLE, rq_target = PStr ''f'',
      rq_request = PNone, rq_key = None, rq_before = None, rq_metadata = []\<rparr>"

definition sample_history :: "(nat \<times> receipt_call) list" where
  "sample_history = [(0, Begin ''r1'' sample_request), (1, Dispatch ''r1''), (2, Commit ''r1'' no_facts)]"

text \<open>A durable commit is final. Once a receipt is COMMITTED or OBSERVED, no later history of
  begins, dispatches, commits, observations, failures, unknown marks and reconciliations makes
  it anything else, so a replay decision about it is REUSE_COMMITTED whenever the row can be
  read, and an observed receipt stays OBSERVED.\<close>

theorem commit_never_regresses:
  assumes "settled db rid COMMITTED \<or> settled db rid OBSERVED"
  shows "(settled (fold (receipt_step sha) xs db) rid COMMITTED \<or>
          settled (fold (receipt_step sha) xs db) rid OBSERVED) \<and>
    replay_decision rid (fold (receipt_step sha) xs db) \<in> {Inr REUSE_COMMITTED, Inl Receipt_invalid}"
proof -
  have "settled (fold (receipt_step sha) xs db) rid COMMITTED \<or>
        settled (fold (receipt_step sha) xs db) rid OBSERVED"
    using settled_run[OF assms] .
  then show ?thesis
    by (auto simp: settled_def replay_decision_def get_receipt_def from_row_def decide_replay_def
        split: option.splits)
qed

theorem commit_never_regresses_witness:
  "settled (fold (receipt_step (\<lambda>s. sample_digest)) [(3, Fail ''r1'' ''late''), (4, Reconcile ''r1'' None (Some False) None)]
     (fold (receipt_step (\<lambda>s. sample_digest)) sample_history empty_receipt_db)) ''r1'' COMMITTED \<or>
   settled (fold (receipt_step (\<lambda>s. sample_digest)) [(3, Fail ''r1'' ''late''), (4, Reconcile ''r1'' None (Some False) None)]
     (fold (receipt_step (\<lambda>s. sample_digest)) sample_history empty_receipt_db)) ''r1'' OBSERVED"
proof -
  have "settled (fold (receipt_step (\<lambda>s. sample_digest)) sample_history empty_receipt_db) ''r1'' COMMITTED"
    by code_simp
  then show ?thesis using commit_never_regresses by blast
qed

text \<open>C30: The receipt manager implements the receipt life cycle. Whatever the manager is asked to
  do, starting from an empty table, every receipt in the table is in a state the abstract life
  cycle reaches from the initial state of its effect class and idempotency key.\<close>

theorem receipts_follow_lifecycle:
  assumes "row_get re_id rid (rt_rows (fold (receipt_step sha) xs empty_receipt_db)) = Some r"
  shows "lifecycle\<^sup>*\<^sup>* (initial_view (re_class r) (has_text (re_key r))) (view r)"
  by (rule lifecycle_reachable_run[OF _ assms]) (simp add: empty_receipt_db_def row_get_def)

theorem receipts_follow_lifecycle_witness:
  "lifecycle\<^sup>*\<^sup>* (initial_view LOCAL_DURABLE False) (COMMITTED, LOCAL_DURABLE, False, True, WORKSPACE_DIGEST)"
proof -
  let ?r = "the (row_get re_id ''r1'' (rt_rows (fold (receipt_step (\<lambda>s. sample_digest)) sample_history empty_receipt_db)))"
  have r: "row_get re_id ''r1'' (rt_rows (fold (receipt_step (\<lambda>s. sample_digest)) sample_history empty_receipt_db)) \<noteq> None"
    by code_simp
  have v: "view ?r = (COMMITTED, LOCAL_DURABLE, False, True, WORKSPACE_DIGEST)" by code_simp
  from r obtain x where "row_get re_id ''r1'' (rt_rows (fold (receipt_step (\<lambda>s. sample_digest)) sample_history empty_receipt_db)) = Some x"
    by blast
  from receipts_follow_lifecycle[OF this] this v show ?thesis by (simp add: view_def)
qed



text \<open>The event trail of receipts is append-only and numbered without gaps: after any history
  the earlier events are a prefix of the later ones and the row ids run 1, 2, 3 and so on.\<close>

theorem receipt_trail_append_only:
  "map ev_id (rt_events (fold (receipt_step sha) xs empty_receipt_db)) =
     [1..<Suc (length (rt_events (fold (receipt_step sha) xs empty_receipt_db)))] \<and>
   prefix (rt_events (fold (receipt_step sha) xs empty_receipt_db))
     (rt_events (fold (receipt_step sha) (xs @ ys) empty_receipt_db))"
proof -
  have "log_ok (rt_events empty_receipt_db)" by (simp add: empty_receipt_db_def log_ok_def)
  from events_run[OF this, of sha xs] events_run[of "fold (receipt_step sha) xs empty_receipt_db" sha ys]
  show ?thesis by (simp add: log_ok_def)
qed

text \<open>Stored metadata leaks no secret: at every depth of what a receipt keeps, an entry whose
  key names a secret (api key, authorization, token, secret, password, credential, in any
  case) holds the redaction mark and nothing else.\<close>

theorem metadata_redacted: "redacted (PDict (safe_metadata d))"
  unfolding safe_metadata_def by (rule redacted_sanitised) (rule safe_value_redacted)

text \<open>The idempotent external fake performs an effect once per key: after any sequence of
  requests the number of effects is the number of distinct keys, every request is counted,
  and a repeated request with a used key returns the stored effect and adds none.\<close>

theorem effect_once_per_key:
  "fk_effects (fake_session sha calls) = card (fst ` set calls) \<and>
   fk_requests (fake_session sha calls) = length calls \<and>
   fake_apply sha k t' p' (snd (fake_apply sha k t p (fake_session sha calls))) =
     (fst (fake_apply sha k t p (fake_session sha calls)),
      (snd (fake_apply sha k t p (fake_session sha calls)))\<lparr>fk_requests := length calls + 2\<rparr>)"
proof -
  note inv = fake_session_invariant[of sha calls]
  let ?fk = "snd (fake_apply sha k t p (fake_session sha calls))"
  have "map_of (fk_store ?fk) k = Some (fst (fake_apply sha k t p (fake_session sha calls)))"
    using fake_invariant[of "fake_session sha calls" sha k t p] inv by simp
  moreover have "fk_requests ?fk = length calls + 1"
    using inv by (simp add: fake_apply_def Let_def split: option.splits)
  ultimately show ?thesis using inv by (simp add: fake_apply_def Let_def)
qed

end
