(* ===== verification/ExecControl.thy ===== *)
theory ExecControl imports Complex_Main Prelude begin

text \<open>
  \<open>src/lhas/execution_control.py\<close>: the root execution deadline and cancellation tokens.

  \<^item> Tokens are shared mutable objects: the state is a store, a list of tokens, and a token
    refers to its parent and children by index. A token is created after its parent, so a
    parent's index is smaller; the recursion over parents follows it.
  \<^item> Clock readings are rationals (\<open>float\<close> without rounding). The store holds the monotonic
    and the wall clock; the clock reads the same throughout one operation and moves between
    operations.
  \<^item> An \<open>asyncio.Event\<close> of a waiter is a number, and \<open>cs_events\<close> is the set of those set.
\<close>

section \<open>State\<close>

definition valid_cancellation_reasons :: "string list" where
  "valid_cancellation_reasons =
     [''USER_CANCEL'', ''ROOT_DEADLINE_EXCEEDED'', ''PARENT_CANCELLED'', ''ATTEMPT_TERMINAL'',
      ''SHUTDOWN'', ''WORKFLOW_ABORT'', ''REPLAN_INVALIDATION'', ''BUDGET_TERMINAL'']"

record token =
  tk_run :: string
  tk_root_run :: string
  tk_attempt :: "string option"
  tk_parent :: "nat option"
  tk_deadline :: "rat option"
  tk_wall_deadline :: "rat option"
  tk_cancelled :: bool
  tk_reason :: "string option"
  tk_source :: "string option"
  tk_cancelled_at :: "rat option"
  tk_children :: "nat list"
  tk_waiters :: "nat list"

record control_store =
  cs_tokens :: "token list"
  cs_now :: rat
  cs_wall :: rat
  cs_events :: "nat set"

text \<open>
  \<open>ExecutionControlError\<close>; \<open>ExecutionLayerTimeout\<close> is the subclass with \<open>terminal=False\<close>.
\<close>

record control_failure =
  ce_type :: string
  ce_run :: string
  ce_attempt :: "string option"
  ce_reason :: string
  ce_source :: string
  ce_deadline :: "rat option"
  ce_terminal :: bool

datatype control_exn = Control_failure control_failure | Value_error string | Assertion_error

text \<open>What an awaited operation may raise besides; \<open>Await_cancelled\<close> is the \<open>CancelledError\<close> of the
  awaiting task itself.\<close>

datatype 'e await_exn = Control_raised control_exn | Operation_raised 'e | Await_cancelled

abbreviation tok :: "control_store \<Rightarrow> nat \<Rightarrow> token" where
  "tok st i \<equiv> cs_tokens st ! i"

definition set_token :: "nat \<Rightarrow> token \<Rightarrow> control_store \<Rightarrow> control_store" where
  "set_token i t st = st\<lparr>cs_tokens := (cs_tokens st)[i := t]\<rparr>"

section \<open>Operations\<close>

definition deadline_passed :: "control_store \<Rightarrow> nat \<Rightarrow> bool" where
  "deadline_passed st i = (case tk_deadline (tok st i) of None \<Rightarrow> False | Some d \<Rightarrow> cs_now st \<ge> d)"

text \<open>\<open>_notify\<close> walks the children; a tree of n tokens is at most n deep.\<close>

primrec notify_upto :: "nat \<Rightarrow> nat \<Rightarrow> control_store \<Rightarrow> control_store" where
  "notify_upto 0 i st = st"
| "notify_upto (Suc n) i st =
     fold (notify_upto n) (tk_children (tok st i))
       (st\<lparr>cs_events := cs_events st \<union> set (tk_waiters (tok st i))\<rparr>)"

definition notify :: "nat \<Rightarrow> control_store \<Rightarrow> control_store" where
  "notify i st = notify_upto (length (cs_tokens st)) i st"

definition terminate :: "nat \<Rightarrow> string \<Rightarrow> string \<Rightarrow> control_store \<Rightarrow> bool \<times> control_store" where
  "terminate i reason source st =
     (if tk_cancelled (tok st i) then (False, st)
      else (True, notify i (set_token i ((tok st i)\<lparr>tk_cancelled := True, tk_reason := Some reason,
              tk_source := Some source, tk_cancelled_at := Some (cs_wall st)\<rparr>) st)))"

definition cancel ::
  "nat \<Rightarrow> string \<Rightarrow> string \<Rightarrow> control_store \<Rightarrow> (control_exn + bool) \<times> control_store" where
  "cancel i reason source st =
     (if reason \<notin> set valid_cancellation_reasons then (Inl (Value_error reason), st)
      else let (b, st') = terminate i reason source st in (Inr b, st'))"

definition expire_if_needed :: "nat \<Rightarrow> control_store \<Rightarrow> control_store" where
  "expire_if_needed i st =
     (if tk_cancelled (tok st i) then st
      else if deadline_passed st i then snd (terminate i ''ROOT_DEADLINE_EXCEEDED'' ''deadline'' st)
      else st)"

definition failure_of :: "token \<Rightarrow> control_failure" where
  "failure_of t =
     (let ty = (case or_str (tk_reason t) None of None \<Rightarrow> ''USER_CANCEL'' | Some r \<Rightarrow> r) in
      \<lparr>ce_type = ty, ce_run = tk_root_run t, ce_attempt = tk_attempt t,
       ce_reason = (case or_str (tk_reason t) None of None \<Rightarrow> ty | Some r \<Rightarrow> r),
       ce_source = (case or_str (tk_source t) None of None \<Rightarrow> ''control'' | Some s \<Rightarrow> s),
       ce_deadline = tk_deadline t, ce_terminal = True\<rparr>)"

text \<open>What \<open>_sync_parent\<close> does with the outcome of the parent's \<open>check\<close>.\<close>

definition after_parent ::
  "nat \<Rightarrow> (control_failure + unit) \<times> control_store \<Rightarrow> control_store" where
  "after_parent i res =
     (case res of
        (Inr _, st) \<Rightarrow> st
      | (Inl e, st) \<Rightarrow>
          snd (terminate i (if ce_type e \<noteq> ''ROOT_DEADLINE_EXCEEDED'' then ''PARENT_CANCELLED''
                            else ''ROOT_DEADLINE_EXCEEDED'') ''parent'' st))"

definition raise_if_cancelled :: "nat \<Rightarrow> control_store \<Rightarrow> (control_failure + unit) \<times> control_store" where
  "raise_if_cancelled i st =
     (if tk_cancelled (tok st i) then (Inl (failure_of (tok st i)), st) else (Inr (), st))"

function check :: "nat \<Rightarrow> control_store \<Rightarrow> (control_failure + unit) \<times> control_store" where
  "check i st =
     raise_if_cancelled i (expire_if_needed i
       (case tk_parent (tok st i) of
          None \<Rightarrow> st
        | Some p \<Rightarrow> if p < i then after_parent i (check p st) else st))"
  by pat_completeness auto
termination by (relation "measure fst") auto

declare check.simps [simp del]

definition sync_parent :: "nat \<Rightarrow> control_store \<Rightarrow> control_store" where
  "sync_parent i st =
     (case tk_parent (tok st i) of None \<Rightarrow> st | Some p \<Rightarrow> after_parent i (check p st))"

definition is_cancelled :: "nat \<Rightarrow> control_store \<Rightarrow> bool \<times> control_store" where
  "is_cancelled i st = (let st' = sync_parent i st in (tk_cancelled (tok st' i), st'))"

definition is_terminal :: "nat \<Rightarrow> control_store \<Rightarrow> bool \<times> control_store" where
  "is_terminal i st =
     (let st' = sync_parent i st in (tk_cancelled (tok st' i) \<or> deadline_passed st' i, st'))"

definition terminal_reason :: "nat \<Rightarrow> control_store \<Rightarrow> string option \<times> control_store" where
  "terminal_reason i st =
     (let st' = sync_parent i st in
      (case or_str (tk_reason (tok st' i)) None of
         Some r \<Rightarrow> Some r
       | None \<Rightarrow> if deadline_passed st' i then Some ''ROOT_DEADLINE_EXCEEDED'' else None, st'))"

text \<open>\<open>remaining_time\<close>: \<open>None\<close> stands for \<open>float("inf")\<close>, and so for no timeout.\<close>

definition remaining_time ::
  "nat \<Rightarrow> rat option \<Rightarrow> control_store \<Rightarrow> (control_exn + rat option) \<times> control_store" where
  "remaining_time i ceil st =
     (case check i (expire_if_needed i (sync_parent i st)) of
        (Inl e, st') \<Rightarrow> (Inl (Control_failure e), st')
      | (Inr _, st') \<Rightarrow>
          (let own = (case tk_deadline (tok st' i) of None \<Rightarrow> None | Some d \<Rightarrow> Some (max 0 (d - cs_now st')))
           in case ceil of
                None \<Rightarrow> (Inr own, st')
              | Some c \<Rightarrow>
                  if c \<le> 0 then (Inl (Value_error ''local_ceiling must be positive''), st')
                  else (Inr (Some (case own of None \<Rightarrow> c | Some r \<Rightarrow> min r c)), st')))"

definition effective_timeout ::
  "nat \<Rightarrow> rat option \<Rightarrow> control_store \<Rightarrow> (control_exn + rat option) \<times> control_store" where
  "effective_timeout i ceil st = remaining_time i ceil st"

definition min_deadline :: "rat option \<Rightarrow> rat option \<Rightarrow> rat option" where
  "min_deadline parent local =
     (case parent of
        None \<Rightarrow> local
      | Some p \<Rightarrow> (case local of None \<Rightarrow> Some p | Some l \<Rightarrow> Some (min p l)))"

text \<open>The constructor: the new token's index is the length of the store.\<close>

definition new_token ::
  "string \<Rightarrow> string option \<Rightarrow> rat option \<Rightarrow> rat option \<Rightarrow> nat option \<Rightarrow> control_store \<Rightarrow>
   (control_exn + nat) \<times> control_store"
where
  "new_token run attempt timeout deadline parent st =
     (if (case timeout of Some t \<Rightarrow> t < 0 | None \<Rightarrow> False) then
        (Inl (Value_error ''timeout_seconds must be non-negative''), st)
      else if deadline \<noteq> None \<and> timeout \<noteq> None then
        (Inl (Value_error ''choose timeout_seconds or absolute_deadline''), st)
      else
        let own = (case timeout of None \<Rightarrow> deadline | Some t \<Rightarrow> Some (cs_now st + t));
            dl = (case parent of None \<Rightarrow> own | Some p \<Rightarrow> min_deadline (tk_deadline (tok st p)) own);
            i = length (cs_tokens st);
            t = \<lparr>tk_run = run,
                 tk_root_run = (case parent of None \<Rightarrow> run | Some p \<Rightarrow> tk_root_run (tok st p)),
                 tk_attempt = attempt, tk_parent = parent, tk_deadline = dl,
                 tk_wall_deadline =
                   (case dl of None \<Rightarrow> None | Some d \<Rightarrow> Some (cs_wall st + max 0 (d - cs_now st))),
                 tk_cancelled = False, tk_reason = None, tk_source = None, tk_cancelled_at = None,
                 tk_children = [], tk_waiters = []\<rparr>;
            st1 = (case parent of
                     None \<Rightarrow> st
                   | Some p \<Rightarrow> set_token p ((tok st p)\<lparr>tk_children := tk_children (tok st p) @ [i]\<rparr>) st)
        in (Inr i, st1\<lparr>cs_tokens := cs_tokens st1 @ [t]\<rparr>))"

definition derive ::
  "nat \<Rightarrow> string option \<Rightarrow> string option \<Rightarrow> rat option \<Rightarrow> control_store \<Rightarrow>
   (control_exn + nat) \<times> control_store"
where
  "derive i attempt run ceil st =
     (case check i st of
        (Inl e, st') \<Rightarrow> (Inl (Control_failure e), st')
      | (Inr _, st') \<Rightarrow>
          new_token (case or_str run None of None \<Rightarrow> tk_root_run (tok st' i) | Some r \<Rightarrow> r) attempt None
            (case ceil of None \<Rightarrow> None | Some c \<Rightarrow> Some (cs_now st' + c)) (Some i) st')"

text \<open>\<open>wait_terminal\<close> registers an event, until \<open>notify\<close> sets it or the waiter leaves.\<close>

definition register_waiter :: "nat \<Rightarrow> nat \<Rightarrow> control_store \<Rightarrow> control_store" where
  "register_waiter i ev st = set_token i ((tok st i)\<lparr>tk_waiters := tk_waiters (tok st i) @ [ev]\<rparr>) st"

definition remove_waiter :: "nat \<Rightarrow> nat \<Rightarrow> control_store \<Rightarrow> control_store" where
  "remove_waiter i ev st = set_token i ((tok st i)\<lparr>tk_waiters := remove1 ev (tk_waiters (tok st i))\<rparr>) st"

definition advance :: "rat \<Rightarrow> control_store \<Rightarrow> control_store" where
  "advance d st = st\<lparr>cs_now := cs_now st + max 0 d, cs_wall := cs_wall st + max 0 d\<rparr>"

definition empty_store :: "rat \<Rightarrow> rat \<Rightarrow> control_store" where
  "empty_store now wall = \<lparr>cs_tokens = [], cs_now = now, cs_wall = wall, cs_events = {}\<rparr>"

text \<open>Everything the runtime does with tokens.\<close>

datatype control_op =
    New_root string "string option" "rat option" "rat option"
  | Derive nat "string option" "string option" "rat option"
  | Cancel nat string string
  | Check nat
  | Register nat nat
  | Unregister nat nat
  | Advance rat

fun control_op_step :: "control_op \<Rightarrow> control_store \<Rightarrow> control_store" where
  "control_op_step (New_root run attempt timeout deadline) st =
     snd (new_token run attempt timeout deadline None st)"
| "control_op_step (Derive i attempt run ceil) st =
     (if i < length (cs_tokens st) then snd (derive i attempt run ceil st) else st)"
| "control_op_step (Cancel i reason source) st =
     (if i < length (cs_tokens st) then snd (cancel i reason source st) else st)"
| "control_op_step (Check i) st = (if i < length (cs_tokens st) then snd (check i st) else st)"
| "control_op_step (Register i ev) st = (if i < length (cs_tokens st) then register_waiter i ev st else st)"
| "control_op_step (Unregister i ev) st = (if i < length (cs_tokens st) then remove_waiter i ev st else st)"
| "control_op_step (Advance d) st = advance d st"

section \<open>Awaiting under a token\<close>

text \<open>
  What \<open>asyncio.wait\<close> reports when the awaited operation, the terminal waiter and the timeout
  race: nothing is done, the terminal waiter is among the done, or the operation alone is; or
  the awaiting task is cancelled while it waits.
\<close>

datatype ('e, 'a) wait_outcome = Nothing_done | Terminal_done | Operation_done "'e + 'a" | Wait_cancelled

text \<open>
  Every \<open>await\<close> is a point where the rest of the runtime goes on: what it does to the tokens
  there, time included, is a list of operations.

  \<^item> \<open>av_during\<close>: in \<open>asyncio.wait\<close>, which then reports \<open>av_outcome\<close>;
  \<^item> \<open>av_drain\<close>: in \<open>_cancel_and_drain\<close> of an operation that lost the race (which catches everything);
  \<^item> \<open>av_unwind\<close>: in the \<open>asyncio.gather\<close> of the \<open>finally\<close> block, which every exit passes after
    its last check; \<open>av_interrupted\<close> when the awaiting task is cancelled there;
  \<^item> \<open>av_late_drain\<close>: in the \<open>_cancel_and_drain\<close> of the \<open>finally\<close> block, which is only reached with
    an unfinished operation when the wait itself was cancelled (empty when it had finished).
\<close>

record ('e, 'a) await_env =
  av_during :: "control_op list"
  av_outcome :: "('e, 'a) wait_outcome"
  av_drain :: "control_op list"
  av_unwind :: "control_op list"
  av_interrupted :: bool
  av_late_drain :: "control_op list"

definition layer_timeout :: "string \<Rightarrow> string \<Rightarrow> token \<Rightarrow> control_failure" where
  "layer_timeout failure_type source t =
     \<lparr>ce_type = failure_type, ce_run = tk_root_run t, ce_attempt = tk_attempt t,
      ce_reason = ''LOCAL_CEILING_EXCEEDED'', ce_source = source, ce_deadline = tk_deadline t,
      ce_terminal = False\<rparr>"

definition check_then ::
  "nat \<Rightarrow> ('e await_exn + 'a) \<Rightarrow> control_store \<Rightarrow> ('e await_exn + 'a) \<times> control_store" where
  "check_then i res st =
     (case check i st of (Inl e, st') \<Rightarrow> (Inl (Control_raised (Control_failure e)), st') | (Inr _, st') \<Rightarrow> (res, st'))"

text \<open>The \<open>try\<close> block after the wait; \<open>wins\<close> is \<open>root_deadline_wins\<close>. \<open>control.cancel\<close> with a valid
  reason is \<open>terminate\<close>.\<close>

definition after_wait ::
  "nat \<Rightarrow> bool \<Rightarrow> string \<Rightarrow> string \<Rightarrow> ('e, 'a) await_env \<Rightarrow> control_store \<Rightarrow>
   ('e await_exn + 'a) \<times> control_store"
where
  "after_wait i wins failure_type source env st =
     (case av_outcome env of
        Nothing_done \<Rightarrow>
          (let st0 = fold control_op_step (av_drain env) st;
               st1 = (if wins then snd (terminate i ''ROOT_DEADLINE_EXCEEDED'' ''deadline'' st0) else st0);
               (over, st2) = is_terminal i st1;
               late = Inl (Control_raised (Control_failure (layer_timeout failure_type source (tok st2 i))))
           in if over then check_then i late st2 else (late, st2))
      | Terminal_done \<Rightarrow>
          check_then i (Inl (Control_raised Assertion_error)) (fold control_op_step (av_drain env) st)
      | Operation_done (Inl e) \<Rightarrow> (Inl (Operation_raised e), st)
      | Operation_done (Inr a) \<Rightarrow> check_then i (Inr a) st
      | Wait_cancelled \<Rightarrow> (Inl Await_cancelled, st))"

text \<open>The \<open>finally\<close> block: it suspends once more and then lets the result or exception through,
  unless the awaiting task is cancelled there. Nothing is checked any more.\<close>

definition unwind ::
  "('e, 'a) await_env \<Rightarrow> ('e await_exn + 'a) \<times> control_store \<Rightarrow> ('e await_exn + 'a) \<times> control_store"
where
  "unwind env r =
     (let st = fold control_op_step (av_unwind env) (snd r) in
      if av_interrupted env then (Inl Await_cancelled, st)
      else (fst r, case av_outcome env of Wait_cancelled \<Rightarrow> fold control_op_step (av_late_drain env) st | _ \<Rightarrow> st))"

definition wait_under ::
  "nat \<Rightarrow> bool \<Rightarrow> string \<Rightarrow> string \<Rightarrow> ('e, 'a) await_env \<Rightarrow> control_store \<Rightarrow>
   ('e await_exn + 'a) \<times> control_store"
where
  "wait_under i wins failure_type source env st =
     unwind env (after_wait i wins failure_type source env (fold control_op_step (av_during env) st))"

text \<open>\<open>await_with_control\<close> with a token. What the environment does may depend on the timeout.\<close>

definition await_with_control ::
  "nat \<Rightarrow> rat option \<Rightarrow> string \<Rightarrow> string \<Rightarrow> (rat option \<Rightarrow> ('e, 'a) await_env) \<Rightarrow>
   control_store \<Rightarrow> ('e await_exn + 'a) \<times> control_store"
where
  "await_with_control i ceil failure_type source environment st =
     (case check i st of
        (Inl e, st1) \<Rightarrow> (Inl (Control_raised (Control_failure e)), st1)
      | (Inr _, st1) \<Rightarrow>
         (case effective_timeout i None st1 of
            (Inl e, st2) \<Rightarrow> (Inl (Control_raised e), st2)
          | (Inr root_remaining, st2) \<Rightarrow>
             (case effective_timeout i ceil st2 of
                (Inl e, st3) \<Rightarrow> (Inl (Control_raised e), st3)
              | (Inr effective, st3) \<Rightarrow>
                 (let wins = (case root_remaining of
                                None \<Rightarrow> False
                              | Some r \<Rightarrow> (case ceil of None \<Rightarrow> True | Some c \<Rightarrow> r \<le> c))
                  in case effective of
                       Some e \<Rightarrow>
                         if e \<le> 0 then
                           check_then i (Inl (Control_raised (Control_failure (layer_timeout failure_type source (tok st3 i))))) st3
                         else wait_under i wins failure_type source (environment effective) st3
                     | None \<Rightarrow> wait_under i wins failure_type source (environment effective) st3))))"

section \<open>How a store evolves\<close>

definition same_static :: "token \<Rightarrow> token \<Rightarrow> bool" where
  "same_static t t' \<longleftrightarrow>
     tk_run t' = tk_run t \<and> tk_root_run t' = tk_root_run t \<and> tk_attempt t' = tk_attempt t \<and>
     tk_parent t' = tk_parent t \<and> tk_deadline t' = tk_deadline t \<and>
     tk_wall_deadline t' = tk_wall_deadline t"

definition kept :: "token \<Rightarrow> token \<Rightarrow> bool" where
  "kept t t' \<longleftrightarrow> same_static t t' \<and>
     (tk_cancelled t \<longrightarrow> tk_cancelled t' \<and> tk_reason t' = tk_reason t \<and> tk_source t' = tk_source t \<and>
        tk_cancelled_at t' = tk_cancelled_at t)"

definition evolves :: "control_store \<Rightarrow> control_store \<Rightarrow> bool" where
  "evolves st st' \<longleftrightarrow>
     length (cs_tokens st) \<le> length (cs_tokens st') \<and> cs_now st \<le> cs_now st' \<and>
     (\<forall>i<length (cs_tokens st). kept (tok st i) (tok st' i))"

lemma kept_refl [simp]: "kept t t"
  by (simp add: kept_def same_static_def)

lemma kept_trans: "kept a b \<Longrightarrow> kept b c \<Longrightarrow> kept a c"
  by (auto simp: kept_def same_static_def)

lemma evolves_refl [simp]: "evolves st st"
  by (simp add: evolves_def)

lemma evolves_trans:
  assumes "evolves a b" and "evolves b c"
  shows "evolves a c"
  using assms unfolding evolves_def by (meson kept_trans less_le_trans order_trans)

text \<open>An operation on existing tokens: the clock and the number of tokens stay.\<close>

definition in_place :: "control_store \<Rightarrow> control_store \<Rightarrow> bool" where
  "in_place st st' \<longleftrightarrow>
     evolves st st' \<and> length (cs_tokens st') = length (cs_tokens st) \<and> cs_now st' = cs_now st"

lemma in_place_refl [simp]: "in_place st st"
  by (simp add: in_place_def)

lemma in_place_trans: "in_place a b \<Longrightarrow> in_place b c \<Longrightarrow> in_place a c"
  by (auto simp: in_place_def intro: evolves_trans)

lemma notify_upto_frame [simp]:
  "cs_tokens (notify_upto n i st) = cs_tokens st"
  "cs_now (notify_upto n i st) = cs_now st" "cs_wall (notify_upto n i st) = cs_wall st"
proof -
  have "cs_tokens (notify_upto n i st) = cs_tokens st \<and> cs_now (notify_upto n i st) = cs_now st \<and>
      cs_wall (notify_upto n i st) = cs_wall st"
  proof (induction n arbitrary: i st)
    case (Suc n)
    have "cs_tokens (fold (notify_upto n) is s) = cs_tokens s \<and> cs_now (fold (notify_upto n) is s) = cs_now s \<and>
        cs_wall (fold (notify_upto n) is s) = cs_wall s" for "is" s
      by (induction "is" arbitrary: s) (simp_all add: Suc.IH)
    then show ?case by simp
  qed simp
  then show "cs_tokens (notify_upto n i st) = cs_tokens st"
    "cs_now (notify_upto n i st) = cs_now st" "cs_wall (notify_upto n i st) = cs_wall st" by auto
qed

lemma notify_frame [simp]:
  "cs_tokens (notify i st) = cs_tokens st" "cs_now (notify i st) = cs_now st"
  by (simp_all add: notify_def)

lemma set_token_frame [simp]:
  "length (cs_tokens (set_token i t st)) = length (cs_tokens st)"
  "cs_now (set_token i t st) = cs_now st"
  "i < length (cs_tokens st) \<Longrightarrow> tok (set_token i t st) j = (if j = i then t else tok st j)"
  by (auto simp: set_token_def)

lemma set_token_in_place: "i < length (cs_tokens st) \<Longrightarrow> kept (tok st i) t \<Longrightarrow> in_place st (set_token i t st)"
  by (simp add: in_place_def evolves_def)

lemma terminate_facts:
  assumes "i < length (cs_tokens st)"
  shows "in_place st (snd (terminate i r src st)) \<and> tk_cancelled (tok (snd (terminate i r src st)) i) \<and>
    (\<forall>j. j \<noteq> i \<longrightarrow> tok (snd (terminate i r src st)) j = tok st j)"
  using assms by (simp add: terminate_def in_place_def evolves_def kept_def same_static_def)

lemma expire_facts:
  assumes "i < length (cs_tokens st)"
  shows "in_place st (expire_if_needed i st) \<and>
    (\<forall>j. j \<noteq> i \<longrightarrow> tok (expire_if_needed i st) j = tok st j) \<and>
    (tk_cancelled (tok (expire_if_needed i st) i) \<longleftrightarrow> tk_cancelled (tok st i) \<or> deadline_passed st i)"
  using terminate_facts[OF assms] by (simp add: expire_if_needed_def)

lemma after_parent_facts:
  assumes "i < length (cs_tokens (snd res))"
  shows "in_place (snd res) (after_parent i res) \<and>
    (\<forall>j. j \<noteq> i \<longrightarrow> tok (after_parent i res) j = tok (snd res) j) \<and>
    (\<forall>e. fst res = Inl e \<longrightarrow> tk_cancelled (tok (after_parent i res) i)) \<and>
    (fst res = Inr () \<longrightarrow> after_parent i res = snd res)"
  using terminate_facts[OF assms] by (cases res) (auto simp: after_parent_def split: sum.splits)

lemma check_in_place:
  assumes "i < length (cs_tokens st)"
  shows "in_place st (snd (check i st)) \<and> (\<forall>j>i. tok (snd (check i st)) j = tok st j)"
  using assms
proof (induction i rule: less_induct)
  case (less i)
  let ?s1 = "case tk_parent (tok st i) of None \<Rightarrow> st
        | Some p \<Rightarrow> if p < i then after_parent i (check p st) else st"
  have s1: "in_place st ?s1 \<and> (\<forall>j>i. tok ?s1 j = tok st j)"
  proof (cases "tk_parent (tok st i)")
    case None
    then show ?thesis by simp
  next
    case (Some p)
    show ?thesis
    proof (cases "p < i")
      case True
      with less have c: "in_place st (snd (check p st)) \<and> (\<forall>j>p. tok (snd (check p st)) j = tok st j)"
        by simp
      then have "i < length (cs_tokens (snd (check p st)))" using less.prems by (simp add: in_place_def)
      from after_parent_facts[OF this] c True Some show ?thesis by (auto intro: in_place_trans)
    qed (simp add: Some)
  qed
  then have "i < length (cs_tokens ?s1)" using less.prems by (simp add: in_place_def)
  from expire_facts[OF this] s1 show ?case
    unfolding check.simps[of i st] by (auto simp: raise_if_cancelled_def intro: in_place_trans)
qed

section \<open>Terminal tokens\<close>

text \<open>A token is doomed when it or an ancestor was cancelled or is past its deadline.\<close>

inductive doomed :: "control_store \<Rightarrow> nat \<Rightarrow> bool" for st where
  self_cancelled: "tk_cancelled (tok st i) \<Longrightarrow> doomed st i"
| self_expired: "deadline_passed st i \<Longrightarrow> doomed st i"
| parent_doomed: "tk_parent (tok st i) = Some p \<Longrightarrow> doomed st p \<Longrightarrow> doomed st i"

inductive ancestor :: "control_store \<Rightarrow> nat \<Rightarrow> nat \<Rightarrow> bool" for st where
  ancestor_self: "ancestor st i i"
| ancestor_step: "tk_parent (tok st i) = Some p \<Longrightarrow> ancestor st p j \<Longrightarrow> ancestor st i j"

lemma doomed_iff_ancestor:
  "doomed st i \<longleftrightarrow> (\<exists>j. ancestor st i j \<and> (tk_cancelled (tok st j) \<or> deadline_passed st j))"
proof
  assume "doomed st i"
  then show "\<exists>j. ancestor st i j \<and> (tk_cancelled (tok st j) \<or> deadline_passed st j)"
    by induction (blast intro: ancestor.intros)+
next
  assume "\<exists>j. ancestor st i j \<and> (tk_cancelled (tok st j) \<or> deadline_passed st j)"
  then obtain j where "ancestor st i j" "tk_cancelled (tok st j) \<or> deadline_passed st j" by blast
  then show "doomed st i" by induction (blast intro: doomed.intros)+
qed

definition dl_le :: "rat option \<Rightarrow> rat option \<Rightarrow> bool" where
  "dl_le a b = (case b of None \<Rightarrow> True | Some y \<Rightarrow> (case a of None \<Rightarrow> False | Some x \<Rightarrow> x \<le> y))"

lemma dl_le_refl [simp]: "dl_le a a"
  by (simp add: dl_le_def split: option.splits)

lemma dl_le_trans: "dl_le a b \<Longrightarrow> dl_le b c \<Longrightarrow> dl_le a c"
  by (auto simp: dl_le_def split: option.splits)

lemma dl_le_min_deadline: "dl_le (min_deadline p l) p"
  by (auto simp: dl_le_def min_deadline_def split: option.splits)

definition store_ok :: "control_store \<Rightarrow> bool" where
  "store_ok st \<longleftrightarrow>
     (\<forall>i<length (cs_tokens st). case tk_parent (tok st i) of
        None \<Rightarrow> True
      | Some p \<Rightarrow> p < i \<and> dl_le (tk_deadline (tok st i)) (tk_deadline (tok st p)) \<and>
                  tk_root_run (tok st i) = tk_root_run (tok st p))"

lemma store_okD:
  assumes "store_ok st" and "i < length (cs_tokens st)" and "tk_parent (tok st i) = Some p"
  shows "p < i \<and> dl_le (tk_deadline (tok st i)) (tk_deadline (tok st p)) \<and>
    tk_root_run (tok st i) = tk_root_run (tok st p)"
  using assms by (auto simp: store_ok_def split: option.splits)

lemma store_ok_in_place:
  assumes "store_ok st" and "in_place st st'"
  shows "store_ok st'"
  unfolding store_ok_def
proof (intro allI impI)
  fix i
  assume i: "i < length (cs_tokens st')"
  have k: "kept (tok st j) (tok st' j)" if "j \<le> i" for j
    using assms(2) i that by (simp add: in_place_def evolves_def)
  show "case tk_parent (tok st' i) of None \<Rightarrow> True
      | Some p \<Rightarrow> p < i \<and> dl_le (tk_deadline (tok st' i)) (tk_deadline (tok st' p)) \<and>
                  tk_root_run (tok st' i) = tk_root_run (tok st' p)"
  proof (cases "tk_parent (tok st' i)")
    case (Some p)
    then have "tk_parent (tok st i) = Some p" using k[of i] by (simp add: kept_def same_static_def)
    from store_okD[OF assms(1) _ this] i assms(2)
    have p: "p < i" "dl_le (tk_deadline (tok st i)) (tk_deadline (tok st p))"
      "tk_root_run (tok st i) = tk_root_run (tok st p)" by (simp_all add: in_place_def)
    have "tk_deadline (tok st' i) = tk_deadline (tok st i)" "tk_deadline (tok st' p) = tk_deadline (tok st p)"
      "tk_root_run (tok st' i) = tk_root_run (tok st i)" "tk_root_run (tok st' p) = tk_root_run (tok st p)"
      using k[of i] k[of p] p(1) by (simp_all add: kept_def same_static_def)
    with p Some show ?thesis by simp
  qed simp
qed

lemma in_place_kept: "in_place st st' \<Longrightarrow> i < length (cs_tokens st) \<Longrightarrow> kept (tok st i) (tok st' i)"
  by (simp add: in_place_def evolves_def)

lemma in_place_terminal:
  assumes "in_place st st'" and "i < length (cs_tokens st)"
    and "tk_cancelled (tok st i) \<or> deadline_passed st i"
  shows "tk_cancelled (tok st' i) \<or> deadline_passed st' i"
proof -
  have "tk_deadline (tok st' i) = tk_deadline (tok st i)" "cs_now st' = cs_now st"
    "tk_cancelled (tok st i) \<Longrightarrow> tk_cancelled (tok st' i)"
    using in_place_kept[OF assms(1,2)] assms(1) by (simp_all add: kept_def same_static_def in_place_def)
  with assms(3) show ?thesis unfolding deadline_passed_def by metis
qed

lemma check_healthy:
  assumes "\<not> doomed st i"
  shows "check i st = (Inr (), st)"
  using assms
proof (induction i rule: less_induct)
  case (less i)
  then have "\<not> tk_cancelled (tok st i)" "\<not> deadline_passed st i"
    by (auto intro: doomed.intros)
  moreover have "check p st = (Inr (), st)" if "tk_parent (tok st i) = Some p" "p < i" for p
    using less that by (blast intro: doomed.intros)
  ultimately show ?case
    by (subst check.simps) (simp add: after_parent_def expire_if_needed_def raise_if_cancelled_def split: option.split)
qed

lemma check_doomed:
  assumes "doomed st i" and "store_ok st" and "i < length (cs_tokens st)"
  shows "\<exists>st'. check i st = (Inl (failure_of (tok st' i)), st') \<and> tk_cancelled (tok st' i) \<and> in_place st st'"
  using assms
proof (induction rule: doomed.induct)
  have final: "\<exists>st'. check i st = (Inl (failure_of (tok st' i)), st') \<and> tk_cancelled (tok st' i) \<and> in_place st st'"
    if "tk_cancelled (tok (snd (check i st)) i)" "i < length (cs_tokens st)" for i
  proof -
    let ?s = "snd (check i st)"
    have "check i st = raise_if_cancelled i ?s" "?s = snd (raise_if_cancelled i ?s)"
      by (subst (1 2) check.simps; simp add: raise_if_cancelled_def)+
    with that check_in_place[OF that(2)] show ?thesis
      by (intro exI[of _ ?s]) (simp add: raise_if_cancelled_def)
  qed
  have stay: "tk_cancelled (tok (snd (check i st)) i)"
    if "tk_cancelled (tok st i) \<or> deadline_passed st i" "i < length (cs_tokens st)" for i
  proof -
    let ?s1 = "case tk_parent (tok st i) of None \<Rightarrow> st
        | Some p \<Rightarrow> if p < i then after_parent i (check p st) else st"
    have "in_place st ?s1"
    proof (cases "tk_parent (tok st i)")
      case (Some p)
      have c: "in_place st (snd (check p st))" if "p < i"
        using check_in_place[of p st] that \<open>i < length (cs_tokens st)\<close> by simp
      have "in_place st (after_parent i (check p st))" if "p < i"
      proof -
        have "i < length (cs_tokens (snd (check p st)))"
          using c[OF that] \<open>i < length (cs_tokens st)\<close> by (simp add: in_place_def)
        from after_parent_facts[OF this] c[OF that] show ?thesis by (blast intro: in_place_trans)
      qed
      with Some show ?thesis by simp
    qed simp
    then have "i < length (cs_tokens ?s1)" "tk_cancelled (tok ?s1 i) \<or> deadline_passed ?s1 i"
      using that(2) in_place_terminal[OF _ that(2,1)] by (simp add: in_place_def, blast)
    with expire_facts[of i ?s1] show ?thesis
      by (subst check.simps) (simp add: raise_if_cancelled_def)
  qed
  {
    case (self_cancelled i)
    then show ?case using final stay by blast
  next
    case (self_expired i)
    then show ?case using final stay by blast
  next
    case (parent_doomed i p)
    from store_okD[OF parent_doomed(4,5,1)] have p: "p < i" by simp
    with parent_doomed obtain s1 where s1: "check p st = (Inl (failure_of (tok s1 p)), s1)" "in_place st s1"
      by auto
    let ?s2 = "after_parent i (check p st)"
    have len: "i < length (cs_tokens (snd (check p st)))" using s1 parent_doomed(5) by (simp add: in_place_def)
    from after_parent_facts[OF len] s1 have s2: "tk_cancelled (tok ?s2 i)" "in_place s1 ?s2" by auto
    have "i < length (cs_tokens ?s2)" using s1 s2 parent_doomed(5) by (simp add: in_place_def)
    from expire_facts[OF this] s2 have "tk_cancelled (tok (snd (check i st)) i)"
      by (subst check.simps) (simp add: parent_doomed(1) p raise_if_cancelled_def)
    then show ?case using final parent_doomed(5) by blast
  }
qed

lemma check_iff:
  assumes "store_ok st" and "i < length (cs_tokens st)"
  shows "fst (check i st) = Inr () \<longleftrightarrow> \<not> doomed st i"
  using check_healthy[of st i] check_doomed[OF _ assms] by (cases "doomed st i") auto

section \<open>Sessions\<close>

lemma sync_parent_healthy: "\<not> doomed st i \<Longrightarrow> sync_parent i st = st"
proof (cases "tk_parent (tok st i)")
  case (Some p)
  assume "\<not> doomed st i"
  with Some have "\<not> doomed st p" by (blast intro: doomed.intros)
  with Some show ?thesis by (simp add: sync_parent_def after_parent_def check_healthy)
qed (simp add: sync_parent_def)

lemma expire_healthy: "\<not> doomed st i \<Longrightarrow> expire_if_needed i st = st"
  by (auto simp: expire_if_needed_def intro: doomed.intros)

lemma sync_parent_in_place:
  assumes "store_ok st" and "i < length (cs_tokens st)"
  shows "in_place st (sync_parent i st) \<and> (doomed st i \<longrightarrow> doomed (sync_parent i st) i)"
proof (cases "tk_parent (tok st i)")
  case None
  then show ?thesis by (simp add: sync_parent_def)
next
  case (Some p)
  from store_okD[OF assms Some] have p: "p < length (cs_tokens st)" using assms(2) by simp
  have c: "in_place st (snd (check p st))" using check_in_place[OF p] by simp
  then have len: "i < length (cs_tokens (snd (check p st)))" using assms(2) by (simp add: in_place_def)
  note ap = after_parent_facts[OF len]
  have ip: "in_place st (after_parent i (check p st))" using ap c by (blast intro: in_place_trans)
  have "doomed (after_parent i (check p st)) i" if "doomed st i"
  proof (cases "doomed st p")
    case True
    from check_doomed[OF True assms(1) p] ap show ?thesis by (auto intro: doomed.intros)
  next
    case False
    with that Some have "tk_cancelled (tok st i) \<or> deadline_passed st i"
      by (auto elim: doomed.cases)
    from in_place_terminal[OF ip assms(2) this] show ?thesis by (auto intro: doomed.intros)
  qed
  with ip Some show ?thesis by (simp add: sync_parent_def)
qed

lemma append_token_ok:
  assumes ok: "store_ok st" and par: "case tk_parent t of None \<Rightarrow> True
    | Some p \<Rightarrow> p < length (cs_tokens st) \<and> dl_le (tk_deadline t) (tk_deadline (tok st p)) \<and>
        tk_root_run t = tk_root_run (tok st p)"
  shows "store_ok (st\<lparr>cs_tokens := cs_tokens st @ [t]\<rparr>) \<and> evolves st (st\<lparr>cs_tokens := cs_tokens st @ [t]\<rparr>)"
proof
  let ?s = "st\<lparr>cs_tokens := cs_tokens st @ [t]\<rparr>" and ?n = "length (cs_tokens st)"
  have old: "tok ?s j = tok st j" if "j < ?n" for j using that by (simp add: nth_append)
  have new: "tok ?s ?n = t" by simp
  show "evolves st ?s" by (simp add: evolves_def nth_append)
  show "store_ok ?s"
    unfolding store_ok_def
  proof (intro allI impI)
    fix i
    assume "i < length (cs_tokens ?s)"
    then consider "i < ?n" | "i = ?n" by fastforce
    then show "case tk_parent (tok ?s i) of None \<Rightarrow> True
      | Some p \<Rightarrow> p < i \<and> dl_le (tk_deadline (tok ?s i)) (tk_deadline (tok ?s p)) \<and>
                  tk_root_run (tok ?s i) = tk_root_run (tok ?s p)"
    proof cases
      case 1
      show ?thesis
      proof (cases "tk_parent (tok st i)")
        case None
        then show ?thesis by (simp only: old[OF 1] option.case)
      next
        case (Some p)
        from store_okD[OF ok 1 Some] have p: "p < i" "dl_le (tk_deadline (tok st i)) (tk_deadline (tok st p))"
          "tk_root_run (tok st i) = tk_root_run (tok st p)" by simp_all
        then have "p < ?n" using 1 by simp
        with p Some show ?thesis by (simp only: old[OF 1] old option.case)
      qed
    next
      case 2
      show ?thesis
      proof (cases "tk_parent t")
        case None
        then show ?thesis by (simp only: 2 new option.case)
      next
        case (Some p)
        then have "p < ?n" using par by simp
        from Some par show ?thesis by (simp only: 2 new old[OF \<open>p < ?n\<close>] option.case)
      qed
    qed
  qed
qed

lemma new_token_ok:
  assumes "store_ok st" and "case parent of None \<Rightarrow> True | Some p \<Rightarrow> p < length (cs_tokens st)"
  shows "store_ok (snd (new_token run attempt timeout deadline parent st)) \<and>
    evolves st (snd (new_token run attempt timeout deadline parent st))"
proof (cases "fst (new_token run attempt timeout deadline parent st)")
  case (Inl e)
  with assms(1) show ?thesis by (auto simp: new_token_def Let_def split: if_splits)
next
  case (Inr k)
  define s1 where "s1 = (case parent of None \<Rightarrow> st
     | Some p \<Rightarrow> set_token p ((tok st p)\<lparr>tk_children := tk_children (tok st p) @ [length (cs_tokens st)]\<rparr>) st)"
  obtain t where s: "snd (new_token run attempt timeout deadline parent st) =
      s1\<lparr>cs_tokens := cs_tokens s1 @ [t]\<rparr>" "tk_parent t = parent"
      "case parent of None \<Rightarrow> True | Some p \<Rightarrow>
         dl_le (tk_deadline t) (tk_deadline (tok st p)) \<and> tk_root_run t = tk_root_run (tok st p)"
    using Inr by (auto simp: s1_def new_token_def Let_def dl_le_min_deadline split: if_splits option.splits)
  have ip: "in_place st s1"
  proof (cases parent)
    case (Some p)
    with assms(2) show ?thesis
      unfolding s1_def by (simp add: set_token_in_place kept_def same_static_def)
  qed (simp add: s1_def)
  have "case tk_parent t of None \<Rightarrow> True
    | Some p \<Rightarrow> p < length (cs_tokens s1) \<and> dl_le (tk_deadline t) (tk_deadline (tok s1 p)) \<and>
        tk_root_run t = tk_root_run (tok s1 p)"
  proof (cases parent)
    case (Some p)
    then have p: "p < length (cs_tokens st)" using assms(2) by simp
    have "tk_deadline (tok s1 p) = tk_deadline (tok st p)" "tk_root_run (tok s1 p) = tk_root_run (tok st p)"
      using in_place_kept[OF ip p] by (simp_all add: kept_def same_static_def)
    with s(2,3) p Some ip show ?thesis by (simp add: in_place_def)
  qed (simp add: s(2))
  from append_token_ok[OF store_ok_in_place[OF assms(1) ip] this] ip show ?thesis
    unfolding s(1) in_place_def by (blast intro: evolves_trans)
qed

lemma control_op_step_ok:
  assumes "store_ok st"
  shows "store_ok (control_op_step x st) \<and> evolves st (control_op_step x st)"
proof -
  have ip: "store_ok s' \<and> evolves st s'" if "in_place st s'" for s'
    using that store_ok_in_place[OF assms that] by (simp add: in_place_def)
  show ?thesis
  proof (cases x)
    case (New_root run attempt timeout deadline)
    with new_token_ok[OF assms, of None] show ?thesis by simp
  next
    case (Derive i attempt run ceil)
    show ?thesis
    proof (cases "i < length (cs_tokens st) \<and> \<not> doomed st i")
      case True
      then have "check i st = (Inr (), st)" using check_healthy by blast
      with Derive True new_token_ok[OF assms, of "Some i"] show ?thesis by (simp add: derive_def)
    next
      case False
      show ?thesis
      proof (cases "i < length (cs_tokens st)")
        case True
        with False check_doomed[OF _ assms True] obtain e s' where "check i st = (Inl e, s')" "in_place st s'" by blast
        with Derive True ip show ?thesis by (simp add: derive_def)
      qed (use assms Derive in simp)
    qed
  next
    case (Cancel i r src)
    with assms ip terminate_facts[of i st r src] show ?thesis
      by (cases "i < length (cs_tokens st)") (auto simp: cancel_def Let_def split: prod.splits)
  next
    case (Check i)
    with assms ip check_in_place[of i st] show ?thesis by auto
  next
    case (Register i ev)
    have "i < length (cs_tokens st) \<Longrightarrow> in_place st (register_waiter i ev st)"
      unfolding register_waiter_def by (rule set_token_in_place) (simp_all add: kept_def same_static_def)
    with Register assms ip show ?thesis by simp
  next
    case (Unregister i ev)
    have "i < length (cs_tokens st) \<Longrightarrow> in_place st (remove_waiter i ev st)"
      unfolding remove_waiter_def by (rule set_token_in_place) (simp_all add: kept_def same_static_def)
    with Unregister assms ip show ?thesis by simp
  next
    case (Advance d)
    with assms show ?thesis by (simp add: advance_def evolves_def store_ok_def cong: option.case_cong)
  qed
qed

lemma control_session_ok:
  "store_ok st \<Longrightarrow> store_ok (fold control_op_step xs st) \<and> evolves st (fold control_op_step xs st)"
proof (induction xs arbitrary: st)
  case (Cons x xs)
  from control_op_step_ok[OF Cons.prems, of x] Cons.IH show ?case
    by (metis evolves_trans fold_simps(2))
qed simp

lemma store_ok_empty: "store_ok (empty_store now wall)"
  by (simp add: store_ok_def empty_store_def)

text \<open>Tokens stay doomed.\<close>

lemma doomed_evolves:
  assumes "doomed st i" and "evolves st st'" and "store_ok st" and "i < length (cs_tokens st)"
  shows "doomed st' i"
  using assms
proof (induction rule: doomed.induct)
  case (self_cancelled i)
  then have "kept (tok st i) (tok st' i)" by (simp add: evolves_def)
  with self_cancelled show ?case by (auto simp: kept_def intro: doomed.intros)
next
  case (self_expired i)
  then have "kept (tok st i) (tok st' i)" "cs_now st \<le> cs_now st'" by (simp_all add: evolves_def)
  with self_expired show ?case
    by (intro doomed.self_expired) (auto simp: kept_def same_static_def deadline_passed_def split: option.splits)
next
  case (parent_doomed i p)
  then have "kept (tok st i) (tok st' i)" by (simp add: evolves_def)
  then have "tk_parent (tok st' i) = Some p" using parent_doomed(1) by (simp add: kept_def same_static_def)
  moreover have "p < length (cs_tokens st)" using store_okD[OF parent_doomed(5,6,1)] parent_doomed(6) by simp
  ultimately show ?case using parent_doomed by (blast intro: doomed.intros)
qed

lemma ancestor_deadline:
  assumes "ancestor st i j" and "store_ok st" and "i < length (cs_tokens st)"
  shows "dl_le (tk_deadline (tok st i)) (tk_deadline (tok st j)) \<and>
    tk_root_run (tok st i) = tk_root_run (tok st j) \<and> j \<le> i"
  using assms
proof (induction rule: ancestor.induct)
  case (ancestor_step i p j)
  from store_okD[OF ancestor_step(4,5,1)] ancestor_step(3)[OF ancestor_step(4)] ancestor_step(5)
  show ?case by (auto intro: dl_le_trans)
qed simp

lemma remaining_time_healthy:
  assumes "remaining_time i ceil st = (Inr r, st')" and "store_ok st" and "i < length (cs_tokens st)"
  shows "\<not> doomed st i \<and> st' = st"
proof (cases "doomed st i")
  case True
  let ?s1 = "sync_parent i st"
  let ?s2 = "expire_if_needed i ?s1"
  from sync_parent_in_place[OF assms(2,3)] True have s1: "in_place st ?s1" "doomed ?s1 i" by auto
  then have l1: "i < length (cs_tokens ?s1)" "store_ok ?s1"
    using assms(2,3) store_ok_in_place by (auto simp: in_place_def)
  from expire_facts[OF l1(1)] have s2: "in_place ?s1 ?s2" by simp
  then have l2: "i < length (cs_tokens ?s2)" "store_ok ?s2" "doomed ?s2 i"
    using l1 store_ok_in_place doomed_evolves[OF s1(2) _ l1(2,1)] by (auto simp: in_place_def)
  from check_doomed[OF l2(3,2,1)] assms(1) show ?thesis
    by (auto simp: remaining_time_def)
next
  case False
  with assms(1) show ?thesis
    by (simp add: remaining_time_def sync_parent_healthy expire_healthy check_healthy Let_def
        split: option.splits if_splits)
qed

lemma check_then_Inr:
  assumes "check_then i res st = (Inr a, st')" and "store_ok st" and "i < length (cs_tokens st)"
  shows "res = Inr a \<and> st' = st \<and> \<not> doomed st i"
proof (cases "doomed st i")
  case True
  from check_doomed[OF True assms(2,3)] assms(1) show ?thesis by (auto simp: check_then_def)
next
  case False
  with assms(1) show ?thesis by (simp add: check_then_def check_healthy)
qed

lemma check_then_Inl: "fst (check_then i (Inl x) st) \<noteq> Inr a"
  by (auto simp: check_then_def split: sum.splits prod.splits)

lemma after_wait_Inr:
  assumes "store_ok st" and "i < length (cs_tokens st)"
  shows "fst (after_wait i wins ft src env st) = Inr a \<longleftrightarrow>
    av_outcome env = Operation_done (Inr a) \<and> \<not> doomed st i"
    and "fst (after_wait i wins ft src env st) = Inr a \<Longrightarrow> snd (after_wait i wins ft src env st) = st"
proof -
  have "fst (check_then i (Inr b) st) = Inr a \<longleftrightarrow> b = a \<and> \<not> doomed st i" for b
    using check_doomed[OF _ assms] by (cases "doomed st i") (auto simp: check_then_def check_healthy)
  moreover have "fst (check_then i (Inr b) st) = Inr a \<Longrightarrow> snd (check_then i (Inr b) st) = st" for b
    using check_doomed[OF _ assms] by (cases "doomed st i") (auto simp: check_then_def check_healthy)
  ultimately show "fst (after_wait i wins ft src env st) = Inr a \<longleftrightarrow>
      av_outcome env = Operation_done (Inr a) \<and> \<not> doomed st i"
    "fst (after_wait i wins ft src env st) = Inr a \<Longrightarrow> snd (after_wait i wins ft src env st) = st"
    by (auto simp: after_wait_def check_then_Inl Let_def split: wait_outcome.splits sum.splits prod.splits if_splits)
qed

lemma effective_timeout_healthy:
  assumes "\<not> doomed st i"
  shows "snd (effective_timeout i ceil st) = st" and "\<exists>r. fst (effective_timeout i None st) = Inr r"
  by (auto simp: effective_timeout_def remaining_time_def sync_parent_healthy[OF assms] expire_healthy[OF assms]
      check_healthy[OF assms] Let_def split: option.splits)

text \<open>Without a positive timeout no value comes back; with one the wait is entered.\<close>

lemma await_not_entered:
  assumes "\<not> doomed st i"
    and "\<And>eff. fst (effective_timeout i ceil st) = Inr eff \<Longrightarrow> \<exists>e. eff = Some e \<and> e \<le> 0"
  shows "fst (await_with_control i ceil ft src env st) \<noteq> Inr a"
proof -
  obtain r where r: "effective_timeout i None st = (Inr r, st)"
    using effective_timeout_healthy[OF assms(1)] by (metis prod.collapse)
  show ?thesis
  proof (cases "fst (effective_timeout i ceil st)")
    case (Inl e)
    then have "effective_timeout i ceil st = (Inl e, st)"
      using effective_timeout_healthy(1)[OF assms(1), of ceil] by (metis prod.collapse)
    then show ?thesis by (simp add: await_with_control_def check_healthy[OF assms(1)] r)
  next
    case (Inr eff)
    with assms(2) obtain e where e: "eff = Some e" "e \<le> 0" by blast
    have "effective_timeout i ceil st = (Inr eff, st)"
      using Inr effective_timeout_healthy(1)[OF assms(1), of ceil] by (metis prod.collapse)
    with e show ?thesis
      by (simp add: await_with_control_def check_healthy[OF assms(1)] r check_then_Inl Let_def)
  qed
qed

lemma await_entered:
  assumes "\<not> doomed st i"
    and "fst (effective_timeout i ceil st) = Inr eff" and "\<not> (\<exists>e. eff = Some e \<and> e \<le> 0)"
  shows "\<exists>wins. await_with_control i ceil ft src env st = wait_under i wins ft src (env eff) st"
proof -
  obtain r where r: "effective_timeout i None st = (Inr r, st)"
    using effective_timeout_healthy[OF assms(1)] by (metis prod.collapse)
  have "effective_timeout i ceil st = (Inr eff, st)"
    using assms(2) effective_timeout_healthy(1)[OF assms(1), of ceil] by (metis prod.collapse)
  with assms(3) show ?thesis
    by (auto simp: await_with_control_def check_healthy[OF assms(1)] r Let_def split: option.split)
qed

lemma await_doomed:
  assumes "doomed st i" and "store_ok st" and "i < length (cs_tokens st)"
  shows "fst (await_with_control i ceil ft src env st) \<noteq> Inr a"
  using check_doomed[OF assms] by (auto simp: await_with_control_def)

lemma wait_under_Inr:
  fixes env :: "('e, 'a) await_env"
  assumes "store_ok st" and "i < length (cs_tokens st)"
  defines "st1 \<equiv> fold control_op_step (av_during env) st"
  shows "fst (wait_under i wins ft src env st) = Inr a \<longleftrightarrow>
      av_outcome env = Operation_done (Inr a) \<and> \<not> doomed st1 i \<and> \<not> av_interrupted env"
    and "fst (wait_under i wins ft src env st) = Inr a \<Longrightarrow>
      snd (wait_under i wins ft src env st) = fold control_op_step (av_unwind env) st1"
proof -
  have f: "store_ok st1" "i < length (cs_tokens st1)"
    using control_session_ok[OF assms(1), of "av_during env"] assms(2) by (auto simp: st1_def evolves_def)
  note w = after_wait_Inr[OF f, of wins ft src env a]
  show iff: "fst (wait_under i wins ft src env st) = Inr a \<longleftrightarrow>
      av_outcome env = Operation_done (Inr a) \<and> \<not> doomed st1 i \<and> \<not> av_interrupted env"
    using w(1) by (auto simp: wait_under_def unwind_def Let_def st1_def)
  show "snd (wait_under i wins ft src env st) = fold control_op_step (av_unwind env) st1"
    if "fst (wait_under i wins ft src env st) = Inr a"
    using that iff w by (simp add: wait_under_def unwind_def Let_def st1_def)
qed

text \<open>A root with ten seconds and an attempt derived with three, for the witnesses.\<close>

definition sample_ops :: "control_op list" where
  "sample_ops = [New_root ''run'' None (Some 10) None, Derive 0 (Some ''a'') None (Some 3)]"

definition sample_store :: control_store where
  "sample_store = fold control_op_step sample_ops (empty_store 0 100)"

lemma sample_store_facts:
  "length (cs_tokens sample_store) = 2" "tk_parent (tok sample_store 1) = Some 0"
  "tk_deadline (tok sample_store 1) = Some 3"
  by code_simp+

lemma sample_ancestor: "ancestor sample_store 1 0"
  by (rule ancestor_step[OF sample_store_facts(2) ancestor_self])

section \<open>Properties\<close>

text \<open>A derived token never outlives its ancestors. In every store the runtime can build, by any
  interleaving of new roots, derivations, cancellations, checks, waiters and time, the deadline
  of a token is at most that of each ancestor (and present if the ancestor has one), and a
  whole chain shares one root run.\<close>

theorem deadline_within_ancestors:
  assumes "st = fold control_op_step xs (empty_store now wall)"
    and "i < length (cs_tokens st)" and "ancestor st i j"
  shows "dl_le (tk_deadline (tok st i)) (tk_deadline (tok st j)) \<and>
    tk_root_run (tok st i) = tk_root_run (tok st j)"
  using ancestor_deadline[OF assms(3) _ assms(2)] control_session_ok[OF store_ok_empty] assms(1) by simp

theorem deadline_within_ancestors_witness:
  "dl_le (tk_deadline (tok sample_store 1)) (tk_deadline (tok sample_store 0))"
  using deadline_within_ancestors[OF sample_store_def _ sample_ancestor] sample_store_facts(1) by simp

text \<open>A control boundary is terminal exactly when it should be. In every store the runtime can
  build, checking a token raises if and only if the token or one of its ancestors was cancelled
  or is past its deadline; otherwise the check changes nothing.\<close>

theorem check_raises_iff_terminal:
  assumes "st = fold control_op_step xs (empty_store now wall)"
    and "i < length (cs_tokens st)"
  shows "((\<exists>e. fst (check i st) = Inl e) \<longleftrightarrow>
      (\<exists>j. ancestor st i j \<and> (tk_cancelled (tok st j) \<or> deadline_passed st j))) \<and>
    (fst (check i st) = Inr () \<longrightarrow> snd (check i st) = st)"
proof (intro conjI impI)
  have ok: "store_ok st" using control_session_ok[OF store_ok_empty] assms(1) by simp
  have "(\<exists>e. fst (check i st) = Inl e) \<longleftrightarrow> fst (check i st) \<noteq> Inr ()"
    by (cases "fst (check i st)") auto
  then show "(\<exists>e. fst (check i st) = Inl e) \<longleftrightarrow>
      (\<exists>j. ancestor st i j \<and> (tk_cancelled (tok st j) \<or> deadline_passed st j))"
    unfolding doomed_iff_ancestor[symmetric] using check_iff[OF ok assms(2)] by simp
  show "snd (check i st) = st" if "fst (check i st) = Inr ()"
    using that check_iff[OF ok assms(2)] check_healthy by simp
qed

theorem check_raises_iff_terminal_witness:
  "(\<exists>e. fst (check 1 sample_store) = Inl e) \<longleftrightarrow>
   (\<exists>j. ancestor sample_store 1 j \<and> (tk_cancelled (tok sample_store j) \<or> deadline_passed sample_store j))"
  using check_raises_iff_terminal[OF sample_store_def, of 1] sample_store_facts(1) by simp

text \<open>The first cancellation wins. Once a token is cancelled, its reason, source and time stamp
  never change, whatever follows, and cancelling it again reports that nothing happened.\<close>

theorem first_cancellation_wins:
  assumes "st = fold control_op_step xs (empty_store now wall)"
    and "i < length (cs_tokens st)" and "tk_cancelled (tok st i)"
    and "st' = fold control_op_step ys st"
  shows "tk_cancelled (tok st' i) \<and> tk_reason (tok st' i) = tk_reason (tok st i) \<and>
    tk_source (tok st' i) = tk_source (tok st i) \<and> tk_cancelled_at (tok st' i) = tk_cancelled_at (tok st i) \<and>
    cancel i ''USER_CANCEL'' ''caller'' st' = (Inr False, st')"
proof -
  have ok: "store_ok st" using control_session_ok[OF store_ok_empty] assms(1) by simp
  have "kept (tok st i) (tok st' i)"
    using control_session_ok[OF ok, of ys] assms(2,4) by (simp add: evolves_def)
  with assms(3) show ?thesis
    by (simp add: kept_def cancel_def terminate_def valid_cancellation_reasons_def)
qed

theorem first_cancellation_wins_witness:
  "tk_reason (tok (fold control_op_step [Cancel 0 ''SHUTDOWN'' ''x'', Check 1]
     (fold control_op_step (sample_ops @ [Cancel 1 ''USER_CANCEL'' ''ui'']) (empty_store 0 100))) 1) = Some ''USER_CANCEL''"
proof -
  let ?st = "fold control_op_step (sample_ops @ [Cancel 1 ''USER_CANCEL'' ''ui'']) (empty_store 0 100)"
  have "1 < length (cs_tokens ?st)" "tk_cancelled (tok ?st 1)" "tk_reason (tok ?st 1) = Some ''USER_CANCEL''"
    by code_simp+
  with first_cancellation_wins[OF refl this(1,2), of _ "[Cancel 0 ''SHUTDOWN'' ''x'', Check 1]", OF refl]
  show ?thesis by metis
qed

text \<open>The timeout granted to a component is bounded by its local ceiling and by the deadline of
  every ancestor, and is only granted while the whole chain is active.\<close>

theorem timeout_within_root_deadline:
  assumes "st = fold control_op_step xs (empty_store now wall)"
    and "i < length (cs_tokens st)" and "effective_timeout i ceil st = (Inr r, st')"
  shows "(\<forall>j. ancestor st i j \<longrightarrow> dl_le (map_option (\<lambda>t. cs_now st + t) r) (tk_deadline (tok st j))) \<and>
    dl_le r ceil \<and> \<not> doomed st i"
proof (intro conjI allI impI)
  have ok: "store_ok st" using control_session_ok[OF store_ok_empty] assms(1) by simp
  have h: "\<not> doomed st i" using remaining_time_healthy[OF assms(3)[unfolded effective_timeout_def] ok assms(2)] by simp
  have nd: "\<not> deadline_passed st i" using h by (auto intro: doomed.intros)
  have r: "(case tk_deadline (tok st i) of None \<Rightarrow> r = ceil
      | Some d \<Rightarrow> r = Some (case ceil of None \<Rightarrow> d - cs_now st | Some c \<Rightarrow> min (d - cs_now st) c))"
    using assms(3) nd
    by (auto simp: effective_timeout_def remaining_time_def sync_parent_healthy[OF h] expire_healthy[OF h]
        check_healthy[OF h] deadline_passed_def Let_def split: option.splits if_splits)
  have own: "dl_le (map_option (\<lambda>t. cs_now st + t) r) (tk_deadline (tok st i))"
    using r by (auto simp: dl_le_def split: option.splits)
  show "dl_le (map_option (\<lambda>t. cs_now st + t) r) (tk_deadline (tok st j))" if "ancestor st i j" for j
    using ancestor_deadline[OF that ok assms(2)] own by (blast intro: dl_le_trans)
  show "dl_le r ceil" using r by (auto simp: dl_le_def split: option.splits)
  show "\<not> doomed st i" by (rule h)
qed

theorem timeout_within_root_deadline_witness:
  "dl_le (map_option (\<lambda>t. cs_now sample_store + t) (Some 2)) (tk_deadline (tok sample_store 0))"
proof -
  let ?e = "effective_timeout 1 (Some 2) sample_store"
  have "fst ?e = Inr (Some 2)" by code_simp
  then have "?e = (Inr (Some 2), snd ?e)" by (metis prod.collapse)
  from timeout_within_root_deadline[OF sample_store_def _ this] sample_ancestor sample_store_facts(1)
  show ?thesis by simp
qed

text \<open>C32: No result of a terminated operation. Awaiting an operation under a token returns a value
  if and only if neither the token nor an ancestor was cancelled or past its deadline when the
  wait began, the wait was granted a positive timeout, the operation itself won the race with
  that value, neither the token nor an ancestor was cancelled or past its deadline at the check
  that follows the race, whatever the runtime did to the tokens during the wait, and the
  awaiting task was not cancelled while the finally block suspended. Then the tokens are as that
  check left them, changed only by what the runtime did during this last suspension, after
  which nothing is checked.\<close>

theorem no_late_result:
  assumes "st = fold control_op_step xs (empty_store now wall)"
    and "i < length (cs_tokens st)"
  shows "(fst (await_with_control i ceil failure_type source env st) = Inr a \<longleftrightarrow>
      (\<exists>effective. fst (effective_timeout i ceil st) = Inr effective \<and> \<not> (\<exists>t. effective = Some t \<and> t \<le> 0) \<and>
        \<not> (\<exists>j. ancestor st i j \<and> (tk_cancelled (tok st j) \<or> deadline_passed st j)) \<and>
        av_outcome (env effective) = Operation_done (Inr a) \<and>
        (let st1 = fold control_op_step (av_during (env effective)) st
         in \<not> (\<exists>j. ancestor st1 i j \<and> (tk_cancelled (tok st1 j) \<or> deadline_passed st1 j))) \<and>
        \<not> av_interrupted (env effective))) \<and>
    (fst (await_with_control i ceil failure_type source env st) = Inr a \<longrightarrow>
      (\<exists>effective. fst (effective_timeout i ceil st) = Inr effective \<and>
        snd (await_with_control i ceil failure_type source env st) =
          fold control_op_step (av_unwind (env effective)) (fold control_op_step (av_during (env effective)) st)))"
proof -
  have ok: "store_ok st" using control_session_ok[OF store_ok_empty] assms(1) by simp
  let ?A = "await_with_control i ceil failure_type source env st"
  show ?thesis
  proof (cases "doomed st i")
    case True
    then show ?thesis
      using await_doomed[OF True ok assms(2), of ceil failure_type source env a] by (auto simp: doomed_iff_ancestor[symmetric])
  next
    case False
    show ?thesis
    proof (cases "\<exists>eff. fst (effective_timeout i ceil st) = Inr eff \<and> \<not> (\<exists>t. eff = Some t \<and> t \<le> 0)")
      case True
      then obtain eff where eff: "fst (effective_timeout i ceil st) = Inr eff" "\<not> (\<exists>t. eff = Some t \<and> t \<le> 0)" by blast
      from await_entered[OF False eff] obtain wins where
        A: "?A = wait_under i wins failure_type source (env eff) st" by blast
      have only: "\<And>x. Inr eff = Inr x \<longleftrightarrow> x = eff" by auto
      show ?thesis
        using eff(2) False wait_under_Inr[OF ok assms(2), of wins failure_type source "env eff" a]
        unfolding A Let_def doomed_iff_ancestor[symmetric] eff(1) only by simp
    next
      case no: False
      have "fst ?A \<noteq> Inr a"
      proof (rule await_not_entered[OF False])
        show "\<exists>e. eff = Some e \<and> e \<le> 0" if "fst (effective_timeout i ceil st) = Inr eff" for eff
          using no that by simp
      qed
      moreover have "(\<exists>eff. fst (effective_timeout i ceil st) = Inr eff \<and> \<not> (\<exists>t. eff = Some t \<and> t \<le> 0) \<and> P eff) \<longleftrightarrow> False" for P
        using no by simp
      ultimately show ?thesis by (simp only: simp_thms)
    qed
  qed
qed

theorem no_late_result_witness:
  "fst (await_with_control 1 None ''OPERATION_TIMEOUT'' ''tool''
     (\<lambda>_. \<lparr>av_during = [Advance 1], av_outcome = Operation_done (Inr ''ok'') :: (string, string) wait_outcome,
           av_drain = [], av_unwind = [], av_interrupted = False, av_late_drain = []\<rparr>) sample_store) = Inr ''ok'' \<and>
   \<not> (\<exists>j. ancestor sample_store 1 j \<and> (tk_cancelled (tok sample_store j) \<or> deadline_passed sample_store j))"
proof -
  let ?env = "\<lambda>_ :: rat option. \<lparr>av_during = [Advance 1], av_outcome = Operation_done (Inr ''ok'') :: (string, string) wait_outcome,
           av_drain = [], av_unwind = [], av_interrupted = False, av_late_drain = []\<rparr>"
  have "fst (await_with_control 1 None ''OPERATION_TIMEOUT'' ''tool'' ?env sample_store) = Inr ''ok''" by code_simp
  with no_late_result[OF sample_store_def, of 1 None "''OPERATION_TIMEOUT''" "''tool''" ?env "''ok''"] sample_store_facts(1)
  show ?thesis by auto
qed

text \<open>The suspension of the finally block is not covered: when the root is cancelled there, and a check
  has already observed it, the value is returned all the same.\<close>

theorem late_result_after_unwind:
  "let r = await_with_control 1 None ''OPERATION_TIMEOUT'' ''tool''
     (\<lambda>_. \<lparr>av_during = [Advance 1], av_outcome = Operation_done (Inr ''ok'') :: (string, string) wait_outcome,
           av_drain = [], av_unwind = [Cancel 0 ''USER_CANCEL'' ''ui'', Check 1], av_interrupted = False,
           av_late_drain = []\<rparr>) sample_store
   in fst r = Inr ''ok'' \<and> tk_cancelled (tok (snd r) 1) \<and> (\<exists>e. fst (check 1 (snd r)) = Inl e)"
proof -
  let ?r = "await_with_control 1 None ''OPERATION_TIMEOUT'' ''tool''
     (\<lambda>_. \<lparr>av_during = [Advance 1], av_outcome = Operation_done (Inr ''ok'') :: (string, string) wait_outcome,
           av_drain = [], av_unwind = [Cancel 0 ''USER_CANCEL'' ''ui'', Check 1], av_interrupted = False,
           av_late_drain = []\<rparr>) sample_store"
  have "fst ?r = Inr ''ok''" by code_simp
  moreover have "tk_cancelled (tok (snd ?r) 1)" by code_simp
  moreover have "isl (fst (check 1 (snd ?r)))" by code_simp
  ultimately show ?thesis by (auto simp: Let_def isl_def)
qed

text \<open>A component that runs into its own local ceiling is reported as the root deadline: for a
  token derived with a ceiling from an active root that has no deadline at all, a check after
  the ceiling has passed fails with ROOT_DEADLINE_EXCEEDED while the root itself still
  checks out as active.\<close>

theorem local_ceiling_reported_as_root_deadline:
  assumes "0 \<le> c" and "c \<le> d"
  shows "let st0 = snd (new_token ''run'' None None None None (empty_store now wall));
             st1 = advance d (snd (derive 0 None None (Some c) st0))
         in (case fst (check 1 st1) of Inl e \<Rightarrow> ce_type e | Inr _ \<Rightarrow> []) = ''ROOT_DEADLINE_EXCEEDED'' \<and>
            fst (check 0 (snd (check 1 st1))) = Inr ()"
proof -
  define t0 where "t0 = \<lparr>tk_run = ''run'', tk_root_run = ''run'', tk_attempt = None, tk_parent = None,
     tk_deadline = None, tk_wall_deadline = None, tk_cancelled = False, tk_reason = None,
     tk_source = None, tk_cancelled_at = None, tk_children = [1], tk_waiters = []\<rparr>"
  define st0 where "st0 = snd (new_token ''run'' None None None None (empty_store now wall))"
  have orphan: "\<not> doomed st 0" if "\<not> tk_cancelled (tok st 0)" "tk_deadline (tok st 0) = None" "tk_parent (tok st 0) = None"
    for st using that by (auto elim: doomed.cases simp: deadline_passed_def)
  have "check 0 st0 = (Inr (), st0)"
    by (rule check_healthy, rule orphan) (simp_all add: st0_def new_token_def empty_store_def Let_def)
  then obtain t1 where d: "snd (derive 0 None None (Some c) st0) =
      \<lparr>cs_tokens = [t0, t1], cs_now = now, cs_wall = wall, cs_events = {}\<rparr>"
      "tk_parent t1 = Some 0" "tk_deadline t1 = Some (now + c)" "\<not> tk_cancelled t1" "tk_reason t1 = None"
      "tk_children t1 = []" "tk_waiters t1 = []"
    by (simp add: derive_def st0_def new_token_def empty_store_def Let_def min_deadline_def set_token_def t0_def or_str_def)
  define st1 where "st1 = advance d (snd (derive 0 None None (Some c) st0))"
  have toks: "cs_tokens st1 = [t0, t1]" "cs_now st1 = now + d"
    using d(1) assms by (simp_all add: advance_def st1_def)
  have t1: "tok st1 1 = t1" "tk_parent (tok st1 1) = Some 0" "deadline_passed st1 1"
    using assms d by (simp_all add: toks deadline_passed_def)
  have c0: "check 0 st1 = (Inr (), st1)"
    by (rule check_healthy, rule orphan) (simp_all add: toks t0_def)
  have "expire_if_needed 1 st1 = snd (terminate 1 ''ROOT_DEADLINE_EXCEEDED'' ''deadline'' st1)"
    using t1(1,3) d(4) by (simp add: expire_if_needed_def)
  then have c1: "check 1 st1 = raise_if_cancelled 1 (snd (terminate 1 ''ROOT_DEADLINE_EXCEEDED'' ''deadline'' st1))"
    unfolding check.simps[of 1 st1] t1(2) by (simp add: c0 after_parent_def)
  then have e: "(case fst (check 1 st1) of Inl e \<Rightarrow> ce_type e | Inr _ \<Rightarrow> []) = ''ROOT_DEADLINE_EXCEEDED''"
    by (simp add: raise_if_cancelled_def terminate_def toks d failure_of_def or_str_def Let_def)
  have "cs_tokens (snd (check 1 st1)) ! 0 = t0"
    unfolding c1 by (simp add: raise_if_cancelled_def terminate_def toks d set_token_def)
  then have "check 0 (snd (check 1 st1)) = (Inr (), snd (check 1 st1))"
    by (intro check_healthy orphan) (simp_all add: t0_def)
  with e show ?thesis by (simp add: Let_def st0_def st1_def)
qed

theorem local_ceiling_reported_as_root_deadline_witness:
  "fst (check 0 (snd (check 1 (advance 5 (snd (derive 0 None None (Some 3)
     (snd (new_token ''run'' None None None None (empty_store 0 100))))))))) = Inr ()"
  using local_ceiling_reported_as_root_deadline[of 3 5] by (simp add: Let_def)

end
