(* ===== verification/TaskGraph.thy ===== *)
theory TaskGraph imports Enums begin

text \<open>
  \<open>src/lhas/planning/models.py\<close>: plan steps and plans, their validation, semantic
  fingerprints, the eligibility and transition authority, and the repair scope of a failure.

  \<^item> The models are records; a plan's steps are a list, and \<open>by_id\<close> is the association list
    from ids to steps that the code builds (a later step with the same id wins).
  \<^item> Creation times are left out; nothing reads them. SHA-256 is the parameter \<open>sha\<close>.
  \<^item> Comparing values of incomparable types raises TypeError in Python: comparisons return an
    option, and the operations that use them a sum.
  \<^item> Where the code iterates over a set of ids, the model iterates over a list of them.
\<close>

section \<open>Data\<close>

datatype plan_mode = LINEAR | SIMPLE_DEPENDENCY

datatype plan_status =
    Plan_DRAFT | Plan_READY | Plan_RUNNING | Plan_COMPLETED | Plan_FAILED
  | Plan_WAITING_FOR_HUMAN_APPROVAL | Plan_WAITING_FOR_VERIFICATION

datatype step_status =
    Step_PENDING | Step_PLANNED | Step_READY | Step_RUNNING | Step_CLAIMED_COMPLETE | Step_COMPLETED
  | Step_VERIFIED | Step_FAILED | Step_BLOCKED | Step_CLASSIFIED_FAILURE | Step_PRECONDITION_FAILED
  | Step_WAITING_FOR_HUMAN_APPROVAL | Step_WAITING_FOR_VERIFICATION | Step_STALE

fun step_status_value :: "step_status \<Rightarrow> string" where
  "step_status_value Step_PENDING = ''PENDING''"
| "step_status_value Step_PLANNED = ''PLANNED''"
| "step_status_value Step_READY = ''READY''"
| "step_status_value Step_RUNNING = ''RUNNING''"
| "step_status_value Step_CLAIMED_COMPLETE = ''CLAIMED_COMPLETE''"
| "step_status_value Step_COMPLETED = ''COMPLETED''"
| "step_status_value Step_VERIFIED = ''VERIFIED''"
| "step_status_value Step_FAILED = ''FAILED''"
| "step_status_value Step_BLOCKED = ''BLOCKED''"
| "step_status_value Step_CLASSIFIED_FAILURE = ''CLASSIFIED_FAILURE''"
| "step_status_value Step_PRECONDITION_FAILED = ''PRECONDITION_FAILED''"
| "step_status_value Step_WAITING_FOR_HUMAN_APPROVAL = ''WAITING_FOR_HUMAN_APPROVAL''"
| "step_status_value Step_WAITING_FOR_VERIFICATION = ''WAITING_FOR_VERIFICATION''"
| "step_status_value Step_STALE = ''STALE''"

record goal =
  gl_id :: string
  gl_project :: string
  gl_objective :: string
  gl_constraints :: "string list"
  gl_success_criteria :: "string list"
  gl_allowed :: "string list"
  gl_requires_approval :: bool
  gl_metadata :: pydict

datatype pc_operator =
    Op_eq | Op_neq | Op_gt | Op_lt | Op_gte | Op_lte | Op_in | Op_notin | Op_truthy | Op_falsy

fun pc_operator_value :: "pc_operator \<Rightarrow> string" where
  "pc_operator_value Op_eq = ''eq''"
| "pc_operator_value Op_neq = ''neq''"
| "pc_operator_value Op_gt = ''gt''"
| "pc_operator_value Op_lt = ''lt''"
| "pc_operator_value Op_gte = ''gte''"
| "pc_operator_value Op_lte = ''lte''"
| "pc_operator_value Op_in = ''in''"
| "pc_operator_value Op_notin = ''notin''"
| "pc_operator_value Op_truthy = ''truthy''"
| "pc_operator_value Op_falsy = ''falsy''"

record precondition =
  pc_key :: string
  pc_operator :: pc_operator
  pc_value :: pyval
  pc_description :: string

record plan_step =
  ps_id :: string
  ps_title :: string
  ps_objective :: string
  ps_capability :: string
  ps_depends :: "string list"
  ps_inputs :: pydict
  ps_expected_output :: string
  ps_success_criteria :: "string list"
  ps_role :: string
  ps_required :: "string list"
  ps_skills :: "string list"
  ps_status :: step_status
  ps_task :: "string option"
  ps_output :: pyval
  ps_context :: pydict
  ps_fingerprint :: "string option"
  ps_preconditions :: "precondition list"
  ps_effects :: pydict
  ps_evidence :: pydict
  ps_risk :: string
  ps_budget :: pydict
  ps_checkpoint :: string
  ps_recovery :: string

record plan =
  pl_id :: string
  pl_goal :: string
  pl_version :: string
  pl_mode :: plan_mode
  pl_status :: plan_status
  pl_steps :: "plan_step list"
  pl_metadata :: pydict
  pl_invalidated :: "string list"
  pl_replan_count :: nat

text \<open>A step as the model's defaults leave it.\<close>

definition plain_step :: "string \<Rightarrow> string \<Rightarrow> string list \<Rightarrow> plan_step" where
  "plain_step i cap deps =
     \<lparr>ps_id = i, ps_title = i, ps_objective = i, ps_capability = cap, ps_depends = deps, ps_inputs = [],
      ps_expected_output = [], ps_success_criteria = [], ps_role = ''WORKER'', ps_required = [],
      ps_skills = [], ps_status = Step_PENDING, ps_task = None, ps_output = PNone, ps_context = [],
      ps_fingerprint = None, ps_preconditions = [], ps_effects = [], ps_evidence = [], ps_risk = ''LOW'',
      ps_budget = [], ps_checkpoint = ''ON_FAILURE'', ps_recovery = ''RETRY_WITH_FAILURE_CONTEXT''\<rparr>"

type_synonym step_index = "(string \<times> plan_step) list"

definition index_steps :: "plan_step list \<Rightarrow> step_index" where
  "index_steps steps = fold (\<lambda>s. AList.update (ps_id s) s) steps []"

section \<open>Semantic fingerprints\<close>

fun semantic_value :: "pyval \<Rightarrow> pyval" where
  "semantic_value (PStr s) = PStr (casefold (join '' '' (split_ws s)))"
| "semantic_value (PDict d) = PDict (sort_key fst (map (\<lambda>(k, v). (k, semantic_value v)) d))"
| "semantic_value (PList xs) = PList (map semantic_value xs)"
| "semantic_value v = v"

definition str_list :: "string list \<Rightarrow> pyval" where
  "str_list xs = PList (map PStr xs)"

definition dump_precondition :: "precondition \<Rightarrow> pyval" where
  "dump_precondition pc =
     PDict [(''key'', PStr (pc_key pc)), (''operator'', PStr (pc_operator_value (pc_operator pc))),
            (''value'', pc_value pc), (''description'', PStr (pc_description pc))]"

definition dump_preconditions :: "precondition list \<Rightarrow> pyval" where
  "dump_preconditions pcs = PList (map dump_precondition pcs)"

text \<open>The fields a fingerprint takes from a step and, less two, from its dependencies.\<close>

definition semantic_fields :: "plan_step \<Rightarrow> pydict" where
  "semantic_fields s =
     [(''capability'', semantic_value (PStr (ps_capability s))),
      (''objective'', semantic_value (PStr (ps_objective s))),
      (''inputs'', semantic_value (PDict (ps_inputs s))),
      (''success_criteria'', semantic_value (str_list (ps_success_criteria s))),
      (''expected_effects'', semantic_value (PDict (ps_effects s))),
      (''preconditions'', semantic_value (dump_preconditions (ps_preconditions s))),
      (''risk_class'', semantic_value (PStr (ps_risk s))),
      (''required_capabilities'', semantic_value (str_list (ps_required s)))]"

text \<open>
  The recursion stops at a step whose id was already seen; every other call adds an id of the
  index (or that of the first step) to \<open>seen\<close>.
\<close>

function fingerprint :: "(string \<Rightarrow> string) \<Rightarrow> step_index \<Rightarrow> string set \<Rightarrow> plan_step \<Rightarrow> string" where
  "fingerprint sha by_id seen s =
     (let deps = (if ps_id s \<in> seen then []
                  else map (\<lambda>d. case map_of by_id d of
                         None \<Rightarrow> PDict [(''id'', PStr d)]
                       | Some dep \<Rightarrow> PDict (semantic_fields dep @
                           [(''depends_on'', PList [PStr
                              (if d \<notin> insert (ps_id s) seen then fingerprint sha by_id (insert (ps_id s) seen) dep
                               else ''cycle'')])])) (ps_depends s))
      in stable_hash sha (PDict (semantic_fields s @
           [(''checkpoint_policy'', semantic_value (PStr (ps_checkpoint s))),
            (''recovery_policy'', semantic_value (PStr (ps_recovery s))),
            (''dependency_semantics'', PList deps)])))"
  by pat_completeness auto
termination
proof (relation "measure (\<lambda>(sha, by_id, seen, s). card (insert (ps_id s) (ps_id ` snd ` set by_id) - seen))", goal_cases)
  case 1
  show ?case by simp
next
  case (2 sha by_id seen s d dep)
  then have "ps_id dep \<in> ps_id ` snd ` set by_id" by (force dest: map_of_SomeD)
  moreover have "ps_id s \<in> insert (ps_id s) (ps_id ` snd ` set by_id) - seen" using 2 by simp
  ultimately have "insert (ps_id dep) (ps_id ` snd ` set by_id) - insert (ps_id s) seen \<subset>
      insert (ps_id s) (ps_id ` snd ` set by_id) - seen" by blast
  then show ?case by (simp add: psubset_card_mono)
qed

declare fingerprint.simps [simp del]

definition step_fingerprint :: "(string \<Rightarrow> string) \<Rightarrow> plan_step \<Rightarrow> step_index \<Rightarrow> string" where
  "step_fingerprint sha s by_id = fingerprint sha by_id {} s"

section \<open>Validation\<close>

datatype plan_error =
    Self_dependency string
  | Duplicate_dependency string
  | Duplicate_step_ids
  | Unknown_dependencies string
  | Cyclic_dependencies
  | Visit_out_of_fuel

definition validate_step :: "plan_step \<Rightarrow> plan_error + plan_step" where
  "validate_step s =
     (if ps_id s \<in> set (ps_depends s) then Inl (Self_dependency (ps_id s))
      else if \<not> distinct (ps_depends s) then Inl (Duplicate_dependency (ps_id s))
      else Inr s)"

definition depends_of :: "plan_step list \<Rightarrow> string \<Rightarrow> string list" where
  "depends_of steps i =
     (case map_of (index_steps steps) i of None \<Rightarrow> [] | Some s \<Rightarrow> ps_depends s)"

text \<open>
  \<open>visit\<close>: \<open>visiting\<close> is the current path and \<open>visited\<close> the finished ids, newest first. The
  path holds distinct step ids, so a budget of one more than the number of steps is enough.
\<close>

primrec visit_all ::
  "(string \<Rightarrow> string list \<Rightarrow> plan_error + string list) \<Rightarrow> string list \<Rightarrow> string list \<Rightarrow>
   plan_error + string list"
where
  "visit_all f [] visited = Inr visited"
| "visit_all f (d # ds) visited = (case f d visited of Inl e \<Rightarrow> Inl e | Inr v \<Rightarrow> visit_all f ds v)"

primrec visit ::
  "(string \<Rightarrow> string list) \<Rightarrow> nat \<Rightarrow> string list \<Rightarrow> string \<Rightarrow> string list \<Rightarrow> plan_error + string list"
where
  "visit deps 0 visiting i visited = Inl Visit_out_of_fuel"
| "visit deps (Suc n) visiting i visited =
     (if i \<in> set visiting then Inl Cyclic_dependencies
      else if i \<in> set visited then Inr visited
      else (case visit_all (visit deps n (i # visiting)) (deps i) visited of
              Inl e \<Rightarrow> Inl e | Inr v \<Rightarrow> Inr (i # v)))"

definition check_dependencies :: "plan_step list \<Rightarrow> plan_error + unit" where
  "check_dependencies steps =
     (let ids = map ps_id steps in
      if \<not> distinct ids then Inl Duplicate_step_ids
      else case List.find (\<lambda>s. \<not> set (ps_depends s) \<subseteq> set ids) steps of
             Some s \<Rightarrow> Inl (Unknown_dependencies (ps_id s))
           | None \<Rightarrow>
               (case visit_all (visit (depends_of steps) (Suc (length ids)) []) ids [] of
                  Inl e \<Rightarrow> Inl e | Inr _ \<Rightarrow> Inr ()))"

definition with_fingerprints :: "(string \<Rightarrow> string) \<Rightarrow> plan_step list \<Rightarrow> plan_step list" where
  "with_fingerprints sha steps =
     map (\<lambda>s. s\<lparr>ps_fingerprint := Some (step_fingerprint sha s (index_steps steps))\<rparr>) steps"

definition validate_plan :: "(string \<Rightarrow> string) \<Rightarrow> plan \<Rightarrow> plan_error + plan" where
  "validate_plan sha p =
     (case check_dependencies (pl_steps p) of
        Inl e \<Rightarrow> Inl e
      | Inr _ \<Rightarrow> Inr (p\<lparr>pl_steps := with_fingerprints sha (pl_steps p)\<rparr>))"

section \<open>Preconditions\<close>

text \<open>Python's \<open><\<close>: numbers, strings and lists of comparable values; otherwise TypeError.\<close>

function (sequential) py_lt :: "pyval \<Rightarrow> pyval \<Rightarrow> bool option" where
  "py_lt (PStr s) (PStr t) = Some (s < t)"
| "py_lt (PList []) (PList ys) = Some (ys \<noteq> [])"
| "py_lt (PList (x # xs)) (PList []) = Some False"
| "py_lt (PList (x # xs)) (PList (y # ys)) =
     (if py_eq x y then py_lt (PList xs) (PList ys) else py_lt x y)"
| "py_lt v w = (case (py_num v, py_num w) of (Some i, Some j) \<Rightarrow> Some (i < j) | _ \<Rightarrow> None)"
  by pat_completeness auto
termination by (relation "measure (\<lambda>(a, b). size a)") auto

text \<open>Python's \<open>v in (expected or [])\<close>.\<close>

definition py_in :: "pyval \<Rightarrow> pyval \<Rightarrow> bool option" where
  "py_in v expected =
     (if \<not> py_truthy expected then Some False
      else case expected of
             PList xs \<Rightarrow> Some (list_ex (py_eq v) xs)
           | PDict d \<Rightarrow> (case v of PStr s \<Rightarrow> Some (has_key d s) | PList _ \<Rightarrow> None | PDict _ \<Rightarrow> None | _ \<Rightarrow> Some False)
           | PStr s \<Rightarrow> (case v of PStr t \<Rightarrow> Some (contains t s) | _ \<Rightarrow> None)
           | _ \<Rightarrow> None)"

fun navigate :: "pyval \<Rightarrow> string list \<Rightarrow> pyval" where
  "navigate v [] = v"
| "navigate (PDict d) (k # ks) = (case map_of d k of None \<Rightarrow> PNone | Some w \<Rightarrow> navigate w ks)"
| "navigate _ (k # ks) = PNone"

definition evaluate_precondition :: "precondition \<Rightarrow> pydict \<Rightarrow> bool option" where
  "evaluate_precondition pc ctx =
     (let v = navigate (PDict ctx) (split_on (CHR ''.'') (pc_key pc)); e = pc_value pc in
      case pc_operator pc of
        Op_eq \<Rightarrow> Some (py_eq v e)
      | Op_neq \<Rightarrow> Some (\<not> py_eq v e)
      | Op_gt \<Rightarrow> if v = PNone then Some False else py_lt e v
      | Op_lt \<Rightarrow> if v = PNone then Some False else py_lt v e
      | Op_gte \<Rightarrow> if v = PNone then Some False else map_option Not (py_lt v e)
      | Op_lte \<Rightarrow> if v = PNone then Some False else map_option Not (py_lt e v)
      | Op_in \<Rightarrow> py_in v e
      | Op_notin \<Rightarrow> map_option Not (py_in v e)
      | Op_truthy \<Rightarrow> Some (py_truthy v)
      | Op_falsy \<Rightarrow> Some (\<not> py_truthy v))"

fun precondition_results :: "precondition list \<Rightarrow> pydict \<Rightarrow> (precondition \<times> bool) list option" where
  "precondition_results [] ctx = Some []"
| "precondition_results (pc # pcs) ctx =
     (case evaluate_precondition pc ctx of
        None \<Rightarrow> None
      | Some b \<Rightarrow> map_option (\<lambda>rs. (pc, b) # rs) (precondition_results pcs ctx))"

definition decision_context :: "(precondition \<times> bool) list \<Rightarrow> pydict" where
  "decision_context rs =
     [(''preconditions'', PList (map (\<lambda>(pc, b). PDict
         [(''key'', PStr (pc_key pc)), (''operator'', PStr (pc_operator_value (pc_operator pc))),
          (''expected'', pc_value pc), (''passed'', PBool b), (''description'', PStr (pc_description pc))]) rs)),
      (''all_passed'', PBool (list_all snd rs))]"

definition evaluate_step_preconditions ::
  "precondition list \<Rightarrow> pydict \<Rightarrow> (bool \<times> pydict) option" where
  "evaluate_step_preconditions pcs ctx =
     map_option (\<lambda>rs. (list_all snd rs, decision_context rs)) (precondition_results pcs ctx)"

section \<open>Eligibility\<close>

datatype evaluation_phase = SCHEDULING | DISPATCH

definition terminal_verified :: "step_status set" where
  "terminal_verified = {Step_VERIFIED, Step_COMPLETED}"

definition failed_or_blocked :: "step_status set" where
  "failed_or_blocked = {Step_FAILED, Step_BLOCKED, Step_CLASSIFIED_FAILURE}"

definition active_statuses :: "step_status set" where
  "active_statuses = {Step_RUNNING, Step_READY, Step_CLAIMED_COMPLETE, Step_WAITING_FOR_VERIFICATION}"

fun dependency_obstacle :: "step_index \<Rightarrow> string list \<Rightarrow> string option" where
  "dependency_obstacle by_id [] = None"
| "dependency_obstacle by_id (d # ds) =
     (case map_of by_id d of
        None \<Rightarrow> Some (''missing_dependency_'' @ d)
      | Some dep \<Rightarrow>
          if ps_status dep \<in> failed_or_blocked then Some (''dependency_'' @ d @ ''_failed'')
          else if ps_status dep \<noteq> Step_VERIFIED then Some (''dependency_'' @ d @ ''_not_verified'')
          else dependency_obstacle by_id ds)"

definition phase_preconditions :: "evaluation_phase \<Rightarrow> plan_step \<Rightarrow> precondition list" where
  "phase_preconditions ph s =
     (case ph of
        SCHEDULING \<Rightarrow> [pc \<leftarrow> ps_preconditions s. \<not> prefix ''runtime.'' (pc_key pc)]
      | DISPATCH \<Rightarrow> ps_preconditions s)"

text \<open>
  \<open>sink\<close> is the plan id when an event store was passed with one. The result is \<open>Inl\<close> when a
  precondition compares incomparable values.
\<close>

definition evaluate_step_eligibility ::
  "plan_step \<Rightarrow> step_index \<Rightarrow> pydict \<Rightarrow> string option \<Rightarrow> evaluation_phase \<Rightarrow> event_log \<Rightarrow>
   (unit + bool \<times> string) \<times> event_log"
where
  "evaluate_step_eligibility s by_id ctx sink ph log =
     (if ps_status s \<in> active_statuses then
        (Inr (False, ''already_'' @ casefold (step_status_value (ps_status s))), log)
      else if ps_status s \<in> terminal_verified then (Inr (False, ''already_completed''), log)
      else if ps_status s \<in> failed_or_blocked \<union> {Step_STALE, Step_PRECONDITION_FAILED} then
        (Inr (False, ''not_eligible_'' @ casefold (step_status_value (ps_status s))), log)
      else case dependency_obstacle by_id (ps_depends s) of
             Some r \<Rightarrow> (Inr (False, r), log)
           | None \<Rightarrow>
               (case evaluate_step_preconditions (phase_preconditions ph s) ctx of
                  None \<Rightarrow> (Inl (), log)
                | Some (True, _) \<Rightarrow> (Inr (True, ''all_conditions_met''), log)
                | Some (False, pctx) \<Rightarrow>
                    (Inr (False, ''precondition_failed''),
                     case sink of
                       None \<Rightarrow> log
                     | Some pid \<Rightarrow> emit (Ev_Graph STEP_PRECONDITION_FAILED)
                         [(''plan_id'', PStr pid), (''step_id'', PStr (ps_id s)),
                          (''precondition_context'', PDict pctx)] log)))"

definition transition_step ::
  "step_status \<Rightarrow> string \<Rightarrow> string option \<Rightarrow> pydict \<Rightarrow> plan_step \<Rightarrow> event_log \<Rightarrow> plan_step \<times> event_log"
where
  "transition_step new reason plan_id extra s log =
     (if ps_status s = new then (s, log)
      else (s\<lparr>ps_status := new\<rparr>,
            emit (Ev_Graph STEP_STATE_TRANSITION)
              (dict_merge
                [(''step_id'', PStr (ps_id s)), (''previous_status'', PStr (step_status_value (ps_status s))),
                 (''new_status'', PStr (step_status_value new)), (''reason'', PStr reason),
                 (''plan_id'', opt_str plan_id)] extra) log))"

section \<open>The index of a plan\<close>

lemma map_of_index_fold:
  "map_of (fold (\<lambda>s. AList.update (ps_id s) s) steps acc) i =
     (case List.find (\<lambda>s. ps_id s = i) (rev steps) of Some s \<Rightarrow> Some s | None \<Rightarrow> map_of acc i)"
proof (induction steps arbitrary: acc)
  case (Cons s steps)
  have "List.find P (xs @ [s]) = (case List.find P xs of Some y \<Rightarrow> Some y | None \<Rightarrow> if P s then Some s else None)"
    for P xs by (induction xs) auto
  with Cons show ?case by (auto split: option.splits)
qed simp

lemma map_of_index: "map_of (index_steps steps) i = List.find (\<lambda>s. ps_id s = i) (rev steps)"
  by (simp add: index_steps_def map_of_index_fold split: option.splits)

lemma map_of_index_Some:
  "map_of (index_steps steps) i = Some s \<Longrightarrow> s \<in> set steps \<and> ps_id s = i"
  unfolding map_of_index by (drule find_Some_set) simp

lemma map_of_index_None: "map_of (index_steps steps) i = None \<longleftrightarrow> i \<notin> ps_id ` set steps"
  unfolding map_of_index by (auto simp: find_None_iff_all)

lemma map_of_index_distinct:
  assumes "distinct (map ps_id steps)" and "s \<in> set steps"
  shows "map_of (index_steps steps) (ps_id s) = Some s"
proof -
  obtain t where t: "map_of (index_steps steps) (ps_id s) = Some t"
    using assms(2) map_of_index_None[of steps "ps_id s"] by (cases "map_of (index_steps steps) (ps_id s)") auto
  with map_of_index_Some[OF t] assms have "t = s" by (auto simp: distinct_map dest: inj_onD)
  with t show ?thesis by simp
qed

section \<open>Acyclicity\<close>

text \<open>An edge leads from a step to a step it depends on.\<close>

definition dep_edges :: "plan_step list \<Rightarrow> (string \<times> string) set" where
  "dep_edges steps = {(ps_id s, d) | s d. s \<in> set steps \<and> d \<in> set (ps_depends s)}"

lemma dep_edgesI: "s \<in> set steps \<Longrightarrow> d \<in> set (ps_depends s) \<Longrightarrow> (ps_id s, d) \<in> dep_edges steps"
  by (auto simp: dep_edges_def)

lemma dep_edges_depends_of:
  assumes "distinct (map ps_id steps)"
  shows "dep_edges steps = {(i, d). d \<in> set (depends_of steps i)}"
proof -
  have "(i, d) \<in> dep_edges steps \<longleftrightarrow> d \<in> set (depends_of steps i)" for i d
  proof
    assume "(i, d) \<in> dep_edges steps"
    then obtain s where "s \<in> set steps" "i = ps_id s" "d \<in> set (ps_depends s)" by (auto simp: dep_edges_def)
    with map_of_index_distinct[OF assms] show "d \<in> set (depends_of steps i)" by (simp add: depends_of_def)
  next
    assume "d \<in> set (depends_of steps i)"
    then obtain s where "map_of (index_steps steps) i = Some s" "d \<in> set (ps_depends s)"
      by (cases "map_of (index_steps steps) i") (auto simp: depends_of_def)
    with map_of_index_Some[of steps i s] show "(i, d) \<in> dep_edges steps" by (auto simp: dep_edges_def)
  qed
  then show ?thesis by auto
qed

fun topo :: "(string \<Rightarrow> string list) \<Rightarrow> string list \<Rightarrow> bool" where
  "topo deps [] = True"
| "topo deps (x # xs) = (set (deps x) \<subseteq> set xs \<and> topo deps xs)"

lemma topo_acyclic:
  assumes "topo deps xs"
  shows "(\<forall>x\<in>set xs. \<forall>y. (x, y) \<in> {(i, d). d \<in> set (deps i)}\<^sup>+ \<longrightarrow> y \<in> set xs) \<and>
    (\<forall>x\<in>set xs. (x, x) \<notin> {(i, d). d \<in> set (deps i)}\<^sup>+)"
  using assms
proof (induction xs)
  case (Cons x xs)
  let ?R = "{(i, d). d \<in> set (deps i)}"
  from Cons have ih: "\<And>z y. z \<in> set xs \<Longrightarrow> (z, y) \<in> ?R\<^sup>+ \<Longrightarrow> y \<in> set xs"
    "\<And>z. z \<in> set xs \<Longrightarrow> (z, z) \<notin> ?R\<^sup>+" by auto
  have out: "y \<in> set xs" if "(x, y) \<in> ?R\<^sup>+" for y
  proof -
    from that obtain z where z: "(x, z) \<in> ?R" "z = y \<or> (z, y) \<in> ?R\<^sup>+"
      by (auto elim: converse_tranclE)
    then have "z \<in> set xs" using Cons.prems by auto
    with z(2) ih(1) show ?thesis by blast
  qed
  have "(x, x) \<notin> ?R\<^sup>+"
    using out ih(2) by (cases "x \<in> set xs") blast+
  with out ih show ?case by auto
qed simp

lemma visit_all_sound:
  assumes "\<And>d vs vs'. f d vs = Inr vs' \<Longrightarrow> topo deps vs \<Longrightarrow> topo deps vs' \<and> set vs \<subseteq> set vs' \<and> d \<in> set vs'"
    and "visit_all f ds vs = Inr vs'" and "topo deps vs"
  shows "topo deps vs' \<and> set vs \<subseteq> set vs' \<and> set ds \<subseteq> set vs'"
  using assms(2,3)
proof (induction ds arbitrary: vs)
  case (Cons d ds)
  then obtain v1 where v1: "f d vs = Inr v1" "visit_all f ds v1 = Inr vs'" by (auto split: sum.splits)
  from assms(1)[OF v1(1) Cons.prems(2)] Cons.IH[OF v1(2)] show ?case by auto
qed simp

lemma visit_sound:
  "visit deps n st x vs = Inr vs' \<Longrightarrow> topo deps vs \<Longrightarrow>
   topo deps vs' \<and> set vs \<subseteq> set vs' \<and> x \<in> set vs'"
proof (induction n arbitrary: st x vs vs')
  case (Suc n)
  show ?case
  proof (cases "x \<in> set vs")
    case True
    with Suc.prems show ?thesis by (auto split: if_splits)
  next
    case False
    then obtain v where v: "visit_all (visit deps n (x # st)) (deps x) vs = Inr v" "vs' = x # v"
      using Suc.prems(1) by (auto split: if_splits sum.splits)
    have "topo deps v \<and> set vs \<subseteq> set v \<and> set (deps x) \<subseteq> set v"
      by (rule visit_all_sound[OF _ v(1) Suc.prems(2)]) (rule Suc.IH)
    with v(2) show ?thesis by auto
  qed
qed simp

lemma visit_all_error:
  "visit_all f ds vs = Inl e \<Longrightarrow> \<exists>d\<in>set ds. \<exists>vs1. f d vs1 = Inl e"
  by (induction ds arbitrary: vs) (auto split: sum.splits)

lemma visit_cycle:
  assumes "visit deps n st x vs = Inl Cyclic_dependencies"
    and "\<forall>s\<in>set st. (s, x) \<in> {(i, d). d \<in> set (deps i)}\<^sup>+"
  shows "\<exists>y. (y, y) \<in> {(i, d). d \<in> set (deps i)}\<^sup>+"
  using assms
proof (induction n arbitrary: st x vs)
  case (Suc n)
  let ?R = "{(i, d). d \<in> set (deps i)}"
  show ?case
  proof (cases "x \<in> set st")
    case True
    with Suc.prems(2) show ?thesis by blast
  next
    case False
    with Suc.prems(1) obtain d v1 where d: "d \<in> set (deps x)"
        "visit deps n (x # st) d v1 = Inl Cyclic_dependencies"
      by (auto dest!: visit_all_error split: if_splits sum.splits)
    have "(x, d) \<in> ?R" using d(1) by simp
    then have "\<forall>s\<in>set (x # st). (s, d) \<in> ?R\<^sup>+"
      using Suc.prems(2) by (auto intro: trancl_into_trancl)
    from Suc.IH[OF d(2) this] show ?thesis .
  qed
qed simp

lemma visit_error:
  "visit deps n st x vs = Inl e \<Longrightarrow> e = Cyclic_dependencies \<or> e = Visit_out_of_fuel"
proof (induction n arbitrary: st x vs)
  case (Suc n)
  then show ?case by (auto dest!: visit_all_error split: if_splits sum.splits)
qed simp

lemma visit_fuel:
  assumes "finite U" and "\<And>y. y \<in> U \<Longrightarrow> set (deps y) \<subseteq> U"
    and "x \<in> U" and "card (U - set st) < n"
  shows "visit deps n st x vs \<noteq> Inl Visit_out_of_fuel"
  using assms(3,4)
proof (induction n arbitrary: st x vs)
  case (Suc n)
  show ?case
  proof (cases "x \<in> set st")
    case False
    have "U - set (x # st) \<subset> U - set st" using Suc.prems(1) False by auto
    then have "card (U - set (x # st)) < card (U - set st)"
      using assms(1) by (simp add: psubset_card_mono)
    then have "card (U - set (x # st)) < n" using Suc.prems(2) by simp
    from Suc.IH[OF _ this] assms(2)[OF Suc.prems(1)]
    have "d \<in> set (deps x) \<Longrightarrow> visit deps n (x # st) d v \<noteq> Inl Visit_out_of_fuel" for d v by blast
    with False show ?thesis by (auto dest!: visit_all_error split: sum.splits)
  qed simp
qed simp

lemma check_dependencies_iff:
  "check_dependencies steps = Inr () \<longleftrightarrow>
     distinct (map ps_id steps) \<and> (\<forall>s\<in>set steps. set (ps_depends s) \<subseteq> ps_id ` set steps) \<and>
     acyclic (dep_edges steps)"
proof (cases "distinct (map ps_id steps) \<and> (\<forall>s\<in>set steps. set (ps_depends s) \<subseteq> ps_id ` set steps)")
  case False
  then show ?thesis
    by (auto simp: check_dependencies_def Let_def find_None_iff_all split: option.splits)
next
  case True
  let ?deps = "depends_of steps" and ?ids = "map ps_id steps"
  let ?R = "{(i, d). d \<in> set (?deps i)}"
  let ?v = "visit_all (visit ?deps (Suc (length ?ids)) []) ?ids []"
  have R: "dep_edges steps = ?R" using dep_edges_depends_of True by blast
  have "List.find (\<lambda>s. \<not> set (ps_depends s) \<subseteq> set ?ids) steps = None"
    using True by (simp add: find_None_iff_all)
  then have cd: "check_dependencies steps = Inr () \<longleftrightarrow> (\<exists>vs. ?v = Inr vs)"
    using True by (auto simp: check_dependencies_def Let_def split: sum.splits)
  show ?thesis
  proof (cases ?v)
    case (Inr vs)
    have "topo ?deps vs \<and> set [] \<subseteq> set vs \<and> set ?ids \<subseteq> set vs"
      by (rule visit_all_sound[OF _ Inr]) (erule (1) visit_sound, simp)
    then have vs: "topo ?deps vs" "set ?ids \<subseteq> set vs" by auto
    have "(x, x) \<notin> ?R\<^sup>+" for x
    proof
      assume c: "(x, x) \<in> ?R\<^sup>+"
      then have "\<exists>d. d \<in> set (?deps x)" by (auto elim: converse_tranclE)
      then have "x \<in> ps_id ` set steps"
        using map_of_index_None[of steps x] by (auto simp: depends_of_def split: option.splits)
      then have "x \<in> set vs" using vs(2) by auto
      with topo_acyclic[OF vs(1)] c show False by blast
    qed
    with Inr cd True R show ?thesis by (auto simp: acyclic_def)
  next
    case (Inl e)
    from visit_all_error[OF Inl] obtain i vs where i: "i \<in> set ?ids"
        "visit ?deps (Suc (length ?ids)) [] i vs = Inl e" by blast
    have closed: "set (?deps y) \<subseteq> set ?ids" if "y \<in> set ?ids" for y
      using True map_of_index_Some[of steps y] by (auto simp: depends_of_def split: option.splits)
    have "visit ?deps (Suc (length ?ids)) [] i vs \<noteq> Inl Visit_out_of_fuel"
    proof (rule visit_fuel[OF finite_set[of ?ids] _ i(1)])
      show "set (?deps y) \<subseteq> set ?ids" if "y \<in> set ?ids" for y using closed that .
      show "card (set ?ids - set []) < Suc (length ?ids)"
        using le_imp_less_Suc[OF card_length[of ?ids]] by (metis Diff_empty list.set(1))
    qed
    with visit_error[OF i(2)] i(2) have "e = Cyclic_dependencies" by auto
    with visit_cycle[OF i(2)[unfolded this]] have "\<not> acyclic ?R" by (auto simp: acyclic_def)
    with Inl cd R show ?thesis by simp
  qed
qed

section \<open>Lemmas on eligibility and transitions\<close>

lemma dependency_obstacle_None:
  "dependency_obstacle by_id ds = None \<longleftrightarrow>
     (\<forall>d\<in>set ds. \<exists>dep. map_of by_id d = Some dep \<and> ps_status dep = Step_VERIFIED)"
  by (induction ds) (auto simp: failed_or_blocked_def split: option.splits)

lemma status_partition:
  "ps_status s \<notin> active_statuses \<and> ps_status s \<notin> terminal_verified \<and>
   ps_status s \<notin> failed_or_blocked \<union> {Step_STALE, Step_PRECONDITION_FAILED} \<longleftrightarrow>
   ps_status s \<in> {Step_PENDING, Step_PLANNED, Step_WAITING_FOR_HUMAN_APPROVAL}"
  by (cases "ps_status s") (simp_all add: active_statuses_def terminal_verified_def failed_or_blocked_def)

lemma transition_step_facts [simp]:
  "ps_status (fst (transition_step st r pid x s log)) = st"
  "ps_id (fst (transition_step st r pid x s log)) = ps_id s"
  "fst (transition_step st r pid x s log) = s\<lparr>ps_status := st\<rparr>"
  by (simp_all add: transition_step_def)

lemma transition_step_log:
  "prefix log (snd (transition_step st r pid x s log)) \<and> (log_ok log \<longrightarrow> log_ok (snd (transition_step st r pid x s log)))"
  by (simp add: transition_step_def emit_def prefix_store_append log_ok_append)

section \<open>Properties\<close>

text \<open>C1: A plan is accepted exactly when it is a task graph: validation succeeds if and only if
  step ids are unique, every dependency names a step of the plan, and the dependency relation
  is acyclic (so the depth-first search neither misses a cycle nor reports one that is not
  there, and never runs out of its budget).\<close>

theorem plan_accepted_iff_dag:
  "(\<exists>q. validate_plan sha p = Inr q) \<longleftrightarrow>
     distinct (map ps_id (pl_steps p)) \<and>
     (\<forall>s\<in>set (pl_steps p). set (ps_depends s) \<subseteq> ps_id ` set (pl_steps p)) \<and>
     acyclic (dep_edges (pl_steps p))"
  using check_dependencies_iff[of "pl_steps p"]
  by (auto simp: validate_plan_def split: sum.splits)

theorem plan_accepted_iff_dag_witness:
  "acyclic (dep_edges [plain_step ''a'' ''x'' [], plain_step ''b'' ''y'' [''a'']]) \<and>
   \<not> acyclic (dep_edges [plain_step ''a'' ''x'' [''b''], plain_step ''b'' ''y'' [''a'']])"
proof -
  let ?ok = "\<lparr>pl_id = ''p'', pl_goal = ''g'', pl_version = ''P-0.1'', pl_mode = LINEAR, pl_status = Plan_READY,
    pl_steps = [plain_step ''a'' ''x'' [], plain_step ''b'' ''y'' [''a'']], pl_metadata = [],
    pl_invalidated = [], pl_replan_count = 0\<rparr>"
  let ?bad = "?ok\<lparr>pl_steps := [plain_step ''a'' ''x'' [''b''], plain_step ''b'' ''y'' [''a'']]\<rparr>"
  have "check_dependencies (pl_steps ?ok) = Inr ()" "isl (check_dependencies (pl_steps ?bad))" by code_simp+
  then have "\<exists>q. validate_plan (\<lambda>_. ''h'') ?ok = Inr q" "\<not> (\<exists>q. validate_plan (\<lambda>_. ''h'') ?bad = Inr q)"
    by (auto simp: validate_plan_def isl_def)
  with plan_accepted_iff_dag[of "\<lambda>_. ''h''" ?ok] plan_accepted_iff_dag[of "\<lambda>_. ''h''" ?bad]
  show ?thesis by (simp add: plain_step_def)
qed

lemma eligibility_true:
  "(\<exists>r. fst (evaluate_step_eligibility s by_id ctx sink ph log) = Inr (True, r)) \<longleftrightarrow>
     (ps_status s \<notin> active_statuses \<and> ps_status s \<notin> terminal_verified \<and>
      ps_status s \<notin> failed_or_blocked \<union> {Step_STALE, Step_PRECONDITION_FAILED}) \<and>
     dependency_obstacle by_id (ps_depends s) = None \<and>
     (\<exists>c. evaluate_step_preconditions (phase_preconditions ph s) ctx = Some (True, c))"
  by (auto simp: evaluate_step_eligibility_def split: option.splits bool.splits)

lemma eligibility_log:
  "snd (evaluate_step_eligibility s by_id ctx sink ph log) =
     (case sink of
        None \<Rightarrow> log
      | Some pid \<Rightarrow>
          if (ps_status s \<notin> active_statuses \<and> ps_status s \<notin> terminal_verified \<and>
              ps_status s \<notin> failed_or_blocked \<union> {Step_STALE, Step_PRECONDITION_FAILED}) \<and>
             dependency_obstacle by_id (ps_depends s) = None
          then (case evaluate_step_preconditions (phase_preconditions ph s) ctx of
                  Some (False, pctx) \<Rightarrow>
                    emit (Ev_Graph STEP_PRECONDITION_FAILED)
                      [(''plan_id'', PStr pid), (''step_id'', PStr (ps_id s)),
                       (''precondition_context'', PDict pctx)] log
                | _ \<Rightarrow> log)
          else log)"
  unfolding evaluate_step_eligibility_def
  by (auto split: option.splits prod.splits bool.splits)

text \<open>C2: Eligibility has one authority and it is exact: a step is eligible if and only if it is
  PENDING, PLANNED or waiting for approval, every step it depends on is known and VERIFIED (a
  legacy COMPLETED dependency does not count), and every precondition of the phase holds in
  the given context. Asking has one effect on the event log, and only when a sink is given: if
  the status and the dependencies are right and a precondition is false, one
  STEP_PRECONDITION_FAILED event with the plan, the step and what the precondition saw is
  appended; in every other case the log is what it was.\<close>

theorem eligible_iff:
  "((\<exists>r. fst (evaluate_step_eligibility s by_id ctx sink ph log) = Inr (True, r)) \<longleftrightarrow>
     ps_status s \<in> {Step_PENDING, Step_PLANNED, Step_WAITING_FOR_HUMAN_APPROVAL} \<and>
     (\<forall>d\<in>set (ps_depends s). \<exists>dep. map_of by_id d = Some dep \<and> ps_status dep = Step_VERIFIED) \<and>
     (\<exists>c. evaluate_step_preconditions (phase_preconditions ph s) ctx = Some (True, c))) \<and>
   snd (evaluate_step_eligibility s by_id ctx sink ph log) =
     (case sink of
        None \<Rightarrow> log
      | Some pid \<Rightarrow>
          if ps_status s \<in> {Step_PENDING, Step_PLANNED, Step_WAITING_FOR_HUMAN_APPROVAL} \<and>
             (\<forall>d\<in>set (ps_depends s). \<exists>dep. map_of by_id d = Some dep \<and> ps_status dep = Step_VERIFIED)
          then (case evaluate_step_preconditions (phase_preconditions ph s) ctx of
                  Some (False, pctx) \<Rightarrow>
                    emit (Ev_Graph STEP_PRECONDITION_FAILED)
                      [(''plan_id'', PStr pid), (''step_id'', PStr (ps_id s)),
                       (''precondition_context'', PDict pctx)] log
                | _ \<Rightarrow> log)
          else log)"
  unfolding eligibility_true eligibility_log status_partition dependency_obstacle_None by (intro conjI refl)

theorem eligible_iff_witness:
  "(\<exists>r. fst (evaluate_step_eligibility (plain_step ''b'' ''y'' [''a''])
     [(''a'', (plain_step ''a'' ''x'' [])\<lparr>ps_status := Step_VERIFIED\<rparr>)] [] (Some ''p'') SCHEDULING []) = Inr (True, r)) \<and>
   snd (evaluate_step_eligibility (plain_step ''b'' ''y'' [''a''])
     [(''a'', (plain_step ''a'' ''x'' [])\<lparr>ps_status := Step_VERIFIED\<rparr>)] [] (Some ''p'') SCHEDULING []) = []"
proof -
  let ?s = "plain_step ''b'' ''y'' [''a'']" and ?ix = "[(''a'', (plain_step ''a'' ''x'' [])\<lparr>ps_status := Step_VERIFIED\<rparr>)]"
  obtain c where "evaluate_step_preconditions (phase_preconditions SCHEDULING ?s) [] = Some (True, c)"
    by (simp add: plain_step_def phase_preconditions_def evaluate_step_preconditions_def)
  moreover have "ps_status ?s = Step_PENDING" "ps_depends ?s = [''a'']"
    "map_of ?ix ''a'' = Some ((plain_step ''a'' ''x'' [])\<lparr>ps_status := Step_VERIFIED\<rparr>)"
    by (simp_all add: plain_step_def)
  ultimately show ?thesis
    using eligible_iff[of ?s ?ix "[]" "Some ''p''" SCHEDULING "[]"] by simp
qed

end
