(* ===== verification/RepairScope.thy ===== *)
theory RepairScope imports TaskGraph begin

text \<open>
  The repair scope authority of \<open>src/lhas/planning/models.py\<close>: the hint attached to a failure,
  the transitive dependents of a step, the scope decision, and the invalidation of the affected
  subgraph.
\<close>

section \<open>Hints\<close>

datatype repair_scope = LOCAL | AFFECTED_SUBGRAPH | MACRO_REPLAN

definition macro_replan_types :: "failure_type list" where
  "macro_replan_types =
     [FT_QUOTA_EXHAUSTED, FT_BILLING_OR_CREDIT_EXHAUSTED, FT_AUTH_INVALID, FT_PROVIDER_UNAVAILABLE,
      FT_PROVIDER_TIMEOUT, FT_MALFORMED_PROVIDER_RESPONSE, FT_UNKNOWN_PROVIDER_FAILURE,
      FT_BUDGET_EXHAUSTED, FT_NETWORK_ERROR]"

definition affected_subgraph_types :: "failure_type list" where
  "affected_subgraph_types = [FT_WRONG_ASSUMPTION, FT_STALE_CONTEXT, FT_CONTEXT_CONFLICT]"

definition compute_repair_scope_hint :: "failure_class \<Rightarrow> failure_type \<Rightarrow> bool \<Rightarrow> repair_scope" where
  "compute_repair_scope_hint fc ft has_downstream =
     (if ft \<in> set macro_replan_types then MACRO_REPLAN
      else if ft \<in> set affected_subgraph_types then AFFECTED_SUBGRAPH
      else LOCAL)"

section \<open>Dependents\<close>

text \<open>\<open>reverse_deps\<close>: the steps that name a known step among their dependencies.\<close>

definition reverse_deps :: "plan_step list \<Rightarrow> string \<Rightarrow> string list" where
  "reverse_deps steps i =
     (if i \<in> ps_id ` set steps then remdups [ps_id s. s \<leftarrow> steps, i \<in> set (ps_depends s)] else [])"

text \<open>The breadth-first search: a queue and the dependents found so far.\<close>

function bfs :: "plan_step list \<Rightarrow> string list \<Rightarrow> string list \<Rightarrow> string list" where
  "bfs steps [] found = found"
| "bfs steps (c # queue) found =
     (if c \<in> set found then bfs steps queue found
      else bfs steps (queue @ [d \<leftarrow> reverse_deps steps c. d \<notin> set (c # found)]) (c # found))"
  by pat_completeness auto
termination
proof (relation "measures [\<lambda>(steps, queue, found). card (ps_id ` set steps - set found), \<lambda>(steps, queue, found). length queue]", goal_cases)
  case 1
  show ?case by simp
next
  case (2 steps c queue found)
  then show ?case by simp
next
  case (3 steps c queue found)
  show ?case
  proof (cases "c \<in> ps_id ` set steps")
    case True
    then have "ps_id ` set steps - set (c # found) \<subset> ps_id ` set steps - set found" using 3 by auto
    then have "card (ps_id ` set steps - set (c # found)) < card (ps_id ` set steps - set found)"
      by (simp add: psubset_card_mono)
    then show ?thesis by simp
  next
    case False
    then have "ps_id ` set steps - set (c # found) = ps_id ` set steps - set found" by auto
    moreover have "reverse_deps steps c = []" using False by (auto simp: reverse_deps_def)
    ultimately show ?thesis by simp
  qed
qed

definition get_dependents :: "string \<Rightarrow> plan \<Rightarrow> string list" where
  "get_dependents i p = bfs (pl_steps p) (reverse_deps (pl_steps p) i) []"

section \<open>Scope\<close>

definition systemic_error_types :: "string list" where
  "systemic_error_types =
     [''QUOTA_EXHAUSTED'', ''PROVIDER_UNAVAILABLE'', ''AUTH_INVALID'', ''BILLING_OR_CREDIT_EXHAUSTED'',
      ''UNKNOWN_PROVIDER_FAILURE'', ''PROVIDER_TIMEOUT'']"

definition assumption_invalidating_error_types :: "string list" where
  "assumption_invalidating_error_types =
     [''WRONG_ASSUMPTION'', ''ASSUMPTION_INVALID'', ''INVALID_ASSUMPTION'', ''STALE_CONTEXT'',
      ''CONTEXT_CONFLICT'', ''MISSING_CONTEXT'', ''CONTEXT_OVERLOAD'']"

text \<open>
  The failure class arrives as its value string. The source's second systemic test is implied
  by its first, and every remaining branch returns LOCAL.
\<close>

definition compute_repair_scope ::
  "plan_step \<Rightarrow> plan \<Rightarrow> string option \<Rightarrow> string option \<Rightarrow> repair_scope \<times> string list" where
  "compute_repair_scope failed p fc et =
     (let dependents = get_dependents (ps_id failed) p;
          etv = (if et = None \<or> et = Some [] then [] else upper (the et))
      in if etv \<in> set systemic_error_types then (MACRO_REPLAN, [])
         else if dependents = [] then (LOCAL, [ps_id failed])
         else if etv \<in> set assumption_invalidating_error_types then
           (AFFECTED_SUBGRAPH, ps_id failed # dependents)
         else if fc \<in> {Some (failure_class_value FC_CONTEXT), Some (failure_class_value FC_REASONING)} then
           (AFFECTED_SUBGRAPH, ps_id failed # dependents)
         else (LOCAL, [ps_id failed]))"

section \<open>Invalidation\<close>

text \<open>Replace the step that \<open>by_id\<close> finds: the last one with the id.\<close>

fun set_last_step :: "plan_step \<Rightarrow> plan_step list \<Rightarrow> plan_step list" where
  "set_last_step s [] = []"
| "set_last_step s (t # ts) =
     (if ps_id t = ps_id s \<and> ps_id s \<notin> ps_id ` set ts then s # ts else t # set_last_step s ts)"

definition invalidate_step ::
  "string \<Rightarrow> string \<Rightarrow> plan_step list \<times> event_log \<times> string list \<Rightarrow> plan_step list \<times> event_log \<times> string list"
where
  "invalidate_step pid i st =
     (case st of (steps, log, invalidated) \<Rightarrow>
        (case map_of (index_steps steps) i of
           None \<Rightarrow> st
         | Some s \<Rightarrow>
             if ps_status s = Step_STALE then (steps, log, i # invalidated)
             else let (s', log') = transition_step Step_STALE ''repair_scope_invalidation'' (Some pid) [] s log
                  in (set_last_step s' steps, log', i # invalidated)))"

definition invalidate_affected_subgraph ::
  "plan \<Rightarrow> string list \<Rightarrow> event_log \<Rightarrow> string list \<times> plan \<times> event_log" where
  "invalidate_affected_subgraph p affected log =
     (let (steps, log', invalidated) = fold (invalidate_step (pl_id p)) affected (pl_steps p, log, [])
      in (invalidated, p\<lparr>pl_steps := steps\<rparr>, log'))"

section \<open>Dependents are the transitive ones\<close>

text \<open>Edges between known steps.\<close>

definition known_edges :: "plan_step list \<Rightarrow> (string \<times> string) set" where
  "known_edges steps = {(x, d). (x, d) \<in> dep_edges steps \<and> d \<in> ps_id ` set steps}"

lemma set_reverse_deps: "set (reverse_deps steps i) = {x. (x, i) \<in> known_edges steps}"
  by (auto simp: reverse_deps_def known_edges_def dep_edges_def)

lemma known_edges_source: "(x, d) \<in> known_edges steps \<Longrightarrow> x \<in> ps_id ` set steps"
  by (auto simp: known_edges_def dep_edges_def)

text \<open>Loop invariant: what is found or queued reaches the start, and found nodes are expanded.\<close>

lemma bfs_sound:
  assumes "set queue \<union> set found \<subseteq> {x. (x, i) \<in> (known_edges steps)\<^sup>+}"
  shows "set (bfs steps queue found) \<subseteq> {x. (x, i) \<in> (known_edges steps)\<^sup>+}"
  using assms
proof (induction steps queue found rule: bfs.induct)
  case (2 steps c queue found)
  show ?case
  proof (cases "c \<in> set found")
    case True
    with 2 show ?thesis by simp
  next
    case False
    have "(d, i) \<in> (known_edges steps)\<^sup>+" if "(d, c) \<in> known_edges steps" for d
      using that "2.prems" by (auto intro: trancl_into_trancl2)
    with 2 False show ?thesis by (auto simp: set_reverse_deps)
  qed
qed simp

lemma bfs_complete:
  assumes "\<And>x y. y \<in> set found \<Longrightarrow> (x, y) \<in> known_edges steps \<Longrightarrow> x \<in> set found \<union> set queue"
    and "y \<in> set (bfs steps queue found)" and "(x, y) \<in> known_edges steps"
  shows "x \<in> set (bfs steps queue found)"
  using assms
proof (induction steps queue found rule: bfs.induct)
  case (1 steps found)
  then show ?case by auto
next
  case (2 steps c queue found)
  show ?case
  proof (cases "c \<in> set found")
    case True
    with 2 show ?thesis by (metis UnCI UnE bfs.simps(2) set_ConsD insert_iff list.simps(15))
  next
    case False
    let ?q = "queue @ [d \<leftarrow> reverse_deps steps c. d \<notin> set (c # found)]"
    have "x \<in> set (c # found) \<union> set ?q" if "y \<in> set (c # found)" "(x, y) \<in> known_edges steps" for x y
      using that 2(3)[of y x] by (auto simp: set_reverse_deps)
    with 2(2)[OF False] 2(4,5) False show ?thesis by simp
  qed
qed

lemma bfs_contains: "set queue \<union> set found \<subseteq> set (bfs steps queue found)"
proof (induction steps queue found rule: bfs.induct)
  case (2 steps c queue found)
  then show ?case by (cases "c \<in> set found") auto
qed simp

lemma set_get_dependents: "set (get_dependents i p) = {x. (x, i) \<in> (known_edges (pl_steps p))\<^sup>+}"
proof
  let ?E = "known_edges (pl_steps p)"
  show "set (get_dependents i p) \<subseteq> {x. (x, i) \<in> ?E\<^sup>+}"
    unfolding get_dependents_def by (rule bfs_sound) (auto simp: set_reverse_deps)
  have "x \<in> set (get_dependents i p)" if "(x, i) \<in> ?E\<^sup>+" for x
    using that
  proof (induction rule: converse_trancl_induct)
    case (base y)
    then show ?case
      unfolding get_dependents_def using bfs_contains by (force simp: set_reverse_deps)
  next
    case (step y z)
    show ?case
      unfolding get_dependents_def
      by (rule bfs_complete[OF _ step(3)[unfolded get_dependents_def] step(1)]) simp
  qed
  then show "{x. (x, i) \<in> ?E\<^sup>+} \<subseteq> set (get_dependents i p)" by blast
qed

section \<open>Invalidation, step by step\<close>

definition mark_stale :: "string set \<Rightarrow> plan_step list \<Rightarrow> plan_step list" where
  "mark_stale A steps = map (\<lambda>t. if ps_id t \<in> A then t\<lparr>ps_status := Step_STALE\<rparr> else t) steps"

lemma set_last_step_distinct:
  "distinct (map ps_id steps) \<Longrightarrow>
   set_last_step s steps = map (\<lambda>t. if ps_id t = ps_id s then s else t) steps"
proof (induction steps)
  case (Cons t ts)
  show ?case
  proof (cases "ps_id t = ps_id s")
    case True
    with Cons.prems have no: "ps_id s \<notin> ps_id ` set ts" by auto
    then have "map (\<lambda>t. if ps_id t = ps_id s then s else t) ts = ts"
      by (intro map_idI) (auto simp: image_iff)
    with True no show ?thesis by simp
  qed (use Cons in simp)
qed simp

lemma ids_mark_stale [simp]: "map ps_id (mark_stale A steps) = map ps_id steps"
  by (induction steps) (simp_all add: mark_stale_def)

lemma id_set_mark_stale [simp]: "ps_id ` set (mark_stale A steps) = ps_id ` set steps"
  by (metis ids_mark_stale list.set_map)

lemma mark_stale_empty [simp]: "mark_stale {} steps = steps"
  by (simp add: mark_stale_def)

lemma marked_unique:
  assumes "distinct (map ps_id steps)" and "t \<in> set steps"
    and "map_of (index_steps (mark_stale A steps)) (ps_id t) = Some s"
  shows "s = (if ps_id t \<in> A then t\<lparr>ps_status := Step_STALE\<rparr> else t)"
proof -
  let ?m = "if ps_id t \<in> A then t\<lparr>ps_status := Step_STALE\<rparr> else t"
  have m: "?m \<in> set (mark_stale A steps)" "ps_id ?m = ps_id t" using assms(2) by (auto simp: mark_stale_def)
  have "distinct (map ps_id (mark_stale A steps))" using assms(1) by simp
  from map_of_index_distinct[OF this m(1)] m(2) assms(3) show ?thesis by simp
qed

lemma invalidate_step_effect:
  assumes "distinct (map ps_id steps)"
  shows "\<exists>log'. invalidate_step pid i (mark_stale A steps, log, acc) =
      (mark_stale (insert i A) steps, log', if i \<in> ps_id ` set steps then i # acc else acc) \<and> prefix log log'"
proof (cases "map_of (index_steps (mark_stale A steps)) i")
  case None
  then have no: "i \<notin> ps_id ` set steps" using map_of_index_None[of "mark_stale A steps" i] by simp
  then have "mark_stale (insert i A) steps = mark_stale A steps" by (auto simp: mark_stale_def)
  with None no show ?thesis by (simp add: invalidate_step_def)
next
  case (Some s)
  have yes: "i \<in> ps_id ` set steps"
    using Some map_of_index_None[of "mark_stale A steps" i] by auto
  have s: "s = (if i \<in> A then t\<lparr>ps_status := Step_STALE\<rparr> else t)" if "t \<in> set steps" "ps_id t = i" for t
    using marked_unique[OF assms that(1), of A s] Some that(2) by simp
  have id: "ps_id s = i" using map_of_index_Some[OF Some] by simp
  show ?thesis
  proof (cases "ps_status s = Step_STALE")
    case True
    have "mark_stale (insert i A) steps = mark_stale A steps"
      unfolding mark_stale_def
    proof (rule map_cong[OF refl])
      fix t assume t: "t \<in> set steps"
      show "(if ps_id t \<in> insert i A then t\<lparr>ps_status := Step_STALE\<rparr> else t) =
          (if ps_id t \<in> A then t\<lparr>ps_status := Step_STALE\<rparr> else t)"
        using s[OF t] True by (cases "ps_id t = i"; cases "i \<in> A") auto
    qed
    with Some True yes show ?thesis by (simp add: invalidate_step_def)
  next
    case False
    let ?r = "transition_step Step_STALE ''repair_scope_invalidation'' (Some pid) [] s log"
    have dd: "distinct (map ps_id (mark_stale A steps))" using assms by simp
    have "set_last_step (s\<lparr>ps_status := Step_STALE\<rparr>) (mark_stale A steps) = mark_stale (insert i A) steps"
      unfolding set_last_step_distinct[OF dd] using s id by (auto simp: mark_stale_def)
    with Some False yes transition_step_log[of log Step_STALE "''repair_scope_invalidation''" "Some pid" "[]" s]
    show ?thesis
      by (simp add: invalidate_step_def Let_def split_beta)
  qed
qed

lemma invalidate_fold:
  assumes "distinct (map ps_id steps)"
  shows "\<exists>log'. fold (invalidate_step pid) is (mark_stale A steps, log, acc) =
      (mark_stale (A \<union> set is) steps, log', rev [i \<leftarrow> is. i \<in> ps_id ` set steps] @ acc) \<and> prefix log log'"
proof (induction "is" arbitrary: A log acc)
  case (Cons i "is")
  obtain l1 where l1: "invalidate_step pid i (mark_stale A steps, log, acc) =
      (mark_stale (insert i A) steps, l1, if i \<in> ps_id ` set steps then i # acc else acc)" "prefix log l1"
    using invalidate_step_effect[OF assms, of pid i A log acc] by blast
  obtain l2 where l2: "fold (invalidate_step pid) is (mark_stale (insert i A) steps, l1, if i \<in> ps_id ` set steps then i # acc else acc) =
      (mark_stale (insert i A \<union> set is) steps, l2,
       rev [i \<leftarrow> is. i \<in> ps_id ` set steps] @ (if i \<in> ps_id ` set steps then i # acc else acc))" "prefix l1 l2"
    using Cons.IH[of "insert i A" l1 "if i \<in> ps_id ` set steps then i # acc else acc"] by blast
  have "A \<union> set (i # is) = insert i A \<union> set is" by auto
  with l1 l2 show ?case by (auto intro: prefix_order.order_trans)
qed simp

lemma invalidate_effect:
  assumes "distinct (map ps_id (pl_steps p))"
  obtains log' where "invalidate_affected_subgraph p affected log =
      (rev [i \<leftarrow> affected. i \<in> ps_id ` set (pl_steps p)],
       p\<lparr>pl_steps := mark_stale (set affected) (pl_steps p)\<rparr>, log')" "prefix log log'"
proof -
  from invalidate_fold[OF assms, of "pl_id p" affected "{}" log "[]"] obtain log' where
    "fold (invalidate_step (pl_id p)) affected (pl_steps p, log, []) =
      (mark_stale (set affected) (pl_steps p), log', rev [i \<leftarrow> affected. i \<in> ps_id ` set (pl_steps p)])"
    "prefix log log'" by auto
  then show ?thesis by (intro that[of log']) (simp_all add: invalidate_affected_subgraph_def)
qed

lemma repair_scope_cases:
  "let systemic = (\<exists>t. et = Some t \<and> upper t \<in> set systemic_error_types);
       invalidating = ((\<exists>t. et = Some t \<and> upper t \<in> set assumption_invalidating_error_types) \<or>
                       fc = Some ''CONTEXT'' \<or> fc = Some ''REASONING'');
       below = {x. (x, ps_id s) \<in> (known_edges (pl_steps p))\<^sup>+};
       (scope, affected) = compute_repair_scope s p fc et
   in (scope, set affected) =
        (if systemic then (MACRO_REPLAN, {})
         else if invalidating \<and> below \<noteq> {} then (AFFECTED_SUBGRAPH, insert (ps_id s) below)
         else (LOCAL, {ps_id s}))"
proof -
  let ?e = "if et = None \<or> et = Some [] then [] else upper (the et)"
  have e: "?e \<in> set systemic_error_types \<longleftrightarrow> (\<exists>t. et = Some t \<and> upper t \<in> set systemic_error_types)"
    "?e \<in> set assumption_invalidating_error_types \<longleftrightarrow>
      (\<exists>t. et = Some t \<and> upper t \<in> set assumption_invalidating_error_types)"
    by (cases et; simp add: systemic_error_types_def assumption_invalidating_error_types_def upper_def)+
  have d: "get_dependents (ps_id s) p = [] \<longleftrightarrow> {x. (x, ps_id s) \<in> (known_edges (pl_steps p))\<^sup>+} = {}"
    unfolding set_get_dependents[symmetric] by simp
  show ?thesis
    unfolding compute_repair_scope_def Let_def e d
    by (simp add: set_get_dependents split: prod.splits) blast
qed

section \<open>Properties\<close>

text \<open>The repair scope of a failure is exact. A systemic provider error always asks for a macro
  replan; an assumption-invalidating error, or a context or reasoning failure, of a step that
  others depend on affects exactly the step and everything that transitively depends on it;
  every other failure stays local to the step.\<close>

theorem repair_scope_decision:
  "let systemic = (\<exists>t. et = Some t \<and> upper t \<in> set systemic_error_types);
       invalidating = ((\<exists>t. et = Some t \<and> upper t \<in> set assumption_invalidating_error_types) \<or>
                       fc = Some ''CONTEXT'' \<or> fc = Some ''REASONING'');
       below = {x. (x, ps_id s) \<in> (known_edges (pl_steps p))\<^sup>+};
       (scope, affected) = compute_repair_scope s p fc et
   in (scope, set affected) =
        (if systemic then (MACRO_REPLAN, {})
         else if invalidating \<and> below \<noteq> {} then (AFFECTED_SUBGRAPH, insert (ps_id s) below)
         else (LOCAL, {ps_id s}))"
  by (rule repair_scope_cases)

text \<open>Invalidation is exact. On a plan with unique step ids, invalidating a set of steps marks
  precisely those of the plan's steps STALE (also VERIFIED and COMPLETED ones), leaves every
  other step and field as it was, reports exactly the steps it covered, and only appends to
  the event log.\<close>

theorem invalidation_exact:
  assumes "distinct (map ps_id (pl_steps p))"
    and "invalidate_affected_subgraph p affected log = (invalidated, q, log')"
  shows "q = p\<lparr>pl_steps := map (\<lambda>t. if ps_id t \<in> set affected then t\<lparr>ps_status := Step_STALE\<rparr> else t) (pl_steps p)\<rparr> \<and>
    set invalidated = set affected \<inter> ps_id ` set (pl_steps p) \<and> prefix log log'"
  by (rule invalidate_effect[OF assms(1), of affected log]) (use assms(2) in \<open>auto simp: mark_stale_def\<close>)

theorem invalidation_exact_witness:
  "map ps_status (pl_steps (fst (snd (invalidate_affected_subgraph
     \<lparr>pl_id = ''p'', pl_goal = ''g'', pl_version = ''P-0.1'', pl_mode = SIMPLE_DEPENDENCY,
      pl_status = Plan_RUNNING,
      pl_steps = [(plain_step ''a'' ''x'' [])\<lparr>ps_status := Step_VERIFIED\<rparr>, plain_step ''b'' ''x'' [''a'']],
      pl_metadata = [], pl_invalidated = [], pl_replan_count = 0\<rparr> [''a''] [])))) = [Step_STALE, Step_PENDING]"
proof -
  let ?p = "\<lparr>pl_id = ''p'', pl_goal = ''g'', pl_version = ''P-0.1'', pl_mode = SIMPLE_DEPENDENCY,
      pl_status = Plan_RUNNING,
      pl_steps = [(plain_step ''a'' ''x'' [])\<lparr>ps_status := Step_VERIFIED\<rparr>, plain_step ''b'' ''x'' [''a'']],
      pl_metadata = [], pl_invalidated = [], pl_replan_count = 0\<rparr>"
  have "distinct (map ps_id (pl_steps ?p))" by (simp add: plain_step_def)
  from invalidation_exact[OF this, of "[''a'']" "[]" "fst (invalidate_affected_subgraph ?p [''a''] [])"
      "fst (snd (invalidate_affected_subgraph ?p [''a''] []))" "snd (snd (invalidate_affected_subgraph ?p [''a''] []))"]
  show ?thesis by (simp add: plain_step_def)
qed

text \<open>The hint recorded with a failure and the scope the runtime computes from the failure type
  disagree: for network errors, exhausted budgets and malformed provider responses the hint
  says MACRO_REPLAN while the computed scope never does; for every other failure type that
  hints MACRO_REPLAN the computed scope is MACRO_REPLAN too.\<close>

theorem repair_hint_overstates_scope:
  "compute_repair_scope_hint fc ft b = MACRO_REPLAN \<and>
     fst (compute_repair_scope s p (Some (failure_class_value fc)) (Some (failure_type_value ft))) \<noteq> MACRO_REPLAN \<longleftrightarrow>
   ft \<in> {FT_NETWORK_ERROR, FT_BUDGET_EXHAUSTED, FT_MALFORMED_PROVIDER_RESPONSE}"
proof -
  have "fst (compute_repair_scope s p fc et) = MACRO_REPLAN \<longleftrightarrow>
      (\<exists>t. et = Some t \<and> upper t \<in> set systemic_error_types)" for fc et
    using repair_scope_cases[of et fc s p]
    by (auto simp: Let_def split: prod.splits if_splits)
  then have hint: "compute_repair_scope_hint fc ft b = MACRO_REPLAN \<and>
     fst (compute_repair_scope s p (Some (failure_class_value fc)) (Some (failure_type_value ft))) \<noteq> MACRO_REPLAN \<longleftrightarrow>
     ft \<in> set macro_replan_types \<and> upper (failure_type_value ft) \<notin> set systemic_error_types"
    by (simp add: compute_repair_scope_hint_def)
  have "list_all (\<lambda>ft. upper (failure_type_value ft) \<notin> set systemic_error_types \<longleftrightarrow>
       ft \<in> {FT_NETWORK_ERROR, FT_BUDGET_EXHAUSTED, FT_MALFORMED_PROVIDER_RESPONSE}) macro_replan_types"
    by code_simp
  moreover have "{FT_NETWORK_ERROR, FT_BUDGET_EXHAUSTED, FT_MALFORMED_PROVIDER_RESPONSE} \<subseteq> set macro_replan_types"
    by (simp add: macro_replan_types_def)
  ultimately have "ft \<in> set macro_replan_types \<and> upper (failure_type_value ft) \<notin> set systemic_error_types \<longleftrightarrow>
     ft \<in> {FT_NETWORK_ERROR, FT_BUDGET_EXHAUSTED, FT_MALFORMED_PROVIDER_RESPONSE}"
    unfolding list_all_iff by blast
  then show ?thesis unfolding hint .
qed

end
