(* ===== verification/Scheduler.thy ===== *)
theory Scheduler imports TaskGraph begin

text \<open>
  \<open>src/lhas/planning/scheduler.py\<close>: the pure scheduler over a validated plan, and the
  dependency context handed to a step. Both return \<open>None\<close> where Python raises (an
  incomparable precondition, an unknown dependency).
\<close>

section \<open>The schedule\<close>

record schedule =
  sc_ready :: "plan_step list"
  sc_blocked :: "plan_step list"
  sc_pending :: "plan_step list"
  sc_waiting :: "plan_step list"

definition schedule_step :: "step_index \<Rightarrow> plan_step \<Rightarrow> schedule \<Rightarrow> schedule option" where
  "schedule_step by_id s sc =
     (if ps_status s \<in> terminal_verified \<union> failed_or_blocked \<union> {Step_STALE} then Some sc
      else if ps_status s = Step_WAITING_FOR_HUMAN_APPROVAL then
        Some (sc\<lparr>sc_waiting := sc_waiting sc @ [s]\<rparr>)
      else if ps_status s \<in> {Step_RUNNING, Step_CLAIMED_COMPLETE, Step_READY, Step_WAITING_FOR_VERIFICATION}
        then Some sc
      else (case fst (evaluate_step_eligibility s by_id [] None SCHEDULING []) of
              Inl _ \<Rightarrow> None
            | Inr (eligible, reason) \<Rightarrow>
                Some (if eligible then sc\<lparr>sc_ready := sc_ready sc @ [s]\<rparr>
                      else if list_ex (\<lambda>t. contains t reason) [''failed'', ''blocked'']
                        then sc\<lparr>sc_blocked := sc_blocked sc @ [s]\<rparr>
                      else sc\<lparr>sc_pending := sc_pending sc @ [s]\<rparr>)))"

fun schedule_steps :: "step_index \<Rightarrow> plan_step list \<Rightarrow> schedule \<Rightarrow> schedule option" where
  "schedule_steps by_id [] sc = Some sc"
| "schedule_steps by_id (s # ss) sc =
     (case schedule_step by_id s sc of None \<Rightarrow> None | Some sc' \<Rightarrow> schedule_steps by_id ss sc')"

definition empty_schedule :: schedule where
  "empty_schedule = \<lparr>sc_ready = [], sc_blocked = [], sc_pending = [], sc_waiting = []\<rparr>"

definition calculate :: "plan \<Rightarrow> schedule option" where
  "calculate p = schedule_steps (index_steps (pl_steps p)) (pl_steps p) empty_schedule"

section \<open>Dependency context\<close>

text \<open>One round of the closure loop over a snapshot of the allowed ids.\<close>

definition expand_round :: "step_index \<Rightarrow> string list \<Rightarrow> string list option" where
  "expand_round by_id allowed =
     (if list_ex (\<lambda>d. map_of by_id d = None) allowed then None
      else Some (allowed @ remdups [d \<leftarrow> concat (map (\<lambda>i. ps_depends (the (map_of by_id i))) allowed). d \<notin> set allowed]))"

lemma expand_round_new:
  assumes "expand_round by_id allowed = Some a" and "a \<noteq> allowed"
  shows "set allowed \<subset> set a \<and> set a \<subseteq> set allowed \<union> (\<Union>s\<in>snd ` set by_id. set (ps_depends s))"
proof
  from assms have "remdups [d \<leftarrow> concat (map (\<lambda>i. ps_depends (the (map_of by_id i))) allowed). d \<notin> set allowed] \<noteq> []"
    by (auto simp: expand_round_def split: if_splits)
  then have "set (remdups [d \<leftarrow> concat (map (\<lambda>i. ps_depends (the (map_of by_id i))) allowed). d \<notin> set allowed]) \<noteq> {}"
    by (simp only: set_empty not_False_eq_True)
  with assms(1) show "set allowed \<subset> set a" by (auto simp: expand_round_def split: if_splits)
  show "set a \<subseteq> set allowed \<union> (\<Union>s\<in>snd ` set by_id. set (ps_depends s))"
  proof
    fix x assume "x \<in> set a"
    with assms(1) have "x \<in> set allowed \<or> (\<exists>i\<in>set allowed. x \<in> set (ps_depends (the (map_of by_id i))))"
      by (auto simp: expand_round_def split: if_splits)
    moreover have "(\<exists>s. map_of by_id i = Some s)" if "i \<in> set allowed" for i
      using assms(1) that by (auto simp: expand_round_def list_ex_iff split: if_splits)
    ultimately show "x \<in> set allowed \<union> (\<Union>s\<in>snd ` set by_id. set (ps_depends s))"
      by (force dest: map_of_SomeD)
  qed
qed

function close_allowed :: "step_index \<Rightarrow> string list \<Rightarrow> string list option" where
  "close_allowed by_id allowed =
     (case expand_round by_id allowed of
        None \<Rightarrow> None
      | Some a \<Rightarrow> if a = allowed then Some allowed else close_allowed by_id a)"
  by pat_completeness auto
termination
proof (relation "measure (\<lambda>(by_id, allowed). card ((\<Union>s\<in>snd ` set by_id. set (ps_depends s)) - set allowed))", goal_cases)
  case 1
  show ?case by simp
next
  case (2 by_id allowed a)
  let ?U = "\<Union>s\<in>snd ` set by_id. set (ps_depends s)"
  have "?U - set a \<subset> ?U - set allowed" using expand_round_new[OF 2] by blast
  then have "card (?U - set a) < card (?U - set allowed)" by (intro psubset_card_mono) auto
  then show ?case by simp
qed

declare close_allowed.simps [simp del]

definition build_step_dependency_context :: "plan \<Rightarrow> plan_step \<Rightarrow> pydict \<Rightarrow> pydict option" where
  "build_step_dependency_context p s ctx =
     (let steps_ctx = (case as_dict (dict_get_or ctx ''steps'' (PDict [])) of None \<Rightarrow> [] | Some d \<Rightarrow> d) in
      map_option (\<lambda>allowed.
        [(''runtime'', dict_get_or ctx ''runtime'' (PDict [])),
         (''steps'', PDict [(i, dict_get steps_ctx i). i \<leftarrow> allowed, has_key steps_ctx i])])
        (close_allowed (index_steps (pl_steps p)) (ps_depends s)))"

section \<open>Lemmas\<close>

text \<open>What the scheduler decides about one step.\<close>

datatype step_class = Skip | Wait | Ready | Blocked | Pending

definition classify_step :: "step_index \<Rightarrow> plan_step \<Rightarrow> step_class option" where
  "classify_step by_id s =
     (if ps_status s \<in> terminal_verified \<union> failed_or_blocked \<union> {Step_STALE} then Some Skip
      else if ps_status s = Step_WAITING_FOR_HUMAN_APPROVAL then Some Wait
      else if ps_status s \<in> active_statuses then Some Skip
      else (case fst (evaluate_step_eligibility s by_id [] None SCHEDULING []) of
              Inl _ \<Rightarrow> None
            | Inr (eligible, reason) \<Rightarrow>
                Some (if eligible then Ready
                      else if list_ex (\<lambda>t. contains t reason) [''failed'', ''blocked''] then Blocked
                      else Pending)))"

lemma active_statuses_order:
  "active_statuses = {Step_RUNNING, Step_CLAIMED_COMPLETE, Step_READY, Step_WAITING_FOR_VERIFICATION}"
  by (auto simp: active_statuses_def)

lemma schedule_step_classify:
  "schedule_step by_id s sc =
     map_option (\<lambda>c. case c of
        Skip \<Rightarrow> sc | Wait \<Rightarrow> sc\<lparr>sc_waiting := sc_waiting sc @ [s]\<rparr>
      | Ready \<Rightarrow> sc\<lparr>sc_ready := sc_ready sc @ [s]\<rparr> | Blocked \<Rightarrow> sc\<lparr>sc_blocked := sc_blocked sc @ [s]\<rparr>
      | Pending \<Rightarrow> sc\<lparr>sc_pending := sc_pending sc @ [s]\<rparr>) (classify_step by_id s)"
  unfolding schedule_step_def classify_step_def active_statuses_order
  by (simp split: sum.splits prod.splits)

lemma schedule_steps_classify:
  assumes "schedule_steps by_id steps sc = Some sc'"
  shows "sc_ready sc' = sc_ready sc @ [s \<leftarrow> steps. classify_step by_id s = Some Ready] \<and>
    sc_blocked sc' = sc_blocked sc @ [s \<leftarrow> steps. classify_step by_id s = Some Blocked] \<and>
    sc_pending sc' = sc_pending sc @ [s \<leftarrow> steps. classify_step by_id s = Some Pending] \<and>
    sc_waiting sc' = sc_waiting sc @ [s \<leftarrow> steps. classify_step by_id s = Some Wait]"
  using assms
proof (induction steps arbitrary: sc)
  case (Cons s steps)
  obtain c where c: "classify_step by_id s = Some c"
    using Cons.prems by (auto simp: schedule_step_classify split: option.splits)
  with Cons show ?case by (cases c) (auto simp: schedule_step_classify)
qed simp

lemma calculate_classify:
  assumes "calculate p = Some sc"
  shows "sc_ready sc = [s \<leftarrow> pl_steps p. classify_step (index_steps (pl_steps p)) s = Some Ready]"
    and "sc_blocked sc = [s \<leftarrow> pl_steps p. classify_step (index_steps (pl_steps p)) s = Some Blocked]"
    and "sc_pending sc = [s \<leftarrow> pl_steps p. classify_step (index_steps (pl_steps p)) s = Some Pending]"
  using schedule_steps_classify[OF assms[unfolded calculate_def]] by (simp_all add: empty_schedule_def)

lemma calculate_Some:
  assumes "\<forall>s\<in>set (pl_steps p). classify_step (index_steps (pl_steps p)) s \<noteq> None"
  shows "\<exists>sc. calculate p = Some sc"
proof -
  have "\<exists>sc'. schedule_steps by_id steps sc = Some sc'"
    if "\<forall>s\<in>set steps. classify_step by_id s \<noteq> None" for by_id steps sc
    using that by (induction steps arbitrary: sc) (auto simp: schedule_step_classify)
  with assms show ?thesis by (simp add: calculate_def)
qed

lemma eligibility_fst:
  assumes "ps_status s = Step_PENDING \<or> ps_status s = Step_PLANNED"
  shows "fst (evaluate_step_eligibility s by_id ctx sink ph log) =
    (case dependency_obstacle by_id (ps_depends s) of
       Some r \<Rightarrow> Inr (False, r)
     | None \<Rightarrow> (case evaluate_step_preconditions (phase_preconditions ph s) ctx of
                  None \<Rightarrow> Inl ()
                | Some (b, _) \<Rightarrow> Inr (if b then (True, ''all_conditions_met'') else (False, ''precondition_failed''))))"
  using assms
  by (auto simp: evaluate_step_eligibility_def active_statuses_def terminal_verified_def
      failed_or_blocked_def split: option.splits bool.splits)

lemma classify_open:
  assumes "ps_status s = Step_PENDING \<or> ps_status s = Step_PLANNED"
  shows "classify_step by_id s =
    (case fst (evaluate_step_eligibility s by_id [] None SCHEDULING []) of
       Inl _ \<Rightarrow> None
     | Inr (eligible, reason) \<Rightarrow>
         Some (if eligible then Ready
               else if list_ex (\<lambda>t. contains t reason) [''failed'', ''blocked''] then Blocked else Pending))"
  using assms
  by (auto simp: classify_step_def active_statuses_def terminal_verified_def failed_or_blocked_def)

lemma eligibility_at_rest:
  assumes "ps_status s = Step_PRECONDITION_FAILED"
  shows "fst (evaluate_step_eligibility s by_id ctx sink ph log) =
    Inr (False, ''not_eligible_'' @ casefold (step_status_value Step_PRECONDITION_FAILED))"
  using assms
  by (simp add: evaluate_step_eligibility_def active_statuses_def terminal_verified_def failed_or_blocked_def)

lemma classify_ready:
  "classify_step by_id s = Some Ready \<longleftrightarrow>
     (ps_status s = Step_PENDING \<or> ps_status s = Step_PLANNED) \<and>
     (\<forall>d\<in>set (ps_depends s). \<exists>dep. map_of by_id d = Some dep \<and> ps_status dep = Step_VERIFIED) \<and>
     (\<exists>c. evaluate_step_preconditions (phase_preconditions SCHEDULING s) [] = Some (True, c))"
proof (cases "ps_status s = Step_PENDING \<or> ps_status s = Step_PLANNED")
  case True
  show ?thesis
    using True dependency_obstacle_None[of by_id "ps_depends s"]
    by (auto simp: classify_open[OF True] eligibility_fst[OF True] split: option.splits if_splits)
next
  case False
  then show ?thesis
    by (cases "ps_status s")
      (simp_all add: classify_step_def active_statuses_def terminal_verified_def failed_or_blocked_def
        eligibility_at_rest)
qed

lemma close_allowed_closed:
  assumes "close_allowed by_id allowed = Some a"
  shows "set allowed \<subseteq> set a \<and> (\<forall>i\<in>set a. \<exists>s. map_of by_id i = Some s \<and> set (ps_depends s) \<subseteq> set a) \<and>
    (\<forall>P. (\<forall>i\<in>set allowed. P i) \<longrightarrow> (\<forall>i s. P i \<and> map_of by_id i = Some s \<longrightarrow> (\<forall>d\<in>set (ps_depends s). P d)) \<longrightarrow>
       (\<forall>i\<in>set a. P i))"
  using assms
proof (induction by_id allowed rule: close_allowed.induct)
  case (1 by_id allowed)
  obtain r where r: "expand_round by_id allowed = Some r"
    using 1(2) by (subst (asm) close_allowed.simps) (auto split: option.splits)
  have known: "\<exists>s. map_of by_id i = Some s" if "i \<in> set allowed" for i
    using r that by (auto simp: expand_round_def list_ex_iff split: if_splits)
  have set_r: "set r = set allowed \<union> (\<Union>i\<in>set allowed. set (ps_depends (the (map_of by_id i))))"
    using r by (auto simp: expand_round_def split: if_splits)
  show ?case
  proof (cases "r = allowed")
    case True
    then have "a = allowed" using 1(2) r by (subst (asm) close_allowed.simps) simp
    moreover have "set (ps_depends s) \<subseteq> set a" if "i \<in> set a" "map_of by_id i = Some s" for i s
    proof -
      have "set (ps_depends (the (map_of by_id i))) \<subseteq> set r" using set_r that(1) \<open>a = allowed\<close> by blast
      with that(2) True \<open>a = allowed\<close> show ?thesis by simp
    qed
    ultimately show ?thesis using known by blast
  next
    case False
    then have "close_allowed by_id r = Some a" using 1(2) r by (subst (asm) close_allowed.simps) simp
    note ih = 1(1)[OF r False this]
    show ?thesis
    proof (intro conjI allI impI)
      show "set allowed \<subseteq> set a" using ih set_r by blast
      show "\<forall>i\<in>set a. \<exists>s. map_of by_id i = Some s \<and> set (ps_depends s) \<subseteq> set a" using ih by blast
      fix P
      assume P: "\<forall>i\<in>set allowed. P i" "\<forall>i s. P i \<and> map_of by_id i = Some s \<longrightarrow> (\<forall>d\<in>set (ps_depends s). P d)"
      have "P d" if "d \<in> set r" for d
      proof (cases "d \<in> set allowed")
        case False
        with that set_r obtain i where i: "i \<in> set allowed" "d \<in> set (ps_depends (the (map_of by_id i)))" by blast
        from known[OF i(1)] obtain s where s: "map_of by_id i = Some s" by blast
        with i(2) have "d \<in> set (ps_depends s)" by simp
        moreover have "P i" using P(1) i(1) by simp
        ultimately show ?thesis using P(2)[rule_format, of i s d] s by simp
      qed (use P(1) in simp)
      then have "\<forall>i\<in>set r. P i" by simp
      from mp[OF mp[OF spec[OF conjunct2[OF conjunct2[OF ih]], of P] this] P(2)]
      show "\<forall>i\<in>set a. P i" .
    qed
  qed
qed

lemma close_allowed_known:
  assumes "\<forall>i\<in>set allowed. map_of by_id i \<noteq> None"
    and "\<And>i s. map_of by_id i = Some s \<Longrightarrow> \<forall>d\<in>set (ps_depends s). map_of by_id d \<noteq> None"
  shows "\<exists>a. close_allowed by_id allowed = Some a"
  using assms
proof (induction by_id allowed rule: close_allowed.induct)
  case (1 by_id allowed)
  then have "\<not> list_ex (\<lambda>d. map_of by_id d = None) allowed" by (auto simp: list_ex_iff)
  then obtain r where r: "expand_round by_id allowed = Some r" by (simp add: expand_round_def)
  have known: "\<forall>i\<in>set r. map_of by_id i \<noteq> None"
  proof
    fix d assume "d \<in> set r"
    with r consider "d \<in> set allowed" | i where "i \<in> set allowed" "d \<in> set (ps_depends (the (map_of by_id i)))"
      by (auto simp: expand_round_def split: if_splits)
    then show "map_of by_id d \<noteq> None"
    proof cases
      case 2
      from 1(2) 2(1) obtain s where "map_of by_id i = Some s" by fastforce
      with 1(3)[of i s] 2(2) show ?thesis by simp
    qed (use 1(2) in simp)
  qed
  show ?case
  proof (cases "r = allowed")
    case True
    then show ?thesis using r by (subst close_allowed.simps) simp
  next
    case False
    from 1(1)[OF r False known 1(3)] show ?thesis using r False by (subst close_allowed.simps) simp
  qed
qed

lemma edges_of_index:
  assumes "distinct (map ps_id steps)"
  shows "(i, d) \<in> dep_edges steps \<longleftrightarrow> (\<exists>s. map_of (index_steps steps) i = Some s \<and> d \<in> set (ps_depends s))"
  using map_of_index_distinct[OF assms] map_of_index_Some[of steps i] by (fastforce simp: dep_edges_def)

lemma close_allowed_transitive:
  assumes "distinct (map ps_id steps)" and "s \<in> set steps"
    and "close_allowed (index_steps steps) (ps_depends s) = Some a"
  shows "set a = {d. (ps_id s, d) \<in> (dep_edges steps)\<^sup>+}"
proof
  note cl = close_allowed_closed[OF assms(3)]
  have base: "\<forall>d\<in>set (ps_depends s). (ps_id s, d) \<in> (dep_edges steps)\<^sup>+"
    using assms(2) by (auto intro: dep_edgesI)
  have step: "\<forall>i t. (ps_id s, i) \<in> (dep_edges steps)\<^sup>+ \<and> map_of (index_steps steps) i = Some t \<longrightarrow>
      (\<forall>d\<in>set (ps_depends t). (ps_id s, d) \<in> (dep_edges steps)\<^sup>+)"
    using edges_of_index[OF assms(1)] by (meson trancl.trancl_into_trancl)
  from mp[OF mp[OF spec[OF conjunct2[OF conjunct2[OF cl]], of "\<lambda>d. (ps_id s, d) \<in> (dep_edges steps)\<^sup>+"] base] step]
  show "set a \<subseteq> {d. (ps_id s, d) \<in> (dep_edges steps)\<^sup>+}" by blast
  have closed: "d \<in> set a" if e1: "i \<in> set a" and e2: "(i, d) \<in> dep_edges steps" for i d
  proof -
    obtain t where "map_of (index_steps steps) i = Some t" "d \<in> set (ps_depends t)"
      using e2 edges_of_index[OF assms(1)] by blast
    moreover obtain u where "map_of (index_steps steps) i = Some u" "set (ps_depends u) \<subseteq> set a"
      using e1 cl by blast
    ultimately show ?thesis by auto
  qed
  have "d \<in> set a" if "(ps_id s, d) \<in> (dep_edges steps)\<^sup>+" for d
    using that
  proof (induction rule: trancl_induct)
    case (base y)
    then have "y \<in> set (ps_depends s)"
      using edges_of_index[OF assms(1), of "ps_id s" y] map_of_index_distinct[OF assms(1,2)] by auto
    with cl show ?case by blast
  next
    case (step y z)
    with closed show ?case by blast
  qed
  then show "{d. (ps_id s, d) \<in> (dep_edges steps)\<^sup>+} \<subseteq> set a" by blast
qed

section \<open>A sample plan for the witnesses\<close>

definition sample_plan :: "step_status \<Rightarrow> plan" where
  "sample_plan st =
     \<lparr>pl_id = ''p'', pl_goal = ''g'', pl_version = ''P-0.1'', pl_mode = SIMPLE_DEPENDENCY,
      pl_status = Plan_RUNNING,
      pl_steps = [(plain_step ''fetch'' ''x'' [])\<lparr>ps_status := st\<rparr>, plain_step ''retry_failed'' ''x'' [''fetch''],
                  plain_step ''report'' ''x'' [''retry_failed'']],
      pl_metadata = [], pl_invalidated = [], pl_replan_count = 0\<rparr>"

lemma sample_plan_valid: "\<exists>q. validate_plan sha (sample_plan Step_VERIFIED) = Inr q"
proof -
  have "check_dependencies (pl_steps (sample_plan Step_VERIFIED)) = Inr ()" by code_simp
  then show ?thesis by (simp add: validate_plan_def)
qed

lemma sample_plan_schedule:
  "\<exists>sc. calculate (sample_plan Step_VERIFIED) = Some sc \<and> map ps_id (sc_ready sc) = [''retry_failed'']"
proof -
  have "map_option (\<lambda>sc. map ps_id (sc_ready sc)) (calculate (sample_plan Step_VERIFIED)) = Some [''retry_failed'']"
    by code_simp
  then show ?thesis by auto
qed

section \<open>Properties\<close>

text \<open>The scheduler releases exactly the steps that may run. A step of the plan is scheduled as
  ready if and only if it is PENDING or PLANNED, every step it depends on is a known VERIFIED
  step, and its preconditions that do not concern the runtime hold.\<close>

theorem ready_iff_dependencies_verified:
  assumes "calculate p = Some sc"
  shows "set (sc_ready sc) = {s \<in> set (pl_steps p).
     (ps_status s = Step_PENDING \<or> ps_status s = Step_PLANNED) \<and>
     (\<forall>d\<in>set (ps_depends s). \<exists>dep. map_of (index_steps (pl_steps p)) d = Some dep \<and> ps_status dep = Step_VERIFIED) \<and>
     (\<exists>c. evaluate_step_preconditions (phase_preconditions SCHEDULING s) [] = Some (True, c))}"
  unfolding calculate_classify(1)[OF assms] by (simp add: classify_ready)

theorem ready_iff_dependencies_verified_witness:
  "\<exists>sc. calculate (sample_plan Step_VERIFIED) = Some sc \<and>
     set (sc_ready sc) = {s \<in> set (pl_steps (sample_plan Step_VERIFIED)).
       (ps_status s = Step_PENDING \<or> ps_status s = Step_PLANNED) \<and>
       (\<forall>d\<in>set (ps_depends s). \<exists>dep. map_of (index_steps (pl_steps (sample_plan Step_VERIFIED))) d = Some dep \<and>
          ps_status dep = Step_VERIFIED) \<and>
       (\<exists>c. evaluate_step_preconditions (phase_preconditions SCHEDULING s) [] = Some (True, c))}"
  using sample_plan_schedule ready_iff_dependencies_verified by blast

text \<open>C3: A plan in good order never gets stuck. If a plan passes validation and each of its steps
  is either VERIFIED or PENDING without preconditions to meet at scheduling time, then as long
  as some step is not VERIFIED the scheduler finds a ready step.\<close>

theorem scheduler_makes_progress:
  assumes "validate_plan sha p = Inr q"
    and "\<forall>s\<in>set (pl_steps p). ps_status s = Step_VERIFIED \<or>
           (ps_status s = Step_PENDING \<and> phase_preconditions SCHEDULING s = [])"
    and "\<exists>s\<in>set (pl_steps p). ps_status s \<noteq> Step_VERIFIED"
  shows "\<exists>sc. calculate p = Some sc \<and> sc_ready sc \<noteq> []"
proof -
  let ?E = "dep_edges (pl_steps p)" and ?by = "index_steps (pl_steps p)"
  have dag: "distinct (map ps_id (pl_steps p))"
      "\<forall>s\<in>set (pl_steps p). set (ps_depends s) \<subseteq> ps_id ` set (pl_steps p)" "acyclic ?E"
    using assms(1) check_dependencies_iff[of "pl_steps p"] by (auto simp: validate_plan_def split: sum.splits)
  have fin: "finite ?E"
  proof -
    have "?E = (\<Union>s\<in>set (pl_steps p). \<Union>d\<in>set (ps_depends s). {(ps_id s, d)})" by (auto simp: dep_edges_def)
    then show ?thesis by simp
  qed
  let ?Q = "{ps_id s | s. s \<in> set (pl_steps p) \<and> ps_status s \<noteq> Step_VERIFIED}"
  obtain i where "i \<in> ?Q" "\<And>d. (d, i) \<in> ?E\<inverse> \<Longrightarrow> d \<notin> ?Q"
    using wfE_min[OF finite_acyclic_wf_converse[OF fin dag(3)], of _ ?Q] assms(3) by blast
  then obtain s where s: "s \<in> set (pl_steps p)" "ps_status s \<noteq> Step_VERIFIED"
      "\<And>d. d \<in> set (ps_depends s) \<Longrightarrow> d \<notin> ?Q" by (auto intro: dep_edgesI)
  have deps: "\<exists>dep. map_of ?by d = Some dep \<and> ps_status dep = Step_VERIFIED" if "d \<in> set (ps_depends s)" for d
  proof -
    from dag(2) s(1) that obtain t where t: "t \<in> set (pl_steps p)" "ps_id t = d" by auto
    from map_of_index_distinct[OF dag(1) t(1)] t s(3)[OF that] show ?thesis by auto
  qed
  have pend: "ps_status s = Step_PENDING" "phase_preconditions SCHEDULING s = []" using assms(2) s by auto
  with deps have ready: "classify_step ?by s = Some Ready"
    unfolding classify_ready by (simp add: evaluate_step_preconditions_def)
  have "classify_step ?by t \<noteq> None" if t: "t \<in> set (pl_steps p)" for t
  proof (cases "ps_status t = Step_VERIFIED")
    case True
    then show ?thesis by (simp add: classify_step_def terminal_verified_def)
  next
    case False
    with assms(2) t have "ps_status t = Step_PENDING" "phase_preconditions SCHEDULING t = []" by auto
    then show ?thesis
      by (simp add: classify_open eligibility_fst evaluate_step_preconditions_def split: option.splits)
  qed
  then obtain sc where "calculate p = Some sc" using calculate_Some by blast
  moreover from calculate_classify(1)[OF this] ready s(1) have "s \<in> set (sc_ready sc)" by simp
  ultimately show ?thesis by force
qed

theorem scheduler_makes_progress_witness:
  "\<exists>sc. calculate (sample_plan Step_VERIFIED) = Some sc \<and> sc_ready sc \<noteq> []"
proof -
  obtain q where q: "validate_plan (\<lambda>s. s) (sample_plan Step_VERIFIED) = Inr q" using sample_plan_valid by blast
  show ?thesis
    by (rule scheduler_makes_progress[OF q]) (simp_all add: sample_plan_def plain_step_def phase_preconditions_def)
qed

text \<open>The scheduler sorts unready steps by the text of the reason, not by its kind. A PENDING step
  whose dependencies are verified but whose precondition does not hold yet is put under
  blocked, never under pending (its reason is "precondition_failed"); and a PENDING step held
  up only by a dependency that has not run yet is blocked whenever the dependency's id
  contains "failed" or "blocked".\<close>

theorem blocked_by_reason_text:
  assumes "calculate p = Some sc" and "s \<in> set (pl_steps p)" and "ps_status s = Step_PENDING"
  shows "(dependency_obstacle (index_steps (pl_steps p)) (ps_depends s) = None \<and>
      map_option fst (evaluate_step_preconditions (phase_preconditions SCHEDULING s) []) = Some False \<longrightarrow>
        s \<in> set (sc_blocked sc) \<and> s \<notin> set (sc_pending sc)) \<and>
    (dependency_obstacle (index_steps (pl_steps p)) (ps_depends s) = Some (''dependency_'' @ d @ ''_not_verified'') \<and>
      (contains ''failed'' d \<or> contains ''blocked'' d) \<longrightarrow>
        s \<in> set (sc_blocked sc) \<and> s \<notin> set (sc_pending sc))"
proof -
  let ?by = "index_steps (pl_steps p)"
  have opn: "ps_status s = Step_PENDING \<or> ps_status s = Step_PLANNED" using assms(3) by simp
  have pf: "contains ''failed'' ''precondition_failed''" by code_simp
  have inside: "contains w (''dependency_'' @ d @ ''_not_verified'')" if "contains w d" for w
    using that unfolding contains_iff_sublist by (meson sublist_append_leftI sublist_append_rightI sublist_order.order_trans)
  have "classify_step ?by s = Some Blocked"
    if "dependency_obstacle ?by (ps_depends s) = None"
      "map_option fst (evaluate_step_preconditions (phase_preconditions SCHEDULING s) []) = Some False"
    using that pf by (auto simp: classify_open[OF opn] eligibility_fst[OF opn] split: option.splits)
  moreover have "classify_step ?by s = Some Blocked"
    if "dependency_obstacle ?by (ps_depends s) = Some (''dependency_'' @ d @ ''_not_verified'')"
      "contains ''failed'' d \<or> contains ''blocked'' d"
    using that inside by (auto simp del: contains.simps append.simps simp: classify_open[OF opn] eligibility_fst[OF opn])
  ultimately show ?thesis
    using calculate_classify(2,3)[OF assms(1)] assms(2) by auto
qed

theorem blocked_by_reason_text_witness:
  "\<exists>sc. calculate (sample_plan Step_VERIFIED) = Some sc \<and> ''report'' \<in> ps_id ` set (sc_blocked sc)"
proof -
  let ?p = "sample_plan Step_VERIFIED" and ?s = "plain_step ''report'' ''x'' [''retry_failed'']"
  obtain sc where sc: "calculate ?p = Some sc" using sample_plan_schedule by blast
  have "?s \<in> set (pl_steps ?p)" "ps_status ?s = Step_PENDING" "ps_id ?s = ''report''"
    by (simp_all add: sample_plan_def plain_step_def)
  moreover have "dependency_obstacle (index_steps (pl_steps ?p)) (ps_depends ?s) =
      Some (''dependency_'' @ ''retry_failed'' @ ''_not_verified'')" by code_simp
  moreover have "contains ''failed'' ''retry_failed''" by code_simp
  ultimately have "?s \<in> set (sc_blocked sc)"
    using blocked_by_reason_text[OF sc, of ?s "''retry_failed''"] by blast
  with sc \<open>ps_id ?s = ''report''\<close> show ?thesis by (metis imageI)
qed

text \<open>A step sees the context of exactly the steps it builds on. For a step of a validated plan
  the dependency context exists and carries the entries of the execution context for the steps
  it depends on directly or transitively, and for no other step.\<close>

theorem dependency_context_exact:
  assumes "validate_plan sha p = Inr q" and "s \<in> set (pl_steps p)"
    and "dict_get_or ctx ''steps'' (PDict []) = PDict steps_ctx"
  shows "\<exists>entries. build_step_dependency_context p s ctx =
       Some [(''runtime'', dict_get_or ctx ''runtime'' (PDict [])), (''steps'', PDict entries)] \<and>
     set entries = {(d, dict_get steps_ctx d) | d. (ps_id s, d) \<in> (dep_edges (pl_steps p))\<^sup>+ \<and> has_key steps_ctx d}"
proof -
  have dag: "distinct (map ps_id (pl_steps p))"
      "\<forall>s\<in>set (pl_steps p). set (ps_depends s) \<subseteq> ps_id ` set (pl_steps p)"
    using assms(1) check_dependencies_iff[of "pl_steps p"] by (auto simp: validate_plan_def split: sum.splits)
  let ?by = "index_steps (pl_steps p)"
  have known: "map_of ?by d \<noteq> None" if "t \<in> set (pl_steps p)" "d \<in> set (ps_depends t)" for t d
    using dag(2) that map_of_index_None[of "pl_steps p" d] by blast
  obtain a where a: "close_allowed ?by (ps_depends s) = Some a"
    using close_allowed_known[of "ps_depends s" ?by] known assms(2) map_of_index_Some by metis
  from close_allowed_transitive[OF dag(1) assms(2) a] a assms(3) show ?thesis
    by (auto simp: build_step_dependency_context_def)
qed

theorem dependency_context_exact_witness:
  "\<exists>entries. build_step_dependency_context (sample_plan Step_VERIFIED) (plain_step ''report'' ''x'' [''retry_failed''])
     [(''steps'', PDict [(''fetch'', PInt 1), (''other'', PInt 2)])] =
       Some [(''runtime'', PDict []), (''steps'', PDict entries)]"
proof -
  obtain q where q: "validate_plan (\<lambda>s. s) (sample_plan Step_VERIFIED) = Inr q" using sample_plan_valid by blast
  have "plain_step ''report'' ''x'' [''retry_failed''] \<in> set (pl_steps (sample_plan Step_VERIFIED))"
    by (simp add: sample_plan_def)
  from dependency_context_exact[OF q this, of "[(''steps'', PDict [(''fetch'', PInt 1), (''other'', PInt 2)])]"
      "[(''fetch'', PInt 1), (''other'', PInt 2)]"]
  show ?thesis by (auto simp: dict_get_or_def)
qed

end
