(* ===== verification/PlanStore.thy ===== *)
theory PlanStore imports TaskGraph Stores begin

text \<open>
  \<open>src/lhas/persistence/planning_repositories.py\<close>: goals, plans and plan steps as table rows,
  and the version-guarded update a replan commits with.

  \<^item> JSON columns hold the value itself (the text round trip is the library's). Worker role,
    required capabilities and skills have no column: they travel inside the inputs.
  \<^item> A step row is keyed by the step id alone, as in the schema.
  \<^item> A failing session leaves the tables as they were (it rolls back).
\<close>

section \<open>Rows\<close>

record plan_row =
  pr_id :: string
  pr_goal :: string
  pr_version :: string
  pr_mode :: plan_mode
  pr_status :: plan_status
  pr_metadata :: pydict
  pr_invalidated :: "string list"

text \<open>\<open>sr_step\<close> holds the columns; its role, requirement and skill fields are not stored.\<close>

record step_row =
  sr_plan :: string
  sr_position :: nat
  sr_step :: plan_step

record plan_db =
  pd_goals :: "goal list"
  pd_plans :: "plan_row list"
  pd_steps :: "step_row list"

datatype store_error =
    Plan_version_conflict
  | Missing_plan_row string
  | Duplicate_row string
  | Invalid_plan plan_error

definition sr_id :: "step_row \<Rightarrow> string" where
  "sr_id r = ps_id (sr_step r)"

interpretation goal_rows: row_store "row_get gl_id" row_create "row_update gl_id" gl_id
  by unfold_locales (erule row_get_key row_get_create row_get_update row_update_missing)+

interpretation plan_rows: row_store "row_get pr_id" row_create "row_update pr_id" pr_id
  by unfold_locales (erule row_get_key row_get_create row_get_update row_update_missing)+

interpretation step_rows: row_store "row_get sr_id" row_create "row_update sr_id" sr_id
  by unfold_locales (erule row_get_key row_get_create row_get_update row_update_missing)+

section \<open>Goals\<close>

definition goal_create :: "goal \<Rightarrow> plan_db \<Rightarrow> plan_db" where
  "goal_create g db =
     (if row_get gl_id (gl_id g) (pd_goals db) = None
      then db\<lparr>pd_goals := row_create g (pd_goals db)\<rparr> else db)"

definition goal_get :: "string \<Rightarrow> plan_db \<Rightarrow> goal option" where
  "goal_get i db = row_get gl_id i (pd_goals db)"

section \<open>Steps in and out of rows\<close>

definition step_inputs :: "plan_step \<Rightarrow> pydict" where
  "step_inputs s =
     AList.update ''_agent_platform'' (PDict
       [(''suggested_role'', PStr (ps_role s)), (''required_capabilities'', str_list (ps_required s)),
        (''optional_skill_refs'', str_list (ps_skills s))]) (ps_inputs s)"

definition step_row_of :: "string \<Rightarrow> nat \<Rightarrow> plan_step \<Rightarrow> step_row" where
  "step_row_of pid n s =
     \<lparr>sr_plan = pid, sr_position = n,
      sr_step = s\<lparr>ps_inputs := step_inputs s, ps_role := [], ps_required := [], ps_skills := []\<rparr>\<rparr>"

definition update_step_row :: "nat \<Rightarrow> plan_step \<Rightarrow> step_row \<Rightarrow> step_row" where
  "update_step_row n s r = (step_row_of (sr_plan r) n s)"

definition py_strings :: "pyval \<Rightarrow> string list" where
  "py_strings v = (case v of PList xs \<Rightarrow> map py_str xs | _ \<Rightarrow> [])"

definition or_text :: "string \<Rightarrow> string \<Rightarrow> string" where
  "or_text a b = (if a = [] then b else a)"

definition step_of_row :: "step_row \<Rightarrow> plan_step" where
  "step_of_row r =
     (let s = sr_step r;
          agent = (case as_dict (dict_get_or (ps_inputs s) ''_agent_platform'' (PDict [])) of
                     None \<Rightarrow> [] | Some d \<Rightarrow> d)
      in s\<lparr>ps_inputs := AList.delete ''_agent_platform'' (ps_inputs s),
           ps_role := py_str (dict_get_or agent ''suggested_role'' (PStr ''WORKER'')),
           ps_required := py_strings (dict_get_or agent ''required_capabilities'' (PList [])),
           ps_skills := py_strings (dict_get_or agent ''optional_skill_refs'' (PList [])),
           ps_risk := or_text (ps_risk s) ''LOW'',
           ps_checkpoint := or_text (ps_checkpoint s) ''ON_FAILURE'',
           ps_recovery := or_text (ps_recovery s) ''RETRY_WITH_FAILURE_CONTEXT''\<rparr>)"

section \<open>Plans\<close>

definition stored_metadata :: "plan \<Rightarrow> pydict" where
  "stored_metadata p = AList.update ''replan_count'' (PInt (int (pl_replan_count p))) (pl_metadata p)"

definition plan_row_of :: "plan \<Rightarrow> plan_row" where
  "plan_row_of p =
     \<lparr>pr_id = pl_id p, pr_goal = pl_goal p, pr_version = pl_version p, pr_mode = pl_mode p,
      pr_status = pl_status p, pr_metadata = stored_metadata p, pr_invalidated = pl_invalidated p\<rparr>"

fun enumerate_rows :: "string \<Rightarrow> nat \<Rightarrow> plan_step list \<Rightarrow> step_row list" where
  "enumerate_rows pid n [] = []"
| "enumerate_rows pid n (s # ss) = step_row_of pid n s # enumerate_rows pid (Suc n) ss"

text \<open>Inserting a row whose primary key exists fails.\<close>

definition plan_create :: "plan \<Rightarrow> plan_db \<Rightarrow> store_error + plan_db" where
  "plan_create p db =
     (if row_get pr_id (pl_id p) (pd_plans db) \<noteq> None then Inl (Duplicate_row (pl_id p))
      else case List.find (\<lambda>s. row_get sr_id (ps_id s) (pd_steps db) \<noteq> None) (pl_steps p) of
             Some s \<Rightarrow> Inl (Duplicate_row (ps_id s))
           | None \<Rightarrow>
               if \<not> distinct (map ps_id (pl_steps p)) then Inl (Duplicate_row (pl_id p))
               else Inr (db\<lparr>pd_plans := row_create (plan_row_of p) (pd_plans db),
                            pd_steps := pd_steps db @ enumerate_rows (pl_id p) 0 (pl_steps p)\<rparr>))"

text \<open>\<open>p.steps.index(x)\<close>: the position of the first equal step.\<close>

definition position_of :: "plan_step \<Rightarrow> plan_step list \<Rightarrow> nat" where
  "position_of s steps = length (takeWhile (\<lambda>t. t \<noteq> s) steps)"

definition upsert_step :: "plan \<Rightarrow> plan_step \<Rightarrow> step_row list \<Rightarrow> step_row list" where
  "upsert_step p s rows =
     (let n = position_of s (pl_steps p) in
      case row_get sr_id (ps_id s) rows of
        None \<Rightarrow> rows @ [step_row_of (pl_id p) n s]
      | Some r \<Rightarrow> map (\<lambda>q. if sr_id q = ps_id s then update_step_row n s q else q) rows)"

definition write_plan_row :: "plan \<Rightarrow> plan_row \<Rightarrow> plan_row" where
  "write_plan_row p r =
     r\<lparr>pr_status := pl_status p, pr_version := pl_version p, pr_metadata := stored_metadata p,
       pr_invalidated := pl_invalidated p\<rparr>"

definition store_plan :: "plan \<Rightarrow> plan_row \<Rightarrow> plan_db \<Rightarrow> plan_db" where
  "store_plan p r db =
     db\<lparr>pd_plans := map (\<lambda>q. if pr_id q = pr_id r then write_plan_row p r else q) (pd_plans db),
        pd_steps := fold (upsert_step p) (pl_steps p) (pd_steps db)\<rparr>"

definition plan_update :: "plan \<Rightarrow> plan_db \<Rightarrow> store_error + plan_db" where
  "plan_update p db =
     (case row_get pr_id (pl_id p) (pd_plans db) of
        None \<Rightarrow> Inl (Missing_plan_row (pl_id p))
      | Some r \<Rightarrow> Inr (store_plan p r db))"

definition update_if_version :: "plan \<Rightarrow> string \<Rightarrow> plan_db \<Rightarrow> store_error + plan_db" where
  "update_if_version p expected db =
     (case row_get pr_id (pl_id p) (pd_plans db) of
        None \<Rightarrow> Inl Plan_version_conflict
      | Some r \<Rightarrow> if pr_version r \<noteq> expected then Inl Plan_version_conflict else Inr (store_plan p r db))"

text \<open>The steps of a plan by position; the models are validated again.\<close>

definition plan_steps_of :: "string \<Rightarrow> plan_db \<Rightarrow> plan_step list" where
  "plan_steps_of pid db = map step_of_row (sort_key sr_position [r \<leftarrow> pd_steps db. sr_plan r = pid])"

definition metadata_count :: "pydict \<Rightarrow> nat" where
  "metadata_count m = (case dict_get_or m ''replan_count'' (PInt 0) of PInt i \<Rightarrow> nat i | _ \<Rightarrow> 0)"

definition plan_get :: "(string \<Rightarrow> string) \<Rightarrow> string \<Rightarrow> plan_db \<Rightarrow> store_error + plan option" where
  "plan_get sha pid db =
     (case row_get pr_id pid (pd_plans db) of
        None \<Rightarrow> Inr None
      | Some r \<Rightarrow>
          (let steps = plan_steps_of pid db;
               p = \<lparr>pl_id = pr_id r, pl_goal = pr_goal r, pl_version = pr_version r, pl_mode = pr_mode r,
                    pl_status = pr_status r, pl_steps = steps, pl_metadata = pr_metadata r,
                    pl_invalidated = pr_invalidated r, pl_replan_count = metadata_count (pr_metadata r)\<rparr>
           in case List.find (\<lambda>s. ps_id s \<in> set (ps_depends s) \<or> \<not> distinct (ps_depends s)) steps of
                Some s \<Rightarrow> Inl (Invalid_plan (Self_dependency (ps_id s)))
              | None \<Rightarrow> (case validate_plan sha p of
                           Inl e \<Rightarrow> Inl (Invalid_plan e) | Inr q \<Rightarrow> Inr (Some q))))"

section \<open>Lemmas\<close>

lemma py_strings_str_list [simp]: "py_strings (str_list xs) = xs"
  by (simp add: py_strings_def str_list_def comp_def)

lemma delete_update_fresh:
  "k \<notin> fst ` set d \<Longrightarrow> AList.delete k (AList.update k v d) = d"
  by (induction d) (auto simp: AList.delete_eq)

lemma step_row_roundtrip:
  assumes "''_agent_platform'' \<notin> fst ` set (ps_inputs s)"
    and "ps_risk s \<noteq> []" and "ps_checkpoint s \<noteq> []" and "ps_recovery s \<noteq> []"
  shows "step_of_row (step_row_of pid n s) = s"
proof -
  have "dict_get_or (step_inputs s) ''_agent_platform'' v = PDict
       [(''suggested_role'', PStr (ps_role s)), (''required_capabilities'', str_list (ps_required s)),
        (''optional_skill_refs'', str_list (ps_skills s))]" for v
    by (simp add: dict_get_or_def step_inputs_def)
  moreover have "AList.delete ''_agent_platform'' (step_inputs s) = ps_inputs s"
    unfolding step_inputs_def by (rule delete_update_fresh[OF assms(1)])
  ultimately show ?thesis
    using assms(2-4) by (simp add: step_of_row_def step_row_of_def Let_def dict_get_or_def or_text_def)
qed

lemma enumerate_rows_facts:
  "sorted (map sr_position (enumerate_rows pid n ss)) \<and>
   (\<forall>r\<in>set (enumerate_rows pid n ss). sr_plan r = pid \<and> n \<le> sr_position r) \<and>
   map sr_id (enumerate_rows pid n ss) = map ps_id ss"
proof (induction ss arbitrary: n)
  case (Cons s ss)
  have "sr_plan (step_row_of pid n s) = pid" "sr_position (step_row_of pid n s) = n"
    "sr_id (step_row_of pid n s) = ps_id s"
    by (simp_all add: step_row_of_def sr_id_def)
  with Cons.IH[of "Suc n"] show ?case by auto
qed simp

lemma enumerate_rows_roundtrip:
  assumes "\<And>s m. s \<in> set ss \<Longrightarrow> step_of_row (step_row_of pid m s) = s"
  shows "map step_of_row (enumerate_rows pid n ss) = ss"
  using assms by (induction ss arbitrary: n) auto

lemma store_plan_rows:
  assumes "row_get pr_id (pl_id p) (pd_plans db) = Some r"
  shows "row_get pr_id k (pd_plans (store_plan p r db)) =
    (if k = pl_id p then Some (write_plan_row p r) else row_get pr_id k (pd_plans db))"
proof -
  have id: "pr_id r = pl_id p" by (rule row_get_key[OF assms])
  have wid: "pr_id (write_plan_row p r) = pr_id r" by (simp add: write_plan_row_def)
  have "row_update pr_id (write_plan_row p r) (pd_plans db) = Some (pd_plans (store_plan p r db))"
    using assms id wid by (simp add: row_update_def store_plan_def)
  moreover obtain rows where "row_update pr_id (write_plan_row p r) (pd_plans db) = Some rows"
      "\<forall>k. row_get pr_id k rows = (if k = pr_id (write_plan_row p r) then Some (write_plan_row p r)
          else row_get pr_id k (pd_plans db))"
    using plan_rows.get_update[of "write_plan_row p r" "pd_plans db" r] assms id wid by auto
  ultimately show ?thesis using id wid by simp
qed

lemma update_if_version_cases:
  assumes "update_if_version p expected db = Inr db'"
  obtains r where "row_get pr_id (pl_id p) (pd_plans db) = Some r" "pr_version r = expected"
    "row_get pr_id (pl_id p) (pd_plans db') = Some (write_plan_row p r)"
    "\<And>k. k \<noteq> pl_id p \<Longrightarrow> row_get pr_id k (pd_plans db') = row_get pr_id k (pd_plans db)"
    "db' = store_plan p r db"
proof -
  from assms obtain r where r: "row_get pr_id (pl_id p) (pd_plans db) = Some r" "pr_version r = expected"
      "db' = store_plan p r db"
    by (auto simp: update_if_version_def split: option.splits if_splits)
  with store_plan_rows[OF r(1)] show ?thesis by (intro that[OF r(1,2)]) auto
qed

definition empty_plan_db :: plan_db where
  "empty_plan_db = \<lparr>pd_goals = [], pd_plans = [], pd_steps = []\<rparr>"

definition tiny_plan :: plan where
  "tiny_plan =
     \<lparr>pl_id = ''p'', pl_goal = ''g'', pl_version = ''P-0.1'', pl_mode = LINEAR, pl_status = Plan_READY,
      pl_steps = [], pl_metadata = [], pl_invalidated = [], pl_replan_count = 0\<rparr>"

definition sample_row_plan :: "(string \<Rightarrow> string) \<Rightarrow> plan" where
  "sample_row_plan sha =
     tiny_plan\<lparr>pl_steps := with_fingerprints sha [plain_step ''a'' ''x'' [], plain_step ''b'' ''y'' [''a'']]\<rparr>"

section \<open>Properties\<close>

text \<open>C13: A stored plan is read back as it was. Creating a validated plan whose ids are new, and
  whose steps do not use the reserved input key and name their policies, succeeds, and reading
  it returns the plan itself, with its steps in order and its replan count recorded in the
  metadata.\<close>

theorem plan_roundtrip:
  assumes "validate_plan sha p = Inr p"
    and "list_all (\<lambda>s. ps_id s \<notin> set (ps_depends s) \<and> distinct (ps_depends s) \<and>
           ''_agent_platform'' \<notin> fst ` set (ps_inputs s) \<and>
           ps_risk s \<noteq> [] \<and> ps_checkpoint s \<noteq> [] \<and> ps_recovery s \<noteq> []) (pl_steps p)"
    and "row_get pr_id (pl_id p) (pd_plans db) = None"
    and "list_all (\<lambda>r. sr_plan r \<noteq> pl_id p \<and> sr_id r \<notin> ps_id ` set (pl_steps p)) (pd_steps db)"
  shows "\<exists>db'. plan_create p db = Inr db' \<and>
    plan_get sha (pl_id p) db' = Inr (Some (p\<lparr>pl_metadata := stored_metadata p\<rparr>))"
proof -
  have dag: "distinct (map ps_id (pl_steps p))" "check_dependencies (pl_steps p) = Inr ()"
    using assms(1) check_dependencies_iff[of "pl_steps p"] by (auto simp: validate_plan_def split: sum.splits)
  have fp: "with_fingerprints sha (pl_steps p) = pl_steps p"
    using assms(1) dag(2) by (auto simp: validate_plan_def) (metis plan.select_convs(6) plan.update_convs(6) plan.surjective)
  have "List.find (\<lambda>s. row_get sr_id (ps_id s) (pd_steps db) \<noteq> None) (pl_steps p) = None"
    using assms(4) by (force simp: find_None_iff_all row_get_def list_all_iff)
  then have cr: "plan_create p db = Inr (db\<lparr>pd_plans := row_create (plan_row_of p) (pd_plans db),
      pd_steps := pd_steps db @ enumerate_rows (pl_id p) 0 (pl_steps p)\<rparr>)" (is "_ = Inr ?db")
    using assms(3) dag(1) by (simp add: plan_create_def)
  note er = enumerate_rows_facts[of "pl_id p" 0 "pl_steps p"]
  have "[r \<leftarrow> pd_steps ?db. sr_plan r = pl_id p] = enumerate_rows (pl_id p) 0 (pl_steps p)"
    using er assms(4) by (simp add: filter_id_conv filter_empty_conv list_all_iff)
  moreover have "sort_key sr_position (enumerate_rows (pl_id p) 0 (pl_steps p)) = enumerate_rows (pl_id p) 0 (pl_steps p)"
    by (rule sort_key_id_if_sorted) (simp add: er)
  moreover have "map step_of_row (enumerate_rows (pl_id p) 0 (pl_steps p)) = pl_steps p"
    by (rule enumerate_rows_roundtrip, rule step_row_roundtrip) (use assms(2) in \<open>auto simp: list_all_iff\<close>)
  ultimately have steps: "plan_steps_of (pl_id p) ?db = pl_steps p" by (simp add: plan_steps_of_def)
  have row: "row_get pr_id (pl_id p) (pd_plans ?db) = Some (plan_row_of p)"
    using row_get_create[of pr_id "plan_row_of p" "pd_plans db" "pl_id p"] assms(3) by (simp add: plan_row_of_def)
  have bad: "List.find (\<lambda>s. ps_id s \<in> set (ps_depends s) \<or> \<not> distinct (ps_depends s)) (pl_steps p) = None"
    using assms(2) by (auto simp: find_None_iff_all list_all_iff)
  have count: "metadata_count (stored_metadata p) = pl_replan_count p"
    by (simp add: metadata_count_def stored_metadata_def dict_get_or_def)
  have "plan_get sha (pl_id p) ?db = Inr (Some (p\<lparr>pl_metadata := stored_metadata p\<rparr>))"
    using row steps bad dag(2) fp count
    by (simp add: plan_get_def plan_row_of_def validate_plan_def Let_def)
  with cr show ?thesis by blast
qed

theorem plan_roundtrip_witness:
  "\<exists>db'. plan_create (sample_row_plan (\<lambda>_. ''h'')) empty_plan_db = Inr db' \<and>
     plan_get (\<lambda>_. ''h'') ''p'' db' = Inr (Some ((sample_row_plan (\<lambda>_. ''h''))\<lparr>pl_metadata :=
       stored_metadata (sample_row_plan (\<lambda>_. ''h''))\<rparr>))"
proof -
  let ?p = "sample_row_plan (\<lambda>_. ''h'')"
  have steps: "pl_steps ?p = [(plain_step ''a'' ''x'' [])\<lparr>ps_fingerprint := Some ''h''\<rparr>,
      (plain_step ''b'' ''y'' [''a''])\<lparr>ps_fingerprint := Some ''h''\<rparr>]"
    by (simp add: sample_row_plan_def with_fingerprints_def step_fingerprint_def fingerprint.simps stable_hash_def Let_def)
  have fp: "with_fingerprints (\<lambda>_. ''h'') (pl_steps ?p) = pl_steps ?p"
    unfolding steps by (simp add: with_fingerprints_def step_fingerprint_def fingerprint.simps stable_hash_def Let_def)
  have "check_dependencies (pl_steps ?p) = Inr ()" unfolding steps by code_simp
  then have v: "validate_plan (\<lambda>_. ''h'') ?p = Inr ?p" using fp by (simp add: validate_plan_def)
  have id: "pl_id ?p = ''p''" by (simp add: sample_row_plan_def tiny_plan_def)
  show ?thesis
    unfolding id[symmetric]
    by (rule plan_roundtrip[OF v]) (simp_all add: steps plain_step_def empty_plan_db_def row_get_def)
qed

text \<open>Of two writers with the same base only one commits. A version-guarded update succeeds
  only if the stored version is the expected one and then stores the new version; a second
  writer that still expects the old version conflicts, and a conflicting update returns no
  new tables.\<close>

theorem version_guard_excludes_lost_update:
  assumes "update_if_version p expected db = Inr db1" and "pl_version p \<noteq> expected" and "pl_id q = pl_id p"
  shows "(\<exists>r. row_get pr_id (pl_id p) (pd_plans db) = Some r \<and> pr_version r = expected) \<and>
    map_option pr_version (row_get pr_id (pl_id p) (pd_plans db1)) = Some (pl_version p) \<and>
    update_if_version q expected db1 = Inl Plan_version_conflict"
proof -
  obtain r where r: "row_get pr_id (pl_id p) (pd_plans db) = Some r" "pr_version r = expected"
      "row_get pr_id (pl_id p) (pd_plans db1) = Some (write_plan_row p r)"
    using update_if_version_cases[OF assms(1)] by blast
  with assms(2,3) show ?thesis by (simp add: update_if_version_def write_plan_row_def)
qed

theorem version_guard_excludes_lost_update_witness:
  "update_if_version (tiny_plan\<lparr>pl_version := ''P-0.1-r1b''\<rparr>) ''P-0.1''
     (projr (update_if_version (tiny_plan\<lparr>pl_version := ''P-0.1-r1''\<rparr>) ''P-0.1''
       (projr (plan_create tiny_plan empty_plan_db)))) = Inl Plan_version_conflict"
proof -
  let ?p = "tiny_plan\<lparr>pl_version := ''P-0.1-r1''\<rparr>"
  let ?r = "update_if_version ?p ''P-0.1'' (projr (plan_create tiny_plan empty_plan_db))"
  have "\<not> isl ?r" by code_simp
  then have "?r = Inr (projr ?r)" by (metis sum.collapse(2))
  from version_guard_excludes_lost_update[OF this, of "tiny_plan\<lparr>pl_version := ''P-0.1-r1b''\<rparr>"]
  show ?thesis by (simp add: tiny_plan_def)
qed

end
