(* ===== verification/Replan.thy ===== *)
theory Replan imports RecoveryCtl RepairScope PlanStore begin

text \<open>
  \<open>src/lhas/planning/replan.py\<close>: \<open>MacroReplanService\<close> consumes durable replan signals (the
  rows \<open>RecoveryController\<close> wrote) and revises the stored plan under a version guard.

  \<^item> The planner is external: a function from what it is given to the proposed plan.
  \<^item> Between reading the plan and committing, other writers may run: \<open>others\<close> is what they do
    to the tables.
  \<^item> Truncating a Python set to its last hundred elements keeps an arbitrary choice of them:
    \<open>enum\<close> is the order in which the set of consumed signal ids is listed.
\<close>

section \<open>The affected subgraph\<close>

definition signal_seeds :: "replan_signal list \<Rightarrow> string list" where
  "signal_seeds signals =
     remdups (concat (map (\<lambda>g. case rs_failed_node g of None \<Rightarrow> [] | Some i \<Rightarrow> if i = [] then [] else [i]) signals))"

primrec affected_pass :: "plan_step list \<Rightarrow> string list \<Rightarrow> string list" where
  "affected_pass [] aff = aff"
| "affected_pass (s # ss) aff =
     affected_pass ss
       (if ps_id s \<notin> set aff \<and> list_ex (\<lambda>d. d \<in> set aff) (ps_depends s) then ps_id s # aff else aff)"

lemma affected_pass_grows: "\<exists>new. affected_pass ss aff = new @ aff \<and> set new \<subseteq> ps_id ` set ss - set aff"
proof (induction ss arbitrary: aff)
  case (Cons s ss)
  let ?a = "if ps_id s \<notin> set aff \<and> list_ex (\<lambda>d. d \<in> set aff) (ps_depends s) then ps_id s # aff else aff"
  obtain new where "affected_pass ss ?a = new @ ?a" "set new \<subseteq> ps_id ` set ss - set ?a"
    using Cons.IH by blast
  then show ?case by (auto split: if_splits)
qed simp

function affected_loop :: "plan_step list \<Rightarrow> string list \<Rightarrow> string list" where
  "affected_loop steps aff =
     (let aff' = affected_pass steps aff in if aff' = aff then aff else affected_loop steps aff')"
  by pat_completeness auto
termination
proof (relation "measure (\<lambda>(steps, aff). card (ps_id ` set steps - set aff))", goal_cases)
  case 1
  show ?case by simp
next
  case (2 steps aff aff')
  obtain new where new: "affected_pass steps aff = new @ aff" "set new \<subseteq> ps_id ` set steps - set aff"
    using affected_pass_grows by blast
  with 2 have "new \<noteq> []" by auto
  with new 2 have "ps_id ` set steps - set aff' \<subset> ps_id ` set steps - set aff"
    by (cases new) auto
  then show ?case by (simp add: psubset_card_mono)
qed

declare affected_loop.simps [simp del]

definition affected_subgraph :: "plan \<Rightarrow> replan_signal list \<Rightarrow> string list" where
  "affected_subgraph p signals = affected_loop (pl_steps p) (signal_seeds signals)"

section \<open>Strategies\<close>

definition step_strategy :: "plan_step \<Rightarrow> string \<times> string" where
  "step_strategy s = (ps_capability s, json_dumps '', '' '': '' (PDict (ps_inputs s)))"

definition completed_strategy :: "plan_step list \<Rightarrow> (string \<times> string) list" where
  "completed_strategy steps = map step_strategy [s \<leftarrow> steps. ps_status s \<in> terminal_verified]"

definition current_strategy :: "plan_step list \<Rightarrow> (string \<times> string) list" where
  "current_strategy steps =
     map step_strategy [s \<leftarrow> steps. ps_status s \<notin> terminal_verified \<union> {Step_STALE}]"

definition proposed_strategy :: "plan_step list \<Rightarrow> plan_step list \<Rightarrow> (string \<times> string) list" where
  "proposed_strategy old new = fold remove1 (completed_strategy old) (map step_strategy new)"

definition strategy_fingerprint :: "(string \<Rightarrow> string) \<Rightarrow> (string \<times> string) list \<Rightarrow> string" where
  "strategy_fingerprint sha st = stable_hash sha (PList (map (\<lambda>(c, i). PList [PStr c, PStr i]) st))"

section \<open>Revising the graph\<close>

text \<open>Mark the steps that satisfy \<open>P\<close> stale, in order; the ids that were marked.\<close>

fun stale_where ::
  "(plan_step \<Rightarrow> bool) \<Rightarrow> string \<Rightarrow> string \<Rightarrow> plan_step list \<Rightarrow> event_log \<Rightarrow>
   plan_step list \<times> event_log \<times> string list"
where
  "stale_where P reason pid [] log = ([], log, [])"
| "stale_where P reason pid (s # ss) log =
     (if P s then
        let (s', log1) = transition_step Step_STALE reason (Some pid) [] s log;
            (ss', log2, ids) = stale_where P reason pid ss log1
        in (s' # ss', log2, ps_id s # ids)
      else let (ss', log2, ids) = stale_where P reason pid ss log in (s # ss', log2, ids))"

text \<open>\<open>old_by_fingerprint\<close>: the first completed step of each fingerprint.\<close>

definition completed_by_fingerprint :: "(string \<Rightarrow> string) \<Rightarrow> plan_step list \<Rightarrow> step_index" where
  "completed_by_fingerprint sha steps =
     map (\<lambda>s. (step_fingerprint sha s (index_steps steps), s)) [s \<leftarrow> steps. ps_status s \<in> terminal_verified]"

text \<open>
  The preservation loop. A proposed step keeps its original id as its key in the index the
  fingerprints consult, while the step object there already carries the changes of earlier
  iterations. The last component maps original ids to the ids of the completed steps.
\<close>

fun preserve ::
  "(string \<Rightarrow> string) \<Rightarrow> step_index \<Rightarrow> string \<Rightarrow> step_index \<Rightarrow> step_index \<Rightarrow> event_log \<Rightarrow>
   (string \<times> string) list \<Rightarrow> step_index \<times> event_log \<times> (string \<times> string) list"
where
  "preserve sha old pid kept [] log remap = (kept, log, remap)"
| "preserve sha old pid kept ((k, s) # todo) log remap =
     (case map_of old (step_fingerprint sha s (kept @ (k, s) # todo)) of
        None \<Rightarrow> preserve sha old pid (kept @ [(k, s)]) todo log remap
      | Some c \<Rightarrow>
          (let (s1, log1) = transition_step Step_VERIFIED ''replan_preserved_verified'' (Some pid) []
                              (s\<lparr>ps_id := ps_id c\<rparr>) log;
               s2 = s1\<lparr>ps_output := ps_output c, ps_task := ps_task c, ps_context := ps_context c\<rparr>
           in preserve sha old pid (kept @ [(k, s2)]) todo log1 (remap @ [(k, ps_id c)])))"

definition remap_depends :: "(string \<times> string) list \<Rightarrow> plan_step \<Rightarrow> plan_step" where
  "remap_depends remap s =
     s\<lparr>ps_depends := map (\<lambda>d. case map_of remap d of Some i \<Rightarrow> i | None \<Rightarrow> d) (ps_depends s)\<rparr>"

record revision =
  rv_steps :: "plan_step list"
  rv_invalidated :: "string list"
  rv_preserved :: "string list"
  rv_log :: event_log

definition revise ::
  "(string \<Rightarrow> string) \<Rightarrow> plan \<Rightarrow> plan_step list \<Rightarrow> string list \<Rightarrow> event_log \<Rightarrow> revision" where
  "revise sha p proposal affected log =
     (let pid = pl_id p;
          old = completed_by_fingerprint sha (pl_steps p);
          proposal_ids = map ps_id proposal;
          (st1, log1, inv1) = stale_where (\<lambda>s. ps_id s \<in> set affected \<and>
             ps_status s \<notin> terminal_verified \<union> {Step_STALE}) ''replan_invalidation'' pid (pl_steps p) log;
          (props, log2, remap) = preserve sha old pid [] (map (\<lambda>s. (ps_id s, s)) proposal) log1 [];
          preserved = map snd remap;
          (st2, log3, inv2) = stale_where (\<lambda>s. ps_id s \<in> set affected \<and>
             ps_status s \<in> terminal_verified \<and> ps_id s \<notin> set preserved) ''replan_unpreserved'' pid st1 log2;
          (st3, log4, _) = stale_where (\<lambda>s. ps_id s \<notin> set proposal_ids \<and> ps_id s \<notin> set affected \<and>
             ps_status s \<notin> terminal_verified \<union> {Step_STALE}) ''replan_superseded_unaffected'' pid st2 log3;
          retained = [s \<leftarrow> st3. ps_id s \<notin> set preserved \<and> ps_id s \<notin> set proposal_ids \<and>
             ps_status s \<in> terminal_verified \<union> {Step_STALE}]
      in \<lparr>rv_steps = with_fingerprints sha (retained @ map (remap_depends remap) (map snd props)),
          rv_invalidated = inv1 @ inv2, rv_preserved = preserved, rv_log = log4\<rparr>)"

definition extend_new :: "string list \<Rightarrow> string list \<Rightarrow> string list" where
  "extend_new base items = fold (\<lambda>i acc. if i \<in> set acc then acc else acc @ [i]) items base"

definition consumed_ids :: "pydict \<Rightarrow> string list" where
  "consumed_ids m = py_strings (dict_get_or m ''consumed_replan_signal_ids'' (PList []))"

definition replan_metadata ::
  "(string set \<Rightarrow> string list) \<Rightarrow> replan_signal list \<Rightarrow> nat \<Rightarrow> pydict \<Rightarrow> pydict" where
  "replan_metadata enum signals count m =
     dict_merge m
       [(''last_replan_reason'', PStr (rs_reason (last signals))),
        (''last_replan_signal_ids'', str_list (map rs_id (last_n 20 signals))),
        (''consumed_replan_signal_ids'',
           str_list (last_n 100 (enum (set (consumed_ids m) \<union> set (map rs_id signals))))),
        (''replan_count'', PInt (int count))]"

definition revised_plan ::
  "(string set \<Rightarrow> string list) \<Rightarrow> replan_signal list \<Rightarrow> plan \<Rightarrow> revision \<Rightarrow> plan" where
  "revised_plan enum signals p rv =
     p\<lparr>pl_steps := rv_steps rv,
       pl_version := pl_version p @ ''-r'' @ nat_digits (pl_replan_count p + 1),
       pl_replan_count := pl_replan_count p + 1, pl_status := Plan_RUNNING,
       pl_invalidated := extend_new (pl_invalidated p) (rv_invalidated rv),
       pl_metadata := replan_metadata enum signals (pl_replan_count p + 1) (pl_metadata p)\<rparr>"

section \<open>Consuming signals\<close>

record replan_result =
  rr_accepted :: bool
  rr_plan :: plan
  rr_signal_count :: nat
  rr_invalidated :: "string list"
  rr_error :: "string option"
  rr_old_fingerprint :: "string option"
  rr_new_fingerprint :: "string option"
  rr_affected :: "string list"

definition rejected :: "plan \<Rightarrow> nat \<Rightarrow> string option \<Rightarrow> replan_result" where
  "rejected p n err =
     \<lparr>rr_accepted = False, rr_plan = p, rr_signal_count = n, rr_invalidated = [], rr_error = err,
      rr_old_fingerprint = None, rr_new_fingerprint = None, rr_affected = []\<rparr>"

text \<open>What the planner is shown besides the goal: capabilities, context, signals and the plan.\<close>

record planner_input =
  pi_goal :: goal
  pi_capabilities :: pyval
  pi_context :: pydict
  pi_signals :: "replan_signal list"
  pi_plan :: plan
  pi_completed :: "string list"

definition reject_event :: "plan \<Rightarrow> string \<Rightarrow> pydict \<Rightarrow> event_log \<Rightarrow> event_log" where
  "reject_event p reason extra log =
     emit (Ev_Runtime REPLAN_REJECTED) ([(''plan_id'', PStr (pl_id p)), (''reason'', PStr reason)] @ extra) log"

record replan_state =
  st_db :: plan_db
  st_log :: event_log

text \<open>The commit: what happens once the revision is computed.\<close>

definition commit_replan ::
  "(string \<Rightarrow> string) \<Rightarrow> (plan_db \<Rightarrow> plan_db) \<Rightarrow> string \<Rightarrow> plan \<Rightarrow> revision \<Rightarrow> nat \<Rightarrow> string \<Rightarrow> string \<Rightarrow>
   string list \<Rightarrow> replan_state \<Rightarrow> (store_error + replan_result) \<times> replan_state"
where
  "commit_replan sha others expected q rv n old_fp new_fp affected st =
     (let db = others (st_db st) in
      case update_if_version q expected db of
        Inl _ \<Rightarrow>
          (case plan_get sha (pl_id q) db of
             Inl e \<Rightarrow> (Inl e, st\<lparr>st_db := db, st_log := rv_log rv\<rparr>)
           | Inr cur \<Rightarrow>
               (let current = (case cur of None \<Rightarrow> q | Some c \<Rightarrow> c) in
                (Inr (rejected current n (Some ''REPLAN_VERSION_CONFLICT'')),
                 st\<lparr>st_db := db, st_log := reject_event q ''REPLAN_VERSION_CONFLICT''
                   [(''expected_plan_version'', PStr expected),
                    (''authoritative_plan_version'', PStr (pl_version current))] (rv_log rv)\<rparr>)))
      | Inr db' \<Rightarrow>
          (Inr \<lparr>rr_accepted = True, rr_plan = q, rr_signal_count = n, rr_invalidated = rv_invalidated rv,
                rr_error = None, rr_old_fingerprint = Some old_fp, rr_new_fingerprint = Some new_fp,
                rr_affected = sort affected\<rparr>,
           st\<lparr>st_db := db', st_log := emit (Ev_Runtime REPLAN_ACCEPTED)
             [(''plan_id'', PStr (pl_id q)), (''new_version'', PStr (pl_version q)),
              (''signal_count'', PInt (int n)), (''invalidated_step_ids'', str_list (rv_invalidated rv)),
              (''preserved_completed_node_ids'', str_list (sort (remdups (rv_preserved rv)))),
              (''affected_subgraph_ids'', str_list (sort affected)),
              (''old_strategy_fingerprint'', PStr old_fp), (''new_strategy_fingerprint'', PStr new_fp)] (rv_log rv)\<rparr>))"

definition consume ::
  "(string \<Rightarrow> string) \<Rightarrow> (string set \<Rightarrow> string list) \<Rightarrow> (planner_input \<Rightarrow> plan) \<Rightarrow> (plan_db \<Rightarrow> plan_db) \<Rightarrow>
   goal \<Rightarrow> plan \<Rightarrow> replan_signal list \<Rightarrow> pydict \<Rightarrow> replan_state \<Rightarrow>
   (store_error + replan_result) \<times> replan_state"
where
  "consume sha enum planner others g caller signals ctx st =
     (if signals = [] then (Inr (rejected caller 0 None), st)
      else case plan_get sha (pl_id caller) (st_db st) of
        Inl e \<Rightarrow> (Inl e, st)
      | Inr None \<Rightarrow> (Inr (rejected caller (length signals) (Some ''PLAN_NOT_FOUND'')), st)
      | Inr (Some p) \<Rightarrow>
          if pl_status p = Plan_COMPLETED then
            (Inr (rejected p (length signals) None),
             st\<lparr>st_log := reject_event p ''plan already completed'' [] (st_log st)\<rparr>)
          else
            let affected = affected_subgraph p signals;
                proposal = pl_steps (planner
                  \<lparr>pi_goal = g, pi_capabilities = dict_get_or ctx ''capabilities'' (PList []), pi_context = ctx,
                   pi_signals = last_n 20 signals, pi_plan = p,
                   pi_completed = [ps_id s. s \<leftarrow> pl_steps p, ps_status s \<in> terminal_verified]\<rparr>);
                current = current_strategy (pl_steps p);
                proposed = proposed_strategy (pl_steps p) proposal;
                old_fp = strategy_fingerprint sha current;
                new_fp = strategy_fingerprint sha proposed
            in if proposal = [] then
                 (Inr (rejected p (length signals) None),
                  st\<lparr>st_log := reject_event p ''planner returned empty graph'' [] (st_log st)\<rparr>)
               else if current = proposed then
                 (Inr ((rejected p (length signals) (Some ''REPLAN_NO_CHANGE''))
                   \<lparr>rr_old_fingerprint := Some old_fp, rr_new_fingerprint := Some new_fp, rr_affected := sort affected\<rparr>),
                  st\<lparr>st_log := reject_event p ''planner returned unchanged strategy''
                    [(''error_type'', PStr ''REPLAN_NO_CHANGE''),
                     (''old_strategy_fingerprint'', PStr old_fp), (''new_strategy_fingerprint'', PStr new_fp),
                     (''affected_subgraph_ids'', str_list (sort affected))] (st_log st)\<rparr>)
               else
                 let rv = revise sha p proposal affected (st_log st)
                 in commit_replan sha others (pl_version p) (revised_plan enum signals p rv) rv
                      (length signals) old_fp new_fp affected st)"

section \<open>The affected subgraph is the closure\<close>

lemma affected_pass_sound:
  "set (affected_pass ss aff) \<subseteq> {x. \<exists>y\<in>set aff. (x, y) \<in> (dep_edges ss)\<^sup>*}"
proof (induction ss arbitrary: aff)
  case (Cons s ss)
  let ?a = "if ps_id s \<notin> set aff \<and> list_ex (\<lambda>d. d \<in> set aff) (ps_depends s) then ps_id s # aff else aff"
  have sub: "(dep_edges ss)\<^sup>* \<subseteq> (dep_edges (s # ss))\<^sup>*" by (intro rtrancl_mono) (auto simp: dep_edges_def)
  have a: "\<exists>y\<in>set aff. (x, y) \<in> (dep_edges (s # ss))\<^sup>*" if "x \<in> set ?a" for x
    using that by (auto simp: dep_edges_def list_ex_iff split: if_splits)
  show ?case
  proof
    fix x assume "x \<in> set (affected_pass (s # ss) aff)"
    then obtain y where "y \<in> set ?a" "(x, y) \<in> (dep_edges (s # ss))\<^sup>*"
      using Cons.IH[of ?a] sub by auto
    with a show "x \<in> {x. \<exists>y\<in>set aff. (x, y) \<in> (dep_edges (s # ss))\<^sup>*}" by (auto intro: rtrancl_trans)
  qed
qed auto

lemma affected_pass_stable:
  assumes "affected_pass ss aff = aff" and "s \<in> set ss" and "d \<in> set (ps_depends s)" and "d \<in> set aff"
  shows "ps_id s \<in> set aff"
  using assms
proof (induction ss arbitrary: aff)
  case (Cons t ss)
  show ?case
  proof (cases "ps_id t \<notin> set aff \<and> list_ex (\<lambda>d. d \<in> set aff) (ps_depends t)")
    case True
    obtain new where "affected_pass ss (ps_id t # aff) = new @ ps_id t # aff"
      using affected_pass_grows by blast
    with Cons.prems(1) True have "new @ ps_id t # aff = aff" by simp
    then have "length (new @ ps_id t # aff) = length aff" by simp
    then show ?thesis by simp
  next
    case False
    with Cons.prems(1) have "affected_pass ss aff = aff" by auto
    with Cons False show ?thesis by (auto simp: list_ex_iff)
  qed
qed simp

lemma set_affected_loop:
  "set (affected_loop steps aff) = {x. \<exists>y\<in>set aff. (x, y) \<in> (dep_edges steps)\<^sup>*}"
proof (induction steps aff rule: affected_loop.induct)
  case (1 steps aff)
  let ?a = "affected_pass steps aff"
  show ?case
  proof (cases "?a = aff")
    case True
    have "x \<in> set aff" if "(x, y) \<in> (dep_edges steps)\<^sup>*" "y \<in> set aff" for x y
      using that
    proof (induction rule: converse_rtrancl_induct)
      case (step x z)
      then obtain s where "s \<in> set steps" "x = ps_id s" "z \<in> set (ps_depends s)" by (auto simp: dep_edges_def)
      with affected_pass_stable[OF True] step show ?case by blast
    qed
    with True show ?thesis by (subst affected_loop.simps) auto
  next
    case False
    have aff: "set aff \<subseteq> set ?a" using affected_pass_grows[of steps aff] by auto
    have "\<exists>z\<in>set aff. (x, z) \<in> (dep_edges steps)\<^sup>*" if "y \<in> set ?a" "(x, y) \<in> (dep_edges steps)\<^sup>*" for x y
      using that affected_pass_sound[of steps aff] by (blast intro: rtrancl_trans)
    with aff have "{x. \<exists>y\<in>set ?a. (x, y) \<in> (dep_edges steps)\<^sup>*} = {x. \<exists>y\<in>set aff. (x, y) \<in> (dep_edges steps)\<^sup>*}"
      by blast
    with 1[OF refl False] False show ?thesis by (subst affected_loop.simps) simp
  qed
qed

lemma known_closure:
  assumes "i \<in> ps_id ` set steps"
  shows "(x, i) \<in> (dep_edges steps)\<^sup>+ \<longleftrightarrow> (x, i) \<in> (known_edges steps)\<^sup>+"
proof
  show "(x, i) \<in> (known_edges steps)\<^sup>+" if "(x, i) \<in> (dep_edges steps)\<^sup>+"
    using that
  proof (induction rule: converse_trancl_induct)
    case (base y)
    with assms show ?case by (auto simp: known_edges_def)
  next
    case (step y z)
    from step(2) have "\<exists>w. (z, w) \<in> dep_edges steps" by (auto elim: converse_tranclE)
    then have "z \<in> ps_id ` set steps" by (auto simp: dep_edges_def)
    with step(1) have "(y, z) \<in> known_edges steps" by (simp add: known_edges_def)
    from this step(3) show ?case by (rule trancl_into_trancl2)
  qed
  have "known_edges steps \<subseteq> dep_edges steps" by (auto simp: known_edges_def)
  then show "(x, i) \<in> (dep_edges steps)\<^sup>+" if "(x, i) \<in> (known_edges steps)\<^sup>+"
    using that trancl_mono by blast
qed

section \<open>Lemmas on the revision\<close>

lemma stale_where_steps:
  "fst (stale_where P r pid ss log) = map (\<lambda>s. if P s then s\<lparr>ps_status := Step_STALE\<rparr> else s) ss \<and>
   snd (snd (stale_where P r pid ss log)) = map ps_id (filter P ss) \<and>
   prefix log (fst (snd (stale_where P r pid ss log)))"
proof (induction ss arbitrary: log)
  case (Cons s ss)
  let ?t = "transition_step Step_STALE r (Some pid) [] s log"
  have t: "fst ?t = s\<lparr>ps_status := Step_STALE\<rparr>" "prefix log (snd ?t)"
    using transition_step_log by simp_all
  show ?case
    using t Cons.IH[of log] Cons.IH[of "snd ?t"]
    by (auto simp: split_beta Let_def intro: prefix_order.order_trans)
qed simp

text \<open>
  What a completed step \<open>c\<close> and a proposed step \<open>q\<close> of its fingerprint are merged into: the
  proposed step under the completed step's id, verified, with its output, task and context.
\<close>

definition merged_step :: "plan_step \<Rightarrow> plan_step \<Rightarrow> plan_step" where
  "merged_step c q =
     q\<lparr>ps_id := ps_id c, ps_status := Step_VERIFIED, ps_output := ps_output c, ps_task := ps_task c,
       ps_context := ps_context c\<rparr>"

lemma preserve_facts:
  assumes "preserve sha old pid kept todo log remap = (props, log', remap')"
  shows "\<exists>new rest. remap' = remap @ new \<and> props = kept @ rest \<and>
    (\<forall>i\<in>snd ` set new. \<exists>q\<in>snd ` set todo. \<exists>ix c.
      map_of old (step_fingerprint sha q ix) = Some c \<and> ps_id c = i \<and> merged_step c q \<in> snd ` set rest)"
  using assms
proof (induction sha old pid kept todo log remap rule: preserve.induct)
  case (2 sha old pid kept k s todo log remap)
  show ?case
  proof (cases "map_of old (step_fingerprint sha s (kept @ (k, s) # todo))")
    case None
    with 2(3) have "preserve sha old pid (kept @ [(k, s)]) todo log remap = (props, log', remap')" by simp
    from 2(1)[OF None this] obtain new rest where r: "remap' = remap @ new" "props = (kept @ [(k, s)]) @ rest"
      "\<forall>i\<in>snd ` set new. \<exists>q\<in>snd ` set todo. \<exists>ix c.
        map_of old (step_fingerprint sha q ix) = Some c \<and> ps_id c = i \<and> merged_step c q \<in> snd ` set rest" by blast
    have "\<exists>q\<in>snd ` set ((k, s) # todo). \<exists>ix c. map_of old (step_fingerprint sha q ix) = Some c \<and> ps_id c = i \<and>
      merged_step c q \<in> snd ` set ((k, s) # rest)" if "i \<in> snd ` set new" for i
    proof -
      from bspec[OF r(3) that] obtain q ix c where "q \<in> snd ` set todo"
        "map_of old (step_fingerprint sha q ix) = Some c" "ps_id c = i" "merged_step c q \<in> snd ` set rest" by blast
      then show ?thesis by (intro bexI[of _ q] exI[of _ ix] exI[of _ c]) simp_all
    qed
    with r(1,2) show ?thesis by (intro exI[of _ new] exI[of _ "(k, s) # rest"]) simp
  next
    case (Some c)
    let ?t = "transition_step Step_VERIFIED ''replan_preserved_verified'' (Some pid) [] (s\<lparr>ps_id := ps_id c\<rparr>) log"
    let ?s = "(fst ?t)\<lparr>ps_output := ps_output c, ps_task := ps_task c, ps_context := ps_context c\<rparr>"
    have eq: "preserve sha old pid (kept @ [(k, ?s)]) todo (snd ?t) (remap @ [(k, ps_id c)]) = (props, log', remap')"
      using 2(3) Some by (simp add: split_beta Let_def)
    from 2(2)[OF Some refl prod.collapse refl eq] obtain new rest where
      r: "remap' = (remap @ [(k, ps_id c)]) @ new" "props = (kept @ [(k, ?s)]) @ rest"
      "\<forall>i\<in>snd ` set new. \<exists>q\<in>snd ` set todo. \<exists>ix c.
        map_of old (step_fingerprint sha q ix) = Some c \<and> ps_id c = i \<and> merged_step c q \<in> snd ` set rest" by blast
    have m: "?s = merged_step c s" by (simp add: merged_step_def)
    have "\<exists>q\<in>snd ` set ((k, s) # todo). \<exists>ix d. map_of old (step_fingerprint sha q ix) = Some d \<and> ps_id d = i \<and>
      merged_step d q \<in> snd ` set ((k, ?s) # rest)" if "i \<in> snd ` set ((k, ps_id c) # new)" for i
    proof (cases "i = ps_id c")
      case True
      with Some m show ?thesis
        by (intro bexI[of _ s] exI[of _ "kept @ (k, s) # todo"] exI[of _ c]) simp_all
    next
      case False
      with that have "i \<in> snd ` set new" by simp
      from bspec[OF r(3) this] obtain q ix d where "q \<in> snd ` set todo"
        "map_of old (step_fingerprint sha q ix) = Some d" "ps_id d = i" "merged_step d q \<in> snd ` set rest" by blast
      then show ?thesis by (intro bexI[of _ q] exI[of _ ix] exI[of _ d]) simp_all
    qed
    with r(1,2) show ?thesis
      by (intro exI[of _ "(k, ps_id c) # new"] exI[of _ "(k, ?s) # rest"]) simp
  qed
qed simp

lemma commit_cases:
  assumes "commit_replan sha others expected q rv n ofp nfp aff st = (res, st')"
  obtains
    (conflict) "\<not> (\<exists>r. res = Inr r \<and> rr_accepted r)" "st_db st' = others (st_db st)"
      "\<And>e. update_if_version q expected (others (st_db st)) \<noteq> Inr e"
  | (committed) db' r where "update_if_version q expected (others (st_db st)) = Inr db'" "st_db st' = db'"
      "res = Inr r" "rr_accepted r" "rr_plan r = q" "rr_invalidated r = rv_invalidated rv"
proof (cases "update_if_version q expected (others (st_db st))")
  case (Inl e)
  show ?thesis
    by (rule conflict)
      (use assms Inl in \<open>auto simp: commit_replan_def rejected_def Let_def split: sum.splits\<close>)
next
  case (Inr db')
  with assms show ?thesis
    by (intro committed[OF Inr]) (auto simp: commit_replan_def Let_def)
qed

lemma consume_cases:
  assumes "consume sha enum planner others g caller signals ctx st = (res, st')"
  obtains
    (refused) "\<not> (\<exists>r. res = Inr r \<and> rr_accepted r)" "st_db st' = st_db st"
  | (tried) p proposal where "plan_get sha (pl_id caller) (st_db st) = Inr (Some p)" "signals \<noteq> []"
      "pl_status p \<noteq> Plan_COMPLETED" "proposal \<noteq> []"
      "current_strategy (pl_steps p) \<noteq> proposed_strategy (pl_steps p) proposal"
      "\<exists>n ofp nfp. commit_replan sha others (pl_version p)
         (revised_plan enum signals p (revise sha p proposal (affected_subgraph p signals) (st_log st)))
         (revise sha p proposal (affected_subgraph p signals) (st_log st)) n ofp nfp
         (affected_subgraph p signals) st = (res, st')"
      "proposal = pl_steps (planner \<lparr>pi_goal = g, pi_capabilities = dict_get_or ctx ''capabilities'' (PList []),
         pi_context = ctx, pi_signals = last_n 20 signals, pi_plan = p,
         pi_completed = [ps_id s. s \<leftarrow> pl_steps p, ps_status s \<in> terminal_verified]\<rparr>)"
proof (cases "plan_get sha (pl_id caller) (st_db st)")
  case (Inl e)
  then show ?thesis using assms by (intro refused) (auto simp: consume_def rejected_def split: if_splits)
next
  case (Inr po)
  show ?thesis
  proof (cases po)
    case None
    then show ?thesis using assms Inr by (intro refused) (auto simp: consume_def rejected_def split: if_splits)
  next
    case (Some p)
    let ?proposal = "pl_steps (planner \<lparr>pi_goal = g, pi_capabilities = dict_get_or ctx ''capabilities'' (PList []),
         pi_context = ctx, pi_signals = last_n 20 signals, pi_plan = p,
         pi_completed = [ps_id s. s \<leftarrow> pl_steps p, ps_status s \<in> terminal_verified]\<rparr>)"
    show ?thesis
    proof (cases "signals = [] \<or> pl_status p = Plan_COMPLETED \<or> ?proposal = [] \<or>
        current_strategy (pl_steps p) = proposed_strategy (pl_steps p) ?proposal")
      case True
      then show ?thesis
        using assms Inr Some by (intro refused) (auto simp: consume_def rejected_def Let_def split: if_splits)
    next
      case False
      with assms Inr Some show ?thesis
        by (intro tried[of p ?proposal]) (auto simp: consume_def Let_def)
    qed
  qed
qed

lemma set_affected_subgraph:
  assumes "set (signal_seeds signals) \<subseteq> ps_id ` set (pl_steps p)"
  shows "set (affected_subgraph p signals) =
    set (signal_seeds signals) \<union> (\<Union>i\<in>set (signal_seeds signals). set (get_dependents i p))"
proof -
  have "(x, i) \<in> (dep_edges (pl_steps p))\<^sup>* \<longleftrightarrow> x = i \<or> x \<in> set (get_dependents i p)"
    if "i \<in> set (signal_seeds signals)" for x i
    using that assms known_closure[of i "pl_steps p" x] by (auto simp: set_get_dependents rtrancl_eq_or_trancl)
  then show ?thesis unfolding affected_subgraph_def set_affected_loop by auto
qed

text \<open>What the three marking passes leave of a step that is finished and not affected.\<close>

lemma stale_where_keeps:
  assumes "stale_where P r pid ss log = (ss', log', ids)" and "s \<in> set ss" and "\<not> P s"
  shows "s \<in> set ss'"
  using assms stale_where_steps[of P r pid ss log] by force

lemma revise_unfold:
  obtains st1 log1 inv1 props log2 remap st2 log3 inv2 st3 log4 inv3 retained where
    "stale_where (\<lambda>s. ps_id s \<in> set affected \<and> ps_status s \<notin> terminal_verified \<union> {Step_STALE})
       ''replan_invalidation'' (pl_id p) (pl_steps p) log = (st1, log1, inv1)"
    "preserve sha (completed_by_fingerprint sha (pl_steps p)) (pl_id p) [] (map (\<lambda>s. (ps_id s, s)) proposal) log1 []
       = (props, log2, remap)"
    "stale_where (\<lambda>s. ps_id s \<in> set affected \<and> ps_status s \<in> terminal_verified \<and> ps_id s \<notin> set (map snd remap))
       ''replan_unpreserved'' (pl_id p) st1 log2 = (st2, log3, inv2)"
    "stale_where (\<lambda>s. ps_id s \<notin> set (map ps_id proposal) \<and> ps_id s \<notin> set affected \<and>
       ps_status s \<notin> terminal_verified \<union> {Step_STALE}) ''replan_superseded_unaffected'' (pl_id p) st2 log3
       = (st3, log4, inv3)"
    "retained = [s \<leftarrow> st3. ps_id s \<notin> set (map snd remap) \<and> ps_id s \<notin> set (map ps_id proposal) \<and>
       ps_status s \<in> terminal_verified \<union> {Step_STALE}]"
    "revise sha p proposal affected log =
       \<lparr>rv_steps = with_fingerprints sha (retained @ map (remap_depends remap) (map snd props)),
        rv_invalidated = inv1 @ inv2, rv_preserved = map snd remap, rv_log = log4\<rparr>"
proof -
  obtain st1 log1 inv1 where 1: "stale_where (\<lambda>s. ps_id s \<in> set affected \<and> ps_status s \<notin> terminal_verified \<union> {Step_STALE})
       ''replan_invalidation'' (pl_id p) (pl_steps p) log = (st1, log1, inv1)" by (rule prod_cases3)
  obtain props log2 remap where 2: "preserve sha (completed_by_fingerprint sha (pl_steps p)) (pl_id p) []
       (map (\<lambda>s. (ps_id s, s)) proposal) log1 [] = (props, log2, remap)" by (rule prod_cases3)
  obtain st2 log3 inv2 where 3: "stale_where (\<lambda>s. ps_id s \<in> set affected \<and> ps_status s \<in> terminal_verified \<and>
       ps_id s \<notin> set (map snd remap)) ''replan_unpreserved'' (pl_id p) st1 log2 = (st2, log3, inv2)" by (rule prod_cases3)
  obtain st3 log4 inv3 where 4: "stale_where (\<lambda>s. ps_id s \<notin> set (map ps_id proposal) \<and> ps_id s \<notin> set affected \<and>
       ps_status s \<notin> terminal_verified \<union> {Step_STALE}) ''replan_superseded_unaffected'' (pl_id p) st2 log3
       = (st3, log4, inv3)" by (rule prod_cases3)
  show ?thesis
    by (rule that[OF 1 2 3 4 refl]) (simp only: revise_def 1 2 3 4 Let_def prod.case)
qed

lemma with_fingerprints_step:
  assumes "s \<in> set steps"
  shows "s\<lparr>ps_fingerprint := Some (step_fingerprint sha s (index_steps steps))\<rparr> \<in> set (with_fingerprints sha steps)"
  using assms by (auto simp: with_fingerprints_def)

lemma completed_by_fingerprint_steps:
  "snd ` set (completed_by_fingerprint sha steps) = {s \<in> set steps. ps_status s \<in> terminal_verified}"
  by (force simp: completed_by_fingerprint_def)

lemma preserved_copy:
  assumes "preserve sha (completed_by_fingerprint sha steps) pid [] (map (\<lambda>q. (ps_id q, q)) proposal) log [] =
      (props, log', remap)"
    and "distinct (map ps_id steps)" and "s \<in> set steps" and "ps_id s \<in> snd ` set remap"
  obtains q ix where "q \<in> set proposal" "step_fingerprint sha q ix = step_fingerprint sha s (index_steps steps)"
    "merged_step s q \<in> snd ` set props"
proof -
  from preserve_facts[OF assms(1)] assms(4) obtain q ix c where q: "q \<in> set proposal"
    "map_of (completed_by_fingerprint sha steps) (step_fingerprint sha q ix) = Some c" "ps_id c = ps_id s"
    "merged_step c q \<in> snd ` set props" by fastforce
  from map_of_SomeD[OF q(2)] have c: "c \<in> set steps"
      "step_fingerprint sha q ix = step_fingerprint sha c (index_steps steps)"
    by (auto simp: completed_by_fingerprint_def)
  have "c = s" using c(1) q(3) assms(2,3) by (simp add: distinct_map inj_on_def)
  with q c that show ?thesis by blast
qed

definition sample_replan_plan :: plan where
  "sample_replan_plan =
     tiny_plan\<lparr>pl_steps := [(plain_step ''a'' ''x'' [])\<lparr>ps_status := Step_VERIFIED, ps_output := PStr ''done''\<rparr>,
       plain_step ''b'' ''y'' [''a''], plain_step ''c'' ''y'' [''b'']]\<rparr>"

definition sample_signal :: replan_signal where
  "sample_signal =
     \<lparr>rs_id = ''s1'', rs_task = ''t'', rs_run = ''r'', rs_attempt = ''a1'', rs_reason = ''NO_PROGRESS'',
      rs_scope = ''MACRO_REPLAN'', rs_failed_node = Some ''b'', rs_evidence = []\<rparr>"

definition sample_goal :: goal where
  "sample_goal =
     \<lparr>gl_id = ''g'', gl_project = ''pr'', gl_objective = ''do'', gl_constraints = [], gl_success_criteria = [],
      gl_allowed = [], gl_requires_approval = False, gl_metadata = []\<rparr>"

section \<open>Properties\<close>

text \<open>What a replan signal affects is exactly the failed steps it names and every step that
  transitively depends on one of them, the same set the local repair scope computes; anything
  else is left out, and the computation ends.\<close>

theorem replan_affects_dependents:
  assumes "set (signal_seeds signals) \<subseteq> ps_id ` set (pl_steps p)"
  shows "set (affected_subgraph p signals) =
    set (signal_seeds signals) \<union> (\<Union>i\<in>set (signal_seeds signals). set (get_dependents i p))"
  using assms by (rule set_affected_subgraph)

theorem replan_affects_dependents_witness:
  "set (affected_subgraph sample_replan_plan [sample_signal]) = {''b'', ''c''}"
proof -
  have "set (signal_seeds [sample_signal]) \<subseteq> ps_id ` set (pl_steps sample_replan_plan)"
    by (simp add: signal_seeds_def sample_signal_def sample_replan_plan_def plain_step_def)
  moreover have "set (signal_seeds [sample_signal]) = {''b''}" by (simp add: signal_seeds_def sample_signal_def)
  moreover have "set (get_dependents ''b'' sample_replan_plan) = {''c''}" by code_simp
  ultimately show ?thesis using replan_affects_dependents[of "[sample_signal]" sample_replan_plan] by auto
qed



text \<open>C11: A replan is committed against the plan it was computed from. It is accepted only if the
  stored plan was not completed, the signals and what the planner proposed were not empty, the
  proposed strategy, less the finished work, differs from the current one, and the stored
  version at the moment of the write is still the version that was read; then what is written
  is the revision of the plan that was read by that proposal, its version and replan count
  have advanced and it is running. A replan that is not accepted writes nothing.\<close>

theorem replan_commit_is_atomic:
  assumes "consume sha enum planner others g caller signals ctx st = (res, st')"
  shows "case res of
      Inr r \<Rightarrow> (if rr_accepted r then
          (\<exists>p proposal. plan_get sha (pl_id caller) (st_db st) = Inr (Some p) \<and> pl_status p \<noteq> Plan_COMPLETED \<and>
             signals \<noteq> [] \<and>
             proposal = pl_steps (planner \<lparr>pi_goal = g, pi_capabilities = dict_get_or ctx ''capabilities'' (PList []),
               pi_context = ctx, pi_signals = last_n 20 signals, pi_plan = p,
               pi_completed = [ps_id s. s \<leftarrow> pl_steps p, ps_status s \<in> terminal_verified]\<rparr>) \<and>
             proposal \<noteq> [] \<and> current_strategy (pl_steps p) \<noteq> proposed_strategy (pl_steps p) proposal \<and>
             rr_plan r = revised_plan enum signals p
               (revise sha p proposal (affected_subgraph p signals) (st_log st)) \<and>
             update_if_version (rr_plan r) (pl_version p) (others (st_db st)) = Inr (st_db st') \<and>
             pl_version (rr_plan r) = pl_version p @ ''-r'' @ nat_digits (pl_replan_count p + 1) \<and>
             pl_replan_count (rr_plan r) = pl_replan_count p + 1 \<and> pl_status (rr_plan r) = Plan_RUNNING)
        else st_db st' \<in> {st_db st, others (st_db st)})
    | Inl _ \<Rightarrow> st_db st' \<in> {st_db st, others (st_db st)}"
  using assms
proof (cases rule: consume_cases)
  case refused
  then show ?thesis by (auto split: sum.splits)
next
  case (tried p proposal)
  let ?rv = "revise sha p proposal (affected_subgraph p signals) (st_log st)"
  from tried(6) obtain n ofp nfp where "commit_replan sha others (pl_version p) (revised_plan enum signals p ?rv) ?rv n ofp nfp
    (affected_subgraph p signals) st = (res, st')" by blast
  then show ?thesis
  proof (cases rule: commit_cases)
    case conflict
    then show ?thesis by (auto split: sum.splits)
  next
    case (committed db' r)
    show ?thesis
      unfolding committed(3) sum.case if_P[OF committed(4)]
      by (intro exI[of _ p] exI[of _ proposal] conjI)
        (use committed tried in \<open>simp_all add: revised_plan_def\<close>)
  qed
qed

theorem replan_commit_is_atomic_witness:
  "\<exists>r st'. consume (\<lambda>_. ''h'') (\<lambda>_. []) (\<lambda>_. tiny_plan\<lparr>pl_steps := [plain_step ''n'' ''z'' []]\<rparr>) id sample_goal tiny_plan
      [sample_signal] [] \<lparr>st_db = projr (plan_create sample_replan_plan empty_plan_db), st_log = []\<rparr> = (Inr r, st') \<and>
    rr_accepted r \<and> pl_version (rr_plan r) = ''P-0.1-r1''"
proof -
  let ?st = "\<lparr>st_db = projr (plan_create sample_replan_plan empty_plan_db), st_log = []\<rparr>"
  let ?c = "consume (\<lambda>_. ''h'') (\<lambda>_. []) (\<lambda>_. tiny_plan\<lparr>pl_steps := [plain_step ''n'' ''z'' []]\<rparr>) id sample_goal tiny_plan
      [sample_signal] [] ?st"
  have c: "?c = (fst ?c, snd ?c)" by simp
  have acc: "case fst ?c of Inr r \<Rightarrow> rr_accepted r | Inl _ \<Rightarrow> False" by code_simp
  then obtain r where r: "fst ?c = Inr r" "rr_accepted r" by (auto split: sum.splits)
  have get: "(case plan_get (\<lambda>_. ''h'') (pl_id tiny_plan) (st_db ?st) of
      Inr (Some p) \<Rightarrow> pl_version p = ''P-0.1'' \<and> pl_replan_count p = 0 | _ \<Rightarrow> False)" by code_simp
  have "nat_digits (Suc 0) = ''1''" by code_simp
  with replan_commit_is_atomic[OF c] r get have "pl_version (rr_plan r) = ''P-0.1-r1''" by auto
  with c r show ?thesis by metis
qed

text \<open>Two proposed steps with the same content are both merged into one completed step, and
  the revised plan then holds two steps with the same id, whatever the digest.\<close>

theorem replan_can_duplicate_step_ids:
  "\<exists>p proposal. distinct (map ps_id (pl_steps p)) \<and> distinct (map ps_id proposal) \<and>
     check_dependencies proposal = Inr () \<and>
     (\<forall>sha log. \<not> distinct (map ps_id (rv_steps (revise sha p proposal [] log))))"
proof -
  let ?s = "\<lambda>i. (plain_step i ''x'' [])\<lparr>ps_objective := ''o''\<rparr>"
  let ?c = "(?s ''c'')\<lparr>ps_status := Step_VERIFIED\<rparr>"
  let ?p = "tiny_plan\<lparr>pl_steps := [?c]\<rparr>"
  let ?new = "[?s ''m'', ?s ''n'']"
  have fp: "step_fingerprint sha s ix = step_fingerprint sha (?s []) []"
    if "s \<in> {?c} \<union> set ?new" for sha s ix
    using that unfolding step_fingerprint_def
    by (subst (1 2) fingerprint.simps) (auto simp: plain_step_def semantic_fields_def Let_def)
  have "\<not> distinct (map ps_id (rv_steps (revise sha ?p ?new [] log)))" for sha log
    using fp[of ?c sha] fp[of "hd ?new" sha] fp[of "last ?new" sha]
    by (simp add: revise_def completed_by_fingerprint_def plain_step_def
      terminal_verified_def with_fingerprints_def remap_depends_def transition_step_def Let_def split_beta)
  moreover have "check_dependencies ?new = Inr ()" by code_simp
  ultimately show ?thesis by (intro exI[of _ ?p] exI[of _ ?new]) (simp add: plain_step_def)
qed

end
