(* ===== verification/Failures.thy ===== *)
theory Failures imports Enums Complex_Main begin

text \<open>
  What happens to a failed attempt: the domain entities of \<open>domain/models.py\<close>, the executor's
  result (\<open>executors/protocol.py\<close>), the rule validator (\<open>validation.py\<close>), the rule classifier
  (\<open>failure.py\<close>) and the default recovery policy (\<open>recovery.py\<close>).

  \<^item> Time stamps and the generated ids of validations, reports and actions are left out; a
    column that holds JSON text keeps the value that was stored.
  \<^item> Confidences are rationals.
\<close>

section \<open>Tasks, runs, attempts and results\<close>

record task =
  ta_id :: string
  ta_project :: string
  ta_title :: string
  ta_objective :: string
  ta_constraints :: "string list"
  ta_criteria :: "string list"
  ta_status :: task_status
  ta_max_attempts :: nat
  ta_timeout :: rat

record run =
  rn_id :: string
  rn_task :: string
  rn_experiment :: "string option"
  rn_executor :: string
  rn_provider :: string
  rn_model :: string
  rn_harness :: string
  rn_context_policy :: string
  rn_dataset :: string
  rn_status :: run_status
  rn_result :: "pyval option"

record exec_result =
  er_status :: execution_status
  er_output :: "string option"
  er_error_type :: "string option"
  er_error_message :: "string option"
  er_usage :: pydict
  er_artifacts :: pydict
  er_duration :: nat
  er_raw :: "pydict option"

record attempt =
  at_id :: string
  at_run :: string
  at_number :: nat
  at_status :: attempt_status
  at_snapshot :: "string option"
  at_result :: "exec_result option"
  at_usage :: pydict
  at_failure :: "string option"
  at_error_type :: "string option"
  at_error_message :: "string option"
  at_output :: "string option"
  at_duration :: "nat option"

primrec execution_status_value :: "execution_status \<Rightarrow> string" where
  "execution_status_value Exec_SUCCESS = ''SUCCESS''"
| "execution_status_value Exec_FAILURE = ''FAILURE''"
| "execution_status_value Exec_TIMEOUT = ''TIMEOUT''"
| "execution_status_value Exec_CRASH = ''CRASH''"

text \<open>\<open>ExecutionResult(status=..., output=..., error_type=..., error_message=...)\<close>.\<close>

definition plain_result ::
  "execution_status \<Rightarrow> string option \<Rightarrow> string option \<Rightarrow> string option \<Rightarrow> exec_result" where
  "plain_result st out et em =
     \<lparr>er_status = st, er_output = out, er_error_type = et, er_error_message = em,
      er_usage = [], er_artifacts = [], er_duration = 0, er_raw = None\<rparr>"

section \<open>Validation\<close>

record validation_check =
  vc_name :: string
  vc_passed :: bool
  vc_detail :: "string option"

record validation =
  va_attempt :: string
  va_passed :: bool
  va_level :: string
  va_checks :: "validation_check list"
  va_evidence :: "string option"
  va_stdout :: "string option"

definition str_or :: "string option \<Rightarrow> string" where
  "str_or x = (case x of None \<Rightarrow> [] | Some s \<Rightarrow> s)"

definition output_check :: "string \<Rightarrow> validation_check" where
  "output_check out =
     \<lparr>vc_name = ''output_non_empty'', vc_passed = strip out \<noteq> [],
      vc_detail = (if strip out = [] then Some ''executor returned no output'' else None)\<rparr>"

definition marker_check :: "string \<Rightarrow> string \<Rightarrow> validation_check" where
  "marker_check out marker =
     \<lparr>vc_name = ''output_contains_'' @ marker, vc_passed = contains marker out,
      vc_detail = (if contains marker out then None
                   else Some (''output missing required marker '' @ repr_str marker))\<rparr>"

definition check_text :: "validation_check \<Rightarrow> string" where
  "check_text c = vc_name c @ '': '' @ (if vc_passed c then ''ok'' else ''FAIL - '' @ str_or (vc_detail c))"

definition rule_validate :: "bool \<Rightarrow> string list \<Rightarrow> string \<Rightarrow> exec_result \<Rightarrow> validation" where
  "rule_validate require_nonempty markers attempt_id r =
     (let out = str_or (er_output r);
          configured = (if require_nonempty then [output_check out] else []) @ map (marker_check out) markers;
          checks = (if configured = []
                    then [\<lparr>vc_name = ''no_checks'', vc_passed = True, vc_detail = Some ''no checks configured''\<rparr>]
                    else configured)
      in \<lparr>va_attempt = attempt_id, va_passed = list_all vc_passed checks, va_level = ''V2_RULE'',
          va_checks = checks, va_evidence = Some (join ''; '' (map check_text checks)), va_stdout = Some out\<rparr>)"

section \<open>Classification\<close>

record failure_report =
  fr_attempt :: string
  fr_type :: failure_type
  fr_class :: failure_class
  fr_evidence :: string
  fr_summary :: string
  fr_confidence :: rat
  fr_suggested :: string

definition error_text :: "attempt \<Rightarrow> exec_result option \<Rightarrow> string" where
  "error_text a r =
     upper (join '' '' (filter (\<lambda>s. s \<noteq> [])
       (map str_or [at_error_message a, at_error_type a,
          Option.bind r er_error_message, Option.bind r er_error_type])))"

definition f_opt :: "string option \<Rightarrow> string" where
  "f_opt x = (case x of None \<Rightarrow> ''None'' | Some s \<Rightarrow> s)"

definition failure_evidence :: "attempt \<Rightarrow> exec_result option \<Rightarrow> validation option \<Rightarrow> string" where
  "failure_evidence a r v =
     (let bits = (case v of None \<Rightarrow> [] | Some w \<Rightarrow> [''validation['' @ va_level w @ '']: '' @ f_opt (va_evidence w)]) @
          (if str_or (at_error_message a) \<noteq> [] then [''error: '' @ str_or (at_error_message a)] else []) @
          (case r of None \<Rightarrow> []
           | Some x \<Rightarrow> if str_or (er_output x) \<noteq> [] then [''output: '' @ take 200 (str_or (er_output x))] else [])
      in if bits = [] then ''no evidence recorded'' else join '' | '' bits)"

text \<open>A rule looks for any of some markers in the error text.\<close>

type_synonym failure_rule = "string list \<times> failure_type \<times> string \<times> rat \<times> string"

definition provider_rules :: "failure_rule list" where
  "provider_rules =
     [([''QUOTA_EXHAUSTED''], FT_QUOTA_EXHAUSTED, ''provider quota is exhausted for the selected route'', 1,
        ''switch provider route; same-target retry is disabled''),
      ([''BILLING_OR_CREDIT_EXHAUSTED''], FT_BILLING_OR_CREDIT_EXHAUSTED, ''provider billing or credits are exhausted'', 1,
        ''switch provider route or restore billing''),
      ([''AUTH_INVALID''], FT_AUTH_INVALID, ''provider authentication is invalid'', 1,
        ''switch credential route or repair credentials''),
      ([''PROVIDER_TIMEOUT''], FT_PROVIDER_TIMEOUT, ''provider request timed out'', 1, ''controlled retry if budget allows''),
      ([''PROVIDER_UNAVAILABLE''], FT_PROVIDER_UNAVAILABLE, ''provider endpoint is unavailable'', 9 / 10,
        ''controlled migration or retry''),
      ([''MALFORMED_PROVIDER_RESPONSE'', ''PROVIDER_MALFORMED_RESPONSE''], FT_MALFORMED_PROVIDER_RESPONSE,
        ''provider returned a malformed response'', 95 / 100, ''fail closed and inspect provider''),
      ([''UNKNOWN_PROVIDER_FAILURE''], FT_UNKNOWN_PROVIDER_FAILURE,
        ''provider failed without a recognizable provider-specific signature'', 4 / 10,
        ''retry within budget; inspect provider evidence before changing route'')]"

definition tool_rules :: "failure_rule list" where
  "tool_rules =
     [([''NETWORK_ERROR'', ''NETWORK''], FT_NETWORK_ERROR, ''external network failure'', 8 / 10,
        ''verify external environment, then retry''),
      ([''TOOL_ERROR''], FT_TOOL_ERROR, ''a tool used by the executor failed'', 8 / 10,
        ''check tool configuration, then retry'')]"

definition context_rules :: "failure_rule list" where
  "context_rules =
     [([''MISSING_CONTEXT''], FT_MISSING_CONTEXT, ''required context is missing'', 95 / 100,
        ''supply the missing context, then retry''),
      ([''STALE_CONTEXT''], FT_STALE_CONTEXT, ''context is stale'', 9 / 10,
        ''rebuild context from scratch; do not reuse old snapshot''),
      ([''CONTEXT_CONFLICT''], FT_CONTEXT_CONFLICT, ''context sources contradict each other'', 9 / 10,
        ''escalate or ask for human clarification''),
      ([''CONTEXT_OVERLOAD''], FT_CONTEXT_OVERLOAD, ''too much context supplied'', 8 / 10,
        ''trim context to the minimal needed'')]"

definition rule_hit :: "string \<Rightarrow> failure_rule list \<Rightarrow> failure_rule option" where
  "rule_hit msg rules = List.find (\<lambda>(markers, _). list_ex (\<lambda>m. contains m msg) markers) rules"

definition failure_report_of ::
  "attempt \<Rightarrow> string \<Rightarrow> failure_class \<Rightarrow> failure_type \<times> string \<times> rat \<times> string \<Rightarrow> failure_report" where
  "failure_report_of a ev fc r =
     (case r of (ft, summary, conf, recovery) \<Rightarrow>
        \<lparr>fr_attempt = at_id a, fr_type = ft, fr_class = fc, fr_evidence = ev, fr_summary = summary,
         fr_confidence = conf, fr_suggested = recovery\<rparr>)"

text \<open>The data family and the fallback, when no text of the error says more.\<close>

definition classify_data ::
  "exec_result option \<Rightarrow> validation option \<Rightarrow> failure_class \<times> failure_type \<times> string \<times> rat \<times> string" where
  "classify_data r v =
     (let output = (case r of None \<Rightarrow> [] | Some x \<Rightarrow> str_or (er_output x));
          failed = (case v of None \<Rightarrow> {} | Some w \<Rightarrow> set (map vc_name (filter (\<lambda>c. \<not> vc_passed c) (va_checks w))))
      in if v \<noteq> None \<and> \<not> va_passed (the v) then
           (if ''direction_conflict'' \<in> failed then
              (FC_REASONING, FT_WRONG_MATCH, ''predicted fit conflicts with the career direction'', 95 / 100,
               ''retry with career goal and direction-conflict evidence'')
            else if failed \<inter> {''ranking_order'', ''ranking_quality'', ''bad_ranking''} \<noteq> {} then
              (FC_REASONING, FT_BAD_RANKING, ''predicted ranking failed the benchmark ordering checks'', 95 / 100,
               ''retry with ranking feedback and relevant history'')
            else if strip output = [] then
              (FC_DATA, FT_EMPTY_RESULT, ''executor produced no usable output'', 85 / 100,
               ''re-run with validation feedback'')
            else (FC_DATA, FT_MISSING_REQUIRED_FIELD, ''output failed rule validation'', 85 / 100,
                  ''re-run with validation feedback''))
         else if r \<noteq> None \<and> er_status (the r) = Exec_FAILURE then
           (FC_UNKNOWN, FT_UNKNOWN, ''executor returned a failure without a recognizable signature'', 4 / 10,
            ''retry with expanded context'')
         else (FC_UNKNOWN, FT_UNKNOWN, ''unclassifiable failure'', 3 / 10, ''escalate for manual review''))"

text \<open>The time-out, crash and budget branches, between the provider and the tool rules.\<close>

definition classify_status ::
  "attempt \<Rightarrow> exec_result option \<Rightarrow> (failure_type \<times> string \<times> rat \<times> string) option" where
  "classify_status a r =
     (if failure_type_value FT_BUDGET_EXHAUSTED \<in> set (map str_or [at_error_type a, Option.bind r er_error_type]) then
        Some (FT_BUDGET_EXHAUSTED, ''native executor exhausted its bounded turn or tool-call budget'', 1,
              ''retry with the recorded budget-exhaustion evidence if attempts remain'')
      else if at_status a = Attempt_TIMED_OUT then
        Some (FT_TIMEOUT, ''executor exceeded its time budget'', 1, ''controlled retry if budget allows; else escalate'')
      else if at_status a = Attempt_CRASHED then
        Some (FT_EXECUTOR_CRASH, ''executor raised an unexpected exception'', 1, ''retry; if persistent, escalate'')
      else None)"

definition classify :: "attempt \<Rightarrow> exec_result option \<Rightarrow> validation option \<Rightarrow> failure_report" where
  "classify a r v =
     (let msg = error_text a r; rep = failure_report_of a (failure_evidence a r v)
      in case rule_hit msg provider_rules of
        Some (_, rule) \<Rightarrow> rep FC_EXECUTION rule
      | None \<Rightarrow> (case classify_status a r of
        Some res \<Rightarrow> rep FC_EXECUTION res
      | None \<Rightarrow> (case rule_hit msg tool_rules of
        Some (_, rule) \<Rightarrow> rep FC_EXECUTION rule
      | None \<Rightarrow> (case rule_hit msg context_rules of
        Some (_, rule) \<Rightarrow> rep FC_CONTEXT rule
      | None \<Rightarrow> (case classify_data r v of (fc, res) \<Rightarrow> rep fc res)))))"

section \<open>The recovery policy\<close>

record recovery_action =
  ra_attempt :: string
  ra_type :: recovery_action_type
  ra_reason :: string
  ra_policy :: string
  ra_from :: nat
  ra_to :: "nat option"
  ra_added :: pydict

definition policy_decide ::
  "string \<Rightarrow> attempt \<Rightarrow> failure_report \<Rightarrow> nat \<Rightarrow> nat \<Rightarrow> nat \<Rightarrow> recovery_action" where
  "policy_decide policy a rep n max_attempts history =
     (let act = (\<lambda>ty reason to added. \<lparr>ra_attempt = at_id a, ra_type = ty, ra_reason = reason,
                   ra_policy = policy, ra_from = n, ra_to = to, ra_added = added\<rparr>);
          ft = fr_type rep;
          facts = [(''failure_evidence'', PStr (fr_evidence rep)), (''failure_type'', PStr (failure_type_value ft)),
                   (''suggested_recovery'', PStr (fr_suggested rep))]
      in if ft = FT_APPROVAL_REQUIRED then
           act RA_HUMAN_APPROVAL ''approval required before any further action'' None []
         else if ft = FT_CONTEXT_CONFLICT then
           act RA_ESCALATE ''context conflict needs human clarification'' None []
         else if ft \<in> {FT_QUOTA_EXHAUSTED, FT_BILLING_OR_CREDIT_EXHAUSTED, FT_AUTH_INVALID} then
           act RA_BLOCK_PROVIDER ''provider route is blocked; migrate explicitly before resuming'' None []
         else if n \<ge> max_attempts then act RA_ESCALATE ''max attempts reached'' None []
         else if ft = FT_MISSING_CONTEXT then
           act RA_RETRY_WITH_FAILURE_CONTEXT ''missing context detected; supply the missing information'' (Some (n + 1))
             [(''missing_context'', PStr (fr_summary rep))]
         else if ft = FT_STALE_CONTEXT then
           act RA_RETRY_WITH_EXPANDED_CONTEXT ''stale context; rebuild from scratch'' (Some (n + 1))
             [(''rebuild_context'', PBool True)]
         else if ft = FT_TIMEOUT then
           act RA_RETRY_WITH_FAILURE_CONTEXT ''controlled retry after timeout (budget permitting)'' (Some (n + 1))
             [(''failure_evidence'', PStr (fr_evidence rep))]
         else if n = 1 then
           act RA_RETRY_WITH_FAILURE_CONTEXT ''first attempt failed; retry with failure context'' (Some (n + 1)) facts
         else
           act RA_RETRY_WITH_EXPANDED_CONTEXT ''second attempt failed; retry with expanded context'' (Some (n + 1))
             (facts @ [(''relevant_history'', PStr (nat_digits history @ '' prior recovery action(s)''))]))"

definition retry_actions :: "recovery_action_type set" where
  "retry_actions = {RA_RETRY_WITH_FAILURE_CONTEXT, RA_RETRY_WITH_EXPANDED_CONTEXT}"

section \<open>Lemmas\<close>

lemma rule_hit_type:
  assumes "rule_hit msg rules = Some (ms, ft, rest)"
  shows "ft \<in> (fst \<circ> snd) ` set rules"
  using assms by (force simp: rule_hit_def dest: find_Some_set)

lemma rule_hit_None: "rule_hit msg rules = None \<longleftrightarrow> (\<forall>(ms, r)\<in>set rules. \<forall>m\<in>set ms. \<not> contains m msg)"
  by (auto simp: rule_hit_def find_None_iff_all list_ex_iff)

text \<open>The three markers that block a provider come first among the rules.\<close>

definition blocking_markers :: "(string \<times> failure_type) list" where
  "blocking_markers =
     [(''QUOTA_EXHAUSTED'', FT_QUOTA_EXHAUSTED),
      (''BILLING_OR_CREDIT_EXHAUSTED'', FT_BILLING_OR_CREDIT_EXHAUSTED),
      (''AUTH_INVALID'', FT_AUTH_INVALID)]"

abbreviation blocked_types :: "failure_type set" where
  "blocked_types \<equiv> {FT_QUOTA_EXHAUSTED, FT_BILLING_OR_CREDIT_EXHAUSTED, FT_AUTH_INVALID}"

lemma report_type [simp]: "fr_type (failure_report_of a ev fc r) = fst r"
  by (simp add: failure_report_of_def split: prod.split)

lemma hit_type:
  "rule_hit msg provider_rules = Some (ms, r) \<Longrightarrow> fst r \<in> {FT_QUOTA_EXHAUSTED, FT_BILLING_OR_CREDIT_EXHAUSTED,
     FT_AUTH_INVALID, FT_PROVIDER_TIMEOUT, FT_PROVIDER_UNAVAILABLE, FT_MALFORMED_PROVIDER_RESPONSE, FT_UNKNOWN_PROVIDER_FAILURE}"
  "rule_hit msg tool_rules = Some (ms, r) \<Longrightarrow> fst r \<in> {FT_NETWORK_ERROR, FT_TOOL_ERROR}"
  "rule_hit msg context_rules = Some (ms, r) \<Longrightarrow>
     fst r \<in> {FT_MISSING_CONTEXT, FT_STALE_CONTEXT, FT_CONTEXT_CONFLICT, FT_CONTEXT_OVERLOAD}"
  using rule_hit_type[of msg provider_rules ms "fst r" "snd r"] rule_hit_type[of msg tool_rules ms "fst r" "snd r"]
    rule_hit_type[of msg context_rules ms "fst r" "snd r"]
  by (force simp: provider_rules_def tool_rules_def context_rules_def)+

lemma status_type: "classify_status a r = Some res \<Longrightarrow> fst res \<in> {FT_BUDGET_EXHAUSTED, FT_TIMEOUT, FT_EXECUTOR_CRASH}"
  by (auto simp: classify_status_def split: if_splits)

lemma data_type: "fst (snd (classify_data r v)) \<in>
    {FT_WRONG_MATCH, FT_BAD_RANKING, FT_EMPTY_RESULT, FT_MISSING_REQUIRED_FIELD, FT_UNKNOWN}"
  by (simp add: classify_data_def Let_def)

lemma classify_rest:
  assumes "rule_hit (error_text a r) provider_rules = None"
  shows "fr_type (classify a r v) \<notin> blocked_types \<union> {FT_APPROVAL_REQUIRED}"
proof (cases "classify_status a r")
  case (Some res)
  with assms status_type[OF Some] show ?thesis by (auto simp: classify_def)
next
  case no: None
  show ?thesis
  proof (cases "rule_hit (error_text a r) tool_rules")
    case (Some rule)
    with assms no hit_type(2)[of "error_text a r" "fst rule" "snd rule"] show ?thesis
      by (cases rule) (auto simp: classify_def)
  next
    case None
    show ?thesis
    proof (cases "rule_hit (error_text a r) context_rules")
      case (Some rule)
      with assms no None hit_type(3)[of "error_text a r" "fst rule" "snd rule"] show ?thesis
        by (cases rule) (auto simp: classify_def)
    next
      case nothing: None
      with assms no None data_type[of r v] show ?thesis
        by (cases "classify_data r v") (auto simp: classify_def)
    qed
  qed
qed

lemma classify_hit:
  assumes "rule_hit (error_text a r) provider_rules = Some (ms, rule)"
  shows "fr_type (classify a r v) = fst rule"
  using assms by (simp add: classify_def)

lemma provider_hit_blocked:
  assumes "rule_hit msg provider_rules = Some (ms, rule)"
  shows "fst rule \<in> blocked_types \<longleftrightarrow> (\<exists>m\<in>fst ` set blocking_markers. contains m msg)"
  using assms by (auto simp: rule_hit_def provider_rules_def blocking_markers_def split: if_splits)

lemma classify_blocked:
  "fr_type (classify a r v) \<in> blocked_types \<longleftrightarrow>
     (\<exists>m\<in>fst ` set blocking_markers. contains m (error_text a r))"
proof (cases "rule_hit (error_text a r) provider_rules")
  case None
  then have "\<not> (\<exists>m\<in>fst ` set blocking_markers. contains m (error_text a r))"
    unfolding rule_hit_None by (simp add: provider_rules_def blocking_markers_def)
  with classify_rest[OF None] show ?thesis by blast
next
  case (Some rule)
  then show ?thesis using provider_hit_blocked classify_hit by (metis prod.collapse)
qed

lemma classify_never_approval: "fr_type (classify a r v) \<noteq> FT_APPROVAL_REQUIRED"
proof (cases "rule_hit (error_text a r) provider_rules")
  case None
  then show ?thesis using classify_rest by blast
next
  case (Some rule)
  then show ?thesis
    using hit_type(1)[of "error_text a r" "fst rule" "snd rule"] classify_hit[of a r "fst rule" "snd rule"] by auto
qed

lemma policy_block_iff: "ra_type (policy_decide pol a rep n mx h) = RA_BLOCK_PROVIDER \<longleftrightarrow> fr_type rep \<in> blocked_types"
  by (auto simp: policy_decide_def Let_def)

lemma policy_retry:
  "ra_type (policy_decide pol a rep n mx h) \<in> retry_actions \<longleftrightarrow>
     n < mx \<and> fr_type rep \<notin> blocked_types \<union> {FT_APPROVAL_REQUIRED, FT_CONTEXT_CONFLICT}"
  by (auto simp: policy_decide_def Let_def retry_actions_def)

lemma policy_to: "ra_to (policy_decide pol a rep n mx h) =
    (if ra_type (policy_decide pol a rep n mx h) \<in> retry_actions then Some (n + 1) else None)"
  by (auto simp: policy_decide_def Let_def retry_actions_def)

section \<open>Properties\<close>

text \<open>A provider is blocked exactly when the failure says so. The policy's answer to a
  classified failure blocks the provider route if and only if the error text of the attempt
  and its result names an exhausted quota, exhausted credit or invalid credentials, whatever
  the validator found and however many attempts are left.\<close>

theorem provider_blocked_iff_marker:
  "ra_type (policy_decide pol a (classify a r v) n mx h) = RA_BLOCK_PROVIDER \<longleftrightarrow>
     contains ''QUOTA_EXHAUSTED'' (error_text a r) \<or>
     contains ''BILLING_OR_CREDIT_EXHAUSTED'' (error_text a r) \<or>
     contains ''AUTH_INVALID'' (error_text a r)"
  unfolding policy_block_iff classify_blocked by (simp add: blocking_markers_def)

text \<open>Retries are bounded. The policy schedules another attempt only while attempts remain, the
  next attempt is then the successor of the failed one, and every other answer schedules
  none; a blocked provider and a context conflict are never retried.\<close>

theorem retry_only_while_attempts_remain:
  "let act = policy_decide pol a rep n mx h in
     (ra_type act \<in> retry_actions) =
       (n < mx \<and> fr_type rep \<notin> {FT_QUOTA_EXHAUSTED, FT_BILLING_OR_CREDIT_EXHAUSTED, FT_AUTH_INVALID,
          FT_APPROVAL_REQUIRED, FT_CONTEXT_CONFLICT}) \<and>
     ra_to act = (if n < mx \<and> ra_type act \<in> retry_actions then Some (n + 1) else None)"
  using policy_retry[of pol a rep n mx h] policy_to[of pol a rep n mx h] by (auto simp: Let_def)

text \<open>The human-approval branch of the recovery policy is dead under the rule classifier: no
  failure is ever classified as needing approval, so no approval is ever requested.\<close>

theorem approval_never_requested:
  "ra_type (policy_decide pol a (classify a r v) n mx h) \<noteq> RA_HUMAN_APPROVAL"
  using classify_never_approval[of a r v] by (auto simp: policy_decide_def Let_def)

end
