(* ===== verification/RunState.thy ===== *)
theory RunState imports Failures begin

text \<open>
  The durable state of one run and what is decided from it: the rows that
  \<open>orchestrator.py\<close>, \<open>orchestrator_v2.py\<close> and \<open>resume.py\<close> read and write, and
  \<open>ResumeDecisionService\<close>.

  \<^item> \<open>run_state\<close> holds the rows of one run: the task, the run, its attempts in the order of their
    numbers (as \<open>list_for_run\<close> returns them), the validations, failure reports and recovery
    actions in the order they were written, the context snapshots, the checkpoints, the state
    of the workspace binding, and the event store.
  \<^item> A checkpoint keeps its cursor; its working state appears only as the digest that
    \<open>en_state_sha\<close> computes.
\<close>

datatype crash_point =
    AFTER_RUN_STARTED | AFTER_WORKSPACE_BOUND | AFTER_ATTEMPT_STARTED | AFTER_EXECUTOR_PERSISTED
  | AFTER_VALIDATION_PERSISTED | AFTER_FAILURE_CLASSIFIED | AFTER_RECOVERY_DECIDED
  | AFTER_CHECKPOINT_CREATED | AFTER_CONTEXT_BUILT

datatype resume_action =
    INITIALIZE_WORKSPACE | START_FIRST_ATTEMPT | START_PENDING_ATTEMPT | RESUME_NATIVE_ATTEMPT
  | RECOVER_INTERRUPTED_ATTEMPT | VALIDATE_COMPLETED_ATTEMPT | VALIDATE_NON_SUCCESS_ATTEMPT
  | COMPLETE_FROM_PERSISTED_VALIDATION | CLASSIFY_PERSISTED_VALIDATION_FAILURE
  | CLASSIFY_ATTEMPT_FAILURE | CONTINUE_PERSISTED_RECOVERY | START_NEXT_ATTEMPT | RETURN_TERMINAL

record checkpoint =
  cp_id :: string
  cp_attempt :: string
  cp_number :: nat
  cp_cursor :: nat

record run_state =
  os_task :: task
  os_run :: run
  os_attempts :: "attempt list"
  os_validations :: "validation list"
  os_reports :: "failure_report list"
  os_actions :: "recovery_action list"
  os_snapshots :: "(string \<times> string) list"
  os_checkpoints :: "checkpoint list"
  os_binding :: "string option"
  os_log :: event_log
  os_ids :: nat

section \<open>Reading the rows\<close>

definition last_opt :: "'a list \<Rightarrow> 'a option" where
  "last_opt xs = (if xs = [] then None else Some (last xs))"

definition validation_for :: "string \<Rightarrow> run_state \<Rightarrow> validation option" where
  "validation_for i s = last_opt [v \<leftarrow> os_validations s. va_attempt v = i]"

definition report_for :: "string \<Rightarrow> run_state \<Rightarrow> failure_report option" where
  "report_for i s = last_opt [r \<leftarrow> os_reports s. fr_attempt r = i]"

definition action_for :: "string \<Rightarrow> run_state \<Rightarrow> recovery_action option" where
  "action_for i s = last_opt [a \<leftarrow> os_actions s. ra_attempt a = i]"

definition snapshot_for :: "string \<Rightarrow> run_state \<Rightarrow> string option" where
  "snapshot_for i s = map_option snd (last_opt [p \<leftarrow> os_snapshots s. fst p = i])"

text \<open>The checkpoint with the greatest cursor, the latest of them.\<close>

definition latest_checkpoint :: "run_state \<Rightarrow> checkpoint option" where
  "latest_checkpoint s =
     fold (\<lambda>c best. case best of None \<Rightarrow> Some c
                    | Some b \<Rightarrow> if cp_cursor b \<le> cp_cursor c then Some c else Some b)
       (os_checkpoints s) None"

record inspection =
  in_run :: run
  in_task :: task
  in_attempts :: "attempt list"
  in_latest :: "attempt option"
  in_binding :: "string option"
  in_validation :: "validation option"
  in_report :: "failure_report option"
  in_action :: "recovery_action option"
  in_checkpoint :: "checkpoint option"
  in_snapshot :: "string option"

definition inspect :: "bool \<Rightarrow> run_state \<Rightarrow> inspection" where
  "inspect workspace s =
     (let latest = last_opt (os_attempts s) in
      \<lparr>in_run = os_run s, in_task = os_task s, in_attempts = os_attempts s, in_latest = latest,
       in_binding = (if workspace then os_binding s else None),
       in_validation = Option.bind latest (\<lambda>a. validation_for (at_id a) s),
       in_report = Option.bind latest (\<lambda>a. report_for (at_id a) s),
       in_action = Option.bind latest (\<lambda>a. action_for (at_id a) s),
       in_checkpoint = latest_checkpoint s,
       in_snapshot = Option.bind latest (\<lambda>a. snapshot_for (at_id a) s)\<rparr>)"

section \<open>The next action\<close>

definition native :: "run \<Rightarrow> bool" where
  "native r \<longleftrightarrow> rn_executor r = ''NativeAgentExecutor''"

definition passed :: "validation option \<Rightarrow> bool" where
  "passed v \<longleftrightarrow> v \<noteq> None \<and> va_passed (the v)"

text \<open>The last part of \<open>decide\<close>: a failure report exists.\<close>

definition decide_recovery :: "inspection \<Rightarrow> attempt \<Rightarrow> resume_action" where
  "decide_recovery st latest =
     (case in_action st of
        None \<Rightarrow> CONTINUE_PERSISTED_RECOVERY
      | Some act \<Rightarrow>
          if ra_type act \<in> retry_actions then
            (let current = (case in_checkpoint st of None \<Rightarrow> False
                            | Some c \<Rightarrow> cp_attempt c = at_id latest \<and> cp_number c = at_number latest)
             in if \<not> current then CONTINUE_PERSISTED_RECOVERY
                else if \<not> list_ex (\<lambda>a. at_number a = at_number latest + 1) (in_attempts st) then START_NEXT_ATTEMPT
                else RETURN_TERMINAL)
          else RETURN_TERMINAL)"

definition decide :: "bool \<Rightarrow> inspection \<Rightarrow> resume_action" where
  "decide workspace st =
     (if rn_status (in_run st) \<noteq> Run_RUNNING then RETURN_TERMINAL
      else if workspace \<and> (in_binding st = None \<or> in_binding st = Some ''CREATING'') then INITIALIZE_WORKSPACE
      else if workspace \<and> the (in_binding st) \<notin> {''OPEN'', ''COMPLETED''} then RETURN_TERMINAL
      else case in_latest st of
        None \<Rightarrow> START_FIRST_ATTEMPT
      | Some latest \<Rightarrow>
          (case at_status latest of
             Attempt_PENDING \<Rightarrow> START_PENDING_ATTEMPT
           | Attempt_RUNNING \<Rightarrow>
               if native (in_run st) then RESUME_NATIVE_ATTEMPT
               else if workspace then RECOVER_INTERRUPTED_ATTEMPT else CLASSIFY_ATTEMPT_FAILURE
           | Attempt_COMPLETED \<Rightarrow>
               if in_validation st = None then VALIDATE_COMPLETED_ATTEMPT
               else if passed (in_validation st) then COMPLETE_FROM_PERSISTED_VALIDATION
               else if in_report st = None then CLASSIFY_PERSISTED_VALIDATION_FAILURE
               else decide_recovery st latest
           | Attempt_CRASHED \<Rightarrow>
               if workspace \<and> at_error_type latest = Some ''PROCESS_INTERRUPTED'' \<and> in_validation st = None
                 then RECOVER_INTERRUPTED_ATTEMPT
               else if passed (in_validation st) then COMPLETE_FROM_PERSISTED_VALIDATION
               else if in_report st = None then CLASSIFY_ATTEMPT_FAILURE
               else decide_recovery st latest
           | _ \<Rightarrow>
               if workspace \<and> in_validation st = None then VALIDATE_NON_SUCCESS_ATTEMPT
               else if workspace \<and> passed (in_validation st) then COMPLETE_FROM_PERSISTED_VALIDATION
               else if in_report st = None then CLASSIFY_ATTEMPT_FAILURE
               else decide_recovery st latest))"

section \<open>Writing the rows\<close>

definition put_attempt :: "attempt \<Rightarrow> run_state \<Rightarrow> run_state" where
  "put_attempt a s = s\<lparr>os_attempts := map (\<lambda>b. if at_id b = at_id a then a else b) (os_attempts s)\<rparr>"

definition put_run_status :: "run_status \<Rightarrow> run_state \<Rightarrow> run_state" where
  "put_run_status st s = s\<lparr>os_run := (os_run s)\<lparr>rn_status := st\<rparr>\<rparr>"

definition put_task_status :: "task_status \<Rightarrow> run_state \<Rightarrow> run_state" where
  "put_task_status st s = s\<lparr>os_task := (os_task s)\<lparr>ta_status := st\<rparr>\<rparr>"

definition log_event :: "event_type \<Rightarrow> attempt option \<Rightarrow> pydict \<Rightarrow> run_state \<Rightarrow> run_state" where
  "log_event ty a payload s =
     s\<lparr>os_log := store_append ty (Some (ta_id (os_task s))) (Some (rn_id (os_run s)))
        (map_option at_id a) payload (os_log s)\<rparr>"

lemma log_event_frame [simp]:
  "os_task (log_event ty a p s) = os_task s" "os_run (log_event ty a p s) = os_run s"
  "os_attempts (log_event ty a p s) = os_attempts s" "os_validations (log_event ty a p s) = os_validations s"
  "os_reports (log_event ty a p s) = os_reports s" "os_actions (log_event ty a p s) = os_actions s"
  "os_snapshots (log_event ty a p s) = os_snapshots s" "os_checkpoints (log_event ty a p s) = os_checkpoints s"
  "os_binding (log_event ty a p s) = os_binding s" "os_ids (log_event ty a p s) = os_ids s"
  by (simp_all add: log_event_def)

lemma put_attempt_frame [simp]:
  "os_task (put_attempt a s) = os_task s" "os_run (put_attempt a s) = os_run s"
  "os_attempts (put_attempt a s) = map (\<lambda>b. if at_id b = at_id a then a else b) (os_attempts s)"
  "os_validations (put_attempt a s) = os_validations s"
  "os_reports (put_attempt a s) = os_reports s" "os_actions (put_attempt a s) = os_actions s"
  "os_snapshots (put_attempt a s) = os_snapshots s" "os_checkpoints (put_attempt a s) = os_checkpoints s"
  "os_binding (put_attempt a s) = os_binding s" "os_log (put_attempt a s) = os_log s"
  "os_ids (put_attempt a s) = os_ids s"
  by (simp_all add: put_attempt_def)

lemma put_status_frame [simp]:
  "os_task (put_run_status st s) = os_task s" "os_run (put_run_status st s) = (os_run s)\<lparr>rn_status := st\<rparr>"
  "os_attempts (put_run_status st s) = os_attempts s" "os_validations (put_run_status st s) = os_validations s"
  "os_reports (put_run_status st s) = os_reports s" "os_actions (put_run_status st s) = os_actions s"
  "os_snapshots (put_run_status st s) = os_snapshots s" "os_checkpoints (put_run_status st s) = os_checkpoints s"
  "os_binding (put_run_status st s) = os_binding s" "os_log (put_run_status st s) = os_log s"
  "os_ids (put_run_status st s) = os_ids s"
  "os_task (put_task_status ts s) = (os_task s)\<lparr>ta_status := ts\<rparr>" "os_run (put_task_status ts s) = os_run s"
  "os_attempts (put_task_status ts s) = os_attempts s" "os_validations (put_task_status ts s) = os_validations s"
  "os_reports (put_task_status ts s) = os_reports s" "os_actions (put_task_status ts s) = os_actions s"
  "os_snapshots (put_task_status ts s) = os_snapshots s" "os_checkpoints (put_task_status ts s) = os_checkpoints s"
  "os_binding (put_task_status ts s) = os_binding s" "os_log (put_task_status ts s) = os_log s"
  "os_ids (put_task_status ts s) = os_ids s"
  by (simp_all add: put_run_status_def put_task_status_def)

text \<open>The rows of an attempt only depend on the tables they are read from.\<close>

lemma rows_cong:
  "os_validations s = os_validations t \<Longrightarrow> validation_for i s = validation_for i t"
  "os_reports s = os_reports t \<Longrightarrow> report_for i s = report_for i t"
  "os_actions s = os_actions t \<Longrightarrow> action_for i s = action_for i t"
  "os_checkpoints s = os_checkpoints t \<Longrightarrow> latest_checkpoint s = latest_checkpoint t"
  by (simp_all add: validation_for_def report_for_def action_for_def latest_checkpoint_def)

lemma last_opt_append [simp]: "last_opt (xs @ [x]) = Some x"
  by (simp add: last_opt_def)

lemma last_opt_Nil [simp]: "last_opt [] = None"
  by (simp add: last_opt_def)

lemma last_opt_None [simp]: "last_opt xs = None \<longleftrightarrow> xs = []"
  by (simp add: last_opt_def)

lemma last_opt_mem: "last_opt xs = Some x \<Longrightarrow> x \<in> set xs"
  by (auto simp: last_opt_def split: if_splits)

lemma last_opt_split: "last_opt xs = Some x \<longleftrightarrow> (\<exists>ys. xs = ys @ [x])"
  by (cases xs rule: rev_cases) (auto simp: last_opt_def)

end
