(* ===== verification/Orchestrator.thy ===== *)
theory Orchestrator imports RunState begin

text \<open>
  The attempt loop: \<open>Orchestrator\<close> (\<open>orchestrator.py\<close>) and \<open>RecoveringOrchestrator\<close>
  (\<open>orchestrator_v2.py\<close>), which executes one durable action at a time, so that a process that
  died can be replaced by another one that resumes the run.

  What the loop calls but does not own is the environment \<open>env\<close>: the executor (one
  \<open>exec_outcome\<close> per call, which already includes what the execution-control token did to it),
  the validator, the context builder, the workspace, the crash injector and fresh ids. Each
  may depend on the whole durable state at the time of the call.
\<close>

datatype exec_outcome =
    Returned exec_result nat
  | Layer_timeout string string nat
  | Control_terminated string string pydict nat
  | Wait_timeout nat
  | Raised string string nat

datatype orch_error =
    Injected_crash crash_point
  | Context_error string
  | Run_not_resumable string

record env =
  en_workspace :: bool
  en_ensure :: "run_state \<Rightarrow> string option"
  en_recovered :: "run_state \<Rightarrow> pydict"
  en_execute :: "run_state \<Rightarrow> attempt \<Rightarrow> exec_outcome"
  en_validate :: "run_state \<Rightarrow> attempt \<Rightarrow> exec_result \<Rightarrow> validation"
  en_context :: "run_state \<Rightarrow> attempt \<Rightarrow> string + string"
  en_crash :: "crash_point \<Rightarrow> run_state \<Rightarrow> bool"
  en_new_id :: "nat \<Rightarrow> string"
  en_state_sha :: "run_state \<Rightarrow> string"
  en_executor_name :: string
  en_policy :: string
  en_timeout_text :: "rat \<Rightarrow> string"

text \<open>A handler returns an exception, if it raises one, and the durable state it leaves.\<close>

type_synonym outcome = "orch_error option \<times> run_state"

definition and_then :: "outcome \<Rightarrow> (run_state \<Rightarrow> outcome) \<Rightarrow> outcome" where
  "and_then r f = (case r of (None, s) \<Rightarrow> f s | (Some e, s) \<Rightarrow> (Some e, s))"

definition crash_at :: "env \<Rightarrow> crash_point \<Rightarrow> run_state \<Rightarrow> outcome" where
  "crash_at env p s = (if en_crash env p s then Some (Injected_crash p) else None, s)"

section \<open>Running the executor\<close>

text \<open>\<open>_finalize_attempt\<close>. The event map has no entry for a completed attempt.\<close>

definition finalize_attempt ::
  "attempt \<Rightarrow> attempt_status \<Rightarrow> string \<Rightarrow> string option \<Rightarrow> string option \<Rightarrow> nat \<Rightarrow> exec_result option \<Rightarrow>
   run_state \<Rightarrow> run_state"
where
  "finalize_attempt a st reason et em ms res s =
     (let b = a\<lparr>at_status := st, at_duration := Some ms, at_error_type := et, at_error_message := em\<rparr>;
          b = (case res of None \<Rightarrow> b
               | Some r \<Rightarrow> b\<lparr>at_output := er_output r, at_result := Some r, at_usage := er_usage r\<rparr>);
          payload = [(''attempt_number'', PInt (int (at_number a))), (''reason'', PStr reason),
                     (''error_type'', opt_str et)];
          s' = put_attempt b s
      in case st of
           Attempt_FAILED \<Rightarrow> log_event (Ev_Attempt ATTEMPT_FAILED) (Some a) payload s'
         | Attempt_TIMED_OUT \<Rightarrow> log_event (Ev_Attempt ATTEMPT_TIMED_OUT) (Some a) payload s'
         | Attempt_CRASHED \<Rightarrow> log_event (Ev_Attempt ATTEMPT_CRASHED) (Some a) payload s'
         | _ \<Rightarrow> s')"

definition executor_failed :: "attempt \<Rightarrow> string \<Rightarrow> string option \<Rightarrow> string option \<Rightarrow> nat \<Rightarrow> run_state \<Rightarrow> run_state" where
  "executor_failed a reason et em ms s =
     log_event (Ev_Executor EXECUTOR_FAILED) (Some a)
       [(''reason'', PStr reason), (''error_type'', opt_str et), (''error_message'', opt_str em),
        (''duration_ms'', PInt (int ms))] s"

datatype run_outcome = Out_completed | Out_failed | Out_timed_out | Out_crashed | Out_cancelled

definition status_map :: "execution_status \<Rightarrow> attempt_status" where
  "status_map st = (case st of Exec_TIMEOUT \<Rightarrow> Attempt_TIMED_OUT | Exec_CRASH \<Rightarrow> Attempt_CRASHED | _ \<Rightarrow> Attempt_FAILED)"

definition run_executor ::
  "env \<Rightarrow> attempt \<Rightarrow> run_state \<Rightarrow> (exec_result option \<times> run_outcome) \<times> run_state" where
  "run_executor env a s =
     (case en_execute env s a of
        Layer_timeout ft reason ms \<Rightarrow>
          ((None, Out_timed_out),
           finalize_attempt a Attempt_TIMED_OUT ''timeout'' (Some ft) (Some reason) ms None
             (executor_failed a ''timeout'' (Some ft) (Some reason) ms s))
      | Control_terminated ft reason evidence ms \<Rightarrow>
          ((None, Out_cancelled),
           put_task_status Task_CANCELLED (put_run_status Run_CANCELLED
             (finalize_attempt a Attempt_FAILED reason (Some ft) (Some reason) ms None
               (log_event (Ev_Executor (if ft = ''ROOT_DEADLINE_EXCEEDED'' then EXECUTION_DEADLINE_EXCEEDED
                                        else EXECUTION_CANCELLED)) (Some a) evidence s))))
      | Wait_timeout ms \<Rightarrow>
          (let em = Some (''executor exceeded timeout of '' @ en_timeout_text env (ta_timeout (os_task s)) @ ''s'') in
           ((None, Out_timed_out),
            finalize_attempt a Attempt_TIMED_OUT ''timeout'' (Some ''TimeoutError'') em ms None
              (executor_failed a ''timeout'' (Some ''TimeoutError'') em ms s)))
      | Raised et em ms \<Rightarrow>
          ((None, Out_crashed),
           finalize_attempt a Attempt_CRASHED ''crash'' (Some et) (Some em) ms None
             (executor_failed a ''crash'' (Some et) (Some em) ms s))
      | Returned r ms \<Rightarrow>
          if er_status r = Exec_SUCCESS then
            ((Some r, Out_completed),
             log_event (Ev_Attempt ATTEMPT_COMPLETED) (Some a) [(''attempt_number'', PInt (int (at_number a)))]
               (log_event (Ev_Executor EXECUTOR_COMPLETED) (Some a)
                  [(''duration_ms'', PInt (int ms)), (''output'', opt_str (er_output r))]
                  (finalize_attempt a Attempt_COMPLETED [] None None ms (Some r) s)))
          else
            ((Some r, Out_failed),
             finalize_attempt a (status_map (er_status r)) ''failure''
               (or_str (er_error_type r) (Some (execution_status_value (er_status r))))
               (or_str (er_error_message r) (Some (execution_status_value (er_status r)))) ms (Some r)
               (executor_failed a (casefold (execution_status_value (er_status r)))
                  (er_error_type r) (er_error_message r) ms s)))"

definition new_attempt :: "env \<Rightarrow> nat \<Rightarrow> run_state \<Rightarrow> attempt" where
  "new_attempt env n s =
     \<lparr>at_id = en_new_id env (os_ids s), at_run = rn_id (os_run s), at_number = n, at_status = Attempt_PENDING,
      at_snapshot = None, at_result = None, at_usage = [], at_failure = None, at_error_type = None,
      at_error_message = None, at_output = None, at_duration = None\<rparr>"

definition create_attempt :: "env \<Rightarrow> nat \<Rightarrow> run_state \<Rightarrow> attempt \<times> run_state" where
  "create_attempt env n s =
     (let a = new_attempt env n s in (a, s\<lparr>os_attempts := os_attempts s @ [a], os_ids := os_ids s + 1\<rparr>))"

section \<open>The recovering orchestrator: one handler per durable action\<close>

text \<open>The pending attempt with this number, or a new one.\<close>

definition attempt_to_run :: "env \<Rightarrow> nat \<Rightarrow> run_state \<Rightarrow> attempt \<times> run_state" where
  "attempt_to_run env n s =
     (case last_opt (os_attempts s) of
        Some l \<Rightarrow> if at_status l = Attempt_PENDING \<and> at_number l = n then (l, s) else create_attempt env n s
      | None \<Rightarrow> create_attempt env n s)"

definition run_attempt :: "env \<Rightarrow> nat \<Rightarrow> attempt \<Rightarrow> run_state \<Rightarrow> outcome" where
  "run_attempt env n a s =
     (let s = log_event (Ev_Attempt ATTEMPT_STARTED) (Some a)
            [(''attempt_number'', PInt (int n)), (''resume_origin'', if 1 < n then PStr ''PROCESS_RESUME'' else PNone)] s;
          a = a\<lparr>at_status := Attempt_RUNNING\<rparr>
      in and_then (crash_at env AFTER_ATTEMPT_STARTED (put_attempt a s)) (\<lambda>s.
         case en_context env s a of
           Inl e \<Rightarrow> (Some (Context_error e), s)
         | Inr policy \<Rightarrow>
             (let i = en_new_id env (os_ids s);
                  a = a\<lparr>at_snapshot := Some i\<rparr>;
                  s = put_attempt a (s\<lparr>os_snapshots := os_snapshots s @ [(at_id a, i)], os_ids := os_ids s + 1\<rparr>);
                  s = log_event (Ev_Executor CONTEXT_BUILT) (Some a)
                        [(''context_snapshot_id'', PStr i), (''policy'', PStr policy)] s
              in and_then (crash_at env AFTER_CONTEXT_BUILT s) (\<lambda>s.
                 let s = log_event (Ev_Executor EXECUTOR_STARTED) (Some a)
                           [(''executor'', PStr (en_executor_name env))] s
                 in crash_at env AFTER_EXECUTOR_PERSISTED (snd (run_executor env a s))))))"

definition execute_attempt :: "env \<Rightarrow> nat \<Rightarrow> run_state \<Rightarrow> outcome" where
  "execute_attempt env n s = (case attempt_to_run env n s of (a, s') \<Rightarrow> run_attempt env n a s')"

text \<open>\<open>_result_for_attempt\<close>: the persisted result, or one made from the attempt's columns.\<close>

definition result_for_attempt :: "attempt \<Rightarrow> exec_result" where
  "result_for_attempt a =
     (case at_result a of
        Some r \<Rightarrow> r
      | None \<Rightarrow> plain_result (if at_status a = Attempt_COMPLETED then Exec_SUCCESS else Exec_FAILURE)
                  (at_output a) (at_error_type a) (at_error_message a))"

text \<open>\<open>validation_repo.update\<close>: rewrite the row that \<open>get_for_attempt\<close> returned.\<close>

fun replace_first :: "('a \<Rightarrow> bool) \<Rightarrow> 'a \<Rightarrow> 'a list \<Rightarrow> 'a list" where
  "replace_first P y [] = []"
| "replace_first P y (x # xs) = (if P x then y # xs else x # replace_first P y xs)"

definition update_validation :: "string \<Rightarrow> validation \<Rightarrow> run_state \<Rightarrow> run_state" where
  "update_validation i v s =
     s\<lparr>os_validations := rev (replace_first (\<lambda>w. va_attempt w = i) (v\<lparr>va_attempt := i\<rparr>) (rev (os_validations s)))\<rparr>"

definition validate_result :: "env \<Rightarrow> bool \<Rightarrow> bool \<Rightarrow> attempt \<Rightarrow> exec_result \<Rightarrow> run_state \<Rightarrow> outcome" where
  "validate_result env recovery_origin arbitration a r s0 =
     (let existing = validation_for (at_id a) s0;
          migration = (existing \<noteq> None \<and> \<not> passed existing \<and> at_status a = Attempt_COMPLETED \<and>
                       er_status r = Exec_SUCCESS \<and> at_error_type a = None \<and> native (os_run s0))
      in if existing \<noteq> None \<and> \<not> migration then (None, s0)
         else
           let payload = (if recovery_origin then [(''recovery_origin'', PStr ''PROCESS_RESUME'')] else []) @
                 (if arbitration then [(''outcome_arbitration'', PBool True),
                    (''executor_attempt_status'', PStr (attempt_status_value (at_status a))),
                    (''executor_error_type'', opt_str (at_error_type a))] else []);
               s1 = log_event (Ev_Validation VALIDATION_STARTED) (Some a) payload s0;
               v = en_validate env s1 a r;
               s2 = (if migration then update_validation (at_id a) v s1
                     else s1\<lparr>os_validations := os_validations s1 @ [v]\<rparr>)
           in and_then (crash_at env AFTER_VALIDATION_PERSISTED s2) (\<lambda>s.
                (None, log_event (Ev_Validation (if va_passed v then VALIDATION_PASSED else VALIDATION_FAILED)) (Some a)
                   ([(''evidence'', opt_str (va_evidence v))] @
                    (if recovery_origin then [(''recovery_origin'', PStr ''PROCESS_RESUME'')] else [])) s)))"

text \<open>The result that stands in for the one the dead process never returned.\<close>

definition recovered_result :: "pydict \<Rightarrow> exec_result" where
  "recovered_result recovery =
     plain_result Exec_SUCCESS (Some (json_dumps '', '' '': ''
       (PDict [(''recovery_origin'', PStr ''PROCESS_RESUME''), (''workspace_recovery'', PDict recovery)])))
       None None"

definition recover_interrupted_attempt :: "env \<Rightarrow> attempt \<Rightarrow> validation option \<Rightarrow> run_state \<Rightarrow> outcome" where
  "recover_interrupted_attempt env a0 v s0 =
     (let (a, s) = (if at_status a0 = Attempt_RUNNING then
            (let a = a0\<lparr>at_status := Attempt_CRASHED, at_error_type := Some ''PROCESS_INTERRUPTED'',
                       at_error_message := Some ''previous process ended before attempt finalization''\<rparr>
             in (a, log_event (Ev_Attempt ATTEMPT_CRASHED) (Some a)
                      [(''attempt_number'', PInt (int (at_number a))), (''error_type'', opt_str (at_error_type a))]
                      (put_attempt a s0)))
          else (a0, s0))
      in if v \<noteq> None then (None, s)
         else
           let recovery = en_recovered env s;
               s = log_event (Ev_Inner_Agent WORKSPACE_RECOVERY_STATE) (Some a) recovery s
           in validate_result env True False a (recovered_result recovery) s)"

definition resume_native_attempt :: "env \<Rightarrow> attempt \<Rightarrow> validation option \<Rightarrow> run_state \<Rightarrow> outcome" where
  "resume_native_attempt env a v s0 =
     (if \<not> native (os_run s0) \<or> at_status a \<noteq> Attempt_RUNNING then
        (Some (Run_not_resumable ''NATIVE_ATTEMPT_RESUME_STATE_INVALID''), s0)
      else
        let s = snd (run_executor env a (log_event (Ev_Executor EXECUTOR_STARTED) (Some a)
                  [(''executor'', PStr (en_executor_name env)), (''resume_same_attempt'', PBool True)] s0))
        in if v \<noteq> None \<and> \<not> passed v then
             (case List.find (\<lambda>b. at_id b = at_id a) (os_attempts s) of
                Some b \<Rightarrow> if at_status b = Attempt_COMPLETED then
                            validate_result env False False b (result_for_attempt b) s
                          else (None, s)
              | None \<Rightarrow> (None, s))
           else (None, s))"

definition classify_state :: "env \<Rightarrow> attempt \<Rightarrow> validation option \<Rightarrow> run_state \<Rightarrow> outcome" where
  "classify_state env a v s =
     (if report_for (at_id a) s \<noteq> None then (None, s)
      else
        let rep = classify a (Some (result_for_attempt a)) v;
            a = a\<lparr>at_failure := Some (failure_type_value (fr_type rep))\<rparr>
        in crash_at env AFTER_FAILURE_CLASSIFIED
             (log_event (Ev_Validation FAILURE_CLASSIFIED) (Some a)
                [(''failure_type'', PStr (failure_type_value (fr_type rep))),
                 (''failure_class'', PStr (failure_class_value (fr_class rep))),
                 (''suggested_recovery'', PStr (fr_suggested rep))]
                (put_attempt a (s\<lparr>os_reports := os_reports s @ [rep]\<rparr>))))"

definition create_checkpoint :: "env \<Rightarrow> attempt \<Rightarrow> run_state \<Rightarrow> run_state" where
  "create_checkpoint env a s =
     (let cursor = latest_sequence (rn_id (os_run s)) (os_log s);
          i = en_new_id env (os_ids s);
          c = \<lparr>cp_id = i, cp_attempt = at_id a, cp_number = at_number a, cp_cursor = cursor\<rparr>
      in log_event (Ev_Inner_Agent CHECKPOINT_CREATED) (Some a)
           [(''checkpoint_id'', PStr i), (''attempt_number'', PInt (int (at_number a))),
            (''event_cursor'', PInt (int cursor)), (''state_sha256'', PStr (en_state_sha env s))]
           (s\<lparr>os_checkpoints := os_checkpoints s @ [c], os_ids := os_ids s + 1\<rparr>))"

definition record_action :: "env \<Rightarrow> attempt \<Rightarrow> recovery_action \<Rightarrow> run_state \<Rightarrow> outcome" where
  "record_action env a act s =
     crash_at env AFTER_RECOVERY_DECIDED
       (log_event (Ev_Validation RECOVERY_DECIDED) (Some a)
          [(''action'', PStr (recovery_action_value (ra_type act))), (''reason'', PStr (ra_reason act)),
           (''attempt_to'', case ra_to act of None \<Rightarrow> PNone | Some k \<Rightarrow> PInt (int k)),
           (''added_context'', PDict (ra_added act))]
          (s\<lparr>os_actions := os_actions s @ [act]\<rparr>))"

definition finish_recovery :: "env \<Rightarrow> attempt \<Rightarrow> recovery_action \<Rightarrow> run_state \<Rightarrow> outcome" where
  "finish_recovery env a act s0 =
     (let checkpointed = (case latest_checkpoint s0 of None \<Rightarrow> False
            | Some c \<Rightarrow> cp_attempt c = at_id a \<and> cp_number c = at_number a)
      in and_then
           (if checkpointed then (None, s0)
            else crash_at env AFTER_CHECKPOINT_CREATED (create_checkpoint env a s0))
           (\<lambda>s. (None, if ra_type act \<in> retry_actions then
                   log_event (Ev_Validation RECOVERY_STARTED) (Some a)
                     [(''action'', PStr (recovery_action_value (ra_type act))),
                      (''next_attempt'', PInt (int (at_number a) + 1))] s
                 else s)))"

text \<open>
  \<open>report = state.failure_report or await self._classify_state(state)\<close>; the report that
  classification has stored is read back.
\<close>

definition continue_recovery ::
  "env \<Rightarrow> attempt \<Rightarrow> validation option \<Rightarrow> recovery_action option \<Rightarrow> run_state \<Rightarrow> outcome" where
  "continue_recovery env a v known s0 =
     and_then (classify_state env a v s0) (\<lambda>s.
       case (known, report_for (at_id a) s) of
         (Some act, _) \<Rightarrow> finish_recovery env a act s
       | (None, Some rep) \<Rightarrow>
           (let act = policy_decide (en_policy env) a rep (at_number a) (ta_max_attempts (os_task s))
                        (length (os_actions s))
            in and_then (record_action env a act s) (finish_recovery env a act))
       | (None, None) \<Rightarrow> (None, s))"

section \<open>Ending a run\<close>

definition complete_run :: "env \<Rightarrow> bool \<Rightarrow> attempt \<Rightarrow> validation option \<Rightarrow> run_state \<Rightarrow> run_state" where
  "complete_run env resume a v s =
     (let r = result_for_attempt a;
          ok = passed v;
          s = s\<lparr>os_run := (os_run s)\<lparr>rn_result := Some (PDict [(''output'', opt_str (er_output r)),
                 (''status'', PStr (execution_status_value (er_status r))), (''validation'', PBool ok)]),
                 rn_status := Run_COMPLETED\<rparr>\<rparr>;
          s = log_event (Ev_Run RUN_COMPLETED) (Some a) [(''validation'', PBool ok)] s;
          s = log_event (Ev_Task TASK_COMPLETED) (Some a) [] (put_task_status Task_COMPLETED s);
          s = (if en_workspace env then s\<lparr>os_binding := Some ''COMPLETED''\<rparr> else s)
      in if resume then log_event (Ev_Inner_Agent RUN_RESUME_COMPLETED) (Some a)
           [(''resume_validation_passed'', PBool True)] s else s)"

definition finish_from_state :: "bool \<Rightarrow> attempt option \<Rightarrow> recovery_action option \<Rightarrow> run_state \<Rightarrow> outcome" where
  "finish_from_state resume latest known s =
     (if rn_status (os_run s) \<noteq> Run_RUNNING then (None, s)
      else case known of
        None \<Rightarrow> (Some (Run_not_resumable ''RUN_NOT_RESUMABLE''), s)
      | Some act \<Rightarrow>
          if ra_type act = RA_BLOCK_PROVIDER then
            (None, log_event (Ev_Task TASK_FAILED) latest
                     [(''reason'', PStr (ra_reason act)), (''blocked_provider'', PBool True)]
                     (put_run_status Run_BLOCKED_PROVIDER (put_task_status Task_BLOCKED_PROVIDER s)))
          else
            let escalated = ra_type act \<in> {RA_ESCALATE, RA_HUMAN_APPROVAL};
                s = put_task_status (if escalated then Task_ESCALATED else Task_FAILED)
                      (put_run_status (if escalated then Run_ESCALATED else Run_FAILED) s);
                s = log_event (Ev_Run (if escalated then RUN_ESCALATED else RUN_FAILED)) latest
                      [(''reason'', PStr (ra_reason act)), (''resume'', PBool resume)] s;
                s = log_event (Ev_Task (if escalated then TASK_ESCALATED else TASK_FAILED)) latest
                      [(''reason'', PStr (ra_reason act))] s
            in (None, if resume then log_event (Ev_Inner_Agent RUN_RESUME_FAILED) latest
                        [(''action'', PStr (recovery_action_value (ra_type act)))] s else s))"

section \<open>The loop\<close>

text \<open>One iteration: carry on with the new state, or leave the loop.\<close>

datatype iteration = Next run_state | Leave outcome

definition carry_on :: "outcome \<Rightarrow> iteration" where
  "carry_on r = (case r of (None, s) \<Rightarrow> Next s | (Some e, s) \<Rightarrow> Leave (Some e, s))"

definition continue_step :: "env \<Rightarrow> bool \<Rightarrow> run_state \<Rightarrow> iteration" where
  "continue_step env resume s =
     (let st = inspect (en_workspace env) s;
          a = the (in_latest st);
          v = in_validation st
      in case decide (en_workspace env) st of
           RETURN_TERMINAL \<Rightarrow> Leave (finish_from_state resume (in_latest st) (in_action st) s)
         | INITIALIZE_WORKSPACE \<Rightarrow> Next (s\<lparr>os_binding := en_ensure env s\<rparr>)
         | START_FIRST_ATTEMPT \<Rightarrow> carry_on (execute_attempt env 1 s)
         | START_PENDING_ATTEMPT \<Rightarrow> carry_on (execute_attempt env (at_number a) s)
         | RESUME_NATIVE_ATTEMPT \<Rightarrow> carry_on (resume_native_attempt env a v s)
         | START_NEXT_ATTEMPT \<Rightarrow> carry_on (execute_attempt env (at_number a + 1) s)
         | RECOVER_INTERRUPTED_ATTEMPT \<Rightarrow> carry_on (recover_interrupted_attempt env a v s)
         | VALIDATE_COMPLETED_ATTEMPT \<Rightarrow> carry_on (validate_result env False False a (result_for_attempt a) s)
         | VALIDATE_NON_SUCCESS_ATTEMPT \<Rightarrow> carry_on (validate_result env False True a (result_for_attempt a) s)
         | COMPLETE_FROM_PERSISTED_VALIDATION \<Rightarrow> Leave (None, complete_run env resume a v s)
         | CLASSIFY_PERSISTED_VALIDATION_FAILURE \<Rightarrow> carry_on (classify_state env a v s)
         | CLASSIFY_ATTEMPT_FAILURE \<Rightarrow> carry_on (classify_state env a v s)
         | CONTINUE_PERSISTED_RECOVERY \<Rightarrow> carry_on (continue_recovery env a v (in_action st) s))"

primrec continue_run :: "env \<Rightarrow> bool \<Rightarrow> nat \<Rightarrow> run_state \<Rightarrow> outcome" where
  "continue_run env resume 0 s = (Some (Run_not_resumable ''RESUME_STATE_MACHINE_GUARD_EXCEEDED''), s)"
| "continue_run env resume (Suc n) s =
     (case continue_step env resume s of Leave r \<Rightarrow> r | Next s' \<Rightarrow> continue_run env resume n s')"

definition loop_guard :: nat where
  "loop_guard = 256"

section \<open>The entry points\<close>

definition new_run :: "env \<Rightarrow> run \<Rightarrow> task \<Rightarrow> event_log \<Rightarrow> nat \<Rightarrow> run_state" where
  "new_run env cfg t lg k =
     \<lparr>os_task = t, os_run = cfg\<lparr>rn_id := en_new_id env k, rn_task := ta_id t, rn_status := Run_CREATED,
        rn_result := None\<rparr>, os_attempts = [], os_validations = [], os_reports = [], os_actions = [],
      os_snapshots = [], os_checkpoints = [], os_binding = None, os_log = lg, os_ids = k + 1\<rparr>"

text \<open>\<open>cfg\<close> carries the executor, provider and policy columns the orchestrator was built with.\<close>

definition prepare_task_run :: "env \<Rightarrow> run \<Rightarrow> task \<Rightarrow> event_log \<Rightarrow> nat \<Rightarrow> outcome option" where
  "prepare_task_run env cfg t lg k =
     (if ta_status t \<notin> {Task_CREATED, Task_READY} then None
      else
        let lg = store_append (Ev_Task TASK_STARTED) (Some (ta_id t)) None None [(''status'', PStr ''RUNNING'')] lg;
            s = new_run env cfg (t\<lparr>ta_status := Task_RUNNING\<rparr>) lg k;
            s = log_event (Ev_Run RUN_STARTED) None [] (put_run_status Run_RUNNING (log_event (Ev_Run RUN_CREATED) None [] s))
        in Some (and_then (crash_at env AFTER_RUN_STARTED s) (\<lambda>s.
             if en_workspace env then crash_at env AFTER_WORKSPACE_BOUND (s\<lparr>os_binding := en_ensure env s\<rparr>)
             else (None, s))))"

definition continue_prepared_run :: "env \<Rightarrow> run_state \<Rightarrow> outcome" where
  "continue_prepared_run env s =
     (if rn_status (os_run s) \<noteq> Run_RUNNING then (None, s)
      else continue_run env False loop_guard (if en_workspace env then s\<lparr>os_binding := en_ensure env s\<rparr> else s))"

definition execute_task :: "env \<Rightarrow> run \<Rightarrow> task \<Rightarrow> event_log \<Rightarrow> nat \<Rightarrow> outcome option" where
  "execute_task env cfg t lg k =
     map_option (\<lambda>r. and_then r (continue_prepared_run env)) (prepare_task_run env cfg t lg k)"

definition resume_run :: "env \<Rightarrow> string option \<Rightarrow> run_state \<Rightarrow> outcome" where
  "resume_run env session s =
     (if rn_status (os_run s) \<noteq> Run_RUNNING then (None, s)
      else if \<not> en_workspace env \<and> \<not> native (os_run s) then
        (Some (Run_not_resumable ''WORKSPACE_SESSION_NOT_CONFIGURED''), s)
      else
        let s = (if en_workspace env then s\<lparr>os_binding := en_ensure env s\<rparr> else s)
        in continue_run env True loop_guard
             (log_event (Ev_Inner_Agent RUN_RESUME_STARTED) None
                [(''session_id'', if en_workspace env then opt_str session else PNone),
                 (''control_intent'', PStr ''resume_run'')] s))"

text \<open>
  \<open>resume_task\<close> for the task's last run. \<open>target\<close> is the requested runtime target, if any; for
  it \<open>switched\<close> is None when the executor has no target controller, otherwise whether the
  switch committed.
\<close>

definition reopen_attempt :: "run_state \<Rightarrow> run_state" where
  "reopen_attempt s =
     (case last_opt (os_attempts s) of
        Some a \<Rightarrow>
          if at_error_type a \<in> {Some ''QUOTA_EXHAUSTED'', Some ''BILLING_OR_CREDIT_EXHAUSTED'', Some ''AUTH_INVALID''} \<and>
             native (os_run s)
          then put_attempt (a\<lparr>at_status := Attempt_RUNNING, at_error_type := None, at_error_message := None\<rparr>) s
          else s
      | None \<Rightarrow> s)"

definition unpark :: "run_state \<Rightarrow> run_state" where
  "unpark s =
     (let s = (if ta_status (os_task s) = Task_BLOCKED_PROVIDER then put_task_status Task_RUNNING s else s)
      in if rn_status (os_run s) = Run_BLOCKED_PROVIDER then put_run_status Run_RUNNING s else s)"

definition resume_task :: "env \<Rightarrow> string option \<Rightarrow> bool \<Rightarrow> bool option \<Rightarrow> run_state \<Rightarrow> outcome" where
  "resume_task env session target switched s =
     (let migrating = (target \<or> ta_status (os_task s) = Task_BLOCKED_PROVIDER \<or>
                       rn_status (os_run s) = Run_BLOCKED_PROVIDER);
          refuse = (\<lambda>e s. (Some (Run_not_resumable e), s))
      in if migrating \<and> rn_status (os_run s) \<notin> {Run_RUNNING, Run_BLOCKED_PROVIDER} then
           refuse ''RUN_NOT_RESUMABLE'' s
         else if migrating \<and> \<not> target then
           refuse ''RUNTIME_TARGET_REQUIRED_FOR_PROVIDER_MIGRATION'' s
         else if migrating \<and> \<not> native (os_run s) then
           refuse ''PROVIDER_MIGRATION_REQUIRES_NATIVE_EXECUTOR'' s
         else
           let s = (if migrating \<and> en_workspace env then s\<lparr>os_binding := en_ensure env s\<rparr> else s)
           in if migrating \<and> switched = None then refuse ''RUNTIME_TARGET_CONTROLLER_NOT_WIRED'' s
              else if migrating \<and> switched = Some False then refuse ''RUNTIME_TARGET_SWITCH_FAILED'' s
              else resume_run env session (reopen_attempt (unpark s)))"

section \<open>The phase A orchestrator\<close>

definition phase_a_decide :: "nat \<Rightarrow> nat \<Rightarrow> string \<times> string \<times> nat option" where
  "phase_a_decide n max_attempts =
     (if n \<ge> max_attempts then (''ESCALATE'', ''max attempts reached'', None)
      else if n = 1 then
        (''RETRY_WITH_FAILURE_CONTEXT'', ''first attempt failed; retry with failure context'', Some (n + 1))
      else (''RETRY_WITH_EXPANDED_CONTEXT'', ''second attempt failed; retry with expanded context'', Some (n + 1)))"

text \<open>One turn of the loop for attempt \<open>n\<close>: the attempt is started, the executor runs, and the
  outcome either ends the run (True) or schedules the next turn.\<close>

definition phase_a_start :: "env \<Rightarrow> nat \<Rightarrow> run_state \<Rightarrow> attempt \<times> run_state" where
  "phase_a_start env n s =
     (let (a, s) = create_attempt env n s;
          s = log_event (Ev_Attempt ATTEMPT_STARTED) (Some a) [(''attempt_number'', PInt (int n))] s;
          i = ''ctx-'' @ at_id a;
          a = a\<lparr>at_status := Attempt_RUNNING, at_snapshot := Some i\<rparr>;
          s = log_event (Ev_Executor CONTEXT_BUILT) (Some a)
                [(''context_snapshot_id'', PStr i), (''policy'', PStr (en_policy env))] (put_attempt a s)
      in (a, log_event (Ev_Executor EXECUTOR_STARTED) (Some a) [(''executor'', PStr (en_executor_name env))] s))"

definition phase_a_complete :: "attempt \<Rightarrow> exec_result \<Rightarrow> run_state \<Rightarrow> run_state" where
  "phase_a_complete a r s =
     (let s = s\<lparr>os_run := (os_run s)\<lparr>rn_result := Some (PDict [(''output'', opt_str (er_output r)),
             (''status'', PStr (execution_status_value (er_status r)))]), rn_status := Run_COMPLETED\<rparr>\<rparr>
      in log_event (Ev_Task TASK_COMPLETED) (Some a) []
           (put_task_status Task_COMPLETED (log_event (Ev_Run RUN_COMPLETED) (Some a) [] s)))"

definition phase_a_escalate :: "attempt \<Rightarrow> string \<Rightarrow> run_state \<Rightarrow> run_state" where
  "phase_a_escalate a reason s =
     log_event (Ev_Task TASK_ESCALATED) (Some a) [(''reason'', PStr reason)]
       (put_task_status Task_ESCALATED
          (log_event (Ev_Run RUN_ESCALATED) (Some a) [(''reason'', PStr reason)] (put_run_status Run_ESCALATED s)))"

definition phase_a_settle ::
  "nat \<Rightarrow> attempt \<Rightarrow> exec_result option \<Rightarrow> run_outcome \<Rightarrow> run_state \<Rightarrow> bool \<times> run_state" where
  "phase_a_settle n a res out s =
     (case (out, res) of
        (Out_completed, Some r) \<Rightarrow> (True, phase_a_complete a r s)
      | _ \<Rightarrow>
          (case phase_a_decide n (ta_max_attempts (os_task s)) of
             (_, reason, None) \<Rightarrow> (True, phase_a_escalate a reason s)
           | (act, reason, Some k) \<Rightarrow>
               (False, log_event (Ev_Executor RETRY_SCHEDULED) (Some a)
                  [(''action'', PStr act), (''reason'', PStr reason), (''next_attempt'', PInt (int k)),
                   (''from_attempt'', PInt (int n))] s)))"

definition phase_a_attempt :: "env \<Rightarrow> nat \<Rightarrow> run_state \<Rightarrow> bool \<times> run_state" where
  "phase_a_attempt env n s =
     (let (a, s) = phase_a_start env n s; ((res, out), s) = run_executor env a s
      in phase_a_settle n a res out s)"

text \<open>\<open>for n in range(1, task.max_attempts + 1)\<close>: \<open>left\<close> attempts from number \<open>n\<close> on.\<close>

primrec phase_a_loop :: "env \<Rightarrow> nat \<Rightarrow> nat \<Rightarrow> run_state \<Rightarrow> run_state" where
  "phase_a_loop env 0 n s =
     log_event (Ev_Task TASK_FAILED) None [] (log_event (Ev_Run RUN_FAILED) None []
       (put_task_status Task_FAILED (put_run_status Run_FAILED s)))"
| "phase_a_loop env (Suc left) n s =
     (let (ended, s') = phase_a_attempt env n s in if ended then s' else phase_a_loop env left (n + 1) s')"

definition phase_a_execute_task :: "env \<Rightarrow> run \<Rightarrow> task \<Rightarrow> event_log \<Rightarrow> nat \<Rightarrow> run_state option" where
  "phase_a_execute_task env cfg t lg k =
     (if ta_status t \<notin> {Task_CREATED, Task_READY} then None
      else
        let lg = store_append (Ev_Task TASK_STARTED) (Some (ta_id t)) None None [(''status'', PStr ''RUNNING'')] lg;
            s = new_run env cfg (t\<lparr>ta_status := Task_RUNNING\<rparr>) lg k;
            s = log_event (Ev_Run RUN_STARTED) None [] (put_run_status Run_RUNNING (log_event (Ev_Run RUN_CREATED) None [] s))
        in Some (phase_a_loop env (ta_max_attempts t) 1 s))"

end
