(* ===== verification/RunSafety.thy ===== *)
theory RunSafety imports Orchestrator begin

text \<open>
  What every handler of the recovering orchestrator keeps, whatever the environment does and
  wherever the process dies: attempts are numbered without gaps and bounded, their ids are
  fresh, retry decisions belong to attempts that may be retried, and a completed run has a
  validation that passed.
\<close>

section \<open>Frames\<close>

definition numbered :: "run_state \<Rightarrow> (string \<times> nat) list" where
  "numbered s = map (\<lambda>a. (at_id a, at_number a)) (os_attempts s)"

text \<open>\<open>grows s t\<close>: a handler that neither creates an attempt nor decides a recovery led from
  \<open>s\<close> to \<open>t\<close>.\<close>

definition grows :: "run_state \<Rightarrow> run_state \<Rightarrow> bool" where
  "grows s t \<longleftrightarrow> numbered t = numbered s \<and> os_actions t = os_actions s \<and>
     ta_max_attempts (os_task t) = ta_max_attempts (os_task s) \<and> os_ids s \<le> os_ids t \<and>
     rn_status (os_run t) \<in> {rn_status (os_run s), Run_CANCELLED} \<and>
     rn_id (os_run t) = rn_id (os_run s) \<and> prefix (os_log s) (os_log t)"

definition known :: "attempt \<Rightarrow> run_state \<Rightarrow> bool" where
  "known a s \<longleftrightarrow> (\<forall>b\<in>set (os_attempts s). at_id b = at_id a \<longrightarrow> at_number b = at_number a)"

lemma grows_refl [simp]: "grows s s"
  by (simp add: grows_def)

lemma grows_trans: "grows s t \<Longrightarrow> grows t u \<Longrightarrow> grows s u"
  by (auto simp: grows_def)

lemma known_grows: "known a s \<Longrightarrow> grows s t \<Longrightarrow> known a t"
proof -
  assume k: "known a s" and g: "grows s t"
  have "(at_id b, at_number b) \<in> set (numbered s)" if "b \<in> set (os_attempts t)" for b
    using that g unfolding grows_def numbered_def by (metis (no_types, lifting) image_eqI list.set_map)
  with k show ?thesis by (fastforce simp: known_def numbered_def)
qed

lemma known_same [simp]:
  "known (a\<lparr>at_status := st\<rparr>) s = known a s" "known (a\<lparr>at_snapshot := sn\<rparr>) s = known a s"
  "known (a\<lparr>at_failure := f\<rparr>) s = known a s" "known (a\<lparr>at_error_type := e\<rparr>) s = known a s"
  "known (a\<lparr>at_error_message := m\<rparr>) s = known a s" "known (a\<lparr>at_duration := d\<rparr>) s = known a s"
  "known (a\<lparr>at_output := out\<rparr>) s = known a s" "known (a\<lparr>at_result := r\<rparr>) s = known a s"
  "known (a\<lparr>at_usage := u\<rparr>) s = known a s"
  by (simp_all add: known_def)

lemma log_grows [simp]: "grows s (log_event ty a p s)"
  by (simp add: grows_def numbered_def log_event_def prefix_store_append)

lemma put_grows: "known a s \<Longrightarrow> grows s (put_attempt a s)"
  by (auto simp: grows_def numbered_def known_def)

lemma log_grows_trans: "grows s t \<Longrightarrow> grows s (log_event ty a p t)"
  using grows_trans log_grows by blast

lemma put_grows_trans: "grows s t \<Longrightarrow> known a s \<Longrightarrow> grows s (put_attempt a t)"
  using grows_trans put_grows known_grows by blast

lemma crash_grows: "grows s t \<Longrightarrow> grows s (snd (crash_at env p t))"
  by (simp add: crash_at_def)

lemma and_then_grows:
  assumes "grows s (snd r)" and "\<And>u. grows s u \<Longrightarrow> grows s (snd (f u))"
  shows "grows s (snd (and_then r f))"
  using assms by (cases r) (auto simp: and_then_def split: option.splits)

lemma field_grows [simp]:
  "grows s (t\<lparr>os_validations := v\<rparr>) = grows s t" "grows s (t\<lparr>os_reports := r\<rparr>) = grows s t"
  "grows s (t\<lparr>os_snapshots := n\<rparr>) = grows s t" "grows s (t\<lparr>os_checkpoints := c\<rparr>) = grows s t"
  "grows s (t\<lparr>os_binding := b\<rparr>) = grows s t" "grows s (put_task_status ts t) = grows s t"
  by (simp_all add: grows_def numbered_def)

lemma ids_grows: "grows s t \<Longrightarrow> grows s (t\<lparr>os_ids := Suc (os_ids t)\<rparr>)"
  by (simp add: grows_def numbered_def)

lemma cancel_grows: "grows s t \<Longrightarrow> grows s (put_run_status Run_CANCELLED t)"
  by (simp add: grows_def numbered_def)

lemmas grow_intros = log_grows_trans put_grows_trans crash_grows ids_grows cancel_grows

lemma finalize_grows: "grows s t \<Longrightarrow> known a s \<Longrightarrow> grows s (finalize_attempt a st reason et em ms res t)"
  by (auto simp: finalize_attempt_def Let_def intro!: grow_intros split: attempt_status.split option.split)

lemma run_executor_grows: "grows s t \<Longrightarrow> known a s \<Longrightarrow> grows s (snd (run_executor env a t))"
  by (auto simp: run_executor_def executor_failed_def Let_def
    intro!: grow_intros finalize_grows split: exec_outcome.split)

lemma validate_grows: "grows s t \<Longrightarrow> grows s (snd (validate_result env ro ar a r t))"
proof -
  assume g: "grows s t"
  have logged: "grows s (snd (and_then (crash_at env p u) (\<lambda>s. (None, log_event ty x q s))))" if "grows s u" for p u ty x q
    by (rule and_then_grows) (simp_all add: crash_grows that log_grows_trans)
  have rows: "grows s (if c then update_validation i v (log_event ty x q t)
      else log_event ty x q t\<lparr>os_validations := w\<rparr>)" for c i v w ty x q
    using g by (simp add: update_validation_def log_grows_trans)
  show ?thesis
    unfolding validate_result_def Let_def
    by (rule if_split[THEN iffD2]) (simp only: snd_conv g logged[OF rows] simp_thms)
qed

lemma recover_grows: "known a s \<Longrightarrow> grows s (snd (recover_interrupted_attempt env a v s))"
proof -
  assume k: "known a s"
  let ?b = "a\<lparr>at_status := Attempt_CRASHED, at_error_type := Some ''PROCESS_INTERRUPTED'',
    at_error_message := Some ''previous process ended before attempt finalization''\<rparr>"
  have put: "grows s (log_event ty c p (put_attempt ?b s))" for ty c p
    by (rule log_grows_trans, rule put_grows) (use k in simp)
  have val: "grows s (snd (validate_result env True False b r (log_event ty c p t)))" if "grows s t" for b r ty c p t
    using that by (intro validate_grows log_grows_trans)
  show ?thesis
    unfolding recover_interrupted_attempt_def Let_def
    by (cases "at_status a = Attempt_RUNNING"; cases v) (simp_all only: if_True if_False prod.case put val grows_refl
      option.distinct simp_thms snd_conv)
qed

lemma native_grows: "known a s \<Longrightarrow> grows s (snd (resume_native_attempt env a v s))"
proof -
  assume k: "known a s"
  let ?s = "log_event (Ev_Executor EXECUTOR_STARTED) (Some a)
    [(''executor'', PStr (en_executor_name env)), (''resume_same_attempt'', PBool True)] s"
  have g: "grows s (snd (run_executor env a ?s))" using k by (intro run_executor_grows) simp_all
  then show ?thesis
    by (cases "List.find (\<lambda>b. at_id b = at_id a) (os_attempts (snd (run_executor env a ?s)))")
      (simp_all add: resume_native_attempt_def Let_def validate_grows)
qed

lemma classify_grows: "grows s t \<Longrightarrow> known a s \<Longrightarrow> grows s (snd (classify_state env a v t))"
  by (auto simp: classify_state_def Let_def intro!: grow_intros)

lemma checkpoint_grows: "grows s t \<Longrightarrow> grows s (create_checkpoint env a t)"
  unfolding create_checkpoint_def Let_def by (rule log_grows_trans) (simp add: grows_def numbered_def)

lemma finish_recovery_grows: "grows s t \<Longrightarrow> grows s (snd (finish_recovery env a act t))"
  by (auto simp: finish_recovery_def Let_def intro!: and_then_grows grow_intros checkpoint_grows split: option.split)

section \<open>The invariant\<close>

definition attempts_ok :: "(nat \<Rightarrow> string) \<Rightarrow> run_state \<Rightarrow> bool" where
  "attempts_ok newid s \<longleftrightarrow>
     distinct (map fst (numbered s)) \<and>
     set (map fst (numbered s)) \<subseteq> newid ` {..<os_ids s} \<and>
     map snd (numbered s) = [1..<Suc (length (os_attempts s))] \<and>
     length (os_attempts s) \<le> max 1 (ta_max_attempts (os_task s)) \<and>
     (\<forall>act\<in>set (os_actions s). \<exists>n. (ra_attempt act, n) \<in> set (numbered s) \<and>
        (ra_type act \<in> retry_actions \<longrightarrow> n < ta_max_attempts (os_task s)))"

lemma numbered_length: "length (numbered s) = length (os_attempts s)"
  by (simp add: numbered_def)

lemma attempts_ok_grows: "attempts_ok newid s \<Longrightarrow> grows s t \<Longrightarrow> attempts_ok newid t"
proof -
  assume ok: "attempts_ok newid s" and g: "grows s t"
  have "length (os_attempts t) = length (os_attempts s)"
    using g numbered_length[of s] numbered_length[of t] by (simp add: grows_def)
  moreover have "{..<os_ids s} \<subseteq> {..<os_ids t}" using g by (auto simp: grows_def)
  then have "newid ` {..<os_ids s} \<subseteq> newid ` {..<os_ids t}" by (rule image_mono)
  moreover have "numbered t = numbered s" "os_actions t = os_actions s"
    "ta_max_attempts (os_task t) = ta_max_attempts (os_task s)" using g by (simp_all add: grows_def)
  ultimately show ?thesis using ok unfolding attempts_ok_def by (simp only:) blast
qed

lemma attempts_ok_known:
  assumes "attempts_ok newid s" and "a \<in> set (os_attempts s)"
  shows "known a s"
  using assms by (auto simp: attempts_ok_def known_def numbered_def distinct_map comp_def inj_on_def)

lemma attempts_ok_last:
  assumes "attempts_ok newid s" and "last_opt (os_attempts s) = Some a"
  shows "at_number a = length (os_attempts s)"
proof -
  obtain as where as: "os_attempts s = as @ [a]" using assms(2) unfolding last_opt_split by blast
  with assms(1) have "map at_number as @ [at_number a] = [1..<Suc (Suc (length as))]"
    by (simp add: attempts_ok_def numbered_def comp_def)
  then have "map at_number as @ [at_number a] = [1..<Suc (length as)] @ [Suc (length as)]" by simp
  then show ?thesis using as by simp
qed

text \<open>Creating the next attempt.\<close>

lemma attempts_ok_create:
  assumes "attempts_ok (en_new_id env) s" and "inj (en_new_id env)"
    and "n = length (os_attempts s) + 1" and "n \<le> max 1 (ta_max_attempts (os_task s))"
  shows "attempts_ok (en_new_id env) (snd (create_attempt env n s))" and "known (fst (create_attempt env n s)) (snd (create_attempt env n s))"
proof -
  have fresh: "en_new_id env (os_ids s) \<notin> set (map fst (numbered s))"
  proof
    assume "en_new_id env (os_ids s) \<in> set (map fst (numbered s))"
    with assms(1) have "en_new_id env (os_ids s) \<in> en_new_id env ` {..<os_ids s}" unfolding attempts_ok_def by blast
    with assms(2) show False by (auto dest: injD)
  qed
  have sub: "set (map fst (numbered s)) \<subseteq> en_new_id env ` {..<Suc (os_ids s)}"
    using assms(1) by (force simp: attempts_ok_def)
  show "attempts_ok (en_new_id env) (snd (create_attempt env n s))"
    using assms fresh sub
    unfolding attempts_ok_def create_attempt_def new_attempt_def Let_def numbered_def
    by (simp del: ex_simps) blast
  show "known (fst (create_attempt env n s)) (snd (create_attempt env n s))"
    using fresh by (auto simp: known_def create_attempt_def new_attempt_def Let_def numbered_def image_iff)
qed

section \<open>The loop keeps the invariant\<close>

lemma run_attempt_grows:
  assumes "known a s"
  shows "grows s (snd (run_attempt env n a s))"
proof -
  have exec: "grows s (snd (crash_at env p (snd (run_executor env (a\<lparr>at_status := Attempt_RUNNING, at_snapshot := sn\<rparr>)
      (log_event ty c q u)))))" if "grows s u" for p ty c q u sn
    using that assms by (intro crash_grows run_executor_grows log_grows_trans) simp_all
  have ctx: "grows s (log_event ty c q (put_attempt (a\<lparr>at_status := Attempt_RUNNING, at_snapshot := sn\<rparr>)
      (u\<lparr>os_snapshots := l, os_ids := os_ids u + 1\<rparr>)))" if "grows s u" for u sn l ty c q
    by (rule log_grows_trans, rule put_grows_trans) (use that assms in \<open>simp_all add: grows_def numbered_def\<close>)
  have start: "grows s (put_attempt (a\<lparr>at_status := Attempt_RUNNING\<rparr>) (log_event ty c q s))" for ty c q
    by (rule put_grows_trans) (use assms in simp_all)
  show ?thesis
    unfolding run_attempt_def Let_def
  proof (rule and_then_grows, goal_cases)
    case 1
    show ?case by (intro crash_grows start)
  next
    case (2 u)
    show ?case
    proof (cases "en_context env u (a\<lparr>at_status := Attempt_RUNNING\<rparr>)")
      case (Inr policy)
      show ?thesis unfolding Inr sum.case
        by (rule and_then_grows) (use 2 exec ctx in \<open>auto intro!: crash_grows\<close>)
    qed (use 2 in simp)
  qed
qed

definition completed_ok :: "run_state \<Rightarrow> bool" where
  "completed_ok s \<longleftrightarrow>
     (rn_status (os_run s) = Run_COMPLETED \<longrightarrow>
        ta_status (os_task s) = Task_COMPLETED \<and>
        (\<exists>a. last_opt (os_attempts s) = Some a \<and> passed (validation_for (at_id a) s)))"

lemma decide_running: "decide w st \<noteq> RETURN_TERMINAL \<Longrightarrow> rn_status (in_run st) = Run_RUNNING"
  by (auto simp: decide_def split: if_splits)

lemma decide_recovery_only [simp]:
  "decide_recovery st a \<noteq> INITIALIZE_WORKSPACE" "decide_recovery st a \<noteq> START_FIRST_ATTEMPT"
  "decide_recovery st a \<noteq> START_PENDING_ATTEMPT" "decide_recovery st a \<noteq> RESUME_NATIVE_ATTEMPT"
  "decide_recovery st a \<noteq> RECOVER_INTERRUPTED_ATTEMPT" "decide_recovery st a \<noteq> VALIDATE_COMPLETED_ATTEMPT"
  "decide_recovery st a \<noteq> VALIDATE_NON_SUCCESS_ATTEMPT" "decide_recovery st a \<noteq> COMPLETE_FROM_PERSISTED_VALIDATION"
  "decide_recovery st a \<noteq> CLASSIFY_PERSISTED_VALIDATION_FAILURE" "decide_recovery st a \<noteq> CLASSIFY_ATTEMPT_FAILURE"
  by (simp_all add: decide_recovery_def Let_def split: option.split)

lemma decide_recovery_next: "decide_recovery st a = START_NEXT_ATTEMPT \<Longrightarrow>
    \<exists>act. in_action st = Some act \<and> ra_type act \<in> retry_actions"
  by (auto simp: decide_recovery_def Let_def split: option.splits if_splits)

text \<open>What each action says of the facts it was decided from.\<close>

lemma decide_latest:
  assumes "decide w st \<notin> {RETURN_TERMINAL, INITIALIZE_WORKSPACE, START_FIRST_ATTEMPT}"
  obtains a where "in_latest st = Some a"
  using assms by (cases "in_latest st") (auto simp: decide_def split: if_splits)

lemma decide_first: "decide w st = START_FIRST_ATTEMPT \<Longrightarrow> in_latest st = None"
proof (cases "in_latest st")
  case (Some a)
  assume "decide w st = START_FIRST_ATTEMPT"
  with Some show ?thesis by (cases "at_status a") (simp_all add: decide_def split: if_splits)
qed simp

lemma decide_pending:
  assumes "decide w st = START_PENDING_ATTEMPT" and "in_latest st = Some a"
  shows "at_status a = Attempt_PENDING"
  using assms by (cases "at_status a") (simp_all add: decide_def split: if_splits)

lemma decide_next:
  assumes "decide w st = START_NEXT_ATTEMPT" and "in_latest st = Some a"
  shows "\<exists>act. in_action st = Some act \<and> ra_type act \<in> retry_actions"
  using assms decide_recovery_next[of st a]
  by (cases "at_status a") (simp_all add: decide_def split: if_splits)

lemma decide_complete:
  assumes "decide w st = COMPLETE_FROM_PERSISTED_VALIDATION" and "in_latest st = Some a"
  shows "passed (in_validation st)"
  using assms by (cases "at_status a") (simp_all add: decide_def split: if_splits)

lemma inspect_facts [simp]:
  "in_latest (inspect w s) = last_opt (os_attempts s)" "in_run (inspect w s) = os_run s"
  "in_attempts (inspect w s) = os_attempts s" "in_task (inspect w s) = os_task s"
  "in_checkpoint (inspect w s) = latest_checkpoint s"
  by (simp_all add: inspect_def Let_def)

lemma inspect_rows:
  assumes "last_opt (os_attempts s) = Some a"
  shows "in_validation (inspect w s) = validation_for (at_id a) s"
    "in_report (inspect w s) = report_for (at_id a) s" "in_action (inspect w s) = action_for (at_id a) s"
  using assms by (simp_all add: inspect_def Let_def)

definition run_ok :: "(nat \<Rightarrow> string) \<Rightarrow> run_state \<Rightarrow> bool" where
  "run_ok newid s \<longleftrightarrow> attempts_ok newid s \<and> completed_ok s"

lemma run_ok_grows:
  assumes "attempts_ok newid s" and "grows s t" and "rn_status (os_run s) = Run_RUNNING"
  shows "run_ok newid t"
proof -
  have "rn_status (os_run t) \<noteq> Run_COMPLETED" using assms(2,3) by (auto simp: grows_def)
  with attempts_ok_grows[OF assms(1,2)] show ?thesis by (simp add: run_ok_def completed_ok_def)
qed

lemma attempt_known_last:
  "attempts_ok newid s \<Longrightarrow> last_opt (os_attempts s) = Some a \<Longrightarrow> known a s"
  by (rule attempts_ok_known[OF _ last_opt_mem])

text \<open>An action row of the latest attempt that asks for a retry leaves room for the next one.\<close>

lemma retry_room:
  assumes "attempts_ok newid s" and "last_opt (os_attempts s) = Some a"
    and "action_for (at_id a) s = Some act" and "ra_type act \<in> retry_actions"
  shows "at_number a + 1 \<le> ta_max_attempts (os_task s)"
proof -
  have "act \<in> set [x \<leftarrow> os_actions s. ra_attempt x = at_id a]"
    using assms(3) unfolding action_for_def by (rule last_opt_mem)
  then have act: "act \<in> set (os_actions s)" "ra_attempt act = at_id a" by auto
  with assms(1,4) obtain n where n: "(at_id a, n) \<in> set (numbered s)" "n < ta_max_attempts (os_task s)"
    unfolding attempts_ok_def by fastforce
  have "(at_id a, at_number a) \<in> set (numbered s)"
    using last_opt_mem[OF assms(2)] by (force simp: numbered_def)
  moreover have "distinct (map fst (numbered s))" using assms(1) by (simp only: attempts_ok_def)
  ultimately have "n = at_number a" using n(1) eq_key_imp_eq_value by fast
  with n(2) show ?thesis by simp
qed

lemma execute_new_ok:
  assumes "attempts_ok (en_new_id env) s" and "inj (en_new_id env)" and "rn_status (os_run s) = Run_RUNNING"
    and "n = length (os_attempts s) + 1" and "n \<le> max 1 (ta_max_attempts (os_task s))"
  shows "run_ok (en_new_id env) (snd (execute_attempt env n s))"
proof -
  note created = attempts_ok_create[OF assms(1,2,4,5)]
  have "attempt_to_run env n s = create_attempt env n s"
    using attempts_ok_last[OF assms(1)] assms(4) by (auto simp: attempt_to_run_def split: option.split)
  then have "execute_attempt env n s = run_attempt env n (fst (create_attempt env n s)) (snd (create_attempt env n s))"
    by (simp add: execute_attempt_def split_beta)
  moreover have "rn_status (os_run (snd (create_attempt env n s))) = Run_RUNNING"
    using assms(3) by (simp add: create_attempt_def Let_def)
  ultimately show ?thesis using run_ok_grows[OF created(1) run_attempt_grows[OF created(2)]] by simp
qed

lemma execute_pending_ok:
  assumes "attempts_ok newid s" and "rn_status (os_run s) = Run_RUNNING"
    and "last_opt (os_attempts s) = Some a" and "at_status a = Attempt_PENDING"
  shows "run_ok newid (snd (execute_attempt env (at_number a) s))"
proof -
  have "execute_attempt env (at_number a) s = run_attempt env (at_number a) a s"
    using assms(3,4) by (simp add: execute_attempt_def attempt_to_run_def)
  with run_ok_grows[OF assms(1) run_attempt_grows[OF attempt_known_last[OF assms(1,3)]] assms(2)]
  show ?thesis by simp
qed

text \<open>A decision the policy made for an attempt of the run keeps the invariant.\<close>

lemma record_action_ok:
  assumes "attempts_ok newid s" and "(at_id a, at_number a) \<in> set (numbered s)"
    and "act = policy_decide pol a rep (at_number a) (ta_max_attempts (os_task s)) h"
  shows "attempts_ok newid (snd (record_action env a act s))"
    and "os_run (snd (record_action env a act s)) = os_run s"
proof -
  have "ra_attempt act = at_id a" unfolding assms(3) by (simp add: policy_decide_def Let_def)
  moreover have "ra_type act \<in> retry_actions \<Longrightarrow> at_number a < ta_max_attempts (os_task s)"
    unfolding assms(3) policy_retry by simp
  ultimately show "attempts_ok newid (snd (record_action env a act s))"
    using assms(1,2) unfolding attempts_ok_def record_action_def crash_at_def numbered_def by auto
  show "os_run (snd (record_action env a act s)) = os_run s" by (simp add: record_action_def crash_at_def)
qed

lemma continue_recovery_ok:
  assumes "attempts_ok newid s" and "rn_status (os_run s) = Run_RUNNING" and "last_opt (os_attempts s) = Some a"
  shows "run_ok newid (snd (continue_recovery env a v acto s))"
proof -
  have k: "known a s" by (rule attempt_known_last[OF assms(1,3)])
  have g: "grows s (snd (classify_state env a v s))" by (rule classify_grows) (simp_all add: k)
  obtain e u where cu: "classify_state env a v s = (e, u)" by (cases "classify_state env a v s")
  have gu: "grows s u" using g cu by simp
  have "os_run (snd (classify_state env a v s)) = os_run s"
    by (simp add: classify_state_def Let_def crash_at_def)
  with cu assms(2) have status: "rn_status (os_run u) = Run_RUNNING" by simp
  have oku: "attempts_ok newid u" by (rule attempts_ok_grows[OF assms(1) gu])
  have fin: "run_ok newid (snd (finish_recovery env a act t))"
    if "attempts_ok newid t" "rn_status (os_run t) = Run_RUNNING" for act t
    by (rule run_ok_grows[OF that(1) _ that(2)]) (rule finish_recovery_grows, simp)
  have done_u: "run_ok newid u" by (rule run_ok_grows[OF assms(1) gu assms(2)])
  show ?thesis
  proof (cases "e = None \<and> acto = None \<and> report_for (at_id a) u \<noteq> None")
    case False
    with cu fin[OF oku status] done_u show ?thesis
      by (cases e; cases acto) (auto simp: continue_recovery_def and_then_def split: option.split)
  next
    case True
    then obtain rep where rep: "report_for (at_id a) u = Some rep" by blast
    let ?act = "policy_decide (en_policy env) a rep (at_number a) (ta_max_attempts (os_task u)) (length (os_actions u))"
    have mem: "(at_id a, at_number a) \<in> set (numbered u)"
      using gu last_opt_mem[OF assms(3)] by (force simp: grows_def numbered_def)
    note ra = record_action_ok[OF oku mem refl, of env "en_policy env" rep "length (os_actions u)"]
    obtain f w where fw: "record_action env a ?act u = (f, w)" by (cases "record_action env a ?act u")
    have "continue_recovery env a v acto s = and_then (f, w) (finish_recovery env a ?act)"
      using True cu rep fw by (simp add: continue_recovery_def and_then_def Let_def)
    moreover have w: "attempts_ok newid w" "rn_status (os_run w) = Run_RUNNING"
      using ra fw status by simp_all
    moreover have "run_ok newid w" using w by (simp add: run_ok_def completed_ok_def)
    ultimately show ?thesis using fin[OF w, of ?act] by (cases f) (simp_all add: and_then_def)
  qed
qed

lemma carry_on_ok: "run_ok newid (snd r) \<Longrightarrow> (case carry_on r of Next t \<Rightarrow> run_ok newid t | Leave (e, t) \<Rightarrow> run_ok newid t)"
  by (cases r) (auto simp: carry_on_def split: option.splits)

lemma finish_ok:
  assumes "run_ok newid s"
  shows "run_ok newid (snd (finish_from_state resume l act s))"
  using assms
  by (auto simp: finish_from_state_def run_ok_def attempts_ok_def completed_ok_def numbered_def Let_def
    split: option.split)

lemma complete_ok:
  assumes "attempts_ok newid s" and "last_opt (os_attempts s) = Some a" and "passed (validation_for (at_id a) s)"
  shows "run_ok newid (complete_run env resume a v s)"
proof -
  have "os_attempts (complete_run env resume a v s) = os_attempts s"
    "os_validations (complete_run env resume a v s) = os_validations s"
    "os_actions (complete_run env resume a v s) = os_actions s" "os_ids (complete_run env resume a v s) = os_ids s"
    "ta_max_attempts (os_task (complete_run env resume a v s)) = ta_max_attempts (os_task s)"
    "ta_status (os_task (complete_run env resume a v s)) = Task_COMPLETED"
    by (simp_all add: complete_run_def Let_def)
  with assms show ?thesis
    by (simp add: run_ok_def attempts_ok_def completed_ok_def numbered_def validation_for_def)
qed

theorem continue_step_ok:
  assumes ok: "run_ok (en_new_id env) s" and inj: "inj (en_new_id env)"
  shows "case continue_step env resume s of Next t \<Rightarrow> run_ok (en_new_id env) t | Leave (e, t) \<Rightarrow> run_ok (en_new_id env) t"
proof -
  let ?st = "inspect (en_workspace env) s" and ?w = "en_workspace env" and ?ok = "run_ok (en_new_id env)"
  let ?d = "decide ?w ?st"
  have at: "attempts_ok (en_new_id env) s" using ok by (simp add: run_ok_def)
  show ?thesis
  proof (cases "?d = RETURN_TERMINAL")
    case True
    with finish_ok[OF ok] show ?thesis by (simp add: continue_step_def Let_def split_beta)
  next
    case False
    then have running: "rn_status (os_run s) = Run_RUNNING" using decide_running[of ?w ?st] by simp
    note grown = run_ok_grows[OF at _ running]
    show ?thesis
    proof (cases "?d \<in> {INITIALIZE_WORKSPACE, START_FIRST_ATTEMPT}")
      case True
      then show ?thesis
      proof
        assume "?d = INITIALIZE_WORKSPACE"
        then show ?thesis using grown[of "s\<lparr>os_binding := en_ensure env s\<rparr>"] by (simp add: continue_step_def Let_def)
      next
        assume "?d \<in> {START_FIRST_ATTEMPT}"
        then have d: "?d = START_FIRST_ATTEMPT" by simp
        have "os_attempts s = []" using decide_first[OF d] by simp
        then have "?ok (snd (execute_attempt env 1 s))" using at inj running by (intro execute_new_ok) simp_all
        from carry_on_ok[OF this] d show ?thesis by (simp add: continue_step_def Let_def)
      qed
    next
      case False
      with \<open>?d \<noteq> RETURN_TERMINAL\<close> obtain a where a: "last_opt (os_attempts s) = Some a"
        using decide_latest[of ?w ?st] by auto
      have k: "known a s" by (rule attempt_known_last[OF at a])
      note rows = inspect_rows[OF a, of ?w]
      have next_ok: "?ok (snd (execute_attempt env (at_number a + 1) s))" if nxt: "?d = START_NEXT_ATTEMPT"
      proof (rule execute_new_ok[OF at inj running])
        show "at_number a + 1 = length (os_attempts s) + 1" using attempts_ok_last[OF at a] by simp
        obtain act where "action_for (at_id a) s = Some act" "ra_type act \<in> retry_actions"
          using decide_next[OF nxt] a rows by auto
        then show "at_number a + 1 \<le> max 1 (ta_max_attempts (os_task s))" using retry_room[OF at a] by fastforce
      qed
      have pend: "?ok (snd (execute_attempt env (at_number a) s))" if "?d = START_PENDING_ATTEMPT"
        using execute_pending_ok[OF at running a] decide_pending[OF that] a by simp
      have fin: "?ok (complete_run env resume a v s)" if "?d = COMPLETE_FROM_PERSISTED_VALIDATION" for v
        using complete_ok[OF at a] decide_complete[OF that] a rows by simp
      show ?thesis
        using False \<open>?d \<noteq> RETURN_TERMINAL\<close> a carry_on_ok[OF next_ok] carry_on_ok[OF pend] fin
          carry_on_ok[OF grown[OF native_grows[OF k]]] carry_on_ok[OF grown[OF recover_grows[OF k]]]
          carry_on_ok[OF grown[OF validate_grows[OF grows_refl]]]
          carry_on_ok[OF grown[OF classify_grows[OF grows_refl k]]]
          carry_on_ok[OF continue_recovery_ok[OF at running a]]
        by (cases ?d) (simp_all add: continue_step_def Let_def)
    qed
  qed
qed

lemma continue_run_ok:
  assumes "run_ok (en_new_id env) s" and "inj (en_new_id env)"
  shows "run_ok (en_new_id env) (snd (continue_run env resume n s))"
  using assms(1)
proof (induction n arbitrary: s)
  case (Suc n)
  from continue_step_ok[OF Suc.prems assms(2), of resume] Suc.IH show ?case
    by (cases "continue_step env resume s") (auto split: prod.splits)
qed simp

section \<open>Every call on a run\<close>

text \<open>
  What may be asked of a run, each time possibly by another process: to continue a prepared run,
  to resume it, to resume its task, with or without a new runtime target.
\<close>

datatype run_call =
    Continue_prepared
  | Resume_run "string option"
  | Resume_task "string option" bool "bool option"

fun run_call_step :: "env \<Rightarrow> run_call \<Rightarrow> run_state \<Rightarrow> run_state" where
  "run_call_step env Continue_prepared s = snd (continue_prepared_run env s)"
| "run_call_step env (Resume_run session) s = snd (resume_run env session s)"
| "run_call_step env (Resume_task session target switched) s = snd (resume_task env session target switched s)"

definition run_session :: "(env \<times> run_call) list \<Rightarrow> run_state \<Rightarrow> run_state" where
  "run_session calls s = fold (\<lambda>(env, c) t. run_call_step env c t) calls s"

text \<open>All processes draw ids from one source.\<close>

definition same_ids :: "(nat \<Rightarrow> string) \<Rightarrow> (env \<times> run_call) list \<Rightarrow> bool" where
  "same_ids newid calls \<longleftrightarrow> inj newid \<and> list_all (\<lambda>(env, _). en_new_id env = newid) calls"

lemma run_ok_binding [simp]: "run_ok newid (s\<lparr>os_binding := b\<rparr>) = run_ok newid s"
  by (simp add: run_ok_def attempts_ok_def completed_ok_def numbered_def validation_for_def)

lemma run_ok_log [simp]: "run_ok newid (log_event ty a p s) = run_ok newid s"
  by (simp add: run_ok_def attempts_ok_def completed_ok_def numbered_def validation_for_def)

lemma continue_prepared_ok:
  assumes "run_ok (en_new_id env) s" and "inj (en_new_id env)"
  shows "run_ok (en_new_id env) (snd (continue_prepared_run env s))"
  using continue_run_ok[OF _ assms(2)] assms(1) by (simp add: continue_prepared_run_def)

lemma resume_run_ok:
  assumes "run_ok (en_new_id env) s" and "inj (en_new_id env)"
  shows "run_ok (en_new_id env) (snd (resume_run env session s))"
proof -
  have "run_ok (en_new_id env) (snd (continue_run env True loop_guard (log_event ty a p t)))"
    if "run_ok (en_new_id env) t" for ty a p t
    using that by (intro continue_run_ok assms(2)) simp
  then show ?thesis using assms(1) by (simp add: resume_run_def Let_def)
qed

lemma unpark_ok: "run_ok newid s \<Longrightarrow> run_ok newid (unpark s)"
  by (auto simp: unpark_def run_ok_def attempts_ok_def completed_ok_def numbered_def validation_for_def Let_def)

lemma reopen_ok:
  assumes "run_ok newid s"
  shows "run_ok newid (reopen_attempt s)"
proof (cases "last_opt (os_attempts s)")
  case (Some a)
  then obtain as where as: "os_attempts s = as @ [a]" unfolding last_opt_split by blast
  have at: "attempts_ok newid s" using assms by (simp add: run_ok_def)
  let ?b = "a\<lparr>at_status := Attempt_RUNNING, at_error_type := None, at_error_message := None\<rparr>"
  have "grows s (put_attempt ?b s)"
    using put_grows[of ?b s] attempt_known_last[OF at Some] by simp
  with at have "attempts_ok newid (put_attempt ?b s)" by (rule attempts_ok_grows)
  moreover have "completed_ok (put_attempt ?b s)"
    using assms as rows_cong(1)[of "put_attempt ?b s" s] by (simp add: run_ok_def completed_ok_def)
  ultimately show ?thesis using assms Some by (simp add: reopen_attempt_def run_ok_def)
qed (use assms in \<open>simp add: reopen_attempt_def\<close>)

lemma resume_task_ok:
  assumes "run_ok (en_new_id env) s" and "inj (en_new_id env)"
  shows "run_ok (en_new_id env) (snd (resume_task env session target switched s))"
proof -
  have "run_ok (en_new_id env) (snd (resume_run env session (reopen_attempt (unpark (s\<lparr>os_binding := b\<rparr>)))))"
    "run_ok (en_new_id env) (snd (resume_run env session (reopen_attempt (unpark s))))" for b
    using assms by (intro resume_run_ok reopen_ok unpark_ok; simp)+
  with assms(1) show ?thesis by (simp add: resume_task_def Let_def)
qed

lemma run_call_ok:
  assumes "run_ok (en_new_id env) s" and "inj (en_new_id env)"
  shows "run_ok (en_new_id env) (run_call_step env c s)"
  using assms by (cases c) (simp_all add: continue_prepared_ok resume_run_ok resume_task_ok)

lemma run_session_ok:
  assumes "same_ids newid calls" and "run_ok newid s"
  shows "run_ok newid (run_session calls s)"
  using assms
proof (induction calls arbitrary: s)
  case (Cons x calls)
  obtain env c where x: "x = (env, c)" by (cases x)
  with Cons.prems have "run_ok newid (run_call_step env c s)"
    using run_call_ok[of env s c] by (auto simp: same_ids_def)
  with Cons x show ?case by (simp add: run_session_def same_ids_def)
qed (simp add: run_session_def)

lemma prepared_ok:
  assumes "prepare_task_run env cfg t lg k = Some (e, s)"
  shows "run_ok (en_new_id env) s"
proof -
  have "run_ok (en_new_id env) u"
    if "os_attempts u = []" "os_actions u = []" "rn_status (os_run u) = Run_RUNNING" for u
    using that by (simp add: run_ok_def attempts_ok_def completed_ok_def numbered_def)
  then show ?thesis
    using assms
    by (auto simp: prepare_task_run_def Let_def and_then_def crash_at_def new_run_def split: if_splits option.splits)
qed

lemma prepared_session_ok:
  assumes "prepare_task_run env cfg t lg k = Some (e, s)" and "same_ids (en_new_id env) calls"
  shows "run_ok (en_new_id env) (run_session calls s)"
  using run_session_ok[OF assms(2) prepared_ok[OF assms(1)]] .

section \<open>A sample environment\<close>

definition sample_ids :: "nat \<Rightarrow> string" where
  "sample_ids n = replicate n CHR ''i''"

lemma inj_sample_ids: "inj sample_ids"
  by (rule injI) (metis sample_ids_def length_replicate)

text \<open>An executor with a fixed outcome, judged by the rule validator with one marker.\<close>

definition sample_env :: "exec_outcome \<Rightarrow> env" where
  "sample_env out =
     \<lparr>en_workspace = False, en_ensure = \<lambda>_. None, en_recovered = \<lambda>_. [], en_execute = \<lambda>_ _. out,
      en_validate = \<lambda>_ a r. rule_validate True [''ok''] (at_id a) r, en_context = \<lambda>_ _. Inr ''CP-2'',
      en_crash = \<lambda>_ _. False, en_new_id = sample_ids, en_state_sha = \<lambda>_. ''d'', en_executor_name = ''E'',
      en_policy = ''CP-2'', en_timeout_text = \<lambda>_. ''60.0''\<rparr>"

definition sample_task :: "nat \<Rightarrow> task" where
  "sample_task m =
     \<lparr>ta_id = ''t'', ta_project = ''p'', ta_title = ''T'', ta_objective = ''O'', ta_constraints = [], ta_criteria = [],
      ta_status = Task_READY, ta_max_attempts = m, ta_timeout = 60\<rparr>"

definition sample_run :: "string \<Rightarrow> run" where
  "sample_run executor =
     \<lparr>rn_id = [], rn_task = [], rn_experiment = None, rn_executor = executor, rn_provider = ''mock'',
      rn_model = ''mock-v0'', rn_harness = ''HV-0.1'', rn_context_policy = ''CP-2'', rn_dataset = ''D'',
      rn_status = Run_CREATED, rn_result = None\<rparr>"

section \<open>Properties\<close>

text \<open>C8: A run is completed only by a validation. Whatever the executor, validator, workspace and
  crash injector do, and however often a run is continued or resumed by another process, when
  it is COMPLETED its task is COMPLETED and the last validation of its last attempt passed:
  that the executor reports success is never enough.\<close>

theorem completed_only_if_validated:
  assumes "prepare_task_run env cfg t lg k = Some (e, s)" and "same_ids (en_new_id env) calls"
    and "rn_status (os_run (run_session calls s)) = Run_COMPLETED"
  shows "ta_status (os_task (run_session calls s)) = Task_COMPLETED \<and>
    (\<exists>a v. last_opt (os_attempts (run_session calls s)) = Some a \<and>
       validation_for (at_id a) (run_session calls s) = Some v \<and> va_passed v)"
  using prepared_session_ok[OF assms(1,2)] assms(3)
  by (fastforce simp: run_ok_def completed_ok_def passed_def)

theorem completed_only_if_validated_witness:
  "ta_status (os_task (run_session [(sample_env (Returned (plain_result Exec_SUCCESS (Some ''ok'') None None) 5), Continue_prepared)]
     (snd (the (prepare_task_run (sample_env (Wait_timeout 0)) (sample_run ''Mock'') (sample_task 3) [] 0))))) = Task_COMPLETED"
proof -
  let ?env = "sample_env (Returned (plain_result Exec_SUCCESS (Some ''ok'') None None) 5)"
  let ?p = "prepare_task_run (sample_env (Wait_timeout 0)) (sample_run ''Mock'') (sample_task 3) [] 0"
  have p: "?p = Some (fst (the ?p), snd (the ?p))"
    by (simp add: prepare_task_run_def sample_task_def Let_def)
  have ids: "same_ids (en_new_id (sample_env (Wait_timeout 0))) [(?env, Continue_prepared)]"
    by (simp add: same_ids_def sample_env_def inj_sample_ids)
  have "rn_status (os_run (run_session [(?env, Continue_prepared)] (snd (the ?p)))) = Run_COMPLETED" by code_simp
  from completed_only_if_validated[OF p ids this] show ?thesis by simp
qed

text \<open>C9: Attempts are bounded and numbered without gaps. Under any history of continuing, crashing
  and resuming, the attempts of a run are numbered 1, 2, 3 and so on, with distinct ids, and
  there are at most as many as the task allows.\<close>

theorem attempts_bounded:
  assumes "prepare_task_run env cfg t lg k = Some (e, s)" and "same_ids (en_new_id env) calls"
  shows "let r = run_session calls s in
    distinct (map at_id (os_attempts r)) \<and>
    map at_number (os_attempts r) = [1..<Suc (length (os_attempts r))] \<and>
    length (os_attempts r) \<le> max 1 (ta_max_attempts (os_task r))"
  using prepared_session_ok[OF assms] by (simp add: run_ok_def attempts_ok_def numbered_def comp_def Let_def)

theorem attempts_bounded_witness:
  "length (os_attempts (run_session [(sample_env (Returned (plain_result Exec_SUCCESS (Some ''ok'') None None) 5), Continue_prepared)]
     (snd (the (prepare_task_run (sample_env (Wait_timeout 0)) (sample_run ''Mock'') (sample_task 3) [] 0))))) \<le> 3"
proof -
  let ?calls = "[(sample_env (Returned (plain_result Exec_SUCCESS (Some ''ok'') None None) 5), Continue_prepared)]"
  let ?p = "prepare_task_run (sample_env (Wait_timeout 0)) (sample_run ''Mock'') (sample_task 3) [] 0"
  have p: "?p = Some (fst (the ?p), snd (the ?p))"
    by (simp add: prepare_task_run_def sample_task_def Let_def)
  have ids: "same_ids (en_new_id (sample_env (Wait_timeout 0))) ?calls"
    by (simp add: same_ids_def sample_env_def inj_sample_ids)
  have "ta_max_attempts (os_task (run_session ?calls (snd (the ?p)))) = 3" by code_simp
  with attempts_bounded[OF p ids] show ?thesis by (simp add: Let_def)
qed

end
