(* ===== verification/RunEffects.thy ===== *)
theory RunEffects imports RunSafety begin

text \<open>
  What each handler of the recovering orchestrator adds to the rows when nothing goes wrong
  around it, and how many iterations of its loop a state has left.
\<close>

section \<open>What each handler adds\<close>

text \<open>A calm environment: no workspace, no injected crash, a context for every attempt, and a
  validator that answers for the attempt it is given.\<close>

definition calm :: "env \<Rightarrow> bool" where
  "calm env \<longleftrightarrow> \<not> en_workspace env \<and> (\<forall>p s. \<not> en_crash env p s) \<and>
     (\<forall>s a. \<exists>policy. en_context env s a = Inr policy) \<and>
     (\<forall>s a r. va_attempt (en_validate env s a r) = at_id a)"

definition settled_status :: "attempt_status \<Rightarrow> bool" where
  "settled_status st \<longleftrightarrow> st \<notin> {Attempt_PENDING, Attempt_RUNNING}"

definition same_rows :: "run_state \<Rightarrow> run_state \<Rightarrow> bool" where
  "same_rows s t \<longleftrightarrow> os_validations t = os_validations s \<and> os_reports t = os_reports s \<and>
     os_actions t = os_actions s \<and> os_checkpoints t = os_checkpoints s \<and>
     rn_executor (os_run t) = rn_executor (os_run s) \<and>
     ta_max_attempts (os_task t) = ta_max_attempts (os_task s)"

lemma calm_crash [simp]: "calm env \<Longrightarrow> crash_at env p s = (None, s)"
  by (simp add: calm_def crash_at_def)

lemma finalize_effect:
  "\<exists>b. at_id b = at_id a \<and> at_number b = at_number a \<and> at_status b = st \<and>
     os_attempts (finalize_attempt a st reason et em ms res s) =
       map (\<lambda>x. if at_id x = at_id a then b else x) (os_attempts s) \<and>
     same_rows s (finalize_attempt a st reason et em ms res s)"
proof -
  let ?b = "a\<lparr>at_status := st, at_duration := Some ms, at_error_type := et, at_error_message := em\<rparr>"
  let ?c = "case res of None \<Rightarrow> ?b | Some r \<Rightarrow> ?b\<lparr>at_output := er_output r, at_result := Some r, at_usage := er_usage r\<rparr>"
  have "at_id ?c = at_id a" "at_number ?c = at_number a" "at_status ?c = st" by (simp_all split: option.split)
  then show ?thesis
    by (intro exI[of _ ?c]) (simp add: finalize_attempt_def Let_def same_rows_def split: attempt_status.split)
qed

lemma settled_status_map [simp]: "settled_status (status_map st)"
  by (cases st) (simp_all add: settled_status_def status_map_def)

lemma run_executor_effect:
  "\<exists>b. at_id b = at_id a \<and> at_number b = at_number a \<and> settled_status (at_status b) \<and>
     os_attempts (snd (run_executor env a s)) = map (\<lambda>x. if at_id x = at_id a then b else x) (os_attempts s) \<and>
     same_rows s (snd (run_executor env a s))"
proof -
  have fin: "\<exists>b. at_id b = at_id a \<and> at_number b = at_number a \<and> settled_status (at_status b) \<and>
      os_attempts (finalize_attempt a st reason et em ms res u) = map (\<lambda>x. if at_id x = at_id a then b else x) (os_attempts s) \<and>
      same_rows s (finalize_attempt a st reason et em ms res u)"
    if "os_attempts u = os_attempts s" "same_rows s u" "settled_status st" for st reason et em ms res u
    using finalize_effect[of a st reason et em ms res u] that by (auto simp: same_rows_def)
  have log: "same_rows s (log_event ty c p u) = same_rows s u" "same_rows s (put_task_status ts u) = same_rows s u"
    "same_rows s (put_run_status rs u) = same_rows s u" "same_rows s s" for ty c p u ts rs
    by (simp_all add: same_rows_def)
  have st: "settled_status Attempt_TIMED_OUT" "settled_status Attempt_FAILED" "settled_status Attempt_CRASHED"
    "settled_status Attempt_COMPLETED" by (simp_all add: settled_status_def)
  show ?thesis
  proof (cases "en_execute env s a")
    case (Returned r ms)
    then show ?thesis using st by (cases "er_status r = Exec_SUCCESS")
      (auto simp: run_executor_def executor_failed_def log intro!: fin)
  qed (use st in \<open>auto simp: run_executor_def executor_failed_def log Let_def intro!: fin\<close>)
qed

lemma map_replace_other [simp]:
  "i \<notin> at_id ` set as \<Longrightarrow> map (\<lambda>x. if at_id x = i then b else x) as = as"
  by (induction as) auto

lemma map_replace_last:
  assumes "os = as @ [a]" and "at_id a \<notin> at_id ` set as" and "at_id b = at_id a"
  shows "map (\<lambda>x. if at_id x = at_id a then b else x) os = as @ [b]"
  using assms by simp

lemma run_attempt_effect:
  assumes "calm env" and "os_attempts s = as @ [a]" and "at_id a \<notin> at_id ` set as"
  shows "\<exists>b t. run_attempt env n a s = (None, t) \<and> at_id b = at_id a \<and> at_number b = at_number a \<and>
    settled_status (at_status b) \<and> os_attempts t = as @ [b] \<and> same_rows s t"
proof -
  let ?a = "a\<lparr>at_status := Attempt_RUNNING\<rparr>"
  let ?s1 = "put_attempt ?a (log_event (Ev_Attempt ATTEMPT_STARTED) (Some a)
            [(''attempt_number'', PInt (int n)), (''resume_origin'', if 1 < n then PStr ''PROCESS_RESUME'' else PNone)] s)"
  obtain policy where ctx: "en_context env ?s1 ?a = Inr policy" using assms(1) unfolding calm_def by blast
  let ?i = "en_new_id env (os_ids ?s1)"
  let ?b = "?a\<lparr>at_snapshot := Some ?i\<rparr>"
  let ?s2 = "log_event (Ev_Executor EXECUTOR_STARTED) (Some ?b) [(''executor'', PStr (en_executor_name env))]
    (log_event (Ev_Executor CONTEXT_BUILT) (Some ?b) [(''context_snapshot_id'', PStr ?i), (''policy'', PStr policy)]
      (put_attempt ?b (?s1\<lparr>os_snapshots := os_snapshots ?s1 @ [(at_id ?a, ?i)], os_ids := os_ids ?s1 + 1\<rparr>)))"
  have at: "os_attempts ?s1 = as @ [?a]" using map_replace_last[OF assms(2,3), of ?a] by simp
  have at2: "os_attempts ?s2 = as @ [?b]"
    using assms(2,3) by simp
  have eq: "run_attempt env n a s = (None, snd (run_executor env ?b ?s2))"
    using assms(1) ctx by (simp add: run_attempt_def and_then_def Let_def)
  obtain c where c: "at_id c = at_id a" "at_number c = at_number a" "settled_status (at_status c)"
    "os_attempts (snd (run_executor env ?b ?s2)) = map (\<lambda>x. if at_id x = at_id ?b then c else x) (os_attempts ?s2)"
    "same_rows ?s2 (snd (run_executor env ?b ?s2))"
    using run_executor_effect[of ?b env ?s2] by auto
  have "os_attempts (snd (run_executor env ?b ?s2)) = as @ [c]"
    unfolding c(4) at2 by (rule map_replace_last) (use assms(3) c(1) in simp_all)
  moreover have "same_rows s (snd (run_executor env ?b ?s2))" using c(5) by (simp add: same_rows_def)
  ultimately show ?thesis using eq c by blast
qed

lemma validate_effect:
  assumes "calm env" and "validation_for (at_id a) s = None"
  shows "\<exists>t. validate_result env ro ar a r s = (None, t) \<and> os_attempts t = os_attempts s \<and>
    validation_for (at_id a) t \<noteq> None \<and> os_reports t = os_reports s \<and> os_actions t = os_actions s \<and>
    os_checkpoints t = os_checkpoints s \<and> os_run t = os_run s"
proof -
  have "va_attempt (en_validate env u a r) = at_id a" for u using assms(1) unfolding calm_def by blast
  then show ?thesis
    using assms by (simp add: validate_result_def Let_def and_then_def validation_for_def)
qed

lemma classify_effect:
  assumes "calm env" and "report_for (at_id a) s = None" and "os_attempts s = as @ [a]" and "at_id a \<notin> at_id ` set as"
  shows "\<exists>b t. classify_state env a v s = (None, t) \<and> at_id b = at_id a \<and> at_number b = at_number a \<and>
    at_status b = at_status a \<and> at_error_type b = at_error_type a \<and> os_attempts t = as @ [b] \<and>
    report_for (at_id a) t \<noteq> None \<and> os_validations t = os_validations s \<and> os_actions t = os_actions s \<and>
    os_checkpoints t = os_checkpoints s \<and> os_run t = os_run s"
proof -
  let ?rep = "classify a (Some (result_for_attempt a)) v"
  let ?b = "a\<lparr>at_failure := Some (failure_type_value (fr_type ?rep))\<rparr>"
  have "fr_attempt ?rep = at_id a"
    by (simp add: classify_def failure_report_of_def Let_def split: option.split prod.split)
  moreover have "map (\<lambda>x. if at_id x = at_id ?b then ?b else x) (os_attempts s) = as @ [?b]"
    using map_replace_last[OF assms(3,4), of ?b] by simp
  ultimately show ?thesis
    using assms(1,2) by (intro exI[of _ ?b]) (simp add: classify_state_def Let_def report_for_def)
qed

section \<open>Checkpoints\<close>

definition cursors_ok :: "run_state \<Rightarrow> bool" where
  "cursors_ok s \<longleftrightarrow> (\<forall>c\<in>set (os_checkpoints s). cp_cursor c \<le> latest_sequence (rn_id (os_run s)) (os_log s))"

lemma latest_sequence_fold:
  "fold (\<lambda>e m. if ev_run e = Some r then max m (ev_id e) else m) lg (m :: nat) \<ge> m"
  by (induction lg arbitrary: m) (auto intro: order_trans[OF max.cobounded1])

lemma latest_sequence_mono: "prefix lg lg' \<Longrightarrow> latest_sequence r lg \<le> latest_sequence r lg'"
  by (auto simp: prefix_def latest_sequence_def latest_sequence_fold)

lemma cursors_grows:
  assumes "cursors_ok s" and "grows s t" and "os_checkpoints t = os_checkpoints s"
  shows "cursors_ok t"
proof -
  have "latest_sequence (rn_id (os_run s)) (os_log s) \<le> latest_sequence (rn_id (os_run t)) (os_log t)"
    using assms(2) latest_sequence_mono by (simp add: grows_def)
  with assms(1,3) show ?thesis by (fastforce simp: cursors_ok_def)
qed

definition newer :: "checkpoint \<Rightarrow> checkpoint option \<Rightarrow> checkpoint option" where
  "newer c best = (case best of None \<Rightarrow> Some c
                    | Some b \<Rightarrow> if cp_cursor b \<le> cp_cursor c then Some c else Some b)"

lemma latest_newer: "latest_checkpoint s = fold newer (os_checkpoints s) None"
  by (simp add: latest_checkpoint_def newer_def[abs_def])

lemma newer_mem: "fold newer cs b = Some c \<Longrightarrow> c \<in> set cs \<union> set_option b"
  by (induction cs arbitrary: b) (fastforce simp: newer_def split: option.splits if_splits)+

lemma latest_checkpoint_append:
  assumes "\<forall>c\<in>set cs. cp_cursor c \<le> cp_cursor d"
  shows "latest_checkpoint (s\<lparr>os_checkpoints := cs @ [d]\<rparr>) = Some d"
  using newer_mem[of cs None] assms by (cases "fold newer cs None") (auto simp: latest_newer newer_def)

lemma create_checkpoint_effect:
  assumes "cursors_ok s"
  shows "\<exists>c. latest_checkpoint (create_checkpoint env a s) = Some c \<and> cp_attempt c = at_id a \<and> cp_number c = at_number a"
    and "cursors_ok (create_checkpoint env a s)"
proof -
  let ?c = "\<lparr>cp_id = en_new_id env (os_ids s), cp_attempt = at_id a, cp_number = at_number a,
    cp_cursor = latest_sequence (rn_id (os_run s)) (os_log s)\<rparr>"
  have ck: "os_checkpoints (create_checkpoint env a s) = os_checkpoints s @ [?c]"
    by (simp add: create_checkpoint_def Let_def)
  then have "latest_checkpoint (create_checkpoint env a s) = latest_checkpoint (s\<lparr>os_checkpoints := os_checkpoints s @ [?c]\<rparr>)"
    by (intro rows_cong(4)) simp
  also have "\<dots> = Some ?c"
    by (rule latest_checkpoint_append) (use assms in \<open>simp add: cursors_ok_def\<close>)
  finally show "\<exists>c. latest_checkpoint (create_checkpoint env a s) = Some c \<and> cp_attempt c = at_id a \<and> cp_number c = at_number a"
    by simp
  have "prefix (os_log s) (os_log (create_checkpoint env a s))" "rn_id (os_run (create_checkpoint env a s)) = rn_id (os_run s)"
    using checkpoint_grows[of s s env a] by (simp_all add: grows_def)
  with assms latest_sequence_mono show "cursors_ok (create_checkpoint env a s)"
    unfolding cursors_ok_def ck by (fastforce intro: order_trans)
qed

section \<open>The iterations left\<close>

definition rows_ok :: "run_state \<Rightarrow> bool" where
  "rows_ok s \<longleftrightarrow> va_attempt ` set (os_validations s) \<union> fr_attempt ` set (os_reports s) \<subseteq> at_id ` set (os_attempts s)"

definition live_ok :: "env \<Rightarrow> run_state \<Rightarrow> bool" where
  "live_ok env s \<longleftrightarrow> run_ok (en_new_id env) s \<and> cursors_ok s \<and> rows_ok s \<and> \<not> native (os_run s) \<and>
     pred_option (\<lambda>a. settled_status (at_status a)) (last_opt (os_attempts s))"

definition checkpointed :: "attempt \<Rightarrow> run_state \<Rightarrow> bool" where
  "checkpointed a s \<longleftrightarrow> (case latest_checkpoint s of None \<Rightarrow> False
     | Some c \<Rightarrow> cp_attempt c = at_id a \<and> cp_number c = at_number a)"

definition stage :: "attempt \<Rightarrow> run_state \<Rightarrow> nat" where
  "stage a s =
     (if at_status a = Attempt_COMPLETED \<and> validation_for (at_id a) s = None then 3
      else if report_for (at_id a) s = None then 2
      else if action_for (at_id a) s = None \<or> \<not> checkpointed a s then 1
      else 0)"

definition iterations_left :: "run_state \<Rightarrow> nat" where
  "iterations_left s =
     (let m = max 1 (ta_max_attempts (os_task s)) in
      case last_opt (os_attempts s) of
        None \<Rightarrow> 4 * m
      | Some a \<Rightarrow> 4 * (m - length (os_attempts s)) + stage a s)"

lemma no_rows:
  assumes "rows_ok s" and "i \<notin> at_id ` set (os_attempts s)"
  shows "validation_for i s = None" and "report_for i s = None"
  using assms by (auto simp: rows_ok_def validation_for_def report_for_def filter_empty_conv)

lemma last_distinct:
  assumes "attempts_ok newid s" and "os_attempts s = as @ [a]"
  shows "at_id a \<notin> at_id ` set as"
  using assms by (auto simp: attempts_ok_def numbered_def comp_def)

text \<open>Executing a new attempt costs one of the attempts left.\<close>

lemma execute_new_effect:
  assumes calm: "calm env" and live: "live_ok env s" and inj: "inj (en_new_id env)"
    and n: "n = length (os_attempts s) + 1"
  shows "\<exists>b t. execute_attempt env n s = (None, t) \<and> os_attempts t = os_attempts s @ [b] \<and>
    settled_status (at_status b) \<and> same_rows s t \<and> cursors_ok t"
proof -
  have at: "attempts_ok (en_new_id env) s" using live by (simp add: live_ok_def run_ok_def)
  let ?a = "new_attempt env n s" and ?s = "snd (create_attempt env n s)"
  have fresh: "en_new_id env (os_ids s) \<notin> at_id ` set (os_attempts s)"
  proof
    assume "en_new_id env (os_ids s) \<in> at_id ` set (os_attempts s)"
    with at have "en_new_id env (os_ids s) \<in> en_new_id env ` {..<os_ids s}"
      by (auto simp: attempts_ok_def numbered_def comp_def)
    with inj show False by (auto dest: injD)
  qed
  have "attempt_to_run env n s = create_attempt env n s"
    using attempts_ok_last[OF at] n by (auto simp: attempt_to_run_def split: option.split)
  then have ex: "execute_attempt env n s = run_attempt env n ?a ?s"
    by (simp add: execute_attempt_def create_attempt_def Let_def)
  have s1: "os_attempts ?s = os_attempts s @ [?a]" by (simp add: create_attempt_def Let_def)
  have f: "at_id ?a \<notin> at_id ` set (os_attempts s)" using fresh by (simp add: new_attempt_def)
  obtain b t where b: "run_attempt env n ?a ?s = (None, t)" "settled_status (at_status b)"
    "os_attempts t = os_attempts s @ [b]" "same_rows ?s t"
    using run_attempt_effect[OF calm s1 f] by blast
  have rows: "same_rows s ?s" by (simp add: same_rows_def create_attempt_def Let_def)
  have "known ?a ?s" using f by (auto simp: known_def s1 image_iff)
  then have g: "grows ?s t" using run_attempt_grows[of ?a ?s env n] b(1) by simp
  have "cursors_ok ?s" using live by (simp add: live_ok_def cursors_ok_def create_attempt_def Let_def)
  from cursors_grows[OF this g] b(4) have "cursors_ok t" by (simp add: same_rows_def)
  with b ex rows show ?thesis by (intro exI[of _ b] exI[of _ t]) (simp add: same_rows_def)
qed

end
