(* ===== verification/RunLiveness.thy ===== *)
theory RunLiveness imports RunEffects begin

text \<open>
  Whether the loop of the recovering orchestrator ends: every iteration of a calm run uses up
  one of the iterations its attempts have left, the guard of 256 iterations is therefore enough
  for 63 attempts, it is not for more, and there are states from which the loop makes no
  progress at all.
\<close>

section \<open>What is decided in a calm run\<close>

lemma decide_calm:
  assumes "rn_status (in_run st) = Run_RUNNING" and "in_latest st = Some a" and "settled_status (at_status a)"
  shows "decide False st =
    (if at_status a = Attempt_COMPLETED \<and> in_validation st = None then VALIDATE_COMPLETED_ATTEMPT
     else if at_status a \<in> {Attempt_COMPLETED, Attempt_CRASHED} \<and> passed (in_validation st)
       then COMPLETE_FROM_PERSISTED_VALIDATION
     else if in_report st = None
       then (if at_status a = Attempt_COMPLETED then CLASSIFY_PERSISTED_VALIDATION_FAILURE else CLASSIFY_ATTEMPT_FAILURE)
     else decide_recovery st a)"
  using assms by (cases "at_status a") (simp_all add: decide_def settled_status_def)

lemma decide_recovery_cases:
  "decide_recovery st a =
    (if in_action st = None \<or> ra_type (the (in_action st)) \<in> retry_actions \<and>
          \<not> (case in_checkpoint st of None \<Rightarrow> False | Some c \<Rightarrow> cp_attempt c = at_id a \<and> cp_number c = at_number a)
       then CONTINUE_PERSISTED_RECOVERY
     else if ra_type (the (in_action st)) \<in> retry_actions \<and>
          \<not> list_ex (\<lambda>b. at_number b = at_number a + 1) (in_attempts st) then START_NEXT_ATTEMPT
     else RETURN_TERMINAL)"
  by (simp add: decide_recovery_def Let_def split: option.split)

text \<open>What an iteration may do: leave the loop with a run that is no longer RUNNING, or bring
  the end nearer.\<close>

definition good_step :: "env \<Rightarrow> run_state \<Rightarrow> iteration \<Rightarrow> bool" where
  "good_step env s it \<longleftrightarrow>
     (case it of
        Leave (e, t) \<Rightarrow> e = None \<and> rn_status (os_run t) \<noteq> Run_RUNNING
      | Next t \<Rightarrow> live_ok env t \<and> iterations_left t < iterations_left s)"

lemma native_same: "rn_executor (os_run t) = rn_executor (os_run s) \<Longrightarrow> native (os_run t) = native (os_run s)"
  by (simp add: native_def)

lemma rows_ok_same:
  assumes "rows_ok s" and "at_id ` set (os_attempts s) \<subseteq> at_id ` set (os_attempts t)"
    and "va_attempt ` set (os_validations t) \<subseteq> at_id ` set (os_attempts t) \<union> va_attempt ` set (os_validations s)"
    and "fr_attempt ` set (os_reports t) \<subseteq> at_id ` set (os_attempts t) \<union> fr_attempt ` set (os_reports s)"
  shows "rows_ok t"
proof -
  have sub: "X \<subseteq> I \<union> V \<Longrightarrow> V \<subseteq> I \<Longrightarrow> X \<subseteq> I" for X I V :: "string set" by fast
  have "va_attempt ` set (os_validations s) \<union> fr_attempt ` set (os_reports s) \<subseteq> at_id ` set (os_attempts t)"
    using assms(1,2) unfolding rows_ok_def by (rule order_trans)
  then show ?thesis using sub[OF assms(3)] sub[OF assms(4)] unfolding rows_ok_def by simp
qed

lemma stage_le: "stage a s \<le> 3"
  by (simp add: stage_def)

lemma good_terminal:
  assumes "rn_status (os_run s) \<noteq> Run_RUNNING \<or> act \<noteq> None"
  shows "good_step env s (Leave (finish_from_state resume l act s))"
  using assms by (cases act) (auto simp: good_step_def finish_from_state_def Let_def)

lemma complete_status: "rn_status (os_run (complete_run env resume a v s)) = Run_COMPLETED"
  by (simp add: complete_run_def Let_def)

lemma good_complete: "good_step env s (Leave (None, complete_run env resume a v s))"
  by (simp add: good_step_def complete_status)

lemma attempts_within:
  assumes "live_ok env s"
  shows "length (os_attempts s) \<le> max 1 (ta_max_attempts (os_task s))"
  using assms by (simp add: live_ok_def run_ok_def attempts_ok_def)

text \<open>The common part of all iterations that go on.\<close>

lemma good_next:
  assumes ok: "case continue_step env resume s of Next t \<Rightarrow> run_ok (en_new_id env) t | Leave (e, t) \<Rightarrow> run_ok (en_new_id env) t"
    and step: "continue_step env resume s = Next t"
    and "live_ok env s" and "cursors_ok t" and "rows_ok t" and "rn_executor (os_run t) = rn_executor (os_run s)"
    and "os_attempts t = as @ [b]" and "settled_status (at_status b)"
    and "iterations_left t < iterations_left s"
  shows "good_step env s (continue_step env resume s)"
  using assms native_same[of t s] by (simp add: good_step_def live_ok_def)

section \<open>The iterations\<close>

lemma validate_rows:
  assumes "calm env"
  shows "va_attempt ` set (os_validations (snd (validate_result env ro ar a r s)))
    \<subseteq> insert (at_id a) (va_attempt ` set (os_validations s))"
proof -
  have "va_attempt (en_validate env u a r) = at_id a" for u using assms unfolding calm_def by blast
  moreover have "set (replace_first P y xs) \<subseteq> insert y (set xs)" for P and y :: validation and xs
    by (induction xs) auto
  then have "va_attempt ` set (replace_first P y xs) \<subseteq> insert (va_attempt y) (va_attempt ` set xs)"
    for P and y :: validation and xs by (metis (no_types) image_insert image_mono)
  from this[of _ "_\<lparr>va_attempt := at_id a\<rparr>" "rev (os_validations s)"]
  have "va_attempt ` set (os_validations (update_validation (at_id a) v u)) \<subseteq> insert (at_id a) (va_attempt ` set (os_validations s))"
    if "os_validations u = os_validations s" for u v
    using that by (simp add: update_validation_def)
  ultimately show ?thesis using assms
    by (auto simp: validate_result_def Let_def and_then_def)
qed

lemma report_attempt: "fr_attempt (classify a r v) = at_id a"
  by (simp add: classify_def failure_report_of_def Let_def split: option.split prod.split)

lemma classify_rows:
  "fr_attempt ` set (os_reports (snd (classify_state env a v s))) \<subseteq> insert (at_id a) (fr_attempt ` set (os_reports s))"
  by (auto simp: classify_state_def Let_def crash_at_def report_attempt)

lemma good_execute:
  assumes calm: "calm env" and live: "live_ok env s" and inj: "inj (en_new_id env)"
    and n: "n = length (os_attempts s) + 1" and m: "n \<le> max 1 (ta_max_attempts (os_task s))"
    and step: "continue_step env resume s = carry_on (execute_attempt env n s)"
  shows "good_step env s (continue_step env resume s)"
proof -
  obtain b t where t: "execute_attempt env n s = (None, t)" "os_attempts t = os_attempts s @ [b]"
    "settled_status (at_status b)" "same_rows s t" "cursors_ok t"
    using execute_new_effect[OF calm live inj n] by blast
  have st: "continue_step env resume s = Next t" using step t(1) by (simp add: carry_on_def)
  have ok: "run_ok (en_new_id env) s" using live by (simp add: live_ok_def)
  note next_ok = continue_step_ok[OF ok inj, of resume]
  have mx: "ta_max_attempts (os_task t) = ta_max_attempts (os_task s)" using t(4) by (simp add: same_rows_def)
  have rows: "rows_ok t"
    by (rule rows_ok_same[of s]) (use live t(2,4) in \<open>auto simp: live_ok_def same_rows_def\<close>)
  have "iterations_left t < iterations_left s"
    using t(2) n m mx stage_le[of b t] stage_le[of "last (os_attempts s)" s]
    by (auto simp: iterations_left_def Let_def last_opt_def)
  then show ?thesis
    using good_next[OF next_ok st live t(5) rows _ t(2,3)] t(4) by (simp add: same_rows_def)
qed

text \<open>Validating, classifying and recovering stay with the latest attempt and move it one stage
  on.\<close>

lemma good_same_attempt:
  assumes "continue_step env resume s = Next t" and "live_ok env s" and "inj (en_new_id env)"
    and "os_attempts s = as @ [a]" and "os_attempts t = as @ [b]" and "at_id b = at_id a" and "at_status b = at_status a"
    and "os_run t = os_run s" and "ta_max_attempts (os_task t) = ta_max_attempts (os_task s)"
    and "va_attempt ` set (os_validations t) \<subseteq> insert (at_id a) (va_attempt ` set (os_validations s))"
    and "fr_attempt ` set (os_reports t) \<subseteq> insert (at_id a) (fr_attempt ` set (os_reports s))"
    and "cursors_ok t" and "stage b t < stage a s"
  shows "good_step env s (continue_step env resume s)"
proof -
  have ok: "run_ok (en_new_id env) s" using assms(2) by (simp add: live_ok_def)
  have "rows_ok t"
    by (rule rows_ok_same[of s]) (use assms(2,4,5,6,10,11) in \<open>auto simp: live_ok_def\<close>)
  moreover have "settled_status (at_status b)" using assms(2,4,7) by (simp add: live_ok_def)
  moreover have "iterations_left t < iterations_left s"
    using assms(4,5,9,13) by (simp add: iterations_left_def Let_def)
  ultimately show ?thesis
    using good_next[OF continue_step_ok[OF ok assms(3), of resume] assms(1,2,12) _ _ assms(5)] assms(8) by simp
qed

lemma good_validate:
  assumes calm: "calm env" and live: "live_ok env s" and inj: "inj (en_new_id env)"
    and last: "os_attempts s = as @ [a]" and missing: "validation_for (at_id a) s = None"
    and status: "at_status a = Attempt_COMPLETED"
    and step: "continue_step env resume s = carry_on (validate_result env False False a r s)"
  shows "good_step env s (continue_step env resume s)"
proof -
  obtain t where t: "validate_result env False False a r s = (None, t)" "os_attempts t = os_attempts s"
    "validation_for (at_id a) t \<noteq> None" "os_reports t = os_reports s" "os_actions t = os_actions s"
    "os_checkpoints t = os_checkpoints s" "os_run t = os_run s"
    using validate_effect[OF calm missing] by blast
  have g: "grows s t" using validate_grows[of s s env False False a r] t(1) by simp
  have st: "continue_step env resume s = Next t" using step t(1) by (simp add: carry_on_def)
  have "va_attempt ` set (os_validations t) \<subseteq> insert (at_id a) (va_attempt ` set (os_validations s))"
    using validate_rows[OF calm, of False False a r s] t(1) by simp
  moreover have "cursors_ok t" using cursors_grows[OF _ g t(6)] live by (simp add: live_ok_def)
  moreover have "stage a t < stage a s" using t(3) status missing by (simp add: stage_def)
  ultimately show ?thesis
    using good_same_attempt[OF st live inj last, of a] last t g by (auto simp: grows_def)
qed

lemma good_classify:
  assumes calm: "calm env" and live: "live_ok env s" and inj: "inj (en_new_id env)"
    and last: "os_attempts s = as @ [a]" and missing: "report_for (at_id a) s = None"
    and status: "\<not> (at_status a = Attempt_COMPLETED \<and> validation_for (at_id a) s = None)"
    and step: "continue_step env resume s = carry_on (classify_state env a v s)"
  shows "good_step env s (continue_step env resume s)"
proof -
  have at: "attempts_ok (en_new_id env) s" using live by (simp add: live_ok_def run_ok_def)
  obtain b t where t: "classify_state env a v s = (None, t)" "at_id b = at_id a" "at_status b = at_status a"
    "os_attempts t = as @ [b]" "report_for (at_id a) t \<noteq> None" "os_validations t = os_validations s"
    "os_checkpoints t = os_checkpoints s" "os_run t = os_run s"
    using classify_effect[OF calm missing last last_distinct[OF at last], of v] by blast
  have "known a s" using attempts_ok_known[OF at, of a] last by simp
  then have g: "grows s t" using classify_grows[of s s a env v] t(1) by simp
  have st: "continue_step env resume s = Next t" using step t(1) by (simp add: carry_on_def)
  have "fr_attempt ` set (os_reports t) \<subseteq> insert (at_id a) (fr_attempt ` set (os_reports s))"
    using classify_rows[of env a v s] t(1) by simp
  moreover have "cursors_ok t" using cursors_grows[OF _ g t(7)] live by (simp add: live_ok_def)
  moreover have "validation_for (at_id a) t = validation_for (at_id a) s" using t(6) by (rule rows_cong)
  then have "stage b t < stage a s" using t(2,3,5) status missing by (simp add: stage_def)
  ultimately show ?thesis
    using good_same_attempt[OF st live inj last t(4,2,3)] t(6,8) g by (auto simp: grows_def)
qed

lemma checkpoint_frame [simp]:
  "os_attempts (create_checkpoint env a s) = os_attempts s" "os_validations (create_checkpoint env a s) = os_validations s"
  "os_reports (create_checkpoint env a s) = os_reports s" "os_actions (create_checkpoint env a s) = os_actions s"
  "os_run (create_checkpoint env a s) = os_run s" "os_task (create_checkpoint env a s) = os_task s"
  by (simp_all add: create_checkpoint_def Let_def)

lemma cursors_log: "cursors_ok s \<Longrightarrow> cursors_ok (log_event ty a p s)"
  by (rule cursors_grows[OF _ log_grows]) simp_all

lemma cursors_actions [simp]: "cursors_ok (s\<lparr>os_actions := acts\<rparr>) = cursors_ok s"
  by (simp add: cursors_ok_def)

lemma checkpointed_log [simp]: "checkpointed a (log_event ty c p s) = checkpointed a s"
  by (simp add: checkpointed_def latest_checkpoint_def)

lemma finish_recovery_effect:
  assumes "calm env" and "cursors_ok s"
  shows "\<exists>t. finish_recovery env a act s = (None, t) \<and> checkpointed a t \<and> cursors_ok t \<and> os_attempts t = os_attempts s \<and>
    os_validations t = os_validations s \<and> os_reports t = os_reports s \<and> os_actions t = os_actions s \<and>
    os_run t = os_run s \<and> os_task t = os_task s"
proof -
  have frame: "\<exists>t. (if ra_type act \<in> retry_actions then log_event ty c p u else u) = t \<and> checkpointed a t \<and> cursors_ok t \<and>
      os_attempts t = os_attempts s \<and> os_validations t = os_validations s \<and> os_reports t = os_reports s \<and>
      os_actions t = os_actions s \<and> os_run t = os_run s \<and> os_task t = os_task s"
    if "checkpointed a u" "cursors_ok u" "os_attempts u = os_attempts s" "os_validations u = os_validations s"
      "os_reports u = os_reports s" "os_actions u = os_actions s" "os_run u = os_run s" "os_task u = os_task s" for u ty c p
    using that by (cases "ra_type act \<in> retry_actions") (simp_all add: cursors_log)
  show ?thesis
  proof (cases "checkpointed a s")
    case True
    then have "finish_recovery env a act s = (None, if ra_type act \<in> retry_actions then
        log_event (Ev_Validation RECOVERY_STARTED) (Some a) [(''action'', PStr (recovery_action_value (ra_type act))),
          (''next_attempt'', PInt (int (at_number a) + 1))] s else s)"
      by (simp add: finish_recovery_def checkpointed_def and_then_def Let_def)
    then show ?thesis using frame[OF True assms(2)] by simp
  next
    case False
    let ?u = "create_checkpoint env a s"
    have u: "checkpointed a ?u" using create_checkpoint_effect(1)[OF assms(2), of env a] by (auto simp: checkpointed_def)
    from False have "finish_recovery env a act s = (None, if ra_type act \<in> retry_actions then
        log_event (Ev_Validation RECOVERY_STARTED) (Some a) [(''action'', PStr (recovery_action_value (ra_type act))),
          (''next_attempt'', PInt (int (at_number a) + 1))] ?u else ?u)"
      using assms(1) by (simp add: finish_recovery_def checkpointed_def and_then_def Let_def)
    then show ?thesis using frame[OF u create_checkpoint_effect(2)[OF assms(2)]] by simp
  qed
qed

lemma good_recover:
  assumes calm: "calm env" and live: "live_ok env s" and inj: "inj (en_new_id env)"
    and last: "os_attempts s = as @ [a]" and rep: "report_for (at_id a) s = Some rep"
    and status: "stage a s = 1"
    and step: "continue_step env resume s = carry_on (continue_recovery env a v (action_for (at_id a) s) s)"
  shows "good_step env s (continue_step env resume s)"
proof -
  have cs: "cursors_ok s" using live by (simp add: live_ok_def)
  have classified: "classify_state env a v s = (None, s)" using rep by (simp add: classify_state_def)
  obtain u act where u: "continue_recovery env a v (action_for (at_id a) s) s = finish_recovery env a act u"
    "cursors_ok u" "os_attempts u = os_attempts s" "os_validations u = os_validations s" "os_reports u = os_reports s"
    "os_run u = os_run s" "os_task u = os_task s" "action_for (at_id a) u \<noteq> None"
  proof (cases "action_for (at_id a) s")
    case (Some act)
    then show ?thesis using that[of act s] classified cs by (simp add: continue_recovery_def and_then_def)
  next
    case None
    let ?act = "policy_decide (en_policy env) a rep (at_number a) (ta_max_attempts (os_task s)) (length (os_actions s))"
    let ?u = "snd (record_action env a ?act s)"
    have "ra_attempt ?act = at_id a" by (simp add: policy_decide_def Let_def)
    then have "action_for (at_id a) ?u \<noteq> None" using calm by (simp add: record_action_def action_for_def)
    moreover have "cursors_ok ?u" using calm cs by (simp add: record_action_def cursors_log)
    moreover have "continue_recovery env a v (action_for (at_id a) s) s = finish_recovery env a ?act ?u"
      using None classified rep calm by (simp add: continue_recovery_def and_then_def record_action_def Let_def)
    ultimately show ?thesis using that[of ?act ?u] calm by (simp add: record_action_def)
  qed
  obtain t where t: "finish_recovery env a act u = (None, t)" "checkpointed a t" "cursors_ok t" "os_attempts t = os_attempts u"
    "os_validations t = os_validations u" "os_reports t = os_reports u" "os_actions t = os_actions u"
    "os_run t = os_run u" "os_task t = os_task u"
    using finish_recovery_effect[OF calm u(2), of a act] by blast
  have st: "continue_step env resume s = Next t" using step t(1) u(1) by (simp add: carry_on_def)
  have "stage a t = 0"
    using status t(2,5,6,7) u(4,5,8) rep by (simp add: stage_def validation_for_def report_for_def action_for_def split: if_splits)
  with status show ?thesis
    using good_same_attempt[OF st live inj last, of a] last t u by auto
qed

text \<open>Every iteration.\<close>

lemma ended_step:
  assumes "rn_status (os_run s) \<noteq> Run_RUNNING"
  shows "good_step env s (continue_step env resume s)"
  using assms good_terminal[of s] by (simp add: continue_step_def decide_def Let_def)

lemma first_step:
  assumes calm: "calm env" and live: "live_ok env s" and inj: "inj (en_new_id env)"
    and running: "rn_status (os_run s) = Run_RUNNING" and none: "os_attempts s = []"
  shows "good_step env s (continue_step env resume s)"
proof -
  have "continue_step env resume s = carry_on (execute_attempt env 1 s)"
    using calm running none by (simp add: continue_step_def decide_def calm_def Let_def)
  then show ?thesis using none by (intro good_execute[OF calm live inj]) simp_all
qed

lemma later_step:
  assumes calm: "calm env" and live: "live_ok env s" and inj: "inj (en_new_id env)"
    and running: "rn_status (os_run s) = Run_RUNNING" and last: "os_attempts s = as @ [a]"
  shows "good_step env s (continue_step env resume s)"
proof -
  let ?st = "inspect False s"
  have w: "en_workspace env = False" using calm by (simp add: calm_def)
  have l: "last_opt (os_attempts s) = Some a" using last by simp
  note rows = inspect_rows[OF l, of False]
  have at: "attempts_ok (en_new_id env) s" using live by (simp add: live_ok_def run_ok_def)
  have "settled_status (at_status a)" using live last by (simp add: live_ok_def)
  then have d: "decide False ?st =
    (if at_status a = Attempt_COMPLETED \<and> validation_for (at_id a) s = None then VALIDATE_COMPLETED_ATTEMPT
     else if at_status a \<in> {Attempt_COMPLETED, Attempt_CRASHED} \<and> passed (validation_for (at_id a) s)
       then COMPLETE_FROM_PERSISTED_VALIDATION
     else if report_for (at_id a) s = None
       then (if at_status a = Attempt_COMPLETED then CLASSIFY_PERSISTED_VALIDATION_FAILURE else CLASSIFY_ATTEMPT_FAILURE)
     else decide_recovery ?st a)"
    using decide_calm[of ?st a] running l rows by simp
  have r: "decide_recovery ?st a =
    (if action_for (at_id a) s = None \<or> ra_type (the (action_for (at_id a) s)) \<in> retry_actions \<and> \<not> checkpointed a s
       then CONTINUE_PERSISTED_RECOVERY
     else if ra_type (the (action_for (at_id a) s)) \<in> retry_actions \<and>
          \<not> list_ex (\<lambda>b. at_number b = at_number a + 1) (os_attempts s) then START_NEXT_ATTEMPT
     else RETURN_TERMINAL)"
    unfolding decide_recovery_cases using rows by (simp add: checkpointed_def)
  show ?thesis
  proof (cases "decide False ?st")
    case VALIDATE_COMPLETED_ATTEMPT
    then have "at_status a = Attempt_COMPLETED" "validation_for (at_id a) s = None" using d r by (auto split: if_splits)
    then show ?thesis
      using VALIDATE_COMPLETED_ATTEMPT w l
      by (intro good_validate[OF calm live inj last]) (simp_all add: continue_step_def Let_def)
  next
    case COMPLETE_FROM_PERSISTED_VALIDATION
    then show ?thesis using good_complete w by (simp add: continue_step_def Let_def)
  next
    case CLASSIFY_PERSISTED_VALIDATION_FAILURE
    then have "report_for (at_id a) s = None" "\<not> (at_status a = Attempt_COMPLETED \<and> validation_for (at_id a) s = None)"
      using d r by (auto split: if_splits)
    then show ?thesis
      using CLASSIFY_PERSISTED_VALIDATION_FAILURE w l
      by (intro good_classify[OF calm live inj last, where v = "in_validation ?st"]) (simp_all add: continue_step_def Let_def)
  next
    case CLASSIFY_ATTEMPT_FAILURE
    then have "report_for (at_id a) s = None" "\<not> (at_status a = Attempt_COMPLETED \<and> validation_for (at_id a) s = None)"
      using d r by (auto split: if_splits)
    then show ?thesis
      using CLASSIFY_ATTEMPT_FAILURE w l
      by (intro good_classify[OF calm live inj last, where v = "in_validation ?st"]) (simp_all add: continue_step_def Let_def)
  next
    case CONTINUE_PERSISTED_RECOVERY
    then obtain rep where rep: "report_for (at_id a) s = Some rep" and "stage a s = 1"
      using d r by (auto simp: stage_def split: if_splits)
    then show ?thesis
      using CONTINUE_PERSISTED_RECOVERY w l rows
      by (intro good_recover[OF calm live inj last rep, where v = "in_validation ?st"]) (simp_all add: continue_step_def Let_def)
  next
    case START_NEXT_ATTEMPT
    then obtain act where act: "action_for (at_id a) s = Some act" "ra_type act \<in> retry_actions"
      using d r by (auto split: if_splits)
    have n: "at_number a = length (os_attempts s)" by (rule attempts_ok_last[OF at l])
    have "at_number a + 1 \<le> max 1 (ta_max_attempts (os_task s))" using retry_room[OF at l act] by simp
    then show ?thesis
      using START_NEXT_ATTEMPT w l n
      by (intro good_execute[OF calm live inj, of "at_number a + 1"]) (simp_all add: continue_step_def Let_def)
  next
    case RETURN_TERMINAL
    then have "action_for (at_id a) s \<noteq> None" using d r by (auto split: if_splits)
    then show ?thesis
      using RETURN_TERMINAL w rows good_terminal[of s "action_for (at_id a) s"] by (simp add: continue_step_def Let_def)
  qed (use d r in \<open>auto split: if_splits\<close>)
qed

lemma continue_step_good:
  assumes "calm env" and "live_ok env s" and "inj (en_new_id env)"
  shows "good_step env s (continue_step env resume s)"
proof (cases "os_attempts s" rule: rev_cases)
  case Nil
  then show ?thesis using ended_step first_step[OF assms] by blast
next
  case (snoc as a)
  then show ?thesis using ended_step later_step[OF assms] by blast
qed

lemma continue_run_ends:
  assumes "calm env" and "inj (en_new_id env)" and "live_ok env s" and "iterations_left s < fuel"
  shows "\<exists>r. continue_run env resume fuel s = (None, r) \<and> rn_status (os_run r) \<noteq> Run_RUNNING"
  using assms(3,4)
proof (induction fuel arbitrary: s)
  case (Suc n)
  from continue_step_good[OF assms(1) Suc.prems(1) assms(2), of resume] Suc.IH Suc.prems(2)
  show ?case by (cases "continue_step env resume s") (auto simp: good_step_def)
qed simp

section \<open>Prepared runs\<close>

lemma calm_prepare:
  assumes "calm env" and "ta_status t \<in> {Task_CREATED, Task_READY}"
  obtains s where "prepare_task_run env cfg t lg k = Some (None, s)" and "os_attempts s = []" and "os_validations s = []"
    and "os_reports s = []" and "os_checkpoints s = []" and "rn_status (os_run s) = Run_RUNNING"
    and "rn_executor (os_run s) = rn_executor cfg" and "ta_max_attempts (os_task s) = ta_max_attempts t"
    and "os_actions s = []"
proof -
  have "\<not> en_workspace env" using assms(1) by (simp add: calm_def)
  with assms show ?thesis
    by (intro that) (auto simp: prepare_task_run_def Let_def and_then_def new_run_def)
qed

lemma execute_continue:
  assumes "calm env" and "prepare_task_run env cfg t lg k = Some (None, s)" and "rn_status (os_run s) = Run_RUNNING"
  shows "execute_task env cfg t lg k = Some (continue_run env False loop_guard s)"
  using assms by (simp add: execute_task_def and_then_def continue_prepared_run_def calm_def)

section \<open>A stuck run\<close>

text \<open>The latest attempt is still RUNNING and neither a workspace nor a native executor could
  bring it back.\<close>

definition stuck :: "run_state \<Rightarrow> bool" where
  "stuck s \<longleftrightarrow> rn_status (os_run s) = Run_RUNNING \<and> \<not> native (os_run s) \<and>
     (\<exists>a. last_opt (os_attempts s) = Some a \<and> at_status a = Attempt_RUNNING)"

lemma last_opt_map: "last_opt xs = Some a \<Longrightarrow> last_opt (map f xs) = Some (f a)"
  by (auto simp: last_opt_def last_map)

lemma stuck_step:
  assumes "stuck s" and "\<not> en_workspace env" and "\<forall>p u. \<not> en_crash env p u"
  shows "\<exists>t. continue_step env resume s = Next t \<and> stuck t \<and> length (os_attempts t) = length (os_attempts s)"
proof -
  obtain a where a: "last_opt (os_attempts s) = Some a" "at_status a = Attempt_RUNNING"
    using assms(1) by (auto simp: stuck_def)
  have "decide False (inspect False s) = CLASSIFY_ATTEMPT_FAILURE"
    using assms(1) a by (simp add: decide_def stuck_def)
  then have step: "continue_step env resume s = carry_on (classify_state env a (in_validation (inspect False s)) s)"
    using assms(2) a by (simp add: continue_step_def Let_def)
  have "\<exists>t. classify_state env a v s = (None, t) \<and> stuck t \<and> length (os_attempts t) = length (os_attempts s)" for v
  proof (cases "report_for (at_id a) s")
    case None
    then show ?thesis
      using assms(1,3) a(2) by (simp add: classify_state_def crash_at_def Let_def stuck_def last_opt_map[OF a(1)])
  qed (use assms(1) in \<open>simp add: classify_state_def\<close>)
  from this[of "in_validation (inspect False s)"] step show ?thesis by (auto simp: carry_on_def)
qed

lemma stuck_run:
  assumes "stuck s" and "\<not> en_workspace env" and "\<forall>p u. \<not> en_crash env p u"
  shows "\<exists>t. continue_run env resume n s = (Some (Run_not_resumable ''RESUME_STATE_MACHINE_GUARD_EXCEEDED''), t) \<and> stuck t \<and>
    length (os_attempts t) = length (os_attempts s)"
  using assms(1)
proof (induction n arbitrary: s)
  case (Suc n)
  from stuck_step[OF Suc.prems assms(2,3), of resume] obtain t where
    t: "continue_step env resume s = Next t" "stuck t" "length (os_attempts t) = length (os_attempts s)" by blast
  from Suc.IH[OF t(2)] t(1,3) show ?case by auto
qed auto

section \<open>A cancelled attempt\<close>

text \<open>What one durable action that ended in a cancellation leaves of the state \<open>s\<close>.\<close>

definition cancelled_by :: "run_state \<Rightarrow> run_state \<Rightarrow> bool" where
  "cancelled_by s t \<longleftrightarrow> rn_status (os_run t) = Run_CANCELLED \<and> ta_status (os_task t) = Task_CANCELLED \<and>
     (\<exists>a. last_opt (os_attempts t) = Some a \<and> at_status a = Attempt_FAILED) \<and>
     length (os_attempts t) \<le> length (os_attempts s) + 1 \<and>
     os_validations t = os_validations s \<and> os_reports t = os_reports s \<and> os_actions t = os_actions s"

definition controlled :: "env \<Rightarrow> bool" where
  "controlled env \<longleftrightarrow> (\<forall>u b. \<exists>ft reason ev ms. en_execute env u b = Control_terminated ft reason ev ms)"

lemma last_opt_put: "last_opt xs = Some a \<Longrightarrow> at_id a = at_id b \<Longrightarrow>
    last_opt (map (\<lambda>c. if at_id c = at_id b then b else c) xs) = Some b"
  by (auto simp: last_opt_def last_map split: if_splits)

lemma executor_cancelled:
  assumes "controlled env" and "last_opt (os_attempts s) = Some c" and "at_id c = at_id a"
  shows "cancelled_by s (snd (run_executor env a s)) \<and>
    length (os_attempts (snd (run_executor env a s))) = length (os_attempts s) \<and>
    (\<exists>b. at_id b = at_id a \<and> at_status b = Attempt_FAILED \<and>
       os_attempts (snd (run_executor env a s)) = map (\<lambda>d. if at_id d = at_id b then b else d) (os_attempts s))"
proof -
  obtain ft reason ev ms where x: "en_execute env s a = Control_terminated ft reason ev ms"
    using assms(1) unfolding controlled_def by blast
  let ?b = "a\<lparr>at_status := Attempt_FAILED, at_duration := Some ms, at_error_type := Some ft, at_error_message := Some reason\<rparr>"
  let ?u = "snd (run_executor env a s)"
  have u: "os_attempts ?u = map (\<lambda>d. if at_id d = at_id ?b then ?b else d) (os_attempts s)"
    "rn_status (os_run ?u) = Run_CANCELLED" "ta_status (os_task ?u) = Task_CANCELLED"
    "os_validations ?u = os_validations s" "os_reports ?u = os_reports s" "os_actions ?u = os_actions s"
    by (simp_all add: run_executor_def x finalize_attempt_def Let_def)
  have "last_opt (os_attempts ?u) = Some ?b"
    unfolding u(1) by (rule last_opt_put[OF assms(2)]) (simp add: assms(3))
  then show ?thesis
    using u unfolding cancelled_by_def by (intro conjI exI[of _ ?b]) simp_all
qed

lemma crash_passed:
  assumes "and_then (crash_at env p w) f = (e, t)" and "e \<in> {None, Some (Injected_crash q)}" and "q \<noteq> p"
  shows "f w = (e, t)"
  using assms by (auto simp: and_then_def crash_at_def split: if_splits)

definition same_tables :: "attempt \<Rightarrow> run_state \<Rightarrow> run_state \<Rightarrow> bool" where
  "same_tables a s w \<longleftrightarrow> length (os_attempts w) = length (os_attempts s) \<and> os_validations w = os_validations s \<and>
     os_reports w = os_reports s \<and> os_actions w = os_actions s \<and>
     (\<exists>d. last_opt (os_attempts w) = Some d \<and> at_id d = at_id a)"

lemma same_tables_put:
  assumes "same_tables a s w" and "at_id b = at_id a"
  shows "same_tables a s (put_attempt b w)"
  using assms last_opt_put[of "os_attempts w" _ b] by (auto simp: same_tables_def)

lemma same_tables_log [simp]: "same_tables a s (log_event ty x p w) = same_tables a s w"
  by (simp add: same_tables_def)

lemma attempt_reaches_executor:
  assumes "run_attempt env n a s = (e, t)" and "e \<in> {None, Some (Injected_crash AFTER_EXECUTOR_PERSISTED)}"
    and "last_opt (os_attempts s) = Some c" and "at_id c = at_id a"
  shows "\<exists>b w. t = snd (run_executor env b w) \<and> at_id b = at_id a \<and> same_tables a s w"
proof -
  let ?a = "a\<lparr>at_status := Attempt_RUNNING\<rparr>"
  let ?w = "put_attempt ?a (log_event (Ev_Attempt ATTEMPT_STARTED) (Some a)
    [(''attempt_number'', PInt (int n)), (''resume_origin'', if 1 < n then PStr ''PROCESS_RESUME'' else PNone)] s)"
  have w: "same_tables a s ?w"
    by (rule same_tables_put) (simp_all add: same_tables_def assms(3,4))
  note passed = crash_passed[OF assms(1)[unfolded run_attempt_def Let_def] assms(2)]
  have ctx: "(case en_context env ?w ?a of Inl x \<Rightarrow> (Some (Context_error x), ?w)
      | Inr policy \<Rightarrow>
          (let i = en_new_id env (os_ids ?w); b = ?a\<lparr>at_snapshot := Some i\<rparr>;
               s = put_attempt b (?w\<lparr>os_snapshots := os_snapshots ?w @ [(at_id b, i)], os_ids := os_ids ?w + 1\<rparr>);
               s = log_event (Ev_Executor CONTEXT_BUILT) (Some b)
                     [(''context_snapshot_id'', PStr i), (''policy'', PStr policy)] s
           in and_then (crash_at env AFTER_CONTEXT_BUILT s) (\<lambda>s.
                let s = log_event (Ev_Executor EXECUTOR_STARTED) (Some b)
                          [(''executor'', PStr (en_executor_name env))] s
                in crash_at env AFTER_EXECUTOR_PERSISTED (snd (run_executor env b s))))) = (e, t)"
    unfolding Let_def by (rule passed) simp
  then obtain policy where p: "en_context env ?w ?a = Inr policy"
    using assms(2) by (auto split: sum.splits)
  let ?i = "en_new_id env (os_ids ?w)" and ?b = "?a\<lparr>at_snapshot := Some (en_new_id env (os_ids ?w))\<rparr>"
  let ?v = "put_attempt ?b (?w\<lparr>os_snapshots := os_snapshots ?w @ [(at_id ?b, ?i)], os_ids := os_ids ?w + 1\<rparr>)"
  let ?x = "log_event (Ev_Executor EXECUTOR_STARTED) (Some ?b) [(''executor'', PStr (en_executor_name env))]
    (log_event (Ev_Executor CONTEXT_BUILT) (Some ?b) [(''context_snapshot_id'', PStr ?i), (''policy'', PStr policy)] ?v)"
  have v: "same_tables a s ?v"
    by (rule same_tables_put) (use w in \<open>simp_all add: same_tables_def\<close>)
  have "crash_at env AFTER_EXECUTOR_PERSISTED (snd (run_executor env ?b ?x)) = (e, t)"
    using crash_passed[OF ctx[unfolded p sum.case Let_def] assms(2)] by simp
  then have "t = snd (run_executor env ?b ?x)" by (simp add: crash_at_def)
  with v show ?thesis by (intro exI[of _ ?b] exI[of _ ?x]) simp
qed

lemma attempt_cancelled:
  assumes "controlled env" and "last_opt (os_attempts s) = Some c" and "at_id c = at_id a"
    and "run_attempt env n a s = (e, t)" and "e \<in> {None, Some (Injected_crash AFTER_EXECUTOR_PERSISTED)}"
  shows "cancelled_by s t \<and> length (os_attempts t) = length (os_attempts s)"
proof -
  from attempt_reaches_executor[OF assms(4,5,2,3)] obtain b w d where
    w: "t = snd (run_executor env b w)" "at_id b = at_id a" "last_opt (os_attempts w) = Some d" "at_id d = at_id a"
      "length (os_attempts w) = length (os_attempts s)" "os_validations w = os_validations s"
      "os_reports w = os_reports s" "os_actions w = os_actions s" unfolding same_tables_def by blast
  from executor_cancelled[OF assms(1) w(3), of b] w show ?thesis by (simp add: cancelled_by_def)
qed

lemma execute_cancelled:
  assumes "controlled env" and "execute_attempt env n s = (e, t)"
    and "e \<in> {None, Some (Injected_crash AFTER_EXECUTOR_PERSISTED)}"
  shows "cancelled_by s t"
proof (cases "\<exists>l. last_opt (os_attempts s) = Some l \<and> at_status l = Attempt_PENDING \<and> at_number l = n")
  case True
  then obtain l where l: "last_opt (os_attempts s) = Some l" "attempt_to_run env n s = (l, s)"
    by (auto simp: attempt_to_run_def)
  have "run_attempt env n l s = (e, t)" using assms(2) l(2) by (simp add: execute_attempt_def)
  from attempt_cancelled[OF assms(1) l(1) refl this assms(3)] show ?thesis by blast
next
  case False
  let ?a = "new_attempt env n s" and ?s = "s\<lparr>os_attempts := os_attempts s @ [new_attempt env n s], os_ids := os_ids s + 1\<rparr>"
  have "attempt_to_run env n s = (?a, ?s)"
    using False by (auto simp: attempt_to_run_def create_attempt_def Let_def split: option.splits)
  then have r: "run_attempt env n ?a ?s = (e, t)" using assms(2) by (simp add: execute_attempt_def)
  have "last_opt (os_attempts ?s) = Some ?a" by simp
  from attempt_cancelled[OF assms(1) this refl r assms(3)] show ?thesis by (simp add: cancelled_by_def)
qed

lemma native_cancelled:
  assumes "controlled env" and "last_opt (os_attempts s) = Some a" and "native (os_run s)"
    and "at_status a = Attempt_RUNNING"
  shows "\<exists>t. resume_native_attempt env a v s = (None, t) \<and> cancelled_by s t"
proof -
  let ?w = "log_event (Ev_Executor EXECUTOR_STARTED) (Some a)
     [(''executor'', PStr (en_executor_name env)), (''resume_same_attempt'', PBool True)] s"
  let ?t = "snd (run_executor env a ?w)"
  have l: "last_opt (os_attempts ?w) = Some a" using assms(2) by simp
  from executor_cancelled[OF assms(1) l refl] obtain b where c: "cancelled_by ?w ?t" and
    b: "at_id b = at_id a" "at_status b = Attempt_FAILED"
      "os_attempts ?t = map (\<lambda>d. if at_id d = at_id b then b else d) (os_attempts ?w)" by blast
  have "at_status d = Attempt_FAILED" if "List.find (\<lambda>d. at_id d = at_id a) (os_attempts ?t) = Some d" for d
    using that b by (auto simp: find_Some_iff split: if_splits)
  then have "resume_native_attempt env a v s = (None, ?t)"
    using assms(3,4) unfolding resume_native_attempt_def Let_def by (auto split: option.splits)
  moreover have "cancelled_by s ?t" using c by (simp add: cancelled_by_def)
  ultimately show ?thesis by blast
qed

lemma decide_native:
  assumes "decide ws (inspect ws' s) = RESUME_NATIVE_ATTEMPT"
  obtains a where "last_opt (os_attempts s) = Some a" "native (os_run s)" "at_status a = Attempt_RUNNING"
  using assms unfolding decide_def decide_recovery_def inspect_def Let_def
  by (auto split: if_splits option.splits attempt_status.splits)

lemma step_cancelled:
  assumes "decide (en_workspace env) (inspect (en_workspace env) s) \<in>
      {START_FIRST_ATTEMPT, START_PENDING_ATTEMPT, START_NEXT_ATTEMPT, RESUME_NATIVE_ATTEMPT}"
    and "\<And>u b. \<exists>ft reason ev ms. en_execute env u b = Control_terminated ft reason ev ms"
    and "continue_step env resume s \<in> {Next t, Leave (Some (Injected_crash AFTER_EXECUTOR_PERSISTED), t)}"
  shows "cancelled_by s t"
proof -
  have c: "controlled env" using assms(2) by (simp add: controlled_def)
  let ?crash = "Some (Injected_crash AFTER_EXECUTOR_PERSISTED)"
  show ?thesis
  proof (cases "decide (en_workspace env) (inspect (en_workspace env) s) = RESUME_NATIVE_ATTEMPT")
    case True
    from decide_native[OF True] obtain a where a: "last_opt (os_attempts s) = Some a" "native (os_run s)"
      "at_status a = Attempt_RUNNING" .
    have "continue_step env resume s = carry_on (resume_native_attempt env a (in_validation (inspect (en_workspace env) s)) s)"
      using True a(1) by (simp add: continue_step_def inspect_def Let_def)
    moreover obtain u where "resume_native_attempt env a (in_validation (inspect (en_workspace env) s)) s = (None, u)"
        "cancelled_by s u" using native_cancelled[OF c a] by blast
    ultimately show ?thesis using assms(3) by (auto simp: carry_on_def)
  next
    case False
    then obtain n where "continue_step env resume s = carry_on (execute_attempt env n s)"
      using assms(1) by (auto simp: continue_step_def Let_def)
    with assms(3) have "\<exists>e\<in>{None, ?crash}. execute_attempt env n s = (e, t)"
      by (auto simp: carry_on_def split: prod.splits option.splits)
    with execute_cancelled[OF c] show ?thesis by blast
  qed
qed

lemma cancelled_stays:
  assumes "rn_status (os_run t) = Run_CANCELLED" and "ta_status (os_task t) = Task_CANCELLED"
  shows "continue_run env resume (Suc n) t = (None, t)" and "continue_prepared_run env t = (None, t)"
    and "resume_run env session t = (None, t)"
    and "\<And>u. u = snd (resume_task env session target switched t) \<Longrightarrow>
      os_run u = os_run t \<and> os_task u = os_task t \<and> length (os_attempts u) = length (os_attempts t) \<and>
      os_validations u = os_validations t \<and> os_reports u = os_reports t \<and> os_actions u = os_actions t \<and>
      os_log u = os_log t"
proof -
  have "decide w (inspect w t) = RETURN_TERMINAL" for w using assms(1) by (simp add: decide_def inspect_def Let_def)
  then show "continue_run env resume (Suc n) t = (None, t)"
    using assms(1) by (simp add: continue_step_def finish_from_state_def Let_def)
  show "continue_prepared_run env t = (None, t)" "resume_run env session t = (None, t)"
    using assms(1) by (simp_all add: continue_prepared_run_def resume_run_def)
  have up: "unpark t = t" using assms by (simp add: unpark_def Let_def)
  have re: "rn_status (os_run (reopen_attempt t)) \<noteq> Run_RUNNING \<and> os_run (reopen_attempt t) = os_run t \<and>
      os_task (reopen_attempt t) = os_task t \<and> length (os_attempts (reopen_attempt t)) = length (os_attempts t) \<and>
      os_validations (reopen_attempt t) = os_validations t \<and> os_reports (reopen_attempt t) = os_reports t \<and>
      os_actions (reopen_attempt t) = os_actions t \<and> os_log (reopen_attempt t) = os_log t"
    using assms(1) by (auto simp: reopen_attempt_def split: option.splits)
  fix u assume "u = snd (resume_task env session target switched t)"
  then show "os_run u = os_run t \<and> os_task u = os_task t \<and> length (os_attempts u) = length (os_attempts t) \<and>
      os_validations u = os_validations t \<and> os_reports u = os_reports t \<and> os_actions u = os_actions t \<and>
      os_log u = os_log t"
    using assms re by (simp add: resume_task_def Let_def up resume_run_def)
qed

definition fresh_run :: run_state where
  "fresh_run = put_run_status Run_RUNNING (new_run (sample_env (Wait_timeout 0)) (sample_run ''Mock'') (sample_task 3) [] 0)"

section \<open>Properties\<close>

text \<open>C39: The recovering orchestrator ends. With at most 63 attempts, an executor other than the
  native one, and no workspace, no crash and no exception from the environment, executing a
  task returns without an exception, within the 256 iterations of the loop, and leaves the run
  in a state other than RUNNING, whatever the executor and the validator answer.\<close>

theorem execute_task_ends:
  assumes "calm env" and "inj (en_new_id env)" and "ta_status t \<in> {Task_CREATED, Task_READY}"
    and "rn_executor cfg \<noteq> ''NativeAgentExecutor''" and "ta_max_attempts t \<le> 63"
  shows "\<exists>s. execute_task env cfg t lg k = Some (None, s) \<and> rn_status (os_run s) \<noteq> Run_RUNNING"
proof -
  obtain s where s: "prepare_task_run env cfg t lg k = Some (None, s)" "os_attempts s = []" "os_validations s = []"
    "os_reports s = []" "os_checkpoints s = []" "rn_status (os_run s) = Run_RUNNING"
    "rn_executor (os_run s) = rn_executor cfg" "ta_max_attempts (os_task s) = ta_max_attempts t"
    using calm_prepare[OF assms(1,3), of cfg lg k] by metis
  have "live_ok env s"
    using prepared_ok[OF s(1)] s assms(4) by (simp add: live_ok_def cursors_ok_def rows_ok_def native_def)
  moreover have "iterations_left s < loop_guard"
    using s(2,8) assms(5) by (simp add: iterations_left_def loop_guard_def Let_def)
  ultimately show ?thesis
    using continue_run_ends[OF assms(1,2), of s loop_guard False] execute_continue[OF assms(1) s(1,6)] by simp
qed

theorem execute_task_ends_witness:
  "\<exists>s. execute_task (sample_env (Wait_timeout 7)) (sample_run ''Mock'') (sample_task 63) [] 0 = Some (None, s) \<and>
     rn_status (os_run s) \<noteq> Run_RUNNING"
  by (rule execute_task_ends)
    (simp_all add: calm_def sample_env_def inj_sample_ids sample_task_def sample_run_def rule_validate_def Let_def)



text \<open>An interrupted run without workspace is never recovered. When a process died while the
  attempt of a run was RUNNING, and the run has neither a workspace nor the native executor,
  every later attempt to continue the run classifies the same attempt again and again until the
  guard of the loop raises, and leaves the run RUNNING with the same attempts.\<close>

theorem interrupted_run_never_recovers:
  assumes "\<not> en_workspace env" and "\<forall>p u. \<not> en_crash env p u" and "rn_status (os_run s) = Run_RUNNING"
    and "rn_executor (os_run s) \<noteq> ''NativeAgentExecutor''" and "os_attempts s \<noteq> []"
    and "at_status (last (os_attempts s)) = Attempt_RUNNING"
  shows "\<exists>t. continue_prepared_run env s = (Some (Run_not_resumable ''RESUME_STATE_MACHINE_GUARD_EXCEEDED''), t) \<and>
    rn_status (os_run t) = Run_RUNNING \<and> length (os_attempts t) = length (os_attempts s) \<and>
    at_status (last (os_attempts t)) = Attempt_RUNNING"
proof -
  have "stuck s" using assms by (simp add: stuck_def native_def last_opt_def)
  from stuck_run[OF this assms(1,2), of False loop_guard] assms(1,3) show ?thesis
    by (auto simp: continue_prepared_run_def stuck_def last_opt_def split: if_splits)
qed

definition interrupted_run :: run_state where
  "interrupted_run =
     (let s = new_run (sample_env (Wait_timeout 0)) (sample_run ''Mock'') (sample_task 3) [] 0;
          (a, s) = create_attempt (sample_env (Wait_timeout 0)) 1 (put_run_status Run_RUNNING s)
      in put_attempt (a\<lparr>at_status := Attempt_RUNNING\<rparr>) s)"

theorem interrupted_run_never_recovers_witness:
  "\<exists>t. continue_prepared_run (sample_env (Wait_timeout 0)) interrupted_run =
     (Some (Run_not_resumable ''RESUME_STATE_MACHINE_GUARD_EXCEEDED''), t)"
proof -
  have "rn_status (os_run interrupted_run) = Run_RUNNING" "rn_executor (os_run interrupted_run) = ''Mock''"
    "os_attempts interrupted_run \<noteq> []" "at_status (last (os_attempts interrupted_run)) = Attempt_RUNNING"
    by (simp_all add: interrupted_run_def new_run_def create_attempt_def new_attempt_def sample_run_def Let_def)
  with interrupted_run_never_recovers[of "sample_env (Wait_timeout 0)" interrupted_run] show ?thesis
    by (auto simp: sample_env_def)
qed

end
