(* ===== verification/ProviderResume.thy ===== *)
theory ProviderResume imports RunEffects begin

text \<open>
  Resuming a task that was parked because its provider was blocked: the attempt is reopened
  under the new runtime target, but the failure report and the recovery action of its earlier
  failure stay with it.
\<close>

text \<open>The run is parked at an attempt of the native executor that was classified and answered with
  a blocked provider.\<close>

definition parked :: "attempt list \<Rightarrow> attempt \<Rightarrow> run_state \<Rightarrow> bool" where
  "parked as a s \<longleftrightarrow>
     rn_status (os_run s) = Run_BLOCKED_PROVIDER \<and> native (os_run s) \<and> os_attempts s = as @ [a] \<and>
     at_id a \<notin> at_id ` set as \<and>
     at_error_type a \<in> {Some ''QUOTA_EXHAUSTED'', Some ''BILLING_OR_CREDIT_EXHAUSTED'', Some ''AUTH_INVALID''} \<and>
     validation_for (at_id a) s = None \<and> report_for (at_id a) s \<noteq> None \<and>
     (\<exists>act. action_for (at_id a) s = Some act \<and> ra_type act = RA_BLOCK_PROVIDER)"

lemma failed_execution:
  assumes "en_execute env s a = Returned r ms" and "er_status r = Exec_FAILURE"
    and "os_attempts s = as @ [a]" and "at_id a \<notin> at_id ` set as"
  shows "\<exists>b t. run_executor env a s = ((Some r, Out_failed), t) \<and> os_attempts t = as @ [b] \<and> at_id b = at_id a \<and>
    at_status b = Attempt_FAILED \<and> at_error_type b = or_str (er_error_type r) (Some ''FAILURE'') \<and>
    os_run t = os_run s \<and> os_task t = os_task s \<and> same_rows s t"
proof -
  let ?t = "snd (run_executor env a s)"
  have t: "run_executor env a s = ((Some r, Out_failed), ?t)" using assms(1,2) by (simp add: run_executor_def)
  let ?b = "a\<lparr>at_status := Attempt_FAILED, at_duration := Some ms,
    at_error_type := or_str (er_error_type r) (Some ''FAILURE''),
    at_error_message := or_str (er_error_message r) (Some ''FAILURE''), at_output := er_output r,
    at_result := Some r, at_usage := er_usage r\<rparr>"
  have "os_attempts ?t = map (\<lambda>x. if at_id x = at_id a then ?b else x) (os_attempts s)"
    "os_run ?t = os_run s" "os_task ?t = os_task s" "same_rows s ?t"
    using assms(1,2) by (simp_all add: run_executor_def finalize_attempt_def executor_failed_def status_map_def Let_def same_rows_def)
  moreover from this(1) have "os_attempts ?t = as @ [?b]" using map_replace_last[OF assms(3,4), of ?b] by simp
  ultimately show ?thesis using t by (intro exI[of _ ?b] exI[of _ ?t]) simp
qed

text \<open>The second iteration finds the old report and the old action.\<close>

lemma stale_action_ends:
  assumes "rn_status (os_run s) = Run_RUNNING" and "\<not> en_workspace env" and "last_opt (os_attempts s) = Some b"
    and "at_status b = Attempt_FAILED" and "report_for (at_id b) s \<noteq> None"
    and "action_for (at_id b) s = Some act" and "ra_type act = RA_BLOCK_PROVIDER"
  shows "\<exists>t. continue_step env resume s = Leave (None, t) \<and> rn_status (os_run t) = Run_BLOCKED_PROVIDER \<and>
    os_attempts t = os_attempts s \<and> os_reports t = os_reports s"
proof -
  note rows = inspect_rows[OF assms(3), of False]
  have "decide False (inspect False s) = RETURN_TERMINAL"
    using assms rows by (auto simp: decide_def decide_recovery_def retry_actions_def)
  then show ?thesis
    using assms rows by (simp add: continue_step_def finish_from_state_def Let_def)
qed

lemma resume_native_step:
  assumes "rn_status (os_run s) = Run_RUNNING" and "\<not> en_workspace env" and "native (os_run s)"
    and "last_opt (os_attempts s) = Some a" and "at_status a = Attempt_RUNNING"
  shows "continue_step env resume s = carry_on (resume_native_attempt env a (validation_for (at_id a) s) s)"
proof -
  have "decide False (inspect False s) = RESUME_NATIVE_ATTEMPT" using assms by (simp add: decide_def)
  then show ?thesis using assms(2,4) inspect_rows[OF assms(4), of False] by (simp add: continue_step_def Let_def)
qed

lemma reopened:
  assumes "parked as a s" and "\<not> en_workspace env"
  shows "\<exists>t. resume_task env session True (Some True) s = resume_run env session t \<and>
    rn_status (os_run t) = Run_RUNNING \<and> native (os_run t) \<and>
    os_attempts t = as @ [a\<lparr>at_status := Attempt_RUNNING, at_error_type := None, at_error_message := None\<rparr>] \<and>
    os_validations t = os_validations s \<and> os_reports t = os_reports s \<and> os_actions t = os_actions s"
proof -
  let ?b = "a\<lparr>at_status := Attempt_RUNNING, at_error_type := None, at_error_message := None\<rparr>"
  let ?u = "unpark s"
  have n: "native (os_run ?u)" "os_attempts ?u = as @ [a]" "rn_status (os_run ?u) = Run_RUNNING"
    using assms by (simp_all add: parked_def unpark_def native_def Let_def)
  have "reopen_attempt ?u = put_attempt ?b ?u"
    using assms(1) n by (simp add: reopen_attempt_def parked_def)
  moreover have "os_attempts (put_attempt ?b ?u) = as @ [?b]"
    using n(2) assms(1) by (simp add: parked_def)
  moreover have "resume_task env session True (Some True) s = resume_run env session (reopen_attempt ?u)"
    using assms by (simp add: resume_task_def parked_def Let_def)
  ultimately show ?thesis
    using n by (intro exI[of _ "put_attempt ?b ?u"]) (simp add: unpark_def Let_def)
qed

section \<open>Properties\<close>

text \<open>A migrated attempt that fails again is blamed on the old provider. When a parked task is
  resumed under a new runtime target and the reopened attempt fails there for any reason, the
  run is parked as BLOCKED_PROVIDER once more, with the failure report of the first provider:
  the new failure is not classified, though the attempt carries its error.\<close>

theorem migrated_failure_not_reclassified:
  assumes "parked as a s" and "\<not> en_workspace env"
    and "\<And>u b. en_execute env u b = Returned r ms" and "er_status r = Exec_FAILURE"
  shows "\<exists>t. resume_task env session True (Some True) s = (None, t) \<and>
    rn_status (os_run t) = Run_BLOCKED_PROVIDER \<and> os_reports t = os_reports s \<and>
    at_error_type (last (os_attempts t)) = or_str (er_error_type r) (Some ''FAILURE'')"
proof -
  let ?b = "a\<lparr>at_status := Attempt_RUNNING, at_error_type := None, at_error_message := None\<rparr>"
  obtain u where u: "resume_task env session True (Some True) s = resume_run env session u"
    "rn_status (os_run u) = Run_RUNNING" "native (os_run u)" "os_attempts u = as @ [?b]"
    "os_validations u = os_validations s" "os_reports u = os_reports s" "os_actions u = os_actions s"
    using reopened[OF assms(1,2), of session] by blast
  let ?v = "log_event (Ev_Inner_Agent RUN_RESUME_STARTED) None
    [(''session_id'', PNone), (''control_intent'', PStr ''resume_run'')] u"
  let ?w = "log_event (Ev_Executor EXECUTOR_STARTED) (Some ?b)
    [(''executor'', PStr (en_executor_name env)), (''resume_same_attempt'', PBool True)] ?v"
  have run: "resume_task env session True (Some True) s = continue_run env True loop_guard ?v"
    using u(1,2,3) assms(2) by (simp add: resume_run_def Let_def)
  have none: "validation_for (at_id a) ?v = None"
    using assms(1) u(5) by (simp add: parked_def validation_for_def)
  obtain c t where c: "run_executor env ?b ?w = ((Some r, Out_failed), t)" "os_attempts t = as @ [c]" "at_id c = at_id a"
    "at_status c = Attempt_FAILED" "at_error_type c = or_str (er_error_type r) (Some ''FAILURE'')"
    "os_run t = os_run ?w" "same_rows ?w t"
    using failed_execution[of env ?w ?b r ms as] assms(1,3,4) u(4) by (auto simp: parked_def)
  have "resume_native_attempt env ?b (validation_for (at_id a) ?v) ?v = (None, t)"
    using c(1) u(3) none by (simp add: resume_native_attempt_def Let_def)
  then have s1: "continue_step env True ?v = Next t"
    using resume_native_step[of ?v env ?b True] u(2,3,4) assms(2) by (simp add: carry_on_def)
  obtain act where act: "action_for (at_id a) s = Some act" "ra_type act = RA_BLOCK_PROVIDER"
    using assms(1) by (auto simp: parked_def)
  have rows: "report_for (at_id c) t \<noteq> None" "action_for (at_id c) t = Some act"
    using assms(1) act(1) c(3,7) u(6,7) by (simp_all add: same_rows_def parked_def report_for_def action_for_def)
  obtain x where x: "continue_step env True t = Leave (None, x)" "rn_status (os_run x) = Run_BLOCKED_PROVIDER"
    "os_attempts x = os_attempts t" "os_reports x = os_reports t"
    using stale_action_ends[of t env c act True] c u(2) assms(2) rows act(2) by auto
  have "continue_run env True (Suc (Suc n)) ?v = (None, x)" for n using s1 x(1) by simp
  from this[of 254] have "continue_run env True loop_guard ?v = (None, x)" by (simp add: loop_guard_def numeral_eq_Suc)
  then show ?thesis using run x c u(6) by (simp add: same_rows_def)
qed

definition parked_attempt :: attempt where
  "parked_attempt = (new_attempt (sample_env (Wait_timeout 0)) 1
       (new_run (sample_env (Wait_timeout 0)) (sample_run ''NativeAgentExecutor'') (sample_task 3) [] 0))
     \<lparr>at_status := Attempt_FAILED, at_error_type := Some ''QUOTA_EXHAUSTED''\<rparr>"

definition parked_run :: run_state where
  "parked_run =
     (let s = new_run (sample_env (Wait_timeout 0)) (sample_run ''NativeAgentExecutor'') (sample_task 3) [] 0;
          i = at_id parked_attempt
      in put_run_status Run_BLOCKED_PROVIDER (s\<lparr>os_attempts := [parked_attempt],
           os_reports := [failure_report_of parked_attempt ''error: quota'' FC_EXECUTION
             (FT_QUOTA_EXHAUSTED, ''provider quota is exhausted for the selected route'', 1, ''switch provider route'')],
           os_actions := [\<lparr>ra_attempt = i, ra_type = RA_BLOCK_PROVIDER, ra_reason = ''blocked'', ra_policy = ''CP-2'',
             ra_from = 1, ra_to = None, ra_added = []\<rparr>]\<rparr>))"

theorem migrated_failure_not_reclassified_witness:
  "\<exists>t. resume_task (sample_env (Returned (plain_result Exec_FAILURE None (Some ''TOOL_ERROR'') None) 9)) None True (Some True)
       parked_run = (None, t) \<and>
     rn_status (os_run t) = Run_BLOCKED_PROVIDER \<and> at_error_type (last (os_attempts t)) = Some ''TOOL_ERROR''"
proof -
  let ?r = "plain_result Exec_FAILURE None (Some ''TOOL_ERROR'') None"
  let ?env = "sample_env (Returned ?r 9)"
  have "parked [] parked_attempt parked_run"
    by (simp add: parked_def parked_run_def parked_attempt_def new_run_def new_attempt_def sample_run_def native_def
      validation_for_def report_for_def action_for_def failure_report_of_def last_opt_def Let_def)
  moreover have "\<not> en_workspace ?env" "en_execute ?env u b = Returned ?r 9" for u b by (simp_all add: sample_env_def)
  moreover have "er_status ?r = Exec_FAILURE" "or_str (er_error_type ?r) (Some ''FAILURE'') = Some ''TOOL_ERROR''"
    by (simp_all add: plain_result_def or_str_def)
  ultimately show ?thesis using migrated_failure_not_reclassified[of "[]" parked_attempt parked_run ?env ?r 9 None] by auto
qed

end
