(* ===== verification/PhaseA.thy ===== *)
theory PhaseA imports RunEffects begin

text \<open>
  The phase A orchestrator (\<open>Orchestrator.execute_task\<close>): its loop ends within the attempts of
  the task, never by running out of attempts, and takes a cancelled execution for a failure.
\<close>

section \<open>One turn\<close>

lemma executor_keeps:
  "length (os_attempts (snd (run_executor env a s))) = length (os_attempts s)"
  "ta_max_attempts (os_task (snd (run_executor env a s))) = ta_max_attempts (os_task s)"
  using run_executor_effect[of a env s] by (auto simp: same_rows_def)

lemma executor_completed:
  "snd (fst (run_executor env a s)) = Out_completed \<longleftrightarrow> (\<exists>r ms. en_execute env s a = Returned r ms \<and> er_status r = Exec_SUCCESS)"
  by (auto simp: run_executor_def Let_def split: exec_outcome.split)

lemma executor_result:
  "snd (fst (run_executor env a s)) = Out_completed \<Longrightarrow> fst (fst (run_executor env a s)) \<noteq> None"
  by (auto simp: run_executor_def Let_def split: exec_outcome.splits if_splits)

text \<open>Whether the attempt ended the run, and with what status.\<close>

definition ended_as :: "run_status \<Rightarrow> task_status \<Rightarrow> run_state \<Rightarrow> bool" where
  "ended_as rs ts s \<longleftrightarrow> rn_status (os_run s) = rs \<and> ta_status (os_task s) = ts"

lemma start_keeps:
  "length (os_attempts (snd (phase_a_start env n s))) = Suc (length (os_attempts s))"
  "os_task (snd (phase_a_start env n s)) = os_task s"
  by (simp_all add: phase_a_start_def create_attempt_def Let_def)

lemma settle_keeps:
  "os_attempts (snd (phase_a_settle n a res out s)) = os_attempts s"
  "ta_max_attempts (os_task (snd (phase_a_settle n a res out s))) = ta_max_attempts (os_task s)"
  by (auto simp: phase_a_settle_def phase_a_complete_def phase_a_escalate_def phase_a_decide_def Let_def
    split: run_outcome.split option.split)

lemma settle_ended:
  assumes "out = Out_completed \<longrightarrow> res \<noteq> None"
  shows "fst (phase_a_settle n a res out s) \<longleftrightarrow> out = Out_completed \<or> ta_max_attempts (os_task s) \<le> n"
  using assms by (cases out) (auto simp: phase_a_settle_def phase_a_decide_def)

lemma settle_completed:
  "res \<noteq> None \<Longrightarrow> ended_as Run_COMPLETED Task_COMPLETED (snd (phase_a_settle n a res Out_completed s))"
  by (auto simp: phase_a_settle_def phase_a_complete_def ended_as_def Let_def)

lemma settle_escalated:
  assumes "out \<noteq> Out_completed" and "ta_max_attempts (os_task s) \<le> n"
  shows "ended_as Run_ESCALATED Task_ESCALATED (snd (phase_a_settle n a res out s))"
  using assms by (cases out) (simp_all add: phase_a_settle_def phase_a_escalate_def phase_a_decide_def ended_as_def)

text \<open>The executor's answer to the attempt of a turn.\<close>

definition turn_outcome :: "env \<Rightarrow> nat \<Rightarrow> run_state \<Rightarrow> run_outcome" where
  "turn_outcome env n s = (let (a, u) = phase_a_start env n s in snd (fst (run_executor env a u)))"

lemma phase_a_turn:
  shows "length (os_attempts (snd (phase_a_attempt env n s))) = Suc (length (os_attempts s))"
    and "ta_max_attempts (os_task (snd (phase_a_attempt env n s))) = ta_max_attempts (os_task s)"
    and "fst (phase_a_attempt env n s) \<longleftrightarrow> turn_outcome env n s = Out_completed \<or> ta_max_attempts (os_task s) \<le> n"
    and "turn_outcome env n s = Out_completed \<Longrightarrow> ended_as Run_COMPLETED Task_COMPLETED (snd (phase_a_attempt env n s))"
    and "turn_outcome env n s \<noteq> Out_completed \<Longrightarrow> ta_max_attempts (os_task s) \<le> n \<Longrightarrow>
      ended_as Run_ESCALATED Task_ESCALATED (snd (phase_a_attempt env n s))"
proof -
  obtain a u where au: "phase_a_start env n s = (a, u)" by (cases "phase_a_start env n s")
  obtain res out t where t: "run_executor env a u = ((res, out), t)" by (metis prod.collapse)
  have x: "phase_a_attempt env n s = phase_a_settle n a res out t" "turn_outcome env n s = out"
    using au t by (simp_all add: phase_a_attempt_def turn_outcome_def)
  have k: "length (os_attempts t) = Suc (length (os_attempts s))" "ta_max_attempts (os_task t) = ta_max_attempts (os_task s)"
    using executor_keeps[of env a u] start_keeps[of env n s] au t by simp_all
  have r: "out = Out_completed \<Longrightarrow> res \<noteq> None" using executor_result[of env a u] t by simp
  show "length (os_attempts (snd (phase_a_attempt env n s))) = Suc (length (os_attempts s))"
    "ta_max_attempts (os_task (snd (phase_a_attempt env n s))) = ta_max_attempts (os_task s)"
    using x settle_keeps k by simp_all
  show "fst (phase_a_attempt env n s) \<longleftrightarrow> turn_outcome env n s = Out_completed \<or> ta_max_attempts (os_task s) \<le> n"
    using settle_ended[of out res n a t] r x k by simp
  show "turn_outcome env n s = Out_completed \<Longrightarrow> ended_as Run_COMPLETED Task_COMPLETED (snd (phase_a_attempt env n s))"
    using settle_completed r x by simp
  show "turn_outcome env n s \<noteq> Out_completed \<Longrightarrow> ta_max_attempts (os_task s) \<le> n \<Longrightarrow>
      ended_as Run_ESCALATED Task_ESCALATED (snd (phase_a_attempt env n s))"
    using settle_escalated[of out t n] x k by simp
qed

section \<open>The loop\<close>

lemma phase_a_loop_ends:
  assumes "left = Suc m - n" and "n \<le> m" and "ta_max_attempts (os_task s) = m" and "length (os_attempts s) = n - 1" and "1 \<le> n"
  shows "let r = phase_a_loop env left n s in
     (ended_as Run_COMPLETED Task_COMPLETED r \<or> ended_as Run_ESCALATED Task_ESCALATED r \<and> length (os_attempts r) = m) \<and>
     1 \<le> length (os_attempts r) \<and> length (os_attempts r) \<le> m"
  using assms
proof (induction left arbitrary: n s)
  case (Suc k)
  note turn = phase_a_turn[of env n s]
  obtain e t where et: "phase_a_attempt env n s = (e, t)" by (cases "phase_a_attempt env n s")
  show ?case
  proof (cases e)
    case True
    then have r: "phase_a_loop env (Suc k) n s = t" using et by simp
    have "ended_as Run_COMPLETED Task_COMPLETED t \<or> ended_as Run_ESCALATED Task_ESCALATED t \<and> m \<le> n"
      "length (os_attempts t) = n"
      using turn et True Suc.prems(3-5) by auto
    then show ?thesis unfolding r Let_def using Suc.prems(2,5) by auto
  next
    case False
    with turn(3) et Suc.prems have n: "n < m" by simp
    have "let r = phase_a_loop env k (n + 1) t in
     (ended_as Run_COMPLETED Task_COMPLETED r \<or> ended_as Run_ESCALATED Task_ESCALATED r \<and> length (os_attempts r) = m) \<and>
     1 \<le> length (os_attempts r) \<and> length (os_attempts r) \<le> m"
      by (rule Suc.IH) (use Suc.prems n turn(1,2) et in simp_all)
    with False et show ?thesis by simp
  qed
qed simp

lemma phase_a_loop_cancelled:
  assumes "left = Suc m - n" and "n \<le> m" and "ta_max_attempts (os_task s) = m" and "length (os_attempts s) = n - 1" and "1 \<le> n"
    and "\<And>s a. \<exists>ft reason ev ms. en_execute env s a = Control_terminated ft reason ev ms"
  shows "let r = phase_a_loop env left n s in ended_as Run_ESCALATED Task_ESCALATED r \<and> length (os_attempts r) = m"
  using assms(1-5)
proof (induction left arbitrary: n s)
  case (Suc k)
  note turn = phase_a_turn[of env n s]
  obtain e t where et: "phase_a_attempt env n s = (e, t)" by (cases "phase_a_attempt env n s")
  have "snd (fst (run_executor env a u)) \<noteq> Out_completed" for a u
    using executor_completed[of env a u] assms(6)[of u a] by auto
  then have out: "turn_outcome env n s \<noteq> Out_completed" by (simp add: turn_outcome_def split: prod.split)
  show ?case
  proof (cases e)
    case True
    then have r: "phase_a_loop env (Suc k) n s = t" using et by simp
    have "ended_as Run_ESCALATED Task_ESCALATED t \<and> m \<le> n" "length (os_attempts t) = n"
      using turn et out True Suc.prems(3-5) by auto
    then show ?thesis unfolding r Let_def using Suc.prems(2) by simp
  next
    case False
    with turn(3) et Suc.prems have n: "n < m" by simp
    have "let r = phase_a_loop env k (n + 1) t in ended_as Run_ESCALATED Task_ESCALATED r \<and> length (os_attempts r) = m"
      by (rule Suc.IH) (use Suc.prems n turn(1,2) et in simp_all)
    with False et show ?thesis by simp
  qed
qed simp

lemma phase_a_prepared:
  assumes "ta_status t \<in> {Task_CREATED, Task_READY}"
  obtains s where "phase_a_execute_task env cfg t lg k = Some (phase_a_loop env (ta_max_attempts t) 1 s)"
    and "os_attempts s = []" and "ta_max_attempts (os_task s) = ta_max_attempts t"
  using assms by (intro that) (auto simp: phase_a_execute_task_def Let_def new_run_def)

section \<open>Properties\<close>

text \<open>The phase A loop is total. For a task that may start, with at least one attempt, it ends
  with run and task COMPLETED, or ESCALATED after exactly the attempts the task allows; the
  code after the loop, which would fail the run, is never reached.\<close>

theorem phase_a_ends:
  assumes "ta_status t \<in> {Task_CREATED, Task_READY}" and "1 \<le> ta_max_attempts t"
  shows "\<exists>s. phase_a_execute_task env cfg t lg k = Some s \<and>
    (rn_status (os_run s), ta_status (os_task s)) \<in> {(Run_COMPLETED, Task_COMPLETED), (Run_ESCALATED, Task_ESCALATED)} \<and>
    length (os_attempts s) \<in> {1..ta_max_attempts t} \<and>
    (rn_status (os_run s) = Run_COMPLETED \<or> length (os_attempts s) = ta_max_attempts t)"
proof -
  obtain s where s: "phase_a_execute_task env cfg t lg k = Some (phase_a_loop env (ta_max_attempts t) 1 s)"
    "os_attempts s = []" "ta_max_attempts (os_task s) = ta_max_attempts t" using phase_a_prepared[OF assms(1)] by blast
  from phase_a_loop_ends[of "ta_max_attempts t" "ta_max_attempts t" 1 s env] s assms(2) show ?thesis
    by (auto simp: Let_def ended_as_def)
qed

theorem phase_a_ends_witness:
  "\<exists>s. phase_a_execute_task (sample_env (Wait_timeout 3)) (sample_run ''Mock'') (sample_task 2) [] 0 = Some s \<and>
     length (os_attempts s) \<in> {1..2}"
  using phase_a_ends[of "sample_task 2" "sample_env (Wait_timeout 3)" "sample_run ''Mock''" "[]" 0]
  by (auto simp: sample_task_def)

text \<open>The phase A loop retries a cancelled execution. When the execution-control token stops
  every execution, each attempt cancels the run and its task, and the loop goes on regardless:
  it uses all attempts of the task and reports the cancelled run as ESCALATED.\<close>

theorem phase_a_overrides_cancellation:
  assumes "ta_status t \<in> {Task_CREATED, Task_READY}" and "1 \<le> ta_max_attempts t"
    and "\<And>s a. \<exists>ft reason ev ms. en_execute env s a = Control_terminated ft reason ev ms"
  shows "\<exists>s. phase_a_execute_task env cfg t lg k = Some s \<and> rn_status (os_run s) = Run_ESCALATED \<and>
    ta_status (os_task s) = Task_ESCALATED \<and> length (os_attempts s) = ta_max_attempts t"
proof -
  obtain s where s: "phase_a_execute_task env cfg t lg k = Some (phase_a_loop env (ta_max_attempts t) 1 s)"
    "os_attempts s = []" "ta_max_attempts (os_task s) = ta_max_attempts t" using phase_a_prepared[OF assms(1)] by blast
  from phase_a_loop_cancelled[of "ta_max_attempts t" "ta_max_attempts t" 1 s env] s assms(2,3) show ?thesis
    by (auto simp: Let_def ended_as_def)
qed

theorem phase_a_overrides_cancellation_witness:
  "\<exists>s. phase_a_execute_task (sample_env (Control_terminated ''CANCELLED'' ''stop'' [] 4)) (sample_run ''Mock'') (sample_task 2) [] 0 =
     Some s \<and> rn_status (os_run s) = Run_ESCALATED \<and> length (os_attempts s) = 2"
proof -
  let ?e = "sample_env (Control_terminated ''CANCELLED'' ''stop'' [] 4)"
  have "\<exists>ft reason ev ms. en_execute ?e s a = Control_terminated ft reason ev ms" for s a
    by (simp add: sample_env_def)
  then show ?thesis
    using phase_a_overrides_cancellation[of "sample_task 2" ?e "sample_run ''Mock''" "[]" 0] by (auto simp: sample_task_def)
qed

end
