(* ===== verification/ExecRows.thy ===== *)
theory ExecRows imports Failures RecoveryCtl RepairScope begin

text \<open>
  The execution tables the planning layer reads (\<open>persistence/repositories.py\<close>,
  \<open>persistence/phaseb_repos.py\<close>, \<open>native/persistence.py\<close>), the verifier of a claimed step
  (\<open>planning/verification.py\<close>) and the policy that turns durable evidence into a replan trigger
  (\<open>planning/replan_policy.py\<close>).

  \<^item> A table is the list of its rows in the order they were created, which is the order of the
    queries that sort by creation time.
  \<^item> The values stored under \<open>steps\<close> in an execution context are dicts, as the service writes
    them.
\<close>

section \<open>Tables\<close>

record exec_rows =
  xr_tasks :: "task list"
  xr_runs :: "run list"
  xr_attempts :: "attempt list"
  xr_reports :: "failure_report list"
  xr_validations :: "validation list"
  xr_signals :: "replan_signal list"

definition runs_of_task :: "string \<Rightarrow> exec_rows \<Rightarrow> run list" where
  "runs_of_task t x = [r \<leftarrow> xr_runs x. rn_task r = t]"

definition get_run :: "string \<Rightarrow> exec_rows \<Rightarrow> run option" where
  "get_run i x = List.find (\<lambda>r. rn_id r = i) (xr_runs x)"

definition attempts_of_run :: "string \<Rightarrow> exec_rows \<Rightarrow> attempt list" where
  "attempts_of_run r x = sort_key at_number [a \<leftarrow> xr_attempts x. at_run a = r]"

definition reports_of_attempt :: "string \<Rightarrow> exec_rows \<Rightarrow> failure_report list" where
  "reports_of_attempt a x = [r \<leftarrow> xr_reports x. fr_attempt r = a]"

definition validations_of_attempt :: "string \<Rightarrow> exec_rows \<Rightarrow> validation list" where
  "validations_of_attempt a x = [v \<leftarrow> xr_validations x. va_attempt v = a]"

definition signals_of_attempt :: "string \<Rightarrow> exec_rows \<Rightarrow> replan_signal list" where
  "signals_of_attempt a x = [s \<leftarrow> xr_signals x. rs_attempt s = a]"

definition signals_of_run :: "string \<Rightarrow> exec_rows \<Rightarrow> replan_signal list" where
  "signals_of_run r x = [s \<leftarrow> xr_signals x. rs_run s = r]"

text \<open>The signals of a run's attempts, attempt by attempt.\<close>

definition run_signals :: "string \<Rightarrow> exec_rows \<Rightarrow> replan_signal list" where
  "run_signals r x = concat (map (\<lambda>a. signals_of_attempt (at_id a) x) (attempts_of_run r x))"

definition run_reports :: "string \<Rightarrow> exec_rows \<Rightarrow> failure_report list" where
  "run_reports r x = concat (map (\<lambda>a. reports_of_attempt (at_id a) x) (attempts_of_run r x))"

definition check_dump :: "validation_check \<Rightarrow> pyval" where
  "check_dump c = PDict [(''name'', PStr (vc_name c)), (''passed'', PBool (vc_passed c)), (''detail'', opt_str (vc_detail c))]"

definition update_signal :: "replan_signal \<Rightarrow> exec_rows \<Rightarrow> exec_rows" where
  "update_signal s x =
     x\<lparr>xr_signals := map (\<lambda>t. if rs_id t = rs_id s
         then t\<lparr>rs_reason := rs_reason s, rs_scope := rs_scope s, rs_failed_node := rs_failed_node s,
                rs_evidence := rs_evidence s\<rparr> else t) (xr_signals x)\<rparr>"

section \<open>The workflow verifier\<close>

definition sub_dict :: "pydict \<Rightarrow> string \<Rightarrow> pydict" where
  "sub_dict d k = (case as_dict (dict_get_or d k (PDict [])) of None \<Rightarrow> [] | Some e \<Rightarrow> e)"

definition resolve_attempt_id :: "plan_step \<Rightarrow> exec_rows \<Rightarrow> string option" where
  "resolve_attempt_id s x =
     (case or_str (ps_task s) None of
        None \<Rightarrow> None
      | Some t \<Rightarrow>
          (let runs = runs_of_task t x in
           if runs = [] then None
           else let attempts = attempts_of_run (rn_id (last runs)) x in
                if attempts = [] then None else Some (at_id (last attempts))))"

definition step_record :: "plan_step \<Rightarrow> pydict" where
  "step_record s = sub_dict (sub_dict (ps_context s) ''steps'') (ps_id s)"

definition trusted_evidence :: "plan_step \<Rightarrow> pydict" where
  "trusted_evidence s =
     (if dict_get_or (step_record s) ''provenance'' (PStr []) \<noteq> PStr ''TOOL_CONTRACT_EVIDENCE'' then []
      else dict_merge (sub_dict (step_record s) ''output'') (sub_dict (step_record s) ''artifacts''))"

text \<open>The first key of the evidence that equals the criterion or is a prefix of it, in lower
  case, decides.\<close>

definition criterion_key :: "pydict \<Rightarrow> string \<Rightarrow> string option" where
  "criterion_key trusted criterion =
     List.find (\<lambda>k. casefold k = casefold criterion \<or> prefix (casefold k) (casefold criterion)) (map fst trusted)"

definition criterion_met :: "pydict \<Rightarrow> string \<Rightarrow> bool" where
  "criterion_met trusted criterion =
     (case criterion_key trusted criterion of
        None \<Rightarrow> False
      | Some k \<Rightarrow>
          if CHR '':'' \<in> set criterion
          then py_str (dict_get trusted k) = tl (dropWhile (\<lambda>c. c \<noteq> CHR '':'') criterion)
          else True)"

definition criterion_check :: "pydict \<Rightarrow> string \<Rightarrow> validation_check" where
  "criterion_check trusted criterion =
     (let met = criterion_met trusted criterion
      in \<lparr>vc_name = ''criterion:'' @ take 64 criterion, vc_passed = met,
          vc_detail = if met then None else Some (''criterion not verified by trusted evidence: '' @ criterion)\<rparr>)"

text \<open>The key between single quotes.\<close>

definition quoted :: "string \<Rightarrow> string" where
  "quoted k = (let q = char_of (39::nat) in q # k @ [q])"

definition effect_check :: "pydict \<Rightarrow> string \<times> pyval \<Rightarrow> validation_check" where
  "effect_check trusted kv =
     (case kv of (k, expected) \<Rightarrow>
        (case map_of trusted k of
           None \<Rightarrow> \<lparr>vc_name = ''effect:'' @ k, vc_passed = False,
              vc_detail = Some (''expected effect '' @ quoted k @ '' not found in trusted evidence'')\<rparr>
         | Some observed \<Rightarrow>
             (let ok = py_eq observed expected
              in \<lparr>vc_name = ''effect:'' @ k, vc_passed = ok,
                  vc_detail = if ok then None
                    else Some (''expected effect '' @ quoted k @ '': expected '' @ py_repr expected @
                               '', got '' @ py_repr observed)\<rparr>)))"

definition acceptance_checks :: "plan_step \<Rightarrow> validation_check list" where
  "acceptance_checks s =
     (let trusted = trusted_evidence s
      in \<lparr>vc_name = ''trusted_evidence_present'', vc_passed = trusted \<noteq> [],
          vc_detail = if trusted \<noteq> [] then None else Some ''no trusted evidence in execution_context''\<rparr> #
         map (criterion_check trusted) (ps_success_criteria s) @ map (effect_check trusted) (ps_effects s))"

text \<open>The verdict; \<open>vd_validation\<close> is the row that was written, with its id.\<close>

record verdict =
  vd_accepted :: bool
  vd_reason :: string
  vd_validation :: "(string \<times> validation) option"

definition build_verdict ::
  "string \<Rightarrow> plan_step \<Rightarrow> validation_check list \<Rightarrow> bool \<Rightarrow> string option \<Rightarrow> exec_rows \<Rightarrow> verdict \<times> exec_rows" where
  "build_verdict newid s checks ok reason x =
     (let why = (case reason of Some r \<Rightarrow> r | None \<Rightarrow> join ''; '' (map check_text checks))
      in case resolve_attempt_id s x of
           None \<Rightarrow> (\<lparr>vd_accepted = False,
             vd_reason = ''NO_PRODUCING_ATTEMPT: cannot resolve Attempt.id from step.task_id'', vd_validation = None\<rparr>, x)
         | Some a \<Rightarrow>
             (let v = \<lparr>va_attempt = a, va_passed = ok, va_level = ''V2_RULE'', va_checks = checks,
                       va_evidence = Some why, va_stdout = None\<rparr>
              in (\<lparr>vd_accepted = ok, vd_reason = why, vd_validation = Some (newid, v)\<rparr>,
                  x\<lparr>xr_validations := xr_validations x @ [v]\<rparr>)))"

definition verify_step :: "string \<Rightarrow> plan_step \<Rightarrow> exec_rows \<Rightarrow> verdict \<times> exec_rows" where
  "verify_step newid s x =
     (if ps_success_criteria s = [] \<and> ps_effects s = [] then
        build_verdict newid s
          [\<lparr>vc_name = ''acceptance_contract_present'', vc_passed = False,
            vc_detail = Some ''no success_criteria or expected_effects defined - cannot verify without explicit acceptance contract''\<rparr>]
          False (Some ''NO_ACCEPTANCE_CONTRACT: verification requires explicit success_criteria or expected_effects'') x
      else build_verdict newid s (acceptance_checks s) (list_all vc_passed (acceptance_checks s)) None x)"

section \<open>The replan trigger policy\<close>

record replan_trigger =
  tg_reason :: string
  tg_evidence :: pydict

definition typed_signals :: "replan_signal list \<Rightarrow> replan_signal list" where
  "typed_signals sigs = [s \<leftarrow> sigs. rs_reason s \<in> set typed_escalation_reasons]"

text \<open>The signals of the attempts, or else those recorded against the run.\<close>

definition control_signals :: "string \<Rightarrow> exec_rows \<Rightarrow> replan_signal list" where
  "control_signals run x =
     (let sigs = typed_signals (run_signals run x)
      in if sigs = [] then typed_signals (signals_of_run run x) else sigs)"

definition signal_trigger :: "plan_step \<Rightarrow> replan_signal \<Rightarrow> replan_trigger" where
  "signal_trigger s g =
     \<lparr>tg_reason = rs_reason g,
      tg_evidence = dict_merge [(''source'', PStr ''DURABLE_REPAIR_CONTROL_SIGNAL''), (''signal_id'', PStr (rs_id g)),
                                (''capability'', PStr (ps_capability s))] (rs_evidence g)\<rparr>"

definition report_text :: "failure_report list \<Rightarrow> string" where
  "report_text reports =
     join '' '' (map (\<lambda>r. upper (join '' '' [failure_type_value (fr_type r), failure_class_value (fr_class r),
                                       fr_summary r, fr_evidence r])) reports)"

text \<open>The failure signatures with their counts, in the order of first occurrence.\<close>

definition count_signatures :: "string list \<Rightarrow> (string \<times> nat) list" where
  "count_signatures sigs = fold (\<lambda>g d. AList.update g ((case map_of d g of None \<Rightarrow> 0 | Some n \<Rightarrow> n) + 1) d) sigs []"

definition failure_signature :: "plan_step \<Rightarrow> string \<Rightarrow> string" where
  "failure_signature s e = ps_id s @ ''|'' @ ps_capability s @ ''|'' @ e"

definition repeated_failure_threshold :: nat where
  "repeated_failure_threshold = 2"

definition rejected_validations :: "string \<Rightarrow> exec_rows \<Rightarrow> validation list" where
  "rejected_validations run x =
     concat (map (\<lambda>a. [v \<leftarrow> validations_of_attempt (at_id a) x. \<not> va_passed v]) (attempts_of_run run x))"

definition evaluate_trigger :: "plan_step \<Rightarrow> string \<Rightarrow> exec_rows \<Rightarrow> replan_trigger option" where
  "evaluate_trigger s run x =
     (let attempts = attempts_of_run run x;
          sigs = control_signals run x;
          errors = map (\<lambda>a. upper (str_or (at_error_type a))) attempts;
          reports = run_reports run x;
          body = report_text reports;
          rejected = rejected_validations run x;
          counts = count_signatures (map (failure_signature s) (filter (\<lambda>e. e \<noteq> []) errors))
      in if attempts = [] then None
         else if sigs \<noteq> [] then Some (signal_trigger s (last sigs))
         else if list_ex (\<lambda>e. e \<in> {''ASSUMPTION_INVALID'', ''INVALID_ASSUMPTION''}) errors \<or>
                 (contains ''ASSUMPTION'' body \<and> contains ''INVALID'' body) then
           Some \<lparr>tg_reason = ''INVALID_ASSUMPTION'',
             tg_evidence = [(''source'', PStr ''DURABLE_FAILURE_EVIDENCE''), (''capability'', PStr (ps_capability s)),
               (''error_types'', str_list errors), (''failure_report_count'', PInt (int (length reports)))]\<rparr>
         else if rejected \<noteq> [] then
           Some \<lparr>tg_reason = ''VALIDATOR_REJECTION'',
             tg_evidence = [(''source'', PStr ''DURABLE_VALIDATION''), (''capability'', PStr (ps_capability s)),
               (''validation_failure_count'', PInt (int (length rejected)))]\<rparr>
         else case List.find (\<lambda>(g, n). n \<ge> repeated_failure_threshold) counts of
           None \<Rightarrow> None
         | Some (g, n) \<Rightarrow>
             Some \<lparr>tg_reason = ''REPEATED_STEP_FAILURE'',
               tg_evidence = [(''source'', PStr ''DURABLE_ATTEMPT_HISTORY''), (''failure_signature'', PStr g),
                 (''failure_signature_count'', PInt (int n)),
                 (''threshold'', PInt (int repeated_failure_threshold))]\<rparr>)"

section \<open>Lemmas\<close>

lemma trusted_provenance:
  "trusted_evidence s \<noteq> [] \<Longrightarrow> dict_get_or (step_record s) ''provenance'' (PStr []) = PStr ''TOOL_CONTRACT_EVIDENCE''"
  by (auto simp: trusted_evidence_def split: if_splits)

lemma effect_check_passed:
  "vc_passed (effect_check d (k, e)) \<longleftrightarrow> (case map_of d k of None \<Rightarrow> False | Some v \<Rightarrow> py_eq v e)"
  by (simp add: effect_check_def Let_def split: option.split)

lemma criterion_check_passed [simp]: "vc_passed (criterion_check d c) = criterion_met d c"
  by (simp add: criterion_check_def Let_def)

lemma build_verdict_accepted:
  "vd_accepted (fst (build_verdict newid s checks ok reason x)) \<longleftrightarrow> ok \<and> resolve_attempt_id s x \<noteq> None"
  by (simp add: build_verdict_def Let_def split: option.split)

lemma acceptance_passed:
  "list_all vc_passed (acceptance_checks s) \<longleftrightarrow>
     trusted_evidence s \<noteq> [] \<and> list_all (criterion_met (trusted_evidence s)) (ps_success_criteria s) \<and>
     list_all (\<lambda>(k, e). case map_of (trusted_evidence s) k of None \<Rightarrow> False | Some v \<Rightarrow> py_eq v e) (ps_effects s)"
proof -
  have "(\<lambda>x. vc_passed (effect_check d x)) = (\<lambda>(k, e). case map_of d k of None \<Rightarrow> False | Some v \<Rightarrow> py_eq v e)" for d
    by (auto simp: fun_eq_iff effect_check_passed)
  then show ?thesis by (simp add: acceptance_checks_def Let_def list.pred_map comp_def)
qed

text \<open>The rows of one run.\<close>

definition rows_of_run :: "string \<Rightarrow> exec_rows \<Rightarrow> exec_rows" where
  "rows_of_run run x =
     (let attempts = [a \<leftarrow> xr_attempts x. at_run a = run]; ids = set (map at_id attempts)
      in x\<lparr>xr_tasks := [], xr_runs := [], xr_attempts := attempts,
           xr_reports := [r \<leftarrow> xr_reports x. fr_attempt r \<in> ids],
           xr_validations := [v \<leftarrow> xr_validations x. va_attempt v \<in> ids],
           xr_signals := [g \<leftarrow> xr_signals x. rs_attempt g \<in> ids \<or> rs_run g = run]\<rparr>)"

lemma attempts_rows_of_run [simp]: "attempts_of_run run (rows_of_run run x) = attempts_of_run run x"
  by (simp add: attempts_of_run_def rows_of_run_def Let_def)

lemma set_attempts_of_run: "set (attempts_of_run run x) = {a \<in> set (xr_attempts x). at_run a = run}"
  by (auto simp: attempts_of_run_def)

lemma attempt_rows_of_run:
  assumes "a \<in> set (attempts_of_run run x)"
  shows "signals_of_attempt (at_id a) (rows_of_run run x) = signals_of_attempt (at_id a) x"
    and "reports_of_attempt (at_id a) (rows_of_run run x) = reports_of_attempt (at_id a) x"
    and "validations_of_attempt (at_id a) (rows_of_run run x) = validations_of_attempt (at_id a) x"
proof -
  have "at_id a \<in> at_id ` {b \<in> set (xr_attempts x). at_run b = run}"
    using assms unfolding set_attempts_of_run by blast
  then show "signals_of_attempt (at_id a) (rows_of_run run x) = signals_of_attempt (at_id a) x"
    "reports_of_attempt (at_id a) (rows_of_run run x) = reports_of_attempt (at_id a) x"
    "validations_of_attempt (at_id a) (rows_of_run run x) = validations_of_attempt (at_id a) x"
    by (auto simp: signals_of_attempt_def reports_of_attempt_def validations_of_attempt_def rows_of_run_def Let_def
      intro!: filter_cong)
qed

lemma concat_attempt_rows:
  assumes "\<And>a. a \<in> set (attempts_of_run run x) \<Longrightarrow> f (at_id a) = g (at_id a)"
  shows "concat (map (\<lambda>a. f (at_id a)) (attempts_of_run run x)) = concat (map (\<lambda>a. g (at_id a)) (attempts_of_run run x))"
  using assms by (intro arg_cong[of _ _ concat] map_cong) simp_all

lemma run_signals_rows: "run_signals run (rows_of_run run x) = run_signals run x"
  unfolding run_signals_def attempts_rows_of_run by (rule concat_attempt_rows) (rule attempt_rows_of_run)

lemma run_reports_rows: "run_reports run (rows_of_run run x) = run_reports run x"
  unfolding run_reports_def attempts_rows_of_run by (rule concat_attempt_rows) (rule attempt_rows_of_run)

lemma signals_rows: "signals_of_run run (rows_of_run run x) = signals_of_run run x"
  by (auto simp: signals_of_run_def rows_of_run_def Let_def intro!: filter_cong)

lemma rejected_rows: "rejected_validations run (rows_of_run run x) = rejected_validations run x"
  unfolding rejected_validations_def attempts_rows_of_run
  by (rule arg_cong[of _ _ concat], rule map_cong) (simp_all add: attempt_rows_of_run)

section \<open>Properties\<close>

text \<open>What the verifier's verdict rests on. It accepts a claimed step exactly when the step has an
  acceptance contract and a producing attempt, its record says of itself that it is evidence of
  a tool contract, and that evidence meets every success criterion and equals every expected
  effect. The provenance mark is a field of the record like any other: whoever writes the record
  decides it.\<close>

theorem verified_iff_trusted_evidence:
  "vd_accepted (fst (verify_step newid s x)) \<longleftrightarrow>
     \<not> (ps_success_criteria s = [] \<and> ps_effects s = []) \<and> resolve_attempt_id s x \<noteq> None \<and>
     dict_get_or (step_record s) ''provenance'' (PStr []) = PStr ''TOOL_CONTRACT_EVIDENCE'' \<and>
     trusted_evidence s \<noteq> [] \<and> list_all (criterion_met (trusted_evidence s)) (ps_success_criteria s) \<and>
     list_all (\<lambda>(k, e). case map_of (trusted_evidence s) k of None \<Rightarrow> False | Some v \<Rightarrow> py_eq v e) (ps_effects s)"
  using trusted_provenance[of s]
  by (auto simp: verify_step_def build_verdict_accepted acceptance_passed)

text \<open>A criterion in prose is met by a key alone. When a success criterion has no colon and
  starts with the first key of the trusted evidence, it counts as met whatever the value of
  that key is.\<close>

theorem prose_criterion_ignores_value:
  assumes "CHR '':'' \<notin> set (k @ rest)"
  shows "criterion_met ((k, v) # d) (k @ rest)"
  using assms by (auto simp: criterion_met_def criterion_key_def casefold_def)

theorem prose_criterion_ignores_value_witness:
  "criterion_met [(''tests'', PBool False)] ''tests pass''"
  using prose_criterion_ignores_value[of "''tests''" "'' pass''" "PBool False" "[]"] by simp

text \<open>A replan is triggered by evidence of its own run only. The trigger of a step computed from
  all tables is the one computed from the attempts of the run, the reports, validations and
  signals of those attempts, and the signals recorded against the run.\<close>

theorem trigger_uses_own_run:
  "evaluate_trigger s run x = evaluate_trigger s run (rows_of_run run x)"
proof -
  have "control_signals run (rows_of_run run x) = control_signals run x"
    by (simp only: control_signals_def run_signals_rows signals_rows)
  then show ?thesis
    unfolding evaluate_trigger_def by (simp only: attempts_rows_of_run run_reports_rows rejected_rows)
qed

end
