(* ===== verification/PlanService.thy ===== *)
theory PlanService imports ExecRows Scheduler Replan Orchestrator begin

text \<open>
  \<open>PlanExecutionService\<close> (\<open>planning/service.py\<close>): the loop that releases the steps of a
  dependency plan, runs each of them under an orchestrator, verifies what it claims, and
  repairs or replans what fails. It composes the scheduler, the eligibility authority, the
  orchestrators, the repair scope, the trigger policy and the macro replan service.

  \<^item> The environment \<open>svc_env\<close> holds what the service is given: the planner, the registry, the
    verifier, the environment in which a step's orchestrator runs, the replan signals that a
    step's executor writes, the two budget guards (the answer to the n-th call), \<open>json.loads\<close>
    and \<open>float\<close>, and what other writers do to the plan tables while a replan is computed.
  \<^item> A step object is the element of the plan with its id; \<open>put_step\<close> writes it back.
  \<^item> The confidence (a float) and the creation time of a failure provenance are left out.
\<close>

section \<open>State\<close>

record svc_env =
  sn_sha :: "string \<Rightarrow> string"
  sn_enum :: "string set \<Rightarrow> string list"
  sn_planner :: "planner_input \<Rightarrow> plan"
  sn_others :: "plan_db \<Rightarrow> plan_db"
  sn_spec :: "string \<Rightarrow> (bool \<times> bool) option"
  sn_capabilities :: pyval
  sn_verifier :: "(string \<Rightarrow> plan_step \<Rightarrow> plan \<Rightarrow> exec_rows \<Rightarrow> verdict \<times> exec_rows) option"
  sn_orch :: "plan_step \<Rightarrow> plan \<Rightarrow> pydict \<Rightarrow> env"
  sn_cfg :: run
  sn_written :: "run_state \<Rightarrow> replan_signal list"
  sn_agent :: bool
  sn_json :: "string \<Rightarrow> pyval option"
  sn_float :: "pyval \<Rightarrow> rat"
  sn_new_id :: "nat \<Rightarrow> string"
  sn_repair_guard :: "(nat \<Rightarrow> bool) option"
  sn_replan_guard :: "(nat \<Rightarrow> bool) option"

record service =
  sv_db :: plan_db
  sv_rows :: exec_rows
  sv_log :: event_log
  sv_ctx :: pydict
  sv_exec :: pydict
  sv_ids :: nat
  sv_repair_calls :: nat
  sv_replan_calls :: nat
  sv_shared :: "string list"

datatype svc_error =
    Store_failed store_error
  | Unknown_capability string
  | Orchestrator_failed orch_error
  | Task_refused string
  | Comparison_failed
  | Unknown_dependency
  | Plan_not_found string
  | Step_not_found string
  | Unsupported_mode
  | Loop_out_of_fuel

type_synonym 'a svc = "(svc_error + 'a) \<times> service"

definition bind_svc :: "'a svc \<Rightarrow> ('a \<Rightarrow> service \<Rightarrow> 'b svc) \<Rightarrow> 'b svc" where
  "bind_svc r f = (case r of (Inl e, s) \<Rightarrow> (Inl e, s) | (Inr x, s) \<Rightarrow> f x s)"

definition say :: "event_type \<Rightarrow> pydict \<Rightarrow> service \<Rightarrow> service" where
  "say ty payload s = s\<lparr>sv_log := emit ty payload (sv_log s)\<rparr>"

definition save :: "plan \<Rightarrow> service \<Rightarrow> unit svc" where
  "save p s =
     (case plan_update p (sv_db s) of
        Inl e \<Rightarrow> (Inl (Store_failed e), s)
      | Inr db \<Rightarrow> (Inr (), s\<lparr>sv_db := db\<rparr>))"

text \<open>\<open>plans.get(plan.id) or plan\<close>.\<close>

definition reload :: "svc_env \<Rightarrow> plan \<Rightarrow> service \<Rightarrow> plan svc" where
  "reload n p s =
     (case plan_get (sn_sha n) (pl_id p) (sv_db s) of
        Inl e \<Rightarrow> (Inl (Store_failed e), s)
      | Inr None \<Rightarrow> (Inr p, s)
      | Inr (Some q) \<Rightarrow> (Inr q, s))"

definition put_step :: "plan_step \<Rightarrow> plan \<Rightarrow> plan" where
  "put_step x p = p\<lparr>pl_steps := map (\<lambda>y. if ps_id y = ps_id x then x else y) (pl_steps p)\<rparr>"

definition find_step :: "string \<Rightarrow> plan \<Rightarrow> plan_step option" where
  "find_step i p = List.find (\<lambda>x. ps_id x = i) (pl_steps p)"

definition move ::
  "step_status \<Rightarrow> string \<Rightarrow> pydict \<Rightarrow> plan_step \<Rightarrow> plan \<Rightarrow> service \<Rightarrow> plan_step \<times> plan \<times> service" where
  "move st reason extra x p s =
     (let (y, lg) = transition_step st reason (Some (pl_id p)) extra x (sv_log s)
      in (y, put_step y p, s\<lparr>sv_log := lg\<rparr>))"

section \<open>The context\<close>

definition flag :: "string \<Rightarrow> service \<Rightarrow> bool" where
  "flag k s \<longleftrightarrow> py_truthy (dict_get (sv_ctx s) k)"

abbreviation official :: "service \<Rightarrow> bool" where
  "official s \<equiv> flag ''official_benchmark_recovery'' s"

abbreviation external :: "service \<Rightarrow> bool" where
  "external s \<equiv> flag ''external_validator_authority'' s"

definition step_result :: "string \<Rightarrow> service \<Rightarrow> pydict" where
  "step_result i s = sub_dict (sub_dict (sv_exec s) ''steps'') i"

definition record_step :: "string \<Rightarrow> pydict \<Rightarrow> service \<Rightarrow> service" where
  "record_step i rec s =
     s\<lparr>sv_exec := AList.update ''steps'' (PDict (AList.update i (PDict rec) (sub_dict (sv_exec s) ''steps''))) (sv_exec s)\<rparr>"

definition set_runtime :: "string \<Rightarrow> pyval \<Rightarrow> service \<Rightarrow> service" where
  "set_runtime k v s =
     s\<lparr>sv_exec := AList.update ''runtime'' (PDict (AList.update k v (sub_dict (sv_exec s) ''runtime''))) (sv_exec s)\<rparr>"

text \<open>\<open>_mark_post_replan_execution\<close>.\<close>

definition mark_post_replan :: "service \<Rightarrow> service" where
  "mark_post_replan s0 =
     (let s = set_runtime ''execution_phase'' (PStr ''post_replan'')
            (s0\<lparr>sv_ctx := AList.update ''execution_phase'' (PStr ''post_replan'') (sv_ctx s0)\<rparr>)
      in if flag ''_external_validator_on_replan'' s then
           set_runtime ''external_validator_authority'' (PBool True)
             (s\<lparr>sv_ctx := AList.update ''external_validator_authority'' (PBool True) (sv_ctx s)\<rparr>)
         else s)"

text \<open>A linear plan copies only the outer dict of the execution context into a step, so the steps it
  dispatched since the last reload (\<open>sv_shared\<close>) see every later record.\<close>

definition share :: "plan \<Rightarrow> service \<Rightarrow> plan" where
  "share p s =
     p\<lparr>pl_steps := map (\<lambda>x. if ps_id x \<in> set (sv_shared s)
         then x\<lparr>ps_context := AList.update ''steps'' (PDict (sub_dict (sv_exec s) ''steps'')) (ps_context x)\<rparr>
         else x) (pl_steps p)\<rparr>"

text \<open>The record a finished step carries, or one made from its columns.\<close>

definition stored_record :: "plan_step \<Rightarrow> pydict" where
  "stored_record x =
     (case map_of (sub_dict (ps_context x) ''steps'') (ps_id x) of
        Some (PDict d) \<Rightarrow> d
      | _ \<Rightarrow> [(''capability'', PStr (ps_capability x)), (''output'', ps_output x), (''artifacts'', PDict []),
              (''usage'', PDict [])])"

definition py_count :: "pydict \<Rightarrow> string \<Rightarrow> int \<Rightarrow> int" where
  "py_count d k v = (case dict_get_or d k (PInt v) of PInt i \<Rightarrow> i | PBool b \<Rightarrow> (if b then 1 else 0) | _ \<Rightarrow> 0)"

section \<open>Failure provenance\<close>

primrec repair_scope_value :: "repair_scope \<Rightarrow> string" where
  "repair_scope_value LOCAL = ''LOCAL''"
| "repair_scope_value AFFECTED_SUBGRAPH = ''AFFECTED_SUBGRAPH''"
| "repair_scope_value MACRO_REPLAN = ''MACRO_REPLAN''"

definition provenance_dump ::
  "plan_step \<Rightarrow> plan \<Rightarrow> failure_class \<Rightarrow> failure_type \<Rightarrow> string option \<Rightarrow> pydict \<Rightarrow> string \<Rightarrow> string \<Rightarrow>
   string option \<Rightarrow> repair_scope \<Rightarrow> pydict"
where
  "provenance_dump x p fc ft task evidence a r v hint =
     [(''step_id'', PStr (ps_id x)), (''plan_id'', PStr (pl_id p)),
      (''failure_class'', PStr (failure_class_value fc)), (''failure_type'', PStr (failure_type_value ft)),
      (''task_id'', opt_str task), (''failure_evidence'', PDict evidence), (''attempt_id'', PStr a),
      (''run_id'', PStr r), (''validation_id'', opt_str v), (''repair_scope_hint'', PStr (repair_scope_value hint))]"

definition set_evidence :: "string \<Rightarrow> pyval \<Rightarrow> plan_step \<Rightarrow> plan_step" where
  "set_evidence k v x = x\<lparr>ps_evidence := AList.update k v (ps_evidence x)\<rparr>"

text \<open>\<open>_create_step_failure_provenance\<close>: from the latest report of the run, if there is one.\<close>

definition failure_provenance :: "plan_step \<Rightarrow> plan \<Rightarrow> string \<Rightarrow> service \<Rightarrow> plan_step \<times> plan \<times> service" where
  "failure_provenance x p run s =
     (let reports = run_reports run (sv_rows s)
      in if reports = [] then (x, p, s)
         else
           let r = last reports;
               downstream = list_ex (\<lambda>y. ps_id x \<in> set (ps_depends y)) [y \<leftarrow> pl_steps p. ps_id y \<noteq> ps_id x];
               hint = compute_repair_scope_hint (fr_class r) (fr_type r) downstream;
               y = set_evidence ''failure_provenance'' (PDict (provenance_dump x p (fr_class r) (fr_type r) None
                     [(''summary'', PStr (fr_summary r)), (''evidence'', PStr (fr_evidence r)),
                      (''suggested_recovery'', PStr (fr_suggested r))] (fr_attempt r) run None hint)) x
           in (y, put_step y p, say (Ev_Runtime STEP_FAILURE_PROVENANCE)
                [(''plan_id'', PStr (pl_id p)), (''step_id'', PStr (ps_id x)), (''run_id'', PStr run),
                 (''attempt_id'', PStr (fr_attempt r)), (''failure_class'', PStr (failure_class_value (fr_class r))),
                 (''failure_type'', PStr (failure_type_value (fr_type r))),
                 (''repair_scope_hint'', PStr (repair_scope_value hint))] s))"

definition step_provenance :: "plan_step \<Rightarrow> pydict option" where
  "step_provenance x = as_dict (dict_get (ps_evidence x) ''failure_provenance'')"

definition provenance_str :: "string \<Rightarrow> plan_step \<Rightarrow> string option" where
  "provenance_str k x = Option.bind (step_provenance x) (\<lambda>d. as_str (dict_get d k))"

text \<open>\<open>_resolve_verification_identity\<close>.\<close>

definition verification_identity ::
  "plan_step \<Rightarrow> (string \<times> validation) option \<Rightarrow> exec_rows \<Rightarrow> (run \<times> attempt) option" where
  "verification_identity x v rows =
     (case (v, or_str (ps_task x) None) of
        (Some (i, w), Some t) \<Rightarrow>
          if i = [] \<or> va_attempt w = [] then None
          else List.find (\<lambda>(r, a). at_id a = va_attempt w \<and> at_run a = rn_id r)
                 (concat (map (\<lambda>r. map (Pair r) (attempts_of_run (rn_id r) rows)) (runs_of_task t rows)))
      | _ \<Rightarrow> None)"

definition rejection_provenance ::
  "plan_step \<Rightarrow> plan \<Rightarrow> verdict \<Rightarrow> service \<Rightarrow> bool \<times> plan_step \<times> plan \<times> service" where
  "rejection_provenance x p v s =
     (case (verification_identity x (vd_validation v) (sv_rows s), vd_validation v) of
        (Some (r, a), Some (i, w)) \<Rightarrow>
          (let y = set_evidence ''failure_provenance'' (PDict (provenance_dump x p FC_DATA FT_VERIFICATION_REJECTED (ps_task x)
                 [(''verification_failure'', PBool True), (''validation_id'', PStr i),
                  (''verification_reason'', PStr (vd_reason v)), (''checks'', PList (map check_dump (va_checks w)))]
                 (at_id a) (rn_id r) (Some i) LOCAL)) x
           in (True, y, put_step y p, say (Ev_Runtime STEP_FAILURE_PROVENANCE)
                [(''plan_id'', PStr (pl_id p)), (''step_id'', PStr (ps_id x)), (''task_id'', opt_str (ps_task x)),
                 (''attempt_id'', PStr (at_id a)), (''run_id'', PStr (rn_id r)), (''validation_id'', PStr i),
                 (''failure_class'', PStr (failure_class_value FC_DATA)),
                 (''failure_type'', PStr (failure_type_value FT_VERIFICATION_REJECTED)),
                 (''repair_scope_hint'', PStr (repair_scope_value LOCAL))] s))
      | _ \<Rightarrow> (False, x, p, s))"

text \<open>\<open>_handle_verification_rejection\<close>: the scope, when the rejection could be attributed.\<close>

definition handle_rejection ::
  "plan_step \<Rightarrow> plan \<Rightarrow> verdict \<Rightarrow> service \<Rightarrow> repair_scope option \<times> plan_step \<times> plan \<times> service" where
  "handle_rejection x0 p0 v s0 =
     (let (x1, p1, s1) = move Step_CLASSIFIED_FAILURE ''verification_rejected'' [] x0 p0 s0;
          (known, x, p, s) = rejection_provenance x1 p1 v s1
      in if known then
           (Some (fst (compute_repair_scope x p (Some (failure_class_value FC_DATA))
              (Some (failure_type_value FT_VERIFICATION_REJECTED)))), x, p, s)
         else (None, x, p, s))"

section \<open>Local repair\<close>

text \<open>A guard answers its n-th call; without one nothing is refused.\<close>

definition ask_repair :: "svc_env \<Rightarrow> service \<Rightarrow> bool \<times> service" where
  "ask_repair n s =
     (case sn_repair_guard n of
        None \<Rightarrow> (True, s)
      | Some g \<Rightarrow> (g (sv_repair_calls s), s\<lparr>sv_repair_calls := sv_repair_calls s + 1\<rparr>))"

definition ask_replan :: "svc_env \<Rightarrow> service \<Rightarrow> bool \<times> service" where
  "ask_replan n s =
     (case sn_replan_guard n of
        None \<Rightarrow> (True, s)
      | Some g \<Rightarrow> (g (sv_replan_calls s), s\<lparr>sv_replan_calls := sv_replan_calls s + 1\<rparr>))"

text \<open>The attempt a repair descends from: the recorded one, that of the provenance, or the one that
  produced the failure.\<close>

definition original_attempt :: "plan_step \<Rightarrow> string option \<Rightarrow> string option" where
  "original_attempt x producing =
     (case dict_get (ps_evidence x) ''original_failure_attempt_id'' of
        PStr i \<Rightarrow> Some i
      | _ \<Rightarrow> (case provenance_str ''attempt_id'' x of Some i \<Rightarrow> Some i | None \<Rightarrow> producing))"

definition prepare_local_repair ::
  "svc_env \<Rightarrow> repair_scope \<Rightarrow> string option \<Rightarrow> plan_step \<Rightarrow> plan \<Rightarrow> service \<Rightarrow> bool \<times> plan_step \<times> plan \<times> service" where
  "prepare_local_repair n scope producing x p s0 =
     (let count = py_count (ps_evidence x) ''repair_attempt_count'' 0;
          (allowed, s) = ask_repair n s0;
          original = or_str (original_attempt x producing) None
      in if \<not> allowed then
           (False, x, p, say (Ev_Repair REPAIR_COMPLETED)
              [(''plan_id'', PStr (pl_id p)), (''repair_step_ids'', PList [PStr (ps_id x)]),
               (''outcome'', PStr ''BUDGET_EXHAUSTED''), (''error_type'', PStr ''REPAIR_BUDGET_EXHAUSTED''),
               (''repair_attempt_count'', PInt count)] s)
         else if count \<ge> py_count (ps_budget x) ''max_repair_attempts'' 3 \<or> original = None then (False, x, p, s)
         else
           let i = the original;
               y = set_evidence ''repair_pending'' (PDict
                     [(''original_failure_attempt_id'', PStr i), (''repair_number'', PInt (count + 1)),
                      (''repair_scope'', PStr (repair_scope_value scope))])
                   (set_evidence ''original_failure_attempt_id'' (PStr i)
                     (set_evidence ''repair_attempt_count'' (PInt (count + 1)) x));
               (z, q, t) = move Step_PENDING ''local_repair'' [] y p s
           in (True, z, q, t))"

text \<open>\<open>_finalize_inline_repair_lineage\<close>: False when the repair cannot be told from the original.\<close>

definition finalize_lineage :: "plan_step \<Rightarrow> plan \<Rightarrow> string \<Rightarrow> service \<Rightarrow> bool \<times> plan_step \<times> plan \<times> service" where
  "finalize_lineage x p run s =
     (let pending = sub_dict (ps_evidence x) ''repair_pending'';
          attempts = attempts_of_run run (sv_rows s);
          original = or_str (as_str (dict_get pending ''original_failure_attempt_id'')) None
      in if pending = [] then (True, x, p, s)
         else if attempts = [] \<or> original = None \<or> at_id (last attempts) = the original then (False, x, p, s)
         else
           let number = dict_get pending ''repair_number'';
               scope = dict_get_or pending ''repair_scope'' (PStr (repair_scope_value LOCAL));
               entry = [(''plan_id'', PStr (pl_id p)), (''step_id'', PStr (ps_id x)),
                        (''original_failure_attempt_id'', PStr (the original)),
                        (''repair_attempt_id'', PStr (at_id (last attempts))), (''repair_number'', number),
                        (''repair_scope'', scope)];
               lineage = (case dict_get (ps_evidence x) ''repair_lineage'' of PList l \<Rightarrow> l | _ \<Rightarrow> []);
               e = AList.update ''repair_scope'' scope (AList.update ''repair_number'' number
                     (AList.update ''repair_attempt_id'' (PStr (at_id (last attempts)))
                       (AList.update ''repair_lineage'' (PList (lineage @ [PDict entry])) (ps_evidence x))));
               y = x\<lparr>ps_evidence := AList.delete ''repair_pending'' e\<rparr>
           in (True, y, put_step y p,
               say (Ev_Repair REPAIR_COMPLETED) (entry @ [(''outcome'', PStr ''ATTEMPT_CREATED'')]) s))"

section \<open>Replan signals\<close>

definition bind_node :: "string \<Rightarrow> replan_signal \<Rightarrow> replan_signal" where
  "bind_node i g =
     g\<lparr>rs_failed_node := Some i,
       rs_evidence := dict_merge (rs_evidence g)
         [(''failed_node_id_bound_by'', PStr ''PlanExecutionService''), (''failed_node_id'', PStr i)]\<rparr>"

definition record_replan_signal :: "svc_env \<Rightarrow> plan_step \<Rightarrow> string \<Rightarrow> service \<Rightarrow> service" where
  "record_replan_signal n x run s =
     (let attempts = attempts_of_run run (sv_rows s); existing = run_signals run (sv_rows s)
      in if attempts = [] \<or> list_ex (\<lambda>g. rs_failed_node g = Some (ps_id x)) existing then s
         else if existing \<noteq> [] then
           s\<lparr>sv_rows := update_signal (bind_node (ps_id x) (last existing)) (sv_rows s)\<rparr>
         else case evaluate_trigger x run (sv_rows s) of
           None \<Rightarrow> s
         | Some t \<Rightarrow>
             (let g = \<lparr>rs_id = sn_new_id n (sv_ids s),
                       rs_task = (case get_run run (sv_rows s) of Some r \<Rightarrow> rn_task r | None \<Rightarrow> at_run (last attempts)),
                       rs_run = run, rs_attempt = at_id (last attempts), rs_reason = tg_reason t,
                       rs_scope = ''TASKGRAPH_NODE'', rs_failed_node = Some (ps_id x),
                       rs_evidence = dict_merge (tg_evidence t)
                         [(''objective'', PStr (ps_objective x)),
                          (''failure_provenance'', dict_get (ps_evidence x) ''failure_provenance'')]\<rparr>
              in say (Ev_Native REPLAN_SIGNAL_CREATED)
                   [(''signal_id'', PStr (rs_id g)), (''reason'', PStr (rs_reason g)), (''failed_node_id'', PStr (ps_id x))]
                   (s\<lparr>sv_rows := (sv_rows s)\<lparr>xr_signals := xr_signals (sv_rows s) @ [g]\<rparr>, sv_ids := sv_ids s + 1\<rparr>)))"

text \<open>The signals a replan of the run would consume, and the step they are bound to.\<close>

definition replan_signals :: "plan \<Rightarrow> string \<Rightarrow> exec_rows \<Rightarrow> replan_signal list" where
  "replan_signals p run rows =
     (let own = run_signals run rows; b = dict_get (pl_metadata p) ''benchmark_run_id''
      in if py_truthy b
         then own @ [g \<leftarrow> signals_of_run (py_str b) rows. rs_id g \<notin> set (map rs_id own)]
         else own)"

definition bound_step :: "plan \<Rightarrow> string \<Rightarrow> exec_rows \<Rightarrow> plan_step option" where
  "bound_step p run rows =
     (case get_run run rows of
        None \<Rightarrow> None
      | Some r \<Rightarrow> List.find (\<lambda>x. ps_task x = Some (rn_task r)) (pl_steps p))"

definition bind_signals :: "plan_step option \<Rightarrow> replan_signal list \<Rightarrow> exec_rows \<Rightarrow> replan_signal list \<times> exec_rows" where
  "bind_signals b sigs rows =
     (case b of
        None \<Rightarrow> (sigs, rows)
      | Some x \<Rightarrow>
          (map (\<lambda>g. if rs_failed_node g = None then bind_node (ps_id x) g else g) sigs,
           fold (\<lambda>g. update_signal (bind_node (ps_id x) g)) [g \<leftarrow> sigs. rs_failed_node g = None] rows))"

definition maybe_replan :: "svc_env \<Rightarrow> goal \<Rightarrow> plan \<Rightarrow> string \<Rightarrow> service \<Rightarrow> bool svc" where
  "maybe_replan n g p run s0 =
     (if official s0 then (Inr False, s0)
      else
        let (bound, rows) = bind_signals (bound_step p run (sv_rows s0)) (replan_signals p run (sv_rows s0)) (sv_rows s0);
            s1 = s0\<lparr>sv_rows := rows\<rparr>;
            sigs = [x \<leftarrow> bound. rs_id x \<notin> set (consumed_ids (pl_metadata p))]
        in if sigs = [] then (Inr False, s1)
           else
             let (allowed, s2) = ask_replan n s1
             in if \<not> allowed then
                  (Inr False, say (Ev_Runtime REPLAN_REJECTED)
                     [(''plan_id'', PStr (pl_id p)), (''reason'', PStr ''MACRO_REPLAN_RESERVE_EXHAUSTED''),
                      (''error_type'', PStr ''REPLAN_BUDGET_EXHAUSTED'')] s2)
                else
                  let (res, st) = consume (sn_sha n) (sn_enum n) (sn_planner n) (sn_others n) g p sigs
                        (AList.update ''capabilities'' (sn_capabilities n) (sv_ctx s2)) \<lparr>st_db = sv_db s2, st_log = sv_log s2\<rparr>;
                      s3 = s2\<lparr>sv_db := st_db st, sv_log := st_log st\<rparr>
                  in case res of
                       Inl e \<Rightarrow> (Inl (Store_failed e), s3)
                     | Inr rr \<Rightarrow>
                         if rr_accepted rr then
                           (Inr True, s3\<lparr>sv_ctx := AList.update ''execution_phase'' (PStr ''post_replan'') (sv_ctx s3)\<rparr>)
                         else (Inr False, s3))"

end
