(* ===== verification/PlanLoop.thy ===== *)
theory PlanLoop imports PlanService begin

text \<open>
  The dependency loop of \<open>PlanExecutionService\<close>: one round per authoritative schedule, one
  handler per ready step, and what happens to a step whose run failed or whose claim was
  rejected.
\<close>

section \<open>Running a step\<close>

text \<open>A handler goes on with the plan, returns it, or restarts with a fresh schedule.\<close>

datatype flow = Go plan | Stop plan | Restart

definition step_task :: "svc_env \<Rightarrow> goal \<Rightarrow> plan_step \<Rightarrow> service \<Rightarrow> task" where
  "step_task n g x s =
     \<lparr>ta_id = sn_new_id n (sv_ids s), ta_project = gl_project g, ta_title = ps_title x, ta_objective = ps_objective x,
      ta_constraints = gl_constraints g, ta_criteria = ps_success_criteria x, ta_status = Task_CREATED,
      ta_max_attempts = (if official s \<or> external s then 1 else 2),
      ta_timeout = (case map_of (sv_ctx s) ''timeout_seconds'' of None \<Rightarrow> 60 | Some v \<Rightarrow> sn_float n v)\<rparr>"

text \<open>What an orchestrator leaves in the tables.\<close>

definition absorb :: "svc_env \<Rightarrow> run_state \<Rightarrow> service \<Rightarrow> service" where
  "absorb n r s =
     s\<lparr>sv_rows := (sv_rows s)\<lparr>
         xr_tasks := map (\<lambda>t. if ta_id t = ta_id (os_task r) then os_task r else t) (xr_tasks (sv_rows s)),
         xr_runs := xr_runs (sv_rows s) @ [os_run r], xr_attempts := xr_attempts (sv_rows s) @ os_attempts r,
         xr_reports := xr_reports (sv_rows s) @ os_reports r,
         xr_validations := xr_validations (sv_rows s) @ os_validations r,
         xr_signals := xr_signals (sv_rows s) @ sn_written n r\<rparr>,
       sv_log := os_log r, sv_ids := os_ids r\<rparr>"

definition run_task :: "svc_env \<Rightarrow> plan_step \<Rightarrow> plan \<Rightarrow> task \<Rightarrow> service \<Rightarrow> run_state svc" where
  "run_task n x p t s =
     (let env = (sn_orch n x p (sv_ctx s))\<lparr>en_new_id := sn_new_id n\<rparr> in
      if external s then
        (case phase_a_execute_task env (sn_cfg n) t (sv_log s) (sv_ids s) of
           None \<Rightarrow> (Inl (Task_refused (ta_id t)), s)
         | Some r \<Rightarrow> (Inr r, absorb n r s))
      else
        (case execute_task env (sn_cfg n) t (sv_log s) (sv_ids s) of
           None \<Rightarrow> (Inl (Task_refused (ta_id t)), s)
         | Some (Some e, r) \<Rightarrow> (Inl (Orchestrator_failed e), absorb n r s)
         | Some (None, r) \<Rightarrow> (Inr r, absorb n r s)))"

text \<open>RUNNING, with its dependency context, its task and the stored plan.\<close>

definition dispatch :: "svc_env \<Rightarrow> goal \<Rightarrow> plan_step \<Rightarrow> plan \<Rightarrow> service \<Rightarrow> (plan_step \<times> plan \<times> task) svc" where
  "dispatch n g x0 p0 s0 =
     (let (x1, p1, s1) = move Step_RUNNING ''dispatch'' [] x0 p0 s0
      in case build_step_dependency_context p1 x1 (sv_exec s1) of
           None \<Rightarrow> (Inl Unknown_dependency, s1)
         | Some ctx \<Rightarrow>
             (let t = step_task n g x1 s1;
                  x = x1\<lparr>ps_context := ctx, ps_task := Some (ta_id t)\<rparr>;
                  p = put_step x p1;
                  s = say (Ev_Planning PLAN_STEP_STARTED)
                        [(''plan_id'', PStr (pl_id p)), (''step_id'', PStr (ps_id x)), (''task_id'', PStr (ta_id t))]
                        (s1\<lparr>sv_rows := (sv_rows s1)\<lparr>xr_tasks := xr_tasks (sv_rows s1) @ [t]\<rparr>, sv_ids := sv_ids s1 + 1\<rparr>)
              in bind_svc (save p s) (\<lambda>_ s. (Inr (x, p, t), s))))"

section \<open>Evidence\<close>

text \<open>\<open>_native_tool_contract_evidence\<close> and \<open>_step_evidence_record\<close>.\<close>

definition observation_evidence :: "pyval \<Rightarrow> pydict" where
  "observation_evidence v =
     (case v of
        PDict d \<Rightarrow> if dict_get d ''status'' = PStr ''SUCCESS'' then sub_dict d ''bounded_output'' else []
      | _ \<Rightarrow> [])"

definition native_evidence :: "exec_result option \<Rightarrow> pydict" where
  "native_evidence r =
     (case Option.bind r er_raw of
        None \<Rightarrow> []
      | Some raw \<Rightarrow> (case dict_get raw ''safe_trace'' of
            PList obs \<Rightarrow> fold (\<lambda>v d. dict_merge d (observation_evidence v)) obs []
          | _ \<Rightarrow> []))"

definition evidence_record :: "svc_env \<Rightarrow> plan_step \<Rightarrow> exec_result option \<Rightarrow> pydict" where
  "evidence_record n x r =
     (let native = native_evidence r
      in [(''capability'', PStr (ps_capability x)), (''output'', ps_output x),
          (''artifacts'', PDict (dict_merge (case r of None \<Rightarrow> [] | Some e \<Rightarrow> er_artifacts e) native)),
          (''usage'', PDict (case r of None \<Rightarrow> [] | Some e \<Rightarrow> er_usage e)),
          (''provenance'', PStr (if native \<noteq> [] \<or> \<not> sn_agent n then ''TOOL_CONTRACT_EVIDENCE'' else ''AGENT_CLAIM''))])"

text \<open>The output of the run, parsed as JSON when it is JSON text.\<close>

definition run_output :: "svc_env \<Rightarrow> run_state \<Rightarrow> pyval" where
  "run_output n r =
     (let out = (case rn_result (os_run r) of Some (PDict d) \<Rightarrow> dict_get d ''output'' | _ \<Rightarrow> PNone)
      in case out of PStr t \<Rightarrow> (case sn_json n t of None \<Rightarrow> out | Some v \<Rightarrow> v) | _ \<Rightarrow> out)"

section \<open>A failed run\<close>

definition fail_plan :: "plan \<Rightarrow> service \<Rightarrow> plan svc" where
  "fail_plan p s = (let q = p\<lparr>pl_status := Plan_FAILED\<rparr> in bind_svc (save q s) (\<lambda>_ s. (Inr q, s)))"

text \<open>The one recovery boundary of an official benchmark.\<close>

definition stop_official :: "plan_step \<Rightarrow> plan \<Rightarrow> service \<Rightarrow> flow svc" where
  "stop_official x p s =
     bind_svc (fail_plan p s) (\<lambda>q s. (Inr (Stop q), say (Ev_Repair REPAIR_COMPLETED)
       [(''plan_id'', PStr (pl_id p)), (''repair_step_ids'', PList [PStr (ps_id x)]), (''outcome'', PStr ''FAILED''),
        (''bounded_recovery'', PBool True)] s))"

definition save_and_go :: "plan \<Rightarrow> service \<Rightarrow> flow svc" where
  "save_and_go p s = bind_svc (save p s) (\<lambda>_ s. (Inr (Go p), s))"

definition signal_and_replan :: "svc_env \<Rightarrow> goal \<Rightarrow> plan_step \<Rightarrow> plan \<Rightarrow> string \<Rightarrow> service \<Rightarrow> flow svc" where
  "signal_and_replan n g x p run s =
     bind_svc (maybe_replan n g p run (record_replan_signal n x run s)) (\<lambda>accepted s.
       if accepted then (Inr Restart, mark_post_replan s) else save_and_go p s)"

definition failed_run :: "svc_env \<Rightarrow> goal \<Rightarrow> plan_step \<Rightarrow> plan \<Rightarrow> string \<Rightarrow> service \<Rightarrow> flow svc" where
  "failed_run n g x0 p0 run s0 =
     (let (x1, p1, s1) = move Step_FAILED ''run_failed'' [] x0 p0 s0;
          (x, p, s) = failure_provenance x1 p1 run (say (Ev_Planning PLAN_STEP_FAILED)
             [(''plan_id'', PStr (pl_id p1)), (''step_id'', PStr (ps_id x1)), (''run_id'', PStr run)] s1);
          (scope, affected) = compute_repair_scope x p (provenance_str ''failure_class'' x) (provenance_str ''failure_type'' x)
      in if official s then stop_official x p s
         else case scope of
           AFFECTED_SUBGRAPH \<Rightarrow>
             (let (invalidated, q, lg) = invalidate_affected_subgraph p [i \<leftarrow> affected. i \<noteq> ps_id x] (sv_log s);
                  q = q\<lparr>pl_invalidated := extend_new (pl_invalidated q) invalidated\<rparr>
              in save_and_go q (say (Ev_Planning PLAN_STEP_BLOCKED)
                   [(''plan_id'', PStr (pl_id p)), (''step_id'', PStr (ps_id x)),
                    (''repair_scope'', PStr ''AFFECTED_SUBGRAPH''), (''invalidated_step_ids'', str_list (sort invalidated))]
                   (s\<lparr>sv_log := lg\<rparr>)))
         | MACRO_REPLAN \<Rightarrow> signal_and_replan n g x p run s
         | LOCAL \<Rightarrow>
             (let attempts = attempts_of_run run (sv_rows s);
                  (prepared, y, q, t) = prepare_local_repair n LOCAL
                     (if attempts = [] then None else Some (at_id (last attempts))) x p s
              in if prepared then save_and_go q t else signal_and_replan n g y q run t))"

section \<open>A completed run\<close>

text \<open>The verification seam: without a verifier the claim waits.\<close>

definition verify_claim :: "svc_env \<Rightarrow> plan_step \<Rightarrow> plan \<Rightarrow> service \<Rightarrow> flow svc" where
  "verify_claim n x p s =
     (case sn_verifier n of
        None \<Rightarrow> (let (_, q, t) = move Step_WAITING_FOR_VERIFICATION ''no_verifier_configured'' [] x p s in save_and_go q t)
      | Some f \<Rightarrow>
          if external s then
            (let (_, q, t) = move Step_WAITING_FOR_VERIFICATION ''awaiting_external_validator'' [] x p s in save_and_go q t)
          else
            let (v, rows) = f (sn_new_id n (sv_ids s)) x p (sv_rows s);
                s = s\<lparr>sv_rows := rows, sv_ids := sv_ids s + 1\<rparr>
            in if vd_accepted v then
                 (let (_, q, t) = move Step_VERIFIED ''verification_accepted'' [] x p s in save_and_go q t)
               else
                 let (scope, y, q, t) = handle_rejection x p v s
                 in if official t then stop_official y q t
                    else if scope = Some LOCAL then
                      (let (_, _, q', t') = prepare_local_repair n LOCAL None y q t in save_and_go q' t')
                    else save_and_go q t)"

definition completed_run :: "svc_env \<Rightarrow> goal \<Rightarrow> plan_step \<Rightarrow> plan \<Rightarrow> run_state \<Rightarrow> service \<Rightarrow> flow svc" where
  "completed_run n g x0 p0 r s0 =
     bind_svc (maybe_replan n g p0 (rn_id (os_run r)) s0) (\<lambda>accepted s.
       if accepted then (Inr Restart, mark_post_replan s)
       else
         let run = rn_id (os_run r);
             attempts = attempts_of_run run (sv_rows s);
             x = x0\<lparr>ps_output := run_output n r\<rparr>;
             rec = evidence_record n x (if attempts = [] then None else at_result (last attempts));
             s = record_step (ps_id x) rec s
         in case build_step_dependency_context p0 x (sv_exec s) of
              None \<Rightarrow> (Inl Unknown_dependency, s)
            | Some ctx \<Rightarrow>
                let x = x\<lparr>ps_context := AList.update ''steps''
                          (PDict (AList.update (ps_id x) (PDict rec) (sub_dict ctx ''steps''))) ctx\<rparr>;
                    (x, p, s) = move Step_CLAIMED_COMPLETE ''run_completed'' [(''run_id'', PStr run)] x p0 s
                in verify_claim n x p (say (Ev_Planning PLAN_STEP_COMPLETED)
                     [(''plan_id'', PStr (pl_id p)), (''step_id'', PStr (ps_id x)), (''run_id'', PStr run)] s))"

section \<open>A ready step\<close>

definition gated :: "svc_env \<Rightarrow> goal \<Rightarrow> string list \<Rightarrow> plan_step \<Rightarrow> bool" where
  "gated n g approved x \<longleftrightarrow>
     ps_id x \<notin> set approved \<and>
     (case sn_spec n (ps_capability x) of
        None \<Rightarrow> False
      | Some (approval, side_effect) \<Rightarrow> approval \<or> gl_requires_approval g \<and> side_effect)"

definition run_step :: "svc_env \<Rightarrow> goal \<Rightarrow> plan_step \<Rightarrow> plan \<Rightarrow> service \<Rightarrow> flow svc" where
  "run_step n g x0 p0 s0 =
     bind_svc (dispatch n g x0 p0 s0) (\<lambda>(x1, p1, t) s1.
       bind_svc (run_task n x1 p1 t s1) (\<lambda>r s2.
         let (known, x, p, s) = finalize_lineage x1 p1 (rn_id (os_run r)) s2
         in if \<not> known then bind_svc (fail_plan p s) (\<lambda>q s. (Inr (Stop q), s))
            else if rn_status (os_run r) \<noteq> Run_COMPLETED then failed_run n g x p (rn_id (os_run r)) s
            else completed_run n g x p r s))"

definition ready_step :: "svc_env \<Rightarrow> goal \<Rightarrow> string list \<Rightarrow> plan_step \<Rightarrow> plan \<Rightarrow> service \<Rightarrow> flow svc" where
  "ready_step n g approved x p s0 =
     (let s = say (Ev_Planning PLAN_STEP_READY) [(''plan_id'', PStr (pl_id p)), (''step_id'', PStr (ps_id x))] s0 in
      if sn_spec n (ps_capability x) = None then (Inl (Unknown_capability (ps_capability x)), s)
      else if gated n g approved x then
        (let (_, q, t) = move Step_WAITING_FOR_HUMAN_APPROVAL ''human_approval_required'' [] x p s;
             q = q\<lparr>pl_status := Plan_WAITING_FOR_HUMAN_APPROVAL\<rparr>
         in save_and_go q (say (Ev_Inner_Agent HUMAN_APPROVAL_REQUIRED)
              [(''plan_id'', PStr (pl_id p)), (''step_id'', PStr (ps_id x)), (''capability'', PStr (ps_capability x))] t))
      else
        bind_svc (reload n p s) (\<lambda>current s.
          let by_id = index_steps (pl_steps current);
              ctx = [(''runtime'', PDict (AList.update ''goal_id'' (PStr (gl_id g)) (sv_ctx s))),
                     (''steps'', PDict (sub_dict (sv_exec s) ''steps''))]
          in case map_of by_id (ps_id x) of
               None \<Rightarrow> run_step n g x p s
             | Some y \<Rightarrow>
                 (case evaluate_step_eligibility y by_id ctx (Some (pl_id p)) DISPATCH (sv_log s) of
                    (Inl _, lg) \<Rightarrow> (Inl Comparison_failed, s\<lparr>sv_log := lg\<rparr>)
                  | (Inr (eligible, reason), lg) \<Rightarrow>
                      let s = s\<lparr>sv_log := lg\<rparr>
                      in if eligible then run_step n g x p s
                         else if contains ''precondition'' reason then
                           (let (_, q, t) = move Step_PRECONDITION_FAILED ''dispatch_precondition_failed'' [] x p s
                            in save_and_go q t)
                         else save_and_go p s)))"

section \<open>A round\<close>

text \<open>The ready steps of a schedule, by id: each is the plan's current step with that id.\<close>

fun ready_steps :: "svc_env \<Rightarrow> goal \<Rightarrow> string list \<Rightarrow> string list \<Rightarrow> plan \<Rightarrow> service \<Rightarrow> flow svc" where
  "ready_steps n g approved [] p s = (Inr (Go p), s)"
| "ready_steps n g approved (i # todo) p s =
     (case find_step i p of
        None \<Rightarrow> ready_steps n g approved todo p s
      | Some x \<Rightarrow> bind_svc (ready_step n g approved x p s) (\<lambda>f s.
          case f of Go q \<Rightarrow> ready_steps n g approved todo q s | Stop q \<Rightarrow> (Inr (Stop q), s) | Restart \<Rightarrow> (Inr Restart, s)))"

definition blockers :: "plan_step \<Rightarrow> plan \<Rightarrow> string list" where
  "blockers x p =
     [d \<leftarrow> ps_depends x. case find_step d p of None \<Rightarrow> False
        | Some y \<Rightarrow> ps_status y \<in> {Step_FAILED, Step_BLOCKED, Step_CLASSIFIED_FAILURE}]"

definition block_step :: "bool \<Rightarrow> plan_step \<Rightarrow> plan \<times> service \<Rightarrow> plan \<times> service" where
  "block_step report x st =
     (let (_, p, s) = move Step_BLOCKED ''dependency_failed'' [] x (fst st) (snd st)
      in (p, if report then say (Ev_Planning PLAN_STEP_BLOCKED)
               [(''plan_id'', PStr (pl_id p)), (''step_id'', PStr (ps_id x)), (''blocked_by_step_ids'', str_list (blockers x p))] s
             else s))"

datatype round = Again plan | Finished plan

definition finish_plan :: "plan_status \<Rightarrow> plan \<Rightarrow> (service \<Rightarrow> service) \<Rightarrow> service \<Rightarrow> round svc" where
  "finish_plan st p report s =
     (let q = p\<lparr>pl_status := st\<rparr> in bind_svc (save q s) (\<lambda>_ s. (Inr (Finished q), report s)))"

definition report_repair :: "string list \<Rightarrow> string \<Rightarrow> plan \<Rightarrow> service \<Rightarrow> service" where
  "report_repair repair outcome p s =
     (if repair = [] then s
      else say (Ev_Repair REPAIR_COMPLETED)
        [(''plan_id'', PStr (pl_id p)), (''repair_step_ids'', str_list (sort repair)), (''outcome'', PStr outcome)] s)"

definition any_status :: "step_status \<Rightarrow> plan \<Rightarrow> bool" where
  "any_status st p \<longleftrightarrow> list_ex (\<lambda>x. ps_status x = st) (pl_steps p)"

definition all_verified :: "plan \<Rightarrow> bool" where
  "all_verified p \<longleftrightarrow>
     list_all (\<lambda>x. ps_status x \<in> {Step_VERIFIED, Step_STALE}) (pl_steps p) \<and> any_status Step_VERIFIED p"

text \<open>The end of a round, from the schedule of the plan it left.\<close>

definition close_round :: "string list \<Rightarrow> schedule \<Rightarrow> plan \<Rightarrow> service \<Rightarrow> round svc" where
  "close_round repair sc p s =
     (let failed = say (Ev_Planning PLAN_FAILED) [(''plan_id'', PStr (pl_id p))] in
      if sc_ready sc = [] \<and> any_status Step_WAITING_FOR_HUMAN_APPROVAL p then
        finish_plan Plan_WAITING_FOR_HUMAN_APPROVAL p id s
      else if sc_ready sc = [] \<and> any_status Step_WAITING_FOR_VERIFICATION p then
        finish_plan Plan_WAITING_FOR_VERIFICATION p id s
      else if sc_ready sc = [] \<and> (sc_blocked sc \<noteq> [] \<or> sc_pending sc \<noteq> []) then
        (let (q, t) = fold (block_step False) (sc_blocked sc) (p, s) in finish_plan Plan_FAILED q failed t)
      else if sc_blocked sc \<noteq> [] \<or> sc_ready sc \<noteq> [] then (Inr (Again p), s)
      else if all_verified p then
        finish_plan Plan_COMPLETED p
          (report_repair repair ''SUCCESS'' p \<circ> say (Ev_Planning PLAN_COMPLETED) [(''plan_id'', PStr (pl_id p))]) s
      else finish_plan Plan_FAILED p (report_repair repair ''FAILED'' p \<circ> failed) s)"

definition plan_round ::
  "svc_env \<Rightarrow> goal \<Rightarrow> string list \<Rightarrow> string list \<Rightarrow> plan \<Rightarrow> service \<Rightarrow> round svc" where
  "plan_round n g approved repair p0 s0 =
     bind_svc (reload n p0 s0) (\<lambda>p1 s1.
       case calculate p1 of
         None \<Rightarrow> (Inl Comparison_failed, s1)
       | Some sc \<Rightarrow>
           let (p, s) = fold (block_step True) (sc_blocked sc) (p1, s1)
           in bind_svc (if sc_blocked sc = [] then (Inr (), s) else save p s) (\<lambda>_ s.
                bind_svc (ready_steps n g approved (map ps_id (sc_ready sc)) p s) (\<lambda>f s.
                  case f of
                    Stop q \<Rightarrow> (Inr (Finished q), s)
                  | Restart \<Rightarrow> (Inr (Again p), s)
                  | Go q \<Rightarrow> (case calculate q of
                      None \<Rightarrow> (Inl Comparison_failed, s)
                    | Some sc' \<Rightarrow> close_round repair sc' q s))))"

primrec plan_loop ::
  "svc_env \<Rightarrow> goal \<Rightarrow> string list \<Rightarrow> string list \<Rightarrow> nat \<Rightarrow> plan \<Rightarrow> service \<Rightarrow> plan svc" where
  "plan_loop n g approved repair 0 p s = (Inl Loop_out_of_fuel, s)"
| "plan_loop n g approved repair (Suc k) p s =
     bind_svc (plan_round n g approved repair p s) (\<lambda>r s.
       case r of Finished q \<Rightarrow> (Inr q, s) | Again q \<Rightarrow> plan_loop n g approved repair k q s)"

end
