(* ===== verification/PlanEntry.thy ===== *)
theory PlanEntry imports PlanLoop begin

text \<open>
  The entry points of \<open>PlanExecutionService\<close>: \<open>execute_goal\<close> with its linear loop, the prologue
  of the dependency loop, \<open>resume_after_approval\<close> and \<open>repair_after_failure\<close>.
\<close>

section \<open>Reloading claimed steps\<close>

text \<open>A step that was left CLAIMED_COMPLETE goes through the verification seam again. In the linear
  plan a rejection is only classified; in a dependency plan it may prepare a local repair.\<close>

definition deferred_claim :: "svc_env \<Rightarrow> bool \<Rightarrow> plan_step \<Rightarrow> plan \<Rightarrow> service \<Rightarrow> plan \<times> service" where
  "deferred_claim n lin x p0 s0 =
     (let s = record_step (ps_id x) (stored_record x) s0; p = share p0 s in
      case sn_verifier n of
        None \<Rightarrow> (let (_, q, t) = move Step_WAITING_FOR_VERIFICATION ''deferred_no_verifier'' [] x p s in (q, t))
      | Some f \<Rightarrow>
          if \<not> lin \<and> external s then
            (let (_, q, t) = move Step_WAITING_FOR_VERIFICATION ''awaiting_external_validator'' [] x p s in (q, t))
          else
            let (v, rows) = f (sn_new_id n (sv_ids s)) x p (sv_rows s);
                s = s\<lparr>sv_rows := rows, sv_ids := sv_ids s + 1\<rparr>
            in if vd_accepted v then
                 (let (_, q, t) = move Step_VERIFIED ''deferred_verification_accepted'' [] x p s in (q, t))
               else
                 let (scope, y, q, t) = handle_rejection x p v s
                 in if \<not> lin \<and> scope = Some LOCAL
                    then (let (_, _, q', t') = prepare_local_repair n LOCAL None y q t in (q', t'))
                    else (q, t))"

section \<open>The dependency plan\<close>

definition repairable :: "step_status set" where
  "repairable = {Step_FAILED, Step_CLASSIFIED_FAILURE, Step_BLOCKED, Step_STALE, Step_PRECONDITION_FAILED}"

text \<open>The repair targets and the steps they blocked are PENDING again.\<close>

definition invalidate_target :: "string list \<Rightarrow> string \<Rightarrow> plan \<times> service \<Rightarrow> plan \<times> service" where
  "invalidate_target repair i st =
     (case find_step i (fst st) of
        None \<Rightarrow> st
      | Some x \<Rightarrow>
          if i \<in> set repair \<and> ps_status x \<in> repairable then
            (let (_, p, s) = move Step_PENDING ''repair_invalidation'' [] x (fst st) (snd st)
             in (p, say (Ev_Repair REPAIR_STEP_INVALIDATED) [(''plan_id'', PStr (pl_id p)), (''step_id'', PStr i)] s))
          else st)"

definition unblock_dependent :: "string list \<Rightarrow> string \<Rightarrow> plan \<times> service \<Rightarrow> plan \<times> service" where
  "unblock_dependent repair i st =
     (case find_step i (fst st) of
        None \<Rightarrow> st
      | Some x \<Rightarrow>
          if ps_status x = Step_BLOCKED \<and> list_ex (\<lambda>d. d \<in> set repair) (ps_depends x) then
            (let (_, p, s) = move Step_PENDING ''repair_unblock_dependent'' [] x (fst st) (snd st) in (p, s))
          else st)"

definition repair_started :: "plan \<Rightarrow> bool" where
  "repair_started p \<longleftrightarrow> py_truthy (dict_get (pl_metadata p) ''official_repair_execution_started'')"

definition reentry_blocked :: "plan \<Rightarrow> string list \<Rightarrow> service \<Rightarrow> service" where
  "reentry_blocked p repair s =
     say (Ev_Repair REPAIR_COMPLETED)
       [(''plan_id'', PStr (pl_id p)), (''repair_step_ids'', str_list repair), (''outcome'', PStr ''REENTRY_BLOCKED''),
        (''bounded_recovery'', PBool True)] s"

definition repair_mode :: "string list \<Rightarrow> plan \<Rightarrow> service \<Rightarrow> flow svc" where
  "repair_mode repair p0 s0 =
     (if repair = [] then (Inr (Go p0), s0)
      else if official s0 \<and> repair_started p0 then
        bind_svc (fail_plan p0 (reentry_blocked p0 (sort repair) s0)) (\<lambda>q s. (Inr (Stop q), s))
      else
        let p1 = (if official s0
                  then p0\<lparr>pl_metadata := AList.update ''official_repair_execution_started'' (PBool True) (pl_metadata p0)\<rparr>
                  else p0)
        in bind_svc (if official s0 then save p1 s0 else (Inr (), s0)) (\<lambda>_ s1.
             let s = say (Ev_Repair REPAIR_STARTED) [(''plan_id'', PStr (pl_id p1)), (''repair_step_ids'', str_list (sort repair))] s1;
                 ids = map ps_id (pl_steps p1);
                 (p, s) = fold (unblock_dependent repair) ids (fold (invalidate_target repair) ids (p1, s))
             in save_and_go p s))"

text \<open>Approvals are granted, finished steps contribute their records, claims are verified.\<close>

definition reload_step :: "svc_env \<Rightarrow> string list \<Rightarrow> string \<Rightarrow> plan \<times> service \<Rightarrow> plan \<times> service" where
  "reload_step n approved i st =
     (case find_step i (fst st) of
        None \<Rightarrow> st
      | Some x0 \<Rightarrow>
          let (x, p, s) = (if i \<in> set approved \<and> ps_status x0 = Step_WAITING_FOR_HUMAN_APPROVAL
                           then move Step_PENDING ''human_approval_granted'' [] x0 (fst st) (snd st)
                           else (x0, fst st, snd st))
          in if ps_status x \<in> terminal_verified then (p, record_step i (stored_record x) s)
             else if ps_status x = Step_CLAIMED_COMPLETE then deferred_claim n False x p s
             else (p, s))"

definition dependency_plan ::
  "svc_env \<Rightarrow> goal \<Rightarrow> string list \<Rightarrow> string list \<Rightarrow> nat \<Rightarrow> plan \<Rightarrow> service \<Rightarrow> plan svc" where
  "dependency_plan n g approved repair fuel p0 s0 =
     (let s = s0\<lparr>sv_exec := [(''runtime'', PDict (AList.update ''goal_id'' (PStr (gl_id g)) (sv_ctx s0))), (''steps'', PDict [])], sv_shared := []\<rparr>
      in bind_svc (repair_mode repair p0 s) (\<lambda>f s.
        case f of
          Go p1 \<Rightarrow>
            (let (p, s) = fold (reload_step n approved) (map ps_id (pl_steps p1)) (p1, s)
             in bind_svc (save p s) (\<lambda>_ s. plan_loop n g approved repair fuel p s))
        | Stop q \<Rightarrow> (Inr q, s)
        | Restart \<Rightarrow> plan_loop n g approved repair fuel p0 s))"

section \<open>The linear plan\<close>

definition linear_skip :: "step_status set" where
  "linear_skip = {Step_COMPLETED, Step_VERIFIED, Step_STALE, Step_BLOCKED, Step_CLASSIFIED_FAILURE, Step_FAILED,
     Step_PRECONDITION_FAILED, Step_WAITING_FOR_VERIFICATION}"

text \<open>Why an ineligible step cannot run decides the status it gets.\<close>

definition ineligible_status :: "string \<Rightarrow> step_status" where
  "ineligible_status reason =
     (if contains ''not_verified'' reason \<or> contains ''not_all_deps'' reason then Step_BLOCKED
      else if contains ''precondition'' (casefold reason) then Step_PRECONDITION_FAILED
      else if contains ''stale'' (casefold reason) then Step_STALE
      else Step_BLOCKED)"

definition linear_dispatch :: "svc_env \<Rightarrow> goal \<Rightarrow> plan_step \<Rightarrow> plan \<Rightarrow> service \<Rightarrow> (plan_step \<times> plan \<times> task) svc" where
  "linear_dispatch n g x0 p0 s0 =
     (let t = (step_task n g x0 s0)\<lparr>ta_timeout := 60\<rparr>;
          x1 = x0\<lparr>ps_context := sv_exec s0, ps_task := Some (ta_id t)\<rparr>;
          s1 = s0\<lparr>sv_rows := (sv_rows s0)\<lparr>xr_tasks := xr_tasks (sv_rows s0) @ [t]\<rparr>, sv_ids := sv_ids s0 + 1,
                     sv_shared := ps_id x0 # sv_shared s0\<rparr>;
          (x, p, s2) = move Step_RUNNING ''dispatch'' [] x1 p0 s1;
          s = say (Ev_Planning PLAN_STEP_STARTED)
                [(''plan_id'', PStr (pl_id p)), (''step_id'', PStr (ps_id x)), (''task_id'', PStr (ta_id t))] s2
      in bind_svc (save p s) (\<lambda>_ s. (Inr (x, p, t), s)))"

text \<open>\<open>context or {}\<close>: an empty context is not the dict a replan writes its phase to.\<close>

definition linear_replan :: "svc_env \<Rightarrow> goal \<Rightarrow> plan \<Rightarrow> string \<Rightarrow> service \<Rightarrow> bool svc" where
  "linear_replan n g p run s0 =
     bind_svc (maybe_replan n g p run s0) (\<lambda>accepted s. (Inr accepted, if sv_ctx s0 = [] then s\<lparr>sv_ctx := []\<rparr> else s))"

definition linear_failed :: "svc_env \<Rightarrow> goal \<Rightarrow> plan_step \<Rightarrow> plan \<Rightarrow> string \<Rightarrow> service \<Rightarrow> flow svc" where
  "linear_failed n g x0 p0 run s0 =
     (let (x1, p1, s1) = move Step_FAILED ''run_failed'' [] x0 p0 s0;
          (x, p, s) = failure_provenance x1 p1 run (say (Ev_Planning PLAN_STEP_FAILED)
             [(''plan_id'', PStr (pl_id p1)), (''step_id'', PStr (ps_id x1)), (''run_id'', PStr run)] s1)
      in bind_svc (linear_replan n g p run (record_replan_signal n x run s)) (\<lambda>accepted s.
           if accepted then (Inr Restart, s)
           else bind_svc (fail_plan p s) (\<lambda>q s.
             (Inr (Stop q), say (Ev_Planning PLAN_FAILED) [(''plan_id'', PStr (pl_id p))] s))))"

definition linear_verify :: "svc_env \<Rightarrow> plan_step \<Rightarrow> plan \<Rightarrow> service \<Rightarrow> flow svc" where
  "linear_verify n x p s =
     (case sn_verifier n of
        None \<Rightarrow> (let (_, q, t) = move Step_WAITING_FOR_VERIFICATION ''no_verifier_configured'' [] x p s in save_and_go q t)
      | Some f \<Rightarrow>
          (let (v, rows) = f (sn_new_id n (sv_ids s)) x p (sv_rows s);
               s = s\<lparr>sv_rows := rows, sv_ids := sv_ids s + 1\<rparr>
           in if vd_accepted v then
                (let (_, q, t) = move Step_VERIFIED ''verification_accepted'' [] x p s in save_and_go q t)
              else let (_, _, q, t) = handle_rejection x p v s in save_and_go q t))"

definition linear_completed :: "svc_env \<Rightarrow> goal \<Rightarrow> plan_step \<Rightarrow> plan \<Rightarrow> run_state \<Rightarrow> service \<Rightarrow> flow svc" where
  "linear_completed n g x0 p0 r s0 =
     bind_svc (linear_replan n g p0 (rn_id (os_run r)) s0) (\<lambda>accepted s.
       if accepted then (Inr Restart, s)
       else
         let run = rn_id (os_run r);
             attempts = attempts_of_run run (sv_rows s);
             x = x0\<lparr>ps_output := run_output n r\<rparr>;
             rec = evidence_record n x (if attempts = [] then None else at_result (last attempts));
             s = record_step (ps_id x) rec s;
             s = s\<lparr>sv_exec := AList.update (ps_capability x) (PDict rec) (sv_exec s)\<rparr>;
             x = x\<lparr>ps_context := sv_exec s\<rparr>;
             (x, p, s) = move Step_CLAIMED_COMPLETE ''run_completed'' [(''run_id'', PStr run)] x (share p0 s) s
         in linear_verify n x p (say (Ev_Planning PLAN_STEP_COMPLETED)
              [(''plan_id'', PStr (pl_id p)), (''step_id'', PStr (ps_id x)), (''run_id'', PStr run), (''output'', ps_output x)] s))"

definition linear_step :: "svc_env \<Rightarrow> goal \<Rightarrow> string list \<Rightarrow> plan_step \<Rightarrow> plan \<Rightarrow> service \<Rightarrow> flow svc" where
  "linear_step n g approved x p s =
     (if ps_status x \<in> linear_skip then
        (if ps_status x \<in> terminal_verified
         then (let t = record_step (ps_id x) (stored_record x) s in (Inr (Go (share p t)), t))
         else (Inr (Go p), s))
      else if ps_status x = Step_CLAIMED_COMPLETE then
        (let (q, t) = deferred_claim n True x p s in save_and_go q t)
      else
        (case fst (evaluate_step_eligibility x (index_steps (pl_steps p)) [] None DISPATCH (sv_log s)) of
           Inl _ \<Rightarrow> (Inl Comparison_failed, s)
         | Inr (False, reason) \<Rightarrow>
             (let (_, q, t) = move (ineligible_status reason) reason [] x p s in save_and_go q t)
         | Inr (True, _) \<Rightarrow>
             if sn_spec n (ps_capability x) = None then (Inl (Unknown_capability (ps_capability x)), s)
             else if gated n g approved x then
               (let (_, q, t) = move Step_WAITING_FOR_HUMAN_APPROVAL ''human_approval_required'' [] x p s;
                    q = q\<lparr>pl_status := Plan_WAITING_FOR_HUMAN_APPROVAL\<rparr>
                in bind_svc (save q (say (Ev_Inner_Agent HUMAN_APPROVAL_REQUIRED)
                     [(''plan_id'', PStr (pl_id p)), (''step_id'', PStr (ps_id x)), (''capability'', PStr (ps_capability x))] t))
                     (\<lambda>_ t. (Inr (Stop q), t)))
             else
               bind_svc (linear_dispatch n g x p s) (\<lambda>(x, p, t) s.
                 bind_svc (run_task n x p t s) (\<lambda>r s.
                   if rn_status (os_run r) \<noteq> Run_COMPLETED then linear_failed n g x p (rn_id (os_run r)) s
                   else linear_completed n g x p r s))))"

fun linear_steps :: "svc_env \<Rightarrow> goal \<Rightarrow> string list \<Rightarrow> string list \<Rightarrow> plan \<Rightarrow> service \<Rightarrow> flow svc" where
  "linear_steps n g approved [] p s = (Inr (Go p), s)"
| "linear_steps n g approved (i # todo) p s =
     (case find_step i p of
        None \<Rightarrow> linear_steps n g approved todo p s
      | Some x \<Rightarrow> bind_svc (linear_step n g approved x p s) (\<lambda>f s.
          case f of Go q \<Rightarrow> linear_steps n g approved todo q s | Stop q \<Rightarrow> (Inr (Stop q), s) | Restart \<Rightarrow> (Inr Restart, s)))"

definition linear_close :: "plan \<Rightarrow> service \<Rightarrow> round svc" where
  "linear_close p s =
     (if all_verified p then
        finish_plan Plan_COMPLETED p (say (Ev_Planning PLAN_COMPLETED) [(''plan_id'', PStr (pl_id p))]) s
      else if any_status Step_WAITING_FOR_VERIFICATION p then finish_plan Plan_WAITING_FOR_VERIFICATION p id s
      else finish_plan Plan_FAILED p (say (Ev_Planning PLAN_FAILED) [(''plan_id'', PStr (pl_id p))]) s)"

primrec linear_loop :: "svc_env \<Rightarrow> goal \<Rightarrow> string list \<Rightarrow> nat \<Rightarrow> plan \<Rightarrow> service \<Rightarrow> plan svc" where
  "linear_loop n g approved 0 p s = (Inl Loop_out_of_fuel, s)"
| "linear_loop n g approved (Suc k) p s =
     bind_svc (reload n p s) (\<lambda>p s.
       bind_svc (linear_steps n g approved (map ps_id (pl_steps p)) p (s\<lparr>sv_shared := []\<rparr>)) (\<lambda>f s.
         case f of
           Stop q \<Rightarrow> (Inr q, s)
         | Restart \<Rightarrow> linear_loop n g approved k p s
         | Go q \<Rightarrow> bind_svc (reload n q s) (\<lambda>q s.
             bind_svc (linear_close q s) (\<lambda>r s. case r of Finished q \<Rightarrow> (Inr q, s) | Again q \<Rightarrow> (Inr q, s)))))"

section \<open>Goals\<close>

definition plan_mode_value :: "plan_mode \<Rightarrow> string" where
  "plan_mode_value m = (case m of LINEAR \<Rightarrow> ''LINEAR'' | SIMPLE_DEPENDENCY \<Rightarrow> ''SIMPLE_DEPENDENCY'')"

primrec plan_status_value :: "plan_status \<Rightarrow> string" where
  "plan_status_value Plan_DRAFT = ''DRAFT''"
| "plan_status_value Plan_READY = ''READY''"
| "plan_status_value Plan_RUNNING = ''RUNNING''"
| "plan_status_value Plan_COMPLETED = ''COMPLETED''"
| "plan_status_value Plan_FAILED = ''FAILED''"
| "plan_status_value Plan_WAITING_FOR_HUMAN_APPROVAL = ''WAITING_FOR_HUMAN_APPROVAL''"
| "plan_status_value Plan_WAITING_FOR_VERIFICATION = ''WAITING_FOR_VERIFICATION''"

definition dump_goal :: "goal \<Rightarrow> pyval" where
  "dump_goal g =
     PDict [(''id'', PStr (gl_id g)), (''project_id'', PStr (gl_project g)), (''objective'', PStr (gl_objective g)),
       (''constraints'', str_list (gl_constraints g)), (''success_criteria'', str_list (gl_success_criteria g)),
       (''allowed_capabilities'', str_list (gl_allowed g)), (''requires_human_approval'', PBool (gl_requires_approval g)),
       (''metadata'', PDict (gl_metadata g))]"

definition dump_step :: "plan_step \<Rightarrow> pyval" where
  "dump_step x =
     PDict [(''id'', PStr (ps_id x)), (''title'', PStr (ps_title x)), (''objective'', PStr (ps_objective x)),
       (''capability'', PStr (ps_capability x)), (''depends_on'', str_list (ps_depends x)), (''inputs'', PDict (ps_inputs x)),
       (''expected_output'', PStr (ps_expected_output x)), (''success_criteria'', str_list (ps_success_criteria x)),
       (''suggested_role'', PStr (ps_role x)), (''required_capabilities'', str_list (ps_required x)),
       (''optional_skill_refs'', str_list (ps_skills x)), (''status'', PStr (step_status_value (ps_status x))),
       (''task_id'', opt_str (ps_task x)), (''output'', ps_output x), (''execution_context'', PDict (ps_context x)),
       (''semantic_fingerprint'', opt_str (ps_fingerprint x)), (''preconditions'', dump_preconditions (ps_preconditions x)),
       (''expected_effects'', PDict (ps_effects x)), (''evidence'', PDict (ps_evidence x)), (''risk_class'', PStr (ps_risk x)),
       (''budget'', PDict (ps_budget x)), (''checkpoint_policy'', PStr (ps_checkpoint x)),
       (''recovery_policy'', PStr (ps_recovery x))]"

definition dump_plan :: "plan \<Rightarrow> pyval" where
  "dump_plan p =
     PDict [(''id'', PStr (pl_id p)), (''goal_id'', PStr (pl_goal p)), (''version'', PStr (pl_version p)),
       (''mode'', PStr (plan_mode_value (pl_mode p))), (''status'', PStr (plan_status_value (pl_status p))),
       (''steps'', PList (map dump_step (pl_steps p))), (''metadata'', PDict (pl_metadata p)),
       (''invalidated_step_ids'', str_list (pl_invalidated p)), (''replan_count'', PInt (int (pl_replan_count p)))]"

text \<open>The plan to execute: the stored one of this goal, or the planner's.\<close>

definition obtain_plan :: "svc_env \<Rightarrow> plan \<Rightarrow> goal \<Rightarrow> string list \<Rightarrow> string option \<Rightarrow> service \<Rightarrow> plan svc" where
  "obtain_plan n planned g approved resume s =
     (case or_str resume None of
        Some i \<Rightarrow>
          (case plan_get (sn_sha n) i (sv_db s) of
             Inl e \<Rightarrow> (Inl (Store_failed e), s)
           | Inr None \<Rightarrow> (Inl (Plan_not_found i), s)
           | Inr (Some p) \<Rightarrow>
               if pl_goal p \<noteq> gl_id g then (Inl (Plan_not_found i), s)
               else (Inr p, say (Ev_Inner_Agent HUMAN_APPROVAL_GRANTED)
                 [(''plan_id'', PStr (pl_id p)), (''approved_step_ids'', str_list (sort approved))] s))
      | None \<Rightarrow>
          (case plan_create planned (sv_db s) of
             Inl e \<Rightarrow> (Inl (Store_failed e), s)
           | Inr db \<Rightarrow> (Inr planned, say (Ev_Planning PLAN_CREATED) [(''plan'', dump_plan planned)] (s\<lparr>sv_db := db\<rparr>))))"

definition execute_goal ::
  "svc_env \<Rightarrow> plan \<Rightarrow> goal \<Rightarrow> string list \<Rightarrow> string option \<Rightarrow> string list \<Rightarrow> nat \<Rightarrow> service \<Rightarrow> plan svc" where
  "execute_goal n planned g approved resume repair fuel s0 =
     (let s1 = say (Ev_Planning GOAL_CREATED) [(''goal'', dump_goal g)] s0
      in bind_svc (obtain_plan n planned g approved resume (s1\<lparr>sv_db := goal_create g (sv_db s1)\<rparr>)) (\<lambda>p s.
           case pl_mode p of
             SIMPLE_DEPENDENCY \<Rightarrow> dependency_plan n g approved repair fuel p s
           | LINEAR \<Rightarrow>
               linear_loop n g approved fuel p (say (Ev_Planning PLAN_STARTED) [(''plan_id'', PStr (pl_id p))]
                 (s\<lparr>sv_exec := [(''runtime'', PDict (AList.update ''goal_id'' (PStr (gl_id g)) (sv_ctx s))), (''steps'', PDict [])], sv_shared := []\<rparr>))))"

definition resume_after_approval ::
  "svc_env \<Rightarrow> plan \<Rightarrow> goal \<Rightarrow> string \<Rightarrow> string \<Rightarrow> nat \<Rightarrow> service \<Rightarrow> plan svc" where
  "resume_after_approval n planned g pid i fuel s = execute_goal n planned g [i] (Some pid) [] fuel s"

section \<open>Repair after a failure\<close>

text \<open>A typed control signal overrides the scope when the policy is aware of missing progress.\<close>

definition control_trigger :: "plan_step \<Rightarrow> pydict \<Rightarrow> service \<Rightarrow> replan_trigger option" where
  "control_trigger x prov s =
     (let run = py_str (py_or (py_or (dict_get prov ''run_id'') (dict_get (sv_ctx s) ''benchmark_run_id'')) (PStr []));
          aware = flag ''recovery_control_plane_v2'' s \<and>
            upper (py_str (dict_get_or (sv_ctx s) ''escalation_trigger_policy'' (PStr []))) = ''NO_PROGRESS_AWARE'';
          direct = (if run = [] then None else evaluate_trigger x run (sv_rows s));
          late = typed_signals (signals_of_run run (sv_rows s))
      in if \<not> aware then None
         else case direct of
           Some t \<Rightarrow> if tg_reason t \<in> set typed_escalation_reasons then Some t else None
         | None \<Rightarrow>
             if run \<noteq> [] \<and> late \<noteq> [] then
               Some \<lparr>tg_reason = rs_reason (last late),
                 tg_evidence = dict_merge [(''source'', PStr ''DURABLE_RUN_REPLAN_SIGNAL''), (''signal_id'', PStr (rs_id (last late))),
                   (''capability'', PStr (ps_capability x))] (rs_evidence (last late))\<rparr>
             else None)"

definition repair_exhausted :: "plan \<Rightarrow> string list \<Rightarrow> bool \<Rightarrow> int \<Rightarrow> service \<Rightarrow> service" where
  "repair_exhausted p targets guarded count s =
     say (Ev_Repair REPAIR_COMPLETED)
       ([(''plan_id'', PStr (pl_id p)), (''repair_step_ids'', str_list (sort targets)), (''outcome'', PStr ''BUDGET_EXHAUSTED'')] @
        (if guarded then [(''error_type'', PStr ''REPAIR_BUDGET_EXHAUSTED'')] else []) @
        [(''repair_attempt_count'', PInt count)]) s"

definition latest_task_attempt :: "plan_step \<Rightarrow> service \<Rightarrow> string option" where
  "latest_task_attempt x s = resolve_attempt_id x (sv_rows s)"

definition mark_repair :: "string \<Rightarrow> string option \<Rightarrow> plan_step \<Rightarrow> plan_step" where
  "mark_repair failed original x =
     (let y = set_evidence ''repair_parent_step_id'' (PStr failed)
                (set_evidence ''repair_attempt_count'' (PInt (py_count (ps_evidence x) ''repair_attempt_count'' 0 + 1)) x)
      in case original of None \<Rightarrow> y | Some i \<Rightarrow> set_evidence ''original_failure_attempt_id'' (PStr i) y)"

text \<open>The lineage of each repaired step, in the plan that was returned.\<close>

definition repair_lineage :: "repair_scope \<Rightarrow> string \<Rightarrow> string list \<Rightarrow> plan_step \<Rightarrow> service \<Rightarrow> service" where
  "repair_lineage scope pid targets x s =
     (case (if ps_id x \<in> set targets then latest_task_attempt x s else None) of
        None \<Rightarrow> s
      | Some a \<Rightarrow> say (Ev_Repair REPAIR_COMPLETED)
          [(''plan_id'', PStr pid), (''step_id'', PStr (ps_id x)),
           (''original_failure_attempt_id'', dict_get (ps_evidence x) ''original_failure_attempt_id''),
           (''repair_attempt_id'', PStr a),
           (''repair_number'', dict_get_or (ps_evidence x) ''repair_attempt_count'' (PInt 0)),
           (''scope'', PStr (repair_scope_value scope))] s)"

definition with_lineage :: "string list \<Rightarrow> service \<Rightarrow> plan_step \<Rightarrow> plan_step" where
  "with_lineage targets s x =
     (case (if ps_id x \<in> set targets then latest_task_attempt x s else None) of
        None \<Rightarrow> x | Some a \<Rightarrow> set_evidence ''repair_attempt_id'' (PStr a) x)"

definition run_repair ::
  "svc_env \<Rightarrow> plan \<Rightarrow> goal \<Rightarrow> repair_scope \<Rightarrow> string list \<Rightarrow> plan_step \<Rightarrow> plan \<Rightarrow> nat \<Rightarrow> service \<Rightarrow> plan svc" where
  "run_repair n planned g scope targets x p fuel s =
     (let original = (case dict_get (ps_evidence x) ''original_failure_attempt_id'' of
                        PStr i \<Rightarrow> or_str (Some i) None | _ \<Rightarrow> latest_task_attempt x s);
          q = p\<lparr>pl_steps := map (\<lambda>y. if ps_id y \<in> set targets then mark_repair (ps_id x) original y else y) (pl_steps p)\<rparr>
      in bind_svc (save q s) (\<lambda>_ s.
           bind_svc (execute_goal n planned g [] (Some (pl_id p)) targets fuel s) (\<lambda>done_plan s.
             let t = fold (repair_lineage scope (pl_id p) targets) (pl_steps done_plan) s;
                 r = done_plan\<lparr>pl_steps := map (with_lineage targets s) (pl_steps done_plan)\<rparr>
             in bind_svc (reload n r t) (\<lambda>stored t. bind_svc (save stored t) (\<lambda>_ t. (Inr r, t))))))"

definition repair_after_failure ::
  "svc_env \<Rightarrow> plan \<Rightarrow> string \<Rightarrow> string \<Rightarrow> goal \<Rightarrow> nat \<Rightarrow> service \<Rightarrow> plan svc" where
  "repair_after_failure n planned pid failed g fuel s0 =
     (case plan_get (sn_sha n) pid (sv_db s0) of
        Inl e \<Rightarrow> (Inl (Store_failed e), s0)
      | Inr None \<Rightarrow> (Inl (Plan_not_found pid), s0)
      | Inr (Some p0) \<Rightarrow>
          (case map_of (index_steps (pl_steps p0)) failed of
             None \<Rightarrow> (Inl (Step_not_found failed), s0)
           | Some x0 \<Rightarrow>
               if official s0 \<and> repair_started p0 then (Inr p0, reentry_blocked p0 [failed] s0)
               else
                 let prov = sub_dict (ps_evidence x0) ''failure_provenance'';
                     (scope0, affected) = compute_repair_scope x0 p0
                       (as_str (dict_get prov ''failure_class'')) (as_str (dict_get prov ''failure_type''));
                     trigger = control_trigger x0 prov s0;
                     x = (case trigger of None \<Rightarrow> x0
                          | Some t \<Rightarrow> set_evidence ''recovery_control_escalation''
                              (PDict [(''reason'', PStr (tg_reason t)), (''evidence'', PDict (tg_evidence t))]) x0);
                     scope = (if trigger = None then scope0 else MACRO_REPLAN);
                     p = put_step x p0;
                     run = (case dict_get prov ''run_id'' of PStr r \<Rightarrow> r | _ \<Rightarrow> [])
                 in if scope = MACRO_REPLAN then
                      (let s = record_replan_signal n x run s0
                       in if official s then bind_svc (save p s) (\<lambda>_ s. (Inr p, s))
                          else bind_svc (maybe_replan n g p run s) (\<lambda>accepted s.
                                 if accepted then reload n p s else (Inr p, s)))
                    else
                      let targets = (if affected = [] then [failed] else affected);
                          count = py_count (ps_evidence x) ''repair_attempt_count'' 0;
                          (allowed, s) = ask_repair n s0
                      in if \<not> allowed then (Inr p, repair_exhausted p targets True count s)
                         else if count \<ge> py_count (ps_budget x) ''max_repair_attempts'' 3 then
                           (Inr p, repair_exhausted p targets False count s)
                         else run_repair n planned g scope targets x p fuel s))"

end
