(* ===== verification/PlanRun.thy ===== *)
theory PlanRun imports PlanEntry begin

text \<open>
  What the operations of the planning service keep: a Hoare-style predicate \<open>sat\<close> on their
  results, the interface \<open>service_run\<close> of the laws that the verifier, the plan tables and the
  replans promise, and the proof, handler by handler, that a whole execution keeps them.
\<close>

section \<open>Results that keep an invariant\<close>

definition sat :: "(service \<Rightarrow> bool) \<Rightarrow> ('a \<Rightarrow> bool) \<Rightarrow> 'a svc \<Rightarrow> bool" where
  "sat I Q m \<longleftrightarrow> I (snd m) \<and> (\<forall>x. fst m = Inr x \<longrightarrow> Q x)"

lemma sat_pair [simp]: "sat I Q (r, s) \<longleftrightarrow> I s \<and> (\<forall>x. r = Inr x \<longrightarrow> Q x)"
  by (simp add: sat_def)

lemma sat_bind:
  assumes "sat I R m" and "\<And>x s. R x \<Longrightarrow> I s \<Longrightarrow> sat I Q (f x s)"
  shows "sat I Q (bind_svc m f)"
  using assms by (cases m; cases "fst m") (auto simp: bind_svc_def)

lemma sat_weaken: "sat I R m \<Longrightarrow> (\<And>x. R x \<Longrightarrow> Q x) \<Longrightarrow> sat I Q m"
  by (auto simp: sat_def)

lemma sat_if: "(b \<Longrightarrow> sat I Q m) \<Longrightarrow> (\<not> b \<Longrightarrow> sat I Q m') \<Longrightarrow> sat I Q (if b then m else m')"
  by simp

section \<open>Sound plans\<close>

text \<open>No step counts as finished, unless \<open>V\<close>: then steps may be verified.\<close>

definition sound :: "bool \<Rightarrow> plan \<Rightarrow> bool" where
  "sound V p \<longleftrightarrow> V \<or> (\<forall>x\<in>set (pl_steps p). ps_status x \<notin> terminal_verified)"

definition sound_step :: "bool \<Rightarrow> plan_step \<Rightarrow> bool" where
  "sound_step V x \<longleftrightarrow> V \<or> ps_status x \<notin> terminal_verified"

lemma sound_put [simp]: "sound V p \<Longrightarrow> sound_step V x \<Longrightarrow> sound V (put_step x p)"
  by (auto simp: sound_def sound_step_def put_step_def)

lemma sound_fields [simp]:
  "sound V (p\<lparr>pl_status := a\<rparr>) = sound V p" "sound V (p\<lparr>pl_metadata := b\<rparr>) = sound V p"
  "sound V (p\<lparr>pl_invalidated := c\<rparr>) = sound V p" "sound True p"
  by (simp_all add: sound_def)

lemma sound_step_fields [simp]:
  "sound_step V (x\<lparr>ps_output := a\<rparr>) = sound_step V x" "sound_step V (x\<lparr>ps_context := b\<rparr>) = sound_step V x"
  "sound_step V (x\<lparr>ps_evidence := c\<rparr>) = sound_step V x" "sound_step V (x\<lparr>ps_task := d\<rparr>) = sound_step V x"
  "sound_step V (set_evidence k v x) = sound_step V x" "sound_step True x"
  by (simp_all add: sound_step_def set_evidence_def)

lemma sound_step_status [simp]:
  "sound_step V (x\<lparr>ps_status := st\<rparr>) \<longleftrightarrow> V \<or> st \<notin> {Step_VERIFIED, Step_COMPLETED}"
  by (simp add: sound_step_def terminal_verified_def)

lemma sound_found: "sound V p \<Longrightarrow> find_step i p = Some x \<Longrightarrow> sound_step V x"
  by (auto simp: sound_def sound_step_def find_step_def find_Some_iff)

lemma sound_map:
  assumes "\<And>x. ps_status (f x) = ps_status x"
  shows "sound V (p\<lparr>pl_steps := map f (pl_steps p)\<rparr>) = sound V p"
  by (simp add: sound_def assms)

lemma sound_share [simp]: "sound V (share p s) = sound V p"
  unfolding share_def by (rule sound_map) simp

section \<open>What an operation leaves alone\<close>

text \<open>The plan tables and the tasks, runs and attempts: all that the invariants below read.\<close>

definition work :: "exec_rows \<Rightarrow> task list \<times> run list \<times> attempt list" where
  "work x = (xr_tasks x, xr_runs x, xr_attempts x)"

lemma work_signals [simp]: "work (x\<lparr>xr_signals := g\<rparr>) = work x"
  by (simp add: work_def)

definition same_store :: "service \<Rightarrow> service \<Rightarrow> bool" where
  "same_store s t \<longleftrightarrow> sv_db t = sv_db s \<and> work (sv_rows t) = work (sv_rows s)"

lemma store_fields [simp]:
  "sv_db (say ty d s) = sv_db s" "sv_rows (say ty d s) = sv_rows s"
  "sv_db (record_step i d s) = sv_db s" "sv_rows (record_step i d s) = sv_rows s"
  "sv_db (set_runtime k v s) = sv_db s" "sv_rows (set_runtime k v s) = sv_rows s"
  "sv_db (mark_post_replan s) = sv_db s" "sv_rows (mark_post_replan s) = sv_rows s"
  "work (update_signal g x) = work x"
  by (simp_all add: say_def record_step_def set_runtime_def mark_post_replan_def update_signal_def work_def Let_def)

lemma move_simps [simp]:
  "fst (move st r e x p s) = x\<lparr>ps_status := st\<rparr>"
  "fst (snd (move st r e x p s)) = put_step (x\<lparr>ps_status := st\<rparr>) p"
  "sv_db (snd (snd (move st r e x p s))) = sv_db s" "sv_rows (snd (snd (move st r e x p s))) = sv_rows s"
  by (auto simp: move_def transition_step_def split_beta Let_def)

lemma ask_store [simp]:
  "sv_db (snd (ask_repair n s)) = sv_db s" "sv_rows (snd (ask_repair n s)) = sv_rows s"
  "sv_db (snd (ask_replan n s)) = sv_db s" "sv_rows (snd (ask_replan n s)) = sv_rows s"
  by (simp_all add: ask_repair_def ask_replan_def split: option.split)

text \<open>A pure handler returns a step, its plan and the service.\<close>

definition keeps :: "bool \<Rightarrow> plan \<Rightarrow> service \<Rightarrow> plan_step \<times> plan \<times> service \<Rightarrow> bool" where
  "keeps V p s r \<longleftrightarrow>
     (sound V p \<longrightarrow> sound V (fst (snd r)) \<and> sound_step V (fst r)) \<and> same_store s (snd (snd r))"

lemma move_keeps: "V \<or> st \<notin> {Step_VERIFIED, Step_COMPLETED} \<Longrightarrow> keeps V p s (move st r e x p s)"
  by (auto simp: keeps_def same_store_def)

lemma failure_provenance_keeps: "sound_step V x \<Longrightarrow> keeps V p s (failure_provenance x p run s)"
  by (auto simp: failure_provenance_def keeps_def same_store_def Let_def)

lemma rejection_provenance_keeps: "sound_step V x \<Longrightarrow> keeps V p s (snd (rejection_provenance x p v s))"
  by (auto simp: rejection_provenance_def keeps_def same_store_def Let_def split: option.split prod.split)

lemma same_store_trans [trans]: "same_store s t \<Longrightarrow> same_store t u \<Longrightarrow> same_store s u"
  by (simp add: same_store_def)

lemma handle_rejection_keeps: "keeps V p s (snd (handle_rejection x p v s))"
proof -
  let ?m = "move Step_CLASSIFIED_FAILURE ''verification_rejected'' [] x p s"
  have "keeps V p s ?m" by (rule move_keeps) simp
  moreover have "keeps V (fst (snd ?m)) (snd (snd ?m))
      (snd (rejection_provenance (fst ?m) (fst (snd ?m)) v (snd (snd ?m))))"
    by (rule rejection_provenance_keeps) simp
  ultimately show ?thesis
    by (auto simp: handle_rejection_def keeps_def same_store_def Let_def split_beta)
qed

lemma prepare_local_repair_keeps:
  "sound_step V x \<Longrightarrow> keeps V p s (snd (prepare_local_repair n scope producing x p s))"
  unfolding prepare_local_repair_def
  by (auto simp: keeps_def same_store_def Let_def split_beta)

lemma finalize_lineage_keeps: "sound_step V x \<Longrightarrow> keeps V p s (snd (finalize_lineage x p run s))"
  unfolding finalize_lineage_def by (auto simp: keeps_def same_store_def Let_def)

lemma record_replan_signal_store: "same_store s (record_replan_signal n x run s)"
  by (auto simp: record_replan_signal_def same_store_def Let_def split: option.split)

lemma update_signals_tasks [simp]: "work (fold (\<lambda>g. update_signal (f g)) gs rows) = work rows"
  by (induction gs arbitrary: rows) simp_all

lemma bind_signals_tasks [simp]: "work (snd (bind_signals b sigs rows)) = work rows"
  unfolding bind_signals_def by (simp split: option.split)

lemma set_set_last_step: "set (set_last_step x ys) \<subseteq> insert x (set ys)"
  by (induction ys) auto

lemma transition_sound: "sound_step V (fst (transition_step Step_STALE r pid e x lg))"
  by (simp add: transition_step_def sound_step_def terminal_verified_def)

lemma invalidate_step_sound:
  assumes "\<forall>x\<in>set (fst st). sound_step V x"
  shows "\<forall>x\<in>set (fst (invalidate_step pid i st)). sound_step V x"
proof -
  obtain steps lg done_ids where st: "st = (steps, lg, done_ids)" by (cases st)
  show ?thesis
  proof (cases "map_of (index_steps steps) i")
    case None
    with assms show ?thesis by (simp add: invalidate_step_def st)
  next
    case (Some x)
    let ?t = "transition_step Step_STALE ''repair_scope_invalidation'' (Some pid) [] x lg"
    have "\<forall>y\<in>set (set_last_step (fst ?t) steps). sound_step V y"
      using set_set_last_step[of "fst ?t" steps] assms transition_sound by (auto simp: st)
    with assms Some show ?thesis by (simp add: invalidate_step_def st split_beta)
  qed
qed

lemma invalidate_fold_sound:
  "\<forall>x\<in>set (fst st). sound_step V x \<Longrightarrow> \<forall>x\<in>set (fst (fold (invalidate_step pid) js st)). sound_step V x"
proof (induction js arbitrary: st)
  case (Cons j js)
  from Cons.IH[OF invalidate_step_sound[OF Cons.prems]] show ?case by simp
qed simp

lemma invalidate_sound:
  assumes "sound V p"
  shows "sound V (fst (snd (invalidate_affected_subgraph p affected lg)))"
proof -
  have "\<forall>x\<in>set (fst (pl_steps p, lg, [])). sound_step V x"
    using assms unfolding sound_def sound_step_def by simp
  from invalidate_fold_sound[OF this, of "pl_id p" affected]
  show ?thesis unfolding invalidate_affected_subgraph_def sound_def sound_step_def
    by (simp add: split_beta)
qed

lemma block_step_keeps:
  "(sound V (fst st) \<longrightarrow> sound V (fst (block_step b x st))) \<and> same_store (snd st) (snd (block_step b x st))"
  by (auto simp: block_step_def same_store_def split_beta)

lemma block_steps_keep:
  "(sound V (fst st) \<longrightarrow> sound V (fst (fold (block_step b) xs st))) \<and> same_store (snd st) (snd (fold (block_step b) xs st))"
proof (induction xs arbitrary: st)
  case (Cons x xs)
  then show ?case using block_step_keeps[of V st b x] by (auto simp: same_store_def)
qed (simp add: same_store_def)

section \<open>The interface of an execution\<close>

text \<open>\<open>V\<close> is whether the verifier may accept, \<open>D\<close> what holds of the plan tables and \<open>T\<close> of the
  tasks, runs and attempts. A step that may run without approval releases them altogether.\<close>

locale service_run =
  fixes n :: svc_env and g :: goal and approved :: "string list"
    and V :: bool and D :: "plan_db \<Rightarrow> bool" and T :: "task list \<times> run list \<times> attempt list \<Rightarrow> bool"
  assumes accepts: "sn_verifier n = Some f \<Longrightarrow> vd_accepted (fst (f i x p rows)) \<Longrightarrow> V"
    and verdicts: "sn_verifier n = Some f \<Longrightarrow> T (work rows) \<Longrightarrow> T (work (snd (f i x p rows)))"
    and stores: "D db \<Longrightarrow> sound V p \<Longrightarrow> plan_update p db = Inr db' \<Longrightarrow> D db'"
    and loads: "D db \<Longrightarrow> plan_get (sn_sha n) i db = Inr (Some p) \<Longrightarrow> sound V p"
    and replans: "D (st_db st) \<Longrightarrow>
      consume (sn_sha n) (sn_enum n) (sn_planner n) (sn_others n) g p sigs ctx st = (r, st') \<Longrightarrow> D (st_db st')"
    and goals: "D db \<Longrightarrow> D (goal_create g db)"
    and creates: "D db \<Longrightarrow> sound V p \<Longrightarrow> plan_create p db = Inr db' \<Longrightarrow> D db'"
    and released: "\<not> gated n g approved x \<Longrightarrow> sn_spec n (ps_capability x) \<noteq> None \<Longrightarrow> T ts"
begin

definition good :: "service \<Rightarrow> bool" where
  "good s \<longleftrightarrow> D (sv_db s) \<and> T (work (sv_rows s))"

lemma good_same: "good s \<Longrightarrow> same_store s t \<Longrightarrow> good t"
  by (simp add: good_def same_store_def)

lemma good_keeps: "keeps V p s r \<Longrightarrow> good s \<Longrightarrow> good (snd (snd r))"
  by (auto simp: keeps_def intro: good_same)

lemma good_fields [simp]:
  "good (say ty d s) = good s" "good (record_step i d s) = good s" "good (mark_post_replan s) = good s"
  "good (s\<lparr>sv_log := a\<rparr>) = good s" "good (s\<lparr>sv_exec := b\<rparr>) = good s" "good (s\<lparr>sv_ctx := c\<rparr>) = good s"
  "good (s\<lparr>sv_ids := k\<rparr>) = good s" "good (s\<lparr>sv_shared := l\<rparr>) = good s"
  by (simp_all add: good_def)

lemma good_signal [simp]: "good (record_replan_signal n x run s) = good s"
  using record_replan_signal_store[of s n x run] by (simp add: good_def same_store_def)

lemma good_ask [simp]: "good (snd (ask_repair n s)) = good s" "good (snd (ask_replan n s)) = good s"
  by (simp_all add: good_def)

lemma good_move [simp]: "good (snd (snd (move st r e x p s))) = good s"
  by (simp add: good_def)

lemma save_sat: "good s \<Longrightarrow> sound V p \<Longrightarrow> sat good (\<lambda>_. True) (save p s)"
  by (auto simp: save_def good_def dest: stores split: sum.split)

lemma reload_sat: "good s \<Longrightarrow> sound V p \<Longrightarrow> sat good (sound V) (reload n p s)"
  by (auto simp: reload_def good_def dest: loads split: sum.split option.split)

text \<open>A handler goes on with a sound plan; it never stops with a completed one.\<close>

definition flow_ok :: "flow \<Rightarrow> bool" where
  "flow_ok f \<longleftrightarrow> (case f of Go p \<Rightarrow> sound V p | Stop p \<Rightarrow> sound V p \<and> pl_status p \<noteq> Plan_COMPLETED | Restart \<Rightarrow> True)"

lemma flow_simps [simp]:
  "flow_ok (Go p) = sound V p" "flow_ok (Stop p) = (sound V p \<and> pl_status p \<noteq> Plan_COMPLETED)" "flow_ok Restart"
  by (simp_all add: flow_ok_def)

lemma save_and_go_sat: "good s \<Longrightarrow> sound V p \<Longrightarrow> sat good flow_ok (save_and_go p s)"
  unfolding save_and_go_def by (rule sat_bind[OF save_sat]) simp_all

lemma fail_plan_sat:
  "good s \<Longrightarrow> sound V p \<Longrightarrow> sat good (\<lambda>q. sound V q \<and> pl_status q \<noteq> Plan_COMPLETED) (fail_plan p s)"
  unfolding fail_plan_def Let_def by (rule sat_bind[OF save_sat]) simp_all

lemma fail_stop_sat:
  "good s \<Longrightarrow> sound V p \<Longrightarrow> (\<And>q s. good s \<Longrightarrow> good (h q s)) \<Longrightarrow>
   sat good flow_ok (bind_svc (fail_plan p s) (\<lambda>q s. (Inr (Stop q), h q s)))"
  by (rule sat_bind[OF fail_plan_sat]) simp_all

lemma stop_official_sat: "good s \<Longrightarrow> sound V p \<Longrightarrow> sat good flow_ok (stop_official x p s)"
  unfolding stop_official_def by (rule fail_stop_sat) simp_all

lemma maybe_replan_sat: "good s \<Longrightarrow> sat good (\<lambda>_. True) (maybe_replan n g p run s)"
proof -
  assume good: "good s"
  let ?b = "bind_signals (bound_step p run (sv_rows s)) (replan_signals p run (sv_rows s)) (sv_rows s)"
  let ?s = "snd (ask_replan n (s\<lparr>sv_rows := snd ?b\<rparr>))"
  have s1: "good (s\<lparr>sv_rows := snd ?b\<rparr>)" using good by (simp add: good_def)
  then have s2: "good ?s" by simp
  have "D (st_db (snd (consume (sn_sha n) (sn_enum n) (sn_planner n) (sn_others n) g p sigs ctx
      \<lparr>st_db = sv_db ?s, st_log = sv_log ?s\<rparr>)))" for sigs ctx
    by (rule replans[OF _ prod.collapse[symmetric]]) (use s2 in \<open>simp add: good_def\<close>)
  with s1 s2 good show ?thesis
    by (auto simp: maybe_replan_def Let_def split_beta good_def split: sum.split)
qed

lemma signal_and_replan_sat: "good s \<Longrightarrow> sound V p \<Longrightarrow> sat good flow_ok (signal_and_replan n g x p run s)"
  unfolding signal_and_replan_def
  by (rule sat_bind[OF maybe_replan_sat]) (simp_all add: save_and_go_sat)

text \<open>A verdict that rejects, and the local repair it may prepare.\<close>

lemma rejection_good:
  assumes "good s" and "sound V p" and "handle_rejection x p v s = (scope, y, q, t)"
  shows "good t \<and> sound V q \<and> sound_step V y"
proof -
  have k: "keeps V p s (y, q, t)" using handle_rejection_keeps[of V p s x v] assms(3) by simp
  with assms(1,2) good_keeps[OF k] show ?thesis by (auto simp: keeps_def)
qed

lemma repair_good:
  assumes "good s" and "sound V p" and "sound_step V x" and "prepare_local_repair n scope a x p s = (b, y, q, t)"
  shows "good t \<and> sound V q"
proof -
  have k: "keeps V p s (y, q, t)" using prepare_local_repair_keeps[OF assms(3), of p s n scope a] assms(4) by simp
  with assms(1,2) good_keeps[OF k] show ?thesis by (auto simp: keeps_def)
qed

lemma verifier_good:
  assumes "good s" and "sn_verifier n = Some f" and "f i x p (sv_rows s) = (v, rows)"
  shows "good (s\<lparr>sv_rows := rows, sv_ids := k\<rparr>)" and "vd_accepted v \<Longrightarrow> V"
  using assms(1,3) verdicts[OF assms(2), of "sv_rows s" i x p] accepts[OF assms(2), of i x p "sv_rows s"]
  by (simp_all add: good_def)

lemma moved_sat:
  assumes "good s" and "sound V p" and "V \<or> st \<notin> {Step_VERIFIED, Step_COMPLETED}"
  shows "sat good flow_ok (case move st r e x p s of (_, q, t) \<Rightarrow> save_and_go q t)"
  unfolding split_beta by (rule save_and_go_sat) (use assms in auto)

lemma failed_run_sat:
  assumes "good s" and "sound V p" and "sound_step V x"
  shows "sat good flow_ok (failed_run n g x p run s)"
proof -
  obtain x1 p1 s1 where m: "move Step_FAILED ''run_failed'' [] x p s = (x1, p1, s1)" by (metis prod_cases3)
  have k1: "keeps V p s (x1, p1, s1)" unfolding m[symmetric] by (rule move_keeps) simp
  with assms have g1: "good s1" "sound V p1" "sound_step V x1"
    using good_keeps[OF k1] by (auto simp: keeps_def)
  let ?s1 = "say (Ev_Planning PLAN_STEP_FAILED) [(''plan_id'', PStr (pl_id p1)),
     (''step_id'', PStr (ps_id x1)), (''run_id'', PStr run)] s1"
  obtain y q t where f: "failure_provenance x1 p1 run ?s1 = (y, q, t)" by (metis prod_cases3)
  have k2: "keeps V p1 ?s1 (y, q, t)" unfolding f[symmetric] by (rule failure_provenance_keeps) (rule g1)
  with g1 have g2: "good t" "sound V q" "sound_step V y" using good_keeps[OF k2] by (auto simp: keeps_def)
  obtain scope affected where sc: "compute_repair_scope y q (provenance_str ''failure_class'' y)
      (provenance_str ''failure_type'' y) = (scope, affected)" by fastforce
  obtain inv_ids q1 lg where iv: "invalidate_affected_subgraph q [i \<leftarrow> affected. i \<noteq> ps_id y] (sv_log t) = (inv_ids, q1, lg)"
    by (metis prod_cases3)
  have q1: "sound V q1" using invalidate_sound[OF g2(2)] iv by (metis fst_conv snd_conv)
  obtain b z q2 t2 where r: "prepare_local_repair n LOCAL (if attempts_of_run run (sv_rows t) = [] then None
      else Some (at_id (last (attempts_of_run run (sv_rows t))))) y q t = (b, z, q2, t2)" by (metis prod_cases4)
  have g3: "good t2" "sound V q2" using repair_good[OF g2 r] by auto
  show ?thesis
  proof (cases scope)
    case LOCAL
    show ?thesis
      unfolding failed_run_def m prod.case f Let_def sc LOCAL repair_scope.case r
      by (intro sat_if stop_official_sat save_and_go_sat signal_and_replan_sat) (use g2 g3 in auto)
  next
    case AFFECTED_SUBGRAPH
    show ?thesis
      unfolding failed_run_def m prod.case f Let_def sc AFFECTED_SUBGRAPH repair_scope.case iv
      by (intro sat_if stop_official_sat save_and_go_sat) (use g2 q1 in auto)
  next
    case MACRO_REPLAN
    show ?thesis
      unfolding failed_run_def m prod.case f Let_def sc MACRO_REPLAN repair_scope.case
      by (intro sat_if stop_official_sat signal_and_replan_sat) (use g2 in auto)
  qed
qed

lemma verify_claim_sat:
  assumes "good s" and "sound V p"
  shows "sat good flow_ok (verify_claim n x p s)"
proof (cases "sn_verifier n")
  case None
  show ?thesis unfolding verify_claim_def None option.case Let_def by (rule moved_sat) (use assms in auto)
next
  case (Some f)
  obtain v rows where fv: "f (sn_new_id n (sv_ids s)) x p (sv_rows s) = (v, rows)" by fastforce
  let ?s = "s\<lparr>sv_rows := rows, sv_ids := sv_ids s + 1\<rparr>"
  have s: "good ?s" by (rule verifier_good(1)[OF assms(1) Some fv])
  note V = verifier_good(2)[OF assms(1) Some fv]
  obtain scope y q t where h: "handle_rejection x p v ?s = (scope, y, q, t)" by (metis prod_cases4)
  note hg = rejection_good[OF s assms(2) h]
  obtain b z q' t' where r: "prepare_local_repair n LOCAL None y q t = (b, z, q', t')" by (metis prod_cases4)
  have rg: "good t' \<and> sound V q'" by (rule repair_good[OF _ _ _ r]) (use hg in blast)+
  show ?thesis
    unfolding verify_claim_def Some option.case Let_def fv prod.case h r
    by (intro sat_if moved_sat stop_official_sat save_and_go_sat) (use assms s hg rg V in auto)
qed

lemma completed_run_sat:
  assumes "good s" and "sound V p"
  shows "sat good flow_ok (completed_run n g x p r s)"
  unfolding completed_run_def
proof (rule sat_bind[OF maybe_replan_sat[OF assms(1)]], goal_cases)
  case (1 accepted s1)
  then show ?case
    by (auto simp: Let_def split_beta assms intro!: verify_claim_sat split: option.split)
qed

lemma reached: "\<not> gated n g approved x \<Longrightarrow> sn_spec n (ps_capability x) \<noteq> None \<Longrightarrow> good s \<Longrightarrow> D (sv_db t) \<Longrightarrow> good t"
  by (simp add: good_def released)

lemma run_task_db [simp]: "sv_db (snd (run_task n x p t s)) = sv_db s"
  by (auto simp: run_task_def absorb_def Let_def split: option.split prod.split)

lemma dispatch_sat:
  assumes "good s" and "sound V p" and "\<not> gated n g approved x" and "sn_spec n (ps_capability x) \<noteq> None"
  shows "sat good (\<lambda>(x1, p1, t). sound V p1 \<and> sound_step V x1) (dispatch n g x p s)"
proof -
  obtain x1 p1 s1 where m: "move Step_RUNNING ''dispatch'' [] x p s = (x1, p1, s1)" by (metis prod_cases3)
  have k1: "keeps V p s (x1, p1, s1)" unfolding m[symmetric] by (rule move_keeps) simp
  with assms have g1: "good s1" "sound V p1" "sound_step V x1"
    using good_keeps[OF k1] by (auto simp: keeps_def)
  show ?thesis
  proof (cases "build_step_dependency_context p1 x1 (sv_exec s1)")
    case None
    show ?thesis unfolding dispatch_def m Let_def prod.case None option.case using g1 by simp
  next
    case (Some ctx)
    show ?thesis unfolding dispatch_def m Let_def prod.case Some option.case
      by (rule sat_bind[OF save_sat]) (use g1 released[OF assms(3,4)] in \<open>simp_all add: good_def\<close>)
  qed
qed

lemma run_step_sat:
  assumes "good s" and "sound V p" and "\<not> gated n g approved x" and "sn_spec n (ps_capability x) \<noteq> None"
  shows "sat good flow_ok (run_step n g x p s)"
proof -
  have run: "sat good (\<lambda>_. True) (run_task n x1 p1 t u)" if "good u" for x1 p1 t u
    using reached[OF assms(3,4) that, of "snd (run_task n x1 p1 t u)"] that by (simp add: sat_def good_def)
  have rest: "sat good flow_ok (let (known, x, p, s) = finalize_lineage x1 p1 (rn_id (os_run r)) u
         in if \<not> known then bind_svc (fail_plan p s) (\<lambda>q s. (Inr (Stop q), s))
            else if rn_status (os_run r) \<noteq> Run_COMPLETED then failed_run n g x p (rn_id (os_run r)) s
            else completed_run n g x p r s)" if "good u" "sound V p1" "sound_step V x1" for x1 p1 r u
  proof -
    obtain b y q w where f: "finalize_lineage x1 p1 (rn_id (os_run r)) u = (b, y, q, w)" by (metis prod_cases4)
    have k: "keeps V p1 u (y, q, w)"
      using finalize_lineage_keeps[OF that(3), of p1 u "rn_id (os_run r)"] f by simp
    with that have g: "good w" "sound V q" "sound_step V y" using good_keeps[OF k] by (auto simp: keeps_def)
    show ?thesis
      unfolding f Let_def prod.case
      by (intro sat_if fail_stop_sat failed_run_sat completed_run_sat) (use g in auto)
  qed
  show ?thesis
    unfolding run_step_def
  proof (rule sat_bind[OF dispatch_sat[OF assms]], goal_cases)
    case (1 xpt u)
    obtain x1 p1 t where x: "xpt = (x1, p1, t)" by (metis prod_cases3)
    with 1 have ok: "sound V p1" "sound_step V x1" by auto
    show ?case
      unfolding x prod.case by (rule sat_bind[OF run[OF 1(2)]]) (rule rest[OF _ ok])
  qed
qed

lemma ready_step_sat:
  assumes "good s" and "sound V p"
  shows "sat good flow_ok (ready_step n g approved x p s)"
proof -
  define s1 where "s1 = say (Ev_Planning PLAN_STEP_READY) [(''plan_id'', PStr (pl_id p)), (''step_id'', PStr (ps_id x))] s"
  have s1: "good s1" using assms by (simp add: s1_def)
  have lg: "good u \<Longrightarrow> good (u\<lparr>sv_log := l\<rparr>)" for u l by simp
  consider (unknown) "sn_spec n (ps_capability x) = None" | (gate) "sn_spec n (ps_capability x) \<noteq> None" "gated n g approved x"
    | (run) "sn_spec n (ps_capability x) \<noteq> None" "\<not> gated n g approved x" by blast
  then show ?thesis
  proof cases
    case unknown
    with s1 show ?thesis unfolding ready_step_def Let_def s1_def[symmetric] by simp
  next
    case gate
    with s1 assms show ?thesis
      unfolding ready_step_def Let_def s1_def[symmetric] split_beta by (auto intro!: save_and_go_sat)
  next
    case run
    show ?thesis
      unfolding ready_step_def Let_def s1_def[symmetric] split_beta if_not_P[OF run(2)] if_not_P[OF run(1)]
    proof (rule sat_bind[OF reload_sat[OF s1 assms(2)]], goal_cases)
      case (1 cur u)
      have go: "sat good flow_ok (run_step n g x p v)" if "good v" for v
        by (rule run_step_sat[OF that assms(2) run(2,1)])
      show ?case
        using 1 assms go by (auto intro!: save_and_go_sat split: option.split sum.split)
    qed
  qed
qed

lemma ready_steps_sat:
  assumes "good s" and "sound V p"
  shows "sat good flow_ok (ready_steps n g approved todo p s)"
  using assms
proof (induction todo arbitrary: p s)
  case (Cons i todo)
  show ?case
  proof (cases "find_step i p")
    case None
    with Cons show ?thesis by simp
  next
    case (Some x)
    show ?thesis unfolding ready_steps.simps Some option.case
      by (rule sat_bind[OF ready_step_sat[OF Cons.prems]]) (auto simp: Cons.IH split: flow.split)
  qed
qed simp

definition round_ok :: "round \<Rightarrow> bool" where
  "round_ok r \<longleftrightarrow> (case r of Again p \<Rightarrow> sound V p | Finished p \<Rightarrow> sound V p \<and> (pl_status p = Plan_COMPLETED \<longrightarrow> all_verified p))"

lemma round_simps [simp]:
  "round_ok (Again p) = sound V p"
  "round_ok (Finished p) = (sound V p \<and> (pl_status p = Plan_COMPLETED \<longrightarrow> all_verified p))"
  by (simp_all add: round_ok_def)

lemma all_verified_status [simp]: "all_verified (p\<lparr>pl_status := st\<rparr>) = all_verified p"
  by (simp add: all_verified_def any_status_def)

definition ended_ok :: "round \<Rightarrow> bool" where
  "ended_ok r \<longleftrightarrow> (case r of Again p \<Rightarrow> False | Finished p \<Rightarrow> round_ok (Finished p))"

lemma finish_plan_ends:
  assumes "good s" and "sound V p" and "st \<noteq> Plan_COMPLETED \<or> all_verified p" and "\<And>u. good (report u) = good u"
  shows "sat good ended_ok (finish_plan st p report s)"
  unfolding finish_plan_def Let_def by (rule sat_bind[OF save_sat]) (use assms in \<open>auto simp: ended_ok_def\<close>)

lemma finish_plan_sat:
  assumes "good s" and "sound V p" and "st \<noteq> Plan_COMPLETED \<or> all_verified p" and "\<And>u. good (report u) = good u"
  shows "sat good round_ok (finish_plan st p report s)"
  by (rule sat_weaken[OF finish_plan_ends[OF assms]]) (auto simp: ended_ok_def split: round.splits)

lemma good_report_repair [simp]: "good (report_repair repair outcome p s) = good s"
  by (simp add: report_repair_def)

lemma close_round_sat:
  assumes "good s" and "sound V p"
  shows "sat good round_ok (close_round repair sc p s)"
proof -
  obtain q t where b: "fold (block_step False) (sc_blocked sc) (p, s) = (q, t)" by fastforce
  have g: "good t" "sound V q"
    using block_steps_keep[of V "(p, s)" False "sc_blocked sc"] assms good_same[of s t] by (auto simp: b)
  show ?thesis
    unfolding close_round_def Let_def b prod.case
    by (intro sat_if finish_plan_sat assms g) (simp_all (no_asm) add: assms)
qed

lemma plan_round_sat:
  assumes "good s" and "sound V p"
  shows "sat good round_ok (plan_round n g approved repair p s)"
  unfolding plan_round_def
proof (rule sat_bind[OF reload_sat[OF assms]], goal_cases)
  case (1 p1 s1)
  show ?case
  proof (cases "calculate p1")
    case None
    with 1 show ?thesis by simp
  next
    case (Some sc)
    obtain q t where b: "fold (block_step True) (sc_blocked sc) (p1, s1) = (q, t)" by fastforce
    have g: "good t" "sound V q"
      using block_steps_keep[of V "(p1, s1)" True "sc_blocked sc"] 1 good_same[of s1 t] by (auto simp: b)
    have saved: "sat good (\<lambda>_. True) (if sc_blocked sc = [] then (Inr (), t) else save q t)"
      using g by (simp add: save_sat)
    show ?thesis
      unfolding Some option.case b Let_def prod.case
      by (rule sat_bind[OF saved], rule sat_bind[OF ready_steps_sat])
        (auto simp: g close_round_sat split: flow.split option.split)
  qed
qed

lemma plan_loop_sat:
  assumes "good s" and "sound V p"
  shows "sat good (\<lambda>q. sound V q \<and> (pl_status q = Plan_COMPLETED \<longrightarrow> all_verified q)) (plan_loop n g approved repair k p s)"
  using assms
proof (induction k arbitrary: p s)
  case (Suc k)
  show ?case unfolding plan_loop.simps
    by (rule sat_bind[OF plan_round_sat[OF Suc.prems]]) (auto simp: Suc.IH split: round.split)
qed simp

text \<open>The prologue of a dependency plan and the linear plan.\<close>

lemma moved_good:
  assumes "good s" and "sound V p" and "V \<or> st \<notin> {Step_VERIFIED, Step_COMPLETED}"
  shows "good (snd (case move st r e x p s of (_, q, t) \<Rightarrow> (q, t)))"
    and "sound V (fst (case move st r e x p s of (_, q, t) \<Rightarrow> (q, t)))"
  using assms by (auto simp: split_beta)

lemma deferred_claim_good:
  assumes "good s" and "sound V p"
  shows "good (snd (deferred_claim n lin x p s)) \<and> sound V (fst (deferred_claim n lin x p s))"
proof (cases "sn_verifier n")
  case None
  show ?thesis unfolding deferred_claim_def Let_def None option.case
    by (intro conjI moved_good) (use assms in auto)
next
  case (Some f)
  define u where "u = record_step (ps_id x) (stored_record x) s"
  define p1 where "p1 = share p u"
  have u: "good u" "sound V p1" using assms by (simp_all add: u_def p1_def)
  obtain v rows where fv: "f (sn_new_id n (sv_ids u)) x p1 (sv_rows u) = (v, rows)" by fastforce
  let ?s = "u\<lparr>sv_rows := rows, sv_ids := sv_ids u + 1\<rparr>"
  have s: "good ?s" by (rule verifier_good(1)[OF u(1) Some fv])
  note V = verifier_good(2)[OF u(1) Some fv]
  obtain scope y q t where h: "handle_rejection x p1 v ?s = (scope, y, q, t)" by (metis prod_cases4)
  note hg = rejection_good[OF s u(2) h]
  obtain b z q' t' where r: "prepare_local_repair n LOCAL None y q t = (b, z, q', t')" by (metis prod_cases4)
  have rg: "good t' \<and> sound V q'" by (rule repair_good[OF _ _ _ r]) (use hg in blast)+
  have split: "good (snd (if b then m else m')) \<and> sound V (fst (if b then m else m'))"
    if "b \<Longrightarrow> good (snd m) \<and> sound V (fst m)" "\<not> b \<Longrightarrow> good (snd m') \<and> sound V (fst m')" for b m m'
    using that by simp
  show ?thesis
    unfolding deferred_claim_def Let_def Some option.case u_def[symmetric] p1_def[symmetric] fv prod.case h r
    by (rule split, intro conjI moved_good; (rule split, intro conjI moved_good; (rule split)?)?)
      (use u s hg rg V in auto)
qed

lemma reload_step_good:
  assumes "good (snd st)" and "sound V (fst st)"
  shows "good (snd (reload_step n approved i st)) \<and> sound V (fst (reload_step n approved i st))"
proof (cases "find_step i (fst st)")
  case None
  with assms show ?thesis by (simp add: reload_step_def)
next
  case (Some x0)
  obtain x p s where m: "(if i \<in> set approved \<and> ps_status x0 = Step_WAITING_FOR_HUMAN_APPROVAL
      then move Step_PENDING ''human_approval_granted'' [] x0 (fst st) (snd st) else (x0, fst st, snd st)) = (x, p, s)"
    by (metis prod_cases3)
  have "good s \<and> sound V p"
  proof (cases "i \<in> set approved \<and> ps_status x0 = Step_WAITING_FOR_HUMAN_APPROVAL")
    case True
    then have mv: "move Step_PENDING ''human_approval_granted'' [] x0 (fst st) (snd st) = (x, p, s)" using m by simp
    have k: "keeps V (fst st) (snd st) (x, p, s)" unfolding mv[symmetric] by (rule move_keeps) simp
    with assms good_keeps[OF k] show ?thesis by (auto simp: keeps_def)
  next
    case False
    with m assms show ?thesis by auto
  qed
  then show ?thesis
    unfolding reload_step_def Some option.case m Let_def prod.case by (simp add: deferred_claim_good)
qed

lemma fold_good:
  assumes "good (snd st)" and "sound V (fst st)"
    and "\<And>i st. good (snd st) \<Longrightarrow> sound V (fst st) \<Longrightarrow> good (snd (f i st)) \<and> sound V (fst (f i st))"
  shows "good (snd (fold f js st)) \<and> sound V (fst (fold f js st))"
  using assms(1,2)
proof (induction js arbitrary: st)
  case (Cons i js)
  with assms(3) show ?case by simp
qed simp

lemma invalidate_target_good:
  assumes "good (snd st)" and "sound V (fst st)"
  shows "good (snd (invalidate_target repair i st)) \<and> sound V (fst (invalidate_target repair i st))"
    and "good (snd (unblock_dependent repair i st)) \<and> sound V (fst (unblock_dependent repair i st))"
  using assms by (auto simp: invalidate_target_def unblock_dependent_def split_beta split: option.split)

lemma repair_mode_sat:
  assumes "good s" and "sound V p"
  shows "sat good flow_ok (repair_mode repair p s)"
proof -
  let ?m = "p\<lparr>pl_metadata := AList.update ''official_repair_execution_started'' (PBool True) (pl_metadata p)\<rparr>"
  have first: "sat good (\<lambda>_. True) (if official s then save (if official s then ?m else p) s else (Inr (), s))"
    using assms save_sat[of s ?m] by auto
  have again: "sat good flow_ok (let s = say (Ev_Repair REPAIR_STARTED) d s1; ids = map ps_id (pl_steps p1);
                 (p, s) = fold (unblock_dependent repair) ids (fold (invalidate_target repair) ids (p1, s))
             in save_and_go p s)" if "good s1" "sound V p1" for d s1 p1
  proof -
    define st where "st = fold (invalidate_target repair) (map ps_id (pl_steps p1)) (p1, say (Ev_Repair REPAIR_STARTED) d s1)"
    have "good (snd st) \<and> sound V (fst st)"
      unfolding st_def by (rule fold_good) (use that invalidate_target_good(1) in auto)
    then have "good (snd (fold (unblock_dependent repair) js st)) \<and> sound V (fst (fold (unblock_dependent repair) js st))" for js
      by (intro fold_good) (use invalidate_target_good(2) in auto)
    then show ?thesis unfolding Let_def st_def[symmetric] split_beta by (simp add: save_and_go_sat)
  qed
  show ?thesis
    unfolding repair_mode_def Let_def[of "if official s then _ else _"]
  proof (intro sat_if)
    show "sat good flow_ok (bind_svc (fail_plan p (reentry_blocked p (sort repair) s)) (\<lambda>q s. (Inr (Stop q), s)))"
      by (rule fail_stop_sat) (use assms in \<open>simp_all add: reentry_blocked_def\<close>)
  qed (use assms in simp, rule sat_bind[OF first], rule again, use assms in auto)
qed

lemma dependency_plan_sat:
  assumes "good s" and "sound V p"
  shows "sat good (\<lambda>q. sound V q \<and> (pl_status q = Plan_COMPLETED \<longrightarrow> all_verified q)) (dependency_plan n g approved repair k p s)"
  unfolding dependency_plan_def
proof (subst Let_def, rule sat_bind[OF repair_mode_sat], goal_cases)
  case (3 f u)
  show ?case
  proof (cases f)
    case (Go p1)
    have "good (snd (fold (reload_step n approved) js (p1, u))) \<and> sound V (fst (fold (reload_step n approved) js (p1, u)))" for js
      by (rule fold_good) (use 3 Go reload_step_good in auto)
    then show ?thesis
      unfolding Go flow.case Let_def split_beta by (intro sat_bind[OF save_sat] plan_loop_sat) auto
  qed (use 3 assms plan_loop_sat in auto)
qed (use assms in simp_all)

lemma linear_replan_sat: "good s \<Longrightarrow> sat good (\<lambda>_. True) (linear_replan n g p run s)"
  unfolding linear_replan_def by (rule sat_bind[OF maybe_replan_sat]) auto

lemma linear_dispatch_sat:
  assumes "good s" and "sound V p" and "\<not> gated n g approved x" and "sn_spec n (ps_capability x) \<noteq> None"
  shows "sat good (\<lambda>(x1, p1, t). sound V p1 \<and> sound_step V x1) (linear_dispatch n g x p s)"
proof -
  define t where "t = (step_task n g x s)\<lparr>ta_timeout := 60\<rparr>"
  define s1 where "s1 = s\<lparr>sv_rows := (sv_rows s)\<lparr>xr_tasks := xr_tasks (sv_rows s) @ [t]\<rparr>, sv_ids := sv_ids s + 1,
                     sv_shared := ps_id x # sv_shared s\<rparr>"
  have s1: "good s1" by (rule reached[OF assms(3,4,1)]) (use assms in \<open>simp add: s1_def good_def\<close>)
  obtain y q u where m: "move Step_RUNNING ''dispatch'' [] (x\<lparr>ps_context := sv_exec s, ps_task := Some (ta_id t)\<rparr>) p s1 = (y, q, u)"
    by (metis prod_cases3)
  have k: "keeps V p s1 (y, q, u)" unfolding m[symmetric] by (rule move_keeps) simp
  with s1 assms have "good u" "sound V q" "sound_step V y" using good_keeps[OF k] by (auto simp: keeps_def)
  then show ?thesis
    unfolding linear_dispatch_def Let_def t_def[symmetric] s1_def[symmetric] m prod.case
    by (intro sat_bind[OF save_sat]) auto
qed

lemma linear_failed_sat:
  assumes "good s" and "sound V p" and "sound_step V x"
  shows "sat good flow_ok (linear_failed n g x p run s)"
proof -
  obtain x1 p1 s1 where m: "move Step_FAILED ''run_failed'' [] x p s = (x1, p1, s1)" by (metis prod_cases3)
  have k1: "keeps V p s (x1, p1, s1)" unfolding m[symmetric] by (rule move_keeps) simp
  with assms have g1: "good s1" "sound V p1" "sound_step V x1"
    using good_keeps[OF k1] by (auto simp: keeps_def)
  let ?s1 = "say (Ev_Planning PLAN_STEP_FAILED) [(''plan_id'', PStr (pl_id p1)),
     (''step_id'', PStr (ps_id x1)), (''run_id'', PStr run)] s1"
  obtain y q t where f: "failure_provenance x1 p1 run ?s1 = (y, q, t)" by (metis prod_cases3)
  have k2: "keeps V p1 ?s1 (y, q, t)" unfolding f[symmetric] by (rule failure_provenance_keeps) (rule g1)
  with g1 have g2: "good t" "sound V q" using good_keeps[OF k2] by (auto simp: keeps_def)
  show ?thesis
    unfolding linear_failed_def m prod.case f Let_def
    by (rule sat_bind[OF linear_replan_sat]) (use g2 in \<open>auto intro!: sat_if fail_stop_sat\<close>)
qed

lemma linear_verify_sat:
  assumes "good s" and "sound V p"
  shows "sat good flow_ok (linear_verify n x p s)"
proof (cases "sn_verifier n")
  case None
  show ?thesis unfolding linear_verify_def None option.case Let_def by (rule moved_sat) (use assms in auto)
next
  case (Some f)
  obtain v rows where fv: "f (sn_new_id n (sv_ids s)) x p (sv_rows s) = (v, rows)" by fastforce
  let ?s = "s\<lparr>sv_rows := rows, sv_ids := sv_ids s + 1\<rparr>"
  have s: "good ?s" by (rule verifier_good(1)[OF assms(1) Some fv])
  note V = verifier_good(2)[OF assms(1) Some fv]
  obtain scope y q t where h: "handle_rejection x p v ?s = (scope, y, q, t)" by (metis prod_cases4)
  note hg = rejection_good[OF s assms(2) h]
  show ?thesis
    unfolding linear_verify_def Some option.case Let_def fv prod.case h
    by (intro sat_if moved_sat save_and_go_sat) (use assms s hg V in auto)
qed

lemma linear_completed_sat:
  assumes "good s" and "sound V p"
  shows "sat good flow_ok (linear_completed n g x p r s)"
  unfolding linear_completed_def
proof (rule sat_bind[OF linear_replan_sat[OF assms(1)]], goal_cases)
  case (1 accepted s1)
  then show ?case
    by (auto simp: Let_def split_beta assms intro!: linear_verify_sat)
qed

lemma linear_step_sat:
  assumes "good s" and "sound V p"
  shows "sat good flow_ok (linear_step n g approved x p s)"
proof -
  let ?skip = "if ps_status x \<in> terminal_verified then (let t = record_step (ps_id x) (stored_record x) s in (Inr (Go (share p t)), t))
         else (Inr (Go p), s)"
  have 1: "sat good flow_ok ?skip" using assms by (simp add: Let_def)
  obtain q t where d: "deferred_claim n True x p s = (q, t)" by fastforce
  have 2: "sat good flow_ok (save_and_go q t)"
    using deferred_claim_good[OF assms, of True x] d by (auto intro: save_and_go_sat)
  have 3: "sat good flow_ok (bind_svc (linear_dispatch n g x p s) (\<lambda>(x, p, t) s.
                 bind_svc (run_task n x p t s) (\<lambda>r s.
                   if rn_status (os_run r) \<noteq> Run_COMPLETED then linear_failed n g x p (rn_id (os_run r)) s
                   else linear_completed n g x p r s)))"
    if a: "\<not> gated n g approved x" "sn_spec n (ps_capability x) \<noteq> None"
  proof (rule sat_bind[OF linear_dispatch_sat[OF assms a]], goal_cases)
    case (1 xpt u)
    obtain x1 p1 t where x: "xpt = (x1, p1, t)" by (metis prod_cases3)
    have run: "sat good (\<lambda>_. True) (run_task n x1 p1 t u)"
      using reached[OF a 1(2), of "snd (run_task n x1 p1 t u)"] 1(2) by (simp add: sat_def good_def)
    show ?case
      unfolding x prod.case by (rule sat_bind[OF run])
        (use 1(1) x in \<open>auto intro!: sat_if linear_failed_sat linear_completed_sat\<close>)
  qed
  have 4: "sat good flow_ok (case move Step_WAITING_FOR_HUMAN_APPROVAL r [] x p s of (_, q, t) \<Rightarrow>
      bind_svc (save (q\<lparr>pl_status := Plan_WAITING_FOR_HUMAN_APPROVAL\<rparr>) (say ev d t))
        (\<lambda>_ t. (Inr (Stop (q\<lparr>pl_status := Plan_WAITING_FOR_HUMAN_APPROVAL\<rparr>)), t)))" for r ev d
    unfolding split_beta by (rule sat_bind[OF save_sat]) (use assms in auto)
  have 5: "sat good flow_ok (case move (ineligible_status r) r [] x p s of (_, q, t) \<Rightarrow> save_and_go q t)" for r
    by (rule moved_sat) (use assms in \<open>auto simp: ineligible_status_def\<close>)
  show ?thesis
  proof (cases "fst (evaluate_step_eligibility x (index_steps (pl_steps p)) [] None DISPATCH (sv_log s))")
    case (Inl e)
    show ?thesis unfolding linear_step_def d Inl
      by (intro sat_if) (use 1 2 assms in \<open>simp_all add: Let_def\<close>)
  next
    case (Inr er)
    obtain b r where er: "er = (b, r)" by fastforce
    show ?thesis
    proof (cases b)
      case True
      with er have er: "er = (True, r)" by simp
      show ?thesis unfolding linear_step_def d Inr er Let_def prod.case sum.case bool.case if_True
        using 3 4 by (intro sat_if) (use 1 2 assms in \<open>simp_all add: Let_def\<close>)
    next
      case False
      with er have er: "er = (False, r)" by simp
      show ?thesis unfolding linear_step_def d Inr er Let_def prod.case sum.case bool.case
        by (intro sat_if 5) (use 1 2 assms in \<open>simp_all add: Let_def\<close>)
    qed
  qed
qed

lemma linear_steps_sat:
  assumes "good s" and "sound V p"
  shows "sat good flow_ok (linear_steps n g approved todo p s)"
  using assms
proof (induction todo arbitrary: p s)
  case (Cons i todo)
  show ?case
  proof (cases "find_step i p")
    case None
    with Cons show ?thesis by simp
  next
    case (Some x)
    show ?thesis unfolding linear_steps.simps Some option.case
      by (rule sat_bind[OF linear_step_sat[OF Cons.prems]]) (auto simp: Cons.IH split: flow.split)
  qed
qed simp

lemma linear_close_sat:
  assumes "good s" and "sound V p"
  shows "sat good ended_ok (linear_close p s)"
  unfolding linear_close_def by (intro sat_if finish_plan_ends assms) (simp_all (no_asm) add: assms)

lemma linear_loop_sat:
  assumes "good s" and "sound V p"
  shows "sat good (\<lambda>q. sound V q \<and> (pl_status q = Plan_COMPLETED \<longrightarrow> all_verified q)) (linear_loop n g approved k p s)"
  using assms
proof (induction k arbitrary: p s)
  case (Suc k)
  show ?case unfolding linear_loop.simps
  proof (rule sat_bind[OF reload_sat[OF Suc.prems]], rule sat_bind[OF linear_steps_sat], goal_cases)
    case (3 q u f v)
    have close: "sat good (\<lambda>q. sound V q \<and> (pl_status q = Plan_COMPLETED \<longrightarrow> all_verified q))
      (bind_svc (reload n q s) (\<lambda>q s. bind_svc (linear_close q s) (\<lambda>r s. case r of Finished q \<Rightarrow> (Inr q, s) | Again q \<Rightarrow> (Inr q, s))))"
      if "good s" "sound V q" for q s
      by (rule sat_bind[OF reload_sat[OF that]], rule sat_bind[OF linear_close_sat])
        (auto simp: ended_ok_def split: round.splits)
    from 3 show ?case by (auto simp: Suc.IH close split: flow.split)
  qed auto
qed simp

lemma obtain_plan_sat:
  assumes "good s" and "sound V planned"
  shows "sat good (sound V) (obtain_plan n planned g approved resume s)"
proof (cases "or_str resume None")
  case None
  with assms show ?thesis
    by (auto simp: obtain_plan_def good_def dest: creates split: sum.split)
next
  case (Some i)
  with assms show ?thesis
    by (auto simp: obtain_plan_def good_def dest: loads split: sum.split option.split)
qed

lemma execute_goal_sat:
  assumes "good s" and "sound V planned"
  shows "sat good (\<lambda>q. sound V q \<and> (pl_status q = Plan_COMPLETED \<longrightarrow> all_verified q))
    (execute_goal n planned g approved resume repair k s)"
proof -
  define s1 where "s1 = say (Ev_Planning GOAL_CREATED) [(''goal'', dump_goal g)] s"
  have s1: "good (s1\<lparr>sv_db := goal_create g (sv_db s1)\<rparr>)"
    using assms(1) goals by (simp add: good_def s1_def)
  show ?thesis
    unfolding execute_goal_def Let_def s1_def[symmetric]
    by (rule sat_bind[OF obtain_plan_sat[OF s1 assms(2)]])
      (auto intro!: dependency_plan_sat linear_loop_sat split: plan_mode.split)
qed

end

end
