(* ===== verification/PlanSafety.thy ===== *)
theory PlanSafety imports PlanRun RunSafety SideEffects begin

text \<open>
  What an execution of a goal guarantees, whoever plans, executes and verifies: the laws of
  \<open>service_run\<close> are discharged for three choices of its parameters.
\<close>

section \<open>Any execution\<close>

interpretation any_run: service_run n g approved True "\<lambda>_. True" "\<lambda>_. True" for n g approved
  by unfold_locales simp_all

section \<open>Tables without finished steps\<close>

definition unfinished :: "plan_db \<Rightarrow> bool" where
  "unfinished db \<longleftrightarrow> (\<forall>r\<in>set (pd_steps db). ps_status (sr_step r) \<notin> terminal_verified)"

lemma row_status [simp]:
  "ps_status (sr_step (step_row_of pid k x)) = ps_status x" "ps_status (sr_step (update_step_row k x r)) = ps_status x"
  "ps_status (step_of_row r) = ps_status (sr_step r)"
  by (simp_all add: step_row_of_def update_step_row_def step_of_row_def Let_def)

lemma upsert_unfinished:
  assumes "\<forall>r\<in>set rows. ps_status (sr_step r) \<notin> terminal_verified" and "ps_status x \<notin> terminal_verified"
  shows "\<forall>r\<in>set (upsert_step p x rows). ps_status (sr_step r) \<notin> terminal_verified"
  using assms by (auto simp: upsert_step_def Let_def split: option.splits)

lemma upserts_unfinished:
  assumes "\<forall>r\<in>set rows. ps_status (sr_step r) \<notin> terminal_verified" and "\<forall>x\<in>set xs. ps_status x \<notin> terminal_verified"
  shows "\<forall>r\<in>set (fold (upsert_step p) xs rows). ps_status (sr_step r) \<notin> terminal_verified"
  using assms
proof (induction xs arbitrary: rows)
  case (Cons x xs)
  then show ?case using upsert_unfinished[of rows x p] by simp
qed simp

lemma store_unfinished: "unfinished db \<Longrightarrow> sound False p \<Longrightarrow> unfinished (store_plan p r db)"
  unfolding unfinished_def sound_def store_plan_def
  using upserts_unfinished[of "pd_steps db" "pl_steps p" p] by simp

lemma update_unfinished: "unfinished db \<Longrightarrow> sound False p \<Longrightarrow> plan_update p db = Inr db' \<Longrightarrow> unfinished db'"
  by (auto simp: plan_update_def store_unfinished split: option.splits)

lemma enumerate_unfinished:
  "\<forall>x\<in>set xs. ps_status x \<notin> terminal_verified \<Longrightarrow>
   \<forall>r\<in>set (enumerate_rows pid k xs). ps_status (sr_step r) \<notin> terminal_verified"
  by (induction xs arbitrary: k) auto

lemma create_unfinished: "unfinished db \<Longrightarrow> sound False p \<Longrightarrow> plan_create p db = Inr db' \<Longrightarrow> unfinished db'"
  using enumerate_unfinished[of "pl_steps p" "pl_id p" 0]
  by (auto simp: plan_create_def unfinished_def sound_def split: if_splits option.splits)

lemma fingerprints_unfinished:
  "\<forall>x\<in>set xs. ps_status x \<notin> terminal_verified \<Longrightarrow> \<forall>x\<in>set (with_fingerprints sha xs). ps_status x \<notin> terminal_verified"
  by (auto simp: with_fingerprints_def)

lemma get_sound:
  assumes "unfinished db" and "plan_get sha i db = Inr (Some p)"
  shows "sound False p"
proof -
  have steps: "\<forall>x\<in>set (plan_steps_of i db). ps_status x \<notin> terminal_verified"
    using assms(1) by (auto simp: plan_steps_of_def unfinished_def)
  have "pl_steps p = with_fingerprints sha (plan_steps_of i db)"
    using assms(2) by (auto simp: plan_get_def validate_plan_def Let_def split: option.splits sum.splits)
  with fingerprints_unfinished[OF steps] show ?thesis by (simp add: sound_def)
qed

text \<open>A replan of a plan without finished steps preserves none, and the planner proposes none.\<close>

lemma preserve_none: "preserve sha [] pid kept todo lg remap = (kept @ todo, lg, remap)"
proof (induction todo arbitrary: kept)
  case (Cons a todo)
  then show ?case by (cases a) simp
qed simp

lemma stale_unfinished:
  assumes "stale_where P r pid ss l = (ss', l', ids)" and "\<forall>x\<in>set ss. ps_status x \<notin> terminal_verified"
  shows "\<forall>x\<in>set ss'. ps_status x \<notin> terminal_verified"
proof -
  have "ss' = map (\<lambda>s. if P s then s\<lparr>ps_status := Step_STALE\<rparr> else s) ss"
    using stale_where_steps[of P r pid ss l] assms(1) by simp
  with assms(2) show ?thesis by (auto simp: terminal_verified_def)
qed

lemma revise_sound:
  assumes "sound False p" and "\<forall>x\<in>set proposal. ps_status x \<notin> terminal_verified"
  shows "\<forall>x\<in>set (rv_steps (revise sha p proposal affected lg)). ps_status x \<notin> terminal_verified"
proof (rule revise_unfold[of affected p lg sha proposal], goal_cases)
  case r: (1 st1 log1 inv1 props log2 remap st2 log3 inv2 st3 log4 inv3 retained)
  have old: "completed_by_fingerprint sha (pl_steps p) = []"
    using assms(1) by (simp add: completed_by_fingerprint_def sound_def filter_empty_conv)
  have props: "map snd props = proposal" using r(2) unfolding old preserve_none by (auto simp: comp_def)
  have "\<forall>x\<in>set (pl_steps p). ps_status x \<notin> terminal_verified" using assms(1) by (simp add: sound_def)
  from stale_unfinished[OF r(4) stale_unfinished[OF r(3) stale_unfinished[OF r(1) this]]]
  have "\<forall>x\<in>set retained. ps_status x \<notin> terminal_verified" using r(5) by simp
  with assms(2) have "\<forall>x\<in>set (retained @ map (remap_depends remap) proposal). ps_status x \<notin> terminal_verified"
    by (auto simp: remap_depends_def)
  then show ?case unfolding r(6) revision.select_convs props by (rule fingerprints_unfinished)
qed

lemma consume_unfinished:
  assumes "unfinished (st_db st)" and "\<And>i. sound False (planner i)" and "\<And>db. unfinished db \<Longrightarrow> unfinished (others db)"
    and "consume sha enum planner others g caller sigs ctx st = (res, st')"
  shows "unfinished (st_db st')"
  using assms(4)
proof (cases rule: consume_cases)
  case refused
  with assms(1) show ?thesis by simp
next
  case (tried p proposal)
  define rv where "rv = revise sha p proposal (affected_subgraph p sigs) (st_log st)"
  have "\<forall>x\<in>set proposal. ps_status x \<notin> terminal_verified"
    unfolding tried(7) using assms(2) unfolding sound_def by blast
  from revise_sound[OF get_sound[OF assms(1) tried(1)] this] have q: "sound False (revised_plan enum sigs p rv)"
    by (simp add: sound_def revised_plan_def rv_def)
  from tried(6) obtain k ofp nfp where "commit_replan sha others (pl_version p) (revised_plan enum sigs p rv) rv k ofp nfp
    (affected_subgraph p sigs) st = (res, st')" unfolding rv_def by blast
  then show ?thesis
  proof (cases rule: commit_cases)
    case conflict
    with assms(1,3) show ?thesis by simp
  next
    case (committed db' r)
    from committed(1) obtain row where "db' = store_plan (revised_plan enum sigs p rv) row (others (st_db st))"
      by (rule update_if_version_cases)
    with store_unfinished[OF assms(3)[OF assms(1)] q] committed(2) show ?thesis by simp
  qed
qed

lemma goal_unfinished [simp]: "unfinished (goal_create g db) = unfinished db"
  by (simp add: goal_create_def unfinished_def)

section \<open>Repairs\<close>

lemma put_step_ids [simp]: "map ps_id (pl_steps (put_step x p)) = map ps_id (pl_steps p)"
  by (simp add: put_step_def)

lemma found_unique:
  "distinct (map ps_id (pl_steps p)) \<Longrightarrow> find_step i p = Some y \<Longrightarrow> x \<in> set (pl_steps p) \<Longrightarrow> ps_id x = i \<Longrightarrow> x = y"
  by (auto simp: find_step_def find_Some_iff distinct_map dest!: inj_onD)

text \<open>A step object is kept when only other steps are written.\<close>

definition keeps_step :: "plan_step \<Rightarrow> plan \<Rightarrow> bool" where
  "keeps_step x p \<longleftrightarrow> distinct (map ps_id (pl_steps p)) \<and> x \<in> set (pl_steps p)"

lemma put_keeps_step:
  assumes "keeps_step x p" and "find_step i p = Some y" and "ps_id z = ps_id y" and "ps_status x \<noteq> ps_status y"
  shows "keeps_step x (put_step z p)"
proof -
  have "ps_id y = i" using assms(2) by (auto simp: find_step_def find_Some_iff)
  with assms have "ps_id x \<noteq> ps_id z" using found_unique[of p i y x] by (auto simp: keeps_step_def)
  moreover have "x \<in> set (pl_steps p)" using assms(1) by (simp add: keeps_step_def)
  ultimately have "x \<in> set (pl_steps (put_step z p))" by (force simp: put_step_def)
  with assms(1) show ?thesis by (simp add: keeps_step_def)
qed

lemma repair_writes_keep:
  assumes "keeps_step x (fst st)" and "ps_status x = Step_VERIFIED"
  shows "keeps_step x (fst (invalidate_target repair i st))" and "keeps_step x (fst (unblock_dependent repair i st))"
proof -
  have "keeps_step x (put_step (y\<lparr>ps_status := Step_PENDING\<rparr>) (fst st))"
    if "find_step i (fst st) = Some y" "ps_status y \<noteq> Step_VERIFIED" for y
    using put_keeps_step[OF assms(1) that(1), of "y\<lparr>ps_status := Step_PENDING\<rparr>"] that(2) assms(2) by simp
  then show "keeps_step x (fst (invalidate_target repair i st))" "keeps_step x (fst (unblock_dependent repair i st))"
    using assms(1) by (auto simp: invalidate_target_def unblock_dependent_def repairable_def split_beta split: option.split)
qed

lemma fold_keeps_step:
  assumes "keeps_step x (fst st)" and "\<And>i st. keeps_step x (fst st) \<Longrightarrow> keeps_step x (fst (f i st))"
  shows "keeps_step x (fst (fold f js st))"
  using assms(1) by (induction js arbitrary: st) (simp_all add: assms(2))

lemma save_rows [simp]: "sv_rows (snd (save p s)) = sv_rows s"
  by (simp add: save_def split: sum.split)

lemma save_and_go_rows [simp]: "sv_rows (snd (save_and_go p s)) = sv_rows s"
  using save_rows[of p s] by (cases "save p s"; cases "fst (save p s)") (auto simp: save_and_go_def bind_svc_def)

lemma move_rows: "move st r e x p s = (y, q, t) \<Longrightarrow> sv_rows t = sv_rows s"
  using move_simps(4)[of st r e x p s] by simp

lemma save_result: "save p s = (Inr u, t) \<Longrightarrow> sv_rows t = sv_rows s"
  using save_rows[of p s] by simp

lemma save_and_go_plan: "save_and_go p s = (Inr f, t) \<Longrightarrow> f = Go p"
  by (auto simp: save_and_go_def bind_svc_def split: prod.splits sum.splits)

lemma fail_stop_plan:
  "bind_svc (fail_plan p s) (\<lambda>q s. (Inr (Stop q), s)) = (Inr f, t) \<Longrightarrow> f = Stop (p\<lparr>pl_status := Plan_FAILED\<rparr>)"
  by (auto simp: fail_plan_def bind_svc_def Let_def split: prod.splits sum.splits)

section \<open>What an unguarded write leaves\<close>

lemma step_row_id [simp]: "sr_id (step_row_of pid k x) = ps_id x" "sr_id (update_step_row k x r) = ps_id x"
  by (simp_all add: sr_id_def step_row_of_def update_step_row_def)

lemma row_get_replace:
  assumes "\<And>r. key r = i \<Longrightarrow> key (f r) = i"
  shows "row_get key k (map (\<lambda>r. if key r = i then f r else r) rows) =
    (if k = i then map_option f (row_get key k rows) else row_get key k rows)"
  using assms by (induction rows) (auto simp: row_get_def)

lemma row_get_snoc:
  "row_get key k (rows @ [r]) = (case row_get key k rows of Some q \<Rightarrow> Some q | None \<Rightarrow> if key r = k then Some r else None)"
  by (induction rows) (auto simp: row_get_def)

lemma upsert_get:
  "\<exists>r. row_get sr_id (ps_id x) (upsert_step p x rows) = Some r \<and> ps_status (sr_step r) = ps_status x"
  "k \<noteq> ps_id x \<Longrightarrow> row_get sr_id k (upsert_step p x rows) = row_get sr_id k rows"
  by (auto simp: upsert_step_def Let_def row_get_replace row_get_snoc split: option.split)

lemma upserts_other: "k \<notin> ps_id ` set xs \<Longrightarrow> row_get sr_id k (fold (upsert_step p) xs rows) = row_get sr_id k rows"
  by (induction xs arbitrary: rows) (simp_all add: upsert_get(2))

lemma upserts_get:
  assumes "distinct (map ps_id xs)" and "x \<in> set xs"
  shows "\<exists>r. row_get sr_id (ps_id x) (fold (upsert_step p) xs rows) = Some r \<and> ps_status (sr_step r) = ps_status x"
  using assms
proof (induction xs arbitrary: rows)
  case (Cons y ys)
  show ?case
  proof (cases "x = y")
    case True
    with Cons.prems have "row_get sr_id (ps_id x) (fold (upsert_step p) ys (upsert_step p y rows))
        = row_get sr_id (ps_id x) (upsert_step p y rows)" by (intro upserts_other) auto
    with True upsert_get(1)[of x p rows] show ?thesis by simp
  next
    case False
    with Cons show ?thesis by simp
  qed
qed simp

lemma update_stores_status:
  assumes "distinct (map ps_id (pl_steps p))" and "x \<in> set (pl_steps p)" and "row_get pr_id (pl_id p) (pd_plans (sv_db s)) = Some r"
  shows "\<exists>row. row_get sr_id (ps_id x) (pd_steps (sv_db (snd (save_and_go p s)))) = Some row \<and>
    ps_status (sr_step row) = ps_status x"
  using upserts_get[OF assms(1,2)] assms(3)
  by (simp add: save_and_go_def save_def plan_update_def store_plan_def bind_svc_def)

section \<open>A sample service\<close>

text \<open>One capability, with or without approval, an executor that claims success, no verifier.\<close>

definition sample_svc :: "bool \<Rightarrow> svc_env" where
  "sample_svc approval =
     \<lparr>sn_sha = \<lambda>_. ''h'', sn_enum = \<lambda>_. [], sn_planner = \<lambda>_. tiny_plan, sn_others = id,
      sn_spec = \<lambda>_. Some (approval, False), sn_capabilities = PNone, sn_verifier = None,
      sn_orch = \<lambda>_ _ _. sample_env (Returned (plain_result Exec_SUCCESS (Some ''ok'') None None) 5),
      sn_cfg = sample_run ''E'', sn_written = \<lambda>_. [], sn_agent = False, sn_json = \<lambda>_. None, sn_float = \<lambda>_. 60,
      sn_new_id = sample_ids, sn_repair_guard = None, sn_replan_guard = None\<rparr>"

definition sample_service :: "plan_db \<Rightarrow> service" where
  "sample_service db =
     \<lparr>sv_db = db, sv_rows = \<lparr>xr_tasks = [], xr_runs = [], xr_attempts = [], xr_reports = [], xr_validations = [],
        xr_signals = []\<rparr>,
      sv_log = [], sv_ctx = [], sv_exec = [], sv_ids = 0, sv_repair_calls = 0, sv_replan_calls = 0, sv_shared = []\<rparr>"

definition one_step_plan :: "step_status \<Rightarrow> plan" where
  "one_step_plan st =
     tiny_plan\<lparr>pl_mode := SIMPLE_DEPENDENCY, pl_steps := [(plain_step ''a'' ''x'' [])\<lparr>ps_status := st\<rparr>]\<rparr>"

definition two_step_plan :: "step_status \<Rightarrow> step_status \<Rightarrow> plan" where
  "two_step_plan st su =
     tiny_plan\<lparr>pl_mode := SIMPLE_DEPENDENCY, pl_steps := [(plain_step ''a'' ''x'' [])\<lparr>ps_status := st\<rparr>,
       (plain_step ''b'' ''y'' [''a''])\<lparr>ps_status := su\<rparr>]\<rparr>"

definition sample_execution :: "bool \<Rightarrow> step_status \<Rightarrow> plan svc" where
  "sample_execution approval st =
     execute_goal (sample_svc approval) (one_step_plan st) sample_goal [] None [] 5 (sample_service empty_plan_db)"

lemma result_status:
  "map_sum f pl_status (fst m) = Inr st \<Longrightarrow> \<exists>q. m = (Inr q, snd m) \<and> pl_status q = st"
  by (cases m; cases "fst m") auto

section \<open>Properties\<close>

text \<open>C4: A plan is reported COMPLETED only when it is: every plan that execute_goal returns as
  COMPLETED, in either mode, fresh, resumed or under repair, has every step VERIFIED or STALE
  and at least one step VERIFIED.\<close>

theorem completed_plan_is_verified:
  assumes "execute_goal n planned g approved resume repair fuel s = (Inr q, t)" and "pl_status q = Plan_COMPLETED"
  shows "(\<forall>x\<in>set (pl_steps q). ps_status x = Step_VERIFIED \<or> ps_status x = Step_STALE) \<and>
    (\<exists>x\<in>set (pl_steps q). ps_status x = Step_VERIFIED)"
  using any_run.execute_goal_sat[of s planned n g approved resume repair fuel] assms
  by (auto simp: any_run.good_def all_verified_def any_status_def list_all_iff list_ex_iff)

theorem completed_plan_is_verified_witness:
  "\<exists>q t. sample_execution False Step_VERIFIED = (Inr q, t) \<and> pl_status q = Plan_COMPLETED \<and>
     (\<exists>x\<in>set (pl_steps q). ps_status x = Step_VERIFIED)"
proof -
  have "map_sum id pl_status (fst (sample_execution False Step_VERIFIED)) = Inr Plan_COMPLETED" by code_simp
  then obtain q where q: "sample_execution False Step_VERIFIED = (Inr q, snd (sample_execution False Step_VERIFIED))"
    "pl_status q = Plan_COMPLETED" using result_status by blast
  with completed_plan_is_verified[OF q(1)[unfolded sample_execution_def] q(2)] show ?thesis by metis
qed

text \<open>C5: Nothing completes on the word of the agent that did it. When no verifier is configured, or
  the one configured accepts nothing, no plan is ever returned COMPLETED and no stored step
  ever becomes VERIFIED, whatever the executors claim and however often the plan is repaired
  or replanned; the planner and the other writers of the tables must not write finished steps
  themselves.\<close>

theorem nothing_completes_unverified:
  assumes "\<And>f i x p rows. sn_verifier n = Some f \<Longrightarrow> \<not> vd_accepted (fst (f i x p rows))"
    and "\<And>i x. x \<in> set (pl_steps (sn_planner n i)) \<Longrightarrow> ps_status x \<notin> terminal_verified"
    and "\<And>db. unfinished db \<Longrightarrow> unfinished (sn_others n db)"
    and "\<And>x. x \<in> set (pl_steps planned) \<Longrightarrow> ps_status x \<notin> terminal_verified" and "unfinished (sv_db s)"
    and "execute_goal n planned g approved resume repair fuel s = (r, t)"
  shows "unfinished (sv_db t) \<and> (\<forall>q. r = Inr q \<longrightarrow> pl_status q \<noteq> Plan_COMPLETED)"
proof -
  have planner: "sound False (sn_planner n i)" for i using assms(2) by (auto simp: sound_def)
  have run: "service_run n g approved False unfinished (\<lambda>_. True)"
  proof (unfold_locales, goal_cases)
    case (5 st p sigs ctx r st')
    show ?case by (rule consume_unfinished[OF 5(1) planner assms(3) 5(2)])
  qed (use assms(1) in \<open>auto intro: update_unfinished get_sound create_unfinished\<close>)
  have "sound False planned" using assms(4) by (auto simp: sound_def)
  then have "unfinished (sv_db t) \<and> (\<forall>q. r = Inr q \<longrightarrow> sound False q \<and> (pl_status q = Plan_COMPLETED \<longrightarrow> all_verified q))"
    using service_run.execute_goal_sat[OF run, of s planned resume repair fuel] assms(5)
    unfolding assms(6) sat_pair service_run.good_def[OF run] by simp
  moreover have "\<not> (sound False q \<and> all_verified q)" for q
    by (auto simp: sound_def all_verified_def any_status_def list_ex_iff terminal_verified_def)
  ultimately show ?thesis by blast
qed

theorem nothing_completes_unverified_witness:
  "\<exists>q t. sample_execution False Step_CLAIMED_COMPLETE = (Inr q, t) \<and> pl_status q = Plan_WAITING_FOR_VERIFICATION \<and>
     pl_status q \<noteq> Plan_COMPLETED \<and> unfinished (sv_db t)"
proof -
  have "map_sum id pl_status (fst (sample_execution False Step_CLAIMED_COMPLETE)) = Inr Plan_WAITING_FOR_VERIFICATION"
    by code_simp
  then obtain q t where q: "sample_execution False Step_CLAIMED_COMPLETE = (Inr q, t)"
    "pl_status q = Plan_WAITING_FOR_VERIFICATION" using result_status by blast
  have "unfinished (sv_db t) \<and> (\<forall>p. Inr q = (Inr p :: svc_error + plan) \<longrightarrow> pl_status p \<noteq> Plan_COMPLETED)"
    by (rule nothing_completes_unverified[OF _ _ _ _ _ q(1)[unfolded sample_execution_def]])
      (auto simp: sample_svc_def tiny_plan_def one_step_plan_def plain_step_def terminal_verified_def unfinished_def
        sample_service_def empty_plan_db_def)
  with q show ?thesis by blast
qed

text \<open>C6: Nothing runs without approval. When every registered capability needs a human approval
  (its own, or the goal's because it has side effects) and none was given, execute_goal
  creates no task, no run and no attempt, in either mode and whatever is replanned; the
  verifier must not create any either.\<close>

theorem no_work_without_approval:
  assumes "\<And>c ap se. sn_spec n c = Some (ap, se) \<Longrightarrow> ap \<or> gl_requires_approval g \<and> se"
    and "\<And>f i x p rows. sn_verifier n = Some f \<Longrightarrow> work (snd (f i x p rows)) = work rows"
    and "execute_goal n planned g [] resume repair fuel s = (r, t)"
  shows "xr_tasks (sv_rows t) = xr_tasks (sv_rows s) \<and> xr_runs (sv_rows t) = xr_runs (sv_rows s) \<and>
    xr_attempts (sv_rows t) = xr_attempts (sv_rows s)"
proof -
  have gate: "gated n g [] x" if "sn_spec n (ps_capability x) \<noteq> None" for x
    using that assms(1) by (auto simp: gated_def)
  have run: "service_run n g [] True (\<lambda>_. True) (\<lambda>w. w = work (sv_rows s))"
    by unfold_locales (use gate assms(2) in auto)
  show ?thesis
    using service_run.execute_goal_sat[OF run, of s planned resume repair fuel]
    unfolding assms(3) sat_pair service_run.good_def[OF run] by (simp add: work_def)
qed

theorem no_work_without_approval_witness:
  "\<exists>q t. sample_execution True Step_PENDING = (Inr q, t) \<and> pl_status q = Plan_WAITING_FOR_HUMAN_APPROVAL \<and>
     xr_tasks (sv_rows t) = []"
proof -
  have "map_sum id pl_status (fst (sample_execution True Step_PENDING)) = Inr Plan_WAITING_FOR_HUMAN_APPROVAL"
    by code_simp
  then obtain q t where q: "sample_execution True Step_PENDING = (Inr q, t)"
    "pl_status q = Plan_WAITING_FOR_HUMAN_APPROVAL" using result_status by blast
  with no_work_without_approval[OF _ _ q(1)[unfolded sample_execution_def]]
  have "xr_tasks (sv_rows t) = []" by (simp add: sample_svc_def sample_service_def)
  with q show ?thesis by blast
qed

text \<open>Dependencies are checked again at the moment of dispatch. A step that the schedule
  released starts no task, run or attempt when the stored plan, which another writer may have
  changed since, has a dependency of it that is not VERIFIED.\<close>

theorem dispatch_rechecks_dependencies:
  assumes "plan_get (sn_sha n) (pl_id p) (sv_db s) = Inr (Some q)"
    and "map_of (index_steps (pl_steps q)) (ps_id x) = Some y" and "d \<in> set (ps_depends y)"
    and "\<And>z. map_of (index_steps (pl_steps q)) d = Some z \<Longrightarrow> ps_status z \<noteq> Step_VERIFIED"
    and "ready_step n g approved x p s = (r, t)"
  shows "work (sv_rows t) = work (sv_rows s)"
proof -
  define s1 where "s1 = say (Ev_Planning PLAN_STEP_READY) [(''plan_id'', PStr (pl_id p)), (''step_id'', PStr (ps_id x))] s"
  have s1: "sv_rows s1 = sv_rows s" "reload n p s1 = (Inr q, s1)"
    using assms(1) by (simp_all add: s1_def reload_def)
  define el where "el ctx = evaluate_step_eligibility y (index_steps (pl_steps q)) ctx (Some (pl_id p)) DISPATCH (sv_log s1)" for ctx
  have not: "b = False" if "el ctx = (Inr (b, reason), l)" for ctx b reason l
    using that eligibility_true[of y "index_steps (pl_steps q)" ctx "Some (pl_id p)" DISPATCH "sv_log s1"]
      dependency_obstacle_None[of "index_steps (pl_steps q)" "ps_depends y"] assms(3,4)
    unfolding el_def by (metis (full_types) fst_conv)
  have "sv_rows (snd (ready_step n g approved x p s)) = sv_rows s"
  proof (cases "sn_spec n (ps_capability x) = None \<or> gated n g approved x")
    case True
    then show ?thesis unfolding ready_step_def Let_def s1_def[symmetric] by (auto simp: s1 split_beta)
  next
    case False
    then have spec: "sn_spec n (ps_capability x) \<noteq> None" and gate: "\<not> gated n g approved x" by simp_all
    show ?thesis
      unfolding ready_step_def Let_def s1_def[symmetric] if_not_P[OF spec] if_not_P[OF gate] s1(2) bind_svc_def
        prod.case sum.case assms(2) option.case el_def[symmetric]
      using s1(1) by (auto split: prod.split sum.split dest!: move_rows not)
  qed
  with assms(5) show ?thesis by simp
qed

theorem dispatch_rechecks_dependencies_witness:
  "xr_tasks (sv_rows (snd (ready_step (sample_svc False) sample_goal [] (plain_step ''b'' ''y'' [''a'']) tiny_plan
     (sample_service (projr (plan_create (two_step_plan Step_FAILED Step_PENDING) empty_plan_db)))))) = []"
proof -
  let ?s = "sample_service (projr (plan_create (two_step_plan Step_FAILED Step_PENDING) empty_plan_db))"
  let ?get = "plan_get (sn_sha (sample_svc False)) (pl_id tiny_plan) (sv_db ?s)"
  have "case ?get of Inr (Some q) \<Rightarrow>
      map_option ps_depends (map_of (index_steps (pl_steps q)) ''b'') = Some [''a''] \<and>
      map_option ps_status (map_of (index_steps (pl_steps q)) ''a'') = Some Step_FAILED | _ \<Rightarrow> False" by code_simp
  then obtain q y z where q: "?get = Inr (Some q)" "map_of (index_steps (pl_steps q)) ''b'' = Some y" "ps_depends y = [''a'']"
    "map_of (index_steps (pl_steps q)) ''a'' = Some z" "ps_status z = Step_FAILED"
    by (auto split: sum.splits option.splits)
  have "work (sv_rows (snd (ready_step (sample_svc False) sample_goal [] (plain_step ''b'' ''y'' [''a'']) tiny_plan ?s)))
      = work (sv_rows ?s)"
    by (rule dispatch_rechecks_dependencies[OF q(1) _ _ _ prod.collapse[symmetric], of _ y "''a''"])
      (use q in \<open>simp_all add: plain_step_def\<close>)
  then show ?thesis by (simp add: work_def sample_service_def)
qed

text \<open>The recheck undoes what it noticed. When the stored plan shows that a dependency of the
  step is no longer VERIFIED, the step is skipped, but its plan object, which is older, is
  written without a version guard: afterwards every stored step has the status of the older
  plan again, so the next round sees the dependency as it was and releases the step.\<close>

theorem recheck_restores_older_plan:
  assumes "plan_get (sn_sha n) (pl_id p) (sv_db s) = Inr (Some q)"
    and "map_of (index_steps (pl_steps q)) (ps_id x) = Some y"
    and "ps_status y = Step_PENDING" and "dependency_obstacle (index_steps (pl_steps q)) (ps_depends y) = Some reason"
    and "\<not> contains ''precondition'' reason"
    and "sn_spec n (ps_capability x) \<noteq> None" and "\<not> gated n g approved x"
    and "distinct (map ps_id (pl_steps p))" and "z \<in> set (pl_steps p)"
  shows "\<exists>row. row_get sr_id (ps_id z) (pd_steps (sv_db (snd (ready_step n g approved x p s)))) = Some row \<and>
    ps_status (sr_step row) = ps_status z"
proof -
  define s1 where "s1 = say (Ev_Planning PLAN_STEP_READY) [(''plan_id'', PStr (pl_id p)), (''step_id'', PStr (ps_id x))] s"
  have s1: "sv_db s1 = sv_db s" "reload n p s1 = (Inr q, s1)"
    using assms(1) by (simp_all add: s1_def reload_def)
  have el: "evaluate_step_eligibility y (index_steps (pl_steps q)) ctx (Some (pl_id p)) DISPATCH (sv_log s1) =
      (Inr (False, reason), sv_log s1)" for ctx
    using assms(3,4) by (simp add: evaluate_step_eligibility_def active_statuses_def terminal_verified_def failed_or_blocked_def)
  obtain r where r: "row_get pr_id (pl_id p) (pd_plans (sv_db s)) = Some r"
    using assms(1) by (auto simp: plan_get_def split: option.splits)
  have "ready_step n g approved x p s = save_and_go p s1"
    unfolding ready_step_def Let_def s1_def[symmetric] if_not_P[OF assms(6)] if_not_P[OF assms(7)] s1(2) bind_svc_def
      prod.case sum.case assms(2) option.case el using assms(5) by simp
  with update_stores_status[OF assms(8,9), of s1] r s1(1) show ?thesis by simp
qed

theorem recheck_restores_older_plan_witness:
  "map_option (\<lambda>r. ps_status (sr_step r)) (row_get sr_id ''a'' (pd_steps (sv_db (snd
     (ready_step (sample_svc False) sample_goal [] (plain_step ''b'' ''y'' [''a'']) (two_step_plan Step_VERIFIED Step_PENDING)
       (sample_service (projr (plan_create (two_step_plan Step_FAILED Step_PENDING) empty_plan_db)))))))) = Some Step_VERIFIED"
proof -
  let ?s = "sample_service (projr (plan_create (two_step_plan Step_FAILED Step_PENDING) empty_plan_db))"
  let ?p = "two_step_plan Step_VERIFIED Step_PENDING"
  let ?get = "plan_get (sn_sha (sample_svc False)) (pl_id ?p) (sv_db ?s)"
  have "case ?get of Inr (Some q) \<Rightarrow>
      map_option ps_depends (map_of (index_steps (pl_steps q)) ''b'') = Some [''a''] \<and>
      map_option ps_status (map_of (index_steps (pl_steps q)) ''b'') = Some Step_PENDING \<and>
      dependency_obstacle (index_steps (pl_steps q)) [''a''] = Some ''dependency_a_failed'' | _ \<Rightarrow> False" by code_simp
  then obtain q y where q: "?get = Inr (Some q)" "map_of (index_steps (pl_steps q)) ''b'' = Some y" "ps_depends y = [''a'']"
    "ps_status y = Step_PENDING" "dependency_obstacle (index_steps (pl_steps q)) [''a''] = Some ''dependency_a_failed''"
    by (auto split: sum.splits option.splits)
  have c: "\<not> contains ''precondition'' ''dependency_a_failed''" by code_simp
  have "\<exists>row. row_get sr_id (ps_id ((plain_step ''a'' ''x'' [])\<lparr>ps_status := Step_VERIFIED\<rparr>)) (pd_steps (sv_db (snd
      (ready_step (sample_svc False) sample_goal [] (plain_step ''b'' ''y'' [''a'']) ?p ?s)))) = Some row \<and>
    ps_status (sr_step row) = ps_status ((plain_step ''a'' ''x'' [])\<lparr>ps_status := Step_VERIFIED\<rparr>)"
    by (rule recheck_restores_older_plan[OF q(1) _ q(4) _ c])
      (use q in \<open>simp_all add: plain_step_def two_step_plan_def sample_svc_def gated_def sample_goal_def\<close>)
  then show ?thesis by (auto simp: plain_step_def)
qed

text \<open>C7: A repair preserves verified work. When the steps of the plan have distinct ids, preparing
  a repair of any set of steps leaves every VERIFIED step of the plan as it was, also when it
  is among the repair targets.\<close>

theorem repair_preserves_verified:
  assumes "distinct (map ps_id (pl_steps p))" and "x \<in> set (pl_steps p)" and "ps_status x = Step_VERIFIED"
    and "repair_mode repair p s = (Inr f, t)"
  shows "case f of Go q \<Rightarrow> x \<in> set (pl_steps q) | Stop q \<Rightarrow> x \<in> set (pl_steps q) | Restart \<Rightarrow> False"
proof -
  consider (none) "repair = []" | (blocked) "repair \<noteq> []" "official s \<and> repair_started p"
    | (run) "repair \<noteq> []" "\<not> (official s \<and> repair_started p)" by blast
  then show ?thesis
  proof cases
    case none
    with assms(2,4) show ?thesis by (auto simp: repair_mode_def)
  next
    case blocked
    with assms(2,4) show ?thesis by (auto simp: repair_mode_def dest: fail_stop_plan)
  next
    case run
    define p1 where "p1 = (if official s
      then p\<lparr>pl_metadata := AList.update ''official_repair_execution_started'' (PBool True) (pl_metadata p)\<rparr> else p)"
    have kept: "keeps_step x p1" using assms(1,2) by (simp add: p1_def keeps_step_def)
    obtain s1 where "save_and_go
        (fst (fold (unblock_dependent repair) (map ps_id (pl_steps p1)) (fold (invalidate_target repair) (map ps_id (pl_steps p1)) (p1, s1))))
        (snd (fold (unblock_dependent repair) (map ps_id (pl_steps p1)) (fold (invalidate_target repair) (map ps_id (pl_steps p1)) (p1, s1))))
      = (Inr f, t)"
      using assms(4) unfolding repair_mode_def if_not_P[OF run(1)] if_not_P[OF run(2)] Let_def p1_def[symmetric] split_beta
      by (auto simp: bind_svc_def split: prod.splits sum.splits)
    then have f: "f = Go (fst (fold (unblock_dependent repair) (map ps_id (pl_steps p1))
        (fold (invalidate_target repair) (map ps_id (pl_steps p1)) (p1, s1))))" by (rule save_and_go_plan)
    have "keeps_step x (fst (fold (unblock_dependent repair) js (fold (invalidate_target repair) ks (p1, s1))))" for js ks
      by (intro fold_keeps_step repair_writes_keep assms(3)) (use kept in auto)
    with f show ?thesis by (simp add: keeps_step_def)
  qed
qed

theorem repair_preserves_verified_witness:
  "\<exists>q t. repair_mode [''a'', ''b''] (two_step_plan Step_VERIFIED Step_FAILED)
     (sample_service (projr (plan_create (two_step_plan Step_VERIFIED Step_FAILED) empty_plan_db))) = (Inr (Go q), t) \<and>
     (plain_step ''a'' ''x'' [])\<lparr>ps_status := Step_VERIFIED\<rparr> \<in> set (pl_steps q)"
proof -
  let ?p = "two_step_plan Step_VERIFIED Step_FAILED"
  let ?r = "repair_mode [''a'', ''b''] ?p (sample_service (projr (plan_create ?p empty_plan_db)))"
  have "case fst ?r of Inr (Go q) \<Rightarrow> True | _ \<Rightarrow> False" by code_simp
  then obtain q where q: "?r = (Inr (Go q), snd ?r)" by (cases ?r) (auto split: sum.splits flow.splits)
  have "case Go q of Go q \<Rightarrow> (plain_step ''a'' ''x'' [])\<lparr>ps_status := Step_VERIFIED\<rparr> \<in> set (pl_steps q)
      | Stop q \<Rightarrow> (plain_step ''a'' ''x'' [])\<lparr>ps_status := Step_VERIFIED\<rparr> \<in> set (pl_steps q) | Restart \<Rightarrow> False"
    by (rule repair_preserves_verified[OF _ _ _ q]) (simp_all add: two_step_plan_def plain_step_def)
  with q show ?thesis by auto
qed

text \<open>C40: One tool observation makes the agent's own words trusted. When the trace of an agent's run
  holds one successful observation with output, everything the agent reported as a JSON object
  counts as evidence of a tool contract for the verifier, wherever no artifact has the key.\<close>

theorem agent_report_becomes_trusted:
  assumes "native_evidence (Some r) \<noteq> []" and "ps_output x = PDict d" and "map_of d key = Some v"
    and "map_of (er_artifacts r) key = None" and "map_of (native_evidence (Some r)) key = None"
    and "step_record y = evidence_record n x (Some r)"
  shows "map_of (trusted_evidence y) key = Some v"
proof -
  let ?a = "dict_merge (er_artifacts r) (native_evidence (Some r))"
  have absent: "map_of (rev ys) key = None" if "map_of ys key = None" for ys :: pydict
    using that by (simp add: map_of_eq_None_iff)
  have "map_of ?a key = None" using assms(4,5) absent by (simp add: map_of_dict_merge)
  then have "map_of (dict_merge d ?a) key = Some v" using assms(3) absent by (simp add: map_of_dict_merge)
  moreover have "trusted_evidence y = dict_merge d ?a"
    using assms(1,2,6) by (simp add: trusted_evidence_def evidence_record_def sub_dict_def dict_get_or_def)
  ultimately show ?thesis by simp
qed

theorem agent_report_becomes_trusted_witness:
  "let r = (plain_result Exec_SUCCESS (Some ''...'') None None)\<lparr>er_raw := Some [(''safe_trace'',
         PList [PDict [(''status'', PStr ''SUCCESS''), (''bounded_output'', PDict [(''path'', PStr ''a.txt'')])]])]\<rparr>;
       x = (plain_step ''a'' ''x'' [])\<lparr>ps_output := PDict [(''tests_passed'', PBool True)]\<rparr>;
       n = (sample_svc False)\<lparr>sn_agent := True\<rparr>
   in vc_passed (effect_check (trusted_evidence (x\<lparr>ps_context := [(''steps'', PDict [(''a'', PDict (evidence_record n x (Some r)))])]\<rparr>))
        (''tests_passed'', PBool True))"
proof -
  let ?r = "(plain_result Exec_SUCCESS (Some ''...'') None None)\<lparr>er_raw := Some [(''safe_trace'',
         PList [PDict [(''status'', PStr ''SUCCESS''), (''bounded_output'', PDict [(''path'', PStr ''a.txt'')])]])]\<rparr>"
  let ?x = "(plain_step ''a'' ''x'' [])\<lparr>ps_output := PDict [(''tests_passed'', PBool True)]\<rparr>"
  let ?n = "(sample_svc False)\<lparr>sn_agent := True\<rparr>"
  let ?y = "?x\<lparr>ps_context := [(''steps'', PDict [(''a'', PDict (evidence_record ?n ?x (Some ?r)))])]\<rparr>"
  have native: "native_evidence (Some ?r) = [(''path'', PStr ''a.txt'')]" by code_simp
  have "map_of (trusted_evidence ?y) ''tests_passed'' = Some (PBool True)"
    by (rule agent_report_becomes_trusted[of ?r ?x "[(''tests_passed'', PBool True)]" _ _ ?y ?n])
      (simp_all only: native, simp_all add: plain_result_def step_record_def sub_dict_def dict_get_or_def plain_step_def)
  then show ?thesis by (simp add: effect_check_passed Let_def)
qed

end
