(* ===== verification/Capabilities.thy ===== *)
theory Capabilities imports Complex_Main SideEffects TaskGraph begin

text \<open>
  \<open>src/lhas/capability_registry.py\<close> and \<open>src/lhas/tools/registry.py\<close>: the catalog of
  capabilities, what of it the runtime may offer, and the registry of concrete tools.

  \<^item> A capability carries its JSON schemas as values; what a schema accepts is decided by the
    \<open>jsonschema\<close> package and is a parameter of the contract.
  \<^item> Timeouts are rationals (the code's floats are 30.0 and 120.0).
  \<^item> A tool is its registered name and what executing it returns, or the type name of the
    exception it raises; \<open>'q\<close> is the type of requests and \<open>'r\<close> that of results.
\<close>

section \<open>Platforms\<close>

datatype runtime_platform = Windows | Linux | MacOS | Unknown_platform

primrec platform_value :: "runtime_platform \<Rightarrow> string" where
  "platform_value Windows = ''windows''"
| "platform_value Linux = ''linux''"
| "platform_value MacOS = ''macos''"
| "platform_value Unknown_platform = ''unknown''"

datatype platform_label = Platform runtime_platform | Label "string option"

definition normalize_platform :: "platform_label \<Rightarrow> runtime_platform" where
  "normalize_platform v =
     (case v of
        Platform p \<Rightarrow> p
      | Label l \<Rightarrow>
          (let s = casefold (strip (case l of None \<Rightarrow> [] | Some t \<Rightarrow> t)) in
           if s \<in> {''windows'', ''win'', ''win32'', ''cygwin'', ''msys''} then Windows
           else if s \<in> {''linux'', ''linux2''} then Linux
           else if s \<in> {''macos'', ''mac'', ''darwin'', ''osx''} then MacOS
           else Unknown_platform))"

definition label_str :: "platform_label \<Rightarrow> string" where
  "label_str v = (case v of Platform p \<Rightarrow> platform_value p | Label l \<Rightarrow> (case l of None \<Rightarrow> ''None'' | Some t \<Rightarrow> t))"

section \<open>Capabilities\<close>

datatype availability = Available | Unavailable | Unknown_availability

record capability =
  cd_id :: string
  cd_name :: string
  cd_description :: string
  cd_category :: string
  cd_version :: string
  cd_input :: pydict
  cd_output :: pydict
  cd_platforms :: "runtime_platform list"
  cd_permissions :: "string list"
  cd_risk :: string
  cd_scope :: string
  cd_timeout :: rat
  cd_retryable :: bool
  cd_preferred :: string
  cd_fallbacks :: "string list"
  cd_availability :: availability
  cd_source :: string
  cd_evidence_type :: string
  cd_effect :: effect_class
  cd_idempotency :: bool
  cd_receipts :: bool
  cd_reconciliation :: bool
  cd_replay_safe :: bool

text \<open>The model's validators: lengths, a positive timeout, distinct platforms and bindings.\<close>

definition capability_valid :: "capability \<Rightarrow> bool" where
  "capability_valid c \<longleftrightarrow>
     list_all (\<lambda>s. s \<noteq> []) [cd_id c, cd_name c, cd_description c, cd_category c, cd_version c, cd_risk c,
       cd_scope c, cd_preferred c, cd_source c, cd_evidence_type c] \<and> cd_timeout c > 0 \<and>
     cd_platforms c \<noteq> [] \<and> distinct (cd_platforms c) \<and> distinct (cd_fallbacks c)"

definition bindings :: "capability \<Rightarrow> string list" where
  "bindings c = cd_preferred c # cd_fallbacks c"

record discovery =
  dr_capability :: capability
  dr_availability :: availability
  dr_reason :: "(string \<times> string \<times> pydict) option"

record metrics =
  me_attempts :: nat
  me_invalid :: nat
  me_rejected :: nat
  me_successful :: nat

definition record_selection :: "bool \<Rightarrow> bool \<Rightarrow> bool \<Rightarrow> metrics \<Rightarrow> metrics" where
  "record_selection valid rejected successful m =
     m\<lparr>me_attempts := me_attempts m + 1,
       me_invalid := (if valid then me_invalid m else me_invalid m + 1),
       me_rejected := (if rejected then me_rejected m + 1 else me_rejected m),
       me_successful := (if successful then me_successful m + 1 else me_successful m)\<rparr>"

definition new_metrics :: metrics where
  "new_metrics = \<lparr>me_attempts = 0, me_invalid = 0, me_rejected = 0, me_successful = 0\<rparr>"

section \<open>The registry of tools\<close>

record ('q, 'r) tool =
  tl_name :: string
  tl_execute :: "'q \<Rightarrow> string + 'r"

type_synonym ('q, 'r) tools = "(string \<times> ('q, 'r) tool) list"

definition register_tool :: "('q, 'r) tool \<Rightarrow> ('q, 'r) tools \<Rightarrow> string + ('q, 'r) tools" where
  "register_tool t ts =
     (if map_of ts (tl_name t) \<noteq> None then Inl (''capability already registered: '' @ tl_name t)
      else Inr (ts @ [(tl_name t, t)]))"

definition resolve_name :: "string \<Rightarrow> ('q, 'r) tools \<Rightarrow> string + ('q, 'r) tool" where
  "resolve_name c ts = (case map_of ts c of None \<Rightarrow> Inl (''unknown capability: '' @ c) | Some t \<Rightarrow> Inr t)"

definition list_capabilities :: "('q, 'r) tools \<Rightarrow> string list" where
  "list_capabilities ts = sort (map fst ts)"

section \<open>The registry of capabilities\<close>

type_synonym catalog = "(string \<times> capability) list"

datatype registry_error = Duplicate_capability string | Preferred_is_fallback string | Unknown_capability_id string
  | No_tool_registry string | No_binding string

fun index_capabilities :: "capability list \<Rightarrow> catalog \<Rightarrow> registry_error + catalog" where
  "index_capabilities [] cat = Inr cat"
| "index_capabilities (c # cs) cat =
     (if map_of cat (cd_id c) \<noteq> None then Inl (Duplicate_capability (cd_id c))
      else if cd_preferred c \<in> set (cd_fallbacks c) then Inl (Preferred_is_fallback (cd_id c))
      else index_capabilities cs (cat @ [(cd_id c, c)]))"

definition build_registry :: "capability list \<Rightarrow> registry_error + catalog" where
  "build_registry cs = index_capabilities cs []"

definition list_all_capabilities :: "catalog \<Rightarrow> capability list" where
  "list_all_capabilities cat = map (\<lambda>k. the (map_of cat k)) (sort (map fst cat))"

definition get_capability :: "string \<Rightarrow> catalog \<Rightarrow> registry_error + capability" where
  "get_capability i cat = (case map_of cat i of None \<Rightarrow> Inl (Unknown_capability_id i) | Some c \<Rightarrow> Inr c)"

text \<open>The tools that count as available: those of the context, of the registry, or all bindings.\<close>

definition available_tools :: "string list option \<Rightarrow> ('q, 'r) tools option \<Rightarrow> catalog \<Rightarrow> string list" where
  "available_tools ctx registry cat =
     (case ctx of
        Some ts \<Rightarrow> ts
      | None \<Rightarrow> (case registry of Some ts \<Rightarrow> list_capabilities ts | None \<Rightarrow> map (cd_preferred \<circ> snd) cat))"

definition discover_one :: "platform_label \<Rightarrow> string list \<Rightarrow> capability \<Rightarrow> discovery" where
  "discover_one label tools c =
     (let p = normalize_platform label in
      if p = Unknown_platform then
        \<lparr>dr_capability = c, dr_availability = Unknown_availability,
         dr_reason = Some (''UNKNOWN_PLATFORM'', ''capability availability is fail-closed for an unknown platform'',
           [(''platform'', PStr (label_str label))])\<rparr>
      else if p \<notin> set (cd_platforms c) then
        \<lparr>dr_capability = c, dr_availability = Unavailable,
         dr_reason = Some (''PLATFORM_UNSUPPORTED'', ''capability is not declared for this platform'',
           [(''platform'', PStr (platform_value p))])\<rparr>
      else if cd_preferred c \<notin> set tools \<and> \<not> list_ex (\<lambda>t. t \<in> set tools) (cd_fallbacks c) then
        \<lparr>dr_capability = c, dr_availability = Unavailable,
         dr_reason = Some (''MISSING_TOOL_BINDING'', ''no declared existing tool backend is available'',
           [(''preferred_tool'', PStr (cd_preferred c)), (''fallback_tools'', str_list (cd_fallbacks c))])\<rparr>
      else \<lparr>dr_capability = c, dr_availability = Available, dr_reason = None\<rparr>)"

definition discover :: "platform_label \<Rightarrow> string list option \<Rightarrow> ('q, 'r) tools option \<Rightarrow> catalog \<Rightarrow> discovery list" where
  "discover label ctx registry cat =
     map (discover_one label (available_tools ctx registry cat)) (list_all_capabilities cat)"

definition list_available :: "platform_label \<Rightarrow> string list option \<Rightarrow> ('q, 'r) tools option \<Rightarrow> catalog \<Rightarrow> capability list" where
  "list_available label ctx registry cat =
     map dr_capability [r \<leftarrow> discover label ctx registry cat. dr_availability r = Available]"

fun first_binding :: "string list \<Rightarrow> ('q, 'r) tools \<Rightarrow> ('q, 'r) tool option" where
  "first_binding [] ts = None"
| "first_binding (b # bs) ts = (case resolve_name b ts of Inr t \<Rightarrow> Some t | Inl _ \<Rightarrow> first_binding bs ts)"

definition resolve_tool :: "string \<Rightarrow> ('q, 'r) tools option \<Rightarrow> catalog \<Rightarrow> registry_error + ('q, 'r) tool" where
  "resolve_tool i registry cat =
     (case get_capability i cat of
        Inl e \<Rightarrow> Inl e
      | Inr c \<Rightarrow>
          (case registry of
             None \<Rightarrow> Inl (No_tool_registry i)
           | Some ts \<Rightarrow> (case first_binding (bindings c) ts of None \<Rightarrow> Inl (No_binding i) | Some t \<Rightarrow> Inr t)))"

section \<open>The default catalog\<close>

definition object_schema :: "pydict \<Rightarrow> string list \<Rightarrow> pydict" where
  "object_schema props required =
     [(''type'', PStr ''object''), (''additionalProperties'', PBool False), (''properties'', PDict props)] @
     (if required = [] then [] else [(''required'', str_list required)])"

definition of_type :: "string \<Rightarrow> pyval" where
  "of_type t = PDict [(''type'', PStr t)]"

definition at_least :: "int \<Rightarrow> pyval" where
  "at_least k = PDict [(''type'', PStr ''integer''), (''minimum'', PInt k)]"

definition array_of :: "pyval \<Rightarrow> pyval" where
  "array_of v = PDict [(''type'', PStr ''array''), (''items'', v)]"

definition path_schema :: pyval where
  "path_schema = of_type ''string''"

definition argv_schema :: pyval where
  "argv_schema = PDict [(''type'', PStr ''array''), (''items'', of_type ''string''), (''minItems'', PInt 1)]"

definition digest_schema :: pyval where
  "digest_schema = PDict [(''type'', PStr ''string''), (''minLength'', PInt 64), (''maxLength'', PInt 64)]"

definition workspace_read_output :: pydict where
  "workspace_read_output =
     [(''type'', PStr ''object''), (''additionalProperties'', PBool False),
      (''properties'', PDict [(''path'', of_type ''string''), (''content'', of_type ''string''),
         (''start_line'', at_least 1), (''end_line'', at_least 0), (''total_lines'', at_least 0),
         (''truncated'', of_type ''boolean''), (''sha256'', digest_schema)]),
      (''anyOf'', PList [
         PDict [(''required'', str_list [''path'', ''content'', ''start_line'', ''end_line'', ''total_lines'', ''truncated'', ''sha256''])],
         PDict [(''required'', str_list [''path'', ''content'', ''total_lines'', ''truncated'']),
                (''properties'', PDict [(''truncated'', PDict [(''const'', PBool True)])])]])]"

definition workspace_list_output :: pydict where
  "workspace_list_output =
     [(''type'', PStr ''object''), (''additionalProperties'', PBool False),
      (''properties'', PDict [(''path'', of_type ''string''),
         (''entries'', array_of (PDict
            [(''type'', PStr ''object''), (''additionalProperties'', PBool False),
             (''properties'', PDict [(''path'', of_type ''string''),
                (''type'', PDict [(''type'', PStr ''string''), (''enum'', str_list [''file'', ''directory''])]),
                (''size'', at_least 0), (''relative_path'', of_type ''string'')]),
             (''required'', str_list [''path'', ''type'', ''size'', ''relative_path''])])),
         (''truncated'', of_type ''boolean'')]),
      (''required'', str_list [''path'', ''entries'', ''truncated''])]"

definition nullable_line :: pyval where
  "nullable_line = PDict [(''type'', str_list [''integer'', ''null'']), (''minimum'', PInt 1)]"

definition workspace_edit_output :: pydict where
  "workspace_edit_output =
     [(''type'', PStr ''object''), (''additionalProperties'', PBool False),
      (''properties'', PDict [(''path'', of_type ''string''), (''replacements'', at_least 1),
         (''before_sha256'', digest_schema), (''after_sha256'', digest_schema),
         (''bytes_before'', at_least 0), (''bytes_after'', at_least 0), (''match_mode'', of_type ''string''),
         (''candidate_count'', at_least 0), (''matched_start_line'', nullable_line), (''matched_end_line'', nullable_line)]),
      (''required'', str_list [''path'', ''replacements'', ''before_sha256'', ''after_sha256'', ''bytes_before'',
         ''bytes_after'', ''match_mode'', ''candidate_count'', ''matched_start_line'', ''matched_end_line''])]"

definition workspace_diff_output :: pydict where
  "workspace_diff_output =
     [(''type'', PStr ''object''), (''additionalProperties'', PBool False),
      (''properties'', PDict [(''changed_files'', array_of (of_type ''string'')), (''diff'', of_type ''string''),
         (''files_changed'', at_least 0), (''lines_added'', at_least 0), (''lines_removed'', at_least 0),
         (''truncated'', of_type ''boolean'')]),
      (''required'', str_list [''changed_files'', ''diff'', ''files_changed'', ''lines_added'', ''lines_removed'', ''truncated''])]"

text \<open>\<open>_capability\<close> with its defaults; what a declaration changes is a record update.\<close>

definition declare_capability :: "string \<Rightarrow> string \<Rightarrow> string \<Rightarrow> pydict \<Rightarrow> pydict \<Rightarrow> string list \<Rightarrow> string \<Rightarrow> capability" where
  "declare_capability i description category input out permissions preferred =
     \<lparr>cd_id = i, cd_name = i, cd_description = description, cd_category = category, cd_version = ''v1'',
      cd_input = input, cd_output = out, cd_platforms = [Windows, Linux, MacOS], cd_permissions = permissions,
      cd_risk = ''LOW'', cd_scope = ''SOURCE_WORKSPACE'', cd_timeout = 30, cd_retryable = True,
      cd_preferred = preferred, cd_fallbacks = [], cd_availability = Available, cd_source = ''odys-runtime'',
      cd_evidence_type = ''DETERMINISTIC_TOOL_RESULT'', cd_effect = EC_NONE, cd_idempotency = False,
      cd_receipts = False, cd_reconciliation = False, cd_replay_safe = False\<rparr>"

definition any_object :: pydict where
  "any_object = [(''type'', PStr ''object'')]"

definition staged_write :: "capability \<Rightarrow> capability" where
  "staged_write c =
     c\<lparr>cd_risk := ''MEDIUM'', cd_retryable := False, cd_effect := LOCAL_REVERSIBLE, cd_receipts := True,
       cd_reconciliation := True\<rparr>"

definition workspace_capabilities :: "capability list" where
  "workspace_capabilities =
     [declare_capability ''workspace.read'' ''Read a text file in the source workspace'' ''workspace''
        (object_schema [(''path'', path_schema), (''start_line'', of_type ''integer''), (''end_line'', of_type ''integer'')] [''path''])
        workspace_read_output [''workspace.read''] ''workspace.read'',
      declare_capability ''workspace.list'' ''List files in the source workspace'' ''workspace''
        (object_schema [(''path'', path_schema), (''recursive'', of_type ''boolean''), (''max_entries'', of_type ''integer'')] [])
        workspace_list_output [''workspace.read''] ''workspace.list'',
      declare_capability ''workspace.search'' ''Search workspace text by query string'' ''workspace''
        (object_schema [(''query'', of_type ''string''), (''path'', path_schema), (''glob'', of_type ''string''),
           (''max_matches'', of_type ''integer''), (''context_lines'', of_type ''integer'')] [''query''])
        any_object [''workspace.read''] ''workspace.search'',
      staged_write (declare_capability ''workspace.edit'' ''Apply an explicit edit in the staged workspace'' ''workspace''
        (object_schema [(''path'', path_schema), (''old_text'', of_type ''string''), (''new_text'', of_type ''string'')]
           [''path'', ''old_text'', ''new_text''])
        workspace_edit_output [''workspace.write''] ''workspace.edit''),
      staged_write (declare_capability ''workspace.edit_lines'' ''Version-checked inclusive line replacement in staged workspace'' ''workspace''
        (object_schema [(''path'', path_schema), (''start_line'', at_least 1), (''end_line'', at_least 1),
           (''new_lines'', array_of (of_type ''string'')), (''expected_sha256'', digest_schema)]
           [''path'', ''start_line'', ''end_line'', ''new_lines'', ''expected_sha256''])
        any_object [''workspace.write''] ''workspace.edit_lines''),
      declare_capability ''workspace.diff'' ''Show staged workspace changes'' ''workspace''
        (object_schema [(''path'', path_schema), (''max_diff_bytes'', of_type ''integer'')] [])
        workspace_diff_output [''workspace.read''] ''workspace.diff'',
      staged_write (declare_capability ''workspace.restore'' ''Restore staged file to baseline'' ''workspace''
        (object_schema [(''path'', path_schema)] [''path'']) any_object [''workspace.write''] ''workspace.restore'')]"

definition process_capabilities :: "capability list" where
  "process_capabilities =
     [(declare_capability ''cli.exec'' ''Execute an explicitly allowed CLI command'' ''execution''
        (object_schema [(''argv'', argv_schema), (''cwd'', path_schema), (''timeout_seconds'', of_type ''number'')] [''argv''])
        any_object [''process.execute''] ''cli.exec'')\<lparr>cd_timeout := 120\<rparr>,
      (declare_capability ''test.run'' ''Run an explicitly permitted test command'' ''verification''
        (object_schema [(''argv'', argv_schema), (''cwd'', path_schema), (''timeout_seconds'', of_type ''number'')] [''argv''])
        any_object [''process.execute''] ''cli.exec'')\<lparr>cd_timeout := 120\<rparr>,
      declare_capability ''git.status'' ''Inspect source workspace Git status'' ''source-control''
        (object_schema [(''argv'', argv_schema), (''cwd'', path_schema)] []) any_object [''process.execute''] ''cli.exec'',
      declare_capability ''git.diff'' ''Inspect source workspace Git diff'' ''source-control''
        (object_schema [(''argv'', argv_schema), (''cwd'', path_schema)] []) any_object [''process.execute''] ''cli.exec'',
      declare_capability ''environment.inspect'' ''Inspect bounded runtime environment facts'' ''environment''
        (object_schema [] []) any_object [''environment.read''] ''cli.exec'']"

definition platform_capabilities :: "capability list" where
  "platform_capabilities =
     [declare_capability ''platform.prepare'' ''Prepare bounded platform evidence for a worker step'' ''platform''
        (object_schema [(''goal'', of_type ''string'')] []) any_object [''platform.execute''] ''platform.prepare'',
      (declare_capability ''platform.delegate'' ''Create a durable child Task, Run and Attempt'' ''platform''
        (object_schema [(''goal'', of_type ''string'')] []) any_object [''platform.delegate''] ''platform.delegate'')
        \<lparr>cd_risk := ''HIGH'', cd_retryable := False\<rparr>,
      declare_capability ''platform.finalize'' ''Finalize bounded platform evidence with a reviewer step'' ''platform''
        (object_schema [(''goal'', of_type ''string'')] []) any_object [''platform.execute''] ''platform.finalize'']"

definition default_capabilities :: "capability list" where
  "default_capabilities = workspace_capabilities @ process_capabilities @ platform_capabilities"

section \<open>Lemmas\<close>

lemma discover_one_available:
  "dr_availability (discover_one label ts c) = Available \<longleftrightarrow> normalize_platform label \<noteq> Unknown_platform \<and>
     normalize_platform label \<in> set (cd_platforms c) \<and> (\<exists>b\<in>set (bindings c). b \<in> set ts)"
  by (auto simp: discover_one_def Let_def bindings_def list_ex_iff)

lemma find_listed:
  assumes "map_of cat i = Some c" and "\<And>j d. (j, d) \<in> set cat \<Longrightarrow> cd_id d = j"
  shows "List.find (\<lambda>d. cd_id d = i) (list_all_capabilities cat) = Some c"
proof -
  have keyed: "cd_id (the (map_of cat j)) = j" if "j \<in> set (sort (map fst cat))" for j
  proof -
    from that obtain d where d: "map_of cat j = Some d" by (cases "map_of cat j") (auto simp: map_of_eq_None_iff)
    with assms(2)[OF map_of_SomeD[OF d]] show ?thesis by simp
  qed
  have "List.find (\<lambda>d. cd_id d = i) (map (\<lambda>j. the (map_of cat j)) js) = (if i \<in> set js then Some c else None)"
    if "set js \<subseteq> set (sort (map fst cat))" for js
    using that assms(1) keyed by (induction js) auto
  moreover have "i \<in> set (sort (map fst cat))" using map_of_SomeD[OF assms(1)] by force
  ultimately show ?thesis by (simp add: list_all_capabilities_def)
qed

lemma index_keyed:
  assumes "index_capabilities cs cat = Inr cat'" and "\<forall>(j, d)\<in>set cat. cd_id d = j"
  shows "\<forall>(j, d)\<in>set cat'. cd_id d = j"
  using assms by (induction cs arbitrary: cat) (auto split: if_splits)

lemma index_extends:
  assumes "index_capabilities cs cat = Inr cat'" and "map_of cat i = Some c"
  shows "map_of cat' i = Some c"
  using assms by (induction cs arbitrary: cat) (auto split: if_splits)

lemma index_member:
  assumes "index_capabilities cs cat = Inr cat'" and "c \<in> set cs"
  shows "map_of cat' (cd_id c) = Some c"
  using assms
proof (induction cs arbitrary: cat)
  case (Cons d cs)
  then have rest: "index_capabilities cs (cat @ [(cd_id d, d)]) = Inr cat'" "map_of cat (cd_id d) = None"
    by (auto split: if_splits)
  show ?case
  proof (cases "c = d")
    case True
    with rest(2) have "map_of (cat @ [(cd_id d, d)]) (cd_id c) = Some c" by (simp add: map_add_def)
    with index_extends[OF rest(1)] show ?thesis by simp
  next
    case False
    with Cons rest(1) show ?thesis by simp
  qed
qed simp

lemmas registry_keyed = index_keyed[where cat = "[]", simplified, folded build_registry_def]
lemmas registry_member = index_member[where cat = "[]", folded build_registry_def]

lemma default_registry: "build_registry default_capabilities = Inr (projr (build_registry default_capabilities))"
proof -
  have "\<not> isl (build_registry default_capabilities)" by code_simp
  then show ?thesis by simp
qed

section \<open>Properties\<close>

text \<open>Discovery is exact and fails closed. A capability is offered if and only if it is in the
  catalog, the platform is a known one that it declares, and one of the tools it is bound to is
  available; nothing is offered on an unknown platform. The availability that a declaration
  carries itself plays no part.\<close>

theorem offered_iff:
  "c \<in> set (list_available label ctx registry cat) \<longleftrightarrow>
     (\<exists>i. map_of cat i = Some c) \<and> normalize_platform label \<noteq> Unknown_platform \<and>
     normalize_platform label \<in> set (cd_platforms c) \<and>
     (\<exists>b\<in>set (bindings c). b \<in> set (available_tools ctx registry cat))"
proof -
  have "c \<in> set (list_all_capabilities cat) \<longleftrightarrow> (\<exists>i. map_of cat i = Some c)"
  proof
    assume "c \<in> set (list_all_capabilities cat)"
    then obtain i where "i \<in> fst ` set cat" "c = the (map_of cat i)" by (auto simp: list_all_capabilities_def)
    then show "\<exists>i. map_of cat i = Some c" by (cases "map_of cat i") (auto simp: map_of_eq_None_iff)
  next
    assume "\<exists>i. map_of cat i = Some c"
    then obtain i where i: "map_of cat i = Some c" by blast
    then have "i \<in> set (sort (map fst cat))" using map_of_SomeD by force
    with i show "c \<in> set (list_all_capabilities cat)" by (force simp: list_all_capabilities_def)
  qed
  moreover have cap: "dr_capability (discover_one label ts d) = d" for ts d by (simp add: discover_one_def Let_def)
  have "set (list_available label ctx registry cat) = {d \<in> set (list_all_capabilities cat).
      dr_availability (discover_one label (available_tools ctx registry cat) d) = Available}"
    unfolding list_available_def discover_def filter_map map_map comp_def cap by auto
  ultimately show ?thesis by (simp add: discover_one_available)
qed

end
