(* ===== verification/ToolContract.thy ===== *)
theory ToolContract imports Capabilities begin

text \<open>
  \<open>src/lhas/tools/protocol.py\<close>, \<open>src/lhas/tools/contract.py\<close> and
  \<open>src/lhas/tools/invocation.py\<close>: one invocation of a tool, validated before and after.

  \<^item> What a JSON schema says of a value is decided by the \<open>jsonschema\<close> package: \<open>cn_schema\<close>.
  \<^item> A float kept in a dict is \<open>cn_float\<close> of the number.
  \<^item> The left side of a result is an exception that leaves the contract: the TypeError of
    comparing a timeout argument that is not a number, or the StopIteration of a catalog whose
    keys are not the capability ids.
\<close>

section \<open>Requests and results\<close>

datatype tool_status = Tool_SUCCESS | Tool_FAILURE | Tool_WAITING

primrec tool_status_value :: "tool_status \<Rightarrow> string" where
  "tool_status_value Tool_SUCCESS = ''SUCCESS''"
| "tool_status_value Tool_FAILURE = ''FAILURE''"
| "tool_status_value Tool_WAITING = ''WAITING_FOR_HUMAN_APPROVAL''"

record tool_evidence =
  te_type :: string
  te_source :: string
  te_capability :: string
  te_tool :: string
  te_summary :: string
  te_artifacts :: "string list"
  te_metadata :: pydict

record tool_request =
  tq_call :: string
  tq_task :: string
  tq_run :: string
  tq_attempt :: string
  tq_capability :: "string option"
  tq_capability_id :: "string option"
  tq_tool :: "string option"
  tq_arguments :: pydict
  tq_context :: pydict
  tq_timeout :: "rat option"
  tq_metadata :: pydict

record tool_result =
  tr_status :: tool_status
  tr_output :: pyval
  tr_artifacts :: pydict
  tr_error_type :: "string option"
  tr_error_message :: "string option"
  tr_usage :: pydict
  tr_metadata :: pydict
  tr_evidence :: "tool_evidence option"

text \<open>The two names of the capability are synchronised; the messages are the validator's.\<close>

definition make_request :: "tool_request \<Rightarrow> string + tool_request" where
  "make_request q =
     (case (tq_capability q, tq_capability_id q) of
        (None, None) \<Rightarrow> Inl ''capability or capability_id is required''
      | (Some a, Some b) \<Rightarrow>
          if a \<noteq> [] \<and> b \<noteq> [] \<and> a \<noteq> b then Inl ''capability and capability_id must identify the same capability'' else Inr q
      | (Some a, None) \<Rightarrow> Inr (q\<lparr>tq_capability_id := Some a\<rparr>)
      | (None, Some b) \<Rightarrow> Inr (q\<lparr>tq_capability := Some b\<rparr>))"

section \<open>Error codes and decisions\<close>

datatype tool_error =
    INVALID_ARGUMENT | CAPABILITY_UNAVAILABLE | TOOL_NOT_FOUND | POLICY_REJECTED | PERMISSION_DENIED | TE_TIMEOUT
  | EXECUTION_FAILED | OUTPUT_VALIDATION_FAILED | TE_CANCELLED | INTERNAL_ERROR | COMMAND_NOT_ALLOWED
  | WORKSPACE_PATH_ESCAPE | COMMAND_TIMEOUT | SPAWN_ERROR | TOOL_ERROR

primrec tool_error_value :: "tool_error \<Rightarrow> string" where
  "tool_error_value INVALID_ARGUMENT = ''INVALID_ARGUMENT''"
| "tool_error_value CAPABILITY_UNAVAILABLE = ''CAPABILITY_UNAVAILABLE''"
| "tool_error_value TOOL_NOT_FOUND = ''TOOL_NOT_FOUND''"
| "tool_error_value POLICY_REJECTED = ''POLICY_REJECTED''"
| "tool_error_value PERMISSION_DENIED = ''PERMISSION_DENIED''"
| "tool_error_value TE_TIMEOUT = ''TIMEOUT''"
| "tool_error_value EXECUTION_FAILED = ''EXECUTION_FAILED''"
| "tool_error_value OUTPUT_VALIDATION_FAILED = ''OUTPUT_VALIDATION_FAILED''"
| "tool_error_value TE_CANCELLED = ''CANCELLED''"
| "tool_error_value INTERNAL_ERROR = ''INTERNAL_ERROR''"
| "tool_error_value COMMAND_NOT_ALLOWED = ''COMMAND_NOT_ALLOWED''"
| "tool_error_value WORKSPACE_PATH_ESCAPE = ''WORKSPACE_PATH_ESCAPE''"
| "tool_error_value COMMAND_TIMEOUT = ''COMMAND_TIMEOUT''"
| "tool_error_value SPAWN_ERROR = ''SPAWN_ERROR''"
| "tool_error_value TOOL_ERROR = ''TOOL_ERROR''"

record decision =
  dc_valid :: bool
  dc_error :: "tool_error option"
  dc_message :: "string option"
  dc_diagnostics :: pydict
  dc_timeout :: "rat option"
  dc_retry :: bool
  dc_retry_reason :: string
  dc_effect :: effect_class
  dc_idempotency :: bool
  dc_receipts :: bool
  dc_reconciliation :: bool
  dc_replay_safe :: bool

definition refuse :: "tool_error \<Rightarrow> string \<Rightarrow> pydict \<Rightarrow> string \<Rightarrow> decision" where
  "refuse code message diagnostics reason =
     \<lparr>dc_valid = False, dc_error = Some code, dc_message = Some message, dc_diagnostics = diagnostics,
      dc_timeout = None, dc_retry = False, dc_retry_reason = reason, dc_effect = EC_NONE, dc_idempotency = False,
      dc_receipts = False, dc_reconciliation = False, dc_replay_safe = False\<rparr>"

definition permit :: "capability \<Rightarrow> rat \<Rightarrow> decision" where
  "permit c t =
     \<lparr>dc_valid = True, dc_error = None, dc_message = None, dc_diagnostics = [], dc_timeout = Some t,
      dc_retry = cd_retryable c,
      dc_retry_reason = (if cd_retryable c then ''capability is retryable'' else ''capability is not retryable''),
      dc_effect = cd_effect c, dc_idempotency = cd_idempotency c, dc_receipts = cd_receipts c,
      dc_reconciliation = cd_reconciliation c, dc_replay_safe = cd_replay_safe c\<rparr>"

text \<open>The verdict of a schema: malformed schema, a violation with its path, validator and value.\<close>

datatype schema_verdict = Schema_ok | Schema_malformed | Schema_violation "string list" string pyval

definition schema_diagnostic :: "string list \<Rightarrow> string \<Rightarrow> pyval \<Rightarrow> pydict" where
  "schema_diagnostic path validator v =
     [(''path'', str_list path), (''validator'', PStr validator), (''validator_value'', v),
      (''message'', PStr (''schema violation: '' @ validator))]"

record ('q, 'r) tool_contract =
  cn_catalog :: catalog
  cn_tools :: "('q, 'r) tools option"
  cn_schema :: "pydict \<Rightarrow> pyval \<Rightarrow> schema_verdict"
  cn_float :: "rat \<Rightarrow> pyval"

type_synonym contract = "(tool_request, tool_result) tool_contract"

section \<open>Before the call\<close>

definition semantic_argv_prefix :: "string \<Rightarrow> string list option" where
  "semantic_argv_prefix c =
     map_of [(''git.status'', [''git'', ''status'']), (''git.diff'', [''git'', ''diff''])] c"

definition check_semantic_argv :: "string \<Rightarrow> pydict \<Rightarrow> string option" where
  "check_semantic_argv c arguments =
     (case semantic_argv_prefix c of
        None \<Rightarrow> None
      | Some pre \<Rightarrow>
          (let wanted = ''argv must start with '' @ py_repr (str_list pre) @ '' for capability '' @ c in
           case dict_get arguments ''argv'' of
             PList argv \<Rightarrow>
               if length argv < length pre then Some wanted
               else
                 let actual = map py_str (take (length pre) argv)
                 in if actual \<noteq> pre then Some (wanted @ '', got '' @ py_repr (str_list actual)) else None
           | _ \<Rightarrow> Some wanted))"

text \<open>The timeout of the request, or the one in its arguments, at most that of the capability.\<close>

datatype contract_exception = Not_a_number pyval | Stop_iteration

definition argument_timeout :: "pyval \<Rightarrow> contract_exception + rat option" where
  "argument_timeout v =
     (if v = PNone then Inr None
      else case py_num v of None \<Rightarrow> Inl (Not_a_number v) | Some i \<Rightarrow> Inr (Some (of_int i)))"

definition requested_timeout :: "tool_request \<Rightarrow> contract_exception + rat option" where
  "requested_timeout q =
     (case tq_timeout q of
        Some t \<Rightarrow> Inr (Some t)
      | None \<Rightarrow> argument_timeout (dict_get (tq_arguments q) ''timeout_seconds''))"

definition effective_tool_timeout :: "capability \<Rightarrow> rat option \<Rightarrow> rat" where
  "effective_tool_timeout c requested = (case requested of None \<Rightarrow> cd_timeout c | Some t \<Rightarrow> min t (cd_timeout c))"

definition validate_arguments :: "contract \<Rightarrow> capability \<Rightarrow> string \<Rightarrow> tool_request \<Rightarrow> contract_exception + decision" where
  "validate_arguments k c i q =
     (case cn_schema k (cd_input c) (PDict (tq_arguments q)) of
        Schema_malformed \<Rightarrow> Inr (refuse INTERNAL_ERROR ''capability input schema is invalid''
          [(''reason'', PStr ''INVALID_INPUT_SCHEMA'')] ''schema must be corrected'')
      | Schema_violation path validator v \<Rightarrow> Inr (refuse INVALID_ARGUMENT ''tool arguments failed capability input schema''
          (schema_diagnostic path validator v) ''arguments must be corrected'')
      | Schema_ok \<Rightarrow>
          (case check_semantic_argv i (tq_arguments q) of
             Some violation \<Rightarrow> Inr (refuse INVALID_ARGUMENT violation [(''reason'', PStr ''SEMANTIC_ARGV_MISMATCH'')]
               ''argv must match capability semantic prefix'')
           | None \<Rightarrow> map_sum id (\<lambda>t. permit c (effective_tool_timeout c t)) (requested_timeout q)))"

definition validate_binding :: "contract \<Rightarrow> capability \<Rightarrow> string \<Rightarrow> string \<Rightarrow> (tool_request, tool_result) tools \<Rightarrow> decision option" where
  "validate_binding k c i t ts =
     (if t \<notin> set (bindings c) then
        Some (refuse INVALID_ARGUMENT ''tool_name does not match the capability binding''
          [(''capability_id'', PStr i), (''requested_tool'', PStr t), (''allowed_tools'', str_list (bindings c)),
           (''reason'', PStr ''BINDING_MISMATCH'')] ''binding mismatch is not retryable'')
      else case resolve_name t ts of
        Inl _ \<Rightarrow> Some (refuse TOOL_NOT_FOUND ''bound tool is not registered'' [(''tool_name'', PStr t)]
          ''tool registration must change'')
      | Inr actual \<Rightarrow>
          if tl_name actual \<noteq> t then
            Some (refuse TOOL_NOT_FOUND ''registered tool identity does not match its binding'' [(''tool_name'', PStr t)]
              ''tool identity is invalid'')
          else None)"

definition validate_request :: "contract \<Rightarrow> tool_request \<Rightarrow> platform_label \<Rightarrow> contract_exception + decision" where
  "validate_request k q label =
     (case (or_str (tq_capability_id q) None, or_str (tq_tool q) None) of
        (Some i, Some t) \<Rightarrow>
          (case cn_tools k of
             None \<Rightarrow> Inr (refuse CAPABILITY_UNAVAILABLE ''a concrete ToolRegistry is required for invocation''
               [(''reason'', PStr ''MISSING_TOOL_REGISTRY'')] ''a concrete runtime backend must be supplied'')
           | Some ts \<Rightarrow>
               (case get_capability i (cn_catalog k) of
                  Inl _ \<Rightarrow> Inr (refuse CAPABILITY_UNAVAILABLE ''unknown capability'' [(''capability_id'', PStr i)]
                    ''unknown capabilities are not retryable'')
                | Inr c \<Rightarrow>
                    (case List.find (\<lambda>d. cd_id (dr_capability d) = i)
                           (discover label (Some (list_capabilities ts)) (cn_tools k) (cn_catalog k)) of
                       None \<Rightarrow> Inl Stop_iteration
                     | Some r \<Rightarrow>
                         if dr_availability r \<noteq> Available then
                          Inr (refuse CAPABILITY_UNAVAILABLE ''capability is unavailable in the current runtime''
                            [(''reason'', PStr (case dr_reason r of None \<Rightarrow> ''UNAVAILABLE'' | Some (code, _) \<Rightarrow> code))]
                            ''backend or platform availability must change'')
                        else case validate_binding k c i t ts of
                          Some d \<Rightarrow> Inr d
                        | None \<Rightarrow> validate_arguments k c i q)))
      | _ \<Rightarrow> Inr (refuse INVALID_ARGUMENT ''capability_id and tool_name are required''
          [(''reason'', PStr ''MISSING_INVOCATION_IDENTITY'')] ''invocation identity is invalid''))"

section \<open>The call\<close>

definition opt_float :: "contract \<Rightarrow> rat option \<Rightarrow> pyval" where
  "opt_float k t = (case t of None \<Rightarrow> PNone | Some x \<Rightarrow> cn_float k x)"

definition failure_result :: "contract \<Rightarrow> tool_error \<Rightarrow> string \<Rightarrow> pydict \<Rightarrow> decision \<Rightarrow> tool_result" where
  "failure_result k code message diagnostics d =
     \<lparr>tr_status = Tool_FAILURE, tr_output = PNone, tr_artifacts = [], tr_error_type = Some (tool_error_value code),
      tr_error_message = Some message, tr_usage = [],
      tr_metadata = [(''contract'', PDict [(''error_type'', PStr (tool_error_value code)), (''diagnostics'', PDict diagnostics),
        (''effective_timeout_seconds'', opt_float k (dc_timeout d)), (''retry_allowed'', PBool (dc_retry d)),
        (''retry_reason'', PStr (dc_retry_reason d))])],
      tr_evidence = None\<rparr>"

definition text_of :: "string option \<Rightarrow> string" where
  "text_of x = (case x of None \<Rightarrow> ''None'' | Some s \<Rightarrow> s)"

definition contract_evidence :: "tool_request \<Rightarrow> tool_result \<Rightarrow> tool_evidence" where
  "contract_evidence q r =
     \<lparr>te_type = ''TOOL_EXECUTION'', te_source = ''odys-tool-contract-v1'', te_capability = text_of (tq_capability_id q),
      te_tool = text_of (tq_tool q),
      te_summary = (if tr_status r = Tool_SUCCESS then ''tool execution succeeded'' else ''tool execution failed''),
      te_artifacts = sort (map fst (tr_artifacts r)),
      te_metadata = [(''status'', PStr (tool_status_value (tr_status r)))]\<rparr>"

text \<open>A result that fails a check after the call keeps its artifacts, usage and metadata.\<close>

definition reject_result :: "tool_error \<Rightarrow> string \<Rightarrow> pydict \<Rightarrow> tool_request \<Rightarrow> tool_result \<Rightarrow> tool_result" where
  "reject_result code message note q r =
     \<lparr>tr_status = Tool_FAILURE, tr_output = PNone, tr_artifacts = tr_artifacts r,
      tr_error_type = Some (tool_error_value code), tr_error_message = Some message, tr_usage = tr_usage r,
      tr_metadata = dict_merge (tr_metadata r) [(''contract'', PDict note)],
      tr_evidence = Some (contract_evidence q r)\<rparr>"

definition foreign_evidence :: "tool_request \<Rightarrow> tool_result \<Rightarrow> bool" where
  "foreign_evidence q r \<longleftrightarrow>
     (case tr_evidence r of
        None \<Rightarrow> False
      | Some e \<Rightarrow> Some (te_capability e) \<noteq> tq_capability_id q \<or> Some (te_tool e) \<noteq> tq_tool q)"

definition attach_evidence :: "tool_request \<Rightarrow> tool_result \<Rightarrow> tool_result" where
  "attach_evidence q r = (if tr_evidence r = None then r\<lparr>tr_evidence := Some (contract_evidence q r)\<rparr> else r)"

definition check_output :: "contract \<Rightarrow> capability \<Rightarrow> tool_request \<Rightarrow> tool_result \<Rightarrow> tool_result" where
  "check_output k c q r =
     (if foreign_evidence q r then
        reject_result INTERNAL_ERROR ''tool evidence identity does not match invocation''
          [(''reason'', PStr ''EVIDENCE_IDENTITY_MISMATCH'')] q r
      else if tr_status r = Tool_SUCCESS then
        (case cn_schema k (cd_output c) (tr_output r) of
           Schema_malformed \<Rightarrow> reject_result INTERNAL_ERROR ''capability output schema is invalid''
             [(''reason'', PStr ''INVALID_OUTPUT_SCHEMA'')] q r
         | Schema_violation path validator v \<Rightarrow>
             reject_result OUTPUT_VALIDATION_FAILED ''tool output failed capability output schema''
               [(''output_diagnostics'', PDict (schema_diagnostic path validator v))] q r
         | Schema_ok \<Rightarrow> attach_evidence q r)
      else attach_evidence q r)"

definition invoke :: "contract \<Rightarrow> tool_request \<Rightarrow> platform_label \<Rightarrow> contract_exception + tool_result" where
  "invoke k q label =
     (case validate_request k q label of
        Inl e \<Rightarrow> Inl e
      | Inr d \<Rightarrow>
          if \<not> dc_valid d then
            Inr (failure_result k (case dc_error d of None \<Rightarrow> INTERNAL_ERROR | Some e \<Rightarrow> e)
              (case or_str (dc_message d) None of None \<Rightarrow> ''tool request rejected'' | Some m \<Rightarrow> m) (dc_diagnostics d) d)
          else
            (case (resolve_name (text_of (tq_tool q)) (the (cn_tools k)), get_capability (text_of (tq_capability_id q)) (cn_catalog k)) of
               (Inr tool, Inr c) \<Rightarrow>
                 (case tl_execute tool (q\<lparr>tq_timeout := dc_timeout d\<rparr>) of
                    Inl exn \<Rightarrow> Inr (failure_result k EXECUTION_FAILED ''tool execution failed''
                      [(''exception_type'', PStr exn)] d)
                  | Inr r \<Rightarrow> Inr (check_output k c q r))
             | _ \<Rightarrow> Inl Stop_iteration))"

text \<open>The two helpers of \<open>invocation.py\<close>.\<close>

definition build_contract_for_registry ::
  "(tool_request, tool_result) tools \<Rightarrow> capability list \<Rightarrow> (pydict \<Rightarrow> pyval \<Rightarrow> schema_verdict) \<Rightarrow> (rat \<Rightarrow> pyval) \<Rightarrow>
   registry_error + contract" where
  "build_contract_for_registry ts definitions schema flt =
     (case build_registry (default_capabilities @ definitions) of
        Inl e \<Rightarrow> Inl e
      | Inr cat \<Rightarrow> Inr \<lparr>cn_catalog = cat, cn_tools = Some ts, cn_schema = schema, cn_float = flt\<rparr>)"

definition invoke_via_contract :: "contract \<Rightarrow> tool_request \<Rightarrow> platform_label option \<Rightarrow> contract_exception + tool_result" where
  "invoke_via_contract k q ctx = invoke k q (case ctx of None \<Rightarrow> Label (Some ''windows'') | Some l \<Rightarrow> l)"

section \<open>Lemmas\<close>

lemma permit_simps [simp]: "dc_valid (permit c t)" "dc_timeout (permit c t) = Some t"
  by (simp_all add: permit_def)

lemma refuse_invalid [simp]: "\<not> dc_valid (refuse e m d r)"
  by (simp add: refuse_def)

lemma validate_binding_ok:
  assumes "validate_binding k c i t ts = None"
  obtains tool where "t \<in> set (bindings c)" "resolve_name t ts = Inr tool" "tl_name tool = t"
  using assms by (auto simp: validate_binding_def split: if_splits sum.splits)

lemma validate_binding_refuses: "validate_binding k c i t ts = Some d \<Longrightarrow> \<not> dc_valid d"
  by (auto simp: validate_binding_def split: if_splits sum.splits)

lemma effective_bounded: "effective_tool_timeout c t \<le> cd_timeout c"
  by (simp add: effective_tool_timeout_def split: option.split)

lemma validate_arguments_ok:
  assumes "validate_arguments k c i q = Inr d" and "dc_valid d"
  obtains t where "cn_schema k (cd_input c) (PDict (tq_arguments q)) = Schema_ok"
    "check_semantic_argv i (tq_arguments q) = None" "requested_timeout q = Inr t"
    "d = permit c (effective_tool_timeout c t)"
  using assms by (cases "requested_timeout q") (auto simp: validate_arguments_def split: schema_verdict.splits option.splits)

lemma found_discovery:
  assumes "map_of cat i = Some c" and "\<forall>(j, d)\<in>set cat. cd_id d = j"
  shows "List.find (\<lambda>d. cd_id (dr_capability d) = i) (discover label ctx registry cat) =
    Some (discover_one label (available_tools ctx registry cat) c)"
proof -
  have cap: "dr_capability (discover_one label ts d) = d" for ts d by (simp add: discover_one_def Let_def)
  have "List.find (\<lambda>d. cd_id (dr_capability d) = i) (map (discover_one label ts) ds) =
      map_option (discover_one label ts) (List.find (\<lambda>d. cd_id d = i) ds)" for ts ds
    by (induction ds) (simp_all add: cap)
  moreover have "List.find (\<lambda>d. cd_id d = i) (list_all_capabilities cat) = Some c"
    by (rule find_listed[OF assms(1)]) (use assms(2) in auto)
  ultimately show ?thesis by (simp add: discover_def)
qed

lemma validate_request_ok:
  assumes "validate_request k q label = Inr d" and "dc_valid d" and "\<forall>(j, d)\<in>set (cn_catalog k). cd_id d = j"
  obtains i t ts c tool v where "tq_capability_id q = Some i" "tq_tool q = Some t" "cn_tools k = Some ts"
    "map_of (cn_catalog k) i = Some c" "dr_availability (discover_one label (list_capabilities ts) c) = Available"
    "t \<in> set (bindings c)" "resolve_name t ts = Inr tool" "tl_name tool = t"
    "cn_schema k (cd_input c) (PDict (tq_arguments q)) = Schema_ok" "check_semantic_argv i (tq_arguments q) = None"
    "requested_timeout q = Inr v" "d = permit c (effective_tool_timeout c v)"
proof -
  have some: "x = Some y" if "or_str x None = Some y" for x :: "string option" and y
    using that by (auto simp: or_str_def split: if_splits)
  obtain i t where i: "or_str (tq_capability_id q) None = Some i" and t: "or_str (tq_tool q) None = Some t"
    using assms(1,2) by (auto simp: validate_request_def split: option.splits)
  obtain ts where ts: "cn_tools k = Some ts"
    using assms(1,2) i t by (auto simp: validate_request_def split: option.splits)
  obtain c where c: "map_of (cn_catalog k) i = Some c"
    using assms(1,2) i t ts by (auto simp: validate_request_def get_capability_def split: option.splits)
  have find: "List.find (\<lambda>d. cd_id (dr_capability d) = i) (discover label (Some (list_capabilities ts)) (cn_tools k) (cn_catalog k))
      = Some (discover_one label (list_capabilities ts) c)"
    using found_discovery[OF c assms(3), of label "Some (list_capabilities ts)" "cn_tools k"] by (simp add: available_tools_def)
  have body: "(if dr_availability (discover_one label (list_capabilities ts) c) \<noteq> Available then
        Inr (refuse CAPABILITY_UNAVAILABLE ''capability is unavailable in the current runtime''
          [(''reason'', PStr (case dr_reason (discover_one label (list_capabilities ts) c) of None \<Rightarrow> ''UNAVAILABLE'' | Some (code, _) \<Rightarrow> code))]
          ''backend or platform availability must change'')
      else case validate_binding k c i t ts of Some d \<Rightarrow> Inr d | None \<Rightarrow> validate_arguments k c i q) = Inr d"
    using assms(1) i t ts c find by (simp add: validate_request_def get_capability_def)
  then have av: "dr_availability (discover_one label (list_capabilities ts) c) = Available"
    using assms(2) by (auto split: if_splits)
  with body assms(2) validate_binding_refuses have b: "validate_binding k c i t ts = None" "validate_arguments k c i q = Inr d"
    by (auto split: option.splits)
  from validate_binding_ok[OF b(1)] validate_arguments_ok[OF b(2) assms(2)] that[OF some[OF i] some[OF t] ts c av]
  show ?thesis by metis
qed

section \<open>A sample contract\<close>

text \<open>A tool that echoes its timeout, under a schema that accepts everything.\<close>

definition sample_result :: tool_result where
  "sample_result =
     \<lparr>tr_status = Tool_SUCCESS, tr_output = PDict [(''exit_code'', PInt 0)], tr_artifacts = [], tr_error_type = None,
      tr_error_message = None, tr_usage = [], tr_metadata = [], tr_evidence = None\<rparr>"

definition sample_contract :: "string \<Rightarrow> contract" where
  "sample_contract name =
     \<lparr>cn_catalog = projr (build_registry default_capabilities),
      cn_tools = Some [(name, \<lparr>tl_name = name, tl_execute = \<lambda>_. Inr sample_result\<rparr>)],
      cn_schema = \<lambda>_ _. Schema_ok, cn_float = \<lambda>_. PNone\<rparr>"

definition sample_tool_request :: "string \<Rightarrow> pydict \<Rightarrow> tool_request" where
  "sample_tool_request i args =
     \<lparr>tq_call = ''c'', tq_task = ''t'', tq_run = ''r'', tq_attempt = ''a'', tq_capability = Some i, tq_capability_id = Some i,
      tq_tool = Some i, tq_arguments = args, tq_context = [], tq_timeout = None, tq_metadata = []\<rparr>"

section \<open>Properties\<close>

text \<open>C34: A successful result has passed every check. When the catalog was built by the registry,
  an invocation that reports SUCCESS named a catalogued capability that the platform supports
  and a tool bound to it that is registered under its own name; its arguments satisfied the
  input schema and the argv guard; the tool ran with a timeout of at most the capability's and
  its output satisfied the output schema; and the evidence names this capability and tool.\<close>

theorem tool_success_is_checked:
  assumes "invoke k q label = Inr r" and "tr_status r = Tool_SUCCESS" and "build_registry defs = Inr (cn_catalog k)"
  shows "\<exists>i t c ts tool limit raw e. tq_capability_id q = Some i \<and> tq_tool q = Some t \<and> map_of (cn_catalog k) i = Some c \<and>
    normalize_platform label \<in> set (cd_platforms c) \<and> t \<in> set (bindings c) \<and> cn_tools k = Some ts \<and>
    resolve_name t ts = Inr tool \<and> tl_name tool = t \<and>
    cn_schema k (cd_input c) (PDict (tq_arguments q)) = Schema_ok \<and> check_semantic_argv i (tq_arguments q) = None \<and>
    limit \<le> cd_timeout c \<and> tl_execute tool (q\<lparr>tq_timeout := Some limit\<rparr>) = Inr raw \<and> tr_output r = tr_output raw \<and>
    cn_schema k (cd_output c) (tr_output r) = Schema_ok \<and>
    tr_evidence r = Some e \<and> te_capability e = i \<and> te_tool e = t"
proof -
  obtain d where d: "validate_request k q label = Inr d" using assms(1) by (auto simp: invoke_def split: sum.splits)
  have valid: "dc_valid d" using assms(1,2) d by (auto simp: invoke_def failure_result_def split: if_splits)
  obtain i t ts c tool v where ok: "tq_capability_id q = Some i" "tq_tool q = Some t" "cn_tools k = Some ts"
    "map_of (cn_catalog k) i = Some c" "dr_availability (discover_one label (list_capabilities ts) c) = Available"
    "t \<in> set (bindings c)" "resolve_name t ts = Inr tool" "tl_name tool = t"
    "cn_schema k (cd_input c) (PDict (tq_arguments q)) = Schema_ok" "check_semantic_argv i (tq_arguments q) = None"
    "requested_timeout q = Inr v" "d = permit c (effective_tool_timeout c v)"
    by (rule validate_request_ok[OF d valid registry_keyed[OF assms(3)]])
  have platform: "normalize_platform label \<in> set (cd_platforms c)"
    using ok(5) unfolding discover_one_available by blast
  let ?q = "q\<lparr>tq_timeout := Some (effective_tool_timeout c v)\<rparr>"
  have call: "(case tl_execute tool ?q of
       Inl exn \<Rightarrow> Inr (failure_result k EXECUTION_FAILED ''tool execution failed'' [(''exception_type'', PStr exn)] d)
     | Inr r \<Rightarrow> Inr (check_output k c q r)) = (Inr r :: contract_exception + tool_result)"
    using assms(1) d ok unfolding ok(12) by (simp add: invoke_def get_capability_def text_of_def)
  then obtain raw where raw: "tl_execute tool ?q = Inr raw" "r = check_output k c q raw"
    using assms(2) by (auto simp: failure_result_def split: sum.splits)
  have "r = attach_evidence q raw \<and> cn_schema k (cd_output c) (tr_output raw) = Schema_ok \<and> \<not> foreign_evidence q raw"
    using raw(2) assms(2) by (auto simp: check_output_def reject_result_def attach_evidence_def split: if_splits schema_verdict.splits)
  then have r: "r = attach_evidence q raw" "cn_schema k (cd_output c) (tr_output raw) = Schema_ok" "\<not> foreign_evidence q raw" by auto
  have out: "tr_output r = tr_output raw" using r(1) by (simp add: attach_evidence_def)
  obtain e where e: "tr_evidence r = Some e" "te_capability e = i" "te_tool e = t"
    using r(1,3) ok(1,2)
    by (cases "tr_evidence raw") (auto simp: attach_evidence_def foreign_evidence_def contract_evidence_def text_of_def)
  show ?thesis
    by (intro exI[of _ i] exI[of _ t] exI[of _ c] exI[of _ ts] exI[of _ tool] exI[of _ "effective_tool_timeout c v"]
        exI[of _ raw] exI[of _ e] conjI)
      (use ok platform raw(1) out r(2) e effective_bounded in simp_all)
qed

theorem tool_success_is_checked_witness:
  "\<exists>e. tr_evidence (projr (invoke (sample_contract ''cli.exec'') (sample_tool_request ''cli.exec'' [(''argv'', str_list [''ls''])])
     (Label (Some ''Linux'')))) = Some e \<and> te_tool e = ''cli.exec''"
proof -
  let ?k = "sample_contract ''cli.exec''" and ?q = "sample_tool_request ''cli.exec'' [(''argv'', str_list [''ls''])]"
  have run: "case invoke ?k ?q (Label (Some ''Linux'')) of Inr r \<Rightarrow> tr_status r = Tool_SUCCESS | Inl _ \<Rightarrow> False" by code_simp
  then obtain r where r: "invoke ?k ?q (Label (Some ''Linux'')) = Inr r" "tr_status r = Tool_SUCCESS" by (auto split: sum.splits)
  have "build_registry default_capabilities = Inr (cn_catalog ?k)" using default_registry by (simp add: sample_contract_def)
  from tool_success_is_checked[OF r this] r(1) show ?thesis by (auto simp: sample_tool_request_def)
qed

text \<open>A timeout that arrives among the arguments is only limited from above. When every other
  check passes, the contract permits any integer timeout up to the capability's limit, zero and
  negative ones included, which the timeout field of a request itself would refuse.\<close>

theorem argument_timeout_unbounded_below:
  assumes "build_registry defs = Inr (cn_catalog k)" and "map_of (cn_catalog k) i = Some c" and "i \<noteq> []" and "t \<noteq> []"
    and "tq_capability_id q = Some i" and "tq_tool q = Some t" and "tq_timeout q = None" and "cn_tools k = Some ts"
    and "normalize_platform label \<noteq> Unknown_platform" and "normalize_platform label \<in> set (cd_platforms c)"
    and "t \<in> set (bindings c)" and "map_of ts t = Some tool" and "tl_name tool = t"
    and "cn_schema k (cd_input c) (PDict (tq_arguments q)) = Schema_ok" and "check_semantic_argv i (tq_arguments q) = None"
    and "dict_get (tq_arguments q) ''timeout_seconds'' = PInt z" and "of_int z \<le> cd_timeout c"
  shows "validate_request k q label = Inr (permit c (of_int z))"
proof -
  have "t \<in> set (list_capabilities ts)" using map_of_SomeD[OF assms(12)] by (force simp: list_capabilities_def)
  with assms(9-11) have av: "dr_availability (discover_one label (list_capabilities ts) c) = Available"
    unfolding discover_one_available by blast
  have "List.find (\<lambda>d. cd_id (dr_capability d) = i) (discover label (Some (list_capabilities ts)) (cn_tools k) (cn_catalog k))
      = Some (discover_one label (list_capabilities ts) c)"
    using found_discovery[OF assms(2) registry_keyed[OF assms(1)], of label "Some (list_capabilities ts)" "cn_tools k"]
    by (simp add: available_tools_def)
  moreover have "validate_binding k c i t ts = None"
    using assms(11-13) by (simp add: validate_binding_def resolve_name_def)
  moreover have "validate_arguments k c i q = Inr (permit c (of_int z))"
    using assms(7,14-17) by (simp add: validate_arguments_def requested_timeout_def argument_timeout_def effective_tool_timeout_def)
  ultimately show ?thesis
    using assms(2-6,8) av by (simp add: validate_request_def or_str_def get_capability_def)
qed

theorem argument_timeout_unbounded_below_witness:
  "\<exists>d. validate_request (sample_contract ''cli.exec'')
     (sample_tool_request ''cli.exec'' [(''argv'', str_list [''ls'']), (''timeout_seconds'', PInt (- 5))]) (Label (Some ''Linux'')) = Inr d \<and>
   dc_valid d \<and> dc_timeout d = Some (- 5)"
proof -
  let ?k = "sample_contract ''cli.exec''"
  let ?q = "sample_tool_request ''cli.exec'' [(''argv'', str_list [''ls'']), (''timeout_seconds'', PInt (- 5))]"
  have b: "build_registry default_capabilities = Inr (cn_catalog ?k)" using default_registry by (simp add: sample_contract_def)
  have "case map_of (cn_catalog ?k) ''cli.exec'' of None \<Rightarrow> False
    | Some c \<Rightarrow> Linux \<in> set (cd_platforms c) \<and> bindings c = [''cli.exec''] \<and> cd_timeout c = 120" by code_simp
  then obtain c where c: "map_of (cn_catalog ?k) ''cli.exec'' = Some c" "Linux \<in> set (cd_platforms c)" "bindings c = [''cli.exec'']"
    "cd_timeout c = 120" by (auto split: option.splits)
  have l: "normalize_platform (Label (Some ''Linux'')) = Linux" by code_simp
  have "validate_request ?k ?q (Label (Some ''Linux'')) = Inr (permit c (of_int (- 5)))"
    by (rule argument_timeout_unbounded_below[OF b c(1), where t = "''cli.exec''" and ts = "the (cn_tools ?k)"
        and tool = "\<lparr>tl_name = ''cli.exec'', tl_execute = \<lambda>_. Inr sample_result\<rparr>"])
      (use c l in \<open>simp_all add: sample_contract_def sample_tool_request_def check_semantic_argv_def
        semantic_argv_prefix_def dict_get_def fun_eq_iff\<close>)
  then show ?thesis by simp
qed

end
