(* ===== verification/StepExec.thy ===== *)
theory StepExec imports ToolContract PlanStore Failures begin

text \<open>
  The executors that \<open>planning/service.py\<close> puts between a step's orchestrator and the outside:
  \<open>_ToolExecutor\<close> calls the tool of the step through the contract, \<open>_TaskGraphAgentExecutor\<close>
  hands a bounded projection of the plan (\<open>planning/execution_contract.py\<close>) to an agent, unless
  the plan has been revised since.

  \<^item> The registry and contract a tool executor holds, the agent and its results are arguments.
  \<^item> The recovery controller that may travel in a context is an in-process object: \<open>fresh\<close> is
    the one the executor makes when none is supplied.
\<close>

section \<open>The step contract\<close>

definition active_step_execution_contract :: "plan_step \<Rightarrow> plan option \<Rightarrow> pydict" where
  "active_step_execution_contract s p =
     [(''plan_id'', PStr (case p of None \<Rightarrow> [] | Some q \<Rightarrow> pl_id q)),
      (''plan_version'', PStr (case p of None \<Rightarrow> [] | Some q \<Rightarrow> pl_version q)),
      (''step_id'', PStr (ps_id s)), (''objective'', PStr (ps_objective s)), (''capability'', PStr (ps_capability s)),
      (''inputs'', PDict (ps_inputs s)), (''success_criteria'', str_list (ps_success_criteria s)),
      (''expected_effects'', PDict (ps_effects s))]"

definition graph_contract :: "pydict \<Rightarrow> pydict option" where
  "graph_contract ctx =
     (case dict_get ctx ''active_step_contract'' of
        PDict d \<Rightarrow> Some d
      | _ \<Rightarrow> (case dict_get ctx ''taskgraph'' of
               PDict g \<Rightarrow> as_dict (dict_get g ''active_step_contract'')
             | _ \<Rightarrow> None))"

definition dict_part :: "pydict \<Rightarrow> string \<Rightarrow> pyval" where
  "dict_part d k = (case dict_get_or d k (PDict []) of PDict e \<Rightarrow> PDict e | _ \<Rightarrow> PDict [])"

definition list_part :: "pydict \<Rightarrow> string \<Rightarrow> pyval" where
  "list_part d k = (case dict_get_or d k (PList []) of PList xs \<Rightarrow> PList xs | _ \<Rightarrow> PList [])"

definition text_part :: "pydict \<Rightarrow> string \<Rightarrow> pyval" where
  "text_part d k = PStr (py_str (dict_get_or d k (PStr [])))"

definition contract_from_context :: "pydict \<Rightarrow> pydict option" where
  "contract_from_context ctx =
     (case graph_contract ctx of
        None \<Rightarrow> None
      | Some d \<Rightarrow>
          (case (or_str (as_str (dict_get d ''capability'')) None, or_str (as_str (dict_get d ''step_id'')) None) of
             (Some c, Some i) \<Rightarrow>
               Some [(''plan_id'', text_part d ''plan_id''), (''plan_version'', text_part d ''plan_version''),
                     (''step_id'', PStr i), (''objective'', text_part d ''objective''), (''capability'', PStr c),
                     (''inputs'', dict_part d ''inputs''), (''success_criteria'', list_part d ''success_criteria''),
                     (''expected_effects'', dict_part d ''expected_effects'')]
           | _ \<Rightarrow> None))"

definition contract_inputs_sha256 :: "(string \<Rightarrow> string) \<Rightarrow> pydict \<Rightarrow> string" where
  "contract_inputs_sha256 sha d = sha (json_compact (dict_part d ''inputs''))"

definition contract_telemetry :: "(string \<Rightarrow> string) \<Rightarrow> pydict \<Rightarrow> pydict" where
  "contract_telemetry sha d =
     (let h = PStr (contract_inputs_sha256 sha d)
      in [(''accepted_plan_id'', text_part d ''plan_id''), (''accepted_plan_version'', text_part d ''plan_version''),
          (''accepted_plan_step_id'', text_part d ''step_id''),
          (''accepted_plan_step_capability'', text_part d ''capability''), (''accepted_plan_step_inputs_sha256'', h),
          (''active_execution_plan_id'', text_part d ''plan_id''),
          (''active_execution_plan_version'', text_part d ''plan_version''),
          (''active_execution_step_id'', text_part d ''step_id''),
          (''active_execution_capability'', text_part d ''capability''), (''active_execution_inputs_sha256'', h)])"

section \<open>The agent executor\<close>

record exec_request =
  eq_task :: string
  eq_run :: string
  eq_attempt :: string
  eq_context :: pydict
  eq_metadata :: pydict

definition plain_failure :: "string \<Rightarrow> string \<Rightarrow> exec_result" where
  "plain_failure et em =
     \<lparr>er_status = Exec_FAILURE, er_output = None, er_error_type = Some et, er_error_message = Some em, er_usage = [],
      er_artifacts = [], er_duration = 0, er_raw = None\<rparr>"

text \<open>The plan is stale when its version changed or the step is gone.\<close>

definition stale_plan :: "plan \<Rightarrow> plan_step \<Rightarrow> plan option \<Rightarrow> bool" where
  "stale_plan p s current \<longleftrightarrow>
     (case current of
        None \<Rightarrow> True
      | Some q \<Rightarrow> pl_version q \<noteq> pl_version p \<or> \<not> list_ex (\<lambda>x. ps_id x = ps_id s) (pl_steps q))"

definition taskgraph_context :: "(string \<Rightarrow> string) \<Rightarrow> plan \<Rightarrow> plan_step \<Rightarrow> pydict \<Rightarrow> pydict" where
  "taskgraph_context sha p s ctx =
     (let contract = active_step_execution_contract s (Some p) in
      dict_merge ctx
        [(''taskgraph'', PDict
            [(''plan_id'', PStr (pl_id p)), (''active_node'', PStr (ps_id s)),
             (''completed_nodes'', str_list [ps_id x. x \<leftarrow> pl_steps p, ps_status x \<in> terminal_verified]),
             (''pending_nodes'', str_list [ps_id x. x \<leftarrow> pl_steps p, ps_id x \<noteq> ps_id s \<and>
                 ps_status x \<in> {Step_PENDING, Step_READY, Step_RUNNING}]),
             (''depends_on'', str_list (ps_depends s)), (''active_step_contract'', PDict contract)]),
         (''active_step_contract'', PDict contract), (''allowed_capabilities'', str_list [ps_capability s]),
         (''acceptance_criteria'', str_list (ps_success_criteria s)),
         (''execution_contract_telemetry'', PDict (contract_telemetry sha contract))])"

definition copy_dict :: "string \<Rightarrow> string \<Rightarrow> pydict \<Rightarrow> pydict \<Rightarrow> pydict" where
  "copy_dict from to runtime ctx = (case dict_get runtime from of PDict d \<Rightarrow> AList.update to (PDict d) ctx | _ \<Rightarrow> ctx)"

definition copy_key :: "pydict \<Rightarrow> string \<Rightarrow> pydict \<Rightarrow> pydict" where
  "copy_key runtime k ctx = (case map_of runtime k of None \<Rightarrow> ctx | Some v \<Rightarrow> AList.update k v ctx)"

definition with_controller :: "pyval \<Rightarrow> pydict \<Rightarrow> pydict \<Rightarrow> pydict" where
  "with_controller fresh runtime ctx =
     (if py_truthy (dict_get runtime ''recovery_control_plane_v2'') then
        AList.update ''recovery_control_plane_v2'' (PBool True)
          (AList.update ''_recovery_controller''
             (if dict_get runtime ''_recovery_controller'' \<noteq> PNone then dict_get runtime ''_recovery_controller'' else fresh) ctx)
      else ctx)"

definition runtime_context :: "pyval \<Rightarrow> plan_step \<Rightarrow> pydict \<Rightarrow> pydict" where
  "runtime_context fresh s ctx =
     (case dict_get_or (ps_context s) ''runtime'' (PDict []) of
        PDict runtime \<Rightarrow>
          with_controller fresh runtime
            (fold (copy_key runtime)
               [''_replan_budget_guard'', ''_repair_budget_guard'', ''execution_phase'', ''external_validator_authority'']
               (copy_dict ''_repair_progress_config'' ''_repair_progress_config'' runtime
                 (copy_dict ''repair_context'' ''repair_context'' runtime ctx)))
      | _ \<Rightarrow> ctx)"

text \<open>\<open>Inl\<close> is the exception of reading a stored plan that does not validate.\<close>

definition agent_execute ::
  "(string \<Rightarrow> string) \<Rightarrow> plan_db \<Rightarrow> pyval \<Rightarrow> plan \<Rightarrow> plan_step \<Rightarrow> (exec_request \<Rightarrow> exec_result) \<Rightarrow> exec_request \<Rightarrow>
   event_log \<Rightarrow> (store_error + exec_result) \<times> event_log" where
  "agent_execute sha db fresh p s agent q lg =
     (case plan_get sha (pl_id p) db of
        Inl e \<Rightarrow> (Inl e, lg)
      | Inr current \<Rightarrow>
          if stale_plan p s current then
            (Inr (plain_failure ''STALE_PLAN'' ''plan version is no longer authoritative''),
             emit (Ev_Graph PLAN_STALE_REJECTED)
               [(''plan_id'', PStr (pl_id p)), (''bound_version'', PStr (pl_version p)), (''step_id'', PStr (ps_id s)),
                (''current_version'', opt_str (map_option pl_version current))] lg)
          else (Inr (agent (q\<lparr>eq_context := runtime_context fresh s (taskgraph_context sha p s (eq_context q))\<rparr>)), lg))"

section \<open>The tool executor\<close>

text \<open>An event of the attempt of a request.\<close>

definition request_event :: "exec_request \<Rightarrow> event_type \<Rightarrow> pydict \<Rightarrow> event_log \<Rightarrow> event_log" where
  "request_event q ty payload lg = store_append ty (Some (eq_task q)) (Some (eq_run q)) (Some (eq_attempt q)) payload lg"

definition step_tool_request :: "string \<Rightarrow> plan_step \<Rightarrow> pydict \<Rightarrow> exec_request \<Rightarrow> tool_request" where
  "step_tool_request i s ctx q =
     \<lparr>tq_call = i, tq_task = eq_task q, tq_run = eq_run q, tq_attempt = eq_attempt q, tq_capability = Some (ps_capability s),
      tq_capability_id = Some (ps_capability s), tq_tool = Some (ps_capability s), tq_arguments = ps_inputs s,
      tq_context = dict_merge ctx (eq_context q), tq_timeout = None, tq_metadata = eq_metadata q\<rparr>"

text \<open>\<open>json.dumps(value, ensure_ascii=False)\<close>: keys in their own order.\<close>

fun json_plain :: "pyval \<Rightarrow> string" where
  "json_plain (PList xs) = ''['' @ join '', '' (map json_plain xs) @ '']''"
| "json_plain (PDict d) = ''{'' @ join '', '' (map (\<lambda>(k, v). json_quote k @ '': '' @ json_plain v) d) @ ''}''"
| "json_plain v = json_compact v"

definition output_text :: "pyval \<Rightarrow> string" where
  "output_text v = (case v of PStr t \<Rightarrow> t | _ \<Rightarrow> json_plain v)"

definition type_name :: "pyval \<Rightarrow> string" where
  "type_name v = (case v of PNone \<Rightarrow> ''NoneType'' | PBool _ \<Rightarrow> ''bool'' | PInt _ \<Rightarrow> ''int'' | PStr _ \<Rightarrow> ''str''
     | PList _ \<Rightarrow> ''list'' | PDict _ \<Rightarrow> ''dict'')"

definition exception_text :: "contract_exception \<Rightarrow> string \<times> string" where
  "exception_text e =
     (case e of
        Not_a_number v \<Rightarrow> (''TypeError'', repr_str ''<'' @ '' not supported between instances of '' @ repr_str ''float'' @
          '' and '' @ repr_str (type_name v))
      | Stop_iteration \<Rightarrow> (''RuntimeError'', ''coroutine raised StopIteration''))"

text \<open>\<open>raw\<close> is the result as it serialises itself; an exception of the contract is caught.\<close>

definition tool_execute ::
  "contract \<Rightarrow> (tool_result \<Rightarrow> pydict) \<Rightarrow> string \<Rightarrow> plan_step \<Rightarrow> pydict \<Rightarrow> exec_request \<Rightarrow> event_log \<Rightarrow> exec_result \<times> event_log" where
  "tool_execute k raw i s ctx q lg0 =
     (case resolve_name (ps_capability s) (case cn_tools k of None \<Rightarrow> [] | Some ts \<Rightarrow> ts) of
        Inl msg \<Rightarrow> (plain_failure ''UNKNOWN_CAPABILITY'' (py_repr (PStr msg)), lg0)
      | Inr _ \<Rightarrow>
          (let safe = PDict [(''tool_call_id'', PStr i), (''capability'', PStr (ps_capability s))];
               lg = request_event q (Ev_Graph TOOL_CALL_STARTED) [(''request'', safe)] lg0
           in case invoke_via_contract k (step_tool_request i s ctx q) None of
                Inl e \<Rightarrow>
                  (plain_failure (fst (exception_text e)) (snd (exception_text e)),
                   request_event q (Ev_Graph TOOL_CALL_FAILED)
                     [(''request'', safe), (''error_type'', PStr (fst (exception_text e)))] lg)
              | Inr r \<Rightarrow>
                  (\<lparr>er_status = (if tr_status r = Tool_SUCCESS then Exec_SUCCESS else Exec_FAILURE),
                    er_output = Some (output_text (tr_output r)), er_error_type = tr_error_type r,
                    er_error_message = tr_error_message r, er_usage = tr_usage r, er_artifacts = tr_artifacts r,
                    er_duration = 0, er_raw = Some (raw r)\<rparr>,
                   request_event q (Ev_Graph (if tr_status r = Tool_SUCCESS then TOOL_CALL_COMPLETED else TOOL_CALL_FAILED))
                     [(''request'', safe),
                      (''result'', PDict [(''status'', PStr (tool_status_value (tr_status r))),
                         (''error_type'', opt_str (tr_error_type r)),
                         (''artifact_keys'', str_list (take 20 (sort (map fst (tr_artifacts r)))))])] lg)))"

section \<open>Lemmas\<close>

lemma map_of_update: "map_of (AList.update k v d) x = (if x = k then Some v else map_of d x)"
  by (simp add: update_conv')

lemma copy_other:
  "x \<noteq> to \<Longrightarrow> map_of (copy_dict from to runtime ctx) x = map_of ctx x"
  "x \<noteq> k \<Longrightarrow> map_of (copy_key runtime k ctx) x = map_of ctx x"
  "x \<noteq> ''recovery_control_plane_v2'' \<Longrightarrow> x \<noteq> ''_recovery_controller'' \<Longrightarrow>
   map_of (with_controller fresh runtime ctx) x = map_of ctx x"
  by (simp_all add: copy_dict_def copy_key_def with_controller_def map_of_update split: pyval.split option.split)

lemma runtime_context_other:
  assumes "x \<notin> {''recovery_control_plane_v2'', ''_recovery_controller'', ''_replan_budget_guard'', ''_repair_budget_guard'',
    ''execution_phase'', ''external_validator_authority'', ''_repair_progress_config'', ''repair_context''}"
  shows "map_of (runtime_context fresh s ctx) x = map_of ctx x"
  using assms by (simp add: runtime_context_def copy_other split: pyval.split)

lemma contract_roundtrip:
  assumes "ps_capability s \<noteq> []" and "ps_id s \<noteq> []" and "map_of ctx ''active_step_contract'' = Some (PDict (active_step_execution_contract s p))"
  shows "contract_from_context ctx = Some (active_step_execution_contract s p)"
  using assms
  by (simp add: contract_from_context_def graph_contract_def dict_get_def active_step_execution_contract_def or_str_def
    text_part_def dict_part_def list_part_def dict_get_or_def str_list_def)

lemma committed_version:
  assumes "update_if_version q expected db = Inr db'" and "plan_get sha (pl_id q) db' = Inr (Some p)"
  shows "pl_version p = pl_version q"
proof -
  obtain r where "row_get pr_id (pl_id q) (pd_plans db') = Some (write_plan_row q r)"
    using assms(1) by (rule update_if_version_cases)
  with assms(2) show ?thesis
    by (auto simp: plan_get_def validate_plan_def write_plan_row_def Let_def split: option.splits sum.splits)
qed

lemma index_source:
  assumes "index_capabilities cs cat = Inr cat'" and "map_of cat' i = Some c"
  shows "c \<in> set cs \<or> c \<in> snd ` set cat"
  using assms
proof (induction cs arbitrary: cat)
  case Nil
  then show ?case by (force dest: map_of_SomeD)
next
  case (Cons d cs)
  then have "index_capabilities cs (cat @ [(cd_id d, d)]) = Inr cat'" by (auto split: if_splits)
  with Cons show ?case by fastforce
qed

section \<open>Properties\<close>

text \<open>A revised plan is never executed in its old form. After a replan has been committed with a
  new version, an executor bound to the plan before it neither calls its agent (the outcome is
  the same for every agent) nor reports success, whichever step it was bound to.\<close>

theorem replanned_step_never_executes:
  assumes "update_if_version q expected db = Inr db'" and "pl_id q = pl_id p" and "pl_version q \<noteq> pl_version p"
  shows "agent_execute sha db' fresh p s agent r lg = agent_execute sha db' fresh p s agent' r lg \<and>
    \<not> (\<exists>x. fst (agent_execute sha db' fresh p s agent r lg) = Inr x \<and> er_status x = Exec_SUCCESS)"
proof (cases "plan_get sha (pl_id p) db'")
  case (Inl e)
  then show ?thesis by (simp add: agent_execute_def)
next
  case (Inr cur)
  have "stale_plan p s cur"
    using committed_version[OF assms(1)] Inr assms(2,3) by (cases cur) (auto simp: stale_plan_def)
  with Inr show ?thesis by (simp add: agent_execute_def plain_failure_def)
qed

theorem replanned_step_never_executes_witness:
  "\<not> (\<exists>x. fst (agent_execute (\<lambda>_. ''h'') (projr (update_if_version (tiny_plan\<lparr>pl_version := ''P-0.1-r1''\<rparr>) ''P-0.1''
      (projr (plan_create tiny_plan empty_plan_db)))) PNone tiny_plan (plain_step ''a'' ''x'' [])
      (\<lambda>_. plain_result Exec_SUCCESS (Some ''ok'') None None)
      \<lparr>eq_task = ''t'', eq_run = ''r'', eq_attempt = ''a'', eq_context = [], eq_metadata = []\<rparr> []) = Inr x \<and>
    er_status x = Exec_SUCCESS)"
proof -
  let ?p = "tiny_plan\<lparr>pl_version := ''P-0.1-r1''\<rparr>"
  let ?r = "update_if_version ?p ''P-0.1'' (projr (plan_create tiny_plan empty_plan_db))"
  have "\<not> isl ?r" by code_simp
  then have "?r = Inr (projr ?r)" by simp
  from replanned_step_never_executes[OF this, of tiny_plan] show ?thesis by (simp add: tiny_plan_def)
qed

text \<open>The agent sees exactly the active step. Whatever the request's own context says, an agent
  reads from the context it is given the contract of the step it was bound to (plan, version,
  objective, capability, inputs, criteria, effects), and the only capability it is allowed is
  that of the step.\<close>

theorem agent_sees_active_step:
  assumes "ps_capability s \<noteq> []" and "ps_id s \<noteq> []"
  shows "contract_from_context (runtime_context fresh s (taskgraph_context sha p s ctx)) =
      Some (active_step_execution_contract s (Some p)) \<and>
    dict_get (runtime_context fresh s (taskgraph_context sha p s ctx)) ''allowed_capabilities'' = str_list [ps_capability s]"
proof -
  let ?c = "taskgraph_context sha p s ctx"
  have "map_of ?c ''active_step_contract'' = Some (PDict (active_step_execution_contract s (Some p)))"
    "map_of ?c ''allowed_capabilities'' = Some (str_list [ps_capability s])"
    by (simp_all add: taskgraph_context_def Let_def map_of_dict_merge)
  then have m: "map_of (runtime_context fresh s ?c) ''active_step_contract'' = Some (PDict (active_step_execution_contract s (Some p)))"
    "map_of (runtime_context fresh s ?c) ''allowed_capabilities'' = Some (str_list [ps_capability s])"
    by (simp_all add: runtime_context_other)
  show ?thesis using contract_roundtrip[OF assms m(1)] m(2) by (simp add: dict_get_def)
qed

theorem agent_sees_active_step_witness:
  "dict_get (runtime_context PNone (plain_step ''a'' ''x'' []) (taskgraph_context (\<lambda>_. ''h'') tiny_plan (plain_step ''a'' ''x'' [])
     [(''allowed_capabilities'', str_list [''x'', ''cli.exec''])])) ''allowed_capabilities'' = str_list [''x'']"
  using agent_sees_active_step[of "plain_step ''a'' ''x'' []" PNone "\<lambda>_. ''h''" tiny_plan
    "[(''allowed_capabilities'', str_list [''x'', ''cli.exec''])]"]
  by (simp add: plain_step_def)

text \<open>A capability that shares the tool of another never runs. The tool executor names the
  capability itself as the tool, so a step whose capability is one of the default ones and is
  bound to a tool of another name (test.run, git.status, git.diff and environment.inspect are)
  fails, whatever tools are registered and whatever they would return.\<close>

theorem shared_backend_never_runs:
  assumes "build_registry default_capabilities = Inr (cn_catalog k)" and "map_of (cn_catalog k) (ps_capability s) = Some c"
    and "cd_preferred c \<noteq> ps_capability s"
  shows "er_status (fst (tool_execute k raw i s ctx q lg)) = Exec_FAILURE"
proof -
  have c: "c \<in> set default_capabilities"
    using index_source[OF assms(1)[unfolded build_registry_def] assms(2)] by simp
  have "\<forall>c\<in>set default_capabilities. cd_fallbacks c = []" by code_simp
  with c have b: "ps_capability s \<notin> set (bindings c)" using assms(3) by (auto simp: bindings_def)
  have fail: "\<not> tr_status r = Tool_SUCCESS" if "invoke_via_contract k (step_tool_request i s ctx q) None = Inr r" for r
  proof
    assume ok: "tr_status r = Tool_SUCCESS"
    note r = that
    obtain d where d: "validate_request k (step_tool_request i s ctx q) (Label (Some ''windows'')) = Inr d"
      using r by (auto simp: invoke_via_contract_def invoke_def split: sum.splits)
    have v: "dc_valid d"
      using r ok d by (auto simp: invoke_via_contract_def invoke_def failure_result_def split: if_splits)
    show False
    proof (rule validate_request_ok[OF d v registry_keyed[OF assms(1)]], goal_cases)
      case (1 j t ts c' tool u)
      have "j = ps_capability s" "t = ps_capability s" using 1(1,2) by (simp_all add: step_tool_request_def)
      with 1(4,6) assms(2) b show ?case by simp
    qed
  qed
  show ?thesis
  proof (cases "resolve_name (ps_capability s) (case cn_tools k of None \<Rightarrow> [] | Some ts \<Rightarrow> ts)")
    case (Inl m)
    then show ?thesis unfolding tool_execute_def Inl sum.case by (simp add: plain_failure_def)
  next
    case (Inr t)
    show ?thesis
    proof (cases "invoke_via_contract k (step_tool_request i s ctx q) None")
      case (Inl e)
      show ?thesis unfolding tool_execute_def Inr Inl sum.case Let_def by (simp add: plain_failure_def)
    next
      case r: (Inr r)
      show ?thesis unfolding tool_execute_def Inr r sum.case Let_def using fail[OF r] by simp
    qed
  qed
qed

theorem shared_backend_never_runs_witness:
  "er_status (fst (tool_execute (sample_contract ''git.status'') (\<lambda>_. []) ''c'' (plain_step ''a'' ''git.status'' []) []
     \<lparr>eq_task = ''t'', eq_run = ''r'', eq_attempt = ''a'', eq_context = [], eq_metadata = []\<rparr> [])) = Exec_FAILURE"
proof -
  let ?k = "sample_contract ''git.status''"
  have b: "build_registry default_capabilities = Inr (cn_catalog ?k)" using default_registry by (simp add: sample_contract_def)
  have "map_option cd_preferred (map_of (cn_catalog ?k) ''git.status'') = Some ''cli.exec''" by code_simp
  then obtain c where "map_of (cn_catalog ?k) ''git.status'' = Some c" "cd_preferred c = ''cli.exec''" by auto
  then show ?thesis by (intro shared_backend_never_runs[OF b, of _ c]) (simp_all add: plain_step_def)
qed

end
