(* ===== verification/Once.thy ===== *)
theory Once imports Stores begin

text \<open>
  Something handed out at most once over a history of operations: the outcome of a delegated child,
  the execution of a tool call. \<open>act\<close> is what an operation does to the state, \<open>yields\<close> how often it
  hands the thing out, \<open>spent\<close> holds once it has been handed out, and \<open>fine\<close> is the invariant
  the operations keep.
\<close>

text \<open>Reading a table by its key.\<close>

lemma row_get_distinct:
  "distinct (map key rows) \<Longrightarrow> r \<in> set rows \<Longrightarrow> row_get key (key r) rows = Some r"
  by (induction rows) (auto simp: row_get_def)

lemma row_get_none: "row_get key k rows = None \<longleftrightarrow> k \<notin> key ` set rows"
  by (auto simp: row_get_def find_None_iff)

lemma map_sum_Inr: "map_sum id f r = Inr x \<longleftrightarrow> (\<exists>y. r = Inr y \<and> x = f y)"
  by (cases r) auto

text \<open>Histories of operations.\<close>

primrec run_ops :: "('op \<Rightarrow> 's \<Rightarrow> 's) \<Rightarrow> 'op list \<Rightarrow> 's \<Rightarrow> 's" where
  "run_ops act [] s = s"
| "run_ops act (x # xs) s = run_ops act xs (act x s)"

primrec tally :: "('op \<Rightarrow> 's \<Rightarrow> 's) \<Rightarrow> ('op \<Rightarrow> 's \<Rightarrow> nat) \<Rightarrow> 'op list \<Rightarrow> 's \<Rightarrow> nat" where
  "tally act yields [] s = 0"
| "tally act yields (x # xs) s = yields x s + tally act yields xs (act x s)"

text \<open>A property every operation keeps holds after every history.\<close>

lemma run_ops_keeps:
  assumes "\<And>x s. P s \<Longrightarrow> P (act x s)" and "P s"
  shows "P (run_ops act xs s)"
  using assms(2) by (induction xs arbitrary: s) (simp_all add: assms(1))

lemma run_ops_append: "run_ops act (xs @ ys) s = run_ops act ys (run_ops act xs s)"
  by (induction xs arbitrary: s) simp_all

lemma tally_append: "tally act yields (xs @ ys) s = tally act yields xs s + tally act yields ys (run_ops act xs s)"
  by (induction xs arbitrary: s) simp_all

locale once =
  fixes act :: "'op \<Rightarrow> 's \<Rightarrow> 's" and yields :: "'op \<Rightarrow> 's \<Rightarrow> nat" and spent :: "'s \<Rightarrow> bool" and fine :: "'s \<Rightarrow> bool"
  assumes fine_act: "fine s \<Longrightarrow> fine (act x s)"
    and spent_act: "fine s \<Longrightarrow> spent s \<Longrightarrow> spent (act x s)"
    and spent_none: "fine s \<Longrightarrow> spent s \<Longrightarrow> yields x s = 0"
    and yields_one: "fine s \<Longrightarrow> yields x s \<le> 1"
    and yields_spends: "fine s \<Longrightarrow> 0 < yields x s \<Longrightarrow> spent (act x s)"
begin

lemma tally_spent: "fine s \<Longrightarrow> spent s \<Longrightarrow> tally act yields xs s = 0"
  by (induction xs arbitrary: s) (simp_all add: fine_act spent_act spent_none)

lemma tally_once: "fine s \<Longrightarrow> tally act yields xs s \<le> 1"
proof (induction xs arbitrary: s)
  case (Cons x xs)
  then show ?case
    using yields_one[of s x] yields_spends[of s x] tally_spent[of "act x s" xs] fine_act[of s x]
    by (cases "yields x s = 0") simp_all
qed simp

lemma tally_after:
  assumes "fine s" and "0 < yields x s"
  shows "tally act yields xs (act x s) = 0"
  using assms by (intro tally_spent) (simp_all add: fine_act yields_spends)

end

end
