(* ===== verification/Completion.thy ===== *)
theory Completion imports ExecRows Once begin

text \<open>
  \<open>src/lhas/native/completion.py\<close> with the repositories it uses (\<open>native/persistence.py\<close>): who
  decides that a model's claim to be finished is true.

  \<^item> \<open>CompletionAuthority\<close> writes rows one transaction at a time, so an operation is the list of
    its writes in order. A process that dies leaves the result of a prefix of that list; a write
    that raises (a duplicate key, a missing row) ends the operation where it is.
  \<^item> The validator, \<open>json.loads\<close>, the digest and fresh ids are parameters.
  \<^item> Rows are kept in the order they were created, which is how the repositories order them
    (time stamps are not modelled); the fault injector is the crash.
\<close>

section \<open>Rows\<close>

datatype candidate_status = CANDIDATE_COMPLETION | ACCEPTED | REJECTED

primrec candidate_status_value :: "candidate_status \<Rightarrow> string" where
  "candidate_status_value CANDIDATE_COMPLETION = ''CANDIDATE_COMPLETION''"
| "candidate_status_value ACCEPTED = ''ACCEPTED''"
| "candidate_status_value REJECTED = ''REJECTED''"

record candidate =
  cc_id :: string
  cc_task :: string
  cc_run :: string
  cc_attempt :: string
  cc_source :: string
  cc_status :: candidate_status
  cc_claim :: string
  cc_summary :: string
  cc_validation :: pydict

record val_failure =
  vf_id :: string
  vf_candidate :: string
  vf_attempt :: string
  vf_category :: string
  vf_criterion :: string
  vf_evidence :: string
  vf_recovery :: string

record native_validation = validation +
  nv_id :: string
  nv_duration :: nat

record native_db =
  nd_tasks :: "task list"
  nd_attempts :: "attempt list"
  nd_candidates :: "candidate list"
  nd_validations :: "native_validation list"
  nd_failures :: "val_failure list"
  nd_signals :: "replan_signal list"
  nd_log :: event_log
  nd_ids :: nat

record completion_env =
  ce_sha :: "string \<Rightarrow> string"
  ce_json :: "string \<Rightarrow> pyval option"
  ce_validate :: "task \<Rightarrow> attempt \<Rightarrow> exec_result \<Rightarrow> string + native_validation"
  ce_id :: "nat \<Rightarrow> string"

section \<open>Writes\<close>

type_synonym db_write = "native_db \<Rightarrow> native_db option"

primrec run_writes :: "db_write list \<Rightarrow> native_db \<Rightarrow> bool \<times> native_db" where
  "run_writes [] db = (True, db)"
| "run_writes (w # ws) db = (case w db of None \<Rightarrow> (False, db) | Some d \<Rightarrow> run_writes ws d)"

definition create_candidate :: "candidate \<Rightarrow> db_write" where
  "create_candidate c db =
     (if row_get cc_id (cc_id c) (nd_candidates db) \<noteq> None then None
      else Some (db\<lparr>nd_candidates := row_create c (nd_candidates db), nd_ids := nd_ids db + 1\<rparr>))"

definition update_candidate :: "candidate \<Rightarrow> db_write" where
  "update_candidate c db =
     (case row_get cc_id (cc_id c) (nd_candidates db) of
        None \<Rightarrow> None
      | Some old \<Rightarrow>
          map_option (\<lambda>rows. db\<lparr>nd_candidates := rows\<rparr>)
            (row_update cc_id (old\<lparr>cc_status := cc_status c, cc_summary := cc_summary c, cc_validation := cc_validation c\<rparr>)
               (nd_candidates db)))"

definition create_validation :: "native_validation \<Rightarrow> db_write" where
  "create_validation v db =
     (if row_get nv_id (nv_id v) (nd_validations db) \<noteq> None then None
      else Some (db\<lparr>nd_validations := row_create v (nd_validations db)\<rparr>))"

definition create_failure :: "val_failure \<Rightarrow> db_write" where
  "create_failure f db =
     (if row_get vf_id (vf_id f) (nd_failures db) \<noteq> None then None
      else Some (db\<lparr>nd_failures := row_create f (nd_failures db), nd_ids := nd_ids db + 1\<rparr>))"

definition create_signal :: "replan_signal \<Rightarrow> db_write" where
  "create_signal s db =
     (if row_get rs_id (rs_id s) (nd_signals db) \<noteq> None then None
      else Some (db\<lparr>nd_signals := row_create s (nd_signals db), nd_ids := nd_ids db + 1\<rparr>))"

definition append_event :: "event_type \<Rightarrow> candidate \<Rightarrow> pydict \<Rightarrow> db_write" where
  "append_event ty c payload db =
     Some (db\<lparr>nd_log := store_append ty (Some (cc_task c)) (Some (cc_run c)) (Some (cc_attempt c)) payload (nd_log db)\<rparr>)"

definition candidates_of :: "string \<Rightarrow> native_db \<Rightarrow> candidate list" where
  "candidates_of a db = [c \<leftarrow> nd_candidates db. cc_attempt c = a]"

definition latest_candidate :: "string \<Rightarrow> native_db \<Rightarrow> candidate option" where
  "latest_candidate a db = (if candidates_of a db = [] then None else Some (last (candidates_of a db)))"

definition failures_of :: "string \<Rightarrow> native_db \<Rightarrow> val_failure list" where
  "failures_of a db = [f \<leftarrow> nd_failures db. vf_attempt f = a]"

section \<open>The evidence of a process\<close>

definition bounded_evidence :: "string option \<Rightarrow> string" where
  "bounded_evidence e = (case e of None \<Rightarrow> ''null'' | Some s \<Rightarrow> take 8000 s)"

definition structured_evidence :: "(string \<Rightarrow> pyval option) \<Rightarrow> native_validation \<Rightarrow> pydict option" where
  "structured_evidence json v =
     (case va_evidence v of
        None \<Rightarrow> None
      | Some t \<Rightarrow> (case json t of Some (PDict d) \<Rightarrow> Some d | _ \<Rightarrow> None))"

definition command_word :: "pyval \<Rightarrow> bool" where
  "command_word x = (case x of PStr s \<Rightarrow> s \<noteq> [] | _ \<Rightarrow> False)"

definition process_result :: "(string \<Rightarrow> pyval option) \<Rightarrow> native_validation \<Rightarrow> bool" where
  "process_result json v \<longleftrightarrow>
     va_passed v \<and>
     (case structured_evidence json v of
        None \<Rightarrow> False
      | Some d \<Rightarrow>
          dict_get d ''exit_code'' = PInt 0 \<and> dict_get d ''timed_out'' = PBool False \<and>
          (case dict_get d ''command'' of
             PList xs \<Rightarrow> xs \<noteq> [] \<and> list_all command_word xs
           | _ \<Rightarrow> False))"

section \<open>The authority\<close>

datatype completion_error = Missing_task_or_attempt | Validator_raised string | Write_failed | Interrupted

definition claim_result :: "candidate \<Rightarrow> exec_result" where
  "claim_result c =
     \<lparr>er_status = Exec_SUCCESS, er_output = Some (cc_summary c), er_error_type = None, er_error_message = None, er_usage = [],
      er_artifacts = [], er_duration = 0,
      er_raw = Some [(''completion_candidate_id'', PStr (cc_id c)), (''source'', PStr (cc_source c))]\<rparr>"

definition command_entry :: "(string \<Rightarrow> pyval option) \<Rightarrow> native_validation \<Rightarrow> pydict" where
  "command_entry json v =
     (case structured_evidence json v of
        None \<Rightarrow> []
      | Some d \<Rightarrow> (case dict_get d ''command'' of PList xs \<Rightarrow> [(''validator_command'', PList xs)] | _ \<Rightarrow> []))"

definition validation_payload :: "(string \<Rightarrow> pyval option) \<Rightarrow> candidate \<Rightarrow> native_validation \<Rightarrow> pydict" where
  "validation_payload json c v =
     [(''attempt_id'', PStr (cc_attempt c)), (''run_id'', PStr (cc_run c)), (''validation_result_id'', PStr (nv_id v)),
      (''passed'', PBool (va_passed v)), (''level'', PStr (va_level v)), (''checks'', PList (map check_dump (take 50 (va_checks v)))),
      (''evidence'', PStr (bounded_evidence (va_evidence v))), (''duration_ms'', PInt (int (nv_duration v)))] @
     command_entry json v"

definition judged :: "(string \<Rightarrow> pyval option) \<Rightarrow> attempt \<Rightarrow> native_validation \<Rightarrow> candidate \<Rightarrow> candidate" where
  "judged json a v c =
     c\<lparr>cc_validation := validation_payload json c v,
       cc_status := (if process_result json v \<and> va_attempt v = at_id a then ACCEPTED else REJECTED)\<rparr>"

text \<open>What follows a validation that did not pass.\<close>

definition rejection_writes :: "completion_env \<Rightarrow> native_validation \<Rightarrow> candidate \<Rightarrow> nat \<Rightarrow> db_write list" where
  "rejection_writes e v c n =
     (let criterion = take 2000 (case List.find (\<lambda>k. \<not> vc_passed k) (va_checks v) of None \<Rightarrow> ''completion acceptance'' | Some k \<Rightarrow> vc_name k);
          f = \<lparr>vf_id = ce_id e n, vf_candidate = cc_id c, vf_attempt = cc_attempt c, vf_category = ''ACCEPTANCE_VALIDATION_FAILED'',
               vf_criterion = criterion, vf_evidence = bounded_evidence (va_evidence v), vf_recovery = ''REPAIR_AND_REVALIDATE''\<rparr>;
          s = \<lparr>rs_id = ce_id e (n + 1), rs_task = cc_task c, rs_run = cc_run c, rs_attempt = cc_attempt c, rs_reason = ''VALIDATOR_REJECTION'',
               rs_scope = ''TASKGRAPH_NODE'', rs_failed_node = None,
               rs_evidence = [(''candidate_id'', PStr (cc_id c)), (''failed_criterion'', PStr criterion)]\<rparr>
      in [create_failure f,
          append_event (Ev_Native VALIDATION_FAILURE_CREATED) c
            [(''validation_failure_id'', PStr (vf_id f)), (''candidate_id'', PStr (cc_id c)), (''category'', PStr (vf_category f))],
          create_signal s,
          append_event (Ev_Native REPLAN_SIGNAL_CREATED) c
            [(''signal_id'', PStr (rs_id s)), (''reason'', PStr (rs_reason s)), (''scope'', PStr (rs_scope s))]])"

definition validation_writes :: "completion_env \<Rightarrow> attempt \<Rightarrow> native_validation \<Rightarrow> candidate \<Rightarrow> nat \<Rightarrow> db_write list" where
  "validation_writes e a v c n =
     (let d = judged (ce_json e) a v c
      in [create_validation v, update_candidate d,
          append_event (Ev_Native (if cc_status d = ACCEPTED then COMPLETION_CANDIDATE_ACCEPTED else COMPLETION_CANDIDATE_REJECTED)) c
            [(''candidate_id'', PStr (cc_id c)), (''validation_passed'', PBool (va_passed v))]] @
         (if va_passed v then [] else rejection_writes e v c n))"

text \<open>\<open>_validate\<close>: the candidate it returns, and what it writes.\<close>

definition authority_plan :: "completion_env \<Rightarrow> candidate \<Rightarrow> native_db \<Rightarrow> (completion_error + candidate) \<times> db_write list" where
  "authority_plan e c db =
     (case (List.find (\<lambda>t. ta_id t = cc_task c) (nd_tasks db), List.find (\<lambda>a. at_id a = cc_attempt c) (nd_attempts db)) of
        (Some t, Some a) \<Rightarrow>
          (case ce_validate e t a (claim_result c) of
             Inl exn \<Rightarrow> (Inl (Validator_raised exn), [])
           | Inr v \<Rightarrow> (Inr (judged (ce_json e) a v c), validation_writes e a v c (nd_ids db)))
      | _ \<Rightarrow> (Inl Missing_task_or_attempt, []))"

text \<open>An operation that reaches its \<open>k\<close>-th write; \<open>k = None\<close> when nothing interrupts it.\<close>

definition perform :: "nat option \<Rightarrow> (completion_error + candidate) \<times> db_write list \<Rightarrow> native_db \<Rightarrow>
  (completion_error + candidate) \<times> native_db" where
  "perform k plan db =
     (case k of
        None \<Rightarrow> (let (complete, db') = run_writes (snd plan) db in (if complete then fst plan else Inl Write_failed, db'))
      | Some n \<Rightarrow> (Inl Interrupted, snd (run_writes (take n (snd plan)) db)))"

record snapshot_ids =
  si_task :: string
  si_run :: string
  si_attempt :: string

definition new_candidate :: "completion_env \<Rightarrow> snapshot_ids \<Rightarrow> string \<Rightarrow> string \<Rightarrow> nat \<Rightarrow> candidate" where
  "new_candidate e s claim source n =
     \<lparr>cc_id = ce_id e n, cc_task = si_task s, cc_run = si_run s, cc_attempt = si_attempt s, cc_source = source,
      cc_status = CANDIDATE_COMPLETION, cc_claim = ce_sha e claim, cc_summary = take 8000 claim, cc_validation = []\<rparr>"

definition claim_plan :: "completion_env \<Rightarrow> snapshot_ids \<Rightarrow> string \<Rightarrow> string \<Rightarrow> native_db \<Rightarrow>
  (completion_error + candidate) \<times> db_write list" where
  "claim_plan e s claim source db =
     (let c = new_candidate e s claim source (nd_ids db);
          first = [create_candidate c,
                   append_event (Ev_Native COMPLETION_CANDIDATE_CREATED) c
                     [(''candidate_id'', PStr (cc_id c)), (''source'', PStr source), (''claim_sha256'', PStr (cc_claim c))]];
          (r, ws) = authority_plan e c (snd (run_writes first db))
      in (r, first @ ws))"

definition evaluate_claim :: "completion_env \<Rightarrow> nat option \<Rightarrow> snapshot_ids \<Rightarrow> string \<Rightarrow> string \<Rightarrow> native_db \<Rightarrow>
  (completion_error + candidate) \<times> native_db" where
  "evaluate_claim e k s claim source db = perform k (claim_plan e s claim source db) db"

definition resume_pending :: "completion_env \<Rightarrow> nat option \<Rightarrow> string \<Rightarrow> native_db \<Rightarrow>
  (completion_error + candidate option) \<times> native_db" where
  "resume_pending e k a db =
     (case latest_candidate a db of
        None \<Rightarrow> (Inr None, db)
      | Some c \<Rightarrow>
          if cc_status c = CANDIDATE_COMPLETION then
            (let (r, db') = perform k (authority_plan e c db) db in (map_sum id Some r, db'))
          else (Inr (Some c), db))"

section \<open>The outer validator\<close>

text \<open>\<open>AcceptedCompletionValidator\<close>: the row the candidate names, and the verdict.\<close>

definition named_validation :: "candidate \<Rightarrow> string \<Rightarrow> native_db \<Rightarrow> native_validation option" where
  "named_validation c a db =
     (case dict_get (cc_validation c) ''validation_result_id'' of
        PStr i \<Rightarrow> List.find (\<lambda>v. nv_id v = i) [v \<leftarrow> nd_validations db. va_attempt v = a]
      | _ \<Rightarrow> None)"

definition command_matches :: "(string \<Rightarrow> pyval option) \<Rightarrow> candidate \<Rightarrow> native_validation option \<Rightarrow> bool" where
  "command_matches json c v =
     (case Option.bind v (structured_evidence json) of
        None \<Rightarrow> False
      | Some d \<Rightarrow> map_of (cc_validation c) ''validator_command'' = None \<or>
          py_eq (dict_get d ''command'') (dict_get (cc_validation c) ''validator_command''))"

definition acceptance_holds :: "(string \<Rightarrow> pyval option) \<Rightarrow> string \<Rightarrow> attempt \<Rightarrow> native_db \<Rightarrow> bool" where
  "acceptance_holds json t a db =
     (case latest_candidate (at_id a) db of
        None \<Rightarrow> False
      | Some c \<Rightarrow>
          cc_status c = ACCEPTED \<and> cc_task c = t \<and> cc_run c = at_run a \<and> cc_attempt c = at_id a \<and>
          dict_get (cc_validation c) ''run_id'' = PStr (at_run a) \<and> dict_get (cc_validation c) ''attempt_id'' = PStr (at_id a) \<and>
          (case named_validation c (at_id a) db of
             None \<Rightarrow> False
           | Some v \<Rightarrow> va_attempt v = at_id a \<and> process_result json v \<and> command_matches json c (Some v)))"

definition acceptance_evidence :: "(string \<Rightarrow> pyval option) \<Rightarrow> bool \<Rightarrow> attempt \<Rightarrow> native_db \<Rightarrow> pyval" where
  "acceptance_evidence json passed a db =
     (let c = latest_candidate (at_id a) db;
          v = Option.bind c (\<lambda>c. named_validation c (at_id a) db)
      in PDict [(''candidate_id'', opt_str (map_option cc_id c)),
                (''candidate_status'', opt_str (map_option (candidate_status_value \<circ> cc_status) c)),
                (''acceptance_authority'', PStr ''CompletionAuthority''),
                (''validation_result_id'', opt_str (map_option nv_id v)),
                (''validator_evidence'',
                   if passed then (case Option.bind v (structured_evidence json) of None \<Rightarrow> PNone | Some d \<Rightarrow> PDict d) else PNone)])"

definition accepted_validate :: "(string \<Rightarrow> pyval option) \<Rightarrow> string \<Rightarrow> string \<Rightarrow> attempt \<Rightarrow> native_db \<Rightarrow> native_validation" where
  "accepted_validate json i t a db =
     (let passed = acceptance_holds json t a db in
      \<lparr>va_attempt = at_id a, va_passed = passed, va_level = ''V2_RULE'',
       va_checks = [\<lparr>vc_name = ''native_completion_candidate_accepted'', vc_passed = passed,
          vc_detail = (if passed then None else Some ''no accepted native completion candidate'')\<rparr>],
       va_evidence = Some (json_dumps '', '' '': '' (acceptance_evidence json passed a db)), va_stdout = None,
       nv_id = i, nv_duration = 0\<rparr>)"

section \<open>Histories\<close>

text \<open>Any sequence of claims, resumptions and validations by others (the outer validator's own verdict
  is stored in the same table), each interrupted anywhere or not at all.\<close>

datatype completion_call = Claim snapshot_ids string string | Resume string | Other_validation native_validation

fun completion_step :: "completion_env \<times> nat option \<times> completion_call \<Rightarrow> native_db \<Rightarrow> native_db" where
  "completion_step (e, k, Claim s claim source) db = snd (evaluate_claim e k s claim source db)"
| "completion_step (e, k, Resume a) db = snd (resume_pending e k a db)"
| "completion_step (e, k, Other_validation v) db = (case create_validation v db of None \<Rightarrow> db | Some d \<Rightarrow> d)"

definition completion_history :: "(completion_env \<times> nat option \<times> completion_call) list \<Rightarrow> native_db \<Rightarrow> native_db" where
  "completion_history calls db = fold completion_step calls db"

section \<open>The invariant\<close>

definition vouched :: "(string \<Rightarrow> pyval option) \<Rightarrow> native_db \<Rightarrow> candidate \<Rightarrow> bool" where
  "vouched json db c \<longleftrightarrow>
     (\<exists>v\<in>set (nd_validations db). process_result json v \<and> va_attempt v = cc_attempt c \<and>
        cc_validation c = validation_payload json c v)"

definition completion_ok :: "(string \<Rightarrow> pyval option) \<Rightarrow> native_db \<Rightarrow> bool" where
  "completion_ok json db \<longleftrightarrow>
     distinct (map nv_id (nd_validations db)) \<and> distinct (map cc_id (nd_candidates db)) \<and>
     (\<forall>c\<in>set (nd_candidates db). cc_status c = ACCEPTED \<longrightarrow> vouched json db c)"

lemma run_take_invariant:
  assumes "P db" and "\<And>w d d'. w \<in> set ws \<Longrightarrow> P d \<Longrightarrow> w d = Some d' \<Longrightarrow> P d'"
  shows "P (snd (run_writes (take n ws) db))"
  using assms
proof (induction ws arbitrary: n db)
  case (Cons w ws)
  show ?case
  proof (cases n)
    case (Suc m)
    then show ?thesis using Cons.IH[of _ m] Cons.prems by (auto split: option.split)
  qed (simp add: Cons.prems)
qed simp

lemma perform_take: "\<exists>n. snd (perform k plan db) = snd (run_writes (take n (snd plan)) db)"
  by (cases k) (auto simp: perform_def split_beta intro: exI[of _ "length (snd plan)"])

lemma run_append:
  "run_writes (ws @ vs) db = (case run_writes ws db of (True, d) \<Rightarrow> run_writes vs d | (False, d) \<Rightarrow> (False, d))"
  by (induction ws arbitrary: db) (auto split: option.split)

lemma vouched_append: "vouched json db c \<Longrightarrow> vouched json (db\<lparr>nd_validations := nd_validations db @ [v]\<rparr>) c"
  by (auto simp: vouched_def)

lemma vouched_other:
  "vouched json (db\<lparr>nd_candidates := cs\<rparr>) = vouched json db"
  "vouched json (db\<lparr>nd_candidates := cs, nd_ids := n\<rparr>) = vouched json db"
  "vouched json (db\<lparr>nd_failures := fs, nd_ids := n\<rparr>) = vouched json db"
  "vouched json (db\<lparr>nd_signals := ss, nd_ids := n\<rparr>) = vouched json db"
  "vouched json (db\<lparr>nd_log := lg\<rparr>) = vouched json db"
  by (simp_all add: vouched_def fun_eq_iff)

lemma event_ok: "completion_ok json d \<Longrightarrow> append_event ty c p d = Some d' \<Longrightarrow> completion_ok json d'"
  by (auto simp: completion_ok_def append_event_def vouched_other)

lemma create_candidate_ok:
  assumes "completion_ok json d" and "cc_status c = CANDIDATE_COMPLETION" and "create_candidate c d = Some d'"
  shows "completion_ok json d' \<and> row_get cc_id (cc_id c) (nd_candidates d') = Some c"
proof -
  have n: "row_get cc_id (cc_id c) (nd_candidates d) = None"
    and d': "d' = d\<lparr>nd_candidates := row_create c (nd_candidates d), nd_ids := nd_ids d + 1\<rparr>"
    using assms(3) by (auto simp: create_candidate_def split: if_splits)
  have "row_get cc_id (cc_id c) (row_create c (nd_candidates d)) = Some c" using row_get_create[OF n] by simp
  with assms(1,2) n show ?thesis by (auto simp: d' completion_ok_def vouched_other row_create_def row_get_none)
qed

lemma create_validation_ok:
  assumes "completion_ok json d" and "create_validation v d = Some d'"
  shows "completion_ok json d' \<and> v \<in> set (nd_validations d') \<and> nd_candidates d' = nd_candidates d"
  using assms
  by (auto simp: completion_ok_def create_validation_def row_create_def row_get_none vouched_append split: if_splits)

lemma update_judged_ok:
  assumes ok: "completion_ok json d" and c: "row_get cc_id (cc_id c) (nd_candidates d) = Some c" and v: "v \<in> set (nd_validations d)"
    and a: "at_id a = cc_attempt c" and up: "update_candidate (judged json a v c) d = Some d'"
  shows "completion_ok json d'"
proof -
  let ?j = "judged json a v c"
  have id: "cc_id ?j = cc_id c" by (simp add: judged_def)
  have d': "d' = d\<lparr>nd_candidates := map (\<lambda>r. if cc_id r = cc_id c then ?j else r) (nd_candidates d)\<rparr>"
    using up c by (auto simp: update_candidate_def row_update_def judged_def)
  have keys: "map cc_id (map (\<lambda>r. if cc_id r = cc_id c then ?j else r) (nd_candidates d)) = map cc_id (nd_candidates d)"
    by (simp add: id)
  have j: "cc_status ?j = ACCEPTED \<Longrightarrow> vouched json d ?j"
    using v a by (auto simp: judged_def vouched_def validation_payload_def split: if_splits intro!: bexI[of _ v])
  have "distinct (map cc_id (nd_candidates d'))" using ok keys by (simp add: completion_ok_def d' del: map_map)
  with ok j show ?thesis by (auto simp: completion_ok_def d' vouched_other)
qed

lemma rejection_ok:
  assumes "w \<in> set (rejection_writes e v c n)" and "completion_ok json d" and "w d = Some d'"
  shows "completion_ok json d'"
  using assms
  by (auto simp: rejection_writes_def Let_def create_failure_def create_signal_def append_event_def completion_ok_def
    vouched_other split: if_splits)

lemma validation_writes_ok:
  assumes ok: "completion_ok (ce_json e) d" and c: "row_get cc_id (cc_id c) (nd_candidates d) = Some c" and a: "at_id a = cc_attempt c"
  shows "completion_ok (ce_json e) (snd (run_writes (take m (validation_writes e a v c n)) d))"
proof -
  let ?rest = "drop 2 (validation_writes e a v c n)"
  have ws: "validation_writes e a v c n = create_validation v # update_candidate (judged (ce_json e) a v c) # ?rest"
    by (simp add: validation_writes_def Let_def)
  have rest: "completion_ok (ce_json e) y'" if "w \<in> set ?rest" "completion_ok (ce_json e) y" "w y = Some y'" for w y y'
  proof -
    have "(\<exists>ty p. w = append_event ty c p) \<or> w \<in> set (rejection_writes e v c n)"
      using that(1) by (auto simp: validation_writes_def Let_def split: if_splits)
    with that(2,3) show ?thesis using event_ok rejection_ok by metis
  qed
  show ?thesis
  proof (cases m)
    case (Suc l)
    show ?thesis
    proof (cases "create_validation v d")
      case (Some d1)
      note d1 = create_validation_ok[OF ok Some]
      show ?thesis
      proof (cases l)
        case (Suc i)
        show ?thesis
        proof (cases "update_candidate (judged (ce_json e) a v c) d1")
          case d2: (Some d2)
          have "completion_ok (ce_json e) d2" using update_judged_ok[OF _ _ _ a d2] d1 c by simp
          then have "completion_ok (ce_json e) (snd (run_writes (take i ?rest) d2))"
            by (rule run_take_invariant[where P = "completion_ok (ce_json e)"]) (use rest in blast)
          then show ?thesis by (subst ws) (simp add: \<open>m = Suc l\<close> Suc Some d2)
        qed (subst ws, simp add: \<open>m = Suc l\<close> Suc Some d1)
      qed (subst ws, simp add: \<open>m = Suc l\<close> Some d1)
    qed (subst ws, simp add: Suc ok)
  qed (simp add: ok)
qed

lemma validate_plan_ok:
  assumes "completion_ok (ce_json e) d" and "row_get cc_id (cc_id c) (nd_candidates d) = Some c"
  shows "completion_ok (ce_json e) (snd (run_writes (take m (snd (authority_plan e c d))) d))"
  using assms
  by (auto simp: authority_plan_def split: option.split sum.split dest!: find_Some_set intro!: validation_writes_ok)

lemma latest_candidate_mem:
  assumes "latest_candidate a db = Some c"
  shows "c \<in> set (nd_candidates db) \<and> cc_attempt c = a"
proof -
  have "candidates_of a db \<noteq> []" and "c = last (candidates_of a db)"
    using assms by (auto simp: latest_candidate_def split: if_splits)
  then have "c \<in> set (candidates_of a db)" by simp
  then show ?thesis by (simp add: candidates_of_def)
qed

lemma resume_ok:
  assumes "completion_ok (ce_json e) d"
  shows "completion_ok (ce_json e) (snd (resume_pending e k a d))"
proof (cases "latest_candidate a d")
  case (Some c)
  with assms latest_candidate_mem[OF Some] have "row_get cc_id (cc_id c) (nd_candidates d) = Some c" by (simp add: completion_ok_def row_get_distinct)
  from validate_plan_ok[OF assms this] perform_take[of k "authority_plan e c d" d] assms Some
  show ?thesis by (auto simp: resume_pending_def split_beta)
qed (simp add: resume_pending_def assms)

lemma claim_ok:
  assumes ok: "completion_ok (ce_json e) d"
  shows "completion_ok (ce_json e) (snd (evaluate_claim e k s claim source d))"
proof -
  define c where "c = new_candidate e s claim source (nd_ids d)"
  define w2 where "w2 = append_event (Ev_Native COMPLETION_CANDIDATE_CREATED) c
    [(''candidate_id'', PStr (cc_id c)), (''source'', PStr source), (''claim_sha256'', PStr (cc_claim c))]"
  define d2 where "d2 = snd (run_writes [create_candidate c, w2] d)"
  have plan: "snd (claim_plan e s claim source d) = create_candidate c # w2 # snd (authority_plan e c d2)"
    by (simp add: claim_plan_def Let_def split_beta c_def w2_def d2_def)
  obtain n where n: "snd (evaluate_claim e k s claim source d) = snd (run_writes (take n (snd (claim_plan e s claim source d))) d)"
    using perform_take unfolding evaluate_claim_def by blast
  show ?thesis
  proof (cases "create_candidate c d")
    case None
    then show ?thesis using ok by (cases n) (simp_all add: n plan)
  next
    case (Some d1)
    have d1: "completion_ok (ce_json e) d1" "row_get cc_id (cc_id c) (nd_candidates d1) = Some c"
      using create_candidate_ok[OF ok _ Some] by (simp_all add: c_def new_candidate_def)
    obtain d' where w2: "w2 d1 = Some d'" by (simp add: w2_def append_event_def)
    have d': "completion_ok (ce_json e) d'" using event_ok[OF d1(1) w2[unfolded w2_def]] .
    have "nd_candidates d' = nd_candidates d1" using w2 by (auto simp: w2_def append_event_def)
    then have c': "row_get cc_id (cc_id c) (nd_candidates d') = Some c" using d1(2) by simp
    have "d2 = d'" by (simp add: d2_def Some w2)
    with validate_plan_ok[OF d' c'] ok d1(1) d' show ?thesis
      by (cases n; cases "n - 1") (simp_all add: n plan Some w2)
  qed
qed

lemma completion_history_ok:
  assumes "completion_ok json d" and "\<forall>x\<in>set calls. ce_json (fst x) = json"
  shows "completion_ok json (completion_history calls d)"
  using assms unfolding completion_history_def
proof (induction calls arbitrary: d)
  case (Cons x calls)
  obtain e k call where x: "x = (e, k, call)" by (cases x)
  have j: "ce_json e = json" using Cons.prems(2) x by simp
  have "completion_ok json (completion_step x d)"
    using claim_ok[of e d] resume_ok[of e d] create_validation_ok Cons.prems(1) j
    by (cases call) (auto simp: x split: option.split)
  with Cons show ?case by simp
qed simp

section \<open>Properties\<close>

lemma py_eq_strings:
  "list_all command_word xs \<Longrightarrow> py_eq (PList xs) (PList xs)"
  by (induction xs) (auto simp: command_word_def split: pyval.splits)

lemma vouched_acceptance:
  assumes ok: "completion_ok json db" and c: "latest_candidate (at_id a) db = Some c" and acc: "cc_status c = ACCEPTED"
    and id: "cc_task c = t" "cc_run c = at_run a"
  shows "acceptance_holds json t a db"
proof -
  note m = latest_candidate_mem[OF c]
  obtain v where v: "v \<in> set (nd_validations db)" "process_result json v" "va_attempt v = cc_attempt c"
      "cc_validation c = validation_payload json c v"
    using ok m acc by (auto simp: completion_ok_def vouched_def)
  have "distinct (map nv_id [v \<leftarrow> nd_validations db. va_attempt v = at_id a])"
    using ok by (simp add: completion_ok_def distinct_map_filter)
  then have n: "named_validation c (at_id a) db = Some v"
    using v m row_get_distinct[of nv_id "[v \<leftarrow> nd_validations db. va_attempt v = at_id a]" v]
    by (simp add: named_validation_def validation_payload_def dict_get_def row_get_def)
  have "command_matches json c (Some v)"
    using v(2,4) by (auto simp: command_matches_def process_result_def validation_payload_def command_entry_def dict_get_def
      py_eq_strings split: option.splits pyval.splits simp del: py_eq.simps)
  with n c acc id m v show ?thesis by (simp add: acceptance_holds_def validation_payload_def dict_get_def)
qed

lemma acceptance_holds_cases:
  "acceptance_holds json t a db \<Longrightarrow>
   \<exists>c. latest_candidate (at_id a) db = Some c \<and> cc_status c = ACCEPTED \<and> cc_task c = t \<and> cc_run c = at_run a"
  by (auto simp: acceptance_holds_def split: option.splits)

text \<open>C26: The outer validator repeats the authority's verdict and nothing else. After any history of
  claims, resumptions and other validations, interrupted between any two writes, the validator
  that gates the run passes exactly when the latest candidate of the attempt was accepted by the
  completion authority for this task and run; its checks of the stored evidence never fail then.\<close>

theorem outer_agrees_with_authority:
  assumes "nd_candidates db0 = []" and "nd_validations db0 = []" and "\<forall>x\<in>set calls. ce_json (fst x) = json"
    and "db = completion_history calls db0"
  shows "va_passed (accepted_validate json i t a db) \<longleftrightarrow>
    (\<exists>c. latest_candidate (at_id a) db = Some c \<and> cc_status c = ACCEPTED \<and> cc_task c = t \<and> cc_run c = at_run a)"
proof -
  have "completion_ok json db0" using assms(1,2) by (simp add: completion_ok_def)
  then have "completion_ok json db" using completion_history_ok assms(3,4) by blast
  then have "acceptance_holds json t a db \<longleftrightarrow>
    (\<exists>c. latest_candidate (at_id a) db = Some c \<and> cc_status c = ACCEPTED \<and> cc_task c = t \<and> cc_run c = at_run a)"
    using vouched_acceptance[of json db a _ t] acceptance_holds_cases[of json t a db] by blast
  then show ?thesis by (simp add: accepted_validate_def Let_def)
qed

text \<open>A task, an attempt and a validator for the examples: it runs a command whose outcome is its
  evidence (\<open>ok\<close>), or only reports in prose.\<close>

definition sample_native_db :: native_db where
  "sample_native_db =
     \<lparr>nd_tasks = [\<lparr>ta_id = ''t'', ta_project = ''p'', ta_title = ''x'', ta_objective = ''x'', ta_constraints = [], ta_criteria = [],
         ta_status = Task_RUNNING, ta_max_attempts = 2, ta_timeout = 60\<rparr>],
      nd_attempts = [\<lparr>at_id = ''a'', at_run = ''r'', at_number = 1, at_status = Attempt_RUNNING, at_snapshot = None, at_result = None,
         at_usage = [], at_failure = None, at_error_type = None, at_error_message = None, at_output = None, at_duration = None\<rparr>],
      nd_candidates = [], nd_validations = [], nd_failures = [], nd_signals = [], nd_log = [], nd_ids = 0\<rparr>"

definition sample_completion_env :: "string \<Rightarrow> bool \<Rightarrow> string \<Rightarrow> completion_env" where
  "sample_completion_env i passed evidence =
     \<lparr>ce_sha = (\<lambda>_. ''h''),
      ce_json = (\<lambda>s. if s = ''ok'' then Some (PDict [(''exit_code'', PInt 0), (''timed_out'', PBool False), (''command'', PList [PStr ''pytest''])])
                    else None),
      ce_validate = (\<lambda>t a r. Inr \<lparr>va_attempt = at_id a, va_passed = passed, va_level = ''V2_RULE'', va_checks = [],
         va_evidence = Some evidence, va_stdout = None, nv_id = i, nv_duration = 0\<rparr>),
      ce_id = nat_digits\<rparr>"

definition sample_native_ids :: snapshot_ids where
  "sample_native_ids = \<lparr>si_task = ''t'', si_run = ''r'', si_attempt = ''a''\<rparr>"

lemmas run_sample = evaluate_claim_def perform_def claim_plan_def Let_def new_candidate_def create_candidate_def append_event_def
  authority_plan_def validation_writes_def rejection_writes_def judged_def create_validation_def update_candidate_def create_failure_def
  create_signal_def row_get_def row_update_def row_create_def sample_native_db_def sample_completion_env_def sample_native_ids_def claim_result_def

text \<open>The process dies after the candidate's validation was stored, and is resumed.\<close>

theorem outer_agrees_with_authority_witness:
  "va_passed (accepted_validate (ce_json (sample_completion_env ''v'' True ''ok'')) ''w'' ''t'' (hd (nd_attempts sample_native_db))
     (completion_history
       [(sample_completion_env ''v'' True ''ok'', Some 3, Claim sample_native_ids ''done'' ''MODEL_CLAIM''),
        (sample_completion_env ''v2'' True ''ok'', None, Resume ''a'')] sample_native_db))"
proof -
  let ?calls = "[(sample_completion_env ''v'' True ''ok'', Some 3, Claim sample_native_ids ''done'' ''MODEL_CLAIM''),
    (sample_completion_env ''v2'' True ''ok'', None, Resume ''a'')]"
  let ?db = "completion_history ?calls sample_native_db"
  have "map_option (\<lambda>c. (cc_status c, cc_task c, cc_run c)) (latest_candidate ''a'' ?db) = Some (ACCEPTED, ''t'', ''r'')"
    by (simp add: run_sample completion_history_def resume_pending_def latest_candidate_def candidates_of_def process_result_def
      structured_evidence_def command_word_def dict_get_def)
  then have "\<exists>c. latest_candidate (at_id (hd (nd_attempts sample_native_db))) ?db = Some c \<and> cc_status c = ACCEPTED \<and> cc_task c = ''t'' \<and>
      cc_run c = at_run (hd (nd_attempts sample_native_db))"
    by (auto simp: sample_native_db_def)
  then show ?thesis
    by (subst outer_agrees_with_authority[OF _ _ _ refl]) (simp_all add: sample_native_db_def sample_completion_env_def)
qed

text \<open>What an undisturbed claim goes through: the new candidate, then the writes of its validation.\<close>

lemma claim_cases:
  assumes "evaluate_claim e None s claim source db = (Inr c, full)"
  obtains n a v ws d2 where "n = new_candidate e s claim source (nd_ids db)"
    "cc_id n \<notin> cc_id ` set (nd_candidates db)" "length ws = 2" "run_writes ws db = (True, d2)"
    "snd (claim_plan e s claim source db) = ws @ validation_writes e a v n (nd_ids d2)"
    "run_writes (validation_writes e a v n (nd_ids d2)) d2 = (True, full)"
    "nd_candidates d2 = nd_candidates db @ [n]" "nd_failures d2 = nd_failures db" "nd_signals d2 = nd_signals db"
    "at_id a = si_attempt s" "c = judged (ce_json e) a v n" "\<exists>t. ce_validate e t a (claim_result n) = Inr v"
proof -
  define n where "n = new_candidate e s claim source (nd_ids db)"
  define w2 where "w2 = append_event (Ev_Native COMPLETION_CANDIDATE_CREATED) n
    [(''candidate_id'', PStr (cc_id n)), (''source'', PStr source), (''claim_sha256'', PStr (cc_claim n))]"
  define d2 where "d2 = snd (run_writes [create_candidate n, w2] db)"
  have plan: "claim_plan e s claim source db = (fst (authority_plan e n d2), [create_candidate n, w2] @ snd (authority_plan e n d2))"
    by (simp add: claim_plan_def Let_def split_beta n_def w2_def d2_def)
  have done_all: "run_writes ([create_candidate n, w2] @ snd (authority_plan e n d2)) db = (True, full)"
    and r: "fst (authority_plan e n d2) = Inr c"
    using assms unfolding evaluate_claim_def perform_def plan by (auto simp: split_beta prod_eq_iff split: if_splits)
  have first: "run_writes [create_candidate n, w2] db = (True, d2)" and full: "run_writes (snd (authority_plan e n d2)) d2 = (True, full)"
    using done_all unfolding run_append d2_def by (auto split: prod.splits bool.splits)
  have new: "cc_id n \<notin> cc_id ` set (nd_candidates db)" "nd_candidates d2 = nd_candidates db @ [n]" "nd_failures d2 = nd_failures db"
      "nd_signals d2 = nd_signals db"
    using first by (auto simp: create_candidate_def w2_def append_event_def row_create_def row_get_none split: if_splits)
  obtain t a v where "ce_validate e t a (claim_result n) = Inr v" "at_id a = cc_attempt n" "c = judged (ce_json e) a v n"
      "snd (authority_plan e n d2) = validation_writes e a v n (nd_ids d2)"
    using r by (auto simp: authority_plan_def split: option.splits sum.splits dest!: find_Some_set)
  with first full new show thesis
    by (intro that[of n "[create_candidate n, w2]" d2 a v]) (auto simp: n_def new_candidate_def plan[unfolded n_def])
qed

lemma judged_writes:
  assumes "run_writes (validation_writes e a v n i) d2 = (True, full)" and "nd_candidates d2 = cs @ [n]" and "cc_id n \<notin> cc_id ` set cs"
  obtains d4 where "run_writes (take 2 (validation_writes e a v n i)) d2 = (True, d4)"
    "nd_candidates d4 = cs @ [judged (ce_json e) a v n]" "nd_failures d4 = nd_failures d2" "nd_signals d4 = nd_signals d2"
    "va_passed v \<Longrightarrow> nd_failures full = nd_failures d2 \<and> nd_signals full = nd_signals d2"
proof -
  let ?j = "judged (ce_json e) a v n"
  obtain d3 where d3: "create_validation v d2 = Some d3" and c3: "nd_candidates d3 = cs @ [n]" "nd_failures d3 = nd_failures d2"
      "nd_signals d3 = nd_signals d2"
    using assms(1,2) by (cases "create_validation v d2")
      (auto simp: validation_writes_def Let_def create_validation_def split: if_splits)
  have id: "cc_id ?j = cc_id n" by (simp add: judged_def)
  have "List.find (\<lambda>r. cc_id r = cc_id n) cs = None" using assms(3) by (simp add: find_None_iff) (metis image_eqI)
  then have get: "row_get cc_id (cc_id n) (cs @ [n]) = Some n"
    using row_get_create[of cc_id n cs "cc_id n"] by (simp add: row_get_def row_create_def)
  have map_cs: "map (\<lambda>r. if cc_id r = cc_id n then ?j else r) cs = cs"
    using assms(3) by (intro map_idI) (metis image_eqI)
  have same: "n\<lparr>cc_status := cc_status ?j, cc_summary := cc_summary ?j, cc_validation := cc_validation ?j\<rparr> = ?j"
    by (simp add: judged_def)
  define d4 where "d4 = d3\<lparr>nd_candidates := cs @ [?j]\<rparr>"
  have up: "update_candidate ?j d3 = Some d4"
    using get map_cs same by (simp add: update_candidate_def c3 id row_update_def d4_def)
  have "run_writes (take 2 (validation_writes e a v n i)) d2 = (True, d4)"
    by (simp add: validation_writes_def Let_def d3 up)
  moreover have "nd_failures full = nd_failures d2 \<and> nd_signals full = nd_signals d2" if "va_passed v"
    using assms(1) that c3 by (auto simp: validation_writes_def Let_def d3 up append_event_def d4_def)
  ultimately show thesis using c3 by (intro that[of d4]) (auto simp: d4_def)
qed

text \<open>A crash swallows a rejection. Take a claim that, left alone, is rejected and ends with a replan
  signal. When the process dies after the rejected candidate was stored and before its failure
  and signal were (the first four writes), the resumed attempt finds the rejected candidate, and
  no number of resumptions writes the missing failure or signal.\<close>

theorem crash_swallows_rejection:
  assumes "evaluate_claim e None s claim source db = (Inr c, full)" and "nd_signals full \<noteq> nd_signals db"
    and "evaluate_claim e (Some 4) s claim source db = (r, part)"
  shows "nd_failures part = nd_failures db \<and> nd_signals part = nd_signals db \<and> cc_status c = REJECTED \<and>
    (\<forall>e' k. resume_pending e' k (si_attempt s) part = (Inr (Some c), part))"
proof -
  obtain n a v ws d2 where n: "n = new_candidate e s claim source (nd_ids db)" "cc_id n \<notin> cc_id ` set (nd_candidates db)"
      and ws: "length ws = 2" "run_writes ws db = (True, d2)"
        "snd (claim_plan e s claim source db) = ws @ validation_writes e a v n (nd_ids d2)"
      and full: "run_writes (validation_writes e a v n (nd_ids d2)) d2 = (True, full)"
      and d2: "nd_candidates d2 = nd_candidates db @ [n]" "nd_failures d2 = nd_failures db" "nd_signals d2 = nd_signals db"
      and c: "at_id a = si_attempt s" "c = judged (ce_json e) a v n"
    using claim_cases[OF assms(1)] by metis
  obtain d4 where d4: "run_writes (take 2 (validation_writes e a v n (nd_ids d2))) d2 = (True, d4)"
      "nd_candidates d4 = nd_candidates db @ [c]" "nd_failures d4 = nd_failures d2" "nd_signals d4 = nd_signals d2"
      "va_passed v \<Longrightarrow> nd_failures full = nd_failures d2 \<and> nd_signals full = nd_signals d2"
    using judged_writes[OF full d2(1) n(2)] unfolding c(2) by metis
  have part: "part = d4"
    using assms(3) ws d4(1) by (simp add: evaluate_claim_def perform_def run_append)
  have rejected: "cc_status c = REJECTED"
    using assms(2) d2(3) d4(5) by (auto simp: c(2) judged_def process_result_def)
  have "cc_attempt c = si_attempt s" by (simp add: c(2) judged_def n(1) new_candidate_def)
  then have "latest_candidate (si_attempt s) part = Some c"
    by (simp add: latest_candidate_def candidates_of_def part d4(2))
  with rejected d2 d4 part show ?thesis by (simp add: resume_pending_def)
qed

lemma completed_operation:
  "\<not> isl (fst x) \<Longrightarrow> x = (Inr (projr (fst x)), snd x)"
  by (cases x) auto

theorem crash_swallows_rejection_witness:
  "let e = sample_completion_env ''v'' False ''tests failed'' in
   nd_signals (snd (evaluate_claim e (Some 4) sample_native_ids ''done'' ''MODEL_CLAIM'' sample_native_db)) = [] \<and>
   length (nd_signals (snd (evaluate_claim e None sample_native_ids ''done'' ''MODEL_CLAIM'' sample_native_db))) = 1"
proof -
  let ?e = "sample_completion_env ''v'' False ''tests failed''"
  let ?full = "evaluate_claim ?e None sample_native_ids ''done'' ''MODEL_CLAIM'' sample_native_db"
  have l: "\<not> isl (fst ?full)" "length (nd_signals (snd ?full)) = 1" by (simp_all add: run_sample)
  have n: "nd_signals sample_native_db = []" by (simp add: sample_native_db_def)
  then have "nd_signals (snd ?full) \<noteq> nd_signals sample_native_db" using l(2) by fastforce
  from crash_swallows_rejection[OF completed_operation[OF l(1)] this prod.collapse[symmetric]] l(2) n
  show ?thesis unfolding Let_def by simp
qed

text \<open>A validation that passes without a process is a silent rejection. When the validator judges
  every claim to have passed but gives evidence that is not a JSON object (the rule validator's
  is a line of prose), every claim is rejected, and neither a validation failure nor a replan
  signal says so.\<close>

theorem prose_validator_rejects_silently:
  assumes "evaluate_claim e None s claim source db = (Inr c, db')"
    and "\<And>t a q v. ce_validate e t a q = Inr v \<Longrightarrow> va_passed v \<and> structured_evidence (ce_json e) v = None"
  shows "cc_status c = REJECTED \<and> nd_failures db' = nd_failures db \<and> nd_signals db' = nd_signals db"
proof -
  obtain n a v ws d2 t where n: "cc_id n \<notin> cc_id ` set (nd_candidates db)"
      and full: "run_writes (validation_writes e a v n (nd_ids d2)) d2 = (True, db')"
      and d2: "nd_candidates d2 = nd_candidates db @ [n]" "nd_failures d2 = nd_failures db" "nd_signals d2 = nd_signals db"
      and c: "c = judged (ce_json e) a v n" and v: "ce_validate e t a (claim_result n) = Inr v"
    using claim_cases[OF assms(1)] by metis
  note p = assms(2)[OF v]
  show ?thesis
    using judged_writes[OF full d2(1) n] p d2 by (auto simp: c judged_def process_result_def)
qed

theorem prose_validator_rejects_silently_witness:
  "let r = evaluate_claim (sample_completion_env ''v'' True ''output_non_empty: ok'') None sample_native_ids ''done'' ''MODEL_CLAIM'' sample_native_db
   in cc_status (projr (fst r)) = REJECTED \<and> nd_failures (snd r) = []"
proof -
  let ?e = "sample_completion_env ''v'' True ''output_non_empty: ok''"
  let ?r = "evaluate_claim ?e None sample_native_ids ''done'' ''MODEL_CLAIM'' sample_native_db"
  have "\<not> isl (fst ?r)" by (simp add: run_sample)
  then have c: "?r = (Inr (projr (fst ?r)), snd ?r)" by (rule completed_operation)
  have p: "va_passed v \<and> structured_evidence (ce_json ?e) v = None" if "ce_validate ?e t a q = Inr v" for t a q v
    using that by (auto simp: sample_completion_env_def structured_evidence_def)
  have "nd_failures sample_native_db = []" by (simp add: sample_native_db_def)
  with prose_validator_rejects_silently[OF c p] show ?thesis by (simp add: Let_def)
qed

end
