(* ===== verification/Delegation.thy ===== *)
theory Delegation imports Failures Once begin

text \<open>
  \<open>src/lhas/native/delegation.py\<close>: the durable rows that say who owns a delegated child run, the
  delivery of its outcome to the parent attempt, and the check of the parent/child lineage.

  \<^item> A table is the list of its rows in creation order, which is the order of the queries.
  \<^item> Every service method is a function on the tables that returns its value or the exception
    together with the tables it leaves: a row that was written stays written when a later
    lookup of the method raises.
  \<^item> The digest is a parameter, a clock reading an argument (\<open>now\<close>).
\<close>

section \<open>Rows\<close>

datatype dispatch_state = Dispatch_CREATED | DISPATCHED

datatype child_state =
    Child_CREATED | Child_RUNNING | Child_COMPLETED | Child_FAILED | Child_TIMEOUT | Child_CRASHED | Child_VALIDATION_REJECTED

datatype delivery_state = NOT_READY | DELIVERY_PENDING | DELIVERED | CONSUMED

primrec child_state_value :: "child_state \<Rightarrow> string" where
  "child_state_value Child_CREATED = ''CREATED''"
| "child_state_value Child_RUNNING = ''RUNNING''"
| "child_state_value Child_COMPLETED = ''COMPLETED''"
| "child_state_value Child_FAILED = ''FAILED''"
| "child_state_value Child_TIMEOUT = ''TIMEOUT''"
| "child_state_value Child_CRASHED = ''CRASHED''"
| "child_state_value Child_VALIDATION_REJECTED = ''VALIDATION_REJECTED''"

record child_outcome =
  oc_status :: child_state
  oc_failure :: "string option"
  oc_artifacts :: "string list"
  oc_mutation :: bool
  oc_verification :: pydict
  oc_retryable :: bool
  oc_run :: string
  oc_summary :: string

definition outcome_dump :: "child_outcome \<Rightarrow> pydict" where
  "outcome_dump o1 =
     [(''status'', PStr (child_state_value (oc_status o1))), (''failure_type'', opt_str (oc_failure o1)),
      (''artifact_refs'', PList (map PStr (oc_artifacts o1))), (''workspace_mutation_present'', PBool (oc_mutation o1)),
      (''verification'', PDict (oc_verification o1)), (''retryable'', PBool (oc_retryable o1)),
      (''child_run_id'', PStr (oc_run o1)), (''summary'', PStr (oc_summary o1))]"

record child_lifecycle =
  lc_id :: string
  lc_attempt :: string
  lc_execution_owner :: string
  lc_conversation_owner :: string
  lc_delivery_owner :: string
  lc_dispatch :: dispatch_state
  lc_execution :: child_state
  lc_delivery :: delivery_state
  lc_token :: string
  lc_outcome :: pydict
  lc_artifact :: "string option"
  lc_validator :: "bool option"
  lc_retry_of :: "string option"
  lc_started :: "nat option"
  lc_finished :: "nat option"
  lc_delivered :: "nat option"
  lc_consumed :: "nat option"

datatype delegation_status = Delegation_CREATED | Delegation_RUNNING | Delegation_COMPLETED | Delegation_FAILED

record delegation =
  dl_id :: string
  dl_parent_agent :: string
  dl_parent_task :: string
  dl_parent_run :: string
  dl_child_agent :: string
  dl_child_task :: string
  dl_child_run :: "string option"
  dl_depth :: nat
  dl_status :: delegation_status
  dl_context :: pydict
  dl_result :: pydict

record deleg_db =
  dd_tasks :: "task list"
  dd_runs :: "run list"
  dd_attempts :: "attempt list"
  dd_delegations :: "delegation list"
  dd_lifecycles :: "child_lifecycle list"
  dd_log :: event_log

datatype delivery_error =
    LIFECYCLE_ALREADY_EXISTS | Token_in_use | Lifecycle_not_found | Delegation_not_found | CONFLICTING_CHILD_OUTCOME
  | RESULT_NOT_READY | MISSING_DELEGATION_OWNER | MALFORMED_DELEGATION_OWNER | CYCLIC_DELEGATION_LINEAGE | Several_parents

type_synonym 'a delivery_result = "(delivery_error + 'a) \<times> deleg_db"

section \<open>The repository\<close>

text \<open>The token column is unique, so a digest that collides is an error of the insertion.\<close>

definition new_lifecycle :: "(string \<Rightarrow> string) \<Rightarrow> string \<Rightarrow> string \<Rightarrow> string \<Rightarrow> string \<Rightarrow> string \<Rightarrow> string option \<Rightarrow> child_lifecycle" where
  "new_lifecycle sha i attempt execution conversation delivery retry =
     \<lparr>lc_id = i, lc_attempt = attempt, lc_execution_owner = execution, lc_conversation_owner = conversation,
      lc_delivery_owner = delivery, lc_dispatch = Dispatch_CREATED, lc_execution = Child_CREATED, lc_delivery = NOT_READY,
      lc_token = sha (''delegation-delivery:'' @ i), lc_outcome = [], lc_artifact = None, lc_validator = None,
      lc_retry_of = retry, lc_started = None, lc_finished = None, lc_delivered = None, lc_consumed = None\<rparr>"

definition create_lifecycle :: "child_lifecycle \<Rightarrow> deleg_db \<Rightarrow> child_lifecycle delivery_result" where
  "create_lifecycle item db =
     (if row_get lc_id (lc_id item) (dd_lifecycles db) \<noteq> None then (Inl LIFECYCLE_ALREADY_EXISTS, db)
      else if row_get lc_token (lc_token item) (dd_lifecycles db) \<noteq> None then (Inl Token_in_use, db)
      else (Inr item, db\<lparr>dd_lifecycles := row_create item (dd_lifecycles db)\<rparr>))"

definition get_lifecycle :: "string \<Rightarrow> deleg_db \<Rightarrow> child_lifecycle option" where
  "get_lifecycle i db = row_get lc_id i (dd_lifecycles db)"

definition lifecycles_of_attempt :: "string \<Rightarrow> deleg_db \<Rightarrow> child_lifecycle list" where
  "lifecycles_of_attempt a db = [l \<leftarrow> dd_lifecycles db. lc_attempt l = a]"

definition delivery_pending :: "deleg_db \<Rightarrow> child_lifecycle list" where
  "delivery_pending db = [l \<leftarrow> dd_lifecycles db. lc_delivery l = DELIVERY_PENDING]"

text \<open>An update writes the states, the outcome and the times; owners and the token stay.\<close>

definition overwrite :: "child_lifecycle \<Rightarrow> child_lifecycle \<Rightarrow> child_lifecycle" where
  "overwrite item row =
     row\<lparr>lc_dispatch := lc_dispatch item, lc_execution := lc_execution item, lc_delivery := lc_delivery item,
         lc_outcome := lc_outcome item, lc_artifact := lc_artifact item, lc_validator := lc_validator item,
         lc_started := lc_started item, lc_finished := lc_finished item, lc_delivered := lc_delivered item,
         lc_consumed := lc_consumed item\<rparr>"

definition update_lifecycle :: "child_lifecycle \<Rightarrow> deleg_db \<Rightarrow> unit delivery_result" where
  "update_lifecycle item db =
     (case row_get lc_id (lc_id item) (dd_lifecycles db) of
        None \<Rightarrow> (Inl Lifecycle_not_found, db)
      | Some _ \<Rightarrow>
          (Inr (), db\<lparr>dd_lifecycles := map (\<lambda>r. if lc_id r = lc_id item then overwrite item r else r) (dd_lifecycles db)\<rparr>))"

definition get_delegation :: "string \<Rightarrow> deleg_db \<Rightarrow> delegation option" where
  "get_delegation i db = row_get dl_id i (dd_delegations db)"

section \<open>The delivery service\<close>

definition append_for :: "event_type \<Rightarrow> string \<Rightarrow> string option \<Rightarrow> string option \<Rightarrow> pydict \<Rightarrow> deleg_db \<Rightarrow> deleg_db" where
  "append_for ty task run attempt payload db = db\<lparr>dd_log := store_append ty (Some task) run attempt payload (dd_log db)\<rparr>"

text \<open>What the methods change in a row.\<close>

definition started_row :: "nat \<Rightarrow> child_lifecycle \<Rightarrow> child_lifecycle" where
  "started_row now l = l\<lparr>lc_dispatch := DISPATCHED, lc_execution := Child_RUNNING,
     lc_started := (case lc_started l of None \<Rightarrow> Some now | Some t \<Rightarrow> Some t)\<rparr>"

definition delivered_row :: "nat \<Rightarrow> child_lifecycle \<Rightarrow> child_lifecycle" where
  "delivered_row now l = l\<lparr>lc_delivery := DELIVERED, lc_delivered := Some now\<rparr>"

definition consumed_row :: "nat \<Rightarrow> child_lifecycle \<Rightarrow> child_lifecycle" where
  "consumed_row now l = l\<lparr>lc_delivery := CONSUMED, lc_consumed := Some now\<rparr>"

definition record_started :: "nat \<Rightarrow> string \<Rightarrow> deleg_db \<Rightarrow> child_lifecycle delivery_result" where
  "record_started now i db =
     (case get_lifecycle i db of
        None \<Rightarrow> (Inl Lifecycle_not_found, db)
      | Some l \<Rightarrow>
          (let item = started_row now l;
               (r, db') = update_lifecycle item db
           in (map_sum id (\<lambda>_. item) r, db')))"

definition with_outcome :: "nat \<Rightarrow> child_outcome \<Rightarrow> bool option \<Rightarrow> child_lifecycle \<Rightarrow> child_lifecycle" where
  "with_outcome now oc validator l =
     l\<lparr>lc_execution := oc_status oc, lc_delivery := DELIVERY_PENDING, lc_outcome := outcome_dump oc,
       lc_artifact := (case oc_artifacts oc of [] \<Rightarrow> None | a # _ \<Rightarrow> Some (take 2000 a)),
       lc_validator := validator, lc_finished := Some now\<rparr>"

definition opt_bool :: "bool option \<Rightarrow> pyval" where
  "opt_bool x = (case x of None \<Rightarrow> PNone | Some b \<Rightarrow> PBool b)"

definition record_outcome :: "nat \<Rightarrow> string \<Rightarrow> child_outcome \<Rightarrow> bool option \<Rightarrow> deleg_db \<Rightarrow> child_lifecycle delivery_result" where
  "record_outcome now i oc validator db =
     (case get_lifecycle i db of
        None \<Rightarrow> (Inl Lifecycle_not_found, db)
      | Some l \<Rightarrow>
          if lc_delivery l \<noteq> NOT_READY then
            (if dict_get (lc_outcome l) ''status'' = PStr (child_state_value (oc_status oc)) \<and>
                dict_get (lc_outcome l) ''child_run_id'' = PStr (oc_run oc)
             then (Inr l, db) else (Inl CONFLICTING_CHILD_OUTCOME, db))
          else
            (let item = with_outcome now oc validator l;
                 db' = snd (update_lifecycle item db)
             in case get_delegation i db' of
                  None \<Rightarrow> (Inl Delegation_not_found, db')
                | Some d \<Rightarrow>
                    (Inr item,
                     append_for (Ev_Runtime DELEGATION_DELIVERY_PENDING) (dl_parent_task d) (Some (dl_parent_run d)) (Some (lc_attempt item))
                       [(''delegation_id'', PStr i), (''delivery_token'', PStr (lc_token item))]
                     (append_for (Ev_Runtime CHILD_OUTCOME_RECORDED) (dl_child_task d) (dl_child_run d) None
                       [(''delegation_id'', PStr i), (''status'', PStr (child_state_value (oc_status oc))),
                        (''delivery_token'', PStr (lc_token item)), (''validator_result'', opt_bool validator),
                        (''workspace_mutation_present'', PBool (oc_mutation oc))] db'))))"

definition deliver :: "nat \<Rightarrow> string \<Rightarrow> deleg_db \<Rightarrow> child_lifecycle delivery_result" where
  "deliver now i db =
     (case get_lifecycle i db of
        None \<Rightarrow> (Inl Lifecycle_not_found, db)
      | Some l \<Rightarrow>
          if lc_delivery l \<in> {DELIVERED, CONSUMED} then (Inr l, db)
          else if lc_delivery l \<noteq> DELIVERY_PENDING then (Inl RESULT_NOT_READY, db)
          else
            (let item = delivered_row now l;
                 db' = snd (update_lifecycle item db)
             in case get_delegation i db' of
                  None \<Rightarrow> (Inl Delegation_not_found, db')
                | Some d \<Rightarrow>
                    (Inr item,
                     append_for (Ev_Runtime DELEGATION_DELIVERED) (dl_parent_task d) (Some (dl_parent_run d)) (Some (lc_attempt item))
                       [(''delegation_id'', PStr i), (''delivery_token'', PStr (lc_token item))] db')))"

fun deliver_all :: "nat \<Rightarrow> string list \<Rightarrow> deleg_db \<Rightarrow> child_lifecycle list delivery_result" where
  "deliver_all now [] db = (Inr [], db)"
| "deliver_all now (i # ids) db =
     (case deliver now i db of
        (Inl e, db') \<Rightarrow> (Inl e, db')
      | (Inr l, db') \<Rightarrow> (case deliver_all now ids db' of (Inl e, db'') \<Rightarrow> (Inl e, db'') | (Inr ls, db'') \<Rightarrow> (Inr (l # ls), db'')))"

definition resume_pending_deliveries :: "nat \<Rightarrow> deleg_db \<Rightarrow> child_lifecycle list delivery_result" where
  "resume_pending_deliveries now db = deliver_all now (map lc_id (delivery_pending db)) db"

record delivered_outcome =
  do_token :: string
  do_delegation :: string
  do_outcome :: pydict

text \<open>The loop over the rows that were read at its start.\<close>

fun consume_loop :: "nat \<Rightarrow> string \<Rightarrow> string set \<Rightarrow> child_lifecycle list \<Rightarrow> deleg_db \<Rightarrow> delivered_outcome list delivery_result" where
  "consume_loop now a seen [] db = (Inr [], db)"
| "consume_loop now a seen (l # ls) db =
     (if lc_delivery l \<notin> {DELIVERED, CONSUMED} then consume_loop now a seen ls db
      else if lc_token l \<in> seen \<or> lc_delivery l = CONSUMED then consume_loop now a seen ls db
      else
        (let db' = snd (update_lifecycle (consumed_row now l) db)
         in case get_delegation (lc_id l) db' of
              None \<Rightarrow> (Inl Delegation_not_found, db')
            | Some d \<Rightarrow>
                (case consume_loop now a seen ls
                   (append_for (Ev_Runtime DELEGATION_DELIVERY_CONSUMED) (dl_parent_task d) (Some (dl_parent_run d)) (Some a)
                      [(''delegation_id'', PStr (lc_id l)), (''delivery_token'', PStr (lc_token l))] db') of
                   (Inl e, db'') \<Rightarrow> (Inl e, db'')
                 | (Inr outs, db'') \<Rightarrow>
                     (Inr (\<lparr>do_token = lc_token l, do_delegation = lc_id l, do_outcome = lc_outcome l\<rparr> # outs), db''))))"

definition consume_for_parent_attempt :: "nat \<Rightarrow> string \<Rightarrow> string set \<Rightarrow> deleg_db \<Rightarrow> delivered_outcome list delivery_result" where
  "consume_for_parent_attempt now a seen db = consume_loop now a seen (lifecycles_of_attempt a db) db"

section \<open>Lineage\<close>

lemma filter_single:
  assumes "[d \<leftarrow> rows. P d] = [x]" shows "x \<in> set rows" and "P x"
  using arg_cong[OF assms, of set] by auto

lemma walk_measure:
  assumes "current \<notin> set visited" and "p \<in> S" and "finite S"
  shows "card (insert p S - set (current # visited)) < card (insert current S - set visited)"
  using assms by (intro psubset_card_mono) (auto simp: insert_absorb)

text \<open>The walk from a task to the task that delegated it. Each turn visits one more of the
  finitely many parent tasks.\<close>

function (sequential) lineage_walk :: "delegation list \<Rightarrow> string list \<Rightarrow> string \<Rightarrow> delivery_error option" where
  "lineage_walk rows visited current =
     (if current = [] then None
      else if current \<in> set visited then Some CYCLIC_DELEGATION_LINEAGE
      else case [d \<leftarrow> rows. dl_child_task d = current] of
             [] \<Rightarrow> None
           | [d] \<Rightarrow> lineage_walk rows (current # visited) (dl_parent_task d)
           | _ \<Rightarrow> Some Several_parents)"
  by pat_completeness auto

termination
  by (relation "measure (\<lambda>(rows, visited, current). card (insert current (dl_parent_task ` set rows) - set visited))")
    (auto dest!: filter_single(1) intro!: walk_measure[simplified])

definition validate_lineage :: "string \<Rightarrow> deleg_db \<Rightarrow> delivery_error option" where
  "validate_lineage i db =
     (case get_delegation i db of
        None \<Rightarrow> Some Delegation_not_found
      | Some d \<Rightarrow>
          (case get_lifecycle i db of
             None \<Rightarrow> Some Lifecycle_not_found
           | Some l \<Rightarrow>
               (case (row_get ta_id (dl_parent_task d) (dd_tasks db), row_get ta_id (dl_child_task d) (dd_tasks db),
                      row_get rn_id (dl_parent_run d) (dd_runs db), row_get at_id (lc_attempt l) (dd_attempts db)) of
                  (Some _, Some _, Some r, Some a) \<Rightarrow>
                    if rn_task r \<noteq> dl_parent_task d \<or> at_run a \<noteq> dl_parent_run d then Some MALFORMED_DELEGATION_OWNER
                    else if dl_parent_task d = dl_child_task d then Some CYCLIC_DELEGATION_LINEAGE
                    else lineage_walk (dd_delegations db) [dl_child_task d] (dl_parent_task d)
                | _ \<Rightarrow> Some MISSING_DELEGATION_OWNER)))"

section \<open>Reads and writes of one row\<close>

lemma overwrite_id [simp]: "lc_id (overwrite item r) = lc_id r"
  by (simp add: overwrite_def)

lemma get_update_lifecycle:
  assumes "get_lifecycle i db = Some l" and "lc_id item = i"
  shows "fst (update_lifecycle item db) = Inr ()"
    and "get_lifecycle k (snd (update_lifecycle item db)) = (if k = i then Some (overwrite item l) else get_lifecycle k db)"
proof -
  have find: "List.find (\<lambda>r. lc_id r = k) (map (\<lambda>r. if lc_id r = i then overwrite item r else r) rows) =
      (if k = i then map_option (overwrite item) (List.find (\<lambda>r. lc_id r = k) rows) else List.find (\<lambda>r. lc_id r = k) rows)" for rows k
    by (induction rows) auto
  show "fst (update_lifecycle item db) = Inr ()"
    using assms by (simp add: update_lifecycle_def get_lifecycle_def)
  show "get_lifecycle k (snd (update_lifecycle item db)) = (if k = i then Some (overwrite item l) else get_lifecycle k db)"
    using assms by (simp add: update_lifecycle_def get_lifecycle_def row_get_def find)
qed

lemma get_lifecycle_id: "get_lifecycle i db = Some l \<Longrightarrow> lc_id l = i"
  unfolding get_lifecycle_def by (rule row_get_key)

lemma append_for_frame [simp]:
  "dd_lifecycles (append_for ty t r a p db) = dd_lifecycles db" "dd_delegations (append_for ty t r a p db) = dd_delegations db"
  "get_lifecycle i (append_for ty t r a p db) = get_lifecycle i db" "get_delegation i (append_for ty t r a p db) = get_delegation i db"
  by (simp_all add: append_for_def get_lifecycle_def get_delegation_def)

lemma update_lifecycle_frame [simp]:
  "dd_delegations (snd (update_lifecycle item db)) = dd_delegations db"
  "get_delegation i (snd (update_lifecycle item db)) = get_delegation i db"
  by (simp_all add: update_lifecycle_def get_delegation_def split: option.splits)

text \<open>Each of them keeps the owners and the token.\<close>

definition row_change :: "(child_lifecycle \<Rightarrow> child_lifecycle) \<Rightarrow> bool" where
  "row_change f \<longleftrightarrow> (\<forall>l. overwrite (f l) l = f l \<and> lc_id (f l) = lc_id l)"

lemma change_row:
  assumes "get_lifecycle i db = Some l" and "row_change f"
  shows "get_lifecycle k (snd (update_lifecycle (f l) db)) = (if k = i then Some (f l) else get_lifecycle k db)"
  using get_update_lifecycle(2)[OF assms(1), of "f l" k] get_lifecycle_id[OF assms(1)] assms(2) by (simp add: row_change_def)

lemma row_changes: "row_change (started_row now)" "row_change (with_outcome now oc v)" "row_change (delivered_row now)"
    "row_change (consumed_row now)"
  by (simp_all add: row_change_def overwrite_def started_row_def with_outcome_def delivered_row_def consumed_row_def)

section \<open>The life of a row\<close>

text \<open>The delivery state machine of a row, with the changes each transition makes.\<close>

inductive row_step :: "child_lifecycle \<Rightarrow> child_lifecycle \<Rightarrow> bool" where
  step_start: "row_step l (started_row now l)"
| step_outcome: "lc_delivery l = NOT_READY \<Longrightarrow> row_step l (with_outcome now oc v l)"
| step_deliver: "lc_delivery l = DELIVERY_PENDING \<Longrightarrow> row_step l (delivered_row now l)"
| step_consume: "lc_delivery l = DELIVERED \<Longrightarrow> row_step l (consumed_row now l)"

lemmas row_defs = started_row_def with_outcome_def delivered_row_def consumed_row_def

definition rows_move :: "deleg_db \<Rightarrow> deleg_db \<Rightarrow> bool" where
  "rows_move db db' \<longleftrightarrow>
     (\<forall>i l. get_lifecycle i db = Some l \<longrightarrow> (\<exists>l'. get_lifecycle i db' = Some l' \<and> row_step\<^sup>*\<^sup>* l l')) \<and>
     map lc_id (dd_lifecycles db') = map lc_id (dd_lifecycles db)"

lemma rows_move_refl [simp]: "rows_move db db"
  by (simp add: rows_move_def)

lemma rows_move_trans: "rows_move a b \<Longrightarrow> rows_move b c \<Longrightarrow> rows_move a c"
  unfolding rows_move_def by (metis rtranclp_trans)

lemma rows_move_append [simp]: "rows_move db (append_for ty t r a p db') \<longleftrightarrow> rows_move db db'"
  by (simp add: rows_move_def)

lemma rows_move_change:
  assumes "get_lifecycle i db = Some l" and "row_change f" and "row_step l (f l)"
  shows "rows_move db (snd (update_lifecycle (f l) db))"
proof -
  have "map lc_id (dd_lifecycles (snd (update_lifecycle (f l) db))) = map lc_id (dd_lifecycles db)"
    by (auto simp: update_lifecycle_def split: option.splits)
  moreover have "\<exists>l'. get_lifecycle k (snd (update_lifecycle (f l) db)) = Some l' \<and> row_step\<^sup>*\<^sup>* m l'"
    if "get_lifecycle k db = Some m" for k m
    using that assms(1) r_into_rtranclp[of row_step, OF assms(3)] by (auto simp: change_row[OF assms(1,2)])
  ultimately show ?thesis by (simp add: rows_move_def)
qed

lemmas change_moves =
  rows_move_change[OF _ row_changes(1) step_start] rows_move_change[OF _ row_changes(2) step_outcome]
  rows_move_change[OF _ row_changes(3) step_deliver] rows_move_change[OF _ row_changes(4) step_consume]

lemma record_started_moves: "rows_move db (snd (record_started now i db))"
  by (auto simp: record_started_def Let_def split_beta split: option.splits intro!: change_moves(1))

lemma record_outcome_moves: "rows_move db (snd (record_outcome now i oc v db))"
  by (auto simp: record_outcome_def Let_def split: option.splits intro!: change_moves(2))

lemma deliver_moves: "rows_move db (snd (deliver now i db))"
  by (auto simp: deliver_def Let_def split: option.splits intro!: change_moves(3))

lemma deliver_all_moves: "rows_move db (snd (deliver_all now ids db))"
proof (induction ids arbitrary: db)
  case (Cons i ids)
  then show ?case
    using deliver_moves[of db now i] rows_move_trans
    by (fastforce split: prod.splits sum.splits)
qed simp

text \<open>The rows the consuming loop still has to visit are the rows of the table.\<close>

definition loop_rows :: "child_lifecycle list \<Rightarrow> deleg_db \<Rightarrow> bool" where
  "loop_rows ls db \<longleftrightarrow> distinct (map lc_id ls) \<and> (\<forall>l\<in>set ls. get_lifecycle (lc_id l) db = Some l)"

lemma loop_rows_next:
  assumes "loop_rows (l # ls) db"
  shows "loop_rows ls db" and "loop_rows ls (snd (update_lifecycle (consumed_row now l) db))"
proof -
  show "loop_rows ls db" using assms by (simp add: loop_rows_def)
  have l: "get_lifecycle (lc_id l) db = Some l" using assms by (simp add: loop_rows_def)
  show "loop_rows ls (snd (update_lifecycle (consumed_row now l) db))"
    using assms unfolding loop_rows_def by (auto simp: change_row[OF l row_changes(4)] image_iff)
qed

lemma loop_rows_append [simp]: "loop_rows ls (append_for ty t r a p db) \<longleftrightarrow> loop_rows ls db"
  by (simp add: loop_rows_def)

text \<open>One turn of the loop.\<close>

definition consumed_event :: "string \<Rightarrow> child_lifecycle \<Rightarrow> delegation \<Rightarrow> deleg_db \<Rightarrow> deleg_db" where
  "consumed_event a l d db = append_for (Ev_Runtime DELEGATION_DELIVERY_CONSUMED) (dl_parent_task d) (Some (dl_parent_run d)) (Some a)
     [(''delegation_id'', PStr (lc_id l)), (''delivery_token'', PStr (lc_token l))] db"

lemma consume_loop_skip:
  "lc_delivery l \<noteq> DELIVERED \<or> lc_token l \<in> seen \<Longrightarrow> consume_loop now a seen (l # ls) db = consume_loop now a seen ls db"
  by (cases "lc_delivery l") auto

lemma consume_loop_take:
  assumes "lc_delivery l = DELIVERED" and "lc_token l \<notin> seen" and "db1 = snd (update_lifecycle (consumed_row now l) db)"
  shows "consume_loop now a seen (l # ls) db =
    (case get_delegation (lc_id l) db of
       None \<Rightarrow> (Inl Delegation_not_found, db1)
     | Some d \<Rightarrow>
         (let (r, db2) = consume_loop now a seen ls (consumed_event a l d db1)
          in (map_sum id (\<lambda>outs. \<lparr>do_token = lc_token l, do_delegation = lc_id l, do_outcome = lc_outcome l\<rparr> # outs) r, db2)))"
  using assms(1,2) by (simp add: assms(3) Let_def consumed_event_def split: option.split prod.split sum.split)

declare consume_loop.simps(2) [simp del]

lemma consumed_event_frame [simp]:
  "rows_move db (consumed_event a l d db') \<longleftrightarrow> rows_move db db'"
  "rows_move (consumed_event a l d db') db \<longleftrightarrow> rows_move db' db"
  "loop_rows ls (consumed_event a l d db') \<longleftrightarrow> loop_rows ls db'"
  "get_lifecycle i (consumed_event a l d db') = get_lifecycle i db'"
  "get_delegation i (consumed_event a l d db') = get_delegation i db'"
  by (simp_all add: consumed_event_def rows_move_def)

lemma consume_loop_moves: "loop_rows ls db \<Longrightarrow> rows_move db (snd (consume_loop now a seen ls db))"
proof (induction ls arbitrary: db)
  case (Cons l ls)
  define db1 where "db1 = snd (update_lifecycle (consumed_row now l) db)"
  note rest = loop_rows_next(1)[OF Cons.prems] loop_rows_next(2)[OF Cons.prems, of now, folded db1_def]
  have l: "get_lifecycle (lc_id l) db = Some l" using Cons.prems by (simp add: loop_rows_def)
  show ?case
  proof (cases "lc_delivery l = DELIVERED \<and> lc_token l \<notin> seen")
    case True
    then have one: "rows_move db db1" unfolding db1_def by (intro change_moves(4)[OF l]) simp
    have two: "rows_move db1 (snd (consume_loop now a seen ls (consumed_event a l d db1)))" for d
      using Cons.IH[of "consumed_event a l d db1"] rest(2) by simp
    from consume_loop_take[OF _ _ db1_def] True one rows_move_trans[OF one two] show ?thesis
      by (simp add: split_beta split: option.split)
  next
    case False
    then show ?thesis using Cons.IH[OF rest(1)] by (simp only: consume_loop_skip de_Morgan_conj not_not)
  qed
qed simp

text \<open>What a consuming pass returns: delivered rows, each once, and consumed after it.\<close>

lemma consume_loop_outs:
  assumes "loop_rows ls db" and "fst (consume_loop now a seen ls db) = Inr outs"
  shows "distinct (map do_delegation outs)"
    and "x \<in> set outs \<Longrightarrow> \<exists>l\<in>set ls. lc_delivery l = DELIVERED \<and> lc_token l \<notin> seen \<and>
      x = \<lparr>do_token = lc_token l, do_delegation = lc_id l, do_outcome = lc_outcome l\<rparr> \<and>
      get_lifecycle (lc_id l) (snd (consume_loop now a seen ls db)) = Some (consumed_row now l)"
proof -
  have "distinct (map do_delegation outs) \<and>
    (\<forall>x\<in>set outs. \<exists>l\<in>set ls. lc_delivery l = DELIVERED \<and> lc_token l \<notin> seen \<and>
      x = \<lparr>do_token = lc_token l, do_delegation = lc_id l, do_outcome = lc_outcome l\<rparr> \<and>
      get_lifecycle (lc_id l) (snd (consume_loop now a seen ls db)) = Some (consumed_row now l)) \<and>
    (\<forall>i. i \<notin> lc_id ` set ls \<longrightarrow> get_lifecycle i (snd (consume_loop now a seen ls db)) = get_lifecycle i db)"
    using assms
  proof (induction ls arbitrary: db outs)
    case (Cons l ls)
    define db1 where "db1 = snd (update_lifecycle (consumed_row now l) db)"
    note rest = loop_rows_next(1)[OF Cons.prems(1)] loop_rows_next(2)[OF Cons.prems(1), of now, folded db1_def]
    have l: "get_lifecycle (lc_id l) db = Some l" and new: "lc_id l \<notin> lc_id ` set ls"
      using Cons.prems(1) by (auto simp: loop_rows_def)
    have db1: "get_lifecycle i db1 = (if i = lc_id l then Some (consumed_row now l) else get_lifecycle i db)" for i
      unfolding db1_def by (rule change_row[OF l row_changes(4)])
    show ?case
    proof (cases "lc_delivery l = DELIVERED \<and> lc_token l \<notin> seen")
      case True
      note turn = consume_loop_take[OF conjunct1[OF True] conjunct2[OF True] db1_def, of a ls]
      obtain d outs' where d: "get_delegation (lc_id l) db = Some d"
          and outs: "outs = \<lparr>do_token = lc_token l, do_delegation = lc_id l, do_outcome = lc_outcome l\<rparr> # outs'"
          and tail: "fst (consume_loop now a seen ls (consumed_event a l d db1)) = Inr outs'"
        using Cons.prems(2) unfolding turn by (auto simp: split_beta map_sum_Inr split: option.splits)
      have all: "snd (consume_loop now a seen (l # ls) db) = snd (consume_loop now a seen ls (consumed_event a l d db1))"
        by (simp add: turn d split_beta)
      show ?thesis
        unfolding all using Cons.IH[OF _ tail] rest(2) new True by (fastforce simp: outs db1)
    next
      case False
      then have "consume_loop now a seen (l # ls) db = consume_loop now a seen ls db"
        by (intro consume_loop_skip) blast
      with Cons.IH[OF rest(1)] Cons.prems(2) show ?thesis by auto
    qed
  qed simp
  then show "distinct (map do_delegation outs)"
    and "x \<in> set outs \<Longrightarrow> \<exists>l\<in>set ls. lc_delivery l = DELIVERED \<and> lc_token l \<notin> seen \<and>
      x = \<lparr>do_token = lc_token l, do_delegation = lc_id l, do_outcome = lc_outcome l\<rparr> \<and>
      get_lifecycle (lc_id l) (snd (consume_loop now a seen ls db)) = Some (consumed_row now l)"
    by blast+
qed

section \<open>Histories\<close>

datatype delivery_op =
    Op_create child_lifecycle
  | Op_started nat string
  | Op_outcome nat string child_outcome "bool option"
  | Op_deliver nat string
  | Op_resume nat
  | Op_consume nat string "string set"

fun delivery_act :: "delivery_op \<Rightarrow> deleg_db \<Rightarrow> deleg_db" where
  "delivery_act (Op_create l) db = snd (create_lifecycle l db)"
| "delivery_act (Op_started now i) db = snd (record_started now i db)"
| "delivery_act (Op_outcome now i oc v) db = snd (record_outcome now i oc v db)"
| "delivery_act (Op_deliver now i) db = snd (deliver now i db)"
| "delivery_act (Op_resume now) db = snd (resume_pending_deliveries now db)"
| "delivery_act (Op_consume now a seen) db = snd (consume_for_parent_attempt now a seen db)"

fun received :: "delivery_op \<Rightarrow> deleg_db \<Rightarrow> delivered_outcome list" where
  "received (Op_consume now a seen) db = (case fst (consume_for_parent_attempt now a seen db) of Inr outs \<Rightarrow> outs | Inl _ \<Rightarrow> [])"
| "received _ db = []"

definition received_of :: "string \<Rightarrow> delivery_op \<Rightarrow> deleg_db \<Rightarrow> nat" where
  "received_of i x db = length (filter (\<lambda>y. do_delegation y = i) (received x db))"

definition keyed :: "deleg_db \<Rightarrow> bool" where
  "keyed db \<longleftrightarrow> distinct (map lc_id (dd_lifecycles db))"

definition rows_kept :: "deleg_db \<Rightarrow> deleg_db \<Rightarrow> bool" where
  "rows_kept db db' \<longleftrightarrow> (\<forall>i l. get_lifecycle i db = Some l \<longrightarrow> (\<exists>l'. get_lifecycle i db' = Some l' \<and> row_step\<^sup>*\<^sup>* l l'))"

lemma keyed_get: "keyed db \<Longrightarrow> l \<in> set (dd_lifecycles db) \<Longrightarrow> get_lifecycle (lc_id l) db = Some l"
  by (simp add: keyed_def get_lifecycle_def row_get_distinct)

lemma keyed_loop_rows: "keyed db \<Longrightarrow> loop_rows (lifecycles_of_attempt a db) db"
  by (auto simp: loop_rows_def lifecycles_of_attempt_def keyed_get keyed_def distinct_map_filter)

lemma delivery_act_keyed: "keyed db \<Longrightarrow> keyed (delivery_act x db)"
  and delivery_act_kept: "keyed db \<Longrightarrow> rows_kept db (delivery_act x db)"
proof -
  assume k: "keyed db"
  have move: "rows_move db (delivery_act x db)" if "\<not> (\<exists>l. x = Op_create l)"
    using that k by (cases x) (simp_all add: record_started_moves record_outcome_moves deliver_moves deliver_all_moves
      consume_loop_moves keyed_loop_rows resume_pending_deliveries_def consume_for_parent_attempt_def)
  show "keyed (delivery_act x db)"
  proof (cases "\<exists>l. x = Op_create l")
    case True
    then show ?thesis using k
      by (auto simp: create_lifecycle_def keyed_def row_create_def row_get_none)
  qed (use move k in \<open>simp add: rows_move_def keyed_def\<close>)
  show "rows_kept db (delivery_act x db)"
  proof (cases "\<exists>l. x = Op_create l")
    case True
    then show ?thesis
      by (fastforce simp: rows_kept_def create_lifecycle_def get_lifecycle_def row_get_create)
  qed (use move in \<open>simp add: rows_move_def rows_kept_def\<close>)
qed

lemma consumed_stays:
  assumes "row_step\<^sup>*\<^sup>* l l'" and "lc_delivery l = CONSUMED"
  shows "lc_delivery l' = CONSUMED"
  using assms by (induction rule: rtranclp_induct) (auto elim!: row_step.cases simp: row_defs)

definition consumed_in :: "string \<Rightarrow> deleg_db \<Rightarrow> bool" where
  "consumed_in i db \<longleftrightarrow> (\<exists>l. get_lifecycle i db = Some l \<and> lc_delivery l = CONSUMED)"

lemma received_cases:
  assumes "keyed db" and "y \<in> set (received x db)"
  obtains l where "get_lifecycle (do_delegation y) db = Some l" "lc_delivery l = DELIVERED" "do_outcome y = lc_outcome l"
    "consumed_in (do_delegation y) (delivery_act x db)"
proof (cases x)
  case (Op_consume now a seen)
  with assms(2) obtain outs where outs: "fst (consume_for_parent_attempt now a seen db) = Inr outs" "y \<in> set outs"
    by (cases "fst (consume_for_parent_attempt now a seen db)") auto
  from consume_loop_outs(2)[OF keyed_loop_rows[OF assms(1)] outs(1)[unfolded consume_for_parent_attempt_def] outs(2)]
  obtain l where l: "l \<in> set (lifecycles_of_attempt a db)" "lc_delivery l = DELIVERED"
      "y = \<lparr>do_token = lc_token l, do_delegation = lc_id l, do_outcome = lc_outcome l\<rparr>"
      "get_lifecycle (lc_id l) (delivery_act x db) = Some (consumed_row now l)"
    by (auto simp: Op_consume consume_for_parent_attempt_def)
  moreover have "get_lifecycle (lc_id l) db = Some l"
    using l(1) keyed_get[OF assms(1)] by (simp add: lifecycles_of_attempt_def)
  ultimately show thesis
    by (intro that[of l]) (auto simp: consumed_in_def consumed_row_def)
qed (use assms(2) in simp_all)

lemma received_distinct: "keyed db \<Longrightarrow> distinct (map do_delegation (received x db))"
  using consume_loop_outs(1)[OF keyed_loop_rows]
  by (cases x) (auto simp: consume_for_parent_attempt_def split: sum.splits)

interpretation handing_over: once delivery_act "received_of i" "consumed_in i" keyed for i
proof (unfold_locales, goal_cases)
  case (1 db x)
  then show ?case by (rule delivery_act_keyed)
next
  case (2 db x)
  then show ?case
    using delivery_act_kept[of db x] consumed_stays unfolding consumed_in_def rows_kept_def by blast
next
  case (3 db x)
  have "do_delegation y \<noteq> i" if y: "y \<in> set (received x db)" for y
  proof -
    obtain l where "get_lifecycle (do_delegation y) db = Some l" "lc_delivery l = DELIVERED"
      using received_cases[OF 3(1) y] by blast
    with 3(2) show ?thesis by (auto simp: consumed_in_def)
  qed
  then show ?case by (simp add: received_of_def filter_empty_conv)
next
  case (4 db x)
  have one: "length (filter (\<lambda>y. do_delegation y = i) ys) \<le> 1" if "distinct (map do_delegation ys)" for ys
    using that by (induction ys) (auto simp: filter_empty_conv image_iff)
  show ?case unfolding received_of_def by (rule one[OF received_distinct[OF 4]])
next
  case (5 db x)
  then obtain y where y: "y \<in> set (received x db)" "do_delegation y = i"
    by (auto simp: received_of_def filter_empty_conv)
  with received_cases[OF 5(1) y(1)] show ?case by blast
qed

section \<open>Well-formed rows\<close>

text \<open>What the columns of a row say together: the outcome, the finish time and the verdict come with
  the delivery state, each delivery time with its state, and the token is the digest of the id.\<close>

definition lifecycle_wf :: "(string \<Rightarrow> string) \<Rightarrow> child_lifecycle \<Rightarrow> bool" where
  "lifecycle_wf sha l \<longleftrightarrow>
     lc_token l = sha (''delegation-delivery:'' @ lc_id l) \<and>
     (lc_finished l = None \<longleftrightarrow> lc_delivery l = NOT_READY) \<and>
     (lc_outcome l = [] \<longleftrightarrow> lc_delivery l = NOT_READY) \<and>
     (lc_delivered l = None \<longleftrightarrow> lc_delivery l \<in> {NOT_READY, DELIVERY_PENDING}) \<and>
     (lc_consumed l = None \<longleftrightarrow> lc_delivery l \<noteq> CONSUMED) \<and>
     (lc_delivery l = NOT_READY \<longrightarrow> lc_artifact l = None \<and> lc_validator l = None) \<and>
     (lc_dispatch l = Dispatch_CREATED \<longrightarrow> lc_started l = None)"

lemma outcome_dump_nonempty [simp]: "outcome_dump oc \<noteq> []"
  by (simp add: outcome_dump_def)

lemma row_step_wf: "row_step l l' \<Longrightarrow> lifecycle_wf sha l \<Longrightarrow> lifecycle_wf sha l'"
  by (induction rule: row_step.induct) (auto simp: lifecycle_wf_def row_defs split: option.splits)

lemma row_steps_wf: "row_step\<^sup>*\<^sup>* l l' \<Longrightarrow> lifecycle_wf sha l \<Longrightarrow> lifecycle_wf sha l'"
  by (induction rule: rtranclp_induct) (auto intro: row_step_wf)

definition lifecycles_wf :: "(string \<Rightarrow> string) \<Rightarrow> deleg_db \<Rightarrow> bool" where
  "lifecycles_wf sha db \<longleftrightarrow> keyed db \<and> (\<forall>i l. get_lifecycle i db = Some l \<longrightarrow> lifecycle_wf sha l)"

text \<open>Creations of the rows the code makes.\<close>

definition delivery_op_ok :: "(string \<Rightarrow> string) \<Rightarrow> delivery_op \<Rightarrow> bool" where
  "delivery_op_ok sha x \<longleftrightarrow> (\<forall>l. x = Op_create l \<longrightarrow> (\<exists>i a e c d r. l = new_lifecycle sha i a e c d r))"

lemma same_ids: "map lc_id (dd_lifecycles db') = map lc_id (dd_lifecycles db) \<Longrightarrow> get_lifecycle i db' = None \<longleftrightarrow> get_lifecycle i db = None"
  by (metis get_lifecycle_def row_get_none set_map)

lemma delivery_act_wf:
  assumes "lifecycles_wf sha db" and "delivery_op_ok sha x"
  shows "lifecycles_wf sha (delivery_act x db)"
proof -
  have k: "keyed db" and wf: "\<And>i l. get_lifecycle i db = Some l \<Longrightarrow> lifecycle_wf sha l"
    using assms(1) by (auto simp: lifecycles_wf_def)
  have "lifecycle_wf sha l'" if l': "get_lifecycle i (delivery_act x db) = Some l'" for i l'
  proof (cases "get_lifecycle i db")
    case (Some l)
    then show ?thesis
      using delivery_act_kept[OF k, of x] wf row_steps_wf l' unfolding rows_kept_def by fastforce
  next
    case None
    have "\<exists>n. x = Op_create n \<and> l' = n"
    proof (cases x)
      case (Op_create n)
      then show ?thesis using l' None
        by (auto simp: create_lifecycle_def get_lifecycle_def row_get_create split: if_splits)
    qed (use l' None same_ids[of "delivery_act x db" db i] k in
      \<open>simp_all add: resume_pending_deliveries_def consume_for_parent_attempt_def
        rows_move_def[symmetric] record_started_moves[unfolded rows_move_def] record_outcome_moves[unfolded rows_move_def]
        deliver_moves[unfolded rows_move_def] deliver_all_moves[unfolded rows_move_def]
        consume_loop_moves[OF keyed_loop_rows, unfolded rows_move_def]\<close>)
    then show ?thesis using assms(2) by (auto simp: delivery_op_ok_def lifecycle_wf_def new_lifecycle_def)
  qed
  then show ?thesis using delivery_act_keyed[OF k] by (simp add: lifecycles_wf_def)
qed

lemma delivery_history_wf:
  assumes "\<forall>x\<in>set xs. delivery_op_ok sha x" and "lifecycles_wf sha db"
  shows "lifecycles_wf sha (run_ops delivery_act xs db)"
  using assms by (induction xs arbitrary: db) (simp_all add: delivery_act_wf)

section \<open>Properties\<close>

text \<open>C28: Every history of service calls that starts from an empty table leaves well-formed rows: a row
  has an outcome and a finish time exactly from the delivery state DELIVERY_PENDING on, a
  delivery time exactly from DELIVERED on, a consumption time exactly in CONSUMED, and its
  token is the digest of its id.\<close>

theorem delivery_rows_wellformed:
  assumes "\<forall>x\<in>set xs. delivery_op_ok sha x" and "dd_lifecycles db = []"
    and "get_lifecycle i (run_ops delivery_act xs db) = Some l"
  shows "lifecycle_wf sha l"
proof -
  have "lifecycles_wf sha db"
    using assms(2) by (simp add: lifecycles_wf_def keyed_def get_lifecycle_def row_get_def)
  from delivery_history_wf[OF assms(1) this] assms(3) show ?thesis by (simp add: lifecycles_wf_def)
qed

text \<open>A delegation whose child completes, for the examples.\<close>

definition sample_outcome :: child_outcome where
  "sample_outcome = \<lparr>oc_status = Child_COMPLETED, oc_failure = None, oc_artifacts = [], oc_mutation = False, oc_verification = [],
     oc_retryable = False, oc_run = ''r'', oc_summary = []\<rparr>"

lemma sample_outcome_fields:
  "oc_status sample_outcome = Child_COMPLETED" "oc_artifacts sample_outcome = []" "oc_run sample_outcome = ''r''"
  by (simp_all add: sample_outcome_def)

definition sample_deleg_db :: deleg_db where
  "sample_deleg_db = \<lparr>dd_tasks = [], dd_runs = [], dd_attempts = [],
     dd_delegations = [\<lparr>dl_id = ''d'', dl_parent_agent = ''w'', dl_parent_task = ''p'', dl_parent_run = ''q'', dl_child_agent = ''c'',
       dl_child_task = ''t'', dl_child_run = Some ''r'', dl_depth = 1, dl_status = Delegation_RUNNING, dl_context = [], dl_result = []\<rparr>],
     dd_lifecycles = [], dd_log = []\<rparr>"

definition sample_deliveries :: "delivery_op list" where
  "sample_deliveries =
     [Op_create (new_lifecycle id ''d'' ''a'' ''c'' ''w'' ''w'' None), Op_started 1 ''d'', Op_outcome 2 ''d'' sample_outcome (Some True),
      Op_resume 3, Op_consume 4 ''a'' {}, Op_consume 5 ''a'' {}]"

lemmas deliveries_run = sample_deliveries_def sample_deleg_db_def new_lifecycle_def create_lifecycle_def row_get_def row_create_def
  record_started_def record_outcome_def resume_pending_deliveries_def deliver_def consume_for_parent_attempt_def lifecycles_of_attempt_def
  delivery_pending_def get_lifecycle_def update_lifecycle_def overwrite_def get_delegation_def append_for_def row_defs Let_def
  consume_loop.simps received_of_def

theorem delivery_rows_wellformed_witness:
  "\<exists>l. get_lifecycle ''d'' (run_ops delivery_act sample_deliveries sample_deleg_db) = Some l \<and> lc_delivery l = CONSUMED \<and> lifecycle_wf id l"
proof -
  let ?db = "run_ops delivery_act sample_deliveries sample_deleg_db"
  have "map_option lc_delivery (get_lifecycle ''d'' ?db) = Some CONSUMED"
    by (simp add: deliveries_run)
  then obtain l where l: "get_lifecycle ''d'' ?db = Some l" "lc_delivery l = CONSUMED" by auto
  have "\<forall>x\<in>set sample_deliveries. delivery_op_ok id x"
    by (simp add: sample_deliveries_def delivery_op_ok_def) (blast intro: refl)
  from delivery_rows_wellformed[OF this _ l(1)] l show ?thesis by (simp add: sample_deleg_db_def)
qed

text \<open>C27: An outcome reaches the parent at most once. Over any history of service calls, in any order and
  with any sets of tokens already seen, the consuming passes return the outcome of a delegation
  at most once in all.\<close>

theorem outcome_received_once:
  assumes "keyed db"
  shows "tally delivery_act (received_of i) xs db \<le> 1"
  by (rule handing_over.tally_once[OF assms])

theorem outcome_received_once_witness:
  "tally delivery_act (received_of ''d'') sample_deliveries sample_deleg_db = 1"
proof -
  have "0 < tally delivery_act (received_of ''d'') sample_deliveries sample_deleg_db"
    by (simp add: deliveries_run)
  moreover have "keyed sample_deleg_db" by (simp add: keyed_def sample_deleg_db_def)
  ultimately show ?thesis using outcome_received_once[of sample_deleg_db "''d''" sample_deliveries] by linarith
qed

text \<open>An outcome that was recorded stays.\<close>

lemma outcome_stays:
  assumes "row_step\<^sup>*\<^sup>* l l'" and "lc_delivery l \<noteq> NOT_READY"
  shows "lc_delivery l' \<noteq> NOT_READY \<and> lc_outcome l' = lc_outcome l"
  using assms by (induction rule: rtranclp_induct) (auto elim!: row_step.cases simp: row_defs)

definition outcome_fits :: "child_outcome \<Rightarrow> pydict \<Rightarrow> bool" where
  "outcome_fits oc d \<longleftrightarrow> dict_get d ''status'' = PStr (child_state_value (oc_status oc)) \<and> dict_get d ''child_run_id'' = PStr (oc_run oc)"

lemma dump_fields [simp]:
  "dict_get (outcome_dump oc) ''status'' = PStr (child_state_value (oc_status oc))"
  "dict_get (outcome_dump oc) ''child_run_id'' = PStr (oc_run oc)"
  by (simp_all add: outcome_dump_def dict_get_def)

lemma outcome_fits_dump: "outcome_fits oc (outcome_dump oc)"
  by (simp add: outcome_fits_def)

lemma recorded_row:
  assumes "fst (record_outcome now i oc v db) = Inr l"
  shows "\<exists>l'. get_lifecycle i (snd (record_outcome now i oc v db)) = Some l' \<and> lc_delivery l' \<noteq> NOT_READY \<and> outcome_fits oc (lc_outcome l')"
proof -
  obtain l0 where l0: "get_lifecycle i db = Some l0"
    using assms by (cases "get_lifecycle i db") (simp_all add: record_outcome_def)
  show ?thesis
  proof (cases "lc_delivery l0 = NOT_READY")
    case True
    note row = change_row[OF l0 row_changes(2), of i now oc v]
    have "lc_delivery (with_outcome now oc v l0) = DELIVERY_PENDING" "lc_outcome (with_outcome now oc v l0) = outcome_dump oc"
      by (simp_all add: with_outcome_def)
    with True assms row l0 outcome_fits_dump show ?thesis
      by (cases "get_delegation i db") (simp_all add: record_outcome_def Let_def)
  next
    case False
    with assms l0 show ?thesis by (auto simp: record_outcome_def outcome_fits_def split: if_splits)
  qed
qed

lemma deliveries_kept: "keyed db \<Longrightarrow> rows_kept db (run_ops delivery_act xs db)"
proof (induction xs arbitrary: db)
  case (Cons x xs)
  from delivery_act_kept[OF Cons.prems, of x] Cons.IH[OF delivery_act_keyed[OF Cons.prems, of x]]
  show ?case unfolding rows_kept_def by (simp, meson rtranclp_trans)
qed (simp add: rows_kept_def)

text \<open>What the parent receives is what was recorded. When the service accepted an outcome of a
  child, every outcome a consuming pass returns for that delegation after any further history
  has its status and its run; a later outcome with another status or run cannot replace it.\<close>

theorem received_is_recorded:
  assumes "keyed db" and "fst (record_outcome now i oc v db) = Inr l"
    and "y \<in> set (received x (run_ops delivery_act xs (snd (record_outcome now i oc v db))))" and "do_delegation y = i"
  shows "outcome_fits oc (do_outcome y)"
proof -
  let ?db = "snd (record_outcome now i oc v db)"
  have keyed: "keyed ?db" using delivery_act_keyed[OF assms(1), of "Op_outcome now i oc v"] by simp
  have keyed2: "keyed (run_ops delivery_act xs ?db)"
    by (rule run_ops_keeps[of keyed]) (simp_all add: delivery_act_keyed keyed)
  obtain l1 where l1: "get_lifecycle i ?db = Some l1" "lc_delivery l1 \<noteq> NOT_READY" "outcome_fits oc (lc_outcome l1)"
    using recorded_row[OF assms(2)] by blast
  obtain l2 where l2: "get_lifecycle i (run_ops delivery_act xs ?db) = Some l2" "row_step\<^sup>*\<^sup>* l1 l2"
    using deliveries_kept[OF keyed, of xs] l1(1) unfolding rows_kept_def by blast
  obtain l3 where "get_lifecycle i (run_ops delivery_act xs ?db) = Some l3" "do_outcome y = lc_outcome l3"
    using received_cases[OF keyed2 assms(3)] assms(4) by blast
  with l1 l2 outcome_stays[OF l2(2) l1(2)] show ?thesis by simp
qed

definition sample_waiting :: deleg_db where
  "sample_waiting = sample_deleg_db\<lparr>dd_lifecycles := [new_lifecycle id ''d'' ''a'' ''c'' ''w'' ''w'' None]\<rparr>"

theorem received_is_recorded_witness:
  "let ys = received (Op_consume 5 ''a'' {}) (run_ops delivery_act [Op_deliver 4 ''d''] (snd (record_outcome 2 ''d'' sample_outcome None sample_waiting)))
   in ys \<noteq> [] \<and> list_all (\<lambda>y. outcome_fits sample_outcome (do_outcome y)) ys"
proof -
  let ?ys = "received (Op_consume 5 ''a'' {}) (run_ops delivery_act [Op_deliver 4 ''d''] (snd (record_outcome 2 ''d'' sample_outcome None sample_waiting)))"
  have k: "keyed sample_waiting" by (simp add: keyed_def sample_waiting_def)
  have "\<not> isl (fst (record_outcome 2 ''d'' sample_outcome None sample_waiting))"
    by (simp add: deliveries_run sample_waiting_def)
  then obtain l where l: "fst (record_outcome 2 ''d'' sample_outcome None sample_waiting) = Inr l"
    by (cases "fst (record_outcome 2 ''d'' sample_outcome None sample_waiting)") auto
  have ids: "map do_delegation ?ys = [''d'']"
    by (simp add: deliveries_run sample_waiting_def sample_outcome_fields)
  then have "do_delegation y = ''d''" if "y \<in> set ?ys" for y
  proof -
    have "do_delegation y \<in> set (map do_delegation ?ys)" using that by (simp only: set_map image_eqI)
    then show ?thesis unfolding ids by simp
  qed
  then have "\<forall>y\<in>set ?ys. outcome_fits sample_outcome (do_outcome y)" using received_is_recorded[OF k l] by blast
  moreover have "?ys \<noteq> []" using ids by (metis list.simps(8) list.distinct(1))
  ultimately show ?thesis unfolding Let_def list_all_iff by blast
qed

text \<open>Delivering what is pending.\<close>

lemma deliver_pending_row:
  assumes "get_lifecycle i db = Some l" and "lc_delivery l = DELIVERY_PENDING" and "get_delegation i db = Some d"
  obtains db' where "deliver now i db = (Inr (delivered_row now l), db')" "dd_delegations db' = dd_delegations db"
    "map lc_id (dd_lifecycles db') = map lc_id (dd_lifecycles db)"
    "\<And>k. get_lifecycle k db' = (if k = i then Some (delivered_row now l) else get_lifecycle k db)"
proof -
  have "map lc_id (dd_lifecycles (snd (deliver now i db))) = map lc_id (dd_lifecycles db)"
    using deliver_moves[of db now i] by (simp add: rows_move_def)
  then show thesis
    using assms change_row[OF assms(1) row_changes(3), of _ now]
    by (intro that[of "snd (deliver now i db)"]) (simp_all add: deliver_def Let_def)
qed

lemma deliver_all_pending:
  assumes "distinct ids"
    and "\<And>i. i \<in> set ids \<Longrightarrow> \<exists>l. get_lifecycle i db = Some l \<and> lc_delivery l = DELIVERY_PENDING"
    and "\<And>i. i \<in> set ids \<Longrightarrow> get_delegation i db \<noteq> None"
  shows "\<exists>ls db'. deliver_all now ids db = (Inr ls, db') \<and>
    (\<forall>k. get_lifecycle k db' = (if k \<in> set ids then map_option (delivered_row now) (get_lifecycle k db) else get_lifecycle k db))"
  using assms
proof (induction ids arbitrary: db)
  case (Cons i ids)
  obtain l where l: "get_lifecycle i db = Some l" "lc_delivery l = DELIVERY_PENDING" using Cons.prems(2)[of i] by auto
  obtain d where d: "get_delegation i db = Some d" using Cons.prems(3)[of i] by auto
  obtain db1 where one: "deliver now i db = (Inr (delivered_row now l), db1)" "dd_delegations db1 = dd_delegations db"
      "\<And>k. get_lifecycle k db1 = (if k = i then Some (delivered_row now l) else get_lifecycle k db)"
    using deliver_pending_row[OF l d, of now] by metis
  have "\<exists>ls db'. deliver_all now ids db1 = (Inr ls, db') \<and>
      (\<forall>k. get_lifecycle k db' = (if k \<in> set ids then map_option (delivered_row now) (get_lifecycle k db1) else get_lifecycle k db1))"
  proof (rule Cons.IH)
    fix k assume k: "k \<in> set ids"
    with Cons.prems(1) have "k \<noteq> i" by auto
    with k Cons.prems(2)[of k] Cons.prems(3)[of k]
    show "\<exists>l. get_lifecycle k db1 = Some l \<and> lc_delivery l = DELIVERY_PENDING" "get_delegation k db1 \<noteq> None"
      by (simp_all add: one(3), simp add: get_delegation_def one(2))
  qed (use Cons.prems(1) in simp)
  then obtain ls db' where "deliver_all now ids db1 = (Inr ls, db')"
      "\<forall>k. get_lifecycle k db' = (if k \<in> set ids then map_option (delivered_row now) (get_lifecycle k db1) else get_lifecycle k db1)"
    by blast
  with Cons.prems(1) one(3) l(1) show ?case by (auto simp: one(1))
qed simp

text \<open>A restart delivers everything that is pending. When every pending row has its delegation, the
  resuming pass succeeds; it turns exactly the pending rows into delivered ones, changes no other
  row, and nothing is pending after it.\<close>

theorem resume_delivers_pending:
  assumes "keyed db" and "\<forall>l\<in>set (delivery_pending db). get_delegation (lc_id l) db \<noteq> None"
    and "resume_pending_deliveries now db = (r, db')"
  shows "(\<exists>ls. r = Inr ls) \<and> delivery_pending db' = [] \<and>
    (\<forall>i. get_lifecycle i db' = map_option (\<lambda>l. if lc_delivery l = DELIVERY_PENDING then delivered_row now l else l) (get_lifecycle i db))"
proof -
  let ?ids = "map lc_id (delivery_pending db)"
  have rows: "get_lifecycle (lc_id l) db = Some l \<and> lc_delivery l = DELIVERY_PENDING" if "l \<in> set (delivery_pending db)" for l
    using that keyed_get[OF assms(1)] by (simp add: delivery_pending_def)
  have "distinct ?ids" using assms(1) by (simp add: delivery_pending_def keyed_def distinct_map_filter)
  moreover have "\<exists>l. get_lifecycle i db = Some l \<and> lc_delivery l = DELIVERY_PENDING" "get_delegation i db \<noteq> None"
    if "i \<in> set ?ids" for i using that rows assms(2) by auto
  ultimately obtain ls where ok: "r = Inr ls"
      "\<And>k. get_lifecycle k db' = (if k \<in> set ?ids then map_option (delivered_row now) (get_lifecycle k db) else get_lifecycle k db)"
    using deliver_all_pending[of ?ids db now] assms(3) unfolding resume_pending_deliveries_def by auto
  have in_ids: "i \<in> set ?ids \<longleftrightarrow> lc_delivery l = DELIVERY_PENDING" if "get_lifecycle i db = Some l" for i l
  proof
    assume "i \<in> set ?ids"
    then show "lc_delivery l = DELIVERY_PENDING" using rows that by auto
  next
    assume "lc_delivery l = DELIVERY_PENDING"
    moreover have "l \<in> set (dd_lifecycles db)" using that by (simp add: get_lifecycle_def row_get_mem)
    ultimately show "i \<in> set ?ids" using get_lifecycle_id[OF that] by (force simp: delivery_pending_def)
  qed
  have all: "get_lifecycle i db' = map_option (\<lambda>l. if lc_delivery l = DELIVERY_PENDING then delivered_row now l else l) (get_lifecycle i db)" for i
    using in_ids[of i] ok(2)[of i] by (cases "get_lifecycle i db") auto
  have "keyed db'" using delivery_act_keyed[OF assms(1), of "Op_resume now"] assms(3) by simp
  then have "lc_delivery l \<noteq> DELIVERY_PENDING" if "l \<in> set (dd_lifecycles db')" for l
    using keyed_get[of db' l] that all[of "lc_id l"]
    by (auto simp: delivered_row_def dest!: arg_cong[of "_\<lparr>lc_delivery := DELIVERED, lc_delivered := _\<rparr>" _ lc_delivery] split: if_splits)
  then have "delivery_pending db' = []" by (simp add: delivery_pending_def filter_empty_conv)
  with ok(1) all show ?thesis by blast
qed

theorem resume_delivers_pending_witness:
  "let db = snd (record_outcome 2 ''d'' sample_outcome None sample_waiting)
   in length (delivery_pending db) = 1 \<and> delivery_pending (snd (resume_pending_deliveries 3 db)) = []"
proof -
  let ?db = "snd (record_outcome 2 ''d'' sample_outcome None sample_waiting)"
  have k: "keyed ?db"
    using delivery_act_keyed[of sample_waiting "Op_outcome 2 ''d'' sample_outcome None"] by (simp add: keyed_def sample_waiting_def)
  have ids: "map lc_id (delivery_pending ?db) = [''d'']"
    by (simp add: deliveries_run sample_waiting_def sample_outcome_fields)
  have "get_delegation ''d'' ?db \<noteq> None"
    by (simp add: deliveries_run sample_waiting_def sample_outcome_fields)
  then have "get_delegation (lc_id l) ?db \<noteq> None" if "l \<in> set (delivery_pending ?db)" for l
  proof -
    have "lc_id l \<in> set (map lc_id (delivery_pending ?db))" using that by (simp only: set_map image_eqI)
    with \<open>get_delegation ''d'' ?db \<noteq> None\<close> show ?thesis unfolding ids by simp
  qed
  then have "\<forall>l\<in>set (delivery_pending ?db). get_delegation (lc_id l) ?db \<noteq> None" by blast
  from resume_delivers_pending[OF k this prod.collapse[symmetric]] arg_cong[OF ids, of length]
  show ?thesis by (simp add: Let_def)
qed

section \<open>Lineage\<close>

text \<open>\<open>(p, c)\<close>: task \<open>p\<close> delegated task \<open>c\<close>.\<close>

definition delegated :: "delegation list \<Rightarrow> (string \<times> string) set" where
  "delegated rows = (\<lambda>d. (dl_parent_task d, dl_child_task d)) ` set rows"

definition cyclic_above :: "delegation list \<Rightarrow> string \<Rightarrow> bool" where
  "cyclic_above rows t \<longleftrightarrow> (\<exists>x. (x, t) \<in> (delegated rows)\<^sup>* \<and> (x, x) \<in> (delegated rows)\<^sup>+)"

definition lineage_table :: "delegation list \<Rightarrow> bool" where
  "lineage_table rows \<longleftrightarrow> distinct (map dl_child_task rows) \<and> [] \<notin> dl_child_task ` set rows"

lemma parents_of:
  assumes "lineage_table rows"
  shows "[d \<leftarrow> rows. dl_child_task d = t] = [] \<and> (\<forall>p. (p, t) \<notin> delegated rows) \<or>
    (\<exists>d. [d \<leftarrow> rows. dl_child_task d = t] = [d] \<and> (\<forall>p. (p, t) \<in> delegated rows \<longleftrightarrow> p = dl_parent_task d))"
  using assms unfolding lineage_table_def
proof (induction rows)
  case (Cons d rows)
  show ?case
  proof (cases "dl_child_task d = t")
    case True
    then have "[d \<leftarrow> rows. dl_child_task d = t] = []" "\<forall>p. (p, t) \<notin> delegated rows"
      using Cons.prems by (auto simp: filter_empty_conv delegated_def image_iff)
    with True show ?thesis by (auto simp: delegated_def)
  next
    case False
    with Cons show ?thesis by (auto simp: delegated_def)
  qed
qed (simp add: delegated_def)

lemma cyclic_above_parent:
  assumes "\<And>p. (p, t) \<in> delegated rows \<longleftrightarrow> p = q" and "cyclic_above rows t"
  shows "cyclic_above rows q"
proof -
  from assms(2) obtain x where x: "(x, t) \<in> (delegated rows)\<^sup>*" "(x, x) \<in> (delegated rows)\<^sup>+"
    by (auto simp: cyclic_above_def)
  have q: "(q, t) \<in> delegated rows" using assms(1) by simp
  have up: "(x, q) \<in> (delegated rows)\<^sup>*" if "(x, t) \<in> (delegated rows)\<^sup>+" for x
    using that by (auto dest!: tranclD2 simp: assms(1))
  show ?thesis
  proof (cases "x = t")
    case True
    then have "(t, q) \<in> (delegated rows)\<^sup>*" using up x(2) by blast
    then have "(q, q) \<in> (delegated rows)\<^sup>+" using q by (simp add: rtrancl_into_trancl2)
    then show ?thesis by (auto simp: cyclic_above_def)
  next
    case False
    then show ?thesis using x up[of x] by (auto simp: cyclic_above_def rtrancl_eq_or_trancl)
  qed
qed

lemma cyclic_above_child: "(p, t) \<in> delegated rows \<Longrightarrow> cyclic_above rows p \<Longrightarrow> cyclic_above rows t"
  unfolding cyclic_above_def by (meson rtrancl.rtrancl_into_rtrancl)

lemma no_parent_acyclic:
  assumes "\<forall>p. (p, t) \<notin> delegated rows" shows "\<not> cyclic_above rows t"
proof
  assume "cyclic_above rows t"
  then obtain x where x: "(x, t) \<in> (delegated rows)\<^sup>*" "(x, x) \<in> (delegated rows)\<^sup>+" by (auto simp: cyclic_above_def)
  from x(1) assms have "x = t" by (blast elim: rtranclE)
  with x(2) assms show False by (blast dest: tranclD2)
qed

lemma walk_accepts:
  assumes "lineage_table rows" and "lineage_walk rows visited t = None"
  shows "\<not> cyclic_above rows t"
  using assms
proof (induction rows visited t rule: lineage_walk.induct)
  case (1 rows visited t)
  have empty: "\<forall>p. (p, []) \<notin> delegated rows" using "1.prems"(1) by (force simp: lineage_table_def delegated_def)
  show ?case
  proof (cases "t = []")
    case False
    with "1.prems"(2) have t: "t \<notin> set visited" by (auto split: if_splits)
    from parents_of[OF "1.prems"(1), of t] show ?thesis
    proof
      assume "\<exists>d. [d \<leftarrow> rows. dl_child_task d = t] = [d] \<and> (\<forall>p. (p, t) \<in> delegated rows \<longleftrightarrow> p = dl_parent_task d)"
      then obtain d where d: "[d \<leftarrow> rows. dl_child_task d = t] = [d]" "\<And>p. (p, t) \<in> delegated rows \<longleftrightarrow> p = dl_parent_task d"
        by blast
      have "lineage_walk rows (t # visited) (dl_parent_task d) = None"
        using "1.prems"(2) False t d(1) by simp
      from "1.IH"[OF False t d(1) refl "1.prems"(1) this] cyclic_above_parent[OF d(2)] show ?thesis by blast
    qed (use no_parent_acyclic in blast)
  qed (use no_parent_acyclic empty in simp)
qed

lemma walk_rejects:
  assumes "lineage_table rows" and "lineage_walk rows visited t = Some e"
    and "\<And>v. v \<in> set visited \<Longrightarrow> (t, v) \<in> (delegated rows)\<^sup>+"
  shows "e = CYCLIC_DELEGATION_LINEAGE \<and> cyclic_above rows t"
  using assms
proof (induction rows visited t rule: lineage_walk.induct)
  case (1 rows visited t)
  have ne: "t \<noteq> []" using "1.prems"(2) by auto
  show ?case
  proof (cases "t \<in> set visited")
    case True
    then show ?thesis using "1.prems"(2,3) ne by (auto simp: cyclic_above_def)
  next
    case False
    have "[d \<leftarrow> rows. dl_child_task d = t] \<noteq> []" using "1.prems"(2) ne False by auto
    with parents_of[OF "1.prems"(1), of t]
    obtain d where d: "[d \<leftarrow> rows. dl_child_task d = t] = [d]" "\<And>p. (p, t) \<in> delegated rows \<longleftrightarrow> p = dl_parent_task d"
      by blast
    have up: "(dl_parent_task d, t) \<in> delegated rows" using d(2) by simp
    have "lineage_walk rows (t # visited) (dl_parent_task d) = Some e"
      using "1.prems"(2) ne False d(1) by simp
    from "1.IH"[OF ne False d(1) refl "1.prems"(1) this]
    have "e = CYCLIC_DELEGATION_LINEAGE \<and> cyclic_above rows (dl_parent_task d)"
      using "1.prems"(3) up by (auto intro: trancl_into_trancl2)
    with cyclic_above_child[OF up] show ?thesis by blast
  qed
qed

text \<open>The lineage check is exact. When every task was delegated at most once, the walk from a
  delegation's parent ends, and it accepts the delegation exactly when no task from which its
  child descends is its own ancestor; the only way it rejects is the cycle error.\<close>

theorem lineage_walk_exact:
  assumes "lineage_table rows" and "d \<in> set rows"
  shows "lineage_walk rows [dl_child_task d] (dl_parent_task d) =
    (if cyclic_above rows (dl_child_task d) then Some CYCLIC_DELEGATION_LINEAGE else None)"
proof -
  have up: "(dl_parent_task d, dl_child_task d) \<in> delegated rows" using assms(2) by (auto simp: delegated_def)
  obtain q where q: "\<And>p. (p, dl_child_task d) \<in> delegated rows \<longleftrightarrow> p = q"
    using parents_of[OF assms(1), of "dl_child_task d"] up by meson
  have only: "(p, dl_child_task d) \<in> delegated rows \<longleftrightarrow> p = dl_parent_task d" for p
    using q up by simp
  have same: "cyclic_above rows (dl_child_task d) \<longleftrightarrow> cyclic_above rows (dl_parent_task d)"
    using cyclic_above_parent[OF only] cyclic_above_child[OF up] by blast
  show ?thesis
  proof (cases "lineage_walk rows [dl_child_task d] (dl_parent_task d)")
    case None
    with walk_accepts[OF assms(1)] same show ?thesis by auto
  next
    case (Some e)
    with walk_rejects[OF assms(1) Some] up same show ?thesis by auto
  qed
qed

definition sample_lineage :: "string \<Rightarrow> delegation list" where
  "sample_lineage top1 =
     [(hd (dd_delegations sample_deleg_db))\<lparr>dl_parent_task := top1, dl_child_task := ''b''\<rparr>,
      (hd (dd_delegations sample_deleg_db))\<lparr>dl_parent_task := ''b'', dl_child_task := ''c''\<rparr>]"

theorem lineage_walk_exact_witness:
  "\<not> cyclic_above (sample_lineage ''a'') ''c'' \<and> cyclic_above (sample_lineage ''c'') ''c''"
proof -
  have t: "lineage_table (sample_lineage x)" for x
    by (simp add: lineage_table_def sample_lineage_def)
  have "lineage_walk (sample_lineage ''a'') [''c''] ''b'' = None" "lineage_walk (sample_lineage ''c'') [''c''] ''b'' \<noteq> None"
    by code_simp+
  with lineage_walk_exact[OF t, of "sample_lineage ''a'' ! 1" "''a''"] lineage_walk_exact[OF t, of "sample_lineage ''c'' ! 1" "''c''"]
  show ?thesis by (auto simp: sample_lineage_def split: if_splits)
qed

end
