(* ===== verification/Observer.thy ===== *)
theory Observer imports ToolContract begin

text \<open>
  \<open>src/lhas/inner_agent/tool_adapter.py\<close>: what the dispatcher keeps of a tool result
  (\<open>safe_tool_summary\<close>) and the attempt-local observer that notices repeated failures, changes of
  strategy and verification after an edit (\<open>ToolAwareObserver\<close>).

  \<^item> The observer's state is a record with the source's attributes; \<open>decorate\<close> is the composition of
    the stages of the method in their order. The state survives a restart as a dict
    (\<open>observer_snapshot\<close>, \<open>observer_restore\<close>).
  \<^item> \<open>None\<close> is an exception of the source (\<open>len\<close> of a number, the first element of an empty list).
\<close>

section \<open>The summary of a result\<close>

definition put :: "string \<Rightarrow> pyval \<Rightarrow> pydict \<Rightarrow> pydict" where
  "put k v d = AList.update k v d"

text \<open>The entries of a dict for the keys that it has.\<close>

definition pick :: "string list \<Rightarrow> pydict \<Rightarrow> pydict" where
  "pick ks d = concat (map (\<lambda>k. case map_of d k of None \<Rightarrow> [] | Some v \<Rightarrow> [(k, v)]) ks)"

definition py_len :: "pyval \<Rightarrow> nat option" where
  "py_len v = (case v of PStr s \<Rightarrow> Some (length s) | PList xs \<Rightarrow> Some (length xs) | PDict d \<Rightarrow> Some (length d) | _ \<Rightarrow> None)"

definition hashable :: "pyval \<Rightarrow> bool" where
  "hashable v = (case v of PList _ \<Rightarrow> False | PDict _ \<Rightarrow> False | _ \<Rightarrow> True)"

fun first_seen :: "pyval list \<Rightarrow> pyval list \<Rightarrow> pyval list" where
  "first_seen acc [] = rev acc"
| "first_seen acc (x # xs) = (if list_ex (py_eq x) acc then first_seen acc xs else first_seen (x # acc) xs)"

definition match_paths :: "pyval \<Rightarrow> pyval list" where
  "match_paths v =
     (case v of
        PList xs \<Rightarrow> filter py_truthy (map (\<lambda>x. case x of PDict m \<Rightarrow> dict_get m ''path'' | _ \<Rightarrow> PNone) xs)
      | _ \<Rightarrow> [])"

definition search_summary :: "pydict \<Rightarrow> pydict option" where
  "search_summary out =
     (let matches = dict_get_or out ''matches'' (PList []); paths = match_paths matches
      in case py_len matches of
           None \<Rightarrow> None
         | Some n \<Rightarrow>
             if list_all hashable paths then
               Some [(''match_count'', PInt (int n)), (''matched_paths'', PList (take 100 (first_seen [] paths))),
                     (''truncated'', dict_get_or out ''truncated'' (PBool False))]
             else None)"

definition first_word :: "pyval \<Rightarrow> pyval option" where
  "first_word v =
     (case v of PList (x # _) \<Rightarrow> Some x | PStr (c # _) \<Rightarrow> Some (PStr [c]) | _ \<Rightarrow> None)"

definition tool_entries :: "string \<Rightarrow> pydict \<Rightarrow> pydict \<Rightarrow> pydict option" where
  "tool_entries name args out =
     (if name = ''workspace.read'' then Some (pick [''path'', ''sha256'', ''truncated''] out)
      else if name = ''workspace.search'' then search_summary out
      else if name \<in> {''workspace.edit'', ''workspace.edit_lines''} then
        Some (pick [''path'', ''before_sha256'', ''after_sha256'', ''match_mode'', ''candidate_count'', ''matched_start_line'',
                    ''matched_end_line'', ''checksum'', ''bytes_written'', ''lines_written''] out)
      else if name = ''workspace.diff'' then
        Some (pick [''changed_files'', ''files_changed'', ''lines_added'', ''lines_removed'', ''truncated''] out)
      else if name = ''cli.exec'' then
        map_option (\<lambda>w. pick [''exit_code'', ''timed_out'', ''duration_ms'', ''stdout_truncated'', ''stderr_truncated''] out @ [(''command_name'', w)])
          (first_word (dict_get_or args ''argv'' (PList [PNone])))
      else Some [])"

definition failure_text :: "tool_result \<Rightarrow> string" where
  "failure_text r = (case or_str (tr_error_type r) (Some ''UNKNOWN'') of Some e \<Rightarrow> e | None \<Rightarrow> ''UNKNOWN'')"

definition failure_entries :: "tool_result \<Rightarrow> pydict" where
  "failure_entries r =
     (if tr_status r = Tool_FAILURE then
        (''error_type'', PStr (failure_text r)) #
        pick [''failure_category'', ''reason_category'', ''action'', ''retry_same_arguments'', ''refresh_target_required'',
              ''candidate_count'', ''candidates_truncated'', ''normalization_attempted'', ''path_policy'', ''command_policy''] (tr_metadata r)
      else [])"

definition output_dict :: "tool_result \<Rightarrow> pydict" where
  "output_dict r = (case tr_output r of PDict d \<Rightarrow> d | _ \<Rightarrow> [])"

definition safe_tool_summary :: "string \<Rightarrow> pydict \<Rightarrow> tool_result \<Rightarrow> pydict option" where
  "safe_tool_summary name args r =
     map_option (\<lambda>es. dict_merge (dict_merge [(''capability'', PStr name), (''status'', PStr (tool_status_value (tr_status r)))] es)
                        (failure_entries r))
       (tool_entries name args (output_dict r))"

definition args_signature :: "(string \<Rightarrow> string) \<Rightarrow> pydict \<Rightarrow> string" where
  "args_signature sha args = sha (json_compact (PDict args))"

text \<open>\<open>_is_pytest_argv\<close>: the last path component of the command, or a module run.\<close>

definition slashes :: "string \<Rightarrow> string" where
  "slashes s = map (\<lambda>c. if c = char_of (92::nat) then CHR ''/'' else c) s"

definition base_name :: "string \<Rightarrow> string" where
  "base_name s = last (split_on (CHR ''/'') s)"

definition is_pytest_argv :: "pydict \<Rightarrow> bool" where
  "is_pytest_argv args =
     (case dict_get args ''argv'' of
        PList (PStr w # ws) \<Rightarrow>
          list_all (\<lambda>v. as_str v \<noteq> None) ws \<and>
          (let command = casefold (base_name (slashes w)) in
           command \<in> {''pytest'', ''pytest.exe''} \<or>
           (length ws \<ge> 2 \<and> take 2 ws = [PStr ''-m'', PStr ''pytest''] \<and>
            command \<in> {''python'', ''python.exe'', ''python3'', ''python3.exe''}))
      | _ \<Rightarrow> False)"

section \<open>The observer\<close>

type_synonym failure_key = "string \<times> string \<times> string"

record observer =
  ob_calls :: nat
  ob_failures :: "(failure_key \<times> nat) list"
  ob_last :: "failure_key option"
  ob_similar :: nat
  ob_pending :: "failure_key option"
  ob_edit_pending :: bool
  ob_mutation :: "nat option"
  ob_inspected :: bool

definition new_observer :: observer where
  "new_observer = \<lparr>ob_calls = 0, ob_failures = [], ob_last = None, ob_similar = 0, ob_pending = None, ob_edit_pending = False,
     ob_mutation = None, ob_inspected = False\<rparr>"

definition bounded_increment :: "nat \<Rightarrow> nat \<times> bool" where
  "bounded_increment n = (min (n + 1) 100, n + 1 > 100)"

definition edit_capability :: "string \<Rightarrow> bool" where
  "edit_capability name \<longleftrightarrow> name \<in> {''workspace.edit'', ''workspace.edit_lines''}"

definition recovery_capability :: "string \<Rightarrow> bool" where
  "recovery_capability name \<longleftrightarrow> name \<in> {''workspace.read'', ''workspace.search''}"

text \<open>The same call failing the same way.\<close>

definition count_failure :: "failure_key \<Rightarrow> observer \<Rightarrow> nat \<times> bool \<times> observer" where
  "count_failure k ob =
     (case map_of (ob_failures ob) k of
        Some n \<Rightarrow> (let (m, t) = bounded_increment n in (m, t, ob\<lparr>ob_failures := AList.update k m (ob_failures ob)\<rparr>))
      | None \<Rightarrow>
          if length (ob_failures ob) < 256 then (1, False, ob\<lparr>ob_failures := AList.update k 1 (ob_failures ob)\<rparr>)
          else (1, True, ob))"

definition exact_stage :: "string \<Rightarrow> tool_result \<Rightarrow> string \<Rightarrow> pydict \<times> observer \<Rightarrow> pydict \<times> observer \<times> bool" where
  "exact_stage name r signature so =
     (case so of (s, ob) \<Rightarrow>
        if tr_status r = Tool_FAILURE then
          (let (n, t, ob') = count_failure (name, signature, failure_text r) ob;
               s1 = (if n \<ge> 2 then put ''strategy_change_required'' (PBool True) (put ''failure_repeat_count'' (PInt (int n)) s) else s)
           in (if t then put ''repeat_count_truncated'' (PBool True) s1 else s1, ob', t))
        else (s, ob, False))"

definition failure_category :: "tool_result \<Rightarrow> string" where
  "failure_category r = py_str (py_or (py_or (dict_get (tr_metadata r) ''failure_category'') (opt_str (tr_error_type r))) (PStr ''UNKNOWN''))"

definition strategy_entries :: "failure_key \<Rightarrow> string \<Rightarrow> pydict" where
  "strategy_entries k name =
     [(''strategy_change_observed'', PBool True), (''strategy_change_from'', PStr (fst k)),
      (''strategy_change_failure_category'', PStr (fst (snd k))), (''strategy_change_to'', PStr name)]"

text \<open>Failed and successful edits.\<close>

definition failed_edit :: "string \<Rightarrow> pydict \<Rightarrow> tool_result \<Rightarrow> bool \<Rightarrow> pydict \<times> observer \<Rightarrow> pydict \<times> observer" where
  "failed_edit name args r truncated so =
     (case so of (s, ob) \<Rightarrow>
        (let similar = (name, failure_category r, take 512 (py_str (py_or (dict_get args ''path'') (PStr []))));
             (n, t) = (if ob_last ob = Some similar then bounded_increment (ob_similar ob) else (1, False));
             s1 = put ''failure_category'' (PStr (failure_category r)) s;
             s2 = (if n \<ge> 2 then put ''strategy_change_required'' (PBool True) (put ''similar_failure_count'' (PInt (int n)) s1) else s1)
         in (if truncated \<or> t then put ''repeat_count_truncated'' (PBool True) s2 else s2,
             ob\<lparr>ob_similar := n, ob_last := Some similar, ob_edit_pending := True,
                ob_pending := (if n \<ge> 2 then Some similar else ob_pending ob)\<rparr>)))"

definition changed_digests :: "pydict \<Rightarrow> bool" where
  "changed_digests s \<longleftrightarrow>
     py_truthy (dict_get s ''before_sha256'') \<and> py_truthy (dict_get s ''after_sha256'') \<and>
     \<not> py_eq (dict_get s ''before_sha256'') (dict_get s ''after_sha256'')"

definition successful_edit :: "string \<Rightarrow> pydict \<times> observer \<Rightarrow> pydict \<times> observer" where
  "successful_edit name so =
     (case so of (s, ob) \<Rightarrow>
        (let (s1, ob1) =
           (case ob_pending ob of
              None \<Rightarrow> (s, ob\<lparr>ob_last := None, ob_similar := 0\<rparr>)
            | Some k \<Rightarrow> (dict_merge s (strategy_entries k name),
                 ob\<lparr>ob_last := None, ob_similar := 0, ob_pending := None, ob_edit_pending := False\<rparr>))
         in if changed_digests s1 then
              (put ''verification_recommended'' (PBool True) (put ''meaningful_mutation'' (PBool True) s1),
               ob1\<lparr>ob_mutation := Some (ob_calls ob1), ob_inspected := False\<rparr>)
            else (s1, ob1)))"

definition edit_stage :: "string \<Rightarrow> pydict \<Rightarrow> tool_result \<Rightarrow> pydict \<times> observer \<times> bool \<Rightarrow> pydict \<times> observer" where
  "edit_stage name args r sot =
     (case sot of (s, ob, truncated) \<Rightarrow>
        if edit_capability name \<and> tr_status r = Tool_FAILURE then failed_edit name args r truncated (s, ob)
        else if edit_capability name \<and> tr_status r = Tool_SUCCESS then successful_edit name (s, ob)
        else (s, ob\<lparr>ob_last := None, ob_similar := 0\<rparr>))"

text \<open>Looking at the workspace after a failed edit.\<close>

definition recovery_stage :: "string \<Rightarrow> pydict \<times> observer \<Rightarrow> pydict \<times> observer" where
  "recovery_stage name so =
     (case so of (s, ob) \<Rightarrow>
        if \<not> recovery_capability name then (s, ob)
        else
          (let s1 = (if ob_edit_pending ob then put ''after_edit_failure'' (PBool True) s else s);
               s2 = (case ob_pending ob of None \<Rightarrow> s1 | Some k \<Rightarrow> dict_merge s1 (strategy_entries k name))
           in (s2, ob\<lparr>ob_pending := None, ob_edit_pending := False\<rparr>)))"

definition inspection_stage :: "string \<Rightarrow> pydict \<times> observer \<Rightarrow> pydict \<times> observer" where
  "inspection_stage name so =
     (case so of (s, ob) \<Rightarrow>
        (case ob_mutation ob of
           None \<Rightarrow> (s, ob)
         | Some m \<Rightarrow>
             if name \<in> {''workspace.read'', ''workspace.diff''} \<and> ob_calls ob > m then
               (put ''calls_since_mutation'' (PInt (int (ob_calls ob - m))) (put ''post_edit_inspection'' (PBool True) s),
                ob\<lparr>ob_inspected := True\<rparr>)
             else (s, ob)))"

definition verification_stage :: "string \<Rightarrow> pydict \<Rightarrow> tool_result \<Rightarrow> pydict \<times> observer \<Rightarrow> pydict \<times> observer" where
  "verification_stage name args r so =
     (case so of (s, ob) \<Rightarrow>
        if name = ''cli.exec'' \<and> is_pytest_argv args then
          (let verdict = (if tr_status r = Tool_SUCCESS \<and> as_dict (tr_output r) \<noteq> None
                          then (if py_eq (dict_get (output_dict r) ''exit_code'') (PInt 0) then ''PASS'' else ''FAIL'') else ''ERROR'');
               s1 = put ''pytest_observation'' (PStr verdict) (put ''verification_kind'' (PStr ''PYTEST'') s)
           in (case ob_mutation ob of
                 None \<Rightarrow> s1
               | Some m \<Rightarrow> put ''calls_since_mutation'' (PInt (int (ob_calls ob) - int m))
                     (put ''inspection_before_verification'' (PBool (ob_inspected ob)) (put ''post_edit_verification'' (PBool True) s1)), ob))
        else (s, ob))"

definition counts_calls :: "string \<Rightarrow> bool" where
  "counts_calls name \<longleftrightarrow> prefix ''workspace.'' name \<or> name = ''cli.exec''"

definition decorate :: "string \<Rightarrow> pydict \<Rightarrow> tool_result \<Rightarrow> pydict \<Rightarrow> string \<Rightarrow> observer \<Rightarrow> pydict \<times> observer" where
  "decorate name args r summary signature ob =
     (let ob1 = ob\<lparr>ob_calls := ob_calls ob + 1\<rparr>;
          s1 = (if counts_calls name then put ''tool_call_index'' (PInt (int (ob_calls ob1))) summary else summary)
      in verification_stage name args r (inspection_stage name (recovery_stage name
           (edit_stage name args r (exact_stage name r signature (s1, ob1))))))"

section \<open>Persisting the observer\<close>

definition key_list :: "failure_key option \<Rightarrow> pyval" where
  "key_list k = (case k of None \<Rightarrow> PNone | Some (a, b, c) \<Rightarrow> PList [PStr a, PStr b, PStr c])"

definition observer_snapshot :: "observer \<Rightarrow> pydict" where
  "observer_snapshot ob =
     [(''call_index'', PInt (int (min (ob_calls ob) 100000))),
      (''signature_failures'', PList (map (\<lambda>((a, b, c), n).
         PDict [(''capability'', PStr a), (''args_sha256'', PStr b), (''error_type'', PStr c), (''count'', PInt (int n))])
         (take 256 (ob_failures ob)))),
      (''last_similar_failure'', key_list (ob_last ob)),
      (''similar_failure_count'', PInt (int (min (ob_similar ob) 100))),
      (''strategy_pending'', key_list (ob_pending ob)),
      (''edit_failure_pending'', PBool (ob_edit_pending ob)),
      (''last_mutation_call'', (case ob_mutation ob of None \<Rightarrow> PNone | Some m \<Rightarrow> PInt (int m))),
      (''mutation_inspected'', PBool (ob_inspected ob))]"

text \<open>\<open>int(x)\<close> of a number, clamped; other values are outside the states the observer writes.\<close>

definition clamp :: "int \<Rightarrow> int \<Rightarrow> pyval \<Rightarrow> nat option" where
  "clamp lo hi v = map_option (\<lambda>i. nat (max lo (min i hi))) (py_num v)"

definition restored_key :: "pyval \<Rightarrow> failure_key option" where
  "restored_key v =
     (case v of
        PList [a, b, c] \<Rightarrow> Some (take 512 (py_str a), take 512 (py_str b), take 512 (py_str c))
      | _ \<Rightarrow> None)"

definition restored_failure :: "pyval \<Rightarrow> (failure_key \<times> nat) option option" where
  "restored_failure v =
     (case v of
        PDict d \<Rightarrow>
          (let k = (take 128 (py_str (dict_get_or d ''capability'' (PStr []))), take 64 (py_str (dict_get_or d ''args_sha256'' (PStr []))),
                    take 128 (py_str (dict_get_or d ''error_type'' (PStr ''UNKNOWN''))))
           in if fst k \<noteq> [] \<and> length (fst (snd k)) = 64
              then map_option (\<lambda>n. Some (k, n)) (clamp 1 100 (dict_get_or d ''count'' (PInt 1))) else Some None)
      | _ \<Rightarrow> Some None)"

fun restored_failures :: "pyval list \<Rightarrow> (failure_key \<times> nat) list \<Rightarrow> (failure_key \<times> nat) list option" where
  "restored_failures [] acc = Some acc"
| "restored_failures (v # vs) acc =
     (case restored_failure v of
        None \<Rightarrow> None
      | Some None \<Rightarrow> restored_failures vs acc
      | Some (Some (k, n)) \<Rightarrow> restored_failures vs (AList.update k n acc))"

definition restored_call :: "pyval \<Rightarrow> nat option" where
  "restored_call v =
     (case v of PInt i \<Rightarrow> if i \<ge> 0 then Some (nat i) else None | PBool b \<Rightarrow> Some (if b then 1 else 0) | _ \<Rightarrow> None)"

definition observer_restore :: "pyval \<Rightarrow> observer \<Rightarrow> observer option" where
  "observer_restore state ob =
     (case state of
        PDict d \<Rightarrow>
          (case (clamp 0 100000 (dict_get_or d ''call_index'' (PInt 0)),
                 (case py_or (dict_get d ''signature_failures'') (PList []) of
                    PList vs \<Rightarrow> restored_failures (take 256 vs) [] | PDict _ \<Rightarrow> Some [] | PStr _ \<Rightarrow> Some [] | _ \<Rightarrow> None),
                 clamp 0 100 (dict_get_or d ''similar_failure_count'' (PInt 0))) of
             (Some calls, Some failures, Some similar) \<Rightarrow>
               Some \<lparr>ob_calls = calls, ob_failures = failures, ob_last = restored_key (dict_get d ''last_similar_failure''),
                 ob_similar = similar, ob_pending = restored_key (dict_get d ''strategy_pending''),
                 ob_edit_pending = py_truthy (dict_get_or d ''edit_failure_pending'' (PBool False)),
                 ob_mutation = restored_call (dict_get d ''last_mutation_call''),
                 ob_inspected = py_truthy (dict_get_or d ''mutation_inspected'' (PBool False))\<rparr>
           | _ \<Rightarrow> None)
      | _ \<Rightarrow> Some ob)"

section \<open>Histories of calls\<close>

record observed =
  oc_name :: string
  oc_args :: pydict
  oc_result :: tool_result
  oc_summary :: pydict
  oc_signature :: string

definition observe :: "observed \<Rightarrow> observer \<Rightarrow> pydict \<times> observer" where
  "observe c ob = decorate (oc_name c) (oc_args c) (oc_result c) (oc_summary c) (oc_signature c) ob"

definition observe_all :: "observed list \<Rightarrow> observer \<Rightarrow> observer" where
  "observe_all cs ob = fold (\<lambda>c ob. snd (observe c ob)) cs ob"

text \<open>The sizes the callers guarantee: a capability name of a parsed call, a hex digest, an error code.\<close>

definition observed_ok :: "observed \<Rightarrow> bool" where
  "observed_ok c \<longleftrightarrow> oc_name c \<noteq> [] \<and> length (oc_name c) \<le> 128 \<and> length (oc_signature c) = 64 \<and>
     length (failure_text (oc_result c)) \<le> 128 \<and> length (failure_category (oc_result c)) \<le> 512"

definition key_ok :: "nat \<Rightarrow> failure_key \<Rightarrow> bool" where
  "key_ok n k = (case k of (a, b, c) \<Rightarrow> length a \<le> n \<and> length b \<le> n \<and> length c \<le> n)"

definition failure_ok :: "failure_key \<times> nat \<Rightarrow> bool" where
  "failure_ok e = (case e of ((a, b, c), n) \<Rightarrow> a \<noteq> [] \<and> length a \<le> 128 \<and> length b = 64 \<and> length c \<le> 128 \<and> 1 \<le> n \<and> n \<le> 100)"

definition observer_ok :: "observer \<Rightarrow> bool" where
  "observer_ok ob \<longleftrightarrow>
     distinct (map fst (ob_failures ob)) \<and> length (ob_failures ob) \<le> 256 \<and> list_all failure_ok (ob_failures ob) \<and>
     ob_similar ob \<le> 100 \<and> pred_option (key_ok 512) (ob_last ob) \<and> pred_option (key_ok 512) (ob_pending ob)"

lemma observer_ok_update [simp]:
  "observer_ok (ob\<lparr>ob_calls := n\<rparr>) = observer_ok ob" "observer_ok (ob\<lparr>ob_edit_pending := b\<rparr>) = observer_ok ob"
  "observer_ok (ob\<lparr>ob_mutation := m\<rparr>) = observer_ok ob" "observer_ok (ob\<lparr>ob_inspected := b\<rparr>) = observer_ok ob"
  by (simp_all add: observer_ok_def)

lemma observer_ok_clear [simp]:
  "observer_ok ob \<Longrightarrow> observer_ok (ob\<lparr>ob_last := None\<rparr>)" "observer_ok ob \<Longrightarrow> observer_ok (ob\<lparr>ob_similar := 0\<rparr>)"
  "observer_ok ob \<Longrightarrow> observer_ok (ob\<lparr>ob_pending := None\<rparr>)"
  by (simp_all add: observer_ok_def)

lemma list_all_update:
  "list_all P d \<Longrightarrow> P (k, v) \<Longrightarrow> list_all P (AList.update k v d)"
  by (induction d) auto

lemma length_update: "length (AList.update k v d) = (if map_of d k = None then Suc (length d) else length d)"
  by (induction d) auto

lemma count_failure_ok:
  assumes "observer_ok ob" and "failure_ok (k, 1)" and "count_failure k ob = (n, t, ob')"
  shows "observer_ok ob' \<and> ob_calls ob' = ob_calls ob"
proof (cases "map_of (ob_failures ob) k")
  case None
  then show ?thesis using assms
    by (auto simp: count_failure_def observer_ok_def distinct_update list_all_update length_update split: if_splits)
next
  case (Some m)
  then have "failure_ok (k, m)" using assms(1) by (auto simp: observer_ok_def list_all_iff dest: map_of_SomeD)
  then have "failure_ok (k, min (m + 1) 100)" using assms(2) by (auto simp: failure_ok_def)
  with Some assms show ?thesis
    by (auto simp: count_failure_def bounded_increment_def observer_ok_def distinct_update list_all_update length_update)
qed

lemma exact_stage_ok:
  assumes "observer_ok ob" and "failure_ok ((name, signature, failure_text r), 1)" and "exact_stage name r signature (s, ob) = (s', ob', t)"
  shows "observer_ok ob' \<and> ob_calls ob' = ob_calls ob"
  using assms count_failure_ok[OF assms(1,2)] by (auto simp: exact_stage_def Let_def split: if_splits prod.splits)

lemma edit_stage_ok:
  assumes "observer_ok ob" and "length name \<le> 512" and "length (failure_category r) \<le> 512" and "edit_stage name args r (s, ob, t) = (s', ob')"
  shows "observer_ok ob' \<and> ob_calls ob' = ob_calls ob"
proof -
  have f: "observer_ok (snd (failed_edit name args r t (s, ob))) \<and> ob_calls (snd (failed_edit name args r t (s, ob))) = ob_calls ob"
    using assms(1-3) by (auto simp: failed_edit_def Let_def split_beta bounded_increment_def observer_ok_def key_ok_def)
  have g: "observer_ok (snd (successful_edit name (s, ob))) \<and> ob_calls (snd (successful_edit name (s, ob))) = ob_calls ob"
    using assms(1) by (auto simp: successful_edit_def Let_def split: option.split)
  show ?thesis using f g assms(1,4) by (auto simp: edit_stage_def split: if_splits)
qed

lemma later_stages_ok:
  assumes "observer_ok ob"
  shows "observer_ok (snd (recovery_stage name (s, ob)))" "ob_calls (snd (recovery_stage name (s, ob))) = ob_calls ob"
    "observer_ok (snd (inspection_stage name (s, ob)))" "ob_calls (snd (inspection_stage name (s, ob))) = ob_calls ob"
    "snd (verification_stage name args r (s, ob)) = ob"
  using assms by (auto simp: recovery_stage_def inspection_stage_def verification_stage_def Let_def split: option.split)

lemma observe_ok:
  assumes "observer_ok ob" and "observed_ok c"
  shows "observer_ok (snd (observe c ob)) \<and> ob_calls (snd (observe c ob)) = Suc (ob_calls ob)"
proof -
  let ?n = "oc_name c" and ?r = "oc_result c" and ?ob = "ob\<lparr>ob_calls := ob_calls ob + 1\<rparr>"
  obtain s1 where s1: "observe c ob = verification_stage ?n (oc_args c) ?r (inspection_stage ?n (recovery_stage ?n
      (edit_stage ?n (oc_args c) ?r (exact_stage ?n ?r (oc_signature c) (s1, ?ob)))))"
    by (simp add: observe_def decorate_def Let_def)
  obtain s2 ob2 t where e: "exact_stage ?n ?r (oc_signature c) (s1, ?ob) = (s2, ob2, t)" by (metis prod_cases3)
  have "failure_ok ((?n, oc_signature c, failure_text ?r), 1)" using assms(2) by (simp add: observed_ok_def failure_ok_def)
  from exact_stage_ok[OF _ this e] assms(1) have ob2: "observer_ok ob2" "ob_calls ob2 = Suc (ob_calls ob)" by simp_all
  obtain s3 ob3 where f: "edit_stage ?n (oc_args c) ?r (s2, ob2, t) = (s3, ob3)" by fastforce
  from edit_stage_ok[OF ob2(1) _ _ f] assms(2) ob2(2) have ob3: "observer_ok ob3" "ob_calls ob3 = Suc (ob_calls ob)"
    by (simp_all add: observed_ok_def)
  obtain s4 ob4 where g: "recovery_stage ?n (s3, ob3) = (s4, ob4)" by fastforce
  with later_stages_ok(1,2)[OF ob3(1), of ?n s3] ob3(2) have ob4: "observer_ok ob4" "ob_calls ob4 = Suc (ob_calls ob)" by simp_all
  obtain s5 ob5 where h: "inspection_stage ?n (s4, ob4) = (s5, ob5)" by fastforce
  with later_stages_ok(3,4)[OF ob4(1), of ?n s4] ob4(2) have ob5: "observer_ok ob5" "ob_calls ob5 = Suc (ob_calls ob)" by simp_all
  show ?thesis using ob5 later_stages_ok(5)[OF ob5(1)] unfolding s1 e f g h by simp
qed

lemma observe_all_ok:
  assumes "\<forall>c\<in>set cs. observed_ok c" and "observer_ok ob"
  shows "observer_ok (observe_all cs ob) \<and> ob_calls (observe_all cs ob) = ob_calls ob + length cs"
  using assms
proof (induction cs arbitrary: ob)
  case (Cons c cs)
  from observe_ok[OF Cons.prems(2), of c] Cons.prems(1) Cons.IH[of "snd (observe c ob)"] show ?case
    by (simp add: observe_all_def)
qed (simp add: observe_all_def)

section \<open>The round trip\<close>

lemma update_new: "k \<notin> fst ` set d \<Longrightarrow> AList.update k v d = d @ [(k, v)]"
  by (induction d) auto

abbreviation failure_dump :: "failure_key \<times> nat \<Rightarrow> pyval" where
  "failure_dump \<equiv> \<lambda>((a, b, c), n).
     PDict [(''capability'', PStr a), (''args_sha256'', PStr b), (''error_type'', PStr c), (''count'', PInt (int n))]"

lemma restored_failure_dump: "failure_ok e \<Longrightarrow> restored_failure (failure_dump e) = Some (Some e)"
  by (cases e) (auto simp: failure_ok_def restored_failure_def dict_get_or_def clamp_def Let_def)

lemma restored_failures_dump:
  "list_all failure_ok fs \<Longrightarrow> distinct (map fst (acc @ fs)) \<Longrightarrow> restored_failures (map failure_dump fs) acc = Some (acc @ fs)"
proof (induction fs arbitrary: acc)
  case (Cons e fs)
  obtain k n where e: "e = (k, n)" by fastforce
  have "restored_failure (failure_dump e) = Some (Some (k, n))" using Cons.prems(1) restored_failure_dump[of e] by (simp add: e)
  moreover have "AList.update k n acc = acc @ [e]" using Cons.prems(2) by (simp add: e update_new)
  moreover have "restored_failures (map failure_dump fs) (acc @ [e]) = Some ((acc @ [e]) @ fs)"
    using Cons.prems by (intro Cons.IH) auto
  ultimately show ?case by (simp only: list.map restored_failures.simps option.case prod.case) simp
qed simp

lemma restored_key_list: "pred_option (key_ok 512) k \<Longrightarrow> restored_key (key_list k) = k"
  by (cases k) (auto simp: key_list_def restored_key_def key_ok_def split: prod.splits)

lemma observer_restore_snapshot:
  assumes "observer_ok ob" and "ob_calls ob \<le> 100000"
  shows "observer_restore (PDict (observer_snapshot ob)) old = Some ob"
proof -
  have f: "restored_failures (map failure_dump (ob_failures ob)) [] = Some (ob_failures ob)"
    using assms(1) restored_failures_dump[of "ob_failures ob" "[]"] by (simp add: observer_ok_def)
  have t: "take 256 (ob_failures ob) = ob_failures ob" using assms(1) by (simp add: observer_ok_def)
  have k: "restored_key (key_list (ob_last ob)) = ob_last ob" "restored_key (key_list (ob_pending ob)) = ob_pending ob"
    using assms(1) restored_key_list by (auto simp: observer_ok_def)
  have c: "clamp 0 100000 (PInt (int (min (ob_calls ob) 100000))) = Some (ob_calls ob)"
      "clamp 0 100 (PInt (int (min (ob_similar ob) 100))) = Some (ob_similar ob)"
    using assms by (auto simp: clamp_def observer_ok_def)
  have m: "restored_call (case ob_mutation ob of None \<Rightarrow> PNone | Some m \<Rightarrow> PInt (int m)) = ob_mutation ob"
    by (cases "ob_mutation ob") (simp_all add: restored_call_def)
  have l: "(case py_or (PList (map failure_dump (ob_failures ob))) (PList []) of
      PList vs \<Rightarrow> restored_failures (take 256 vs) [] | PDict _ \<Rightarrow> Some [] | PStr _ \<Rightarrow> Some [] | _ \<Rightarrow> None) = Some (ob_failures ob)"
    using f t by (simp add: py_or_def take_map)
  show ?thesis
    by (simp add: observer_restore_def observer_snapshot_def dict_get_or_def dict_get_def t k c m l del: restored_failures.simps)
qed

text \<open>A restart does not change what the observer knows. After any history of at most 100000 calls
  with bounded names, digests and error codes, restoring the dict the kernel persists gives the
  observer back exactly, whatever observer it is restored into.\<close>

theorem observer_survives_restart:
  assumes "\<forall>c\<in>set cs. observed_ok c" and "length cs \<le> 100000"
  shows "observer_restore (PDict (observer_snapshot (observe_all cs new_observer))) old = Some (observe_all cs new_observer)"
proof -
  have "observer_ok new_observer" by (simp add: observer_ok_def new_observer_def)
  from observe_all_ok[OF assms(1) this] assms(2) show ?thesis
    by (intro observer_restore_snapshot) (simp_all add: new_observer_def)
qed

definition sample_call :: "string \<Rightarrow> tool_status \<Rightarrow> pydict \<Rightarrow> observed" where
  "sample_call name st summary =
     \<lparr>oc_name = name, oc_args = [(''path'', PStr ''a.py'')], oc_result = sample_result\<lparr>tr_status := st, tr_error_type := Some ''E''\<rparr>,
      oc_summary = summary, oc_signature = replicate 64 (CHR ''0'')\<rparr>"

lemma sample_call_ok: "name \<noteq> [] \<Longrightarrow> length name \<le> 128 \<Longrightarrow> observed_ok (sample_call name st summary)"
  by (simp add: observed_ok_def sample_call_def failure_text_def failure_category_def or_str_def py_or_def opt_str_def dict_get_def
    sample_result_def)

theorem observer_survives_restart_witness:
  "let cs = [sample_call ''workspace.edit'' Tool_FAILURE [], sample_call ''workspace.edit'' Tool_FAILURE []]
   in observer_restore (PDict (observer_snapshot (observe_all cs new_observer))) new_observer = Some (observe_all cs new_observer) \<and>
      ob_similar (observe_all cs new_observer) = 2"
proof -
  let ?cs = "[sample_call ''workspace.edit'' Tool_FAILURE [], sample_call ''workspace.edit'' Tool_FAILURE []]"
  have "ob_similar (observe_all ?cs new_observer) = 2" by code_simp
  moreover have "\<forall>c\<in>set ?cs. observed_ok c" by (simp add: sample_call_ok)
  ultimately show ?thesis using observer_survives_restart[of ?cs new_observer] by (simp add: Let_def)
qed

section \<open>Repeated failures\<close>

definition failed_call :: "observed \<Rightarrow> bool" where
  "failed_call c \<longleftrightarrow> tr_status (oc_result c) = Tool_FAILURE"

definition failing_key :: "observed \<Rightarrow> failure_key" where
  "failing_key c = (oc_name c, oc_signature c, failure_text (oc_result c))"

definition failing_keys :: "observed list \<Rightarrow> failure_key set" where
  "failing_keys cs = failing_key ` {c \<in> set cs. failed_call c}"

definition repeats :: "failure_key \<Rightarrow> observed list \<Rightarrow> nat" where
  "repeats k cs = length [c \<leftarrow> cs. failed_call c \<and> failing_key c = k]"

lemma edit_stage_failures: "ob_failures (snd (edit_stage name args r (s, ob, t))) = ob_failures ob"
  by (auto simp: edit_stage_def failed_edit_def successful_edit_def Let_def split_beta split: option.split)

lemma later_failures:
  "ob_failures (snd (recovery_stage name (s, ob))) = ob_failures ob"
  "ob_failures (snd (inspection_stage name (s, ob))) = ob_failures ob"
  "ob_failures (snd (verification_stage name args r (s, ob))) = ob_failures ob"
  by (auto simp: recovery_stage_def inspection_stage_def verification_stage_def Let_def split: option.split)

lemma observe_failures:
  "ob_failures (snd (observe c ob)) =
     (if failed_call c then ob_failures (snd (snd (count_failure (failing_key c) ob))) else ob_failures ob)"
proof -
  let ?n = "oc_name c" and ?r = "oc_result c" and ?ob = "ob\<lparr>ob_calls := ob_calls ob + 1\<rparr>"
  obtain s1 where s1: "observe c ob = verification_stage ?n (oc_args c) ?r (inspection_stage ?n (recovery_stage ?n
      (edit_stage ?n (oc_args c) ?r (exact_stage ?n ?r (oc_signature c) (s1, ?ob)))))"
    by (simp add: observe_def decorate_def Let_def)
  have pair: "f (s, ob) = (fst (f (s, ob)), snd (f (s, ob)))" for f :: "pydict \<times> observer \<Rightarrow> pydict \<times> observer" and s ob by simp
  obtain s2 ob2 t where e: "exact_stage ?n ?r (oc_signature c) (s1, ?ob) = (s2, ob2, t)" by (metis prod_cases3)
  obtain s3 ob3 where f: "edit_stage ?n (oc_args c) ?r (s2, ob2, t) = (s3, ob3)" by fastforce
  obtain s4 ob4 where g: "recovery_stage ?n (s3, ob3) = (s4, ob4)" by fastforce
  obtain s5 ob5 where h: "inspection_stage ?n (s4, ob4) = (s5, ob5)" by fastforce
  have "ob_failures (snd (observe c ob)) = ob_failures ob2"
    unfolding s1 e f g h using edit_stage_failures[of ?n "oc_args c" ?r s2 ob2 t] later_failures(1)[of ?n s3 ob3]
      later_failures(2)[of ?n s4 ob4] later_failures(3)[of ?n "oc_args c" ?r s5 ob5] by (simp add: f g h)
  moreover have "ob_failures ob2 = (if failed_call c then ob_failures (snd (snd (count_failure (failing_key c) ob))) else ob_failures ob)"
    using e by (auto simp: exact_stage_def failed_call_def failing_key_def count_failure_def bounded_increment_def Let_def split: if_splits option.splits)
  ultimately show ?thesis by simp
qed

text \<open>The counters count, as long as there is room for the keys.\<close>

definition counts :: "observed list \<Rightarrow> observer \<Rightarrow> bool" where
  "counts cs ob \<longleftrightarrow>
     fst ` set (ob_failures ob) = failing_keys cs \<and> distinct (map fst (ob_failures ob)) \<and>
     (\<forall>k. map_of (ob_failures ob) k = (if repeats k cs = 0 then None else Some (min 100 (repeats k cs))))"

lemma counts_lookup:
  assumes "counts cs ob"
  shows "map_of (ob_failures ob) k = (if repeats k cs = 0 then None else Some (min 100 (repeats k cs)))"
  using assms unfolding counts_def by blast

lemma countsI:
  assumes "fst ` set (ob_failures ob) = failing_keys cs" and "distinct (map fst (ob_failures ob))"
    and "\<And>k. map_of (ob_failures ob) k = (if repeats k cs = 0 then None else Some (min 100 (repeats k cs)))"
  shows "counts cs ob"
  using assms unfolding counts_def by blast

lemma repeats_snoc: "repeats k (cs @ [c]) = repeats k cs + (if failed_call c \<and> failing_key c = k then 1 else 0)"
  by (simp add: repeats_def)

lemma failing_keys_snoc: "failing_keys (cs @ [c]) = (if failed_call c then insert (failing_key c) (failing_keys cs) else failing_keys cs)"
  by (auto simp: failing_keys_def)

lemma finite_failing_keys: "finite (failing_keys cs)"
  by (simp add: failing_keys_def)

lemma counts_observe:
  assumes "counts cs ob" and "card (failing_keys (cs @ [c])) \<le> 256"
  shows "counts (cs @ [c]) (snd (observe c ob))"
proof (cases "failed_call c")
  case True
  let ?k = "failing_key c" and ?n = "repeats (failing_key c) cs"
  have keys: "fst ` set (ob_failures ob) = failing_keys cs" "distinct (map fst (ob_failures ob))"
    using assms(1) by (auto simp: counts_def)
  have size: "card (failing_keys cs) = length (ob_failures ob)"
    using keys by (metis distinct_card length_map set_map)
  have room: "length (ob_failures ob) < 256" if "?n = 0"
  proof -
    have "?k \<notin> failing_keys cs"
      using counts_lookup[OF assms(1), of ?k] that keys(1) by (simp add: map_of_eq_None_iff)
    with assms(2) True size finite_failing_keys[of cs] show ?thesis by (simp add: failing_keys_snoc)
  qed
  have cap: "min (min 100 m) 99 = min 99 m" for m :: nat by simp
  have new: "ob_failures (snd (observe c ob)) = AList.update ?k (min 100 (?n + 1)) (ob_failures ob)"
    using room counts_lookup[OF assms(1), of ?k] True
    by (cases "?n = 0") (simp_all add: observe_failures count_failure_def bounded_increment_def cap)
  show ?thesis
    using keys True counts_lookup[OF assms(1)]
    by (intro countsI) (simp_all add: new failing_keys_snoc repeats_snoc distinct_update dom_update)
next
  case False
  with assms(1) show ?thesis
    by (intro countsI) (auto simp: counts_def observe_failures repeats_snoc failing_keys_snoc counts_lookup[OF assms(1)])
qed

lemma observe_all_counts:
  "card (failing_keys cs) \<le> 256 \<Longrightarrow> counts cs (observe_all cs new_observer)"
proof (induction cs rule: rev_induct)
  case (snoc c cs)
  have "card (failing_keys cs) \<le> card (failing_keys (cs @ [c]))"
    by (intro card_mono finite_failing_keys) (auto simp: failing_keys_snoc)
  with snoc have "counts cs (observe_all cs new_observer)" by simp
  from counts_observe[OF this snoc.prems] show ?case by (simp add: observe_all_def)
qed (simp add: counts_def observe_all_def new_observer_def failing_keys_def repeats_def)

text \<open>No later stage of a call that is not an edit touches the demand for another strategy.\<close>

lemma strategy_entries_other: "map_of (dict_merge s (strategy_entries k name)) ''strategy_change_required'' = map_of s ''strategy_change_required''"
  by (simp add: dict_merge_def strategy_entries_def)

lemma later_demand:
  "map_of (fst (recovery_stage name (s, ob))) ''strategy_change_required'' = map_of s ''strategy_change_required''"
  "map_of (fst (inspection_stage name (s, ob))) ''strategy_change_required'' = map_of s ''strategy_change_required''"
  "map_of (fst (verification_stage name args r (s, ob))) ''strategy_change_required'' = map_of s ''strategy_change_required''"
  by (auto simp: recovery_stage_def inspection_stage_def verification_stage_def Let_def put_def strategy_entries_other split: option.split)

lemma observe_demand:
  assumes "\<not> edit_capability (oc_name c)"
  shows "map_of (fst (observe c ob)) ''strategy_change_required'' =
    (if failed_call c \<and> fst (count_failure (failing_key c) ob) \<ge> 2 then Some (PBool True) else map_of (oc_summary c) ''strategy_change_required'')"
proof -
  let ?n = "oc_name c" and ?r = "oc_result c" and ?ob = "ob\<lparr>ob_calls := ob_calls ob + 1\<rparr>"
  let ?s1 = "if counts_calls ?n then put ''tool_call_index'' (PInt (int (ob_calls ?ob))) (oc_summary c) else oc_summary c"
  have s1: "observe c ob = verification_stage ?n (oc_args c) ?r (inspection_stage ?n (recovery_stage ?n
      (edit_stage ?n (oc_args c) ?r (exact_stage ?n ?r (oc_signature c) (?s1, ?ob)))))"
    by (simp add: observe_def decorate_def Let_def)
  obtain s2 ob2 t where e: "exact_stage ?n ?r (oc_signature c) (?s1, ?ob) = (s2, ob2, t)" by (metis prod_cases3)
  have f: "edit_stage ?n (oc_args c) ?r (s2, ob2, t) = (s2, ob2\<lparr>ob_last := None, ob_similar := 0\<rparr>)"
    using assms by (simp add: edit_stage_def)
  obtain s4 ob4 where g: "recovery_stage ?n (s2, ob2\<lparr>ob_last := None, ob_similar := 0\<rparr>) = (s4, ob4)" by fastforce
  obtain s5 ob5 where h: "inspection_stage ?n (s4, ob4) = (s5, ob5)" by fastforce
  have "map_of (fst (observe c ob)) ''strategy_change_required'' = map_of s2 ''strategy_change_required''"
    unfolding s1 e f g h
    using later_demand(1)[of ?n s2 "ob2\<lparr>ob_last := None, ob_similar := 0\<rparr>"] later_demand(2)[of ?n s4 ob4]
      later_demand(3)[of ?n "oc_args c" ?r s5 ob5] by (simp add: g h)
  moreover have "map_of s2 ''strategy_change_required'' =
    (if failed_call c \<and> fst (count_failure (failing_key c) ob) \<ge> 2 then Some (PBool True) else map_of (oc_summary c) ''strategy_change_required'')"
    using e by (auto simp: exact_stage_def failed_call_def failing_key_def count_failure_def bounded_increment_def Let_def put_def
      split: if_splits option.splits)
  ultimately show ?thesis by simp
qed

text \<open>The second identical failure asks for another strategy. For a failing call that is not an edit,
  after any history with at most 256 different failing calls, the observation demands a change
  of strategy exactly when the same call, with the same arguments, failed the same way before,
  however many other calls came between.\<close>

theorem identical_failure_demands_change:
  assumes "failed_call c" and "\<not> edit_capability (oc_name c)" and "card (failing_keys cs) \<le> 256"
    and "\<not> has_key (oc_summary c) ''strategy_change_required''"
  shows "has_key (fst (observe c (observe_all cs new_observer))) ''strategy_change_required'' \<longleftrightarrow>
    (\<exists>d\<in>set cs. failed_call d \<and> failing_key d = failing_key c)"
proof -
  let ?ob = "observe_all cs new_observer"
  have m: "map_of (ob_failures ?ob) (failing_key c) =
      (if repeats (failing_key c) cs = 0 then None else Some (min 100 (repeats (failing_key c) cs)))"
    by (rule counts_lookup[OF observe_all_counts[OF assms(3)]])
  then have "fst (count_failure (failing_key c) ?ob) \<ge> 2 \<longleftrightarrow> repeats (failing_key c) cs \<noteq> 0"
    by (auto simp: count_failure_def bounded_increment_def Let_def)
  moreover have "repeats (failing_key c) cs \<noteq> 0 \<longleftrightarrow> (\<exists>d\<in>set cs. failed_call d \<and> failing_key d = failing_key c)"
    by (auto simp: repeats_def filter_empty_conv)
  ultimately show ?thesis using observe_demand[OF assms(2), of ?ob] assms(1,4) by (auto simp: has_key_def)
qed

theorem identical_failure_demands_change_witness:
  "has_key (fst (observe (sample_call ''cli.exec'' Tool_FAILURE [])
      (observe_all [sample_call ''cli.exec'' Tool_FAILURE [], sample_call ''workspace.read'' Tool_SUCCESS []] new_observer)))
     ''strategy_change_required''"
proof -
  let ?c = "sample_call ''cli.exec'' Tool_FAILURE []" and ?d = "sample_call ''workspace.read'' Tool_SUCCESS []"
  have "card (failing_keys [?c, ?d]) \<le> card (failing_key ` set [?c, ?d])"
    by (intro card_mono) (auto simp: failing_keys_def)
  also have "\<dots> \<le> 2" by (rule order_trans[OF card_image_le]) (auto simp: card_insert_if)
  finally have "card (failing_keys [?c, ?d]) \<le> 256" by simp
  then show ?thesis
    by (subst identical_failure_demands_change) (simp_all add: failed_call_def edit_capability_def has_key_def sample_call_def)
qed

end
