(* ===== verification/Parser.thy ===== *)
theory Parser imports Prelude begin

text \<open>
  \<open>src/lhas/native/parser.py\<close> (\<open>ModelResponseParser.parse\<close>) with the response types of
  \<open>native/models.py\<close>: what a provider returned, as the loop sees it.

  \<^item> A pydantic object among the provider's values is the dict of its \<open>model_dump\<close>.
  \<^item> \<open>json.loads\<close> is a parameter. Besides the parser's own error codes a response can fail the
    bounds of the response types; that exception is \<open>Validation_error\<close>.
\<close>

section \<open>Responses\<close>

record tool_call =
  tc_id :: string
  tc_name :: string
  tc_arguments :: pydict

record provider_response =
  pr_content :: string
  pr_calls :: "tool_call list"
  pr_claim :: bool
  pr_usage :: pydict
  pr_metadata :: pydict

datatype parse_error =
    PROVIDER_RESPONSE_NOT_OBJECT | PROVIDER_RESPONSE_MISSING_MESSAGE | PROVIDER_MESSAGE_NOT_OBJECT | PROVIDER_CONTENT_INVALID
  | PROVIDER_TOOL_CALLS_INVALID | PROVIDER_TOOL_CALL_INVALID | PROVIDER_TOOL_FUNCTION_INVALID | PROVIDER_TOOL_ARGUMENTS_INVALID
  | Validation_error

text \<open>What \<open>ModelResponseError\<close> covers.\<close>

definition model_response_error :: "parse_error \<Rightarrow> bool" where
  "model_response_error e \<longleftrightarrow> e \<noteq> Validation_error"

text \<open>The field bounds of a call and of a response.\<close>

definition call_valid :: "tool_call \<Rightarrow> bool" where
  "call_valid c \<longleftrightarrow> tc_id c \<noteq> [] \<and> length (tc_id c) \<le> 128 \<and> tc_name c \<noteq> [] \<and> length (tc_name c) \<le> 128"

definition response_valid :: "provider_response \<Rightarrow> bool" where
  "response_valid r \<longleftrightarrow> length (pr_content r) \<le> 40000 \<and> length (pr_calls r) \<le> 64"

datatype provider_value = Native_response provider_response | Raw_value pyval

section \<open>Parsing\<close>

definition choice_message :: "pyval \<Rightarrow> pyval option" where
  "choice_message choices =
     (case choices of PList (PDict m # _) \<Rightarrow> map_of m ''message'' | _ \<Rightarrow> None)"

definition response_message :: "pydict \<Rightarrow> pyval option" where
  "response_message v =
     (case map_of v ''choices'' of
        Some choices \<Rightarrow> choice_message choices
      | None \<Rightarrow> Some (dict_get_or v ''message'' (PDict v)))"

definition response_metadata :: "pydict \<Rightarrow> pyval" where
  "response_metadata v =
     (if has_key v ''choices'' then PDict [(''provider_response_id'', PStr (take 128 (py_str (py_or (dict_get v ''id'') (PStr [])))))]
      else py_or (dict_get v ''metadata'') (PDict []))"

definition content_part :: "pyval \<Rightarrow> string" where
  "content_part item = (case item of PDict d \<Rightarrow> py_str (dict_get_or d ''text'' (PStr [])) | v \<Rightarrow> py_str v)"

definition response_content :: "pydict \<Rightarrow> string option" where
  "response_content m =
     (case py_or (dict_get m ''content'') (PStr []) of
        PList items \<Rightarrow> Some (concat (map content_part items))
      | PStr s \<Rightarrow> Some s
      | _ \<Rightarrow> None)"

definition call_arguments :: "(string \<Rightarrow> pyval option) \<Rightarrow> pydict \<Rightarrow> pydict option" where
  "call_arguments json f =
     (case dict_get_or f ''arguments'' (PDict []) of
        PStr s \<Rightarrow> Option.bind (json s) as_dict
      | PDict d \<Rightarrow> Some d
      | _ \<Rightarrow> None)"

definition parse_call :: "(string \<Rightarrow> pyval option) \<Rightarrow> nat \<Rightarrow> pyval \<Rightarrow> parse_error + tool_call" where
  "parse_call json index raw =
     (case raw of
        PDict r \<Rightarrow>
          (case py_or (dict_get r ''function'') (PDict r) of
             PDict f \<Rightarrow>
               if \<not> py_truthy (dict_get f ''name'') then Inl PROVIDER_TOOL_FUNCTION_INVALID
               else
                 (case call_arguments json f of
                    None \<Rightarrow> Inl PROVIDER_TOOL_ARGUMENTS_INVALID
                  | Some args \<Rightarrow>
                      (let c = \<lparr>tc_id = py_str (py_or (dict_get r ''id'') (PStr (''provider-call-'' @ nat_digits (index + 1)))),
                                tc_name = py_str (dict_get f ''name''), tc_arguments = args\<rparr>
                       in if call_valid c then Inr c else Inl Validation_error))
           | _ \<Rightarrow> Inl PROVIDER_TOOL_FUNCTION_INVALID)
      | _ \<Rightarrow> Inl PROVIDER_TOOL_CALL_INVALID)"

fun parse_calls :: "(string \<Rightarrow> pyval option) \<Rightarrow> nat \<Rightarrow> pyval list \<Rightarrow> parse_error + tool_call list" where
  "parse_calls json index [] = Inr []"
| "parse_calls json index (raw # raws) =
     (case parse_call json index raw of
        Inl e \<Rightarrow> Inl e
      | Inr c \<Rightarrow> (case parse_calls json (index + 1) raws of Inl e \<Rightarrow> Inl e | Inr cs \<Rightarrow> Inr (c # cs)))"

definition explicit_claim :: "pydict \<Rightarrow> pydict \<Rightarrow> bool" where
  "explicit_claim v m = py_truthy (dict_get_or v ''completion_claim'' (dict_get_or m ''completion_claim'' (PBool False)))"

definition or_empty :: "pyval \<Rightarrow> pydict" where
  "or_empty v = (case v of PDict d \<Rightarrow> d | _ \<Rightarrow> [])"

definition parse_message :: "(string \<Rightarrow> pyval option) \<Rightarrow> pydict \<Rightarrow> pydict \<Rightarrow> parse_error + provider_response" where
  "parse_message json v m =
     (case response_content m of
        None \<Rightarrow> Inl PROVIDER_CONTENT_INVALID
      | Some content \<Rightarrow>
          (case py_or (py_or (dict_get m ''tool_calls'') (dict_get v ''tool_calls'')) (PList []) of
             PList raws \<Rightarrow>
               (case parse_calls json 0 raws of
                  Inl e \<Rightarrow> Inl e
                | Inr calls \<Rightarrow>
                    (let r = \<lparr>pr_content = take 40000 content, pr_calls = calls,
                              pr_claim = (explicit_claim v m \<or> (strip content \<noteq> [] \<and> calls = [])),
                              pr_usage = or_empty (py_or (dict_get v ''usage'') (PDict [])),
                              pr_metadata = or_empty (response_metadata v)\<rparr>
                     in if response_valid r then Inr r else Inl Validation_error))
           | _ \<Rightarrow> Inl PROVIDER_TOOL_CALLS_INVALID))"

definition parse_response :: "(string \<Rightarrow> pyval option) \<Rightarrow> provider_value \<Rightarrow> parse_error + provider_response" where
  "parse_response json value =
     (case value of
        Native_response r \<Rightarrow> Inr r
      | Raw_value (PDict v) \<Rightarrow>
          (case response_message v of
             None \<Rightarrow> Inl PROVIDER_RESPONSE_MISSING_MESSAGE
           | Some (PDict m) \<Rightarrow> parse_message json v m
           | Some _ \<Rightarrow> Inl PROVIDER_MESSAGE_NOT_OBJECT)
      | Raw_value _ \<Rightarrow> Inl PROVIDER_RESPONSE_NOT_OBJECT)"

section \<open>Lemmas\<close>

lemma parse_call_Inr:
  assumes "parse_call json i raw = Inr c"
  obtains r where "raw = PDict r" "call_valid c" "tc_id c = py_str (py_or (dict_get r ''id'') (PStr (''provider-call-'' @ nat_digits (i + 1))))"
  using assms by (cases raw) (auto simp: parse_call_def Let_def split: pyval.splits if_splits option.splits)

lemma parse_calls_nth:
  "parse_calls json i raws = Inr cs \<Longrightarrow> k < length raws \<Longrightarrow> parse_call json (i + k) (raws ! k) = Inr (cs ! k)"
proof (induction json i raws arbitrary: cs k rule: parse_calls.induct)
  case (2 json i raw raws)
  then obtain c cs' where c: "parse_call json i raw = Inr c" "parse_calls json (i + 1) raws = Inr cs'" "cs = c # cs'"
    by (auto split: sum.splits)
  with "2.IH"[of c cs' "k - 1"] "2.prems"(2) show ?case by (cases k) simp_all
qed simp

lemma parse_calls_all:
  "parse_calls json i raws = Inr cs \<Longrightarrow> list_all call_valid cs \<and> length cs = length raws"
proof (induction json i raws arbitrary: cs rule: parse_calls.induct)
  case (2 json i raw raws)
  then obtain c cs' where c: "parse_call json i raw = Inr c" "parse_calls json (i + 1) raws = Inr cs'" "cs = c # cs'"
    by (auto split: sum.splits)
  with "2.IH"[of c cs'] show ?case by (auto elim: parse_call_Inr)
qed simp

lemma parse_raw_Inr:
  assumes "parse_response json (Raw_value w) = Inr r"
  obtains v m content raws where "w = PDict v" "response_message v = Some (PDict m)" "response_content m = Some content"
    "parse_calls json 0 raws = Inr (pr_calls r)" "pr_content r = take 40000 content" "response_valid r"
    "pr_claim r \<longleftrightarrow> explicit_claim v m \<or> (strip content \<noteq> [] \<and> pr_calls r = [])"
  using assms
  by (auto simp: parse_response_def parse_message_def Let_def split: pyval.splits option.splits sum.splits if_splits)

text \<open>A response the parser returns is well typed: at most 40000 characters of content, at most 64
  calls, every call with a name and an id of 1 to 128 characters; and it claims completion
  without saying so explicitly only when it has text and no calls.\<close>

theorem parsed_response_typed:
  assumes "parse_response json (Raw_value w) = Inr r"
  shows "length (pr_content r) \<le> 40000 \<and> length (pr_calls r) \<le> 64 \<and> list_all call_valid (pr_calls r) \<and>
    (pr_claim r \<longrightarrow> pr_calls r = [] \<or> (\<exists>v m. w = PDict v \<and> response_message v = Some (PDict m) \<and> explicit_claim v m))"
  using assms by (rule parse_raw_Inr) (auto simp: response_valid_def dest: parse_calls_all)

definition sample_call_value :: "string \<Rightarrow> pyval" where
  "sample_call_value name = PDict [(''function'', PDict [(''name'', PStr name), (''arguments'', PStr ''{}'')])]"

definition sample_response :: "pyval list \<Rightarrow> pyval" where
  "sample_response calls = PDict [(''choices'', PList [PDict [(''message'', PDict [(''content'', PNone), (''tool_calls'', PList calls)])]])]"

definition empty_json :: "string \<Rightarrow> pyval option" where
  "empty_json s = (if s = ''{}'' then Some (PDict []) else None)"

lemma digit_one: "nat_digits (Suc 0) = ''1''" by code_simp

lemma sample_response_parsed:
  "parse_response empty_json (Raw_value (sample_response [sample_call_value ''workspace.read''])) =
     Inr \<lparr>pr_content = [], pr_calls = [\<lparr>tc_id = ''provider-call-1'', tc_name = ''workspace.read'', tc_arguments = []\<rparr>],
       pr_claim = False, pr_usage = [], pr_metadata = [(''provider_response_id'', PStr [])]\<rparr>"
  by (simp add: parse_response_def sample_response_def response_message_def choice_message_def parse_message_def response_content_def
    py_or_def dict_get_def sample_call_value_def parse_call_def call_arguments_def dict_get_or_def empty_json_def call_valid_def
    response_valid_def explicit_claim_def or_empty_def response_metadata_def has_key_def Let_def digit_one)

theorem parsed_response_typed_witness:
  "\<exists>r. parse_response empty_json (Raw_value (sample_response [sample_call_value ''workspace.read''])) = Inr r \<and>
     length (pr_calls r) = 1 \<and> list_all call_valid (pr_calls r)"
  using parsed_response_typed[OF sample_response_parsed] sample_response_parsed by simp

text \<open>One response too large is not a rejected response. A message whose calls are all well formed,
  but which are more than 64, makes the parser raise the type's validation error, which is not
  one of the errors the loop turns into a rejection.\<close>

theorem too_many_calls_escape:
  assumes "w = PDict v" and "response_message v = Some (PDict m)" and "dict_get m ''content'' = PNone"
    and "dict_get m ''tool_calls'' = PList raws" and "parse_calls json 0 raws = Inr calls" and "64 < length raws"
  shows "\<exists>e. parse_response json (Raw_value w) = Inl e \<and> \<not> model_response_error e"
proof -
  have len: "length calls = length raws" using parse_calls_all[OF assms(5)] by simp
  have "raws \<noteq> []" using assms(6) by auto
  then show ?thesis
    using assms len
    by (simp add: parse_response_def parse_message_def response_content_def py_or_def Let_def response_valid_def model_response_error_def)
qed

theorem too_many_calls_escape_witness:
  "\<exists>e. parse_response empty_json (Raw_value (sample_response (replicate 65 (sample_call_value ''workspace.read'')))) = Inl e \<and>
     \<not> model_response_error e"
proof -
  have id: "length (nat_digits n) \<le> n + 1" for n
  proof (induction n rule: less_induct)
    case (less n)
    show ?case
    proof (cases "n < 10")
      case False
      then have "length (nat_digits (n div 10)) \<le> n div 10 + 1" by (intro less) simp
      then show ?thesis using False by (simp add: nat_digits.simps[of n])
    qed (simp add: nat_digits.simps)
  qed
  have one: "parse_call empty_json i (sample_call_value ''workspace.read'') =
      Inr \<lparr>tc_id = ''provider-call-'' @ nat_digits (i + 1), tc_name = ''workspace.read'', tc_arguments = []\<rparr>" if "i < 65" for i
    using id[of "i + 1"] that
    by (simp add: sample_call_value_def parse_call_def call_arguments_def dict_get_or_def dict_get_def py_or_def empty_json_def call_valid_def Let_def)
  have "\<exists>cs. parse_calls empty_json i (replicate n (sample_call_value ''workspace.read'')) = Inr cs" if "i + n \<le> 65" for i n
    using that
  proof (induction n arbitrary: i)
    case (Suc n)
    then obtain cs where "parse_calls empty_json (i + 1) (replicate n (sample_call_value ''workspace.read'')) = Inr cs"
      by fastforce
    then show ?case using Suc.prems by (simp add: one)
  qed simp
  then obtain cs where "parse_calls empty_json 0 (replicate 65 (sample_call_value ''workspace.read'')) = Inr cs" by force
  note calls = this
  let ?m = "[(''content'', PNone), (''tool_calls'', PList (replicate 65 (sample_call_value ''workspace.read'')))]"
  let ?v = "[(''choices'', PList [PDict [(''message'', PDict ?m)]])]"
  have "response_message ?v = Some (PDict ?m)" "dict_get ?m ''content'' = PNone"
    "dict_get ?m ''tool_calls'' = PList (replicate 65 (sample_call_value ''workspace.read''))"
    by (simp_all add: response_message_def choice_message_def dict_get_def)
  from too_many_calls_escape[OF refl this calls] show ?thesis unfolding sample_response_def by simp
qed

end
