(* ===== verification/NativeModels.thy ===== *)
theory NativeModels imports Enums Once begin

text \<open>
  \<open>src/lhas/native/models.py\<close> and the snapshot store of \<open>native/persistence.py\<close>: the states of the
  agent loop, the identity of a provider route, and the bounded snapshot of an attempt that
  survives a restart.

  \<^item> A loaded snapshot goes through the model's validators, which trim its lists; a snapshot in
    memory does not, because the loop mutates it in place.
  \<^item> The endpoint identity of a route is kept as it is stored (the URL normalisation of a newly
    configured route is not modelled); times are left out.
\<close>

section \<open>Enumerations\<close>

datatype native_phase =
    Phase_CONTINUE | Phase_WAITING_TOOL | Phase_WAITING_CHILD | Phase_CANDIDATE_COMPLETE | Phase_RECOVERING
  | Phase_REPLANNING | Phase_FAILED | Phase_ACCEPTED_COMPLETE

primrec native_phase_value :: "native_phase \<Rightarrow> string" where
  "native_phase_value Phase_CONTINUE = ''CONTINUE''"
| "native_phase_value Phase_WAITING_TOOL = ''WAITING_TOOL''"
| "native_phase_value Phase_WAITING_CHILD = ''WAITING_CHILD''"
| "native_phase_value Phase_CANDIDATE_COMPLETE = ''CANDIDATE_COMPLETE''"
| "native_phase_value Phase_RECOVERING = ''RECOVERING''"
| "native_phase_value Phase_REPLANNING = ''REPLANNING''"
| "native_phase_value Phase_FAILED = ''FAILED''"
| "native_phase_value Phase_ACCEPTED_COMPLETE = ''ACCEPTED_COMPLETE''"

datatype provider_failure_category =
    TRANSIENT_RATE_LIMIT | QUOTA_EXHAUSTED | BILLING_OR_CREDIT_EXHAUSTED | AUTH_INVALID | PROVIDER_UNAVAILABLE
  | PROVIDER_TIMEOUT | MALFORMED_PROVIDER_RESPONSE | UNKNOWN_PROVIDER_FAILURE

primrec provider_failure_value :: "provider_failure_category \<Rightarrow> string" where
  "provider_failure_value TRANSIENT_RATE_LIMIT = ''TRANSIENT_RATE_LIMIT''"
| "provider_failure_value QUOTA_EXHAUSTED = ''QUOTA_EXHAUSTED''"
| "provider_failure_value BILLING_OR_CREDIT_EXHAUSTED = ''BILLING_OR_CREDIT_EXHAUSTED''"
| "provider_failure_value AUTH_INVALID = ''AUTH_INVALID''"
| "provider_failure_value PROVIDER_UNAVAILABLE = ''PROVIDER_UNAVAILABLE''"
| "provider_failure_value PROVIDER_TIMEOUT = ''PROVIDER_TIMEOUT''"
| "provider_failure_value MALFORMED_PROVIDER_RESPONSE = ''MALFORMED_PROVIDER_RESPONSE''"
| "provider_failure_value UNKNOWN_PROVIDER_FAILURE = ''UNKNOWN_PROVIDER_FAILURE''"

datatype provider_health = HEALTHY | TRANSIENTLY_UNAVAILABLE | QUOTA_BLOCKED | AUTH_BLOCKED | Health_state_UNKNOWN

datatype fault_point =
    AFTER_MODEL_TURN_PERSISTED | AFTER_TOOL_REQUESTED | AFTER_TOOL_STARTED | AFTER_TOOL_EXECUTED | AFTER_TOOL_OBSERVED
  | AFTER_CANDIDATE_PERSISTED | AFTER_CANDIDATE_VALIDATED

section \<open>Provider routes\<close>

record runtime_target =
  tg_provider :: string
  tg_model :: string
  tg_endpoint :: string
  tg_host :: string
  tg_fingerprint :: string
  tg_credential :: string
  tg_route :: string

text \<open>The text that keys the health of a route.\<close>

definition composite_id :: "runtime_target \<Rightarrow> string" where
  "composite_id t = join ''|'' [tg_provider t, tg_model t, tg_endpoint t, tg_credential t, tg_route t]"

section \<open>The snapshot of an attempt\<close>

record native_snapshot =
  sn_id :: string
  sn_task :: string
  sn_run :: string
  sn_attempt :: string
  sn_goal :: string
  sn_phase :: native_phase
  sn_version :: nat
  sn_turns :: nat
  sn_calls :: nat
  sn_position :: "string option"
  sn_completed :: "string list"
  sn_pending :: "string list"
  sn_workspace :: pydict
  sn_mutations :: nat
  sn_outcomes :: "pydict list"
  sn_repeated :: pydict
  sn_verification :: pydict
  sn_failure :: pydict
  sn_dependencies :: "(string \<times> pydict) list"
  sn_candidate :: "string option"
  sn_tokens :: "string list"
  sn_configured :: "runtime_target option"
  sn_effective :: "runtime_target option"
  sn_actual :: "runtime_target option"
  sn_transport :: "(string \<times> string) option"
  sn_fallback :: "string option"
  sn_switch :: "string option"
  sn_ordinal :: nat

text \<open>The validators of the model, as they run when a snapshot is built from its row; \<open>None\<close> is the
  validation error.\<close>

definition bound_strings :: "string list \<Rightarrow> string list" where
  "bound_strings xs = map (take 128) (last_n 100 xs)"

definition bound_outcomes :: "pydict list \<Rightarrow> pydict list" where
  "bound_outcomes xs = last_n 40 xs"

fun keep_first :: "string list \<Rightarrow> string list \<Rightarrow> string list" where
  "keep_first seen [] = []"
| "keep_first seen (x # xs) = (if x \<in> set seen then keep_first seen xs else x # keep_first (x # seen) xs)"

definition bound_tokens :: "string list \<Rightarrow> string list" where
  "bound_tokens xs = last_n 256 (keep_first [] (map (take 64) xs))"

definition load_snapshot :: "native_snapshot \<Rightarrow> native_snapshot option" where
  "load_snapshot s =
     (if length (sn_goal s) \<le> 20000 \<and> pred_option (\<lambda>r. length r \<le> 512) (sn_fallback s) \<and> 1 \<le> sn_version s then
        Some (s\<lparr>sn_completed := bound_strings (sn_completed s), sn_pending := bound_strings (sn_pending s),
                sn_outcomes := bound_outcomes (sn_outcomes s), sn_tokens := bound_tokens (sn_tokens s)\<rparr>)
      else None)"

section \<open>The snapshot store\<close>

definition stored_snapshot :: "string \<Rightarrow> native_snapshot list \<Rightarrow> native_snapshot option" where
  "stored_snapshot a rows = row_get sn_attempt a rows"

text \<open>Two nested options: the outer one is the validation error of a row that does not load.\<close>

definition get_snapshot :: "string \<Rightarrow> native_snapshot list \<Rightarrow> native_snapshot option option" where
  "get_snapshot a rows = (case stored_snapshot a rows of None \<Rightarrow> Some None | Some r \<Rightarrow> map_option Some (load_snapshot r))"

text \<open>Saving takes over the row's id and raises the version past the row's. The row's task and run
  stay what they were.\<close>

definition save_snapshot :: "native_snapshot \<Rightarrow> native_snapshot list \<Rightarrow> native_snapshot \<times> native_snapshot list" where
  "save_snapshot s rows =
     (case stored_snapshot (sn_attempt s) rows of
        None \<Rightarrow> (s, row_create s rows)
      | Some r \<Rightarrow>
          (let s' = s\<lparr>sn_id := sn_id r, sn_version := max (sn_version s) (sn_version r + 1)\<rparr>
           in (s', map (\<lambda>q. if sn_attempt q = sn_attempt s then s'\<lparr>sn_task := sn_task q, sn_run := sn_run q\<rparr> else q) rows)))"

section \<open>Lemmas\<close>

lemma stored_save:
  "stored_snapshot a (snd (save_snapshot s rows)) =
     (if a = sn_attempt s then
        (case stored_snapshot a rows of
           None \<Rightarrow> Some s
         | Some r \<Rightarrow> Some (s\<lparr>sn_id := sn_id r, sn_version := max (sn_version s) (sn_version r + 1), sn_task := sn_task r, sn_run := sn_run r\<rparr>))
      else stored_snapshot a rows)"
proof -
  have upd: "List.find (\<lambda>q. sn_attempt q = a) (map (\<lambda>q. if sn_attempt q = sn_attempt s then s'\<lparr>sn_task := sn_task q, sn_run := sn_run q\<rparr> else q) rows) =
      (if a = sn_attempt s then map_option (\<lambda>q. s'\<lparr>sn_task := sn_task q, sn_run := sn_run q\<rparr>) (List.find (\<lambda>q. sn_attempt q = a) rows)
       else List.find (\<lambda>q. sn_attempt q = a) rows)" if "sn_attempt s' = sn_attempt s" for s' rows
    using that by (induction rows) auto
  show ?thesis
  proof (cases "stored_snapshot (sn_attempt s) rows")
    case None
    then show ?thesis
      using row_get_create[of sn_attempt s rows a] by (auto simp: save_snapshot_def stored_snapshot_def)
  next
    case (Some r)
    then show ?thesis
      by (auto simp: save_snapshot_def stored_snapshot_def row_get_def Let_def upd)
  qed
qed

lemma fst_save:
  "fst (save_snapshot s rows) =
     (case stored_snapshot (sn_attempt s) rows of
        None \<Rightarrow> s
      | Some r \<Rightarrow> s\<lparr>sn_id := sn_id r, sn_version := max (sn_version s) (sn_version r + 1)\<rparr>)"
  by (simp add: save_snapshot_def Let_def split: option.split)

lemma saved_version:
  "case stored_snapshot (sn_attempt s) rows of
     None \<Rightarrow> fst (save_snapshot s rows) = s
   | Some r \<Rightarrow> sn_version r < sn_version (fst (save_snapshot s rows))"
  by (auto simp: save_snapshot_def Let_def split: option.split)

lemma save_fields [simp]:
  "sn_turns (fst (save_snapshot s rows)) = sn_turns s" "sn_calls (fst (save_snapshot s rows)) = sn_calls s"
  "sn_attempt (fst (save_snapshot s rows)) = sn_attempt s" "sn_phase (fst (save_snapshot s rows)) = sn_phase s"
  "sn_failure (fst (save_snapshot s rows)) = sn_failure s" "sn_candidate (fst (save_snapshot s rows)) = sn_candidate s"
  "sn_task (fst (save_snapshot s rows)) = sn_task s" "sn_run (fst (save_snapshot s rows)) = sn_run s"
  by (auto simp: save_snapshot_def Let_def split: option.split)

section \<open>Versions and bounds\<close>

lemma keep_first_subset: "set (keep_first seen xs) = set xs - set seen"
  by (induction seen xs rule: keep_first.induct) auto

lemma keep_first_distinct: "distinct (keep_first seen xs)"
  by (induction seen xs rule: keep_first.induct) (auto simp: keep_first_subset)

lemma keep_first_id: "distinct xs \<Longrightarrow> set xs \<inter> set seen = {} \<Longrightarrow> keep_first seen xs = xs"
  by (induction seen xs rule: keep_first.induct) auto

lemma distinct_last_n: "distinct xs \<Longrightarrow> distinct (last_n n xs)"
  by (simp add: last_n_def)

definition snapshot_bounded :: "native_snapshot \<Rightarrow> bool" where
  "snapshot_bounded s \<longleftrightarrow>
     length (sn_completed s) \<le> 100 \<and> length (sn_pending s) \<le> 100 \<and> length (sn_outcomes s) \<le> 40 \<and>
     length (sn_tokens s) \<le> 256 \<and> distinct (sn_tokens s) \<and>
     list_all (\<lambda>x. length x \<le> 128) (sn_completed s @ sn_pending s) \<and> list_all (\<lambda>x. length x \<le> 64) (sn_tokens s)"

lemma load_bounded: "load_snapshot s = Some s' \<Longrightarrow> snapshot_bounded s'"
  using set_last_n[of 256 "keep_first [] (map (take 64) (sn_tokens s))"]
  by (auto simp: load_snapshot_def snapshot_bounded_def bound_strings_def bound_outcomes_def bound_tokens_def
      distinct_last_n keep_first_distinct list_all_iff keep_first_subset split: if_splits)

lemma bound_strings_id: "length xs \<le> 100 \<Longrightarrow> list_all (\<lambda>x. length x \<le> 128) xs \<Longrightarrow> bound_strings xs = xs"
  by (auto simp: bound_strings_def last_n_def list_all_iff intro: map_idI)

lemma bound_tokens_id: "length xs \<le> 256 \<Longrightarrow> distinct xs \<Longrightarrow> list_all (\<lambda>x. length x \<le> 64) xs \<Longrightarrow> bound_tokens xs = xs"
proof -
  assume a: "length xs \<le> 256" "distinct xs" "list_all (\<lambda>x. length x \<le> 64) xs"
  have "map (take 64) xs = xs" using a(3) by (auto simp: list_all_iff intro: map_idI)
  with a show ?thesis by (simp add: bound_tokens_def keep_first_id last_n_def)
qed

lemma load_id:
  assumes "snapshot_bounded s" and "length (sn_goal s) \<le> 20000" and "pred_option (\<lambda>r. length r \<le> 512) (sn_fallback s)" and "1 \<le> sn_version s"
  shows "load_snapshot s = Some s"
  using assms by (simp add: load_snapshot_def snapshot_bounded_def bound_strings_id bound_tokens_id bound_outcomes_def last_n_def)

text \<open>A snapshot with its lists cut to their bounds, and what a save puts into the row of its attempt.\<close>

definition trimmed :: "native_snapshot \<Rightarrow> native_snapshot" where
  "trimmed s = s\<lparr>sn_completed := bound_strings (sn_completed s), sn_pending := bound_strings (sn_pending s),
     sn_outcomes := bound_outcomes (sn_outcomes s), sn_tokens := bound_tokens (sn_tokens s)\<rparr>"

definition valid_snapshot :: "native_snapshot \<Rightarrow> bool" where
  "valid_snapshot s \<longleftrightarrow> length (sn_goal s) \<le> 20000 \<and> pred_option (\<lambda>r. length r \<le> 512) (sn_fallback s) \<and> 1 \<le> sn_version s"

definition row_after :: "native_snapshot \<Rightarrow> native_snapshot option \<Rightarrow> native_snapshot" where
  "row_after s old =
     (case old of
        None \<Rightarrow> s
      | Some r \<Rightarrow> s\<lparr>sn_id := sn_id r, sn_version := max (sn_version s) (sn_version r + 1), sn_task := sn_task r,
                    sn_run := sn_run r\<rparr>)"

lemma load_valid: "valid_snapshot s \<Longrightarrow> load_snapshot s = Some (trimmed s)"
  by (simp add: load_snapshot_def valid_snapshot_def trimmed_def)

lemma valid_trimmed [simp]: "valid_snapshot (trimmed s) = valid_snapshot s"
  by (simp add: valid_snapshot_def trimmed_def)

lemma valid_row_after: "valid_snapshot s \<Longrightarrow> valid_snapshot (row_after s old)"
  by (auto simp: valid_snapshot_def row_after_def split: option.split)

lemma trimmed_trimmed:
  assumes "valid_snapshot s"
  shows "trimmed (trimmed s) = trimmed s"
proof -
  have v: "valid_snapshot (trimmed s)" using assms by simp
  have "load_snapshot (trimmed s) = Some (trimmed s)"
    by (rule load_id[OF load_bounded[OF load_valid[OF assms]]]) (use v[unfolded valid_snapshot_def] in blast)+
  then show ?thesis using load_valid[OF v] by simp
qed

lemma get_after_save:
  assumes "valid_snapshot s"
  shows "get_snapshot (sn_attempt s) (snd (save_snapshot s rows)) =
    Some (Some (trimmed (row_after s (stored_snapshot (sn_attempt s) rows))))"
proof -
  have "stored_snapshot (sn_attempt s) (snd (save_snapshot s rows)) =
      Some (row_after s (stored_snapshot (sn_attempt s) rows))"
    by (simp add: stored_save row_after_def split: option.split)
  then show ?thesis using load_valid[OF valid_row_after[OF assms]] by (simp add: get_snapshot_def)
qed

definition sample_snapshot :: native_snapshot where
  "sample_snapshot =
     \<lparr>sn_id = ''s'', sn_task = ''t'', sn_run = ''r'', sn_attempt = ''a'', sn_goal = ''g'', sn_phase = Phase_CONTINUE, sn_version = 1,
      sn_turns = 0, sn_calls = 0, sn_position = None, sn_completed = [], sn_pending = [], sn_workspace = [], sn_mutations = 0,
      sn_outcomes = [], sn_repeated = [], sn_verification = [], sn_failure = [], sn_dependencies = [], sn_candidate = None,
      sn_tokens = [], sn_configured = None, sn_effective = None, sn_actual = None, sn_transport = None, sn_fallback = None,
      sn_switch = None, sn_ordinal = 0\<rparr>"

lemma row_after_again: "row_after (trimmed x) (Some x) = (trimmed x)\<lparr>sn_version := sn_version (trimmed x) + 1\<rparr>"
  by (simp add: row_after_def trimmed_def)

lemma trimmed_version: "trimmed (x\<lparr>sn_version := n\<rparr>) = (trimmed x)\<lparr>sn_version := n\<rparr>"
  by (simp add: trimmed_def)

text \<open>C29: Saving and loading a snapshot that is within the limits of its model. What is read back
  for the attempt is the saved snapshot with its lists cut to their bounds; if the attempt had a
  row, it has that row's id, task and run and a version above that row's, otherwise these four
  are as saved. The snapshot that the save returns has the same id and version. When what was
  read back is saved again and read again, it is the same but for the version, which is one
  higher; and no other attempt's row is touched by either save.\<close>

theorem snapshot_round_trip:
  assumes "length (sn_goal s) \<le> 20000" and "pred_option (\<lambda>r. length r \<le> 512) (sn_fallback s)" and "1 \<le> sn_version s"
    and "save_snapshot s rows = (s1, rows1)"
  shows "\<exists>s2. get_snapshot (sn_attempt s) rows1 = Some (Some s2) \<and>
    s2 = (let t = s\<lparr>sn_completed := bound_strings (sn_completed s), sn_pending := bound_strings (sn_pending s),
                 sn_outcomes := bound_outcomes (sn_outcomes s), sn_tokens := bound_tokens (sn_tokens s)\<rparr>
          in case stored_snapshot (sn_attempt s) rows of
               None \<Rightarrow> t
             | Some r \<Rightarrow> t\<lparr>sn_id := sn_id r, sn_version := max (sn_version s) (sn_version r + 1),
                           sn_task := sn_task r, sn_run := sn_run r\<rparr>) \<and>
    (\<forall>r. stored_snapshot (sn_attempt s) rows = Some r \<longrightarrow> sn_version r < sn_version s2) \<and>
    sn_id s1 = sn_id s2 \<and> sn_version s1 = sn_version s2 \<and> snapshot_bounded s2 \<and>
    (\<forall>s3 rows2. save_snapshot s2 rows1 = (s3, rows2) \<longrightarrow>
       get_snapshot (sn_attempt s) rows2 = Some (Some (s2\<lparr>sn_version := sn_version s2 + 1\<rparr>)) \<and>
       (\<forall>a. a \<noteq> sn_attempt s \<longrightarrow> stored_snapshot a rows2 = stored_snapshot a rows)) \<and>
    (\<forall>a. a \<noteq> sn_attempt s \<longrightarrow> stored_snapshot a rows1 = stored_snapshot a rows)"
proof -
  let ?old = "stored_snapshot (sn_attempt s) rows"
  let ?r = "row_after s ?old"
  let ?s2 = "trimmed ?r"
  have v: "valid_snapshot s" using assms(1-3) by (simp add: valid_snapshot_def)
  have r: "rows1 = snd (save_snapshot s rows)" "s1 = fst (save_snapshot s rows)" using assms(4) by simp_all
  have get: "get_snapshot (sn_attempt s) rows1 = Some (Some ?s2)" unfolding r by (rule get_after_save[OF v])
  have row: "stored_snapshot (sn_attempt s) rows1 = Some ?r"
    unfolding r by (simp add: stored_save row_after_def split: option.split)
  have other: "stored_snapshot a rows1 = stored_snapshot a rows" if "a \<noteq> sn_attempt s" for a
    using that unfolding r by (simp add: stored_save)
  have att: "sn_attempt ?s2 = sn_attempt s" by (simp add: trimmed_def row_after_def split: option.split)
  have v2: "valid_snapshot ?s2" using valid_row_after[OF v] by simp
  have again: "get_snapshot (sn_attempt s) (snd (save_snapshot ?s2 rows1)) =
      Some (Some (?s2\<lparr>sn_version := sn_version ?s2 + 1\<rparr>))"
    using get_after_save[OF v2, of rows1]
    by (simp only: att row row_after_again trimmed_version trimmed_trimmed[OF valid_row_after[OF v]])
  have other2: "stored_snapshot a (snd (save_snapshot ?s2 rows1)) = stored_snapshot a rows" if "a \<noteq> sn_attempt s" for a
    using that other by (simp add: stored_save att)
  have form: "?s2 = (let t = s\<lparr>sn_completed := bound_strings (sn_completed s), sn_pending := bound_strings (sn_pending s),
                 sn_outcomes := bound_outcomes (sn_outcomes s), sn_tokens := bound_tokens (sn_tokens s)\<rparr>
          in case ?old of None \<Rightarrow> t
             | Some r \<Rightarrow> t\<lparr>sn_id := sn_id r, sn_version := max (sn_version s) (sn_version r + 1),
                           sn_task := sn_task r, sn_run := sn_run r\<rparr>)"
    by (simp add: trimmed_def row_after_def Let_def split: option.split)
  have up: "\<forall>r. ?old = Some r \<longrightarrow> sn_version r < sn_version ?s2"
    by (auto simp: trimmed_def row_after_def split: option.split)
  have ret: "sn_id s1 = sn_id ?s2" "sn_version s1 = sn_version ?s2"
    unfolding r(2) fst_save by (simp_all add: trimmed_def row_after_def split: option.split)
  have bound: "snapshot_bounded ?s2" by (rule load_bounded[OF load_valid[OF valid_row_after[OF v]]])
  have second: "\<forall>s3 rows2. save_snapshot ?s2 rows1 = (s3, rows2) \<longrightarrow>
       get_snapshot (sn_attempt s) rows2 = Some (Some (?s2\<lparr>sn_version := sn_version ?s2 + 1\<rparr>)) \<and>
       (\<forall>a. a \<noteq> sn_attempt s \<longrightarrow> stored_snapshot a rows2 = stored_snapshot a rows)"
    using again other2 by (metis snd_conv)
  show ?thesis using get form up ret bound second other by blast
qed

theorem snapshot_round_trip_witness:
  "\<exists>s2. get_snapshot ''a'' (snd (save_snapshot (sample_snapshot\<lparr>sn_tokens := [''x'', ''x'']\<rparr>) [sample_snapshot])) = Some (Some s2) \<and>
     snapshot_bounded s2 \<and> 1 < sn_version s2"
proof -
  let ?s = "sample_snapshot\<lparr>sn_tokens := [''x'', ''x'']\<rparr>"
  have f: "length (sn_goal ?s) \<le> 20000" "pred_option (\<lambda>r. length r \<le> 512) (sn_fallback ?s)" "1 \<le> sn_version ?s"
    "sn_attempt ?s = ''a''" "stored_snapshot ''a'' [sample_snapshot] = Some sample_snapshot" "sn_version sample_snapshot = 1"
    by (simp_all add: sample_snapshot_def stored_snapshot_def row_get_def)
  from snapshot_round_trip[OF f(1-3) prod.collapse[symmetric, of "save_snapshot ?s [sample_snapshot]"]] f(4-6)
  show ?thesis by auto
qed

end
