(* ===== verification/RuntimeTarget.thy ===== *)
theory RuntimeTarget imports NativeModels Parser begin

text \<open>
  \<open>src/lhas/native/runtime.py\<close>: resolving a provider route, classifying a provider's failure, the
  health rows of the routes, and the controller that switches the route of a running execution.

  \<^item> The regular expressions of the classifier are written as matchers that return the end positions
    of a match; the error object is what the classifier reads of it.
  \<^item> A switch is two transactions with the provider's preparation between them. Other processes can
    write between them, so the switch takes what they do as an argument (\<open>meanwhile\<close>).
  \<^item> Awaitable factories and confirmations, which the source refuses, are among the failures of the
    preparation. Ids and clock readings are arguments.
\<close>

section \<open>Resolving a route\<close>

datatype target_error = Target_error string "runtime_target list"

definition resolve_target :: "string \<Rightarrow> runtime_target list \<Rightarrow> string option \<Rightarrow> string option \<Rightarrow> target_error + runtime_target" where
  "resolve_target model configured provider credential =
     (let candidates = [t \<leftarrow> configured. tg_model t = model \<and> (\<forall>p. provider = Some p \<longrightarrow> tg_provider t = p) \<and>
                          (\<forall>c. credential = Some c \<longrightarrow> tg_credential t = c)]
      in case candidates of
           [] \<Rightarrow> Inl (Target_error ''RUNTIME_TARGET_NOT_CONFIGURED'' [])
         | [t] \<Rightarrow> Inr t
         | _ \<Rightarrow> Inl (Target_error ''AMBIGUOUS_RUNTIME_TARGET'' candidates))"

section \<open>Classifying a failure\<close>

text \<open>A matcher maps a text and a position to the positions where a match can end.\<close>

type_synonym matcher = "string \<Rightarrow> nat \<Rightarrow> nat list"

definition m_word :: "string \<Rightarrow> matcher" where
  "m_word w s i = (if prefix w (drop i s) then [i + length w] else [])"

definition word_char :: "char \<Rightarrow> bool" where
  "word_char c \<longleftrightarrow> (let n = (of_char c :: nat) in (48 \<le> n \<and> n \<le> 57) \<or> (65 \<le> n \<and> n \<le> 90) \<or> (97 \<le> n \<and> n \<le> 122) \<or> n = 95)"

definition m_boundary :: matcher where
  "m_boundary s i =
     (let before = (0 < i \<and> i \<le> length s \<and> word_char (s ! (i - 1))); after = (i < length s \<and> word_char (s ! i))
      in if before \<noteq> after then [i] else [])"

definition m_some :: "(char \<Rightarrow> bool) \<Rightarrow> matcher" where
  "m_some p s i = (let n = length (takeWhile p (drop i s)) in map (\<lambda>k. i + k) [1..<n + 1])"

definition m_gap :: "nat \<Rightarrow> matcher" where
  "m_gap n s i = (let k = length (takeWhile (\<lambda>c. c \<noteq> CHR 0x0A) (take n (drop i s))) in map (\<lambda>k. i + k) [0..<k + 1])"

definition m_any :: "matcher list \<Rightarrow> matcher" where
  "m_any ms s i = concat (map (\<lambda>m. m s i) ms)"

fun m_seq :: "matcher list \<Rightarrow> matcher" where
  "m_seq [] s i = [i]"
| "m_seq (m # ms) s i = concat (map (m_seq ms s) (m s i))"

definition m_found :: "matcher \<Rightarrow> string \<Rightarrow> bool" where
  "m_found m s \<longleftrightarrow> list_ex (\<lambda>i. m s i \<noteq> []) [0..<length s + 1]"

definition m_words :: "string list \<Rightarrow> matcher" where
  "m_words ws = m_any (map m_word ws)"

definition m_spaces :: matcher where
  "m_spaces = m_some is_space"

definition m_digits :: matcher where
  "m_digits = m_some (\<lambda>c. let n = (of_char c :: nat) in 48 \<le> n \<and> n \<le> 57)"

definition quota_patterns :: "matcher list" where
  "quota_patterns =
     [m_seq [m_boundary, m_words [''MONTHLY'', ''WEEKLY'', ''DAILY'', ''ANNUAL''], m_spaces, m_words [''USAGE'', ''QUOTA'', ''LIMIT''], m_boundary],
      m_seq [m_boundary, m_any [m_seq [m_word ''BILLING'', m_spaces, m_word ''PERIOD''], m_words [''SUBSCRIPTION'', ''PLAN'']], m_boundary, m_gap 80,
             m_boundary, m_words [''EXHAUST'', ''LIMIT'', ''QUOTA''], m_boundary],
      m_seq [m_boundary, m_word ''USAGE'', m_spaces, m_word ''LIMIT'', m_boundary, m_gap 100, m_boundary, m_word ''RESET'', m_spaces, m_word ''IN'',
             m_spaces, m_any [m_seq [m_digits, m_spaces], m_seq []], m_words [''DAY'', ''DAYS'', ''WEEK'', ''WEEKS'', ''MONTH'', ''MONTHS''],
             m_boundary]]"

text \<open>What the classifier reads: the integer status, the joined texts, the class name.\<close>

record provider_error =
  pe_category :: "provider_failure_category option"
  pe_status :: "int option"
  pe_text :: string
  pe_class :: string
  pe_is_timeout :: bool

definition mentions :: "string list \<Rightarrow> string \<Rightarrow> bool" where
  "mentions ws s \<longleftrightarrow> list_ex (\<lambda>w. contains w s) ws"

definition quota_evidence :: "int option \<Rightarrow> string \<Rightarrow> bool" where
  "quota_evidence status text1 \<longleftrightarrow>
     list_ex (\<lambda>m. m_found m text1) quota_patterns \<or> contains ''PROVIDER QUOTA'' text1 \<or> (status = Some 429 \<and> contains ''QUOTA'' text1)"

definition classify_error :: "provider_error \<Rightarrow> provider_failure_category" where
  "classify_error e =
     (case pe_category e of
        Some c \<Rightarrow> c
      | None \<Rightarrow>
          (let t = upper (take 4000 (pe_text e)); name = upper (pe_class e); status = pe_status e
           in if contains ''PROVIDER_RESPONSE_NOT_NORMALIZABLE'' t then MALFORMED_PROVIDER_RESPONSE
              else if quota_evidence status t then QUOTA_EXHAUSTED
              else if mentions [''BILLING'', ''CREDIT'', ''INSUFFICIENT FUNDS'', ''PAYMENT REQUIRED''] t \<or> status = Some 402 then BILLING_OR_CREDIT_EXHAUSTED
              else if status \<in> {Some 401, Some 403} \<or> mentions [''INVALID API KEY'', ''AUTHENTICATION'', ''UNAUTHORIZED'', ''FORBIDDEN''] t then AUTH_INVALID
              else if status = Some 429 then
                (if mentions [''RATE LIMIT'', ''REQUESTS PER MINUTE'', ''TOKENS PER MINUTE'', ''RETRY-AFTER'', ''BURST LIMIT'', ''TOO MANY REQUESTS''] t
                 then TRANSIENT_RATE_LIMIT else UNKNOWN_PROVIDER_FAILURE)
              else if pe_is_timeout e \<or> contains ''TIMEOUT'' t \<or> contains ''TIMEOUT'' name \<or> contains ''TIMED OUT'' t then PROVIDER_TIMEOUT
              else if status \<in> {Some 408, Some 425, Some 500, Some 502, Some 503, Some 504} \<or>
                  mentions [''UNAVAILABLE'', ''CONNECTION RESET'', ''CONNECTION ERROR'', ''SERVICE DOWN'', ''APICONNECTIONERROR'', ''CONNECTERROR''] t \<or>
                  mentions [''APICONNECTIONERROR'', ''CONNECTERROR''] name then PROVIDER_UNAVAILABLE
              else UNKNOWN_PROVIDER_FAILURE))"

primrec taxonomy_code :: "provider_failure_category \<Rightarrow> string" where
  "taxonomy_code PROVIDER_TIMEOUT = ''provider_timeout''"
| "taxonomy_code QUOTA_EXHAUSTED = ''quota_exhausted''"
| "taxonomy_code TRANSIENT_RATE_LIMIT = ''rate_limit''"
| "taxonomy_code PROVIDER_UNAVAILABLE = ''connection_error''"
| "taxonomy_code MALFORMED_PROVIDER_RESPONSE = ''invalid_response''"
| "taxonomy_code UNKNOWN_PROVIDER_FAILURE = ''unknown_provider_failure''"
| "taxonomy_code BILLING_OR_CREDIT_EXHAUSTED = ''billing_or_credit_exhausted''"
| "taxonomy_code AUTH_INVALID = ''auth_invalid''"

definition same_target_retryable :: "provider_failure_category \<Rightarrow> bool" where
  "same_target_retryable c \<longleftrightarrow> c \<in> {TRANSIENT_RATE_LIMIT, PROVIDER_UNAVAILABLE, PROVIDER_TIMEOUT}"

definition error_report :: "provider_error \<Rightarrow> string \<Rightarrow> pydict" where
  "error_report e text1 =
     (let c = classify_error e
      in [(''category'', PStr (provider_failure_value c)), (''same_target_retryable'', PBool (same_target_retryable c)),
          (''safe_error'', PStr (take 512 text1))])"

text \<open>A payload before it reaches the parser.\<close>

definition classify_response :: "provider_value \<Rightarrow> provider_failure_category" where
  "classify_response v =
     (case v of
        Native_response _ \<Rightarrow> UNKNOWN_PROVIDER_FAILURE
      | Raw_value (PDict d) \<Rightarrow>
          (if list_ex (has_key d) [''choices'', ''content'', ''tool_calls'', ''completion_claim''] then UNKNOWN_PROVIDER_FAILURE
           else MALFORMED_PROVIDER_RESPONSE)
      | Raw_value _ \<Rightarrow> MALFORMED_PROVIDER_RESPONSE)"

section \<open>Health of the routes\<close>

record health_row =
  hr_id :: string
  hr_target :: runtime_target
  hr_state :: provider_health
  hr_category :: "provider_failure_category option"
  hr_reason :: string
  hr_blocked :: "nat option"

definition get_health :: "nat \<Rightarrow> runtime_target \<Rightarrow> health_row list \<Rightarrow> health_row option" where
  "get_health now t rows =
     (case row_get hr_id (composite_id t) rows of
        None \<Rightarrow> None
      | Some r \<Rightarrow>
          if (case hr_blocked r of None \<Rightarrow> False | Some b \<Rightarrow> b \<le> now) \<and> hr_state r = TRANSIENTLY_UNAVAILABLE then None else Some r)"

definition record_health :: "runtime_target \<Rightarrow> provider_health \<Rightarrow> provider_failure_category option \<Rightarrow> string \<Rightarrow> nat option \<Rightarrow>
  health_row list \<Rightarrow> health_row list" where
  "record_health t st category reason blocked rows =
     (case row_get hr_id (composite_id t) rows of
        None \<Rightarrow> row_create \<lparr>hr_id = composite_id t, hr_target = t, hr_state = st, hr_category = category, hr_reason = take 512 reason,
                  hr_blocked = blocked\<rparr> rows
      | Some _ \<Rightarrow>
          map (\<lambda>r. if hr_id r = composite_id t then
                 r\<lparr>hr_state := st, hr_category := (case category of None \<Rightarrow> hr_category r | Some c \<Rightarrow> Some c),
                   hr_reason := take 512 reason, hr_blocked := blocked\<rparr> else r) rows)"

section \<open>The controller\<close>

datatype switch_state = Switch_REQUESTED | Switch_PENDING | Switch_COMMITTED | Switch_FAILED | Switch_FALLBACK

record target_row =
  bt_execution :: string
  bt_run :: "string option"
  bt_session :: "string option"
  bt_state :: switch_state
  bt_configured :: runtime_target
  bt_effective :: runtime_target
  bt_pending :: "runtime_target option"
  bt_fallback :: "string option"
  bt_switch :: "string option"
  bt_version :: nat

record target_switch =
  ts_id :: string
  ts_execution :: string
  ts_state :: switch_state
  ts_previous :: runtime_target
  ts_requested :: runtime_target
  ts_effective :: runtime_target
  ts_reason :: "string option"

type_synonym targets = "target_row list"

definition current_target :: "string \<Rightarrow> targets \<Rightarrow> string + target_row" where
  "current_target x rows = (case row_get bt_execution x rows of None \<Rightarrow> Inl ''RUNTIME_TARGET_NOT_BOUND'' | Some r \<Rightarrow> Inr r)"

definition owner_conflict :: "string option \<Rightarrow> string option \<Rightarrow> bool" where
  "owner_conflict owner caller \<longleftrightarrow> owner \<noteq> None \<and> owner \<noteq> caller"

definition bind_target :: "string \<Rightarrow> runtime_target \<Rightarrow> string option \<Rightarrow> string option \<Rightarrow> targets \<Rightarrow> (string + target_row) \<times> targets" where
  "bind_target x t run session rows =
     (case row_get bt_execution x rows of
        None \<Rightarrow>
          (let r = \<lparr>bt_execution = x, bt_run = run, bt_session = session, bt_state = Switch_COMMITTED, bt_configured = t, bt_effective = t,
                    bt_pending = None, bt_fallback = None, bt_switch = None, bt_version = 1\<rparr>
           in (Inr r, row_create r rows))
      | Some r \<Rightarrow>
          if owner_conflict (bt_run r) run \<or> owner_conflict (bt_session r) session then (Inl ''OWNERSHIP_CONFLICT'', rows)
          else (Inr r, rows))"

definition edit_target :: "string \<Rightarrow> (target_row \<Rightarrow> target_row) \<Rightarrow> targets \<Rightarrow> targets" where
  "edit_target x f rows = map (\<lambda>r. if bt_execution r = x then (f r)\<lparr>bt_version := bt_version r + 1\<rparr> else r) rows"

text \<open>The first transaction: the row still has the expected target and becomes pending.\<close>

definition claim_switch :: "string \<Rightarrow> string \<Rightarrow> runtime_target \<Rightarrow> runtime_target \<Rightarrow> targets \<Rightarrow> (string + unit) \<times> targets" where
  "claim_switch x i requested expected rows =
     (case row_get bt_execution x rows of
        None \<Rightarrow> (Inl ''OWNERSHIP_CONFLICT'', rows)
      | Some r \<Rightarrow>
          if bt_effective r \<noteq> expected then (Inl ''OWNERSHIP_CONFLICT'', rows)
          else (Inr (), edit_target x (\<lambda>r. r\<lparr>bt_state := Switch_PENDING, bt_pending := Some requested, bt_switch := Some i\<rparr>) rows))"

text \<open>The second: the row is still this switch's.\<close>

definition commit_switch :: "string \<Rightarrow> string \<Rightarrow> runtime_target \<Rightarrow> targets \<Rightarrow> (string + unit) \<times> targets" where
  "commit_switch x i requested rows =
     (case row_get bt_execution x rows of
        None \<Rightarrow> (Inl ''OWNERSHIP_CONFLICT: switch ownership changed before commit'', rows)
      | Some r \<Rightarrow>
          if bt_switch r \<noteq> Some i then (Inl ''OWNERSHIP_CONFLICT: switch ownership changed before commit'', rows)
          else (Inr (), edit_target x (\<lambda>r. r\<lparr>bt_state := Switch_COMMITTED, bt_effective := requested, bt_pending := None\<rparr>) rows))"

definition fail_switch :: "string \<Rightarrow> string \<Rightarrow> targets \<Rightarrow> targets" where
  "fail_switch x i rows = edit_target x (\<lambda>r. r\<lparr>bt_state := Switch_FAILED, bt_pending := None, bt_switch := Some i\<rparr>) rows"

text \<open>What the caller's hooks do: the target of the candidate that \<open>prepare\<close> built, if any, the
  confirmation, the installation; each can raise.\<close>

record switch_hooks =
  sh_prepare :: "string + runtime_target option option"
  sh_confirm :: "string + bool"
  sh_install :: "string + unit"

definition run_hooks :: "runtime_target \<Rightarrow> switch_hooks \<Rightarrow> string + unit" where
  "run_hooks requested h =
     (case sh_prepare h of
        Inl e \<Rightarrow> Inl e
      | Inr candidate \<Rightarrow>
          if (case candidate of None \<Rightarrow> False | Some actual \<Rightarrow> actual \<noteq> Some requested)
          then Inl ''RUNTIME_TARGET_PROVIDER_MISMATCH: candidate provider target does not match requested target''
          else
            (case sh_confirm h of
               Inl e \<Rightarrow> Inl e
             | Inr ok \<Rightarrow> if \<not> ok then Inl ''RUNTIME_CONFIRMATION_REJECTED: runtime confirmation rejected'' else sh_install h))"

definition failed_switch :: "string \<Rightarrow> target_switch \<Rightarrow> target_switch" where
  "failed_switch reason sw = sw\<lparr>ts_state := Switch_FAILED, ts_reason := Some (take 512 reason)\<rparr>"

definition request_switch :: "string \<Rightarrow> string \<Rightarrow> runtime_target \<Rightarrow> runtime_target \<Rightarrow> string option \<Rightarrow> switch_hooks \<Rightarrow> (targets \<Rightarrow> targets) \<Rightarrow>
  targets \<Rightarrow> (string + target_switch) \<times> targets" where
  "request_switch x i requested expected runtime_id h meanwhile rows =
     (case current_target x rows of
        Inl e \<Rightarrow> (Inl e, rows)
      | Inr cur \<Rightarrow>
          if runtime_id \<noteq> None \<and> runtime_id \<noteq> Some x then (Inl ''OWNERSHIP_CONFLICT'', rows)
          else if bt_effective cur \<noteq> expected then (Inl ''OWNERSHIP_CONFLICT'', rows)
          else
            (case claim_switch x i requested expected rows of
               (Inl e, rows1) \<Rightarrow> (Inl e, rows1)
             | (Inr _, rows1) \<Rightarrow>
                 (let sw = \<lparr>ts_id = i, ts_execution = x, ts_state = Switch_PENDING, ts_previous = bt_effective cur,
                            ts_requested = requested, ts_effective = bt_effective cur, ts_reason = None\<rparr>;
                      rows2 = meanwhile rows1
                  in case run_hooks requested h of
                       Inl reason \<Rightarrow> (Inr (failed_switch reason sw), fail_switch x i rows2)
                     | Inr _ \<Rightarrow>
                         (case commit_switch x i requested rows2 of
                            (Inl reason, rows3) \<Rightarrow> (Inr (failed_switch reason sw), fail_switch x i rows3)
                          | (Inr _, rows3) \<Rightarrow> (Inr (sw\<lparr>ts_state := Switch_COMMITTED, ts_effective := requested\<rparr>), rows3)))))"

definition record_fallback :: "string \<Rightarrow> string \<Rightarrow> runtime_target \<Rightarrow> string \<Rightarrow> targets \<Rightarrow> (string + target_row) \<times> targets" where
  "record_fallback x i t reason rows =
     (case current_target x rows of
        Inl e \<Rightarrow> (Inl e, rows)
      | Inr cur \<Rightarrow>
          if bt_configured cur = t then (Inl ''FALLBACK_NOT_A_CHANGE'', rows)
          else
            (let rows1 = edit_target x (\<lambda>r. r\<lparr>bt_state := Switch_FALLBACK, bt_effective := t, bt_fallback := Some (take 512 reason),
                            bt_switch := Some i\<rparr>) rows
             in (current_target x rows1, rows1)))"

section \<open>Lemmas\<close>

lemma get_edit_target:
  assumes "\<And>r. bt_execution (f r) = bt_execution r"
  shows "row_get bt_execution y (edit_target x f rows) =
    (if y = x then map_option (\<lambda>r. (f r)\<lparr>bt_version := bt_version r + 1\<rparr>) (row_get bt_execution x rows) else row_get bt_execution y rows)"
  using assms by (induction rows) (auto simp: edit_target_def row_get_def)

lemma edit_get:
  "row_get bt_execution x rows = Some r \<Longrightarrow> (\<And>r. bt_execution (f r) = bt_execution r) \<Longrightarrow>
   row_get bt_execution x (edit_target x f rows) = Some ((f r)\<lparr>bt_version := bt_version r + 1\<rparr>)"
  by (simp add: get_edit_target)

lemma get_fail [simp]:
  "row_get bt_execution y (fail_switch x i rows) =
    (if y = x then map_option (\<lambda>r. r\<lparr>bt_state := Switch_FAILED, bt_pending := None, bt_switch := Some i, bt_version := bt_version r + 1\<rparr>)
       (row_get bt_execution x rows) else row_get bt_execution y rows)"
  unfolding fail_switch_def by (subst get_edit_target) auto

definition effective_of :: "string \<Rightarrow> targets \<Rightarrow> runtime_target option" where
  "effective_of x rows = map_option bt_effective (row_get bt_execution x rows)"

lemma effective_fail [simp]: "effective_of y (fail_switch x i rows) = effective_of y rows"
  by (auto simp: effective_of_def option.map_comp comp_def)

lemma effective_claim: "effective_of y (snd (claim_switch x i requested expected rows)) = effective_of y rows"
  by (auto simp: claim_switch_def effective_of_def get_edit_target option.map_comp comp_def split: option.split)

lemma switch_commit_cases:
  "commit_switch x i requested rows =
     (if map_option bt_switch (row_get bt_execution x rows) = Some (Some i) then
        (Inr (), edit_target x (\<lambda>r. r\<lparr>bt_state := Switch_COMMITTED, bt_effective := requested, bt_pending := None\<rparr>) rows)
      else (Inl ''OWNERSHIP_CONFLICT: switch ownership changed before commit'', rows))"
  by (auto simp: commit_switch_def split: option.split)

lemma request_cases:
  assumes "request_switch x i requested expected runtime_id h meanwhile rows = (r, rows')"
  obtains (refused) e where "r = Inl e" "rows' = rows"
  | (failed) rows1 sw where "fst (claim_switch x i requested expected rows) = Inr ()" "rows1 = snd (claim_switch x i requested expected rows)"
      "r = Inr sw" "ts_state sw = Switch_FAILED" "rows' = fail_switch x i (meanwhile rows1)"
      "run_hooks requested h = Inr () \<Longrightarrow> map_option bt_switch (row_get bt_execution x (meanwhile rows1)) \<noteq> Some (Some i)"
  | (committed) rows1 sw where "fst (claim_switch x i requested expected rows) = Inr ()" "rows1 = snd (claim_switch x i requested expected rows)"
      "r = Inr sw" "ts_state sw = Switch_COMMITTED" "run_hooks requested h = Inr ()"
      "map_option bt_switch (row_get bt_execution x (meanwhile rows1)) = Some (Some i)"
      "rows' = edit_target x (\<lambda>r. r\<lparr>bt_state := Switch_COMMITTED, bt_effective := requested, bt_pending := None\<rparr>) (meanwhile rows1)"
proof (cases "claim_switch x i requested expected rows")
  case (Pair c rows1)
  show thesis
  proof (cases c)
    case (Inl e)
    then have "rows1 = rows" using Pair by (auto simp: claim_switch_def split: option.splits if_splits)
    then have "\<exists>e. r = Inl e" "rows' = rows"
      using assms Pair Inl by (auto simp: request_switch_def split: sum.splits if_splits)
    then show thesis using refused by blast
  next
    case (Inr u)
    consider (no) e where "r = Inl e" "rows' = rows"
      | (hooks) reason sw where "run_hooks requested h = Inl reason" "r = Inr (failed_switch reason sw)" "rows' = fail_switch x i (meanwhile rows1)"
      | (lost) reason sw where "run_hooks requested h = Inr ()" "map_option bt_switch (row_get bt_execution x (meanwhile rows1)) \<noteq> Some (Some i)"
          "r = Inr (failed_switch reason sw)" "rows' = fail_switch x i (meanwhile rows1)"
      | (won) sw where "run_hooks requested h = Inr ()" "map_option bt_switch (row_get bt_execution x (meanwhile rows1)) = Some (Some i)"
          "r = Inr sw" "ts_state sw = Switch_COMMITTED"
          "rows' = edit_target x (\<lambda>r. r\<lparr>bt_state := Switch_COMMITTED, bt_effective := requested, bt_pending := None\<rparr>) (meanwhile rows1)"
      using assms Pair Inr
      by (auto simp: request_switch_def Let_def switch_commit_cases split: sum.splits if_splits)
    then show thesis
      by cases (use Pair Inr in \<open>auto simp: failed_switch_def intro: refused failed[of rows1] committed[of rows1]\<close>)
  qed
qed

text \<open>A switch decides the route exactly when it commits. Whatever other processes write while the
  provider is prepared, a committed switch leaves the requested route effective, and a switch
  that is refused or fails leaves the effective route as the others left it.\<close>

theorem switch_decides_target:
  assumes "request_switch x i requested expected runtime_id h meanwhile rows = (r, rows')"
    and "claim_switch x i requested expected rows = (c, rows1)"
  shows "case r of
      Inl _ \<Rightarrow> effective_of x rows' = effective_of x rows
    | Inr sw \<Rightarrow>
        if ts_state sw = Switch_COMMITTED then effective_of x rows' = Some requested \<and> effective_of x rows = Some expected
        else ts_state sw = Switch_FAILED \<and> effective_of x rows' = effective_of x (meanwhile rows1)"
  using assms(1)
proof (cases rule: request_cases)
  case (refused e)
  then show ?thesis by simp
next
  case (failed rows2 sw)
  then show ?thesis using assms(2) by simp
next
  case (committed rows2 sw)
  then have "effective_of x rows' = Some requested"
    by (auto simp: effective_of_def get_edit_target)
  moreover have "effective_of x rows = Some expected"
    using committed(1) by (auto simp: claim_switch_def effective_of_def split: option.splits if_splits)
  ultimately show ?thesis using committed by simp
qed

definition sample_target :: "string \<Rightarrow> runtime_target" where
  "sample_target p = \<lparr>tg_provider = p, tg_model = ''m'', tg_endpoint = ''e'', tg_host = ''e'', tg_fingerprint = ''f'', tg_credential = ''c'', tg_route = ''r''\<rparr>"

definition sample_targets :: targets where
  "sample_targets = snd (bind_target ''run'' (sample_target ''p'') (Some ''run'') None [])"

definition ready_hooks :: "runtime_target \<Rightarrow> switch_hooks" where
  "ready_hooks t = \<lparr>sh_prepare = Inr (Some (Some t)), sh_confirm = Inr True, sh_install = Inr ()\<rparr>"

lemmas switch_run = request_switch_def current_target_def claim_switch_def commit_switch_def fail_switch_def edit_target_def row_get_def
  row_create_def bind_target_def sample_targets_def ready_hooks_def run_hooks_def failed_switch_def effective_of_def Let_def

lemma sample_target_inj [simp]: "sample_target p = sample_target q \<longleftrightarrow> p = q"
  by (simp add: sample_target_def)

theorem switch_decides_target_witness:
  "effective_of ''run'' (snd (request_switch ''run'' ''i'' (sample_target ''q'') (sample_target ''p'') (Some ''run'') (ready_hooks (sample_target ''q''))
     id sample_targets)) = Some (sample_target ''q'')"
proof -
  let ?r = "request_switch ''run'' ''i'' (sample_target ''q'') (sample_target ''p'') (Some ''run'') (ready_hooks (sample_target ''q'')) id sample_targets"
  have "map_sum id ts_state (fst ?r) = Inr Switch_COMMITTED" by (simp add: switch_run)
  then obtain sw where "fst ?r = Inr sw" "ts_state sw = Switch_COMMITTED" by (cases "fst ?r") auto
  with switch_decides_target[OF prod.collapse[symmetric] prod.collapse[symmetric], where x = "''run''" and i = "''i''" and requested = "sample_target ''q''"
      and expected = "sample_target ''p''" and runtime_id = "Some ''run''" and h = "ready_hooks (sample_target ''q'')" and meanwhile = id and rows = sample_targets]
  show ?thesis by simp
qed

text \<open>The guard is not kept by a switch that loses. Let another switch of the same execution run from
  start to end while this one prepares its provider: the other commits, this one finds at its
  commit that the row is not its own, and its failure is then written over the winner's row. The
  route the winner installed is effective, but the row says that a failed switch, this one, was
  the last, and its version has moved on.\<close>

theorem losing_switch_overwrites:
  assumes "row_get bt_execution x rows = Some row" and "bt_effective row = expected" and "i \<noteq> j"
    and "run_hooks other h2 = Inr ()" and "run_hooks requested h = Inr ()"
    and "request_switch x i requested expected None h (\<lambda>db. snd (request_switch x j other expected None h2 id db)) rows = (r, rows')"
  shows "\<exists>sw row'. r = Inr sw \<and> ts_state sw = Switch_FAILED \<and> row_get bt_execution x rows' = Some row' \<and>
    bt_effective row' = other \<and> bt_state row' = Switch_FAILED \<and> bt_switch row' = Some i \<and> bt_version row' = bt_version row + 4"
proof -
  have cl: "claim_switch x k t expected db = (Inr (), edit_target x (\<lambda>r. r\<lparr>bt_state := Switch_PENDING, bt_pending := Some t, bt_switch := Some k\<rparr>) db)"
    if "row_get bt_execution x db = Some rw" "bt_effective rw = expected" for k t db rw
    using that by (simp add: claim_switch_def)
  let ?one = "edit_target x (\<lambda>r. r\<lparr>bt_state := Switch_PENDING, bt_pending := Some requested, bt_switch := Some i\<rparr>) rows"
  let ?row1 = "row\<lparr>bt_state := Switch_PENDING, bt_pending := Some requested, bt_switch := Some i, bt_version := bt_version row + 1\<rparr>"
  let ?row2 = "?row1\<lparr>bt_state := Switch_PENDING, bt_pending := Some other, bt_switch := Some j, bt_version := bt_version row + 2\<rparr>"
  let ?row3 = "?row2\<lparr>bt_state := Switch_COMMITTED, bt_effective := other, bt_pending := None, bt_version := bt_version row + 3\<rparr>"
  have one: "row_get bt_execution x ?one = Some ?row1" by (subst edit_get[OF assms(1)]) simp_all
  let ?two = "edit_target x (\<lambda>r. r\<lparr>bt_state := Switch_PENDING, bt_pending := Some other, bt_switch := Some j\<rparr>) ?one"
  have two: "row_get bt_execution x ?two = Some ?row2" by (subst edit_get[OF one]) simp_all
  let ?three = "edit_target x (\<lambda>r. r\<lparr>bt_state := Switch_COMMITTED, bt_effective := other, bt_pending := None\<rparr>) ?two"
  have three: "row_get bt_execution x ?three = Some ?row3" by (subst edit_get[OF two]) simp_all
  have inner: "snd (request_switch x j other expected None h2 id ?one) = ?three"
    using one assms(2,4) cl[OF one, of j other] two by (simp add: request_switch_def current_target_def Let_def switch_commit_cases)
  have "request_switch x i requested expected None h (\<lambda>db. snd (request_switch x j other expected None h2 id db)) rows =
      (Inr (failed_switch ''OWNERSHIP_CONFLICT: switch ownership changed before commit''
        \<lparr>ts_id = i, ts_execution = x, ts_state = Switch_PENDING, ts_previous = expected, ts_requested = requested, ts_effective = expected,
         ts_reason = None\<rparr>), fail_switch x i ?three)"
    unfolding request_switch_def[of x i] using assms(1,2,3,5) cl[OF assms(1,2), of i requested] inner three
    by (simp add: current_target_def Let_def switch_commit_cases)
  with assms(6) three show ?thesis by (auto simp: failed_switch_def)
qed

theorem losing_switch_overwrites_witness:
  "let db = snd (request_switch ''run'' ''i'' (sample_target ''q'') (sample_target ''p'') None (ready_hooks (sample_target ''q''))
       (\<lambda>db. snd (request_switch ''run'' ''j'' (sample_target ''z'') (sample_target ''p'') None (ready_hooks (sample_target ''z'')) id db)) sample_targets)
   in effective_of ''run'' db = Some (sample_target ''z'') \<and> map_option bt_state (row_get bt_execution ''run'' db) = Some Switch_FAILED"
proof -
  obtain row where row: "row_get bt_execution ''run'' sample_targets = Some row" "bt_effective row = sample_target ''p''"
    by (simp add: sample_targets_def bind_target_def row_create_def row_get_def Let_def)
  have h: "run_hooks (sample_target p) (ready_hooks (sample_target p)) = Inr ()" for p
    by (simp add: run_hooks_def ready_hooks_def)
  from losing_switch_overwrites[OF row _ h h prod.collapse[symmetric], of "''i''" "''j''" "''q''" "''z''"]
  show ?thesis by (auto simp: effective_of_def Let_def)
qed

lemma find_change:
  "(\<And>r. hr_id (g r) = hr_id r) \<Longrightarrow>
   List.find (\<lambda>r. hr_id r = k) (map (\<lambda>r. if hr_id r = c then g r else r) db) =
     (if k = c then map_option g (List.find (\<lambda>r. hr_id r = k) db) else List.find (\<lambda>r. hr_id r = k) db)"
  by (induction db) auto

lemma find_new: "List.find P (db @ [r]) = (case List.find P db of None \<Rightarrow> if P r then Some r else None | Some x \<Rightarrow> Some x)"
  by (induction db) auto

lemma recorded_health:
  "row_get hr_id k (record_health u s c reason b db) =
     (if k \<noteq> composite_id u then row_get hr_id k db
      else Some (case row_get hr_id k db of
          None \<Rightarrow> \<lparr>hr_id = k, hr_target = u, hr_state = s, hr_category = c, hr_reason = take 512 reason, hr_blocked = b\<rparr>
        | Some r \<Rightarrow> r\<lparr>hr_state := s, hr_category := (case c of None \<Rightarrow> hr_category r | Some c \<Rightarrow> Some c),
                     hr_reason := take 512 reason, hr_blocked := b\<rparr>))"
  by (auto simp: record_health_def row_get_def row_create_def find_change find_new split: option.split)

text \<open>A blocked route stays blocked. Once a route is recorded as blocked for its quota or its
  credentials, it reads as blocked at every later time, whatever deadline was recorded with it,
  until something records another state for the same route.\<close>

theorem block_never_expires:
  assumes "st \<in> {QUOTA_BLOCKED, AUTH_BLOCKED}" and "\<forall>w\<in>set later. composite_id (fst w) \<noteq> composite_id t"
  shows "\<exists>r. get_health now t (fold (\<lambda>(u, s, c, reason, b). record_health u s c reason b) later (record_health t st category reason blocked rows)) = Some r \<and>
    hr_state r = st"
proof -
  have "row_get hr_id (composite_id t) (fold (\<lambda>(u, s, c, reason, b). record_health u s c reason b) later db) = row_get hr_id (composite_id t) db" for db
    using assms(2) by (induction later arbitrary: db) (auto simp: recorded_health)
  with assms(1) show ?thesis by (auto simp: get_health_def recorded_health split: option.split)
qed

theorem block_never_expires_witness:
  "\<exists>r. get_health 1000 (sample_target ''p'') (record_health (sample_target ''p'') QUOTA_BLOCKED (Some QUOTA_EXHAUSTED) ''monthly limit'' (Some 5) []) = Some r \<and>
     hr_state r = QUOTA_BLOCKED"
  using block_never_expires[of QUOTA_BLOCKED "[]" "sample_target ''p''" 1000 "Some QUOTA_EXHAUSTED" "''monthly limit''" "Some 5" "[]"] by simp

end
