(* ===== verification/NativeTools.thy ===== *)
theory NativeTools imports Observer NativeModels Parser ExecControl begin

text \<open>
  \<open>src/lhas/native/tools.py\<close> with \<open>ToolInvocationRepository\<close>: the dispatcher that authorises a tool
  call of the model, runs it through the tool contract (theory ToolContract), records what was
  observed, and decides after a restart what became of a call that was interrupted.

  \<^item> A dispatch is a sequence of stages with durable writes in each. The control token, the fault
    injector and the clock are an argument (\<open>dispatch_env\<close>); an exception leaves the rows written
    before it.
  \<^item> The specification a concrete tool carries (side effect, human approval) is a field of the
    dispatcher, as the tools themselves are functions.
  \<^item> Receipts keep their own log of events (theory SideEffects); the order of their events among the
    dispatcher's is not modelled.
\<close>

section \<open>Rows\<close>

datatype invocation_state = Inv_REQUESTED | Inv_STARTED | Inv_FINISHED | Inv_RECONCILED

datatype side_effect_class = Effect_READ_ONLY | Effect_WORKSPACE_MUTATION | Effect_DELEGATION | Effect_EXTERNAL

datatype reconciliation_decision = Recon_SAFE_TO_RETRY | Recon_DO_NOT_RETRY | Recon_RECONCILE_FIRST | Recon_UNKNOWN

primrec reconciliation_value :: "reconciliation_decision \<Rightarrow> string" where
  "reconciliation_value Recon_SAFE_TO_RETRY = ''SAFE_TO_RETRY''"
| "reconciliation_value Recon_DO_NOT_RETRY = ''DO_NOT_RETRY''"
| "reconciliation_value Recon_RECONCILE_FIRST = ''RECONCILE_FIRST''"
| "reconciliation_value Recon_UNKNOWN = ''UNKNOWN''"

record tool_invocation =
  ti_id :: string
  ti_task :: string
  ti_run :: string
  ti_attempt :: string
  ti_ordinal :: nat
  ti_capability :: string
  ti_args :: string
  ti_effect :: side_effect_class
  ti_state :: invocation_state
  ti_mutation :: bool
  ti_status :: "string option"
  ti_error :: "string option"
  ti_summary :: pydict
  ti_recon :: "reconciliation_decision option"

record tools_db =
  tb_rows :: "tool_invocation list"
  tb_receipts :: receipt_db
  tb_log :: event_log
  tb_observer :: observer

definition get_invocation :: "string \<Rightarrow> tools_db \<Rightarrow> tool_invocation option" where
  "get_invocation i db = row_get ti_id i (tb_rows db)"

definition create_invocation :: "tool_invocation \<Rightarrow> tools_db \<Rightarrow> tools_db" where
  "create_invocation v db = db\<lparr>tb_rows := row_create v (tb_rows db)\<rparr>"

text \<open>An update writes the state and the outcome; who asked for what stays.\<close>

definition overwrite_invocation :: "tool_invocation \<Rightarrow> tool_invocation \<Rightarrow> tool_invocation" where
  "overwrite_invocation v r =
     r\<lparr>ti_state := ti_state v, ti_mutation := ti_mutation v, ti_status := ti_status v, ti_error := ti_error v,
       ti_summary := ti_summary v, ti_recon := ti_recon v\<rparr>"

definition update_invocation :: "tool_invocation \<Rightarrow> tools_db \<Rightarrow> tools_db" where
  "update_invocation v db = db\<lparr>tb_rows := map (\<lambda>r. if ti_id r = ti_id v then overwrite_invocation v r else r) (tb_rows db)\<rparr>"

definition invocations_of :: "string \<Rightarrow> tools_db \<Rightarrow> tool_invocation list" where
  "invocations_of a db = sort_key ti_ordinal [r \<leftarrow> tb_rows db. ti_attempt r = a]"

definition unfinished_of :: "string \<Rightarrow> tools_db \<Rightarrow> tool_invocation list" where
  "unfinished_of a db = [r \<leftarrow> invocations_of a db. ti_state r \<in> {Inv_REQUESTED, Inv_STARTED}]"

section \<open>What is stored of a call\<close>

text \<open>\<open>_SECRET\<close>: a word for a credential, an equals sign or a colon, and what follows it.\<close>

definition credential_words :: "string list" where
  "credential_words = [''api_key'', ''api-key'', ''apikey'', ''authorization'', ''token'', ''secret'', ''password'']"

definition secret_value_char :: "char \<Rightarrow> bool" where
  "secret_value_char c \<longleftrightarrow> \<not> is_space c \<and> c \<noteq> CHR '','' \<and> c \<noteq> CHR '';''"

definition after_separator :: "string \<Rightarrow> string option" where
  "after_separator s =
     (case dropWhile is_space s of
        [] \<Rightarrow> None
      | c # cs \<Rightarrow>
          if c = CHR '':'' \<or> c = CHR ''='' then
            (let v = dropWhile is_space cs in if takeWhile secret_value_char v = [] then None else Some (dropWhile secret_value_char v))
          else None)"

definition match_secret :: "string \<Rightarrow> (string \<times> string) option" where
  "match_secret s =
     (case List.find (\<lambda>w. prefix w (casefold s) \<and> after_separator (drop (length w) s) \<noteq> None) credential_words of
        None \<Rightarrow> None
      | Some w \<Rightarrow> map_option (\<lambda>rest. (take (length w) s, rest)) (after_separator (drop (length w) s)))"

lemma after_separator_shorter: "after_separator s = Some r \<Longrightarrow> length r < length s"
proof -
  assume a: "after_separator s = Some r"
  then obtain c cs where c: "dropWhile is_space s = c # cs" "r = dropWhile secret_value_char (dropWhile is_space cs)"
    by (auto simp: after_separator_def Let_def split: list.splits if_splits)
  have "length r \<le> length cs"
    unfolding c(2) using length_dropWhile_le[of secret_value_char "dropWhile is_space cs"] length_dropWhile_le[of is_space cs] by linarith
  moreover have "length (c # cs) \<le> length s" using length_dropWhile_le[of is_space s] c(1) by simp
  ultimately show ?thesis by simp
qed

function redact :: "string \<Rightarrow> string" where
  "redact s =
     (case match_secret s of
        Some (w, rest) \<Rightarrow> w @ ''=[REDACTED]'' @ redact rest
      | None \<Rightarrow> (case s of [] \<Rightarrow> [] | c # cs \<Rightarrow> c # redact cs))"
  by pat_completeness auto
termination
proof (relation "measure length")
  fix s x w and rest :: string
  assume "match_secret s = Some x" "(w, rest) = x"
  then obtain k where "after_separator (drop k s) = Some rest"
    by (auto simp: match_secret_def split: option.splits)
  from after_separator_shorter[OF this] show "(rest, s) \<in> measure length" by simp
qed auto

function stored_value :: "nat \<Rightarrow> pyval \<Rightarrow> pyval" where
  "stored_value limit PNone = PNone"
| "stored_value limit (PBool b) = PBool b"
| "stored_value limit (PInt i) = PInt i"
| "stored_value limit (PStr s) = PStr (take limit (redact s))"
| "stored_value limit (PList xs) = PList (map (stored_value (max 256 (limit div 20))) (take 100 xs))"
| "stored_value limit (PDict d) = PDict (dict_of (map (\<lambda>(k, v). (take 128 k,
      if secret_key k then PStr ''[REDACTED]'' else stored_value (max 256 (limit div 20)) v)) (take 100 d)))"
  by pat_completeness auto
termination
proof (relation "measure (\<lambda>(n, v). size v)", goal_cases)
  case (2 limit xs x)
  then show ?case using size_list_elem[OF in_set_takeD[OF 2]] by simp
next
  case (3 limit d kv k v)
  from 3(1) have "(k, v) \<in> set d" using in_set_takeD 3(2) by metis
  from size_dict_value[OF this] show ?case by simp
qed simp

text \<open>The forensic projection of a call's arguments.\<close>

definition hashed_entry :: "(string \<Rightarrow> string) \<Rightarrow> pydict \<Rightarrow> string \<Rightarrow> pydict" where
  "hashed_entry sha args k =
     (case map_of args k of
        None \<Rightarrow> []
      | Some v \<Rightarrow> [(k @ ''_sha256'', PStr (stable_hash sha v)),
                   (k @ ''_count'', PInt (case v of PList xs \<Rightarrow> int (length xs) | _ \<Rightarrow> 1))])"

definition text_entry :: "(string \<Rightarrow> string) \<Rightarrow> pydict \<Rightarrow> string \<Rightarrow> pydict" where
  "text_entry sha args k =
     (case map_of args k of
        None \<Rightarrow> []
      | Some v \<Rightarrow> [(k @ ''_sha256'', PStr (sha (py_str v))), (k @ ''_length'', PInt (int (length (py_str v))))])"

definition safe_tool_arguments :: "(string \<Rightarrow> string) \<Rightarrow> string \<Rightarrow> pydict \<Rightarrow> pydict" where
  "safe_tool_arguments sha capability args =
     (''argument_keys'', str_list (sort (map (take 128 \<circ> fst) args))) #
     (if capability \<in> {''workspace.edit'', ''workspace.edit_lines''} then
        map (\<lambda>(k, v). (k, stored_value 512 v)) (pick [''path''] args) @
        map (\<lambda>(k, v). (k, stored_value 64 v)) (pick [''start_line'', ''end_line''] args) @
        text_entry sha args ''content'' @
        concat (map (hashed_entry sha args) [''replacement'', ''line'', ''lines'']) @
        concat (map (text_entry sha args) [''old_string'', ''new_string''])
      else [])"

section \<open>Requests\<close>

record agent_request =
  aq_agent :: string
  aq_objective :: string
  aq_context :: pydict
  aq_allowed :: "string list"
  aq_max_turns :: nat
  aq_max_calls :: nat
  aq_max_delegations :: nat
  aq_metadata :: pydict

definition active_contract :: "agent_request \<Rightarrow> pydict option" where
  "active_contract q = as_dict (dict_get (aq_context q) ''active_step_contract'')"

definition json_equal :: "pyval \<Rightarrow> pyval \<Rightarrow> bool" where
  "json_equal a b \<longleftrightarrow> json_compact a = json_compact b"

definition plan_arguments_match :: "agent_request \<Rightarrow> tool_call \<Rightarrow> bool" where
  "plan_arguments_match q c =
     (case active_contract q of
        None \<Rightarrow> True
      | Some k \<Rightarrow>
          (case dict_get_or k ''inputs'' (PDict []) of
             PDict expected \<Rightarrow>
               list_all (\<lambda>(key, v). case map_of (tc_arguments c) key of None \<Rightarrow> False | Some w \<Rightarrow> json_equal w v) expected
           | _ \<Rightarrow> True))"

definition position_text :: "native_snapshot \<Rightarrow> string" where
  "position_text s = (case sn_position s of None \<Rightarrow> [] | Some p \<Rightarrow> p)"

definition provenance :: "nat \<Rightarrow> agent_request \<Rightarrow> native_snapshot \<Rightarrow> pydict" where
  "provenance epoch q s =
     (let field = (\<lambda>k none. case active_contract q of None \<Rightarrow> none | Some c \<Rightarrow> PStr (py_str (dict_get_or c k (PStr []))))
      in [(''plan_id'', field ''plan_id'' PNone), (''plan_version'', field ''plan_version'' PNone),
          (''step_id'', field ''step_id'' (PStr (position_text s))), (''attempt_id'', PStr (sn_attempt s)),
          (''strategy_epoch'', PInt (int epoch)), (''execution_phase'', PStr (py_str (dict_get_or (aq_context q) ''execution_phase'' (PStr ''initial''))))])"

section \<open>The dispatcher\<close>

record tool_spec =
  sp_side_effect :: bool
  sp_approval :: bool

record dispatcher =
  dp_contract :: contract
  dp_tools :: "(tool_request, tool_result) tools"
  dp_spec :: "string \<Rightarrow> tool_spec"
  dp_allowed :: "string list"
  dp_effects :: "string list"
  dp_error_text :: "contract_exception \<Rightarrow> string"

text \<open>What the environment does during one dispatch.\<close>

datatype await_event = Await_done | Await_timeout control_failure | Await_stopped control_failure

record dispatch_env =
  dx_checks :: "nat \<Rightarrow> control_failure option"
  dx_fault :: "fault_point \<Rightarrow> bool"
  dx_await :: await_event
  dx_now :: nat
  dx_receipt :: string
  dx_duration :: nat
  dx_epoch :: nat
  dx_timeout :: "rat option"

datatype tool_exn = Control_stopped control_failure | Injected fault_point | Receipt_raised receipt_error | Summary_raised

definition windows_label :: platform_label where
  "windows_label = Label (Some ''windows'')"

definition spec_of :: "dispatcher \<Rightarrow> capability \<Rightarrow> (string \<times> tool_spec) option" where
  "spec_of dp c = map_option (\<lambda>t. (tl_name t, dp_spec dp (tl_name t))) (first_binding (bindings c) (dp_tools dp))"

definition definition_of :: "dispatcher \<Rightarrow> string \<Rightarrow> capability option" where
  "definition_of dp name = (case get_capability name (cn_catalog (dp_contract dp)) of Inl _ \<Rightarrow> None | Inr c \<Rightarrow> Some c)"

text \<open>What the model is shown.\<close>

definition tool_offered :: "dispatcher \<Rightarrow> string \<Rightarrow> capability option" where
  "tool_offered dp name =
     (case definition_of dp name of
        None \<Rightarrow> None
      | Some c \<Rightarrow>
          if cd_source c = ''runtime'' then None
          else if \<not> list_ex (\<lambda>r. cd_id (dr_capability r) = name \<and> dr_availability r = Available)
              (discover windows_label (Some (list_capabilities (dp_tools dp))) (Some (dp_tools dp)) (cn_catalog (dp_contract dp))) then None
          else
            (case resolve_name (cd_preferred c) (dp_tools dp) of
               Inl _ \<Rightarrow> Some c
             | Inr t \<Rightarrow>
                 (let sp = dp_spec dp (tl_name t)
                  in if sp_approval sp then None
                     else if sp_side_effect sp \<and> name \<notin> set (dp_effects dp) then None else Some c)))"

definition tool_schemas :: "dispatcher \<Rightarrow> string list option \<Rightarrow> pydict list" where
  "tool_schemas dp allowed =
     concat (map (\<lambda>name. case tool_offered dp name of
         None \<Rightarrow> []
       | Some c \<Rightarrow>
           [[(''type'', PStr ''function''),
             (''function'', PDict [(''name'', PStr (cd_name c)), (''description'', PStr (cd_description c)),
               (''parameters'', PDict (if cd_input c = [] then [(''type'', PStr ''object''), (''additionalProperties'', PBool False)] else cd_input c))])]])
       (sort (remdups (filter (\<lambda>n. case allowed of None \<Rightarrow> True | Some ns \<Rightarrow> n \<in> set ns) (dp_allowed dp)))))"

definition identity :: "(string \<Rightarrow> string) \<Rightarrow> string \<Rightarrow> string \<Rightarrow> string" where
  "identity sha attempt call = sha (attempt @ '':'' @ call)"

definition side_effect_class_of :: "string \<Rightarrow> tool_spec option \<Rightarrow> side_effect_class" where
  "side_effect_class_of name sp =
     (if name = ''platform.delegate'' then Effect_DELEGATION
      else if sp \<noteq> None \<and> sp_side_effect (the sp) then
        (if prefix ''workspace.'' name then Effect_WORKSPACE_MUTATION else Effect_EXTERNAL)
      else Effect_READ_ONLY)"

definition effect_class_of :: "string \<Rightarrow> capability \<Rightarrow> tool_spec option \<Rightarrow> effect_class" where
  "effect_class_of name c sp =
     (if cd_effect c \<noteq> EC_NONE then cd_effect c
      else if sp \<noteq> None \<and> sp_side_effect (the sp) then (if prefix ''workspace.'' name then LOCAL_REVERSIBLE else LOCAL_DURABLE)
      else EC_NONE)"

definition log_tool :: "native_event \<Rightarrow> tool_invocation \<Rightarrow> pydict \<Rightarrow> tools_db \<Rightarrow> tools_db" where
  "log_tool ty v payload db =
     db\<lparr>tb_log := store_append (Ev_Native ty) (Some (ti_task v)) (Some (ti_run v)) (Some (ti_attempt v)) payload (tb_log db)\<rparr>"

text \<open>A call whose identity is known is answered from its row.\<close>

definition duplicate_observation :: "tool_call \<Rightarrow> tool_invocation \<Rightarrow> pydict" where
  "duplicate_observation c r =
     [(''tool_call_id'', PStr (take 128 (tc_id c))), (''capability'', PStr (ti_capability r)),
      (''status'', PStr (case or_str (ti_status r) None of None \<Rightarrow> ''RECONCILIATION_REQUIRED'' | Some st \<Rightarrow> st)),
      (''error_type'', opt_str (ti_error r)),
      (''reconciliation'', PStr (reconciliation_value (case ti_recon r of None \<Rightarrow> Recon_DO_NOT_RETRY | Some d \<Rightarrow> d))),
      (''safe_summary'', PDict (ti_summary r)), (''duplicate_logical_invocation'', PBool True)]"

definition new_invocation :: "(string \<Rightarrow> string) \<Rightarrow> dispatcher \<Rightarrow> tool_call \<Rightarrow> native_snapshot \<Rightarrow> tool_invocation" where
  "new_invocation sha dp c s =
     (let sp = Option.bind (definition_of dp (tc_name c)) (map_option snd \<circ> spec_of dp)
      in \<lparr>ti_id = identity sha (sn_attempt s) (tc_id c), ti_task = sn_task s, ti_run = sn_run s, ti_attempt = sn_attempt s,
          ti_ordinal = sn_calls s + 1, ti_capability = take 128 (tc_name c), ti_args = args_signature sha (tc_arguments c),
          ti_effect = side_effect_class_of (tc_name c) sp, ti_state = Inv_REQUESTED, ti_mutation = False, ti_status = None,
          ti_error = None, ti_summary = [], ti_recon = None\<rparr>)"

definition requested_db :: "(string \<Rightarrow> string) \<Rightarrow> nat \<Rightarrow> tool_invocation \<Rightarrow> tool_call \<Rightarrow> agent_request \<Rightarrow> native_snapshot \<Rightarrow> tools_db \<Rightarrow> tools_db" where
  "requested_db sha epoch v c q s db =
     log_tool NATIVE_TOOL_REQUESTED v
       (provenance epoch q s @
        [(''invocation_id'', PStr (ti_id v)), (''capability'', PStr (ti_capability v)), (''ordinal'', PInt (int (ti_ordinal v))),
         (''args_sha256'', PStr (ti_args v)), (''arguments_sanitized'', PDict (safe_tool_arguments sha (tc_name c) (tc_arguments c)))])
       (create_invocation v db)"

text \<open>The policy boundary, in the order of its guards.\<close>

definition contract_mismatch :: "agent_request \<Rightarrow> tool_call \<Rightarrow> bool" where
  "contract_mismatch q c =
     (case active_contract q of
        None \<Rightarrow> False
      | Some k \<Rightarrow> dict_get k ''capability'' = PStr (tc_name c) \<and> \<not> plan_arguments_match q c)"

definition denial :: "dispatcher \<Rightarrow> tool_call \<Rightarrow> agent_request \<Rightarrow> native_snapshot \<Rightarrow> string option" where
  "denial dp c q s =
     (case definition_of dp (tc_name c) of
        None \<Rightarrow> Some ''UNKNOWN_CAPABILITY''
      | Some k \<Rightarrow>
          (let sp = map_option snd (spec_of dp k)
           in if tc_name c \<notin> set (dp_allowed dp) \<or> tc_name c \<notin> set (aq_allowed q) then Some ''CAPABILITY_NOT_ALLOWED''
              else if contract_mismatch q c then Some ''PLAN_STEP_ARGUMENTS_MISMATCH''
              else if tc_name c = ''platform.delegate'' \<and> length (sn_dependencies s) \<ge> aq_max_delegations q then Some ''DELEGATION_BUDGET_EXHAUSTED''
              else if pred_option (\<lambda>t. \<not> sp_side_effect t) sp \<or> tc_name c \<in> set (dp_effects dp) then
                (if pred_option (\<lambda>t. \<not> sp_approval t) sp then None else Some ''HUMAN_APPROVAL_REQUIRED'')
              else Some ''SIDE_EFFECT_NOT_ALLOWED''))"

definition denied_summary :: "tool_invocation \<Rightarrow> string \<Rightarrow> pydict" where
  "denied_summary v err = [(''capability'', PStr (ti_capability v)), (''status'', PStr ''FAILURE''), (''error_type'', PStr err)]"

definition finish_denied :: "tool_invocation \<Rightarrow> string \<Rightarrow> pydict \<Rightarrow> tools_db \<Rightarrow> pydict \<times> tools_db" where
  "finish_denied v err prov db =
     (let v' = v\<lparr>ti_state := Inv_FINISHED, ti_status := Some ''FAILURE'', ti_error := Some err, ti_summary := denied_summary v err\<rparr>
      in ([(''tool_call_id'', PStr (ti_id v)), (''safe_summary'', PDict (denied_summary v err))] @ denied_summary v err,
          log_tool NATIVE_TOOL_OBSERVED v' (prov @ [(''invocation_id'', PStr (ti_id v))] @ denied_summary v err) (update_invocation v' db)))"

text \<open>The stages before the tool runs: either the answer, or the call goes on.\<close>

datatype gate = Answer "tool_exn + pydict" | Proceed tool_invocation capability

definition dispatch_begin ::
  "(string \<Rightarrow> string) \<Rightarrow> dispatcher \<Rightarrow> dispatch_env \<Rightarrow> tool_call \<Rightarrow> agent_request \<Rightarrow> native_snapshot \<Rightarrow> tools_db \<Rightarrow> gate \<times> tools_db" where
  "dispatch_begin sha dp e c q s db =
     (case dx_checks e 0 of
        Some f \<Rightarrow> (Answer (Inl (Control_stopped f)), db)
      | None \<Rightarrow>
          (case get_invocation (identity sha (sn_attempt s) (tc_id c)) db of
             Some r \<Rightarrow> (Answer (Inr (duplicate_observation c r)), db)
           | None \<Rightarrow>
               (let v = new_invocation sha dp c s; db1 = requested_db sha (dx_epoch e) v c q s db
                in if dx_fault e AFTER_TOOL_REQUESTED then (Answer (Inl (Injected AFTER_TOOL_REQUESTED)), db1)
                   else
                     (case dx_checks e 1 of
                        Some f \<Rightarrow> (Answer (Inl (Control_stopped f)), db1)
                      | None \<Rightarrow>
                          (case (denial dp c q s, definition_of dp (tc_name c)) of
                             (None, Some k) \<Rightarrow> (Proceed v k, db1)
                           | (Some err, _) \<Rightarrow>
                               (let (obs, db2) = finish_denied v err (provenance (dx_epoch e) q s) db1 in (Answer (Inr obs), db2))
                           | (None, None) \<Rightarrow> (Answer (Inl Summary_raised), db1))))))"

text \<open>The receipt and the started row.\<close>

definition step_of :: "agent_request \<Rightarrow> native_snapshot \<Rightarrow> string" where
  "step_of q s =
     (case or_str (sn_position s) None of
        Some p \<Rightarrow> p
      | None \<Rightarrow> py_str (py_or (dict_get (aq_metadata q) ''step_id'') (PStr (''attempt:'' @ sn_attempt s))))"

definition receipt_request_of :: "dispatcher \<Rightarrow> tool_invocation \<Rightarrow> capability \<Rightarrow> tool_call \<Rightarrow> agent_request \<Rightarrow> native_snapshot \<Rightarrow> receipt_request" where
  "receipt_request_of dp v k c q s =
     \<lparr>rq_operation = ti_id v, rq_task = Some (sn_task s), rq_run = sn_run s, rq_attempt = sn_attempt s, rq_step = step_of q s,
      rq_tool_call = take 128 (tc_id c), rq_tool = (case spec_of dp k of None \<Rightarrow> tc_name c | Some (n, _) \<Rightarrow> n),
      rq_class = effect_class_of (tc_name c) k (map_option snd (spec_of dp k)),
      rq_target = PDict [(''workspace_ref'', dict_get (aq_metadata q) ''workspace_ref''), (''path'', dict_get (tc_arguments c) ''path''),
                         (''capability'', PStr (tc_name c))],
      rq_request = PDict [(''capability'', PStr (tc_name c)), (''arguments'', PDict (tc_arguments c))],
      rq_key = as_str (dict_get (aq_metadata q) ''idempotency_key''),
      rq_before = as_str (dict_get (aq_metadata q) ''workspace_before_digest''),
      rq_metadata = [(''task_id'', PStr (sn_task s)), (''workspace_ref'', dict_get (aq_metadata q) ''workspace_ref'')]\<rparr>"

definition with_receipts :: "(receipt_error + receipt) \<times> receipt_db \<Rightarrow> tools_db \<Rightarrow> (tool_exn + receipt) \<times> tools_db" where
  "with_receipts x db = (map_sum Receipt_raised id (fst x), db\<lparr>tb_receipts := snd x\<rparr>)"

definition open_receipt :: "(string \<Rightarrow> string) \<Rightarrow> dispatcher \<Rightarrow> dispatch_env \<Rightarrow> tool_invocation \<Rightarrow> capability \<Rightarrow> tool_call \<Rightarrow> agent_request \<Rightarrow>
  native_snapshot \<Rightarrow> tools_db \<Rightarrow> (tool_exn + string option) \<times> tools_db" where
  "open_receipt sha dp e v k c q s db =
     (if effect_class_of (tc_name c) k (map_option snd (spec_of dp k)) = EC_NONE then (Inr None, db)
      else
        (case with_receipts (begin_receipt sha (dx_receipt e) (dx_now e) (receipt_request_of dp v k c q s) (tb_receipts db)) db of
           (Inl err, db1) \<Rightarrow> (Inl err, db1)
         | (Inr r, db1) \<Rightarrow>
             (case with_receipts (mark_dispatch_started (dx_now e) (re_id r) (tb_receipts db1)) db1 of
                (Inl err, db2) \<Rightarrow> (Inl err, db2)
              | (Inr _, db2) \<Rightarrow> (Inr (Some (re_id r)), db2))))"

definition started_db :: "nat \<Rightarrow> tool_invocation \<Rightarrow> agent_request \<Rightarrow> native_snapshot \<Rightarrow> tools_db \<Rightarrow> tools_db" where
  "started_db epoch v q s db =
     log_tool NATIVE_TOOL_STARTED v
       (provenance epoch q s @ [(''invocation_id'', PStr (ti_id v)), (''capability'', PStr (ti_capability v))])
       (update_invocation (v\<lparr>ti_state := Inv_STARTED\<rparr>) db)"

text \<open>The call through the contract.\<close>

definition tool_failure :: "string \<Rightarrow> string \<Rightarrow> tool_result" where
  "tool_failure err msg =
     \<lparr>tr_status = Tool_FAILURE, tr_output = PNone, tr_artifacts = [], tr_error_type = Some err, tr_error_message = Some msg,
      tr_usage = [], tr_metadata = [], tr_evidence = None\<rparr>"

definition contract_request :: "dispatcher \<Rightarrow> dispatch_env \<Rightarrow> capability \<Rightarrow> tool_call \<Rightarrow> agent_request \<Rightarrow> native_snapshot \<Rightarrow> tool_request" where
  "contract_request dp e k c q s =
     \<lparr>tq_call = take 128 (tc_id c), tq_task = sn_task s, tq_run = sn_run s, tq_attempt = sn_attempt s, tq_capability = Some (tc_name c),
      tq_capability_id = Some (tc_name c), tq_tool = Some (case spec_of dp k of None \<Rightarrow> cd_preferred k | Some (n, _) \<Rightarrow> n),
      tq_arguments = tc_arguments c, tq_context = aq_context q, tq_timeout = dx_timeout e, tq_metadata = aq_metadata q\<rparr>"

definition run_contract :: "dispatcher \<Rightarrow> dispatch_env \<Rightarrow> capability \<Rightarrow> tool_call \<Rightarrow> agent_request \<Rightarrow> native_snapshot \<Rightarrow> tool_exn + tool_result" where
  "run_contract dp e k c q s =
     (case dx_await e of
        Await_stopped f \<Rightarrow> Inl (Control_stopped f)
      | Await_timeout f \<Rightarrow> Inr (tool_failure (ce_type f) (ce_reason f))
      | Await_done \<Rightarrow>
          (case invoke (dp_contract dp) (contract_request dp e k c q s) windows_label of
             Inl x \<Rightarrow> Inr (tool_failure ''TOOL_EXECUTION_ERROR'' (take 512 (dp_error_text dp x)))
           | Inr r \<Rightarrow> Inr r))"

text \<open>What becomes of the receipt.\<close>

definition settle_receipt :: "(string \<Rightarrow> string) \<Rightarrow> nat \<Rightarrow> string option \<Rightarrow> tool_result \<Rightarrow> tools_db \<Rightarrow> (tool_exn + unit) \<times> tools_db" where
  "settle_receipt sha now rid r db =
     (case rid of
        None \<Rightarrow> (Inr (), db)
      | Some i \<Rightarrow>
          (let x = (if tr_status r = Tool_SUCCESS then
                      (if dict_get (tr_metadata r) ''effect_policy'' = PStr ''DENIED_BY_PHASE_EFFECT_POLICY''
                       then reconcile sha now i None (Some False) None (tb_receipts db)
                       else mark_committed sha now i
                              (no_facts\<lparr>cf_result := tr_output r, cf_before := as_str (dict_get (output_dict r) ''before_sha256''),
                                        cf_after := as_str (dict_get (output_dict r) ''after_sha256'')\<rparr>) (tb_receipts db))
                    else mark_unknown now i (case or_str (tr_error_type r) None of None \<Rightarrow> ''TOOL_FAILURE'' | Some t \<Rightarrow> t) (tb_receipts db));
               (y, db') = with_receipts x db
           in (map_sum id (\<lambda>_. ()) y, db')))"

definition model_output :: "tool_result \<Rightarrow> pydict" where
  "model_output r = (case tr_output r of PDict d \<Rightarrow> d | v \<Rightarrow> [(''value'', v)])"

definition observed_change :: "string \<Rightarrow> tool_result \<Rightarrow> pydict \<Rightarrow> bool" where
  "observed_change name r summary \<longleftrightarrow>
     (let out = model_output r;
          before = py_or (dict_get summary ''before_sha256'') (dict_get out ''before_sha256'');
          after = py_or (dict_get summary ''after_sha256'') (dict_get out ''after_sha256'')
      in py_truthy (dict_get summary ''meaningful_mutation'') \<or>
         (py_truthy before \<and> py_truthy after \<and> \<not> py_eq before after) \<or>
         (name = ''workspace.edit'' \<and> tr_status r = Tool_SUCCESS \<and> list_ex (has_key out) [''checksum'', ''bytes_written'', ''lines_written'']) \<or>
         (name = ''platform.delegate'' \<and> tr_status r = Tool_SUCCESS))"

definition model_observation :: "dispatch_env \<Rightarrow> tool_invocation \<Rightarrow> tool_call \<Rightarrow> agent_request \<Rightarrow> tool_result \<Rightarrow> pydict \<Rightarrow> pydict" where
  "model_observation e v c q r summary =
     [(''tool_call_id'', PStr (take 128 (tc_id c))), (''capability'', PStr (tc_name c)), (''args_sha256'', PStr (ti_args v)),
      (''status'', PStr (tool_status_value (tr_status r))), (''error_type'', opt_str (tr_error_type r)),
      (''error_message'', stored_value 512 (opt_str (tr_error_message r))), (''safe_summary'', stored_value 8000 (PDict summary)),
      (''bounded_output'', stored_value 12000 (PDict (model_output r))), (''duration_ms'', PInt (int (dx_duration e))),
      (''active_step_contract_present'', PBool (active_contract q \<noteq> None)),
      (''planner_owned_arguments_match'', PBool (case active_contract q of
         None \<Rightarrow> False | Some k \<Rightarrow> dict_get k ''capability'' = PStr (tc_name c) \<and> plan_arguments_match q c)),
      (''observed_mutation'', PBool (observed_change (tc_name c) r summary))]"

definition finished_invocation :: "tool_invocation \<Rightarrow> string \<Rightarrow> tool_result \<Rightarrow> pydict \<Rightarrow> tool_invocation" where
  "finished_invocation v name r summary =
     v\<lparr>ti_mutation := observed_change name r summary, ti_state := Inv_FINISHED, ti_status := Some (tool_status_value (tr_status r)),
       ti_error := tr_error_type r, ti_summary := or_empty (stored_value 8000 (PDict summary))\<rparr>"

definition observed_db :: "dispatch_env \<Rightarrow> tool_invocation \<Rightarrow> agent_request \<Rightarrow> native_snapshot \<Rightarrow> tool_result \<Rightarrow> tools_db \<Rightarrow> tools_db" where
  "observed_db e v q s r db =
     log_tool NATIVE_TOOL_OBSERVED v
       (provenance (dx_epoch e) q s @
        [(''invocation_id'', PStr (ti_id v)), (''capability'', PStr (ti_capability v)), (''ordinal'', PInt (int (ti_ordinal v))),
         (''status'', opt_str (ti_status v)), (''error_type'', opt_str (ti_error v)), (''duration_ms'', PInt (int (dx_duration e))),
         (''observed_mutation'', PBool (ti_mutation v)), (''summary'', PDict (ti_summary v)),
         (''bounded_output'', stored_value 12000 (PDict (model_output r)))])
       (update_invocation v db)"

definition observe_receipt :: "(string \<Rightarrow> string) \<Rightarrow> nat \<Rightarrow> string option \<Rightarrow> tool_result \<Rightarrow> tools_db \<Rightarrow> (tool_exn + pydict) \<times> tools_db" where
  "observe_receipt sha now rid r db =
     (case Option.bind rid (\<lambda>i. row_get re_id i (rt_rows (tb_receipts db))) of
        None \<Rightarrow> (Inr [], db)
      | Some re \<Rightarrow>
          (let (y, db') = (if re_status re = COMMITTED then with_receipts (mark_observed sha now (re_id re) (tr_output r) (tb_receipts db)) db
                           else (Inr re, db))
           in (map_sum id (\<lambda>w. [(''side_effect_receipt'', PDict [(''receipt_id'', PStr (re_id w)),
                 (''effect_class'', PStr (effect_class_value (re_class w))), (''status'', PStr (receipt_status_value (re_status w)))])]) y, db')))"

text \<open>From the started row to the answer.\<close>

definition dispatch_end ::
  "(string \<Rightarrow> string) \<Rightarrow> dispatch_env \<Rightarrow> tool_invocation \<Rightarrow> string option \<Rightarrow> tool_call \<Rightarrow> agent_request \<Rightarrow> native_snapshot \<Rightarrow> tool_result \<Rightarrow>
   tools_db \<Rightarrow> (tool_exn + pydict) \<times> tools_db" where
  "dispatch_end sha e v rid c q s r db =
     (case dx_checks e 3 of
        Some f \<Rightarrow> (Inl (Control_stopped f), db)
      | None \<Rightarrow>
          if dx_fault e AFTER_TOOL_EXECUTED then (Inl (Injected AFTER_TOOL_EXECUTED), db)
          else
            (case settle_receipt sha (dx_now e) rid r db of
               (Inl err, db1) \<Rightarrow> (Inl err, db1)
             | (Inr _, db1) \<Rightarrow>
                 (case safe_tool_summary (tc_name c) (tc_arguments c) r of
                    None \<Rightarrow> (Inl Summary_raised, db1)
                  | Some plain \<Rightarrow>
                      (let (summary, ob) = decorate (tc_name c) (tc_arguments c) r plain (ti_args v) (tb_observer db1);
                           db2 = observed_db e (finished_invocation v (tc_name c) r summary) q s r (db1\<lparr>tb_observer := ob\<rparr>)
                       in (case observe_receipt sha (dx_now e) rid r db2 of
                             (Inl err, db3) \<Rightarrow> (Inl err, db3)
                           | (Inr extra, db3) \<Rightarrow>
                               if dx_fault e AFTER_TOOL_OBSERVED then (Inl (Injected AFTER_TOOL_OBSERVED), db3)
                               else (Inr (model_observation e v c q r summary @ extra), db3))))))"

definition dispatch_run ::
  "(string \<Rightarrow> string) \<Rightarrow> dispatcher \<Rightarrow> dispatch_env \<Rightarrow> tool_invocation \<Rightarrow> capability \<Rightarrow> tool_call \<Rightarrow> agent_request \<Rightarrow> native_snapshot \<Rightarrow>
   tools_db \<Rightarrow> (tool_exn + pydict) \<times> tools_db" where
  "dispatch_run sha dp e v k c q s db =
     (case open_receipt sha dp e v k c q s db of
        (Inl err, db1) \<Rightarrow> (Inl err, db1)
      | (Inr rid, db1) \<Rightarrow>
          (let db2 = started_db (dx_epoch e) v q s db1
           in if dx_fault e AFTER_TOOL_STARTED then (Inl (Injected AFTER_TOOL_STARTED), db2)
              else
                (case dx_checks e 2 of
                   Some f \<Rightarrow> (Inl (Control_stopped f), db2)
                 | None \<Rightarrow>
                     (case run_contract dp e k c q s of
                        Inl err \<Rightarrow> (Inl err, db2)
                      | Inr r \<Rightarrow> dispatch_end sha e v rid c q s r db2))))"

definition tool_dispatch ::
  "(string \<Rightarrow> string) \<Rightarrow> dispatcher \<Rightarrow> dispatch_env \<Rightarrow> tool_call \<Rightarrow> agent_request \<Rightarrow> native_snapshot \<Rightarrow> tools_db \<Rightarrow>
   (tool_exn + pydict) \<times> tools_db" where
  "tool_dispatch sha dp e c q s db =
     (case dispatch_begin sha dp e c q s db of
        (Answer r, db1) \<Rightarrow> (r, db1)
      | (Proceed v k, db1) \<Rightarrow> dispatch_run sha dp e v k c q s db1)"

section \<open>After a restart\<close>

text \<open>The probe is asked at most once per pass; \<open>None\<close> when it is missing or fails.\<close>

definition reconcile_decision :: "tool_invocation \<Rightarrow> receipt option \<Rightarrow> bool option \<Rightarrow> reconciliation_decision option" where
  "reconcile_decision v re probe =
     (if ti_state v = Inv_REQUESTED then Some Recon_SAFE_TO_RETRY
      else if ti_effect v = Effect_READ_ONLY then Some Recon_SAFE_TO_RETRY
      else if pred_option (\<lambda>r. re_status r \<notin> {COMMITTED, OBSERVED}) re then
        (if pred_option (\<lambda>r. re_status r \<noteq> COMMIT_STATE_UNKNOWN) re then None else Some Recon_UNKNOWN)
      else Some Recon_DO_NOT_RETRY)"

definition probed_decision :: "tool_invocation \<Rightarrow> bool option \<Rightarrow> reconciliation_decision" where
  "probed_decision v probe = (if probe = Some True \<or> ti_mutation v then Recon_DO_NOT_RETRY else Recon_RECONCILE_FIRST)"

definition reconcile_one :: "(string \<Rightarrow> string) \<Rightarrow> nat \<Rightarrow> bool option \<Rightarrow> tool_invocation \<Rightarrow> tools_db \<Rightarrow> (tool_exn + reconciliation_decision) \<times> tools_db" where
  "reconcile_one sha now probe v db =
     (let re = get_by_operation (ti_id v) (tb_receipts db)
      in case reconcile_decision v re probe of
           Some d \<Rightarrow> (Inr d, db)
         | None \<Rightarrow>
             (case re of
                None \<Rightarrow> (Inr (probed_decision v probe), db)
              | Some r \<Rightarrow>
                  (let (y, db') = with_receipts (reconcile sha now (re_id r) None probe None (tb_receipts db)) db
                   in (map_sum id (\<lambda>w. if re_status w \<in> {COMMITTED, OBSERVED} then Recon_DO_NOT_RETRY
                        else if re_status w = COMMIT_STATE_UNKNOWN then Recon_UNKNOWN else probed_decision v probe) y, db'))))"

definition reconciled_summary :: "tool_invocation \<Rightarrow> reconciliation_decision \<Rightarrow> pydict" where
  "reconciled_summary v d =
     [(''capability'', PStr (ti_capability v)), (''status'', PStr ''INTERRUPTED''), (''reconciliation'', PStr (reconciliation_value d)),
      (''args_sha256'', PStr (ti_args v))]"

definition reconciled_invocation :: "tool_invocation \<Rightarrow> reconciliation_decision \<Rightarrow> tool_invocation" where
  "reconciled_invocation v d =
     v\<lparr>ti_state := Inv_RECONCILED, ti_recon := Some d, ti_status := Some ''INTERRUPTED'', ti_error := Some ''PROCESS_INTERRUPTED'',
       ti_summary := reconciled_summary v d\<rparr>"

definition reconciled_observation :: "tool_invocation \<Rightarrow> reconciliation_decision \<Rightarrow> pydict" where
  "reconciled_observation v d =
     [(''capability'', PStr (ti_capability v)), (''status'', PStr ''INTERRUPTED''), (''reconciliation'', PStr (reconciliation_value d)),
      (''retry_was_automatic'', PBool False), (''safe_summary'', PDict (reconciled_summary v d))]"

fun reconcile_rows :: "(string \<Rightarrow> string) \<Rightarrow> nat \<Rightarrow> bool option \<Rightarrow> tool_invocation list \<Rightarrow> tools_db \<Rightarrow> (tool_exn + pydict list) \<times> tools_db" where
  "reconcile_rows sha now probe [] db = (Inr [], db)"
| "reconcile_rows sha now probe (v # vs) db =
     (case reconcile_one sha now probe v db of
        (Inl e, db1) \<Rightarrow> (Inl e, db1)
      | (Inr d, db1) \<Rightarrow>
          (let v' = reconciled_invocation v d;
               db2 = log_tool NATIVE_TOOL_RECONCILED v' ((''invocation_id'', PStr (ti_id v)) # reconciled_summary v d) (update_invocation v' db1)
           in (case reconcile_rows sha now probe vs db2 of
                 (Inl e, db3) \<Rightarrow> (Inl e, db3)
               | (Inr os, db3) \<Rightarrow> (Inr (reconciled_observation v d # os), db3))))"

definition reconcile_unfinished :: "(string \<Rightarrow> string) \<Rightarrow> nat \<Rightarrow> bool option \<Rightarrow> string \<Rightarrow> tools_db \<Rightarrow> (tool_exn + pydict list) \<times> tools_db" where
  "reconcile_unfinished sha now probe a db = reconcile_rows sha now probe (unfinished_of a db) db"

section \<open>What happens to rows\<close>

definition same_call :: "tool_invocation \<Rightarrow> tool_invocation \<Rightarrow> bool" where
  "same_call r r' \<longleftrightarrow>
     ti_id r' = ti_id r \<and> ti_attempt r' = ti_attempt r \<and> ti_ordinal r' = ti_ordinal r \<and> ti_capability r' = ti_capability r \<and>
     ti_args r' = ti_args r \<and> ti_effect r' = ti_effect r"

definition calls_kept :: "tools_db \<Rightarrow> tools_db \<Rightarrow> bool" where
  "calls_kept db db' \<longleftrightarrow> (\<forall>i r. get_invocation i db = Some r \<longrightarrow> (\<exists>r'. get_invocation i db' = Some r' \<and> same_call r r'))"

lemma calls_kept_refl [simp]: "calls_kept db db"
  by (simp add: calls_kept_def same_call_def)

lemma same_call_trans: "same_call a b \<Longrightarrow> same_call b c \<Longrightarrow> same_call a c"
  by (simp add: same_call_def)

lemma calls_kept_trans:
  assumes "calls_kept a b" and "calls_kept b c" shows "calls_kept a c"
  unfolding calls_kept_def
proof (intro allI impI)
  fix i r assume "get_invocation i a = Some r"
  then obtain r1 where r1: "get_invocation i b = Some r1" "same_call r r1" using assms(1) unfolding calls_kept_def by blast
  then obtain r2 where "get_invocation i c = Some r2" "same_call r1 r2" using assms(2) unfolding calls_kept_def by blast
  with r1 same_call_trans show "\<exists>r'. get_invocation i c = Some r' \<and> same_call r r'" by blast
qed

lemma rows_frame [simp]:
  "tb_rows (log_tool ty v p db) = tb_rows db" "tb_receipts (log_tool ty v p db) = tb_receipts db"
  "tb_observer (log_tool ty v p db) = tb_observer db"
  "tb_receipts (update_invocation v db) = tb_receipts db" "tb_observer (update_invocation v db) = tb_observer db"
  "tb_receipts (create_invocation v db) = tb_receipts db" "tb_observer (create_invocation v db) = tb_observer db"
  "tb_rows (snd (with_receipts x db)) = tb_rows db"
  by (simp_all add: log_tool_def update_invocation_def create_invocation_def with_receipts_def)

lemma get_frame [simp]:
  "get_invocation i (log_tool ty v p db) = get_invocation i db"
  "get_invocation i (snd (with_receipts x db)) = get_invocation i db"
  "get_invocation i (db\<lparr>tb_observer := ob\<rparr>) = get_invocation i db"
  by (simp_all add: get_invocation_def)

lemma overwrite_call [simp]: "ti_id (overwrite_invocation v r) = ti_id r" "same_call r (overwrite_invocation v r)"
  by (simp_all add: overwrite_invocation_def same_call_def)

lemma get_update_invocation:
  "get_invocation i (update_invocation v db) =
     (if i = ti_id v then map_option (overwrite_invocation v) (get_invocation i db) else get_invocation i db)"
proof -
  have "List.find (\<lambda>r. ti_id r = i) (map (\<lambda>r. if ti_id r = ti_id v then overwrite_invocation v r else r) rows) =
      (if i = ti_id v then map_option (overwrite_invocation v) (List.find (\<lambda>r. ti_id r = i) rows) else List.find (\<lambda>r. ti_id r = i) rows)" for rows
    by (induction rows) auto
  then show ?thesis by (simp add: get_invocation_def update_invocation_def row_get_def)
qed

lemma get_create_invocation:
  "get_invocation (ti_id v) db = None \<Longrightarrow> get_invocation i (create_invocation v db) = (if i = ti_id v then Some v else get_invocation i db)"
  by (simp add: get_invocation_def create_invocation_def row_get_create)

lemma update_kept [simp]: "calls_kept db (update_invocation v db)"
  by (auto simp: calls_kept_def get_update_invocation) (simp add: same_call_def)

lemma kept_frame [simp]:
  "calls_kept db (log_tool ty v p db') \<longleftrightarrow> calls_kept db db'" "calls_kept db (snd (with_receipts x db')) \<longleftrightarrow> calls_kept db db'"
  "calls_kept db (db'\<lparr>tb_observer := ob\<rparr>) \<longleftrightarrow> calls_kept db db'"
  by (simp_all add: calls_kept_def)

lemma update_kept_later: "calls_kept a b \<Longrightarrow> calls_kept a (update_invocation v b)"
  by (rule calls_kept_trans[OF _ update_kept])

lemma open_receipt_rows: "get_invocation i (snd (open_receipt sha dp e v k c q s db)) = get_invocation i db"
proof -
  define x where "x = with_receipts (begin_receipt sha (dx_receipt e) (dx_now e) (receipt_request_of dp v k c q s) (tb_receipts db)) db"
  have x: "get_invocation i (snd x) = get_invocation i db" by (simp add: x_def)
  show ?thesis
    unfolding open_receipt_def x_def[symmetric] using x
    by (cases x) (simp split: sum.split prod.split, metis get_frame(2) snd_conv)
qed

lemma settle_receipt_rows: "get_invocation i (snd (settle_receipt sha now rid r db)) = get_invocation i db"
  by (simp add: settle_receipt_def Let_def split_beta split: option.split)

lemma observe_receipt_rows: "get_invocation i (snd (observe_receipt sha now rid r db)) = get_invocation i db"
  by (simp add: observe_receipt_def Let_def split_beta split: option.split)

lemma dispatch_end_kept: "calls_kept db (snd (dispatch_end sha e v rid c q s r db))"
proof -
  obtain y db1 where a: "settle_receipt sha (dx_now e) rid r db = (y, db1)" by fastforce
  have a1: "calls_kept db db1" using settle_receipt_rows[of _ sha "dx_now e" rid r db] by (simp add: a calls_kept_def same_call_def)
  have b: "calls_kept db (snd (observe_receipt sha (dx_now e) rid r (observed_db e w q s r (db1\<lparr>tb_observer := ob\<rparr>))))" for w ob
  proof -
    have "calls_kept db (observed_db e w q s r (db1\<lparr>tb_observer := ob\<rparr>))"
      unfolding observed_db_def by (simp add: update_kept_later a1)
    then show ?thesis by (simp add: calls_kept_def observe_receipt_rows)
  qed
  show ?thesis
    unfolding dispatch_end_def a
    using a1 b by (auto simp: Let_def split: option.split sum.split prod.split) (metis snd_conv)+
qed

lemma dispatch_run_kept: "calls_kept db (snd (dispatch_run sha dp e v k c q s db))"
proof -
  obtain y db1 where a: "open_receipt sha dp e v k c q s db = (y, db1)" by fastforce
  have a1: "calls_kept db db1" using open_receipt_rows[of _ sha dp e v k c q s db] by (simp add: a calls_kept_def same_call_def)
  have b: "calls_kept db (started_db n v q s db1)" for n unfolding started_db_def by (simp add: update_kept_later a1)
  show ?thesis
    unfolding dispatch_run_def a
    using a1 b calls_kept_trans[OF b dispatch_end_kept] by (auto simp: Let_def split: option.split sum.split)
qed

lemma begin_cases:
  assumes "dispatch_begin sha dp e c q s db = (g, db1)"
  obtains (known) r where "get_invocation (identity sha (sn_attempt s) (tc_id c)) db = Some r" "db1 = db"
      "g = Answer (Inr (duplicate_observation c r)) \<or> (\<exists>f. g = Answer (Inl (Control_stopped f)))"
  | (stopped) f where "g = Answer (Inl (Control_stopped f))" "db1 = db" "dx_checks e 0 = Some f"
  | (fresh) "get_invocation (identity sha (sn_attempt s) (tc_id c)) db = None" "dx_checks e 0 = None"
      "\<And>i. get_invocation i db1 =
         (if i = identity sha (sn_attempt s) (tc_id c)
          then (case g of
                  Answer (Inr _) \<Rightarrow> Some ((new_invocation sha dp c s)\<lparr>ti_state := Inv_FINISHED, ti_status := Some ''FAILURE'',
                     ti_error := denial dp c q s, ti_summary := denied_summary (new_invocation sha dp c s) (the (denial dp c q s))\<rparr>)
                | _ \<Rightarrow> Some (new_invocation sha dp c s))
          else get_invocation i db)"
      "tb_receipts db1 = tb_receipts db" "tb_observer db1 = tb_observer db"
      "\<And>v k. g = Proceed v k \<Longrightarrow> v = new_invocation sha dp c s \<and> denial dp c q s = None \<and> definition_of dp (tc_name c) = Some k"
      "\<And>obs. g = Answer (Inr obs) \<Longrightarrow> denial dp c q s \<noteq> None"
proof (cases "dx_checks e 0")
  case (Some f)
  then show thesis using assms by (intro stopped) (auto simp: dispatch_begin_def)
next
  case None
  show thesis
  proof (cases "get_invocation (identity sha (sn_attempt s) (tc_id c)) db")
    case (Some r)
    with None assms show thesis by (intro known) (auto simp: dispatch_begin_def)
  next
    case new: None
    have id: "ti_id (new_invocation sha dp c s) = identity sha (sn_attempt s) (tc_id c)" by (simp add: new_invocation_def Let_def)
    let ?v = "new_invocation sha dp c s" and ?db = "requested_db sha (dx_epoch e) (new_invocation sha dp c s) c q s db"
    have db: "get_invocation i ?db = (if i = ti_id ?v then Some ?v else get_invocation i db)" for i
      unfolding requested_db_def using new id by (simp add: get_create_invocation)
    have ow: "overwrite_invocation (?v\<lparr>ti_state := a, ti_status := b, ti_error := x, ti_summary := y\<rparr>) ?v =
        ?v\<lparr>ti_state := a, ti_status := b, ti_error := x, ti_summary := y\<rparr>" for a b x y
      by (simp add: overwrite_invocation_def)
    have frame: "tb_receipts ?db = tb_receipts db" "tb_observer ?db = tb_observer db" by (simp_all add: requested_db_def)
    show thesis
      using assms None new
      by (intro fresh; simp add: dispatch_begin_def Let_def id finish_denied_def split: if_splits option.splits prod.splits;
          auto simp: db id get_update_invocation ow frame)
  qed
qed

lemma reconcile_one_rows: "tb_rows (snd (reconcile_one sha now probe v db)) = tb_rows db"
  by (auto simp: reconcile_one_def Let_def split_beta split: option.split)

lemma reconcile_rows_kept: "calls_kept db (snd (reconcile_rows sha now probe vs db))"
proof (induction vs arbitrary: db)
  case (Cons v vs)
  obtain y db1 where a: "reconcile_one sha now probe v db = (y, db1)" by fastforce
  have "tb_rows db1 = tb_rows db" using reconcile_one_rows[of sha now probe v db] a by simp
  then have a1: "calls_kept db db1" by (simp add: calls_kept_def get_invocation_def same_call_def)
  show ?case
    using a1 calls_kept_trans[OF _ Cons.IH]
    by (auto simp: a Let_def update_kept_later split: sum.split prod.split) (metis kept_frame(1) snd_conv update_kept_later)+
qed simp

section \<open>Each call runs once\<close>

text \<open>Whether the dispatch hands the call with this identity to the tool contract.\<close>

definition tool_runs ::
  "(string \<Rightarrow> string) \<Rightarrow> dispatcher \<Rightarrow> dispatch_env \<Rightarrow> tool_call \<Rightarrow> agent_request \<Rightarrow> native_snapshot \<Rightarrow> tools_db \<Rightarrow> string \<Rightarrow> bool" where
  "tool_runs sha dp e c q s db i \<longleftrightarrow>
     (case dispatch_begin sha dp e c q s db of
        (Answer _, _) \<Rightarrow> False
      | (Proceed v k, db1) \<Rightarrow>
          ti_id v = i \<and> (case fst (open_receipt sha dp e v k c q s db1) of Inl _ \<Rightarrow> False | Inr _ \<Rightarrow> \<not> dx_fault e AFTER_TOOL_STARTED \<and> dx_checks e 2 = None))"

datatype tools_op = Op_dispatch dispatcher dispatch_env tool_call agent_request native_snapshot | Op_reconcile nat "bool option" string

primrec tools_act :: "(string \<Rightarrow> string) \<Rightarrow> tools_op \<Rightarrow> tools_db \<Rightarrow> tools_db" where
  "tools_act sha (Op_dispatch dp e c q s) db = snd (tool_dispatch sha dp e c q s db)"
| "tools_act sha (Op_reconcile now probe a) db = snd (reconcile_unfinished sha now probe a db)"

primrec tool_runs_in :: "(string \<Rightarrow> string) \<Rightarrow> string \<Rightarrow> tools_op \<Rightarrow> tools_db \<Rightarrow> nat" where
  "tool_runs_in sha i (Op_dispatch dp e c q s) db = (if tool_runs sha dp e c q s db i then 1 else 0)"
| "tool_runs_in sha i (Op_reconcile now probe a) db = 0"

lemma dispatch_begin_kept: "calls_kept db (snd (dispatch_begin sha dp e c q s db))"
proof -
  obtain g db1 where a: "dispatch_begin sha dp e c q s db = (g, db1)" by fastforce
  show ?thesis
    using a
  proof (cases rule: begin_cases)
    case fresh
    then show ?thesis using a by (auto simp: calls_kept_def same_call_def)
  qed (simp_all add: a)
qed

lemma dispatch_kept: "calls_kept db (snd (tool_dispatch sha dp e c q s db))"
proof -
  obtain g db1 where a: "dispatch_begin sha dp e c q s db = (g, db1)" by fastforce
  have "calls_kept db db1" using dispatch_begin_kept[of db sha dp e c q s] a by simp
  then show ?thesis
    using calls_kept_trans[OF _ dispatch_run_kept] by (simp add: tool_dispatch_def a split: gate.split)
qed

lemma tools_act_kept: "calls_kept db (tools_act sha x db)"
  by (cases x) (simp_all add: dispatch_kept reconcile_unfinished_def reconcile_rows_kept)

lemma kept_some: "calls_kept db db' \<Longrightarrow> get_invocation i db \<noteq> None \<Longrightarrow> get_invocation i db' \<noteq> None"
  unfolding calls_kept_def by fastforce

lemma tool_runs_fresh:
  assumes "tool_runs sha dp e c q s db i"
  shows "get_invocation i db = None \<and> get_invocation i (snd (tool_dispatch sha dp e c q s db)) \<noteq> None"
proof -
  from assms obtain v k db1 where a: "dispatch_begin sha dp e c q s db = (Proceed v k, db1)" "ti_id v = i"
    unfolding tool_runs_def by (auto split: prod.splits gate.splits)
  from a(1) show ?thesis
  proof (cases rule: begin_cases)
    case fresh
    have v: "i = identity sha (sn_attempt s) (tc_id c)"
      using fresh(6)[OF refl] a(2) by (auto simp: new_invocation_def Let_def)
    have "get_invocation i db1 \<noteq> None" using fresh(3)[of i] v by simp
    then have "get_invocation i (snd (dispatch_run sha dp e v k c q s db1)) \<noteq> None" using kept_some[OF dispatch_run_kept] by blast
    then show ?thesis using fresh(1) v by (simp add: tool_dispatch_def a(1))
  qed simp_all
qed

interpretation running: once "tools_act sha" "tool_runs_in sha i" "\<lambda>db. get_invocation i db \<noteq> None" "\<lambda>_. True" for sha i
proof unfold_locales
  fix db :: tools_db and x
  show "get_invocation i db \<noteq> None \<Longrightarrow> get_invocation i (tools_act sha x db) \<noteq> None" by (rule kept_some[OF tools_act_kept])
  show "get_invocation i db \<noteq> None \<Longrightarrow> tool_runs_in sha i x db = 0" using tool_runs_fresh by (cases x) auto
  show "tool_runs_in sha i x db \<le> 1" by (cases x) auto
  show "0 < tool_runs_in sha i x db \<Longrightarrow> get_invocation i (tools_act sha x db) \<noteq> None" using tool_runs_fresh by (cases x) (auto split: if_splits)
qed simp_all

section \<open>Properties\<close>

text \<open>C24: A call of the model is executed at most once. Over any history of dispatches, whatever stops
  them or fails in them, and of reconciliations after a restart, the call with a given identity is
  handed to the tool contract at most one time, and never again once it has a row.
\<close>

theorem call_runs_once:
  "tally (tools_act sha) (tool_runs_in sha i) ops db \<le> (if get_invocation i db = None then 1 else 0)"
  using running.tally_once running.tally_spent by (cases "get_invocation i db = None") (auto simp del: not_None_eq)

text \<open>C25: A denied call has no effect. When the policy refuses a call it has not seen before, the
  answer names the reason, the row is FINISHED with that reason, no side effect receipt is opened,
  the observer is not told, and every other call's row stays as it was.
\<close>

theorem denied_call_has_no_effect:
  assumes "get_invocation (identity sha (sn_attempt s) (tc_id c)) db = None"
    and "denial dp c q s = Some err" and "dx_checks e 0 = None" and "dx_checks e 1 = None" and "\<not> dx_fault e AFTER_TOOL_REQUESTED"
  shows "\<exists>obs db'. tool_dispatch sha dp e c q s db = (Inr obs, db') \<and> dict_get obs ''error_type'' = PStr err \<and>
           tb_receipts db' = tb_receipts db \<and> tb_observer db' = tb_observer db \<and>
           (\<forall>i. get_invocation i db' =
              (if i = identity sha (sn_attempt s) (tc_id c)
               then Some ((new_invocation sha dp c s)\<lparr>ti_state := Inv_FINISHED, ti_status := Some ''FAILURE'', ti_error := Some err,
                      ti_summary := denied_summary (new_invocation sha dp c s) err\<rparr>)
               else get_invocation i db))"
proof -
  obtain g db1 where a: "dispatch_begin sha dp e c q s db = (g, db1)" by fastforce
  obtain obs where g: "g = Answer (Inr obs)" "dict_get obs ''error_type'' = PStr err"
    using assms a by (auto simp: dispatch_begin_def Let_def finish_denied_def denied_summary_def dict_get_def split: prod.splits)
  from a show ?thesis
  proof (cases rule: begin_cases)
    case fresh
    show ?thesis
      using fresh(3-5) g assms(2) by (intro exI[of _ obs] exI[of _ db1]) (simp add: tool_dispatch_def a)
  qed (use assms in simp_all)
qed

text \<open>A second call of an attempt with the id of an earlier one is not executed, whatever it asks
  for: it is answered with the earlier call's result. The parser numbers the calls of one response
  that come without an id, so the first calls of two responses of the same attempt collide.
\<close>

theorem calls_without_id_collide:
  assumes "parse_call json n (PDict r1) = Inr c1" and "parse_call json n (PDict r2) = Inr c2"
    and "\<not> py_truthy (dict_get r1 ''id'')" and "\<not> py_truthy (dict_get r2 ''id'')"
    and "sn_attempt s1 = sn_attempt s2"
    and "dx_checks e1 0 = None" and "dx_checks e2 0 = None"
    and "snd (tool_dispatch sha dp e1 c1 q s1 db) = db1"
  shows "\<exists>row. get_invocation (identity sha (sn_attempt s1) (tc_id c1)) db1 = Some row \<and>
           tool_dispatch sha dp e2 c2 q s2 db1 = (Inr (duplicate_observation c2 row), db1)"
proof -
  have id: "tc_id c1 = tc_id c2"
    using assms(1-4) by (auto simp: parse_call_def py_or_def Let_def split: pyval.splits if_splits option.splits)
  obtain g db2 where a: "dispatch_begin sha dp e1 c1 q s1 db = (g, db2)" by fastforce
  let ?i = "identity sha (sn_attempt s1) (tc_id c1)"
  have "get_invocation ?i db2 \<noteq> None"
    using a by (cases rule: begin_cases) (auto simp: assms(6) split: gate.split sum.split)
  then have "get_invocation ?i db1 \<noteq> None"
    unfolding assms(8)[symmetric] tool_dispatch_def a
    by (cases g) (simp_all add: kept_some[OF dispatch_run_kept] del: not_None_eq)
  then show ?thesis using id assms(5,7) by (auto simp: tool_dispatch_def dispatch_begin_def)
qed

text \<open>A shell call with an empty argument list takes the loop down. The call may pass the contract
  or fail in it; either way the summary of the result reads the first argument, the exception leaves
  the dispatcher, and the call's row is left unfinished.
\<close>

theorem empty_argv_escapes:
  assumes "dispatch_begin sha dp e c q s db = (Proceed v k, db1)"
    and "tc_name c = ''cli.exec''" and "dict_get_or (tc_arguments c) ''argv'' (PList [PNone]) = PList []"
  shows "\<exists>x row. fst (tool_dispatch sha dp e c q s db) = Inl x \<and>
           get_invocation (identity sha (sn_attempt s) (tc_id c)) (snd (tool_dispatch sha dp e c q s db)) = Some row \<and>
           ti_state row \<in> {Inv_REQUESTED, Inv_STARTED}"
proof -
  let ?i = "identity sha (sn_attempt s) (tc_id c)"
  have v: "v = new_invocation sha dp c s" "get_invocation ?i db1 = Some v"
    using assms(1) by (cases rule: begin_cases; simp)+
  have iv: "ti_id v = ?i" "ti_state v = Inv_REQUESTED" by (simp_all add: v(1) new_invocation_def Let_def)
  have none: "safe_tool_summary (tc_name c) (tc_arguments c) r = None" for r
    using assms(2,3) by (simp add: safe_tool_summary_def tool_entries_def first_word_def)
  obtain y db2 where o: "open_receipt sha dp e v k c q s db1 = (y, db2)" by fastforce
  have o2: "get_invocation ?i db2 = Some v" using open_receipt_rows[of ?i sha dp e v k c q s db1] o v(2) by simp
  have st: "\<exists>row. get_invocation ?i (started_db n v q s db2) = Some row \<and> (ti_state row = Inv_REQUESTED \<or> ti_state row = Inv_STARTED)" for n
    unfolding started_db_def using iv o2 by (simp add: get_update_invocation overwrite_invocation_def)
  have settle: "get_invocation ?i (snd (settle_receipt sha now rid r db3)) = get_invocation ?i db3" for now rid r db3
    by (rule settle_receipt_rows)
  have fin: "\<exists>x. fst (dispatch_end sha e v rid c q s r db3) = Inl x" for rid r db3
    unfolding dispatch_end_def none by (auto split: option.split sum.split prod.split)
  have fin2: "get_invocation ?i (snd (dispatch_end sha e v rid c q s r db3)) = get_invocation ?i db3" for rid r db3
    unfolding dispatch_end_def none using settle[of "dx_now e" rid r db3]
    by (auto split: option.split sum.split prod.split)
  show ?thesis
    using o2 st iv(2) fin fin2
    by (auto simp: tool_dispatch_def assms(1) dispatch_run_def o Let_def split: sum.split option.split)
qed

text \<open>What a reconciliation leaves of the rows.\<close>

lemma reconcile_rows_get:
  assumes "reconcile_rows sha now probe vs db = (Inr os, db')" and "distinct (map ti_id vs)"
    and "\<forall>v\<in>set vs. get_invocation (ti_id v) db = Some v"
  shows "(\<forall>v\<in>set vs. \<exists>d dbv. fst (reconcile_one sha now probe v dbv) = Inr d \<and>
              get_invocation (ti_id v) db' = Some (reconciled_invocation v d)) \<and>
         (\<forall>i. i \<notin> ti_id ` set vs \<longrightarrow> get_invocation i db' = get_invocation i db)"
  using assms
proof (induction vs arbitrary: db os)
  case (Cons v vs)
  obtain y db1 where a: "reconcile_one sha now probe v db = (y, db1)" by fastforce
  have rows: "get_invocation i db1 = get_invocation i db" for i
    using reconcile_one_rows[of sha now probe v db] a by (simp add: get_invocation_def)
  from Cons.prems(1) obtain d where d: "y = Inr d" by (auto simp: a split: sum.splits)
  let ?v = "reconciled_invocation v d"
  let ?db2 = "log_tool NATIVE_TOOL_RECONCILED ?v ((''invocation_id'', PStr (ti_id v)) # reconciled_summary v d) (update_invocation ?v db1)"
  from Cons.prems(1) obtain os1 where r: "reconcile_rows sha now probe vs ?db2 = (Inr os1, db')"
    by (auto simp: a d Let_def split: sum.splits prod.splits)
  have id: "ti_id ?v = ti_id v" by (simp add: reconciled_invocation_def)
  have own: "overwrite_invocation ?v v = ?v" by (simp add: overwrite_invocation_def reconciled_invocation_def)
  have g: "get_invocation i ?db2 = (if i = ti_id v then Some ?v else get_invocation i db)" for i
    using Cons.prems(3) by (simp add: get_update_invocation id rows own)
  have ne: "ti_id u \<noteq> ti_id v" if "u \<in> set vs" for u
    using Cons.prems(2) that by (metis distinct.simps(2) image_eqI list.set_map list.simps(9))
  have rest: "\<forall>u\<in>set vs. get_invocation (ti_id u) ?db2 = Some u" using Cons.prems(3) ne g by auto
  have ih: "(\<forall>u\<in>set vs. \<exists>d dbv. fst (reconcile_one sha now probe u dbv) = Inr d \<and> get_invocation (ti_id u) db' = Some (reconciled_invocation u d)) \<and>
      (\<forall>i. i \<notin> ti_id ` set vs \<longrightarrow> get_invocation i db' = get_invocation i ?db2)"
    using Cons.IH[OF r _ rest] Cons.prems(2) by simp
  have nin: "ti_id v \<notin> ti_id ` set vs"
    using ne by (metis imageE)
  then have "get_invocation (ti_id v) db' = Some ?v" using conjunct2[OF ih, rule_format, OF nin] g by simp
  moreover have "fst (reconcile_one sha now probe v db) = Inr d" by (simp add: a d)
  moreover have "get_invocation i db' = get_invocation i db" if "i \<notin> ti_id ` set (v # vs)" for i
    using conjunct2[OF ih, rule_format, of i] g that by simp
  ultimately show ?case using conjunct1[OF ih] by (metis set_ConsD)
qed simp

lemma reconcile_one_decision:
  assumes "fst (reconcile_one sha now probe v db) = Inr d"
  shows "(d = Recon_SAFE_TO_RETRY \<longleftrightarrow> ti_state v = Inv_REQUESTED \<or> ti_effect v = Effect_READ_ONLY) \<and>
         (d = Recon_RECONCILE_FIRST \<longrightarrow> probe \<noteq> Some True \<and> \<not> ti_mutation v)"
  using assms
  by (auto simp: reconcile_one_def reconcile_decision_def probed_decision_def Let_def split_beta map_sum_Inr split: option.splits if_splits)

lemma reconciled_state: "ti_state (reconciled_invocation v d) = Inv_RECONCILED" "ti_recon (reconciled_invocation v d) = Some d"
  "ti_attempt (reconciled_invocation v d) = ti_attempt v"
  by (simp_all add: reconciled_invocation_def)

lemma unfinished_member:
  assumes "distinct (map ti_id (tb_rows db))"
  shows "v \<in> set (unfinished_of a db) \<longleftrightarrow>
           get_invocation (ti_id v) db = Some v \<and> ti_attempt v = a \<and> ti_state v \<in> {Inv_REQUESTED, Inv_STARTED}"
proof -
  have "v \<in> set (tb_rows db) \<longleftrightarrow> get_invocation (ti_id v) db = Some v"
    unfolding get_invocation_def using row_get_distinct[OF assms] row_get_mem[of ti_id "ti_id v" "tb_rows db" v] by auto
  then show ?thesis by (auto simp: unfinished_of_def invocations_of_def)
qed

lemma reconcile_rows_ids: "map ti_id (tb_rows (snd (reconcile_rows sha now probe vs db))) = map ti_id (tb_rows db)"
proof (induction vs arbitrary: db)
  case (Cons v vs)
  obtain y db1 where a: "reconcile_one sha now probe v db = (y, db1)" by fastforce
  have 1: "tb_rows db1 = tb_rows db" using reconcile_one_rows[of sha now probe v db] a by simp
  have 2: "map ti_id (tb_rows (update_invocation w dbx)) = map ti_id (tb_rows dbx)" for w dbx
    by (simp add: update_invocation_def comp_def if_distrib cong: if_cong)
  have 3: "map ti_id (tb_rows (snd (reconcile_rows sha now probe vs (log_tool ty w p (update_invocation w db1))))) = map ti_id (tb_rows db)" for ty w p
    using Cons.IH by (simp add: 2 1)
  show ?case using 3 1 by (auto simp: a Let_def split: sum.split prod.split) (metis snd_conv)+
qed simp

text \<open>After a restart every interrupted call of the attempt is settled. Reconciliation leaves no
  unfinished row of the attempt and touches no other row; a call is declared safe to retry exactly
  when it never started or only reads, and a call for which the probe or its own row reports a
  change is never handed out for another reconciliation.
\<close>

theorem reconcile_settles_interrupted:
  assumes "reconcile_unfinished sha now probe a db = (Inr os, db')" and "distinct (map ti_id (tb_rows db))"
  shows "unfinished_of a db' = [] \<and>
         (\<forall>v\<in>set (unfinished_of a db).
            \<exists>d. get_invocation (ti_id v) db' = Some (reconciled_invocation v d) \<and>
              (d = Recon_SAFE_TO_RETRY \<longleftrightarrow> ti_state v = Inv_REQUESTED \<or> ti_effect v = Effect_READ_ONLY) \<and>
              (d = Recon_RECONCILE_FIRST \<longrightarrow> probe \<noteq> Some True \<and> \<not> ti_mutation v)) \<and>
         (\<forall>i. i \<notin> ti_id ` set (unfinished_of a db) \<longrightarrow> get_invocation i db' = get_invocation i db)"
proof -
  let ?vs = "unfinished_of a db"
  note mem = unfinished_member[OF assms(2)]
  have dist: "distinct (map ti_id ?vs)"
  proof -
    have "distinct (map ti_id [r \<leftarrow> tb_rows db. ti_attempt r = a])" using assms(2) by (rule distinct_map_filter)
    then have "distinct (map ti_id (invocations_of a db))"
      by (simp add: invocations_of_def distinct_map)
    then show ?thesis by (simp add: unfinished_of_def distinct_map_filter)
  qed
  have all: "\<forall>v\<in>set ?vs. get_invocation (ti_id v) db = Some v" using mem by blast
  note r = reconcile_rows_get[OF assms(1)[unfolded reconcile_unfinished_def] dist all]
  have ids: "distinct (map ti_id (tb_rows db'))"
    using reconcile_rows_ids[of sha now probe ?vs db] assms by (simp add: reconcile_unfinished_def)
  have 3: "get_invocation i db' = get_invocation i db" if "i \<notin> ti_id ` set ?vs" for i using r that by blast
  have 2: "\<exists>d. get_invocation (ti_id v) db' = Some (reconciled_invocation v d) \<and>
             (d = Recon_SAFE_TO_RETRY \<longleftrightarrow> ti_state v = Inv_REQUESTED \<or> ti_effect v = Effect_READ_ONLY) \<and>
             (d = Recon_RECONCILE_FIRST \<longrightarrow> probe \<noteq> Some True \<and> \<not> ti_mutation v)" if "v \<in> set ?vs" for v
    using r that reconcile_one_decision by metis
  have "unfinished_of a db' = []"
  proof (rule ccontr)
    assume "unfinished_of a db' \<noteq> []"
    then obtain v where v: "v \<in> set (unfinished_of a db')" by (meson last_in_set)
    then have g: "get_invocation (ti_id v) db' = Some v" "ti_attempt v = a" "ti_state v \<in> {Inv_REQUESTED, Inv_STARTED}"
      using unfinished_member[OF ids] by auto
    show False
    proof (cases "ti_id v \<in> ti_id ` set ?vs")
      case True
      then obtain u where u: "u \<in> set ?vs" "ti_id u = ti_id v" by auto
      with 2[OF u(1)] g show False by (auto simp: reconciled_state)
    next
      case False
      with 3 g have "v \<in> set ?vs" by (simp add: mem)
      with False show False by blast
    qed
  qed
  with 2 3 show ?thesis by blast
qed

section \<open>Witnesses\<close>

definition sample_dispatcher :: dispatcher where
  "sample_dispatcher =
     \<lparr>dp_contract = sample_contract ''cli.exec'', dp_tools = [(''cli.exec'', \<lparr>tl_name = ''cli.exec'', tl_execute = \<lambda>_. Inr sample_result\<rparr>)],
      dp_spec = \<lambda>_. \<lparr>sp_side_effect = False, sp_approval = False\<rparr>, dp_allowed = [''cli.exec''], dp_effects = [],
      dp_error_text = \<lambda>_. []\<rparr>"

definition quiet_env :: dispatch_env where
  "quiet_env =
     \<lparr>dx_checks = \<lambda>_. None, dx_fault = \<lambda>_. False, dx_await = Await_done, dx_now = 0, dx_receipt = ''re'', dx_duration = 0,
      dx_epoch = 0, dx_timeout = None\<rparr>"

definition sample_agent_request :: agent_request where
  "sample_agent_request =
     \<lparr>aq_agent = ''g'', aq_objective = ''o'', aq_context = [], aq_allowed = [''cli.exec''], aq_max_turns = 4, aq_max_calls = 4,
      aq_max_delegations = 0, aq_metadata = []\<rparr>"

definition no_calls :: tools_db where
  "no_calls = \<lparr>tb_rows = [], tb_receipts = \<lparr>rt_rows = [], rt_events = []\<rparr>, tb_log = [], tb_observer = new_observer\<rparr>"

definition shell_call :: "string list \<Rightarrow> tool_call" where
  "shell_call argv = \<lparr>tc_id = ''c'', tc_name = ''cli.exec'', tc_arguments = [(''argv'', str_list argv)]\<rparr>"

lemma sample_denial:
  "denial sample_dispatcher (shell_call argv) sample_agent_request sample_snapshot = None"
  "\<exists>k. definition_of sample_dispatcher ''cli.exec'' = Some k"
proof -
  have d: "case definition_of sample_dispatcher ''cli.exec'' of None \<Rightarrow> False | Some k \<Rightarrow> cd_preferred k = ''cli.exec''" by code_simp
  then obtain k where k: "definition_of sample_dispatcher ''cli.exec'' = Some k" "cd_preferred k = ''cli.exec''" by (auto split: option.splits)
  then have sp: "map_option snd (spec_of sample_dispatcher k) = Some \<lparr>sp_side_effect = False, sp_approval = False\<rparr>"
    by (simp add: spec_of_def bindings_def sample_dispatcher_def resolve_name_def)
  have al: "dp_allowed sample_dispatcher = [''cli.exec'']" "aq_allowed sample_agent_request = [''cli.exec'']"
    and ctx: "aq_context sample_agent_request = []"
    by (simp_all add: sample_dispatcher_def sample_agent_request_def)
  show "denial sample_dispatcher (shell_call argv) sample_agent_request sample_snapshot = None"
    unfolding denial_def using k(1) al
    by (simp add: sp shell_call_def contract_mismatch_def active_contract_def dict_get_def Let_def ctx)
  show "\<exists>k. definition_of sample_dispatcher ''cli.exec'' = Some k" using k by blast
qed

lemma no_calls_get [simp]: "get_invocation i no_calls = None"
  by (simp add: no_calls_def get_invocation_def row_get_def)

theorem empty_argv_escapes_witness:
  "\<exists>x. fst (tool_dispatch id sample_dispatcher quiet_env (shell_call []) sample_agent_request sample_snapshot no_calls) = Inl x"
proof -
  obtain v k db1 where "dispatch_begin id sample_dispatcher quiet_env (shell_call []) sample_agent_request sample_snapshot no_calls = (Proceed v k, db1)"
    using sample_denial by (auto simp: dispatch_begin_def quiet_env_def Let_def shell_call_def)
  from empty_argv_escapes[OF this] show ?thesis by (auto simp: shell_call_def dict_get_or_def str_list_def)
qed

theorem denied_call_has_no_effect_witness:
  "\<exists>obs db. tool_dispatch id sample_dispatcher quiet_env (shell_call []\<lparr>tc_name := ''rm''\<rparr>) sample_agent_request sample_snapshot no_calls = (Inr obs, db) \<and>
     dict_get obs ''error_type'' = PStr ''UNKNOWN_CAPABILITY'' \<and> tb_receipts db = tb_receipts no_calls"
proof -
  let ?c = "shell_call []\<lparr>tc_name := ''rm''\<rparr>"
  have "definition_of sample_dispatcher ''rm'' = None" by code_simp
  then have "denial sample_dispatcher ?c sample_agent_request sample_snapshot = Some ''UNKNOWN_CAPABILITY''" by (simp add: denial_def)
  from denied_call_has_no_effect[OF no_calls_get this, of quiet_env id] show ?thesis by (auto simp: quiet_env_def)
qed

theorem calls_without_id_collide_witness:
  "let call = (\<lambda>n. \<lparr>tc_id = ''provider-call-1'', tc_name = n, tc_arguments = []\<rparr>);
       db1 = snd (tool_dispatch id sample_dispatcher quiet_env (call ''rm'') sample_agent_request sample_snapshot no_calls)
   in \<exists>row. tool_dispatch id sample_dispatcher quiet_env (call ''cli.exec'') sample_agent_request sample_snapshot db1 =
        (Inr (duplicate_observation (call ''cli.exec'') row), db1)"
proof -
  have p: "parse_call empty_json 0 (PDict [(''function'', PDict [(''name'', PStr n), (''arguments'', PStr ''{}'')])]) =
      Inr \<lparr>tc_id = ''provider-call-1'', tc_name = n, tc_arguments = []\<rparr>" if "n = ''rm'' \<or> n = ''cli.exec''" for n
    using that
    by (auto simp: parse_call_def py_or_def dict_get_def call_arguments_def dict_get_or_def empty_json_def call_valid_def Let_def digit_one)
  let ?call = "\<lambda>n. \<lparr>tc_id = ''provider-call-1'', tc_name = n, tc_arguments = []\<rparr> :: tool_call"
  have "\<not> py_truthy (dict_get [(''function'', x)] ''id'')" for x by (simp add: dict_get_def)
  note no_id = this
  have q: "dx_checks quiet_env 0 = None" by (simp add: quiet_env_def)
  obtain row where "tool_dispatch id sample_dispatcher quiet_env (?call ''cli.exec'') sample_agent_request sample_snapshot
      (snd (tool_dispatch id sample_dispatcher quiet_env (?call ''rm'') sample_agent_request sample_snapshot no_calls)) =
      (Inr (duplicate_observation (?call ''cli.exec'') row),
       snd (tool_dispatch id sample_dispatcher quiet_env (?call ''rm'') sample_agent_request sample_snapshot no_calls))"
    using calls_without_id_collide[OF p[OF disjI1[OF refl]] p[OF disjI2[OF refl]] no_id no_id refl q q refl] by blast
  then show ?thesis unfolding Let_def by blast
qed

definition interrupted_calls :: tools_db where
  "interrupted_calls =
     no_calls\<lparr>tb_rows := [(new_invocation id sample_dispatcher (shell_call []) sample_snapshot)\<lparr>ti_id := ''i''\<rparr>,
       (new_invocation id sample_dispatcher (shell_call []) sample_snapshot)\<lparr>ti_id := ''j'', ti_state := Inv_STARTED, ti_effect := Effect_EXTERNAL\<rparr>]\<rparr>"

theorem reconcile_settles_interrupted_witness:
  "\<exists>os db d. reconcile_unfinished id 0 (Some True) ''a'' interrupted_calls = (Inr os, db) \<and> unfinished_of ''a'' db = [] \<and>
     map_option ti_recon (get_invocation ''j'' db) = Some (Some d) \<and> d \<notin> {Recon_SAFE_TO_RETRY, Recon_RECONCILE_FIRST}"
proof -
  let ?v = "new_invocation id sample_dispatcher (shell_call []) sample_snapshot"
  have v: "ti_attempt ?v = ''a''" "ti_state ?v = Inv_REQUESTED"
    by (simp_all add: new_invocation_def Let_def sample_snapshot_def)
  have u: "unfinished_of ''a'' interrupted_calls = tb_rows interrupted_calls"
    using v by (simp add: unfinished_of_def invocations_of_def interrupted_calls_def sort_key_def)
  obtain os db where r: "reconcile_unfinished id 0 (Some True) ''a'' interrupted_calls = (Inr os, db)"
    using v unfolding reconcile_unfinished_def u
    by (simp add: interrupted_calls_def no_calls_def reconcile_one_def reconcile_decision_def get_by_operation_def Let_def log_tool_def
      update_invocation_def)
  have "distinct (map ti_id (tb_rows interrupted_calls))" by (simp add: interrupted_calls_def)
  note settled = reconcile_settles_interrupted[OF r this]
  let ?j = "?v\<lparr>ti_id := ''j'', ti_state := Inv_STARTED, ti_effect := Effect_EXTERNAL\<rparr>"
  have "?j \<in> set (unfinished_of ''a'' interrupted_calls)" unfolding u by (simp add: interrupted_calls_def)
  with settled obtain d where "get_invocation ''j'' db = Some (reconciled_invocation ?j d)" "d \<noteq> Recon_SAFE_TO_RETRY" "d \<noteq> Recon_RECONCILE_FIRST"
    by fastforce
  with r settled show ?thesis by (auto simp: reconciled_state)
qed

end
