(* ===== verification/KernelState.thy ===== *)
theory KernelState imports NativeTools Completion Delegation RuntimeTarget RepairTracker RecoveryCtl begin

text \<open>
  The state of the native kernel (\<open>src/lhas/native/kernel.py\<close>) and its helpers: saving the snapshot,
  the ways a run ends, replan signals, the failure of a provider, the deliveries of children, and the
  guard that compares the durable runtime target with the provider.

  \<^item> \<open>kernel\<close> is what one run holds: the tables, the snapshot it works on, the repair tracker and the
    recovery controller of the request (with the root budget behind it), and the agent's status.
  \<^item> A helper is a step: from the kernel to a result and the new kernel. \<open>Finished\<close> is a \<open>return\<close> of
    \<open>run\<close>, \<open>Raised\<close> an exception that leaves it.
  \<^item> Each table keeps the events its own component appends; \<open>kd_log\<close> holds the kernel's.
\<close>

section \<open>Results\<close>

datatype agent_status = Agent_PENDING | Agent_RUNNING | Agent_COMPLETED | Agent_FAILED | Agent_CANCELLED

record agent_result =
  ar_status :: agent_status
  ar_output :: string
  ar_claim :: bool
  ar_turns :: nat
  ar_calls :: nat
  ar_trace :: "pydict list"
  ar_artifacts :: pydict
  ar_error :: "string option"
  ar_message :: "string option"

datatype kernel_exn =
    Snapshot_invalid | Missing_ids | Tool_raised tool_exn | Completion_raised completion_error | Delivery_raised delivery_error
  | Controller_raised control_error | Parse_raised parse_error | Signal_raised | Target_raised string | Kernel_fault fault_point

datatype kernel_stop = Finished agent_result | Raised kernel_exn

section \<open>The kernel\<close>

record kernel_db =
  kd_snapshots :: "native_snapshot list"
  kd_tools :: tools_db
  kd_native :: native_db
  kd_deleg :: deleg_db
  kd_targets :: targets
  kd_health :: "health_row list"
  kd_log :: event_log

record kernel =
  kn_db :: kernel_db
  kn_snap :: native_snapshot
  kn_tracker :: "repair_tracker option"
  kn_control :: "controller option"
  kn_budget :: "run_ledger budget_manager option"
  kn_status :: agent_status

text \<open>What a kernel is built with and the request it runs.\<close>

record kernel_cfg =
  kc_request :: agent_request
  kc_dispatcher :: dispatcher
  kc_completion :: completion_env
  kc_newid :: "nat \<Rightarrow> string"
  kc_managed :: bool
  kc_configured :: "runtime_target option"
  kc_effective :: "runtime_target option"
  kc_session :: "string option"
  kc_snapshot_id :: string

section \<open>Steps\<close>

type_synonym 'a kstep = "kernel \<Rightarrow> (kernel_stop + 'a) \<times> kernel"

definition ok :: "'a \<Rightarrow> 'a kstep" where
  "ok x k = (Inr x, k)"

definition stop :: "kernel_stop \<Rightarrow> 'a kstep" where
  "stop s k = (Inl s, k)"

definition edit :: "(kernel \<Rightarrow> kernel) \<Rightarrow> unit kstep" where
  "edit f k = (Inr (), f k)"

definition next_step :: "'a kstep \<Rightarrow> ('a \<Rightarrow> 'b kstep) \<Rightarrow> 'b kstep" where
  "next_step m f k = (case m k of (Inl s, k') \<Rightarrow> (Inl s, k') | (Inr x, k') \<Rightarrow> f x k')"

definition then_step :: "unit kstep \<Rightarrow> 'b kstep \<Rightarrow> 'b kstep" where
  "then_step m n = next_step m (\<lambda>_. n)"

definition on_snap :: "(native_snapshot \<Rightarrow> native_snapshot) \<Rightarrow> kernel \<Rightarrow> kernel" where
  "on_snap f k = k\<lparr>kn_snap := f (kn_snap k)\<rparr>"

definition on_db :: "(kernel_db \<Rightarrow> kernel_db) \<Rightarrow> kernel \<Rightarrow> kernel" where
  "on_db f k = k\<lparr>kn_db := f (kn_db k)\<rparr>"

definition log_kernel :: "event_type \<Rightarrow> pydict \<Rightarrow> kernel \<Rightarrow> kernel" where
  "log_kernel ty payload k =
     (let s = kn_snap k
      in on_db (\<lambda>db. db\<lparr>kd_log := store_append ty (Some (sn_task s)) (Some (sn_run s)) (Some (sn_attempt s)) payload (kd_log db)\<rparr>) k)"

text \<open>\<open>_save\<close>.\<close>

definition save_kernel :: "kernel \<Rightarrow> kernel" where
  "save_kernel k =
     (let (s, rows) = save_snapshot (kn_snap k) (kd_snapshots (kn_db k))
      in log_kernel (Ev_Native NATIVE_EXECUTION_SNAPSHOT)
           [(''snapshot_id'', PStr (sn_id s)), (''version'', PInt (int (sn_version s))), (''phase'', PStr (native_phase_value (sn_phase s))),
            (''model_turn_count'', PInt (int (sn_turns s))), (''tool_call_count'', PInt (int (sn_calls s))),
            (''workspace_mutation_version'', PInt (int (sn_mutations s))), (''completion_candidate_id'', opt_str (sn_candidate s))]
           (k\<lparr>kn_snap := s, kn_db := (kn_db k)\<lparr>kd_snapshots := rows\<rparr>\<rparr>))"

definition set_phase :: "native_phase \<Rightarrow> kernel \<Rightarrow> kernel" where
  "set_phase p = on_snap (\<lambda>s. s\<lparr>sn_phase := p\<rparr>)"

definition set_failure :: "pydict \<Rightarrow> kernel \<Rightarrow> kernel" where
  "set_failure d = on_snap (\<lambda>s. s\<lparr>sn_failure := d\<rparr>)"

definition add_failure :: "pydict \<Rightarrow> kernel \<Rightarrow> kernel" where
  "add_failure d = on_snap (\<lambda>s. s\<lparr>sn_failure := dict_merge (sn_failure s) d\<rparr>)"

text \<open>\<open>current_failure["repair_convergence"] = progress_tracker.snapshot()\<close>, when there is a tracker.\<close>

definition note_convergence :: "kernel \<Rightarrow> kernel" where
  "note_convergence k =
     (case kn_tracker k of
        None \<Rightarrow> k
      | Some t \<Rightarrow> on_snap (\<lambda>s. s\<lparr>sn_failure := put ''repair_convergence'' (PDict (tracker_snapshot t)) (sn_failure s)\<rparr>) k)"

definition on_tracker :: "(repair_tracker \<Rightarrow> repair_tracker) \<Rightarrow> kernel \<Rightarrow> kernel" where
  "on_tracker f k = k\<lparr>kn_tracker := map_option f (kn_tracker k)\<rparr>"

definition halt_tracker :: "string \<Rightarrow> kernel \<Rightarrow> kernel" where
  "halt_tracker reason = on_tracker (snd \<circ> tracker_stop reason)"

definition convergence_entry :: "kernel \<Rightarrow> pydict" where
  "convergence_entry k = (case kn_tracker k of None \<Rightarrow> [] | Some t \<Rightarrow> [(''repair_convergence'', PDict (tracker_snapshot t))])"

section \<open>The ways a run ends\<close>

definition base_result :: "agent_status \<Rightarrow> kernel \<Rightarrow> agent_result" where
  "base_result st k =
     (let s = kn_snap k
      in \<lparr>ar_status = st, ar_output = [], ar_claim = False, ar_turns = sn_turns s, ar_calls = sn_calls s,
          ar_trace = last_n 100 (sn_outcomes s), ar_artifacts = [], ar_error = None, ar_message = None\<rparr>)"

definition control_evidence :: "kernel_cfg \<Rightarrow> nat \<Rightarrow> control_failure \<Rightarrow> pydict" where
  "control_evidence cfg now f =
     [(''run_id'', PStr (ce_run f)), (''attempt_id'', opt_str (ce_attempt f)), (''reason'', PStr (ce_reason f)), (''source'', PStr (ce_source f)),
      (''failure_type'', PStr (ce_type f)), (''timestamp'', PInt (int now)),
      (''absolute_deadline'', case ce_deadline f of None \<Rightarrow> PNone | Some d \<Rightarrow> cn_float (dp_contract (kc_dispatcher cfg)) d), (''terminal'', PBool (ce_terminal f))]"

definition control_terminated :: "kernel_cfg \<Rightarrow> nat \<Rightarrow> control_failure \<Rightarrow> 'a kstep" where
  "control_terminated cfg now f k =
     (let ev = control_evidence cfg now f;
          k1 = log_kernel (Ev_Executor (if ce_type f = ''ROOT_DEADLINE_EXCEEDED'' then EXECUTION_DEADLINE_EXCEEDED else EXECUTION_CANCELLED)) ev
                 (save_kernel (set_failure ev (set_phase Phase_FAILED k)));
          k2 = halt_tracker ''CANCELLED'' (k1\<lparr>kn_status := Agent_CANCELLED\<rparr>)
      in stop (Finished ((base_result Agent_CANCELLED k2)\<lparr>
           ar_artifacts := [(''execution_snapshot_id'', PStr (sn_id (kn_snap k2))), (''execution_control'', PDict ev)] @ convergence_entry k2,
           ar_error := Some (ce_type f), ar_message := Some (take 512 (ce_reason f))\<rparr>)) k2)"

definition accepted :: "string \<Rightarrow> 'a kstep" where
  "accepted out k =
     (let k1 = halt_tracker ''VERIFIED'' (k\<lparr>kn_status := Agent_COMPLETED\<rparr>)
      in stop (Finished ((base_result Agent_COMPLETED k1)\<lparr>ar_output := out, ar_claim := True,
           ar_artifacts := [(''completion_candidate_id'', opt_str (sn_candidate (kn_snap k1))), (''execution_snapshot_id'', PStr (sn_id (kn_snap k1)))] @
             convergence_entry k1\<rparr>)) k1)"

definition failure_stop :: "string \<Rightarrow> repair_tracker \<Rightarrow> repair_tracker" where
  "failure_stop err t =
     (if err = ''BUDGET_EXHAUSTED'' then snd (tracker_stop ''BUDGET_EXHAUSTED'' t)
      else if tr_stop t = None then
        snd (tracker_stop (if prefix ''PROVIDER'' err \<or> contains ''MODEL'' err then ''MODEL_FAILURE'' else ''TOOL_FAILURE'') t)
      else t)"

definition failed :: "string \<Rightarrow> string option \<Rightarrow> 'a kstep" where
  "failed err detail k =
     (let k1 = k\<lparr>kn_status := Agent_FAILED\<rparr>;
          k2 = (if sn_phase (kn_snap k1) \<in> {Phase_REPLANNING, Phase_RECOVERING} then k1 else save_kernel (set_phase Phase_FAILED k1));
          k3 = on_tracker (failure_stop err) k2
      in stop (Finished ((base_result Agent_FAILED k3)\<lparr>
           ar_artifacts := [(''execution_snapshot_id'', PStr (sn_id (kn_snap k3))),
                            (''workspace_mutation_version'', PInt (int (sn_mutations (kn_snap k3))))] @ convergence_entry k3,
           ar_error := Some err, ar_message := or_str (map_option (take 512) detail) None\<rparr>)) k3)"

definition progress_entry :: "effect_progress \<Rightarrow> pydict" where
  "progress_entry p =
     [(''status'', PStr (progress_status_value (pg_status p))), (''state_digest'', PStr (pg_state_digest p)),
      (''matched_effect_keys'', str_list (pg_matched p))]"

definition validation_candidate :: "effect_progress \<Rightarrow> 'a kstep" where
  "validation_candidate p k =
     (let k1 = on_tracker (snd \<circ> candidate_for_validation) (save_kernel (set_phase Phase_CANDIDATE_COMPLETE (k\<lparr>kn_status := Agent_COMPLETED\<rparr>)))
      in stop (Finished ((base_result Agent_COMPLETED k1)\<lparr>ar_claim := True,
           ar_artifacts := [(''execution_snapshot_id'', PStr (sn_id (kn_snap k1))), (''validation_candidate'', PBool True),
             (''effect_progress'', PDict (progress_entry p))] @ convergence_entry k1\<rparr>)) k1)"

section \<open>Replan signals and budgets\<close>

definition create_replan :: "kernel_cfg \<Rightarrow> string \<Rightarrow> pydict \<Rightarrow> unit kstep" where
  "create_replan cfg reason evidence k =
     (let s = kn_snap k;
          g = \<lparr>rs_id = ce_id (kc_completion cfg) (nd_ids (kd_native (kn_db k))), rs_task = sn_task s, rs_run = sn_run s, rs_attempt = sn_attempt s,
               rs_reason = reason, rs_scope = ''TASKGRAPH_NODE'', rs_failed_node = sn_position s, rs_evidence = evidence\<rparr>
      in case create_signal g (kd_native (kn_db k)) of
           None \<Rightarrow> stop (Raised Signal_raised) k
         | Some nd \<Rightarrow>
             edit (log_kernel (Ev_Native REPLAN_SIGNAL_CREATED)
               [(''signal_id'', PStr (rs_id g)), (''reason'', PStr reason), (''scope'', PStr ''TASKGRAPH_NODE''), (''failed_node_id'', opt_str (sn_position s))])
               (on_db (\<lambda>db. db\<lparr>kd_native := nd\<rparr>) k))"

definition budget_exhausted :: "kernel_cfg \<Rightarrow> string \<Rightarrow> 'a kstep" where
  "budget_exhausted cfg budget k =
     (let k1 = save_kernel (set_failure [(''type'', PStr ''BUDGET_EXHAUSTED''), (''budget'', PStr budget)] (set_phase Phase_REPLANNING k));
          k2 = log_kernel (Ev_Native NATIVE_BUDGET_EXHAUSTED)
                 [(''budget'', PStr budget), (''model_turn_count'', PInt (int (sn_turns (kn_snap k1)))), (''tool_call_count'', PInt (int (sn_calls (kn_snap k1))))] k1
      in then_step (create_replan cfg ''BUDGET_EXHAUSTED'' [(''budget'', PStr budget)]) (failed ''BUDGET_EXHAUSTED'' None) k2)"

section \<open>Deliveries of children\<close>

definition delivery_entry :: "delivered_outcome \<Rightarrow> pydict" where
  "delivery_entry d =
     [(''delivery_token'', PStr (do_token d)), (''delegation_id'', PStr (do_delegation d)), (''outcome'', PDict (do_outcome d))]"

definition delivered_status :: "delivered_outcome \<Rightarrow> string" where
  "delivered_status d = py_str (dict_get_or (do_outcome d) ''status'' (PStr []))"

definition absorb_delivery :: "kernel_cfg \<Rightarrow> delivered_outcome \<Rightarrow> unit kstep" where
  "absorb_delivery cfg d k =
     (let k1 = on_snap (\<lambda>s. s\<lparr>sn_dependencies := AList.update (do_token d) (delivery_entry d) (sn_dependencies s),
                               sn_tokens := sn_tokens s @ [do_token d]\<rparr>) k
      in if delivered_status d \<noteq> [] \<and> delivered_status d \<noteq> ''COMPLETED''
         then create_replan cfg ''CHILD_FAILURE'' [(''delivery_token'', PStr (do_token d)), (''child_status'', PStr (delivered_status d))] k1
         else ok () k1)"

fun absorb_deliveries :: "kernel_cfg \<Rightarrow> delivered_outcome list \<Rightarrow> unit kstep" where
  "absorb_deliveries cfg [] = ok ()"
| "absorb_deliveries cfg (d # ds) = then_step (absorb_delivery cfg d) (absorb_deliveries cfg ds)"

definition consume_deliveries :: "kernel_cfg \<Rightarrow> nat \<Rightarrow> unit kstep" where
  "consume_deliveries cfg now k =
     (let s = kn_snap k; (r, dd) = consume_for_parent_attempt now (sn_attempt s) (set (sn_tokens s)) (kd_deleg (kn_db k));
          k1 = on_db (\<lambda>db. db\<lparr>kd_deleg := dd\<rparr>) k
      in case r of
           Inl e \<Rightarrow> stop (Raised (Delivery_raised e)) k1
         | Inr [] \<Rightarrow> ok () k1
         | Inr ds \<Rightarrow> then_step (absorb_deliveries cfg ds) (edit save_kernel) k1)"

section \<open>Provider failures\<close>

text \<open>\<open>_safe_error\<close>: like the redaction of a stored value, with its own words and separators.\<close>

definition error_words :: "string list" where
  "error_words = [''api_key'', ''api-key'', ''apikey'', ''authorization'', ''bearer'', ''token'', ''secret'', ''password'']"

definition error_value_char :: "char \<Rightarrow> bool" where
  "error_value_char c \<longleftrightarrow> \<not> is_space c \<and> c \<noteq> CHR '',''"

definition marked_value :: "string \<Rightarrow> (string \<times> string) option" where
  "marked_value s =
     (case dropWhile is_space s of
        [] \<Rightarrow> None
      | c # cs \<Rightarrow>
          if (c = CHR '':'' \<or> c = CHR ''='') \<and> takeWhile error_value_char (dropWhile is_space cs) \<noteq> []
          then Some (takeWhile is_space s @ [c] @ takeWhile is_space cs, dropWhile error_value_char (dropWhile is_space cs))
          else None)"

definition match_error :: "string \<Rightarrow> (string \<times> string) option" where
  "match_error s =
     (case List.find (\<lambda>w. prefix w (casefold s) \<and> marked_value (drop (length w) s) \<noteq> None) error_words of
        None \<Rightarrow> None
      | Some w \<Rightarrow> map_option (\<lambda>(sep, rest). (take (length w) s @ sep, rest)) (marked_value (drop (length w) s)))"

lemma marked_value_shorter: "marked_value s = Some (sep, r) \<Longrightarrow> length r < length s"
proof -
  assume a: "marked_value s = Some (sep, r)"
  then obtain c cs where c: "dropWhile is_space s = c # cs" "r = dropWhile error_value_char (dropWhile is_space cs)"
    by (auto simp: marked_value_def split: list.splits if_splits)
  have "length r \<le> length cs"
    unfolding c(2) using length_dropWhile_le[of error_value_char "dropWhile is_space cs"] length_dropWhile_le[of is_space cs] by linarith
  moreover have "length (c # cs) \<le> length s" using length_dropWhile_le[of is_space s] c(1) by simp
  ultimately show ?thesis by simp
qed

function redact_error :: "string \<Rightarrow> string" where
  "redact_error s =
     (case match_error s of
        Some (w, rest) \<Rightarrow> w @ ''<redacted>'' @ redact_error rest
      | None \<Rightarrow> (case s of [] \<Rightarrow> [] | c # cs \<Rightarrow> c # redact_error cs))"
  by pat_completeness auto
termination
proof (relation "measure length")
  fix s x w and rest :: string
  assume "match_error s = Some x" "(w, rest) = x"
  then obtain n sep where "marked_value (drop n s) = Some (sep, rest)"
    by (auto simp: match_error_def split: option.splits)
  from marked_value_shorter[OF this] show "(rest, s) \<in> measure length" by simp
qed auto

definition safe_error :: "string option \<Rightarrow> string" where
  "safe_error detail = take 512 (redact_error (case detail of None \<Rightarrow> [] | Some d \<Rightarrow> d))"

definition target_dump :: "runtime_target \<Rightarrow> pydict" where
  "target_dump t =
     [(''provider_id'', PStr (tg_provider t)), (''model_id'', PStr (tg_model t)), (''endpoint_identity'', PStr (tg_endpoint t)),
      (''endpoint_host'', PStr (tg_host t)), (''endpoint_fingerprint'', PStr (tg_fingerprint t)), (''credential_route_id'', PStr (tg_credential t)),
      (''route_type'', PStr (tg_route t))]"

definition opt_target :: "runtime_target option \<Rightarrow> pyval" where
  "opt_target t = (case t of None \<Rightarrow> PNone | Some x \<Rightarrow> PDict (target_dump x))"

definition target_entries :: "native_snapshot \<Rightarrow> pydict" where
  "target_entries s = [(''configured_target'', opt_target (sn_configured s)), (''effective_target'', opt_target (sn_effective s))]"

definition health_after :: "provider_failure_category \<Rightarrow> provider_health" where
  "health_after c =
     (if c = QUOTA_EXHAUSTED then QUOTA_BLOCKED
      else if c = AUTH_INVALID then AUTH_BLOCKED
      else if c \<in> {PROVIDER_UNAVAILABLE, PROVIDER_TIMEOUT, TRANSIENT_RATE_LIMIT} then TRANSIENTLY_UNAVAILABLE
      else Health_state_UNKNOWN)"

primrec provider_health_value :: "provider_health \<Rightarrow> string" where
  "provider_health_value HEALTHY = ''HEALTHY''"
| "provider_health_value TRANSIENTLY_UNAVAILABLE = ''TRANSIENTLY_UNAVAILABLE''"
| "provider_health_value QUOTA_BLOCKED = ''QUOTA_BLOCKED''"
| "provider_health_value AUTH_BLOCKED = ''AUTH_BLOCKED''"
| "provider_health_value Health_state_UNKNOWN = ''UNKNOWN''"

definition record_provider_health :: "provider_failure_category \<Rightarrow> string \<Rightarrow> kernel \<Rightarrow> kernel" where
  "record_provider_health c detail k =
     (case sn_effective (kn_snap k) of
        None \<Rightarrow> k
      | Some t \<Rightarrow>
          log_kernel (Ev_Runtime PROVIDER_HEALTH_CHANGED)
            [(''target'', PDict (target_dump t)), (''state'', PStr (provider_health_value (health_after c))), (''failure_category'', PStr (provider_failure_value c))]
            (on_db (\<lambda>db. db\<lparr>kd_health := record_health t (health_after c) (Some c) (if detail = [] then provider_failure_value c else detail) None
                 (kd_health db)\<rparr>) k))"

definition provider_failure :: "provider_failure_category \<Rightarrow> nat \<Rightarrow> string option \<Rightarrow> 'a kstep" where
  "provider_failure c turn detail k =
     (let d = safe_error detail; v = provider_failure_value c;
          k1 = on_snap (\<lambda>s. s\<lparr>sn_turns := turn, sn_ordinal := turn, sn_phase := Phase_RECOVERING,
                 sn_failure := [(''type'', PStr v), (''category'', PStr v), (''failure_code'', PStr (taxonomy_code c)), (''detail'', PStr d),
                                (''same_target_retryable'', PBool (same_target_retryable c))]\<rparr>) k;
          k2 = record_provider_health c d (save_kernel k1);
          k3 = log_kernel (Ev_Runtime NATIVE_PROVIDER_FAILURE)
                 ([(''turn'', PInt (int turn)), (''failure_category'', PStr v), (''failure_code'', PStr (taxonomy_code c)), (''detail'', PStr d)] @
                  target_entries (kn_snap k2)) k2
      in failed v (Some d) k3)"

definition record_model_response_rejected :: "nat \<Rightarrow> provider_failure_category \<Rightarrow> string \<Rightarrow> kernel \<Rightarrow> kernel" where
  "record_model_response_rejected turn c detail =
     log_kernel (Ev_Native MODEL_RESPONSE_REJECTED)
       [(''turn'', PInt (int turn)), (''stage'', PStr ''PROVIDER_GENERATE''), (''error_type'', PStr (provider_failure_value c)),
        (''failure_code'', PStr (taxonomy_code c)), (''detail'', PStr (safe_error (Some detail)))]"

section \<open>The runtime target\<close>

text \<open>\<open>_ensure_runtime_target\<close>: the durable binding, when there is one, decides; \<open>actual\<close> is the
  provider's own target.\<close>

definition initial_targets :: "kernel_cfg \<Rightarrow> runtime_target option \<Rightarrow> runtime_target option \<times> runtime_target option" where
  "initial_targets cfg actual =
     (let c = (case kc_configured cfg of None \<Rightarrow> actual | Some t \<Rightarrow> Some t)
      in (c, case kc_effective cfg of None \<Rightarrow> c | Some t \<Rightarrow> Some t))"

definition take_targets :: "runtime_target option \<Rightarrow> runtime_target option \<Rightarrow> kernel \<Rightarrow> kernel" where
  "take_targets c e k =
     (let k1 = on_snap (\<lambda>s. s\<lparr>sn_configured := c, sn_effective := e\<rparr>) k
      in if sn_configured (kn_snap k) \<noteq> c \<or> sn_effective (kn_snap k) \<noteq> e then save_kernel k1 else k1)"

definition take_binding :: "target_row \<Rightarrow> kernel \<Rightarrow> kernel" where
  "take_binding r = on_snap (\<lambda>s. s\<lparr>sn_fallback := bt_fallback r, sn_switch := bt_switch r\<rparr>)"

definition ensure_runtime_target :: "kernel_cfg \<Rightarrow> runtime_target option \<Rightarrow> unit kstep" where
  "ensure_runtime_target cfg actual k =
     (let (c, e) = initial_targets cfg actual; run = sn_run (kn_snap k)
      in case (kc_managed cfg, c) of
           (True, Some t) \<Rightarrow>
             (let (r, rows) = (case current_target run (kd_targets (kn_db k)) of
                     Inr b \<Rightarrow> (Inr b, kd_targets (kn_db k))
                   | Inl _ \<Rightarrow> bind_target run t (Some run) (kc_session cfg) (kd_targets (kn_db k)));
                  k1 = on_db (\<lambda>db. db\<lparr>kd_targets := rows\<rparr>) k
              in case r of
                   Inl err \<Rightarrow> stop (Raised (Target_raised err)) k1
                 | Inr b \<Rightarrow> edit (take_targets (Some (bt_configured b)) (Some (bt_effective b))) (take_binding b k1))
         | _ \<Rightarrow> edit (take_targets c e) k)"

text \<open>\<open>_assert_runtime_truth\<close>.\<close>

definition adopt_binding :: "target_row \<Rightarrow> kernel \<Rightarrow> kernel" where
  "adopt_binding b k =
     (if sn_configured (kn_snap k) \<noteq> Some (bt_configured b) \<or> sn_effective (kn_snap k) \<noteq> Some (bt_effective b)
      then take_binding b (on_snap (\<lambda>s. s\<lparr>sn_configured := Some (bt_configured b), sn_effective := Some (bt_effective b)\<rparr>) k)
      else k)"

definition transport_matches :: "runtime_target option \<Rightarrow> (string \<times> string) option \<Rightarrow> bool" where
  "transport_matches actual transport \<longleftrightarrow>
     (case (actual, transport) of
        (Some t, Some (endpoint, fp)) \<Rightarrow> tg_endpoint t = endpoint \<and> tg_fingerprint t = fp
      | _ \<Rightarrow> False)"

definition divergence :: "runtime_target option \<Rightarrow> native_snapshot \<Rightarrow> pydict" where
  "divergence actual s =
     target_entries s @
     [(''actual_provider_target'', opt_target actual), (''actual_transport_endpoint_identity'', opt_str (map_option fst (sn_transport s))),
      (''actual_transport_endpoint_fingerprint'', opt_str (map_option snd (sn_transport s)))]"

definition check_provider :: "runtime_target option \<Rightarrow> (string \<times> string) option \<Rightarrow> bool kstep" where
  "check_provider actual transport k =
     (let k1 = on_snap (\<lambda>s. s\<lparr>sn_actual := actual, sn_transport := transport\<rparr>) k
      in if actual = sn_effective (kn_snap k1) \<and> transport_matches actual transport then ok True (save_kernel k1)
         else
           (let d = divergence actual (kn_snap k1)
            in ok False (log_kernel (Ev_Runtime NATIVE_PROVIDER_FAILURE) ((''failure_category'', PStr ''RUNTIME_TARGET_DIVERGENCE'') # d)
                 (save_kernel (set_failure ((''type'', PStr ''RUNTIME_TARGET_DIVERGENCE'') # d) k1)))))"

definition assert_runtime_truth :: "kernel_cfg \<Rightarrow> runtime_target option \<Rightarrow> (string \<times> string) option \<Rightarrow> bool kstep" where
  "assert_runtime_truth cfg actual transport k =
     (if \<not> kc_managed cfg then check_provider actual transport k
      else
        (case current_target (sn_run (kn_snap k)) (kd_targets (kn_db k)) of
           Inl e \<Rightarrow> stop (Raised (Target_raised e)) k
         | Inr b \<Rightarrow> check_provider actual transport (adopt_binding b k)))"

text \<open>\<open>switch_runtime_target\<close>: the active snapshot takes over a committed switch of its run.\<close>

definition switch_runtime_target ::
  "string \<Rightarrow> runtime_target \<Rightarrow> runtime_target \<Rightarrow> string \<Rightarrow> string \<Rightarrow> switch_hooks \<Rightarrow> (targets \<Rightarrow> targets) \<Rightarrow> kernel \<Rightarrow>
   (string + target_switch) \<times> kernel" where
  "switch_runtime_target i new expected runtime_id reason hooks meanwhile k =
     (let (r, rows) = request_switch runtime_id i new expected (Some runtime_id) hooks meanwhile (kd_targets (kn_db k));
          k1 = on_db (\<lambda>db. db\<lparr>kd_targets := rows\<rparr>) k
      in case r of
           Inl e \<Rightarrow> (Inl e, k1)
         | Inr sw \<Rightarrow>
             (Inr sw,
              if sn_run (kn_snap k1) = runtime_id \<and> ts_state sw = Switch_COMMITTED
              then save_kernel (on_snap (\<lambda>s. s\<lparr>sn_effective := Some new, sn_fallback := Some reason, sn_switch := Some (ts_id sw)\<rparr>) k1)
              else k1))"

end
