(* ===== verification/Kernel.thy ===== *)
theory Kernel imports KernelState begin

text \<open>
  The turn loop of the native kernel (\<open>NativeAgentKernel.run\<close> in \<open>src/lhas/native/kernel.py\<close>).

  \<^item> A turn is the composition of its parts in the code's order: the checks before the model is asked,
    the model call, the parsing of its response, and then either a round of tool calls or a
    completion claim. A part that returns from \<open>run\<close> stops the composition.
  \<^item> What the world does in a turn is a \<open>turn_env\<close>: the control token at each check, the provider's
    answer, one \<open>call_env\<close> per tool call, the validation's interruption. A run gets one for each turn
    number.
  \<^item> The context shown to the model only reaches the provider and, as digests, two events; the digests
    and the sizes are entries of the environment, as is the evidence of a response that does not parse.
\<close>

section \<open>The environment\<close>

record call_env =
  ck_before :: "control_failure option"
  ck_dispatch :: dispatch_env
  ck_stopped :: "control_failure option"
  ck_after :: "control_failure option"

datatype generation =
    Generated provider_value
  | Generate_timeout string
  | Generate_stopped control_failure
  | Generate_raised provider_error string

record turn_env =
  tn_now :: nat
  tn_check :: "control_failure option"
  tn_target :: "runtime_target option"
  tn_transport :: "(string \<times> string) option"
  tn_identity :: pydict
  tn_context :: pydict
  tn_generate :: generation
  tn_checked :: "control_failure option"
  tn_evidence :: pydict
  tn_type :: string
  tn_duration :: nat
  tn_fault :: bool
  tn_calls :: "nat \<Rightarrow> call_env"
  tn_crash :: "nat option"
  tn_claim :: "control_failure option"

definition cfg_sha :: "kernel_cfg \<Rightarrow> string \<Rightarrow> string" where
  "cfg_sha cfg = ce_sha (kc_completion cfg)"

definition unless_stopped :: "kernel_cfg \<Rightarrow> nat \<Rightarrow> control_failure option \<Rightarrow> unit kstep" where
  "unless_stopped cfg now f = (case f of None \<Rightarrow> ok () | Some x \<Rightarrow> control_terminated cfg now x)"

section \<open>Before the model is asked\<close>

definition check_call_budget :: "kernel_cfg \<Rightarrow> unit kstep" where
  "check_call_budget cfg k =
     (if sn_calls (kn_snap k) \<ge> aq_max_calls (kc_request cfg) then budget_exhausted cfg ''TOOL_CALL_BUDGET'' k else ok () k)"

definition begin_tracked_turn :: "kernel \<Rightarrow> kernel" where
  "begin_tracked_turn k = note_convergence (on_tracker begin_turn k)"

definition check_provider_health :: "nat \<Rightarrow> unit kstep" where
  "check_provider_health now k =
     (case Option.bind (sn_effective (kn_snap k)) (\<lambda>t. get_health now t (kd_health (kn_db k))) of
        None \<Rightarrow> ok () k
      | Some h \<Rightarrow>
          if hr_state h \<in> {QUOTA_BLOCKED, AUTH_BLOCKED} then
            provider_failure (case hr_category h of None \<Rightarrow> UNKNOWN_PROVIDER_FAILURE | Some c \<Rightarrow> c) (sn_turns (kn_snap k) + 1) (Some (hr_reason h)) k
          else ok () k)"

definition check_runtime_truth :: "kernel_cfg \<Rightarrow> turn_env \<Rightarrow> unit kstep" where
  "check_runtime_truth cfg e =
     next_step (assert_runtime_truth cfg (tn_target e) (tn_transport e))
       (\<lambda>truth. if truth then ok () else failed ''RUNTIME_TARGET_DIVERGENCE'' None)"

definition actual_entries :: "runtime_target option \<Rightarrow> pydict" where
  "actual_entries t =
     [(''runtime_target_identity'', opt_str (map_option tg_endpoint t)), (''provider_id'', opt_str (map_option tg_provider t)),
      (''model_id'', opt_str (map_option tg_model t)), (''endpoint_fingerprint'', opt_str (map_option tg_fingerprint t))]"

definition announce_turn :: "turn_env \<Rightarrow> kernel \<Rightarrow> kernel" where
  "announce_turn e k =
     (let turn = PInt (int (sn_turns (kn_snap k) + 1));
          k1 = log_kernel (Ev_Native MODEL_CALL_STARTED) ([(''turn'', turn)] @ actual_entries (tn_target e) @ tn_identity e) k
      in log_kernel (Ev_Native NATIVE_MODEL_TURN_STARTED)
           ([(''turn'', turn), (''model_turn_ordinal'', turn)] @ target_entries (kn_snap k1) @ tn_context e @ tn_identity e) k1)"

text \<open>The lease of a local repair turn; without a controller there is none to take.\<close>

definition lease_exhausted :: "kernel_cfg \<Rightarrow> controller \<Rightarrow> unit kstep" where
  "lease_exhausted cfg c k =
     (case emit_signal (kc_newid cfg) ''LOCAL_REPAIR_BUDGET_EXHAUSTED'' (budget_failure_progress (cfg_sha cfg) c) [(''phase'', PStr ''local_repair'')] c of
        (Inl e, c') \<Rightarrow> stop (Raised (Controller_raised e)) (k\<lparr>kn_control := Some c'\<rparr>)
      | (Inr _, c') \<Rightarrow>
          failed ''REPLAN_REQUIRED'' (Some ''local repair lease exhausted; escalation reserve protected'')
            (save_kernel (add_failure [(''type'', PStr ''REPLAN_REQUIRED''), (''repair_stop_reason'', PStr ''LOCAL_REPAIR_BUDGET_EXHAUSTED'')]
               (set_phase Phase_REPLANNING (halt_tracker ''REPLAN_REQUIRED'' (k\<lparr>kn_control := Some c'\<rparr>))))))"

definition lease_turn :: "kernel_cfg \<Rightarrow> unit kstep" where
  "lease_turn cfg k =
     (case kn_control k of
        None \<Rightarrow> ok () k
      | Some c \<Rightarrow>
          (let (r, b) = acquire_local_turn ledger_reserve (kn_budget k); k1 = k\<lparr>kn_budget := b\<rparr>
           in case r of Inr _ \<Rightarrow> ok () k1 | Inl _ \<Rightarrow> lease_exhausted cfg c k1))"

definition open_turn :: "kernel_cfg \<Rightarrow> turn_env \<Rightarrow> unit kstep" where
  "open_turn cfg e =
     then_step (unless_stopped cfg (tn_now e) (tn_check e))
    (then_step (consume_deliveries cfg (tn_now e))
    (then_step (check_call_budget cfg)
    (then_step (edit begin_tracked_turn)
    (then_step (check_provider_health (tn_now e))
    (then_step (check_runtime_truth cfg e)
    (then_step (edit (announce_turn e))
     (lease_turn cfg)))))))"

section \<open>The model call\<close>

definition provider_rejected :: "provider_failure_category \<Rightarrow> string \<Rightarrow> 'a kstep" where
  "provider_rejected c detail k =
     (let turn = sn_turns (kn_snap k) + 1
      in provider_failure c turn (Some detail) (record_model_response_rejected turn c detail k))"

definition generate :: "kernel_cfg \<Rightarrow> turn_env \<Rightarrow> provider_value kstep" where
  "generate cfg e =
     (case tn_generate e of
        Generated v \<Rightarrow> ok v
      | Generate_timeout msg \<Rightarrow> provider_rejected PROVIDER_TIMEOUT msg
      | Generate_stopped f \<Rightarrow> control_terminated cfg (tn_now e) f
      | Generate_raised err msg \<Rightarrow> provider_rejected (classify_error err) msg)"

definition correlation :: "kernel_cfg \<Rightarrow> kernel \<Rightarrow> pydict" where
  "correlation cfg k = provenance (case kn_control k of None \<Rightarrow> 0 | Some c \<Rightarrow> rc_epoch c) (kc_request cfg) (kn_snap k)"

definition response_shape :: "turn_env \<Rightarrow> provider_value \<Rightarrow> nat \<Rightarrow> pydict" where
  "response_shape e v turn =
     [(''turn'', PInt (int turn)), (''response_python_type'', PStr (tn_type e)),
      (''dict_keys'', str_list (case v of Raw_value (PDict d) \<Rightarrow> take 50 (sort (map fst d)) | _ \<Rightarrow> []))]"

definition receive :: "kernel_cfg \<Rightarrow> turn_env \<Rightarrow> provider_value \<Rightarrow> unit kstep" where
  "receive cfg e v =
     then_step (unless_stopped cfg (tn_now e) (tn_checked e))
       (edit (\<lambda>k. log_kernel (Ev_Native MODEL_RESPONSE_RECEIVED)
          (correlation cfg k @ response_shape e v (sn_turns (kn_snap k) + 1) @ [(''transport_status'', PStr ''SUCCESS'')] @ tn_identity e) k))"

fun parse_error_value :: "parse_error \<Rightarrow> string" where
  "parse_error_value PROVIDER_RESPONSE_NOT_OBJECT = ''PROVIDER_RESPONSE_NOT_OBJECT''"
| "parse_error_value PROVIDER_RESPONSE_MISSING_MESSAGE = ''PROVIDER_RESPONSE_MISSING_MESSAGE''"
| "parse_error_value PROVIDER_MESSAGE_NOT_OBJECT = ''PROVIDER_MESSAGE_NOT_OBJECT''"
| "parse_error_value PROVIDER_CONTENT_INVALID = ''PROVIDER_CONTENT_INVALID''"
| "parse_error_value PROVIDER_TOOL_CALLS_INVALID = ''PROVIDER_TOOL_CALLS_INVALID''"
| "parse_error_value PROVIDER_TOOL_CALL_INVALID = ''PROVIDER_TOOL_CALL_INVALID''"
| "parse_error_value PROVIDER_TOOL_FUNCTION_INVALID = ''PROVIDER_TOOL_FUNCTION_INVALID''"
| "parse_error_value PROVIDER_TOOL_ARGUMENTS_INVALID = ''PROVIDER_TOOL_ARGUMENTS_INVALID''"
| "parse_error_value Validation_error = ''VALIDATION_ERROR''"

definition rejected_response :: "nat \<Rightarrow> string \<Rightarrow> pydict \<Rightarrow> pydict" where
  "rejected_response turn msg evidence =
     [(''turn'', PInt (int turn)), (''error_type'', PStr ''PROVIDER_MALFORMED_RESPONSE''), (''failure_code'', PStr ''invalid_response''),
      (''failure_stage'', PStr ''MODEL_OUTPUT_PARSE''), (''category'', PStr msg)] @ evidence"

definition with_artifacts :: "pydict \<Rightarrow> 'a kstep \<Rightarrow> 'a kstep" where
  "with_artifacts extra m k =
     (case m k of (Inl (Finished r), k') \<Rightarrow> (Inl (Finished (r\<lparr>ar_artifacts := dict_merge (ar_artifacts r) extra\<rparr>)), k') | x \<Rightarrow> x)"

definition malformed_response :: "kernel_cfg \<Rightarrow> turn_env \<Rightarrow> parse_error \<Rightarrow> 'a kstep" where
  "malformed_response cfg e err k =
     (let turn = sn_turns (kn_snap k) + 1; msg = take 128 (parse_error_value err);
          k1 = save_kernel (on_snap (\<lambda>s. s\<lparr>sn_turns := turn, sn_phase := Phase_FAILED,
                 sn_failure := [(''type'', PStr ''MODEL_OUTPUT_PARSE_FAILED''), (''failure_category'', PStr ''MALFORMED_PROVIDER_RESPONSE''),
                                (''category'', PStr msg)] @ tn_evidence e\<rparr>) k);
          k2 = log_kernel (Ev_Native NATIVE_MODEL_RESPONSE_REJECTED) (rejected_response turn msg (tn_evidence e))
                 (log_kernel (Ev_Native MODEL_RESPONSE_REJECTED) (correlation cfg k1 @ rejected_response turn msg (tn_evidence e)) k1)
      in then_step (create_replan cfg ''PROVIDER_MALFORMED_RESPONSE'' [(''category'', PStr msg)])
           (with_artifacts [(''model_output_parse_failure'', PBool True), (''model_output_parse_evidence'', PDict (tn_evidence e))]
              (failed ''PROVIDER_MALFORMED_RESPONSE'' (Some (parse_error_value err)))) k2)"

definition safe_usage :: "pydict \<Rightarrow> pydict" where
  "safe_usage usage =
     [(k, v) \<leftarrow> usage. k \<in> {''prompt_tokens'', ''completion_tokens'', ''total_tokens'', ''input_tokens'', ''output_tokens''} \<and>
        (case v of PInt _ \<Rightarrow> True | PBool _ \<Rightarrow> True | _ \<Rightarrow> False)]"

definition parsed :: "kernel_cfg \<Rightarrow> turn_env \<Rightarrow> provider_value \<Rightarrow> provider_response kstep" where
  "parsed cfg e v =
     (case parse_response (ce_json (kc_completion cfg)) v of
        Inr r \<Rightarrow> ok r
      | Inl err \<Rightarrow> if model_response_error err then malformed_response cfg e err else stop (Raised (Parse_raised err)))"

text \<open>A parsed response is a turn that counts.\<close>

definition count_turn :: "kernel_cfg \<Rightarrow> turn_env \<Rightarrow> provider_response \<Rightarrow> kernel \<Rightarrow> kernel" where
  "count_turn cfg e r k =
     (let turn = sn_turns (kn_snap k) + 1;
          k1 = log_kernel (Ev_Native MODEL_RESPONSE_PARSED)
                 (correlation cfg k @ [(''turn'', PInt (int turn)), (''content_length'', PInt (int (length (pr_content r)))),
                   (''tool_call_count'', PInt (int (length (pr_calls r)))), (''completion_claim'', PBool (pr_claim r))]) k;
          k2 = save_kernel (on_snap (\<lambda>s. s\<lparr>sn_turns := turn, sn_ordinal := turn, sn_phase := Phase_CONTINUE\<rparr>) k1)
      in log_kernel (Ev_Native NATIVE_MODEL_TURN_COMPLETED)
           [(''turn'', PInt (int turn)), (''duration_ms'', PInt (int (tn_duration e))), (''tool_call_count'', PInt (int (length (pr_calls r)))),
            (''completion_claim'', PBool (pr_claim r)), (''content_sha256'', PStr (cfg_sha cfg (pr_content r))),
            (''usage'', PDict (safe_usage (pr_usage r)))] k2)"

definition record_turn :: "kernel_cfg \<Rightarrow> turn_env \<Rightarrow> provider_response \<Rightarrow> unit kstep" where
  "record_turn cfg e r =
     then_step (edit (count_turn cfg e r)) (if tn_fault e then stop (Raised (Kernel_fault AFTER_MODEL_TURN_PERSISTED)) else ok ())"

section \<open>A tool call\<close>

primrec recovery_decision_value :: "recovery_decision \<Rightarrow> string" where
  "recovery_decision_value RD_CONTINUE_LOCAL_REPAIR = ''CONTINUE_LOCAL_REPAIR''"
| "recovery_decision_value RD_VALIDATE_CANDIDATE = ''VALIDATE_CANDIDATE''"
| "recovery_decision_value RD_STOP_NO_PROGRESS = ''STOP_NO_PROGRESS''"
| "recovery_decision_value RD_STOP_REPEATED_ACTION = ''STOP_REPEATED_ACTION''"
| "recovery_decision_value RD_STOP_OSCILLATION = ''STOP_OSCILLATION''"
| "recovery_decision_value RD_ESCALATE_MACRO_REPLAN = ''ESCALATE_MACRO_REPLAN''"
| "recovery_decision_value RD_TERMINAL_BUDGET_FAILURE = ''TERMINAL_BUDGET_FAILURE''"

definition policy_value :: "escalation_policy \<Rightarrow> string" where
  "policy_value p = (case p of NO_PROGRESS_AWARE \<Rightarrow> ''NO_PROGRESS_AWARE'' | LEGACY_BOUNDED \<Rightarrow> ''LEGACY_BOUNDED'')"

definition detection_dump :: "detection \<Rightarrow> pyval" where
  "detection_dump d =
     PDict [(''reason'', PStr (dt_reason d)), (''progress_status'', PStr (dt_status d)), (''state_digest'', PStr (dt_state_digest d)),
            (''action_fingerprint'', PStr (dt_action_fingerprint d)), (''progress_source'', dt_source d), (''effect_progress_authoritative'', PBool (dt_authoritative d)),
            (''strategy_epoch'', PInt (int (dt_epoch d)))]"

definition control_entry :: "recovery_decision \<Rightarrow> effect_progress \<Rightarrow> controller \<Rightarrow> pydict" where
  "control_entry d p c =
     [(''decision'', PStr (recovery_decision_value d)), (''progress_status'', PStr (progress_status_value (pg_status p))),
      (''state_digest'', PStr (pg_state_digest p)), (''action_fingerprint'', PStr (pg_action_fingerprint p)),
      (''matched_effect_keys'', str_list (pg_matched p)), (''escalation_policy'', PStr (policy_value (rc_policy c))),
      (''detections'', PList (map detection_dump (last_n 8 (rc_detections c))))]"

definition observed_action :: "kernel_cfg \<Rightarrow> tool_call \<Rightarrow> pydict \<Rightarrow> pydict" where
  "observed_action cfg c obs =
     [(''capability'', py_or (dict_get obs ''capability'') (PStr (tc_name c))), (''args_sha256'', dict_get obs ''args_sha256''),
      (''active_step_contract'', dict_get (aq_context (kc_request cfg)) ''active_step_contract''),
      (''planner_owned_arguments_match'', dict_get_or obs ''planner_owned_arguments_match'' (PBool False))]"

definition after_observation :: "pydict \<Rightarrow> pyval" where
  "after_observation obs = py_or (py_or (dict_get obs ''bounded_output'') (dict_get obs ''safe_summary'')) (PDict obs)"

text \<open>What a call leaves for the decisions that follow it: the controller's and the tracker's.\<close>

record verdicts =
  vd_control :: "(recovery_decision \<times> effect_progress) option"
  vd_tracker :: "repair_decision option"

text \<open>The dispatch, under the control token of the run.\<close>

definition call_tool :: "kernel_cfg \<Rightarrow> nat \<Rightarrow> call_env \<Rightarrow> tool_call \<Rightarrow> pydict kstep" where
  "call_tool cfg now e c k =
     (let (r, tb) = tool_dispatch (cfg_sha cfg) (kc_dispatcher cfg) (ck_dispatch e) c (kc_request cfg) (kn_snap k) (kd_tools (kn_db k));
          k1 = on_db (\<lambda>db. db\<lparr>kd_tools := tb\<rparr>) k
      in case ck_stopped e of
           Some f \<Rightarrow> control_terminated cfg now f k1
         | None \<Rightarrow>
             (case r of
                Inr obs \<Rightarrow> ok obs k1
              | Inl (Control_stopped f) \<Rightarrow> control_terminated cfg now f k1
              | Inl x \<Rightarrow> stop (Raised (Tool_raised x)) k1))"

definition count_call :: "pydict \<Rightarrow> kernel \<Rightarrow> kernel" where
  "count_call obs = on_snap (\<lambda>s. s\<lparr>sn_calls := sn_calls s + 1, sn_outcomes := sn_outcomes s @ [obs]\<rparr>)"

definition track_call :: "kernel_cfg \<Rightarrow> pydict \<Rightarrow> repair_decision option kstep" where
  "track_call cfg obs k =
     (case kn_tracker k of
        None \<Rightarrow> ok None k
      | Some t \<Rightarrow> (let (d, t') = tracker_observe (cfg_sha cfg) obs t in ok (Some d) (note_convergence (k\<lparr>kn_tracker := Some t'\<rparr>))))"

definition control_call_observed :: "kernel_cfg \<Rightarrow> tool_call \<Rightarrow> pydict \<Rightarrow> (recovery_decision \<times> effect_progress) option kstep" where
  "control_call_observed cfg c obs k =
     (case kn_control k of
        None \<Rightarrow> ok None k
      | Some ct \<Rightarrow>
          (case controller_observe (cfg_sha cfg) (kc_newid cfg) PNone (after_observation obs) (observed_action cfg c obs) obs ct of
             (Inl e, ct') \<Rightarrow> stop (Raised (Controller_raised e)) (k\<lparr>kn_control := Some ct'\<rparr>)
           | (Inr (d, p), ct') \<Rightarrow>
               ok (Some (d, p)) (on_snap (\<lambda>s. s\<lparr>sn_failure := put ''recovery_control'' (PDict (control_entry d p ct')) (sn_failure s)\<rparr>)
                 (k\<lparr>kn_control := Some ct'\<rparr>))))"

definition summary_of :: "pydict \<Rightarrow> pydict" where
  "summary_of obs = or_empty (dict_get obs ''safe_summary'')"

definition note_outcome :: "pydict \<Rightarrow> kernel \<Rightarrow> kernel" where
  "note_outcome obs k =
     on_snap (\<lambda>s. s\<lparr>sn_repeated := observer_snapshot (tb_observer (kd_tools (kn_db k))),
         sn_mutations := (if py_truthy (dict_get (summary_of obs) ''meaningful_mutation'') then sn_mutations s + 1 else sn_mutations s)\<rparr>) k"

definition note_verification :: "kernel_cfg \<Rightarrow> pydict \<Rightarrow> unit kstep" where
  "note_verification cfg obs k =
     (let sm = summary_of obs; before = sn_verification (kn_snap k)
      in if \<not> py_truthy (dict_get sm ''verification_kind'') then ok () k
         else
           (let v = [(''kind'', dict_get sm ''verification_kind''), (''outcome'', dict_get sm ''pytest_observation''), (''tool_call_index'', dict_get sm ''tool_call_index'')];
                k1 = on_snap (\<lambda>s. s\<lparr>sn_verification := v\<rparr>) k
            in if dict_get before ''outcome'' = PStr ''PASS'' \<and> dict_get v ''outcome'' = PStr ''FAIL''
               then create_replan cfg ''VERIFICATION_REGRESSION'' [(''previous'', PStr ''PASS''), (''current'', PStr ''FAIL'')] k1
               else ok () k1))"

definition note_repetition :: "kernel_cfg \<Rightarrow> pydict \<Rightarrow> unit kstep" where
  "note_repetition cfg obs =
     (if py_truthy (dict_get (summary_of obs) ''strategy_change_required'')
      then create_replan cfg ''REPEATED_TOOL_FAILURE'' [(''capability'', dict_get obs ''capability''), (''error_type'', dict_get obs ''error_type'')]
      else ok ())"

definition note_failure :: "pydict \<Rightarrow> kernel \<Rightarrow> kernel" where
  "note_failure obs k =
     (if dict_get obs ''status'' = PStr ''FAILURE''
      then set_failure [(''type'', py_or (dict_get obs ''error_type'') (PStr ''TOOL_FAILURE'')), (''capability'', dict_get obs ''capability'')] k
      else k)"

text \<open>The observation of one call, up to the save that makes it durable.\<close>

definition observe_call :: "kernel_cfg \<Rightarrow> tool_call \<Rightarrow> pydict \<Rightarrow> verdicts kstep" where
  "observe_call cfg c obs =
     then_step (edit (count_call obs))
    (next_step (track_call cfg obs) (\<lambda>d.
     next_step (control_call_observed cfg c obs) (\<lambda>ctl.
     then_step (edit (note_outcome obs))
    (then_step (note_verification cfg obs)
    (then_step (note_repetition cfg obs)
    (then_step (edit (save_kernel \<circ> note_failure obs))
     (ok \<lparr>vd_control = ctl, vd_tracker = d\<rparr>)))))))"

definition repair_detail :: "kernel \<Rightarrow> string" where
  "repair_detail k =
     ''bounded repair convergence control stopped after '' @ nat_digits (case kn_tracker k of None \<Rightarrow> 0 | Some t \<Rightarrow> tr_turns t) @ '' repair turns''"

definition tracker_stopped :: "repair_decision \<Rightarrow> 'a kstep" where
  "tracker_stopped d k =
     (let k1 = save_kernel (add_failure [(''type'', opt_str (rd_stop_reason d)), (''repair_stop_reason'', opt_str (rd_stop_reason d))] (set_phase Phase_FAILED k))
      in failed (py_str (opt_str (rd_stop_reason d))) (Some (repair_detail k1)) k1)"

definition escalated :: "string \<Rightarrow> string \<Rightarrow> 'a kstep" where
  "escalated reason detail k =
     failed ''REPLAN_REQUIRED'' (Some detail)
       (save_kernel (add_failure [(''type'', PStr ''REPLAN_REQUIRED''), (''repair_stop_reason'', PStr reason)]
          (set_phase Phase_REPLANNING (halt_tracker ''REPLAN_REQUIRED'' k))))"

definition act_on :: "verdicts \<Rightarrow> unit kstep" where
  "act_on v =
     (case vd_control v of
        Some (RD_VALIDATE_CANDIDATE, p) \<Rightarrow> validation_candidate p
      | Some (RD_ESCALATE_MACRO_REPLAN, p) \<Rightarrow>
          escalated (progress_status_value (pg_status p)) (''recovery control escalated after '' @ progress_status_value (pg_status p))
      | _ \<Rightarrow> (case vd_tracker v of Some d \<Rightarrow> if rd_continue d then ok () else tracker_stopped d | None \<Rightarrow> ok ()))"

definition one_call :: "kernel_cfg \<Rightarrow> turn_env \<Rightarrow> nat \<Rightarrow> tool_call \<Rightarrow> unit kstep" where
  "one_call cfg e i c =
     (let ce = tn_calls e i
      in then_step (unless_stopped cfg (tn_now e) (ck_before ce))
        (next_step (call_tool cfg (tn_now e) ce c) (\<lambda>obs.
         next_step (observe_call cfg c obs) (\<lambda>v.
         then_step (act_on v) (unless_stopped cfg (tn_now e) (ck_after ce))))))"

fun all_calls :: "kernel_cfg \<Rightarrow> turn_env \<Rightarrow> nat \<Rightarrow> tool_call list \<Rightarrow> unit kstep" where
  "all_calls cfg e i [] = ok ()"
| "all_calls cfg e i (c # cs) = then_step (one_call cfg e i c) (all_calls cfg e (i + 1) cs)"

definition tool_round :: "kernel_cfg \<Rightarrow> turn_env \<Rightarrow> tool_call list \<Rightarrow> unit kstep" where
  "tool_round cfg e cs k =
     (if sn_calls (kn_snap k) + length cs > aq_max_calls (kc_request cfg) then budget_exhausted cfg ''TOOL_CALL_BUDGET'' k
      else
        then_step (edit (save_kernel \<circ> set_phase Phase_WAITING_TOOL))
       (then_step (all_calls cfg e 0 cs)
        (edit (save_kernel \<circ> set_phase Phase_CONTINUE))) k)"

section \<open>A completion claim\<close>

definition ids_of :: "native_snapshot \<Rightarrow> snapshot_ids" where
  "ids_of s = \<lparr>si_task = sn_task s, si_run = sn_run s, si_attempt = sn_attempt s\<rparr>"

definition judge_claim :: "kernel_cfg \<Rightarrow> turn_env \<Rightarrow> string \<Rightarrow> candidate kstep" where
  "judge_claim cfg e claim k =
     (let (r, nd) = evaluate_claim (kc_completion cfg) (tn_crash e) (ids_of (kn_snap k)) claim ''MODEL_CLAIM'' (kd_native (kn_db k));
          k1 = on_db (\<lambda>db. db\<lparr>kd_native := nd\<rparr>) k
      in case tn_claim e of
           Some f \<Rightarrow> control_terminated cfg (tn_now e) f k1
         | None \<Rightarrow> (case r of Inl x \<Rightarrow> stop (Raised (Completion_raised x)) k1 | Inr c \<Rightarrow> ok c k1))"

definition claim_accepted :: "candidate \<Rightarrow> 'a kstep" where
  "claim_accepted c k =
     accepted (cc_summary c) (save_kernel (set_failure [] (set_phase Phase_ACCEPTED_COMPLETE (on_snap (\<lambda>s. s\<lparr>sn_candidate := Some (cc_id c)\<rparr>) k))))"

definition rejection_entry :: "candidate \<Rightarrow> pydict" where
  "rejection_entry c = [(''type'', PStr ''VALIDATOR_REJECTION''), (''candidate_id'', PStr (cc_id c))]"

definition rejection_outcome :: "candidate \<Rightarrow> pydict" where
  "rejection_outcome c =
     [(''capability'', PStr ''completion.validate''), (''status'', PStr ''FAILURE''), (''error_type'', PStr ''VALIDATOR_REJECTION''),
      (''candidate_id'', PStr (cc_id c)), (''safe_summary'', PDict (cc_validation c))]"

definition track_rejection :: "repair_decision option kstep" where
  "track_rejection k =
     (case kn_tracker k of
        None \<Rightarrow> ok None k
      | Some t \<Rightarrow> (let (d, t') = validation_rejected t in ok (Some d) (note_convergence (k\<lparr>kn_tracker := Some t'\<rparr>))))"

definition control_rejection :: "kernel_cfg \<Rightarrow> recovery_decision option kstep" where
  "control_rejection cfg k =
     (case kn_control k of
        None \<Rightarrow> ok None k
      | Some ct \<Rightarrow>
          (case validator_rejected (cfg_sha cfg) (kc_newid cfg) ct of
             (Inl e, ct') \<Rightarrow> stop (Raised (Controller_raised e)) (k\<lparr>kn_control := Some ct'\<rparr>)
           | (Inr d, ct') \<Rightarrow> ok (Some d) (k\<lparr>kn_control := Some ct'\<rparr>)))"

definition act_on_rejection :: "recovery_decision option \<Rightarrow> repair_decision option \<Rightarrow> unit kstep" where
  "act_on_rejection ctl d k =
     (if ctl = Some RD_ESCALATE_MACRO_REPLAN then escalated ''REPEATED_VALIDATOR_REJECTION'' ''repeated authoritative validator rejection'' k
      else
        (case d of
           Some x \<Rightarrow> if rd_continue x then ok () k else failed (py_str (opt_str (rd_stop_reason x))) (Some (repair_detail k)) k
         | None \<Rightarrow> ok () k))"

definition claim_rejected :: "kernel_cfg \<Rightarrow> candidate \<Rightarrow> unit kstep" where
  "claim_rejected cfg c =
     then_step (edit (set_failure (rejection_entry c) \<circ> set_phase Phase_RECOVERING \<circ> on_snap (\<lambda>s. s\<lparr>sn_candidate := Some (cc_id c)\<rparr>)))
    (next_step track_rejection (\<lambda>d.
     then_step (edit (save_kernel \<circ> on_snap (\<lambda>s. s\<lparr>sn_outcomes := sn_outcomes s @ [rejection_outcome c]\<rparr>)))
    (next_step (control_rejection cfg) (\<lambda>ctl. act_on_rejection ctl d))))"

definition claim_round :: "kernel_cfg \<Rightarrow> turn_env \<Rightarrow> string \<Rightarrow> unit kstep" where
  "claim_round cfg e claim =
     then_step (edit (save_kernel \<circ> set_phase Phase_CANDIDATE_COMPLETE \<circ> note_convergence \<circ> on_tracker (snd \<circ> candidate_for_validation)))
    (next_step (judge_claim cfg e claim) (\<lambda>c. if cc_status c = ACCEPTED then claim_accepted c else claim_rejected cfg c))"

section \<open>The loop\<close>

definition model_stopped :: "kernel_cfg \<Rightarrow> 'a kstep" where
  "model_stopped cfg =
     then_step (edit (save_kernel \<circ> set_failure [(''type'', PStr ''MODEL_STOPPED_WITHOUT_COMPLETION'')] \<circ> set_phase Phase_FAILED))
    (then_step (create_replan cfg ''MODEL_STOPPED_WITHOUT_COMPLETION'' [])
     (failed ''MODEL_STOPPED_WITHOUT_COMPLETION'' None))"

definition respond :: "kernel_cfg \<Rightarrow> turn_env \<Rightarrow> provider_response \<Rightarrow> unit kstep" where
  "respond cfg e r =
     (if pr_calls r \<noteq> [] then tool_round cfg e (pr_calls r)
      else if pr_claim r then claim_round cfg e (pr_content r)
      else model_stopped cfg)"

definition turn :: "kernel_cfg \<Rightarrow> turn_env \<Rightarrow> unit kstep" where
  "turn cfg e =
     then_step (open_turn cfg e)
    (next_step (generate cfg e) (\<lambda>v.
     then_step (receive cfg e v)
    (next_step (parsed cfg e v) (\<lambda>r.
     then_step (record_turn cfg e r) (respond cfg e r)))))"

section \<open>A run\<close>

text \<open>What the world does before the first turn.\<close>

record start_env =
  st_now :: nat
  st_target :: "runtime_target option"
  st_check :: "control_failure option"
  st_crash :: "nat option"
  st_probe :: "bool option"

definition kernel_ids :: "agent_request \<Rightarrow> (string \<times> string \<times> string) option" where
  "kernel_ids q =
     (let d = aq_metadata q
      in if has_key d ''task_id'' \<and> has_key d ''run_id'' \<and> has_key d ''attempt_id''
         then Some (py_str (dict_get d ''task_id''), py_str (dict_get d ''run_id''), py_str (dict_get d ''attempt_id'')) else None)"

text \<open>The lists and texts of a new snapshot are typed: anything else is a validation error.\<close>

definition text_items :: "pyval \<Rightarrow> string list option" where
  "text_items v =
     (case v of
        PList xs \<Rightarrow> if list_all (\<lambda>x. as_str x \<noteq> None) xs then Some (map (the \<circ> as_str) xs) else None
      | PStr t \<Rightarrow> Some (map (\<lambda>c. [c]) t)
      | PDict d \<Rightarrow> Some (map fst d)
      | _ \<Rightarrow> None)"

definition opt_text :: "pyval \<Rightarrow> string option option" where
  "opt_text v = (case v of PNone \<Rightarrow> Some None | PStr t \<Rightarrow> Some (Some t) | _ \<Rightarrow> None)"

definition new_kernel_snapshot :: "kernel_cfg \<Rightarrow> string \<times> string \<times> string \<Rightarrow> native_snapshot option" where
  "new_kernel_snapshot cfg ids =
     (let ctx = aq_context (kc_request cfg); graph = or_empty (dict_get ctx ''taskgraph'');
          nodes = (\<lambda>key. text_items (py_or (py_or (dict_get graph key) (dict_get ctx key)) (PList [])))
      in case (opt_text (py_or (dict_get graph ''active_node'') (dict_get ctx ''active_node'')), nodes ''completed_nodes'', nodes ''pending_nodes'',
               as_dict (py_or (dict_get ctx ''workspace_identity'') (PDict []))) of
           (Some position, Some completed, Some pending, Some workspace) \<Rightarrow>
             load_snapshot
               \<lparr>sn_id = kc_snapshot_id cfg, sn_task = fst ids, sn_run = fst (snd ids), sn_attempt = snd (snd ids), sn_goal = aq_objective (kc_request cfg),
                sn_phase = Phase_CONTINUE, sn_version = 1, sn_turns = 0, sn_calls = 0, sn_position = position, sn_completed = completed,
                sn_pending = pending, sn_workspace = workspace, sn_mutations = 0, sn_outcomes = [], sn_repeated = [], sn_verification = [],
                sn_failure = [], sn_dependencies = [], sn_candidate = None, sn_tokens = [], sn_configured = None, sn_effective = None,
                sn_actual = None, sn_transport = None, sn_fallback = None, sn_switch = None, sn_ordinal = 0\<rparr>
         | _ \<Rightarrow> None)"

definition load_or_create :: "kernel_cfg \<Rightarrow> string \<times> string \<times> string \<Rightarrow> unit kstep" where
  "load_or_create cfg ids k =
     (case get_snapshot (snd (snd ids)) (kd_snapshots (kn_db k)) of
        None \<Rightarrow> stop (Raised Snapshot_invalid) k
      | Some (Some s) \<Rightarrow> ok () (k\<lparr>kn_snap := s\<rparr>)
      | Some None \<Rightarrow>
          (case new_kernel_snapshot cfg ids of
             None \<Rightarrow> stop (Raised Snapshot_invalid) k
           | Some s \<Rightarrow> edit save_kernel (k\<lparr>kn_snap := s\<rparr>)))"

definition restore_dispatcher :: "unit kstep" where
  "restore_dispatcher k =
     (case observer_restore (PDict (sn_repeated (kn_snap k))) (tb_observer (kd_tools (kn_db k))) of
        None \<Rightarrow> stop (Raised Snapshot_invalid) k
      | Some ob \<Rightarrow> ok () (on_db (\<lambda>db. db\<lparr>kd_tools := (kd_tools db)\<lparr>tb_observer := ob\<rparr>\<rparr>) k))"

text \<open>A candidate that was left open is judged now; an accepted one ends the run.\<close>

definition resume_candidate :: "kernel_cfg \<Rightarrow> start_env \<Rightarrow> unit kstep" where
  "resume_candidate cfg e k =
     (let (r, nd) = resume_pending (kc_completion cfg) (st_crash e) (sn_attempt (kn_snap k)) (kd_native (kn_db k));
          k1 = on_db (\<lambda>db. db\<lparr>kd_native := nd\<rparr>) k
      in case r of
           Inl x \<Rightarrow> stop (Raised (Completion_raised x)) k1
         | Inr None \<Rightarrow> ok () k1
         | Inr (Some c) \<Rightarrow>
             (let k2 = on_snap (\<lambda>s. s\<lparr>sn_candidate := Some (cc_id c)\<rparr>) k1
              in case cc_status c of
                   ACCEPTED \<Rightarrow> accepted (cc_summary c) (save_kernel (set_phase Phase_ACCEPTED_COMPLETE k2))
                 | REJECTED \<Rightarrow> edit (save_kernel \<circ> set_failure (rejection_entry c) \<circ> set_phase Phase_RECOVERING) k2
                 | CANDIDATE_COMPLETION \<Rightarrow> ok () k1))"

text \<open>Calls that a crash interrupted, or that finished without reaching the snapshot.\<close>

definition recovered_outcome :: "tool_invocation \<Rightarrow> pydict" where
  "recovered_outcome v =
     [(''capability'', PStr (ti_capability v)), (''status'', opt_str (ti_status v)), (''error_type'', opt_str (ti_error v)),
      (''safe_summary'', PDict (ti_summary v)), (''recovered_from_durable_invocation'', PBool True)]"

definition recovered_snapshot :: "tool_invocation list \<Rightarrow> pydict list \<Rightarrow> native_snapshot \<Rightarrow> native_snapshot" where
  "recovered_snapshot vs reconciled s =
     (let late = [v \<leftarrow> vs. ti_ordinal v > sn_calls s]; finished = [v \<leftarrow> late. ti_state v = Inv_FINISHED]
      in s\<lparr>sn_outcomes := sn_outcomes s @ map recovered_outcome finished @ reconciled,
           sn_calls := foldl max (sn_calls s) (map ti_ordinal vs),
           sn_mutations := sn_mutations s + length [v \<leftarrow> late. ti_mutation v],
           sn_phase := Phase_RECOVERING,
           sn_failure := [(''type'', PStr ''PROCESS_INTERRUPTED_TOOL''), (''reconciled_count'', PInt (int (length reconciled))),
                          (''recovered_finished_count'', PInt (int (length finished)))]\<rparr>)"

definition recover_tools :: "kernel_cfg \<Rightarrow> start_env \<Rightarrow> unit kstep" where
  "recover_tools cfg e k =
     (let a = sn_attempt (kn_snap k); before = sn_calls (kn_snap k);
          (r, tb) = reconcile_unfinished (cfg_sha cfg) (st_now e) (st_probe e) a (kd_tools (kn_db k));
          k1 = on_db (\<lambda>db. db\<lparr>kd_tools := tb\<rparr>) k; vs = invocations_of a tb
      in case r of
           Inl x \<Rightarrow> stop (Raised (Tool_raised x)) k1
         | Inr reconciled \<Rightarrow>
             if reconciled \<noteq> [] \<or> list_ex (\<lambda>v. ti_ordinal v > before \<and> ti_state v = Inv_FINISHED) vs
             then edit (save_kernel \<circ> on_snap (recovered_snapshot vs reconciled)) k1
             else ok () k1)"

definition start_run :: "kernel_cfg \<Rightarrow> start_env \<Rightarrow> unit kstep" where
  "start_run cfg e =
     (case kernel_ids (kc_request cfg) of
        None \<Rightarrow> stop (Raised Missing_ids)
      | Some ids \<Rightarrow>
          then_step (edit (\<lambda>k. k\<lparr>kn_status := Agent_RUNNING\<rparr>))
         (then_step (load_or_create cfg ids)
         (then_step (ensure_runtime_target cfg (st_target e))
         (then_step restore_dispatcher
         (then_step (unless_stopped cfg (st_now e) (st_check e))
         (then_step (resume_candidate cfg e)
          (recover_tools cfg e)))))))"

end
