(* ===== verification/KernelFrame.thy ===== *)
theory KernelFrame imports Kernel begin

text \<open>
  What the parts of a turn of the native kernel leave alone: the identity of the run, its counters, the
  number of questions asked to the model, and the rows of the completion claims.

  \<^item> \<open>moved t c m\<close> says how far the counters went; \<open>still N\<close> that a part which goes on moves nothing, and
    one that stops counted at most \<open>N\<close> turns and reports a completion only as a candidate.
  \<^item> The rules follow the combinators of the steps, so the proof of a part is its composition.
\<close>

section \<open>What a part leaves alone\<close>

text \<open>How often the model was asked, as the log tells.\<close>

definition model_calls :: "kernel \<Rightarrow> nat" where
  "model_calls k = length [e \<leftarrow> kd_log (kn_db k). ev_type e = Ev_Native MODEL_CALL_STARTED]"

definition progress_of :: "kernel \<Rightarrow> (string \<times> string \<times> string) \<times> nat \<times> nat \<times> nat" where
  "progress_of k = (let s = kn_snap k in ((sn_task s, sn_run s, sn_attempt s), sn_turns s, sn_calls s, model_calls k))"

definition rows_of_claims :: "kernel \<Rightarrow> task list \<times> attempt list \<times> candidate list \<times> native_validation list" where
  "rows_of_claims k = (let nd = kd_native (kn_db k) in (nd_tasks nd, nd_attempts nd, nd_candidates nd, nd_validations nd))"

text \<open>\<open>moved t c m\<close>: so many turns, calls and questions to the model later; the claims are as they were.\<close>

definition moved :: "nat \<Rightarrow> nat \<Rightarrow> nat \<Rightarrow> kernel \<Rightarrow> kernel \<Rightarrow> bool" where
  "moved t c m k k' \<longleftrightarrow>
     progress_of k' = (let (ids, t0, c0, m0) = progress_of k in (ids, t0 + t, c0 + c, m0 + m)) \<and> rows_of_claims k' = rows_of_claims k"

abbreviation frame :: "kernel \<Rightarrow> kernel \<Rightarrow> bool" where
  "frame \<equiv> moved 0 0 0"

abbreviation one_turn :: "kernel \<Rightarrow> kernel \<Rightarrow> bool" where
  "one_turn \<equiv> moved 1 0 0"

lemma moved_trans: "moved t c m k k1 \<Longrightarrow> moved t' c' m' k1 k2 \<Longrightarrow> moved (t + t') (c + c') (m + m') k k2"
  by (auto simp: moved_def Let_def split: prod.splits)

text \<open>A part that ends the run: the result shows the snapshot's counters, at most \<open>N\<close> more turns were
  counted, and it is not a completion unless it says that it is a candidate.\<close>

definition reports_counters :: "agent_result \<Rightarrow> kernel \<Rightarrow> bool" where
  "reports_counters r k \<longleftrightarrow> ar_turns r = sn_turns (kn_snap k) \<and> ar_calls r = sn_calls (kn_snap k)"

definition result_ok :: "kernel_stop \<Rightarrow> kernel \<Rightarrow> bool" where
  "result_ok s k \<longleftrightarrow>
     (case s of
        Raised _ \<Rightarrow> True
      | Finished r \<Rightarrow> reports_counters r k \<and> (ar_status r = Agent_COMPLETED \<longrightarrow> has_key (ar_artifacts r) ''validation_candidate''))"

definition halted :: "nat \<Rightarrow> kernel \<Rightarrow> kernel_stop \<Rightarrow> kernel \<Rightarrow> bool" where
  "halted N k s k' \<longleftrightarrow> (\<exists>n. n \<le> N \<and> moved n 0 0 k k') \<and> result_ok s k'"

definition still :: "nat \<Rightarrow> 'a kstep \<Rightarrow> bool" where
  "still N m \<longleftrightarrow> (\<forall>k. case m k of (Inr _, k') \<Rightarrow> frame k k' | (Inl s, k') \<Rightarrow> halted N k s k')"

lemma frame_refl [simp]: "frame k k"
  by (simp add: moved_def Let_def split: prod.split)

lemma frame_trans: "frame a b \<Longrightarrow> frame b c \<Longrightarrow> frame a c"
  using moved_trans[of 0 0 0 a b 0 0 0 c] by simp

lemma frame_halted: "frame a b \<Longrightarrow> halted N b s c \<Longrightarrow> halted N a s c"
  unfolding halted_def using moved_trans[of 0 0 0 a b _ 0 0 c] by fastforce

lemma calm_ok [intro]: "still N (ok x)"
  by (simp add: still_def ok_def)

lemma calm_raised [intro]: "still N (stop (Raised x))"
  by (auto simp: still_def stop_def halted_def result_ok_def intro: exI[of _ 0])

lemma calm_edit [intro]: "(\<And>k. frame k (f k)) \<Longrightarrow> still N (edit f)"
  by (simp add: still_def edit_def)

lemma calm_next [intro]:
  assumes "still N m" and "\<And>x. still N (f x)" shows "still N (next_step m f)"
  unfolding still_def
proof
  fix k
  obtain r k1 where m: "m k = (r, k1)" by fastforce
  show "case next_step m f k of (Inr _, k') \<Rightarrow> frame k k' | (Inl s, k') \<Rightarrow> halted N k s k'"
  proof (cases r)
    case (Inl s)
    then show ?thesis using assms(1)[unfolded still_def, rule_format, of k] by (simp add: next_step_def m)
  next
    case (Inr x)
    have a: "frame k k1" using assms(1)[unfolded still_def, rule_format, of k] by (simp add: m Inr)
    obtain r2 k2 where f: "f x k1 = (r2, k2)" by fastforce
    show ?thesis
      using assms(2)[of x, unfolded still_def, rule_format, of k1] frame_trans[OF a] frame_halted[OF a]
      by (simp add: next_step_def m Inr f split: sum.splits)
  qed
qed

lemma calm_then [intro]: "still N m \<Longrightarrow> still N n \<Longrightarrow> still N (then_step m n)"
  unfolding then_step_def by (rule calm_next)

lemma calmD: "still N m \<Longrightarrow> m k = (Inr x, k') \<Longrightarrow> frame k k'"
  "still N m \<Longrightarrow> m k = (Inl s, k') \<Longrightarrow> halted N k s k'"
  unfolding still_def by (metis (mono_tags, lifting) old.prod.case sum.case)+

lemma calm_if [intro]: "(b \<Longrightarrow> still N m) \<Longrightarrow> (\<not> b \<Longrightarrow> still N n) \<Longrightarrow> still N (if b then m else n)"
  by simp

text \<open>The outcome of a part at one kernel, and a part entered after edits.\<close>

definition calm_at :: "nat \<Rightarrow> kernel \<Rightarrow> (kernel_stop + 'a) \<times> kernel \<Rightarrow> bool" where
  "calm_at N k y \<longleftrightarrow> (case y of (Inr _, k') \<Rightarrow> frame k k' | (Inl s, k') \<Rightarrow> halted N k s k')"

lemma calm_iff: "still N m \<longleftrightarrow> (\<forall>k. calm_at N k (m k))"
  by (simp add: still_def calm_at_def)

lemma calm_enter: "still N m \<Longrightarrow> frame k k1 \<Longrightarrow> calm_at N k (m k1)"
  unfolding calm_iff calm_at_def using frame_trans frame_halted by (fastforce split: prod.splits sum.splits)

lemma calm_at_ok [simp]: "calm_at N k (ok x k') \<longleftrightarrow> frame k k'" "calm_at N k (edit f k') \<longleftrightarrow> frame k (f k')"
  by (simp_all add: calm_at_def ok_def edit_def)

lemma calm_at_raised [simp]: "frame k k' \<Longrightarrow> calm_at N k (stop (Raised x) k')"
  by (auto simp: calm_at_def stop_def halted_def result_ok_def intro: exI[of _ 0])

lemma ends_calm: "(\<And>k. \<exists>s k'. m k = (Inl s, k') \<and> halted N k s k') \<Longrightarrow> still N m"
  unfolding still_def by (metis (mono_tags, lifting) case_prod_conv sum.case(1))

section \<open>The edits\<close>

lemma model_calls_store:
  "model_calls (k\<lparr>kn_db := db\<lparr>kd_log := store_append ty a b c p (kd_log db)\<rparr>\<rparr>) =
     length [e \<leftarrow> kd_log db. ev_type e = Ev_Native MODEL_CALL_STARTED] + (if ty = Ev_Native MODEL_CALL_STARTED then 1 else 0)"
  by (simp add: model_calls_def store_append_def Let_def)

lemma log_progress [simp]:
  "progress_of (log_kernel ty p k) = (let (ids, t, c, m) = progress_of k in (ids, t, c, m + (if ty = Ev_Native MODEL_CALL_STARTED then 1 else 0)))"
  by (simp add: progress_of_def log_kernel_def on_db_def Let_def model_calls_def store_append_def)

lemma log_frame: "ty \<noteq> Ev_Native MODEL_CALL_STARTED \<Longrightarrow> frame k k1 \<Longrightarrow> frame k (log_kernel ty p k1)"
  by (simp add: moved_def rows_of_claims_def log_kernel_def on_db_def Let_def progress_of_def model_calls_def store_append_def)

lemma save_frame: "frame k k1 \<Longrightarrow> frame k (save_kernel k1)"
  unfolding save_kernel_def Let_def
  by (auto simp: moved_def rows_of_claims_def progress_of_def log_kernel_def on_db_def Let_def model_calls_def store_append_def split_beta)

lemma snap_frame:
  "(\<And>s. sn_task (f s) = sn_task s \<and> sn_run (f s) = sn_run s \<and> sn_attempt (f s) = sn_attempt s \<and> sn_turns (f s) = sn_turns s \<and> sn_calls (f s) = sn_calls s) \<Longrightarrow>
   frame k k1 \<Longrightarrow> frame k (on_snap f k1)"
  by (simp add: moved_def on_snap_def progress_of_def rows_of_claims_def Let_def model_calls_def)

lemma fields_frame:
  "frame k (k1\<lparr>kn_tracker := t\<rparr>) \<longleftrightarrow> frame k k1" "frame k (k1\<lparr>kn_control := c\<rparr>) \<longleftrightarrow> frame k k1"
  "frame k (k1\<lparr>kn_budget := b\<rparr>) \<longleftrightarrow> frame k k1" "frame k (k1\<lparr>kn_status := st\<rparr>) \<longleftrightarrow> frame k k1"
  "frame k (on_tracker f k1) \<longleftrightarrow> frame k k1" "frame k (halt_tracker reason k1) \<longleftrightarrow> frame k k1"
  by (simp_all add: moved_def progress_of_def rows_of_claims_def Let_def model_calls_def on_tracker_def halt_tracker_def)

lemma db_frame:
  "frame k (on_db (\<lambda>db. db\<lparr>kd_tools := tb\<rparr>) k1) \<longleftrightarrow> frame k k1" "frame k (on_db (\<lambda>db. db\<lparr>kd_deleg := dd\<rparr>) k1) \<longleftrightarrow> frame k k1"
  "frame k (on_db (\<lambda>db. db\<lparr>kd_targets := tg\<rparr>) k1) \<longleftrightarrow> frame k k1" "frame k (on_db (\<lambda>db. db\<lparr>kd_health := g (kd_health db)\<rparr>) k1) \<longleftrightarrow> frame k k1"
  by (simp_all add: moved_def progress_of_def rows_of_claims_def Let_def model_calls_def on_db_def)

lemma failure_frame:
  "frame k k1 \<Longrightarrow> frame k (set_phase p k1)" "frame k k1 \<Longrightarrow> frame k (set_failure d k1)" "frame k k1 \<Longrightarrow> frame k (add_failure d k1)"
  "frame k k1 \<Longrightarrow> frame k (note_convergence k1)" "frame k k1 \<Longrightarrow> frame k (note_failure obs k1)" "frame k k1 \<Longrightarrow> frame k (note_outcome obs k1)"
  by (auto simp: set_phase_def set_failure_def add_failure_def note_convergence_def note_failure_def note_outcome_def intro!: snap_frame split: option.split)

lemmas edits = fields_frame db_frame failure_frame save_frame log_frame

section \<open>The parts\<close>

lemma base_reports: "sn_turns (kn_snap k') = sn_turns (kn_snap k) \<and> sn_calls (kn_snap k') = sn_calls (kn_snap k) \<Longrightarrow>
   reports_counters (r\<lparr>ar_turns := sn_turns (kn_snap k), ar_calls := sn_calls (kn_snap k)\<rparr>) k'"
  by (simp add: reports_counters_def)

lemma finished_halted:
  "frame k k' \<Longrightarrow> reports_counters r k' \<Longrightarrow> (ar_status r = Agent_COMPLETED \<Longrightarrow> has_key (ar_artifacts r) ''validation_candidate'') \<Longrightarrow>
   calm_at N k (stop (Finished r) k')"
  by (auto simp: calm_at_def stop_def halted_def result_ok_def intro: exI[of _ 0])

lemma calm_control_terminated [intro]: "still N (control_terminated cfg now f)"
  unfolding calm_iff control_terminated_def Let_def
  by (intro allI finished_halted) (simp_all add: edits base_result_def reports_counters_def Let_def)

lemma calm_failed [intro]: "still N (failed err d)"
  unfolding calm_iff failed_def Let_def
  by (intro allI finished_halted) (simp_all add: edits base_result_def reports_counters_def Let_def)

lemma calm_validation_candidate [intro]: "still N (validation_candidate p)"
  unfolding calm_iff validation_candidate_def Let_def
  by (intro allI finished_halted) (simp_all add: edits base_result_def reports_counters_def Let_def has_key_def)

lemma signal_rows: "create_signal g nd = Some nd' \<Longrightarrow>
  nd_tasks nd' = nd_tasks nd \<and> nd_attempts nd' = nd_attempts nd \<and> nd_candidates nd' = nd_candidates nd \<and> nd_validations nd' = nd_validations nd"
  by (auto simp: create_signal_def split: if_splits)

lemma calm_create_replan [intro]: "still N (create_replan cfg reason ev)"
  unfolding calm_iff create_replan_def Let_def
proof (intro allI)
  fix k :: kernel
  let ?g = "\<lparr>rs_id = ce_id (kc_completion cfg) (nd_ids (kd_native (kn_db k))), rs_task = sn_task (kn_snap k), rs_run = sn_run (kn_snap k),
    rs_attempt = sn_attempt (kn_snap k), rs_reason = reason, rs_scope = ''TASKGRAPH_NODE'', rs_failed_node = sn_position (kn_snap k), rs_evidence = ev\<rparr>"
  show "calm_at N k (case create_signal ?g (kd_native (kn_db k)) of None \<Rightarrow> stop (Raised Signal_raised) k
      | Some nd \<Rightarrow> edit (log_kernel (Ev_Native REPLAN_SIGNAL_CREATED)
          [(''signal_id'', PStr (rs_id ?g)), (''reason'', PStr reason), (''scope'', PStr ''TASKGRAPH_NODE''),
           (''failed_node_id'', opt_str (sn_position (kn_snap k)))]) (on_db (\<lambda>db. db\<lparr>kd_native := nd\<rparr>) k))"
  proof (cases "create_signal ?g (kd_native (kn_db k))")
    case (Some nd)
    then have "frame k (on_db (\<lambda>db. db\<lparr>kd_native := nd\<rparr>) k)"
      using signal_rows[OF Some] by (simp add: moved_def progress_of_def rows_of_claims_def on_db_def model_calls_def Let_def)
    then show ?thesis using Some by (simp add: log_frame)
  qed simp
qed

lemma calm_budget_exhausted [intro]: "still N (budget_exhausted cfg b)"
  unfolding calm_iff budget_exhausted_def Let_def
  by (intro allI calm_enter calm_then calm_create_replan calm_failed) (simp add: edits)

lemma calm_unless_stopped [intro]: "still N (unless_stopped cfg now f)"
  by (auto simp: unless_stopped_def split: option.split)

lemma calm_absorb [intro]: "still N (absorb_delivery cfg d)"
  unfolding calm_iff absorb_delivery_def Let_def
  by (auto intro!: calm_enter[OF calm_create_replan] snap_frame)

lemma calm_absorb_all [intro]: "still N (absorb_deliveries cfg ds)"
  by (induction ds) auto

declare absorb_deliveries.simps [simp del]

lemma calm_save [intro]: "still N (edit save_kernel)"
  by (intro calm_edit save_frame frame_refl)

lemma calm_consume [intro]: "still N (consume_deliveries cfg now)"
  unfolding calm_iff consume_deliveries_def Let_def
  by (auto simp: edits split: prod.split sum.split list.split intro!: calm_enter[OF calm_then[OF calm_absorb_all calm_save]])

lemma calm_check_call_budget [intro]: "still N (check_call_budget cfg)"
  unfolding calm_iff check_call_budget_def by (auto intro!: calm_enter[OF calm_budget_exhausted])

lemma calm_begin_tracked [intro]: "still N (edit begin_tracked_turn)"
  by (intro calm_edit) (simp add: begin_tracked_turn_def edits)

text \<open>A part that never returns may come after a turn was counted.\<close>

definition ends :: "'a kstep \<Rightarrow> bool" where
  "ends m \<longleftrightarrow> (\<forall>k. \<exists>s k'. m k = (Inl s, k'))"

lemma ends_failed [intro]: "ends (failed err d)"
  by (simp add: ends_def failed_def stop_def Let_def)

lemma ends_next [intro]: "(\<And>x. ends (f x)) \<Longrightarrow> ends (next_step m f)"
  unfolding ends_def next_step_def by (auto split: prod.split sum.split)

lemma ends_then [intro]: "ends n \<Longrightarrow> ends (then_step m n)"
  unfolding then_step_def by (rule ends_next)

lemma halted_mono: "halted N k s k' \<Longrightarrow> N \<le> M \<Longrightarrow> halted M k s k'"
  unfolding halted_def using le_trans by blast

lemma calm_mono: "still N m \<Longrightarrow> N \<le> M \<Longrightarrow> still M m"
  unfolding calm_iff calm_at_def by (fastforce split: prod.splits sum.splits dest: halted_mono)

lemma one_turn_frame: "one_turn k k1 \<Longrightarrow> frame k1 k2 \<Longrightarrow> one_turn k k2"
  using moved_trans[of 1 0 0 k k1 0 0 0 k2] by simp

lemma calm_count:
  assumes "still 0 m" and "ends m" and "one_turn k k1"
  shows "calm_at 1 k (m k1)"
proof -
  obtain s k' where m: "m k1 = (Inl s, k')" using assms(2) unfolding ends_def by blast
  have "halted 0 k1 s k'" using calmD(2)[OF assms(1) m] .
  with assms(3) show ?thesis using one_turn_frame by (fastforce simp: m calm_at_def halted_def)
qed

lemma turn_edit:
  "(\<And>s. sn_task (f s) = sn_task s \<and> sn_run (f s) = sn_run s \<and> sn_attempt (f s) = sn_attempt s \<and> sn_turns (f s) = n \<and> sn_calls (f s) = sn_calls s) \<Longrightarrow>
   frame k k1 \<Longrightarrow> n = sn_turns (kn_snap k) + 1 \<Longrightarrow> one_turn k (on_snap f k1)"
  by (simp add: moved_def on_snap_def progress_of_def rows_of_claims_def Let_def model_calls_def)

lemma record_health_frame: "frame k1 (record_provider_health c d k1)"
  by (auto simp: record_provider_health_def edits split: option.split)

lemma provider_failure_turn:
  assumes "frame k k1" and "n = sn_turns (kn_snap k) + 1"
  shows "calm_at 1 k (provider_failure c n d k1)"
  unfolding provider_failure_def Let_def
proof (rule calm_count[OF calm_failed ends_failed])
  let ?f = "\<lambda>s. s\<lparr>sn_turns := n, sn_ordinal := n, sn_phase := Phase_RECOVERING,
     sn_failure := [(''type'', PStr (provider_failure_value c)), (''category'', PStr (provider_failure_value c)), (''failure_code'', PStr (taxonomy_code c)),
       (''detail'', PStr (safe_error d)), (''same_target_retryable'', PBool (same_target_retryable c))]\<rparr>"
  have "one_turn k (on_snap ?f k1)" by (rule turn_edit[OF _ assms]) simp
  moreover have "frame (on_snap ?f k1) (log_kernel (Ev_Runtime NATIVE_PROVIDER_FAILURE) p (record_provider_health c x (save_kernel (on_snap ?f k1))))" for p x
    by (intro log_frame frame_trans[OF save_frame[OF frame_refl] record_health_frame]) simp
  ultimately show "one_turn k (log_kernel (Ev_Runtime NATIVE_PROVIDER_FAILURE)
      ([(''turn'', PInt (int n)), (''failure_category'', PStr (provider_failure_value c)), (''failure_code'', PStr (taxonomy_code c)),
        (''detail'', PStr (safe_error d))] @ target_entries (kn_snap (record_provider_health c (safe_error d) (save_kernel (on_snap ?f k1)))))
      (record_provider_health c (safe_error d) (save_kernel (on_snap ?f k1))))"
    using one_turn_frame by blast
qed

lemma calm_check_provider_health [intro]: "still 1 (check_provider_health now)"
  unfolding calm_iff check_provider_health_def by (auto intro!: provider_failure_turn[simplified] split: option.split)

lemma calm_check_provider [intro]: "still N (check_provider actual transport)"
  unfolding calm_iff check_provider_def Let_def by (auto intro!: edits snap_frame)

lemma adopt_frame: "frame k k1 \<Longrightarrow> frame k (adopt_binding b k1)"
  unfolding adopt_binding_def take_binding_def by (auto intro!: snap_frame)

lemma calm_runtime_truth [intro]: "still N (check_runtime_truth cfg e)"
proof -
  have "still N (assert_runtime_truth cfg a t)" for a t
    unfolding calm_iff assert_runtime_truth_def by (auto intro!: calm_enter[OF calm_check_provider] adopt_frame split: sum.split)
  then show ?thesis unfolding check_runtime_truth_def by auto
qed

lemma calm_lease_exhausted [intro]: "still N (lease_exhausted cfg c)"
  unfolding calm_iff lease_exhausted_def
  by (auto simp: edits split: prod.split sum.split intro!: calm_enter[OF calm_failed])

lemma calm_lease_turn [intro]: "still N (lease_turn cfg)"
  unfolding calm_iff lease_turn_def Let_def
  by (auto simp: edits split: prod.split sum.split option.split intro!: calm_enter[OF calm_lease_exhausted])

lemma rejected_frame: "frame k (record_model_response_rejected n c d k)"
  unfolding record_model_response_rejected_def by (intro log_frame) simp_all

lemma calm_generate [intro]: "still 1 (generate cfg e)"
proof -
  have "still 1 (provider_rejected c d)" for c d
    unfolding calm_iff provider_rejected_def Let_def by (intro allI provider_failure_turn rejected_frame refl)
  then show ?thesis by (auto simp: generate_def split: generation.split)
qed

lemma calm_receive [intro]: "still N (receive cfg e v)"
  unfolding receive_def by (intro calm_then calm_unless_stopped calm_edit log_frame frame_refl) simp


lemma with_artifacts_cases:
  obtains (same) "with_artifacts extra m k = m k" "\<And>r. fst (m k) \<noteq> Inl (Finished r)"
  | (extended) r k' where "m k = (Inl (Finished r), k')"
      "with_artifacts extra m k = (Inl (Finished (r\<lparr>ar_artifacts := dict_merge (ar_artifacts r) extra\<rparr>)), k')"
  by (cases "m k"; cases "fst (m k)"; cases "projl (fst (m k))") (auto simp: with_artifacts_def)

lemma calm_with_artifacts [intro]:
  assumes "still N m" shows "still N (with_artifacts extra m)"
  unfolding calm_iff
proof
  fix k
  have m: "calm_at N k (m k)" using assms by (simp add: calm_iff)
  show "calm_at N k (with_artifacts extra m k)"
  proof (cases rule: with_artifacts_cases[where extra = extra and m = m and k = k])
    case (extended r k')
    then show ?thesis
      using m by (auto simp: calm_at_def halted_def result_ok_def reports_counters_def has_key_def map_of_dict_merge split: option.splits)
  qed (simp add: m)
qed

lemma ends_with_artifacts [intro]:
  assumes "ends m" shows "ends (with_artifacts extra m)"
  unfolding ends_def
proof
  fix k
  show "\<exists>s k'. with_artifacts extra m k = (Inl s, k')"
    using assms[unfolded ends_def, rule_format, of k]
    by (cases rule: with_artifacts_cases[where extra = extra and m = m and k = k]) auto
qed

lemma malformed_turn: "still 1 (malformed_response cfg e err)"
  unfolding calm_iff malformed_response_def Let_def
proof (intro allI calm_count[OF calm_then[OF calm_create_replan calm_with_artifacts[OF calm_failed]] ends_then[OF ends_with_artifacts[OF ends_failed]]])
  fix k :: kernel
  let ?f = "\<lambda>s. s\<lparr>sn_turns := sn_turns (kn_snap k) + 1, sn_phase := Phase_FAILED,
     sn_failure := [(''type'', PStr ''MODEL_OUTPUT_PARSE_FAILED''), (''failure_category'', PStr ''MALFORMED_PROVIDER_RESPONSE''),
       (''category'', PStr (take 128 (parse_error_value err)))] @ tn_evidence e\<rparr>"
  have "one_turn k (save_kernel (on_snap ?f k))"
    by (rule one_turn_frame[OF turn_edit[OF _ frame_refl refl] save_frame[OF frame_refl]]) simp
  then show "one_turn k (log_kernel (Ev_Native NATIVE_MODEL_RESPONSE_REJECTED) p (log_kernel (Ev_Native MODEL_RESPONSE_REJECTED) q (save_kernel (on_snap ?f k))))" for p q
    by (rule one_turn_frame) (simp add: log_frame)
qed

lemma calm_parsed [intro]: "still 1 (parsed cfg e v)"
  using malformed_turn by (auto simp: parsed_def split: sum.split)

section \<open>The parts of a tool call\<close>

lemma calm_call_tool [intro]: "still N (call_tool cfg now ce c)"
  unfolding calm_iff call_tool_def Let_def
  by (auto simp: edits split: prod.split option.split sum.split tool_exn.split intro!: calm_enter[OF calm_control_terminated])

lemma calm_track [intro]: "still N (track_call cfg obs)"
  unfolding calm_iff track_call_def Let_def by (auto simp: edits split: prod.split option.split)

lemma calm_control_observed [intro]: "still N (control_call_observed cfg c obs)"
  unfolding calm_iff control_call_observed_def by (auto simp: edits split: prod.split sum.split option.split intro!: snap_frame)

lemma calm_note_verification [intro]: "still N (note_verification cfg obs)"
  unfolding calm_iff note_verification_def Let_def by (auto intro!: calm_enter[OF calm_create_replan] snap_frame)

lemma calm_note_repetition [intro]: "still N (note_repetition cfg obs)"
  unfolding note_repetition_def by auto

lemma calm_tracker_stopped [intro]: "still N (tracker_stopped d)"
  unfolding calm_iff tracker_stopped_def Let_def by (intro allI calm_enter[OF calm_failed]) (simp add: edits)

lemma calm_escalated [intro]: "still N (escalated reason detail)"
  unfolding calm_iff escalated_def by (intro allI calm_enter[OF calm_failed]) (simp add: edits)

lemma calm_act_on [intro]: "still N (act_on v)"
  unfolding act_on_def by (auto split: option.split prod.split recovery_decision.split)

lemma calm_observed [intro]:
  "still N (next_step (track_call cfg obs) (\<lambda>d.
     next_step (control_call_observed cfg c obs) (\<lambda>ctl.
     then_step (edit (note_outcome obs))
    (then_step (note_verification cfg obs)
    (then_step (note_repetition cfg obs)
    (then_step (edit (save_kernel \<circ> note_failure obs))
     (ok \<lparr>vd_control = ctl, vd_tracker = d\<rparr>)))))))"
  by (intro calm_next calm_then calm_track calm_control_observed calm_note_verification calm_note_repetition calm_edit calm_ok) (simp_all add: edits)

text \<open>A part in which calls are counted: at most \<open>C\<close> when it stops, \<open>C\<close> when it goes on.\<close>

definition counts_calls_at :: "nat \<Rightarrow> kernel \<Rightarrow> (kernel_stop + 'a) \<times> kernel \<Rightarrow> bool" where
  "counts_calls_at C k y \<longleftrightarrow>
     (case y of
        (Inr _, k') \<Rightarrow> moved 0 C 0 k k'
      | (Inl s, k') \<Rightarrow> (\<exists>n. n \<le> C \<and> moved 0 n 0 k k') \<and> result_ok s k')"

lemma calm_counts: "still 0 m \<Longrightarrow> counts_calls_at 0 k (m k)"
  using calmD[of 0 m k] by (cases "m k"; cases "fst (m k)") (auto simp: counts_calls_at_def halted_def)

lemma counts_next:
  assumes m: "\<And>k. counts_calls_at C k (m k)" and f: "\<And>x k. counts_calls_at D k (f x k)"
  shows "counts_calls_at (C + D) k (next_step m f k)"
proof -
  obtain r k1 where a: "m k = (r, k1)" by fastforce
  show ?thesis
  proof (cases r)
    case (Inl s)
    then show ?thesis using m[of k] by (auto simp: next_step_def a counts_calls_at_def intro: le_trans[OF _ le_add1])
  next
    case (Inr x)
    have k1: "moved 0 C 0 k k1" using m[of k] Inr by (simp add: a counts_calls_at_def)
    obtain r2 k2 where b: "f x k1 = (r2, k2)" by fastforce
    note b1 = f[of k1 x, unfolded b]
    have step: "moved 0 (C + n) 0 k k2" if "moved 0 n 0 k1 k2" for n using moved_trans[OF k1 that] by simp
    show ?thesis
    proof (cases r2)
      case (Inl s)
      with b1 obtain n where "n \<le> D" "moved 0 n 0 k1 k2" "result_ok s k2" by (auto simp: counts_calls_at_def)
      with step show ?thesis by (auto simp: next_step_def a Inr b counts_calls_at_def Inl intro!: exI[of _ "C + n"])
    next
      case r2: (Inr y)
      then show ?thesis using step b1 by (simp add: next_step_def a Inr b counts_calls_at_def)
    qed
  qed
qed

lemma counts_then: "(\<And>k. counts_calls_at C k (m k)) \<Longrightarrow> (\<And>k. counts_calls_at D k (n k)) \<Longrightarrow> counts_calls_at (C + D) k (then_step m n k)"
  unfolding then_step_def by (rule counts_next)

lemma count_call_counts: "counts_calls_at 1 k (edit (count_call obs) k)"
  by (simp add: counts_calls_at_def edit_def count_call_def on_snap_def moved_def progress_of_def rows_of_claims_def Let_def model_calls_def)

lemma one_call_counts: "counts_calls_at 1 k (one_call cfg e i c k)"
proof -
  have obs: "counts_calls_at (1 + 0) k (observe_call cfg c obs k)" for k obs
    unfolding observe_call_def by (rule counts_then[OF count_call_counts calm_counts[OF calm_observed]])
  have "counts_calls_at (0 + (0 + (1 + 0 + 0))) k (one_call cfg e i c k)"
    unfolding one_call_def Let_def
    by (intro counts_then counts_next calm_counts calm_unless_stopped calm_call_tool calm_then calm_act_on obs)
  then show ?thesis by simp
qed

lemma all_calls_count: "counts_calls_at (length cs) k (all_calls cfg e i cs k)"
proof (induction cs arbitrary: i k)
  case Nil
  then show ?case using calm_counts[OF calm_ok] by simp
next
  case (Cons c cs)
  show ?case using counts_then[OF one_call_counts Cons.IH] by simp
qed

lemma tool_round_counts:
  "counts_calls_at (length cs) k (tool_round cfg e cs k)
   \<or> counts_calls_at 0 k (tool_round cfg e cs k) \<and> sn_calls (kn_snap k) + length cs > aq_max_calls (kc_request cfg)"
proof (cases "sn_calls (kn_snap k) + length cs > aq_max_calls (kc_request cfg)")
  case True
  then show ?thesis by (simp add: tool_round_def calm_counts[OF calm_budget_exhausted])
next
  case False
  have e: "still 0 (edit (save_kernel \<circ> set_phase p))" for p by (intro calm_edit) (simp add: edits)
  have "counts_calls_at (0 + (length cs + 0)) k (tool_round cfg e cs k)"
    unfolding tool_round_def using False counts_then[OF calm_counts[OF e] counts_then[OF all_calls_count calm_counts[OF e]]] by simp
  then show ?thesis by simp
qed

section \<open>A claim\<close>

text \<open>What the rows of the claims promise: acceptances are vouched for, and the attempt's candidates
  are the run's.\<close>

definition claims_ok :: "kernel_cfg \<Rightarrow> kernel \<Rightarrow> bool" where
  "claims_ok cfg k \<longleftrightarrow>
     (let nd = kd_native (kn_db k); s = kn_snap k
      in completion_ok (ce_json (kc_completion cfg)) nd \<and>
         (\<forall>c\<in>set (nd_candidates nd). cc_attempt c = sn_attempt s \<longrightarrow> cc_task c = sn_task s \<and> cc_run c = sn_run s))"

lemma completion_ok_rows:
  "nd_candidates nd' = nd_candidates nd \<Longrightarrow> nd_validations nd' = nd_validations nd \<Longrightarrow> completion_ok json nd' = completion_ok json nd"
  by (simp add: completion_ok_def vouched_def)

lemma claims_ok_moved: "moved t c m k k' \<Longrightarrow> claims_ok cfg k' = claims_ok cfg k"
  unfolding moved_def claims_ok_def progress_of_def rows_of_claims_def Let_def
  using completion_ok_rows[of "kd_native (kn_db k')" "kd_native (kn_db k)"] by auto

text \<open>What a claim or a resumption writes to the candidates: the attempt's candidates stay the run's.\<close>

definition owned :: "string \<Rightarrow> string \<Rightarrow> string \<Rightarrow> native_db \<Rightarrow> bool" where
  "owned t r a nd \<longleftrightarrow> (\<forall>c\<in>set (nd_candidates nd). cc_attempt c = a \<longrightarrow> cc_task c = t \<and> cc_run c = r)"

definition keeps_owned :: "string \<Rightarrow> string \<Rightarrow> string \<Rightarrow> db_write \<Rightarrow> bool" where
  "keeps_owned t r a w \<longleftrightarrow> (\<forall>d d'. owned t r a d \<longrightarrow> w d = Some d' \<longrightarrow> owned t r a d')"

lemma keeps_owned_same: "(\<And>d d'. w d = Some d' \<Longrightarrow> nd_candidates d' = nd_candidates d) \<Longrightarrow> keeps_owned t r a w"
  by (simp add: keeps_owned_def owned_def)

lemma update_owned: "keeps_owned t r a (update_candidate c)"
  unfolding keeps_owned_def
proof (intro allI impI)
  fix d d' assume o1: "owned t r a d" and u: "update_candidate c d = Some d'"
  then obtain old where old: "row_get cc_id (cc_id c) (nd_candidates d) = Some old"
    by (auto simp: update_candidate_def split: option.splits)
  have m: "old \<in> set (nd_candidates d)" using row_get_mem[OF old] by simp
  have "set (nd_candidates d') \<subseteq> insert (old\<lparr>cc_status := cc_status c, cc_summary := cc_summary c, cc_validation := cc_validation c\<rparr>) (set (nd_candidates d))"
    using u old by (auto simp: update_candidate_def row_update_def split: if_splits)
  then show "owned t r a d'" using o1 m unfolding owned_def by fastforce
qed

lemma create_owned: "cc_attempt c = a \<longrightarrow> cc_task c = t \<and> cc_run c = r \<Longrightarrow> keeps_owned t r a (create_candidate c)"
  by (auto simp: keeps_owned_def owned_def create_candidate_def row_create_def split: if_splits)

lemma other_writes_owned:
  "keeps_owned t r a (create_validation v)" "keeps_owned t r a (append_event ty c p)" "keeps_owned t r a (create_failure f)"
  "keeps_owned t r a (create_signal g)"
  by (auto intro!: keeps_owned_same simp: create_validation_def append_event_def create_failure_def create_signal_def split: if_splits)

lemma validation_writes_owned: "\<forall>w\<in>set (validation_writes e b v c n). keeps_owned t r a w"
  by (simp add: validation_writes_def rejection_writes_def Let_def update_owned other_writes_owned)

lemma authority_writes_owned: "\<forall>w\<in>set (snd (authority_plan e c d)). keeps_owned t r a w"
  by (simp add: authority_plan_def validation_writes_owned split: option.split sum.split)

lemma perform_owned:
  assumes "\<forall>w\<in>set (snd plan). keeps_owned t r a w" and "owned t r a d"
  shows "owned t r a (snd (perform k plan d))"
proof -
  obtain n where n: "snd (perform k plan d) = snd (run_writes (take n (snd plan)) d)" using perform_take by blast
  show ?thesis unfolding n
    by (rule run_take_invariant[where P = "owned t r a", OF assms(2)]) (use assms(1) in \<open>auto simp: keeps_owned_def\<close>)
qed

lemma evaluate_owned:
  assumes "owned t r a d" and "si_attempt s = a \<longrightarrow> si_task s = t \<and> si_run s = r"
  shows "owned t r a (snd (evaluate_claim e k s claim source d))"
  unfolding evaluate_claim_def
proof (rule perform_owned[OF _ assms(1)])
  have "keeps_owned t r a (create_candidate (new_candidate e s claim source n))" for n
    using assms(2) by (intro create_owned) (simp add: new_candidate_def)
  then show "\<forall>w\<in>set (snd (claim_plan e s claim source d)). keeps_owned t r a w"
    by (simp add: claim_plan_def Let_def split_beta other_writes_owned authority_writes_owned)
qed

lemma resume_owned: "owned t r a d \<Longrightarrow> owned t r a (snd (resume_pending e k b d))"
  by (simp add: resume_pending_def split_beta perform_owned authority_writes_owned split: option.split)

end
