(* ===== verification/KernelBounds.thy ===== *)
theory KernelBounds imports KernelFrame begin

text \<open>
  The loop of the native kernel ends, and within its budgets.

  \<^item> \<open>bounded g m s\<close> bounds a part: going on, it counts \<open>g\<close> turns and asks the model \<open>m\<close> times more; stopping,
    at most \<open>s\<close> of each; the calls never pass the budget unless they were past it before.
  \<^item> A turn that goes on counts exactly one turn, which is the loop's measure.
\<close>

section \<open>Bounds of a part\<close>

definition same_run :: "kernel \<Rightarrow> kernel \<Rightarrow> bool" where
  "same_run k k' \<longleftrightarrow> fst (progress_of k') = fst (progress_of k)"

definition bounded_at :: "kernel_cfg \<Rightarrow> nat \<Rightarrow> nat \<Rightarrow> nat \<Rightarrow> nat \<Rightarrow> kernel \<Rightarrow> (kernel_stop + 'a) \<times> kernel \<Rightarrow> bool" where
  "bounded_at cfg g m s q k y \<longleftrightarrow>
     same_run k (snd y) \<and>
     sn_turns (kn_snap k) \<le> sn_turns (kn_snap (snd y)) \<and> model_calls k \<le> model_calls (snd y) \<and>
     sn_calls (kn_snap k) \<le> sn_calls (kn_snap (snd y)) \<and>
     sn_calls (kn_snap (snd y)) \<le> max (sn_calls (kn_snap k)) (aq_max_calls (kc_request cfg)) \<and>
     (case fst y of
        Inr _ \<Rightarrow> sn_turns (kn_snap (snd y)) = sn_turns (kn_snap k) + g \<and> model_calls (snd y) = model_calls k + m
      | Inl x \<Rightarrow> sn_turns (kn_snap (snd y)) \<le> sn_turns (kn_snap k) + s \<and> model_calls (snd y) \<le> model_calls k + q \<and>
          (\<forall>r. x = Finished r \<longrightarrow> reports_counters r (snd y)))"

definition bounded :: "kernel_cfg \<Rightarrow> nat \<Rightarrow> nat \<Rightarrow> nat \<Rightarrow> nat \<Rightarrow> 'a kstep \<Rightarrow> bool" where
  "bounded cfg g m s q f \<longleftrightarrow> (\<forall>k. bounded_at cfg g m s q k (f k))"

lemma moved_counts: "moved t c m k k' \<Longrightarrow>
  same_run k k' \<and> sn_turns (kn_snap k') = sn_turns (kn_snap k) + t \<and> sn_calls (kn_snap k') = sn_calls (kn_snap k) + c \<and> model_calls k' = model_calls k + m"
  by (simp add: moved_def progress_of_def Let_def same_run_def)

lemma result_reports: "result_ok (Finished r) k \<Longrightarrow> reports_counters r k"
  by (simp add: result_ok_def)

lemma calm_bounded [intro]:
  assumes "still s f" shows "bounded cfg 0 0 s 0 f"
  unfolding bounded_def
proof
  fix k
  obtain y k' where y: "f k = (y, k')" by fastforce
  show "bounded_at cfg 0 0 s 0 k (f k)"
  proof (cases y)
    case (Inl x)
    from calmD(2)[OF assms y[unfolded Inl]] obtain n where "n \<le> s" "moved n 0 0 k k'" "result_ok x k'" by (auto simp: halted_def)
    with moved_counts[OF this(2)] show ?thesis by (auto simp: bounded_at_def y Inl result_reports)
  next
    case (Inr x)
    from moved_counts[OF calmD(1)[OF assms y[unfolded Inr]]] show ?thesis by (simp add: bounded_at_def y Inr)
  qed
qed

lemma bounded_next [intro]:
  assumes f: "bounded cfg g m s q f" and h: "\<And>x. bounded cfg g' m' s' q' (h x)"
    and b: "s \<le> S" "g + s' \<le> S" "q \<le> Q" "m + q' \<le> Q"
  shows "bounded cfg (g + g') (m + m') S Q (next_step f h)"
  unfolding bounded_def
proof
  fix k
  obtain y k1 where y: "f k = (y, k1)" by fastforce
  note f1 = f[unfolded bounded_def, rule_format, of k, unfolded y bounded_at_def]
  show "bounded_at cfg (g + g') (m + m') S Q k (next_step f h k)"
  proof (cases y)
    case (Inl x)
    then show ?thesis using f1 b by (auto simp: bounded_at_def next_step_def y)
  next
    case (Inr x)
    obtain z k2 where z: "h x k1 = (z, k2)" by fastforce
    note h1 = h[of x, unfolded bounded_def, rule_format, of k1, unfolded z bounded_at_def]
    show ?thesis using f1 h1 b Inr by (auto simp: bounded_at_def next_step_def y z same_run_def split: sum.splits)
  qed
qed

lemma bounded_then:
  "bounded cfg g m s q f \<Longrightarrow> bounded cfg g' m' s' q' h \<Longrightarrow> s \<le> S \<Longrightarrow> g + s' \<le> S \<Longrightarrow> q \<le> Q \<Longrightarrow> m + q' \<le> Q \<Longrightarrow>
   bounded cfg (g + g') (m + m') S Q (then_step f h)"
  unfolding then_step_def by (rule bounded_next)

section \<open>The parts of a turn\<close>

lemma announce_moved: "moved 0 0 1 k (announce_turn e k)"
  by (simp add: announce_turn_def Let_def moved_def log_progress[unfolded Let_def] rows_of_claims_def log_kernel_def on_db_def split: prod.split)
     (simp add: progress_of_def model_calls_def store_append_def Let_def)

lemma announce_bounded: "bounded cfg 0 1 0 1 (edit (announce_turn e))"
  using moved_counts[OF announce_moved] by (simp add: bounded_def bounded_at_def edit_def)

lemma calm_then_bounded: "still 1 f \<Longrightarrow> bounded cfg g m 1 q h \<Longrightarrow> bounded cfg g m 1 q (then_step f h)"
  using bounded_then[OF calm_bounded[of 1 f cfg], of g m 1 q h 1 q] by simp

lemma calm_next_bounded: "still 1 f \<Longrightarrow> (\<And>x. bounded cfg g m 1 q (h x)) \<Longrightarrow> bounded cfg g m 1 q (next_step f h)"
  using bounded_next[OF calm_bounded[of 1 f cfg], of g m 1 q h 1 q] by simp

lemma open_turn_bounded: "bounded cfg 0 1 1 1 (open_turn cfg e)"
proof -
  have "bounded cfg (0 + 0) (1 + 0) 1 1 (then_step (edit (announce_turn e)) (lease_turn cfg))"
    by (rule bounded_then[OF announce_bounded calm_bounded[OF calm_lease_turn[where N = 0]]]) simp_all
  then have s: "bounded cfg 0 1 1 1 (then_step (edit (announce_turn e)) (lease_turn cfg))" by simp
  note first = calm_unless_stopped calm_consume calm_check_call_budget calm_begin_tracked calm_check_provider_health calm_runtime_truth
  show ?thesis unfolding open_turn_def by (rule s first[THEN calm_then_bounded])+
qed

lemma count_turn_moved: "one_turn k (count_turn cfg e r k)"
proof -
  have h: "one_turn k (save_kernel (on_snap (\<lambda>s. s\<lparr>sn_turns := sn_turns (kn_snap k) + 1, sn_ordinal := sn_turns (kn_snap k) + 1,
      sn_phase := Phase_CONTINUE\<rparr>) (log_kernel (Ev_Native MODEL_RESPONSE_PARSED) p k)))" for p
    by (rule one_turn_frame[OF turn_edit[OF _ log_frame[OF _ frame_refl] refl] save_frame[OF frame_refl]]) simp_all
  show ?thesis unfolding count_turn_def Let_def by (rule one_turn_frame[OF h log_frame[OF _ frame_refl]]) simp
qed

lemma record_turn_bounded: "bounded cfg 1 0 1 0 (record_turn cfg e r)"
  using moved_counts[OF count_turn_moved]
  by (simp add: bounded_def bounded_at_def record_turn_def then_step_def next_step_def edit_def ok_def stop_def)

lemma counted_bounded:
  assumes "counts_calls_at C k y" and "sn_calls (kn_snap k) + C \<le> max (sn_calls (kn_snap k)) (aq_max_calls (kc_request cfg))"
  shows "bounded_at cfg 0 0 0 0 k y"
proof (cases y)
  case (Pair z k')
  show ?thesis
  proof (cases z)
    case (Inl x)
    then obtain n where "n \<le> C" "moved 0 n 0 k k'" "result_ok x k'" using assms(1) by (auto simp: counts_calls_at_def Pair)
    with moved_counts[OF this(2)] assms(2) show ?thesis by (auto simp: bounded_at_def Pair Inl result_reports)
  next
    case (Inr x)
    then have "moved 0 C 0 k k'" using assms(1) by (simp add: counts_calls_at_def Pair)
    from moved_counts[OF this] assms(2) show ?thesis by (simp add: bounded_at_def Pair Inr)
  qed
qed

lemma tool_round_bounded: "bounded cfg 0 0 0 0 (tool_round cfg e cs)"
  unfolding bounded_def
proof
  fix k
  show "bounded_at cfg 0 0 0 0 k (tool_round cfg e cs k)"
  proof (cases "sn_calls (kn_snap k) + length cs > aq_max_calls (kc_request cfg)")
    case True
    then show ?thesis by (intro counted_bounded[of 0]) (simp_all add: tool_round_def calm_counts[OF calm_budget_exhausted])
  next
    case False
    then show ?thesis using tool_round_counts[of cs k cfg e] by (intro counted_bounded[of "length cs"]) auto
  qed
qed

section \<open>A claim\<close>

text \<open>Judging a claim writes the claims' tables only.\<close>

lemma native_progress [simp]: "progress_of (on_db (\<lambda>db. db\<lparr>kd_native := nd\<rparr>) k) = progress_of k"
  by (simp add: progress_of_def on_db_def model_calls_def Let_def)

lemma bounded_progress:
  assumes "progress_of k1 = progress_of k" and "bounded_at cfg g m s q k1 y" shows "bounded_at cfg g m s q k y"
  using assms by (auto simp: bounded_at_def progress_of_def Let_def same_run_def split: sum.split)

lemma bounded_enter: "bounded cfg g m s q f \<Longrightarrow> progress_of k1 = progress_of k \<Longrightarrow> bounded_at cfg g m s q k (f k1)"
  unfolding bounded_def using bounded_progress by blast

lemma judge_bounded: "bounded cfg 0 0 0 0 (judge_claim cfg e claim)"
  unfolding bounded_def judge_claim_def Let_def
  by (auto split: prod.split option.split sum.split intro!: bounded_enter[where f = "stop x" for x] bounded_enter[where f = "ok x" for x]
      bounded_enter[where f = "control_terminated a b c" for a b c] calm_bounded)

lemma calm_track_rejection [intro]: "still N track_rejection"
  unfolding calm_iff track_rejection_def Let_def by (auto simp: edits split: prod.split option.split)

lemma calm_control_rejection [intro]: "still N (control_rejection cfg)"
  unfolding calm_iff control_rejection_def by (auto simp: edits split: prod.split sum.split option.split)

lemma calm_act_on_rejection [intro]: "still N (act_on_rejection ctl d)"
  unfolding calm_iff act_on_rejection_def
  by (auto split: option.split intro!: calm_enter[OF calm_escalated] calm_enter[OF calm_failed])

lemma calm_claim_rejected [intro]: "still N (claim_rejected cfg c)"
  unfolding claim_rejected_def
  by (intro calm_then calm_next calm_edit calm_track_rejection calm_control_rejection calm_act_on_rejection)
     (simp_all, intro failure_frame save_frame snap_frame frame_refl, simp_all add: edits snap_frame)

lemma claim_accepted_bounded: "bounded cfg 0 0 0 0 (claim_accepted c)"
proof -
  have "frame k (save_kernel (set_failure [] (set_phase Phase_ACCEPTED_COMPLETE (on_snap (\<lambda>s. s\<lparr>sn_candidate := Some (cc_id c)\<rparr>) k))))" for k
    by (intro failure_frame save_frame snap_frame frame_refl) simp
  then have f: "frame k (halt_tracker ''VERIFIED'' (save_kernel (set_failure [] (set_phase Phase_ACCEPTED_COMPLETE
      (on_snap (\<lambda>s. s\<lparr>sn_candidate := Some (cc_id c)\<rparr>) k)))\<lparr>kn_status := Agent_COMPLETED\<rparr>))" for k
    by (simp add: edits)
  from moved_counts[OF f] show ?thesis
    by (simp add: bounded_def bounded_at_def claim_accepted_def accepted_def Let_def stop_def base_result_def reports_counters_def)
qed

lemma claim_round_bounded: "bounded cfg 0 0 0 0 (claim_round cfg e claim)"
proof -
  have c: "still 0 (edit (save_kernel \<circ> set_phase Phase_CANDIDATE_COMPLETE \<circ> note_convergence \<circ> on_tracker (snd \<circ> candidate_for_validation)))"
    by (intro calm_edit) (simp add: edits)
  have "bounded cfg (0 + (0 + 0)) (0 + (0 + 0)) 0 0 (claim_round cfg e claim)"
    unfolding claim_round_def
    by (rule bounded_then[OF calm_bounded[OF c] bounded_next[OF judge_bounded, where S = 0 and Q = 0]])
       (auto intro: claim_accepted_bounded calm_bounded)
  then show ?thesis by simp
qed

section \<open>The turn\<close>

lemma calm_model_stopped [intro]: "still N (model_stopped cfg)"
  unfolding model_stopped_def by (intro calm_then calm_edit calm_create_replan calm_failed) (simp add: edits)

lemma respond_bounded: "bounded cfg 0 0 0 0 (respond cfg e r)"
  by (auto simp: respond_def intro: tool_round_bounded claim_round_bounded)

text \<open>A turn that goes on counts itself, and asked the model once.\<close>

lemma turn_bounded: "bounded cfg 1 1 1 1 (turn cfg e)"
proof -
  have a: "bounded cfg (1 + 0) (0 + 0) 1 0 (then_step (record_turn cfg e r) (respond cfg e r))" for r
    by (rule bounded_then[OF record_turn_bounded respond_bounded]) simp_all
  have b: "bounded cfg 1 0 1 0 (next_step (parsed cfg e v) (\<lambda>r. then_step (record_turn cfg e r) (respond cfg e r)))" for v
    using a by (intro calm_next_bounded[OF calm_parsed]) simp
  have "bounded cfg 1 0 1 0 (next_step (generate cfg e) (\<lambda>v. then_step (receive cfg e v)
      (next_step (parsed cfg e v) (\<lambda>r. then_step (record_turn cfg e r) (respond cfg e r)))))"
    by (intro calm_next_bounded[OF calm_generate] calm_then_bounded[OF calm_receive] b)
  from bounded_then[OF open_turn_bounded this, of 1 1] show ?thesis unfolding turn_def by simp
qed

section \<open>The loop\<close>

lemma turn_goes_on: "turn cfg e k = (Inr u, k') \<Longrightarrow> sn_turns (kn_snap k') = Suc (sn_turns (kn_snap k))"
  using turn_bounded[of cfg e, unfolded bounded_def, rule_format, of k] by (simp add: bounded_at_def)

lemma ends_budget_exhausted: "ends (budget_exhausted cfg b)"
  unfolding ends_def budget_exhausted_def Let_def
  by (rule allI) (rule ends_then[OF ends_failed, unfolded ends_def, rule_format])

text \<open>The \<open>while\<close> of \<open>run\<close>; the environment of a turn is that of its number.\<close>

function kernel_loop :: "kernel_cfg \<Rightarrow> (nat \<Rightarrow> turn_env) \<Rightarrow> unit kstep" where
  "kernel_loop cfg env k =
     (if sn_turns (kn_snap k) < aq_max_turns (kc_request cfg) then
        (case turn cfg (env (sn_turns (kn_snap k))) k of (Inl s, k') \<Rightarrow> (Inl s, k') | (Inr _, k') \<Rightarrow> kernel_loop cfg env k')
      else budget_exhausted cfg ''TURN_BUDGET'' k)"
  by pat_completeness auto
termination
  by (relation "measure (\<lambda>(cfg, _, k). aq_max_turns (kc_request cfg) - sn_turns (kn_snap k))") (auto dest!: turn_goes_on[OF sym])

declare kernel_loop.simps [simp del]

definition kernel_run :: "kernel_cfg \<Rightarrow> start_env \<Rightarrow> (nat \<Rightarrow> turn_env) \<Rightarrow> unit kstep" where
  "kernel_run cfg st env = then_step (start_run cfg st) (kernel_loop cfg env)"

text \<open>C15: The kernel's loop ends in every environment: a result or an exception, never another turn. The turns
  and the questions to the model stay within the turn budget, the tool calls within theirs (unless the
  snapshot was past it before), and a result reports the snapshot's counters.\<close>

theorem kernel_loop_bounds:
  "\<exists>s k'. kernel_loop cfg env k = (Inl s, k') \<and>
     sn_turns (kn_snap k') \<le> max (sn_turns (kn_snap k)) (aq_max_turns (kc_request cfg)) \<and>
     model_calls k' - model_calls k \<le> aq_max_turns (kc_request cfg) - sn_turns (kn_snap k) \<and>
     sn_calls (kn_snap k') \<le> max (sn_calls (kn_snap k)) (aq_max_calls (kc_request cfg)) \<and>
     (case s of Raised _ \<Rightarrow> True | Finished r \<Rightarrow> ar_turns r = sn_turns (kn_snap k') \<and> ar_calls r = sn_calls (kn_snap k'))"
proof (induction cfg env k rule: kernel_loop.induct)
  case (1 cfg env k)
  let ?N = "aq_max_turns (kc_request cfg)"
  show ?case
  proof (cases "sn_turns (kn_snap k) < ?N")
    case more: True
    obtain y k1 where y: "turn cfg (env (sn_turns (kn_snap k))) k = (y, k1)" by fastforce
    note t = turn_bounded[of cfg "env (sn_turns (kn_snap k))", unfolded bounded_def, rule_format, of k, unfolded y bounded_at_def]
    show ?thesis
    proof (cases y)
      case (Inl s)
      then show ?thesis using t more by (cases s) (auto simp: kernel_loop.simps[of cfg env k] y reports_counters_def)
    next
      case (Inr u)
      with 1 y more show ?thesis using t
        by (simp add: kernel_loop.simps[of cfg env k]) fastforce
    qed
  next
    case False
    obtain s k' where e: "budget_exhausted cfg ''TURN_BUDGET'' k = (Inl s :: kernel_stop + unit, k')"
      using ends_budget_exhausted unfolding ends_def by blast
    from calmD(2)[OF calm_budget_exhausted[where N = 0] this] have "moved 0 0 0 k k'" "result_ok s k'" by (auto simp: halted_def)
    with moved_counts[OF this(1)] False e show ?thesis
      by (cases s) (auto simp: kernel_loop.simps[of cfg env k] result_ok_def reports_counters_def)
  qed
qed

end
