(* ===== verification/KernelSafety.thy ===== *)
theory KernelSafety imports KernelBounds begin

text \<open>
  What a result of the native kernel means for the outer acceptance.

  \<^item> \<open>inv cfg k\<close> is the invariant of the loop: the acceptances are vouched for, the attempt's candidates are
    the run's, and the latest of them is not accepted (an accepted one ends the run).
  \<^item> \<open>run_verdict\<close> is what a stop says then: unless the run was cancelled, it reports a completion that is not
    only a candidate exactly when the latest candidate is accepted.
\<close>

section \<open>Verdicts\<close>

definition accepted_latest :: "kernel \<Rightarrow> bool" where
  "accepted_latest k \<longleftrightarrow> (\<exists>c. latest_candidate (sn_attempt (kn_snap k)) (kd_native (kn_db k)) = Some c \<and> cc_status c = ACCEPTED)"

definition plain_completion :: "agent_result \<Rightarrow> bool" where
  "plain_completion r \<longleftrightarrow> ar_status r = Agent_COMPLETED \<and> \<not> has_key (ar_artifacts r) ''validation_candidate''"

definition kernel_inv :: "kernel_cfg \<Rightarrow> kernel \<Rightarrow> bool" where
  "kernel_inv cfg k \<longleftrightarrow> claims_ok cfg k \<and> \<not> accepted_latest k"

definition run_verdict :: "kernel_stop \<Rightarrow> kernel \<Rightarrow> bool" where
  "run_verdict s k \<longleftrightarrow>
     (case s of Raised _ \<Rightarrow> True | Finished r \<Rightarrow> ar_status r = Agent_CANCELLED \<or> (plain_completion r \<longleftrightarrow> accepted_latest k))"

definition sound_at :: "kernel_cfg \<Rightarrow> kernel \<Rightarrow> (kernel_stop + 'a) \<times> kernel \<Rightarrow> bool" where
  "sound_at cfg k y \<longleftrightarrow>
     (kernel_inv cfg k \<longrightarrow>
       (case y of (Inr _, k') \<Rightarrow> kernel_inv cfg k' | (Inl s, k') \<Rightarrow> claims_ok cfg k' \<and> run_verdict s k'))"

definition sound_step :: "kernel_cfg \<Rightarrow> 'a kstep \<Rightarrow> bool" where
  "sound_step cfg f \<longleftrightarrow> (\<forall>k. sound_at cfg k (f k))"

lemma accepted_latest_moved: "moved t c m k k' \<Longrightarrow> accepted_latest k' = accepted_latest k"
  by (auto simp: moved_def progress_of_def rows_of_claims_def Let_def accepted_latest_def latest_candidate_def candidates_of_def)

lemma inv_moved: "moved t c m k k' \<Longrightarrow> kernel_inv cfg k' = kernel_inv cfg k"
  using accepted_latest_moved claims_ok_moved unfolding kernel_inv_def by blast

lemma result_verdict: "result_ok s k \<Longrightarrow> \<not> accepted_latest k \<Longrightarrow> run_verdict s k"
  by (auto simp: result_ok_def run_verdict_def plain_completion_def split: kernel_stop.splits)

lemma counted_sound: "counts_calls_at C k y \<Longrightarrow> sound_at cfg k y"
  by (auto simp: counts_calls_at_def sound_at_def inv_moved claims_ok_moved accepted_latest_moved kernel_inv_def intro!: result_verdict split: prod.splits sum.splits)

lemma halted_sound: "halted N k s k' \<Longrightarrow> sound_at cfg k (Inl s, k')"
  by (auto simp: halted_def sound_at_def claims_ok_moved accepted_latest_moved kernel_inv_def intro!: result_verdict)

lemma calm_at_sound: "calm_at N k y \<Longrightarrow> sound_at cfg k y"
  using halted_sound[where cfg = cfg] by (auto simp: calm_at_def sound_at_def inv_moved split: prod.splits sum.splits)

lemma calm_sound: "still N f \<Longrightarrow> sound_step cfg f"
  unfolding calm_iff sound_step_def using calm_at_sound by blast

lemma sound_next [intro]:
  assumes f: "sound_step cfg f" and h: "\<And>x. sound_step cfg (h x)" shows "sound_step cfg (next_step f h)"
  unfolding sound_step_def
proof
  fix k
  obtain y k1 where y: "f k = (y, k1)" by fastforce
  note f1 = f[unfolded sound_step_def, rule_format, of k, unfolded y]
  show "sound_at cfg k (next_step f h k)"
  proof (cases y)
    case (Inl s)
    then show ?thesis using f1 by (simp add: next_step_def y sound_at_def)
  next
    case (Inr x)
    with f1 h[of x, unfolded sound_step_def, rule_format, of k1] show ?thesis by (simp add: next_step_def y sound_at_def)
  qed
qed

lemma sound_then [intro]: "sound_step cfg f \<Longrightarrow> sound_step cfg h \<Longrightarrow> sound_step cfg (then_step f h)"
  unfolding then_step_def by (rule sound_next)

lemma turning_sound: "(\<And>k. moved t c m k (g k)) \<Longrightarrow> sound_step cfg (edit g)"
  using inv_moved by (fastforce simp: sound_step_def sound_at_def edit_def)

section \<open>The claim\<close>

lemma latest_appended: "nd_candidates d = cs @ [c] \<Longrightarrow> cc_attempt c = a \<Longrightarrow> latest_candidate a d = Some c"
  by (simp add: latest_candidate_def candidates_of_def)

lemma later_writes_candidates:
  assumes "w \<in> set (drop 2 (validation_writes e a v n i))" and "w d = Some d'"
  shows "nd_candidates d' = nd_candidates d"
proof -
  have "(\<exists>ty p. w = append_event ty n p) \<or> (\<exists>f. w = create_failure f) \<or> (\<exists>g. w = create_signal g)"
    using assms(1) by (auto simp: validation_writes_def rejection_writes_def Let_def split: if_splits)
  with assms(2) show ?thesis by (auto simp: append_event_def create_failure_def create_signal_def split: if_splits)
qed

lemma judged_candidates:
  assumes "run_writes (validation_writes e a v n i) d = (True, full)" and "run_writes (take 2 (validation_writes e a v n i)) d = (True, d4)"
  shows "nd_candidates full = nd_candidates d4"
proof -
  let ?ws = "validation_writes e a v n i"
  have "run_writes (drop 2 ?ws) d4 = (True, full)"
    using assms run_append[of "take 2 ?ws" "drop 2 ?ws" d] by simp
  moreover have "nd_candidates (snd (run_writes (take (length (drop 2 ?ws)) (drop 2 ?ws)) d4)) = nd_candidates d4"
    by (rule run_take_invariant[where P = "\<lambda>x. nd_candidates x = nd_candidates d4"]) (use later_writes_candidates in force)+
  ultimately show ?thesis by simp
qed

lemma evaluate_latest:
  assumes "evaluate_claim e x s claim source db = (Inr c, db')"
  shows "latest_candidate (si_attempt s) db' = Some c \<and> cc_status c \<noteq> CANDIDATE_COMPLETION"
proof -
  have "x = None" using assms by (cases x) (auto simp: evaluate_claim_def perform_def)
  then obtain n a v ws d2 where n: "n = new_candidate e s claim source (nd_ids db)" "cc_id n \<notin> cc_id ` set (nd_candidates db)"
      and full: "run_writes (validation_writes e a v n (nd_ids d2)) d2 = (True, db')"
      and d2: "nd_candidates d2 = nd_candidates db @ [n]" and c: "c = judged (ce_json e) a v n"
    using claim_cases[of e s claim source db c db'] assms by metis
  obtain d4 where d4: "run_writes (take 2 (validation_writes e a v n (nd_ids d2))) d2 = (True, d4)" "nd_candidates d4 = nd_candidates db @ [c]"
    using judged_writes[OF full d2 n(2)] unfolding c by metis
  have "nd_candidates db' = nd_candidates db @ [c]" using judged_candidates[OF full d4(1)] d4(2) by simp
  with c n(1) show ?thesis by (intro conjI latest_appended) (auto simp: judged_def new_candidate_def)
qed

text \<open>A resumed candidate stays the latest, with its new status.\<close>

lemma resume_latest:
  assumes "completion_ok (ce_json e) db" and "resume_pending e x b db = (Inr r, db')"
  shows "latest_candidate b db' = r \<and> (\<forall>c. r = Some c \<longrightarrow> cc_status c \<noteq> CANDIDATE_COMPLETION)"
proof (cases "latest_candidate b db")
  case None
  then show ?thesis using assms(2) by (auto simp: resume_pending_def)
next
  case (Some c)
  show ?thesis
  proof (cases "cc_status c = CANDIDATE_COMPLETION")
    case False
    then show ?thesis using assms(2) Some by (auto simp: resume_pending_def)
  next
    case True
    note m = latest_candidate_mem[OF Some]
    from assms(2) Some True obtain j where p: "perform x (authority_plan e c db) db = (Inr j, db')" and r: "r = Some j"
      by (cases "perform x (authority_plan e c db) db"; cases "fst (perform x (authority_plan e c db) db)") (auto simp: resume_pending_def)
    have x: "x = None" using p by (cases x) (auto simp: perform_def)
    from p obtain a v where j: "j = judged (ce_json e) a v c" and w: "run_writes (validation_writes e a v c (nd_ids db)) db = (True, db')"
      by (auto simp: x perform_def authority_plan_def split_beta prod_eq_iff split: if_splits option.splits sum.splits)
    obtain d4 where d4: "run_writes (take 2 (validation_writes e a v c (nd_ids db))) db = (True, d4)"
      using w run_append[of "take 2 (validation_writes e a v c (nd_ids db))" "drop 2 (validation_writes e a v c (nd_ids db))" db]
      by (auto split: prod.splits bool.splits)
    then obtain d3 where v: "create_validation v db = Some d3" and up: "update_candidate (judged (ce_json e) a v c) d3 = Some d4"
      by (auto simp: validation_writes_def Let_def split: option.splits)
    then have d3: "nd_candidates d3 = nd_candidates db" "update_candidate (judged (ce_json e) a v c) d3 = Some d4"
      by (auto simp: create_validation_def split: if_splits)
    have "row_get cc_id (cc_id c) (nd_candidates db) = Some c" using assms(1) m by (simp add: completion_ok_def row_get_distinct)
    with d3 have c4: "nd_candidates d4 = map (\<lambda>q. if cc_id q = cc_id c then j else q) (nd_candidates db)"
      by (auto simp: update_candidate_def row_update_def judged_def j)
    have same: "q = c" if "q \<in> set (nd_candidates db)" "cc_id q = cc_id c" for q
      using assms(1) m that by (auto simp: completion_ok_def distinct_map dest: inj_onD)
    have "candidates_of b d4 = map (\<lambda>q. if cc_id q = cc_id c then j else q) (candidates_of b db)"
      unfolding candidates_of_def c4 filter_map o_def
      by (intro arg_cong[where f = "map _"] filter_cong refl) (auto simp: j judged_def dest: same)
    moreover have "candidates_of b db \<noteq> []" "last (candidates_of b db) = c" using Some by (auto simp: latest_candidate_def split: if_splits)
    ultimately have "latest_candidate b d4 = Some j" by (simp add: latest_candidate_def last_map)
    moreover have "latest_candidate b db' = latest_candidate b d4"
      using judged_candidates[OF w d4] by (simp add: latest_candidate_def candidates_of_def)
    ultimately have "latest_candidate b db' = Some j" by simp
    then show ?thesis by (simp add: r j judged_def)
  qed
qed

section \<open>The parts that judge\<close>

lemma claims_ok_native:
  "claims_ok cfg (on_db (\<lambda>db. db\<lparr>kd_native := nd\<rparr>) k) \<longleftrightarrow>
     completion_ok (ce_json (kc_completion cfg)) nd \<and> owned (sn_task (kn_snap k)) (sn_run (kn_snap k)) (sn_attempt (kn_snap k)) nd"
  by (simp add: claims_ok_def on_db_def Let_def owned_def)

lemma claims_okD: "claims_ok cfg k \<Longrightarrow> completion_ok (ce_json (kc_completion cfg)) (kd_native (kn_db k)) \<and>
  owned (sn_task (kn_snap k)) (sn_run (kn_snap k)) (sn_attempt (kn_snap k)) (kd_native (kn_db k))"
  by (simp add: claims_ok_def Let_def owned_def)

text \<open>The cancellation of a run, whatever was judged before.\<close>

lemma cancelled: "control_terminated cfg now f k = (Inl s, k') \<Longrightarrow> run_verdict s k'"
  by (auto simp: control_terminated_def stop_def Let_def base_result_def run_verdict_def)

lemma raised_sound: "claims_ok cfg k1 \<Longrightarrow> sound_at cfg k (stop (Raised x) k1)"
  by (simp add: sound_at_def stop_def run_verdict_def)

lemma judge_claims_ok:
  assumes "claims_ok cfg k"
  shows "claims_ok cfg (on_db (\<lambda>db. db\<lparr>kd_native := snd (evaluate_claim (kc_completion cfg) x (ids_of (kn_snap k)) claim source (kd_native (kn_db k)))\<rparr>) k)"
  unfolding claims_ok_native using claims_okD[OF assms] by (intro conjI claim_ok evaluate_owned) (simp_all add: ids_of_def)

lemma judge_cases:
  assumes "claims_ok cfg k"
  obtains (stopped) s k' where "judge_claim cfg e claim k = (Inl s, k')" "claims_ok cfg k'" "run_verdict s k'"
  | (judged) c k' where "judge_claim cfg e claim k = (Inr c, k')" "claims_ok cfg k'"
      "latest_candidate (sn_attempt (kn_snap k')) (kd_native (kn_db k')) = Some c"
proof -
  obtain r nd where r: "evaluate_claim (kc_completion cfg) (tn_crash e) (ids_of (kn_snap k)) claim ''MODEL_CLAIM'' (kd_native (kn_db k)) = (r, nd)"
    by fastforce
  define k1 where "k1 = on_db (\<lambda>db. db\<lparr>kd_native := nd\<rparr>) k"
  have k1: "claims_ok cfg k1" using judge_claims_ok[OF assms, of "tn_crash e" claim "''MODEL_CLAIM''"] by (simp add: r k1_def)
  have j: "judge_claim cfg e claim k = (case tn_claim e of Some f \<Rightarrow> control_terminated cfg (tn_now e) f k1
      | None \<Rightarrow> (case r of Inl x \<Rightarrow> stop (Raised (Completion_raised x)) k1 | Inr c \<Rightarrow> ok c k1))"
    unfolding judge_claim_def r k1_def Let_def by simp
  show thesis
  proof (cases "tn_claim e")
    case (Some f)
    obtain s k' where s: "control_terminated cfg (tn_now e) f k1 = (Inl s :: kernel_stop + candidate, k')"
      by (simp add: control_terminated_def stop_def Let_def)
    have "claims_ok cfg k'" using calmD(2)[OF calm_control_terminated[where N = 0] s] k1 claims_ok_moved by (auto simp: halted_def)
    with s cancelled[OF s] Some j stopped show thesis by simp
  next
    case None
    show thesis
    proof (cases r)
      case (Inl x)
      with None j k1 stopped show thesis by (simp add: stop_def run_verdict_def)
    next
      case (Inr c)
      from evaluate_latest[OF r[unfolded Inr]]
      have "latest_candidate (sn_attempt (kn_snap k1)) (kd_native (kn_db k1)) = Some c" by (simp add: ids_of_def k1_def on_db_def)
      with Inr None j k1 judged show thesis by (simp add: ok_def)
    qed
  qed
qed

lemma accepted_stop: "accepted out k = (Inl s, k') \<Longrightarrow> (\<exists>r. s = Finished r \<and> plain_completion r) \<and> frame k k'"
  by (auto simp: accepted_def stop_def Let_def base_result_def plain_completion_def has_key_def convergence_entry_def edits split: option.split)

lemma accepted_ends: "\<exists>s k'. accepted out k = (Inl s, k')"
  by (simp add: accepted_def stop_def Let_def)

lemma accepted_at:
  assumes "claims_ok cfg k1" and "accepted_latest k1" and "frame k1 k2"
  shows "sound_at cfg k (accepted out k2)"
proof -
  obtain s k' where s: "accepted out k2 = (Inl s :: kernel_stop + 'a, k')" using accepted_ends by blast
  then have k': "frame k1 k'" and r: "\<exists>r. s = Finished r \<and> plain_completion r" using accepted_stop[OF s] frame_trans[OF assms(3)] by blast+
  have "claims_ok cfg k'" "accepted_latest k'" using assms(1,2) claims_ok_moved[OF k'] accepted_latest_moved[OF k'] by simp_all
  with r s show ?thesis by (auto simp: sound_at_def run_verdict_def)
qed

lemma claim_settled:
  assumes "claims_ok cfg k1" and "latest_candidate (sn_attempt (kn_snap k1)) (kd_native (kn_db k1)) = Some c"
  shows "sound_at cfg k ((if cc_status c = ACCEPTED then claim_accepted c else claim_rejected cfg c) k1)"
proof (cases "cc_status c = ACCEPTED")
  case True
  have "frame k1 (save_kernel (set_failure [] (set_phase Phase_ACCEPTED_COMPLETE (on_snap (\<lambda>s. s\<lparr>sn_candidate := Some (cc_id c)\<rparr>) k1))))"
    by (intro failure_frame save_frame snap_frame frame_refl) simp
  from accepted_at[OF assms(1) _ this] show ?thesis using True assms(2) by (simp add: claim_accepted_def accepted_latest_def)
next
  case False
  then have "kernel_inv cfg k1" using assms by (simp add: kernel_inv_def accepted_latest_def)
  moreover have "sound_at cfg k1 (claim_rejected cfg c k1)" using calm_sound[OF calm_claim_rejected] unfolding sound_step_def by blast
  ultimately show ?thesis using False by (simp add: sound_at_def)
qed

lemma claim_round_sound: "sound_step cfg (claim_round cfg e claim)"
  unfolding claim_round_def
proof (rule sound_then)
  show "sound_step cfg (edit (save_kernel \<circ> set_phase Phase_CANDIDATE_COMPLETE \<circ> note_convergence \<circ> on_tracker (snd \<circ> candidate_for_validation)))"
    by (rule calm_sound[OF calm_edit[where N = 0]]) (simp add: edits)
  show "sound_step cfg (next_step (judge_claim cfg e claim) (\<lambda>c. if cc_status c = ACCEPTED then claim_accepted c else claim_rejected cfg c))"
    unfolding sound_step_def
  proof
    fix k
    show "sound_at cfg k (next_step (judge_claim cfg e claim) (\<lambda>c. if cc_status c = ACCEPTED then claim_accepted c else claim_rejected cfg c) k)"
    proof (cases "kernel_inv cfg k")
      case True
      then have "claims_ok cfg k" by (simp add: kernel_inv_def)
      then show ?thesis
        by (cases rule: judge_cases[where e = e and claim = claim])
           (simp add: next_step_def sound_at_def, simp add: next_step_def claim_settled del: if_split)
    qed (simp add: sound_at_def)
  qed
qed

lemma turn_sound: "sound_step cfg (turn cfg e)"
proof -
  have announce: "sound_step cfg (edit (announce_turn e))"
    by (rule turning_sound[of 0 0 1]) (rule announce_moved)
  have rcd: "sound_step cfg (record_turn cfg e r)" for r
    unfolding record_turn_def by (intro sound_then turning_sound[of 1 0 0, OF count_turn_moved]) (auto intro: calm_sound[of 0])
  have "sound_step cfg (tool_round cfg e cs)" for cs
    unfolding sound_step_def using tool_round_counts counted_sound by blast
  then have respond: "sound_step cfg (respond cfg e r)" for r
    by (auto simp: respond_def intro: claim_round_sound calm_sound[OF calm_model_stopped[where N = 0]])
  have "sound_step cfg (open_turn cfg e)"
    unfolding open_turn_def
    by (intro sound_then announce calm_sound[OF calm_unless_stopped] calm_sound[OF calm_consume] calm_sound[OF calm_check_call_budget]
        calm_sound[OF calm_begin_tracked] calm_sound[OF calm_check_provider_health] calm_sound[OF calm_runtime_truth] calm_sound[OF calm_lease_turn])
  then show ?thesis
    unfolding turn_def
    by (intro sound_then sound_next calm_sound[OF calm_generate] calm_sound[OF calm_receive] calm_sound[OF calm_parsed] rcd respond)
qed

section \<open>The loop and the start\<close>

text \<open>A triple for a step: what holds before it, what holds when it goes on; a stop is a run_verdict.\<close>

definition hoare :: "kernel_cfg \<Rightarrow> (kernel \<Rightarrow> bool) \<Rightarrow> 'a kstep \<Rightarrow> (kernel \<Rightarrow> bool) \<Rightarrow> bool" where
  "hoare cfg P f Q \<longleftrightarrow>
     (\<forall>k. P k \<longrightarrow> (let (y, k') = f k in same_run k k' \<and> (case y of Inr _ \<Rightarrow> Q k' | Inl s \<Rightarrow> claims_ok cfg k' \<and> run_verdict s k')))"

lemma hoareD: "hoare cfg P f Q \<Longrightarrow> P k \<Longrightarrow> f k = (y, k') \<Longrightarrow>
  same_run k k' \<and> (case y of Inr _ \<Rightarrow> Q k' | Inl s \<Rightarrow> claims_ok cfg k' \<and> run_verdict s k')"
  unfolding hoare_def by fastforce

lemma hoare_then:
  assumes "hoare cfg P f Q" and "hoare cfg Q h R" shows "hoare cfg P (then_step f h) R"
  unfolding hoare_def
proof (intro allI impI)
  fix k assume p: "P k"
  obtain y k1 where y: "f k = (y, k1)" by fastforce
  note f = hoareD[OF assms(1) p y]
  show "let (y, k') = then_step f h k in same_run k k' \<and> (case y of Inr _ \<Rightarrow> R k' | Inl s \<Rightarrow> claims_ok cfg k' \<and> run_verdict s k')"
  proof (cases y)
    case (Inl s)
    then show ?thesis using f by (simp add: then_step_def next_step_def y)
  next
    case (Inr u)
    obtain z k2 where z: "h k1 = (z, k2)" by fastforce
    have "Q k1" using f Inr by simp
    from hoareD[OF assms(2) this z] f Inr show ?thesis by (simp add: then_step_def next_step_def y z same_run_def)
  qed
qed

lemma sound_hoare: "sound_step cfg f \<Longrightarrow> bounded cfg g m s q f \<Longrightarrow> hoare cfg (kernel_inv cfg) f (kernel_inv cfg)"
  unfolding hoare_def
proof (intro allI impI)
  fix k assume a: "sound_step cfg f" "bounded cfg g m s q f" "kernel_inv cfg k"
  obtain y k' where y: "f k = (y, k')" by fastforce
  have "same_run k k'" using a(2)[unfolded bounded_def, rule_format, of k] by (simp add: y bounded_at_def)
  with a(1)[unfolded sound_step_def, rule_format, of k] a(3)
  show "let (y, k') = f k in same_run k k' \<and> (case y of Inr _ \<Rightarrow> kernel_inv cfg k' | Inl s \<Rightarrow> claims_ok cfg k' \<and> run_verdict s k')"
    by (simp add: y sound_at_def split: sum.splits)
qed

lemma turn_hoare: "hoare cfg (kernel_inv cfg) (turn cfg e) (kernel_inv cfg)"
  by (rule sound_hoare[OF turn_sound turn_bounded])

lemma loop_hoare: "kernel_inv cfg k \<Longrightarrow> kernel_loop cfg env k = (y, k') \<Longrightarrow>
  same_run k k' \<and> (case y of Inr _ \<Rightarrow> kernel_inv cfg k' | Inl s \<Rightarrow> claims_ok cfg k' \<and> run_verdict s k')"
proof (induction cfg env k rule: kernel_loop.induct)
  case (1 cfg env k)
  show ?case
  proof (cases "sn_turns (kn_snap k) < aq_max_turns (kc_request cfg)")
    case more: True
    obtain x k1 where x: "turn cfg (env (sn_turns (kn_snap k))) k = (x, k1)" by fastforce
    note t = hoareD[OF turn_hoare 1(2) x]
    show ?thesis
    proof (cases x)
      case (Inl s)
      then show ?thesis using t x more 1(3) by (auto simp: kernel_loop.simps[of cfg env k])
    next
      case (Inr u)
      have "kernel_loop cfg env k1 = (y, k')" using 1(3) x more Inr by (simp add: kernel_loop.simps[of cfg env k])
      from 1(1)[OF more x[symmetric, unfolded Inr] refl _ this] t Inr show ?thesis by (simp add: same_run_def)
    qed
  next
    case False
    have "hoare cfg (kernel_inv cfg) (budget_exhausted cfg ''TURN_BUDGET'' :: unit kstep) (kernel_inv cfg)"
      by (rule sound_hoare[OF calm_sound[OF calm_budget_exhausted[where N = 0]] calm_bounded[OF calm_budget_exhausted[where N = 0]]])
    from hoareD[OF this 1(2)] False 1(3) show ?thesis by (simp add: kernel_loop.simps[of cfg env k])
  qed
qed

lemma raising_hoare:
  assumes "still N f" and "\<And>k s k'. f k = (Inl s, k') \<Longrightarrow> run_verdict s k'" shows "hoare cfg (claims_ok cfg) f (claims_ok cfg)"
  unfolding hoare_def
proof (intro allI impI)
  fix k assume c: "claims_ok cfg k"
  obtain y k' where y: "f k = (y, k')" by fastforce
  show "let (y, k') = f k in same_run k k' \<and> (case y of Inr _ \<Rightarrow> claims_ok cfg k' | Inl s \<Rightarrow> claims_ok cfg k' \<and> run_verdict s k')"
  proof (cases y)
    case (Inl s)
    from calmD(2)[OF assms(1) y[unfolded Inl]] assms(2)[OF y[unfolded Inl]] c show ?thesis
      using moved_counts claims_ok_moved by (fastforce simp: halted_def y Inl)
  next
    case (Inr x)
    from calmD(1)[OF assms(1) y[unfolded Inr]] c show ?thesis using moved_counts claims_ok_moved by (fastforce simp: y Inr)
  qed
qed

lemma take_targets_frame: "frame k k1 \<Longrightarrow> frame k (take_targets c e k1)"
  unfolding take_targets_def Let_def by (auto intro!: save_frame snap_frame)

lemma ensure_hoare: "hoare cfg (claims_ok cfg) (ensure_runtime_target cfg actual) (claims_ok cfg)"
proof (rule raising_hoare)
  show "still 0 (ensure_runtime_target cfg actual)"
    unfolding calm_iff ensure_runtime_target_def Let_def take_binding_def
    by (auto simp: edits split: prod.split option.split sum.split bool.split intro!: take_targets_frame snap_frame)
  show "ensure_runtime_target cfg actual k = (Inl s, k') \<Longrightarrow> run_verdict s k'" for k s k'
    by (auto simp: ensure_runtime_target_def Let_def edit_def stop_def run_verdict_def split: prod.splits option.splits sum.splits bool.splits)
qed

lemma restore_hoare: "hoare cfg (claims_ok cfg) restore_dispatcher (claims_ok cfg)"
proof (rule raising_hoare)
  show "still 0 restore_dispatcher"
    unfolding calm_iff restore_dispatcher_def
    by (auto split: option.split simp: moved_def progress_of_def rows_of_claims_def Let_def model_calls_def on_db_def)
  show "restore_dispatcher k = (Inl s, k') \<Longrightarrow> run_verdict s k'" for k s k'
    by (auto simp: restore_dispatcher_def ok_def stop_def run_verdict_def split: option.splits)
qed

lemma check_hoare: "hoare cfg (claims_ok cfg) (unless_stopped cfg now f) (claims_ok cfg)"
proof (rule raising_hoare)
  show "still 0 (unless_stopped cfg now f)" by (rule calm_unless_stopped)
  show "unless_stopped cfg now f k = (Inl s, k') \<Longrightarrow> run_verdict s k'" for k s k'
    using cancelled by (auto simp: unless_stopped_def ok_def split: option.splits)
qed

lemma native_same_run [simp]: "same_run k (on_db (\<lambda>db. db\<lparr>kd_native := nd\<rparr>) k)"
  by (simp add: same_run_def)

lemma resume_hoare: "hoare cfg (claims_ok cfg) (resume_candidate cfg e) (kernel_inv cfg)"
  unfolding hoare_def
proof (intro allI impI)
  fix k assume c: "claims_ok cfg k"
  obtain r nd where r: "resume_pending (kc_completion cfg) (st_crash e) (sn_attempt (kn_snap k)) (kd_native (kn_db k)) = (r, nd)" by fastforce
  define k1 where "k1 = on_db (\<lambda>db. db\<lparr>kd_native := nd\<rparr>) k"
  note ok = claims_okD[OF c]
  have nd: "snd (resume_pending (kc_completion cfg) (st_crash e) (sn_attempt (kn_snap k)) (kd_native (kn_db k))) = nd" by (simp add: r)
  have k1: "claims_ok cfg k1" unfolding k1_def claims_ok_native nd[symmetric] using ok by (intro conjI resume_ok resume_owned) simp_all
  have run: "same_run k k1" by (simp add: k1_def)
  let ?goal = "\<lambda>(y :: (kernel_stop + unit) \<times> kernel). same_run k (snd y) \<and>
    (case fst y of Inr _ \<Rightarrow> kernel_inv cfg (snd y) | Inl s \<Rightarrow> claims_ok cfg (snd y) \<and> run_verdict s (snd y))"
  have "?goal (resume_candidate cfg e k)"
  proof (cases r)
    case (Inl x)
    then show ?thesis using k1 run by (simp add: resume_candidate_def r k1_def[symmetric] stop_def run_verdict_def)
  next
    case (Inr o1)
    have latest: "latest_candidate (sn_attempt (kn_snap k1)) (kd_native (kn_db k1)) = o1 \<and> (\<forall>c. o1 = Some c \<longrightarrow> cc_status c \<noteq> CANDIDATE_COMPLETION)"
      using resume_latest[OF conjunct1[OF ok] r[unfolded Inr]] by (simp add: k1_def on_db_def)
    show ?thesis
    proof (cases o1)
      case None
      then show ?thesis using k1 run latest Inr
        by (simp add: resume_candidate_def r k1_def[symmetric] ok_def kernel_inv_def accepted_latest_def)
    next
      case (Some c)
      let ?k2 = "on_snap (\<lambda>s. s\<lparr>sn_candidate := Some (cc_id c)\<rparr>) k1"
      show ?thesis
      proof (cases "cc_status c")
        case ACCEPTED
        have f: "frame k1 (save_kernel (set_phase Phase_ACCEPTED_COMPLETE ?k2))" by (intro failure_frame save_frame snap_frame frame_refl) simp
        obtain s k' where s: "accepted (cc_summary c) (save_kernel (set_phase Phase_ACCEPTED_COMPLETE ?k2)) = (Inl s :: kernel_stop + unit, k')"
          using accepted_ends by blast
        note a = accepted_stop[OF s]
        have f': "frame k1 k'" using frame_trans[OF f] a by blast
        have "claims_ok cfg k'" "accepted_latest k'" "same_run k k'"
          using claims_ok_moved[OF f'] accepted_latest_moved[OF f'] moved_counts[OF f'] run k1 latest Some ACCEPTED
          by (simp_all add: accepted_latest_def same_run_def)
        with a s Some ACCEPTED Inr show ?thesis by (auto simp: resume_candidate_def r k1_def[symmetric] Let_def run_verdict_def)
      next
        case REJECTED
        have f: "frame k1 ((save_kernel \<circ> set_failure (rejection_entry c) \<circ> set_phase Phase_RECOVERING) ?k2)"
          unfolding o_apply by (intro failure_frame save_frame snap_frame frame_refl) simp
        have "kernel_inv cfg k1" using k1 latest Some REJECTED by (simp add: kernel_inv_def accepted_latest_def)
        with inv_moved[OF f] moved_counts[OF f] run Some REJECTED Inr show ?thesis
          by (simp add: resume_candidate_def r k1_def[symmetric] Let_def edit_def same_run_def)
      next
        case CANDIDATE_COMPLETION
        then show ?thesis using latest Some by simp
      qed
    qed
  qed
  then show "let (y, k') = resume_candidate cfg e k in same_run k k' \<and>
      (case y of Inr _ \<Rightarrow> kernel_inv cfg k' | Inl s \<Rightarrow> claims_ok cfg k' \<and> run_verdict s k')"
    by (simp add: Let_def split_beta)
qed

text \<open>The recovery of interrupted calls changes the snapshot's counters and outcomes, not the claims.\<close>

definition same_claims :: "kernel \<Rightarrow> kernel \<Rightarrow> bool" where
  "same_claims k k' \<longleftrightarrow> same_run k k' \<and> rows_of_claims k' = rows_of_claims k"

lemma same_claims_inv:
  assumes "same_claims k k'" shows "kernel_inv cfg k' = kernel_inv cfg k" "claims_ok cfg k' = claims_ok cfg k"
proof -
  have "sn_task (kn_snap k') = sn_task (kn_snap k)" "sn_run (kn_snap k') = sn_run (kn_snap k)" "sn_attempt (kn_snap k') = sn_attempt (kn_snap k)"
      "nd_candidates (kd_native (kn_db k')) = nd_candidates (kd_native (kn_db k))" "nd_validations (kd_native (kn_db k')) = nd_validations (kd_native (kn_db k))"
    using assms by (simp_all add: same_claims_def same_run_def progress_of_def rows_of_claims_def Let_def)
  then show "claims_ok cfg k' = claims_ok cfg k" "kernel_inv cfg k' = kernel_inv cfg k"
    by (simp_all add: kernel_inv_def claims_ok_def Let_def accepted_latest_def latest_candidate_def candidates_of_def
        completion_ok_rows[of "kd_native (kn_db k')" "kd_native (kn_db k)"])
qed

lemma save_claims: "same_claims k k1 \<Longrightarrow> same_claims k (save_kernel k1)"
  using save_frame[OF frame_refl, of k1] moved_counts[OF save_frame[OF frame_refl, of k1]] by (simp add: same_claims_def same_run_def moved_def)

lemma recover_hoare: "hoare cfg (kernel_inv cfg) (recover_tools cfg e) (kernel_inv cfg)"
  unfolding hoare_def
proof (intro allI impI)
  fix k assume i: "kernel_inv cfg k"
  have t: "same_claims k (on_db (\<lambda>db. db\<lparr>kd_tools := tb\<rparr>) k)" for tb
    by (simp add: same_claims_def same_run_def progress_of_def rows_of_claims_def Let_def on_db_def)
  have s: "same_claims k (save_kernel (on_snap (recovered_snapshot vs rec) (on_db (\<lambda>db. db\<lparr>kd_tools := tb\<rparr>) k)))" for vs rec tb
    by (rule save_claims)
       (simp add: same_claims_def same_run_def progress_of_def rows_of_claims_def Let_def on_db_def on_snap_def recovered_snapshot_def)
  have c: "claims_ok cfg k" using i by (simp add: kernel_inv_def)
  show "let (y, k') = recover_tools cfg e k in same_run k k' \<and> (case y of Inr _ \<Rightarrow> kernel_inv cfg k' | Inl s \<Rightarrow> claims_ok cfg k' \<and> run_verdict s k')"
    using i c t s same_claims_inv[OF t] same_claims_inv[OF s]
    by (auto simp: recover_tools_def Let_def ok_def stop_def edit_def run_verdict_def same_claims_def split: prod.splits sum.splits)
qed

lemma started_hoare:
  "hoare cfg (claims_ok cfg)
     (then_step (ensure_runtime_target cfg t) (then_step restore_dispatcher (then_step (unless_stopped cfg now f)
       (then_step (resume_candidate cfg e) (recover_tools cfg e))))) (kernel_inv cfg)"
  by (rule hoare_then[OF ensure_hoare] hoare_then[OF restore_hoare] hoare_then[OF check_hoare] hoare_then[OF resume_hoare] recover_hoare)+

end
