(* ===== verification/KernelRun.thy ===== *)
theory KernelRun imports KernelSafety StepExec begin

text \<open>
  The properties of a whole run of the native kernel, and the executor that maps its result.
\<close>

section \<open>Loading\<close>

lemma loaded_ids: "load_snapshot q = Some s \<Longrightarrow> sn_task s = sn_task q \<and> sn_run s = sn_run q \<and> sn_attempt s = sn_attempt q"
  by (auto simp: load_snapshot_def split: if_splits)

lemma new_snapshot_ids: "new_kernel_snapshot cfg ids = Some s \<Longrightarrow> sn_task s = fst ids \<and> sn_run s = fst (snd ids) \<and> sn_attempt s = snd (snd ids)"
  by (auto simp: new_kernel_snapshot_def Let_def split: option.splits dest!: loaded_ids)

lemma save_ids: "sn_task (kn_snap (save_kernel k)) = sn_task (kn_snap k)" "sn_run (kn_snap (save_kernel k)) = sn_run (kn_snap k)"
  "sn_attempt (kn_snap (save_kernel k)) = sn_attempt (kn_snap k)" "kd_native (kn_db (save_kernel k)) = kd_native (kn_db k)"
  by (simp_all add: save_kernel_def log_kernel_def on_db_def Let_def split_beta)

lemma load_cases:
  assumes "\<forall>q. stored_snapshot a (kd_snapshots (kn_db k)) = Some q \<longrightarrow> sn_task q = t \<and> sn_run q = r"
    and "load_or_create cfg (t, r, a) k = (y, k')"
  shows "(\<exists>x. y = Inl (Raised x)) \<or> (\<exists>u. y = Inr u) \<and> sn_task (kn_snap k') = t \<and> sn_run (kn_snap k') = r \<and> sn_attempt (kn_snap k') = a \<and>
    kd_native (kn_db k') = kd_native (kn_db k)"
proof (cases "stored_snapshot a (kd_snapshots (kn_db k))")
  case None
  then have y: "load_or_create cfg (t, r, a) k =
      (case new_kernel_snapshot cfg (t, r, a) of None \<Rightarrow> stop (Raised Snapshot_invalid) k | Some s \<Rightarrow> edit save_kernel (k\<lparr>kn_snap := s\<rparr>))"
    by (simp add: load_or_create_def get_snapshot_def)
  show ?thesis
  proof (cases "new_kernel_snapshot cfg (t, r, a)")
    case None
    then show ?thesis using assms(2) y by (auto simp: stop_def)
  next
    case (Some s)
    have yk: "y = Inr ()" "k' = save_kernel (k\<lparr>kn_snap := s\<rparr>)" using assms(2) y Some by (simp_all add: edit_def)
    show ?thesis unfolding yk using new_snapshot_ids[OF Some] by (simp add: save_ids)
  qed
next
  case (Some q)
  have q: "sn_attempt q = a" "sn_task q = t" "sn_run q = r"
    using assms(1) Some row_get_key[OF Some[unfolded stored_snapshot_def]] by blast+
  have y: "load_or_create cfg (t, r, a) k = (case load_snapshot q of None \<Rightarrow> stop (Raised Snapshot_invalid) k | Some s \<Rightarrow> ok () (k\<lparr>kn_snap := s\<rparr>))"
    by (simp add: load_or_create_def get_snapshot_def Some split: option.split)
  show ?thesis
  proof (cases "load_snapshot q")
    case None
    then show ?thesis using assms(2) y by (auto simp: stop_def)
  next
    case (Some s)
    have yk: "y = Inr ()" "k' = k\<lparr>kn_snap := s\<rparr>" using assms(2) y Some by (simp_all add: ok_def)
    show ?thesis unfolding yk using loaded_ids[OF Some] q by simp
  qed
qed

lemma run_started:
  assumes ids: "kernel_ids (kc_request cfg) = Some (t, r, a)"
    and ok: "completion_ok (ce_json (kc_completion cfg)) (kd_native (kn_db k))" "owned t r a (kd_native (kn_db k))"
    and stored: "\<forall>q. stored_snapshot a (kd_snapshots (kn_db k)) = Some q \<longrightarrow> sn_task q = t \<and> sn_run q = r"
    and run: "start_run cfg st k = (y, k')"
  shows "(\<exists>x. y = Inl (Raised x)) \<or>
    sn_task (kn_snap k') = t \<and> sn_run (kn_snap k') = r \<and> sn_attempt (kn_snap k') = a \<and>
    (case y of Inr _ \<Rightarrow> kernel_inv cfg k' | Inl s \<Rightarrow> claims_ok cfg k' \<and> run_verdict s k')"
proof -
  let ?k0 = "k\<lparr>kn_status := Agent_RUNNING\<rparr>"
  obtain z k1 where z: "load_or_create cfg (t, r, a) ?k0 = (z, k1)" by fastforce
  note l = load_cases[of a ?k0 t r cfg z k1, OF _ z]
  show ?thesis
  proof (cases "\<exists>x. z = Inl (Raised x)")
    case True
    then show ?thesis using run by (auto simp: start_run_def ids then_step_def next_step_def edit_def z)
  next
    case False
    then obtain u where u: "z = Inr u" and k1: "sn_task (kn_snap k1) = t" "sn_run (kn_snap k1) = r" "sn_attempt (kn_snap k1) = a"
        "kd_native (kn_db k1) = kd_native (kn_db k)"
      using l stored by auto
    have c: "claims_ok cfg k1" using ok k1 by (simp add: claims_ok_def owned_def Let_def)
    have "then_step (ensure_runtime_target cfg (st_target st)) (then_step restore_dispatcher (then_step (unless_stopped cfg (st_now st) (st_check st))
        (then_step (resume_candidate cfg st) (recover_tools cfg st)))) k1 = (y, k')"
      using run by (simp add: start_run_def ids then_step_def[of "edit _"] then_step_def[of "load_or_create _ _"] next_step_def edit_def z u)
    from hoareD[OF started_hoare c this] k1 show ?thesis by (auto simp: same_run_def progress_of_def Let_def)
  qed
qed

section \<open>The properties\<close>

text \<open>C14: What a run of the native kernel reports is what the outer validator finds. Take any run that ends
  with a result and was not cancelled, on tables that keep the completion authority's invariant and
  whose rows for the attempt belong to its task and run. Then the accepted-completion validator
  passes the attempt exactly when the result is a completion that is not marked as a validation
  candidate: a failed run never passes, and neither does a completion that the recovery control
  declared without the completion authority.\<close>

theorem run_agrees_with_outer_validator:
  assumes "kernel_ids (kc_request cfg) = Some (t, r, a)"
    and "completion_ok (ce_json (kc_completion cfg)) (kd_native (kn_db k))" and "owned t r a (kd_native (kn_db k))"
    and "\<forall>q. stored_snapshot a (kd_snapshots (kn_db k)) = Some q \<longrightarrow> sn_task q = t \<and> sn_run q = r"
    and "kernel_run cfg st env k = (Inl (Finished res), k')" and "ar_status res \<noteq> Agent_CANCELLED"
    and "at_id att = a" and "at_run att = r"
  shows "va_passed (accepted_validate (ce_json (kc_completion cfg)) i t att (kd_native (kn_db k'))) \<longleftrightarrow>
    ar_status res = Agent_COMPLETED \<and> \<not> has_key (ar_artifacts res) ''validation_candidate''"
proof -
  obtain y k1 where y: "start_run cfg st k = (y, k1)" by fastforce
  note s = run_started[OF assms(1-4) y]
  have end_state: "sn_task (kn_snap k') = t \<and> sn_run (kn_snap k') = r \<and> sn_attempt (kn_snap k') = a \<and> claims_ok cfg k' \<and> run_verdict (Finished res) k'"
  proof (cases y)
    case (Inl x)
    then show ?thesis using s assms(5) by (auto simp: kernel_run_def then_step_def next_step_def y)
  next
    case (Inr u)
    then have "kernel_loop cfg env k1 = (Inl (Finished res), k')" using assms(5) by (simp add: kernel_run_def then_step_def next_step_def y)
    from loop_hoare[OF _ this] s Inr show ?thesis by (auto simp: same_run_def progress_of_def Let_def)
  qed
  let ?nd = "kd_native (kn_db k')"
  have latest: "accepted_latest k' \<longleftrightarrow> (\<exists>c. latest_candidate a ?nd = Some c \<and> cc_status c = ACCEPTED)"
    using end_state by (auto simp: accepted_latest_def)
  have "acceptance_holds (ce_json (kc_completion cfg)) t att ?nd \<longleftrightarrow> accepted_latest k'"
  proof
    assume "acceptance_holds (ce_json (kc_completion cfg)) t att ?nd"
    then show "accepted_latest k'" using latest assms(7) by (auto simp: acceptance_holds_def split: option.splits)
  next
    assume "accepted_latest k'"
    then obtain c where c: "latest_candidate (at_id att) ?nd = Some c" "cc_status c = ACCEPTED" using latest assms(7) by auto
    have "cc_task c = t \<and> cc_run c = at_run att"
      using latest_candidate_mem[OF c(1)] end_state assms(7,8) by (auto simp: claims_ok_def Let_def)
    then show "acceptance_holds (ce_json (kc_completion cfg)) t att ?nd"
      using vouched_acceptance[OF _ c] end_state by (auto simp: claims_ok_def Let_def)
  qed
  then show ?thesis using end_state assms(6) by (auto simp: accepted_validate_def Let_def run_verdict_def plain_completion_def)
qed

section \<open>A spent call budget\<close>

definition uncompleted :: "kernel_stop \<Rightarrow> bool" where
  "uncompleted s \<longleftrightarrow> (\<forall>r. s = Finished r \<longrightarrow> ar_status r \<noteq> Agent_COMPLETED)"

text \<open>A step that asks nothing of the model, and whose stops are no completions.\<close>

definition quiet :: "'a kstep \<Rightarrow> bool" where
  "quiet f \<longleftrightarrow> still 0 f \<and> (\<forall>k s k'. f k = (Inl s, k') \<longrightarrow> uncompleted s)"

lemma quietD: "quiet f \<Longrightarrow> f k = (Inl s, k') \<Longrightarrow> uncompleted s"
  by (auto simp: quiet_def)

lemma quiet_then: "quiet f \<Longrightarrow> quiet h \<Longrightarrow> quiet (then_step f h)"
  unfolding quiet_def by (auto simp: then_step_def next_step_def split: prod.splits sum.splits)

lemma quiet_stopped: "quiet (control_terminated cfg now f)" "quiet (failed err d)" "quiet (stop (Raised x))"
  by (auto simp: quiet_def control_terminated_def failed_def stop_def Let_def base_result_def uncompleted_def)

lemma quiet_ok: "quiet (ok x)" and quiet_save: "quiet (edit save_kernel)"
  by (auto simp: quiet_def ok_def edit_def)

lemma quiet_unless: "quiet (unless_stopped cfg now f)"
  using quiet_stopped(1) quiet_ok by (auto simp: unless_stopped_def split: option.split)

lemma quiet_replan: "quiet (create_replan cfg reason ev)"
  unfolding quiet_def by (auto simp: create_replan_def stop_def edit_def uncompleted_def Let_def split: option.splits)

lemma quiet_budget: "quiet (budget_exhausted cfg b)"
  unfolding quiet_def
proof (intro conjI allI impI calm_budget_exhausted)
  fix k s k' assume "budget_exhausted cfg b k = (Inl s, k')"
  then show "uncompleted s"
    unfolding budget_exhausted_def Let_def by (rule quietD[OF quiet_then[OF quiet_replan quiet_stopped(2)]])
qed

lemma quiet_absorb: "quiet (absorb_deliveries cfg ds)"
proof (induction ds)
  case (Cons d ds)
  have "quiet (absorb_delivery cfg d)"
    using quiet_replan by (auto simp: quiet_def absorb_delivery_def Let_def ok_def split: if_splits)
  then show ?case using Cons by (simp add: absorb_deliveries.simps quiet_then)
qed (simp add: absorb_deliveries.simps quiet_ok)

lemma quiet_consume: "quiet (consume_deliveries cfg now)"
  using quiet_then[OF quiet_absorb quiet_save]
  by (auto simp: quiet_def consume_deliveries_def Let_def ok_def stop_def uncompleted_def split: prod.splits sum.splits list.splits)

lemma quiet_calls: "quiet (check_call_budget cfg)"
  unfolding quiet_def using quietD[OF quiet_budget] by (auto simp: check_call_budget_def ok_def split: if_splits)

lemma then_assoc: "then_step (then_step f g) h = then_step f (then_step g h)"
  by (auto simp: then_step_def next_step_def fun_eq_iff split: prod.split sum.split)

text \<open>A spent call budget ends the run before the model is asked again. Once the snapshot counts as
  many tool calls as the budget allows, the loop ends in every environment without a question to
  the model and without a completion, so the last allowed call leaves no turn in which the model
  could claim that it is done. With a budget of no calls the model is never asked at all.\<close>

theorem spent_calls_end_the_run:
  assumes "aq_max_calls (kc_request cfg) \<le> sn_calls (kn_snap k)" and "kernel_loop cfg env k = (y, k')"
  shows "model_calls k' = model_calls k \<and> (\<exists>s. y = Inl s \<and> uncompleted s)"
proof -
  let ?B = "budget_exhausted cfg ''TURN_BUDGET'' :: unit kstep"
  have budget: "\<exists>s k2. budget_exhausted cfg b k1 = (Inl s :: kernel_stop + unit, k2) \<and> model_calls k2 = model_calls k1 \<and> uncompleted s" for b k1
  proof -
    obtain s k2 where e: "budget_exhausted cfg b k1 = (Inl s :: kernel_stop + unit, k2)" using ends_budget_exhausted unfolding ends_def by blast
    have "halted 0 k1 s k2" "uncompleted s" using calmD(2)[OF calm_budget_exhausted e] quiet_budget e unfolding quiet_def by blast+
    with e show ?thesis using moved_counts by (fastforce simp: halted_def)
  qed
  show ?thesis
  proof (cases "sn_turns (kn_snap k) < aq_max_turns (kc_request cfg)")
    case False
    then show ?thesis using budget[of "''TURN_BUDGET''" k] assms(2) by (auto simp: kernel_loop.simps[of cfg env k])
  next
    case True
    define e where "e = env (sn_turns (kn_snap k))"
    define first where "first = then_step (unless_stopped cfg (tn_now e) (tn_check e)) (consume_deliveries cfg (tn_now e))"
    obtain rest where turn: "turn cfg e = then_step first (then_step (check_call_budget cfg) rest)"
      unfolding turn_def open_turn_def first_def then_assoc by blast
    have q: "quiet first" unfolding first_def by (intro quiet_then quiet_unless quiet_consume)
    obtain z k1 where z: "first k = (z, k1)" by fastforce
    have "\<exists>s k2. turn cfg e k = (Inl s, k2) \<and> model_calls k2 = model_calls k \<and> uncompleted s"
    proof (cases z)
      case (Inl s)
      have h: "halted 0 k s k1" "uncompleted s" using calmD(2)[of 0 first k s k1] q quietD[OF q] z Inl by (simp_all add: quiet_def)
      then have "model_calls k1 = model_calls k" using moved_counts by (fastforce simp: halted_def)
      with h z Inl show ?thesis by (simp add: turn then_step_def next_step_def)
    next
      case (Inr u)
      have "frame k k1" using calmD(1)[of 0 first k u k1] q z Inr by (simp add: quiet_def)
      from moved_counts[OF this] have "model_calls k1 = model_calls k" "sn_calls (kn_snap k1) = sn_calls (kn_snap k)" by simp_all
      moreover obtain s k2 where b: "budget_exhausted cfg ''TOOL_CALL_BUDGET'' k1 = (Inl s :: kernel_stop + unit, k2)"
          "model_calls k2 = model_calls k1" "uncompleted s"
        using budget by blast
      ultimately have "check_call_budget cfg k1 = (Inl s, k2)" using assms(1) by (simp add: check_call_budget_def)
      then have "turn cfg e k = (Inl s, k2)" using z Inr by (simp add: turn then_step_def next_step_def)
      with b \<open>model_calls k1 = model_calls k\<close> show ?thesis by simp
    qed
    then show ?thesis using assms(2) True by (auto simp: kernel_loop.simps[of cfg env k] e_def)
  qed
qed

section \<open>A long reason\<close>

lemma switch_saved: "kd_snapshots (kn_db (save_kernel k)) = snd (save_snapshot (kn_snap k) (kd_snapshots (kn_db k)))"
  by (simp add: save_kernel_def log_kernel_def on_db_def Let_def split_beta)

text \<open>A committed switch with a long reason makes the attempt unrecoverable. The kernel stores the
  reason of a switch in the active snapshot as it is, while the snapshot's model admits 512
  characters: after a switch with a longer reason commits, the attempt's row no longer loads, and
  every later run of the attempt raises before it does anything else.\<close>

theorem long_switch_reason_locks_attempt:
  assumes "switch_runtime_target i new expected rid reason hooks meanwhile k = (Inr sw, k')"
    and "ts_state sw = Switch_COMMITTED" and "sn_run (kn_snap k) = rid" and "512 < length reason"
    and "kernel_ids (kc_request cfg) = Some (t, r, sn_attempt (kn_snap k))" and "kn_db k2 = kn_db k'"
  shows "fst (kernel_run cfg st env k2) = Inl (Raised Snapshot_invalid)"
proof -
  obtain rows where rows: "request_switch rid i new expected (Some rid) hooks meanwhile (kd_targets (kn_db k)) = (Inr sw, rows)"
    using assms(1) by (cases "request_switch rid i new expected (Some rid) hooks meanwhile (kd_targets (kn_db k))")
      (auto simp: switch_runtime_target_def Let_def split: sum.splits)
  define k1 where "k1 = on_db (\<lambda>db. db\<lparr>kd_targets := rows\<rparr>) k"
  let ?s = "(kn_snap k1)\<lparr>sn_effective := Some new, sn_fallback := Some reason, sn_switch := Some (ts_id sw)\<rparr>"
  have snap: "kn_snap k1 = kn_snap k" by (simp add: k1_def on_db_def)
  have "k' = save_kernel (on_snap (\<lambda>s. s\<lparr>sn_effective := Some new, sn_fallback := Some reason, sn_switch := Some (ts_id sw)\<rparr>) k1)"
    using assms(1-3) by (simp add: switch_runtime_target_def rows k1_def[symmetric] snap Let_def)
  then have "kd_snapshots (kn_db k') = snd (save_snapshot ?s (kd_snapshots (kn_db k1)))" by (simp add: switch_saved on_snap_def)
  moreover obtain q where "stored_snapshot (sn_attempt (kn_snap k)) (snd (save_snapshot ?s (kd_snapshots (kn_db k1)))) = Some q" "sn_fallback q = Some reason"
    by (cases "stored_snapshot (sn_attempt (kn_snap k)) (kd_snapshots (kn_db k1))") (auto simp: stored_save snap)
  ultimately have "get_snapshot (sn_attempt (kn_snap k)) (kd_snapshots (kn_db k2)) = None"
    using assms(4,6) by (simp add: get_snapshot_def load_snapshot_def)
  then show ?thesis
    by (simp add: kernel_run_def start_run_def assms(5) then_step_def next_step_def edit_def load_or_create_def stop_def)
qed

section \<open>The executor\<close>

text \<open>\<open>NativeAgentExecutor\<close>: an execution request becomes an agent request, the agent's result an execution
  result. The models' field limits are checked when the agent request is built.\<close>

record native_executor =
  ne_capabilities :: "string list"
  ne_effects :: "string list"
  ne_max_turns :: nat
  ne_max_calls :: nat

definition agent_request_valid :: "agent_request \<Rightarrow> bool" where
  "agent_request_valid q \<longleftrightarrow>
     1 \<le> length (aq_agent q) \<and> length (aq_agent q) \<le> 128 \<and> 1 \<le> length (aq_objective q) \<and> length (aq_objective q) \<le> 20000 \<and>
     1 \<le> aq_max_turns q \<and> aq_max_turns q \<le> 200 \<and> aq_max_calls q \<le> 1000 \<and> aq_max_delegations q \<le> 100"

definition native_agent_id :: "string \<Rightarrow> string" where
  "native_agent_id i = ''native-'' @ i"

definition native_request :: "native_executor \<Rightarrow> task \<Rightarrow> nat \<Rightarrow> exec_request \<Rightarrow> agent_request option" where
  "native_request x task number q =
     (let a = \<lparr>aq_agent = native_agent_id (eq_attempt q), aq_objective = ta_objective task,
               aq_context = dict_merge (eq_context q) [(''acceptance_criteria'', str_list (ta_criteria task))],
               aq_allowed = ne_capabilities x, aq_max_turns = ne_max_turns x, aq_max_calls = ne_max_calls x, aq_max_delegations = 8,
               aq_metadata = dict_merge (eq_metadata q)
                 [(''task_id'', PStr (eq_task q)), (''run_id'', PStr (eq_run q)), (''attempt_id'', PStr (eq_attempt q)),
                  (''attempt_number'', PInt (int number)), (''allowed_side_effect_capabilities'', str_list (sort (remdups (ne_effects x))))]\<rparr>
      in if agent_request_valid a then Some a else None)"

primrec agent_status_value :: "agent_status \<Rightarrow> string" where
  "agent_status_value Agent_PENDING = ''PENDING''"
| "agent_status_value Agent_RUNNING = ''RUNNING''"
| "agent_status_value Agent_COMPLETED = ''COMPLETED''"
| "agent_status_value Agent_FAILED = ''FAILED''"
| "agent_status_value Agent_CANCELLED = ''CANCELLED''"

definition agent_result_dump :: "agent_result \<Rightarrow> pydict" where
  "agent_result_dump r =
     [(''status'', PStr (agent_status_value (ar_status r))), (''final_output'', PStr (ar_output r)), (''completion_claim'', PBool (ar_claim r)),
      (''turn_count'', PInt (int (ar_turns r))), (''tool_call_count'', PInt (int (ar_calls r))), (''usage'', PDict []),
      (''artifacts'', PDict (ar_artifacts r)), (''safe_trace'', PList (map PDict (ar_trace r))), (''child_run_refs'', PList []),
      (''error_type'', opt_str (ar_error r)), (''error_message'', opt_str (ar_message r))]"

definition native_result :: "agent_result \<Rightarrow> exec_result" where
  "native_result r =
     \<lparr>er_status = (if ar_status r = Agent_COMPLETED then Exec_SUCCESS else Exec_FAILURE),
      er_output = (if ar_output r = [] then None else Some (ar_output r)), er_error_type = ar_error r,
      er_error_message = (if ar_status r = Agent_COMPLETED then None
        else case ar_message r of Some m \<Rightarrow> if m = [] then Some ''native agent attempt did not reach accepted completion'' else Some m
             | None \<Rightarrow> Some ''native agent attempt did not reach accepted completion''),
      er_usage = [], er_artifacts = ar_artifacts r, er_duration = 0, er_raw = Some (agent_result_dump r)\<rparr>"

datatype native_exn = Request_invalid | Kernel_raised kernel_exn | No_result

text \<open>The kernel runs the request it is given: its own request is replaced.\<close>

definition native_execute ::
  "native_executor \<Rightarrow> kernel_cfg \<Rightarrow> start_env \<Rightarrow> (nat \<Rightarrow> turn_env) \<Rightarrow> task \<Rightarrow> nat \<Rightarrow> exec_request \<Rightarrow> kernel \<Rightarrow>
   (native_exn + exec_result) \<times> kernel" where
  "native_execute x cfg st env task number q k =
     (case native_request x task number q of
        None \<Rightarrow> (Inl Request_invalid, k)
      | Some a \<Rightarrow>
          (case kernel_run (cfg\<lparr>kc_request := a\<rparr>) st env k of
             (Inl (Finished r), k') \<Rightarrow> (Inr (native_result r), k')
           | (Inl (Raised e), k') \<Rightarrow> (Inl (Kernel_raised e), k')
           | (Inr _, k') \<Rightarrow> (Inl No_result, k')))"

section \<open>Examples\<close>

definition sample_kernel_cfg :: "nat \<Rightarrow> kernel_cfg" where
  "sample_kernel_cfg calls =
     \<lparr>kc_request = sample_agent_request\<lparr>aq_max_calls := calls,
        aq_metadata := [(''task_id'', PStr ''t''), (''run_id'', PStr ''r''), (''attempt_id'', PStr ''a'')]\<rparr>,
      kc_dispatcher = sample_dispatcher, kc_completion = sample_completion_env ''v2'' True ''ok'', kc_newid = nat_digits, kc_managed = False,
      kc_configured = None, kc_effective = None, kc_session = None, kc_snapshot_id = ''s''\<rparr>"

definition sample_kernel :: "native_db \<Rightarrow> targets \<Rightarrow> kernel" where
  "sample_kernel nd tg =
     \<lparr>kn_db = \<lparr>kd_snapshots = [], kd_tools = no_calls, kd_native = nd,
        kd_deleg = \<lparr>dd_tasks = [], dd_runs = [], dd_attempts = [], dd_delegations = [], dd_lifecycles = [], dd_log = []\<rparr>,
        kd_targets = tg, kd_health = [], kd_log = []\<rparr>,
      kn_snap = sample_snapshot, kn_tracker = None, kn_control = None, kn_budget = None, kn_status = Agent_PENDING\<rparr>"

definition calm_start :: start_env where
  "calm_start = \<lparr>st_now = 0, st_target = None, st_check = None, st_crash = None, st_probe = None\<rparr>"

text \<open>A turn in which the provider is never reached.\<close>

definition idle_turn :: turn_env where
  "idle_turn =
     \<lparr>tn_now = 0, tn_check = None, tn_target = None, tn_transport = None, tn_identity = [], tn_context = [], tn_generate = Generate_timeout ''x'',
      tn_checked = None, tn_evidence = [], tn_type = ''dict'', tn_duration = 0, tn_fault = False,
      tn_calls = (\<lambda>_. \<lparr>ck_before = None, ck_dispatch = quiet_env, ck_stopped = None, ck_after = None\<rparr>), tn_crash = None, tn_claim = None\<rparr>"

theorem spent_calls_end_the_run_witness:
  "let cfg = sample_kernel_cfg 0; k = sample_kernel sample_native_db [] in
     model_calls (snd (kernel_loop cfg (\<lambda>_. idle_turn) k)) = 0 \<and> isl (fst (kernel_loop cfg (\<lambda>_. idle_turn) k))"
proof -
  let ?k = "sample_kernel sample_native_db []"
  have "aq_max_calls (kc_request (sample_kernel_cfg 0)) \<le> sn_calls (kn_snap ?k)" by (simp add: sample_kernel_cfg_def)
  from spent_calls_end_the_run[OF this prod.collapse[symmetric], of "\<lambda>_. idle_turn"] show ?thesis
    by (auto simp: Let_def model_calls_def sample_kernel_def)
qed

definition long_reason :: string where
  "long_reason = replicate 513 CHR ''x''"

theorem long_switch_reason_locks_attempt_witness:
  "let k = (sample_kernel sample_native_db sample_targets)\<lparr>kn_snap := sample_snapshot\<lparr>sn_run := ''run''\<rparr>\<rparr>;
       k' = snd (switch_runtime_target ''i'' (sample_target ''q'') (sample_target ''p'') ''run'' long_reason (ready_hooks (sample_target ''q'')) id k)
   in fst (kernel_run (sample_kernel_cfg 4) calm_start (\<lambda>_. idle_turn) k') = Inl (Raised Snapshot_invalid)"
proof -
  let ?k = "(sample_kernel sample_native_db sample_targets)\<lparr>kn_snap := sample_snapshot\<lparr>sn_run := ''run''\<rparr>\<rparr>"
  let ?r = "switch_runtime_target ''i'' (sample_target ''q'') (sample_target ''p'') ''run'' long_reason (ready_hooks (sample_target ''q'')) id ?k"
  have "map_sum id ts_state (fst ?r) = Inr Switch_COMMITTED"
    by (simp add: switch_runtime_target_def switch_run sample_kernel_def on_db_def split: prod.split sum.split)
  then obtain sw where sw: "fst ?r = Inr sw" "ts_state sw = Switch_COMMITTED" by (cases "fst ?r") auto
  have ids: "kernel_ids (kc_request (sample_kernel_cfg 4)) = Some (''t'', ''r'', sn_attempt (kn_snap ?k))"
    by (simp add: sample_kernel_cfg_def kernel_ids_def has_key_def dict_get_def Let_def sample_snapshot_def)
  have "?r = (Inr sw, snd ?r)" using sw(1) by (simp add: prod_eq_iff)
  from long_switch_reason_locks_attempt[OF this sw(2) _ _ ids refl] show ?thesis
    by (simp add: Let_def long_reason_def)
qed

text \<open>The process died after the validation of a claim was stored; the run resumes the candidate.\<close>

definition interrupted_db :: native_db where
  "interrupted_db = snd (evaluate_claim (sample_completion_env ''v'' True ''ok'') (Some 3) sample_native_ids ''done'' ''MODEL_CLAIM'' sample_native_db)"

lemma interrupted_resume:
  "\<exists>c nd. resume_pending (sample_completion_env ''v2'' True ''ok'') None ''a'' interrupted_db = (Inr (Some c), nd) \<and> cc_status c = ACCEPTED"
  by (simp add: interrupted_db_def run_sample resume_pending_def latest_candidate_def candidates_of_def process_result_def
      structured_evidence_def command_word_def dict_get_def)

lemma interrupted_ok: "completion_ok (ce_json (sample_completion_env ''v2'' True ''ok'')) interrupted_db" "owned ''t'' ''r'' ''a'' interrupted_db"
  by (simp_all add: interrupted_db_def run_sample completion_ok_def owned_def)

lemma restore_empty: "\<exists>ob. observer_restore (PDict []) old = Some ob"
  by (simp add: observer_restore_def clamp_def dict_get_or_def dict_get_def py_or_def restored_key_def restored_call_def)

lemma sample_load:
  "\<exists>k1. load_or_create (sample_kernel_cfg 4) (''t'', ''r'', ''a'') (sample_kernel nd []\<lparr>kn_status := Agent_RUNNING\<rparr>) = (Inr (), k1) \<and>
     kd_native (kn_db k1) = nd \<and> sn_attempt (kn_snap k1) = ''a'' \<and> sn_repeated (kn_snap k1) = [] \<and>
     sn_configured (kn_snap k1) = None \<and> sn_effective (kn_snap k1) = None"
  by (simp add: sample_kernel_def sample_kernel_cfg_def dict_get_def edit_def load_or_create_def get_snapshot_def stored_snapshot_def row_get_def
      new_kernel_snapshot_def sample_agent_request_def or_empty_def py_or_def text_items_def opt_text_def load_snapshot_def Let_def
      save_kernel_def save_snapshot_def row_create_def log_kernel_def on_db_def)

lemma resumed_run:
  "\<exists>r k'. kernel_run (sample_kernel_cfg 4) calm_start env (sample_kernel interrupted_db []) = (Inl (Finished r), k') \<and> plain_completion r"
proof -
  let ?c = "sample_kernel_cfg 4"
  have ids: "kernel_ids (kc_request ?c) = Some (''t'', ''r'', ''a'')"
    by (simp add: sample_kernel_cfg_def kernel_ids_def has_key_def dict_get_def Let_def)
  obtain k1 where k1: "load_or_create ?c (''t'', ''r'', ''a'') (sample_kernel interrupted_db []\<lparr>kn_status := Agent_RUNNING\<rparr>) = (Inr (), k1)"
      "kd_native (kn_db k1) = interrupted_db" "sn_attempt (kn_snap k1) = ''a''" "sn_repeated (kn_snap k1) = []"
      "sn_configured (kn_snap k1) = None" "sn_effective (kn_snap k1) = None"
    using sample_load by blast
  define k2 where "k2 = on_snap (\<lambda>s. s\<lparr>sn_configured := None, sn_effective := None\<rparr>) k1"
  have e: "ensure_runtime_target ?c None k1 = (Inr (), k2)"
    by (simp add: ensure_runtime_target_def initial_targets_def sample_kernel_cfg_def take_targets_def edit_def k1 k2_def)
  obtain ob where "observer_restore (PDict []) (tb_observer (kd_tools (kn_db k2))) = Some ob" using restore_empty by blast
  then obtain k3 where k3: "restore_dispatcher k2 = (Inr (), k3)" "kd_native (kn_db k3) = interrupted_db" "sn_attempt (kn_snap k3) = ''a''"
    by (simp add: restore_dispatcher_def ok_def k2_def on_snap_def on_db_def k1)
  obtain c nd where c: "resume_pending (kc_completion ?c) None ''a'' interrupted_db = (Inr (Some c), nd)" "cc_status c = ACCEPTED"
    using interrupted_resume by (auto simp: sample_kernel_cfg_def)
  obtain k4 where "resume_candidate ?c calm_start k3 = accepted (cc_summary c) k4"
    by (simp add: resume_candidate_def k3 calm_start_def c)
  moreover obtain s k' where s: "accepted (cc_summary c) k4 = (Inl s :: kernel_stop + unit, k')" using accepted_ends by blast
  moreover have "\<exists>r. s = Finished r \<and> plain_completion r" using accepted_stop[OF s] by blast
  ultimately show ?thesis
    by (auto simp: kernel_run_def start_run_def ids then_step_def next_step_def edit_def k1(1) calm_start_def e k3(1) unless_stopped_def ok_def)
qed

theorem run_agrees_with_outer_validator_witness:
  "va_passed (accepted_validate (ce_json (sample_completion_env ''v2'' True ''ok'')) ''w'' ''t'' (hd (nd_attempts sample_native_db))
     (kd_native (kn_db (snd (kernel_run (sample_kernel_cfg 4) calm_start (\<lambda>_. idle_turn) (sample_kernel interrupted_db []))))))"
proof -
  let ?c = "sample_kernel_cfg 4"
  obtain r k' where r: "kernel_run ?c calm_start (\<lambda>_. idle_turn) (sample_kernel interrupted_db []) = (Inl (Finished r), k')" "plain_completion r"
    using resumed_run by blast
  have ids: "kernel_ids (kc_request ?c) = Some (''t'', ''r'', ''a'')"
    by (simp add: sample_kernel_cfg_def kernel_ids_def has_key_def dict_get_def Let_def)
  have env: "kc_completion ?c = sample_completion_env ''v2'' True ''ok''" by (simp add: sample_kernel_cfg_def)
  have db: "kd_native (kn_db (sample_kernel interrupted_db [])) = interrupted_db" "kd_snapshots (kn_db (sample_kernel interrupted_db [])) = []"
    by (simp_all add: sample_kernel_def)
  have at: "at_id (hd (nd_attempts sample_native_db)) = ''a''" "at_run (hd (nd_attempts sample_native_db)) = ''r''"
    by (simp_all add: sample_native_db_def)
  have "ar_status r \<noteq> Agent_CANCELLED" using r(2) by (auto simp: plain_completion_def)
  from run_agrees_with_outer_validator[OF ids _ _ _ r(1) this at, unfolded env db, OF interrupted_ok] r
  show ?thesis by (simp add: stored_snapshot_def row_get_def plain_completion_def)
qed

end
