(* ===== verification/Substrate.thy ===== *)
theory Substrate imports Prelude begin

text \<open>
  The verified task state of phase 5 (\<open>src/lhas/phase5/substrate\<close>): the append-only evidence
  ledger, the content-addressed artifact store, the feedback of a validator, the task state that only
  a commit may change, and the reducer that commits.

  \<^item> An id drawn from \<open>uuid4\<close> is an argument of the operation that draws it. Time stamps are left out:
    nothing here reads one.
  \<^item> \<open>CommitRejected\<close> is the left of a sum, one constructor for each place that raises it.
  \<^item> SHA-256 is the parameter \<open>sha\<close>; a payload value is a \<open>pyval\<close>, which has no floats.
  \<^item> The reducer holds the ledger and the store it was built with, so they are fields of its record.
\<close>

section \<open>Evidence ledger\<close>

datatype evidence_type =
    Ev_RUN_STARTED | Ev_MODEL_TURN_COMPLETED | Ev_TOOL_REQUESTED | Ev_TOOL_OBSERVED | Ev_ENVIRONMENT_OBSERVED
  | Ev_SIDE_EFFECT_CONFIRMED | Ev_SIDE_EFFECT_UNCERTAIN | Ev_SIDE_EFFECT_NOT_OBSERVED | Ev_PROGRESS_SIGNAL
  | Ev_RECOVERY_DECISION | Ev_VALIDATION_CANDIDATE | Ev_VALIDATION_RESULT | Ev_STATE_COMMITTED | Ev_TERMINATED

fun evidence_type_value :: "evidence_type \<Rightarrow> string" where
  "evidence_type_value Ev_RUN_STARTED = ''RUN_STARTED''"
| "evidence_type_value Ev_MODEL_TURN_COMPLETED = ''MODEL_TURN_COMPLETED''"
| "evidence_type_value Ev_TOOL_REQUESTED = ''TOOL_REQUESTED''"
| "evidence_type_value Ev_TOOL_OBSERVED = ''TOOL_OBSERVED''"
| "evidence_type_value Ev_ENVIRONMENT_OBSERVED = ''ENVIRONMENT_OBSERVED''"
| "evidence_type_value Ev_SIDE_EFFECT_CONFIRMED = ''SIDE_EFFECT_CONFIRMED''"
| "evidence_type_value Ev_SIDE_EFFECT_UNCERTAIN = ''SIDE_EFFECT_UNCERTAIN''"
| "evidence_type_value Ev_SIDE_EFFECT_NOT_OBSERVED = ''SIDE_EFFECT_NOT_OBSERVED''"
| "evidence_type_value Ev_PROGRESS_SIGNAL = ''PROGRESS_SIGNAL''"
| "evidence_type_value Ev_RECOVERY_DECISION = ''RECOVERY_DECISION''"
| "evidence_type_value Ev_VALIDATION_CANDIDATE = ''VALIDATION_CANDIDATE''"
| "evidence_type_value Ev_VALIDATION_RESULT = ''VALIDATION_RESULT''"
| "evidence_type_value Ev_STATE_COMMITTED = ''STATE_COMMITTED''"
| "evidence_type_value Ev_TERMINATED = ''TERMINATED''"

record evidence_event =
  ee_id :: string
  ee_sequence :: nat
  ee_task :: string
  ee_run :: string
  ee_attempt :: string
  ee_epoch :: nat
  ee_type :: evidence_type
  ee_parent :: "string option"
  ee_correlation :: "string option"
  ee_payload :: pydict
  ee_digest :: string
  ee_artifacts :: "string list"

text \<open>The constructor fills in the digest of the payload when none was given.\<close>

definition evidence_init :: "(string \<Rightarrow> string) \<Rightarrow> evidence_event \<Rightarrow> evidence_event" where
  "evidence_init sha e =
     (if ee_digest e = [] then e\<lparr>ee_digest := stable_hash sha (PDict (ee_payload e))\<rparr> else e)"

record evidence_ledger =
  el_run :: string
  el_events :: "evidence_event list"
  el_next :: nat
  el_by_id :: "(string \<times> evidence_event) list"

definition ledger_new :: "string \<Rightarrow> evidence_ledger" where
  "ledger_new run = \<lparr>el_run = run, el_events = [], el_next = 0, el_by_id = []\<rparr>"

text \<open>What a caller passes to \<open>append\<close>, with the defaults of its keyword arguments.\<close>

record evidence_args =
  ea_task :: string
  ea_attempt :: string
  ea_type :: evidence_type
  ea_payload :: pydict
  ea_parent :: "string option"
  ea_correlation :: "string option"
  ea_artifacts :: "string list"
  ea_epoch :: nat

definition evidence_args_default :: "string \<Rightarrow> string \<Rightarrow> evidence_type \<Rightarrow> pydict \<Rightarrow> evidence_args" where
  "evidence_args_default task attempt ty payload =
     \<lparr>ea_task = task, ea_attempt = attempt, ea_type = ty, ea_payload = payload, ea_parent = None,
      ea_correlation = None, ea_artifacts = [], ea_epoch = 0\<rparr>"

definition ledger_append ::
  "(string \<Rightarrow> string) \<Rightarrow> string \<Rightarrow> evidence_args \<Rightarrow> evidence_ledger \<Rightarrow> evidence_event \<times> evidence_ledger" where
  "ledger_append sha eid a l =
     (let event = evidence_init sha
        \<lparr>ee_id = eid, ee_sequence = el_next l, ee_task = ea_task a, ee_run = el_run l, ee_attempt = ea_attempt a,
         ee_epoch = ea_epoch a, ee_type = ea_type a, ee_parent = ea_parent a, ee_correlation = ea_correlation a,
         ee_payload = ea_payload a, ee_digest = [], ee_artifacts = ea_artifacts a\<rparr>
      in (event, l\<lparr>el_events := el_events l @ [event], el_by_id := AList.update eid event (el_by_id l),
            el_next := Suc (el_next l)\<rparr>))"

definition ledger_get :: "evidence_ledger \<Rightarrow> string \<Rightarrow> evidence_event option" where
  "ledger_get l eid = map_of (el_by_id l) eid"

definition events_since :: "evidence_ledger \<Rightarrow> nat \<Rightarrow> evidence_event list" where
  "events_since l n = filter (\<lambda>e. n \<le> ee_sequence e) (el_events l)"

definition events_by_type :: "evidence_ledger \<Rightarrow> evidence_type \<Rightarrow> evidence_event list" where
  "events_by_type l ty = filter (\<lambda>e. ee_type e = ty) (el_events l)"

definition last_event :: "evidence_ledger \<Rightarrow> evidence_event option" where
  "last_event l = (if el_events l = [] then None else Some (last (el_events l)))"

definition ledger_count :: "evidence_ledger \<Rightarrow> nat" where
  "ledger_count l = length (el_events l)"

section \<open>Artifact store\<close>

datatype effect_certainty = Effect_CONFIRMED | Effect_NOT_OBSERVED | Effect_UNCERTAIN

fun effect_certainty_value :: "effect_certainty \<Rightarrow> string" where
  "effect_certainty_value Effect_CONFIRMED = ''CONFIRMED''"
| "effect_certainty_value Effect_NOT_OBSERVED = ''NOT_OBSERVED''"
| "effect_certainty_value Effect_UNCERTAIN = ''UNCERTAIN''"

record artifact_ref =
  af_id :: string
  af_kind :: string
  af_sha :: string
  af_size :: "nat option"
  af_mime :: string
  af_uri :: string
  af_producer :: string

definition verify_digest :: "(string \<Rightarrow> string) \<Rightarrow> artifact_ref \<Rightarrow> string \<Rightarrow> bool" where
  "verify_digest sha r content \<longleftrightarrow> sha content = af_sha r"

record effect_receipt_row =
  er_invocation :: string
  er_status :: effect_certainty
  er_before :: "string option"
  er_after :: "string option"
  er_artifacts :: "string list"

record artifact_store =
  as_content :: "(string \<times> string) list"
  as_refs :: "(string \<times> artifact_ref) list"

definition artifact_store_new :: artifact_store where
  "artifact_store_new = \<lparr>as_content = [], as_refs = []\<rparr>"

definition artifact_exists :: "artifact_store \<Rightarrow> string \<Rightarrow> bool" where
  "artifact_exists s a \<longleftrightarrow> map_of (as_content s) a \<noteq> None"

definition artifact_get :: "artifact_store \<Rightarrow> string \<Rightarrow> string option" where
  "artifact_get s a = map_of (as_content s) a"

definition artifact_lookup :: "artifact_store \<Rightarrow> string \<Rightarrow> artifact_ref option" where
  "artifact_lookup s a = map_of (as_refs s) a"

definition verify_integrity :: "(string \<Rightarrow> string) \<Rightarrow> artifact_store \<Rightarrow> string \<Rightarrow> bool" where
  "verify_integrity sha s a =
     (case (map_of (as_content s) a, map_of (as_refs s) a) of
        (Some content, Some r) \<Rightarrow> sha content = af_sha r
      | _ \<Rightarrow> False)"

text \<open>\<open>put\<close>: content already stored is answered with its first reference; \<open>None\<close> is the failed
  assertion after storing.\<close>

definition artifact_put ::
  "(string \<Rightarrow> string) \<Rightarrow> string \<Rightarrow> string \<Rightarrow> string \<Rightarrow> string \<Rightarrow> string \<Rightarrow> artifact_store
    \<Rightarrow> (artifact_ref \<times> artifact_store) option" where
  "artifact_put sha aid content kind mime producer s =
     (case List.find (\<lambda>(_, r). af_sha r = sha content) (as_refs s) of
        Some (_, existing) \<Rightarrow> Some (existing, s)
      | None \<Rightarrow>
          (let r = \<lparr>af_id = aid, af_kind = kind, af_sha = sha content, af_size = Some (length content),
                    af_mime = mime, af_uri = ''memory://'' @ aid, af_producer = producer\<rparr>;
               s' = s\<lparr>as_content := AList.update aid content (as_content s), as_refs := AList.update aid r (as_refs s)\<rparr>
           in if verify_integrity sha s' aid then Some (r, s') else None))"

section \<open>Validator feedback\<close>

datatype validator_decision = Decision_ACCEPT | Decision_REJECT | Decision_INDETERMINATE

fun validator_decision_value :: "validator_decision \<Rightarrow> string" where
  "validator_decision_value Decision_ACCEPT = ''ACCEPT''"
| "validator_decision_value Decision_REJECT = ''REJECT''"
| "validator_decision_value Decision_INDETERMINATE = ''INDETERMINATE''"

datatype validator_status = Validator_SUCCESS | Validator_FAILURE | Validator_TIMEOUT | Validator_SKIPPED

record validator_feedback =
  vb_id :: string
  vb_validator :: string
  vb_version :: string
  vb_candidate :: string
  vb_status :: validator_status
  vb_decision :: validator_decision
  vb_evidence :: "string list"
  vb_state_digest :: string
  vb_failure :: "string option"
  vb_detail :: string

definition is_actionable :: "validator_feedback \<Rightarrow> bool" where
  "is_actionable fb \<longleftrightarrow> vb_status fb = Validator_SUCCESS \<and> vb_decision fb = Decision_ACCEPT"

section \<open>Verified and control state\<close>

record verified_fact =
  vf_id :: string
  vf_key :: string
  vf_value :: pyval
  vf_evidence :: string
  vf_commit :: string

record verified_state =
  vs_task :: string
  vs_run :: string
  vs_goal :: string
  vs_version :: nat
  vs_facts :: "verified_fact list"
  vs_artifacts :: "string list"
  vs_status :: string
  vs_last_commit :: "string option"
  vs_digest :: string

definition state_digest :: "(string \<Rightarrow> string) \<Rightarrow> pydict \<Rightarrow> string list \<Rightarrow> string" where
  "state_digest sha facts artifacts =
     stable_hash sha (PDict [(''facts'', PDict facts), (''artifacts'', PList (map PStr artifacts))])"

definition compute_digest :: "(string \<Rightarrow> string) \<Rightarrow> verified_state \<Rightarrow> string" where
  "compute_digest sha s =
     state_digest sha (dict_of (map (\<lambda>f. (vf_key f, vf_value f)) (sort_key vf_key (vs_facts s))))
       (sort (vs_artifacts s))"

text \<open>\<open>model_post_init\<close>: the digest is computed unless one was given.\<close>

definition state_init :: "(string \<Rightarrow> string) \<Rightarrow> verified_state \<Rightarrow> verified_state" where
  "state_init sha s = (if vs_digest s = [] then s\<lparr>vs_digest := compute_digest sha s\<rparr> else s)"

definition state_new :: "(string \<Rightarrow> string) \<Rightarrow> string \<Rightarrow> string \<Rightarrow> string \<Rightarrow> verified_state" where
  "state_new sha task run goal = state_init sha
     \<lparr>vs_task = task, vs_run = run, vs_goal = goal, vs_version = 0, vs_facts = [], vs_artifacts = [],
      vs_status = ''ACTIVE'', vs_last_commit = None, vs_digest = []\<rparr>"

definition fact_value :: "verified_state \<Rightarrow> string \<Rightarrow> pyval \<Rightarrow> pyval" where
  "fact_value s key dflt =
     (case List.find (\<lambda>f. vf_key f = key) (vs_facts s) of Some f \<Rightarrow> vf_value f | None \<Rightarrow> dflt)"

text \<open>\<open>{f.key: f}\<close> updated in order: a later fact replaces an earlier one of its key, in its place.\<close>

definition fact_merge :: "verified_fact list \<Rightarrow> verified_fact list \<Rightarrow> verified_fact list" where
  "fact_merge old new =
     map snd (fold (\<lambda>f d. AList.update (vf_key f) f d) new (fold (\<lambda>f d. AList.update (vf_key f) f d) old []))"

definition with_commit ::
  "(string \<Rightarrow> string) \<Rightarrow> string \<Rightarrow> verified_fact list \<Rightarrow> string list \<Rightarrow> string option \<Rightarrow> verified_state
    \<Rightarrow> verified_state" where
  "with_commit sha cid facts artifacts status s = state_init sha
     \<lparr>vs_task = vs_task s, vs_run = vs_run s, vs_goal = vs_goal s, vs_version = Suc (vs_version s),
      vs_facts = fact_merge (vs_facts s) facts,
      vs_artifacts = sorted_list_of_set (set (vs_artifacts s @ artifacts)),
      vs_status = (case status of Some (c # cs) \<Rightarrow> c # cs | _ \<Rightarrow> vs_status s),
      vs_last_commit = Some cid, vs_digest = []\<rparr>"

record control_state =
  cs_task :: string
  cs_run :: string
  cs_attempt :: string
  cs_turn :: nat
  cs_epoch :: nat
  cs_calls :: int
  cs_tokens :: "int option"
  cs_repair :: int
  cs_replan :: int
  cs_progress :: "string option"
  cs_pending :: "string option"
  cs_execution :: string

definition decrement_call :: "control_state \<Rightarrow> control_state" where
  "decrement_call c = c\<lparr>cs_calls := max 0 (cs_calls c - 1), cs_turn := Suc (cs_turn c)\<rparr>"

definition decrement_repair :: "control_state \<Rightarrow> bool \<times> control_state" where
  "decrement_repair c = (if cs_repair c \<le> 0 then (False, c) else (True, c\<lparr>cs_repair := cs_repair c - 1\<rparr>))"

definition decrement_replan :: "control_state \<Rightarrow> bool \<times> control_state" where
  "decrement_replan c = (if cs_replan c \<le> 0 then (False, c) else (True, c\<lparr>cs_replan := cs_replan c - 1\<rparr>))"

record state_commit =
  sc_id :: string
  sc_feedback :: string
  sc_previous :: nat
  sc_next :: nat
  sc_evidence :: "string list"
  sc_artifacts :: "string list"
  sc_facts :: "verified_fact list"
  sc_digest :: string

definition validate_version_increment :: "state_commit \<Rightarrow> bool" where
  "validate_version_increment c \<longleftrightarrow> sc_next c = sc_previous c + 1"

end
