(* ===== verification/Reducer.thy ===== *)
theory Reducer imports Substrate begin

text \<open>
  The reducer of phase 5 (\<open>src/lhas/phase5/substrate/reducer.py\<close>): the only path from evidence to the
  verified task state, its rebuild from the commits, and histories of operations on it.

  \<^item> \<open>reducer_commit\<close> is \<open>commit\<close> with its checks in the code's order. A rejected commit returns the
    reducer it got; the loops over evidence and artifacts stop at the first one that fails.
  \<^item> \<open>reducer_op\<close> lists what a caller can do with a reducer, its ledger and its store; \<open>reduce_ops\<close> is a
    history. The invariants below hold after every history, so they say what one commit may rely on.
\<close>

section \<open>The reducer\<close>

record reducer =
  rd_task :: string
  rd_run :: string
  rd_goal :: string
  rd_state :: verified_state
  rd_ledger :: evidence_ledger
  rd_store :: artifact_store
  rd_commits :: "state_commit list"
  rd_feedbacks :: "string set"
  rd_candidates :: "string set"

definition reducer_new :: "verified_state \<Rightarrow> evidence_ledger \<Rightarrow> artifact_store \<Rightarrow> reducer" where
  "reducer_new s l st =
     \<lparr>rd_task = vs_task s, rd_run = vs_run s, rd_goal = vs_goal s, rd_state = s, rd_ledger = l, rd_store = st,
      rd_commits = [], rd_feedbacks = {}, rd_candidates = {}\<rparr>"

datatype commit_rejection =
    Duplicate_feedback | Duplicate_candidate | Not_actionable | Evidence_unauthorized string
  | Artifact_missing string | Artifact_corrupt string

fun check_evidence :: "string list \<Rightarrow> evidence_event list \<Rightarrow> commit_rejection + string list" where
  "check_evidence refs [] = Inr []"
| "check_evidence refs (e # es) =
     (if ee_id e \<notin> set refs then Inl (Evidence_unauthorized (ee_id e))
      else (case check_evidence refs es of Inl r \<Rightarrow> Inl r | Inr ids \<Rightarrow> Inr (ee_id e # ids)))"

fun check_artifacts ::
  "(string \<Rightarrow> string) \<Rightarrow> artifact_store \<Rightarrow> artifact_ref list \<Rightarrow> commit_rejection + string list" where
  "check_artifacts sha s [] = Inr []"
| "check_artifacts sha s (a # as) =
     (if \<not> artifact_exists s (af_id a) then Inl (Artifact_missing (af_id a))
      else if \<not> verify_integrity sha s (af_id a) then Inl (Artifact_corrupt (af_id a))
      else (case check_artifacts sha s as of Inl r \<Rightarrow> Inl r | Inr ids \<Rightarrow> Inr (af_id a # ids)))"

text \<open>\<open>isinstance(value, (str, int, float, bool))\<close>.\<close>

fun promotable :: "pyval \<Rightarrow> bool" where
  "promotable (PBool b) = True"
| "promotable (PInt i) = True"
| "promotable (PStr s) = True"
| "promotable _ = False"

definition evidence_key :: "evidence_type \<Rightarrow> string \<Rightarrow> string" where
  "evidence_key ty k = evidence_type_value ty @ ''.'' @ k"

definition evidence_facts :: "string \<Rightarrow> (nat \<Rightarrow> string) \<Rightarrow> evidence_event list \<Rightarrow> verified_fact list" where
  "evidence_facts cid fid es =
     map (\<lambda>(i, (key, v, eid)). \<lparr>vf_id = fid i, vf_key = key, vf_value = v, vf_evidence = eid, vf_commit = cid\<rparr>)
       (enumerate 0 (concat (map (\<lambda>e.
          map (\<lambda>(k, v). (evidence_key (ee_type e) k, v, ee_id e))
            (filter (\<lambda>(k, v). promotable v) (ee_payload e))) es)))"

definition commit_event :: "string \<Rightarrow> string \<Rightarrow> verified_state \<Rightarrow> evidence_args" where
  "commit_event cid feedback s =
     evidence_args_default (vs_task s) [] Ev_STATE_COMMITTED
       [(''commit_id'', PStr cid), (''feedback_id'', PStr feedback), (''state_version'', PInt (int (vs_version s)))]"

text \<open>The part of \<open>commit\<close> after its checks.\<close>

definition apply_commit ::
  "(string \<Rightarrow> string) \<Rightarrow> string \<Rightarrow> string \<Rightarrow> validator_feedback \<Rightarrow> verified_fact list \<Rightarrow> string list \<Rightarrow> string list
    \<Rightarrow> reducer \<Rightarrow> state_commit \<times> reducer" where
  "apply_commit sha cid eid fb facts evidence_ids artifact_ids r =
     (let s = with_commit sha cid facts artifact_ids None (rd_state r);
          c = \<lparr>sc_id = cid, sc_feedback = vb_id fb, sc_previous = vs_version (rd_state r),
               sc_next = vs_version (rd_state r) + 1, sc_evidence = evidence_ids, sc_artifacts = artifact_ids,
               sc_facts = facts, sc_digest = vs_digest s\<rparr>
      in (c, r\<lparr>rd_state := s, rd_commits := rd_commits r @ [c],
               rd_feedbacks := insert (vb_id fb) (rd_feedbacks r),
               rd_candidates := insert (vb_candidate fb) (rd_candidates r),
               rd_ledger := snd (ledger_append sha eid (commit_event cid (vb_id fb) s) (rd_ledger r))\<rparr>))"

definition reducer_commit ::
  "(string \<Rightarrow> string) \<Rightarrow> string \<Rightarrow> string \<Rightarrow> (nat \<Rightarrow> string) \<Rightarrow> validator_feedback \<Rightarrow> evidence_event list
    \<Rightarrow> artifact_ref list \<Rightarrow> reducer \<Rightarrow> (commit_rejection + state_commit) \<times> reducer" where
  "reducer_commit sha cid eid fid fb evidence artifacts r =
     (if vb_id fb \<in> rd_feedbacks r then (Inl Duplicate_feedback, r)
      else if vb_candidate fb \<in> rd_candidates r then (Inl Duplicate_candidate, r)
      else if \<not> is_actionable fb then (Inl Not_actionable, r)
      else (case check_evidence (vb_evidence fb) evidence of
          Inl e \<Rightarrow> (Inl e, r)
        | Inr evidence_ids \<Rightarrow>
            (case check_artifacts sha (rd_store r) artifacts of
               Inl e \<Rightarrow> (Inl e, r)
             | Inr artifact_ids \<Rightarrow>
                 (let (c, r') = apply_commit sha cid eid fb (evidence_facts cid fid evidence) evidence_ids artifact_ids r
                  in (Inr c, r')))))"

definition replay_commit :: "(string \<Rightarrow> string) \<Rightarrow> state_commit \<Rightarrow> verified_state \<Rightarrow> verified_state" where
  "replay_commit sha c s = with_commit sha (sc_id c) (sc_facts c) (sc_artifacts c) None s"

definition rebuild_state :: "(string \<Rightarrow> string) \<Rightarrow> reducer \<Rightarrow> verified_state" where
  "rebuild_state sha r = fold (replay_commit sha) (rd_commits r) (state_new sha (rd_task r) (rd_run r) (rd_goal r))"

fun effect_event :: "effect_certainty \<Rightarrow> evidence_type" where
  "effect_event Effect_CONFIRMED = Ev_SIDE_EFFECT_CONFIRMED"
| "effect_event Effect_UNCERTAIN = Ev_SIDE_EFFECT_UNCERTAIN"
| "effect_event Effect_NOT_OBSERVED = Ev_SIDE_EFFECT_NOT_OBSERVED"

definition effect_receipt ::
  "(string \<Rightarrow> string) \<Rightarrow> string \<Rightarrow> string \<Rightarrow> effect_certainty \<Rightarrow> string option \<Rightarrow> string option \<Rightarrow> string list
    \<Rightarrow> reducer \<Rightarrow> effect_receipt_row \<times> reducer" where
  "effect_receipt sha eid invocation status before after artifacts r =
     (\<lparr>er_invocation = invocation, er_status = status, er_before = before, er_after = after, er_artifacts = artifacts\<rparr>,
      r\<lparr>rd_ledger := snd (ledger_append sha eid
          (evidence_args_default (vs_task (rd_state r)) [] (effect_event status)
            [(''invocation_id'', PStr invocation), (''effect_status'', PStr (effect_certainty_value status))])
          (rd_ledger r))\<rparr>)"

section \<open>Histories\<close>

datatype reducer_op =
    Op_commit string string "nat \<Rightarrow> string" validator_feedback "evidence_event list" "artifact_ref list"
  | Op_effect string string effect_certainty "string option" "string option" "string list"
  | Op_append string evidence_args
  | Op_put string string string string string

fun apply_op :: "(string \<Rightarrow> string) \<Rightarrow> reducer_op \<Rightarrow> reducer \<Rightarrow> reducer" where
  "apply_op sha (Op_commit cid eid fid fb evidence artifacts) r =
     snd (reducer_commit sha cid eid fid fb evidence artifacts r)"
| "apply_op sha (Op_effect eid invocation status before after artifacts) r =
     snd (effect_receipt sha eid invocation status before after artifacts r)"
| "apply_op sha (Op_append eid a) r = r\<lparr>rd_ledger := snd (ledger_append sha eid a (rd_ledger r))\<rparr>"
| "apply_op sha (Op_put aid content kind mime producer) r =
     (case artifact_put sha aid content kind mime producer (rd_store r) of
        None \<Rightarrow> r | Some (_, s) \<Rightarrow> r\<lparr>rd_store := s\<rparr>)"

definition reduce_ops :: "(string \<Rightarrow> string) \<Rightarrow> reducer_op list \<Rightarrow> reducer \<Rightarrow> reducer" where
  "reduce_ops sha ops r = fold (apply_op sha) ops r"

lemma reduce_ops_Nil [simp]: "reduce_ops sha [] r = r"
  by (simp add: reduce_ops_def)

lemma reduce_ops_snoc [simp]: "reduce_ops sha (ops @ [op]) r = apply_op sha op (reduce_ops sha ops r)"
  by (simp add: reduce_ops_def)

lemma reduce_ops_keeps:
  assumes "\<And>op r. I r \<Longrightarrow> I (apply_op sha op r)" and "I r"
  shows "I (reduce_ops sha ops r)"
  by (induction ops rule: rev_induct) (simp_all add: assms)

text \<open>What one operation can do to a reducer.\<close>

lemma reducer_commit_cases:
  assumes "reducer_commit sha cid eid fid fb evidence artifacts r = (res, r')"
  obtains (rejected) x where "res = Inl x" "r' = r"
  | (accepted) c evidence_ids artifact_ids where
      "res = Inr c" "vb_id fb \<notin> rd_feedbacks r" "vb_candidate fb \<notin> rd_candidates r" "is_actionable fb"
      "check_evidence (vb_evidence fb) evidence = Inr evidence_ids"
      "check_artifacts sha (rd_store r) artifacts = Inr artifact_ids"
      "apply_commit sha cid eid fb (evidence_facts cid fid evidence) evidence_ids artifact_ids r = (c, r')"
  using assms by (auto simp: reducer_commit_def split: if_splits sum.splits prod.splits)

lemma apply_commit_parts:
  assumes "apply_commit sha cid eid fb facts evidence_ids artifact_ids r = (c, r')"
  shows "rd_state r' = with_commit sha cid facts artifact_ids None (rd_state r)"
    and "rd_commits r' = rd_commits r @ [c]"
    and "rd_feedbacks r' = insert (vb_id fb) (rd_feedbacks r)"
    and "rd_candidates r' = insert (vb_candidate fb) (rd_candidates r)"
    and "rd_store r' = rd_store r" "rd_task r' = rd_task r" "rd_run r' = rd_run r" "rd_goal r' = rd_goal r"
    and "sc_id c = cid" "sc_feedback c = vb_id fb" "sc_previous c = vs_version (rd_state r)"
    and "sc_next c = Suc (vs_version (rd_state r))" "sc_evidence c = evidence_ids"
    and "sc_artifacts c = artifact_ids" "sc_facts c = facts" "sc_digest c = vs_digest (rd_state r')"
    and "rd_ledger r' = snd (ledger_append sha eid (commit_event cid (vb_id fb) (rd_state r')) (rd_ledger r))"
  using assms by (auto simp: apply_commit_def Let_def)

lemma check_evidence_ids:
  "check_evidence refs es = Inr ids \<Longrightarrow> ids = map ee_id es \<and> set ids \<subseteq> set refs"
  by (induction es arbitrary: ids) (force split: if_splits sum.splits)+

lemma check_artifacts_ids:
  "check_artifacts sha s as = Inr ids \<Longrightarrow>
     ids = map af_id as \<and> (\<forall>a\<in>set ids. artifact_exists s a \<and> verify_integrity sha s a)"
  by (induction as arbitrary: ids) (auto split: if_splits sum.splits)

text \<open>
  The rule of the invariants that only look at the state, the commits and the marks: it is enough that
  an accepted commit keeps them.
\<close>

definition committed_part :: "reducer \<Rightarrow> string \<times> string \<times> string \<times> verified_state \<times> state_commit list \<times> string set \<times> string set" where
  "committed_part r = (rd_task r, rd_run r, rd_goal r, rd_state r, rd_commits r, rd_feedbacks r, rd_candidates r)"

lemma apply_op_part_cases:
  obtains (same) "committed_part (apply_op sha op r) = committed_part r"
  | (commit) cid eid fid fb evidence artifacts where "op = Op_commit cid eid fid fb evidence artifacts"
  by (cases op) (auto simp: committed_part_def effect_receipt_def split: option.splits)

lemma reduce_ops_part_keeps:
  assumes start: "I (committed_part r)"
    and commit: "\<And>cid eid fid fb evidence artifacts q c q'.
      I (committed_part q) \<Longrightarrow> reducer_commit sha cid eid fid fb evidence artifacts q = (Inr c, q') \<Longrightarrow>
      I (committed_part q')"
  shows "I (committed_part (reduce_ops sha ops r))"
proof (rule reduce_ops_keeps [where I = "\<lambda>r. I (committed_part r)"])
  fix op q
  assume q: "I (committed_part q)"
  show "I (committed_part (apply_op sha op q))"
  proof (cases rule: apply_op_part_cases [of sha op q])
    case (commit cid eid fid fb evidence artifacts)
    obtain res q' where eq: "reducer_commit sha cid eid fid fb evidence artifacts q = (res, q')" by fastforce
    then show ?thesis
    proof (cases rule: reducer_commit_cases)
      case (accepted c _ _)
      then show ?thesis using assms(2) [OF q] eq commit by simp
    qed (simp add: commit eq q)
  qed (simp add: q)
qed (rule start)

end
