(* ===== verification/ReducerSafety.thy ===== *)
theory ReducerSafety imports Reducer begin

text \<open>
  What the substrate of phase 5 guarantees over every history of operations: the rebuilt state is the
  materialized one, a fact has an accepted evidence event behind it, a feedback and a candidate commit
  once, versions count commits, the ledger numbers its events, and a verified artifact stays intact.

  \<^item> \<open>content_store\<close> is the contract of the artifact store as the reducer uses it (the source's
    \<open>ArtifactStore\<close> protocol); the in-memory store provides it.
\<close>

section \<open>The artifact store\<close>

locale content_store =
  fixes store_put :: "'k \<Rightarrow> 's \<Rightarrow> ('r \<times> 's) option"
    and ref_id :: "'r \<Rightarrow> string"
    and intact :: "'s \<Rightarrow> string \<Rightarrow> bool"
    and wf :: "'s \<Rightarrow> bool"
  assumes put_total: "store_put k s \<noteq> None"
    and put_wf: "wf s \<Longrightarrow> store_put k s = Some (r, s') \<Longrightarrow> wf s'"
    and put_intact: "wf s \<Longrightarrow> store_put k s = Some (r, s') \<Longrightarrow> intact s' (ref_id r)"
    and put_keeps: "store_put k s = Some (r, s') \<Longrightarrow> intact s a \<Longrightarrow> intact s' a"
begin

fun put_all :: "'k list \<Rightarrow> 's \<Rightarrow> 's" where
  "put_all [] s = s"
| "put_all (k # ks) s = (case store_put k s of None \<Rightarrow> s | Some (_, s') \<Rightarrow> put_all ks s')"

lemma put_all_keeps: "intact s a \<Longrightarrow> intact (put_all ks s) a"
proof (induction ks arbitrary: s)
  case (Cons k ks)
  obtain r s' where eq: "store_put k s = Some (r, s')" using put_total [of k s] by auto
  show ?case using Cons.IH [OF put_keeps [OF eq Cons.prems]] by (simp add: eq)
qed simp

lemma put_all_wf: "wf s \<Longrightarrow> wf (put_all ks s)"
proof (induction ks arbitrary: s)
  case (Cons k ks)
  obtain r s' where eq: "store_put k s = Some (r, s')" using put_total [of k s] by auto
  show ?case using Cons.IH [OF put_wf [OF Cons.prems eq]] by (simp add: eq)
qed simp

lemma put_then_all:
  assumes "wf s" and "store_put k s = Some (r, s')"
  shows "intact (put_all ks s') (ref_id r)"
  using put_all_keeps [OF put_intact [OF assms]] .

end

record put_args =
  pa_id :: string
  pa_content :: string
  pa_kind :: string
  pa_mime :: string
  pa_producer :: string

definition put_artifact :: "(string \<Rightarrow> string) \<Rightarrow> put_args \<Rightarrow> artifact_store \<Rightarrow> (artifact_ref \<times> artifact_store) option" where
  "put_artifact sha p s = artifact_put sha (pa_id p) (pa_content p) (pa_kind p) (pa_mime p) (pa_producer p) s"

definition stored_intact :: "(string \<Rightarrow> string) \<Rightarrow> artifact_store \<Rightarrow> string \<Rightarrow> bool" where
  "stored_intact sha s a \<longleftrightarrow> artifact_exists s a \<and> verify_integrity sha s a"

text \<open>Each reference is filed under its own id, with content that has its hash.\<close>

definition store_wf :: "(string \<Rightarrow> string) \<Rightarrow> artifact_store \<Rightarrow> bool" where
  "store_wf sha s \<longleftrightarrow> (\<forall>p\<in>set (as_refs s). af_id (snd p) = fst p \<and> stored_intact sha s (fst p))"

lemma stored_intactI: "verify_integrity sha s a \<Longrightarrow> stored_intact sha s a"
  by (auto simp: stored_intact_def artifact_exists_def verify_integrity_def split: option.splits)

lemma verify_integrity_update:
  "verify_integrity sha (s\<lparr>as_content := AList.update aid content (as_content s), as_refs := AList.update aid r (as_refs s)\<rparr>) a
     = (if a = aid then sha content = af_sha r else verify_integrity sha s a)"
  by (simp add: verify_integrity_def)

lemma artifact_put_total: "artifact_put sha aid content kind mime producer s \<noteq> None"
  by (auto simp: artifact_put_def Let_def verify_integrity_update split: option.splits)

lemma artifact_put_cases:
  assumes "artifact_put sha aid content kind mime producer s = Some (r, s')"
  obtains (found) a where "(a, r) \<in> set (as_refs s)" "af_sha r = sha content" "s' = s"
  | (stored) "af_id r = aid" "af_sha r = sha content"
      "s' = s\<lparr>as_content := AList.update aid content (as_content s), as_refs := AList.update aid r (as_refs s)\<rparr>"
proof (cases "List.find (\<lambda>(_, r). af_sha r = sha content) (as_refs s)")
  case None
  then show ?thesis using assms stored by (auto simp: artifact_put_def Let_def split: if_splits)
next
  case (Some p)
  then show ?thesis using assms found find_Some_set [OF Some] by (auto simp: artifact_put_def)
qed

lemma artifact_put_keeps:
  assumes "artifact_put sha aid content kind mime producer s = Some (r, s')" and "stored_intact sha s a"
  shows "stored_intact sha s' a"
  using assms(1)
proof (cases rule: artifact_put_cases)
  case stored
  then show ?thesis
    using assms(2) by (intro stored_intactI) (simp add: verify_integrity_update stored_intact_def)
qed (use assms(2) in simp)

lemma set_update_cases: "(k, v) \<in> set (AList.update x y d) \<Longrightarrow> (k, v) = (x, y) \<or> (k, v) \<in> set d"
  by (induction d) (auto split: if_splits)

lemma artifact_put_wf:
  assumes "store_wf sha s" and put: "artifact_put sha aid content kind mime producer s = Some (r, s')"
  shows "store_wf sha s'"
  using put
proof (cases rule: artifact_put_cases)
  case stored
  show ?thesis unfolding store_wf_def
  proof
    fix p assume "p \<in> set (as_refs s')"
    then have "p \<in> set (AList.update aid r (as_refs s))" by (simp add: stored(3))
    then have "p = (aid, r) \<or> p \<in> set (as_refs s)"
      using set_update_cases [of "fst p" "snd p" aid r "as_refs s"] by simp
    then have "af_id (snd p) = fst p \<and> verify_integrity sha s' (fst p)"
      using assms(1) stored by (auto simp: store_wf_def verify_integrity_update stored_intact_def)
    then show "af_id (snd p) = fst p \<and> stored_intact sha s' (fst p)" by (simp add: stored_intactI)
  qed
qed (use assms(1) in simp)

lemma artifact_put_intact:
  assumes "store_wf sha s" and put: "artifact_put sha aid content kind mime producer s = Some (r, s')"
  shows "stored_intact sha s' (af_id r)"
  using put
proof (cases rule: artifact_put_cases)
  case (found a)
  then show ?thesis using assms(1) by (auto simp: store_wf_def)
next
  case stored
  then show ?thesis by (intro stored_intactI) (simp add: verify_integrity_update)
qed

interpretation memory_store: content_store "put_artifact sha" af_id "stored_intact sha" "store_wf sha" for sha
  by unfold_locales
    (simp_all add: put_artifact_def artifact_put_total artifact_put_wf artifact_put_intact artifact_put_keeps)

section \<open>Facts\<close>

text \<open>Dictionaries of facts, keyed by the key of the fact.\<close>

definition fact_keyed :: "(string \<times> verified_fact) list \<Rightarrow> bool" where
  "fact_keyed d \<longleftrightarrow> (\<forall>(k, f)\<in>set d. vf_key f = k)"

abbreviation fact_updates :: "verified_fact list \<Rightarrow> (string \<times> verified_fact) list \<Rightarrow> (string \<times> verified_fact) list" where
  "fact_updates fs d \<equiv> fold (\<lambda>f d. AList.update (vf_key f) f d) fs d"

lemma fact_keyed_updates: "fact_keyed d \<Longrightarrow> fact_keyed (fact_updates fs d)"
proof (induction fs arbitrary: d)
  case (Cons f fs)
  have "fact_keyed (AList.update (vf_key f) f d)"
    using Cons.prems set_update_cases [of _ _ "vf_key f" f d] by (fastforce simp: fact_keyed_def)
  then show ?case using Cons.IH by simp
qed simp

lemma find_fact_keyed: "fact_keyed d \<Longrightarrow> List.find (\<lambda>f. vf_key f = k) (map snd d) = map_of d k"
  by (induction d) (auto simp: fact_keyed_def)

lemma map_of_updates:
  "map_of (fact_updates fs d) k = (case List.find (\<lambda>f. vf_key f = k) (rev fs) of Some f \<Rightarrow> Some f | None \<Rightarrow> map_of d k)"
proof (induction fs arbitrary: d rule: rev_induct)
  case (snoc f fs)
  then show ?case by (simp split: option.splits)
qed simp

lemma distinct_updates: "distinct (map fst d) \<Longrightarrow> distinct (map fst (fact_updates fs d))"
  by (induction fs arbitrary: d) (simp_all add: distinct_update)

lemma set_updates: "set (map snd (fact_updates fs d)) \<subseteq> set (map snd d) \<union> set fs"
proof (induction fs arbitrary: d)
  case (Cons f fs)
  have "set (map snd (AList.update (vf_key f) f d)) \<subseteq> set (map snd d) \<union> {f}"
    using set_update_cases [of _ _ "vf_key f" f d] by force
  then show ?case using Cons.IH [of "AList.update (vf_key f) f d"] unfolding fold_simps comp_apply set_simps
    by blast
qed simp

lemma set_fact_merge: "set (fact_merge old new) \<subseteq> set old \<union> set new"
  using set_updates [of new "fact_updates old []"] set_updates [of old "[]"] by (auto simp: fact_merge_def)

lemma fact_merge_distinct: "distinct (map vf_key (fact_merge old new))"
proof -
  let ?d = "fact_updates new (fact_updates old [])"
  have k: "fact_keyed ?d" by (intro fact_keyed_updates) (simp add: fact_keyed_def)
  then have "map vf_key (fact_merge old new) = map fst ?d" by (auto simp: fact_keyed_def fact_merge_def)
  then show ?thesis by (simp only: distinct_updates distinct.simps list.map)
qed

lemma find_fact_merge:
  assumes "distinct (map vf_key old)"
  shows "List.find (\<lambda>f. vf_key f = k) (fact_merge old new) =
    (case List.find (\<lambda>f. vf_key f = k) (rev new) of Some f \<Rightarrow> Some f | None \<Rightarrow> List.find (\<lambda>f. vf_key f = k) old)"
proof -
  let ?d = "fact_updates new (fact_updates old [])"
  have rev: "distinct (map vf_key fs) \<Longrightarrow> List.find (\<lambda>f. vf_key f = k) (rev fs) = List.find (\<lambda>f. vf_key f = k) fs"
    for fs :: "verified_fact list"
  proof (induction fs)
    case (Cons f fs)
    have app: "List.find P (xs @ ys) = (case List.find P xs of Some x \<Rightarrow> Some x | None \<Rightarrow> List.find P ys)"
      for P and xs ys :: "verified_fact list" by (induction xs) auto
    show ?case
    proof (cases "vf_key f = k")
      case True
      then have "List.find (\<lambda>f. vf_key f = k) fs = None" using Cons.prems by (auto simp: find_None_iff_all) (metis image_eqI)
      then show ?thesis using Cons True by (simp add: app)
    next
      case False
      then show ?thesis using Cons by (simp add: app split: option.splits)
    qed
  qed simp
  have "List.find (\<lambda>f. vf_key f = k) (fact_merge old new) = map_of ?d k"
    using find_fact_keyed [OF fact_keyed_updates [OF fact_keyed_updates, of "[]"]] by (simp add: fact_merge_def fact_keyed_def)
  then show ?thesis by (simp add: map_of_updates rev [OF assms] split: option.splits)
qed

lemma with_commit_fields [simp]:
  "vs_facts (with_commit sha cid facts arts st s) = fact_merge (vs_facts s) facts"
  "vs_version (with_commit sha cid facts arts st s) = Suc (vs_version s)"
  "set (vs_artifacts (with_commit sha cid facts arts st s)) = set (vs_artifacts s) \<union> set arts"
  "vs_task (with_commit sha cid facts arts st s) = vs_task s"
  "vs_last_commit (with_commit sha cid facts arts st s) = Some cid"
  by (auto simp: with_commit_def state_init_def)

lemma state_new_fields [simp]:
  "vs_facts (state_new sha t r g) = []" "vs_version (state_new sha t r g) = 0" "vs_artifacts (state_new sha t r g) = []"
  by (simp_all add: state_new_def state_init_def)

lemma evidence_factsE:
  assumes "f \<in> set (evidence_facts cid fid evidence)"
  obtains e k where "e \<in> set evidence" "ee_id e = vf_evidence f" "(k, vf_value f) \<in> set (ee_payload e)"
    "vf_key f = evidence_key (ee_type e) k" "promotable (vf_value f)" "vf_commit f = cid"
proof -
  from assms obtain i key v eid where i: "(i, key, v, eid) \<in> set (enumerate 0 (concat (map (\<lambda>e.
      map (\<lambda>(k, v). (evidence_key (ee_type e) k, v, ee_id e)) (filter (\<lambda>(k, v). promotable v) (ee_payload e))) evidence)))"
    and f: "f = \<lparr>vf_id = fid i, vf_key = key, vf_value = v, vf_evidence = eid, vf_commit = cid\<rparr>"
    by (auto simp: evidence_facts_def)
  from i have "(key, v, eid) \<in> set (concat (map (\<lambda>e.
      map (\<lambda>(k, v). (evidence_key (ee_type e) k, v, ee_id e)) (filter (\<lambda>(k, v). promotable v) (ee_payload e))) evidence))"
    unfolding enumerate_eq_zip by (rule set_zip_rightD)
  then show thesis using that by (fastforce simp: f)
qed

lemma numbered_filter:
  "map ee_sequence es = [0..<length es] \<Longrightarrow> filter (\<lambda>e. n \<le> ee_sequence e) es = drop n es"
  by (induction es rule: rev_induct) auto

section \<open>Histories\<close>

text \<open>A validator's acceptance and the event it declares, for the concrete histories below.\<close>

definition sample_feedback :: validator_feedback where
  "sample_feedback =
     \<lparr>vb_id = ''fb'', vb_validator = ''v'', vb_version = ''1.0'', vb_candidate = ''cand'', vb_status = Validator_SUCCESS,
      vb_decision = Decision_ACCEPT, vb_evidence = [''e1''], vb_state_digest = [], vb_failure = None, vb_detail = []\<rparr>"

definition sample_event :: evidence_event where
  "sample_event =
     \<lparr>ee_id = ''e1'', ee_sequence = 0, ee_task = ''t'', ee_run = ''r'', ee_attempt = ''a'', ee_epoch = 0,
      ee_type = Ev_TOOL_OBSERVED, ee_parent = None, ee_correlation = None,
      ee_payload = [(''ok'', PBool True)], ee_digest = ''d'', ee_artifacts = []\<rparr>"

definition sample_fact :: verified_fact where
  "sample_fact = \<lparr>vf_id = ''f'', vf_key = ''TOOL_OBSERVED.ok'', vf_value = PBool True, vf_evidence = ''e1'', vf_commit = ''c''\<rparr>"

definition sample_artifact :: artifact_ref where
  "sample_artifact =
     \<lparr>af_id = ''art'', af_kind = ''file'', af_sha = ''x'', af_size = Some 1, af_mime = [],
      af_uri = ''memory://art'', af_producer = []\<rparr>"

definition sample_artifact_ops :: "reducer_op list" where
  "sample_artifact_ops =
     [Op_put ''art'' ''x'' ''file'' [] [],
      Op_commit ''c'' ''x'' (\<lambda>_. ''f'') sample_feedback [] [sample_artifact]]"

abbreviation sample_reducer :: reducer where
  "sample_reducer \<equiv> reducer_new (state_new (\<lambda>s. s) ''t'' ''r'' ''g'') (ledger_new ''r'') artifact_store_new"


text \<open>C22: Whatever commits, effect receipts, ledger entries and artifacts a history brings, the state that the
  reducer rebuilds from its commits alone is the state it holds, when it started from a new state of
  its task: facts, artifacts, version, status, last commit and digest.
\<close>

theorem rebuilt_state_is_held:
  "rebuild_state sha (reduce_ops sha ops (reducer_new (state_new sha task run goal) ledger store))
     = rd_state (reduce_ops sha ops (reducer_new (state_new sha task run goal) ledger store))"
proof -
  let ?I = "\<lambda>(t, u, g, s, cs, fbs, cands). fold (replay_commit sha) cs (state_new sha t u g) = s"
  have "?I (committed_part (reduce_ops sha ops (reducer_new (state_new sha task run goal) ledger store)))"
  proof (rule reduce_ops_part_keeps)
    fix cid eid fid fb evidence artifacts q c q'
    assume I: "?I (committed_part q)" and eq: "reducer_commit sha cid eid fid fb evidence artifacts q = (Inr c, q')"
    from eq show "?I (committed_part q')"
    proof (cases rule: reducer_commit_cases)
      case (accepted c' evidence_ids artifact_ids)
      show ?thesis using I by (simp add: committed_part_def apply_commit_parts [OF accepted(7)] replay_commit_def)
    qed simp
  qed (simp add: committed_part_def reducer_new_def state_new_def state_init_def)
  then show ?thesis by (simp add: committed_part_def rebuild_state_def)
qed

definition commits_numbered :: "nat \<Rightarrow> state_commit list \<Rightarrow> bool" where
  "commits_numbered v cs \<longleftrightarrow>
     map sc_previous cs = [v..<v + length cs] \<and> list_all validate_version_increment cs"

text \<open>
  After every history the commits of a reducer are numbered without a gap from the version it
  started with, no two name the same feedback, exactly their feedbacks are marked as used, and they
  used as many different candidates as there are commits: no feedback and no candidate advances the
  state twice.
\<close>

theorem commits_advance_once:
  "let r = reduce_ops sha ops (reducer_new s ledger store) in commits_numbered (vs_version s) (rd_commits r)
    \<and> vs_version (rd_state r) = vs_version s + length (rd_commits r)
    \<and> distinct (map sc_feedback (rd_commits r)) \<and> set (map sc_feedback (rd_commits r)) = rd_feedbacks r
    \<and> card (rd_candidates r) = length (rd_commits r)"
proof -
  let ?I = "\<lambda>(t, u, g, q, cs, fbs, cands). commits_numbered (vs_version s) cs \<and> vs_version q = vs_version s + length cs
    \<and> distinct (map sc_feedback cs) \<and> set (map sc_feedback cs) = fbs \<and> finite cands \<and> card cands = length cs"
  have "?I (committed_part (reduce_ops sha ops (reducer_new s ledger store)))"
  proof (rule reduce_ops_part_keeps)
    fix cid eid fid fb evidence artifacts q c q'
    assume I: "?I (committed_part q)" and eq: "reducer_commit sha cid eid fid fb evidence artifacts q = (Inr c, q')"
    from eq show "?I (committed_part q')"
    proof (cases rule: reducer_commit_cases)
      case (accepted c' evidence_ids artifact_ids)
      note parts = apply_commit_parts [OF accepted(7)]
      show ?thesis
        using I accepted(2,3)
        by (auto simp: committed_part_def parts commits_numbered_def validate_version_increment_def)
    qed simp
  qed (simp add: committed_part_def reducer_new_def commits_numbered_def)
  then show ?thesis by (simp add: committed_part_def Let_def)
qed

text \<open>A commit of the history that backs a fact.\<close>

fun fact_backed :: "verified_fact \<Rightarrow> reducer_op \<Rightarrow> bool" where
  "fact_backed f (Op_commit cid eid fid fb evidence artifacts) \<longleftrightarrow>
     is_actionable fb \<and> vf_evidence f \<in> set (vb_evidence fb) \<and> vf_commit f = cid \<and> promotable (vf_value f)
     \<and> (\<exists>e\<in>set evidence. ee_id e = vf_evidence f \<and>
          (\<exists>p\<in>set (ee_payload e). vf_key f = evidence_key (ee_type e) (fst p) \<and> vf_value f = snd p))"
| "fact_backed f _ \<longleftrightarrow> False"

text \<open>C21: Every fact a reducer holds after a history, when it started from a new state, was brought by a
  commit of that history whose feedback was a validator's success and acceptance and declares the
  evidence id of the fact, and the event given to that commit carries the fact: its type and the
  entry of its payload make the key and the value.
\<close>

theorem facts_have_accepted_evidence:
  assumes "f \<in> set (vs_facts (rd_state (reduce_ops sha ops (reducer_new (state_new sha task run goal) ledger store))))"
  shows "\<exists>op\<in>set ops. fact_backed f op"
  using assms
proof (induction ops rule: rev_induct)
  case Nil
  then show ?case by (simp add: reducer_new_def)
next
  case (snoc op ops)
  let ?q = "reduce_ops sha ops (reducer_new (state_new sha task run goal) ledger store)"
  consider (old) "f \<in> set (vs_facts (rd_state ?q))"
    | (new) cid eid fid fb evidence artifacts evidence_ids where "op = Op_commit cid eid fid fb evidence artifacts"
        "is_actionable fb" "check_evidence (vb_evidence fb) evidence = Inr evidence_ids"
        "f \<in> set (evidence_facts cid fid evidence)"
  proof (cases rule: apply_op_part_cases [of sha op ?q])
    case same
    then have "rd_state (apply_op sha op ?q) = rd_state ?q" by (simp add: committed_part_def)
    then show ?thesis using snoc.prems old by simp
  next
    case (commit cid eid fid fb evidence artifacts)
    obtain res q' where eq: "reducer_commit sha cid eid fid fb evidence artifacts ?q = (res, q')" by fastforce
    then show ?thesis
    proof (cases rule: reducer_commit_cases)
      case rejected
      then show ?thesis using snoc.prems old eq commit by simp
    next
      case (accepted c evidence_ids artifact_ids)
      have "f \<in> set (fact_merge (vs_facts (rd_state ?q)) (evidence_facts cid fid evidence))"
        using snoc.prems by (simp add: commit eq apply_commit_parts(1) [OF accepted(7)])
      then show ?thesis using set_fact_merge old new [OF commit accepted(4,5)] by blast
    qed
  qed
  then show ?case
  proof cases
    case old
    then show ?thesis using snoc.IH by auto
  next
    case new
    from new(4) obtain e k where e: "e \<in> set evidence" "ee_id e = vf_evidence f" "(k, vf_value f) \<in> set (ee_payload e)"
      "vf_key f = evidence_key (ee_type e) k" "promotable (vf_value f)" "vf_commit f = cid"
      by (rule evidence_factsE)
    have "vf_evidence f \<in> set (vb_evidence fb)" using check_evidence_ids [OF new(3)] e(1,2) by (force simp del: e(2))
    then have "fact_backed f op" using new(1,2) e by force
    then show ?thesis by simp
  qed
qed

lemma facts_have_accepted_evidence_witness:
  "sample_fact \<in> set (vs_facts (rd_state (reduce_ops (\<lambda>s. s)
      [Op_commit ''c'' ''x'' (\<lambda>_. ''f'') sample_feedback [sample_event] []] sample_reducer)))
    \<and> (\<exists>op\<in>set [Op_commit ''c'' ''x'' (\<lambda>_. ''f'') sample_feedback [sample_event] []]. fact_backed sample_fact op)"
proof -
  have facts: "evidence_facts ''c'' (\<lambda>_. ''f'') [sample_event] = [sample_fact]"
    by (simp add: evidence_facts_def sample_event_def sample_fact_def evidence_key_def)
  have app: "apply_op (\<lambda>s. s) (Op_commit ''c'' ''x'' (\<lambda>_. ''f'') sample_feedback [sample_event] []) sample_reducer
      = snd (apply_commit (\<lambda>s. s) ''c'' ''x'' sample_feedback [sample_fact] [''e1''] [] sample_reducer)"
    by (simp add: reducer_commit_def facts [symmetric] sample_feedback_def sample_event_def is_actionable_def
        reducer_new_def split: prod.splits)
  have "sample_fact \<in> set (vs_facts (rd_state (reduce_ops (\<lambda>s. s)
      [Op_commit ''c'' ''x'' (\<lambda>_. ''f'') sample_feedback [sample_event] []] sample_reducer)))"
    unfolding reduce_ops_def by (simp only: fold_simps comp_apply id_apply app)
      (simp add: apply_commit_def Let_def fact_merge_def reducer_new_def)
  then show ?thesis using facts_have_accepted_evidence by blast
qed

text \<open>C23: Every artifact the verified state names after a history is still in the store then, and its
  content has the digest of its reference, whatever was stored since, when the reducer started from a
  new state.
\<close>

theorem verified_artifacts_intact:
  assumes "a \<in> set (vs_artifacts (rd_state (reduce_ops sha ops (reducer_new (state_new sha task run goal) ledger store))))"
  shows "artifact_exists (rd_store (reduce_ops sha ops (reducer_new (state_new sha task run goal) ledger store))) a
    \<and> verify_integrity sha (rd_store (reduce_ops sha ops (reducer_new (state_new sha task run goal) ledger store))) a"
proof -
  let ?I = "\<lambda>r :: reducer. \<forall>a\<in>set (vs_artifacts (rd_state r)). stored_intact sha (rd_store r) a"
  have "?I (reduce_ops sha ops (reducer_new (state_new sha task run goal) ledger store))"
  proof (rule reduce_ops_keeps)
    fix op r assume I: "?I r"
    show "?I (apply_op sha op r)"
    proof (cases op)
      case (Op_commit cid eid fid fb evidence artifacts)
      obtain res r' where eq: "reducer_commit sha cid eid fid fb evidence artifacts r = (res, r')" by fastforce
      then show ?thesis
      proof (cases rule: reducer_commit_cases)
        case (accepted c evidence_ids artifact_ids)
        then show ?thesis
          using I check_artifacts_ids [OF accepted(6)]
          by (auto simp: Op_commit eq apply_commit_parts [OF accepted(7)] stored_intact_def)
      qed (simp add: Op_commit eq I)
    next
      case (Op_put aid content kind mime producer)
      let ?k = "\<lparr>pa_id = aid, pa_content = content, pa_kind = kind, pa_mime = mime, pa_producer = producer\<rparr>"
      obtain ref s' where eq: "put_artifact sha ?k (rd_store r) = Some (ref, s')"
        using memory_store.put_total [of sha ?k "rd_store r"] by auto
      then have "artifact_put sha aid content kind mime producer (rd_store r) = Some (ref, s')"
        by (simp add: put_artifact_def)
      then show ?thesis using I memory_store.put_keeps [OF eq] by (simp add: Op_put)
    qed (use I in \<open>simp_all add: effect_receipt_def\<close>)
  qed (simp add: reducer_new_def)
  then show ?thesis using assms by (simp add: stored_intact_def)
qed

lemma verified_artifacts_intact_witness:
  "''art'' \<in> set (vs_artifacts (rd_state (reduce_ops (\<lambda>s. s) sample_artifact_ops sample_reducer)))
    \<and> artifact_exists (rd_store (reduce_ops (\<lambda>s. s) sample_artifact_ops sample_reducer)) ''art''
    \<and> verify_integrity (\<lambda>s. s) (rd_store (reduce_ops (\<lambda>s. s) sample_artifact_ops sample_reducer)) ''art''"
proof -
  let ?r = "sample_reducer\<lparr>rd_store := \<lparr>as_content = [(''art'', ''x'')], as_refs = [(''art'', sample_artifact)]\<rparr>\<rparr>"
  have put: "apply_op (\<lambda>s. s) (Op_put ''art'' ''x'' ''file'' [] []) sample_reducer = ?r"
    by (simp add: artifact_put_def artifact_store_new_def reducer_new_def verify_integrity_def sample_artifact_def Let_def)
  have app: "apply_op (\<lambda>s. s) (Op_commit ''c'' ''x'' (\<lambda>_. ''f'') sample_feedback [] [sample_artifact]) ?r
      = snd (apply_commit (\<lambda>s. s) ''c'' ''x'' sample_feedback [] [] [''art''] ?r)"
    by (simp add: reducer_commit_def evidence_facts_def sample_feedback_def sample_artifact_def is_actionable_def
        reducer_new_def artifact_exists_def verify_integrity_def split: prod.splits)
  have "''art'' \<in> set (vs_artifacts (rd_state (reduce_ops (\<lambda>s. s) sample_artifact_ops sample_reducer)))"
    unfolding sample_artifact_ops_def reduce_ops_def by (simp only: fold_simps comp_apply id_apply put app)
      (simp add: apply_commit_def Let_def)
  then show ?thesis using verified_artifacts_intact by blast
qed

text \<open>
  After every history that began with a new ledger, the events are numbered by their position, so
  what \<open>events_since\<close> answers is exactly the ledger without its first entries.
\<close>

theorem ledger_numbers_its_events:
  "let r = reduce_ops sha ops (reducer_new s (ledger_new run) store) in map ee_sequence (el_events (rd_ledger r)) = [0..<el_next (rd_ledger r)]
    \<and> events_since (rd_ledger r) n = drop n (el_events (rd_ledger r))"
proof -
  let ?I = "\<lambda>r :: reducer. map ee_sequence (el_events (rd_ledger r)) = [0..<el_next (rd_ledger r)]"
  have app: "map ee_sequence (el_events l) = [0..<el_next l] \<Longrightarrow>
      map ee_sequence (el_events (snd (ledger_append sha eid a l))) = [0..<el_next (snd (ledger_append sha eid a l))]"
    for eid a l by (simp add: ledger_append_def Let_def evidence_init_def)
  let ?r = "reduce_ops sha ops (reducer_new s (ledger_new run) store)"
  have I: "?I ?r"
  proof (rule reduce_ops_keeps)
    fix op q assume q: "?I q"
    show "?I (apply_op sha op q)"
    proof (cases op)
      case (Op_commit cid eid fid fb evidence artifacts)
      obtain res q' where eq: "reducer_commit sha cid eid fid fb evidence artifacts q = (res, q')" by fastforce
      then show ?thesis
      proof (cases rule: reducer_commit_cases)
        case (accepted c evidence_ids artifact_ids)
        then show ?thesis using app [OF q] by (simp add: Op_commit eq apply_commit_parts(17) [OF accepted(7)])
      qed (simp add: Op_commit eq q)
    qed (use q app in \<open>simp_all add: effect_receipt_def split: option.splits\<close>)
  qed (simp add: reducer_new_def ledger_new_def)
  then have "map ee_sequence (el_events (rd_ledger ?r)) = [0..<length (el_events (rd_ledger ?r))]"
    by (metis length_map length_upt minus_nat.diff_0)
  then show ?thesis using I by (simp add: Let_def events_since_def numbered_filter)
qed

text \<open>
  The reducer never asks the ledger: an event with an authorized id is promoted with the payload the
  caller hands in, even when the ledger holds another event under that id, or none. The value the
  verified state then reads is the caller's.
\<close>

theorem commit_trusts_the_caller:
  assumes "vb_id fb \<notin> rd_feedbacks r" "vb_candidate fb \<notin> rd_candidates r" "is_actionable fb"
    and "ee_id e \<in> set (vb_evidence fb)" "ee_payload e = [(k, v)]" "promotable v"
    and "ledger_get (rd_ledger r) (ee_id e) \<noteq> Some e" "distinct (map vf_key (vs_facts (rd_state r)))"
  shows "\<exists>c r'. reducer_commit sha cid eid fid fb [e] [] r = (Inr c, r')
    \<and> fact_value (rd_state r') (evidence_key (ee_type e) k) PNone = v"
proof -
  let ?f = "\<lparr>vf_id = fid 0, vf_key = evidence_key (ee_type e) k, vf_value = v, vf_evidence = ee_id e, vf_commit = cid\<rparr>"
  have facts: "evidence_facts cid fid [e] = [?f]" by (simp add: evidence_facts_def assms(5,6))
  obtain c r' where app: "apply_commit sha cid eid fb [?f] [ee_id e] [] r = (c, r')" by fastforce
  then have "reducer_commit sha cid eid fid fb [e] [] r = (Inr c, r')"
    by (simp add: reducer_commit_def assms(1-4) facts)
  moreover have "fact_value (rd_state r') (evidence_key (ee_type e) k) PNone = v"
    by (simp add: fact_value_def apply_commit_parts(1) [OF app] find_fact_merge [OF assms(8)])
  ultimately show ?thesis by blast
qed

lemma commit_trusts_the_caller_witness:
  "ledger_get (rd_ledger sample_reducer) ''e1'' = None
    \<and> (\<exists>c r'. reducer_commit (\<lambda>s. s) ''c'' ''x'' (\<lambda>_. ''f'') sample_feedback [sample_event] [] sample_reducer = (Inr c, r')
      \<and> fact_value (rd_state r') (evidence_key (ee_type sample_event) ''ok'') PNone = PBool True)"
  by (intro conjI commit_trusts_the_caller)
    (simp_all add: reducer_new_def sample_feedback_def sample_event_def is_actionable_def ledger_get_def ledger_new_def)

end
