(* ===== verification/RecoveryRoute.thy ===== *)
theory RecoveryRoute imports Prelude begin

text \<open>
  The recovery route of phase 5 (\<open>src/lhas/phase5/recovery_route.py\<close>) and the gates that budget it
  (\<open>src/lhas/phase5/recovery_budget.py\<close>).

  \<^item> \<open>decide_route\<close> is \<open>RecoveryRouteDecider.decide\<close> rule by rule, Q0 to Q3; the decider keeps the
    number of its decision and, per action signature, how often it asked for a new plan.
  \<^item> \<open>decide_all\<close> is a sequence of decisions of one decider; \<open>run_gate\<close> one of requests to a gate.
  \<^item> A gate is known by \<open>recovery_gate\<close>: every request is answered and entered in the ledger. The
    limiting gate and the pass-through gate are its two instances.
  \<^item> The dashes of the rationale texts are written \<open>-\<close>.
\<close>

section \<open>Vocabulary\<close>

datatype recovery_route = CONTINUE | RETRY_SAME | RETRY_CHANGED | REPLAN | ESCALATE | STOP

fun recovery_route_value :: "recovery_route \<Rightarrow> string" where
  "recovery_route_value CONTINUE = ''CONTINUE''"
| "recovery_route_value RETRY_SAME = ''RETRY_SAME''"
| "recovery_route_value RETRY_CHANGED = ''RETRY_CHANGED''"
| "recovery_route_value REPLAN = ''REPLAN''"
| "recovery_route_value ESCALATE = ''ESCALATE''"
| "recovery_route_value STOP = ''STOP''"

datatype state_change = OBSERVED_CHANGE | NO_OBSERVED_CHANGE | UNKNOWN_CHANGE

fun state_change_value :: "state_change \<Rightarrow> string" where
  "state_change_value OBSERVED_CHANGE = ''OBSERVED_CHANGE''"
| "state_change_value NO_OBSERVED_CHANGE = ''NO_OBSERVED_CHANGE''"
| "state_change_value UNKNOWN_CHANGE = ''UNKNOWN''"

datatype evidence_grade = Grade_DIRECT | Grade_DERIVED | Grade_ABSENT | Grade_UNKNOWN

fun evidence_grade_value :: "evidence_grade \<Rightarrow> string" where
  "evidence_grade_value Grade_DIRECT = ''DIRECT''"
| "evidence_grade_value Grade_DERIVED = ''DERIVED''"
| "evidence_grade_value Grade_ABSENT = ''ABSENT''"
| "evidence_grade_value Grade_UNKNOWN = ''UNKNOWN''"

record attempt_evidence =
  ae_step :: int
  ae_result :: string
  ae_state :: string
  ae_exec :: string
  ae_ready :: string
  ae_retryable :: string
  ae_affects :: bool
  ae_state_seen :: bool

record route_inputs =
  ri_step :: int
  ri_proposed :: string
  ri_tool :: string
  ri_arguments :: string
  ri_exec :: string
  ri_ready :: string
  ri_retryable :: string
  ri_affects :: bool
  ri_transient :: bool
  ri_precondition :: "(string \<times> string) list"
  ri_precondition_grade :: string
  ri_change :: state_change
  ri_change_grade :: evidence_grade
  ri_attempts :: "attempt_evidence list"
  ri_remaining :: "int option"
  ri_model_calls :: "int option"
  ri_terminal :: bool
  ri_prior_replans :: int

record route_decision =
  rt_route :: recovery_route
  rt_reason :: string
  rt_rationale :: string
  rt_evidence :: pydict
  rt_grade :: string
  rt_change :: string
  rt_id :: string

fun map_route_to_recovery_action :: "recovery_route \<Rightarrow> string" where
  "map_route_to_recovery_action CONTINUE = ''none''"
| "map_route_to_recovery_action RETRY_SAME = ''retry''"
| "map_route_to_recovery_action RETRY_CHANGED = ''retry_with_context''"
| "map_route_to_recovery_action REPLAN = ''retry_with_context''"
| "map_route_to_recovery_action ESCALATE = ''escalate''"
| "map_route_to_recovery_action STOP = ''stop''"

definition route_to_dict :: "route_decision \<Rightarrow> pydict" where
  "route_to_dict d =
     [(''decision_id'', PStr (rt_id d)), (''route_policy_version'', PStr ''recovery-route-v1''),
      (''route'', PStr (recovery_route_value (rt_route d))), (''reason_code'', PStr (rt_reason d)),
      (''rationale'', PStr (rt_rationale d)), (''evidence'', PDict (rt_evidence d)),
      (''evidence_grade'', PStr (rt_grade d)), (''state_change'', PStr (rt_change d)),
      (''mapped_recovery_action'', PStr (map_route_to_recovery_action (rt_route d)))]"

section \<open>Judging the attempts\<close>

text \<open>The last two attempts, \<open>attempts[-2]\<close> and \<open>attempts[-1]\<close>.\<close>

fun last_two :: "'a list \<Rightarrow> ('a \<times> 'a) option" where
  "last_two [a, b] = Some (a, b)"
| "last_two (a # b # c # xs) = last_two (b # c # xs)"
| "last_two _ = None"

definition evaluate_state_change :: "attempt_evidence list \<Rightarrow> state_change \<times> evidence_grade" where
  "evaluate_state_change attempts =
     (case last_two attempts of
        None \<Rightarrow> (UNKNOWN_CHANGE, Grade_UNKNOWN)
      | Some (previous, latest) \<Rightarrow>
          if \<not> (ae_state_seen previous \<and> ae_state_seen latest) then (UNKNOWN_CHANGE, Grade_UNKNOWN)
          else if ae_state previous \<noteq> ae_state latest then (OBSERVED_CHANGE, Grade_DIRECT)
          else (NO_OBSERVED_CHANGE, Grade_DIRECT))"

definition no_progress_loop :: "attempt_evidence list \<Rightarrow> bool" where
  "no_progress_loop attempts =
     (case last_two attempts of
        None \<Rightarrow> False
      | Some (previous, latest) \<Rightarrow>
          if ae_result previous \<noteq> ae_result latest then False
          else if ae_state previous \<noteq> ae_state latest then False
          else ae_affects latest)"

section \<open>The decider\<close>

datatype route_mode = Route_v1 | Route_baseline

fun route_mode_of :: "string \<Rightarrow> route_mode option" where
  "route_mode_of m = (if m = ''route-v1'' then Some Route_v1 else if m = ''baseline'' then Some Route_baseline else None)"

record route_decider =
  dc_mode :: route_mode
  dc_replans :: "string \<Rightarrow> nat"
  dc_sequence :: nat

text \<open>The constructor: \<open>None\<close> is the \<open>ValueError\<close> of an unknown mode.\<close>

definition route_decider_new :: "string \<Rightarrow> route_decider option" where
  "route_decider_new m =
     map_option (\<lambda>mode. \<lparr>dc_mode = mode, dc_replans = (\<lambda>_. 0), dc_sequence = 0\<rparr>) (route_mode_of m)"

definition route_reset :: "route_decider \<Rightarrow> route_decider" where
  "route_reset d = d\<lparr>dc_replans := (\<lambda>_. 0), dc_sequence := 0\<rparr>"

definition route_signature :: "route_inputs \<Rightarrow> string" where
  "route_signature i = ri_tool i @ ''::'' @ ri_arguments i"

definition opt_int :: "int option \<Rightarrow> pyval" where
  "opt_int x = (case x of None \<Rightarrow> PNone | Some n \<Rightarrow> PInt n)"

definition make_decision :: "string \<Rightarrow> route_inputs \<Rightarrow> recovery_route \<Rightarrow> string \<Rightarrow> string \<Rightarrow> route_decision" where
  "make_decision did i route reason rationale =
     \<lparr>rt_route = route, rt_reason = reason, rt_rationale = rationale,
      rt_evidence =
        [(''proposed_action'', PStr (ri_proposed i)), (''tool_name'', PStr (ri_tool i)),
         (''arguments_digest'', PStr (ri_arguments i)), (''last_exec_status'', PStr (ri_exec i)),
         (''last_ready_status'', PStr (ri_ready i)), (''last_retryable'', PStr (ri_retryable i)),
         (''transient_basis'', PBool (ri_transient i)),
         (''precondition_state'', PDict (map (\<lambda>(k, v). (k, PStr v)) (ri_precondition i))),
         (''attempt_count'', PInt (int (length (ri_attempts i)))),
         (''recovery_budget_remaining'', opt_int (ri_remaining i)),
         (''model_calls_used'', opt_int (ri_model_calls i)), (''terminal'', PBool (ri_terminal i))],
      rt_grade = (if ri_change_grade i = Grade_DIRECT then ''DIRECT'' else ''DERIVED''),
      rt_change = state_change_value (ri_change i), rt_id = did\<rparr>"

text \<open>Ask once for a new plan, then escalate: the two places of Q3a and Q3b.\<close>

definition replan_once ::
  "string \<Rightarrow> route_inputs \<Rightarrow> string \<Rightarrow> string \<Rightarrow> string \<Rightarrow> route_decider \<Rightarrow> route_decision \<times> route_decider" where
  "replan_once did i reason first_rationale later_rationale d =
     (if dc_replans d (route_signature i) = 0
      then (make_decision did i REPLAN reason first_rationale,
            d\<lparr>dc_replans := (dc_replans d)(route_signature i := 1)\<rparr>)
      else (make_decision did i ESCALATE ''REPLAN_EXHAUSTED'' later_rationale, d))"

definition permanent_failure :: "route_inputs \<Rightarrow> bool" where
  "permanent_failure i \<longleftrightarrow> ri_exec i = ''FAILED'' \<and> ri_retryable i = ''NOT_RETRYABLE''"

definition decide_baseline :: "string \<Rightarrow> route_inputs \<Rightarrow> route_decision" where
  "decide_baseline did i =
     (if ri_proposed i = ''retry_with_context''
      then make_decision did i RETRY_CHANGED ''STRATEGY_CONTEXT_CHANGE''
        ''policy strategy asked to retry with changed context (baseline passthrough)''
      else make_decision did i RETRY_SAME ''STRATEGY_PASSTHROUGH''
        ''baseline route mode: strategy proposal passes through unchanged'')"

definition decide_retry :: "string \<Rightarrow> route_inputs \<Rightarrow> route_decider \<Rightarrow> route_decision \<times> route_decider" where
  "decide_retry did i d =
     (if permanent_failure i
      then replan_once did i ''PERMANENT_FAILURE_REPLAN''
        ''last failure is explicitly NOT_RETRYABLE - repeating the same action is unjustified; the model must re-plan''
        ''permanent failure persisted after re-planning - escalate with evidence'' d
      else if no_progress_loop (ri_attempts i) then
        (if ri_proposed i = ''retry_with_context''
         then replan_once did i ''NO_PROGRESS_REPLAN''
           ''repeated identical non-success outcomes - re-plan instead of looping''
           ''no-progress persisted after re-planning - escalate with evidence'' d
         else (make_decision did i STOP ''NO_PROGRESS_LOOP''
           ''repeated identical non-success outcomes with no new evidence and no transient basis - stop instead of looping'', d))
      else if ri_proposed i = ''retry_with_context''
        then (make_decision did i RETRY_CHANGED ''STRATEGY_CONTEXT_CHANGE''
          ''policy strategy asked to retry with changed context'', d)
      else if ri_transient i
        then (make_decision did i RETRY_SAME ''TRANSIENT_BASIS'' ''explicit transient retry basis observed'', d)
      else if ri_change i = OBSERVED_CHANGE
        then (make_decision did i RETRY_CHANGED ''STATE_CHANGED'' ''observed state change justifies a modified attempt'', d)
      else (make_decision did i RETRY_SAME ''BOUNDED_VERIFICATION''
        ''single non-permanent failure without evidence against one bounded verification retry'', d))"

definition decide_route :: "route_inputs \<Rightarrow> route_decider \<Rightarrow> route_decision \<times> route_decider" where
  "decide_route i d0 =
     (let d = d0\<lparr>dc_sequence := Suc (dc_sequence d0)\<rparr>; did = ''route-'' @ nat_digits (dc_sequence d) in
      if ri_terminal i
        then (make_decision did i STOP ''TERMINAL_STATE'' ''runtime already in terminal or safety-intercept state'', d)
      else if ri_proposed i = ''escalate''
        then (make_decision did i ESCALATE ''STRATEGY_ESCALATE''
          ''policy strategy asked to hand the unresolved problem upward'', d)
      else if ri_proposed i = ''stop''
        then (make_decision did i STOP ''STRATEGY_STOP'' ''policy strategy asked to stop'', d)
      else if ri_proposed i = ''none'' \<or> ri_proposed i = []
        then (make_decision did i CONTINUE ''STRATEGY_NONE'' ''no recovery proposed and no terminal condition'', d)
      else (case dc_mode d of
          Route_baseline \<Rightarrow> (decide_baseline did i, d)
        | Route_v1 \<Rightarrow> decide_retry did i d))"

fun decide_all :: "route_inputs list \<Rightarrow> route_decider \<Rightarrow> route_decision list \<times> route_decider" where
  "decide_all [] d = ([], d)"
| "decide_all (i # is) d =
     (let (r, d') = decide_route i d; (rs, d'') = decide_all is d' in (r # rs, d''))"

section \<open>Budget gates\<close>

datatype budget_decision = Budget_ALLOW | Budget_DENY | Budget_ESCALATE

fun budget_decision_value :: "budget_decision \<Rightarrow> string" where
  "budget_decision_value Budget_ALLOW = ''ALLOW''"
| "budget_decision_value Budget_DENY = ''DENY''"
| "budget_decision_value Budget_ESCALATE = ''ESCALATE''"

record gate_entry =
  ge_step :: int
  ge_action :: string
  ge_authorization :: string
  ge_remaining :: int
  ge_reason :: string

record budget_gate =
  bg_limit :: int
  bg_used :: int
  bg_entries :: "gate_entry list"

definition budget_gate_new :: "int \<Rightarrow> budget_gate" where
  "budget_gate_new limit = \<lparr>bg_limit = limit, bg_used = 0, bg_entries = []\<rparr>"

definition gate_remaining :: "budget_gate \<Rightarrow> int" where
  "gate_remaining g = max 0 (bg_limit g - bg_used g)"

definition gate_authorize :: "int \<Rightarrow> string \<Rightarrow> budget_gate \<Rightarrow> budget_decision \<times> budget_gate" where
  "gate_authorize step action g0 =
     (let (decision, g) = (if bg_used g0 \<ge> bg_limit g0 then (Budget_ESCALATE, g0)
                           else (Budget_ALLOW, g0\<lparr>bg_used := bg_used g0 + 1\<rparr>))
      in (decision, g\<lparr>bg_entries := bg_entries g @
           [\<lparr>ge_step = step, ge_action = action, ge_authorization = budget_decision_value decision,
             ge_remaining = gate_remaining g,
             ge_reason = ''intervention '' @ int_str (bg_used g) @ ''/'' @ int_str (bg_limit g)\<rparr>]\<rparr>))"

record passthrough_gate =
  pg_entries :: "gate_entry list"

definition passthrough_authorize :: "int \<Rightarrow> string \<Rightarrow> passthrough_gate \<Rightarrow> budget_decision \<times> passthrough_gate" where
  "passthrough_authorize step action g =
     (Budget_ALLOW, g\<lparr>pg_entries := pg_entries g @
        [\<lparr>ge_step = step, ge_action = action, ge_authorization = ''ALLOW'', ge_remaining = -1,
          ge_reason = ''pass-through (A5 ablation)''\<rparr>]\<rparr>)"

definition passthrough_remaining :: "passthrough_gate \<Rightarrow> int" where
  "passthrough_remaining g = -1"

definition gate_rows :: "gate_entry list \<Rightarrow> pydict list" where
  "gate_rows es = map (\<lambda>e.
     [(''step'', PInt (ge_step e)), (''candidate_action'', PStr (ge_action e)),
      (''authorization'', PStr (ge_authorization e)), (''remaining'', PInt (ge_remaining e)),
      (''reason'', PStr (ge_reason e))]) es"

text \<open>What the control arms rely on, whichever gate they were built with.\<close>

locale recovery_gate =
  fixes authorize :: "int \<Rightarrow> string \<Rightarrow> 'g \<Rightarrow> budget_decision \<times> 'g"
    and entries :: "'g \<Rightarrow> gate_entry list"
  assumes entered: "authorize step action g = (decision, g') \<Longrightarrow>
      \<exists>e. entries g' = entries g @ [e] \<and> ge_step e = step \<and> ge_action e = action
        \<and> ge_authorization e = budget_decision_value decision"
    and never_denied: "authorize step action g = (decision, g') \<Longrightarrow> decision \<noteq> Budget_DENY"
begin

fun ask_all :: "(int \<times> string) list \<Rightarrow> 'g \<Rightarrow> budget_decision list \<times> 'g" where
  "ask_all [] g = ([], g)"
| "ask_all (q # qs) g =
     (let (decision, g') = authorize (fst q) (snd q) g; (ds, g'') = ask_all qs g' in (decision # ds, g''))"

lemma ask_all_entries:
  "ask_all qs g = (ds, g') \<Longrightarrow>
     map ge_authorization (entries g') = map ge_authorization (entries g) @ map budget_decision_value ds
     \<and> map (\<lambda>e. (ge_step e, ge_action e)) (entries g') = map (\<lambda>e. (ge_step e, ge_action e)) (entries g) @ qs"
proof (induction qs arbitrary: g ds)
  case (Cons q qs)
  obtain decision g1 where one: "authorize (fst q) (snd q) g = (decision, g1)" by fastforce
  obtain ds1 where rest: "ask_all qs g1 = (ds1, g')" and eqs: "ds = decision # ds1"
    using Cons.prems by (auto simp: one split: prod.splits)
  obtain e where "entries g1 = entries g @ [e]" "ge_step e = fst q" "ge_action e = snd q"
    "ge_authorization e = budget_decision_value decision" using entered [OF one] by blast
  then show ?case using Cons.IH [OF rest] by (simp add: eqs)
qed simp

lemma ask_all_never_denied: "ask_all qs g = (ds, g') \<Longrightarrow> Budget_DENY \<notin> set ds"
proof (induction qs arbitrary: g ds)
  case (Cons q qs)
  obtain decision g1 where one: "authorize (fst q) (snd q) g = (decision, g1)" by fastforce
  then show ?case using Cons.IH never_denied [OF one] Cons.prems by (auto split: prod.splits)
qed simp

end

interpretation limited: recovery_gate gate_authorize bg_entries
  by unfold_locales (auto simp: gate_authorize_def Let_def split: if_splits prod.splits)

interpretation passthrough: recovery_gate passthrough_authorize pg_entries
  by unfold_locales (auto simp: passthrough_authorize_def)

section \<open>What the gates guarantee\<close>

lemma limited_allowances:
  "limited.ask_all qs g = (ds, g') \<Longrightarrow>
     bg_limit g' = bg_limit g \<and> bg_used g' = bg_used g + int (length (filter ((=) Budget_ALLOW) ds))
     \<and> bg_used g' \<le> max (bg_used g) (bg_limit g)"
proof (induction qs arbitrary: g ds)
  case (Cons q qs)
  obtain decision g1 where one: "gate_authorize (fst q) (snd q) g = (decision, g1)" by fastforce
  obtain ds1 where rest: "limited.ask_all qs g1 = (ds1, g')" and eqs: "ds = decision # ds1"
    using Cons.prems by (auto simp: one split: prod.splits)
  have "bg_limit g1 = bg_limit g \<and> (if bg_used g \<ge> bg_limit g then decision = Budget_ESCALATE \<and> bg_used g1 = bg_used g
      else decision = Budget_ALLOW \<and> bg_used g1 = bg_used g + 1)"
    using one by (auto simp: gate_authorize_def Let_def split: if_splits)
  then show ?case using Cons.IH [OF rest] by (auto simp: eqs split: if_splits)
qed simp

text \<open>
  Over any sequence of requests the limiting gate allows at most its limit, answers the requests it
  does not allow with an escalation and never with a refusal, and its ledger holds one row per request, in
  order, with the answer given.
\<close>

theorem gate_allows_at_most_limit:
  "let (ds, g) = limited.ask_all qs (budget_gate_new limit) in
     int (length (filter ((=) Budget_ALLOW) ds)) \<le> max 0 limit \<and> set ds \<subseteq> {Budget_ALLOW, Budget_ESCALATE}
     \<and> map ge_authorization (bg_entries g) = map budget_decision_value ds
     \<and> map (\<lambda>e. (ge_step e, ge_action e)) (bg_entries g) = qs"
proof -
  obtain ds g where run: "limited.ask_all qs (budget_gate_new limit) = (ds, g)" by fastforce
  have "set ds \<subseteq> {Budget_ALLOW, Budget_ESCALATE}"
  proof
    fix x assume "x \<in> set ds"
    then show "x \<in> {Budget_ALLOW, Budget_ESCALATE}"
      using limited.ask_all_never_denied [OF run] by (metis budget_decision.exhaust insertCI)
  qed
  then show ?thesis
    using limited_allowances [OF run] limited.ask_all_entries [OF run] unfolding run by (simp add: budget_gate_new_def)
qed

section \<open>What the decider guarantees\<close>

lemma make_decision_fields [simp]:
  "rt_route (make_decision did i route reason rationale) = route"
  "rt_reason (make_decision did i route reason rationale) = reason"
  "rt_id (make_decision did i route reason rationale) = did"
  by (simp_all add: make_decision_def)

lemma replan_once_effect:
  assumes "replan_once did i reason a b d = (r, d')"
  shows "(rt_route r = REPLAN \<and> dc_replans d (route_signature i) = 0
      \<and> dc_replans d' = (dc_replans d)(route_signature i := 1))
    \<or> (rt_route r = ESCALATE \<and> dc_replans d (route_signature i) \<noteq> 0 \<and> dc_replans d' = dc_replans d)"
    and "dc_mode d' = dc_mode d" "rt_id r = did" "dc_sequence d' = dc_sequence d"
  using assms by (auto simp: replan_once_def split: if_splits)

text \<open>A new plan is asked for exactly when the count of the signature moves from zero to one.\<close>

lemma decide_route_effect:
  assumes "decide_route i d = (r, d')"
  shows "(rt_route r = REPLAN \<and> dc_replans d (route_signature i) = 0
      \<and> dc_replans d' = (dc_replans d)(route_signature i := 1))
    \<or> (rt_route r \<noteq> REPLAN \<and> dc_replans d' = dc_replans d)"
    and "dc_mode d' = dc_mode d"
    and "dc_sequence d' = Suc (dc_sequence d)" "rt_id r = ''route-'' @ nat_digits (Suc (dc_sequence d))"
  using assms
  by (auto simp: decide_route_def decide_baseline_def decide_retry_def Let_def
      split: if_splits route_mode.splits dest: replan_once_effect)

text \<open>
  In a terminal state the answer is always STOP, and the full rule set never repeats an action whose
  last failure was marked as not retryable, neither as it is nor changed, whatever the strategy proposes
  and whatever was decided before.
\<close>

theorem no_retry_of_permanent_failure:
  "(ri_terminal i \<longrightarrow> rt_route (fst (decide_route i d)) = STOP)
    \<and> (dc_mode d = Route_v1 \<and> permanent_failure i \<longrightarrow>
        rt_route (fst (decide_route i d)) \<notin> {RETRY_SAME, RETRY_CHANGED})"
  by (auto simp: decide_route_def decide_retry_def replan_once_def Let_def)

definition permanent_inputs :: route_inputs where
  "permanent_inputs =
     \<lparr>ri_step = 1, ri_proposed = ''retry'', ri_tool = ''t'', ri_arguments = ''d'', ri_exec = ''FAILED'', ri_ready = ''UNKNOWN'',
      ri_retryable = ''NOT_RETRYABLE'', ri_affects = True, ri_transient = False, ri_precondition = [],
      ri_precondition_grade = ''ABSENT'', ri_change = UNKNOWN_CHANGE, ri_change_grade = Grade_UNKNOWN,
      ri_attempts = [], ri_remaining = Some 3, ri_model_calls = None, ri_terminal = False, ri_prior_replans = 0\<rparr>"

definition decider_v1 :: route_decider where
  "decider_v1 = \<lparr>dc_mode = Route_v1, dc_replans = (\<lambda>_. 0), dc_sequence = 0\<rparr>"

lemma no_retry_of_permanent_failure_witness:
  "dc_mode decider_v1 = Route_v1 \<and> permanent_failure permanent_inputs
    \<and> rt_route (fst (decide_route permanent_inputs decider_v1)) \<notin> {RETRY_SAME, RETRY_CHANGED}
    \<and> ri_terminal (permanent_inputs\<lparr>ri_terminal := True\<rparr>)
    \<and> rt_route (fst (decide_route (permanent_inputs\<lparr>ri_terminal := True\<rparr>) decider_v1)) = STOP"
  using no_retry_of_permanent_failure [of permanent_inputs decider_v1]
    no_retry_of_permanent_failure [of "permanent_inputs\<lparr>ri_terminal := True\<rparr>" decider_v1]
  by (simp add: permanent_inputs_def decider_v1_def permanent_failure_def)

text \<open>The decisions of a sequence that asked for a new plan of one signature.\<close>

definition replans_of :: "string \<Rightarrow> (route_inputs \<times> route_decision) list \<Rightarrow> nat" where
  "replans_of s ps = length (filter (\<lambda>(i, r). route_signature i = s \<and> rt_route r = REPLAN) ps)"

lemma decide_all_replans:
  "decide_all is d = (rs, d') \<Longrightarrow>
     length rs = length is \<and> replans_of s (zip is rs) + dc_replans d s = dc_replans d' s
     \<and> (dc_replans d s \<le> 1 \<longrightarrow> dc_replans d' s \<le> 1)
     \<and> map rt_id rs = map (\<lambda>n. ''route-'' @ nat_digits n) [Suc (dc_sequence d)..<Suc (dc_sequence d) + length is]"
proof (induction "is" arbitrary: d rs)
  case (Cons i "is")
  obtain r d1 where one: "decide_route i d = (r, d1)" by fastforce
  obtain rs1 where rest: "decide_all is d1 = (rs1, d')" and eqs: "rs = r # rs1"
    using Cons.prems by (auto simp: one split: prod.splits)
  note effect = decide_route_effect [OF one]
  have ids: "map rt_id rs = map (\<lambda>n. ''route-'' @ nat_digits n) [Suc (dc_sequence d)..<Suc (dc_sequence d) + length (i # is)]"
    using Cons.IH [OF rest] effect(3,4) by (simp add: eqs upt_conv_Cons del: upt_Suc)
  have "replans_of s (zip (i # is) rs) =
      (if route_signature i = s \<and> rt_route r = REPLAN then 1 else 0) + replans_of s (zip is rs1)"
    by (simp add: replans_of_def eqs)
  then show ?case using Cons.IH [OF rest] effect(1) ids by (auto simp: eqs)
qed (simp add: replans_of_def)

text \<open>A request that wants to go on although the failure stays.\<close>

definition failure_stays :: "route_inputs \<Rightarrow> bool" where
  "failure_stays i \<longleftrightarrow> ri_proposed i \<notin> {''none'', []} \<and> (permanent_failure i \<or> no_progress_loop (ri_attempts i))"

lemma replanned_once_ends:
  assumes "dc_mode d = Route_v1" and "dc_replans d (route_signature i) \<noteq> 0" and "failure_stays i"
  shows "rt_route (fst (decide_route i d)) \<in> {ESCALATE, STOP}"
  using assms by (auto simp: decide_route_def Let_def decide_retry_def replan_once_def make_decision_def failure_stays_def)

lemma decide_route_replans:
  "dc_mode (snd (decide_route i d)) = dc_mode d"
  "dc_replans d s \<noteq> 0 \<Longrightarrow> dc_replans (snd (decide_route i d)) s \<noteq> 0"
  "rt_route (fst (decide_route i d)) = REPLAN \<Longrightarrow> dc_replans (snd (decide_route i d)) (route_signature i) \<noteq> 0"
  by (auto simp: decide_route_def Let_def decide_retry_def replan_once_def make_decision_def decide_baseline_def
      split: route_mode.splits if_splits)

lemma decide_all_length: "length (fst (decide_all is d)) = length is"
proof (induction "is" arbitrary: d)
  case (Cons i "is")
  show ?case using Cons.IH[of "snd (decide_route i d)"] by (simp add: split_beta Let_def)
qed simp

lemma replanned_all_end:
  assumes "dc_mode d = Route_v1" and "dc_replans d s \<noteq> 0" and "m < length is"
    and "route_signature (is ! m) = s" and "failure_stays (is ! m)"
  shows "rt_route (fst (decide_all is d) ! m) \<in> {ESCALATE, STOP}"
  using assms
proof (induction "is" arbitrary: d m)
  case (Cons i "is")
  show ?case
  proof (cases m)
    case 0
    with Cons.prems replanned_once_ends[of d i] show ?thesis by (simp add: split_beta Let_def)
  next
    case (Suc n)
    with Cons.IH[of "snd (decide_route i d)" n] Cons.prems decide_route_replans(1)[of i d] decide_route_replans(2)[of d s i] show ?thesis
      by (simp add: split_beta Let_def)
  qed
qed simp

lemma after_replan_all_end:
  assumes "dc_mode d = Route_v1" and "k < m" and "m < length is"
    and "rt_route (fst (decide_all is d) ! k) = REPLAN"
    and "route_signature (is ! m) = route_signature (is ! k)" and "failure_stays (is ! m)"
  shows "rt_route (fst (decide_all is d) ! m) \<in> {ESCALATE, STOP}"
  using assms
proof (induction "is" arbitrary: d k m)
  case (Cons i "is")
  obtain n where n: "m = Suc n" using Cons.prems(2) by (cases m) auto
  let ?d = "snd (decide_route i d)"
  have mode: "dc_mode ?d = Route_v1" using decide_route_replans(1) Cons.prems(1) by simp
  show ?case
  proof (cases k)
    case 0
    then have "dc_replans ?d (route_signature i) \<noteq> 0"
      using decide_route_replans(3) Cons.prems(4) by (simp add: split_beta Let_def)
    from replanned_all_end[OF mode this, of n "is"] show ?thesis
      using Cons.prems n 0 by (simp add: split_beta Let_def)
  next
    case (Suc k')
    with Cons.IH[OF mode, of k' n] Cons.prems n show ?thesis by (simp add: split_beta Let_def)
  qed
qed simp

text \<open>C36: Over any sequence of decisions of a new decider, a new plan is asked for at most once for each action
  signature, never in baseline mode, and the decisions are numbered without a gap. In the mode route-v1 a
  failure that stays ends: once a new plan was asked for a signature, every later request for it that
  proposes some recovery, and whose last failure is permanent or whose last two attempts are a loop, is
  answered with ESCALATE or STOP. (The baseline mode passes such requests through, so this part does not
  hold there.)
\<close>

theorem at_most_one_replan:
  "let (rs, d') = decide_all is \<lparr>dc_mode = mode, dc_replans = (\<lambda>_. 0), dc_sequence = 0\<rparr> in
     replans_of s (zip is rs) \<le> 1
     \<and> map rt_id rs = map (\<lambda>n. ''route-'' @ nat_digits n) [1..<Suc (length is)]
     \<and> (mode = Route_baseline \<longrightarrow> (\<forall>r\<in>set rs. rt_route r \<noteq> REPLAN))
     \<and> (mode = Route_v1 \<longrightarrow>
         (\<forall>k m. k < m \<and> m < length is \<and> rt_route (rs ! k) = REPLAN
            \<and> route_signature (is ! m) = route_signature (is ! k)
            \<and> ri_proposed (is ! m) \<notin> {''none'', []}
            \<and> (permanent_failure (is ! m) \<or> no_progress_loop (ri_attempts (is ! m)))
            \<longrightarrow> rt_route (rs ! m) \<in> {ESCALATE, STOP}))"
proof -
  let ?d = "\<lparr>dc_mode = mode, dc_replans = (\<lambda>_. 0), dc_sequence = 0\<rparr>"
  obtain rs d' where run: "decide_all is ?d = (rs, d')" by fastforce
  have base: "\<forall>r\<in>set (fst (decide_all is d)). rt_route r \<noteq> REPLAN" if "dc_mode d = Route_baseline" for d
    using that
  proof (induction "is" arbitrary: d)
    case (Cons i "is")
    have "rt_route (fst (decide_route i d)) \<noteq> REPLAN"
      using Cons.prems by (auto simp: decide_route_def Let_def decide_baseline_def make_decision_def)
    with Cons.IH[of "snd (decide_route i d)"] Cons.prems decide_route_replans(1)[of i d] show ?case
      by (simp add: split_beta Let_def)
  qed simp
  have ends: "rt_route (rs ! m) \<in> {ESCALATE, STOP}"
    if "mode = Route_v1" "k < m" "m < length is" "rt_route (rs ! k) = REPLAN"
      "route_signature (is ! m) = route_signature (is ! k)" "failure_stays (is ! m)" for k m
    using after_replan_all_end[of ?d k m "is"] that run by simp
  show ?thesis
    unfolding run Let_def prod.case
  proof (intro conjI impI allI ballI)
    show "replans_of s (zip is rs) \<le> 1" "map rt_id rs = map (\<lambda>n. ''route-'' @ nat_digits n) [1..<Suc (length is)]"
      using decide_all_replans [OF run, of s] by simp_all
    show "rt_route r \<noteq> REPLAN" if "mode = Route_baseline" "r \<in> set rs" for r
      using base[of ?d] that run by simp
  qed (rule ends; simp add: failure_stays_def)
qed

theorem at_most_one_replan_witness:
  "map rt_route (fst (decide_all [permanent_inputs, permanent_inputs] decider_v1)) = [REPLAN, ESCALATE]
   \<and> rt_route (fst (decide_all [permanent_inputs, permanent_inputs] decider_v1) ! 1) \<in> {ESCALATE, STOP}"
proof -
  let ?is = "[permanent_inputs, permanent_inputs]"
  let ?r = "decide_all ?is decider_v1"
  have m: "map rt_route (fst ?r) = [REPLAN, ESCALATE]"
    by (simp add: decide_route_def Let_def decide_retry_def replan_once_def make_decision_def permanent_failure_def
        permanent_inputs_def decider_v1_def route_signature_def)
  have len: "length (fst ?r) = 2" unfolding decide_all_length by simp
  have r0: "rt_route (fst ?r ! 0) = REPLAN" using m len by (metis list_update_id nth_Cons_0 nth_map zero_less_numeral)
  have f: "ri_proposed permanent_inputs \<notin> {''none'', []}" "permanent_failure permanent_inputs"
    by (simp_all add: permanent_inputs_def permanent_failure_def)
  have "\<forall>k m. k < m \<and> m < length ?is \<and> rt_route (fst ?r ! k) = REPLAN \<and> route_signature (?is ! m) = route_signature (?is ! k)
      \<and> ri_proposed (?is ! m) \<notin> {''none'', []} \<and> (permanent_failure (?is ! m) \<or> no_progress_loop (ri_attempts (?is ! m)))
      \<longrightarrow> rt_route (fst ?r ! m) \<in> {ESCALATE, STOP}"
    using at_most_one_replan[of ?is Route_v1] unfolding split_beta Let_def decider_v1_def[symmetric] by blast
  from this[THEN spec, of 0, THEN spec, of 1] r0 f show ?thesis using m by simp
qed

text \<open>
  The two modes differ only where the source says they do. When the failure is not permanent, there
  is no loop without progress, and no changed state answers a proposal without a transient basis, the
  full rule set and the baseline take the same route.
\<close>

theorem modes_differ_only_in_q3:
  assumes "\<not> permanent_failure i" "\<not> no_progress_loop (ri_attempts i)"
    and "ri_change i \<noteq> OBSERVED_CHANGE \<or> ri_transient i"
  shows "rt_route (fst (decide_route i (d\<lparr>dc_mode := Route_v1\<rparr>)))
    = rt_route (fst (decide_route i (d\<lparr>dc_mode := Route_baseline\<rparr>)))"
  using assms by (auto simp: decide_route_def decide_retry_def decide_baseline_def Let_def)

lemma modes_differ_only_in_q3_witness:
  "\<not> permanent_failure (permanent_inputs\<lparr>ri_retryable := ''UNKNOWN''\<rparr>)
    \<and> rt_route (fst (decide_route (permanent_inputs\<lparr>ri_retryable := ''UNKNOWN''\<rparr>) (decider_v1\<lparr>dc_mode := Route_v1\<rparr>)))
      = rt_route (fst (decide_route (permanent_inputs\<lparr>ri_retryable := ''UNKNOWN''\<rparr>) (decider_v1\<lparr>dc_mode := Route_baseline\<rparr>)))"
  using modes_differ_only_in_q3 [of "permanent_inputs\<lparr>ri_retryable := ''UNKNOWN''\<rparr>" decider_v1]
  by (simp add: permanent_inputs_def permanent_failure_def no_progress_loop_def)

definition no_transient_text :: string where
  "no_transient_text = ''repeated identical non-success outcomes with no new evidence and no transient basis - stop instead of looping''"

text \<open>
  The loop rule does not look at the transient basis. Two attempts with the same outcome stop a
  plain retry although a transient basis is recorded in the same decision, whose rationale says that
  there is none.
\<close>

theorem transient_loop_is_stopped:
  assumes "dc_mode d = Route_v1" "\<not> ri_terminal i" "ri_proposed i = ''retry''" "\<not> permanent_failure i"
    and "no_progress_loop (ri_attempts i)" "ri_transient i"
  shows "rt_route (fst (decide_route i d)) = STOP \<and> rt_reason (fst (decide_route i d)) = ''NO_PROGRESS_LOOP''
    \<and> rt_rationale (fst (decide_route i d)) = no_transient_text
    \<and> dict_get (rt_evidence (fst (decide_route i d))) ''transient_basis'' = PBool True"
  using assms by (simp add: decide_route_def decide_retry_def Let_def) (simp add: make_decision_def dict_get_def no_transient_text_def)

definition timeout_attempt :: attempt_evidence where
  "timeout_attempt =
     \<lparr>ae_step = 0, ae_result = ''r'', ae_state = ''s'', ae_exec = ''FAILED'', ae_ready = ''UNKNOWN'',
      ae_retryable = ''RETRYABLE'', ae_affects = True, ae_state_seen = False\<rparr>"

lemma transient_loop_is_stopped_witness:
  "ri_transient (permanent_inputs\<lparr>ri_retryable := ''RETRYABLE'', ri_transient := True, ri_attempts := [timeout_attempt, timeout_attempt]\<rparr>)
    \<and> rt_route (fst (decide_route (permanent_inputs\<lparr>ri_retryable := ''RETRYABLE'', ri_transient := True,
        ri_attempts := [timeout_attempt, timeout_attempt]\<rparr>) decider_v1)) = STOP"
  using transient_loop_is_stopped [of decider_v1 "permanent_inputs\<lparr>ri_retryable := ''RETRYABLE'', ri_transient := True,
        ri_attempts := [timeout_attempt, timeout_attempt]\<rparr>"]
  by (simp add: decider_v1_def permanent_inputs_def permanent_failure_def no_progress_loop_def timeout_attempt_def)

end
