(* ===== verification/ToolResult.thy ===== *)
theory ToolResult imports RecoveryRoute Capabilities begin

text \<open>
  The semantics of tools and of their results in phase 5 (the first half of
  \<open>src/lhas/phase5/execution_control.py\<close>): the registry that knows which tools have side effects, and
  the normalizer that reads a result on three axes.

  \<^item> A tool definition is a JSON value. The registry keeps what it inferred, so asking changes it.
  \<^item> \<open>Bad_spec\<close> is the \<open>AttributeError\<close> of a function-call spec that is not a mapping, \<open>Bad_keys\<close> the
    \<open>TypeError\<close> of readiness keys that are no sequence; key lists are taken to hold strings.
  \<^item> \<open>json.loads\<close> is the parameter \<open>loads\<close> (\<open>None\<close> for its decode error). Arguments and results are JSON
    values, so \<open>default=str\<close> never applies.
\<close>

section \<open>Axes\<close>

datatype tool_exec = Exec_SUCCEEDED | Exec_FAILED | Exec_UNKNOWN

fun tool_exec_value :: "tool_exec \<Rightarrow> string" where
  "tool_exec_value Exec_SUCCEEDED = ''SUCCEEDED''"
| "tool_exec_value Exec_FAILED = ''FAILED''"
| "tool_exec_value Exec_UNKNOWN = ''UNKNOWN''"

datatype tool_ready = Ready_READY | Ready_NOT_READY | Ready_UNKNOWN | Ready_NO_EVIDENCE

fun tool_ready_value :: "tool_ready \<Rightarrow> string" where
  "tool_ready_value Ready_READY = ''READY''"
| "tool_ready_value Ready_NOT_READY = ''NOT_READY''"
| "tool_ready_value Ready_UNKNOWN = ''UNKNOWN''"
| "tool_ready_value Ready_NO_EVIDENCE = ''NO_EVIDENCE''"

datatype retryability = Retry_RETRYABLE | Retry_NOT_RETRYABLE | Retry_UNKNOWN

fun retryability_value :: "retryability \<Rightarrow> string" where
  "retryability_value Retry_RETRYABLE = ''RETRYABLE''"
| "retryability_value Retry_NOT_RETRYABLE = ''NOT_RETRYABLE''"
| "retryability_value Retry_UNKNOWN = ''UNKNOWN''"

definition success_words :: "string list" where
  "success_words = [''success'', ''ok'', ''okay'', ''completed'', ''complete'', ''succeeded'', ''confirmed'', ''done'']"

definition failure_words :: "string list" where
  "failure_words =
     [''error'', ''failure'', ''failed'', ''fail'', ''exception'', ''rejected'', ''denied'', ''invalid'']"

definition transient_words :: "string list" where
  "transient_words =
     [''transient'', ''transient_error'', ''timeout'', ''timed_out'', ''rate_limited'', ''throttled'', ''busy'',
      ''unavailable'', ''temporarily_unavailable'', ''retryable'']"

definition permanent_error_types :: "string list" where
  "permanent_error_types =
     [''permanent'', ''fatal'', ''invalid'', ''not_found'', ''forbidden'', ''unauthorized'', ''validation'',
      ''bad_request'', ''conflict'', ''not_retryable'']"

definition transient_error_types :: "string list" where
  "transient_error_types =
     [''transient'', ''timeout'', ''rate_limited'', ''throttled'', ''busy'', ''unavailable'', ''connection_error'',
      ''temporarily_unavailable'']"

definition confirmation_words :: "string list" where
  "confirmation_words = [''confirmed'', ''confirmation'', ''accepted_receipt'']"

definition short_digest :: "(string \<Rightarrow> string) \<Rightarrow> pyval \<Rightarrow> string" where
  "short_digest sha v = take 16 (stable_hash sha v)"

fun canonical_arguments :: "(string \<Rightarrow> pyval option) \<Rightarrow> pyval \<Rightarrow> pydict" where
  "canonical_arguments loads (PDict d) = d"
| "canonical_arguments loads (PStr s) =
     (case loads s of
        Some (PDict d) \<Rightarrow> d
      | _ \<Rightarrow> [(''_raw_arguments'', PStr s)])"
| "canonical_arguments loads v = [(''_raw_arguments'', PStr (py_str v))]"

section \<open>Tool semantics\<close>

definition commit_verbs :: "string list" where
  "commit_verbs =
     [''confirm'', ''submit'', ''execute'', ''commit'', ''pay'', ''purchase'', ''order'', ''place'', ''book'',
      ''reserve'', ''checkout'', ''finalize'', ''send'', ''dispatch'', ''transmit'', ''apply'', ''enroll'',
      ''register'', ''approve'', ''authorize'']"

definition write_verbs :: "string list" where
  "write_verbs =
     [''create'', ''hold'', ''update'', ''delete'', ''cancel'', ''add'', ''modify'', ''write'', ''insert'', ''remove'',
      ''set'', ''upload'', ''rename'', ''append'', ''put'', ''move'', ''copy'', ''store'', ''save'', ''release'',
      ''allocate'', ''assign'', ''clear'']"

record tool_semantics =
  tm_name :: string
  tm_read_only :: bool
  tm_side_effect :: bool
  tm_commit :: bool
  tm_idempotent :: bool
  tm_provides :: bool
  tm_readiness :: "string list"
  tm_requires :: "string list"

definition tool_dependent :: "tool_semantics \<Rightarrow> bool" where
  "tool_dependent s \<longleftrightarrow> tm_commit s \<or> tm_requires s \<noteq> []"

datatype semantics_error = Bad_spec | Bad_keys

text \<open>\<open>tuple(v)\<close> of a value that lists keys.\<close>

fun key_tuple :: "pyval \<Rightarrow> semantics_error + string list" where
  "key_tuple (PList vs) = (if list_all (\<lambda>v. as_str v \<noteq> None) vs then Inr (map (\<lambda>v. the (as_str v)) vs) else Inl Bad_keys)"
| "key_tuple (PStr s) = Inr (map (\<lambda>c. [c]) s)"
| "key_tuple (PDict d) = Inr (map fst d)"
| "key_tuple _ = Inl Bad_keys"

definition name_verb :: "string \<Rightarrow> string" where
  "name_verb name = casefold (takeWhile (\<lambda>c. c \<noteq> CHR ''_'') name)"

definition infer_explicit :: "string \<Rightarrow> pydict \<Rightarrow> semantics_error + tool_semantics" where
  "infer_explicit name d =
     (let verb = name_verb name;
          writes = (verb \<in> set write_verbs); commits = (verb \<in> set commit_verbs);
          flag = (\<lambda>k dflt. py_truthy (dict_get_or d k (PBool dflt)))
      in case (key_tuple (dict_get_or d ''readiness_keys'' (PList [])),
               key_tuple (dict_get_or d ''requires_readiness'' (PList []))) of
           (Inr readiness, Inr requires) \<Rightarrow>
             Inr \<lparr>tm_name = name, tm_read_only = flag ''read_only'' (\<not> writes \<and> \<not> commits),
                  tm_side_effect = flag ''side_effect'' (writes \<or> commits), tm_commit = flag ''commit'' commits,
                  tm_idempotent = flag ''idempotent'' (\<not> writes \<and> \<not> commits),
                  tm_provides = flag ''provides_readiness'' (\<not> commits), tm_readiness = readiness,
                  tm_requires = requires\<rparr>
         | _ \<Rightarrow> Inl Bad_keys)"

definition infer_hints :: "string \<Rightarrow> pydict \<Rightarrow> tool_semantics" where
  "infer_hints name annotations =
     (let verb = name_verb name;
          commits = (verb \<in> set commit_verbs);
          side0 = (commits \<or> verb \<in> set write_verbs);
          read_only = (case map_of annotations ''readOnlyHint'' of Some v \<Rightarrow> py_truthy v | None \<Rightarrow> \<not> side0);
          side = (if has_key annotations ''readOnlyHint'' then \<not> read_only else side0);
          idempotent = (case map_of annotations ''idempotentHint'' of Some v \<Rightarrow> py_truthy v | None \<Rightarrow> \<not> side)
      in \<lparr>tm_name = name, tm_read_only = read_only, tm_side_effect = side, tm_commit = commits,
          tm_idempotent = idempotent, tm_provides = \<not> commits, tm_readiness = [], tm_requires = []\<rparr>)"

definition infer_semantics :: "string \<Rightarrow> pyval \<Rightarrow> semantics_error + tool_semantics" where
  "infer_semantics name definition_value =
     (let d = (case as_dict definition_value of Some d \<Rightarrow> d | None \<Rightarrow> []);
          explicit = (case as_dict (dict_get d ''odys_semantics'') of Some e \<Rightarrow> e | None \<Rightarrow> []);
          annotations = (case as_dict (dict_get d ''annotations'') of Some a \<Rightarrow> a | None \<Rightarrow> [])
      in if explicit \<noteq> [] then infer_explicit name explicit else Inr (infer_hints name annotations))"

text \<open>
  \<open>definition["paradigms"]["function_call"]["spec"]\<close>, where a missing key and a value that has no keys are
  caught; then the \<open>get\<close> on the spec, where a value that is no mapping is not.
\<close>

fun py_item :: "pyval \<Rightarrow> string \<Rightarrow> pyval option" where
  "py_item (PDict d) k = map_of d k"
| "py_item _ k = None"

definition definition_name :: "pyval \<Rightarrow> semantics_error + string option" where
  "definition_name v =
     (case as_dict v of
        None \<Rightarrow> Inr None
      | Some d \<Rightarrow>
          (case as_str (dict_get d ''name'') of
             Some (c # cs) \<Rightarrow> Inr (Some (c # cs))
           | _ \<Rightarrow>
               (case Option.bind (Option.bind (py_item v ''paradigms'') (\<lambda>p. py_item p ''function_call''))
                       (\<lambda>f. py_item f ''spec'') of
                  None \<Rightarrow> Inr None
                | Some spec \<Rightarrow>
                    (case as_dict spec of
                       None \<Rightarrow> Inl Bad_spec
                     | Some sd \<Rightarrow>
                         (case as_str (dict_get sd ''name'') of
                            Some (c # cs) \<Rightarrow> Inr (Some (c # cs))
                          | _ \<Rightarrow> Inr None)))))"

type_synonym tool_registry = "string \<Rightarrow> tool_semantics option"

definition registry_register :: "tool_semantics \<Rightarrow> tool_registry \<Rightarrow> tool_registry" where
  "registry_register s reg = reg(tm_name s \<mapsto> s)"

fun register_from_definitions :: "pyval list \<Rightarrow> tool_registry \<Rightarrow> semantics_error option \<times> tool_registry" where
  "register_from_definitions [] reg = (None, reg)"
| "register_from_definitions (v # vs) reg =
     (case definition_name v of
        Inl e \<Rightarrow> (Some e, reg)
      | Inr None \<Rightarrow> register_from_definitions vs reg
      | Inr (Some name) \<Rightarrow>
          (case reg name of
             Some s \<Rightarrow> register_from_definitions vs reg
           | None \<Rightarrow>
               (case infer_semantics name v of
                  Inl e \<Rightarrow> (Some e, reg)
                | Inr s \<Rightarrow> register_from_definitions vs (reg(name \<mapsto> s)))))"

text \<open>\<open>get\<close>: a tool nobody registered is judged by its name, and the judgement is kept.\<close>

definition semantics_of :: "tool_registry \<Rightarrow> string \<Rightarrow> tool_semantics" where
  "semantics_of reg name = (case reg name of Some s \<Rightarrow> s | None \<Rightarrow> infer_hints name [])"

definition registry_get :: "string \<Rightarrow> tool_registry \<Rightarrow> tool_semantics \<times> tool_registry" where
  "registry_get name reg = (semantics_of reg name, reg(name \<mapsto> semantics_of reg name))"

lemma infer_without_definition: "infer_semantics name PNone = Inr (infer_hints name [])"
  by (simp add: infer_semantics_def Let_def dict_get_def)

lemma registry_get_stable [simp]: "semantics_of (snd (registry_get name reg)) = semantics_of reg"
  by (rule ext) (auto simp: registry_get_def semantics_of_def split: option.splits)

section \<open>The normalizer\<close>

record normalized_result =
  nr_raw :: pydict
  nr_exec :: tool_exec
  nr_ready :: tool_ready
  nr_retryable :: retryability
  nr_evidence :: "string list"
  nr_values :: pydict
  nr_confirmation :: bool
  nr_transient :: bool
  nr_arguments :: string
  nr_result :: string
  nr_source :: string
  nr_state_seen :: bool

definition nr_is_success :: "normalized_result \<Rightarrow> bool" where
  "nr_is_success n \<longleftrightarrow> nr_exec n = Exec_SUCCEEDED"

definition nr_affects :: "normalized_result \<Rightarrow> bool" where
  "nr_affects n =
     (if nr_ready n = Ready_READY then False
      else if nr_exec n = Exec_FAILED then True
      else if nr_ready n = Ready_NOT_READY \<or> nr_ready n = Ready_UNKNOWN then True
      else nr_exec n = Exec_UNKNOWN)"

definition raw_word :: "pydict \<Rightarrow> string \<Rightarrow> string" where
  "raw_word raw k = casefold (strip (py_str (dict_get_or raw k (PStr []))))"

definition exec_status :: "pydict \<Rightarrow> tool_exec \<times> string" where
  "exec_status raw =
     (let status = raw_word raw ''status'' in
      if py_truthy (dict_get raw ''error'') then (Exec_FAILED, ''error_key'')
      else if status \<in> set failure_words then (Exec_FAILED, ''status:'' @ status)
      else if status \<in> set transient_words then (Exec_FAILED, ''status:'' @ status)
      else if status \<in> set success_words then (Exec_SUCCEEDED, ''status:'' @ status)
      else if dict_get raw ''success'' = PBool True then (Exec_SUCCEEDED, ''success_key'')
      else if dict_get raw ''success'' = PBool False then (Exec_FAILED, ''success_key'')
      else (Exec_UNKNOWN, ''none''))"

definition readiness_key :: "string \<times> pyval \<Rightarrow> bool" where
  "readiness_key p \<longleftrightarrow> fst p = ''ready'' \<or>
     (suffix ''_ready'' (fst p) \<and> (case snd p of PBool _ \<Rightarrow> True | PNone \<Rightarrow> True | _ \<Rightarrow> False))"

definition ready_status :: "pydict \<Rightarrow> tool_semantics \<Rightarrow> tool_ready \<times> string list \<times> pydict" where
  "ready_status raw s =
     (let keys = (if tm_readiness s \<noteq> [] then tm_readiness s else map fst (filter readiness_key raw)) in
      if keys = [] then (Ready_NO_EVIDENCE, [], [])
      else (let values = dict_of (map (\<lambda>k. (k, dict_get raw k)) keys);
                concrete = map (dict_get raw) keys
            in if \<not> tm_provides s then (Ready_NO_EVIDENCE, keys, values)
               else if PBool False \<in> set concrete then (Ready_NOT_READY, keys, values)
               else if PNone \<in> set concrete then (Ready_UNKNOWN, keys, values)
               else if set concrete \<subseteq> {PBool True} then (Ready_READY, keys, values)
               else (Ready_UNKNOWN, keys, values)))"

definition error_type_word :: "pydict \<Rightarrow> string" where
  "error_type_word raw =
     (let direct = (case dict_get raw ''error'' of
          PDict e \<Rightarrow> casefold (strip (py_str (py_or (dict_get_or e ''type'' (PStr [])) (dict_get_or e ''error_type'' (PStr [])))))
        | PStr e \<Rightarrow> casefold (strip e)
        | _ \<Rightarrow> [])
      in if direct \<noteq> [] then direct else raw_word raw ''error_type'')"

definition retryability_of :: "pydict \<Rightarrow> tool_exec \<Rightarrow> retryability \<times> bool" where
  "retryability_of raw ex =
     (if ex = Exec_SUCCEEDED then (Retry_NOT_RETRYABLE, False)
      else if dict_get raw ''retryable'' = PBool True \<or> dict_get raw ''transient'' = PBool True then (Retry_RETRYABLE, True)
      else if dict_get raw ''retryable'' = PBool False \<or> dict_get raw ''transient'' = PBool False
        then (Retry_NOT_RETRYABLE, False)
      else if raw_word raw ''status'' \<in> set transient_words then (Retry_RETRYABLE, True)
      else if error_type_word raw \<in> set transient_error_types then (Retry_RETRYABLE, True)
      else if error_type_word raw \<in> set permanent_error_types then (Retry_NOT_RETRYABLE, False)
      else (Retry_UNKNOWN, False))"

definition raw_result :: "pyval \<Rightarrow> pydict" where
  "raw_result v = (case as_dict v of Some d \<Rightarrow> d | None \<Rightarrow> [(''raw'', PStr (py_str v))])"

definition normalize ::
  "(string \<Rightarrow> string) \<Rightarrow> (string \<Rightarrow> pyval option) \<Rightarrow> string \<Rightarrow> pyval \<Rightarrow> pyval \<Rightarrow> tool_registry
    \<Rightarrow> normalized_result \<times> tool_registry" where
  "normalize sha loads tool result arguments reg =
     (let (s, reg') = registry_get tool reg; raw = raw_result result;
          (ex, source) = exec_status raw; (ready, evidence, values) = ready_status raw s;
          (retry, transient) = retryability_of raw ex
      in (\<lparr>nr_raw = raw, nr_exec = ex, nr_ready = ready, nr_retryable = retry, nr_evidence = evidence,
           nr_values = values,
           nr_confirmation = casefold (py_str (dict_get_or raw ''status'' (PStr []))) \<in> set confirmation_words,
           nr_transient = transient,
           nr_arguments = short_digest sha (PDict (canonical_arguments loads arguments)),
           nr_result = short_digest sha (PDict raw), nr_source = source,
           nr_state_seen = (evidence \<noteq> [] \<or> has_key raw ''status'')\<rparr>, reg'))"

text \<open>What the normalizer promises about every result it reads.\<close>

lemma normalize_registry [simp]: "snd (normalize sha loads tool result arguments reg) = snd (registry_get tool reg)"
  by (simp add: normalize_def Let_def split: prod.splits)

lemma normalize_arguments [simp]:
  "nr_arguments (fst (normalize sha loads tool result arguments reg)) = short_digest sha (PDict (canonical_arguments loads arguments))"
  by (simp add: normalize_def Let_def split: prod.splits)

lemma normalize_axes:
  "nr_exec (fst (normalize sha loads tool result arguments reg)) = fst (exec_status (raw_result result))"
  "nr_ready (fst (normalize sha loads tool result arguments reg)) = fst (ready_status (raw_result result) (semantics_of reg tool))"
  "(nr_retryable (fst (normalize sha loads tool result arguments reg)), nr_transient (fst (normalize sha loads tool result arguments reg)))
     = retryability_of (raw_result result) (fst (exec_status (raw_result result)))"
  by (simp_all add: normalize_def registry_get_def Let_def split: prod.splits)

lemma transient_is_retryable:
  "nr_transient (fst (normalize sha loads tool result arguments reg)) \<longleftrightarrow>
     nr_retryable (fst (normalize sha loads tool result arguments reg)) = Retry_RETRYABLE"
proof -
  have "snd (retryability_of raw ex) \<longleftrightarrow> fst (retryability_of raw ex) = Retry_RETRYABLE" for raw ex
    by (simp add: retryability_of_def)
  then show ?thesis using normalize_axes(3) by (metis fst_conv snd_conv)
qed

text \<open>
  Missing evidence is never read as success or as readiness. A result counts as succeeded only when it
  says so itself, by a success word in its status or by \<open>success: true\<close>, and carries no error; it counts as
  ready only when the tool's receipts can show readiness and every key asked for is true; and a result
  that is neither ready nor succeeded gates the calls after it.
\<close>

theorem evidence_is_never_defaulted:
  "let n = fst (normalize sha loads tool result arguments reg); raw = raw_result result in
     (nr_exec n = Exec_SUCCEEDED \<longrightarrow> \<not> py_truthy (dict_get raw ''error'')
        \<and> (raw_word raw ''status'' \<in> set success_words \<or> dict_get raw ''success'' = PBool True))
     \<and> (nr_ready n = Ready_READY \<longrightarrow> tm_provides (semantics_of reg tool) \<and> nr_evidence n \<noteq> []
        \<and> (\<forall>k\<in>set (nr_evidence n). map_of raw k = Some (PBool True)))
     \<and> (nr_exec n \<noteq> Exec_SUCCEEDED \<and> nr_ready n \<noteq> Ready_READY \<longrightarrow> nr_affects n)"
proof -
  let ?n = "fst (normalize sha loads tool result arguments reg)"
  have ev: "nr_evidence ?n = fst (snd (ready_status (raw_result result) (semantics_of reg tool)))"
    by (simp add: normalize_def registry_get_def Let_def split: prod.splits)
  have get: "dict_get d k = PBool True \<longleftrightarrow> map_of d k = Some (PBool True)" for d k
    by (simp add: dict_get_def split: option.splits)
  have ready: "fst (ready_status raw s) = Ready_READY \<Longrightarrow> tm_provides s \<and> fst (snd (ready_status raw s)) \<noteq> []
      \<and> (\<forall>k\<in>set (fst (snd (ready_status raw s))). map_of raw k = Some (PBool True))" for raw s
    unfolding ready_status_def Let_def by (auto simp: get [symmetric] split: if_splits)
  have ex: "fst (exec_status raw) = Exec_SUCCEEDED \<Longrightarrow> \<not> py_truthy (dict_get raw ''error'')
      \<and> (raw_word raw ''status'' \<in> set success_words \<or> dict_get raw ''success'' = PBool True)" for raw
    unfolding exec_status_def Let_def by (auto split: if_splits)
  have "nr_exec ?n \<noteq> Exec_SUCCEEDED \<Longrightarrow> nr_ready ?n \<noteq> Ready_READY \<Longrightarrow> nr_affects ?n"
    by (cases "nr_exec ?n") (auto simp: nr_affects_def)
  then show ?thesis unfolding Let_def using ready ex by (simp add: ev normalize_axes)
qed

lemma evidence_is_never_defaulted_witness:
  "nr_exec (fst (normalize (\<lambda>s. s) (\<lambda>_. None) ''hold'' (PDict [(''status'', PStr ''ok''), (''slot_ready'', PBool True)]) PNone (\<lambda>_. None))) = Exec_SUCCEEDED
    \<and> \<not> py_truthy (dict_get [(''status'', PStr ''ok''), (''slot_ready'', PBool True)] ''error'')"
proof -
  have "nr_exec (fst (normalize (\<lambda>s. s) (\<lambda>_. None) ''hold'' (PDict [(''status'', PStr ''ok''), (''slot_ready'', PBool True)]) PNone (\<lambda>_. None))) = Exec_SUCCEEDED"
    by (simp add: normalize_axes raw_result_def exec_status_def Let_def raw_word_def dict_get_def dict_get_or_def
        strip_def is_space_def casefold_def lower_char_def failure_words_def transient_words_def success_words_def)
  then show ?thesis
    using evidence_is_never_defaulted [of "\<lambda>s. s" "\<lambda>_. None" "''hold''"
        "PDict [(''status'', PStr ''ok''), (''slot_ready'', PBool True)]" PNone "\<lambda>_. None"]
    by (simp add: Let_def raw_result_def)
qed

end
