(* ===== verification/AuthGate.thy ===== *)
theory AuthGate imports ToolResult begin

text \<open>
  The execution authorization gate of phase 5 (the second half of \<open>src/lhas/phase5/execution_control.py\<close>):
  it judges every proposed tool call before it runs, records what was executed, and keeps its state
  across the turns of a model.

  \<^item> \<open>gate_observe\<close>, \<open>gate_propose\<close>, \<open>authorize_call\<close> (rules R0 to R3), \<open>is_retry_justified\<close> and \<open>mark_terminal\<close>
    are the methods of that name. Every field of an event that is \<open>None\<close> is left out of it.
  \<^item> \<open>gate_call\<close> is the discipline of the agent adapter for one held call: propose it, run it only when it
    is authorized, record the result, and stop the gate when the refusal is terminal. The result is
    an argument, as the environment gives it. \<open>run_gate\<close> is a history of such steps.
  \<^item> The dashes of the reasons are written \<open>-\<close>.
\<close>

section \<open>State\<close>

record authorization =
  az_authorized :: bool
  az_rule :: string
  az_reason :: string
  az_terminal :: bool

record attempt_record =
  aw_step :: int
  aw_arguments :: string
  aw_result :: string
  aw_state :: string
  aw_exec :: tool_exec
  aw_ready :: tool_ready
  aw_retryable :: retryability
  aw_grants :: bool
  aw_normalized :: normalized_result
  aw_affects :: bool
  aw_state_seen :: bool

definition as_evidence :: "attempt_record \<Rightarrow> attempt_evidence" where
  "as_evidence a =
     \<lparr>ae_step = aw_step a, ae_result = aw_result a, ae_state = aw_state a, ae_exec = tool_exec_value (aw_exec a),
      ae_ready = tool_ready_value (aw_ready a), ae_retryable = retryability_value (aw_retryable a),
      ae_affects = aw_affects a, ae_state_seen = aw_state_seen a\<rparr>"

datatype control_kind = Control_PROPOSED | Control_AUTHORIZED | Control_EXECUTED | Control_OBSERVED | Control_BLOCKED
  | Control_RECOVERY | Control_ESCALATION

fun control_kind_value :: "control_kind \<Rightarrow> string" where
  "control_kind_value Control_PROPOSED = ''PROPOSED''"
| "control_kind_value Control_AUTHORIZED = ''AUTHORIZED''"
| "control_kind_value Control_EXECUTED = ''EXECUTED''"
| "control_kind_value Control_OBSERVED = ''OBSERVED''"
| "control_kind_value Control_BLOCKED = ''BLOCKED''"
| "control_kind_value Control_RECOVERY = ''RECOVERY''"
| "control_kind_value Control_ESCALATION = ''ESCALATION''"

record auth_gate =
  ag_registry :: tool_registry
  ag_events :: "pydict list"
  ag_attempts :: "string \<Rightarrow> attempt_record list"
  ag_conditions :: "(string \<times> string) list"
  ag_unsafe :: bool
  ag_terminal :: bool
  ag_reason :: string
  ag_sequence :: nat
  ag_run :: "string option"
  ag_trial :: "string option"

definition auth_gate_new :: "tool_registry \<Rightarrow> auth_gate" where
  "auth_gate_new reg =
     \<lparr>ag_registry = reg, ag_events = [], ag_attempts = (\<lambda>_. []), ag_conditions = [], ag_unsafe = False,
      ag_terminal = False, ag_reason = [], ag_sequence = 0, ag_run = None, ag_trial = None\<rparr>"

definition bind_identity :: "string \<Rightarrow> string \<Rightarrow> auth_gate \<Rightarrow> auth_gate" where
  "bind_identity run trial g = g\<lparr>ag_run := Some run, ag_trial := Some trial\<rparr>"

definition gate_reset :: "auth_gate \<Rightarrow> auth_gate" where
  "gate_reset g = g\<lparr>ag_events := [], ag_attempts := (\<lambda>_. []), ag_conditions := [], ag_unsafe := False,
     ag_terminal := False, ag_reason := [], ag_sequence := 0\<rparr>"

definition bind_tool_definitions :: "pyval list \<Rightarrow> auth_gate \<Rightarrow> semantics_error option \<times> auth_gate" where
  "bind_tool_definitions vs g =
     (let (e, reg) = register_from_definitions vs (ag_registry g) in (e, g\<lparr>ag_registry := reg\<rparr>))"

definition begin_batch :: "auth_gate \<Rightarrow> auth_gate" where
  "begin_batch g = g\<lparr>ag_unsafe := False\<rparr>"

section \<open>Events\<close>

definition record_event :: "control_kind \<Rightarrow> pydict \<Rightarrow> auth_gate \<Rightarrow> auth_gate" where
  "record_event kind extra g =
     (let n = Suc (ag_sequence g);
          base = [(''event_id'', PInt (int n)), (''kind'', PStr (control_kind_value kind)),
                  (''event_schema_version'', PStr ''phase5-control-events-v2''),
                  (''execution_control_version'', PStr ''execution-control-v1'')]
            @ (case ag_run g of Some r \<Rightarrow> [(''run_id'', PStr r)] | None \<Rightarrow> [])
            @ (case ag_trial g of Some t \<Rightarrow> [(''trial_id'', PStr t)] | None \<Rightarrow> [])
      in g\<lparr>ag_sequence := n, ag_events := ag_events g @ [dict_merge base (filter (\<lambda>p. snd p \<noteq> PNone) extra)]\<rparr>)"

record gate_request =
  gq_step :: int
  gq_tool :: string
  gq_arguments :: pyval
  gq_call :: "string option"
  gq_provider :: "string option"
  gq_origin :: string
  gq_index :: int

definition call_fields :: "gate_request \<Rightarrow> pydict" where
  "call_fields q =
     [(''step'', PInt (gq_step q)), (''tool_name'', PStr (gq_tool q)), (''tool_call_id'', opt_str (gq_call q)),
      (''provider_tool_call_id'', opt_str (gq_provider q))]"

definition origin_fields :: "gate_request \<Rightarrow> pydict" where
  "origin_fields q = [(''origin'', PStr (gq_origin q)), (''batch_index'', PInt (gq_index q))]"

section \<open>Observation\<close>

definition attempt_key :: "string \<Rightarrow> string \<Rightarrow> string" where
  "attempt_key tool digest = tool @ ''::'' @ digest"

definition request_digest :: "(string \<Rightarrow> string) \<Rightarrow> (string \<Rightarrow> pyval option) \<Rightarrow> gate_request \<Rightarrow> string" where
  "request_digest sha loads q = short_digest sha (PDict (canonical_arguments loads (gq_arguments q)))"

definition gate_state_digest :: "(string \<Rightarrow> string) \<Rightarrow> auth_gate \<Rightarrow> string" where
  "gate_state_digest sha g = short_digest sha
     (PDict [(''conditions'', PList (map (\<lambda>(k, v). PList [PStr k, PStr v]) (sort_key fst (ag_conditions g)))),
             (''batch_unsafe'', PBool (ag_unsafe g))])"

definition update_condition :: "string \<times> pyval \<Rightarrow> (string \<times> string) list \<Rightarrow> (string \<times> string) list" where
  "update_condition p cs =
     (if snd p = PBool True then AList.delete (fst p) cs
      else if snd p = PBool False then AList.update (fst p) ''NOT_READY'' cs
      else if map_of cs (fst p) = None then AList.update (fst p) ''DECLARED_UNKNOWN'' cs
      else cs)"

definition update_conditions :: "normalized_result \<Rightarrow> (string \<times> string) list \<Rightarrow> (string \<times> string) list" where
  "update_conditions n cs =
     (if nr_evidence n = [] \<or> nr_ready n = Ready_NO_EVIDENCE then cs else fold update_condition (nr_values n) cs)"

definition receipt_grants_repeat :: "normalized_result \<Rightarrow> bool" where
  "receipt_grants_repeat n \<longleftrightarrow> dict_get (nr_raw n) ''idempotent'' = PBool True \<or> has_key (nr_raw n) ''idempotency_key''"

definition make_attempt :: "int \<Rightarrow> string \<Rightarrow> normalized_result \<Rightarrow> attempt_record" where
  "make_attempt step state n =
     \<lparr>aw_step = step, aw_arguments = nr_arguments n, aw_result = nr_result n, aw_state = state, aw_exec = nr_exec n,
      aw_ready = nr_ready n, aw_retryable = nr_retryable n, aw_grants = receipt_grants_repeat n,
      aw_normalized = n, aw_affects = nr_affects n, aw_state_seen = nr_state_seen n\<rparr>"

definition executed_fields :: "normalized_result \<Rightarrow> pydict" where
  "executed_fields n = [(''arguments_digest'', PStr (nr_arguments n))]"

definition observed_fields :: "string \<Rightarrow> normalized_result \<Rightarrow> pydict" where
  "observed_fields state n =
     [(''exec_status'', PStr (tool_exec_value (nr_exec n))), (''ready_status'', PStr (tool_ready_value (nr_ready n))),
      (''retryable'', PStr (retryability_value (nr_retryable n))), (''result_digest'', PStr (nr_result n)),
      (''arguments_digest'', PStr (nr_arguments n)), (''state_digest'', PStr state),
      (''confirmation_receipt'', PBool (nr_confirmation n)), (''readiness_evidence'', str_list (nr_evidence n)),
      (''status_source'', PStr (nr_source n))]"

definition gate_observe ::
  "(string \<Rightarrow> string) \<Rightarrow> (string \<Rightarrow> pyval option) \<Rightarrow> gate_request \<Rightarrow> pyval \<Rightarrow> auth_gate
    \<Rightarrow> normalized_result \<times> auth_gate" where
  "gate_observe sha loads q result g =
     (let (n, reg) = normalize sha loads (gq_tool q) result (gq_arguments q) (ag_registry g);
          g1 = g\<lparr>ag_registry := reg, ag_conditions := update_conditions n (ag_conditions g),
                 ag_unsafe := (ag_unsafe g \<or> nr_affects n)\<rparr>;
          state = gate_state_digest sha g1;
          key = attempt_key (gq_tool q) (nr_arguments n);
          g2 = g1\<lparr>ag_attempts := (ag_attempts g1)(key := ag_attempts g1 key @ [make_attempt (gq_step q) state n])\<rparr>;
          g3 = record_event Control_EXECUTED (call_fields q @ executed_fields n) g2
      in (n, record_event Control_OBSERVED (call_fields q @ observed_fields state n) g3))"

section \<open>Authorization\<close>

definition allow :: authorization where
  "allow = \<lparr>az_authorized = True, az_rule = ''ALLOW'', az_reason = ''authorized by execution control gate'', az_terminal = False\<rparr>"

definition block_call :: "string \<Rightarrow> string \<Rightarrow> bool \<Rightarrow> authorization" where
  "block_call rule reason final = \<lparr>az_authorized = False, az_rule = rule, az_reason = reason, az_terminal = final\<rparr>"

definition permanent_attempt :: "attempt_record \<Rightarrow> bool" where
  "permanent_attempt a \<longleftrightarrow> aw_exec a = Exec_FAILED \<and> aw_retryable a = Retry_NOT_RETRYABLE"

text \<open>The last two attempts had the same non-success outcome in the same state.\<close>

definition stalled_attempts :: "attempt_record list \<Rightarrow> bool" where
  "stalled_attempts as =
     (case last_two as of
        None \<Rightarrow> False
      | Some (p, l) \<Rightarrow> aw_result l = aw_result p \<and> aw_state l = aw_state p \<and> aw_affects l)"

definition change_word :: "attempt_record list \<Rightarrow> string" where
  "change_word as = state_change_value (fst (evaluate_state_change (map as_evidence as)))"

definition unrepeatable :: "tool_semantics \<Rightarrow> attempt_record \<Rightarrow> bool" where
  "unrepeatable s a \<longleftrightarrow> tm_side_effect s \<and> aw_exec a = Exec_SUCCEEDED \<and> \<not> tm_idempotent s \<and> \<not> aw_grants a"

definition evaluate_repeat :: "tool_semantics \<Rightarrow> attempt_record list \<Rightarrow> authorization option" where
  "evaluate_repeat s as =
     (if as = [] then None
      else if permanent_attempt (last as) then Some (block_call ''NO_PROGRESS_RETRY''
        ''previous identical call failed NOT_RETRYABLE - no-progress retry rejected'' True)
      else if stalled_attempts as \<and> \<not> nr_transient (aw_normalized (last as)) then Some (block_call ''NO_PROGRESS_RETRY''
        (''identical arguments produced identical non-success results with no new evidence (state_change=''
          @ change_word as @ '') - no-progress retry rejected'') True)
      else if unrepeatable s (last as) then Some (block_call ''SIDE_EFFECT_REPEAT_NOT_IDEMPOTENT''
        ''identical side-effect call already succeeded and the tool is not declared idempotent - repeat blocked'' False)
      else None)"

definition authorize_call :: "tool_semantics \<Rightarrow> gate_request \<Rightarrow> string \<Rightarrow> auth_gate \<Rightarrow> authorization" where
  "authorize_call s q digest g =
     (if ag_terminal g then block_call ''TERMINAL_CONTROL_STATE'' (''control gate already stopped: '' @ ag_reason g) True
      else if tool_dependent s \<and> ag_conditions g \<noteq> [] then block_call ''DEPENDENCY_PRECONDITION_UNRESOLVED''
        (''unresolved readiness conditions '' @ py_repr (str_list (sort (map fst (ag_conditions g)))) @ '' block dependent call'') False
      else if tool_dependent s \<and> ag_unsafe g \<and> gq_origin q = ''model_batch'' then block_call ''DEPENDENCY_PRECONDITION_UNRESOLVED''
        ''a preceding call in this batch failed or returned not-ready/unknown'' False
      else (case evaluate_repeat s (ag_attempts g (attempt_key (gq_tool q) digest)) of
          Some r \<Rightarrow> r
        | None \<Rightarrow> allow))"

definition decision_fields :: "authorization \<Rightarrow> pydict" where
  "decision_fields a = [(''rule'', PStr (az_rule a)), (''reason'', PStr (az_reason a)), (''terminal'', PBool (az_terminal a))]"

definition gate_propose ::
  "(string \<Rightarrow> string) \<Rightarrow> (string \<Rightarrow> pyval option) \<Rightarrow> gate_request \<Rightarrow> auth_gate \<Rightarrow> authorization \<times> auth_gate" where
  "gate_propose sha loads q g =
     (let (s, reg) = registry_get (gq_tool q) (ag_registry g);
          digest = request_digest sha loads q;
          g1 = record_event Control_PROPOSED (call_fields q @ origin_fields q @ [(''arguments_digest'', PStr digest)])
                 (g\<lparr>ag_registry := reg\<rparr>);
          a = authorize_call s q digest g1
      in (a, record_event (if az_authorized a then Control_AUTHORIZED else Control_BLOCKED)
               (call_fields q @ origin_fields q @ decision_fields a) g1))"

definition justified :: "string \<Rightarrow> authorization" where
  "justified reason = \<lparr>az_authorized = True, az_rule = ''RETRY_JUSTIFIED'', az_reason = reason, az_terminal = False\<rparr>"

definition is_retry_justified ::
  "(string \<Rightarrow> string) \<Rightarrow> (string \<Rightarrow> pyval option) \<Rightarrow> gate_request \<Rightarrow> auth_gate \<Rightarrow> authorization \<times> auth_gate" where
  "is_retry_justified sha loads q g0 =
     (let g = g0\<lparr>ag_registry := snd (registry_get (gq_tool q) (ag_registry g0))\<rparr>;
          as = ag_attempts g (attempt_key (gq_tool q) (request_digest sha loads q))
      in (if ag_terminal g then block_call ''NO_PROGRESS_RETRY'' (''control gate already stopped: '' @ ag_reason g) True
          else if as = [] then justified ''no prior identical attempt''
          else if nr_transient (aw_normalized (last as)) then justified ''explicit transient retry basis observed''
          else if permanent_attempt (last as)
            then block_call ''NO_PROGRESS_RETRY'' ''previous identical call failed NOT_RETRYABLE'' True
          else if stalled_attempts as then block_call ''NO_PROGRESS_RETRY''
            (''identical arguments produced identical non-success results with no new evidence (state_change=''
              @ change_word as @ '')'') True
          else justified ''single bounded verification retry permitted'', g))"

definition mark_terminal :: "int \<Rightarrow> string \<Rightarrow> auth_gate \<Rightarrow> auth_gate" where
  "mark_terminal step reason g =
     record_event Control_ESCALATION [(''step'', PInt step), (''reason'', PStr reason), (''rule'', PStr ''NO_PROGRESS_STOP_OR_ESCALATE'')]
       (g\<lparr>ag_terminal := True, ag_reason := reason\<rparr>)"

section \<open>Evidence for the recovery route\<close>

definition route_attempts :: "(string \<Rightarrow> string) \<Rightarrow> (string \<Rightarrow> pyval option) \<Rightarrow> gate_request \<Rightarrow> auth_gate \<Rightarrow> attempt_evidence list" where
  "route_attempts sha loads q g = map as_evidence (ag_attempts g (attempt_key (gq_tool q) (request_digest sha loads q)))"

definition state_change_for ::
  "(string \<Rightarrow> string) \<Rightarrow> (string \<Rightarrow> pyval option) \<Rightarrow> gate_request \<Rightarrow> auth_gate \<Rightarrow> state_change \<times> evidence_grade" where
  "state_change_for sha loads q g = evaluate_state_change (route_attempts sha loads q g)"

definition last_normalized ::
  "(string \<Rightarrow> string) \<Rightarrow> (string \<Rightarrow> pyval option) \<Rightarrow> gate_request \<Rightarrow> auth_gate \<Rightarrow> normalized_result option" where
  "last_normalized sha loads q g =
     (let as = ag_attempts g (attempt_key (gq_tool q) (request_digest sha loads q))
      in if as = [] then None else Some (aw_normalized (last as)))"

definition attempt_history :: "(string \<Rightarrow> string) \<Rightarrow> (string \<Rightarrow> pyval option) \<Rightarrow> gate_request \<Rightarrow> auth_gate \<Rightarrow> pydict list" where
  "attempt_history sha loads q g = map (\<lambda>a.
     [(''step'', PInt (aw_step a)), (''result_digest'', PStr (aw_result a)), (''state_digest'', PStr (aw_state a)),
      (''exec_status'', PStr (tool_exec_value (aw_exec a))), (''ready_status'', PStr (tool_ready_value (aw_ready a))),
      (''retryable'', PStr (retryability_value (aw_retryable a)))])
     (ag_attempts g (attempt_key (gq_tool q) (request_digest sha loads q)))"

section \<open>Histories\<close>

definition gate_call ::
  "(string \<Rightarrow> string) \<Rightarrow> (string \<Rightarrow> pyval option) \<Rightarrow> gate_request \<Rightarrow> pyval \<Rightarrow> auth_gate \<Rightarrow> auth_gate" where
  "gate_call sha loads q result g =
     (let (a, g1) = gate_propose sha loads q g in
      if az_authorized a then snd (gate_observe sha loads q result g1)
      else if az_terminal a then mark_terminal (gq_step q) (az_rule a @ '': '' @ az_reason a) g1
      else g1)"

datatype gate_step =
    Step_batch
  | Step_call gate_request pyval
  | Step_judge gate_request
  | Step_stop int string
  | Step_event control_kind pydict

fun gate_apply :: "(string \<Rightarrow> string) \<Rightarrow> (string \<Rightarrow> pyval option) \<Rightarrow> gate_step \<Rightarrow> auth_gate \<Rightarrow> auth_gate" where
  "gate_apply sha loads Step_batch g = begin_batch g"
| "gate_apply sha loads (Step_call q result) g = gate_call sha loads q result g"
| "gate_apply sha loads (Step_judge q) g = snd (is_retry_justified sha loads q g)"
| "gate_apply sha loads (Step_stop step reason) g = mark_terminal step reason g"
| "gate_apply sha loads (Step_event kind extra) g = record_event kind extra g"

definition run_gate :: "(string \<Rightarrow> string) \<Rightarrow> (string \<Rightarrow> pyval option) \<Rightarrow> gate_step list \<Rightarrow> auth_gate \<Rightarrow> auth_gate" where
  "run_gate sha loads steps g = fold (gate_apply sha loads) steps g"

lemma run_gate_keeps:
  assumes "\<And>st g. I g \<Longrightarrow> I (gate_apply sha loads st g)" and "I g"
  shows "I (run_gate sha loads steps g)"
proof -
  have "I (fold (gate_apply sha loads) steps g)" using assms(2)
    by (induction steps arbitrary: g) (auto intro: assms(1))
  then show ?thesis by (simp add: run_gate_def)
qed

section \<open>What each step changes\<close>

text \<open>The part of the gate its decisions read.\<close>

lemma record_event_frame [simp]:
  "ag_registry (record_event k f g) = ag_registry g" "ag_attempts (record_event k f g) = ag_attempts g"
  "ag_conditions (record_event k f g) = ag_conditions g" "ag_unsafe (record_event k f g) = ag_unsafe g"
  "ag_terminal (record_event k f g) = ag_terminal g" "ag_reason (record_event k f g) = ag_reason g"
  "ag_sequence (record_event k f g) = Suc (ag_sequence g)"
  by (simp_all add: record_event_def Let_def)

lemma mark_terminal_frame [simp]:
  "ag_registry (mark_terminal st r g) = ag_registry g" "ag_attempts (mark_terminal st r g) = ag_attempts g"
  "ag_conditions (mark_terminal st r g) = ag_conditions g" "ag_unsafe (mark_terminal st r g) = ag_unsafe g"
  "ag_terminal (mark_terminal st r g)"
  by (simp_all add: mark_terminal_def)

lemma begin_batch_frame [simp]:
  "ag_registry (begin_batch g) = ag_registry g" "ag_attempts (begin_batch g) = ag_attempts g"
  "ag_conditions (begin_batch g) = ag_conditions g" "ag_terminal (begin_batch g) = ag_terminal g"
  by (simp_all add: begin_batch_def)

lemma authorize_call_reads:
  assumes "ag_terminal g = ag_terminal h" "ag_conditions g = ag_conditions h" "ag_unsafe g = ag_unsafe h"
    and "ag_attempts g = ag_attempts h" "ag_reason g = ag_reason h"
  shows "authorize_call s q d g = authorize_call s q d h"
  using assms by (simp add: authorize_call_def)

lemma gate_propose_parts:
  "fst (gate_propose sha loads q g) =
     authorize_call (semantics_of (ag_registry g) (gq_tool q)) q (request_digest sha loads q) g"
  "ag_attempts (snd (gate_propose sha loads q g)) = ag_attempts g"
  "ag_conditions (snd (gate_propose sha loads q g)) = ag_conditions g"
  "ag_unsafe (snd (gate_propose sha loads q g)) = ag_unsafe g"
  "ag_terminal (snd (gate_propose sha loads q g)) = ag_terminal g"
  "semantics_of (ag_registry (snd (gate_propose sha loads q g))) = semantics_of (ag_registry g)"
proof -
  note reg = registry_get_stable [of "gq_tool q" "ag_registry g", unfolded registry_get_def, simplified]
  show "fst (gate_propose sha loads q g) =
     authorize_call (semantics_of (ag_registry g) (gq_tool q)) q (request_digest sha loads q) g"
    by (simp add: gate_propose_def registry_get_def Let_def) (rule authorize_call_reads; simp)
qed (simp_all add: gate_propose_def registry_get_def Let_def
    registry_get_stable [of "gq_tool q" "ag_registry g", unfolded registry_get_def, simplified])

lemma gate_observe_parts:
  assumes "gate_observe sha loads q result g = (n, g')"
  shows "n = fst (normalize sha loads (gq_tool q) result (gq_arguments q) (ag_registry g))"
    and "semantics_of (ag_registry g') = semantics_of (ag_registry g)"
    and "ag_terminal g' = ag_terminal g"
    and "ag_conditions g' = update_conditions n (ag_conditions g)"
    and "ag_unsafe g' = (ag_unsafe g \<or> nr_affects n)"
    and "\<exists>state. ag_attempts g' = (ag_attempts g)(attempt_key (gq_tool q) (request_digest sha loads q) :=
        ag_attempts g (attempt_key (gq_tool q) (request_digest sha loads q)) @ [make_attempt (gq_step q) state n])"
proof -
  obtain m reg where m: "normalize sha loads (gq_tool q) result (gq_arguments q) (ag_registry g) = (m, reg)" by fastforce
  have reg: "semantics_of reg = semantics_of (ag_registry g)"
    using normalize_registry [of sha loads "gq_tool q" result "gq_arguments q" "ag_registry g"] by (simp add: m)
  have key: "nr_arguments m = request_digest sha loads q"
    using normalize_arguments [of sha loads "gq_tool q" result "gq_arguments q" "ag_registry g"]
    by (simp add: m request_digest_def)
  note eq = assms [unfolded gate_observe_def m Let_def prod.case]
  show "n = fst (normalize sha loads (gq_tool q) result (gq_arguments q) (ag_registry g))" using eq by (simp add: m)
  show "semantics_of (ag_registry g') = semantics_of (ag_registry g)" using eq reg by auto
  show "ag_terminal g' = ag_terminal g" "ag_conditions g' = update_conditions n (ag_conditions g)"
    "ag_unsafe g' = (ag_unsafe g \<or> nr_affects n)" using eq by auto
  show "\<exists>state. ag_attempts g' = (ag_attempts g)(attempt_key (gq_tool q) (request_digest sha loads q) :=
        ag_attempts g (attempt_key (gq_tool q) (request_digest sha loads q)) @ [make_attempt (gq_step q) state n])"
    using eq key by auto
qed

text \<open>A held call runs at most once, and only when it was authorized.\<close>

lemma gate_call_cases:
  obtains (blocked) "\<not> az_authorized (authorize_call (semantics_of (ag_registry g) (gq_tool q)) q (request_digest sha loads q) g)"
      "ag_attempts (gate_call sha loads q result g) = ag_attempts g"
      "semantics_of (ag_registry (gate_call sha loads q result g)) = semantics_of (ag_registry g)"
      "ag_conditions (gate_call sha loads q result g) = ag_conditions g"
      "ag_terminal g \<Longrightarrow> ag_terminal (gate_call sha loads q result g)"
  | (executed) state where
      "authorize_call (semantics_of (ag_registry g) (gq_tool q)) q (request_digest sha loads q) g = allow"
      "ag_attempts (gate_call sha loads q result g) = (ag_attempts g)(attempt_key (gq_tool q) (request_digest sha loads q) :=
          ag_attempts g (attempt_key (gq_tool q) (request_digest sha loads q))
            @ [make_attempt (gq_step q) state (fst (normalize sha loads (gq_tool q) result (gq_arguments q)
                 (ag_registry (snd (gate_propose sha loads q g)))))])"
      "semantics_of (ag_registry (gate_call sha loads q result g)) = semantics_of (ag_registry g)"
      "ag_conditions (gate_call sha loads q result g) = update_conditions (fst (normalize sha loads (gq_tool q) result
          (gq_arguments q) (ag_registry (snd (gate_propose sha loads q g))))) (ag_conditions g)"
      "ag_terminal (gate_call sha loads q result g) = ag_terminal g"
proof (cases "az_authorized (fst (gate_propose sha loads q g))")
  case False
  then show thesis using blocked
    by (simp add: gate_call_def case_prod_beta gate_propose_parts)
next
  case True
  let ?g1 = "snd (gate_propose sha loads q g)"
  obtain n g2 where obs: "gate_observe sha loads q result ?g1 = (n, g2)" by fastforce
  have call: "gate_call sha loads q result g = g2" using True by (simp add: gate_call_def case_prod_beta obs)
  have "authorize_call (semantics_of (ag_registry g) (gq_tool q)) q (request_digest sha loads q) g = allow"
    using True unfolding gate_propose_parts(1)
    by (auto simp: authorize_call_def evaluate_repeat_def block_call_def split: if_splits)
  then show thesis
    using gate_observe_parts [OF obs] executed unfolding call by (auto simp: gate_propose_parts)
qed

end
