(* ===== verification/GateSafety.thy ===== *)
theory GateSafety imports AuthGate begin

text \<open>
  What the authorization gate guarantees over every history of proposals, executions and stops.

  \<^item> \<open>wide_digest\<close> says that the digests are cut to their full sixteen characters, as those of SHA-256 are;
    then an attempt key belongs to one tool and one argument digest.
  \<^item> \<open>gate_trace\<close> is the list of results that were executed and observed in a history.
\<close>

definition wide_digest :: "(string \<Rightarrow> string) \<Rightarrow> bool" where
  "wide_digest sha \<longleftrightarrow> (\<forall>s. 16 \<le> length (sha s))"

lemma request_digest_length: "wide_digest sha \<Longrightarrow> length (request_digest sha loads q) = 16"
  by (simp add: wide_digest_def request_digest_def short_digest_def stable_hash_def)

lemma attempt_key_inject:
  assumes "length d = length d'"
  shows "attempt_key t d = attempt_key t' d' \<longleftrightarrow> t = t' \<and> d = d'"
  using assms append_eq_append_conv [of d d' "t @ ''::''" "t' @ ''::''"] by (simp add: attempt_key_def)

text \<open>Concrete calls for the examples below.\<close>

definition zero_sha :: "string \<Rightarrow> string" where
  "zero_sha s = replicate 16 (CHR ''0'')"

definition probe_request :: "string \<Rightarrow> gate_request" where
  "probe_request tool =
     \<lparr>gq_step = 1, gq_tool = tool, gq_arguments = PDict [], gq_call = None, gq_provider = None,
      gq_origin = ''model_batch'', gq_index = 0\<rparr>"

abbreviation fresh_gate :: auth_gate where
  "fresh_gate \<equiv> auth_gate_new (\<lambda>_. None)"

lemma wide_zero: "wide_digest zero_sha"
  by (simp add: wide_digest_def zero_sha_def)

lemma zero_digest: "request_digest zero_sha loads q = replicate 16 (CHR ''0'')"
  by (simp add: request_digest_def short_digest_def stable_hash_def zero_sha_def)

lemma gate_new_fields [simp]:
  "ag_attempts (auth_gate_new reg) key = []" "ag_conditions (auth_gate_new reg) = []" "\<not> ag_terminal (auth_gate_new reg)"
  "\<not> ag_unsafe (auth_gate_new reg)" "ag_registry (auth_gate_new reg) = reg"
  by (simp_all add: auth_gate_new_def)

lemma probe_semantics:
  "semantics_of (\<lambda>_. None) ''get'' =
     \<lparr>tm_name = ''get'', tm_read_only = True, tm_side_effect = False, tm_commit = False, tm_idempotent = True,
      tm_provides = True, tm_readiness = [], tm_requires = []\<rparr>"
  "tool_dependent (semantics_of (\<lambda>_. None) ''pay'')"
  by (simp_all add: semantics_of_def infer_hints_def Let_def name_verb_def casefold_def lower_char_def
      commit_verbs_def write_verbs_def has_key_def tool_dependent_def)

section \<open>Repeats\<close>

text \<open>All attempts but the last: each of them was followed by another execution of the same call.\<close>

definition repeat_safe :: "tool_semantics \<Rightarrow> attempt_record list \<Rightarrow> bool" where
  "repeat_safe s as \<longleftrightarrow> (\<forall>a\<in>set (butlast as). \<not> permanent_attempt a \<and> \<not> unrepeatable s a)"

lemma repeat_safe_snoc:
  assumes "repeat_safe s as" and "evaluate_repeat s as = None"
  shows "repeat_safe s (as @ [a])"
proof (cases "as = []")
  case False
  have "\<not> permanent_attempt (last as) \<and> \<not> unrepeatable s (last as)"
    using assms(2) False by (simp add: evaluate_repeat_def split: if_splits)
  moreover have "set as = insert (last as) (set (butlast as))"
    using append_butlast_last_id [OF False] by (metis list.set_intros(1) set_append insert_is_Un Un_commute empty_set list.simps(15))
  ultimately show ?thesis using assms(1) by (simp add: repeat_safe_def)
qed (simp add: repeat_safe_def)

lemma allowed_repeat:
  "authorize_call s q d g = allow \<Longrightarrow> evaluate_repeat s (ag_attempts g (attempt_key (gq_tool q) d)) = None"
  by (auto simp: authorize_call_def block_call_def allow_def split: if_splits option.splits)
    (auto simp: evaluate_repeat_def block_call_def split: if_splits)

text \<open>A property of the attempts of each tool and digest that every allowed execution keeps, all steps keep.\<close>

lemma run_gate_attempts:
  assumes wide: "wide_digest sha"
    and start: "\<And>tool d. P tool [] "
    and keep: "\<And>tool as a. P tool as \<Longrightarrow> evaluate_repeat (semantics_of reg tool) as = None \<Longrightarrow> P tool (as @ [a])"
    and d: "length d = 16"
  shows "P tool (ag_attempts (run_gate sha loads steps (auth_gate_new reg)) (attempt_key tool d))"
proof -
  let ?I = "\<lambda>g :: auth_gate. semantics_of (ag_registry g) = semantics_of reg \<and>
      (\<forall>tool d. length d = 16 \<longrightarrow> P tool (ag_attempts g (attempt_key tool d)))"
  have "?I (run_gate sha loads steps (auth_gate_new reg))"
  proof (rule run_gate_keeps)
    fix st g assume I: "?I g"
    show "?I (gate_apply sha loads st g)"
    proof (cases st)
      case (Step_call q result)
      show ?thesis
      proof (cases rule: gate_call_cases [of g q sha loads result])
        case blocked
        then show ?thesis using I by (simp add: Step_call)
      next
        case (executed state)
        let ?d = "request_digest sha loads q"
        have ev: "evaluate_repeat (semantics_of reg (gq_tool q)) (ag_attempts g (attempt_key (gq_tool q) ?d)) = None"
          using allowed_repeat [OF executed(1)] I by simp
        have "P tool (ag_attempts (gate_call sha loads q result g) (attempt_key tool d))" if "length d = 16" for tool d
        proof (cases "attempt_key tool d = attempt_key (gq_tool q) ?d")
          case True
          then have "tool = gq_tool q" "d = ?d"
            using attempt_key_inject [of d ?d] that request_digest_length [OF wide] by auto
          then show ?thesis using keep [OF _ ev] I that by (simp add: executed(2))
        next
          case False
          then show ?thesis using I that by (simp add: executed(2))
        qed
        then show ?thesis using I executed(3) by (simp add: Step_call)
      qed
    next
      case (Step_judge q)
      then show ?thesis using I by (simp add: is_retry_justified_def Let_def)
    qed (use I in simp_all)
  qed (simp add: auth_gate_new_def start)
  then show ?thesis using d by blast
qed

text \<open>C16: Over any history, a call is never executed again after the same call failed as not retryable, and a call
  with a side effect is never executed again after it succeeded, unless its tool is idempotent or its
  receipt granted the repeat: such an attempt is the last one of its tool and arguments.
\<close>

theorem no_repeat_after_final_outcome:
  assumes "wide_digest sha"
    and "a \<in> set (butlast (ag_attempts (run_gate sha loads steps (auth_gate_new reg))
            (attempt_key (gq_tool q) (request_digest sha loads q))))"
  shows "\<not> permanent_attempt a \<and> \<not> unrepeatable (semantics_of reg (gq_tool q)) a"
proof -
  have "repeat_safe (semantics_of reg (gq_tool q)) (ag_attempts (run_gate sha loads steps (auth_gate_new reg))
      (attempt_key (gq_tool q) (request_digest sha loads q)))"
    by (rule run_gate_attempts [OF assms(1)])
      (auto simp: request_digest_length [OF assms(1)] repeat_safe_snoc, simp add: repeat_safe_def)
  then show ?thesis using assms(2) by (simp add: repeat_safe_def)
qed

lemma gate_call_executes:
  assumes "authorize_call (semantics_of (ag_registry g) (gq_tool q)) q (request_digest sha loads q) g = allow"
  obtains state reg' where
    "ag_attempts (gate_call sha loads q result g) (attempt_key (gq_tool q) (request_digest sha loads q)) =
       ag_attempts g (attempt_key (gq_tool q) (request_digest sha loads q))
         @ [make_attempt (gq_step q) state (fst (normalize sha loads (gq_tool q) result (gq_arguments q) reg'))]"
    "semantics_of reg' = semantics_of (ag_registry g)"
    "semantics_of (ag_registry (gate_call sha loads q result g)) = semantics_of (ag_registry g)"
    "ag_terminal (gate_call sha loads q result g) = ag_terminal g"
  using assms that by (cases rule: gate_call_cases [of g q sha loads result]) (auto simp: allow_def gate_propose_parts)

lemma no_repeat_after_final_outcome_witness:
  "\<exists>a. a \<in> set (butlast (ag_attempts (run_gate zero_sha (\<lambda>_. None)
        [Step_call (probe_request ''get'') (PDict [(''success'', PBool True)]),
         Step_call (probe_request ''get'') (PDict [(''success'', PBool True)])] fresh_gate)
      (attempt_key (gq_tool (probe_request ''get'')) (request_digest zero_sha (\<lambda>_. None) (probe_request ''get'')))))
    \<and> \<not> permanent_attempt a \<and> \<not> unrepeatable (semantics_of (\<lambda>_. None) (gq_tool (probe_request ''get''))) a"
proof -
  let ?q = "probe_request ''get''" and ?r = "PDict [(''success'', PBool True)]"
  let ?key = "attempt_key (gq_tool ?q) (request_digest zero_sha (\<lambda>_. None) ?q)"
  let ?g1 = "gate_call zero_sha (\<lambda>_. None) ?q ?r fresh_gate"
  have tool: "gq_tool ?q = ''get''" by (simp add: probe_request_def)
  have first: "authorize_call (semantics_of (ag_registry fresh_gate) (gq_tool ?q)) ?q (request_digest zero_sha (\<lambda>_. None) ?q) fresh_gate = allow"
    by (simp add: authorize_call_def tool probe_semantics tool_dependent_def evaluate_repeat_def)
  obtain st1 reg1 where one: "ag_attempts ?g1 ?key = [make_attempt (gq_step ?q) st1
      (fst (normalize zero_sha (\<lambda>_. None) (gq_tool ?q) ?r (gq_arguments ?q) reg1))]"
    and reg: "semantics_of (ag_registry ?g1) = semantics_of (\<lambda>_. None)" and live: "\<not> ag_terminal ?g1"
    using gate_call_executes [OF first, of ?r] by (metis append_Nil gate_new_fields)
  have succeeded: "fst (exec_status [(''success'', PBool True)]) = Exec_SUCCEEDED"
    by (simp add: exec_status_def Let_def raw_word_def dict_get_def dict_get_or_def strip_def casefold_def
        failure_words_def transient_words_def success_words_def)
  have "evaluate_repeat (semantics_of (\<lambda>_. None) ''get'') (ag_attempts ?g1 ?key) = None"
    by (simp add: one evaluate_repeat_def permanent_attempt_def make_attempt_def normalize_axes raw_result_def
        succeeded stalled_attempts_def unrepeatable_def probe_semantics)
  then have second: "authorize_call (semantics_of (ag_registry ?g1) (gq_tool ?q)) ?q (request_digest zero_sha (\<lambda>_. None) ?q) ?g1 = allow"
    using live by (simp add: authorize_call_def tool probe_semantics tool_dependent_def reg)
  have "\<exists>b. ag_attempts (gate_call zero_sha (\<lambda>_. None) ?q ?r ?g1) ?key = ag_attempts ?g1 ?key @ [b]"
    using gate_call_executes [OF second, of ?r] by metis
  then obtain a where "a \<in> set (butlast (ag_attempts (run_gate zero_sha (\<lambda>_. None) [Step_call ?q ?r, Step_call ?q ?r] fresh_gate) ?key))"
    using one by (auto simp: run_gate_def)
  then show ?thesis using no_repeat_after_final_outcome [OF wide_zero] by blast
qed

section \<open>No loop without progress\<close>

text \<open>Three executions in a row where the first two had the same outcome, without a transient basis.\<close>

fun runs_on :: "attempt_record list \<Rightarrow> bool" where
  "runs_on (a # b # c # as) \<longleftrightarrow>
     (stalled_attempts [a, b] \<and> \<not> nr_transient (aw_normalized b)) \<or> runs_on (b # c # as)"
| "runs_on _ \<longleftrightarrow> False"

lemma stalled_attempts_last: "as \<noteq> [] \<Longrightarrow> stalled_attempts (xs @ as @ [b]) = stalled_attempts [last as, b]"
proof -
  have "last_two (ys @ [x, y]) = Some (x, y)" for ys and x y :: attempt_record
  proof (induction ys)
    case (Cons z ys)
    then show ?case by (cases ys; cases "tl ys") auto
  qed simp
  moreover assume "as \<noteq> []"
  ultimately have "last_two (xs @ as @ [b]) = Some (last as, b)"
    by (metis append.assoc append_Cons append_Nil append_butlast_last_id)
  then show ?thesis by (simp add: stalled_attempts_def)
qed

lemma runs_on_snoc:
  "runs_on (as @ [c]) \<longleftrightarrow> runs_on as \<or> (2 \<le> length as \<and> stalled_attempts as \<and> \<not> nr_transient (aw_normalized (last as)))"
proof (induction as rule: runs_on.induct)
  case (1 a b d as)
  have "stalled_attempts (a # b # d # as) = stalled_attempts (b # d # as)" by (simp add: stalled_attempts_def)
  then show ?case using 1 by (auto simp: stalled_attempts_def)
qed (auto simp: stalled_attempts_def)

text \<open>C35: Over any history, when two executions in a row of the same call bring the same result in the same state,
  the second one gates the calls after it (it is not READY, and it failed, or reported readiness that is
  false or undetermined, or its outcome is unknown) and has no transient basis, they are the last ones: no
  third execution follows, so such a repetition is stopped after two attempts. A failure whose result
  carries readiness evidence that is true does not gate and is not covered.
\<close>

theorem stalled_call_is_stopped:
  assumes "wide_digest sha"
  shows "\<not> runs_on (ag_attempts (run_gate sha loads steps (auth_gate_new reg))
    (attempt_key (gq_tool q) (request_digest sha loads q)))"
  by (rule run_gate_attempts [OF assms, where P = "\<lambda>_ as. \<not> runs_on as"])
    (auto simp: request_digest_length [OF assms] runs_on_snoc evaluate_repeat_def split: if_splits)

lemma stalled_call_is_stopped_witness:
  "wide_digest zero_sha \<and> \<not> runs_on (ag_attempts (run_gate zero_sha (\<lambda>_. None)
      [Step_call (probe_request ''get'') (PDict [(''error'', PStr ''x'')]), Step_call (probe_request ''get'') (PDict [(''error'', PStr ''x'')]),
       Step_call (probe_request ''get'') (PDict [(''error'', PStr ''x'')])] fresh_gate)
    (attempt_key (gq_tool (probe_request ''get'')) (request_digest zero_sha (\<lambda>_. None) (probe_request ''get''))))"
  using wide_zero stalled_call_is_stopped [OF wide_zero] by blast

text \<open>
  A failure that carries true readiness evidence gates nothing, so the rule does not see it: the same
  failing call with the same result is executed as often as it is proposed.
\<close>

definition ready_failure :: pyval where
  "ready_failure = PDict [(''error'', PStr ''x''), (''ready'', PBool True)]"

lemma ready_failure_axes:
  assumes "semantics_of reg = semantics_of (\<lambda>_. None)"
  shows "\<not> aw_affects (make_attempt i state (fst (normalize sha loads ''get'' ready_failure arguments reg))) \<and>
    \<not> permanent_attempt (make_attempt i state (fst (normalize sha loads ''get'' ready_failure arguments reg)))"
proof -
  let ?raw = "[(''error'', PStr ''x''), (''ready'', PBool True)]"
  have raw: "raw_result ready_failure = ?raw" by (simp add: ready_failure_def raw_result_def)
  have ready: "fst (ready_status ?raw (semantics_of (\<lambda>_. None) ''get'')) = Ready_READY"
    by (simp add: ready_status_def probe_semantics readiness_key_def Let_def dict_get_def dict_of_def dict_merge_def suffix_def)
  have retry: "fst (retryability_of ?raw (fst (exec_status ?raw))) \<noteq> Retry_NOT_RETRYABLE"
    by code_simp
  have "nr_ready (fst (normalize sha loads ''get'' ready_failure arguments reg)) = Ready_READY"
    "nr_retryable (fst (normalize sha loads ''get'' ready_failure arguments reg)) \<noteq> Retry_NOT_RETRYABLE"
    using ready retry unfolding normalize_def registry_get_def Let_def raw assms
    by (auto split: prod.splits)
  then show ?thesis by (simp add: make_attempt_def permanent_attempt_def nr_affects_def)
qed

theorem ready_failure_repeats:
  "length (ag_attempts (run_gate zero_sha (\<lambda>_. None) (replicate n (Step_call (probe_request ''get'') ready_failure)) fresh_gate)
     (attempt_key ''get'' (request_digest zero_sha (\<lambda>_. None) (probe_request ''get'')))) = n"
proof -
  let ?q = "probe_request ''get''"
  let ?d = "request_digest zero_sha (\<lambda>_. None) ?q"
  let ?key = "attempt_key ''get'' ?d"
  let ?I = "\<lambda>g n. semantics_of (ag_registry g) = semantics_of (\<lambda>_. None) \<and> \<not> ag_terminal g \<and>
    length (ag_attempts g ?key) = n \<and> (\<forall>a\<in>set (ag_attempts g ?key). \<not> aw_affects a \<and> \<not> permanent_attempt a)"
  have tool: "gq_tool ?q = ''get''" by (simp add: probe_request_def)
  have step: "?I (gate_call zero_sha (\<lambda>_. None) ?q ready_failure g) (Suc m)" if I: "?I g m" for g :: auth_gate and m
  proof -
    have quiet: "\<not> stalled_attempts as \<and> \<not> permanent_attempt (last as)"
      if "as \<noteq> []" "\<forall>a\<in>set as. \<not> aw_affects a \<and> \<not> permanent_attempt a" for as
    proof -
      have "last_two bs = Some (p, l) \<Longrightarrow> l \<in> set bs" for bs and p l :: attempt_record
        by (induction bs rule: last_two.induct) auto
      then show ?thesis using that by (auto simp: stalled_attempts_def split: option.splits)
    qed
    have "evaluate_repeat (semantics_of (\<lambda>_. None) ''get'') (ag_attempts g ?key) = None"
      using I quiet[of "ag_attempts g ?key"] by (simp add: evaluate_repeat_def unrepeatable_def probe_semantics)
    then have "authorize_call (semantics_of (ag_registry g) (gq_tool ?q)) ?q ?d g = allow"
      using I by (simp add: authorize_call_def tool probe_semantics tool_dependent_def)
    from gate_call_executes [OF this, of ready_failure] obtain state reg' where
      "ag_attempts (gate_call zero_sha (\<lambda>_. None) ?q ready_failure g) ?key = ag_attempts g ?key
         @ [make_attempt (gq_step ?q) state (fst (normalize zero_sha (\<lambda>_. None) ''get'' ready_failure (gq_arguments ?q) reg'))]"
      "semantics_of reg' = semantics_of (ag_registry g)"
      "semantics_of (ag_registry (gate_call zero_sha (\<lambda>_. None) ?q ready_failure g)) = semantics_of (ag_registry g)"
      "ag_terminal (gate_call zero_sha (\<lambda>_. None) ?q ready_failure g) = ag_terminal g" unfolding tool by metis
    with I ready_failure_axes[of reg'] show ?thesis by auto
  qed
  have "?I (run_gate zero_sha (\<lambda>_. None) (replicate n (Step_call ?q ready_failure)) g) (n + m)" if "?I g m" for g :: auth_gate and m
    using that
  proof (induction n arbitrary: g m)
    case (Suc n)
    from Suc.IH[OF step[OF Suc.prems]] show ?case by (simp add: run_gate_def)
  qed (simp add: run_gate_def)
  from this[of fresh_gate 0] show ?thesis by simp
qed

section \<open>Terminal state\<close>

text \<open>
  Once the gate is terminal it stays so and nothing is executed any more: whatever is proposed, judged or
  begun afterwards, every proposal is refused and the attempts are those of the moment it stopped.
\<close>

theorem terminal_gate_executes_nothing:
  assumes "ag_terminal g"
  shows "ag_terminal (run_gate sha loads steps g) \<and> ag_attempts (run_gate sha loads steps g) = ag_attempts g
    \<and> \<not> az_authorized (fst (gate_propose sha loads q (run_gate sha loads steps g)))"
proof -
  let ?I = "\<lambda>h :: auth_gate. ag_terminal h \<and> ag_attempts h = ag_attempts g"
  have I: "?I (run_gate sha loads steps g)"
  proof (rule run_gate_keeps)
    fix st h assume I: "?I h"
    show "?I (gate_apply sha loads st h)"
    proof (cases st)
      case (Step_call q result)
      have "\<not> az_authorized (authorize_call s q d h)" for s d using I by (simp add: authorize_call_def block_call_def)
      then have "authorize_call s q d h \<noteq> allow" for s d by (metis allow_def authorization.select_convs(1))
      then show ?thesis using I
        by (cases rule: gate_call_cases [of h q sha loads result]) (auto simp: Step_call)
    next
      case (Step_judge q)
      then show ?thesis using I by (simp add: is_retry_justified_def Let_def)
    qed (use I in simp_all)
  qed (simp add: assms)
  then have "\<not> az_authorized (fst (gate_propose sha loads q (run_gate sha loads steps g)))"
    by (simp add: gate_propose_parts authorize_call_def block_call_def)
  then show ?thesis using I by blast
qed

lemma terminal_gate_executes_nothing_witness:
  "ag_terminal (mark_terminal 1 ''stop'' fresh_gate)
    \<and> ag_attempts (run_gate zero_sha (\<lambda>_. None) [Step_batch, Step_call (probe_request ''get'') PNone] (mark_terminal 1 ''stop'' fresh_gate))
      = ag_attempts (mark_terminal 1 ''stop'' fresh_gate)"
  using terminal_gate_executes_nothing [of "mark_terminal 1 ''stop'' fresh_gate"] by simp

section \<open>Readiness\<close>

fun step_results ::
  "(string \<Rightarrow> string) \<Rightarrow> (string \<Rightarrow> pyval option) \<Rightarrow> gate_step \<Rightarrow> auth_gate \<Rightarrow> normalized_result list" where
  "step_results sha loads (Step_call q result) g =
     (let (a, g1) = gate_propose sha loads q g
      in if az_authorized a then [fst (gate_observe sha loads q result g1)] else [])"
| "step_results sha loads _ g = []"

fun gate_trace ::
  "(string \<Rightarrow> string) \<Rightarrow> (string \<Rightarrow> pyval option) \<Rightarrow> gate_step list \<Rightarrow> auth_gate \<Rightarrow> normalized_result list" where
  "gate_trace sha loads [] g = []"
| "gate_trace sha loads (st # steps) g =
     step_results sha loads st g @ gate_trace sha loads steps (gate_apply sha loads st g)"

text \<open>The readiness values a result contributes: none when it is no readiness evidence.\<close>

definition readiness_report :: "normalized_result \<Rightarrow> pydict" where
  "readiness_report n = (if nr_evidence n = [] \<or> nr_ready n = Ready_NO_EVIDENCE then [] else nr_values n)"

text \<open>The last report on a key, \<open>None\<close> when there is none.\<close>

definition last_report :: "string \<Rightarrow> pydict \<Rightarrow> pyval option" where
  "last_report k ps = map_option snd (List.find (\<lambda>p. fst p = k) (rev ps))"

lemma last_report_simps [simp]:
  "last_report k [] = None"
  "last_report k (ps @ [p]) = (if fst p = k then Some (snd p) else last_report k ps)"
  by (simp_all add: last_report_def)

lemma last_report_append:
  "last_report k (ps @ qs) = (case last_report k qs of Some v \<Rightarrow> Some v | None \<Rightarrow> last_report k ps)"
proof (induction qs rule: rev_induct)
  case (snoc q qs)
  then show ?case using last_report_simps(2) [of k "ps @ qs" q] by (simp split: option.splits)
qed simp

lemma update_condition_get:
  "map_of (update_condition p cs) k \<noteq> None \<longleftrightarrow> (if fst p = k then snd p \<noteq> PBool True else map_of cs k \<noteq> None)"
  by (auto simp: update_condition_def delete_conv')

lemma fold_update_condition:
  "map_of (fold update_condition ps cs) k \<noteq> None \<longleftrightarrow>
     (case last_report k ps of Some v \<Rightarrow> v \<noteq> PBool True | None \<Rightarrow> map_of cs k \<noteq> None)"
proof (induction ps rule: rev_induct)
  case (snoc p ps)
  have "map_of (fold update_condition (ps @ [p]) cs) k \<noteq> None \<longleftrightarrow>
      (if fst p = k then snd p \<noteq> PBool True else map_of (fold update_condition ps cs) k \<noteq> None)"
    using update_condition_get by simp
  then show ?case unfolding snoc by (auto split: option.splits)
qed simp

lemma update_conditions_get:
  "map_of (update_conditions n cs) k \<noteq> None \<longleftrightarrow>
     (case last_report k (readiness_report n) of Some v \<Rightarrow> v \<noteq> PBool True | None \<Rightarrow> map_of cs k \<noteq> None)"
  using fold_update_condition by (simp add: update_conditions_def readiness_report_def)

lemma step_conditions:
  "map_of (ag_conditions (gate_apply sha loads st g)) k \<noteq> None \<longleftrightarrow>
     (case last_report k (concat (map readiness_report (step_results sha loads st g))) of
        Some v \<Rightarrow> v \<noteq> PBool True | None \<Rightarrow> map_of (ag_conditions g) k \<noteq> None)"
proof (cases st)
  case (Step_call q result)
  show ?thesis
  proof (cases "az_authorized (fst (gate_propose sha loads q g))")
    case True
    let ?g1 = "snd (gate_propose sha loads q g)"
    obtain n g2 where obs: "gate_observe sha loads q result ?g1 = (n, g2)" by fastforce
    have "ag_conditions (gate_apply sha loads st g) = update_conditions n (ag_conditions g)"
      using True gate_observe_parts(4) [OF obs]
      by (simp add: Step_call gate_call_def case_prod_beta obs gate_propose_parts)
    moreover have "step_results sha loads st g = [n]" using True by (simp add: Step_call case_prod_beta obs)
    ultimately show ?thesis using update_conditions_get by simp
  next
    case False
    then have "ag_conditions (gate_apply sha loads st g) = ag_conditions g" "step_results sha loads st g = []"
      by (simp_all add: Step_call gate_call_def case_prod_beta gate_propose_parts)
    then show ?thesis by simp
  qed
qed (simp_all add: is_retry_justified_def Let_def)

lemma run_conditions:
  "map_of (ag_conditions (run_gate sha loads steps g)) k \<noteq> None \<longleftrightarrow>
     (case last_report k (concat (map readiness_report (gate_trace sha loads steps g))) of
        Some v \<Rightarrow> v \<noteq> PBool True | None \<Rightarrow> map_of (ag_conditions g) k \<noteq> None)"
proof (induction steps arbitrary: g)
  case (Cons st steps)
  have "run_gate sha loads (st # steps) g = run_gate sha loads steps (gate_apply sha loads st g)"
    by (simp add: run_gate_def)
  then show ?case
    using Cons.IH [of "gate_apply sha loads st g"] step_conditions [of sha loads st g k]
    by (cases "last_report k (concat (map readiness_report (gate_trace sha loads steps (gate_apply sha loads st g))))")
      (simp_all add: last_report_append del: not_None_eq)
qed (simp add: run_gate_def)

lemma report_of_result:
  "readiness_report (fst (normalize sha loads tool result arguments reg)) =
     (if tm_provides (semantics_of reg tool)
      then snd (snd (ready_status (raw_result result) (semantics_of reg tool))) else [])"
proof -
  obtain r e v where rs: "ready_status (raw_result result) (semantics_of reg tool) = (r, e, v)" by (rule prod_cases3)
  then have "\<not> tm_provides (semantics_of reg tool) \<Longrightarrow> r = Ready_NO_EVIDENCE"
    "tm_provides (semantics_of reg tool) \<Longrightarrow> r = Ready_NO_EVIDENCE \<or> e = [] \<Longrightarrow> v = []"
    by (auto simp: ready_status_def Let_def split: if_splits)
  then show ?thesis
    unfolding normalize_def registry_get_def Let_def readiness_report_def by (auto simp: rs split: prod.splits)
qed



text \<open>No evidence is needed where there is none: on a fresh gate every call is authorized.\<close>

theorem first_call_needs_no_evidence:
  "az_authorized (fst (gate_propose sha loads q (auth_gate_new reg)))"
  by (simp add: gate_propose_parts authorize_call_def evaluate_repeat_def allow_def)

text \<open>A commit that reports that it is not ready is forgotten: the next dependent call is authorized.\<close>

theorem commit_report_is_ignored:
  "let g = run_gate zero_sha (\<lambda>_. None)
       [Step_call (probe_request ''pay'') (PDict [(''success'', PBool True), (''ready'', PBool False)])] fresh_gate
   in length (gate_trace zero_sha (\<lambda>_. None)
        [Step_call (probe_request ''pay'') (PDict [(''success'', PBool True), (''ready'', PBool False)])] fresh_gate) = 1 \<and>
      tool_dependent (semantics_of (ag_registry g) ''book'') \<and>
      az_authorized (fst (gate_propose zero_sha (\<lambda>_. None) (probe_request ''book'') g))"
proof -
  let ?p = "probe_request ''pay''" and ?r = "PDict [(''success'', PBool True), (''ready'', PBool False)]"
    and ?b = "probe_request ''book''"
  let ?g1 = "snd (gate_propose zero_sha (\<lambda>_. None) ?p fresh_gate)"
  have tools: "gq_tool ?p = ''pay''" "gq_tool ?b = ''book''" by (simp_all add: probe_request_def)
  obtain n g2 where obs: "gate_observe zero_sha (\<lambda>_. None) ?p ?r ?g1 = (n, g2)" by fastforce
  have ok: "az_authorized (fst (gate_propose zero_sha (\<lambda>_. None) ?p fresh_gate))" by (rule first_call_needs_no_evidence)
  have sem: "semantics_of (ag_registry ?g1) = semantics_of (\<lambda>_. None)" by (simp add: gate_propose_parts)
  have prov: "\<not> tm_provides (semantics_of (\<lambda>_. None) ''pay'')"
    by (simp add: semantics_of_def infer_hints_def Let_def name_verb_def casefold_def lower_char_def
      commit_verbs_def write_verbs_def has_key_def)
  have n: "n = fst (normalize zero_sha (\<lambda>_. None) ''pay'' ?r (gq_arguments ?p) (ag_registry ?g1))"
    using gate_observe_parts(1) [OF obs] by (simp add: tools)
  have raw: "raw_result ?r = [(''success'', PBool True), (''ready'', PBool False)]" by (simp add: raw_result_def)
  have ready: "fst (ready_status (raw_result ?r) (semantics_of (\<lambda>_. None) ''pay'')) = Ready_NO_EVIDENCE"
    using prov by (simp add: ready_status_def Let_def)
  have succeeded: "fst (exec_status (raw_result ?r)) = Exec_SUCCEEDED" unfolding raw by code_simp
  have "nr_ready n = Ready_NO_EVIDENCE" "nr_exec n = Exec_SUCCEEDED"
    unfolding n normalize_def registry_get_def Let_def sem using ready succeeded by (auto split: prod.splits)
  then have axes: "\<not> nr_affects n" "update_conditions n cs = cs" for cs
    by (simp_all add: nr_affects_def update_conditions_def)
  have g2: "ag_conditions g2 = []" "\<not> ag_unsafe g2" "\<not> ag_terminal g2"
      "semantics_of (ag_registry g2) = semantics_of (\<lambda>_. None)"
    using gate_observe_parts(2-5) [OF obs] axes by (simp_all add: gate_propose_parts)
  have "ag_attempts g2 (attempt_key ''book'' (request_digest zero_sha (\<lambda>_. None) ?b)) = []"
    using gate_observe_parts(6) [OF obs] by (auto simp: gate_propose_parts tools zero_digest attempt_key_def)
  then have "az_authorized (fst (gate_propose zero_sha (\<lambda>_. None) ?b g2))"
    using g2 by (simp add: gate_propose_parts authorize_call_def tools evaluate_repeat_def allow_def)
  moreover have "tool_dependent (semantics_of (\<lambda>_. None) ''book'')"
    by (simp add: semantics_of_def infer_hints_def Let_def name_verb_def casefold_def lower_char_def
      commit_verbs_def write_verbs_def has_key_def tool_dependent_def)
  moreover have "run_gate zero_sha (\<lambda>_. None) [Step_call ?p ?r] fresh_gate = g2"
    using ok by (simp add: run_gate_def gate_call_def case_prod_beta obs)
  moreover have "gate_trace zero_sha (\<lambda>_. None) [Step_call ?p ?r] fresh_gate = [n]" using ok by (simp add: case_prod_beta obs)
  ultimately show ?thesis using g2(4) by (simp add: Let_def)
qed

section \<open>Two judgements of one retry\<close>

text \<open>An attempt as the gate records it.\<close>

definition attempt_made :: "attempt_record \<Rightarrow> bool" where
  "attempt_made a \<longleftrightarrow> (nr_transient (aw_normalized a) \<longrightarrow> aw_retryable a = Retry_RETRYABLE)"

lemma attempts_are_made:
  "list_all attempt_made (ag_attempts (run_gate sha loads steps (auth_gate_new reg)) key)"
proof -
  let ?I = "\<lambda>g :: auth_gate. \<forall>key. list_all attempt_made (ag_attempts g key)"
  have "?I (run_gate sha loads steps (auth_gate_new reg))"
  proof (rule run_gate_keeps)
    fix st g assume I: "?I g"
    show "?I (gate_apply sha loads st g)"
    proof (cases st)
      case (Step_call q result)
      have made: "attempt_made (make_attempt step state (fst (normalize sha loads (gq_tool q) result (gq_arguments q) reg')))"
        for step state reg' by (simp add: attempt_made_def make_attempt_def transient_is_retryable)
      show ?thesis using I made
        by (cases rule: gate_call_cases [of g q sha loads result]) (simp_all add: Step_call)
    next
      case (Step_judge q)
      then show ?thesis using I by (simp add: is_retry_justified_def Let_def)
    qed (use I in simp_all)
  qed (simp add: auth_gate_new_def)
  then show ?thesis by blast
qed

text \<open>C37: The two judgements of a repeated call agree after every history. For a tool that needs no readiness,
  the judgement of a retry says that it is reasonable exactly when a proposal of that call would not be
  refused for lack of progress or because the gate has stopped, although the two test their conditions in
  a different order.
\<close>

theorem justification_agrees_with_gate:
  assumes "\<not> tool_dependent (semantics_of (ag_registry (run_gate sha loads steps (auth_gate_new reg))) (gq_tool q))"
  shows "az_authorized (fst (is_retry_justified sha loads q (run_gate sha loads steps (auth_gate_new reg)))) \<longleftrightarrow>
    az_rule (fst (gate_propose sha loads q (run_gate sha loads steps (auth_gate_new reg))))
      \<notin> {''NO_PROGRESS_RETRY'', ''TERMINAL_CONTROL_STATE''}"
proof -
  let ?g = "run_gate sha loads steps (auth_gate_new reg)"
  let ?as = "ag_attempts ?g (attempt_key (gq_tool q) (request_digest sha loads q))"
  have "permanent_attempt (last ?as) \<Longrightarrow> ?as \<noteq> [] \<Longrightarrow> \<not> nr_transient (aw_normalized (last ?as))"
    using attempts_are_made [of sha loads steps reg "attempt_key (gq_tool q) (request_digest sha loads q)"]
    by (auto simp: list_all_iff attempt_made_def permanent_attempt_def)
  then show ?thesis
    using assms
    by (auto simp: is_retry_justified_def Let_def justified_def block_call_def allow_def gate_propose_parts
        authorize_call_def evaluate_repeat_def)
qed

lemma justification_agrees_with_gate_witness:
  "\<not> tool_dependent (semantics_of (ag_registry (run_gate zero_sha (\<lambda>_. None) [] fresh_gate)) (gq_tool (probe_request ''get'')))
    \<and> (az_authorized (fst (is_retry_justified zero_sha (\<lambda>_. None) (probe_request ''get'') (run_gate zero_sha (\<lambda>_. None) [] fresh_gate))) \<longleftrightarrow>
      az_rule (fst (gate_propose zero_sha (\<lambda>_. None) (probe_request ''get'') (run_gate zero_sha (\<lambda>_. None) [] fresh_gate)))
        \<notin> {''NO_PROGRESS_RETRY'', ''TERMINAL_CONTROL_STATE''})"
proof (rule conjI)
  show "\<not> tool_dependent (semantics_of (ag_registry (run_gate zero_sha (\<lambda>_. None) [] fresh_gate)) (gq_tool (probe_request ''get'')))"
    by (simp add: run_gate_def probe_request_def probe_semantics tool_dependent_def)
  then show "az_authorized (fst (is_retry_justified zero_sha (\<lambda>_. None) (probe_request ''get'') (run_gate zero_sha (\<lambda>_. None) [] fresh_gate))) \<longleftrightarrow>
      az_rule (fst (gate_propose zero_sha (\<lambda>_. None) (probe_request ''get'') (run_gate zero_sha (\<lambda>_. None) [] fresh_gate)))
        \<notin> {''NO_PROGRESS_RETRY'', ''TERMINAL_CONTROL_STATE''}"
    by (rule justification_agrees_with_gate)
qed

end
