(* ===== verification/RuntimeValidator.thy ===== *)
theory RuntimeValidator imports Substrate begin

text \<open>
  The completion validator of phase 5 (\<open>src/lhas/phase5/runtime_validator.py\<close>): it accepts a final answer
  only on public evidence, by the rules V1 to V6.

  \<^item> Messages and public results are dictionaries, as the agent core builds them.
  \<^item> \<open>unsettled\<close> is the loop of V3: an explicit failure without a later success of its lineage.
  \<^item> \<open>Unknown_evidence\<close> is the \<open>ValueError\<close> of the input firewall. The evidence reaches the validator as a
    dictionary; \<open>evidence_of\<close> reads its fields with the defaults of the data class.
\<close>

section \<open>Public results\<close>

datatype public_failure =
    EMPTY_COMPLETION | UNRESOLVED_TOOL_CALL | UNRESOLVED_PUBLIC_FAILURE | PENDING_RECOVERY
  | INSUFFICIENT_PUBLIC_EVIDENCE

fun public_failure_value :: "public_failure \<Rightarrow> string" where
  "public_failure_value EMPTY_COMPLETION = ''EMPTY_COMPLETION''"
| "public_failure_value UNRESOLVED_TOOL_CALL = ''UNRESOLVED_TOOL_CALL''"
| "public_failure_value UNRESOLVED_PUBLIC_FAILURE = ''UNRESOLVED_PUBLIC_FAILURE''"
| "public_failure_value PENDING_RECOVERY = ''PENDING_RECOVERY''"
| "public_failure_value INSUFFICIENT_PUBLIC_EVIDENCE = ''INSUFFICIENT_PUBLIC_EVIDENCE''"

record public_evidence =
  pe_answer :: string
  pe_history :: "pydict list"
  pe_tools :: "pyval list"
  pe_refs :: "string list"
  pe_pending :: bool
  pe_state_digest :: string
  pe_results :: "pydict list"

definition public_result_payload :: "pydict \<Rightarrow> pydict" where
  "public_result_payload r = (case as_dict (dict_get r ''result'') of Some d \<Rightarrow> d | None \<Rightarrow> r)"

definition public_field :: "pydict \<Rightarrow> string \<Rightarrow> pyval \<Rightarrow> pyval" where
  "public_field r k dflt =
     (case map_of r k of Some v \<Rightarrow> v | None \<Rightarrow> dict_get_or (public_result_payload r) k dflt)"

definition public_status :: "pydict \<Rightarrow> string" where
  "public_status r = casefold (py_str (public_field r ''status'' (PStr [])))"

definition is_explicit_failure :: "pydict \<Rightarrow> bool" where
  "is_explicit_failure r \<longleftrightarrow>
     public_status r \<in> {''error'', ''failure'', ''failed''} \<or> py_truthy (public_field r ''error'' PNone)"

definition is_explicit_success :: "pydict \<Rightarrow> bool" where
  "is_explicit_success r \<longleftrightarrow> public_status r \<in> {''success'', ''ok'', ''completed'', ''done''}"

definition confirms_effect :: "pydict \<Rightarrow> bool" where
  "confirms_effect r \<longleftrightarrow>
     upper (py_str (public_field r ''event_type'' (PStr []))) = ''SIDE_EFFECT_CONFIRMED''
     \<or> upper (py_str (public_field r ''effect_status'' (PStr []))) = ''SIDE_EFFECT_CONFIRMED''"

definition has_positive_evidence :: "public_evidence \<Rightarrow> bool" where
  "has_positive_evidence e \<longleftrightarrow> list_ex (\<lambda>r. is_explicit_success r \<or> confirms_effect r) (pe_results e)"

section \<open>Rules\<close>

text \<open>V2: a single-call message of the assistant whose call id no tool message answers.\<close>

definition answers_call :: "pyval \<Rightarrow> pydict \<Rightarrow> bool" where
  "answers_call tc m \<longleftrightarrow> py_eq (dict_get m ''role'') (PStr ''tool'') \<and>
     (py_eq (dict_get m ''tool_call_id'') tc \<or> py_eq (dict_get m ''provider_tool_call_id'') tc
      \<or> py_eq (dict_get m ''invocation_id'') tc)"

definition asked_call :: "pydict \<Rightarrow> pyval option" where
  "asked_call m =
     (if py_eq (dict_get m ''role'') (PStr ''assistant'') \<and> py_eq (dict_get m ''type'') (PStr ''tool_call'')
      then (let tc = dict_get (case as_dict (dict_get m ''tool_call'') of Some d \<Rightarrow> d | None \<Rightarrow> []) ''id''
            in if py_truthy tc then Some tc else None)
      else None)"

definition unpaired_call :: "pydict list \<Rightarrow> bool" where
  "unpaired_call history \<longleftrightarrow> list_ex (\<lambda>m. case asked_call m of
      None \<Rightarrow> False
    | Some tc \<Rightarrow> \<not> list_ex (answers_call tc) history) history"

definition resolves :: "pydict \<Rightarrow> pydict \<Rightarrow> bool" where
  "resolves failed later \<longleftrightarrow>
     (let failed_tool = public_field failed ''tool_name'' PNone; failed_call = public_field failed ''tool_call_id'' PNone;
          later_tool = public_field later ''tool_name'' PNone; later_retry = public_field later ''retry_of_call_id'' PNone
      in is_explicit_success later \<and>
         (py_truthy failed_tool \<and> py_eq later_tool failed_tool
          \<or> failed_call \<noteq> PNone \<and> py_eq later_retry failed_call
          \<or> \<not> py_truthy failed_tool \<and> \<not> py_truthy later_tool))"

fun unsettled :: "pydict list \<Rightarrow> bool" where
  "unsettled [] \<longleftrightarrow> False"
| "unsettled (r # rs) \<longleftrightarrow> is_explicit_failure r \<and> \<not> list_ex (resolves r) rs \<or> unsettled rs"

definition apply_rules :: "public_evidence \<Rightarrow> validator_decision \<times> public_failure option" where
  "apply_rules e =
     (if pe_answer e = [] \<or> strip (pe_answer e) = [] then (Decision_REJECT, Some EMPTY_COMPLETION)
      else if unpaired_call (pe_history e) then (Decision_REJECT, Some UNRESOLVED_TOOL_CALL)
      else if unsettled (pe_results e) then (Decision_REJECT, Some UNRESOLVED_PUBLIC_FAILURE)
      else if pe_pending e then (Decision_REJECT, Some PENDING_RECOVERY)
      else if \<not> has_positive_evidence e then (Decision_INDETERMINATE, Some INSUFFICIENT_PUBLIC_EVIDENCE)
      else (Decision_ACCEPT, None))"

section \<open>The validator\<close>

datatype validator_error = Unknown_evidence "string list" | Answer_missing

definition evidence_fields :: "string list" where
  "evidence_fields =
     [''candidate_answer'', ''conversation_history'', ''tool_definitions'', ''evidence_refs'', ''has_pending_recovery'',
      ''observed_state_digest'', ''public_tool_results'']"

definition value_list :: "pyval \<Rightarrow> pyval list" where
  "value_list v = (case v of PList vs \<Rightarrow> vs | _ \<Rightarrow> [])"

definition dict_list :: "pyval \<Rightarrow> pydict list" where
  "dict_list v = map (\<lambda>x. case as_dict x of Some d \<Rightarrow> d | None \<Rightarrow> []) (value_list v)"

definition evidence_of :: "pydict option \<Rightarrow> validator_error + public_evidence" where
  "evidence_of given =
     (case given of
        None \<Rightarrow> Inr \<lparr>pe_answer = [], pe_history = [], pe_tools = [], pe_refs = [], pe_pending = False,
                  pe_state_digest = [], pe_results = []\<rparr>
      | Some d \<Rightarrow>
          (let extra = filter (\<lambda>k. k \<notin> set evidence_fields) (map fst d) in
           if extra \<noteq> [] then Inl (Unknown_evidence (sort extra))
           else if \<not> has_key d ''candidate_answer'' then Inl Answer_missing
           else Inr \<lparr>pe_answer = (case dict_get d ''candidate_answer'' of PStr s \<Rightarrow> s | _ \<Rightarrow> []),
                     pe_history = dict_list (dict_get d ''conversation_history''),
                     pe_tools = value_list (dict_get d ''tool_definitions''),
                     pe_refs = map py_str (value_list (dict_get d ''evidence_refs'')),
                     pe_pending = py_truthy (dict_get d ''has_pending_recovery''),
                     pe_state_digest = (case dict_get d ''observed_state_digest'' of PStr s \<Rightarrow> s | _ \<Rightarrow> []),
                     pe_results = dict_list (dict_get d ''public_tool_results'')\<rparr>))"

definition validator_config_hash :: "(string \<Rightarrow> string) \<Rightarrow> string" where
  "validator_config_hash sha = take 16 (sha ''public-evidence-completion-v1:1.0'')"

definition validator_event :: "(string \<Rightarrow> string) \<Rightarrow> string \<Rightarrow> string list \<Rightarrow> string \<Rightarrow> validator_decision \<times> public_failure option \<Rightarrow> pydict" where
  "validator_event sha candidate refs digest verdict =
     [(''candidate_id'', PStr candidate), (''validator_id'', PStr ''public-evidence-completion-v1''),
      (''validator_version'', PStr ''1.0''), (''validator_config_hash'', PStr (validator_config_hash sha)),
      (''execution_status'', PStr ''SUCCESS''),
      (''decision'', PStr (validator_decision_value (fst verdict))),
      (''failure_type'', opt_str (map_option public_failure_value (snd verdict))),
      (''evidence_refs'', PList (map PStr refs)), (''observed_state_digest'', PStr digest)]"

text \<open>\<open>validate\<close>: the feedback and the event it appends; \<open>fid\<close> is the fresh id of the feedback.\<close>

definition public_validate ::
  "(string \<Rightarrow> string) \<Rightarrow> string \<Rightarrow> string \<Rightarrow> string list \<Rightarrow> string \<Rightarrow> pydict option \<Rightarrow> pydict list
    \<Rightarrow> (validator_error + validator_feedback) \<times> pydict list" where
  "public_validate sha fid candidate refs digest given events =
     (case evidence_of given of
        Inl err \<Rightarrow> (Inl err, events)
      | Inr e \<Rightarrow>
          (let verdict = apply_rules e in
           (Inr \<lparr>vb_id = fid, vb_validator = ''public-evidence-completion-v1'', vb_version = ''1.0'',
                 vb_candidate = candidate, vb_status = Validator_SUCCESS, vb_decision = fst verdict, vb_evidence = refs,
                 vb_state_digest = digest, vb_failure = map_option public_failure_value (snd verdict), vb_detail = []\<rparr>,
            events @ [validator_event sha candidate refs digest verdict])))"

section \<open>Properties\<close>

lemma unsettled_iff:
  "unsettled rs \<longleftrightarrow> (\<exists>xs r ys. rs = xs @ r # ys \<and> is_explicit_failure r \<and> \<not> list_ex (resolves r) ys)"
proof (induction rs)
  case (Cons r rs)
  show ?case
  proof
    assume "unsettled (r # rs)"
    then consider "is_explicit_failure r" "\<not> list_ex (resolves r) rs" | "unsettled rs" by auto
    then show "\<exists>xs q ys. r # rs = xs @ q # ys \<and> is_explicit_failure q \<and> \<not> list_ex (resolves q) ys"
    proof cases
      case 2
      then show ?thesis using Cons.IH by (metis append_Cons)
    qed (metis append_Nil)
  next
    assume "\<exists>xs q ys. r # rs = xs @ q # ys \<and> is_explicit_failure q \<and> \<not> list_ex (resolves q) ys"
    then obtain xs q ys where q: "r # rs = xs @ q # ys" "is_explicit_failure q" "\<not> list_ex (resolves q) ys" by blast
    then show "unsettled (r # rs)" using Cons.IH by (cases xs) auto
  qed
qed simp

text \<open>
  The validator accepts a candidate exactly when it says something, every single call has an answer, every
  explicit failure of a tool is followed by a success of its lineage, no recovery is pending, and at
  least one tool result shows success or a confirmed effect: the text of the model never counts.
\<close>

theorem accepts_iff_evidence:
  "fst (apply_rules e) = Decision_ACCEPT \<longleftrightarrow>
     strip (pe_answer e) \<noteq> [] \<and> \<not> unpaired_call (pe_history e) \<and> \<not> pe_pending e
     \<and> (\<exists>r. r \<in> set (pe_results e) \<and> (is_explicit_success r \<or> confirms_effect r))
     \<and> (\<nexists>xs r ys. pe_results e = xs @ r # ys \<and> is_explicit_failure r \<and> \<not> list_ex (resolves r) ys)"
proof -
  have "strip [] = []" by (simp add: strip_def)
  then show ?thesis
    by (auto simp: apply_rules_def unsettled_iff has_positive_evidence_def list_ex_iff)
qed

text \<open>How the core lists an observation for the validator: the fields of the result come last and win.\<close>

definition public_row :: "string \<Rightarrow> string option \<Rightarrow> string option \<Rightarrow> string \<Rightarrow> pydict \<Rightarrow> pydict" where
  "public_row tool call retry digest result =
     dict_merge [(''tool_name'', PStr tool), (''tool_call_id'', opt_str call), (''retry_of_call_id'', opt_str retry),
                 (''arguments_digest'', PStr digest), (''result'', PDict result)] result"

lemma map_of_merge:
  "distinct (map fst b) \<Longrightarrow> map_of (dict_merge a b) k = (case map_of b k of Some v \<Rightarrow> Some v | None \<Rightarrow> map_of a k)"
proof (induction b arbitrary: a)
  case (Cons p b)
  obtain x y where p: "p = (x, y)" by fastforce
  have "dict_merge a (p # b) = dict_merge (AList.update x y a) b" by (simp add: dict_merge_def p)
  moreover have "k = x \<Longrightarrow> map_of b k = None" using Cons.prems by (auto simp: p map_of_eq_None_iff)
  ultimately show ?case using Cons by (auto simp: p split: option.splits)
qed (simp add: dict_merge_def)

text \<open>
  The public result of a tool can speak for another tool. The core spreads the fields of a result over the
  lineage it recorded itself, so a successful result that carries the name of a failed tool settles that
  failure, whichever tool it came from and with whatever arguments.
\<close>

theorem result_speaks_for_another_tool:
  assumes "distinct (map fst failed)" "map_of failed ''tool_name'' = None" "a \<noteq> []"
    and "distinct (map fst result)" "map_of result ''tool_name'' = Some (PStr a)" "map_of result ''status'' = Some (PStr ''ok'')"
  shows "resolves (public_row a call retry digest failed) (public_row b call' retry' digest' result)"
proof -
  have "public_field (public_row a call retry digest failed) ''tool_name'' PNone = PStr a"
    "public_field (public_row b call' retry' digest' result) ''tool_name'' PNone = PStr a"
    "public_field (public_row b call' retry' digest' result) ''status'' (PStr []) = PStr ''ok''"
    using assms by (simp_all add: public_field_def public_row_def map_of_merge)
  then show ?thesis
    using assms(3) by (simp add: resolves_def is_explicit_success_def public_status_def Let_def casefold_def lower_char_def)
qed

lemma result_speaks_for_another_tool_witness:
  "resolves (public_row ''pay'' None None ''d'' [(''error'', PStr ''declined'')])
     (public_row ''weather'' None None ''e'' [(''status'', PStr ''ok''), (''tool_name'', PStr ''pay'')])"
  by (rule result_speaks_for_another_tool) simp_all

end
