(* ===== verification/CoreState.thy ===== *)
theory CoreState imports AuthGate RuntimeValidator begin

text \<open>
  The agent core of phase 5 (\<open>src/lhas/phase5/agent_core.py\<close>): its state, the identities of the calls a
  model proposes, the synthetic answer to a blocked call, and what is read back from it.

  \<^item> Messages are dictionaries, as in the source; a batch keeps its call records and the set of the
    indices that were answered.
  \<^item> \<open>json_text\<close> is \<open>json.dumps\<close> without sorting. \<open>core_digest\<close> is the digest the core takes of arguments: it
    has other separators than the digest of the gate.
  \<^item> A raised \<open>RuntimeError\<close> or execution error is the left of a sum.
\<close>

section \<open>Types\<close>

datatype recovery_kind = Kind_NONE | Kind_RETRY | Kind_RETRY_WITH_CONTEXT | Kind_ESCALATE | Kind_STOP

fun recovery_kind_value :: "recovery_kind \<Rightarrow> string" where
  "recovery_kind_value Kind_NONE = ''none''"
| "recovery_kind_value Kind_RETRY = ''retry''"
| "recovery_kind_value Kind_RETRY_WITH_CONTEXT = ''retry_with_context''"
| "recovery_kind_value Kind_ESCALATE = ''escalate''"
| "recovery_kind_value Kind_STOP = ''stop''"

record recovery_choice =
  rx_action :: recovery_kind
  rx_reason :: string
  rx_signal :: "string option"
  rx_evidence :: pydict

definition none_choice :: recovery_choice where
  "none_choice = \<lparr>rx_action = Kind_NONE, rx_reason = [], rx_signal = None, rx_evidence = []\<rparr>"

record model_call =
  mc_tool :: "string option"
  mc_arguments :: pyval
  mc_call :: "string option"
  mc_provider :: "string option"

record model_action =
  ma_type :: string
  ma_tool :: "string option"
  ma_arguments :: pyval
  ma_content :: "string option"
  ma_thought :: "string option"
  ma_calls :: "model_call list"
  ma_call_id :: "string option"
  ma_provider :: "string option"
  ma_reasoning :: "string option"
  ma_retry_of :: "string option"

definition final_answer :: "string \<Rightarrow> model_action" where
  "final_answer text =
     \<lparr>ma_type = ''final_answer'', ma_tool = None, ma_arguments = PNone, ma_content = Some text, ma_thought = None,
      ma_calls = [], ma_call_id = None, ma_provider = None, ma_reasoning = None, ma_retry_of = None\<rparr>"

record call_record =
  cr_tool :: string
  cr_arguments :: pydict
  cr_call :: "string option"
  cr_provider :: "string option"
  cr_retry_of :: "string option"
  cr_recorded :: bool

record public_observation =
  po_step :: nat
  po_tool :: string
  po_result :: pydict
  po_call :: "string option"
  po_provider :: "string option"
  po_retry_of :: "string option"
  po_arguments :: string
  po_digest :: string
  po_index :: nat
  po_batch_size :: nat

datatype any_gate = Gate_limited budget_gate | Gate_open passthrough_gate

fun any_authorize :: "int \<Rightarrow> string \<Rightarrow> any_gate \<Rightarrow> budget_decision \<times> any_gate" where
  "any_authorize step action (Gate_limited g) = map_prod id Gate_limited (gate_authorize step action g)"
| "any_authorize step action (Gate_open g) = map_prod id Gate_open (passthrough_authorize step action g)"

fun any_remaining :: "any_gate \<Rightarrow> int" where
  "any_remaining (Gate_limited g) = gate_remaining g"
| "any_remaining (Gate_open g) = passthrough_remaining g"

fun any_entries :: "any_gate \<Rightarrow> gate_entry list" where
  "any_entries (Gate_limited g) = bg_entries g"
| "any_entries (Gate_open g) = pg_entries g"

lemma any_authorize_cases:
  assumes "any_authorize step action g = (decision, g')"
  obtains (limited) h h' where "g = Gate_limited h" "g' = Gate_limited h'" "gate_authorize step action h = (decision, h')"
  | (unlimited) h h' where "g = Gate_open h" "g' = Gate_open h'" "passthrough_authorize step action h = (decision, h')"
  using assms by (cases g) (auto simp: map_prod_def split: prod.splits)

interpretation any: recovery_gate any_authorize any_entries
proof unfold_locales
  fix step action g decision g'
  assume "any_authorize step action g = (decision, g')"
  then show "\<exists>e. any_entries g' = any_entries g @ [e] \<and> ge_step e = step \<and> ge_action e = action
      \<and> ge_authorization e = budget_decision_value decision"
    by (cases rule: any_authorize_cases) (simp_all add: limited.entered passthrough.entered)
next
  fix step action g decision g'
  assume "any_authorize step action g = (decision, g')"
  then show "decision \<noteq> Budget_DENY"
    by (cases rule: any_authorize_cases) (simp_all add: limited.never_denied passthrough.never_denied)
qed

record agent_core =
  ac_task :: string
  ac_tools :: "pyval list"
  ac_history :: "pydict list"
  ac_step :: nat
  ac_observations :: "public_observation list"
  ac_ledger :: "evidence_ledger option"
  ac_validator_events :: "pydict list"
  ac_pending :: "recovery_choice option"
  ac_pending_call :: "call_record option"
  ac_decisions :: "pydict list"
  ac_escalated :: bool
  ac_reason :: string
  ac_last_call_id :: "string option"
  ac_last_provider :: "string option"
  ac_last_call :: "call_record option"
  ac_batch :: "(call_record list \<times> nat set) option"
  ac_invocations :: nat
  ac_candidates :: nat
  ac_ids :: "string set"
  ac_budget :: "any_gate option"
  ac_gate :: "auth_gate option"
  ac_decider :: route_decider
  ac_termination :: string
  ac_recovery_count :: nat
  ac_lineage_task :: "string option"
  ac_lineage_trial :: "string option"

datatype core_error =
    Batch_unresolved | Invalid_tool_name | Arguments_not_object | Provider_id_invalid | Provider_id_repeated
  | Index_out_of_range | Result_repeated | Result_name_mismatch
  | Driver_raised string | Validator_raised string | Policy_raised string | Observer_raised string

section \<open>Texts and digests\<close>

fun json_text :: "pyval \<Rightarrow> string" where
  "json_text PNone = ''null''"
| "json_text (PBool b) = (if b then ''true'' else ''false'')"
| "json_text (PInt i) = int_str i"
| "json_text (PStr s) = json_quote s"
| "json_text (PList xs) = ''['' @ join '', '' (map json_text xs) @ '']''"
| "json_text (PDict d) = ''{'' @ join '', '' (map (\<lambda>(k, v). json_quote k @ '': '' @ json_text v) d) @ ''}''"

definition core_digest :: "(string \<Rightarrow> string) \<Rightarrow> pydict \<Rightarrow> string" where
  "core_digest sha d = take 16 (sha (json_dumps '', '' '': '' (PDict d)))"

definition str_fallback :: "string option \<Rightarrow> string \<Rightarrow> string" where
  "str_fallback s t = (case s of Some (c # cs) \<Rightarrow> c # cs | _ \<Rightarrow> t)"

definition stable_action_identity :: "(string \<Rightarrow> string) \<Rightarrow> string \<Rightarrow> pydict \<Rightarrow> string" where
  "stable_action_identity sha tool d = tool @ '':'' @ stable_hash sha (PDict d)"

definition lineage_task :: "agent_core \<Rightarrow> string" where
  "lineage_task c = str_fallback (ac_lineage_task c) (take 64 (ac_task c))"

section \<open>Construction and reset\<close>

definition core_initialize :: "string \<Rightarrow> pyval list \<Rightarrow> agent_core \<Rightarrow> agent_core" where
  "core_initialize task tools c =
     c\<lparr>ac_task := task, ac_tools := tools,
       ac_history := [[(''role'', PStr ''user''), (''content'', PStr task)]],
       ac_step := 0, ac_pending := None, ac_decisions := [], ac_escalated := False, ac_reason := [],
       ac_observations := [], ac_batch := None, ac_pending_call := None\<rparr>"

definition core_reset :: "agent_core \<Rightarrow> agent_core" where
  "core_reset c =
     c\<lparr>ac_task := [], ac_tools := [], ac_history := [], ac_step := 0, ac_pending := None, ac_decisions := [],
       ac_escalated := False, ac_reason := [], ac_last_call_id := None, ac_last_provider := None,
       ac_last_call := None, ac_batch := None, ac_pending_call := None, ac_invocations := 0, ac_candidates := 0,
       ac_ids := {}, ac_observations := [], ac_decider := route_reset (ac_decider c), ac_termination := ''NONE'',
       ac_recovery_count := 0\<rparr>"

definition core_new :: agent_core where
  "core_new =
     \<lparr>ac_task = [], ac_tools = [], ac_history = [], ac_step = 0, ac_observations = [], ac_ledger = None,
      ac_validator_events = [], ac_pending = None, ac_pending_call = None, ac_decisions = [], ac_escalated = False,
      ac_reason = [], ac_last_call_id = None, ac_last_provider = None, ac_last_call = None, ac_batch = None,
      ac_invocations = 0, ac_candidates = 0, ac_ids = {}, ac_budget = None, ac_gate = None,
      ac_decider = \<lparr>dc_mode = Route_v1, dc_replans = (\<lambda>_. 0), dc_sequence = 0\<rparr>, ac_termination = ''NONE'',
      ac_recovery_count = 0, ac_lineage_task = None, ac_lineage_trial = None\<rparr>"

definition set_route_mode :: "string \<Rightarrow> agent_core \<Rightarrow> agent_core option" where
  "set_route_mode m c = map_option (\<lambda>d. c\<lparr>ac_decider := d\<rparr>) (route_decider_new m)"

section \<open>Stopping\<close>

fun terminal_kind :: "recovery_kind \<Rightarrow> bool" where
  "terminal_kind Kind_STOP = True"
| "terminal_kind Kind_ESCALATE = True"
| "terminal_kind _ = False"

definition has_terminal_recovery_pending :: "agent_core \<Rightarrow> bool" where
  "has_terminal_recovery_pending c \<longleftrightarrow> ac_escalated c \<or>
     (case ac_pending c of Some d \<Rightarrow> terminal_kind (rx_action d) | None \<Rightarrow> False)"

definition core_event :: "control_kind \<Rightarrow> pydict \<Rightarrow> agent_core \<Rightarrow> agent_core" where
  "core_event kind fs c = c\<lparr>ac_gate := map_option (record_event kind fs) (ac_gate c)\<rparr>"

definition mark_control_escalation :: "string \<Rightarrow> string \<Rightarrow> agent_core \<Rightarrow> agent_core" where
  "mark_control_escalation reason kind c =
     core_event Control_ESCALATION
       [(''step'', PInt (int (ac_step c))), (''reason'', PStr reason), (''source'', PStr ''execution_control_gate''),
        (''termination_kind'', PStr kind)]
       (c\<lparr>ac_escalated := True, ac_reason := reason, ac_termination := kind\<rparr>)"

section \<open>Blocked calls\<close>

definition batch_answered :: "nat \<Rightarrow> agent_core \<Rightarrow> agent_core" where
  "batch_answered i c =
     (case ac_batch c of
        Some (calls, answered) \<Rightarrow>
          if i < length calls then c\<lparr>ac_batch := Some (calls, insert i answered)\<rparr> else c
      | None \<Rightarrow> c)"

text \<open>The entries that tie a tool message to its call.\<close>

definition pairing :: "call_record \<Rightarrow> pydict" where
  "pairing r =
     (case cr_call r of Some (x # xs) \<Rightarrow> [(''tool_call_id'', PStr (x # xs)), (''invocation_id'', PStr (x # xs))] | _ \<Rightarrow> [])
     @ (case cr_provider r of
          Some (x # xs) \<Rightarrow> if cr_recorded r then [(''provider_tool_call_id'', PStr (x # xs))] else []
        | _ \<Rightarrow> [])"

definition synthetic_message :: "call_record \<Rightarrow> string \<Rightarrow> string \<Rightarrow> pydict" where
  "synthetic_message r rule reason =
     [(''role'', PStr ''tool''), (''name'', PStr (cr_tool r)),
      (''content'', PStr (''[ODYS-CONTROL][SYNTHETIC RESPONSE - NOT A REAL TOOL OBSERVATION] '' @
         json_text (PDict [(''synthetic_response'', PBool True), (''executed'', PBool False),
           (''control_decision'', PStr ''BLOCKED''), (''rule'', PStr rule), (''reason'', PStr reason)]))),
      (''_synthetic_response'', PBool True), (''synthetic_reason'', PStr reason), (''synthetic_rule'', PStr rule)]
     @ pairing r"

definition record_blocked_tool_call :: "call_record \<Rightarrow> nat \<Rightarrow> string \<Rightarrow> string \<Rightarrow> agent_core \<Rightarrow> agent_core" where
  "record_blocked_tool_call r index rule reason c =
     batch_answered index (c\<lparr>ac_history := ac_history c @ [synthetic_message r rule reason]\<rparr>)"

section \<open>Identities of calls\<close>

definition new_invocation_id :: "agent_core \<Rightarrow> string \<times> agent_core" where
  "new_invocation_id c =
     (let n = Suc (ac_invocations c); i = ''odys-invocation-'' @ nat_digits n
      in (i, c\<lparr>ac_invocations := n, ac_ids := insert i (ac_ids c)\<rparr>))"

text \<open>A requested id is kept when it is non-empty and was not used before.\<close>

definition take_invocation_id :: "string option \<Rightarrow> agent_core \<Rightarrow> string \<times> agent_core" where
  "take_invocation_id requested c =
     (case requested of
        Some (x # xs) \<Rightarrow>
          if x # xs \<notin> ac_ids c then (x # xs, c\<lparr>ac_ids := insert (x # xs) (ac_ids c)\<rparr>) else new_invocation_id c
      | _ \<Rightarrow> new_invocation_id c)"

text \<open>The calls of one response in order, the index and the provider ids seen so far as arguments.\<close>

fun batch_records ::
  "model_action \<Rightarrow> nat \<Rightarrow> string set \<Rightarrow> model_call list \<Rightarrow> agent_core \<Rightarrow> (core_error + call_record list) \<times> agent_core" where
  "batch_records a i seen [] c = (Inr [], c)"
| "batch_records a i seen (m # ms) c =
     (let provider = (if i = 0 \<and> mc_provider m = None then ma_provider a else mc_provider m) in
      if mc_tool m = None \<or> mc_tool m = Some [] then (Inl Invalid_tool_name, c)
      else (case as_dict (mc_arguments m) of
          None \<Rightarrow> (Inl Arguments_not_object, c)
        | Some args \<Rightarrow>
            if provider = Some [] then (Inl Provider_id_invalid, c)
            else if provider \<noteq> None \<and> the provider \<in> seen then (Inl Provider_id_repeated, c)
            else (let (call, c1) = take_invocation_id (mc_call m) c;
                      r = \<lparr>cr_tool = the (mc_tool m), cr_arguments = args, cr_call = Some call, cr_provider = provider,
                           cr_retry_of = None, cr_recorded = (provider \<noteq> None)\<rparr>
                  in (case batch_records a (Suc i) (seen \<union> set_option provider) ms c1 of
                        (Inl e, c2) \<Rightarrow> (Inl e, c2)
                      | (Inr rs, c2) \<Rightarrow> (Inr (r # rs), c2)))))"

definition record_call :: "call_record \<Rightarrow> model_call" where
  "record_call r = \<lparr>mc_tool = Some (cr_tool r), mc_arguments = PDict (cr_arguments r), mc_call = cr_call r, mc_provider = cr_provider r\<rparr>"

definition action_calls :: "model_action \<Rightarrow> model_call list" where
  "action_calls a =
     (if ma_calls a \<noteq> [] then ma_calls a
      else [\<lparr>mc_tool = ma_tool a, mc_arguments = (if py_truthy (ma_arguments a) then ma_arguments a else PDict []),
             mc_call = ma_call_id a, mc_provider = ma_provider a\<rparr>])"

definition normalize_tool_call_batch ::
  "model_action \<Rightarrow> agent_core \<Rightarrow> (core_error + (model_action \<times> call_record list)) \<times> agent_core" where
  "normalize_tool_call_batch a c =
     (case batch_records a 0 {} (action_calls a) c of
        (Inl e, c') \<Rightarrow> (Inl e, c')
      | (Inr rs, c') \<Rightarrow>
          (let r = hd rs in
           (Inr (a\<lparr>ma_type := ''tool_call'', ma_tool := Some (cr_tool r), ma_arguments := PDict (cr_arguments r),
                   ma_calls := map record_call rs, ma_call_id := cr_call r, ma_provider := cr_provider r\<rparr>, rs), c')))"

definition next_candidate_id :: "agent_core \<Rightarrow> string \<times> agent_core" where
  "next_candidate_id c =
     (let n = Suc (ac_candidates c)
      in (''candidate-'' @ nat_digits (ac_step c) @ ''-'' @ nat_digits n, c\<lparr>ac_candidates := n\<rparr>))"

definition evidence_refs :: "agent_core \<Rightarrow> string list" where
  "evidence_refs c = (case ac_ledger c of None \<Rightarrow> [] | Some l \<Rightarrow> map ee_id (el_events l))"

end
