(* ===== verification/CoreRecovery.thy ===== *)
theory CoreRecovery imports CoreState begin

text \<open>
  Admission of a recovery decision in the agent core of phase 5 (\<open>_authorize_recovery\<close>, \<open>_route_decision\<close> and
  \<open>_record_recovery_event\<close> of \<open>src/lhas/phase5/agent_core.py\<close>): the route decider judges it on the evidence
  of the execution gate, the budget gate pays for it, and the first admitted decision owns the slot.

  \<^item> \<open>calls_used\<close> is what the driver reports of its own budget, \<open>None\<close> when it reports nothing.
  \<^item> The result is the admitted route decision, \<open>None\<close> when the decision was not admitted.
\<close>

section \<open>The route\<close>

definition retry_call_of :: "call_record option \<Rightarrow> agent_core \<Rightarrow> call_record option" where
  "retry_call_of r c = (case r of Some x \<Rightarrow> Some x | None \<Rightarrow> ac_last_call c)"

definition core_call_tool :: "call_record option \<Rightarrow> string" where
  "core_call_tool r = (case r of Some x \<Rightarrow> cr_tool x | None \<Rightarrow> [])"

definition core_call_arguments :: "call_record option \<Rightarrow> pydict" where
  "core_call_arguments r = (case r of Some x \<Rightarrow> cr_arguments x | None \<Rightarrow> [])"

definition judge_request :: "call_record option \<Rightarrow> agent_core \<Rightarrow> gate_request" where
  "judge_request r c =
     \<lparr>gq_step = int (ac_step c), gq_tool = core_call_tool r, gq_arguments = PDict (core_call_arguments r), gq_call = None,
      gq_provider = None, gq_origin = ''model_batch'', gq_index = 0\<rparr>"

definition budget_snapshot :: "agent_core \<Rightarrow> int option" where
  "budget_snapshot c = map_option any_remaining (ac_budget c)"

fun retry_family :: "recovery_kind \<Rightarrow> bool" where
  "retry_family Kind_RETRY = True"
| "retry_family Kind_RETRY_WITH_CONTEXT = True"
| "retry_family _ = False"

text \<open>The judgement of the gate on a retry, and the gate after it.\<close>

definition judge_retry ::
  "(string \<Rightarrow> string) \<Rightarrow> (string \<Rightarrow> pyval option) \<Rightarrow> recovery_choice \<Rightarrow> call_record option \<Rightarrow> agent_core
    \<Rightarrow> authorization option \<times> agent_core" where
  "judge_retry sha loads d r c =
     (case ac_gate c of
        None \<Rightarrow> (None, c)
      | Some g \<Rightarrow>
          if retry_family (rx_action d)
          then (let (a, g') = is_retry_justified sha loads (judge_request r c) g in (Some a, c\<lparr>ac_gate := Some g'\<rparr>))
          else (None, c))"

definition route_inputs_of ::
  "(string \<Rightarrow> string) \<Rightarrow> (string \<Rightarrow> pyval option) \<Rightarrow> int option \<Rightarrow> recovery_choice \<Rightarrow> call_record option \<Rightarrow> agent_core
    \<Rightarrow> route_inputs" where
  "route_inputs_of sha loads calls_used d r c =
     (let q = judge_request r c;
          attempts = (case ac_gate c of Some g \<Rightarrow> route_attempts sha loads q g | None \<Rightarrow> []);
          (change, grade) = (case ac_gate c of Some g \<Rightarrow> state_change_for sha loads q g | None \<Rightarrow> (UNKNOWN_CHANGE, Grade_UNKNOWN));
          last_result = (case ac_gate c of Some g \<Rightarrow> last_normalized sha loads q g | None \<Rightarrow> None);
          precondition = (case ac_gate c of Some g \<Rightarrow> ag_conditions g | None \<Rightarrow> [])
      in \<lparr>ri_step = int (ac_step c), ri_proposed = recovery_kind_value (rx_action d), ri_tool = core_call_tool r,
          ri_arguments = core_digest sha (core_call_arguments r),
          ri_exec = (case last_result of Some n \<Rightarrow> tool_exec_value (nr_exec n) | None \<Rightarrow> ''UNKNOWN''),
          ri_ready = (case last_result of Some n \<Rightarrow> tool_ready_value (nr_ready n) | None \<Rightarrow> ''UNKNOWN''),
          ri_retryable = (case last_result of Some n \<Rightarrow> retryability_value (nr_retryable n) | None \<Rightarrow> ''UNKNOWN''),
          ri_affects = (case last_result of Some n \<Rightarrow> nr_affects n | None \<Rightarrow> False),
          ri_transient = (case last_result of Some n \<Rightarrow> nr_transient n | None \<Rightarrow> False),
          ri_precondition = precondition,
          ri_precondition_grade = (if precondition \<noteq> [] then ''DIRECT'' else ''ABSENT''),
          ri_change = change, ri_change_grade = grade, ri_attempts = attempts, ri_remaining = budget_snapshot c,
          ri_model_calls = calls_used,
          ri_terminal = ((case ac_gate c of Some g \<Rightarrow> ag_terminal g | None \<Rightarrow> False) \<or> ac_escalated c),
          ri_prior_replans = 0\<rparr>)"

definition core_route ::
  "(string \<Rightarrow> string) \<Rightarrow> (string \<Rightarrow> pyval option) \<Rightarrow> int option \<Rightarrow> recovery_choice \<Rightarrow> call_record option \<Rightarrow> agent_core
    \<Rightarrow> (route_decision \<times> authorization option) \<times> agent_core" where
  "core_route sha loads calls_used d given c =
     (let r = retry_call_of given c; (judged, c1) = judge_retry sha loads d r c;
          (decision, dc) = decide_route (route_inputs_of sha loads calls_used d r c1) (ac_decider c1)
      in ((decision, judged), c1\<lparr>ac_decider := dc\<rparr>))"

section \<open>Admission\<close>

text \<open>\<open>RecoveryActionKind(mapped)\<close>.\<close>

fun kind_of_route :: "recovery_route \<Rightarrow> recovery_kind" where
  "kind_of_route CONTINUE = Kind_NONE"
| "kind_of_route RETRY_SAME = Kind_RETRY"
| "kind_of_route RETRY_CHANGED = Kind_RETRY_WITH_CONTEXT"
| "kind_of_route REPLAN = Kind_RETRY_WITH_CONTEXT"
| "kind_of_route ESCALATE = Kind_ESCALATE"
| "kind_of_route STOP = Kind_STOP"

definition terminal_route :: "recovery_route \<Rightarrow> bool" where
  "terminal_route r \<longleftrightarrow> r = STOP \<or> r = ESCALATE"

definition working_choice :: "recovery_choice \<Rightarrow> route_decision \<Rightarrow> recovery_choice" where
  "working_choice d rt =
     \<lparr>rx_action = kind_of_route (rt_route rt),
      rx_reason = (if map_route_to_recovery_action (rt_route rt) = recovery_kind_value (rx_action d) then rx_reason d
                   else rx_reason d @ '' ['' @ rt_reason rt @ ''] '' @ rt_rationale rt),
      rx_signal = rx_signal d,
      rx_evidence = dict_merge (rx_evidence d)
        [(''route'', PStr (recovery_route_value (rt_route rt))), (''route_reason_code'', PStr (rt_reason rt)),
         (''route_decision_id'', PStr (rt_id rt)), (''state_change'', PStr (rt_change rt))]\<rparr>"

definition recovery_event_fields ::
  "(string \<Rightarrow> string) \<Rightarrow> int option \<Rightarrow> route_decision \<Rightarrow> recovery_choice \<Rightarrow> call_record option \<Rightarrow> authorization option
    \<Rightarrow> string \<Rightarrow> bool \<Rightarrow> int option \<Rightarrow> agent_core \<Rightarrow> pydict" where
  "recovery_event_fields sha calls_used rt w r judged budget authorized before c =
     [(''step'', PInt (int (ac_step c))), (''decision_id'', PStr (rt_id rt)),
      (''route_policy_version'', PStr ''recovery-route-v1''),
      (''tool_name'', opt_str (map_option cr_tool r)), (''tool_call_id'', opt_str (Option.bind r cr_call)),
      (''provider_tool_call_id'', opt_str (Option.bind r cr_provider)),
      (''action_signature'', PStr (core_digest sha (core_call_arguments r))),
      (''route'', PStr (recovery_route_value (rt_route rt))), (''reason_code'', PStr (rt_reason rt)),
      (''rationale'', PStr (rt_rationale rt)), (''route_evidence'', PDict (rt_evidence rt)),
      (''evidence_grade'', PStr (rt_grade rt)), (''state_change'', PStr (rt_change rt)),
      (''state_summary'', PDict
         [(''precondition_state'', PDict (case ac_gate c of Some g \<Rightarrow> map (\<lambda>(k, v). (k, PStr v)) (ag_conditions g) | None \<Rightarrow> [])),
          (''terminal'', PBool (case ac_gate c of Some g \<Rightarrow> ag_terminal g | None \<Rightarrow> ac_escalated c))]),
      (''action'', PStr (recovery_kind_value (rx_action w))), (''reason'', PStr (rx_reason w)),
      (''signal'', opt_str (rx_signal w)),
      (''retry_justified'', (case judged of Some a \<Rightarrow> PBool (az_authorized a) | None \<Rightarrow> PNone)),
      (''retry_justification_rule'', opt_str (map_option az_rule judged)),
      (''budget_decision'', PStr budget), (''recovery_budget_before'', opt_int before),
      (''recovery_budget_after'', opt_int (budget_snapshot c)), (''model_calls_used'', opt_int calls_used),
      (''authorized'', PBool authorized)]"

definition record_recovery_event ::
  "(string \<Rightarrow> string) \<Rightarrow> int option \<Rightarrow> route_decision \<Rightarrow> recovery_choice \<Rightarrow> call_record option \<Rightarrow> authorization option
    \<Rightarrow> string \<Rightarrow> bool \<Rightarrow> int option \<Rightarrow> agent_core \<Rightarrow> agent_core" where
  "record_recovery_event sha calls_used rt w given judged budget authorized before c =
     (let c1 = c\<lparr>ac_recovery_count := Suc (ac_recovery_count c)\<rparr>
      in core_event Control_RECOVERY
           (recovery_event_fields sha calls_used rt w (retry_call_of given c1) judged budget authorized before c1) c1)"

text \<open>The budget gate is asked unless there is none or the route is terminal.\<close>

definition ask_budget :: "recovery_choice \<Rightarrow> route_decision \<Rightarrow> agent_core \<Rightarrow> budget_decision option \<times> agent_core" where
  "ask_budget w rt c =
     (case ac_budget c of
        None \<Rightarrow> (None, c)
      | Some g \<Rightarrow>
          if terminal_route (rt_route rt) then (None, c)
          else (let (b, g') = any_authorize (int (ac_step c)) (recovery_kind_value (rx_action w)) g
                in (Some b, c\<lparr>ac_budget := Some g'\<rparr>)))"

definition exhaust_budget :: "agent_core \<Rightarrow> agent_core" where
  "exhaust_budget c =
     (let reason = ''Recovery budget exhausted at step '' @ nat_digits (ac_step c)
      in core_event Control_ESCALATION
           [(''step'', PInt (int (ac_step c))), (''reason'', PStr reason), (''source'', PStr ''recovery_budget_gate''),
            (''termination_kind'', PStr ''BUDGET_EXHAUSTION'')]
           (c\<lparr>ac_escalated := True, ac_termination := ''BUDGET_EXHAUSTION'', ac_reason := reason\<rparr>))"

definition note_termination :: "recovery_route \<Rightarrow> agent_core \<Rightarrow> agent_core" where
  "note_termination route c =
     (if route = STOP then c\<lparr>ac_termination := ''STOP''\<rparr>
      else if route = ESCALATE then c\<lparr>ac_termination := ''ESCALATION''\<rparr> else c)"

definition authorize_recovery ::
  "(string \<Rightarrow> string) \<Rightarrow> (string \<Rightarrow> pyval option) \<Rightarrow> int option \<Rightarrow> recovery_choice \<Rightarrow> call_record option \<Rightarrow> agent_core
    \<Rightarrow> route_decision option \<times> agent_core" where
  "authorize_recovery sha loads calls_used d given c =
     (if ac_pending c \<noteq> None then (None, c)
      else (let ((rt, judged), c1) = core_route sha loads calls_used d given c;
                w = working_choice d rt;
                before = budget_snapshot c1;
                (asked, c2) = ask_budget w rt c1;
                answer = (case asked of Some b \<Rightarrow> budget_decision_value b | None \<Rightarrow> ''NOT_CONSUMED'')
            in if asked = Some Budget_ESCALATE
               then (None, record_recovery_event sha calls_used rt w given judged answer False before (exhaust_budget c2))
               else (Some rt, (record_recovery_event sha calls_used rt w given judged answer True before
                       (note_termination (rt_route rt) c2))\<lparr>ac_pending := Some w, ac_pending_call := given\<rparr>)))"

section \<open>Lemmas\<close>

lemma core_event_frame [simp]:
  "ac_pending (core_event k fs c) = ac_pending c" "ac_budget (core_event k fs c) = ac_budget c"
  "ac_escalated (core_event k fs c) = ac_escalated c" "ac_last_call (core_event k fs c) = ac_last_call c"
  "ac_batch (core_event k fs c) = ac_batch c" "ac_decider (core_event k fs c) = ac_decider c"
  "ac_history (core_event k fs c) = ac_history c" "ac_step (core_event k fs c) = ac_step c"
  "ac_pending_call (core_event k fs c) = ac_pending_call c" "ac_reason (core_event k fs c) = ac_reason c"
  "ac_observations (core_event k fs c) = ac_observations c" "ac_termination (core_event k fs c) = ac_termination c"
  by (simp_all add: core_event_def)

lemma note_termination_frame [simp]:
  "ac_pending (note_termination k c) = ac_pending c" "ac_budget (note_termination k c) = ac_budget c"
  "ac_escalated (note_termination k c) = ac_escalated c" "ac_last_call (note_termination k c) = ac_last_call c"
  "ac_batch (note_termination k c) = ac_batch c" "ac_step (note_termination k c) = ac_step c"
  "ac_decider (note_termination k c) = ac_decider c" "ac_gate (note_termination k c) = ac_gate c"
  by (simp_all add: note_termination_def)

lemma record_recovery_event_frame [simp]:
  "ac_pending (record_recovery_event sha u rt w r j b a f c) = ac_pending c"
  "ac_budget (record_recovery_event sha u rt w r j b a f c) = ac_budget c"
  "ac_escalated (record_recovery_event sha u rt w r j b a f c) = ac_escalated c"
  "ac_last_call (record_recovery_event sha u rt w r j b a f c) = ac_last_call c"
  "ac_batch (record_recovery_event sha u rt w r j b a f c) = ac_batch c"
  "ac_termination (record_recovery_event sha u rt w r j b a f c) = ac_termination c"
  by (simp_all add: record_recovery_event_def Let_def)

lemma exhaust_budget_frame [simp]:
  "ac_pending (exhaust_budget c) = ac_pending c" "ac_budget (exhaust_budget c) = ac_budget c"
  "ac_escalated (exhaust_budget c)" "ac_last_call (exhaust_budget c) = ac_last_call c"
  "ac_batch (exhaust_budget c) = ac_batch c" "ac_termination (exhaust_budget c) = ''BUDGET_EXHAUSTION''"
  by (simp_all add: exhaust_budget_def Let_def)

lemma core_route_frame:
  assumes "core_route sha loads u d given c = ((rt, judged), c')"
  shows "ac_pending c' = ac_pending c" "ac_budget c' = ac_budget c" "ac_escalated c' = ac_escalated c"
    "ac_last_call c' = ac_last_call c" "ac_batch c' = ac_batch c" "ac_step c' = ac_step c"
  using assms by (auto simp: core_route_def judge_retry_def Let_def split: prod.splits option.splits if_splits)

lemma gate_remaining_authorize:
  assumes "gate_authorize step action g = (b, g')"
  shows "b = Budget_ESCALATE \<and> gate_remaining g = 0 \<and> gate_remaining g' = gate_remaining g
    \<or> b = Budget_ALLOW \<and> 0 < gate_remaining g \<and> gate_remaining g' = gate_remaining g - 1"
  using assms by (auto simp: gate_authorize_def gate_remaining_def Let_def split: if_splits)

text \<open>What one admission does: refused as the slot is taken, refused for lack of budget, or admitted.\<close>

lemma authorize_recovery_cases:
  assumes "authorize_recovery sha loads u d given c = (res, c')"
  obtains (taken) "ac_pending c \<noteq> None" "res = None" "c' = c"
  | (exhausted) "ac_pending c = None" "res = None" "ac_escalated c'" "ac_pending c' = None"
      "ac_termination c' = ''BUDGET_EXHAUSTION''" "ac_batch c' = ac_batch c" "ac_last_call c' = ac_last_call c"
  | (admitted) rt judged c1 where "ac_pending c = None" "res = Some rt"
      "core_route sha loads u d given c = ((rt, judged), c1)"
      "ac_pending c' = Some (working_choice d rt)" "ac_pending_call c' = given"
      "ac_budget c' = ac_budget (snd (ask_budget (working_choice d rt) rt c1))"
      "fst (ask_budget (working_choice d rt) rt c1) \<noteq> Some Budget_ESCALATE"
      "ac_escalated c' = ac_escalated c" "ac_batch c' = ac_batch c" "ac_last_call c' = ac_last_call c"
proof (cases "ac_pending c = None")
  case False
  have "authorize_recovery sha loads u d given c = (None, c)" unfolding authorize_recovery_def by (rule if_P [OF False])
  then show thesis using assms taken [OF False] by simp
next
  case True
  obtain x c1 where x: "core_route sha loads u d given c = (x, c1)" by (rule prod.exhaust)
  obtain rt judged where "x = (rt, judged)" by (rule prod.exhaust)
  with x have route: "core_route sha loads u d given c = ((rt, judged), c1)" by simp
  obtain asked c2 where ask: "ask_budget (working_choice d rt) rt c1 = (asked, c2)" by fastforce
  note frame = core_route_frame [OF route]
  have c2: "ac_pending c2 = ac_pending c" "ac_escalated c2 = ac_escalated c" "ac_batch c2 = ac_batch c"
    "ac_last_call c2 = ac_last_call c"
    using ask frame by (auto simp: ask_budget_def split: option.splits if_splits prod.splits)
  let ?answer = "case asked of Some b \<Rightarrow> budget_decision_value b | None \<Rightarrow> ''NOT_CONSUMED''"
  have eq: "authorize_recovery sha loads u d given c =
      (if asked = Some Budget_ESCALATE
       then (None, record_recovery_event sha u rt (working_choice d rt) given judged ?answer False (budget_snapshot c1) (exhaust_budget c2))
       else (Some rt, (record_recovery_event sha u rt (working_choice d rt) given judged ?answer True (budget_snapshot c1)
               (note_termination (rt_route rt) c2))\<lparr>ac_pending := Some (working_choice d rt), ac_pending_call := given\<rparr>))"
    by (simp only: authorize_recovery_def True route ask Let_def prod.case simp_thms if_False)
  show thesis
  proof (cases "asked = Some Budget_ESCALATE")
    case esc: True
    have "res = None" "c' = record_recovery_event sha u rt (working_choice d rt) given judged ?answer False (budget_snapshot c1) (exhaust_budget c2)"
      using assms unfolding eq if_P [OF esc] by (simp_all only: prod.inject)
    then show thesis using exhausted [OF True] c2 True by simp
  next
    case False
    have r: "res = Some rt" "c' = (record_recovery_event sha u rt (working_choice d rt) given judged ?answer True (budget_snapshot c1)
               (note_termination (rt_route rt) c2))\<lparr>ac_pending := Some (working_choice d rt), ac_pending_call := given\<rparr>"
      using assms unfolding eq if_not_P [OF False] by (simp_all only: prod.inject)
    show thesis
      by (rule admitted [OF True r(1) route]) (simp_all add: r(2) ask False c2)
  qed
qed

end
