(* ===== verification/CoreLoop.thy ===== *)
theory CoreLoop imports CoreRecovery begin

text \<open>
  The two entry points of the agent core of phase 5 (\<open>next_model_action\<close> and \<open>receive_tool_result\<close> of
  \<open>src/lhas/phase5/agent_core.py\<close>).

  \<^item> \<open>core_env\<close> holds what the core is wired to and calls: the model driver, the shadow observer, the policy
    strategy, the runtime validator. All of them share the state \<open>'e\<close>; an exception is a left value.
  \<^item> The \<open>while True\<close> of \<open>next_model_action\<close> is \<open>action_loop\<close> with fuel; \<open>None\<close> is a loop still running.
    One round is \<open>apply_pending\<close> (the recovery decision waiting in the slot) and \<open>model_round\<close>.
\<close>

section \<open>What the core is wired to\<close>

record 'e core_env =
  ce_sha :: "string \<Rightarrow> string"
  ce_loads :: "string \<Rightarrow> pyval option"
  ce_eid :: "nat \<Rightarrow> string"
  ce_next :: "pydict list \<Rightarrow> pyval list \<Rightarrow> 'e \<Rightarrow> (string + model_action) \<times> 'e"
  ce_note :: "string \<Rightarrow> pyval \<Rightarrow> 'e \<Rightarrow> 'e"
  ce_used :: "'e \<Rightarrow> int option"
  ce_observe :: "(string \<Rightarrow> nat \<Rightarrow> string \<Rightarrow> pyval \<Rightarrow> 'e \<Rightarrow> (string + string option) \<times> 'e) option"
  ce_step_policy :: "(nat \<Rightarrow> pyval \<Rightarrow> 'e \<Rightarrow> (string + recovery_choice) \<times> 'e) option"
  ce_validates :: bool
  ce_validator :: "(string \<Rightarrow> string list \<Rightarrow> public_evidence \<Rightarrow> 'e \<Rightarrow> (string + validator_feedback) \<times> 'e) option"
  ce_validator_hash :: string
  ce_reject_policy :: "(validator_feedback \<Rightarrow> model_action \<Rightarrow> 'e \<Rightarrow> (string + recovery_choice option) \<times> 'e) option"

section \<open>The pending recovery\<close>

definition failure_context :: "recovery_choice \<Rightarrow> string" where
  "failure_context d =
     (let safe = filter (\<lambda>p. \<not> prefix ''phase4_'' (fst p) \<or> fst p = ''phase4_recovery_action'') (rx_evidence d)
      in join [char_of (10::nat)]
           ([''[RECOVERY CONTEXT] The previous tool call encountered an issue.'',
             ''Recovery action: '' @ recovery_kind_value (rx_action d), ''Reason: '' @ rx_reason d]
            @ (case rx_signal d of Some (x # xs) \<Rightarrow> [''Signal: '' @ x # xs] | _ \<Rightarrow> [])
            @ (if rx_evidence d \<noteq> [] \<and> safe \<noteq> [] then [''Evidence: '' @ py_repr (PDict safe)] else [])
            @ [''Please adjust your approach. Consider alternative tools, different arguments, or a different strategy to accomplish the task.'']))"

definition replay_action :: "call_record \<Rightarrow> recovery_choice \<Rightarrow> string \<Rightarrow> nat \<Rightarrow> model_action" where
  "replay_action r d rid n =
     \<lparr>ma_type = ''tool_call'', ma_tool = Some (cr_tool r), ma_arguments = PDict (cr_arguments r), ma_content = None,
      ma_thought = Some (''[RETRY] '' @ rx_reason d), ma_calls = [], ma_call_id = Some rid,
      ma_provider = Some (''odys-retry-provider-'' @ nat_digits n), ma_reasoning = None, ma_retry_of = cr_call r\<rparr>"

definition replay_message :: "call_record \<Rightarrow> recovery_choice \<Rightarrow> string \<Rightarrow> nat \<Rightarrow> pydict" where
  "replay_message r d rid n =
     (let provider = ''odys-retry-provider-'' @ nat_digits n in
      [(''role'', PStr ''assistant''), (''type'', PStr ''tool_call''), (''content'', PStr (''[RETRY] '' @ rx_reason d)),
       (''tool_call'', PDict
          ([(''name'', PStr (cr_tool r)), (''arguments'', PDict (cr_arguments r))]
           @ (if cr_recorded r then [(''id'', PStr provider), (''provider_tool_call_id'', PStr provider)] else [])
           @ [(''invocation_id'', PStr rid)]
           @ (case cr_call r of Some (x # xs) \<Rightarrow> [(''retry_of_call_id'', PStr (x # xs))] | _ \<Rightarrow> [])))])"

definition replay_call :: "call_record \<Rightarrow> recovery_choice \<Rightarrow> agent_core \<Rightarrow> model_action \<times> agent_core" where
  "replay_call r d c =
     (let (rid, c1) = new_invocation_id c; n = ac_invocations c1; a = replay_action r d rid n
      in (a, c1\<lparr>ac_history := ac_history c1 @ [replay_message r d rid n],
                ac_last_call_id := Some rid, ac_last_provider := ma_provider a,
                ac_last_call := Some (r\<lparr>cr_call := Some rid, cr_provider := ma_provider a, cr_retry_of := cr_call r\<rparr>),
                ac_batch := None\<rparr>))"

definition terminated :: "string \<Rightarrow> agent_core \<Rightarrow> model_action \<times> agent_core" where
  "terminated reason c = (final_answer (''TERMINATED: '' @ reason), c\<lparr>ac_escalated := True, ac_reason := reason\<rparr>)"

text \<open>An action that ends the step, or none and the core the model is asked from.\<close>

definition apply_pending :: "agent_core \<Rightarrow> model_action option \<times> agent_core" where
  "apply_pending c =
     (case ac_pending c of
        None \<Rightarrow> (None, c)
      | Some d \<Rightarrow>
          (let source = retry_call_of (ac_pending_call c) c; c1 = c\<lparr>ac_pending := None, ac_pending_call := None\<rparr> in
           case rx_action d of
             Kind_ESCALATE \<Rightarrow>
               map_prod Some id (terminated (str_fallback (Some (rx_reason d)) ''Policy strategy requested escalation'') c1)
           | Kind_STOP \<Rightarrow>
               map_prod Some id (terminated (str_fallback (Some (rx_reason d)) ''Policy strategy requested stop'') c1)
           | Kind_RETRY \<Rightarrow>
               (case source of Some r \<Rightarrow> map_prod Some id (replay_call r d c1) | None \<Rightarrow> (None, c1))
           | Kind_RETRY_WITH_CONTEXT \<Rightarrow>
               (None, c1\<lparr>ac_history := ac_history c1 @ [[(''role'', PStr ''system''), (''content'', PStr (failure_context d))]]\<rparr>)
           | Kind_NONE \<Rightarrow> (None, c1)))"

section \<open>One request to the model\<close>

text \<open>The batch of the last response must have been answered in full.\<close>

definition batch_open :: "agent_core \<Rightarrow> bool" where
  "batch_open c \<longleftrightarrow> (case ac_batch c of Some (calls, answered) \<Rightarrow> card answered < length calls | None \<Rightarrow> False)"

definition call_entry :: "call_record \<Rightarrow> pyval" where
  "call_entry r = PDict
     ([(''name'', PStr (cr_tool r)), (''arguments'', PDict (cr_arguments r)), (''invocation_id'', opt_str (cr_call r))]
      @ (case cr_provider r of
           Some (x # xs) \<Rightarrow> [(''id'', PStr (x # xs)), (''provider_tool_call_id'', PStr (x # xs))]
         | _ \<Rightarrow> []))"

definition assistant_message :: "model_action \<Rightarrow> call_record list \<Rightarrow> pydict" where
  "assistant_message a rs =
     [(''role'', PStr ''assistant''), (''type'', PStr (ma_type a)),
      (''content'', PStr (str_fallback (ma_content a) (str_fallback (ma_thought a) [])))]
     @ (if rs = [] then [] else [(''tool_calls'', PList (map call_entry rs))])
     @ (case rs of [r] \<Rightarrow> [(''tool_call'', call_entry r)] | _ \<Rightarrow> [])
     @ (case ma_reasoning a of Some t \<Rightarrow> [(''_provider_transport'', PDict [(''reasoning_content'', PStr t)])] | None \<Rightarrow> [])
     @ (case ma_thought a of Some (x # xs) \<Rightarrow> [(''metadata'', PDict [(''thought'', PStr (x # xs))])] | _ \<Rightarrow> [])"

definition ask_model :: "'e core_env \<Rightarrow> agent_core \<Rightarrow> 'e \<Rightarrow> (core_error + model_action) \<times> agent_core \<times> 'e" where
  "ask_model env c0 e0 =
     (if batch_open c0 then (Inl Batch_unresolved, c0, e0)
      else (let c = c0\<lparr>ac_batch := None\<rparr> in
        case ce_next env (ac_history c) (ac_tools c) e0 of
          (Inl err, e) \<Rightarrow> (Inl (Driver_raised err), c, e)
        | (Inr a, e) \<Rightarrow>
            if ma_type a = ''tool_call'' then
              (case normalize_tool_call_batch a c of
                 (Inl err, c1) \<Rightarrow> (Inl err, c1, e)
               | (Inr (b, rs), c1) \<Rightarrow>
                   (Inr b, c1\<lparr>ac_batch := Some (rs, {}), ac_last_call := Some (hd rs), ac_last_call_id := cr_call (hd rs),
                             ac_last_provider := cr_provider (hd rs),
                             ac_history := ac_history c1 @ [assistant_message b rs]\<rparr>, e))
            else (Inr a, c\<lparr>ac_history := ac_history c @ [assistant_message a []]\<rparr>, e)))"

section \<open>Validation\<close>

definition observation_row :: "public_observation \<Rightarrow> pydict" where
  "observation_row ob = public_row (po_tool ob) (po_call ob) (po_retry_of ob) (po_arguments ob) (po_result ob)"

definition validation_evidence :: "model_action \<Rightarrow> agent_core \<Rightarrow> public_evidence" where
  "validation_evidence a c =
     \<lparr>pe_answer = str_fallback (ma_content a) [], pe_history = ac_history c, pe_tools = ac_tools c,
      pe_refs = evidence_refs c, pe_pending = (ac_pending c \<noteq> None), pe_state_digest = [],
      pe_results = map observation_row (ac_observations c)\<rparr>"

definition core_validation_event :: "string \<Rightarrow> validator_feedback \<Rightarrow> model_action \<Rightarrow> agent_core \<Rightarrow> pydict" where
  "core_validation_event hash fb a c =
     [(''step'', PInt (int (ac_step c))), (''validator_id'', PStr (vb_validator fb)), (''validator_config_hash'', PStr hash),
      (''decision'', PStr (validator_decision_value (vb_decision fb))), (''failure_type'', opt_str (vb_failure fb)),
      (''candidate_answer_preview'', PStr (take 200 (str_fallback (ma_content a) [])))]"

definition validation_failure_event :: "string \<Rightarrow> agent_core \<Rightarrow> pydict" where
  "validation_failure_event err c =
     [(''step'', PInt (int (ac_step c))), (''validator_id'', PStr ''unknown''), (''decision'', PStr ''INFRA_ERROR''),
      (''failure_type'', PStr ''Exception''), (''error'', PStr (take 200 err))]"

definition blocked_answer :: "validator_feedback \<Rightarrow> model_action \<Rightarrow> model_action" where
  "blocked_answer fb a = final_answer
     (''[VALIDATION_BLOCKED] '' @ py_str (opt_str (vb_failure fb)) @ '': '' @ py_str (opt_str (ma_content a)))"

definition core_rejection_entry :: "route_decision \<Rightarrow> agent_core \<Rightarrow> pydict" where
  "core_rejection_entry rt c =
     (case ac_pending c of
        None \<Rightarrow> []
      | Some w \<Rightarrow>
          [(''step'', PInt (int (ac_step c))), (''action'', PStr (recovery_kind_value (rx_action w))),
           (''reason'', PStr (rx_reason w)), (''signal'', PStr ''VALIDATION_REJECT''), (''decision_id'', PStr (rt_id rt)),
           (''route'', PStr (recovery_route_value (rt_route rt))), (''reason_code'', PStr (rt_reason rt)),
           (''state_change'', PStr (rt_change rt))])"

text \<open>How a rejected candidate ends the step (\<open>Some\<close>), or sends the loop into another round.\<close>

definition settle_rejection ::
  "'e core_env \<Rightarrow> validator_feedback \<Rightarrow> model_action \<Rightarrow> agent_core \<Rightarrow> 'e \<Rightarrow> (core_error + model_action) option \<times> agent_core \<times> 'e" where
  "settle_rejection env fb a c e0 =
     (case ce_reject_policy env of
        None \<Rightarrow> (Some (Inr (blocked_answer fb a)), c, e0)
      | Some hook \<Rightarrow>
          (case hook fb a e0 of
             (Inl err, e) \<Rightarrow> (Some (Inl (Policy_raised err)), c, e)
           | (Inr None, e) \<Rightarrow> (Some (Inr (blocked_answer fb a)), c, e)
           | (Inr (Some d), e) \<Rightarrow>
               if rx_action d = Kind_NONE then (Some (Inr (blocked_answer fb a)), c, e)
               else (case authorize_recovery (ce_sha env) (ce_loads env) (ce_used env e) d (ac_last_call c) c of
                   (None, c1) \<Rightarrow>
                     (Some (Inr (if ac_escalated c1 then final_answer (''TERMINATED: '' @ ac_reason c1) else blocked_answer fb a)), c1, e)
                 | (Some rt, c1) \<Rightarrow> (None, c1\<lparr>ac_decisions := ac_decisions c1 @ [core_rejection_entry rt c1]\<rparr>, e))))"

definition validate_candidate ::
  "'e core_env \<Rightarrow> model_action \<Rightarrow> agent_core \<Rightarrow> 'e \<Rightarrow> (core_error + model_action) option \<times> agent_core \<times> 'e" where
  "validate_candidate env a c0 e0 =
     (case (ce_step_policy env, ce_validator env) of
        (Some _, Some validate) \<Rightarrow>
          if \<not> ce_validates env then (Some (Inr a), c0, e0)
          else (let ev = validation_evidence a c0; (candidate, c) = next_candidate_id c0 in
            case validate candidate (pe_refs ev) ev e0 of
              (Inl err, e) \<Rightarrow>
                (Some (Inl (Validator_raised err)),
                 c\<lparr>ac_validator_events := ac_validator_events c @ [validation_failure_event err c]\<rparr>, e)
            | (Inr fb, e) \<Rightarrow>
                (let c1 = c\<lparr>ac_validator_events := ac_validator_events c @ [core_validation_event (ce_validator_hash env) fb a c]\<rparr>
                 in if vb_decision fb = Decision_ACCEPT then (Some (Inr a), c1, e)
                    else settle_rejection env fb a c1 e))
      | _ \<Rightarrow> (Some (Inr a), c0, e0))"

definition model_round ::
  "'e core_env \<Rightarrow> agent_core \<Rightarrow> 'e \<Rightarrow> (core_error + model_action) option \<times> agent_core \<times> 'e" where
  "model_round env c e =
     (case ask_model env c e of
        (Inl err, c1, e1) \<Rightarrow> (Some (Inl err), c1, e1)
      | (Inr a, c1, e1) \<Rightarrow>
          if ma_type a \<noteq> ''final_answer'' then (Some (Inr a), c1, e1) else validate_candidate env a c1 e1)"

section \<open>The loop\<close>

fun action_loop ::
  "nat \<Rightarrow> 'e core_env \<Rightarrow> agent_core \<Rightarrow> 'e \<Rightarrow> ((core_error + model_action) \<times> agent_core \<times> 'e) option" where
  "action_loop 0 env c e = None"
| "action_loop (Suc n) env c e =
     (case apply_pending c of
        (Some a, c1) \<Rightarrow> Some (Inr a, c1, e)
      | (None, c1) \<Rightarrow>
          (case model_round env c1 e of
             (Some res, c2, e2) \<Rightarrow> Some (res, c2, e2)
           | (None, c2, e2) \<Rightarrow> action_loop n env c2 e2))"

definition add_user_message :: "string option \<Rightarrow> agent_core \<Rightarrow> agent_core" where
  "add_user_message m c =
     (case m of
        None \<Rightarrow> c
      | Some text \<Rightarrow>
          if ac_history c \<noteq> [] \<and> dict_get (last (ac_history c)) ''role'' = PStr ''user''
             \<and> dict_get (last (ac_history c)) ''content'' = PStr text then c
          else c\<lparr>ac_history := ac_history c @ [[(''role'', PStr ''user''), (''content'', PStr text)]]\<rparr>)"

definition next_model_action ::
  "nat \<Rightarrow> 'e core_env \<Rightarrow> string option \<Rightarrow> agent_core \<Rightarrow> 'e \<Rightarrow> ((core_error + model_action) \<times> agent_core \<times> 'e) option" where
  "next_model_action fuel env m c0 e =
     (let c = add_user_message m (c0\<lparr>ac_step := Suc (ac_step c0)\<rparr>) in
      if ac_escalated c then Some (Inr (final_answer (''TERMINATED: '' @ ac_reason c)), c, e)
      else action_loop fuel env c e)"

section \<open>Tool results\<close>

definition result_text :: "pyval \<Rightarrow> string" where
  "result_text v = (case v of PDict d \<Rightarrow> json_text v | _ \<Rightarrow> py_str v)"

text \<open>The record a result belongs to: the entry of the active batch, or the last call.\<close>

definition result_call :: "string \<Rightarrow> nat \<Rightarrow> agent_core \<Rightarrow> core_error + call_record \<times> agent_core" where
  "result_call tool i c =
     (case ac_batch c of
        Some (calls, answered) \<Rightarrow>
          if \<not> i < length calls then Inl Index_out_of_range
          else if i \<in> answered then Inl Result_repeated
          else if tool \<noteq> cr_tool (calls ! i) then Inl Result_name_mismatch
          else Inr (calls ! i, c\<lparr>ac_batch := Some (calls, insert i answered)\<rparr>)
      | None \<Rightarrow>
          (case ac_last_call c of
             Some r \<Rightarrow> Inr (r, c)
           | None \<Rightarrow> Inr (\<lparr>cr_tool = tool, cr_arguments = [], cr_call = ac_last_call_id c, cr_provider = ac_last_provider c,
                          cr_retry_of = None, cr_recorded = True\<rparr>, c)))"

definition batch_size :: "agent_core \<Rightarrow> nat" where
  "batch_size c = (case ac_batch c of Some (calls, _) \<Rightarrow> length calls | None \<Rightarrow> 1)"

definition make_observation :: "(string \<Rightarrow> string) \<Rightarrow> string \<Rightarrow> pyval \<Rightarrow> nat \<Rightarrow> call_record \<Rightarrow> agent_core \<Rightarrow> public_observation" where
  "make_observation sha tool result i r c =
     \<lparr>po_step = ac_step c, po_tool = tool, po_result = raw_result result, po_call = cr_call r, po_provider = cr_provider r,
      po_retry_of = cr_retry_of r, po_arguments = core_digest sha (cr_arguments r),
      po_digest = core_digest sha (raw_result result), po_index = i, po_batch_size = batch_size c\<rparr>"

definition observed_evidence :: "agent_core \<Rightarrow> public_observation \<Rightarrow> pyval \<Rightarrow> evidence_args" where
  "observed_evidence c ob result =
     evidence_args_default (lineage_task c) (''step-'' @ nat_digits (ac_step c)) Ev_TOOL_OBSERVED
       [(''tool_name'', PStr (po_tool ob)), (''tool_call_id'', opt_str (po_call ob)),
        (''provider_tool_call_id'', opt_str (po_provider ob)), (''invocation_id'', opt_str (po_call ob)),
        (''trial_id'', opt_str (ac_lineage_trial c)), (''retry_of_call_id'', opt_str (po_retry_of ob)),
        (''arguments_digest'', PStr (po_arguments ob)),
        (''result_keys'', str_list (case as_dict result of Some d \<Rightarrow> sort (map fst d) | None \<Rightarrow> [])),
        (''step'', PInt (int (ac_step c))), (''tool_call_index'', PInt (int (po_index ob))),
        (''tool_call_batch_size'', PInt (int (po_batch_size ob)))]"

definition record_observation ::
  "'e core_env \<Rightarrow> string \<Rightarrow> pyval \<Rightarrow> nat \<Rightarrow> call_record \<Rightarrow> agent_core \<Rightarrow> agent_core" where
  "record_observation env tool result i r c0 =
     (let c = c0\<lparr>ac_last_call := Some r,
                 ac_history := ac_history c0 @ [[(''role'', PStr ''tool''), (''name'', PStr tool),
                    (''content'', PStr (result_text result))] @ pairing r]\<rparr>;
          ob = make_observation (ce_sha env) tool result i r c
      in c\<lparr>ac_observations := ac_observations c @ [ob],
           ac_ledger := map_option (\<lambda>l. snd (ledger_append (ce_sha env) (ce_eid env (el_next l)) (observed_evidence c ob result) l))
             (ac_ledger c)\<rparr>)"

definition result_request :: "string \<Rightarrow> call_record \<Rightarrow> agent_core \<Rightarrow> gate_request" where
  "result_request tool r c =
     \<lparr>gq_step = int (ac_step c), gq_tool = tool, gq_arguments = PDict (cr_arguments r), gq_call = cr_call r,
      gq_provider = cr_provider r, gq_origin = ''model_batch'', gq_index = 0\<rparr>"

definition decision_entry :: "string \<Rightarrow> recovery_choice \<Rightarrow> string option \<Rightarrow> route_decision option \<Rightarrow> agent_core \<Rightarrow> pydict list" where
  "decision_entry tool d shadow rt c =
     (case (rt, ac_pending c) of
        (Some x, Some w) \<Rightarrow>
          [[(''step'', PInt (int (ac_step c))), (''tool_name'', PStr tool), (''action'', PStr (recovery_kind_value (rx_action w))),
            (''reason'', PStr (rx_reason w)), (''signal'', opt_str (rx_signal d)), (''shadow_signal'', opt_str shadow),
            (''evidence'', PDict (rx_evidence w)), (''decision_id'', PStr (rt_id x)),
            (''route'', PStr (recovery_route_value (rt_route x))), (''reason_code'', PStr (rt_reason x)),
            (''state_change'', PStr (rt_change x))]]
      | (None, Some w) \<Rightarrow>
          [[(''step'', PInt (int (ac_step c))), (''tool_name'', PStr tool), (''action'', PStr (recovery_kind_value (rx_action d))),
            (''reason'', PStr (rx_reason d)), (''signal'', opt_str (rx_signal d)), (''suppressed'', PBool True),
            (''batch_rule'', PStr ''FIRST_NON_NONE_RECOVERY_DECISION_WINS_WITHIN_BATCH'')]]
      | _ \<Rightarrow> [])"

definition consult_policy ::
  "'e core_env \<Rightarrow> string \<Rightarrow> pyval \<Rightarrow> string option \<Rightarrow> call_record \<Rightarrow> agent_core \<Rightarrow> 'e \<Rightarrow> core_error option \<times> agent_core \<times> 'e" where
  "consult_policy env tool result shadow r c e0 =
     (case ce_step_policy env of
        None \<Rightarrow> (None, c, e0)
      | Some decide \<Rightarrow>
          (case decide (ac_step c) result e0 of
             (Inl err, e) \<Rightarrow> (Some (Policy_raised err), c, e)
           | (Inr d, e) \<Rightarrow>
               if rx_action d = Kind_NONE then (None, c, e)
               else (let (rt, c1) = authorize_recovery (ce_sha env) (ce_loads env) (ce_used env e) d (Some r) c
                     in (None, c1\<lparr>ac_decisions := ac_decisions c1 @ decision_entry tool d shadow rt c1\<rparr>, e))))"

definition receive_tool_result ::
  "'e core_env \<Rightarrow> string \<Rightarrow> pyval \<Rightarrow> nat \<Rightarrow> agent_core \<Rightarrow> 'e \<Rightarrow> core_error option \<times> agent_core \<times> 'e" where
  "receive_tool_result env tool result i c0 e0 =
     (case result_call tool i c0 of
        Inl err \<Rightarrow> (Some err, c0, e0)
      | Inr (r, c1) \<Rightarrow>
          (let c2 = record_observation env tool result i r c1;
               e1 = ce_note env tool result e0;
               (shadow, e2) = (case ce_observe env of
                   None \<Rightarrow> (Inr None, e1)
                 | Some observe \<Rightarrow>
                     observe (lineage_task c2) (ac_step c2) (stable_action_identity (ce_sha env) tool (cr_arguments r)) result e1)
           in case shadow of
                Inl err \<Rightarrow> (Some (Observer_raised err), c2, e2)
              | Inr signal \<Rightarrow>
                  (let c3 = c2\<lparr>ac_gate := map_option (\<lambda>g. snd (gate_observe (ce_sha env) (ce_loads env) (result_request tool r c2) result g))
                         (ac_gate c2)\<rparr>
                   in consult_policy env tool result signal r c3 e2)))"

end
