(* ===== verification/CoreSafety.thy ===== *)
theory CoreSafety imports CoreLoop begin

text \<open>
  What the agent core of phase 5 guarantees: its inner loop ends within the recovery budget, a permanent
  failure is never replayed, a result is recorded once; and where its judges contradict each other.

  \<^item> \<open>loop_bound\<close> is the number of rounds the inner loop can need, so also a bound on the requests to the
    model in one step: each round makes at most one.
\<close>

section \<open>The inner loop\<close>

definition loop_bound :: "budget_gate \<Rightarrow> agent_core \<Rightarrow> nat" where
  "loop_bound g c =
     (case ac_pending c of
        Some d \<Rightarrow> if terminal_kind (rx_action d) then 1 else nat (gate_remaining g) + 2
      | None \<Rightarrow> nat (gate_remaining g) + 2)"

lemma terminal_kind_route [simp]: "terminal_kind (kind_of_route r) \<longleftrightarrow> terminal_route r"
  by (cases r) (simp_all add: terminal_route_def)

lemma new_invocation_frame [simp]:
  "ac_pending (snd (new_invocation_id c)) = ac_pending c" "ac_budget (snd (new_invocation_id c)) = ac_budget c"
  "ac_history (snd (new_invocation_id c)) = ac_history c"
  by (simp_all add: new_invocation_id_def Let_def)

lemma take_invocation_frame [simp]:
  "ac_pending (snd (take_invocation_id i c)) = ac_pending c" "ac_budget (snd (take_invocation_id i c)) = ac_budget c"
  by (simp_all add: take_invocation_id_def split: option.splits list.splits)

lemma batch_records_frame:
  "batch_records a i seen ms c = (res, c') \<Longrightarrow> ac_pending c' = ac_pending c \<and> ac_budget c' = ac_budget c"
proof (induction ms arbitrary: i seen c res)
  case (Cons m ms)
  obtain call c1 where t: "take_invocation_id (mc_call m) c = (call, c1)" by fastforce
  have "ac_pending c1 = ac_pending c \<and> ac_budget c1 = ac_budget c"
    using take_invocation_frame [of "mc_call m" c] by (simp add: t)
  then show ?case using Cons.prems Cons.IH
    by (fastforce simp: t Let_def split: if_splits option.splits prod.splits sum.splits)
qed simp

lemma ask_model_frame:
  assumes "ask_model env c e = (res, c', e')"
  shows "ac_pending c' = ac_pending c \<and> ac_budget c' = ac_budget c"
proof -
  have n: "normalize_tool_call_batch a b = (x, b') \<Longrightarrow> ac_pending b' = ac_pending b \<and> ac_budget b' = ac_budget b" for a b x b'
    by (auto simp: normalize_tool_call_batch_def Let_def split: prod.splits sum.splits dest: batch_records_frame)
  show ?thesis using assms
    by (auto simp: ask_model_def Let_def split: if_splits prod.splits sum.splits dest: n)
qed

lemma ask_budget_limited:
  assumes "ac_budget c = Some (Gate_limited g)" and "ask_budget w rt c = (asked, c')" and "asked \<noteq> Some Budget_ESCALATE"
  shows "\<exists>g'. ac_budget c' = Some (Gate_limited g') \<and>
    (terminal_route (rt_route rt) \<and> g' = g \<or> 0 < gate_remaining g \<and> gate_remaining g' = gate_remaining g - 1)"
proof (cases "terminal_route (rt_route rt)")
  case True
  then show ?thesis using assms by (auto simp: ask_budget_def)
next
  case False
  obtain b g' where one: "gate_authorize (int (ac_step c)) (recovery_kind_value (rx_action w)) g = (b, g')" by fastforce
  then have "asked = Some b" "ac_budget c' = Some (Gate_limited g')"
    using assms(1,2) False by (auto simp: ask_budget_def)
  then show ?thesis using gate_remaining_authorize [OF one] assms(3) by auto
qed

lemma loop_back:
  assumes "model_round env c e = (None, c', e')" and "ac_pending c = None" and "ac_budget c = Some (Gate_limited g)"
  shows "\<exists>w g'. ac_pending c' = Some w \<and> ac_budget c' = Some (Gate_limited g') \<and>
    (terminal_kind (rx_action w) \<or> 0 < gate_remaining g \<and> gate_remaining g' = gate_remaining g - 1)"
proof -
  obtain x c1 e1 where ask: "ask_model env c e = (x, c1, e1)" by (metis prod_cases3)
  then obtain a where "x = Inr a" and val: "validate_candidate env a c1 e1 = (None, c', e')"
    using assms(1) by (cases x) (auto simp: model_round_def split: if_splits)
  have c1: "ac_pending c1 = None" "ac_budget c1 = Some (Gate_limited g)"
    using ask_model_frame [OF ask] assms(2,3) by auto
  from val obtain fb c2 e2 where settle: "settle_rejection env fb a c2 e2 = (None, c', e')"
    and c2: "ac_pending c2 = None" "ac_budget c2 = Some (Gate_limited g)"
    using c1 by (auto simp: validate_candidate_def next_candidate_id_def Let_def split: option.splits if_splits prod.splits sum.splits)
  from settle obtain d e3 rt c3 where auth: "authorize_recovery (ce_sha env) (ce_loads env) (ce_used env e3) d (ac_last_call c2) c2 = (Some rt, c3)"
    and c': "ac_pending c' = ac_pending c3" "ac_budget c' = ac_budget c3"
    by (auto simp: settle_rejection_def split: option.splits if_splits prod.splits sum.splits)
  from auth show ?thesis
  proof (cases rule: authorize_recovery_cases)
    case (admitted rt' judged c4)
    obtain asked c5 where b: "ask_budget (working_choice d rt') rt' c4 = (asked, c5)" by fastforce
    have "ac_budget c4 = Some (Gate_limited g)" using core_route_frame(2) [OF admitted(3)] c2 by simp
    from ask_budget_limited [OF this b] admitted(7) b
    obtain g' where "ac_budget c5 = Some (Gate_limited g')"
      "terminal_route (rt_route rt') \<and> g' = g \<or> 0 < gate_remaining g \<and> gate_remaining g' = gate_remaining g - 1"
      by auto
    then show ?thesis using admitted(4,6) c' b by (auto simp: working_choice_def)
  qed auto
qed

lemma map_prod_Some_None [simp]: "map_prod Some id p \<noteq> (None, x)"
  by (cases p) simp

lemma apply_pending_frame:
  assumes "apply_pending c = (None, c')"
  shows "ac_pending c' = None \<and> ac_budget c' = ac_budget c \<and>
    (case ac_pending c of Some d \<Rightarrow> \<not> terminal_kind (rx_action d) | None \<Rightarrow> True)"
  using assms
  by (auto simp: apply_pending_def Let_def split: option.splits recovery_kind.splits prod.splits)

text \<open>C18: With a limiting recovery budget the inner loop of a step always ends, after at most two rounds more than
  the interventions that remain: each rejected answer costs an intervention or stops the run, so the model
  cannot be asked for answers for ever within one step.
\<close>

theorem inner_loop_ends:
  assumes "ac_budget c = Some (Gate_limited g)" and "loop_bound g c \<le> n"
  shows "action_loop n env c e \<noteq> None"
  using assms
proof (induction n arbitrary: c e g)
  case 0
  then show ?case by (auto simp: loop_bound_def split: option.splits if_splits)
next
  case (Suc n)
  obtain x c1 where app: "apply_pending c = (x, c1)" by fastforce
  show ?case
  proof (cases x)
    case None
    note frame = apply_pending_frame [OF app [unfolded None]]
    obtain y c2 e2 where round: "model_round env c1 e = (y, c2, e2)" by (metis prod_cases3)
    show ?thesis
    proof (cases y)
      case None
      obtain w g' where w: "ac_pending c2 = Some w" "ac_budget c2 = Some (Gate_limited g')"
        "terminal_kind (rx_action w) \<or> 0 < gate_remaining g \<and> gate_remaining g' = gate_remaining g - 1"
        using loop_back [OF round [unfolded None]] frame Suc.prems(1) by auto
      have "nat (gate_remaining g) + 2 \<le> Suc n" using Suc.prems(2) frame by (auto simp: loop_bound_def split: option.splits)
      then have "loop_bound g' c2 \<le> n" using w by (auto simp: loop_bound_def)
      then show ?thesis using Suc.IH [OF w(2)] app round \<open>x = None\<close> None by simp
    qed (simp add: app round \<open>x = None\<close>)
  qed (simp add: app)
qed

text \<open>An environment whose model answers at once and whose validator rejects every answer.\<close>

definition stubborn_env :: "unit core_env" where
  "stubborn_env =
     \<lparr>ce_sha = (\<lambda>s. s), ce_loads = (\<lambda>_. None), ce_eid = nat_digits, ce_next = (\<lambda>_ _ e. (Inr (final_answer ''done''), e)),
      ce_note = (\<lambda>_ _ e. e), ce_used = (\<lambda>_. None), ce_observe = None,
      ce_step_policy = Some (\<lambda>_ _ e. (Inr none_choice, e)), ce_validates = True,
      ce_validator = Some (\<lambda>cand refs _ e. (Inr \<lparr>vb_id = cand, vb_validator = ''v'', vb_version = ''1.0'', vb_candidate = cand,
        vb_status = Validator_SUCCESS, vb_decision = Decision_REJECT, vb_evidence = refs, vb_state_digest = [],
        vb_failure = Some ''EMPTY_COMPLETION'', vb_detail = []\<rparr>, e)),
      ce_validator_hash = ''h'',
      ce_reject_policy = Some (\<lambda>_ _ e. (Inr (Some (none_choice\<lparr>rx_action := Kind_RETRY_WITH_CONTEXT\<rparr>)), e))\<rparr>"

lemma inner_loop_ends_witness:
  "loop_bound (budget_gate_new 3) (core_new\<lparr>ac_budget := Some (Gate_limited (budget_gate_new 3))\<rparr>) = 5
    \<and> action_loop 5 stubborn_env (core_new\<lparr>ac_budget := Some (Gate_limited (budget_gate_new 3))\<rparr>) () \<noteq> None"
proof (rule conjI)
  show bound: "loop_bound (budget_gate_new 3) (core_new\<lparr>ac_budget := Some (Gate_limited (budget_gate_new 3))\<rparr>) = 5"
    by (simp add: loop_bound_def core_new_def gate_remaining_def budget_gate_new_def)
  show "action_loop 5 stubborn_env (core_new\<lparr>ac_budget := Some (Gate_limited (budget_gate_new 3))\<rparr>) () \<noteq> None"
    by (rule inner_loop_ends [of _ "budget_gate_new 3"]) (simp_all add: bound)
qed

section \<open>Admission and the execution gate\<close>

lemma judge_retry_frame:
  assumes "judge_retry sha loads d r c = (judged, c')"
  shows "ac_decider c' = ac_decider c" "ac_escalated c' = ac_escalated c" "ac_step c' = ac_step c"
    and "ac_gate c = Some g \<Longrightarrow> \<exists>g'. ac_gate c' = Some g' \<and> ag_attempts g' = ag_attempts g \<and> ag_terminal g' = ag_terminal g"
  using assms by (auto simp: judge_retry_def is_retry_justified_def Let_def split: option.splits if_splits prod.splits)

text \<open>The call a decision is about has this as its last result in the gate.\<close>

definition last_result_of :: "(string \<Rightarrow> string) \<Rightarrow> (string \<Rightarrow> pyval option) \<Rightarrow> call_record option \<Rightarrow> agent_core \<Rightarrow> normalized_result option" where
  "last_result_of sha loads given c =
     Option.bind (ac_gate c) (last_normalized sha loads (judge_request (retry_call_of given c) c))"

lemma route_inputs_last:
  assumes "last_result_of sha loads given c = Some n"
    and judge: "judge_retry sha loads d (retry_call_of given c) c = (judged, c1)"
  shows "ri_exec (route_inputs_of sha loads u d (retry_call_of given c) c1) = tool_exec_value (nr_exec n)"
    "ri_retryable (route_inputs_of sha loads u d (retry_call_of given c) c1) = retryability_value (nr_retryable n)"
    "ri_transient (route_inputs_of sha loads u d (retry_call_of given c) c1) = nr_transient n"
proof -
  from assms(1) obtain g where g: "ac_gate c = Some g"
    and n: "last_normalized sha loads (judge_request (retry_call_of given c) c) g = Some n"
    by (cases "ac_gate c") (auto simp: last_result_of_def)
  obtain g' where g': "ac_gate c1 = Some g'" "ag_attempts g' = ag_attempts g"
    using judge_retry_frame(4) [OF judge g] by blast
  have q: "judge_request (retry_call_of given c) c1 = judge_request (retry_call_of given c) c"
    using judge_retry_frame(3) [OF judge] by (simp add: judge_request_def)
  have "last_normalized sha loads (judge_request (retry_call_of given c) c1) g' = Some n"
    using n by (simp add: last_normalized_def g'(2) q)
  then show "ri_exec (route_inputs_of sha loads u d (retry_call_of given c) c1) = tool_exec_value (nr_exec n)"
    "ri_retryable (route_inputs_of sha loads u d (retry_call_of given c) c1) = retryability_value (nr_retryable n)"
    "ri_transient (route_inputs_of sha loads u d (retry_call_of given c) c1) = nr_transient n"
    by (simp_all add: route_inputs_of_def Let_def g' split: prod.splits)
qed

text \<open>C19: The core never puts the replay of a permanently failed call into its slot, whatever the strategy asked for:
  when the gate's last result of the call failed as not retryable, the full rule set admits no route that
  repeats the call, neither unchanged nor changed.
\<close>

theorem permanent_failure_is_not_replayed:
  assumes "last_result_of sha loads given c = Some n" "nr_exec n = Exec_FAILED" "nr_retryable n = Retry_NOT_RETRYABLE"
    and "dc_mode (ac_decider c) = Route_v1"
    and "authorize_recovery sha loads u d given c = (Some rt, c')"
  shows "rt_route rt \<notin> {RETRY_SAME, RETRY_CHANGED} \<and> map_option rx_action (ac_pending c') \<noteq> Some Kind_RETRY"
  using assms(5)
proof (cases rule: authorize_recovery_cases)
  case (admitted rt' judged c1)
  let ?r = "retry_call_of given c"
  obtain judged' c0 where j: "judge_retry sha loads d ?r c = (judged', c0)" by fastforce
  have rt: "rt' = fst (decide_route (route_inputs_of sha loads u d ?r c0) (ac_decider c0))"
    using admitted(3) by (auto simp: core_route_def j Let_def split: prod.splits)
  have "permanent_failure (route_inputs_of sha loads u d ?r c0)"
    by (simp add: permanent_failure_def route_inputs_last [OF assms(1) j] assms(2,3))
  then have "rt_route rt' \<notin> {RETRY_SAME, RETRY_CHANGED}"
    using no_retry_of_permanent_failure judge_retry_frame(1) [OF j] assms(4) by (simp add: rt)
  then show ?thesis using admitted(2,4) by (cases "rt_route rt'") (auto simp: working_choice_def)
qed simp_all

lemma authorize_without_budget:
  assumes "ac_budget c = None" "ac_pending c = None"
  obtains rt c' where "authorize_recovery sha loads u d given c = (Some rt, c')"
proof -
  obtain x c1 where x: "core_route sha loads u d given c = (x, c1)" by fastforce
  obtain rt judged where route: "core_route sha loads u d given c = ((rt, judged), c1)" using x by (cases x) simp
  have "ask_budget w r c1 = (None, c1)" for w r
    using core_route_frame(2) [OF route] assms(1) by (simp add: ask_budget_def)
  then have "fst (authorize_recovery sha loads u d given c) = Some rt"
    unfolding authorize_recovery_def route Let_def by (simp add: assms(2))
  then show thesis using that by (metis prod.collapse)
qed

text \<open>A core whose gate saw one result of one call.\<close>

definition seen_result :: "tool_exec \<Rightarrow> retryability \<Rightarrow> bool \<Rightarrow> normalized_result" where
  "seen_result ex rt transient =
     \<lparr>nr_raw = [], nr_exec = ex, nr_ready = Ready_NO_EVIDENCE, nr_retryable = rt, nr_evidence = [], nr_values = [],
      nr_confirmation = False, nr_transient = transient, nr_arguments = ''a'', nr_result = ''r'', nr_source = ''none'',
      nr_state_seen = False\<rparr>"

definition seen_gate :: "normalized_result list \<Rightarrow> auth_gate" where
  "seen_gate ns = (auth_gate_new (\<lambda>_. None))\<lparr>ag_attempts := (\<lambda>_. map (make_attempt 1 ''s'') ns)\<rparr>"

definition seen_core :: "normalized_result list \<Rightarrow> agent_core" where
  "seen_core ns = core_new\<lparr>ac_gate := Some (seen_gate ns)\<rparr>"

lemma seen_core_fields [simp]:
  "ac_gate (seen_core ns) = Some (seen_gate ns)" "ac_budget (seen_core ns) = None" "ac_pending (seen_core ns) = None"
  "\<not> ac_escalated (seen_core ns)" "dc_mode (ac_decider (seen_core ns)) = Route_v1" "\<not> ag_terminal (seen_gate ns)"
  "ag_attempts (seen_gate ns) key = map (make_attempt 1 ''s'') ns"
  by (simp_all add: seen_core_def core_new_def seen_gate_def auth_gate_new_def)

lemma seen_last: "ns \<noteq> [] \<Longrightarrow> last_result_of sha loads given (seen_core ns) = Some (last ns)"
  by (simp add: last_result_of_def last_normalized_def Let_def last_map make_attempt_def)

lemma permanent_failure_is_not_replayed_witness:
  "\<exists>rt c'. authorize_recovery (\<lambda>s. s) (\<lambda>_. None) None (none_choice\<lparr>rx_action := Kind_RETRY\<rparr>) None
      (seen_core [seen_result Exec_FAILED Retry_NOT_RETRYABLE False]) = (Some rt, c')
    \<and> rt_route rt \<notin> {RETRY_SAME, RETRY_CHANGED} \<and> map_option rx_action (ac_pending c') \<noteq> Some Kind_RETRY"
proof -
  let ?c = "seen_core [seen_result Exec_FAILED Retry_NOT_RETRYABLE False]"
  obtain rt c' where auth: "authorize_recovery (\<lambda>s. s) (\<lambda>_. None) None (none_choice\<lparr>rx_action := Kind_RETRY\<rparr>) None ?c = (Some rt, c')"
    by (rule authorize_without_budget [of ?c]) simp_all
  have "rt_route rt \<notin> {RETRY_SAME, RETRY_CHANGED} \<and> map_option rx_action (ac_pending c') \<noteq> Some Kind_RETRY"
    by (rule permanent_failure_is_not_replayed [OF seen_last [OF not_Cons_self2] _ _ _ auth]) (simp_all add: seen_result_def)
  then show ?thesis using auth by blast
qed

section \<open>Two judges\<close>

lemma last_two_map: "last_two (map f xs) = map_option (map_prod f f) (last_two xs)"
  by (induction xs rule: last_two.induct) simp_all

lemma loop_is_stall: "no_progress_loop (map as_evidence as) \<longleftrightarrow> stalled_attempts as"
  by (auto simp: no_progress_loop_def stalled_attempts_def last_two_map as_evidence_def split: option.splits)

text \<open>A stalled retry with a transient basis, as the route decider sees it.\<close>

lemma transient_stall_routed:
  assumes "ac_gate c = Some g" "\<not> ag_terminal g" "\<not> ac_escalated c" "dc_mode (ac_decider c) = Route_v1"
    and "rx_action d = Kind_RETRY" "last_result_of sha loads given c = Some n" "nr_transient n" "nr_retryable n = Retry_RETRYABLE"
    and "stalled_attempts (ag_attempts g (attempt_key (gq_tool (judge_request (retry_call_of given c) c))
           (request_digest sha loads (judge_request (retry_call_of given c) c))))"
  obtains rt judged c1 where "core_route sha loads u d given c = ((rt, judged), c1)"
    "rt_route rt = STOP" "rt_reason rt = ''NO_PROGRESS_LOOP''" "rt_rationale rt = no_transient_text"
    "dict_get (rt_evidence rt) ''transient_basis'' = PBool True"
proof -
  let ?r = "retry_call_of given c"
  let ?q = "judge_request ?r c"
  obtain judged c1 where j: "judge_retry sha loads d ?r c = (judged, c1)" by fastforce
  obtain g1 where g1: "ac_gate c1 = Some g1" "ag_attempts g1 = ag_attempts g" "ag_terminal g1 = ag_terminal g"
    using judge_retry_frame(4) [OF j assms(1)] by blast
  note frame = judge_retry_frame(1-3) [OF j]
  let ?i = "route_inputs_of sha loads u d ?r c1"
  have q: "judge_request ?r c1 = ?q" using frame(3) by (simp add: judge_request_def)
  have attempts: "ri_attempts ?i = map as_evidence (ag_attempts g (attempt_key (gq_tool ?q) (request_digest sha loads ?q)))"
    by (simp add: route_inputs_of_def Let_def g1 route_attempts_def q split: prod.splits)
  have flags: "\<not> ri_terminal ?i" "ri_proposed ?i = ''retry''"
    using assms(2,3,5) frame(2) by (simp_all add: route_inputs_of_def Let_def g1 split: prod.splits)
  obtain rt dc where dec: "decide_route ?i (ac_decider c1) = (rt, dc)" by fastforce
  have "\<not> permanent_failure ?i"
    by (simp add: permanent_failure_def route_inputs_last [OF assms(6) j] assms(8))
  moreover have "no_progress_loop (ri_attempts ?i)" using assms(9) by (simp add: attempts loop_is_stall)
  moreover have "ri_transient ?i" using assms(7) by (simp add: route_inputs_last [OF assms(6) j])
  ultimately have stop: "rt_route rt = STOP \<and> rt_reason rt = ''NO_PROGRESS_LOOP'' \<and> rt_rationale rt = no_transient_text
      \<and> dict_get (rt_evidence rt) ''transient_basis'' = PBool True"
    using transient_loop_is_stopped [of "ac_decider c1" ?i] assms(4) frame(1) flags dec by simp
  show ?thesis
    by (rule that [of rt judged "c1\<lparr>ac_decider := dc\<rparr>"]) (simp_all add: core_route_def j Let_def dec stop)
qed

lemma stopped_route_admitted:
  assumes route: "core_route sha loads u d given c = ((rt, judged), c1)" and stop: "rt_route rt = STOP"
    and "ac_pending c = None"
  shows "\<exists>c'. authorize_recovery sha loads u d given c = (Some rt, c') \<and> map_option rx_action (ac_pending c') = Some Kind_STOP"
proof -
  obtain res c' where auth: "authorize_recovery sha loads u d given c = (res, c')" by fastforce
  then show ?thesis
  proof (cases rule: authorize_recovery_cases)
    case taken
    then show ?thesis using assms(3) by simp
  next
    case exhausted
    have "authorize_recovery sha loads u d given c \<noteq> (None, c')"
      unfolding authorize_recovery_def route Let_def
      by (simp add: assms(3) ask_budget_def terminal_route_def stop split: option.splits)
    then show ?thesis using auth exhausted(2) by simp
  next
    case (admitted rt' judged' c2)
    then show ?thesis using auth route stop by (auto simp: working_choice_def)
  qed
qed

text \<open>C38: The two judges of one retry can disagree on the same evidence. After two timeouts with the same result
  the gate calls the retry justified, because a transient basis was observed; the route decider, which is
  asked next, stops the run. Its decision gives as rationale that there is no transient basis, and carries
  among its own evidence that there is one; what waits in the slot is a STOP.
\<close>

theorem justified_retry_is_stopped:
  assumes "ac_gate c = Some g" "\<not> ag_terminal g" "\<not> ac_escalated c" "ac_pending c = None" "dc_mode (ac_decider c) = Route_v1"
    and "rx_action d = Kind_RETRY" "last_result_of sha loads given c = Some n" "nr_transient n" "nr_retryable n = Retry_RETRYABLE"
    and "stalled_attempts (ag_attempts g (attempt_key (gq_tool (judge_request (retry_call_of given c) c))
           (request_digest sha loads (judge_request (retry_call_of given c) c))))"
  shows "az_authorized (fst (is_retry_justified sha loads (judge_request (retry_call_of given c) c) g))
    \<and> (\<exists>rt c'. authorize_recovery sha loads u d given c = (Some rt, c') \<and> rt_route rt = STOP
         \<and> rt_reason rt = ''NO_PROGRESS_LOOP''
         \<and> rt_rationale rt = ''repeated identical non-success outcomes with no new evidence and no transient basis - stop instead of looping''
         \<and> dict_get (rt_evidence rt) ''transient_basis'' = PBool True
         \<and> map_option rx_action (ac_pending c') = Some Kind_STOP)"
proof
  let ?r = "retry_call_of given c"
  let ?q = "judge_request ?r c"
  let ?as = "ag_attempts g (attempt_key (gq_tool ?q) (request_digest sha loads ?q))"
  have last: "?as \<noteq> [] \<and> aw_normalized (last ?as) = n"
    using assms(1,7) by (auto simp: last_result_of_def last_normalized_def Let_def split: if_splits)
  show "az_authorized (fst (is_retry_justified sha loads ?q g))"
    using last assms(2,8) by (simp add: is_retry_justified_def Let_def justified_def)
  obtain rt judged c1 where route: "core_route sha loads u d given c = ((rt, judged), c1)"
      and stop: "rt_route rt = STOP" "rt_reason rt = ''NO_PROGRESS_LOOP''" "rt_rationale rt = no_transient_text"
        "dict_get (rt_evidence rt) ''transient_basis'' = PBool True"
    by (rule transient_stall_routed [OF assms(1-3,5-10)])
  obtain c' where "authorize_recovery sha loads u d given c = (Some rt, c')" "map_option rx_action (ac_pending c') = Some Kind_STOP"
    using stopped_route_admitted [OF route stop(1) assms(4)] by blast
  then show "\<exists>rt c'. authorize_recovery sha loads u d given c = (Some rt, c') \<and> rt_route rt = STOP
         \<and> rt_reason rt = ''NO_PROGRESS_LOOP''
         \<and> rt_rationale rt = ''repeated identical non-success outcomes with no new evidence and no transient basis - stop instead of looping''
         \<and> dict_get (rt_evidence rt) ''transient_basis'' = PBool True
         \<and> map_option rx_action (ac_pending c') = Some Kind_STOP"
    using stop unfolding no_transient_text_def by blast
qed

lemma justified_retry_is_stopped_witness:
  "\<exists>rt c'. authorize_recovery (\<lambda>s. s) (\<lambda>_. None) None (none_choice\<lparr>rx_action := Kind_RETRY\<rparr>) None
      (seen_core [seen_result Exec_FAILED Retry_RETRYABLE True, seen_result Exec_FAILED Retry_RETRYABLE True]) = (Some rt, c')
    \<and> rt_reason rt = ''NO_PROGRESS_LOOP'' \<and> map_option rx_action (ac_pending c') = Some Kind_STOP"
proof -
  let ?ns = "[seen_result Exec_FAILED Retry_RETRYABLE True, seen_result Exec_FAILED Retry_RETRYABLE True]"
  have last: "last_result_of (\<lambda>s. s) (\<lambda>_. None) None (seen_core ?ns) = Some (seen_result Exec_FAILED Retry_RETRYABLE True)"
    using seen_last [of ?ns] by simp
  have stalled: "stalled_attempts (ag_attempts (seen_gate ?ns) k)" for k
    by (simp add: seen_gate_def seen_result_def stalled_attempts_def make_attempt_def nr_affects_def)
  have facts: "rx_action (none_choice\<lparr>rx_action := Kind_RETRY\<rparr>) = Kind_RETRY"
    "nr_transient (seen_result Exec_FAILED Retry_RETRYABLE True)"
    "nr_retryable (seen_result Exec_FAILED Retry_RETRYABLE True) = Retry_RETRYABLE"
    by (simp_all add: seen_result_def)
  show ?thesis
    using justified_retry_is_stopped [OF seen_core_fields(1) seen_core_fields(6) seen_core_fields(4) seen_core_fields(3)
        seen_core_fields(5) facts(1) last facts(2,3) stalled, of None] by blast
qed

section \<open>Results and identities\<close>

lemma authorize_recovery_batch: "authorize_recovery sha loads u d given c = (res, c') \<Longrightarrow> ac_batch c' = ac_batch c"
  by (cases rule: authorize_recovery_cases, assumption) auto

text \<open>
  A result of a batch is recorded once. After the result of a call of the active batch was received, however
  observer and strategy answered, another result for the same index is refused and changes nothing.
\<close>

theorem result_is_recorded_once:
  assumes "ac_batch c = Some (calls, answered)" "i < length calls" "i \<notin> answered" "tool = cr_tool (calls ! i)"
    and "receive_tool_result env tool result i c e = (err, c', e')"
  shows "receive_tool_result env tool' result' i c' e'' = (Some Result_repeated, c', e'')"
proof -
  have call: "result_call tool i c = Inr (calls ! i, c\<lparr>ac_batch := Some (calls, insert i answered)\<rparr>)"
    using assms(1-4) by (simp add: result_call_def)
  have obs: "ac_batch (record_observation env tool result i (calls ! i) (c\<lparr>ac_batch := Some (calls, insert i answered)\<rparr>))
      = Some (calls, insert i answered)" by (simp add: record_observation_def Let_def)
  have policy: "consult_policy env tool result s r x y = (err', x', y') \<Longrightarrow> ac_batch x' = ac_batch x" for s r x y err' x' y'
    by (auto simp: consult_policy_def Let_def split: option.splits prod.splits sum.splits if_splits dest: authorize_recovery_batch)
  have "ac_batch c' = Some (calls, insert i answered)"
    using assms(5) obs
    by (auto simp: receive_tool_result_def call Let_def split: option.splits prod.splits sum.splits dest: policy)
  then show ?thesis using assms(2) by (simp add: receive_tool_result_def result_call_def)
qed

definition single_call :: call_record where
  "single_call = \<lparr>cr_tool = ''get'', cr_arguments = [], cr_call = Some ''c'', cr_provider = None, cr_retry_of = None, cr_recorded = False\<rparr>"

lemma result_is_recorded_once_witness:
  "receive_tool_result stubborn_env ''get'' PNone 0
     (fst (snd (receive_tool_result stubborn_env ''get'' (PDict []) 0 (core_new\<lparr>ac_batch := Some ([single_call], {})\<rparr>) ()))) ()
   = (Some Result_repeated,
      fst (snd (receive_tool_result stubborn_env ''get'' (PDict []) 0 (core_new\<lparr>ac_batch := Some ([single_call], {})\<rparr>) ())), ())"
proof -
  let ?c = "core_new\<lparr>ac_batch := Some ([single_call], {})\<rparr>"
  obtain err c' e' where r: "receive_tool_result stubborn_env ''get'' (PDict []) 0 ?c () = (err, c', e')" by (metis prod_cases3)
  have "ac_batch ?c = Some ([single_call], {})" by simp
  have "receive_tool_result stubborn_env ''get'' PNone 0 c' () = (Some Result_repeated, c', ())"
    by (rule result_is_recorded_once [OF \<open>ac_batch ?c = Some ([single_call], {})\<close> _ _ _ r]) (simp_all add: single_call_def)
  then show ?thesis by (simp only: r fst_conv snd_conv)
qed

text \<open>
  The identities of executions are not unique. A model that names its first call as the core would name one
  gets that id, and the next call without an id gets the same one.
\<close>

theorem invocation_ids_collide:
  "\<exists>a rs c. normalize_tool_call_batch
      ((final_answer [])\<lparr>ma_type := ''tool_call'', ma_calls :=
        [\<lparr>mc_tool = Some ''get'', mc_arguments = PDict [], mc_call = Some ''odys-invocation-1'', mc_provider = None\<rparr>,
         \<lparr>mc_tool = Some ''pay'', mc_arguments = PDict [], mc_call = None, mc_provider = None\<rparr>]\<rparr>) core_new = (Inr (a, rs), c)
    \<and> map cr_call rs = [Some ''odys-invocation-1'', Some ''odys-invocation-1'']"
proof -
  have "char_of (49 :: nat) = CHR ''1''" by code_simp
  then show ?thesis
    by (simp add: normalize_tool_call_batch_def action_calls_def final_answer_def take_invocation_id_def
        new_invocation_id_def core_new_def Let_def nat_digits.simps)
qed

end
