(* ===== verification/AgentLoop.thy ===== *)
theory AgentLoop imports CoreSafety begin

text \<open>
  The agent adapter of phase 5 (\<open>create_toolmaze_agent_adapter\<close> in \<open>src/lhas/phase5/agent_adapter.py\<close>): it holds
  the batch a model proposed and releases it one authorized call at a time.

  \<^item> Adapter and core share one execution gate; it is the one in the core.
  \<^item> \<open>adapter_step\<close> is the \<open>while True\<close> of \<open>step\<close> with fuel (\<open>None\<close>: still running); the fuel of the core's own
    loop is its first argument. The conversion to the benchmark's classes is left out: a step answers
    with the call it releases, or with the action of the core.
\<close>

section \<open>State\<close>

record held_call =
  hc_record :: call_record
  hc_index :: nat
  hc_origin :: string

record adapter =
  ad_core :: agent_core
  ad_held :: "held_call list"
  ad_released :: "held_call option"

datatype adapter_answer = Release held_call | Answer model_action

definition on_gate :: "(auth_gate \<Rightarrow> auth_gate) \<Rightarrow> adapter \<Rightarrow> adapter" where
  "on_gate f ad = ad\<lparr>ad_core := (ad_core ad)\<lparr>ac_gate := map_option f (ac_gate (ad_core ad))\<rparr>\<rparr>"

definition adapter_initialize :: "string \<Rightarrow> pyval list \<Rightarrow> adapter \<Rightarrow> semantics_error option \<times> adapter" where
  "adapter_initialize task tools ad0 =
     (let ad = on_gate gate_reset (ad0\<lparr>ad_core := core_initialize task tools (ad_core ad0)\<rparr>) in
      case ac_gate (ad_core ad) of
        None \<Rightarrow> (None, ad\<lparr>ad_held := [], ad_released := None\<rparr>)
      | Some g \<Rightarrow>
          (case bind_tool_definitions tools g of
             (Some err, g') \<Rightarrow> (Some err, on_gate (\<lambda>_. g') ad)
           | (None, g') \<Rightarrow> (None, (on_gate (\<lambda>_. g') ad)\<lparr>ad_held := [], ad_released := None\<rparr>)))"

definition adapter_reset :: "adapter \<Rightarrow> adapter" where
  "adapter_reset ad = (on_gate gate_reset (ad\<lparr>ad_core := core_reset (ad_core ad)\<rparr>))\<lparr>ad_held := [], ad_released := None\<rparr>"

section \<open>The held batch\<close>

fun held_records :: "model_action \<Rightarrow> nat \<Rightarrow> bool \<Rightarrow> model_call list \<Rightarrow> core_error + held_call list" where
  "held_records a i single [] = Inr []"
| "held_records a i single (m # ms) =
     (if mc_tool m = None \<or> mc_tool m = Some [] then Inl Invalid_tool_name
      else (let retry = (if single then ma_retry_of a else None);
                h = \<lparr>hc_record = \<lparr>cr_tool = the (mc_tool m),
                        cr_arguments = (case as_dict (mc_arguments m) of Some d \<Rightarrow> d | None \<Rightarrow> []), cr_call = mc_call m,
                        cr_provider = mc_provider m, cr_retry_of = retry,
                        cr_recorded = (mc_provider m \<noteq> None \<and> mc_provider m \<noteq> Some [])\<rparr>,
                     hc_index = i,
                     hc_origin = (if retry = None \<or> retry = Some [] then ''model_batch'' else ''recovery_retry'')\<rparr>
            in (case held_records a (Suc i) single ms of Inl e \<Rightarrow> Inl e | Inr hs \<Rightarrow> Inr (h # hs))))"

definition batch_of :: "model_action \<Rightarrow> core_error + held_call list" where
  "batch_of a = held_records a 0 (length (action_calls a) = 1) (action_calls a)"

definition held_request :: "held_call \<Rightarrow> agent_core \<Rightarrow> gate_request" where
  "held_request h c =
     \<lparr>gq_step = int (ac_step c), gq_tool = cr_tool (hc_record h), gq_arguments = PDict (cr_arguments (hc_record h)),
      gq_call = cr_call (hc_record h), gq_provider = cr_provider (hc_record h), gq_origin = hc_origin h,
      gq_index = int (hc_index h)\<rparr>"

text \<open>\<open>_block_remaining\<close>: each held call is answered with a synthetic message, in order.\<close>

definition block_one :: "string \<Rightarrow> string \<Rightarrow> held_call \<Rightarrow> adapter \<Rightarrow> adapter" where
  "block_one rule reason h ad =
     (let q = held_request h (ad_core ad);
          ad1 = on_gate (record_event Control_PROPOSED (call_fields q @ origin_fields q)) ad;
          ad2 = on_gate (record_event Control_BLOCKED (call_fields q @ origin_fields q @
                  [(''rule'', PStr rule), (''reason'', PStr reason), (''terminal'', PBool True)])) ad1
      in ad2\<lparr>ad_core := record_blocked_tool_call (hc_record h) (hc_index h) rule reason (ad_core ad2)\<rparr>)"

definition block_remaining :: "string \<Rightarrow> string \<Rightarrow> adapter \<Rightarrow> adapter" where
  "block_remaining rule reason ad = (fold (block_one rule reason) (ad_held ad) ad)\<lparr>ad_held := []\<rparr>"

section \<open>The step\<close>

text \<open>What the first held call comes to: released, blocked and the loop goes on, or the gate stops the run.\<close>

definition propose_held ::
  "'e core_env \<Rightarrow> auth_gate \<Rightarrow> held_call \<Rightarrow> held_call list \<Rightarrow> adapter \<Rightarrow> adapter_answer option \<times> adapter" where
  "propose_held env g h rest ad0 =
     (let (a, g1) = gate_propose (ce_sha env) (ce_loads env) (held_request h (ad_core ad0)) g;
          ad = (on_gate (\<lambda>_. g1) ad0)\<lparr>ad_held := rest\<rparr>
      in if az_authorized a then (Some (Release h), ad\<lparr>ad_released := Some h\<rparr>)
         else (let ad1 = ad\<lparr>ad_core := record_blocked_tool_call (hc_record h) (hc_index h) (az_rule a) (az_reason a) (ad_core ad)\<rparr>
               in if az_terminal a
                  then (let reason = az_rule a @ '': '' @ az_reason a;
                            ad2 = block_remaining ''TERMINAL_CONTROL_STATE'' reason
                                    (on_gate (mark_terminal (int (ac_step (ad_core ad1))) reason) ad1)
                        in (Some (Answer (final_answer (''TERMINATED: '' @ reason))),
                            ad2\<lparr>ad_core := mark_control_escalation reason ''STOP'' (ad_core ad2)\<rparr>))
                  else (None, ad1)))"

definition halt_pending :: "adapter \<Rightarrow> adapter" where
  "halt_pending ad =
     (if ad_held ad \<noteq> [] \<and> has_terminal_recovery_pending (ad_core ad)
      then block_remaining ''TERMINAL_RECOVERY_DECISION'' ''pending terminal recovery decision halts remaining calls'' ad
      else ad)"

fun adapter_step ::
  "nat \<Rightarrow> nat \<Rightarrow> 'e core_env \<Rightarrow> string option \<Rightarrow> adapter \<Rightarrow> 'e \<Rightarrow> ((core_error + adapter_answer) \<times> adapter \<times> 'e) option" where
  "adapter_step inner 0 env m ad e = None"
| "adapter_step inner (Suc n) env m ad0 e =
     (let ad = halt_pending ad0 in
      case (ad_held ad, ac_gate (ad_core ad)) of
        (h # rest, Some g) \<Rightarrow>
          (case propose_held env g h rest ad of
             (Some res, ad1) \<Rightarrow> Some (Inr res, ad1, e)
           | (None, ad1) \<Rightarrow> adapter_step inner n env m ad1 e)
      | _ \<Rightarrow>
          (case next_model_action inner env m (ad_core ad) e of
             None \<Rightarrow> None
           | Some (Inl err, c, e1) \<Rightarrow> Some (Inl err, ad\<lparr>ad_core := c\<rparr>, e1)
           | Some (Inr a, c, e1) \<Rightarrow>
               if ma_type a \<noteq> ''tool_call'' then Some (Inr (Answer a), ad\<lparr>ad_core := c\<rparr>, e1)
               else (case batch_of a of
                   Inl err \<Rightarrow> Some (Inl err, ad\<lparr>ad_core := c\<rparr>, e1)
                 | Inr hs \<Rightarrow> adapter_step inner n env None (on_gate begin_batch (ad\<lparr>ad_core := c, ad_held := hs\<rparr>)) e1)))"

definition adapter_receive ::
  "'e core_env \<Rightarrow> string \<Rightarrow> pyval \<Rightarrow> nat \<Rightarrow> adapter \<Rightarrow> 'e \<Rightarrow> core_error option \<times> adapter \<times> 'e" where
  "adapter_receive env tool result i ad e =
     (let (name, index) = (case ad_released ad of
          Some h \<Rightarrow> (cr_tool (hc_record h), hc_index h)
        | None \<Rightarrow> (case ac_last_call (ad_core ad) of Some r \<Rightarrow> (cr_tool r, i) | None \<Rightarrow> (tool, i)));
          (err, c, e') = receive_tool_result env name result index (ad_core ad) e
      in (err, ad\<lparr>ad_core := c, ad_released := None\<rparr>, e'))"

section \<open>Properties\<close>

definition core_attempts :: "agent_core \<Rightarrow> string \<Rightarrow> attempt_record list" where
  "core_attempts c = (case ac_gate c of Some g \<Rightarrow> ag_attempts g | None \<Rightarrow> (\<lambda>_. []))"

lemma core_attempts_event [simp]:
  "core_attempts (c\<lparr>ac_gate := map_option (record_event k fs) (ac_gate c')\<rparr>) = core_attempts c'"
  "core_attempts (c\<lparr>ac_gate := map_option (mark_terminal st r) (ac_gate c')\<rparr>) = core_attempts c'"
  by (simp_all add: core_attempts_def split: option.splits)

lemma core_attempts_gate: "ac_gate c = ac_gate c' \<Longrightarrow> core_attempts c = core_attempts c'"
  by (simp add: core_attempts_def)

lemma on_gate_frame [simp]:
  "ac_escalated (ad_core (on_gate f ad)) = ac_escalated (ad_core ad)" "ac_pending (ad_core (on_gate f ad)) = ac_pending (ad_core ad)"
  "ac_reason (ad_core (on_gate f ad)) = ac_reason (ad_core ad)" "ad_held (on_gate f ad) = ad_held ad"
  "ac_observations (ad_core (on_gate f ad)) = ac_observations (ad_core ad)"
  "ac_ledger (ad_core (on_gate f ad)) = ac_ledger (ad_core ad)"
  "ac_gate (ad_core (on_gate f ad)) = map_option f (ac_gate (ad_core ad))"
  by (simp_all add: on_gate_def)

lemma blocked_frame [simp]:
  "ac_escalated (record_blocked_tool_call r i rule reason c) = ac_escalated c"
  "ac_pending (record_blocked_tool_call r i rule reason c) = ac_pending c"
  "ac_reason (record_blocked_tool_call r i rule reason c) = ac_reason c"
  "ac_observations (record_blocked_tool_call r i rule reason c) = ac_observations c"
  "ac_ledger (record_blocked_tool_call r i rule reason c) = ac_ledger c"
  "ac_gate (record_blocked_tool_call r i rule reason c) = ac_gate c"
  by (simp_all add: record_blocked_tool_call_def batch_answered_def split: option.splits prod.splits)

lemma blocked_attempts [simp]: "core_attempts (record_blocked_tool_call r i rule reason c) = core_attempts c"
  by (rule core_attempts_gate) simp

lemma block_one_frame [simp]:
  "ac_escalated (ad_core (block_one rule reason h ad)) = ac_escalated (ad_core ad)"
  "ac_pending (ad_core (block_one rule reason h ad)) = ac_pending (ad_core ad)"
  "ac_reason (ad_core (block_one rule reason h ad)) = ac_reason (ad_core ad)"
  "ac_observations (ad_core (block_one rule reason h ad)) = ac_observations (ad_core ad)"
  "ac_ledger (ad_core (block_one rule reason h ad)) = ac_ledger (ad_core ad)"
  "core_attempts (ad_core (block_one rule reason h ad)) = core_attempts (ad_core ad)"
  by (simp_all add: block_one_def Let_def, cases "ac_gate (ad_core ad)", simp_all add: on_gate_def core_attempts_def)

lemma block_remaining_frame [simp]:
  "ac_escalated (ad_core (block_remaining rule reason ad)) = ac_escalated (ad_core ad)"
  "ac_pending (ad_core (block_remaining rule reason ad)) = ac_pending (ad_core ad)"
  "ac_reason (ad_core (block_remaining rule reason ad)) = ac_reason (ad_core ad)"
  "ac_observations (ad_core (block_remaining rule reason ad)) = ac_observations (ad_core ad)"
  "ac_ledger (ad_core (block_remaining rule reason ad)) = ac_ledger (ad_core ad)"
  "core_attempts (ad_core (block_remaining rule reason ad)) = core_attempts (ad_core ad)"
  "ad_held (block_remaining rule reason ad) = []"
proof -
  have "ac_escalated (ad_core (fold (block_one rule reason) hs ad)) = ac_escalated (ad_core ad) \<and>
      ac_pending (ad_core (fold (block_one rule reason) hs ad)) = ac_pending (ad_core ad) \<and>
      ac_reason (ad_core (fold (block_one rule reason) hs ad)) = ac_reason (ad_core ad) \<and>
      ac_observations (ad_core (fold (block_one rule reason) hs ad)) = ac_observations (ad_core ad) \<and>
      ac_ledger (ad_core (fold (block_one rule reason) hs ad)) = ac_ledger (ad_core ad) \<and>
      core_attempts (ad_core (fold (block_one rule reason) hs ad)) = core_attempts (ad_core ad)"
    for hs by (induction hs arbitrary: ad) simp_all
  then show "ac_escalated (ad_core (block_remaining rule reason ad)) = ac_escalated (ad_core ad)"
    "ac_pending (ad_core (block_remaining rule reason ad)) = ac_pending (ad_core ad)"
    "ac_reason (ad_core (block_remaining rule reason ad)) = ac_reason (ad_core ad)"
    "ac_observations (ad_core (block_remaining rule reason ad)) = ac_observations (ad_core ad)"
    "ac_ledger (ad_core (block_remaining rule reason ad)) = ac_ledger (ad_core ad)"
    "core_attempts (ad_core (block_remaining rule reason ad)) = core_attempts (ad_core ad)"
    by (simp_all add: block_remaining_def)
qed (simp add: block_remaining_def)

lemma mark_escalation_frame [simp]:
  "ac_observations (mark_control_escalation reason k c) = ac_observations c"
  "ac_ledger (mark_control_escalation reason k c) = ac_ledger c"
  "core_attempts (mark_control_escalation reason k c) = core_attempts c"
  by (simp_all add: mark_control_escalation_def core_event_def core_attempts_def split: option.splits)

lemma add_user_message_frame [simp]:
  "ac_escalated (add_user_message m c) = ac_escalated c" "ac_pending (add_user_message m c) = ac_pending c"
  "ac_reason (add_user_message m c) = ac_reason c"
  by (simp_all add: add_user_message_def split: option.splits)

lemma stopped_core_answers:
  assumes "has_terminal_recovery_pending c" and "0 < fuel"
  shows "\<exists>text c'. next_model_action fuel env m c e = Some (Inr (final_answer (''TERMINATED: '' @ text)), c', e) \<and> ac_escalated c'"
proof (cases "ac_escalated c")
  case True
  then show ?thesis by (auto simp: next_model_action_def Let_def)
next
  case False
  then obtain d where d: "ac_pending c = Some d" "terminal_kind (rx_action d)"
    using assms(1) by (auto simp: has_terminal_recovery_pending_def split: option.splits)
  obtain n where "fuel = Suc n" using assms(2) by (cases fuel) auto
  then show ?thesis using d False
    by (cases "rx_action d") (auto simp: next_model_action_def Let_def apply_pending_def terminated_def)
qed

text \<open>C20: A stopped run releases nothing. When the core was escalated or a STOP or ESCALATE waits in its slot, the next
  step of the adapter releases no held call and asks neither the model nor the strategy: it ends with a
  TERMINATED answer, the state of the environment is untouched and every held call is dropped.
\<close>

theorem stopped_run_releases_nothing:
  assumes "has_terminal_recovery_pending (ad_core ad)" and "0 < inner" and "0 < fuel"
  shows "\<exists>text ad'. adapter_step inner fuel env m ad e = Some (Inr (Answer (final_answer (''TERMINATED: '' @ text))), ad', e)
    \<and> ad_held ad' = [] \<and> ac_escalated (ad_core ad')"
proof -
  let ?ad = "halt_pending ad"
  have held: "ad_held ?ad = []" using assms(1) by (auto simp: halt_pending_def)
  have "has_terminal_recovery_pending (ad_core ?ad)"
    using assms(1) by (simp add: halt_pending_def has_terminal_recovery_pending_def)
  from stopped_core_answers [OF this assms(2), of env m e]
  obtain t c' where answer: "next_model_action inner env m (ad_core ?ad) e = Some (Inr (final_answer (''TERMINATED: '' @ t)), c', e)"
    and stop: "ac_escalated c'" by (elim exE conjE) (rule that)
  obtain n where n: "fuel = Suc n" using assms(3) by (cases fuel) auto
  have "adapter_step inner fuel env m ad e = Some (Inr (Answer (final_answer (''TERMINATED: '' @ t))), ?ad\<lparr>ad_core := c'\<rparr>, e)"
    unfolding n adapter_step.simps(2) Let_def held answer by (simp add: final_answer_def)
  then show ?thesis using held stop by (intro exI [of _ t] exI [of _ "?ad\<lparr>ad_core := c'\<rparr>"]) simp
qed

definition stopped_adapter :: adapter where
  "stopped_adapter =
     \<lparr>ad_core = core_new\<lparr>ac_pending := Some (none_choice\<lparr>rx_action := Kind_STOP\<rparr>), ac_gate := Some (auth_gate_new (\<lambda>_. None))\<rparr>,
      ad_held = [\<lparr>hc_record = single_call, hc_index = 0, hc_origin = ''model_batch''\<rparr>], ad_released = None\<rparr>"

lemma stopped_run_releases_nothing_witness:
  "has_terminal_recovery_pending (ad_core stopped_adapter) \<and>
   (\<exists>text ad'. adapter_step 1 1 stubborn_env None stopped_adapter () = Some (Inr (Answer (final_answer (''TERMINATED: '' @ text))), ad', ())
     \<and> ad_held ad' = [] \<and> ac_escalated (ad_core ad'))"
proof (rule conjI)
  show stop: "has_terminal_recovery_pending (ad_core stopped_adapter)"
    by (simp add: has_terminal_recovery_pending_def stopped_adapter_def)
  show "\<exists>text ad'. adapter_step 1 1 stubborn_env None stopped_adapter () = Some (Inr (Answer (final_answer (''TERMINATED: '' @ text))), ad', ())
     \<and> ad_held ad' = [] \<and> ac_escalated (ad_core ad')"
    by (rule stopped_run_releases_nothing [OF stop]) simp_all
qed

text \<open>
  Whatever a step of the adapter blocks, it executes nothing by itself: a call the gate refuses adds no
  observation, no evidence and no attempt, and a call it releases was authorized by the gate in the state
  it was in when the call was proposed.
\<close>

theorem proposing_executes_nothing:
  assumes "ac_gate (ad_core ad) = Some g" and "propose_held env g h rest ad = (res, ad')"
  shows "ac_observations (ad_core ad') = ac_observations (ad_core ad) \<and> ac_ledger (ad_core ad') = ac_ledger (ad_core ad)
    \<and> core_attempts (ad_core ad') = ag_attempts g
    \<and> (res = Some (Release h') \<longrightarrow> h' = h \<and> ad_released ad' = Some h \<and>
         authorize_call (semantics_of (ag_registry g) (cr_tool (hc_record h))) (held_request h (ad_core ad))
           (request_digest (ce_sha env) (ce_loads env) (held_request h (ad_core ad))) g = allow)"
proof -
  obtain a g1 where p: "gate_propose (ce_sha env) (ce_loads env) (held_request h (ad_core ad)) g = (a, g1)" by fastforce
  have attempts: "ag_attempts g1 = ag_attempts g"
    using gate_propose_parts(2) [of "ce_sha env" "ce_loads env" "held_request h (ad_core ad)" g] by (simp add: p)
  have a: "a = authorize_call (semantics_of (ag_registry g) (cr_tool (hc_record h))) (held_request h (ad_core ad))
           (request_digest (ce_sha env) (ce_loads env) (held_request h (ad_core ad))) g"
    using gate_propose_parts(1) [of "ce_sha env" "ce_loads env" "held_request h (ad_core ad)" g]
    unfolding p fst_conv by (simp add: held_request_def)
  have ok: "az_authorized a \<Longrightarrow> a = allow"
    unfolding a by (auto simp: authorize_call_def evaluate_repeat_def block_call_def split: if_splits)
  have auth: "res = Some (Release h') \<Longrightarrow> h' = h \<and> ad_released ad' = Some h \<and> az_authorized a" for h'
    using assms(2) unfolding propose_held_def p Let_def prod.case
    by (cases "az_authorized a"; cases "az_terminal a") auto
  have gates: "core_attempts (ad_core (on_gate (mark_terminal st rs) x)) = core_attempts (ad_core x)"
    "core_attempts (ad_core (on_gate (\<lambda>_. g1) ad)) = ag_attempts g" for st rs x
    by (simp_all add: on_gate_def core_attempts_def assms(1) attempts split: option.splits)
  have frame: "ac_observations (ad_core ad') = ac_observations (ad_core ad) \<and> ac_ledger (ad_core ad') = ac_ledger (ad_core ad)
    \<and> core_attempts (ad_core ad') = ag_attempts g"
    using assms(2) unfolding propose_held_def p Let_def prod.case
    by (cases "az_authorized a"; cases "az_terminal a") (auto simp: gates)
  show ?thesis using frame auth ok a by metis
qed

lemma proposing_executes_nothing_witness:
  "\<exists>res ad'. propose_held stubborn_env (auth_gate_new (\<lambda>_. None)) (hd (ad_held stopped_adapter)) [] stopped_adapter = (res, ad')
    \<and> core_attempts (ad_core ad') = ag_attempts (auth_gate_new (\<lambda>_. None))"
proof -
  obtain res ad' where p: "propose_held stubborn_env (auth_gate_new (\<lambda>_. None)) (hd (ad_held stopped_adapter)) [] stopped_adapter = (res, ad')"
    by fastforce
  have "ac_gate (ad_core stopped_adapter) = Some (auth_gate_new (\<lambda>_. None))" by (simp add: stopped_adapter_def)
  from proposing_executes_nothing [OF this p] p show ?thesis by blast
qed

end
