(* ===== verification/ControlArms.thy ===== *)
theory ControlArms imports CoreLoop Failures begin

text \<open>
  The six control arms of phase 5 (\<open>src/lhas/phase5/control_arms.py\<close>) and the shadow observer
  (\<open>src/lhas/phase5/shadow_observer.py\<close>) that the full arms read.

  \<^item> One record, \<open>strategy\<close>, holds the state of every arm; \<open>on_step_result\<close> and \<open>on_validation_result\<close> are the
    methods of the arm's class. A3 to A5 ask the recovery policy of phase 4 (\<open>policy_decide\<close>).
  \<^item> \<open>Evidence_not_text\<close> is the exception of cutting an error that is not a string.
  \<^item> The confidence of a shadow record is a float that nothing reads; it is left out. A status is a value
    that Python can hash.
  \<^item> \<open>run_trial\<close> is the loop of the execution harness, \<open>validate_pair\<close> the check of paired trials.
\<close>

section \<open>The shadow observer\<close>

datatype signal_kind = Signal_PROGRESSING | Signal_STALLED | Signal_REGRESSING | Signal_ANOMALY | Signal_NO_OBSERVATION

fun signal_kind_value :: "signal_kind \<Rightarrow> string" where
  "signal_kind_value Signal_PROGRESSING = ''PROGRESSING''"
| "signal_kind_value Signal_STALLED = ''STALLED''"
| "signal_kind_value Signal_REGRESSING = ''REGRESSING''"
| "signal_kind_value Signal_ANOMALY = ''ANOMALY''"
| "signal_kind_value Signal_NO_OBSERVATION = ''NO_OBSERVATION''"

record shadow_entry =
  se_step :: nat
  se_action :: string
  se_keys :: "string list"
  se_status :: pyval

record shadow_record =
  sr_trial :: string
  sr_step :: nat
  sr_action :: string
  sr_keys :: "string list"
  sr_status :: pyval
  sr_environment :: bool
  sr_length :: nat
  sr_signal :: signal_kind
  sr_reason :: string

record shadow_observer =
  sh_window :: nat
  sh_history :: "(string \<times> shadow_entry list) list"
  sh_records :: "shadow_record list"

definition shadow_observer_new :: "nat \<Rightarrow> shadow_observer" where
  "shadow_observer_new w = \<lparr>sh_window = w, sh_history = [], sh_records = []\<rparr>"

definition shadow_status :: "pydict \<Rightarrow> pyval" where
  "shadow_status r =
     dict_get_or r ''status'' (PStr (if py_truthy (dict_get r ''error'') then ''error'' else ''unknown''))"

definition task_history :: "shadow_observer \<Rightarrow> string \<Rightarrow> shadow_entry list" where
  "task_history o' task = (case map_of (sh_history o') task of Some es \<Rightarrow> es | None \<Rightarrow> [])"

definition trim_history :: "nat \<Rightarrow> shadow_entry list \<Rightarrow> shadow_entry list" where
  "trim_history w es = (if length es > w * 2 then (if w = 0 then es else last_n w es) else es)"

definition classify_shadow :: "shadow_entry list \<Rightarrow> string \<Rightarrow> pydict \<Rightarrow> signal_kind \<times> string" where
  "classify_shadow es action r =
     (let st = shadow_status r in
      if st \<in> {PStr ''error'', PStr ''failure'', PStr ''FAILURE''}
        then (Signal_ANOMALY, ''tool returned status='' @ py_str st)
      else if length es \<ge> 3 \<and> length (remdups (map se_action (last_n 3 es))) = 1
        then (Signal_STALLED, ''action '' @ [char_of (39::nat)] @ action @ [char_of (39::nat)] @ '' repeated 3 times'')
      else if length es \<ge> 2 \<and> se_status (es ! (length es - 2)) = PStr ''success'' \<and> st \<noteq> PStr ''success''
        then (Signal_REGRESSING, ''result status degraded from success'')
      else if st \<in> {PStr ''success'', PStr ''ok'', PStr ''completed''} then (Signal_PROGRESSING, ''tool call succeeded'')
      else (Signal_NO_OBSERVATION, ''insufficient signal''))"

definition shadow_observe ::
  "string \<Rightarrow> nat \<Rightarrow> string \<Rightarrow> pydict \<Rightarrow> bool \<Rightarrow> shadow_observer \<Rightarrow> shadow_record \<times> shadow_observer" where
  "shadow_observe task step action r environment s =
     (let keys = sort (map fst r);
          entry = \<lparr>se_step = step, se_action = action, se_keys = keys, se_status = shadow_status r\<rparr>;
          es = trim_history (sh_window s) (task_history s task @ [entry]);
          (signal, reason) = classify_shadow es action r;
          row = \<lparr>sr_trial = task, sr_step = step, sr_action = action, sr_keys = keys, sr_status = shadow_status r,
                 sr_environment = environment, sr_length = length es, sr_signal = signal, sr_reason = reason\<rparr>
      in (row, s\<lparr>sh_history := AList.update task es (sh_history s), sh_records := sh_records s @ [row]\<rparr>))"

definition records_of :: "string option \<Rightarrow> shadow_observer \<Rightarrow> shadow_record list" where
  "records_of task s = (case task of None \<Rightarrow> sh_records s | Some t \<Rightarrow> filter (\<lambda>r. sr_trial r = t) (sh_records s))"

section \<open>Strategies\<close>

datatype control_arm = A0_BARE | A1_RETRY_ONLY | A2_VALIDATOR_ONLY | A3_ODYS_FULL
  | A4_ODYS_MINUS_OBSERVABLE_PROGRESS | A5_ODYS_MINUS_RECOVERY_BUDGET_POLICY

fun control_arm_value :: "control_arm \<Rightarrow> string" where
  "control_arm_value A0_BARE = ''A0_BARE''"
| "control_arm_value A1_RETRY_ONLY = ''A1_RETRY_ONLY''"
| "control_arm_value A2_VALIDATOR_ONLY = ''A2_VALIDATOR_ONLY''"
| "control_arm_value A3_ODYS_FULL = ''A3_ODYS_FULL''"
| "control_arm_value A4_ODYS_MINUS_OBSERVABLE_PROGRESS = ''A4_ODYS_MINUS_OBSERVABLE_PROGRESS''"
| "control_arm_value A5_ODYS_MINUS_RECOVERY_BUDGET_POLICY = ''A5_ODYS_MINUS_RECOVERY_BUDGET_POLICY''"

record strategy =
  sy_arm :: control_arm
  sy_retries :: nat
  sy_attempt :: nat
  sy_max :: nat
  sy_history :: "recovery_action list"

definition strategy_new :: "control_arm \<Rightarrow> strategy" where
  "strategy_new arm = \<lparr>sy_arm = arm, sy_retries = 0, sy_attempt = 0, sy_max = 15, sy_history = []\<rparr>"

definition odys_arm :: "control_arm \<Rightarrow> bool" where
  "odys_arm a \<longleftrightarrow> a \<in> {A3_ODYS_FULL, A4_ODYS_MINUS_OBSERVABLE_PROGRESS, A5_ODYS_MINUS_RECOVERY_BUDGET_POLICY}"

definition should_validate :: "control_arm \<Rightarrow> bool" where
  "should_validate a \<longleftrightarrow> a = A2_VALIDATOR_ONLY \<or> odys_arm a"

definition recovery_budget_enabled :: "control_arm \<Rightarrow> bool" where
  "recovery_budget_enabled a \<longleftrightarrow> a = A3_ODYS_FULL \<or> a = A4_ODYS_MINUS_OBSERVABLE_PROGRESS"

definition progress_signals_recovery :: "control_arm \<Rightarrow> bool" where
  "progress_signals_recovery a \<longleftrightarrow> a = A3_ODYS_FULL \<or> a = A5_ODYS_MINUS_RECOVERY_BUDGET_POLICY"

definition create_observer :: "control_arm \<Rightarrow> shadow_observer option" where
  "create_observer a = (if odys_arm a then Some (shadow_observer_new 5) else None)"

definition odys_config :: "(string \<Rightarrow> string) \<Rightarrow> nat \<Rightarrow> pydict" where
  "odys_config sha max_turns =
     [(''recovery'', PBool True), (''validation'', PBool True), (''progress'', PBool True),
      (''recovery_budget_policy'', PBool True), (''recovery_policy_class'', PStr ''DefaultRecoveryPolicy''),
      (''recovery_policy_module'', PStr ''lhas.recovery''),
      (''phase4_policy_config_hash'', PStr (stable_hash sha
         (PDict [(''policy'', PStr ''DefaultRecoveryPolicy''), (''max_attempts'', PInt (int max_turns))])))]"

definition configure :: "(string \<Rightarrow> string) \<Rightarrow> nat \<Rightarrow> strategy \<Rightarrow> pydict \<times> strategy" where
  "configure sha max_turns s =
     (let flags = (\<lambda>r v p. [(''recovery'', PBool r), (''validation'', PBool v), (''progress'', PBool p)]);
          fresh = s\<lparr>sy_attempt := 0, sy_max := max_turns, sy_history := []\<rparr>
      in case sy_arm s of
           A0_BARE \<Rightarrow> (flags False False False, s)
         | A1_RETRY_ONLY \<Rightarrow> (flags True False False @ [(''max_retries'', PInt 3)], s\<lparr>sy_retries := 0\<rparr>)
         | A2_VALIDATOR_ONLY \<Rightarrow> (flags False True False, s)
         | A3_ODYS_FULL \<Rightarrow> (odys_config sha max_turns, fresh)
         | A4_ODYS_MINUS_OBSERVABLE_PROGRESS \<Rightarrow>
             (dict_merge (odys_config sha max_turns)
                [(''progress_signals_recovery'', PBool False), (''ablation'', PStr ''observable_progress_disabled'')], fresh)
         | A5_ODYS_MINUS_RECOVERY_BUDGET_POLICY \<Rightarrow>
             (dict_merge (odys_config sha max_turns)
                [(''recovery_budget_policy'', PBool False), (''ablation'', PStr ''recovery_budget_policy_disabled'')], fresh))"

section \<open>Decisions\<close>

definition public_failure_result :: "pydict \<Rightarrow> bool" where
  "public_failure_result r \<longleftrightarrow>
     casefold (py_str (dict_get_or r ''status'' (PStr []))) \<in> {''error'', ''failure'', ''failed''}
     \<or> py_truthy (dict_get r ''error'')"

fun map_phase4_action :: "recovery_action_type \<Rightarrow> recovery_kind" where
  "map_phase4_action RA_RETRY_WITH_FAILURE_CONTEXT = Kind_RETRY_WITH_CONTEXT"
| "map_phase4_action RA_RETRY_WITH_EXPANDED_CONTEXT = Kind_RETRY_WITH_CONTEXT"
| "map_phase4_action RA_ESCALATE = Kind_ESCALATE"
| "map_phase4_action RA_ABORT = Kind_STOP"
| "map_phase4_action RA_HUMAN_APPROVAL = Kind_ESCALATE"
| "map_phase4_action RA_BLOCK_PROVIDER = Kind_STOP"

definition signal_to_failure_type :: "string \<Rightarrow> failure_type \<times> failure_class" where
  "signal_to_failure_type s =
     (if s = ''TOOL_ERROR'' \<or> s = ''ANOMALY'' then (FT_TOOL_ERROR, FC_EXECUTION)
      else if s = ''STALLED'' then (FT_STALE_CONTEXT, FC_CONTEXT)
      else if s = ''REGRESSING'' then (FT_WRONG_MATCH, FC_REASONING)
      else (FT_UNKNOWN, FC_UNKNOWN))"

datatype strategy_error = Evidence_not_text pyval

text \<open>\<open>result.get("error", result.get("output", str(result)))[:500] if result else reason\<close>.\<close>

definition delegated_evidence :: "pydict \<Rightarrow> string \<Rightarrow> strategy_error + string" where
  "delegated_evidence r reason =
     (if r = [] then Inr reason
      else (case dict_get_or r ''error'' (dict_get_or r ''output'' (PStr (py_str (PDict r)))) of
          PStr s \<Rightarrow> Inr (take 500 s)
        | v \<Rightarrow> Inl (Evidence_not_text v)))"

definition delegation_evidence :: "recovery_action \<Rightarrow> nat \<Rightarrow> pydict" where
  "delegation_evidence act n =
     [(''phase4_delegation'', PBool True), (''phase4_recovery_action_type'', PStr (recovery_action_value (ra_type act))),
      (''phase4_reason'', PStr (ra_reason act)), (''phase4_attempt_from'', PInt (int (ra_from act))),
      (''phase4_attempt_to'', (case ra_to act of Some m \<Rightarrow> PInt (int m) | None \<Rightarrow> PNone)),
      (''phase4_added_context'', PDict (ra_added act)), (''phase4_context_policy'', PStr (ra_policy act)),
      (''recovery_policy'', PStr ''DefaultRecoveryPolicy''), (''attempt_number'', PInt (int n))]"

definition phase4_attempt :: "string \<Rightarrow> nat \<Rightarrow> attempt" where
  "phase4_attempt aid n =
     \<lparr>at_id = aid, at_run = ''phase5-harness-run'', at_number = n, at_status = Attempt_PENDING, at_snapshot = None, at_result = None,
      at_usage = [], at_failure = None, at_error_type = None, at_error_message = None, at_output = None, at_duration = None\<rparr>"

text \<open>\<open>_delegate_to_recovery\<close>; \<open>aid\<close> is the fresh id of the attempt it makes up.\<close>

definition delegate_to_recovery ::
  "string \<Rightarrow> pydict \<Rightarrow> string \<Rightarrow> string \<Rightarrow> strategy \<Rightarrow> (strategy_error + recovery_choice) \<times> strategy" where
  "delegate_to_recovery aid r signal reason s0 =
     (let n = Suc (sy_attempt s0); s = s0\<lparr>sy_attempt := n\<rparr>; (ft, fc) = signal_to_failure_type signal in
      case delegated_evidence r reason of
        Inl err \<Rightarrow> (Inl err, s)
      | Inr evidence \<Rightarrow>
          (let report = \<lparr>fr_attempt = aid, fr_type = ft, fr_class = fc, fr_evidence = evidence, fr_summary = reason,
                         fr_confidence = 9 / 10,
                         fr_suggested = (if n < sy_max s then ''retry with failure context'' else ''escalate'')\<rparr>;
               act = policy_decide ''CP-2'' (phase4_attempt aid n) report n (sy_max s) (length (sy_history s))
           in (Inr \<lparr>rx_action = map_phase4_action (ra_type act),
                    rx_reason = ''[Phase4] '' @ ra_reason act @ '' (attempt '' @ nat_digits n @ '')'',
                    rx_signal = Some signal, rx_evidence = delegation_evidence act n\<rparr>,
               s\<lparr>sy_history := sy_history s @ [act]\<rparr>)))"

text \<open>The last shadow record when it asks for recovery.\<close>

definition alarming :: "shadow_observer option \<Rightarrow> shadow_record option" where
  "alarming obs =
     (case obs of
        None \<Rightarrow> None
      | Some s \<Rightarrow>
          if sh_records s \<noteq> [] \<and> sr_signal (last (sh_records s)) \<in> {Signal_ANOMALY, Signal_STALLED, Signal_REGRESSING}
          then Some (last (sh_records s)) else None)"

definition status_text :: "pydict \<Rightarrow> string" where
  "status_text r = py_str (dict_get_or r ''status'' (PStr []))"

definition on_step_result ::
  "string \<Rightarrow> pydict \<Rightarrow> shadow_observer option \<Rightarrow> strategy \<Rightarrow> (strategy_error + recovery_choice) \<times> strategy" where
  "on_step_result aid r obs s =
     (case sy_arm s of
        A0_BARE \<Rightarrow> (Inr none_choice, s)
      | A2_VALIDATOR_ONLY \<Rightarrow> (Inr none_choice, s)
      | A1_RETRY_ONLY \<Rightarrow>
          if public_failure_result r \<and> sy_retries s < 3
          then (let n = Suc (sy_retries s) in
            (Inr \<lparr>rx_action = Kind_RETRY, rx_reason = ''retry #'' @ nat_digits n @ '' after status='' @ status_text r,
                  rx_signal = Some ''TOOL_ERROR'', rx_evidence = []\<rparr>, s\<lparr>sy_retries := n\<rparr>))
          else (Inr none_choice, s)
      | arm \<Rightarrow>
          (case (if progress_signals_recovery arm then alarming obs else None) of
             Some row \<Rightarrow> delegate_to_recovery aid r (signal_kind_value (sr_signal row)) (sr_reason row) s
           | None \<Rightarrow>
               if public_failure_result r then delegate_to_recovery aid r ''TOOL_ERROR'' (''tool status='' @ status_text r) s
               else (Inr none_choice, s)))"

definition on_validation_result ::
  "string \<Rightarrow> validator_feedback \<Rightarrow> strategy \<Rightarrow> (strategy_error + recovery_choice) option \<times> strategy" where
  "on_validation_result aid fb s =
     (if odys_arm (sy_arm s)
      then map_prod Some id (delegate_to_recovery aid
        [(''status'', PStr ''validation_rejected''), (''failure_type'', opt_str (vb_failure fb))] ''VALIDATION_REJECT''
        (''Validator '' @ vb_validator fb @ '' rejected: '' @ py_str (opt_str (vb_failure fb))) s)
      else (None, s))"

section \<open>The execution harness\<close>

record trial =
  tl_steps :: "pydict list"
  tl_recovery :: "pydict list"
  tl_rejections :: nat
  tl_strategy :: strategy
  tl_observer :: "shadow_observer option"

definition trial_tool :: "string list \<Rightarrow> nat \<Rightarrow> string" where
  "trial_tool tools i = (if tools = [] then ''default_tool'' else tools ! (i mod length tools))"

definition recovery_row :: "nat \<Rightarrow> recovery_choice \<Rightarrow> pydict" where
  "recovery_row i d =
     dict_merge [(''step'', PInt (int i)), (''action'', PStr (recovery_kind_value (rx_action d))), (''reason'', PStr (rx_reason d)),
                 (''signal'', opt_str (rx_signal d))]
       (filter (\<lambda>p. prefix ''phase4_'' (fst p)) (rx_evidence d))"

text \<open>One step of the loop, and whether the loop breaks on it.\<close>

definition trial_step ::
  "string \<Rightarrow> string list \<Rightarrow> string \<Rightarrow> pydict \<Rightarrow> nat \<Rightarrow> trial \<Rightarrow> (strategy_error + bool) \<times> trial" where
  "trial_step aid tools task r i t0 =
     (let arm = sy_arm (tl_strategy t0);
          obs = map_option (\<lambda>s. snd (shadow_observe task i (trial_tool tools i @ ''@'' @ nat_digits i) r False s)) (tl_observer t0);
          t = t0\<lparr>tl_steps := tl_steps t0 @ [r], tl_observer := obs\<rparr>
      in case on_step_result aid r obs (tl_strategy t) of
           (Inl err, s) \<Rightarrow> (Inl err, t\<lparr>tl_strategy := s\<rparr>)
         | (Inr d, s) \<Rightarrow>
             (let acted = (rx_action d \<noteq> Kind_NONE);
                  t1 = t\<lparr>tl_strategy := s, tl_recovery := tl_recovery t @ (if acted then [recovery_row i d] else []),
                         tl_rejections := tl_rejections t + (if acted \<and> recovery_budget_enabled arm then 1 else 0)\<rparr>
              in if rx_action d = Kind_STOP then (Inr True, t1)
                 else (Inr False, t1\<lparr>tl_rejections := tl_rejections t1 +
                   (if should_validate arm \<and> dict_get_or r ''status'' (PStr []) \<in> {PStr ''error'', PStr ''failure'', PStr ''FAILURE''}
                    then 1 else 0)\<rparr>)))"

text \<open>The results the backend returns are given; \<open>aids\<close> draws the ids.\<close>

fun run_trial ::
  "(nat \<Rightarrow> string) \<Rightarrow> string list \<Rightarrow> string \<Rightarrow> (nat \<Rightarrow> pydict) \<Rightarrow> nat \<Rightarrow> nat \<Rightarrow> trial \<Rightarrow> strategy_error option \<times> trial" where
  "run_trial aids tools task backend i 0 t = (None, t)"
| "run_trial aids tools task backend i (Suc n) t =
     (case trial_step (aids i) tools task (backend i) i t of
        (Inl err, t1) \<Rightarrow> (Some err, t1)
      | (Inr True, t1) \<Rightarrow> (None, t1)
      | (Inr False, t1) \<Rightarrow> run_trial aids tools task backend (Suc i) n t1)"

definition execute_trial ::
  "(string \<Rightarrow> string) \<Rightarrow> (nat \<Rightarrow> string) \<Rightarrow> string list \<Rightarrow> string \<Rightarrow> (nat \<Rightarrow> pydict) \<Rightarrow> nat \<Rightarrow> nat \<Rightarrow> strategy
    \<Rightarrow> strategy_error option \<times> trial" where
  "execute_trial sha aids tools task backend max_turns max_calls s0 =
     (let (_, s) = configure sha max_turns s0
      in run_trial aids tools task backend 0 (min max_turns max_calls)
           \<lparr>tl_steps = [], tl_recovery = [], tl_rejections = 0, tl_strategy = s, tl_observer = create_observer (sy_arm s)\<rparr>)"

section \<open>Paired trials\<close>

definition invariant_fields :: "string list" where
  "invariant_fields =
     [''benchmark_name'', ''benchmark_revision'', ''dataset_digest'', ''evaluator_digest'', ''full_benchmark_sha'', ''task_id'',
      ''native_condition'', ''prompt_hash'', ''tool_schema_hash'', ''tool_registry_hash'', ''environment_fixture_hash'',
      ''perturbation_mode'', ''fault_source'', ''model_id'', ''provider'', ''temperature'', ''top_p'', ''seed'', ''max_tokens'',
      ''provider_config_hash'', ''system_prompt'', ''root_model_call_budget'', ''root_token_budget'', ''wall_deadline_budget'',
      ''validator_identity'', ''offline_grader_identity'']"

definition trial_violations :: "pydict \<Rightarrow> nat \<Rightarrow> pydict \<Rightarrow> string list" where
  "trial_violations ref i t =
     (if py_eq (dict_get t ''arm'') (dict_get ref ''arm'')
      then [''trial '' @ nat_digits i @ '': arm must differ from reference (both '' @ py_str (dict_get t ''arm'') @ '')''] else [])
     @ map (\<lambda>f. ''trial '' @ nat_digits i @ '' ('' @ py_str (dict_get_or t ''arm'' (PStr ''?'')) @ ''): '' @ f @ '' mismatch (''
         @ py_repr (dict_get t f) @ '' != '' @ py_repr (dict_get ref f) @ '')'')
       (filter (\<lambda>f. \<not> py_eq (dict_get ref f) (dict_get t f)) invariant_fields)"

definition pair_violations :: "pydict list \<Rightarrow> string list" where
  "pair_violations ts =
     (case ts of
        [] \<Rightarrow> []
      | ref # rest \<Rightarrow> concat (map (\<lambda>(i, t). trial_violations ref i t) (enumerate 1 rest)))"

definition validate_pair :: "pydict list \<Rightarrow> bool \<times> string list" where
  "validate_pair ts = (pair_violations ts = [], pair_violations ts)"

section \<open>Properties\<close>

text \<open>
  The full arms escalate by count. The n-th time an arm asks the recovery policy it gets a retry with changed
  context while n is below the limit of turns and an escalation from then on; it never gets a plain retry
  and never a stop.
\<close>

theorem delegation_escalates_by_count:
  assumes "delegate_to_recovery aid r signal reason s = (Inr d, s')"
  shows "rx_action d = (if Suc (sy_attempt s) < sy_max s then Kind_RETRY_WITH_CONTEXT else Kind_ESCALATE)
    \<and> sy_attempt s' = Suc (sy_attempt s) \<and> sy_max s' = sy_max s"
proof -
  obtain ft fc where sig: "signal_to_failure_type signal = (ft, fc)" by fastforce
  then have "ft \<in> {FT_TOOL_ERROR, FT_STALE_CONTEXT, FT_WRONG_MATCH, FT_UNKNOWN}"
    by (auto simp: signal_to_failure_type_def split: if_splits)
  then show ?thesis using assms
    by (auto simp: delegate_to_recovery_def sig Let_def policy_decide_def split: sum.splits)
qed

lemma delegation_escalates_by_count_witness:
  "rx_action (case fst (delegate_to_recovery ''a'' [] ''TOOL_ERROR'' ''x'' ((strategy_new A3_ODYS_FULL)\<lparr>sy_max := 1\<rparr>)) of
      Inr d \<Rightarrow> d | Inl _ \<Rightarrow> none_choice) = Kind_ESCALATE"
proof -
  let ?s = "(strategy_new A3_ODYS_FULL)\<lparr>sy_max := 1\<rparr>"
  have "\<exists>d s'. delegate_to_recovery ''a'' [] ''TOOL_ERROR'' ''x'' ?s = (Inr d, s')"
    by (simp add: delegate_to_recovery_def delegated_evidence_def signal_to_failure_type_def Let_def)
  then obtain d s' where "delegate_to_recovery ''a'' [] ''TOOL_ERROR'' ''x'' ?s = (Inr d, s')" by blast
  from delegation_escalates_by_count [OF this] this show ?thesis by (simp add: strategy_new_def)
qed

text \<open>
  An error that is not a text takes the strategy down. When a tool reports its error as a structured value,
  which the result normalizer reads, the full arms raise instead of deciding, and the attempt is counted.
\<close>

theorem structured_error_breaks_strategy:
  assumes "odys_arm (sy_arm s)" "map_of r ''error'' = Some (PDict e)" "e \<noteq> []" "obs = None"
  shows "on_step_result aid r obs s = (Inl (Evidence_not_text (PDict e)), s\<lparr>sy_attempt := Suc (sy_attempt s)\<rparr>)"
proof -
  have "r \<noteq> []" using assms(2) by auto
  then have "delegated_evidence r reason = Inl (Evidence_not_text (PDict e))" for reason
    using assms(2) by (simp add: delegated_evidence_def dict_get_or_def)
  moreover have "public_failure_result r" using assms(2,3) by (simp add: public_failure_result_def dict_get_def)
  ultimately show ?thesis
    using assms(1,4) by (auto simp: on_step_result_def odys_arm_def alarming_def delegate_to_recovery_def Let_def split: prod.splits)
qed

lemma structured_error_breaks_strategy_witness:
  "fst (on_step_result ''a'' [(''error'', PDict [(''type'', PStr ''timeout'')])] None (strategy_new A3_ODYS_FULL))
     = Inl (Evidence_not_text (PDict [(''type'', PStr ''timeout'')]))"
  using structured_error_breaks_strategy [of "strategy_new A3_ODYS_FULL" "[(''error'', PDict [(''type'', PStr ''timeout'')])]"
      "[(''type'', PStr ''timeout'')]" None "''a''"]
  by (simp add: strategy_new_def odys_arm_def)

lemma trial_step_length:
  "trial_step aid tools task r i t = (x, t') \<Longrightarrow> length (tl_steps t') = Suc (length (tl_steps t))"
  by (auto simp: trial_step_def Let_def split: prod.splits sum.splits if_splits)

lemma run_trial_length:
  "run_trial aids tools task backend i n t = (err, t') \<Longrightarrow> length (tl_steps t') \<le> length (tl_steps t) + n"
proof (induction n arbitrary: i t)
  case (Suc n)
  obtain x t1 where step: "trial_step (aids i) tools task (backend i) i t = (x, t1)" by fastforce
  note len = trial_step_length [OF step]
  show ?case
  proof (cases x)
    case (Inr b)
    then show ?thesis using Suc.prems Suc.IH [of "Suc i" t1] len by (cases b) (auto simp: step)
  qed (use Suc.prems len in \<open>simp add: step\<close>)
qed simp

lemma trial_step_retries:
  "trial_step aid tools task r i t = (x, t') \<Longrightarrow> sy_arm (tl_strategy t) = A1_RETRY_ONLY \<Longrightarrow> sy_retries (tl_strategy t) \<le> 3 \<Longrightarrow>
     sy_arm (tl_strategy t') = A1_RETRY_ONLY \<and> sy_retries (tl_strategy t') \<le> 3
     \<and> length (tl_recovery t') + sy_retries (tl_strategy t) = length (tl_recovery t) + sy_retries (tl_strategy t')"
  by (auto simp: trial_step_def on_step_result_def none_choice_def Let_def split: prod.splits sum.splits if_splits)

text \<open>
  A trial makes at most as many tool calls as the smaller of its two root budgets, in every arm; and the arm
  that only retries intervenes at most three times in a trial, however many calls fail.
\<close>

theorem trial_within_budgets:
  "let t = snd (execute_trial sha aids tools task backend max_turns max_calls (strategy_new arm)) in
     length (tl_steps t) \<le> min max_turns max_calls \<and> (arm = A1_RETRY_ONLY \<longrightarrow> length (tl_recovery t) \<le> 3)"
proof -
  obtain cfg s where cfg: "configure sha max_turns (strategy_new arm) = (cfg, s)" by fastforce
  let ?t0 = "\<lparr>tl_steps = [], tl_recovery = [], tl_rejections = 0, tl_strategy = s, tl_observer = create_observer (sy_arm s)\<rparr>"
  obtain err t where run: "run_trial aids tools task backend 0 (min max_turns max_calls) ?t0 = (err, t)" by fastforce
  have "length (tl_steps t) \<le> min max_turns max_calls" using run_trial_length [OF run] by simp
  moreover have "length (tl_recovery t) \<le> 3" if "arm = A1_RETRY_ONLY"
  proof -
    have inv: "run_trial aids tools task backend i n x = (e, y) \<Longrightarrow> sy_arm (tl_strategy x) = A1_RETRY_ONLY \<Longrightarrow>
        sy_retries (tl_strategy x) \<le> 3 \<Longrightarrow> length (tl_recovery x) = sy_retries (tl_strategy x) \<Longrightarrow> length (tl_recovery y) \<le> 3"
      for i n x e y
    proof (induction n arbitrary: i x)
      case (Suc n)
      obtain z x1 where step: "trial_step (aids i) tools task (backend i) i x = (z, x1)" by fastforce
      note facts = trial_step_retries [OF step Suc.prems(2,3)]
      show ?case
      proof (cases z)
        case (Inr b)
        then show ?thesis using Suc.prems facts Suc.IH [of "Suc i" x1] by (cases b) (auto simp: step)
      qed (use Suc.prems facts in \<open>simp add: step\<close>)
    qed simp
    show ?thesis
      by (rule inv [OF run]) (use cfg that in \<open>auto simp: configure_def strategy_new_def Let_def\<close>)
  qed
  ultimately show ?thesis by (simp add: execute_trial_def cfg run)
qed

lemma trial_within_budgets_witness:
  "length (tl_recovery (snd (execute_trial (\<lambda>s. s) nat_digits [] ''t'' (\<lambda>_. [(''status'', PStr ''error'')]) 9 9 (strategy_new A1_RETRY_ONLY)))) \<le> 3"
  using trial_within_budgets [of "\<lambda>s. s" nat_digits "[]" "''t''" "\<lambda>_. [(''status'', PStr ''error'')]" 9 9 A1_RETRY_ONLY]
  by (simp add: Let_def)

text \<open>
  Paired trials are valid exactly when, compared with the first, every other trial ran another arm and has
  the same value in each of the twenty-six fields that may not differ.
\<close>

theorem pair_valid_iff:
  "fst (validate_pair (ref # rest)) \<longleftrightarrow>
     list_all (\<lambda>t. \<not> py_eq (dict_get t ''arm'') (dict_get ref ''arm'') \<and>
       list_all (\<lambda>f. py_eq (dict_get ref f) (dict_get t f)) invariant_fields) rest"
proof -
  have one: "trial_violations ref i t = [] \<longleftrightarrow> \<not> py_eq (dict_get t ''arm'') (dict_get ref ''arm'') \<and>
       list_all (\<lambda>f. py_eq (dict_get ref f) (dict_get t f)) invariant_fields" for i t
    by (auto simp: trial_violations_def filter_empty_conv list_all_iff)
  have "concat (map (\<lambda>(i, t). trial_violations ref i t) (enumerate n rest)) = [] \<longleftrightarrow>
      list_all (\<lambda>t. trial_violations ref 0 t = []) rest" for n
    by (induction rest arbitrary: n) (auto simp: one)
  then show ?thesis by (simp add: validate_pair_def pair_violations_def one)
qed

end
