(* ===== verification/TextEdit.thy ===== *)
theory TextEdit imports Prelude begin

text \<open>
  The text edits of the staged workspace (\<open>src/lhas/workspace/staged.py\<close>): finding the target of an
  edit, exactly or up to line ends and trailing blanks, and replacing a range of lines.

  \<^item> A file is its UTF-8 bytes; \<open>splitlines\<close> of the decoded text ends a line at the separators
    Python knows, so the byte forms of NEL, LS and PS are among them.
  \<^item> \<open>lines_of\<close> gives each line with its separator, so that nothing of the text is lost.
\<close>

section \<open>Lines\<close>

abbreviation lf :: char where "lf \<equiv> CHR 0x0A"
abbreviation cr :: char where "cr \<equiv> CHR 0x0D"

fun sep_length :: "string \<Rightarrow> nat" where
  "sep_length [] = 0"
| "sep_length (c # cs) =
     (if c = cr then (if take 1 cs = [lf] then 2 else 1)
      else if c \<in> {lf, CHR 0x0B, CHR 0x0C, CHR 0x1C, CHR 0x1D, CHR 0x1E} then 1
      else if c = CHR 0xC2 \<and> take 1 cs = [CHR 0x85] then 2
      else if c = CHR 0xE2 \<and> (take 2 cs = [CHR 0x80, CHR 0xA8] \<or> take 2 cs = [CHR 0x80, CHR 0xA9]) then 3
      else 0)"

text \<open>The first line, its separator, and the rest.\<close>

fun first_line :: "string \<Rightarrow> string \<times> string \<times> string" where
  "first_line [] = ([], [], [])"
| "first_line (c # cs) =
     (if sep_length (c # cs) = 0 then (let (b, e, r) = first_line cs in (c # b, e, r))
      else ([], take (sep_length (c # cs)) (c # cs), drop (sep_length (c # cs)) (c # cs)))"

lemma first_line_parts: "first_line s = (b, e, r) \<Longrightarrow> b @ e @ r = s"
  by (induction s arbitrary: b) (auto simp del: sep_length.simps split: if_splits prod.splits)

lemma first_line_shorter: "first_line s = (b, e, r) \<Longrightarrow> s \<noteq> [] \<Longrightarrow> length r < length s"
proof (induction s arbitrary: b)
  case (Cons c cs)
  show ?case
  proof (cases "sep_length (c # cs) = 0")
    case True
    then obtain b' where "first_line cs = (b', e, r)" using Cons.prems(1) by (auto split: prod.splits)
    then show ?thesis using Cons.IH by (cases "cs = []") auto
  next
    case False
    then show ?thesis using Cons.prems(1) by (auto simp del: sep_length.simps)
  qed
qed simp

function lines_of :: "string \<Rightarrow> (string \<times> string) list" where
  "lines_of s = (if s = [] then [] else (let (b, e, r) = first_line s in (b, e) # lines_of r))"
  by auto
termination by (relation "measure length") (simp, metis first_line_shorter in_measure)

declare lines_of.simps [simp del]

definition line_raw :: "string \<times> string \<Rightarrow> string" where
  "line_raw l = fst l @ snd l"

lemma lines_of_Nil [simp]: "lines_of [] = []"
  by (simp add: lines_of.simps)

lemma lines_of_step: "first_line s = (b, e, r) \<Longrightarrow> s \<noteq> [] \<Longrightarrow> lines_of s = (b, e) # lines_of r"
  by (simp add: lines_of.simps)

lemma lines_of_complete: "concat (map line_raw (lines_of s)) = s"
proof (induction s rule: lines_of.induct)
  case (1 s)
  show ?case
  proof (cases "s = []")
    case False
    obtain b e r where f: "first_line s = (b, e, r)" by (cases "first_line s") auto
    then show ?thesis using 1 [OF False f [symmetric] refl] lines_of_step [OF f False] first_line_parts [OF f]
      by (simp add: line_raw_def)
  qed simp
qed

definition splitlines :: "string \<Rightarrow> string list" where
  "splitlines s = map fst (lines_of s)"

section \<open>Searching\<close>

text \<open>\<open>str.count\<close>: occurrences that do not overlap, from the left.\<close>

function count_occ :: "string \<Rightarrow> string \<Rightarrow> nat" where
  "count_occ t s =
     (if t = [] \<or> s = [] then 0
      else if prefix t s then Suc (count_occ t (drop (length t) s))
      else count_occ t (tl s))"
  by auto
termination by (relation "measure (\<lambda>(t, s). length s)") (auto simp: diff_less)

declare count_occ.simps [simp del]

lemma count_occ_Nil [simp]: "count_occ t [] = 0"
  by (simp add: count_occ.simps)

lemma count_occ_Cons:
  "t \<noteq> [] \<Longrightarrow> count_occ t (c # cs) =
     (if prefix t (c # cs) then Suc (count_occ t (drop (length t) (c # cs))) else count_occ t cs)"
  by (simp add: count_occ.simps [of t "c # cs"])

fun find_at :: "string \<Rightarrow> string \<Rightarrow> nat option" where
  "find_at t [] = (if t = [] then Some 0 else None)"
| "find_at t (c # cs) =
     (if prefix t (c # cs) then Some 0 else (case find_at t cs of Some i \<Rightarrow> Some (Suc i) | None \<Rightarrow> None))"

lemma find_at_Some:
  assumes "find_at t s = Some i"
  shows "take i s @ t @ drop (i + length t) s = s \<and> (\<forall>k<i. \<not> prefix t (drop k s))"
  using assms
proof (induction s arbitrary: i)
  case (Cons c cs)
  show ?case
  proof (cases "prefix t (c # cs)")
    case True
    then show ?thesis using Cons.prems by (auto simp: prefix_def)
  next
    case False
    then obtain j where j: "find_at t cs = Some j" "i = Suc j" using Cons.prems by (auto split: option.splits)
    have "\<not> prefix t (drop k (c # cs))" if "k < i" for k
      using that False Cons.IH [OF j(1)] j(2) by (cases k) auto
    then show ?thesis using Cons.IH [OF j(1)] j(2) by simp
  qed
qed (auto split: if_splits)

lemma count_occ_none: "t \<noteq> [] \<Longrightarrow> count_occ t s = 0 \<longleftrightarrow> \<not> contains t s"
  by (induction s) (simp_all add: count_occ_Cons)

lemma count_occ_found:
  assumes "t \<noteq> []" "count_occ t s = Suc n"
  shows "\<exists>i. find_at t s = Some i \<and> count_occ t (drop (i + length t) s) = n"
  using assms
proof (induction s)
  case (Cons c cs)
  show ?case
  proof (cases "prefix t (c # cs)")
    case True
    then show ?thesis using Cons.prems by (auto simp: count_occ_Cons)
  next
    case False
    then have "count_occ t cs = Suc n" using Cons.prems by (simp add: count_occ_Cons)
    then show ?thesis using Cons.IH Cons.prems(1) False by auto
  qed
qed simp

section \<open>Errors\<close>

text \<open>What the workspace raises; \<open>Edit_error\<close> is \<open>WorkspaceEditError\<close> with its code and diagnostics.\<close>

datatype workspace_error =
    Path_escape | Binary_file | File_missing | Is_directory | Os_error | Stale_version | Invalid_arguments
  | Undecodable | Edit_error string pydict

section \<open>Targets up to line ends\<close>

record line_span =
  ls_body :: string
  ls_start :: nat
  ls_stop :: nat
  ls_next :: nat

definition span_body :: "string \<times> string \<Rightarrow> string" where
  "span_body l = (if snd l \<in> {[cr, lf], [lf], [cr]} then fst l else line_raw l)"

fun line_spans :: "nat \<Rightarrow> (string \<times> string) list \<Rightarrow> line_span list" where
  "line_spans off [] = []"
| "line_spans off (l # ls) =
     \<lparr>ls_body = span_body l, ls_start = off, ls_stop = off + length (span_body l), ls_next = off + length (line_raw l)\<rparr>
     # line_spans (off + length (line_raw l)) ls"

fun norm_newlines :: "string \<Rightarrow> string" where
  "norm_newlines [] = []"
| "norm_newlines [c] = [if c = cr then lf else c]"
| "norm_newlines (c # d # cs) =
     (if c = cr \<and> d = lf then lf # norm_newlines cs
      else (if c = cr then lf else c) # norm_newlines (d # cs))"

definition rstrip_blanks :: "string \<Rightarrow> string" where
  "rstrip_blanks s = rev (dropWhile (\<lambda>c. c = CHR '' '' \<or> c = CHR 0x09) (rev s))"

text \<open>The lines a target asks for, and whether it ends with a line end.\<close>

definition target_lines :: "string \<Rightarrow> string list \<times> bool" where
  "target_lines t =
     (let n = norm_newlines t; final = (n \<noteq> [] \<and> last n = lf); parts = split_on lf n
      in (map rstrip_blanks (if final then butlast parts else parts), final))"

definition candidate_at :: "bool \<Rightarrow> string list \<Rightarrow> line_span list \<Rightarrow> nat \<Rightarrow> (nat \<times> nat \<times> nat \<times> nat) list" where
  "candidate_at final expected spans i =
     (let width = length expected; l = spans ! (i + width - 1) in
      if map (rstrip_blanks \<circ> ls_body) (take width (drop i spans)) \<noteq> expected then []
      else if final \<and> ls_next l = ls_stop l then []
      else [(ls_start (spans ! i), (if final then ls_next l else ls_stop l), i + 1, i + width)])"

definition normalized_candidates :: "string \<Rightarrow> string \<Rightarrow> (nat \<times> nat \<times> nat \<times> nat) list" where
  "normalized_candidates text target =
     (let (expected, final) = target_lines target; spans = line_spans 0 (lines_of text) in
      if expected = [] then []
      else concat (map (candidate_at final expected spans) [0..<length spans + 1 - length expected]))"

definition replacement_for_source :: "string \<Rightarrow> string \<Rightarrow> string" where
  "replacement_for_source new source =
     (let newline = (if contains [cr, lf] source then [cr, lf]
                     else if cr \<in> set source \<and> lf \<notin> set source then [cr] else [lf])
      in concat (map (\<lambda>c. if c = lf then newline else [c]) (norm_newlines new)))"

section \<open>Replacing a target\<close>

record edit_match =
  em_mode :: string
  em_count :: nat
  em_first :: nat
  em_last :: nat

definition finish_edit ::
  "string \<Rightarrow> nat \<Rightarrow> nat \<Rightarrow> nat \<Rightarrow> nat \<Rightarrow> string \<Rightarrow> string \<Rightarrow> workspace_error + string \<times> edit_match" where
  "finish_edit mode a b l1 l2 replacement text =
     (let updated = take a text @ replacement @ drop b text in
      if updated = text then Inl (Edit_error ''NO_CHANGE'' [(''candidate_count'', PInt 1), (''match_mode'', PStr mode)])
      else Inr (updated, \<lparr>em_mode = mode, em_count = 1, em_first = l1, em_last = l2\<rparr>))"

definition ambiguous :: "nat \<Rightarrow> string \<Rightarrow> workspace_error" where
  "ambiguous n mode = Edit_error ''EDIT_TARGET_AMBIGUOUS''
     [(''candidate_count'', PInt (int (min n 100))), (''candidates_truncated'', PBool (n > 100)), (''match_mode'', PStr mode)]"

definition edit_exact :: "string \<Rightarrow> string \<Rightarrow> string \<Rightarrow> workspace_error + string \<times> edit_match" where
  "edit_exact old new text =
     (let start = (case find_at old text of Some i \<Rightarrow> i | None \<Rightarrow> 0);
          first = length (filter (\<lambda>c. c = lf) (take start text)) + 1
      in finish_edit ''EXACT'' start (start + length old) first (first + (length (splitlines old) - 1)) new text)"

definition edit_normalized :: "bool \<Rightarrow> string \<Rightarrow> string \<Rightarrow> string \<Rightarrow> workspace_error + string \<times> edit_match" where
  "edit_normalized safe old new text =
     (case (if safe then normalized_candidates text old else []) of
        [] \<Rightarrow> Inl (Edit_error ''EDIT_TARGET_NOT_FOUND''
                [(''candidate_count'', PInt 0), (''normalization_attempted'', PBool safe)])
      | [(a, b, l1, l2)] \<Rightarrow> finish_edit ''NORMALIZED_UNIQUE'' a b l1 l2 (replacement_for_source new text) text
      | cs \<Rightarrow> Inl (ambiguous (length cs) ''NORMALIZED''))"

definition edit_text :: "bool \<Rightarrow> string \<Rightarrow> string \<Rightarrow> string \<Rightarrow> workspace_error + string \<times> edit_match" where
  "edit_text safe old new text =
     (if old = [] then Inl (Edit_error ''INVALID_ARGUMENTS'' [])
      else if count_occ old text > 1 then Inl (ambiguous (count_occ old text) ''EXACT'')
      else if count_occ old text = 1 then edit_exact old new text
      else edit_normalized safe old new text)"

section \<open>Replacing lines\<close>

definition replacement_lines :: "string \<Rightarrow> bool \<Rightarrow> string list \<Rightarrow> string" where
  "replacement_lines newline closed new =
     concat (map (\<lambda>(i, l). l @ (if closed \<or> i < length new - 1 then newline else [])) (enumerate 0 new))"

definition splice_lines :: "nat \<Rightarrow> nat \<Rightarrow> string list \<Rightarrow> string \<Rightarrow> string" where
  "splice_lines a b new text =
     (let ls = map line_raw (lines_of text);
          newline = (if list_ex (\<lambda>l. suffix [cr, lf] l) ls then [cr, lf] else [lf]);
          closed = (b \<noteq> length ls \<or> (text \<noteq> [] \<and> last text \<in> {lf, cr}))
      in concat (take (a - 1) ls) @ replacement_lines newline closed new @ concat (drop b ls))"

definition range_diagnostics :: "int \<Rightarrow> int \<Rightarrow> pydict" where
  "range_diagnostics a b = [(''start_line'', PInt a), (''end_line'', PInt b)]"

definition edit_lines_text :: "int \<Rightarrow> int \<Rightarrow> string list \<Rightarrow> string \<Rightarrow> workspace_error + string" where
  "edit_lines_text a b new text =
     (let total = length (lines_of text) in
      if a < 1 \<or> b < a \<or> b > int total
        then Inl (Edit_error ''INVALID_EDIT_RANGE'' (range_diagnostics a b @ [(''total_lines'', PInt (int total))]))
      else (let updated = splice_lines (nat a) (nat b) new text in
        if updated = text then Inl (Edit_error ''NO_CHANGE'' (range_diagnostics a b)) else Inr updated))"

section \<open>What a replaced target is\<close>

lemma edit_exact_result:
  assumes t: "t \<noteq> []" "count_occ t text = 1" and e: "edit_exact t new text = Inr (upd, m)"
  obtains pre post where "text = pre @ t @ post" "upd = pre @ new @ post" "upd \<noteq> text" "em_mode m = ''EXACT''"
    "\<not> contains t post" "\<forall>k<length pre. \<not> prefix t (drop k text)"
proof -
  obtain i where i: "find_at t text = Some i" "count_occ t (drop (i + length t) text) = 0"
    using count_occ_found [OF t(1)] t(2) by fastforce
  let ?pre = "take i text" and ?post = "drop (i + length t) text"
  have parts: "?pre @ t @ ?post = text" and first: "\<forall>k<i. \<not> prefix t (drop k text)"
    using find_at_Some [OF i(1)] by auto
  have "upd = ?pre @ new @ ?post" "upd \<noteq> text" "em_mode m = ''EXACT''"
    using e i(1) by (auto simp: edit_exact_def finish_edit_def Let_def split: if_splits)
  moreover have "\<not> contains t ?post" using i(2) count_occ_none [OF t(1)] by blast
  moreover have "\<forall>k<length ?pre. \<not> prefix t (drop k text)" using first by simp
  ultimately show ?thesis using parts that by metis
qed

lemma line_spans_length [simp]: "length (line_spans off ls) = length ls"
  by (induction ls arbitrary: off) simp_all

lemma line_spans_nth:
  "i < length ls \<Longrightarrow> line_spans off ls ! i =
     (let start = off + length (concat (map line_raw (take i ls))) in
      \<lparr>ls_body = span_body (ls ! i), ls_start = start, ls_stop = start + length (span_body (ls ! i)),
       ls_next = start + length (line_raw (ls ! i))\<rparr>)"
proof (induction ls arbitrary: off i)
  case (Cons l ls)
  then show ?case by (cases i) (simp_all add: Let_def add.assoc)
qed simp

lemma line_spans_bodies: "map ls_body (line_spans off ls) = map span_body ls"
  by (induction ls arbitrary: off) simp_all

text \<open>The block of whole lines at \<open>i\<close> that a target asks for.\<close>

definition block_matches :: "string list \<Rightarrow> bool \<Rightarrow> (string \<times> string) list \<Rightarrow> nat \<Rightarrow> bool" where
  "block_matches expected final ls i \<longleftrightarrow>
     expected \<noteq> [] \<and> i + length expected \<le> length ls \<and>
     map (rstrip_blanks \<circ> span_body) (take (length expected) (drop i ls)) = expected \<and>
     (final \<longrightarrow> span_body (ls ! (i + length expected - 1)) \<noteq> line_raw (ls ! (i + length expected - 1)))"

lemma span_body_length: "length (span_body l) \<le> length (line_raw l)"
  by (simp add: span_body_def line_raw_def)

lemma span_body_prefix: "prefix (span_body l) (line_raw l)"
  by (simp add: span_body_def line_raw_def)

lemma candidate_at_block:
  assumes "x \<noteq> []" "i + length x \<le> length ls"
  shows "candidate_at final x (line_spans 0 ls) i =
    (if block_matches x final ls i
     then [(length (concat (map line_raw (take i ls))),
            (let last_line = ls ! (i + length x - 1) in
             length (concat (map line_raw (take (i + length x - 1) ls)))
               + length (if final then line_raw last_line else span_body last_line)), i + 1, i + length x)]
     else [])"
proof -
  have pos: "0 < length x" using assms(1) by simp
  have last: "i + length x - 1 < length ls" and i: "i < length ls" using assms(2) pos by linarith+
  have bodies: "map (rstrip_blanks \<circ> ls_body) (take (length x) (drop i (line_spans 0 ls)))
      = map (rstrip_blanks \<circ> span_body) (take (length x) (drop i ls))"
    by (simp only: map_map [symmetric] take_map [symmetric] drop_map [symmetric] line_spans_bodies)
  have same: "length (line_raw l) = length (span_body l) \<longleftrightarrow> span_body l = line_raw l" for l
    by (auto simp: span_body_def line_raw_def)
  show ?thesis
    using assms last i bodies
    by (auto simp: candidate_at_def block_matches_def line_spans_nth Let_def same)
qed

lemma concat_single:
  assumes "concat (map f xs) = [c]"
  shows "\<exists>ys x zs. xs = ys @ x # zs \<and> f x = [c] \<and> (\<forall>y\<in>set ys \<union> set zs. f y = [])"
  using assms
proof (induction xs)
  case (Cons x xs)
  show ?case
  proof (cases "f x = []")
    case True
    then have "concat (map f xs) = [c]" using Cons.prems by simp
    then obtain ys z zs where z: "xs = ys @ z # zs" "f z = [c]" "\<forall>y\<in>set ys \<union> set zs. f y = []"
      using Cons.IH by blast
    then show ?thesis using True by (intro exI [of _ "x # ys"] exI [of _ z] exI [of _ zs]) auto
  next
    case False
    then have "f x = [c]" "\<forall>y\<in>set xs. f y = []" using Cons.prems by (auto simp: append_eq_Cons_conv)
    then show ?thesis by (intro exI [of _ "[]"] exI [of _ x] exI [of _ xs]) auto
  qed
qed simp

text \<open>The text of a matched block: whole lines, the last one with or without its end.\<close>

definition block_text :: "bool \<Rightarrow> nat \<Rightarrow> (string \<times> string) list \<Rightarrow> nat \<Rightarrow> string" where
  "block_text final width ls i =
     concat (map line_raw (take (width - 1) (drop i ls)))
     @ (if final then line_raw (ls ! (i + width - 1)) else span_body (ls ! (i + width - 1)))"

lemma unique_candidate:
  assumes c: "normalized_candidates text t = [(a, b, l1, l2)]" and t: "target_lines t = (expected, final)"
  obtains i where "block_matches expected final (lines_of text) i"
    "\<forall>j. block_matches expected final (lines_of text) j \<longrightarrow> j = i"
    "take a text = concat (map line_raw (take i (lines_of text)))"
    "take a text @ block_text final (length expected) (lines_of text) i @ drop b text = text"
proof -
  let ?ls = "lines_of text" and ?w = "length expected"
  let ?f = "candidate_at final expected (line_spans 0 ?ls)"
  have x: "expected \<noteq> []" and cs: "concat (map ?f [0..<length ?ls + 1 - ?w]) = [(a, b, l1, l2)]"
    using c t by (auto simp: normalized_candidates_def Let_def split: if_splits)
  obtain ys i zs where split: "[0..<length ?ls + 1 - ?w] = ys @ i # zs" and fi: "?f i = [(a, b, l1, l2)]"
      and rest: "\<forall>y\<in>set ys \<union> set zs. ?f y = []"
    using concat_single [OF cs] by blast
  have range: "j \<in> set (ys @ i # zs) \<longleftrightarrow> j + ?w \<le> length ?ls" for j
    using x unfolding split [symmetric] by (cases expected) auto
  have i: "i + ?w \<le> length ?ls" using range [of i] by simp
  have m: "block_matches expected final ?ls i" using fi candidate_at_block [OF x i, of final] by (auto split: if_splits)
  have unique: "j = i" if j: "block_matches expected final ?ls j" for j
  proof (rule ccontr)
    assume "j \<noteq> i"
    have jw: "j + ?w \<le> length ?ls" using j by (simp add: block_matches_def)
    then have "?f j = []" using range [of j] rest \<open>j \<noteq> i\<close> by auto
    then show False using j candidate_at_block [OF x jw, of final] by simp
  qed
  have pos: "i + ?w - 1 < length ?ls" "i \<le> i + ?w - 1" using i x by (cases expected, auto)+
  let ?z = "?ls ! (i + ?w - 1)"
  let ?pre = "concat (map line_raw (take i ?ls))"
  let ?mid = "concat (map line_raw (take (?w - 1) (drop i ?ls)))"
  let ?fin = "if final then line_raw ?z else span_body ?z"
  have "prefix ?fin (line_raw ?z)" using span_body_prefix [of ?z] by simp
  then obtain tail where tail: "line_raw ?z = ?fin @ tail" by (elim prefixE)
  have w: "i + ?w - 1 = i + (?w - 1)" "Suc (i + (?w - 1)) = i + ?w" using x by (cases expected, auto)+
  have "?ls = take (i + (?w - 1)) ?ls @ ?ls ! (i + (?w - 1)) # drop (Suc (i + (?w - 1))) ?ls"
    using pos(1) unfolding w(1) by (rule id_take_nth_drop)
  then have "?ls = take i ?ls @ take (?w - 1) (drop i ?ls) @ ?z # drop (i + ?w) ?ls"
    unfolding w take_add by simp
  then have "text = concat (map line_raw (take i ?ls @ take (?w - 1) (drop i ?ls) @ ?z # drop (i + ?w) ?ls))"
    using lines_of_complete [of "text"] by metis
  then have whole: "text = ?pre @ (?mid @ ?fin) @ tail @ concat (map line_raw (drop (i + ?w) ?ls))"
    using tail by simp
  have upto: "concat (map line_raw (take (i + ?w - 1) ?ls)) = ?pre @ ?mid"
    unfolding w(1) take_add by simp
  have ab: "a = length ?pre" "b = length (?pre @ ?mid) + length ?fin"
    using fi m unfolding candidate_at_block [OF x i] Let_def upto by (auto split: if_splits)
  have "take a text = ?pre" "drop b text = tail @ concat (map line_raw (drop (i + ?w) ?ls))"
    by (subst whole, simp add: ab)+
  moreover have "block_text final ?w ?ls i = ?mid @ ?fin" by (simp add: block_text_def)
  ultimately show ?thesis using that [OF m] unique whole by simp
qed

section \<open>Properties\<close>

text \<open>The first occurrence of the text is replaced, and it does not occur after that.\<close>

definition exact_edit :: "string \<Rightarrow> string \<Rightarrow> string \<Rightarrow> string \<Rightarrow> bool" where
  "exact_edit old new text upd \<longleftrightarrow>
     (\<exists>pre post. text = pre @ old @ post \<and> upd = pre @ new @ post \<and> \<not> contains old post \<and>
        (\<forall>k<length pre. \<not> prefix old (drop k text)))"

text \<open>The only block of whole lines that the lines asked for match is replaced.\<close>

definition block_edit :: "string \<Rightarrow> string \<Rightarrow> string \<Rightarrow> string \<Rightarrow> bool" where
  "block_edit old new text upd \<longleftrightarrow>
     (let (x, final) = target_lines old; ls = lines_of text in
      \<exists>i post. block_matches x final ls i \<and> (\<forall>j. block_matches x final ls j \<longrightarrow> j = i) \<and>
        text = concat (map line_raw (take i ls)) @ block_text final (length x) ls i @ post \<and>
        upd = concat (map line_raw (take i ls)) @ replacement_for_source new text @ post)"

lemma edit_exact_correct:
  assumes "t \<noteq> []" "count_occ t text = 1" "edit_exact t new text = Inr (upd, m)"
  shows "upd \<noteq> text \<and> em_mode m = ''EXACT'' \<and> exact_edit t new text upd"
  using edit_exact_result [OF assms] unfolding exact_edit_def by metis

lemma edit_normalized_correct:
  assumes "edit_normalized safe old new text = Inr (upd, m)"
  shows "safe \<and> upd \<noteq> text \<and> em_mode m = ''NORMALIZED_UNIQUE'' \<and> block_edit old new text upd"
proof -
  obtain a b l1 l2 where safe: safe and c: "normalized_candidates text old = [(a, b, l1, l2)]"
      and f: "finish_edit ''NORMALIZED_UNIQUE'' a b l1 l2 (replacement_for_source new text) text = Inr (upd, m)"
    using assms by (auto simp: edit_normalized_def split: list.splits if_splits)
  obtain x final where t: "target_lines old = (x, final)" by (cases "target_lines old")
  obtain i where i: "block_matches x final (lines_of text) i"
      "\<forall>j. block_matches x final (lines_of text) j \<longrightarrow> j = i"
      "take a text = concat (map line_raw (take i (lines_of text)))"
      "take a text @ block_text final (length x) (lines_of text) i @ drop b text = text"
    using unique_candidate [OF c t] by blast
  have u: "upd = take a text @ replacement_for_source new text @ drop b text" "upd \<noteq> text"
      "em_mode m = ''NORMALIZED_UNIQUE''"
    using f by (auto simp: finish_edit_def Let_def split: if_splits)
  have "block_edit old new text upd" unfolding block_edit_def t Let_def prod.case
    by (intro exI [of _ i] exI [of _ "drop b text"] conjI i(1,2) i(4) [symmetric, unfolded i(3)] u(1) [unfolded i(3)])
  then show ?thesis using safe u by blast
qed

text \<open>
  An accepted edit replaces one stretch of the file and keeps every byte before and after it. Either the
  stretch is the text asked for, which starts nowhere earlier and does not occur again after it; or the
  text occurs nowhere, the stretch is a block of whole lines that equal the lines asked for up to
  trailing blanks and line ends, and no other block of the file does. The file is changed in any case.
\<close>

theorem edit_replaces_one_target:
  assumes "edit_text safe old new text = Inr (upd, m)"
  shows "upd \<noteq> text \<and>
    (em_mode m = ''EXACT'' \<and> exact_edit old new text upd \<or>
     em_mode m = ''NORMALIZED_UNIQUE'' \<and> safe \<and> \<not> contains old text \<and> block_edit old new text upd)"
proof -
  have old: "old \<noteq> []" using assms by (auto simp: edit_text_def)
  consider (exact) "count_occ old text = 1" "edit_exact old new text = Inr (upd, m)"
    | (normalized) "count_occ old text = 0" "edit_normalized safe old new text = Inr (upd, m)"
    using assms old by (auto simp: edit_text_def split: if_splits)
  then show ?thesis
  proof cases
    case exact
    then show ?thesis using edit_exact_correct [OF old] by blast
  next
    case normalized
    then show ?thesis using edit_normalized_correct count_occ_none [OF old] by blast
  qed
qed

lemma edit_replaces_one_target_witness:
  "exact_edit ''y'' ''b'' ''x y z'' ''x b z'' \<or> block_edit ''y'' ''b'' ''x y z'' ''x b z''"
proof -
  have "edit_text True ''y'' ''b'' ''x y z'' = Inr (''x b z'', \<lparr>em_mode = ''EXACT'', em_count = 1, em_first = 1, em_last = 1\<rparr>)"
    by (simp add: edit_text_def count_occ_Cons edit_exact_def finish_edit_def splitlines_def lines_of.simps)
  from edit_replaces_one_target [OF this] show ?thesis by blast
qed

text \<open>
  A text that overlaps itself counts as unique although it occurs twice: the test for an ambiguous target
  counts occurrences that do not overlap, so the first of two is replaced without a word.
\<close>

theorem overlapping_target_is_accepted:
  "\<exists>text old new upd m. edit_text True old new text = Inr (upd, m) \<and>
     prefix old text \<and> prefix old (drop 1 text)"
proof -
  have "edit_text True ''aa'' ''b'' ''aaa'' = Inr (''ba'', \<lparr>em_mode = ''EXACT'', em_count = 1, em_first = 1, em_last = 1\<rparr>)"
    by (simp add: edit_text_def count_occ_Cons edit_exact_def finish_edit_def splitlines_def lines_of.simps)
  then show ?thesis by (intro exI [of _ "''aaa''"] exI [of _ "''aa''"] exI [of _ "''b''"] exI conjI) simp_all
qed

section \<open>Replaced lines\<close>

text \<open>Lines that hold no separator, each closed by a line feed.\<close>

definition plain_line :: "string \<Rightarrow> bool" where
  "plain_line b \<longleftrightarrow> first_line (b @ [lf]) = (b, [lf], [])"

definition unlines :: "string list \<Rightarrow> string" where
  "unlines bs = concat (map (\<lambda>b. b @ [lf]) bs)"

lemma sep_length_before_lf: "sep_length (c # cs @ lf # r) = sep_length (c # cs @ [lf])"
  by (cases cs rule: list.exhaust; cases "tl cs") (auto split: if_splits)

lemma plain_line_tail:
  assumes "plain_line (c # b)"
  shows "sep_length (c # b @ [lf]) = 0 \<and> plain_line b"
  using assms by (auto simp: plain_line_def simp del: sep_length.simps split: if_splits prod.splits)

lemma first_line_plain: "plain_line b \<Longrightarrow> first_line (b @ lf # r) = (b, [lf], r)"
proof (induction b)
  case (Cons c b)
  then have "first_line (b @ lf # r) = (b, [lf], r)" "sep_length (c # b @ lf # r) = 0"
    using plain_line_tail [OF Cons.prems] sep_length_before_lf by metis+
  then show ?case by (simp del: sep_length.simps)
qed simp

lemma lines_of_plain: "list_all plain_line bs \<Longrightarrow> lines_of (unlines bs) = map (\<lambda>b. (b, [lf])) bs"
proof (induction bs)
  case (Cons b bs)
  have "unlines (b # bs) = b @ lf # unlines bs" by (simp add: unlines_def)
  then show ?case using Cons lines_of_step [OF first_line_plain [of b "unlines bs"]] by simp
qed (simp add: unlines_def)

lemma plain_line_no_cr: "plain_line b \<Longrightarrow> \<not> suffix [cr, lf] (b @ [lf])"
proof (induction b)
  case (Cons c b)
  have p: "sep_length (c # b @ [lf]) = 0" "plain_line b" using plain_line_tail [OF Cons.prems] by auto
  show ?case
  proof
    assume s: "suffix [cr, lf] ((c # b) @ [lf])"
    then have "b = [] \<and> c = cr \<or> suffix [cr, lf] (b @ [lf])" by (cases b) (auto simp: suffix_Cons)
    then show False using p Cons.IH by auto
  qed
qed (simp add: suffix_def)

lemma unlines_append [simp]: "unlines (xs @ ys) = unlines xs @ unlines ys"
  by (simp add: unlines_def)

lemma last_unlines: "bs \<noteq> [] \<Longrightarrow> unlines bs \<noteq> [] \<and> last (unlines bs) = lf"
  by (cases bs rule: rev_cases) (simp_all add: unlines_def)

lemma replacement_lines_closed: "replacement_lines [lf] True new = unlines new"
proof -
  have "map (\<lambda>(i, l). l @ [lf]) (enumerate n new) = map (\<lambda>b. b @ [lf]) new" for n
    by (induction new arbitrary: n) simp_all
  then show ?thesis by (simp add: replacement_lines_def unlines_def)
qed

lemma splice_plain:
  assumes bs: "list_all plain_line bs" and a: "bs \<noteq> []"
  shows "splice_lines a b new (unlines bs) = unlines (take (a - 1) bs @ new @ drop b bs)"
proof -
  have ls: "map line_raw (lines_of (unlines bs)) = map (\<lambda>b. b @ [lf]) bs"
    by (simp add: lines_of_plain [OF bs] line_raw_def)
  have "\<not> list_ex (\<lambda>l. suffix [cr, lf] l) (map (\<lambda>b. b @ [lf]) bs)"
    using bs plain_line_no_cr by (auto simp: list_ex_iff list_all_iff)
  then have "splice_lines a b new (unlines bs) =
      concat (take (a - 1) (map (\<lambda>b. b @ [lf]) bs)) @ replacement_lines [lf] True new @ concat (drop b (map (\<lambda>b. b @ [lf]) bs))"
    using last_unlines [OF a] by (simp add: splice_lines_def Let_def ls)
  also have "\<dots> = unlines (take (a - 1) bs @ new @ drop b bs)"
    by (simp add: replacement_lines_closed) (simp add: unlines_def take_map drop_map)
  finally show ?thesis .
qed

text \<open>
  Replacing a range of lines does exactly that. In a file whose lines are closed by line feeds the edited
  file has the lines before the range, the given lines and the lines after the range, and reading it
  back gives these lines; a replacement that changes nothing is refused.
\<close>

theorem edit_lines_replaces_range:
  assumes "list_all plain_line bs" "list_all plain_line new" "1 \<le> a" "a \<le> b" "b \<le> length bs"
  shows "let lines = take (a - 1) bs @ new @ drop b bs in
    splitlines (unlines lines) = lines \<and>
    edit_lines_text (int a) (int b) new (unlines bs) =
      (if lines = bs then Inl (Edit_error ''NO_CHANGE'' (range_diagnostics (int a) (int b))) else Inr (unlines lines))"
proof -
  let ?ls = "take (a - 1) bs @ new @ drop b bs"
  have plain: "list_all plain_line ?ls"
    using assms(1,2) by (auto simp: list_all_iff dest: in_set_takeD in_set_dropD)
  have reread: "splitlines (unlines x) = x" if "list_all plain_line x" for x
    by (simp add: splitlines_def lines_of_plain [OF that] comp_def)
  then have inj: "unlines ?ls = unlines bs \<longleftrightarrow> ?ls = bs" using plain assms(1) by metis
  have bs: "bs \<noteq> []" using assms(3-5) by auto
  have total: "length (lines_of (unlines bs)) = length bs" by (simp add: lines_of_plain [OF assms(1)])
  have range: "\<not> (int a < 1 \<or> int b < int a \<or> int (length bs) < int b)" using assms(3-5) by linarith
  have "edit_lines_text (int a) (int b) new (unlines bs) =
      (if unlines ?ls = unlines bs then Inl (Edit_error ''NO_CHANGE'' (range_diagnostics (int a) (int b)))
       else Inr (unlines ?ls))"
    unfolding edit_lines_text_def Let_def total if_not_P [OF range] nat_int splice_plain [OF assms(1) bs] ..
  then show ?thesis using reread [OF plain] unfolding inj Let_def by (rule conjI [rotated])
qed

lemma edit_lines_replaces_range_witness:
  "let lines = take (2 - 1) [''a'', ''b''] @ [''c'', ''d''] @ drop 2 [''a'', ''b''] in
    splitlines (unlines lines) = lines \<and>
    edit_lines_text (int 2) (int 2) [''c'', ''d''] (unlines [''a'', ''b'']) =
      (if lines = [''a'', ''b''] then Inl (Edit_error ''NO_CHANGE'' (range_diagnostics (int 2) (int 2))) else Inr (unlines lines))"
  by (rule edit_lines_replaces_range) (simp_all add: plain_line_def)

text \<open>
  Lines closed by a carriage return alone are not kept apart. Replacing the second of two such lines by one
  empty line leaves a file of one line: the line feed that closes the replacement joins the carriage return
  before it.
\<close>

theorem edit_lines_loses_line:
  "\<exists>text upd. length (splitlines text) = 2 \<and> edit_lines_text 2 2 [''''] text = Inr upd \<and> length (splitlines upd) = 1"
proof (intro exI conjI)
  show "length (splitlines (''a'' @ cr # ''b'' @ [cr])) = 2"
    by (simp add: splitlines_def lines_of.simps)
  show "edit_lines_text 2 2 [''''] (''a'' @ cr # ''b'' @ [cr]) = Inr (''a'' @ [cr, lf])"
    by (simp add: edit_lines_text_def splice_lines_def replacement_lines_def lines_of.simps line_raw_def suffix_def)
  show "length (splitlines (''a'' @ [cr, lf])) = 1"
    by (simp add: splitlines_def lines_of.simps)
qed

end
