(* ===== verification/StagedFiles.thy ===== *)
theory StagedFiles imports TextEdit begin

text \<open>
  The mutable files of a staged workspace (\<open>src/lhas/workspace/staged.py\<close>): editing a file by target
  or by line range under the version the caller has read, and restoring it from the baseline.

  \<^item> A file is found under its resolved path relative to the workspace root. Resolving a path and
    refusing one that leaves the root (\<open>resolve_path\<close>) depends on the links on the disk: it is the
    parameter \<open>de_resolve\<close>, \<open>None\<close> when the path escapes. \<open>de_posix\<close> is \<open>Path(path).as_posix()\<close>.
  \<^item> A node that is a link after resolving (it appeared in between) is \<open>Linked\<close>; \<open>Other_node\<close> exists
    but is no file. \<open>de_utf8\<close> says whether bytes decode; \<open>de_fails\<close> whether writing a path fails.
\<close>

section \<open>The workspace\<close>

datatype file_node = Regular string | Linked string | Other_node

record staged =
  sg_files :: "string \<Rightarrow> file_node option"
  sg_baseline :: "string \<Rightarrow> string option"

record disk_env =
  de_resolve :: "string \<Rightarrow> string option"
  de_posix :: "string \<Rightarrow> string"
  de_sha :: "string \<Rightarrow> string"
  de_utf8 :: "string \<Rightarrow> bool"
  de_fails :: "string \<Rightarrow> bool"

text \<open>The checks with which both edits begin: the resolved path and the bytes of the file.\<close>

definition open_file :: "disk_env \<Rightarrow> string \<Rightarrow> staged \<Rightarrow> workspace_error + string \<times> string" where
  "open_file env path sg =
     (case de_resolve env path of
        None \<Rightarrow> Inl Path_escape
      | Some k \<Rightarrow>
          (case sg_files sg k of
             None \<Rightarrow> Inl File_missing
           | Some Other_node \<Rightarrow> Inl Is_directory
           | Some (Linked d) \<Rightarrow> Inl Path_escape
           | Some (Regular d) \<Rightarrow> if CHR 0x00 \<in> set d then Inl Binary_file else Inr (k, d)))"

text \<open>\<open>_atomic_write\<close>: a temporary file that is moved over the old one, so a failure leaves the old one.\<close>

definition atomic_write :: "disk_env \<Rightarrow> string \<Rightarrow> string \<Rightarrow> staged \<Rightarrow> (workspace_error + unit) \<times> staged" where
  "atomic_write env k d sg =
     (if de_fails env k then (Inl Os_error, sg) else (Inr (), sg\<lparr>sg_files := (sg_files sg)(k \<mapsto> Regular d)\<rparr>))"

definition write_then ::
  "disk_env \<Rightarrow> string \<Rightarrow> string \<Rightarrow> pydict \<Rightarrow> staged \<Rightarrow> (workspace_error + pydict) \<times> staged" where
  "write_then env k d receipt sg =
     (case atomic_write env k d sg of (Inl e, sg') \<Rightarrow> (Inl e, sg') | (Inr _, sg') \<Rightarrow> (Inr receipt, sg'))"

definition version_fields :: "disk_env \<Rightarrow> string \<Rightarrow> string \<Rightarrow> pydict" where
  "version_fields env before after =
     [(''before_sha256'', PStr (de_sha env before)), (''after_sha256'', PStr (de_sha env after)),
      (''bytes_before'', PInt (int (length before))), (''bytes_after'', PInt (int (length after)))]"

section \<open>Edits\<close>

definition edit_file ::
  "disk_env \<Rightarrow> string \<Rightarrow> string \<Rightarrow> string \<Rightarrow> string option \<Rightarrow> bool \<Rightarrow> staged \<Rightarrow>
   (workspace_error + pydict) \<times> staged"
where
  "edit_file env path old new expected safe sg =
     (case open_file env path sg of
        Inl e \<Rightarrow> (Inl e, sg)
      | Inr (k, data) \<Rightarrow>
          if expected \<noteq> None \<and> expected \<noteq> Some (de_sha env data) then (Inl Stale_version, sg)
          else if \<not> de_utf8 env data then (Inl Undecodable, sg)
          else (case edit_text safe old new data of
              Inl e \<Rightarrow> (Inl e, sg)
            | Inr (updated, m) \<Rightarrow>
                write_then env k updated
                  ([(''path'', PStr (de_posix env path)), (''replacements'', PInt 1)] @ version_fields env data updated
                   @ [(''match_mode'', PStr (em_mode m)), (''candidate_count'', PInt (int (em_count m))),
                      (''matched_start_line'', PInt (int (em_first m))), (''matched_end_line'', PInt (int (em_last m)))]) sg))"

text \<open>The lines to put in: a list of strings without line ends, \<open>None\<close> when the argument is not one.\<close>

definition line_argument :: "pyval \<Rightarrow> string list option" where
  "line_argument v =
     (case v of
        PList vs \<Rightarrow>
          if list_all (\<lambda>x. case x of PStr s \<Rightarrow> lf \<notin> set s \<and> cr \<notin> set s | _ \<Rightarrow> False) vs
          then Some (map (\<lambda>x. case x of PStr s \<Rightarrow> s | _ \<Rightarrow> []) vs) else None
      | _ \<Rightarrow> None)"

definition edit_lines ::
  "disk_env \<Rightarrow> string \<Rightarrow> pyval \<Rightarrow> pyval \<Rightarrow> pyval \<Rightarrow> pyval \<Rightarrow> staged \<Rightarrow> (workspace_error + pydict) \<times> staged"
where
  "edit_lines env path start stop lines expected sg =
     (case open_file env path sg of
        Inl e \<Rightarrow> (Inl e, sg)
      | Inr (k, data) \<Rightarrow>
          (case expected of
             PStr h \<Rightarrow>
               if h = [] then (Inl Invalid_arguments, sg)
               else if h \<noteq> de_sha env data then (Inl Stale_version, sg)
               else (case (start, stop) of
                   (PInt a, PInt b) \<Rightarrow>
                     (case line_argument lines of
                        None \<Rightarrow> (Inl Invalid_arguments, sg)
                      | Some new \<Rightarrow>
                          if \<not> de_utf8 env data then (Inl Undecodable, sg)
                          else (case edit_lines_text a b new data of
                              Inl e \<Rightarrow> (Inl e, sg)
                            | Inr updated \<Rightarrow>
                                write_then env k updated
                                  ([(''path'', PStr (de_posix env path)), (''start_line'', PInt a), (''end_line'', PInt b),
                                    (''lines_written'', PInt (int (length new)))] @ version_fields env data updated) sg))
                 | _ \<Rightarrow> (Inl (Edit_error ''INVALID_EDIT_RANGE'' []), sg))
           | _ \<Rightarrow> (Inl Invalid_arguments, sg)))"

definition restore_file :: "disk_env \<Rightarrow> string \<Rightarrow> staged \<Rightarrow> (workspace_error + pydict) \<times> staged" where
  "restore_file env path sg =
     (case de_resolve env path of
        None \<Rightarrow> (Inl Path_escape, sg)
      | Some k \<Rightarrow>
          (case sg_baseline sg k of
             None \<Rightarrow> (Inl File_missing, sg)
           | Some data \<Rightarrow>
               write_then env k data
                 [(''path'', PStr (de_posix env path)), (''restored'', PBool True), (''sha256'', PStr (de_sha env data))] sg))"

section \<open>Histories\<close>

text \<open>The calls of a session. The links on the disk may change, so each call has its own environment.\<close>

datatype staged_call =
    Edit_target string string string "string option" bool
  | Edit_range string pyval pyval pyval pyval
  | Restore string

fun call_path :: "staged_call \<Rightarrow> string" where
  "call_path (Edit_target p old new h safe) = p"
| "call_path (Edit_range p a b ls h) = p"
| "call_path (Restore p) = p"

fun staged_step :: "disk_env \<Rightarrow> staged_call \<Rightarrow> staged \<Rightarrow> (workspace_error + pydict) \<times> staged" where
  "staged_step env (Edit_target p old new h safe) sg = edit_file env p old new h safe sg"
| "staged_step env (Edit_range p a b ls h) sg = edit_lines env p a b ls h sg"
| "staged_step env (Restore p) sg = restore_file env p sg"

definition staged_run :: "(disk_env \<times> staged_call) list \<Rightarrow> staged \<Rightarrow> staged" where
  "staged_run calls sg = fold (\<lambda>(env, c) s. snd (staged_step env c s)) calls sg"

section \<open>What a call changes\<close>

lemma write_then_cases:
  assumes "write_then env k d r sg = (res, sg')"
  shows "(sg' = sg \<and> res = Inl Os_error) \<or> (res = Inr r \<and> sg' = sg\<lparr>sg_files := (sg_files sg)(k \<mapsto> Regular d)\<rparr>)"
  using assms by (auto simp: write_then_def atomic_write_def split: if_splits)

lemma open_file_Inr:
  "open_file env path sg = Inr (k, d) \<longleftrightarrow>
     de_resolve env path = Some k \<and> sg_files sg k = Some (Regular d) \<and> CHR 0x00 \<notin> set d"
  by (auto simp: open_file_def split: option.splits file_node.splits)

lemma edit_file_cases:
  assumes "edit_file env path old new expected safe sg = (res, sg')"
  obtains (refused) e where "res = Inl e" "sg' = sg"
  | (edited) k data upd m r where "open_file env path sg = Inr (k, data)" "expected \<in> {None, Some (de_sha env data)}"
      "de_utf8 env data" "edit_text safe old new data = Inr (upd, m)" "res = Inr r"
      "sg' = sg\<lparr>sg_files := (sg_files sg)(k \<mapsto> Regular upd)\<rparr>"
      "dict_get r ''before_sha256'' = PStr (de_sha env data)" "dict_get r ''after_sha256'' = PStr (de_sha env upd)"
proof (cases "\<exists>k data upd m. open_file env path sg = Inr (k, data) \<and> expected \<in> {None, Some (de_sha env data)} \<and>
    de_utf8 env data \<and> edit_text safe old new data = Inr (upd, m)")
  case False
  then have "\<exists>e. res = Inl e \<and> sg' = sg"
    using assms by (cases "open_file env path sg")
      (auto simp: edit_file_def split: prod.splits if_splits sum.splits)
  then show ?thesis using refused by blast
next
  case True
  then obtain k data upd m where t: "open_file env path sg = Inr (k, data)" "expected \<in> {None, Some (de_sha env data)}"
    "de_utf8 env data" "edit_text safe old new data = Inr (upd, m)" by blast
  then obtain r where "write_then env k upd r sg = (res, sg')"
      "dict_get r ''before_sha256'' = PStr (de_sha env data)" "dict_get r ''after_sha256'' = PStr (de_sha env upd)"
    using assms by (auto simp: edit_file_def version_fields_def dict_get_def)
  with write_then_cases[OF this(1)] t refused edited show ?thesis by blast
qed

lemma edit_lines_cases:
  assumes "edit_lines env path start stop lines expected sg = (res, sg')"
  obtains (refused) e where "res = Inl e" "sg' = sg"
  | (edited) k data upd a b new r where "open_file env path sg = Inr (k, data)" "expected = PStr (de_sha env data)"
      "de_utf8 env data" "start = PInt a" "stop = PInt b" "line_argument lines = Some new"
      "edit_lines_text a b new data = Inr upd" "res = Inr r"
      "sg' = sg\<lparr>sg_files := (sg_files sg)(k \<mapsto> Regular upd)\<rparr>"
      "dict_get r ''before_sha256'' = PStr (de_sha env data)" "dict_get r ''after_sha256'' = PStr (de_sha env upd)"
proof (cases "\<exists>k data upd a b new. open_file env path sg = Inr (k, data) \<and> expected = PStr (de_sha env data) \<and>
    de_sha env data \<noteq> [] \<and> de_utf8 env data \<and> start = PInt a \<and> stop = PInt b \<and> line_argument lines = Some new \<and>
    edit_lines_text a b new data = Inr upd")
  case False
  then have "\<exists>e. res = Inl e \<and> sg' = sg"
    using assms by (cases "open_file env path sg")
      (auto simp: edit_lines_def split: prod.splits if_splits sum.splits pyval.splits option.splits)
  then show ?thesis using refused by blast
next
  case True
  then obtain k data upd a b new where t: "open_file env path sg = Inr (k, data)" "expected = PStr (de_sha env data)"
    "de_sha env data \<noteq> []" "de_utf8 env data" "start = PInt a" "stop = PInt b" "line_argument lines = Some new"
    "edit_lines_text a b new data = Inr upd" by blast
  then obtain r where "write_then env k upd r sg = (res, sg')"
      "dict_get r ''before_sha256'' = PStr (de_sha env data)" "dict_get r ''after_sha256'' = PStr (de_sha env upd)"
    using assms by (auto simp: edit_lines_def version_fields_def dict_get_def)
  with write_then_cases[OF this(1)] t refused edited show ?thesis by blast
qed

lemma edit_text_changes: "edit_text safe old new text = Inr (upd, m) \<Longrightarrow> upd \<noteq> text"
  by (auto simp: edit_text_def edit_exact_def edit_normalized_def finish_edit_def Let_def split: if_splits list.splits prod.splits)

lemma edit_lines_changes: "edit_lines_text a b new text = Inr upd \<Longrightarrow> upd \<noteq> text"
  by (auto simp: edit_lines_text_def Let_def split: if_splits)

text \<open>Every call leaves the baseline and every file but the one its path resolves to.\<close>

lemma staged_step_frame:
  "sg_baseline (snd (staged_step env c sg)) = sg_baseline sg \<and>
   (\<forall>k. de_resolve env (call_path c) \<noteq> Some k \<longrightarrow> sg_files (snd (staged_step env c sg)) k = sg_files sg k)"
proof (cases c)
  case (Edit_target p old new h safe)
  obtain res sg' where s: "edit_file env p old new h safe sg = (res, sg')" by (cases "edit_file env p old new h safe sg")
  then have st: "staged_step env c sg = (res, sg')" by (simp add: Edit_target)
  from s show ?thesis unfolding st snd_conv
    by (cases rule: edit_file_cases) (auto simp: open_file_Inr Edit_target)
next
  case (Edit_range p a b ls h)
  obtain res sg' where s: "edit_lines env p a b ls h sg = (res, sg')" by (cases "edit_lines env p a b ls h sg")
  then have st: "staged_step env c sg = (res, sg')" by (simp add: Edit_range)
  from s show ?thesis unfolding st snd_conv
    by (cases rule: edit_lines_cases) (auto simp: open_file_Inr Edit_range)
next
  case (Restore p)
  then show ?thesis
    by (auto simp: restore_file_def write_then_def atomic_write_def split: option.splits)
qed

lemma staged_run_baseline: "sg_baseline (staged_run calls sg) = sg_baseline sg"
  unfolding staged_run_def
  by (induction calls arbitrary: sg) (auto simp: staged_step_frame)

section \<open>Properties\<close>

text \<open>
  A call is confined and all or nothing. Whatever it does, the baseline and every file but the one its path
  resolves to stay as they are, and nothing changes when the path escapes or the call raises; when an edit
  succeeds, the file was a regular text file in the version the caller named, its new content differs, and
  the receipt carries the digests of the two versions.
\<close>

theorem staged_call_is_confined:
  assumes "staged_step env c sg = (res, sg')"
  shows "sg_baseline sg' = sg_baseline sg \<and>
    (\<forall>k. de_resolve env (call_path c) \<noteq> Some k \<longrightarrow> sg_files sg' k = sg_files sg k) \<and>
    (\<forall>e. res = Inl e \<longrightarrow> sg' = sg) \<and>
    (\<forall>r p old new h safe. res = Inr r \<and> c = Edit_target p old new h safe \<longrightarrow>
       (\<exists>k data upd. de_resolve env p = Some k \<and> sg_files sg k = Some (Regular data) \<and> h \<in> {None, Some (de_sha env data)} \<and>
          sg_files sg' k = Some (Regular upd) \<and> upd \<noteq> data \<and>
          dict_get r ''before_sha256'' = PStr (de_sha env data) \<and> dict_get r ''after_sha256'' = PStr (de_sha env upd)))"
proof (intro conjI)
  show "sg_baseline sg' = sg_baseline sg"
    "\<forall>k. de_resolve env (call_path c) \<noteq> Some k \<longrightarrow> sg_files sg' k = sg_files sg k"
    using staged_step_frame[of env c sg] assms by simp_all
  show "\<forall>e. res = Inl e \<longrightarrow> sg' = sg"
  proof (cases c)
    case (Edit_target p old new h safe)
    then have "edit_file env p old new h safe sg = (res, sg')" using assms by simp
    then show ?thesis by (cases rule: edit_file_cases) auto
  next
    case (Edit_range p a b ls h)
    then have "edit_lines env p a b ls h sg = (res, sg')" using assms by simp
    then show ?thesis by (cases rule: edit_lines_cases) auto
  next
    case (Restore p)
    then show ?thesis
      using assms by (auto simp: restore_file_def write_then_def atomic_write_def split: option.splits if_splits)
  qed
  show "\<forall>r p old new h safe. res = Inr r \<and> c = Edit_target p old new h safe \<longrightarrow>
       (\<exists>k data upd. de_resolve env p = Some k \<and> sg_files sg k = Some (Regular data) \<and> h \<in> {None, Some (de_sha env data)} \<and>
          sg_files sg' k = Some (Regular upd) \<and> upd \<noteq> data \<and>
          dict_get r ''before_sha256'' = PStr (de_sha env data) \<and> dict_get r ''after_sha256'' = PStr (de_sha env upd))"
  proof (intro allI impI)
    fix r p old new h safe assume a: "res = Inr r \<and> c = Edit_target p old new h safe"
    then have "edit_file env p old new h safe sg = (res, sg')" using assms by simp
    then show "\<exists>k data upd. de_resolve env p = Some k \<and> sg_files sg k = Some (Regular data) \<and> h \<in> {None, Some (de_sha env data)} \<and>
          sg_files sg' k = Some (Regular upd) \<and> upd \<noteq> data \<and>
          dict_get r ''before_sha256'' = PStr (de_sha env data) \<and> dict_get r ''after_sha256'' = PStr (de_sha env upd)"
    proof (cases rule: edit_file_cases)
      case (edited k data upd m r')
      then show ?thesis using a edit_text_changes[OF edited(4)]
        by (intro exI[of _ k] exI[of _ data] exI[of _ upd]) (auto simp: open_file_Inr)
    qed (use a in simp)
  qed
qed

text \<open>
  No lost update. When two callers have read the same version of a file and one of them edits it, the edit
  of the other one, by target or by lines, is refused as stale and changes nothing, as long as the digest
  tells the two versions apart.
\<close>

theorem second_edit_is_stale:
  assumes "edit_file env p old new (Some h) safe sg = (Inr r, sg1)"
    and "de_resolve env p2 = de_resolve env p"
    and "\<And>k d. de_resolve env p = Some k \<Longrightarrow> sg_files sg1 k = Some (Regular d) \<Longrightarrow> CHR 0x00 \<notin> set d \<and> de_sha env d \<noteq> h"
  shows "edit_file env p2 old2 new2 (Some h) safe2 sg1 = (Inl Stale_version, sg1) \<and>
    (h \<noteq> [] \<longrightarrow> edit_lines env p2 a b ls (PStr h) sg1 = (Inl Stale_version, sg1))"
  using assms(1)
proof (cases rule: edit_file_cases)
  case (edited k data upd m r')
  then have k: "de_resolve env p = Some k" "sg_files sg1 k = Some (Regular upd)" by (auto simp: open_file_Inr)
  from assms(3)[OF this] k assms(2) have "open_file env p2 sg1 = Inr (k, upd)" "de_sha env upd \<noteq> h"
    by (auto simp: open_file_Inr)
  then show ?thesis by (simp add: edit_file_def edit_lines_def)
qed simp

definition plain_disk :: disk_env where
  "plain_disk = \<lparr>de_resolve = Some, de_posix = (\<lambda>p. p), de_sha = (\<lambda>d. ''v'' @ d), de_utf8 = (\<lambda>_. True), de_fails = (\<lambda>_. False)\<rparr>"

definition one_file :: staged where
  "one_file = \<lparr>sg_files = [''f'' \<mapsto> Regular ''ab''], sg_baseline = [''f'' \<mapsto> ''ab'']\<rparr>"

lemma first_edit:
  "\<exists>r. edit_file plain_disk ''f'' ''a'' ''c'' (Some ''vab'') True one_file =
     (Inr r, one_file\<lparr>sg_files := [''f'' \<mapsto> Regular ''cb'']\<rparr>)"
  by (simp add: edit_file_def open_file_def plain_disk_def one_file_def edit_text_def count_occ_Cons edit_exact_def
      finish_edit_def Let_def write_then_def atomic_write_def)

lemma second_edit_is_stale_witness:
  "edit_file plain_disk ''f'' ''b'' ''d'' (Some ''vab'') True (one_file\<lparr>sg_files := [''f'' \<mapsto> Regular ''cb'']\<rparr>) =
     (Inl Stale_version, one_file\<lparr>sg_files := [''f'' \<mapsto> Regular ''cb'']\<rparr>)"
proof -
  obtain r where r: "edit_file plain_disk ''f'' ''a'' ''c'' (Some ''vab'') True one_file =
     (Inr r, one_file\<lparr>sg_files := [''f'' \<mapsto> Regular ''cb'']\<rparr>)" using first_edit by blast
  show ?thesis
    by (rule second_edit_is_stale[OF r refl, THEN conjunct1]) (auto simp: plain_disk_def one_file_def)
qed

text \<open>
  A restored file is its baseline again. Whatever edits and restores happened before, under whatever state
  of the disk, restoring a file of the baseline gives it the bytes it was staged with.
\<close>

theorem restore_returns_baseline:
  assumes "sg_baseline sg k = Some d" and "de_resolve env p = Some k" and "\<not> de_fails env k"
  shows "\<exists>r. restore_file env p (staged_run calls sg) =
    (Inr r, (staged_run calls sg)\<lparr>sg_files := (sg_files (staged_run calls sg))(k \<mapsto> Regular d)\<rparr>)"
  using assms by (simp add: restore_file_def staged_run_baseline write_then_def atomic_write_def)

lemma restore_returns_baseline_witness:
  "\<exists>r. restore_file plain_disk ''f'' (staged_run [(plain_disk, Edit_target ''f'' ''a'' ''c'' None True)] one_file) =
    (Inr r, (staged_run [(plain_disk, Edit_target ''f'' ''a'' ''c'' None True)] one_file)
      \<lparr>sg_files := (sg_files (staged_run [(plain_disk, Edit_target ''f'' ''a'' ''c'' None True)] one_file))(''f'' \<mapsto> Regular ''ab'')\<rparr>)"
  by (rule restore_returns_baseline) (simp_all add: plain_disk_def one_file_def)

end
