(* ===== verification/Spec2Isabelle.thy ===== *)
theory Spec2Isabelle imports
  Prelude Enums Stores RecoveryBudget Progress RecoveryCtl RepairTracker SideEffects ExecControl
  TaskGraph RepairScope Scheduler PlanStore Replan
  Failures RunState Orchestrator RunSafety RunEffects RunLiveness ProviderResume PhaseA
  ExecRows PlanService PlanLoop PlanEntry PlanRun PlanSafety Capabilities ToolContract StepExec
  Once Completion Delegation Observer Parser NativeModels RuntimeTarget NativeTools
  KernelState Kernel KernelFrame KernelBounds KernelSafety KernelRun
  Substrate Reducer ReducerSafety RecoveryRoute ToolResult AuthGate GateSafety RuntimeValidator
  CoreState CoreRecovery CoreLoop CoreSafety AgentLoop ControlArms
  TextEdit StagedFiles
begin

text \<open>
  A verification development for Odys (\<open>src/src/lhas\<close>), an agent runtime that plans a goal as a
  graph of steps, runs the steps, and recovers from their failures.

  \<^bold>\<open>How the program is put together.\<close> A planner turns a goal into a \<open>Plan\<close>, a graph of steps
  (\<open>planning/models.py\<close>). The scheduler (\<open>planning/scheduler.py\<close>) releases the steps that one
  eligibility authority admits. A step runs under an execution-control token
  (\<open>execution_control.py\<close>) that carries the deadline and the cancellation of its ancestors; its
  external effects leave receipts (\<open>side_effects.py\<close>). When a step fails, a bounded local repair
  (\<open>repair_progress.py\<close>, \<open>recovery_control.py\<close>) runs under one root budget
  (\<open>RecoveryBudgetManager\<close>, \<open>RunBudgetLedger\<close>); if it stalls it writes a replan signal, which the
  macro replan service (\<open>planning/replan.py\<close>) turns into a revised plan, committed under a
  version guard in the plan repository (\<open>persistence/planning_repositories.py\<close>). Each task is
  executed by an orchestrator (\<open>orchestrator.py\<close>, \<open>orchestrator_v2.py\<close>) in numbered attempts: an
  attempt is executed, validated (\<open>validation.py\<close>), a failure is classified (\<open>failure.py\<close>), the
  recovery policy (\<open>recovery.py\<close>) decides whether another attempt follows, and after a crash
  the next durable action is read off the rows (\<open>resume.py\<close>, \<open>checkpoint.py\<close>). The planning
  service (\<open>planning/service.py\<close>) joins the parts: it schedules a plan, asks for approval,
  rechecks a step when it dispatches it, runs it under an orchestrator through an executor that
  hands on the contract of the active step (\<open>planning/execution_contract.py\<close>), has its claim
  verified against trusted evidence (\<open>planning/verification.py\<close>), and repairs or replans what
  fails (\<open>planning/replan_policy.py\<close>). A tool is reached only through the tool contract
  (\<open>tools/contract.py\<close>) over the catalog of capabilities (\<open>capability_registry.py\<close>). The arms of phase 5 (\<open>phase5/\<close>) run an agent of their own: a core asks a model for
  calls, an adapter releases them one by one through an authorization gate, each result is normalized,
  recorded as evidence and put to a strategy, a route and a budget decide on its proposal, and a
  validator accepts the final answer. Everything
  that happens is appended to the event store (\<open>persistence/event_store.py\<close>).

  \<^bold>\<open>Theories.\<close>
  \<^item> \<open>Prelude\<close>: Python values (\<open>pyval\<close>), dicts, the string functions the code uses,
    \<open>json.dumps\<close> and digests, and lemmas on them. The hash function is the argument \<open>sha\<close>.
  \<^item> \<open>Enums\<close>: \<open>domain/enums.py\<close> and the event store; locale \<open>append_log\<close> for an event log.
  \<^item> \<open>Stores\<close>: locale \<open>row_store\<close>, tables of rows under a primary key.
  \<^item> \<open>RecoveryBudget\<close>: the run ledger and the budget manager; locale \<open>root_budget\<close>.
  \<^item> \<open>Progress\<close>: the effect-progress evaluator and the context projector.
  \<^item> \<open>RecoveryCtl\<close>: the recovery controller, its replan signals and strategy epochs.
  \<^item> \<open>RepairTracker\<close>: the older repair progress tracker.
  \<^item> \<open>SideEffects\<close>: receipts, their repository and manager, and their life cycle as an
    inductive relation that the manager refines.
  \<^item> \<open>ExecControl\<close>: the token tree in an explicit store, since tokens share their parents.
  \<^item> \<open>TaskGraph\<close>: plans, validation, fingerprints, preconditions, eligibility, transitions.
  \<^item> \<open>RepairScope\<close>: how far a failure reaches and what it invalidates.
  \<^item> \<open>Scheduler\<close>: ready, waiting, blocked and pending steps; the dependency context.
  \<^item> \<open>PlanStore\<close>: the tables of goals, plans and steps.
  \<^item> \<open>Replan\<close>: the macro replan service over the three theories above.
  \<^item> \<open>Failures\<close>: tasks, runs, attempts and results; the rule validator, the failure classifier
    and the recovery policy.
  \<^item> \<open>RunState\<close>: the rows of one run and the decision what to do next (\<open>inspect\<close>, \<open>decide\<close>).
  \<^item> \<open>Orchestrator\<close>: every handler of the recovering orchestrator, its loop and entry points, and
    the phase A loop.
  \<^item> \<open>RunSafety\<close>: the invariant of a run under any sequence of calls, processes and crashes.
  \<^item> \<open>RunEffects\<close>, \<open>RunLiveness\<close>: what each handler adds in a run without interference, and that
    the loop ends; runs that are stuck.
  \<^item> \<open>ProviderResume\<close>: resuming a task under another provider.
  \<^item> \<open>PhaseA\<close>: the phase A loop ends, and what it does with a cancellation.
  \<^item> \<open>ExecRows\<close>: the rows an execution leaves, the workflow verifier and the trigger policy.
  \<^item> \<open>PlanService\<close>: the state of the planning service, failure provenance, inline repair and the
    guarded replan. \<open>PlanLoop\<close>: a round of a dependency plan, from schedule to verdict.
    \<open>PlanEntry\<close>: the linear loop, \<open>execute_goal\<close>, \<open>resume_after_approval\<close>, \<open>repair_after_failure\<close>.
  \<^item> \<open>PlanRun\<close>: a calculus for the fallible, state-passing steps of the service (\<open>sat\<close>, with a rule
    per sequencing operator) and the locale \<open>service_run\<close>, in which every step is shown to keep
    what its parts keep. \<open>PlanSafety\<close>: the interpretations and the properties of whole runs.
  \<^item> \<open>Capabilities\<close>, \<open>ToolContract\<close>: the catalog, discovery, the tool registry, and one call of a tool
    with the checks before and after it.
  \<^item> \<open>StepExec\<close>: the contract of the active step, the agent executor and the tool executor.
  \<^item> \<open>Once\<close>: histories of operations, and the locale \<open>once\<close> of what they hand out at most once.
  \<^item> \<open>NativeModels\<close>: the phases, runtime targets and the execution snapshot of the native kernel,
    with the validators and the repository of the snapshot (\<open>native/models.py\<close>).
  \<^item> \<open>Parser\<close>: what a model provider returned, as the loop sees it (\<open>native/parser.py\<close>).
  \<^item> \<open>Observer\<close>: summaries of tool results and the observer of repeated failures
    (\<open>inner_agent/tool_adapter.py\<close>).
  \<^item> \<open>NativeTools\<close>: the tool dispatcher, stage by stage, and the reconciliation of interrupted calls
    (\<open>native/tools.py\<close>); \<open>once\<close> interpreted for the execution of a call.
  \<^item> \<open>Completion\<close>: completion candidates, their authority and the outer validator
    (\<open>native/completion.py\<close>). A validation is the list of its writes; a crash keeps a prefix.
  \<^item> \<open>Delegation\<close>: the lifecycle of a delegated child and the delivery of its outcome
    (\<open>native/delegation.py\<close>); \<open>once\<close> interpreted for the outcome.
  \<^item> \<open>RuntimeTarget\<close>: provider failures, the health of a route, and switching the runtime target
    (\<open>native/runtime.py\<close>).
  \<^item> \<open>KernelState\<close>, \<open>Kernel\<close>: the native kernel (\<open>native/kernel.py\<close>) over the native theories above: its
    helpers, and the parts of a turn in the order of \<open>run\<close>, each a step that goes on or stops the run.
    \<open>KernelFrame\<close>: what a part leaves alone, one rule per combinator. \<open>KernelBounds\<close>: the loop, its
    termination and its budgets. \<open>KernelSafety\<close>: the loop's invariant and what a result says of the
    completion claims. \<open>KernelRun\<close>: whole runs, and the executor (\<open>native/executor.py\<close>).
  \<^item> \<open>Substrate\<close>: the evidence ledger, artifacts, validator feedback and verified state of phase 5
    (\<open>phase5/substrate\<close>). \<open>Reducer\<close>: the only path from evidence to verified state
    (\<open>substrate/reducer.py\<close>). \<open>ReducerSafety\<close>: what it guarantees over every history; locale
    \<open>content_store\<close>, the artifact store it relies on.
  \<^item> \<open>RecoveryRoute\<close>: the recovery route and the budget gates (\<open>phase5/recovery_route.py\<close>,
    \<open>recovery_budget.py\<close>); locale \<open>recovery_gate\<close>, interpreted on both gates and on their union.
  \<^item> \<open>ToolResult\<close>, \<open>AuthGate\<close>: tool semantics, the normalizer of results, and the gate every call of a
    tool passes (\<open>phase5/execution_control.py\<close>). \<open>GateSafety\<close>: what the gate never lets through.
  \<^item> \<open>RuntimeValidator\<close>: the validator of a final answer (\<open>phase5/runtime_validator.py\<close>).
  \<^item> \<open>CoreState\<close>, \<open>CoreRecovery\<close>, \<open>CoreLoop\<close>: the agent core (\<open>phase5/agent_core.py\<close>): its state, the
    admission of a recovery decision, and its two entry points. \<open>CoreSafety\<close>: the inner loop ends, and
    what a step never does. \<open>AgentLoop\<close>: the adapter that releases one authorized call at a time
    (\<open>phase5/agent_adapter.py\<close>).
  \<^item> \<open>ControlArms\<close>: the shadow observer, the six arms and the harness they run in
    (\<open>phase5/control_arms.py\<close>, \<open>shadow_observer.py\<close>), over the recovery policy of \<open>Failures\<close>.
  \<^item> \<open>TextEdit\<close>, \<open>StagedFiles\<close>: the edits of a staged workspace (\<open>workspace/staged.py\<close>): the search for
    a target, exact or up to line ends, the replacement of lines, and the edits and the restoring of a
    file under a version guard. What they show are lemmas of the library: an edit replaces one target,
    a stale edit is refused, a restored file is its baseline.

  \<^bold>\<open>How state and operations correspond.\<close> A class is a record of its attributes, a method is a
  function from its arguments and that record to its result and the new record, an exception
  is the left side of a sum, and an event appended by a handler is appended to an explicit
  log. A definition keeps the name of the function it models; a helper that stands for part of
  a function is named after what the part does.

  \<^bold>\<open>What is a parameter.\<close> The digest \<open>sha\<close>, the clock (a number given to each operation),
  fresh identifiers, the planner, and the iteration order of a Python set are arguments.
  Writers that run between a read and a guarded write are an arbitrary function on the tables.
  The orchestrators run in an environment (\<open>env\<close>) of the executor, validator, context builder,
  workspace, crash injector and fresh ids, each an arbitrary function of the durable state, so
  that two processes working on one run are two environments. The planning service has an
  environment of its own (\<open>svc_env\<close>): the planner, the verifier, the environment in which the
  orchestrator of a step runs, the approval flags of each capability, the budget guards and
  \<open>json.loads\<close>. The verdict of a JSON schema (\<open>cn_schema\<close>, the package \<open>jsonschema\<close>), the float
  of a timeout and what a tool returns are parameters of the tool contract. A run of the native
  kernel gets one environment per turn number (\<open>turn_env\<close>): the control token at each check, the
  provider's target and answer, the digests of the assembled context, and the environment of each
  tool call. A cancellation inside a dispatch is seen when the dispatch has made its last write.

  \<^bold>\<open>Bounds and fuel.\<close> The depth-first search of plan validation and the search for dependents
  carry a budget of one more than the number of steps, which is enough because the path (or
  the visited set) holds distinct step ids; \<open>TaskGraph\<close> proves that validation never runs out
  of it. Token chains are followed with the number of tokens as fuel; parents are older than
  their children, so it suffices. The loop of the recovering orchestrator has the code's own
  guard of 256 iterations; an attempt takes at most four of them, so 63 attempts fit, which
  \<open>RunLiveness\<close> proves. The loops of the planning service may replan without a bound of their own,
  so they carry fuel, running out of it is an error of its own, and the theorems about them are
  about any amount of fuel. The native kernel's loop needs none: \<open>KernelBounds\<close> proves that a turn
  that goes on counts itself, and the turn budget bounds them. The inner loop of the
  agent core of phase 5 and the loop of its adapter carry fuel; \<open>CoreSafety\<close> proves how much is enough
  for the first under a limiting budget, and the adapter's theorems hold for any amount. Other loops are
  structural or have termination proofs.

  \<^bold>\<open>What the lemmas show.\<close> Each theory proves that its operations keep an invariant (for
  instance \<open>control_ok\<close>, \<open>receipts_ok\<close>, \<open>store_ok\<close>, \<open>ledger_ok\<close>, \<open>run_ok\<close>) and then, in its last section, the
  properties of the component, each preceded by its statement in words. The interfaces are
  locales (\<open>append_log\<close>, \<open>row_store\<close>, \<open>root_budget\<close>, \<open>service_run\<close>, \<open>once\<close>, \<open>content_store\<close>, \<open>recovery_gate\<close>) interpreted on the definitions of the
  component that provides them.

  \<^bold>\<open>What is not modelled.\<close> The command line, the database mapping, providers, the creation,
  listing and diff of workspaces and other input and output, the context shown to a model, and what surrounds the agent of phase 5 (trial
  runners, benchmark adapters, grading). A dash inside a message of the source is written as a hyphen. Of the planning
  service: the confidence and the creation time of a failure provenance, the hook of the effect
  policy, and objects held in a context (guards are functions of the environment). Of the
  orchestrators:
  time stamps, the text of a context and the working state inside a checkpoint; a persisted
  result is kept as the value it parses to, so the error for an unparsable one does not occur;
  the confidence, a float, is left out of the event that reports a classification.
\<close>

end
